(* ===== verification/Prelude.thy ===== *)
theory Prelude
  imports Main "HOL-Library.Multiset" "HOL-Library.List_Lexorder" "HOL-Library.Char_ord"
begin

text \<open>
  Shared vocabulary of the development: Python exceptions as values of a sum type, sequencing
  of fallible calls, dynamically typed integers, decimal printing, and the list lemmas the
  component theories share.  Nothing here is specific to one module of the repository.
\<close>

named_theorems res_simps "inversion of fallible computations that returned a value"

section \<open>Exceptions and fallible results\<close>

text \<open>
  One constructor per exception class the modelled code raises, carrying what its handlers
  read: the message, or the machine-readable reason of \<open>GuardError\<close>,
  \<open>UnsupportedSymbolicExpr\<close> (the detail) and \<open>UnsupportedRecipe\<close> (reason and detail).
\<close>

datatype exn =
    UnsupportedSymbolicExpr string
  | GuardError string
  | UnsupportedRecipe string string
  | KeyErr string
  | ValueErr string
  | TypeErr string
  | RuntimeErr string
  | BufferErr string
  | ExecutionErr string
  | ZeroDivisionErr
  | OtherExn string

type_synonym 'a res = "exn + 'a"

text \<open>The text of an f-string message, from its parts.\<close>

definition msg :: "string list \<Rightarrow> string" where
  "msg parts = concat parts"

text \<open>The classes an \<open>except ValueError\<close> clause catches: both symbolic errors subclass it.\<close>

fun is_value_error :: "exn \<Rightarrow> bool" where
  "is_value_error (UnsupportedSymbolicExpr _) = True"
| "is_value_error (GuardError _) = True"
| "is_value_error (ValueErr _) = True"
| "is_value_error _ = False"

text \<open>The classes an \<open>except RuntimeError\<close> clause catches; \<open>ExecutionError\<close> subclasses it.\<close>

fun is_runtime_error :: "exn \<Rightarrow> bool" where
  "is_runtime_error (RuntimeErr _) = True"
| "is_runtime_error (ExecutionErr _) = True"
| "is_runtime_error _ = False"

definition res_bind :: "'a res \<Rightarrow> ('a \<Rightarrow> 'b res) \<Rightarrow> 'b res" where
  "res_bind m f = (case m of Inl e \<Rightarrow> Inl e | Inr x \<Rightarrow> f x)"

text \<open>A guard: the exception unless the condition holds.\<close>

definition ensure :: "bool \<Rightarrow> exn \<Rightarrow> unit res" where
  "ensure b e = (if b then Inr () else Inl e)"

text \<open>\<open>try: m except P as e: h e\<close>.\<close>

definition catch :: "'a res \<Rightarrow> (exn \<Rightarrow> bool) \<Rightarrow> (exn \<Rightarrow> 'a res) \<Rightarrow> 'a res" where
  "catch m P h = (case m of Inl e \<Rightarrow> (if P e then h e else Inl e) | Inr x \<Rightarrow> Inr x)"

text \<open>A comprehension whose body may raise: left to right, stopping at the first exception.\<close>

fun mapR :: "('a \<Rightarrow> 'b res) \<Rightarrow> 'a list \<Rightarrow> 'b list res" where
  "mapR f [] = Inr []"
| "mapR f (x # xs) = res_bind (f x) (\<lambda>y. res_bind (mapR f xs) (\<lambda>ys. Inr (y # ys)))"

lemma mapR_cong [fundef_cong]:
  "xs = ys \<Longrightarrow> (\<And>x. x \<in> set ys \<Longrightarrow> f x = g x) \<Longrightarrow> mapR f xs = mapR g ys"
  by (induction xs arbitrary: ys) auto

lemma res_bind_Inr [simp]: "res_bind (Inr x) f = f x"
  by (simp add: res_bind_def)

lemma res_bind_Inl [simp]: "res_bind (Inl e) f = Inl e"
  by (simp add: res_bind_def)

lemma res_bind_eq_Inr [simp, res_simps]:
  "res_bind m f = Inr y \<longleftrightarrow> (\<exists>x. m = Inr x \<and> f x = Inr y)"
  by (cases m) auto

lemma res_bind_eq_Inl:
  "res_bind m f = Inl e \<longleftrightarrow> m = Inl e \<or> (\<exists>x. m = Inr x \<and> f x = Inl e)"
  by (cases m) auto

lemma res_bind_cong [fundef_cong]:
  "m = m' \<Longrightarrow> (\<And>x. m' = Inr x \<Longrightarrow> f x = f' x) \<Longrightarrow> res_bind m f = res_bind m' f'"
  by (cases m') auto

lemma ensure_eq_Inr [simp, res_simps]: "ensure b e = Inr u \<longleftrightarrow> b"
  by (simp add: ensure_def)

lemma ensure_simps [simp]: "ensure True e = Inr ()" "ensure False e = Inl e"
  by (simp_all add: ensure_def)

lemma catch_simps [simp]:
  "catch (Inr x) P h = Inr x" "catch (Inl e) P h = (if P e then h e else Inl e)"
  by (simp_all add: catch_def)

lemma mapR_eq_Inr [res_simps]:
  "mapR f xs = Inr ys \<longleftrightarrow> list_all2 (\<lambda>x y. f x = Inr y) xs ys"
  by (induction xs arbitrary: ys) (auto simp: list_all2_Cons1)

lemma mapR_length: "mapR f xs = Inr ys \<Longrightarrow> length ys = length xs"
  by (auto simp: mapR_eq_Inr dest: list_all2_lengthD)

lemma mapR_Inr_map [simp]: "mapR (\<lambda>x. Inr (f x)) xs = Inr (map f xs)"
  by (induction xs) auto

lemma mapR_map: "mapR f (map g xs) = mapR (\<lambda>x. f (g x)) xs"
  by (induction xs) auto

lemma mapR_id: "(\<And>x. x \<in> set xs \<Longrightarrow> f (g x) = Inr x) \<Longrightarrow> mapR f (map g xs) = Inr xs"
  by (induction xs) auto

lemma mapR_all: "(\<And>x. x \<in> set xs \<Longrightarrow> f x = Inr (g x)) \<Longrightarrow> mapR f xs = Inr (map g xs)"
  by (induction xs) auto

lemma mapR_nth: "mapR f xs = Inr ys \<Longrightarrow> i < length xs \<Longrightarrow> f (xs ! i) = Inr (ys ! i)"
  by (auto simp: mapR_eq_Inr list_all2_conv_all_nth)

section \<open>Dynamically typed integers\<close>

text \<open>
  Where the code tests \<open>type(d) is int\<close> the value is a \<open>pyint\<close>: \<open>NotInt\<close> stands for every
  Python object that fails the test (booleans, symbolic integers, strings and so on).
\<close>

datatype pyint = PyInt int | NotInt

fun is_int :: "pyint \<Rightarrow> bool" where
  "is_int (PyInt _) = True"
| "is_int NotInt = False"

fun the_int :: "pyint \<Rightarrow> int" where
  "the_int (PyInt v) = v"
| "the_int NotInt = 0"

section \<open>Decimal printing\<close>

fun nat_digits :: "nat \<Rightarrow> string" where
  "nat_digits n = (if n < 10 then [char_of (48 + n)]
                   else nat_digits (n div 10) @ [char_of (48 + n mod 10)])"

declare nat_digits.simps [simp del]

text \<open>\<open>str(int)\<close>, and also \<open>repr(int)\<close>.\<close>

definition py_str :: "int \<Rightarrow> string" where
  "py_str v = (if v < 0 then CHR ''-'' # nat_digits (nat (- v)) else nat_digits (nat v))"

definition is_digit :: "char \<Rightarrow> bool" where
  "is_digit c \<longleftrightarrow> (48::nat) \<le> of_char c \<and> (of_char c :: nat) \<le> 57"

fun digits_value :: "nat \<Rightarrow> string \<Rightarrow> nat" where
  "digits_value a [] = a"
| "digits_value a (c # cs) = digits_value (10 * a + (of_char c - 48)) cs"

lemma digits_value_append: "digits_value a (xs @ ys) = digits_value (digits_value a xs) ys"
  by (induction a xs rule: digits_value.induct) auto

lemma of_char_digit: "d < 10 \<Longrightarrow> (of_char (char_of (48 + d) :: char) :: nat) = 48 + d"
  by simp

lemma nat_digits_value: "digits_value 0 (nat_digits n) = n"
proof (induction n rule: nat_digits.induct)
  case (1 n)
  show ?case
  proof (cases "n < 10")
    case True
    then show ?thesis by (subst nat_digits.simps) (simp add: of_char_digit)
  next
    case False
    with 1 have "digits_value 0 (nat_digits (n div 10)) = n div 10" by simp
    with False show ?thesis
      by (subst nat_digits.simps) (simp add: digits_value_append of_char_digit)
  qed
qed

lemma nat_digits_digit: "c \<in> set (nat_digits n) \<Longrightarrow> is_digit c"
proof (induction n rule: nat_digits.induct)
  case (1 n)
  then show ?case
    by (subst (asm) (2) nat_digits.simps)
      (auto simp: is_digit_def of_char_digit simp del: of_char_of split: if_splits)
qed

lemma nat_digits_inj: "nat_digits m = nat_digits n \<Longrightarrow> m = n"
  by (metis nat_digits_value)

lemma nat_digits_nonempty [simp]: "nat_digits n \<noteq> []"
  by (subst nat_digits.simps) simp

lemma py_str_inj: "py_str v = py_str w \<Longrightarrow> v = w"
proof -
  have minus: "\<not> is_digit (CHR ''-'')" by (simp add: is_digit_def)
  have first: "nat_digits n \<noteq> CHR ''-'' # s" for n s
    using minus nat_digits_digit [of "CHR ''-''" n] by force
  assume "py_str v = py_str w"
  then show "v = w"
    using first first [symmetric] by (auto simp: py_str_def split: if_splits dest!: nat_digits_inj)
qed

section \<open>Lists\<close>

lemma sort_key_eq_of_mset:
  fixes f :: "'a \<Rightarrow> 'k::linorder"
  assumes "mset xs = mset ys" and "inj_on f (set xs)"
  shows "sort_key f xs = sort_key f ys"
proof -
  have "mset (map f (sort_key f xs)) = mset (map f (sort_key f ys))"
    using assms(1) by (simp add: mset_map)
  then have "map f (sort_key f xs) = map f (sort_key f ys)"
    by (metis properties_for_sort sorted_sort_key)
  moreover have "inj_on f (set (sort_key f xs) \<union> set (sort_key f ys))"
    using assms by (metis set_sort mset_eq_setD sup.idem)
  ultimately show ?thesis by (simp add: inj_on_map_eq_map)
qed

lemma foldl_assoc_op:
  assumes "\<And>a b c. f (f a b) c = f a (f b c)"
  shows "foldl f (f a b) xs = f a (foldl f b xs)"
  using assms by (induction xs arbitrary: b) auto

text \<open>Two texts cut at their first separator agree on both sides of it.\<close>

lemma append_sep_inj:
  assumes "xs @ a # s = ys @ b # t"
    and "\<forall>x\<in>set xs. P x" and "\<forall>y\<in>set ys. P y" and "\<not> P a" and "\<not> P b"
  shows "xs = ys \<and> a = b \<and> s = t"
  using assms
proof (induction xs arbitrary: ys)
  case Nil
  then show ?case by (cases ys) auto
next
  case (Cons x xs)
  then show ?case by (cases ys) auto
qed

end
