(* ===== verification/Symbolic.thy ===== *)
theory Symbolic
  imports Prelude
begin

text \<open>
  \<open>reloc_torch/symbolic.py\<close>: integer expressions over named dimensions, their checked and
  unchecked evaluation, the canonicalising \<open>add\<close> and \<open>mul\<close>, dense strides, reshape inference
  and symbol provenance.  Expressions that Python writes as bare integers appear here as
  \<open>Const\<close>, which is what \<open>expression\<close> makes of them.
\<close>

section \<open>Expressions\<close>

datatype expr =
    Const int
  | Symbol string
  | Add expr expr
  | Mul expr expr
  | FloorDiv expr int
  | Mod expr int

text \<open>The values a caller may pass where the code calls \<open>expression\<close>.\<close>

datatype pyexpr = PyExpr expr | PyNumber int | PyOther

definition expression :: "pyexpr \<Rightarrow> expr res" where
  "expression v = (case v of
     PyExpr e \<Rightarrow> Inr e
   | PyNumber n \<Rightarrow> Inr (Const n)
   | PyOther \<Rightarrow> Inl (UnsupportedSymbolicExpr ''expected an expression or integer''))"

definition ident_start :: "char \<Rightarrow> bool" where
  "ident_start c \<longleftrightarrow> (let n = (of_char c :: nat) in
     (65 \<le> n \<and> n \<le> 90) \<or> (97 \<le> n \<and> n \<le> 122) \<or> n = 95)"

definition ident_char :: "char \<Rightarrow> bool" where
  "ident_char c \<longleftrightarrow> ident_start c \<or> is_digit c"

text \<open>\<open>s.isidentifier() and s.isascii()\<close>.\<close>

fun ascii_identifier :: "string \<Rightarrow> bool" where
  "ascii_identifier [] = False"
| "ascii_identifier (c # cs) \<longleftrightarrow> ident_start c \<and> list_all ident_char cs"

text \<open>The constructors' \<open>__post_init__\<close> checks.\<close>

definition mk_symbol :: "string \<Rightarrow> expr res" where
  "mk_symbol name = (if \<not> ascii_identifier name
     then Inl (UnsupportedSymbolicExpr ''invalid symbol name'') else Inr (Symbol name))"

definition mk_floordiv :: "expr \<Rightarrow> int \<Rightarrow> expr res" where
  "mk_floordiv lhs divisor = (if divisor \<le> 0
     then Inl (UnsupportedSymbolicExpr ''divisor must be a positive constant'')
     else Inr (FloorDiv lhs divisor))"

definition mk_mod :: "expr \<Rightarrow> int \<Rightarrow> expr res" where
  "mk_mod lhs divisor = (if divisor \<le> 0
     then Inl (UnsupportedSymbolicExpr ''divisor must be a positive constant'')
     else Inr (Mod lhs divisor))"

text \<open>What those checks guarantee of every expression the program can hold.\<close>

fun wf_expr :: "expr \<Rightarrow> bool" where
  "wf_expr (Const v) \<longleftrightarrow> True"
| "wf_expr (Symbol n) \<longleftrightarrow> ascii_identifier n"
| "wf_expr (Add l r) \<longleftrightarrow> wf_expr l \<and> wf_expr r"
| "wf_expr (Mul l r) \<longleftrightarrow> wf_expr l \<and> wf_expr r"
| "wf_expr (FloorDiv l d) \<longleftrightarrow> wf_expr l \<and> 0 < d"
| "wf_expr (Mod l d) \<longleftrightarrow> wf_expr l \<and> 0 < d"

fun symbols_of :: "expr \<Rightarrow> string list" where
  "symbols_of (Const v) = []"
| "symbols_of (Symbol n) = [n]"
| "symbols_of (Add l r) = symbols_of l @ symbols_of r"
| "symbols_of (Mul l r) = symbols_of l @ symbols_of r"
| "symbols_of (FloorDiv l d) = symbols_of l"
| "symbols_of (Mod l d) = symbols_of l"

section \<open>Evaluation\<close>

type_synonym env = "string \<Rightarrow> pyint option"

definition in_i64 :: "int \<Rightarrow> bool" where
  "in_i64 v \<longleftrightarrow> - (2 ^ 63) \<le> v \<and> v < 2 ^ 63"

definition i64_py :: "pyint \<Rightarrow> int res" where
  "i64_py v = (case v of
     PyInt n \<Rightarrow> (if in_i64 n then Inr n else Inl (GuardError ''integer_overflow''))
   | NotInt \<Rightarrow> Inl (GuardError ''integer_overflow''))"

abbreviation i64 :: "int \<Rightarrow> int res" where
  "i64 v \<equiv> i64_py (PyInt v)"

definition fit :: "bool \<Rightarrow> int \<Rightarrow> int res" where
  "fit checked v = (if checked then i64 v else Inr v)"

definition py_floordiv :: "int \<Rightarrow> int \<Rightarrow> int res" where
  "py_floordiv a b = (if b = 0 then Inl ZeroDivisionErr else Inr (a div b))"

definition py_mod :: "int \<Rightarrow> int \<Rightarrow> int res" where
  "py_mod a b = (if b = 0 then Inl ZeroDivisionErr else Inr (a mod b))"

fun evaluate :: "bool \<Rightarrow> env \<Rightarrow> expr \<Rightarrow> int res" where
  "evaluate checked b (Const v) = fit checked v"
| "evaluate checked b (Symbol name) = (case b name of
     None \<Rightarrow> Inl (KeyErr name)
   | Some NotInt \<Rightarrow> Inl (GuardError ''noninteger_binding'')
   | Some (PyInt v) \<Rightarrow> fit checked v)"
| "evaluate checked b (Add l r) =
     res_bind (evaluate checked b l) (\<lambda>x. res_bind (evaluate checked b r) (\<lambda>y. fit checked (x + y)))"
| "evaluate checked b (Mul l r) =
     res_bind (evaluate checked b l) (\<lambda>x. res_bind (evaluate checked b r) (\<lambda>y. fit checked (x * y)))"
| "evaluate checked b (FloorDiv l d) =
     res_bind (evaluate checked b l) (\<lambda>x. res_bind (fit checked d) (\<lambda>y.
       res_bind (py_floordiv x y) (fit checked)))"
| "evaluate checked b (Mod l d) =
     res_bind (evaluate checked b l) (\<lambda>x. res_bind (fit checked d) (\<lambda>y.
       res_bind (py_mod x y) (fit checked)))"

text \<open>The mathematical value, over a total assignment of the symbols.\<close>

fun den :: "(string \<Rightarrow> int) \<Rightarrow> expr \<Rightarrow> int" where
  "den \<rho> (Const v) = v"
| "den \<rho> (Symbol n) = \<rho> n"
| "den \<rho> (Add l r) = den \<rho> l + den \<rho> r"
| "den \<rho> (Mul l r) = den \<rho> l * den \<rho> r"
| "den \<rho> (FloorDiv l d) = den \<rho> l div d"
| "den \<rho> (Mod l d) = den \<rho> l mod d"

definition env_val :: "env \<Rightarrow> string \<Rightarrow> int" where
  "env_val b n = (case b n of Some (PyInt v) \<Rightarrow> v | _ \<Rightarrow> 0)"

definition binds :: "env \<Rightarrow> expr \<Rightarrow> bool" where
  "binds b e \<longleftrightarrow> (\<forall>n\<in>set (symbols_of e). \<exists>v. b n = Some (PyInt v))"

lemma i64_py_eq_Inr [simp, res_simps]: "i64_py v = Inr n \<longleftrightarrow> v = PyInt n \<and> in_i64 n"
  by (auto simp: i64_py_def split: pyint.splits if_splits)

lemma fit_eq_Inr [simp, res_simps]: "fit c v = Inr n \<longleftrightarrow> v = n \<and> (c \<longrightarrow> in_i64 n)"
  by (auto simp: fit_def)

lemma fit_unchecked [simp]: "fit False v = Inr v"
  by (simp add: fit_def)

lemma py_floordiv_eq_Inr [simp, res_simps]: "py_floordiv a b = Inr n \<longleftrightarrow> b \<noteq> 0 \<and> n = a div b"
  by (auto simp: py_floordiv_def)

lemma py_mod_eq_Inr [simp, res_simps]: "py_mod a b = Inr n \<longleftrightarrow> b \<noteq> 0 \<and> n = a mod b"
  by (auto simp: py_mod_def)

lemma evaluate_den: "evaluate c b e = Inr v \<Longrightarrow> v = den (env_val b) e"
  by (induction e arbitrary: v) (auto simp: env_val_def split: option.splits pyint.splits)

lemma evaluate_i64: "evaluate True b e = Inr v \<Longrightarrow> in_i64 v"
  by (cases e) (auto split: option.splits pyint.splits)

lemma evaluate_binds: "evaluate c b e = Inr v \<Longrightarrow> binds b e"
  by (induction e arbitrary: v) (auto simp: binds_def split: option.splits pyint.splits)

lemma evaluate_unchecked: "wf_expr e \<Longrightarrow> binds b e \<Longrightarrow> evaluate False b e = Inr (den (env_val b) e)"
  by (induction e)
    (auto simp: binds_def env_val_def fit_def py_floordiv_def py_mod_def split: option.splits pyint.splits)

text \<open>Checked evaluation is unchecked evaluation with every intermediate value in range.\<close>

fun subexprs :: "expr \<Rightarrow> expr list" where
  "subexprs (Add l r) = Add l r # subexprs l @ subexprs r"
| "subexprs (Mul l r) = Mul l r # subexprs l @ subexprs r"
| "subexprs (FloorDiv l d) = FloorDiv l d # Const d # subexprs l"
| "subexprs (Mod l d) = Mod l d # Const d # subexprs l"
| "subexprs e = [e]"

lemma subexprs_self [simp]: "e \<in> set (subexprs e)"
  by (cases e) auto

lemma evaluate_checked_iff:
  assumes "wf_expr e"
  shows "evaluate True b e = Inr v \<longleftrightarrow>
    binds b e \<and> (\<forall>s\<in>set (subexprs e). in_i64 (den (env_val b) s)) \<and> v = den (env_val b) e"
  using assms
proof (induction e arbitrary: v)
  case (Symbol n)
  then show ?case by (auto simp: binds_def env_val_def split: option.splits pyint.splits)
next
  case (Add l r)
  then show ?case by (auto simp: binds_def)
next
  case (Mul l r)
  then show ?case by (auto simp: binds_def)
qed (auto simp: binds_def)

lemma evaluate_error:
  "wf_expr e \<Longrightarrow> evaluate c b e = Inl x \<Longrightarrow>
     (\<exists>n\<in>set (symbols_of e). b n = None \<and> x = KeyErr n) \<or>
     x = GuardError ''noninteger_binding'' \<or> x = GuardError ''integer_overflow''"
  by (induction e arbitrary: x)
    (auto simp: res_bind_eq_Inl fit_def i64_py_def py_floordiv_def py_mod_def
      split: option.splits pyint.splits if_splits)

end
