(* ===== verification/Canonical.thy ===== *)
theory Canonical
  imports Symbolic
begin

text \<open>
  \<open>reloc_torch/symbolic.py\<close>, second half: the canonicalising constructors \<open>add\<close> and \<open>mul\<close>
  (flatten, fold the constants, order the rest by \<open>repr\<close>), and what is computed with them:
  element counts, dense strides, reshape inference and the provenance of symbols.
\<close>

section \<open>The representation text terms are ordered by\<close>

text \<open>The \<open>repr\<close> of the frozen dataclasses.  A symbol's name holds no quote or backslash.\<close>

fun expr_repr :: "expr \<Rightarrow> string" where
  "expr_repr (Const v) = ''Const(value='' @ py_str v @ '')''"
| "expr_repr (Symbol n) = ''Symbol(name='' @ CHR 0x27 # n @ CHR 0x27 # '')''"
| "expr_repr (Add l r) = ''Add(lhs='' @ expr_repr l @ '', rhs='' @ expr_repr r @ '')''"
| "expr_repr (Mul l r) = ''Mul(lhs='' @ expr_repr l @ '', rhs='' @ expr_repr r @ '')''"
| "expr_repr (FloorDiv l d) = ''FloorDiv(lhs='' @ expr_repr l @ '', divisor='' @ py_str d @ '')''"
| "expr_repr (Mod l d) = ''Mod(lhs='' @ expr_repr l @ '', divisor='' @ py_str d @ '')''"

definition numeral_char :: "char \<Rightarrow> bool" where
  "numeral_char c \<longleftrightarrow> is_digit c \<or> c = CHR ''-''"

lemma py_str_chars: "\<forall>c\<in>set (py_str v). numeral_char c"
  using nat_digits_digit by (auto simp: py_str_def numeral_char_def)

lemma py_str_sep:
  assumes "py_str v @ CHR '')'' # s = py_str w @ CHR '')'' # t"
  shows "v = w \<and> s = t"
proof -
  have "\<not> numeral_char (CHR '')'')" by (simp add: numeral_char_def is_digit_def)
  from append_sep_inj [OF assms py_str_chars py_str_chars this this] show ?thesis
    by (auto dest: py_str_inj)
qed

lemma ascii_identifier_chars: "ascii_identifier n \<Longrightarrow> \<forall>c\<in>set n. ident_char c"
  by (cases n) (auto simp: ident_char_def list_all_iff)

lemma identifier_sep:
  assumes "m @ CHR 0x27 # s = n @ CHR 0x27 # t" and "ascii_identifier m" and "ascii_identifier n"
  shows "m = n \<and> s = t"
proof -
  have "\<not> ident_char (CHR 0x27)" by (simp add: ident_char_def ident_start_def is_digit_def)
  from append_sep_inj [OF assms(1) ascii_identifier_chars ascii_identifier_chars this this] assms(2,3)
  show ?thesis by auto
qed

lemma expr_repr_prefix:
  "wf_expr e \<Longrightarrow> wf_expr e' \<Longrightarrow> expr_repr e @ s = expr_repr e' @ t \<Longrightarrow> e = e' \<and> s = t"
proof (induction e arbitrary: e' s t)
  case (Const v)
  then show ?case by (cases e') (auto dest: py_str_sep)
next
  case (Symbol n)
  then show ?case by (cases e') (auto dest: identifier_sep)
next
  case (Add l r)
  from Add.prems obtain l' r' where e': "e' = Add l' r'" by (cases e') simp_all
  with Add.prems have "expr_repr l @ '', rhs='' @ expr_repr r @ '')'' @ s =
    expr_repr l' @ '', rhs='' @ expr_repr r' @ '')'' @ t" by simp
  with Add.IH(1) [of l'] Add.prems(1,2) e'
  have "l = l' \<and> '', rhs='' @ expr_repr r @ '')'' @ s = '', rhs='' @ expr_repr r' @ '')'' @ t"
    by (simp only: wf_expr.simps)
  then have l: "l = l'" and r: "expr_repr r @ '')'' @ s = expr_repr r' @ '')'' @ t" by simp_all
  from Add.IH(2) [OF _ _ r] Add.prems(1,2) e' have "r = r' \<and> '')'' @ s = '')'' @ t"
    by (simp only: wf_expr.simps)
  with l e' show ?case by simp
next
  case (Mul l r)
  from Mul.prems obtain l' r' where e': "e' = Mul l' r'" by (cases e') simp_all
  with Mul.prems have "expr_repr l @ '', rhs='' @ expr_repr r @ '')'' @ s =
    expr_repr l' @ '', rhs='' @ expr_repr r' @ '')'' @ t" by simp
  with Mul.IH(1) [of l'] Mul.prems(1,2) e'
  have "l = l' \<and> '', rhs='' @ expr_repr r @ '')'' @ s = '', rhs='' @ expr_repr r' @ '')'' @ t"
    by (simp only: wf_expr.simps)
  then have l: "l = l'" and r: "expr_repr r @ '')'' @ s = expr_repr r' @ '')'' @ t" by simp_all
  from Mul.IH(2) [OF _ _ r] Mul.prems(1,2) e' have "r = r' \<and> '')'' @ s = '')'' @ t"
    by (simp only: wf_expr.simps)
  with l e' show ?case by simp
next
  case (FloorDiv l d)
  from FloorDiv.prems obtain l' d' where e': "e' = FloorDiv l' d'" by (cases e') simp_all
  with FloorDiv.prems have "expr_repr l @ '', divisor='' @ py_str d @ '')'' @ s =
    expr_repr l' @ '', divisor='' @ py_str d' @ '')'' @ t" by simp
  with FloorDiv.IH [of l'] FloorDiv.prems(1,2) e'
  have "l = l' \<and> '', divisor='' @ py_str d @ '')'' @ s = '', divisor='' @ py_str d' @ '')'' @ t"
    by (simp only: wf_expr.simps)
  then have l: "l = l'" and d: "py_str d @ CHR '')'' # s = py_str d' @ CHR '')'' # t" by simp_all
  from py_str_sep [OF d] l e' show ?case by simp
next
  case (Mod l d)
  from Mod.prems obtain l' d' where e': "e' = Mod l' d'" by (cases e') simp_all
  with Mod.prems have "expr_repr l @ '', divisor='' @ py_str d @ '')'' @ s =
    expr_repr l' @ '', divisor='' @ py_str d' @ '')'' @ t" by simp
  with Mod.IH [of l'] Mod.prems(1,2) e'
  have "l = l' \<and> '', divisor='' @ py_str d @ '')'' @ s = '', divisor='' @ py_str d' @ '')'' @ t"
    by (simp only: wf_expr.simps)
  then have l: "l = l'" and d: "py_str d @ CHR '')'' # s = py_str d' @ CHR '')'' # t" by simp_all
  from py_str_sep [OF d] l e' show ?case by simp
qed

lemma expr_repr_inj: "wf_expr e \<Longrightarrow> wf_expr e' \<Longrightarrow> expr_repr e = expr_repr e' \<Longrightarrow> e = e'"
  using expr_repr_prefix [of e e' "[]" "[]"] by simp

lemma inj_on_expr_repr: "\<forall>t\<in>S. wf_expr t \<Longrightarrow> inj_on expr_repr S"
  by (auto intro!: inj_onI expr_repr_inj)

section \<open>Canonical sums and products\<close>

datatype comm_kind = KAdd | KMul

fun node :: "comm_kind \<Rightarrow> expr \<Rightarrow> expr \<Rightarrow> expr" where
  "node KAdd l r = Add l r"
| "node KMul l r = Mul l r"

fun unit_of :: "comm_kind \<Rightarrow> int" where
  "unit_of KAdd = 0"
| "unit_of KMul = 1"

fun comb :: "comm_kind \<Rightarrow> int \<Rightarrow> int \<Rightarrow> int" where
  "comb KAdd a b = a + b"
| "comb KMul a b = a * b"

text \<open>\<open>collect\<close>: the running constant and the terms, in the order they are met.\<close>

fun collect :: "comm_kind \<Rightarrow> expr \<Rightarrow> int \<times> expr list \<Rightarrow> int \<times> expr list" where
  "collect k (Const v) (c, ts) = (comb k c v, ts)"
| "collect k (Add l r) (c, ts) =
     (if k = KAdd then collect k r (collect k l (c, ts)) else (c, ts @ [Add l r]))"
| "collect k (Mul l r) (c, ts) =
     (if k = KMul then collect k r (collect k l (c, ts)) else (c, ts @ [Mul l r]))"
| "collect k e (c, ts) = (c, ts @ [e])"

fun reduce_terms :: "comm_kind \<Rightarrow> expr list \<Rightarrow> expr" where
  "reduce_terms k [] = Const (unit_of k)"
| "reduce_terms k (t # ts) = foldl (node k) t ts"

definition commutative :: "comm_kind \<Rightarrow> expr \<Rightarrow> expr \<Rightarrow> expr" where
  "commutative k lhs rhs =
     (let (constant, terms) = collect k rhs (collect k lhs (unit_of k, []))
      in if k = KMul \<and> constant = 0 then Const 0
         else let terms' = (if constant \<noteq> unit_of k \<or> terms = [] then terms @ [Const constant] else terms)
              in reduce_terms k (sort_key expr_repr terms'))"

definition add :: "expr \<Rightarrow> expr \<Rightarrow> expr" where
  "add lhs rhs = commutative KAdd lhs rhs"

definition mul :: "expr \<Rightarrow> expr \<Rightarrow> expr" where
  "mul lhs rhs = commutative KMul lhs rhs"

text \<open>The two halves of what \<open>collect\<close> gathers.\<close>

fun kconst :: "comm_kind \<Rightarrow> expr \<Rightarrow> int" where
  "kconst k (Const v) = v"
| "kconst k (Add l r) = (if k = KAdd then kconst k l + kconst k r else unit_of k)"
| "kconst k (Mul l r) = (if k = KMul then kconst k l * kconst k r else unit_of k)"
| "kconst k e = unit_of k"

fun kterms :: "comm_kind \<Rightarrow> expr \<Rightarrow> expr list" where
  "kterms k (Const v) = []"
| "kterms k (Add l r) = (if k = KAdd then kterms k l @ kterms k r else [Add l r])"
| "kterms k (Mul l r) = (if k = KMul then kterms k l @ kterms k r else [Mul l r])"
| "kterms k e = [e]"

lemma comb_assoc: "comb k (comb k a b) c = comb k a (comb k b c)"
  by (cases k) auto

lemma comb_commute: "comb k a b = comb k b a"
  by (cases k) auto

lemma comb_left_commute: "comb k a (comb k b c) = comb k b (comb k a c)"
  by (cases k) auto

lemma comb_right_commute: "comb k (comb k a b) c = comb k (comb k a c) b"
  by (cases k) auto

lemma comb_unit [simp]: "comb k (unit_of k) a = a" "comb k a (unit_of k) = a"
  by (cases k; simp)+

lemma collect_eq: "collect k e (c, ts) = (comb k c (kconst k e), ts @ kterms k e)"
proof (induction e arbitrary: c ts)
  case (Add l r)
  then show ?case by (cases k) (auto simp: comb_assoc)
next
  case (Mul l r)
  then show ?case by (cases k) (auto simp: comb_assoc)
qed auto

text \<open>The canonical form of a constant and a list of terms.\<close>

definition canon :: "comm_kind \<Rightarrow> int \<Rightarrow> expr list \<Rightarrow> expr" where
  "canon k c ts =
     (if k = KMul \<and> c = 0 then Const 0
      else reduce_terms k (sort_key expr_repr (if c \<noteq> unit_of k \<or> ts = [] then ts @ [Const c] else ts)))"

lemma commutative_canon:
  "commutative k l r = canon k (comb k (kconst k l) (kconst k r)) (kterms k l @ kterms k r)"
  by (cases k) (simp_all add: commutative_def canon_def collect_eq Let_def)

definition plain_term :: "comm_kind \<Rightarrow> expr \<Rightarrow> bool" where
  "plain_term k t \<longleftrightarrow> kterms k t = [t] \<and> kconst k t = unit_of k"

lemma kterms_plain: "t \<in> set (kterms k e) \<Longrightarrow> plain_term k t"
  by (induction e) (auto simp: plain_term_def split: if_splits)

lemma kterms_wf: "wf_expr e \<Longrightarrow> t \<in> set (kterms k e) \<Longrightarrow> wf_expr t"
  by (induction e) (auto split: if_splits)

lemma canon_mset:
  assumes "mset ts = mset us" and "\<forall>t\<in>set ts. wf_expr t"
  shows "canon k c ts = canon k c us"
proof -
  let ?x = "\<lambda>xs. if c \<noteq> unit_of k \<or> xs = [] then xs @ [Const c] else xs"
  have "ts = [] \<longleftrightarrow> us = []" using assms(1) by force
  then have "mset (?x ts) = mset (?x us)" using assms(1) by simp
  moreover have "inj_on expr_repr (set (?x ts))"
    using assms(2) by (intro inj_on_expr_repr) auto
  ultimately show ?thesis unfolding canon_def by (metis sort_key_eq_of_mset)
qed

lemma kconst_foldl: "kconst k (foldl (node k) t ts) = foldl (comb k) (kconst k t) (map (kconst k) ts)"
  by (induction ts arbitrary: t; cases k) auto

lemma kterms_foldl: "kterms k (foldl (node k) t ts) = kterms k t @ concat (map (kterms k) ts)"
  by (induction ts arbitrary: t; cases k) auto

lemma foldl_comb_mset:
  "mset xs = mset ys \<Longrightarrow> foldl (comb k) a xs = foldl (comb k) a ys"
proof -
  assume "mset xs = mset ys"
  then have "fold (\<lambda>x y. comb k y x) xs = fold (\<lambda>x y. comb k y x) ys"
    by (intro fold_multiset_equiv) (auto simp: fun_eq_iff comb_right_commute)
  then show ?thesis by (simp add: foldl_conv_fold)
qed

definition ksum :: "comm_kind \<Rightarrow> int list \<Rightarrow> int" where
  "ksum k xs = foldl (comb k) (unit_of k) xs"

lemma ksum_mset: "mset xs = mset ys \<Longrightarrow> ksum k xs = ksum k ys"
  unfolding ksum_def by (rule foldl_comb_mset)

lemma ksum_Nil [simp]: "ksum k [] = unit_of k"
  by (simp add: ksum_def)

lemma foldl_comb_acc: "foldl (comb k) (comb k a b) xs = comb k a (foldl (comb k) b xs)"
  by (rule foldl_assoc_op [of "comb k", OF comb_assoc])

lemma ksum_Cons [simp]: "ksum k (x # xs) = comb k x (ksum k xs)"
  using foldl_comb_acc [of k x "unit_of k" xs] by (simp add: ksum_def)

lemma ksum_append [simp]: "ksum k (xs @ ys) = comb k (ksum k xs) (ksum k ys)"
  by (induction xs) (auto simp: comb_assoc)

lemma ksum_add: "ksum KAdd xs = sum_list xs"
  by (induction xs) auto

lemma ksum_mul: "ksum KMul xs = prod_list xs"
  by (induction xs) auto

lemma foldl_comb_ksum: "foldl (comb k) a xs = comb k a (ksum k xs)"
  using foldl_comb_acc [of k a "unit_of k" xs] by (simp add: ksum_def)

lemma den_foldl: "den \<rho> (foldl (node k) t ts) = foldl (comb k) (den \<rho> t) (map (den \<rho>) ts)"
  by (induction ts arbitrary: t; cases k) auto

lemma kconst_reduce: "kconst k (reduce_terms k xs) = ksum k (map (kconst k) xs)"
  by (cases xs) (auto simp: kconst_foldl foldl_comb_ksum)

lemma kterms_reduce: "kterms k (reduce_terms k xs) = concat (map (kterms k) xs)"
  by (cases xs) (auto simp: kterms_foldl)

lemma den_reduce: "den \<rho> (reduce_terms k xs) = ksum k (map (den \<rho>) xs)"
  by (cases xs) (auto simp: den_foldl foldl_comb_ksum)

lemma wf_reduce: "\<forall>t\<in>set xs. wf_expr t \<Longrightarrow> wf_expr (reduce_terms k xs)"
proof (cases xs)
  case (Cons t ts)
  have "wf_expr t \<Longrightarrow> \<forall>t\<in>set ts. wf_expr t \<Longrightarrow> wf_expr (foldl (node k) t ts)" for t
    by (induction ts arbitrary: t; cases k) auto
  then show "\<forall>t\<in>set xs. wf_expr t \<Longrightarrow> ?thesis" using Cons by simp
qed simp

lemma den_split: "den \<rho> e = comb k (kconst k e) (ksum k (map (den \<rho>) (kterms k e)))"
proof (induction e)
  case (Add l r)
  then show ?case by (cases k) auto
next
  case (Mul l r)
  then show ?case by (cases k) auto
qed (cases k; simp)+

lemma ksum_sorted: "ksum k (map f (sort_key g xs)) = ksum k (map f xs)"
  by (rule ksum_mset) (simp add: mset_map)

lemma ksum_units: "\<forall>t\<in>set ts. f t = unit_of k \<Longrightarrow> ksum k (map f ts) = unit_of k"
  by (induction ts) auto

lemma den_canon: "den \<rho> (canon k c ts) = comb k c (ksum k (map (den \<rho>) ts))"
  by (auto simp: canon_def den_reduce ksum_sorted comb_commute)

lemma kconst_canon: "\<forall>t\<in>set ts. plain_term k t \<Longrightarrow> kconst k (canon k c ts) = c"
  by (auto simp: canon_def kconst_reduce ksum_sorted ksum_units plain_term_def)

lemma mset_concat_sorted:
  "mset (concat (map f (sort_key g xs))) = mset (concat (map f xs))"
  by (metis mset_concat mset_map mset_sort sum_mset_sum_list)

lemma concat_plain: "\<forall>t\<in>set ts. plain_term k t \<Longrightarrow> concat (map (kterms k) ts) = ts"
  by (induction ts) (auto simp: plain_term_def)

lemma kterms_canon:
  assumes "\<forall>t\<in>set ts. plain_term k t" and "\<not> (k = KMul \<and> c = 0)"
  shows "mset (kterms k (canon k c ts)) = mset ts"
  using assms by (auto simp: canon_def kterms_reduce mset_concat_sorted concat_plain)

lemma wf_canon: "\<forall>t\<in>set ts. wf_expr t \<Longrightarrow> wf_expr (canon k c ts)"
  by (auto simp: canon_def intro!: wf_reduce)

lemma canon_zero: "canon KMul 0 ts = Const 0"
  by (simp add: canon_def)

lemma den_commutative: "den \<rho> (commutative k l r) = comb k (den \<rho> l) (den \<rho> r)"
  by (simp add: commutative_canon den_canon den_split [where k = k and e = l]
      den_split [where k = k and e = r] comb_assoc comb_left_commute)

lemma den_add [simp]: "den \<rho> (add l r) = den \<rho> l + den \<rho> r"
  by (simp add: add_def den_commutative)

lemma den_mul [simp]: "den \<rho> (mul l r) = den \<rho> l * den \<rho> r"
  by (simp add: mul_def den_commutative)

lemma wf_commutative: "wf_expr l \<Longrightarrow> wf_expr r \<Longrightarrow> wf_expr (commutative k l r)"
  unfolding commutative_canon by (rule wf_canon) (auto intro: kterms_wf)

lemma wf_add [simp, intro]: "wf_expr l \<Longrightarrow> wf_expr r \<Longrightarrow> wf_expr (add l r)"
  by (simp add: add_def wf_commutative)

lemma wf_mul [simp, intro]: "wf_expr l \<Longrightarrow> wf_expr r \<Longrightarrow> wf_expr (mul l r)"
  by (simp add: mul_def wf_commutative)

text \<open>
  Canonical forms are syntactically independent of the order and the grouping of the operands,
  so structural equality of \<open>add\<close>/\<open>mul\<close> results compares sums and products as such.
\<close>

lemma commutative_comm:
  assumes "wf_expr a" "wf_expr b"
  shows "commutative k a b = commutative k b a"
proof -
  have "\<forall>t\<in>set (kterms k a @ kterms k b). wf_expr t" using assms by (auto intro: kterms_wf)
  then show ?thesis
    unfolding commutative_canon comb_commute [of k "kconst k b"]
    by (intro canon_mset) auto
qed

lemma kconst_commutative: "kconst k (commutative k a b) = comb k (kconst k a) (kconst k b)"
  unfolding commutative_canon by (rule kconst_canon) (auto intro: kterms_plain)

lemma kterms_commutative:
  "\<not> (k = KMul \<and> comb k (kconst k a) (kconst k b) = 0) \<Longrightarrow>
     mset (kterms k (commutative k a b)) = mset (kterms k a) + mset (kterms k b)"
  unfolding commutative_canon by (subst kterms_canon) (auto intro: kterms_plain)

lemma commutative_assoc:
  assumes wf: "wf_expr a" "wf_expr b" "wf_expr c"
  shows "commutative k (commutative k a b) c = commutative k a (commutative k b c)"
proof (cases "k = KMul \<and> kconst k a * kconst k b * kconst k c = 0")
  case True
  then have k: "k = KMul" and z: "comb KMul (comb KMul (kconst KMul a) (kconst KMul b)) (kconst KMul c) = 0"
    and z': "comb KMul (kconst KMul a) (comb KMul (kconst KMul b) (kconst KMul c)) = 0" by auto
  show ?thesis
    unfolding k commutative_canon [of KMul "commutative KMul a b"]
      commutative_canon [of KMul a "commutative KMul b c"] kconst_commutative z z' canon_zero ..
next
  case False
  have l: "mset (kterms k (commutative k a b)) = mset (kterms k a) + mset (kterms k b)"
    and r: "mset (kterms k (commutative k b c)) = mset (kterms k b) + mset (kterms k c)"
    using False by (auto simp: kterms_commutative)
  have "\<forall>t\<in>set (kterms k (commutative k a b) @ kterms k c). wf_expr t"
    using wf by (auto intro: kterms_wf wf_commutative)
  then show ?thesis
    unfolding commutative_canon [of k "commutative k a b"] commutative_canon [of k a "commutative k b c"]
      kconst_commutative comb_assoc
    by (intro canon_mset) (simp_all add: l r ac_simps)
qed

end
