(* ===== verification/Shapes.thy ===== *)
theory Shapes
  imports Canonical
begin

text \<open>
  \<open>reloc_torch/symbolic.py\<close>, shape arithmetic: \<open>product\<close>, \<open>dense_strides\<close>, \<open>infer_reshape\<close>
  and \<open>symbol_sources\<close>, with the row-major layout on plain integers that dense strides denote.
\<close>

section \<open>Element counts and dense strides\<close>

definition product :: "expr list \<Rightarrow> expr" where
  "product shape = foldl mul (Const 1) shape"

text \<open>The loop of \<open>dense_strides\<close>: the dimensions still to visit, the strides so far, the running product.\<close>

fun stride_loop :: "expr list \<Rightarrow> expr list \<Rightarrow> expr \<Rightarrow> expr list" where
  "stride_loop [] strides running = strides"
| "stride_loop (d # ds) strides running = stride_loop ds (strides @ [running]) (mul d running)"

definition dense_strides :: "expr list \<Rightarrow> expr list" where
  "dense_strides shape = rev (stride_loop (rev shape) [] (Const 1))"

text \<open>Row-major strides and linear offsets of concrete extents.\<close>

fun row_major :: "int list \<Rightarrow> int list" where
  "row_major [] = []"
| "row_major (d # ds) = prod_list ds # row_major ds"

fun in_bounds :: "int list \<Rightarrow> int list \<Rightarrow> bool" where
  "in_bounds [] [] \<longleftrightarrow> True"
| "in_bounds (i # is) (d # ds) \<longleftrightarrow> 0 \<le> i \<and> i < d \<and> in_bounds is ds"
| "in_bounds _ _ \<longleftrightarrow> False"

definition linear_offset :: "int list \<Rightarrow> int list \<Rightarrow> int" where
  "linear_offset idx strides = sum_list (map2 (*) idx strides)"

lemma den_product: "den \<rho> (product shape) = prod_list (map (den \<rho>) shape)"
proof -
  have "den \<rho> (foldl mul e shape) = den \<rho> e * prod_list (map (den \<rho>) shape)" for e
    by (induction shape arbitrary: e) (auto simp: algebra_simps)
  then show ?thesis by (simp add: product_def)
qed

lemma wf_product: "\<forall>d\<in>set shape. wf_expr d \<Longrightarrow> wf_expr (product shape)"
proof -
  have "wf_expr e \<Longrightarrow> \<forall>d\<in>set shape. wf_expr d \<Longrightarrow> wf_expr (foldl mul e shape)" for e
    by (induction shape arbitrary: e) auto
  then show "\<forall>d\<in>set shape. wf_expr d \<Longrightarrow> ?thesis" by (simp add: product_def)
qed

lemma stride_loop_acc: "stride_loop ds acc r = acc @ stride_loop ds [] r"
proof (induction ds arbitrary: acc r)
  case (Cons d ds)
  from Cons [of "acc @ [r]"] Cons [of "[r]"] show ?case by simp
qed simp

lemma stride_loop_snoc:
  "stride_loop (ds @ [d]) [] r = stride_loop ds [] r @ [foldl (\<lambda>r d. mul d r) r ds]"
proof (induction ds arbitrary: r)
  case (Cons a ds)
  then show ?case
    using stride_loop_acc [of "ds @ [d]" "[r]"] stride_loop_acc [of ds "[r]"] by simp
qed simp

lemma dense_strides_Nil [simp]: "dense_strides [] = []"
  by (simp add: dense_strides_def)

text \<open>The running product after visiting the inner dimensions, innermost first.\<close>

definition inner_product :: "expr list \<Rightarrow> expr" where
  "inner_product ds = foldr mul ds (Const 1)"

lemma dense_strides_Cons [simp]: "dense_strides (d # ds) = inner_product ds # dense_strides ds"
  by (simp add: dense_strides_def stride_loop_snoc inner_product_def foldl_conv_foldr)

lemma den_inner_product [simp]: "den \<rho> (inner_product ds) = prod_list (map (den \<rho>) ds)"
  by (induction ds) (auto simp: inner_product_def)

lemma wf_inner_product: "\<forall>d\<in>set ds. wf_expr d \<Longrightarrow> wf_expr (inner_product ds)"
  by (induction ds) (auto simp: inner_product_def)

lemma length_dense_strides [simp]: "length (dense_strides ds) = length ds"
  by (induction ds) auto

lemma wf_dense_strides: "\<forall>d\<in>set ds. wf_expr d \<Longrightarrow> e \<in> set (dense_strides ds) \<Longrightarrow> wf_expr e"
  by (induction ds) (auto intro: wf_inner_product)

lemma den_dense_strides: "map (den \<rho>) (dense_strides ds) = row_major (map (den \<rho>) ds)"
  by (induction ds) auto

lemma linear_offset_Cons [simp]:
  "linear_offset (i # is) (s # ss) = i * s + linear_offset is ss"
  by (simp add: linear_offset_def)

lemma linear_offset_Nil [simp]: "linear_offset [] ss = 0"
  by (simp add: linear_offset_def)

lemma linear_offset_bounds:
  "in_bounds idx ds \<Longrightarrow> 0 \<le> linear_offset idx (row_major ds) \<and>
     linear_offset idx (row_major ds) < prod_list ds"
proof (induction idx ds rule: in_bounds.induct)
  case (2 i "is" d ds)
  then have IH: "0 \<le> linear_offset is (row_major ds)" "linear_offset is (row_major ds) < prod_list ds"
    and i: "0 \<le> i" "i < d" by auto
  then have P: "0 < prod_list ds" by linarith
  have "i * prod_list ds + linear_offset is (row_major ds) < (i + 1) * prod_list ds"
    using IH by (simp add: algebra_simps)
  also have "\<dots> \<le> d * prod_list ds" using i P by (intro mult_right_mono) auto
  finally show ?case using IH i P by simp
qed auto

lemma linear_offset_inj:
  "in_bounds idx ds \<Longrightarrow> in_bounds idx' ds \<Longrightarrow>
     linear_offset idx (row_major ds) = linear_offset idx' (row_major ds) \<Longrightarrow> idx = idx'"
proof (induction idx ds arbitrary: idx' rule: in_bounds.induct)
  case 1
  then show ?case by (cases idx') auto
next
  case (2 i "is" d ds)
  from "2.prems"(2) obtain j js where idx': "idx' = j # js" by (cases idx') auto
  let ?P = "prod_list ds" and ?x = "linear_offset is (row_major ds)" and ?y = "linear_offset js (row_major ds)"
  from "2.prems" idx' have x: "0 \<le> ?x" "?x < ?P" and y: "0 \<le> ?y" "?y < ?P"
    using linear_offset_bounds by auto
  from "2.prems"(3) idx' have eq: "?x + i * ?P = ?y + j * ?P" by (simp add: algebra_simps)
  have "i = (?x + i * ?P) div ?P" using x by simp
  also have "\<dots> = j" using y by (simp add: eq)
  finally have "i = j" .
  with eq have "?x = ?y" by simp
  with "2.IH" "2.prems" idx' \<open>i = j\<close> show ?case by auto
qed auto

section \<open>Reshape inference\<close>

fun const_value :: "expr \<Rightarrow> int option" where
  "const_value (Const v) = Some v"
| "const_value _ = None"

definition nonpositive_const :: "expr \<Rightarrow> bool" where
  "nonpositive_const d = (case const_value d of Some v \<Rightarrow> v \<le> 0 | None \<Rightarrow> False)"

definition positive_const :: "expr \<Rightarrow> bool" where
  "positive_const d = (case const_value d of Some v \<Rightarrow> 0 < v | None \<Rightarrow> False)"

definition infer_reshape :: "expr list \<Rightarrow> expr list \<Rightarrow> expr list res" where
  "infer_reshape source_shape shape =
     (let inferred = filter (\<lambda>d. d = Const (-1)) shape
      in if length inferred > 1 \<or>
            (\<exists>d\<in>set shape. nonpositive_const d \<and> d \<noteq> Const (-1))
         then Inl (UnsupportedSymbolicExpr ''invalid reshape dimensions'')
         else if shape = [] then Inl (UnsupportedSymbolicExpr ''rank zero reshape'')
         else if inferred = [] then Inr shape
         else let rest = filter (\<lambda>d. d \<noteq> Const (-1)) shape
              in if \<not> (\<forall>d\<in>set rest. positive_const d)
                 then Inl (UnsupportedSymbolicExpr ''dynamic split factor'')
                 else let divisor = (case const_value (product rest) of Some v \<Rightarrow> v | None \<Rightarrow> 0);
                          count = product source_shape
                      in res_bind (if divisor = 1 then Inr count else mk_floordiv count divisor)
                           (\<lambda>quotient. Inr (map (\<lambda>d. if d = Const (-1) then quotient else d) shape)))"

text \<open>
  The product of constant dimensions is a constant, so \<open>product(rest).value\<close> never fails and
  the divisor is the product of the known extents.
\<close>

lemma mul_Const [simp]: "mul (Const a) (Const b) = Const (a * b)"
  by (auto simp: mul_def commutative_canon canon_def)

lemma product_consts:
  assumes "\<forall>d\<in>set ds. \<exists>v. d = Const v"
  shows "product ds = Const (prod_list (map (den \<rho>) ds))"
proof -
  have "foldl mul (Const c) ds = Const (c * prod_list (map (den \<rho>) ds))" for c
    using assms by (induction ds arbitrary: c) (auto simp: algebra_simps)
  then show ?thesis by (simp add: product_def)
qed

lemma const_value_Some [simp]: "const_value e = Some v \<longleftrightarrow> e = Const v"
  by (cases e) auto

lemma const_value_None: "const_value e = None \<longleftrightarrow> (\<forall>v. e \<noteq> Const v)"
  by (cases e) auto

lemma prod_list_replace:
  fixes q :: int
  assumes "length (filter P ds) = 1"
  shows "prod_list (map (\<lambda>d. if P d then q else f d) ds) = q * prod_list (map f (filter (\<lambda>d. \<not> P d) ds))"
  using assms
proof (induction ds)
  case (Cons d ds)
  show ?case
  proof (cases "P d")
    case True
    with Cons.prems have none: "filter P ds = []" by simp
    then have "filter (\<lambda>d. \<not> P d) ds = ds"
      by (metis (mono_tags, lifting) filter_empty_conv filter_True)
    moreover have "map (\<lambda>d. if P d then q else f d) ds = map f ds"
      using none by (auto simp: filter_empty_conv)
    ultimately show ?thesis using True by (simp only: list.map prod_list.Cons filter.simps if_True simp_thms if_False)
  next
    case False
    with Cons show ?thesis by simp
  qed
qed simp

lemma infer_reshape_count:
  assumes ok: "infer_reshape src tgt = Inr shape"
    and inferred: "Const (-1) \<in> set tgt"
    and exact: "prod_list (map (den \<rho>) (filter (\<lambda>d. d \<noteq> Const (-1)) tgt)) dvd prod_list (map (den \<rho>) src)"
  shows "prod_list (map (den \<rho>) shape) = prod_list (map (den \<rho>) src)"
proof -
  let ?rest = "filter (\<lambda>d. d \<noteq> Const (-1)) tgt" and ?I = "filter (\<lambda>d. d = Const (-1)) tgt"
  have nonempty: "?I \<noteq> []" using inferred by (auto simp: filter_empty_conv)
  from ok nonempty have pos: "\<forall>d\<in>set ?rest. positive_const d" and "\<not> length ?I > 1"
    by (simp_all add: infer_reshape_def Let_def split: if_splits) blast+
  moreover have "length ?I \<noteq> 0" using nonempty by simp
  ultimately have one: "length ?I = 1" by linarith
  have known: "\<forall>d\<in>set ?rest. \<exists>v. d = Const v"
    using pos by (auto simp: positive_const_def split: option.splits)
  define q where "q = (if prod_list (map (den \<rho>) ?rest) = 1 then product src
    else FloorDiv (product src) (prod_list (map (den \<rho>) ?rest)))"
  have "product ?rest = Const (prod_list (map (den \<rho>) ?rest))"
    using known by (rule product_consts)
  then have "shape = map (\<lambda>d. if d = Const (-1) then q else d) tgt"
    using ok nonempty by (auto simp: infer_reshape_def Let_def q_def mk_floordiv_def split: if_splits)
  then have "map (den \<rho>) shape = map (\<lambda>d. if d = Const (-1) then den \<rho> q else den \<rho> d) tgt"
    by (simp add: comp_def if_distrib cong: if_cong)
  then have "prod_list (map (den \<rho>) shape) = den \<rho> q * prod_list (map (den \<rho>) ?rest)"
    using prod_list_replace [OF one, of "den \<rho> q" "den \<rho>"] by simp
  then show ?thesis using exact by (auto simp: q_def den_product)
qed

section \<open>Provenance of symbols\<close>

text \<open>\<open>SymbolSource\<close>: the axis a symbol is read from, the other axes it must equal, the operand.\<close>

record symbol_source =
  ss_name :: string
  ss_axis :: int
  ss_equal_axes :: "int list"
  ss_operand :: string

text \<open>
  The loop state of \<open>symbol_sources\<close>: the axis, the sources found so far and the dictionary
  \<open>indices\<close> from a symbol's name to its position among them.
\<close>

fun symbol_sources_loop ::
  "int \<Rightarrow> expr list \<Rightarrow> symbol_source list \<Rightarrow> (string \<Rightarrow> nat option) \<Rightarrow> symbol_source list res" where
  "symbol_sources_loop axis [] sources indices = Inr sources"
| "symbol_sources_loop axis (value # shape) sources indices = (case value of
     Const _ \<Rightarrow> symbol_sources_loop (axis + 1) shape sources indices
   | Symbol name \<Rightarrow> (case indices name of
       Some index \<Rightarrow>
         (let old = sources ! index;
              new = \<lparr>ss_name = name, ss_axis = ss_axis old, ss_equal_axes = ss_equal_axes old @ [axis],
                     ss_operand = ''source''\<rparr>
          in symbol_sources_loop (axis + 1) shape (sources[index := new]) indices)
     | None \<Rightarrow> symbol_sources_loop (axis + 1) shape
         (sources @ [\<lparr>ss_name = name, ss_axis = axis, ss_equal_axes = [], ss_operand = ''source''\<rparr>])
         (indices(name \<mapsto> length sources)))
   | _ \<Rightarrow> Inl (UnsupportedSymbolicExpr ''source dimension is not an independent symbol''))"

definition symbol_sources :: "expr list \<Rightarrow> symbol_source list res" where
  "symbol_sources shape = symbol_sources_loop 0 shape [] (\<lambda>_. None)"

text \<open>The axes a symbol occupies, in order.\<close>

definition positions :: "string \<Rightarrow> expr list \<Rightarrow> int list" where
  "positions name shape = map int (filter (\<lambda>i. shape ! i = Symbol name) [0..<length shape])"

definition sources_inv ::
  "expr list \<Rightarrow> symbol_source list \<Rightarrow> (string \<Rightarrow> nat option) \<Rightarrow> bool" where
  "sources_inv seen sources indices \<longleftrightarrow>
     distinct (map ss_name sources) \<and>
     (\<forall>n i. indices n = Some i \<longleftrightarrow> i < length sources \<and> ss_name (sources ! i) = n) \<and>
     set (map ss_name sources) = {n. Symbol n \<in> set seen} \<and>
     (\<forall>s\<in>set sources. ss_axis s # ss_equal_axes s = positions (ss_name s) seen \<and> ss_operand s = ''source'')"

lemma sources_invD:
  assumes "sources_inv seen sources indices"
  shows sources_inv_distinct: "distinct (map ss_name sources)"
    and sources_inv_index: "indices n = Some i \<Longrightarrow> i < length sources \<and> ss_name (sources ! i) = n"
    and sources_inv_index': "i < length sources \<Longrightarrow> indices (ss_name (sources ! i)) = Some i"
    and sources_inv_names: "ss_name ` set sources = {n. Symbol n \<in> set seen}"
    and sources_inv_axes: "s \<in> set sources \<Longrightarrow>
      ss_axis s # ss_equal_axes s = positions (ss_name s) seen \<and> ss_operand s = ''source''"
  using assms by (simp_all add: sources_inv_def)

lemma sources_invI:
  assumes "distinct (map ss_name sources)"
    and "\<And>n i. indices n = Some i \<longleftrightarrow> i < length sources \<and> ss_name (sources ! i) = n"
    and "ss_name ` set sources = {n. Symbol n \<in> set seen}"
    and "\<And>s. s \<in> set sources \<Longrightarrow>
      ss_axis s # ss_equal_axes s = positions (ss_name s) seen \<and> ss_operand s = ''source''"
  shows "sources_inv seen sources indices"
  using assms by (simp add: sources_inv_def)

lemma positions_snoc:
  "positions n (xs @ [e]) = positions n xs @ (if e = Symbol n then [int (length xs)] else [])"
proof -
  have "filter (\<lambda>i. (xs @ [e]) ! i = Symbol n) [0..<length xs] = filter (\<lambda>i. xs ! i = Symbol n) [0..<length xs]"
    by (rule filter_cong) (auto simp: nth_append)
  then show ?thesis by (simp add: positions_def)
qed

lemma positions_none: "Symbol n \<notin> set xs \<Longrightarrow> positions n xs = []"
  by (auto simp: positions_def filter_empty_conv) (metis nth_mem)

lemma sources_inv_skip:
  assumes "sources_inv seen sources indices" and "\<And>n. e \<noteq> Symbol n"
  shows "sources_inv (seen @ [e]) sources indices"
proof -
  have "{n. Symbol n \<in> set (seen @ [e])} = {n. Symbol n \<in> set seen}" using assms(2) by force
  with assms show ?thesis by (simp add: sources_inv_def positions_snoc)
qed

lemma sources_inv_new:
  assumes inv: "sources_inv seen sources indices" and new: "indices name = None"
  shows "sources_inv (seen @ [Symbol name])
    (sources @ [\<lparr>ss_name = name, ss_axis = int (length seen), ss_equal_axes = [], ss_operand = ''source''\<rparr>])
    (indices(name \<mapsto> length sources))"
proof -
  let ?new = "\<lparr>ss_name = name, ss_axis = int (length seen), ss_equal_axes = [], ss_operand = ''source''\<rparr>"
  have fresh: "ss_name s \<noteq> name" if "s \<in> set sources" for s
    using that new sources_inv_index' [OF inv] by (metis in_set_conv_nth option.distinct(1))
  then have "name \<notin> ss_name ` set sources" by auto
  then have unseen: "Symbol name \<notin> set seen" unfolding sources_inv_names [OF inv] by simp
  show ?thesis
  proof (rule sources_invI)
    show "distinct (map ss_name (sources @ [?new]))"
      using sources_inv_distinct [OF inv] fresh by auto
    show "(indices(name \<mapsto> length sources)) n = Some i \<longleftrightarrow>
      i < length (sources @ [?new]) \<and> ss_name ((sources @ [?new]) ! i) = n" for n i
    proof (cases "i < length sources")
      case True
      then have "ss_name (sources ! i) \<noteq> name" by (simp add: fresh)
      with True sources_inv_index [OF inv, of n i] sources_inv_index' [OF inv True]
      show ?thesis by (auto simp: nth_append)
    next
      case False
      with sources_inv_index [OF inv, of n i] show ?thesis by (auto simp: nth_append less_Suc_eq)
    qed
    show "ss_name ` set (sources @ [?new]) = {n. Symbol n \<in> set (seen @ [Symbol name])}"
      using sources_inv_names [OF inv] by auto
    show "ss_axis s # ss_equal_axes s = positions (ss_name s) (seen @ [Symbol name]) \<and> ss_operand s = ''source''"
      if "s \<in> set (sources @ [?new])" for s
      using that fresh unseen sources_inv_axes [OF inv, of s] by (auto simp: positions_snoc positions_none)
  qed
qed

lemma sources_inv_repeat:
  assumes inv: "sources_inv seen sources indices" and old: "indices name = Some index"
  shows "sources_inv (seen @ [Symbol name])
    (sources[index := \<lparr>ss_name = name, ss_axis = ss_axis (sources ! index),
       ss_equal_axes = ss_equal_axes (sources ! index) @ [int (length seen)], ss_operand = ''source''\<rparr>])
    indices"
proof -
  let ?new = "\<lparr>ss_name = name, ss_axis = ss_axis (sources ! index),
       ss_equal_axes = ss_equal_axes (sources ! index) @ [int (length seen)], ss_operand = ''source''\<rparr>"
  let ?upd = "sources[index := ?new]"
  have i: "index < length sources" "ss_name (sources ! index) = name"
    using sources_inv_index [OF inv old] by auto
  have at: "ss_name (?upd ! j) = ss_name (sources ! j)" for j
    using i by (cases "j = index") auto
  have names: "map ss_name ?upd = map ss_name sources"
    by (rule nth_equalityI) (auto simp: at)
  then have names': "ss_name ` set ?upd = ss_name ` set sources" by (metis set_map)
  have "name \<in> ss_name ` set sources" using i by force
  then have seen: "Symbol name \<in> set seen" using sources_inv_names [OF inv] by simp
  show ?thesis
  proof (rule sources_invI)
    show "distinct (map ss_name ?upd)" unfolding names by (rule sources_inv_distinct [OF inv])
    show "indices n = Some j \<longleftrightarrow> j < length ?upd \<and> ss_name (?upd ! j) = n" for n j
      using sources_inv_index [OF inv, of n j] sources_inv_index' [OF inv, of j] by (auto simp: at)
    show "ss_name ` set ?upd = {n. Symbol n \<in> set (seen @ [Symbol name])}"
      unfolding names' sources_inv_names [OF inv] using seen by auto
    show "ss_axis s # ss_equal_axes s = positions (ss_name s) (seen @ [Symbol name]) \<and> ss_operand s = ''source''"
      if s: "s \<in> set ?upd" for s
    proof -
      from s obtain j where j: "j < length sources" "s = ?upd ! j" by (auto simp: in_set_conv_nth)
      show ?thesis
      proof (cases "j = index")
        case True
        with i j sources_inv_axes [OF inv, of "sources ! index"] show ?thesis
          by (auto simp: positions_snoc simp flip: append_Cons)
      next
        case False
        have "ss_name (sources ! j) \<noteq> name"
        proof
          assume "ss_name (sources ! j) = name"
          with sources_inv_index' [OF inv j(1)] old False show False by simp
        qed
        with False j sources_inv_axes [OF inv, of "sources ! j"] show ?thesis
          by (auto simp: positions_snoc)
      qed
    qed
  qed
qed

lemma symbol_sources_loop_inv:
  "sources_inv seen sources indices \<Longrightarrow>
     symbol_sources_loop (int (length seen)) shape sources indices = Inr result \<Longrightarrow>
     \<exists>indices'. sources_inv (seen @ shape) result indices'"
proof (induction shape arbitrary: seen sources indices)
  case Nil
  then show ?case by auto
next
  case (Cons e shape)
  have step: "\<exists>indices'. sources_inv (seen @ e # shape) result indices'"
    if "sources_inv (seen @ [e]) s' i'" "symbol_sources_loop (int (length seen) + 1) shape s' i' = Inr result"
    for s' i'
    using Cons.IH [OF that(1)] that(2) by (simp add: add.commute)
  show ?case
  proof (cases e)
    case (Const v)
    then have "sources_inv (seen @ [e]) sources indices"
      using Cons.prems(1) by (intro sources_inv_skip) auto
    then show ?thesis using Cons.prems(2) Const by (intro step) auto
  next
    case (Symbol n)
    show ?thesis
    proof (cases "indices n")
      case None
      from sources_inv_new [OF Cons.prems(1) None] show ?thesis
        using Cons.prems(2) Symbol None by (intro step) auto
    next
      case (Some i)
      from sources_inv_repeat [OF Cons.prems(1) Some] show ?thesis
        using Cons.prems(2) Symbol Some by (intro step) (auto simp: Let_def)
    qed
  qed (use Cons.prems in auto)
qed

lemma symbol_sources_spec:
  assumes "symbol_sources shape = Inr sources"
  shows "distinct (map ss_name sources)"
    and "set (map ss_name sources) = {n. Symbol n \<in> set shape}"
    and "\<forall>s\<in>set sources. ss_axis s # ss_equal_axes s = positions (ss_name s) shape"
    and "\<forall>s\<in>set sources. ss_operand s = ''source''"
proof -
  have "sources_inv [] [] (\<lambda>_. None)" by (simp add: sources_inv_def)
  from symbol_sources_loop_inv [OF this, of shape sources] assms
  obtain i where "sources_inv shape sources i" by (auto simp: symbol_sources_def)
  then show "distinct (map ss_name sources)" "set (map ss_name sources) = {n. Symbol n \<in> set shape}"
    "\<forall>s\<in>set sources. ss_axis s # ss_equal_axes s = positions (ss_name s) shape"
    "\<forall>s\<in>set sources. ss_operand s = ''source''"
    by (simp_all add: sources_inv_def)
qed

end
