(* ===== verification/Recipe.thy ===== *)
theory Recipe
  imports Shapes
begin

text \<open>
  \<open>reloc_torch/recipe.py\<close>: immutable relocation descriptions.  Each dataclass is a record or a
  constructor; each \<open>__post_init__\<close> is a fallible constructor \<open>mk_...\<close>, and the well-formedness
  predicates say what those constructors guarantee of every recipe the program can hold.
\<close>

section \<open>Data\<close>

text \<open>
  \<open>TensorSpec\<close>: \<open>'d\<close> is \<open>expr\<close> for the symbolic descriptors of a recipe and \<open>pyint\<close> for the
  concrete descriptors \<open>bind_recipe\<close> receives.
\<close>

record 'd tensor_spec =
  ts_shape :: "'d list"
  ts_strides :: "'d list"
  ts_offset :: 'd
  ts_dtype :: string

record fill =
  fill_dtype :: string
  fill_bits :: int

record inline_param =
  ip_dtype :: string
  ip_shape :: "int list"
  ip_bits :: "int list"

record binding_param =
  bp_name :: string
  bp_dtype :: string
  bp_extents :: "expr list"

datatype param = InlineParam inline_param | BindingParam binding_param

record quant =
  q_dtype :: string
  q_scale :: param
  q_zero_point :: "param option"
  q_axis :: "int option"
  q_policy :: string

datatype operation =
    Transpose "int list"
  | Reshape "expr list"
  | IndexSelect "expr tensor_spec" int
  | Pad int expr expr fill
  | Cast string string
  | Quantize quant
  | Dequantize quant

record recipe =
  r_source :: "expr tensor_spec"
  r_operations :: "operation list"
  r_destination :: "expr tensor_spec"
  r_direction :: string

section \<open>Constructors\<close>

definition tensor_dtypes :: "(string \<times> nat) list" where
  "tensor_dtypes = [(''float32'', 32), (''float16'', 16), (''bfloat16'', 16), (''int8'', 8)]"

definition param_dtypes :: "(string \<times> nat) list" where
  "param_dtypes = tensor_dtypes @ [(''int32'', 32)]"

definition cast_policies :: "string list" where
  "cast_policies = [''ieee_rne'', ''exact'']"

definition quant_policies :: "string list" where
  "quant_policies = [''symmetric_rne'', ''affine'']"

definition index_select_ok :: "expr tensor_spec \<Rightarrow> int \<Rightarrow> bool" where
  "index_select_ok indices axis \<longleftrightarrow>
     axis = 0 \<and> length (ts_shape indices) = 1 \<and> ts_dtype indices \<in> {''int32'', ''int64''}"

definition mk_index_select :: "expr tensor_spec \<Rightarrow> int \<Rightarrow> operation res" where
  "mk_index_select indices axis = (if \<not> index_select_ok indices axis
     then Inl (ValueErr ''index_select requires axis 0 and an int32/int64 vector'')
     else Inr (IndexSelect indices axis))"

definition bits_fit :: "nat \<Rightarrow> int \<Rightarrow> bool" where
  "bits_fit width bits \<longleftrightarrow> 0 \<le> bits \<and> bits < 2 ^ width"

definition fill_ok :: "fill \<Rightarrow> bool" where
  "fill_ok f = (case map_of tensor_dtypes (fill_dtype f) of
     None \<Rightarrow> False | Some width \<Rightarrow> bits_fit width (fill_bits f))"

definition mk_fill :: "string \<Rightarrow> int \<Rightarrow> fill res" where
  "mk_fill dtype bits = (let f = \<lparr>fill_dtype = dtype, fill_bits = bits\<rparr> in
     if \<not> fill_ok f then Inl (ValueErr ''invalid fill dtype or bit pattern'') else Inr f)"

definition inline_shape_ok :: "inline_param \<Rightarrow> bool" where
  "inline_shape_ok p \<longleftrightarrow> map_of param_dtypes (ip_dtype p) \<noteq> None \<and> length (ip_shape p) \<le> 1 \<and>
     list_all (\<lambda>d. 0 < d) (ip_shape p)"

definition inline_bits_ok :: "inline_param \<Rightarrow> bool" where
  "inline_bits_ok p \<longleftrightarrow> int (length (ip_bits p)) = prod_list (ip_shape p) \<and>
     (case map_of param_dtypes (ip_dtype p) of None \<Rightarrow> False
      | Some width \<Rightarrow> list_all (bits_fit width) (ip_bits p))"

definition mk_inline :: "string \<Rightarrow> int list \<Rightarrow> int list \<Rightarrow> param res" where
  "mk_inline dtype shape bits =
     (let p = \<lparr>ip_dtype = dtype, ip_shape = shape, ip_bits = bits\<rparr> in
      if \<not> inline_shape_ok p then Inl (ValueErr ''invalid parameter dtype or shape'')
      else if \<not> inline_bits_ok p then Inl (ValueErr ''invalid parameter bit patterns'')
      else Inr (InlineParam p))"

definition binding_ok :: "binding_param \<Rightarrow> bool" where
  "binding_ok p \<longleftrightarrow> bp_name p \<noteq> [] \<and> map_of param_dtypes (bp_dtype p) \<noteq> None \<and> length (bp_extents p) \<le> 1"

definition mk_binding :: "string \<Rightarrow> string \<Rightarrow> expr list \<Rightarrow> param res" where
  "mk_binding name dtype extents =
     (let p = \<lparr>bp_name = name, bp_dtype = dtype, bp_extents = extents\<rparr> in
      if \<not> binding_ok p then Inl (ValueErr ''invalid parameter binding'') else Inr (BindingParam p))"

definition cast_ok :: "string \<Rightarrow> string \<Rightarrow> bool" where
  "cast_ok dtype policy \<longleftrightarrow> map_of tensor_dtypes dtype \<noteq> None \<and> policy \<in> set cast_policies"

definition mk_cast :: "string \<Rightarrow> string \<Rightarrow> operation res" where
  "mk_cast dtype policy = (if \<not> cast_ok dtype policy
     then Inl (ValueErr ''invalid cast dtype or policy'') else Inr (Cast dtype policy))"

text \<open>
  \<open>_check_quant\<close>.  A scale that is not a parameter object is \<open>None\<close> here; the dynamic types of
  the other fields are the static types of the record.
\<close>

definition check_quant ::
  "string \<Rightarrow> param option \<Rightarrow> param option \<Rightarrow> int option \<Rightarrow> string \<Rightarrow> quant res" where
  "check_quant dtype scale zero_point axis policy =
     (if map_of tensor_dtypes dtype = None \<or> policy \<notin> set quant_policies
      then Inl (ValueErr ''invalid quantization dtype or policy'')
      else (case scale of
          None \<Rightarrow> Inl (ValueErr ''quantization scale must be an InlineParam or BindingParam'')
        | Some s \<Rightarrow>
            if (case axis of None \<Rightarrow> False | Some a \<Rightarrow> a < 0)
            then Inl (ValueErr ''quantization axis must be None (per tensor) or a non-negative int'')
            else Inr \<lparr>q_dtype = dtype, q_scale = s, q_zero_point = zero_point, q_axis = axis,
                      q_policy = policy\<rparr>))"

definition quant_ok :: "quant \<Rightarrow> bool" where
  "quant_ok q \<longleftrightarrow> map_of tensor_dtypes (q_dtype q) \<noteq> None \<and> q_policy q \<in> set quant_policies \<and>
     (case q_axis q of None \<Rightarrow> True | Some a \<Rightarrow> 0 \<le> a)"

lemma check_quant_eq_Inr [res_simps]:
  "check_quant dtype scale zp axis policy = Inr q \<longleftrightarrow>
     (\<exists>s. scale = Some s \<and> quant_ok q \<and>
       q = \<lparr>q_dtype = dtype, q_scale = s, q_zero_point = zp, q_axis = axis, q_policy = policy\<rparr>)"
  by (auto simp: check_quant_def quant_ok_def split: option.splits)

section \<open>Properties of recipes\<close>

fun is_typed_op :: "operation \<Rightarrow> bool" where
  "is_typed_op (Cast _ _) = True"
| "is_typed_op (Quantize _) = True"
| "is_typed_op (Dequantize _) = True"
| "is_typed_op _ = False"

fun is_index_select :: "operation \<Rightarrow> bool" where
  "is_index_select (IndexSelect _ _) = True"
| "is_index_select _ = False"

text \<open>\<open>op.dtype\<close> of a value transform: the dtype it produces.\<close>

fun op_dtype :: "operation \<Rightarrow> string" where
  "op_dtype (Cast dtype _) = dtype"
| "op_dtype (Quantize q) = q_dtype q"
| "op_dtype (Dequantize q) = q_dtype q"
| "op_dtype _ = []"

definition recipe_typed :: "recipe \<Rightarrow> bool" where
  "recipe_typed r \<longleftrightarrow> (\<exists>op\<in>set (r_operations r). is_typed_op op)"

definition recipe_indexed :: "recipe \<Rightarrow> bool" where
  "recipe_indexed r \<longleftrightarrow> (\<exists>op\<in>set (r_operations r). is_index_select op)"

text \<open>\<open>(getattr(op, 'scale', None), getattr(op, 'zero_point', None))\<close>, the present ones.\<close>

fun op_params :: "operation \<Rightarrow> param list" where
  "op_params (Quantize q) = q_scale q # (case q_zero_point q of None \<Rightarrow> [] | Some p \<Rightarrow> [p])"
| "op_params (Dequantize q) = q_scale q # (case q_zero_point q of None \<Rightarrow> [] | Some p \<Rightarrow> [p])"
| "op_params _ = []"

fun seen_params :: "param list \<Rightarrow> binding_param list \<Rightarrow> binding_param list" where
  "seen_params [] seen = seen"
| "seen_params (BindingParam p # ps) seen =
     seen_params ps (if list_all (\<lambda>s. bp_name s \<noteq> bp_name p) seen then seen @ [p] else seen)"
| "seen_params (InlineParam _ # ps) seen = seen_params ps seen"

definition parameter_bindings :: "recipe \<Rightarrow> binding_param list" where
  "parameter_bindings r = seen_params (concat (map op_params (r_operations r))) []"

section \<open>Well-formed recipes\<close>

fun param_ok :: "param \<Rightarrow> bool" where
  "param_ok (InlineParam p) \<longleftrightarrow> inline_shape_ok p \<and> inline_bits_ok p"
| "param_ok (BindingParam p) \<longleftrightarrow> binding_ok p \<and> list_all wf_expr (bp_extents p)"

definition quant_params_ok :: "quant \<Rightarrow> bool" where
  "quant_params_ok q \<longleftrightarrow> quant_ok q \<and> param_ok (q_scale q) \<and>
     (case q_zero_point q of None \<Rightarrow> True | Some p \<Rightarrow> param_ok p)"

definition wf_spec :: "expr tensor_spec \<Rightarrow> bool" where
  "wf_spec s \<longleftrightarrow> list_all wf_expr (ts_shape s) \<and> list_all wf_expr (ts_strides s) \<and> wf_expr (ts_offset s)"

fun wf_op :: "operation \<Rightarrow> bool" where
  "wf_op (Transpose perm) \<longleftrightarrow> True"
| "wf_op (Reshape shape) \<longleftrightarrow> list_all wf_expr shape"
| "wf_op (IndexSelect indices axis) \<longleftrightarrow> index_select_ok indices axis \<and> wf_spec indices"
| "wf_op (Pad axis lo hi f) \<longleftrightarrow> wf_expr lo \<and> wf_expr hi \<and> fill_ok f"
| "wf_op (Cast dtype policy) \<longleftrightarrow> cast_ok dtype policy"
| "wf_op (Quantize q) \<longleftrightarrow> quant_params_ok q"
| "wf_op (Dequantize q) \<longleftrightarrow> quant_params_ok q"

definition wf_recipe :: "recipe \<Rightarrow> bool" where
  "wf_recipe r \<longleftrightarrow> wf_spec (r_source r) \<and> wf_spec (r_destination r) \<and> list_all wf_op (r_operations r)"

lemma mk_index_select_eq_Inr [res_simps]:
  "mk_index_select indices axis = Inr op \<longleftrightarrow> index_select_ok indices axis \<and> op = IndexSelect indices axis"
  by (auto simp: mk_index_select_def)

lemma mk_fill_eq_Inr [res_simps]:
  "mk_fill d b = Inr f \<longleftrightarrow> f = \<lparr>fill_dtype = d, fill_bits = b\<rparr> \<and> fill_ok f"
  by (auto simp: mk_fill_def Let_def)

lemma mk_inline_eq_Inr [res_simps]:
  "mk_inline d s b = Inr p \<longleftrightarrow> p = InlineParam \<lparr>ip_dtype = d, ip_shape = s, ip_bits = b\<rparr> \<and> param_ok p"
  by (auto simp: mk_inline_def Let_def)

lemma mk_binding_eq_Inr [res_simps]:
  "mk_binding n d e = Inr p \<longleftrightarrow>
     p = BindingParam \<lparr>bp_name = n, bp_dtype = d, bp_extents = e\<rparr> \<and>
     binding_ok \<lparr>bp_name = n, bp_dtype = d, bp_extents = e\<rparr>"
  by (auto simp: mk_binding_def Let_def)

lemma mk_cast_eq_Inr [res_simps]: "mk_cast d p = Inr op \<longleftrightarrow> cast_ok d p \<and> op = Cast d p"
  by (auto simp: mk_cast_def)

text \<open>Runtime parameters: one declaration per name, each declared by some value transform.\<close>

lemma all_names_differ: "list_all (\<lambda>s. bp_name s \<noteq> n) seen \<longleftrightarrow> n \<notin> set (map bp_name seen)"
  by (auto simp: list_all_iff)

lemma seen_params_distinct: "distinct (map bp_name seen) \<Longrightarrow> distinct (map bp_name (seen_params ps seen))"
proof (induction ps seen rule: seen_params.induct)
  case (2 p ps seen)
  then show ?case by (cases "bp_name p \<in> set (map bp_name seen)") (simp_all add: all_names_differ)
qed simp_all

lemma seen_params_names:
  "set (map bp_name (seen_params ps seen)) =
     set (map bp_name seen) \<union> {bp_name p |p. BindingParam p \<in> set ps}"
proof (induction ps seen rule: seen_params.induct)
  case (2 p ps seen)
  then show ?case
    by (cases "bp_name p \<in> set (map bp_name seen)") (simp_all add: all_names_differ, auto)
qed simp_all

lemma seen_params_subset:
  "set (seen_params ps seen) \<subseteq> set seen \<union> {p. BindingParam p \<in> set ps}"
  by (induction ps seen rule: seen_params.induct) (auto split: if_splits)

lemma parameter_bindings_distinct: "distinct (map bp_name (parameter_bindings r))"
  by (simp add: parameter_bindings_def seen_params_distinct)

lemma parameter_bindings_names:
  "bp_name ` set (parameter_bindings r) =
     {bp_name p |p op. op \<in> set (r_operations r) \<and> BindingParam p \<in> set (op_params op)}"
  using seen_params_names [of "concat (map op_params (r_operations r))" "[]"]
  by (auto simp: parameter_bindings_def)

end
