(* ===== verification/Binding.thy ===== *)
theory Binding
  imports Recipe
begin

text \<open>
  \<open>reloc_torch/symbolic.py\<close>, last part: the shape transfer function \<open>operation_shape\<close> and the
  guard evaluator \<open>bind_recipe\<close>, with the specification it refines: the same chain run on plain
  integers.
\<close>

section \<open>Shape transfer\<close>

definition permute :: "int list \<Rightarrow> 'a list \<Rightarrow> 'a list" where
  "permute perm xs = map (\<lambda>i. xs ! nat i) perm"

definition is_permutation :: "int list \<Rightarrow> nat \<Rightarrow> bool" where
  "is_permutation perm n \<longleftrightarrow> sort perm = map int [0..<n]"

fun operation_shape :: "expr list \<Rightarrow> operation \<Rightarrow> expr list res" where
  "operation_shape shape (Cast dtype policy) = Inr shape"
| "operation_shape shape (Quantize q) = Inr shape"
| "operation_shape shape (Dequantize q) = Inr shape"
| "operation_shape shape (IndexSelect indices axis) =
     (if axis = 0 then (case ts_shape indices of
          [] \<Rightarrow> Inl (OtherExn ''IndexError'')
        | d # ds \<Rightarrow> Inr (d # tl shape))
      else Inl (UnsupportedSymbolicExpr ''unknown operation''))"
| "operation_shape shape (Transpose perm) =
     (if \<not> is_permutation perm (length shape) then Inl (UnsupportedSymbolicExpr ''invalid permutation'')
      else Inr (permute perm shape))"
| "operation_shape shape (Reshape target) = Inr target"
| "operation_shape shape (Pad axis lo hi f) =
     (if \<not> (0 \<le> axis \<and> axis < int (length shape)) then Inl (UnsupportedSymbolicExpr ''invalid padding axis'')
      else Inr (shape[nat axis := add (add (shape ! nat axis) lo) hi]))"

lemma permute_map: "is_permutation perm (length xs) \<Longrightarrow> permute perm (map f xs) = map f (permute perm xs)"
proof -
  assume "is_permutation perm (length xs)"
  then have "set perm = set (map int [0..<length xs])" unfolding is_permutation_def by (metis set_sort)
  then show ?thesis by (auto simp: permute_def)
qed

lemma length_permute: "is_permutation perm n \<Longrightarrow> length (permute perm xs) = n"
  unfolding is_permutation_def permute_def by (metis diff_zero length_map length_sort length_upt)

text \<open>A permutation keeps the extents, hence the element count.\<close>

lemma mset_permute: "is_permutation perm (length xs) \<Longrightarrow> mset (permute perm xs) = mset xs"
proof -
  assume "is_permutation perm (length xs)"
  then have "mset perm = mset (map int [0..<length xs])" unfolding is_permutation_def by (metis mset_sort)
  then have "image_mset (\<lambda>i. xs ! nat i) (mset perm) = mset (map (\<lambda>i. xs ! i) [0..<length xs])"
    by (simp add: image_mset.compositionality comp_def)
  then show ?thesis by (simp add: permute_def map_nth)
qed

section \<open>Binding guards\<close>

definition ev :: "env \<Rightarrow> expr \<Rightarrow> int res" where
  "ev b e = (case evaluate True b e of
     Inl (KeyErr _) \<Rightarrow> Inl (GuardError ''missing_symbol'')
   | r \<Rightarrow> r)"

definition dims :: "env \<Rightarrow> expr list \<Rightarrow> int list res" where
  "dims b values = res_bind (mapR (ev b) values) (\<lambda>result.
     if result = [] \<or> (\<exists>d\<in>set result. d \<le> 0) then Inl (GuardError ''positive_extent'') else Inr result)"

definition dtype_sizes :: "(string \<times> int) list" where
  "dtype_sizes = [(''float32'', 4), (''float16'', 2), (''bfloat16'', 2), (''int8'', 1)]"

definition footprint :: "env \<Rightarrow> expr list \<Rightarrow> string \<Rightarrow> int res" where
  "footprint b values dtype = (case map_of dtype_sizes dtype of
     None \<Rightarrow> Inl (GuardError ''unsupported_dtype'')
   | Some sz \<Rightarrow> res_bind (ev b (product values)) (\<lambda>n. i64 (n * sz)))"

definition check_concrete :: "pyint tensor_spec \<Rightarrow> int list res" where
  "check_concrete c =
     (if ts_shape c = [] \<or> (\<exists>d\<in>set (ts_shape c). \<not> is_int d \<or> the_int d \<le> 0)
      then Inl (GuardError ''positive_extent'')
      else mapR i64_py (ts_shape c @ ts_strides c @ [ts_offset c]))"

fun bind_sources :: "symbol_source list \<Rightarrow> pyint list \<Rightarrow> env \<Rightarrow> env res" where
  "bind_sources [] shape b = Inr b"
| "bind_sources (s # sources) shape b =
     (let inside = (\<lambda>a. 0 \<le> a \<and> a < int (length shape)) in
      if \<not> inside (ss_axis s) \<or> (\<exists>a\<in>set (ss_equal_axes s). \<not> inside a)
      then Inl (GuardError ''source_descriptor'')
      else let value = shape ! nat (ss_axis s) in
        if \<exists>a\<in>set (ss_equal_axes s). shape ! nat a \<noteq> value then Inl (GuardError ''repeated_symbol'')
        else if (case b (ss_name s) of Some old \<Rightarrow> old \<noteq> value | None \<Rightarrow> False)
        then Inl (GuardError ''repeated_symbol'')
        else bind_sources sources shape (b(ss_name s \<mapsto> value)))"

fun divisibility :: "env \<Rightarrow> expr \<Rightarrow> unit res" where
  "divisibility b (FloorDiv l d) =
     res_bind (ev b l) (\<lambda>x. res_bind (py_mod x d) (\<lambda>r.
       if r \<noteq> 0 then Inl (GuardError ''divisibility'') else divisibility b l))"
| "divisibility b (Add l r) = res_bind (divisibility b l) (\<lambda>_. divisibility b r)"
| "divisibility b (Mul l r) = res_bind (divisibility b l) (\<lambda>_. divisibility b r)"
| "divisibility b (Mod l d) = divisibility b l"
| "divisibility b e = Inr ()"

definition check_source :: "env \<Rightarrow> expr tensor_spec \<Rightarrow> pyint tensor_spec \<Rightarrow> unit res" where
  "check_source b src c =
     res_bind (dims b (ts_shape src)) (\<lambda>shape.
     if map PyInt shape \<noteq> ts_shape c then Inl (GuardError ''source_descriptor'') else
     res_bind (mapR (ev b) (ts_strides src)) (\<lambda>strides.
     if map PyInt strides \<noteq> ts_strides c then Inl (GuardError ''source_descriptor'') else
     res_bind (ev b (ts_offset src)) (\<lambda>off.
     if PyInt off \<noteq> ts_offset c \<or> ts_dtype src \<noteq> ts_dtype c \<or> off \<noteq> 0
     then Inl (GuardError ''source_descriptor'') else
     res_bind (mapR (ev b) (dense_strides (ts_shape src))) (\<lambda>dense.
     if map PyInt dense \<noteq> ts_strides c then Inl (GuardError ''source_descriptor'') else Inr ()))))"

fun op_axis :: "operation \<Rightarrow> int option" where
  "op_axis (Quantize q) = q_axis q"
| "op_axis (Dequantize q) = q_axis q"
| "op_axis _ = None"

text \<open>The guards one operation adds, before its result's extents and footprint are checked.\<close>

fun op_guard :: "env \<Rightarrow> expr list \<Rightarrow> string \<Rightarrow> expr list \<Rightarrow> operation \<Rightarrow> unit res" where
  "op_guard b current dtype target (Reshape _) =
     res_bind (mapR (divisibility b) target) (\<lambda>_.
     res_bind (ev b (product current)) (\<lambda>n. res_bind (ev b (product target)) (\<lambda>m.
       if n \<noteq> m then Inl (GuardError ''element_count'') else Inr ())))"
| "op_guard b current dtype target (Pad axis lo hi f) =
     res_bind (ev b lo) (\<lambda>l. if l < 0 then Inl (GuardError ''padding'') else
     res_bind (ev b hi) (\<lambda>h. if h < 0 \<or> fill_dtype f \<noteq> dtype then Inl (GuardError ''padding'') else Inr ()))"
| "op_guard b current dtype target op =
     (if is_typed_op op \<and> (case op_axis op of None \<Rightarrow> False | Some a \<Rightarrow> \<not> (0 \<le> a \<and> a < int (length current)))
      then Inl (GuardError ''channel_axis'') else Inr ())"

definition next_dtype :: "string \<Rightarrow> operation \<Rightarrow> string" where
  "next_dtype dtype op = (if is_typed_op op then op_dtype op else dtype)"

fun bind_operations :: "env \<Rightarrow> expr list \<Rightarrow> string \<Rightarrow> operation list \<Rightarrow> (expr list \<times> string) res" where
  "bind_operations b current dtype [] = Inr (current, dtype)"
| "bind_operations b current dtype (op # ops) =
     res_bind (operation_shape current op) (\<lambda>target.
     res_bind (op_guard b current dtype target op) (\<lambda>_.
     res_bind (dims b target) (\<lambda>_.
     res_bind (footprint b target (next_dtype dtype op)) (\<lambda>_.
       bind_operations b target (next_dtype dtype op) ops))))"

definition check_destination :: "env \<Rightarrow> expr list \<Rightarrow> string \<Rightarrow> expr tensor_spec \<Rightarrow> unit res" where
  "check_destination b current dtype dst =
     res_bind (dims b current) (\<lambda>reached.
     res_bind (dims b (ts_shape dst)) (\<lambda>declared.
     if reached \<noteq> declared \<or> dtype \<noteq> ts_dtype dst then Inl (GuardError ''destination_descriptor'') else
     res_bind (ev b (ts_offset dst)) (\<lambda>off.
     if off \<noteq> 0 then Inl (GuardError ''destination_descriptor'') else
     res_bind (mapR (ev b) (ts_strides dst)) (\<lambda>strides.
     res_bind (mapR (ev b) (dense_strides (ts_shape dst))) (\<lambda>dense.
     if strides \<noteq> dense then Inl (GuardError ''destination_descriptor'') else Inr ())))))"

definition bind_recipe ::
  "recipe \<Rightarrow> symbol_source list \<Rightarrow> pyint tensor_spec \<Rightarrow> env \<Rightarrow> env res" where
  "bind_recipe r sources c bindings =
     res_bind (check_concrete c) (\<lambda>_.
     res_bind (bind_sources sources (ts_shape c) bindings) (\<lambda>b.
     res_bind (check_source b (r_source r) c) (\<lambda>_.
     res_bind (footprint b (ts_shape (r_source r)) (ts_dtype (r_source r))) (\<lambda>_.
     res_bind (bind_operations b (ts_shape (r_source r)) (ts_dtype (r_source r)) (r_operations r))
       (\<lambda>(current, dtype).
     res_bind (check_destination b current dtype (r_destination r)) (\<lambda>_.
     res_bind (footprint b (ts_shape (r_destination r)) (ts_dtype (r_destination r))) (\<lambda>_.
       Inr b)))))))"

section \<open>Specification: the chain on plain integers\<close>

definition fits :: "int list \<Rightarrow> string \<Rightarrow> bool" where
  "fits shape dtype \<longleftrightarrow> shape \<noteq> [] \<and> (\<forall>d\<in>set shape. 0 < d \<and> d < 2 ^ 63) \<and>
     (case map_of dtype_sizes dtype of None \<Rightarrow> False | Some sz \<Rightarrow> prod_list shape * sz < 2 ^ 63)"

fun concrete_shape :: "(string \<Rightarrow> int) \<Rightarrow> int list \<Rightarrow> operation \<Rightarrow> int list option" where
  "concrete_shape \<rho> s (Transpose perm) = (if is_permutation perm (length s) then Some (permute perm s) else None)"
| "concrete_shape \<rho> s (Reshape t) =
     (if prod_list (map (den \<rho>) t) = prod_list s then Some (map (den \<rho>) t) else None)"
| "concrete_shape \<rho> s (IndexSelect indices axis) =
     (if axis = 0 \<and> ts_shape indices \<noteq> [] then Some (den \<rho> (hd (ts_shape indices)) # tl s) else None)"
| "concrete_shape \<rho> s (Pad axis lo hi f) =
     (if 0 \<le> axis \<and> axis < int (length s) \<and> 0 \<le> den \<rho> lo \<and> 0 \<le> den \<rho> hi
      then Some (s[nat axis := s ! nat axis + den \<rho> lo + den \<rho> hi]) else None)"
| "concrete_shape \<rho> s op =
     (case op_axis op of None \<Rightarrow> Some s | Some a \<Rightarrow> if 0 \<le> a \<and> a < int (length s) then Some s else None)"

fun concrete_chain ::
  "(string \<Rightarrow> int) \<Rightarrow> int list \<times> string \<Rightarrow> operation list \<Rightarrow> (int list \<times> string) option" where
  "concrete_chain \<rho> (s, dtype) [] = (if fits s dtype then Some (s, dtype) else None)"
| "concrete_chain \<rho> (s, dtype) (op # ops) =
     (if \<not> fits s dtype then None else
      case concrete_shape \<rho> s op of None \<Rightarrow> None
      | Some t \<Rightarrow> concrete_chain \<rho> (t, next_dtype dtype op) ops)"

section \<open>The guards establish the specification\<close>

lemma ev_eq_Inr [simp, res_simps]: "ev b e = Inr v \<longleftrightarrow> evaluate True b e = Inr v"
  by (auto simp: ev_def split: sum.splits exn.splits)

lemma evaluate_True_den: "evaluate True b e = Inr v \<Longrightarrow> den (env_val b) e = v"
  using evaluate_den by simp

lemma mapR_ev_den: "mapR (ev b) es = Inr vs \<Longrightarrow> map (den (env_val b)) es = vs"
  by (induction es arbitrary: vs) (auto dest: evaluate_True_den)

lemma dims_den:
  assumes "dims b es = Inr vs"
  shows "map (den (env_val b)) es = vs" and "vs \<noteq> []" and "\<forall>d\<in>set vs. 0 < d \<and> d < 2 ^ 63"
proof -
  from assms have m: "mapR (ev b) es = Inr vs" and ne: "vs \<noteq> []" and pos: "\<forall>d\<in>set vs. 0 < d"
    by (auto simp: dims_def split: if_splits)
  then show "map (den (env_val b)) es = vs" "vs \<noteq> []" by (auto intro: mapR_ev_den)
  have "\<forall>d\<in>set vs. in_i64 d"
    using m by (induction es arbitrary: vs) (auto dest: evaluate_i64)
  with pos show "\<forall>d\<in>set vs. 0 < d \<and> d < 2 ^ 63" by (auto simp: in_i64_def)
qed

lemma footprint_den:
  assumes "footprint b es dtype = Inr n"
  obtains sz where "map_of dtype_sizes dtype = Some sz"
    and "n = prod_list (map (den (env_val b)) es) * sz" and "n < 2 ^ 63"
  using assms
  by (auto simp: footprint_def den_product in_i64_def dest!: evaluate_True_den split: option.splits)

lemma fits_den:
  assumes "dims b es = Inr vs" and "footprint b es dtype = Inr n"
  shows "fits (map (den (env_val b)) es) dtype"
  using dims_den [OF assms(1)] footprint_den [OF assms(2)]
  by (metis (no_types, lifting) fits_def option.simps(5))

lemma op_guard_sound:
  assumes target: "operation_shape current op = Inr target"
    and guard: "op_guard b current dtype target op = Inr ()"
  shows "concrete_shape (env_val b) (map (den (env_val b)) current) op = Some (map (den (env_val b)) target)"
proof (cases op)
  case (Transpose perm)
  with target show ?thesis by (auto simp: permute_map split: if_splits)
next
  case (Reshape t)
  with target guard show ?thesis by (auto simp: den_product dest!: evaluate_True_den split: if_splits)
next
  case (IndexSelect ix a)
  with target show ?thesis by (auto simp: map_tl split: if_splits list.splits)
next
  case (Pad axis lo hi f)
  with target guard show ?thesis
    by (auto simp: map_update dest!: evaluate_True_den split: if_splits)
qed (use target guard in \<open>auto split: if_splits option.splits\<close>)

lemma bind_operations_sound:
  assumes "fits (map (den (env_val b)) current) dtype"
    and "bind_operations b current dtype ops = Inr (final, dtype')"
  shows "concrete_chain (env_val b) (map (den (env_val b)) current, dtype) ops =
    Some (map (den (env_val b)) final, dtype')"
  using assms
proof (induction ops arbitrary: current dtype)
  case (Cons op ops)
  from Cons.prems(2) obtain target vs n where
    t: "operation_shape current op = Inr target" and g: "op_guard b current dtype target op = Inr ()"
    and d: "dims b target = Inr vs" and f: "footprint b target (next_dtype dtype op) = Inr n"
    and rest: "bind_operations b target (next_dtype dtype op) ops = Inr (final, dtype')"
    by auto
  from Cons.IH [OF fits_den [OF d f] rest] op_guard_sound [OF t g] Cons.prems(1)
  show ?case by simp
qed simp

lemma bind_sources_frame:
  "bind_sources sources shape b = Inr b' \<Longrightarrow> n \<notin> ss_name ` set sources \<Longrightarrow> b' n = b n"
  by (induction sources arbitrary: b) (auto simp: Let_def split: if_splits)

lemma bind_sources_keeps:
  "bind_sources sources shape b = Inr b' \<Longrightarrow> b n = Some v \<Longrightarrow> b' n = Some v"
proof (induction sources arbitrary: b)
  case (Cons t sources)
  then have "bind_sources sources shape (b(ss_name t \<mapsto> shape ! nat (ss_axis t))) = Inr b'"
    and "b (ss_name t) = Some old \<Longrightarrow> old = shape ! nat (ss_axis t)" for old
    by (auto simp: Let_def split: if_splits)
  then show ?case using Cons.IH Cons.prems(2) by (cases "n = ss_name t") auto
qed simp

lemma bind_sources_bound:
  "bind_sources sources shape b = Inr b' \<Longrightarrow> s \<in> set sources \<Longrightarrow>
     b' (ss_name s) = Some (shape ! nat (ss_axis s)) \<and>
     (\<forall>a\<in>set (ss_equal_axes s). shape ! nat a = shape ! nat (ss_axis s))"
proof (induction sources arbitrary: b)
  case (Cons t sources)
  then have rest: "bind_sources sources shape (b(ss_name t \<mapsto> shape ! nat (ss_axis t))) = Inr b'"
    and eq: "\<forall>a\<in>set (ss_equal_axes t). shape ! nat a = shape ! nat (ss_axis t)"
    by (auto simp: Let_def split: if_splits)
  from bind_sources_keeps [OF rest, of "ss_name t"] Cons.IH [OF rest] eq Cons.prems(2)
  show ?case by auto
qed simp

lemma map_PyInt_eq: "map PyInt xs = ys \<Longrightarrow> map the_int ys = xs"
  by (induction xs arbitrary: ys) auto

lemma check_source_sound:
  assumes "check_source b src c = Inr ()"
  shows "ts_shape c = map PyInt (map (den (env_val b)) (ts_shape src))"
    and "ts_strides c = map PyInt (row_major (map (den (env_val b)) (ts_shape src)))"
    and "map (den (env_val b)) (ts_strides src) = row_major (map (den (env_val b)) (ts_shape src))"
    and "ts_offset c = PyInt 0" and "den (env_val b) (ts_offset src) = 0" and "ts_dtype c = ts_dtype src"
    and "\<exists>vs. dims b (ts_shape src) = Inr vs"
proof -
  from assms obtain shape strides dense where
    s: "dims b (ts_shape src) = Inr shape" "map PyInt shape = ts_shape c"
    and t: "mapR (ev b) (ts_strides src) = Inr strides" "map PyInt strides = ts_strides c"
    and o: "evaluate True b (ts_offset src) = Inr 0" "PyInt 0 = ts_offset c" "ts_dtype src = ts_dtype c"
    and d: "mapR (ev b) (dense_strides (ts_shape src)) = Inr dense" "map PyInt dense = ts_strides c"
    by (auto simp: check_source_def split: if_splits)
  have "dense = row_major (map (den (env_val b)) (ts_shape src))"
    using mapR_ev_den [OF d(1)] by (simp add: den_dense_strides)
  moreover have "strides = dense" using t(2) d(2) by (metis map_PyInt_eq)
  ultimately show "ts_shape c = map PyInt (map (den (env_val b)) (ts_shape src))"
    "ts_strides c = map PyInt (row_major (map (den (env_val b)) (ts_shape src)))"
    "map (den (env_val b)) (ts_strides src) = row_major (map (den (env_val b)) (ts_shape src))"
    "ts_offset c = PyInt 0" "den (env_val b) (ts_offset src) = 0" "ts_dtype c = ts_dtype src"
    "\<exists>vs. dims b (ts_shape src) = Inr vs"
    using s t o d dims_den(1) [OF s(1)] mapR_ev_den [OF t(1)] evaluate_True_den [OF o(1)] by auto
qed

lemma check_destination_sound:
  assumes "check_destination b current dtype dst = Inr ()"
  shows "map (den (env_val b)) current = map (den (env_val b)) (ts_shape dst)"
    and "dtype = ts_dtype dst" and "den (env_val b) (ts_offset dst) = 0"
    and "map (den (env_val b)) (ts_strides dst) = row_major (map (den (env_val b)) (ts_shape dst))"
proof -
  from assms obtain s dense where
    s: "dims b current = Inr s" "dims b (ts_shape dst) = Inr s" and d: "dtype = ts_dtype dst"
    and o: "evaluate True b (ts_offset dst) = Inr 0"
    and t: "mapR (ev b) (ts_strides dst) = Inr dense" "mapR (ev b) (dense_strides (ts_shape dst)) = Inr dense"
    by (auto simp: check_destination_def split: if_splits)
  show "map (den (env_val b)) current = map (den (env_val b)) (ts_shape dst)"
    using dims_den(1) [OF s(1)] dims_den(1) [OF s(2)] by simp
  show "dtype = ts_dtype dst" by (fact d)
  show "den (env_val b) (ts_offset dst) = 0" using evaluate_True_den [OF o] .
  show "map (den (env_val b)) (ts_strides dst) = row_major (map (den (env_val b)) (ts_shape dst))"
    using mapR_ev_den [OF t(1)] mapR_ev_den [OF t(2)] by (simp add: den_dense_strides)
qed

lemma bind_recipe_parts:
  assumes "bind_recipe r sources c b0 = Inr b"
  obtains final dtype n m where
    "bind_sources sources (ts_shape c) b0 = Inr b"
    "check_source b (r_source r) c = Inr ()"
    "footprint b (ts_shape (r_source r)) (ts_dtype (r_source r)) = Inr n"
    "bind_operations b (ts_shape (r_source r)) (ts_dtype (r_source r)) (r_operations r) = Inr (final, dtype)"
    "check_destination b final dtype (r_destination r) = Inr ()"
    "footprint b (ts_shape (r_destination r)) (ts_dtype (r_destination r)) = Inr m"
  using assms by (auto simp: bind_recipe_def)

lemma bind_recipe_chain:
  assumes "bind_recipe r sources c b0 = Inr b"
  defines "\<rho> \<equiv> env_val b" and "extents \<equiv> map the_int (ts_shape c)"
  shows "concrete_chain \<rho> (extents, ts_dtype c) (r_operations r) =
      Some (map (den \<rho>) (ts_shape (r_destination r)), ts_dtype (r_destination r)) \<and>
    ts_shape c = map PyInt (map (den \<rho>) (ts_shape (r_source r))) \<and>
    ts_strides c = map PyInt (row_major extents) \<and> ts_offset c = PyInt 0 \<and>
    map (den \<rho>) (ts_strides (r_destination r)) = row_major (map (den \<rho>) (ts_shape (r_destination r))) \<and>
    den \<rho> (ts_offset (r_destination r)) = 0"
proof -
  from assms(1) obtain final dtype n m where
    src: "check_source b (r_source r) c = Inr ()"
    and fp: "footprint b (ts_shape (r_source r)) (ts_dtype (r_source r)) = Inr n"
    and ops: "bind_operations b (ts_shape (r_source r)) (ts_dtype (r_source r)) (r_operations r) = Inr (final, dtype)"
    and dst: "check_destination b final dtype (r_destination r) = Inr ()"
    by (rule bind_recipe_parts)
  note s = check_source_sound [OF src, folded \<rho>_def] and d = check_destination_sound [OF dst, folded \<rho>_def]
  from s(7) obtain vs where "dims b (ts_shape (r_source r)) = Inr vs" ..
  from bind_operations_sound [OF fits_den [OF this fp] ops] have
    "concrete_chain \<rho> (map (den \<rho>) (ts_shape (r_source r)), ts_dtype (r_source r)) (r_operations r) =
      Some (map (den \<rho>) final, dtype)" by (simp add: \<rho>_def)
  moreover have "extents = map (den \<rho>) (ts_shape (r_source r))"
    unfolding extents_def s(1) by (simp add: map_PyInt_eq)
  ultimately show ?thesis using s d by simp
qed

section \<open>Only guard errors\<close>

text \<open>
  The callers of \<open>bind_recipe\<close> catch \<open>GuardError\<close> only.  A recipe whose symbolic chain is
  well-formed (which is what \<open>emit_mlir\<close> requires before compiling it) raises nothing else.
\<close>

fun shape_chain :: "expr list \<Rightarrow> operation list \<Rightarrow> expr list res" where
  "shape_chain shape [] = Inr shape"
| "shape_chain shape (op # ops) = res_bind (operation_shape shape op) (\<lambda>t. shape_chain t ops)"

definition is_guard :: "exn \<Rightarrow> bool" where
  "is_guard x \<longleftrightarrow> (\<exists>reason. x = GuardError reason)"

lemma is_guard_GuardError [simp]: "is_guard (GuardError reason)"
  by (simp add: is_guard_def)

lemma i64_error: "i64_py v = Inl x \<Longrightarrow> is_guard x"
  by (auto simp: i64_py_def split: pyint.splits if_splits)

lemma ev_error: "wf_expr e \<Longrightarrow> ev b e = Inl x \<Longrightarrow> is_guard x"
  by (auto simp: ev_def split: sum.splits exn.splits dest!: evaluate_error)

lemma mapR_error: "(\<And>x y. x \<in> set xs \<Longrightarrow> f x = Inl y \<Longrightarrow> P y) \<Longrightarrow> mapR f xs = Inl y \<Longrightarrow> P y"
  by (induction xs) (auto simp: res_bind_eq_Inl)

lemma mapR_ev_error: "list_all wf_expr es \<Longrightarrow> mapR (ev b) es = Inl x \<Longrightarrow> is_guard x"
  by (rule mapR_error [of es "ev b" is_guard]) (auto simp: list_all_iff intro: ev_error)

lemma dims_error: "list_all wf_expr es \<Longrightarrow> dims b es = Inl x \<Longrightarrow> is_guard x"
  by (auto simp: dims_def res_bind_eq_Inl dest: mapR_ev_error split: if_splits)

lemma footprint_error: "list_all wf_expr es \<Longrightarrow> footprint b es dtype = Inl x \<Longrightarrow> is_guard x"
  by (auto simp: footprint_def res_bind_eq_Inl list_all_iff split: option.splits
      dest: i64_error intro: ev_error [OF wf_product])

lemma divisibility_error: "wf_expr e \<Longrightarrow> divisibility b e = Inl x \<Longrightarrow> is_guard x"
  by (induction b e rule: divisibility.induct)
    (auto simp: res_bind_eq_Inl py_mod_def dest: ev_error split: if_splits)

lemma check_concrete_error: "check_concrete c = Inl x \<Longrightarrow> is_guard x"
  by (auto simp: check_concrete_def split: if_splits dest: mapR_error [of _ i64_py is_guard, rotated] i64_error)

lemma bind_sources_error: "bind_sources sources shape b = Inl x \<Longrightarrow> is_guard x"
  by (induction sources arbitrary: b) (auto simp: Let_def split: if_splits)

lemma wf_dense: "list_all wf_expr es \<Longrightarrow> list_all wf_expr (dense_strides es)"
  by (auto simp: list_all_iff intro: wf_dense_strides)

lemma check_source_error: "wf_spec src \<Longrightarrow> check_source b src c = Inl x \<Longrightarrow> is_guard x"
  by (auto simp: check_source_def wf_spec_def res_bind_eq_Inl split: if_splits
      dest: dims_error mapR_ev_error ev_error intro: mapR_ev_error [OF wf_dense])

lemma check_destination_error:
  "list_all wf_expr current \<Longrightarrow> wf_spec dst \<Longrightarrow> check_destination b current dtype dst = Inl x \<Longrightarrow> is_guard x"
  by (auto simp: check_destination_def wf_spec_def res_bind_eq_Inl split: if_splits
      dest: dims_error mapR_ev_error ev_error intro: mapR_ev_error [OF wf_dense])

lemma operation_shape_wf:
  assumes "list_all wf_expr shape" and "wf_op op" and "operation_shape shape op = Inr target"
  shows "list_all wf_expr target"
proof (cases op)
  case (Transpose perm)
  with assms have "mset target = mset shape" by (auto simp: mset_permute split: if_splits)
  then show ?thesis using assms(1) by (metis list_all_iff mset_eq_setD)
next
  case (IndexSelect ix a)
  with assms show ?thesis
    by (cases shape) (auto simp: wf_spec_def list_all_iff split: if_splits list.splits)
next
  case (Pad axis lo hi f)
  with assms show ?thesis
    by (auto simp: list_all_iff dest!: set_update_subset_insert [THEN subsetD] split: if_splits
        intro!: wf_add)
qed (use assms in auto)

lemma op_guard_error:
  assumes "list_all wf_expr current" "wf_op op" "list_all wf_expr target"
    and "op_guard b current dtype target op = Inl x"
  shows "is_guard x"
proof (cases op)
  case (Reshape t)
  have "mapR (divisibility b) target = Inl x \<Longrightarrow> is_guard x"
    by (rule mapR_error [of target "divisibility b" is_guard])
      (use assms(3) in \<open>auto simp: list_all_iff intro: divisibility_error\<close>)
  with Reshape assms show ?thesis
    by (auto simp: res_bind_eq_Inl list_all_iff split: if_splits intro: ev_error [OF wf_product])
next
  case (Pad axis lo hi f)
  with assms show ?thesis by (auto simp: res_bind_eq_Inl split: if_splits dest: ev_error)
qed (use assms in \<open>auto split: if_splits\<close>)

lemma bind_operations_error:
  assumes "list_all wf_expr current" "list_all wf_op ops" "shape_chain current ops = Inr t"
    and "bind_operations b current dtype ops = Inl x"
  shows "is_guard x"
  using assms
proof (induction ops arbitrary: current dtype)
  case (Cons op ops)
  then obtain target where t: "operation_shape current op = Inr target" by auto
  with Cons.prems have wf: "list_all wf_expr target" by (auto intro: operation_shape_wf)
  from Cons t wf show ?case
    by (auto simp: res_bind_eq_Inl dest: op_guard_error dims_error footprint_error)
qed simp

lemma bind_operations_shape:
  "bind_operations b current dtype ops = Inr (final, dtype') \<Longrightarrow> shape_chain current ops = Inr final"
  by (induction ops arbitrary: current dtype) auto

lemma shape_chain_wf:
  "list_all wf_expr shape \<Longrightarrow> list_all wf_op ops \<Longrightarrow> shape_chain shape ops = Inr t \<Longrightarrow> list_all wf_expr t"
  by (induction ops arbitrary: shape) (auto dest: operation_shape_wf)

lemma bind_recipe_guard:
  assumes "wf_recipe r" and "shape_chain (ts_shape (r_source r)) (r_operations r) = Inr t"
    and "bind_recipe r sources c b0 = Inl x"
  shows "\<exists>reason. x = GuardError reason"
proof -
  have wf: "wf_spec (r_source r)" "wf_spec (r_destination r)" "list_all wf_op (r_operations r)"
    "list_all wf_expr (ts_shape (r_source r))" "list_all wf_expr (ts_shape (r_destination r))"
    using assms(1) by (auto simp: wf_recipe_def wf_spec_def)
  have final: "list_all wf_expr final" if "bind_operations b (ts_shape (r_source r)) dtype (r_operations r) =
    Inr (final, dtype')" for b dtype dtype' final
    using wf bind_operations_shape [OF that] by (blast intro: shape_chain_wf)
  from assms(3) have "is_guard x"
    by (auto simp: bind_recipe_def res_bind_eq_Inl split: prod.splits
        dest: check_concrete_error bind_sources_error check_source_error [OF wf(1)]
          footprint_error [OF wf(4)] footprint_error [OF wf(5)] bind_operations_error [OF wf(4,3) assms(2)]
          check_destination_error [OF final wf(2)])
  then show ?thesis by (simp add: is_guard_def)
qed

section \<open>A concrete recipe\<close>

text \<open>The README's example: reshape a vector to \<open>[n // 64, 64]\<close>, then transpose.\<close>

definition readme_recipe :: recipe where
  "readme_recipe = \<lparr>r_source = \<lparr>ts_shape = [Symbol ''s0''], ts_strides = [Const 1], ts_offset = Const 0,
      ts_dtype = ''float32''\<rparr>,
    r_operations = [Reshape [FloorDiv (Symbol ''s0'') 64, Const 64], Transpose [1, 0]],
    r_destination = \<lparr>ts_shape = [Const 64, FloorDiv (Symbol ''s0'') 64],
      ts_strides = [FloorDiv (Symbol ''s0'') 64, Const 1], ts_offset = Const 0, ts_dtype = ''float32''\<rparr>,
    r_direction = ''h2d''\<rparr>"

definition readme_sources :: "symbol_source list" where
  "readme_sources = [\<lparr>ss_name = ''s0'', ss_axis = 0, ss_equal_axes = [], ss_operand = ''source''\<rparr>]"

definition vector_source :: "int \<Rightarrow> pyint tensor_spec" where
  "vector_source n = \<lparr>ts_shape = [PyInt n], ts_strides = [PyInt 1], ts_offset = PyInt 0, ts_dtype = ''float32''\<rparr>"

lemma readme_binds:
  "case bind_recipe readme_recipe readme_sources (vector_source 128) Map.empty of Inr b \<Rightarrow> True | Inl x \<Rightarrow> False"
  by code_simp

lemma readme_rejects:
  "case bind_recipe readme_recipe readme_sources (vector_source 100) Map.empty of Inr b \<Rightarrow> False | Inl x \<Rightarrow> True"
  by code_simp

lemma readme_bound: "\<exists>b. bind_recipe readme_recipe readme_sources (vector_source 128) Map.empty = Inr b"
  using readme_binds by (auto split: sum.splits)

lemma readme_rejected: "\<exists>x. bind_recipe readme_recipe readme_sources (vector_source 100) Map.empty = Inl x"
  using readme_rejects by (auto split: sum.splits)

lemma readme_wf: "wf_recipe readme_recipe"
  by code_simp

lemma readme_chain:
  "shape_chain (ts_shape (r_source readme_recipe)) (r_operations readme_recipe) =
     Inr [Const 64, FloorDiv (Symbol ''s0'') 64]"
  by code_simp

section \<open>Properties\<close>

text \<open>
  C1. Refinement.  When \<open>bind_recipe\<close> accepts a concrete source, the bindings it returns make
  the recipe's chain, run on plain integers from the concrete extents, reach exactly the
  destination's extents and dtype: every intermediate extent is positive, every reshape keeps the
  element count, every padding is non-negative and in range, every permutation is one, and every
  byte footprint on the way is below \<open>2 ^ 63\<close>; source and destination are dense, row-major and at
  offset zero.
\<close>

theorem bind_recipe_refines:
  assumes "bind_recipe r sources c b0 = Inr b"
  defines "\<rho> \<equiv> env_val b" and "extents \<equiv> map the_int (ts_shape c)"
  shows "concrete_chain \<rho> (extents, ts_dtype c) (r_operations r) =
      Some (map (den \<rho>) (ts_shape (r_destination r)), ts_dtype (r_destination r)) \<and>
    ts_shape c = map PyInt (map (den \<rho>) (ts_shape (r_source r))) \<and>
    ts_strides c = map PyInt (row_major extents) \<and> ts_offset c = PyInt 0 \<and>
    map (den \<rho>) (ts_strides (r_destination r)) = row_major (map (den \<rho>) (ts_shape (r_destination r))) \<and>
    den \<rho> (ts_offset (r_destination r)) = 0"
  using assms(1) unfolding assms(2,3) by (rule bind_recipe_chain)

theorem bind_recipe_refines_witness:
  "\<exists>b. bind_recipe readme_recipe readme_sources (vector_source 128) Map.empty = Inr b \<and>
     concrete_chain (env_val b) ([128], ''float32'') (r_operations readme_recipe) =
       Some (map (den (env_val b)) (ts_shape (r_destination readme_recipe)), ''float32'')"
proof -
  obtain b where b: "bind_recipe readme_recipe readme_sources (vector_source 128) Map.empty = Inr b"
    using readme_bound ..
  from bind_recipe_refines [OF b] b show ?thesis
    by (intro exI [of _ b]) (simp add: vector_source_def, simp add: readme_recipe_def)
qed

text \<open>
  The bindings: every source symbol is bound to the extent at its axis, all axes that share
  the symbol have that extent, names without a source keep what the caller bound, and no
  caller-supplied binding is ever overwritten by a different value.
\<close>

theorem bind_recipe_bindings:
  assumes "bind_recipe r sources c b0 = Inr b"
  shows "(\<forall>s\<in>set sources. b (ss_name s) = Some (ts_shape c ! nat (ss_axis s)) \<and>
      (\<forall>a\<in>set (ss_equal_axes s). ts_shape c ! nat a = ts_shape c ! nat (ss_axis s))) \<and>
    (\<forall>n. n \<notin> ss_name ` set sources \<longrightarrow> b n = b0 n) \<and> b0 \<subseteq>\<^sub>m b"
proof -
  from assms have "bind_sources sources (ts_shape c) b0 = Inr b" by (rule bind_recipe_parts)
  then show ?thesis
    by (auto simp: map_le_def dom_def dest: bind_sources_bound bind_sources_frame bind_sources_keeps)
qed

theorem bind_recipe_bindings_witness:
  "\<exists>b. bind_recipe readme_recipe readme_sources (vector_source 128) Map.empty = Inr b \<and>
     b ''s0'' = Some (PyInt 128)"
proof -
  obtain b where b: "bind_recipe readme_recipe readme_sources (vector_source 128) Map.empty = Inr b"
    using readme_bound ..
  from bind_recipe_bindings [OF b] b show ?thesis
    by (auto simp: readme_sources_def vector_source_def)
qed

text \<open>
  Errors.  For a well-formed recipe whose symbolic chain is defined, \<open>bind_recipe\<close> either
  returns bindings or raises a \<open>GuardError\<close>, whatever the concrete source and the caller's
  bindings are; no other exception can escape its callers' handlers.
\<close>

theorem bind_recipe_only_guard_errors:
  assumes "wf_recipe r" and "shape_chain (ts_shape (r_source r)) (r_operations r) = Inr t"
    and "bind_recipe r sources c b0 = Inl x"
  shows "\<exists>reason. x = GuardError reason"
  using assms by (rule bind_recipe_guard)

theorem bind_recipe_only_guard_errors_witness:
  "\<exists>reason. bind_recipe readme_recipe readme_sources (vector_source 100) Map.empty = Inl (GuardError reason)"
proof -
  obtain x where x: "bind_recipe readme_recipe readme_sources (vector_source 100) Map.empty = Inl x"
    using readme_rejected ..
  from bind_recipe_only_guard_errors [OF readme_wf readme_chain x] x show ?thesis by auto
qed

end
