(* ===== verification/Json.thy ===== *)
theory Json
  imports Binding
begin

text \<open>
  The values \<open>json.loads\<close> returns, and the readers of \<open>reloc_torch/artifact.py\<close> over them:
  \<open>_exact_keys\<close>, \<open>_integer\<close>, \<open>_string\<close>, \<open>_hex_bits\<close>.  The interface every encoder/decoder pair of
  the artifact format meets is the locale \<open>codec\<close>.
\<close>

section \<open>Values\<close>

datatype json =
    JNull
  | JBool bool
  | JInt int
  | JFloat
  | JStr string
  | JList "json list"
  | JObj "(string \<times> json) list"

text \<open>A dictionary as an association list: \<open>json.loads\<close> keeps one entry per key.\<close>

definition json_field :: "(string \<times> json) list \<Rightarrow> string \<Rightarrow> json res" where
  "json_field kvs k = (case map_of kvs k of None \<Rightarrow> Inl (KeyErr k) | Some v \<Rightarrow> Inr v)"

text \<open>\<open>set(value) == set(expected)\<close>, as mutual inclusion.\<close>

definition same_keys :: "string list \<Rightarrow> string list \<Rightarrow> bool" where
  "same_keys xs ys \<longleftrightarrow> (\<forall>x\<in>set xs. x \<in> set ys) \<and> (\<forall>y\<in>set ys. y \<in> set xs)"

lemma same_keys_iff: "same_keys xs ys \<longleftrightarrow> set xs = set ys"
  by (auto simp: same_keys_def)

text \<open>\<open>_exact_keys\<close>; the model hands the checked dictionary on.\<close>

definition exact_keys :: "json \<Rightarrow> string list \<Rightarrow> string \<Rightarrow> (string \<times> json) list res" where
  "exact_keys v expected loc = (case v of
     JObj kvs \<Rightarrow> if same_keys (map fst kvs) expected then Inr kvs
                else Inl (RuntimeErr (msg [''compiler manifest has invalid '', loc, '' fields'']))
   | _ \<Rightarrow> Inl (RuntimeErr (msg [''compiler manifest has invalid '', loc, '' fields''])))"

definition json_integer :: "string \<Rightarrow> json \<Rightarrow> int res" where
  "json_integer loc v = (case v of
     JInt n \<Rightarrow> Inr n
   | _ \<Rightarrow> Inl (RuntimeErr (msg [''compiler manifest '', loc, '' must be an integer''])))"

definition json_string :: "string \<Rightarrow> json \<Rightarrow> string res" where
  "json_string loc v = (case v of
     JStr s \<Rightarrow> if s = [] then Inl (RuntimeErr (msg [''compiler manifest '', loc, '' must be a nonempty string'']))
              else Inr s
   | _ \<Rightarrow> Inl (RuntimeErr (msg [''compiler manifest '', loc, '' must be a nonempty string''])))"

definition json_list :: "exn \<Rightarrow> json \<Rightarrow> json list res" where
  "json_list e v = (case v of JList xs \<Rightarrow> Inr xs | _ \<Rightarrow> Inl e)"

definition hex_digit :: "char \<Rightarrow> bool" where
  "hex_digit c \<longleftrightarrow> is_digit c \<or> ((97::nat) \<le> of_char c \<and> (of_char c :: nat) \<le> 102)"

definition hex_value :: "char \<Rightarrow> nat" where
  "hex_value c = (if is_digit c then of_char c - 48 else of_char c - 87)"

definition hex_int :: "string \<Rightarrow> int" where
  "hex_int s = int (foldl (\<lambda>a c. 16 * a + hex_value c) 0 s)"

definition hex_bits :: "string \<Rightarrow> json \<Rightarrow> int res" where
  "hex_bits loc v = (case v of
     JStr s \<Rightarrow> if s = [] \<or> length s > 16 \<or> \<not> list_all hex_digit s
              then Inl (RuntimeErr (msg [''compiler manifest '', loc, '' bits must be lowercase hex'']))
              else Inr (hex_int s)
   | _ \<Rightarrow> Inl (RuntimeErr (msg [''compiler manifest '', loc, '' bits must be lowercase hex''])))"

lemma json_field_Cons [simp]:
  "json_field ((k, v) # kvs) k' = (if k = k' then Inr v else json_field kvs k')"
  by (simp add: json_field_def)

lemma json_field_eq_Inr [res_simps]: "json_field kvs k = Inr v \<longleftrightarrow> map_of kvs k = Some v"
  by (simp add: json_field_def split: option.splits)

lemma exact_keys_eq_Inr [simp, res_simps]:
  "exact_keys v expected loc = Inr kvs \<longleftrightarrow> v = JObj kvs \<and> same_keys (map fst kvs) expected"
  by (auto simp: exact_keys_def split: json.splits)

lemma exact_keys_same [simp]:
  "same_keys (map fst kvs) expected \<Longrightarrow> exact_keys (JObj kvs) expected loc = Inr kvs"
  by simp

lemma json_integer_eq_Inr [simp, res_simps]: "json_integer loc v = Inr n \<longleftrightarrow> v = JInt n"
  by (auto simp: json_integer_def split: json.splits)

lemma json_integer_JInt [simp]: "json_integer loc (JInt n) = Inr n"
  by simp

lemma json_string_eq_Inr [simp, res_simps]: "json_string loc v = Inr s \<longleftrightarrow> v = JStr s \<and> s \<noteq> []"
  by (auto simp: json_string_def split: json.splits)

lemma json_string_JStr [simp]: "s \<noteq> [] \<Longrightarrow> json_string loc (JStr s) = Inr s"
  by simp

lemma json_list_eq_Inr [simp, res_simps]: "json_list e v = Inr xs \<longleftrightarrow> v = JList xs"
  by (auto simp: json_list_def split: json.splits)

lemma json_list_JList [simp]: "json_list e (JList xs) = Inr xs"
  by simp

lemma hex_bits_eq_Inr [res_simps]:
  "hex_bits loc v = Inr n \<longleftrightarrow>
     (\<exists>s. v = JStr s \<and> s \<noteq> [] \<and> length s \<le> 16 \<and> list_all hex_digit s \<and> n = hex_int s)"
  by (auto simp: hex_bits_def split: json.splits if_splits)

text \<open>At most sixteen hexadecimal digits: the bits always fit an unsigned 64-bit word.\<close>

lemma hex_value_bound: "hex_digit c \<Longrightarrow> hex_value c < 16"
  by (auto simp: hex_digit_def hex_value_def is_digit_def)

lemma hex_fold_bound:
  "list_all hex_digit s \<Longrightarrow> foldl (\<lambda>a c. 16 * a + hex_value c) a s < (a + 1) * 16 ^ length s"
proof (induction s arbitrary: a)
  case (Cons c s)
  then have "hex_value c < 16" by (simp add: hex_value_bound)
  from Cons have "foldl (\<lambda>a c. 16 * a + hex_value c) a (c # s) < (16 * a + hex_value c + 1) * 16 ^ length s"
    by simp
  also have "\<dots> \<le> (16 * a + 16) * 16 ^ length s" using \<open>hex_value c < 16\<close> by (intro mult_right_mono) auto
  finally show ?case by (simp add: algebra_simps)
qed simp

lemma hex_bits_bound: "hex_bits loc v = Inr n \<Longrightarrow> 0 \<le> n \<and> n < 2 ^ 64"
proof -
  assume "hex_bits loc v = Inr n"
  then obtain s where s: "list_all hex_digit s" "length s \<le> 16" "n = hex_int s"
    by (auto simp: hex_bits_eq_Inr)
  have "foldl (\<lambda>a c. 16 * a + hex_value c) 0 s < (0 + 1) * 16 ^ length s"
    using s(1) by (rule hex_fold_bound)
  also have "\<dots> \<le> (16::nat) ^ 16" using power_increasing [of "length s" 16 "16::nat"] s(2) by simp
  finally have "foldl (\<lambda>a c. 16 * a + hex_value c) 0 s < 2 ^ 64" by simp
  then have "int (foldl (\<lambda>a c. 16 * a + hex_value c) 0 s) < int (2 ^ 64)" by (simp only: of_nat_less_iff)
  with s(3) show ?thesis by (simp add: hex_int_def)
qed

section \<open>Codecs\<close>

text \<open>
  What the artifact format promises of each kind of value: decoding an encoded value gives it
  back, and whatever decodes satisfies the checks of the value's constructor.
\<close>

locale codec =
  fixes enc :: "'a \<Rightarrow> json" and dec :: "json \<Rightarrow> 'a res" and ok :: "'a \<Rightarrow> bool"
  assumes dec_enc: "ok x \<Longrightarrow> dec (enc x) = Inr x"
    and dec_ok: "dec j = Inr x \<Longrightarrow> ok x"
begin

lemma enc_inj: "ok x \<Longrightarrow> ok y \<Longrightarrow> enc x = enc y \<Longrightarrow> x = y"
  by (metis dec_enc Inr_inject)

lemma list_dec_enc: "list_all ok xs \<Longrightarrow> mapR dec (map enc xs) = Inr xs"
  by (rule mapR_id) (simp add: list_all_iff dec_enc)

lemma list_dec_ok: "mapR dec js = Inr xs \<Longrightarrow> list_all ok xs"
  by (induction js arbitrary: xs) (auto intro: dec_ok)

lemma list_dec_length: "mapR dec js = Inr xs \<Longrightarrow> length js = length xs"
  by (simp add: mapR_length)

end

text \<open>A codec whose encoding is also the only text its decoder accepts.\<close>

locale exact_codec = codec +
  assumes dec_exact: "dec j = Inr x \<Longrightarrow> j = enc x"
begin

lemma dec_iff: "dec j = Inr x \<longleftrightarrow> ok x \<and> j = enc x"
  using dec_enc dec_ok dec_exact by blast

lemma list_dec_iff: "mapR dec js = Inr xs \<longleftrightarrow> list_all ok xs \<and> js = map enc xs"
proof
  show "mapR dec js = Inr xs \<Longrightarrow> list_all ok xs \<and> js = map enc xs"
    by (induction js arbitrary: xs) (auto simp: dec_iff)
qed (auto intro: list_dec_enc)

end

section \<open>Expressions\<close>

definition invalid_expression :: "string \<Rightarrow> exn" where
  "invalid_expression loc = RuntimeErr (msg [''compiler manifest '', loc, '' has invalid expression''])"

definition unsupported_expression :: "string \<Rightarrow> exn" where
  "unsupported_expression loc = RuntimeErr (msg [''compiler manifest '', loc, '' has unsupported expression''])"

definition nonpositive_divisor :: "string \<Rightarrow> exn" where
  "nonpositive_divisor loc = RuntimeErr (msg [''compiler manifest '', loc, '' has nonpositive divisor''])"

text \<open>\<open>except ValueError: raise RuntimeError\<close> of \<open>_parse_expr\<close>.\<close>

definition reject_value_errors :: "string \<Rightarrow> 'a res \<Rightarrow> 'a res" where
  "reject_value_errors loc m = catch m is_value_error (\<lambda>_. Inl (invalid_expression loc))"

fun parse_expr :: "string \<Rightarrow> json \<Rightarrow> expr res" where
  "parse_expr loc (JList [JStr tag, a]) =
     (if tag = ''const'' then res_bind (json_integer loc a) (\<lambda>n. Inr (Const n))
      else if tag = ''symbol'' then res_bind (json_string loc a) (\<lambda>s. reject_value_errors loc (mk_symbol s))
      else Inl (unsupported_expression loc))"
| "parse_expr loc (JList [JStr tag, a, d]) =
     (if tag = ''add'' \<or> tag = ''mul'' then
        res_bind (parse_expr loc a) (\<lambda>lhs. res_bind (parse_expr loc d) (\<lambda>rhs.
          Inr (if tag = ''add'' then Add lhs rhs else Mul lhs rhs)))
      else if tag = ''floordiv'' \<or> tag = ''mod'' then
        res_bind (parse_expr loc a) (\<lambda>lhs. res_bind (json_integer loc d) (\<lambda>divisor.
          if divisor \<le> 0 then Inl (nonpositive_divisor loc)
          else reject_value_errors loc
            (if tag = ''floordiv'' then mk_floordiv lhs divisor else mk_mod lhs divisor)))
      else Inl (unsupported_expression loc))"
| "parse_expr loc (JList (JStr tag # args)) = Inl (unsupported_expression loc)"
| "parse_expr loc v = Inl (invalid_expression loc)"

fun encode_expr :: "expr \<Rightarrow> json" where
  "encode_expr (Const n) = JList [JStr ''const'', JInt n]"
| "encode_expr (Symbol n) = JList [JStr ''symbol'', JStr n]"
| "encode_expr (Add l r) = JList [JStr ''add'', encode_expr l, encode_expr r]"
| "encode_expr (Mul l r) = JList [JStr ''mul'', encode_expr l, encode_expr r]"
| "encode_expr (FloorDiv l d) = JList [JStr ''floordiv'', encode_expr l, JInt d]"
| "encode_expr (Mod l d) = JList [JStr ''mod'', encode_expr l, JInt d]"

lemma ascii_identifier_nonempty: "ascii_identifier s \<Longrightarrow> s \<noteq> []"
  by (cases s) auto

lemma reject_eq_Inr [simp]: "reject_value_errors loc m = Inr x \<longleftrightarrow> m = Inr x"
  by (cases m) (auto simp: reject_value_errors_def invalid_expression_def)

lemma reject_Inr [simp]: "reject_value_errors loc (Inr x) = Inr x"
  by simp

lemma parse_encode_expr: "wf_expr e \<Longrightarrow> parse_expr loc (encode_expr e) = Inr e"
  by (induction e) (auto simp: mk_symbol_def mk_floordiv_def mk_mod_def ascii_identifier_nonempty)

lemma parse_expr_exact: "parse_expr loc j = Inr e \<Longrightarrow> wf_expr e \<and> j = encode_expr e"
  by (induction loc j arbitrary: e rule: parse_expr.induct)
    (auto simp: mk_symbol_def mk_floordiv_def mk_mod_def split: if_splits)

interpretation expr_codec: exact_codec encode_expr "parse_expr loc" wf_expr for loc
  by unfold_locales (auto simp: parse_encode_expr dest: parse_expr_exact)

end
