(* ===== verification/Serialization.thy ===== *)
theory Serialization
  imports Json
begin

text \<open>
  \<open>reloc_torch/artifact.py\<close>: the portable serialization of recipes, \<open>_encode_recipe\<close> and
  \<open>_decode_recipe\<close> with the encoders and decoders of descriptors, parameters and operations they
  are built from.
\<close>

section \<open>Descriptors\<close>

definition descriptor_dtypes :: "bool \<Rightarrow> string list" where
  "descriptor_dtypes index = (if index then [''int32'', ''int64'']
     else [''float32'', ''float16'', ''bfloat16'', ''int8''])"

definition parse_descriptor :: "bool \<Rightarrow> string \<Rightarrow> json \<Rightarrow> expr tensor_spec res" where
  "parse_descriptor index loc value =
     res_bind (exact_keys value [''shape'', ''strides'', ''offset'', ''dtype''] loc) (\<lambda>kvs.
     res_bind (json_field kvs ''shape'') (\<lambda>shape.
     res_bind (json_field kvs ''strides'') (\<lambda>strides.
     let arrays = RuntimeErr (msg [''compiler manifest '', loc, '' shape/strides must be arrays'']) in
     res_bind (json_list arrays shape) (\<lambda>shape.
     res_bind (json_list arrays strides) (\<lambda>strides.
     if shape = [] \<or> length shape \<noteq> length strides
     then Inl (RuntimeErr (msg [''compiler manifest '', loc, '' has invalid rank''])) else
     res_bind (json_field kvs ''dtype'') (\<lambda>dtype.
     res_bind (json_string (loc @ ''.dtype'') dtype) (\<lambda>dtype.
     if dtype \<notin> set (descriptor_dtypes index)
     then Inl (RuntimeErr (msg [''compiler manifest '', loc, '' has unsupported dtype''])) else
     res_bind (mapR (parse_expr (loc @ ''.shape'')) shape) (\<lambda>shape.
     res_bind (mapR (parse_expr (loc @ ''.strides'')) strides) (\<lambda>strides.
     res_bind (json_field kvs ''offset'') (\<lambda>off.
     res_bind (parse_expr (loc @ ''.offset'') off) (\<lambda>off.
       Inr \<lparr>ts_shape = shape, ts_strides = strides, ts_offset = off, ts_dtype = dtype\<rparr>)))))))))))"

definition encode_descriptor :: "expr tensor_spec \<Rightarrow> json" where
  "encode_descriptor s = JObj [
     (''dtype'', JStr (ts_dtype s)),
     (''offset'', encode_expr (ts_offset s)),
     (''shape'', JList (map encode_expr (ts_shape s))),
     (''strides'', JList (map encode_expr (ts_strides s)))]"

definition descriptor_ok :: "bool \<Rightarrow> expr tensor_spec \<Rightarrow> bool" where
  "descriptor_ok index s \<longleftrightarrow> wf_spec s \<and> ts_shape s \<noteq> [] \<and>
     length (ts_shape s) = length (ts_strides s) \<and> ts_dtype s \<in> set (descriptor_dtypes index)"

lemma descriptor_dtype_nonempty: "d \<in> set (descriptor_dtypes index) \<Longrightarrow> d \<noteq> []"
  by (auto simp: descriptor_dtypes_def split: if_splits)

lemma parse_encode_descriptor:
  "descriptor_ok index s \<Longrightarrow> parse_descriptor index loc (encode_descriptor s) = Inr s"
  using descriptor_dtype_nonempty [of "ts_dtype s" index]
  by (simp add: parse_descriptor_def encode_descriptor_def descriptor_ok_def wf_spec_def same_keys_def
      expr_codec.list_dec_enc expr_codec.dec_enc)

lemma parse_descriptor_ok: "parse_descriptor index loc j = Inr s \<Longrightarrow> descriptor_ok index s"
  by (auto simp: parse_descriptor_def descriptor_ok_def wf_spec_def Let_def expr_codec.list_dec_iff
      expr_codec.dec_iff split: if_splits)

interpretation descriptor_codec:
  codec encode_descriptor "parse_descriptor index loc" "descriptor_ok index" for index loc
  by unfold_locales (auto intro: parse_encode_descriptor parse_descriptor_ok)

section \<open>Parameters\<close>

definition encode_param :: "param option \<Rightarrow> json" where
  "encode_param param = (case param of
     None \<Rightarrow> JNull
   | Some (InlineParam p) \<Rightarrow> JObj [(''bits'', JList (map JInt (ip_bits p))), (''dtype'', JStr (ip_dtype p)),
       (''kind'', JStr ''inline''), (''shape'', JList (map JInt (ip_shape p)))]
   | Some (BindingParam p) \<Rightarrow> JObj [(''dtype'', JStr (bp_dtype p)),
       (''extents'', JList (map encode_expr (bp_extents p))), (''kind'', JStr ''binding''),
       (''name'', JStr (bp_name p))])"

text \<open>
  \<open>_decode_param\<close> and \<open>_parse_param\<close> differ in how a bit pattern is read (an integer, or hex
  text) and in the wording of their messages; \<open>bits\<close> and the three messages are arguments.
\<close>

definition read_param ::
  "(string \<Rightarrow> json \<Rightarrow> int res) \<Rightarrow> exn \<Rightarrow> exn \<Rightarrow> exn \<Rightarrow> exn \<Rightarrow> string \<Rightarrow> json \<Rightarrow> param option res" where
  "read_param bits invalid unsupported arrays extents_array loc value = (case value of
     JNull \<Rightarrow> Inr None
   | JObj kvs \<Rightarrow> (case map_of kvs ''kind'' of
       Some (JStr kind) \<Rightarrow>
         (if kind = ''inline'' then catch (
            res_bind (exact_keys value [''kind'', ''dtype'', ''shape'', ''bits''] loc) (\<lambda>kvs.
            res_bind (json_field kvs ''shape'') (\<lambda>shape. res_bind (json_list arrays shape) (\<lambda>shape.
            res_bind (json_field kvs ''bits'') (\<lambda>bs. res_bind (json_list arrays bs) (\<lambda>bs.
            res_bind (json_field kvs ''dtype'') (\<lambda>dtype. res_bind (json_string loc dtype) (\<lambda>dtype.
            res_bind (mapR (json_integer loc) shape) (\<lambda>shape.
            res_bind (mapR (bits loc) bs) (\<lambda>bs.
            res_bind (mk_inline dtype shape bs) (\<lambda>p. Inr (Some p)))))))))))) is_value_error (\<lambda>_. Inl invalid)
          else if kind = ''binding'' then catch (
            res_bind (exact_keys value [''kind'', ''name'', ''dtype'', ''extents''] loc) (\<lambda>kvs.
            res_bind (json_field kvs ''extents'') (\<lambda>es. res_bind (json_list extents_array es) (\<lambda>es.
            res_bind (json_field kvs ''name'') (\<lambda>name. res_bind (json_string loc name) (\<lambda>name.
            res_bind (json_field kvs ''dtype'') (\<lambda>dtype. res_bind (json_string loc dtype) (\<lambda>dtype.
            res_bind (mapR (parse_expr loc) es) (\<lambda>es.
            res_bind (mk_binding name dtype es) (\<lambda>p. Inr (Some p))))))))))) is_value_error (\<lambda>_. Inl invalid)
          else Inl unsupported)
     | _ \<Rightarrow> Inl invalid)
   | _ \<Rightarrow> Inl invalid)"

definition decode_param :: "string \<Rightarrow> json \<Rightarrow> param option res" where
  "decode_param loc value = read_param json_integer
     (RuntimeErr (msg [''compiled recipe has invalid '', loc]))
     (RuntimeErr (msg [''compiled recipe has unsupported '', loc, '' kind'']))
     (RuntimeErr (msg [''compiled recipe '', loc, '' shape/bits must be arrays'']))
     (RuntimeErr (msg [''compiled recipe '', loc, '' extents must be an array''])) loc value"

definition param_option_ok :: "param option \<Rightarrow> bool" where
  "param_option_ok p = (case p of None \<Rightarrow> True | Some q \<Rightarrow> param_ok q)"

lemma param_dtype_nonempty: "map_of param_dtypes d = Some w \<Longrightarrow> d \<noteq> []"
  by (auto simp: param_dtypes_def tensor_dtypes_def)

lemma map_json_integer [simp]: "mapR (json_integer loc) (map JInt ns) = Inr ns"
  by (rule mapR_id) simp

lemma mk_inline_ok: "param_ok (InlineParam p) \<Longrightarrow> mk_inline (ip_dtype p) (ip_shape p) (ip_bits p) = Inr (InlineParam p)"
  by (simp add: mk_inline_eq_Inr)

lemma mk_binding_ok: "binding_ok p \<Longrightarrow> mk_binding (bp_name p) (bp_dtype p) (bp_extents p) = Inr (BindingParam p)"
  by (cases p) (simp add: mk_binding_eq_Inr)

lemma decode_encode_param:
  assumes "param_option_ok p"
  shows "decode_param loc (encode_param p) = Inr p"
proof (cases p)
  case (Some q)
  show ?thesis
  proof (cases q)
    case (InlineParam ip)
    with assms Some have ok: "param_ok (InlineParam ip)" by (simp add: param_option_ok_def)
    then have "ip_dtype ip \<noteq> []" by (auto simp: inline_shape_ok_def dest: param_dtype_nonempty)
    with Some InlineParam mk_inline_ok [OF ok] show ?thesis
      by (simp add: decode_param_def read_param_def encode_param_def same_keys_def)
  next
    case (BindingParam bp)
    with assms Some have ok: "binding_ok bp" "list_all wf_expr (bp_extents bp)"
      by (auto simp: param_option_ok_def)
    then have "bp_dtype bp \<noteq> []" "bp_name bp \<noteq> []"
      by (auto simp: binding_ok_def dest: param_dtype_nonempty)
    with Some BindingParam ok mk_binding_ok [OF ok(1)] show ?thesis
      by (simp add: decode_param_def read_param_def encode_param_def same_keys_def expr_codec.list_dec_enc)
  qed
qed (simp add: decode_param_def read_param_def encode_param_def)

lemma catch_eq_Inr: "catch m P (\<lambda>_. Inl e) = Inr x \<longleftrightarrow> m = Inr x"
  by (cases m) auto

lemma read_param_ok:
  assumes "read_param bits e1 e2 e3 e4 loc j = Inr p"
  shows "param_option_ok p"
  using assms
  by (auto simp: read_param_def catch_eq_Inr mk_inline_eq_Inr mk_binding_eq_Inr param_option_ok_def
      split: json.splits option.splits if_splits dest: expr_codec.list_dec_ok)

interpretation param_codec: codec encode_param "decode_param loc" param_option_ok for loc
  by unfold_locales (rule decode_encode_param, assumption, unfold decode_param_def, rule read_param_ok)

section \<open>Operations\<close>

fun encode_operation :: "operation \<Rightarrow> json" where
  "encode_operation (IndexSelect indices axis) = JObj [(''kind'', JStr ''index_select''), (''axis'', JInt axis),
     (''indices'', encode_descriptor indices)]"
| "encode_operation (Transpose perm) = JObj [(''kind'', JStr ''transpose''), (''perm'', JList (map JInt perm))]"
| "encode_operation (Reshape shape) =
     JObj [(''kind'', JStr ''reshape''), (''shape'', JList (map encode_expr shape))]"
| "encode_operation (Pad axis lo hi f) = JObj [(''axis'', JInt axis),
     (''fill'', JObj [(''bits'', JInt (fill_bits f)), (''dtype'', JStr (fill_dtype f))]),
     (''hi'', encode_expr hi), (''kind'', JStr ''pad''), (''lo'', encode_expr lo)]"
| "encode_operation (Cast dtype policy) =
     JObj [(''dtype'', JStr dtype), (''kind'', JStr ''cast''), (''policy'', JStr policy)]"
| "encode_operation (Quantize q) = JObj [
     (''axis'', case q_axis q of None \<Rightarrow> JNull | Some a \<Rightarrow> JInt a), (''dtype'', JStr (q_dtype q)),
     (''kind'', JStr ''quantize''), (''policy'', JStr (q_policy q)),
     (''scale'', encode_param (Some (q_scale q))), (''zero_point'', encode_param (q_zero_point q))]"
| "encode_operation (Dequantize q) = JObj [
     (''axis'', case q_axis q of None \<Rightarrow> JNull | Some a \<Rightarrow> JInt a), (''dtype'', JStr (q_dtype q)),
     (''kind'', JStr ''dequantize''), (''policy'', JStr (q_policy q)),
     (''scale'', encode_param (Some (q_scale q))), (''zero_point'', encode_param (q_zero_point q))]"

definition encode_recipe :: "recipe \<Rightarrow> json" where
  "encode_recipe r = JObj [
     (''destination'', encode_descriptor (r_destination r)),
     (''direction'', JStr (r_direction r)),
     (''operations'', JList (map encode_operation (r_operations r))),
     (''source'', encode_descriptor (r_source r))]"

definition decode_fill :: "json \<Rightarrow> fill res" where
  "decode_fill value =
     res_bind (exact_keys value [''dtype'', ''bits''] ''fill'') (\<lambda>kvs.
     res_bind (json_field kvs ''dtype'') (\<lambda>d. res_bind (json_string ''fill dtype'' d) (\<lambda>d.
     res_bind (json_field kvs ''bits'') (\<lambda>b. res_bind (json_integer ''fill bits'' b) (\<lambda>b.
       mk_fill d b)))))"

definition decode_quant :: "string \<Rightarrow> json \<Rightarrow> quant res" where
  "decode_quant kind item =
     res_bind (exact_keys item [''kind'', ''dtype'', ''policy'', ''axis'', ''scale'', ''zero_point''] kind) (\<lambda>kvs.
     res_bind (json_field kvs ''axis'') (\<lambda>axis.
     res_bind (if axis = JNull then Inr None
               else res_bind (json_integer (kind @ '' axis'') axis) (\<lambda>a. Inr (Some a))) (\<lambda>axis.
     res_bind (json_field kvs ''dtype'') (\<lambda>d. res_bind (json_string (kind @ '' dtype'') d) (\<lambda>dtype.
     res_bind (json_field kvs ''scale'') (\<lambda>s. res_bind (decode_param (kind @ '' scale'') s) (\<lambda>scale.
     res_bind (json_field kvs ''zero_point'') (\<lambda>z. res_bind (decode_param (kind @ '' zero_point'') z) (\<lambda>zp.
     res_bind (json_field kvs ''policy'') (\<lambda>p. res_bind (json_string (kind @ '' policy'') p) (\<lambda>policy.
       check_quant dtype scale zp axis policy)))))))))))"

definition decode_kind :: "string \<Rightarrow> json \<Rightarrow> operation res" where
  "decode_kind kind item =
     (if kind = ''index_select'' then
        res_bind (exact_keys item [''kind'', ''axis'', ''indices''] ''index_select'') (\<lambda>kvs.
        res_bind (json_field kvs ''indices'') (\<lambda>i. res_bind (parse_descriptor True ''indices'' i) (\<lambda>indices.
        res_bind (json_field kvs ''axis'') (\<lambda>a. res_bind (json_integer ''index_select axis'' a) (\<lambda>axis.
          mk_index_select indices axis)))))
      else if kind = ''transpose'' then
        res_bind (exact_keys item [''kind'', ''perm''] ''transpose'') (\<lambda>kvs.
        res_bind (json_field kvs ''perm'') (\<lambda>p.
        res_bind (json_list (RuntimeErr ''compiled recipe transpose perm must be an array'') p) (\<lambda>p.
        res_bind (mapR (json_integer ''transpose axis'') p) (\<lambda>perm. Inr (Transpose perm)))))
      else if kind = ''reshape'' then
        res_bind (exact_keys item [''kind'', ''shape''] ''reshape'') (\<lambda>kvs.
        res_bind (json_field kvs ''shape'') (\<lambda>s.
        res_bind (json_list (RuntimeErr ''compiled recipe reshape shape must be an array'') s) (\<lambda>s.
        res_bind (mapR (parse_expr ''reshape shape'') s) (\<lambda>shape. Inr (Reshape shape)))))
      else if kind = ''pad'' then
        res_bind (exact_keys item [''kind'', ''axis'', ''lo'', ''hi'', ''fill''] ''pad'') (\<lambda>kvs.
        res_bind (json_field kvs ''fill'') (\<lambda>f.
        res_bind (exact_keys f [''dtype'', ''bits''] ''fill'') (\<lambda>_.
        res_bind (json_field kvs ''axis'') (\<lambda>a. res_bind (json_integer ''pad axis'' a) (\<lambda>axis.
        res_bind (json_field kvs ''lo'') (\<lambda>l. res_bind (parse_expr ''pad lo'' l) (\<lambda>lo.
        res_bind (json_field kvs ''hi'') (\<lambda>h. res_bind (parse_expr ''pad hi'' h) (\<lambda>hi.
        res_bind (decode_fill f) (\<lambda>fl. Inr (Pad axis lo hi fl)))))))))))
      else if kind = ''cast'' then
        res_bind (exact_keys item [''kind'', ''dtype'', ''policy''] ''cast'') (\<lambda>kvs.
        res_bind (json_field kvs ''dtype'') (\<lambda>d. res_bind (json_string ''cast dtype'' d) (\<lambda>dtype.
        res_bind (json_field kvs ''policy'') (\<lambda>p. res_bind (json_string ''cast policy'' p) (\<lambda>policy.
          mk_cast dtype policy)))))
      else if kind = ''quantize'' then res_bind (decode_quant kind item) (\<lambda>q. Inr (Quantize q))
      else if kind = ''dequantize'' then res_bind (decode_quant kind item) (\<lambda>q. Inr (Dequantize q))
      else Inl (RuntimeErr ''compiled recipe has unsupported operation''))"

definition invalid_operation :: exn where
  "invalid_operation = RuntimeErr ''compiled recipe has invalid operation''"

definition decode_operation :: "json \<Rightarrow> operation res" where
  "decode_operation item = (case item of
     JObj kvs \<Rightarrow> (case map_of kvs ''kind'' of
       Some (JStr kind) \<Rightarrow> catch (decode_kind kind item) is_value_error (\<lambda>_. Inl invalid_operation)
     | _ \<Rightarrow> Inl invalid_operation)
   | _ \<Rightarrow> Inl invalid_operation)"

definition decode_recipe :: "json \<Rightarrow> recipe res" where
  "decode_recipe value =
     res_bind (exact_keys value [''source'', ''operations'', ''destination'', ''direction''] ''recipe'') (\<lambda>kvs.
     res_bind (json_field kvs ''operations'') (\<lambda>ops.
     res_bind (json_list (RuntimeErr ''compiled recipe operations must be an array'') ops) (\<lambda>ops.
     res_bind (json_field kvs ''direction'') (\<lambda>d. res_bind (json_string ''recipe.direction'' d) (\<lambda>direction.
     if direction \<notin> {''h2d'', ''d2h''}
     then Inl (RuntimeErr ''compiled recipe has unsupported direction'') else
     res_bind (mapR decode_operation ops) (\<lambda>operations.
     res_bind (json_field kvs ''source'') (\<lambda>s. res_bind (parse_descriptor False ''recipe.source'' s) (\<lambda>source.
     res_bind (json_field kvs ''destination'') (\<lambda>t.
     res_bind (parse_descriptor False ''recipe.destination'' t) (\<lambda>destination.
       Inr \<lparr>r_source = source, r_operations = operations, r_destination = destination,
            r_direction = direction\<rparr>))))))))))"

text \<open>The recipes the format can hold.\<close>

fun operation_ok :: "operation \<Rightarrow> bool" where
  "operation_ok (IndexSelect indices axis) \<longleftrightarrow> index_select_ok indices axis \<and> descriptor_ok True indices"
| "operation_ok op \<longleftrightarrow> wf_op op"

definition recipe_ok :: "recipe \<Rightarrow> bool" where
  "recipe_ok r \<longleftrightarrow> descriptor_ok False (r_source r) \<and> descriptor_ok False (r_destination r) \<and>
     list_all operation_ok (r_operations r) \<and> r_direction r \<in> {''h2d'', ''d2h''}"

lemma tensor_dtype_nonempty: "map_of tensor_dtypes d = Some w \<Longrightarrow> d \<noteq> []"
  by (auto simp: tensor_dtypes_def)

lemma decode_encode_quant:
  assumes "quant_params_ok q"
  shows "decode_quant kind (JObj [
     (''axis'', case q_axis q of None \<Rightarrow> JNull | Some a \<Rightarrow> JInt a), (''dtype'', JStr (q_dtype q)),
     (''kind'', JStr k), (''policy'', JStr (q_policy q)),
     (''scale'', encode_param (Some (q_scale q))), (''zero_point'', encode_param (q_zero_point q))]) = Inr q"
proof -
  have "q_dtype q \<noteq> []" "q_policy q \<noteq> []"
    using assms by (auto simp: quant_params_ok_def quant_ok_def quant_policies_def dest: tensor_dtype_nonempty)
  moreover have "decode_param loc (encode_param (Some (q_scale q))) = Inr (Some (q_scale q))"
    "decode_param loc (encode_param (q_zero_point q)) = Inr (q_zero_point q)" for loc
    using assms by (auto simp: quant_params_ok_def param_option_ok_def intro!: decode_encode_param)
  moreover have "check_quant (q_dtype q) (Some (q_scale q)) (q_zero_point q) (q_axis q) (q_policy q) = Inr q"
    using assms by (simp add: check_quant_eq_Inr quant_params_ok_def)
  ultimately show ?thesis
    unfolding decode_quant_def by (cases "q_axis q") (simp_all add: same_keys_def)
qed

lemma decode_encode_fill:
  "fill_ok f \<Longrightarrow> decode_fill (JObj [(''bits'', JInt (fill_bits f)), (''dtype'', JStr (fill_dtype f))]) = Inr f"
  by (cases f) (auto simp: decode_fill_def mk_fill_eq_Inr fill_ok_def same_keys_def split: option.splits
      dest: tensor_dtype_nonempty)

lemma cast_ok_nonempty: "cast_ok d p \<Longrightarrow> d \<noteq> [] \<and> p \<noteq> []"
  by (auto simp: cast_ok_def cast_policies_def dest: tensor_dtype_nonempty)

lemma decode_encode_operation:
  assumes "operation_ok op"
  shows "decode_operation (encode_operation op) = Inr op"
proof (cases op)
  case (Cast d p)
  with assms cast_ok_nonempty [of d p] show ?thesis
    by (simp add: decode_operation_def decode_kind_def same_keys_def mk_cast_def)
qed (use assms in \<open>simp_all add: decode_operation_def decode_kind_def same_keys_def decode_encode_fill
      decode_encode_quant expr_codec.dec_enc expr_codec.list_dec_enc descriptor_codec.dec_enc
      mk_index_select_def\<close>)

lemma decode_quant_ok: "decode_quant kind j = Inr q \<Longrightarrow> quant_params_ok q"
  by (auto simp: decode_quant_def check_quant_eq_Inr quant_params_ok_def decode_param_def param_option_ok_def
      split: if_splits option.splits dest!: read_param_ok)

lemma decode_fill_ok: "decode_fill j = Inr f \<Longrightarrow> fill_ok f"
  by (auto simp: decode_fill_def mk_fill_eq_Inr)

lemma decode_kind_ok: "decode_kind kind j = Inr op \<Longrightarrow> operation_ok op"
  by (auto simp: decode_kind_def mk_index_select_eq_Inr mk_cast_eq_Inr split: if_splits
      dest: decode_quant_ok decode_fill_ok expr_codec.dec_ok expr_codec.list_dec_ok descriptor_codec.dec_ok)

lemma decode_operation_ok: "decode_operation j = Inr op \<Longrightarrow> operation_ok op"
  by (auto simp: decode_operation_def catch_eq_Inr split: json.splits option.splits dest: decode_kind_ok)

interpretation operation_codec: codec encode_operation decode_operation operation_ok
  by unfold_locales (auto intro: decode_encode_operation decode_operation_ok)

lemma decode_encode_recipe: "recipe_ok r \<Longrightarrow> decode_recipe (encode_recipe r) = Inr r"
  by (cases r) (auto simp: decode_recipe_def encode_recipe_def recipe_ok_def same_keys_def
      operation_codec.list_dec_enc descriptor_codec.dec_enc)

lemma decode_recipe_ok: "decode_recipe j = Inr r \<Longrightarrow> recipe_ok r"
  by (auto simp: decode_recipe_def recipe_ok_def split: if_splits
      dest: operation_codec.list_dec_ok descriptor_codec.dec_ok)

interpretation recipe_codec: codec encode_recipe decode_recipe recipe_ok
  by unfold_locales (auto intro: decode_encode_recipe decode_recipe_ok)

lemma operation_ok_wf: "operation_ok op \<Longrightarrow> wf_op op"
  by (cases op) (auto simp: descriptor_ok_def)

lemma recipe_ok_wf: "recipe_ok r \<Longrightarrow> wf_recipe r"
  by (auto simp: recipe_ok_def wf_recipe_def descriptor_ok_def list_all_iff operation_ok_wf)

end
