(* ===== verification/Normalize.thy ===== *)
theory Normalize
  imports Serialization
begin

text \<open>
  \<open>reloc_torch/artifact.py\<close>, the symbolic side of admission: the normal form expressions are
  compared in, the symbols a recipe mentions, and the divisibility constraints its reshapes need.
\<close>

section \<open>Normal forms\<close>

text \<open>
  \<open>fold_constant\<close> evaluates with no bindings and keeps the candidate on \<open>KeyError\<close> and
  \<open>GuardError\<close>; for a well-formed expression nothing else can be raised (\<open>fold_constant_total\<close>).
\<close>

definition fold_constant :: "expr \<Rightarrow> expr" where
  "fold_constant candidate = (case evaluate True Map.empty candidate of
     Inr v \<Rightarrow> Const v | Inl _ \<Rightarrow> candidate)"

definition is_const :: "expr \<Rightarrow> bool" where
  "is_const e = (case e of Const _ \<Rightarrow> True | _ \<Rightarrow> False)"

fun normalize_expr :: "expr \<Rightarrow> expr" where
  "normalize_expr (Add lhs rhs) =
     (let l = normalize_expr lhs; r = normalize_expr rhs; candidate = fold_constant (Add l r)
      in if is_const candidate then candidate else add l r)"
| "normalize_expr (Mul lhs rhs) =
     (let l = normalize_expr lhs; r = normalize_expr rhs; candidate = fold_constant (Mul l r)
      in if is_const candidate then candidate else mul l r)"
| "normalize_expr (FloorDiv lhs divisor) =
     (let l = normalize_expr lhs in if divisor = 1 then l else fold_constant (FloorDiv l divisor))"
| "normalize_expr (Mod lhs divisor) =
     (let l = normalize_expr lhs in if divisor = 1 then Const 0 else fold_constant (Mod l divisor))"
| "normalize_expr atom = atom"

definition same_exprs :: "expr list \<Rightarrow> expr list \<Rightarrow> bool" where
  "same_exprs actual expected \<longleftrightarrow> length actual = length expected \<and>
     list_all (\<lambda>(a, b). normalize_expr a = normalize_expr b) (zip actual expected)"

definition same_descriptor :: "expr tensor_spec \<Rightarrow> expr tensor_spec \<Rightarrow> bool" where
  "same_descriptor actual expected \<longleftrightarrow> ts_dtype actual = ts_dtype expected \<and>
     same_exprs (ts_shape actual) (ts_shape expected) \<and>
     same_exprs (ts_strides actual) (ts_strides expected) \<and>
     normalize_expr (ts_offset actual) = normalize_expr (ts_offset expected)"

fun same_param :: "param option \<Rightarrow> param option \<Rightarrow> bool" where
  "same_param None None = True"
| "same_param (Some (InlineParam a)) (Some (InlineParam e)) \<longleftrightarrow>
     ip_dtype a = ip_dtype e \<and> ip_shape a = ip_shape e \<and> ip_bits a = ip_bits e"
| "same_param (Some (BindingParam a)) (Some (BindingParam e)) \<longleftrightarrow>
     bp_dtype a = bp_dtype e \<and> bp_name a = bp_name e \<and> same_exprs (bp_extents a) (bp_extents e)"
| "same_param _ _ = False"

lemma fold_constant_total:
  "wf_expr e \<Longrightarrow> evaluate True Map.empty e = Inl x \<Longrightarrow>
     (\<exists>n. x = KeyErr n) \<or> (\<exists>reason. x = GuardError reason)"
  by (auto dest: evaluate_error)

lemma binds_empty: "binds Map.empty e \<longleftrightarrow> symbols_of e = []"
  by (cases "symbols_of e") (auto simp: binds_def)

lemma den_symbol_free: "symbols_of e = [] \<Longrightarrow> den \<rho> e = den \<sigma> e"
  by (induction e) auto

lemma den_fold_constant [simp]: "den \<rho> (fold_constant e) = den \<rho> e"
proof (cases "evaluate True Map.empty e")
  case (Inr v)
  then have "symbols_of e = []" by (auto dest: evaluate_binds simp: binds_empty)
  with Inr den_symbol_free [of e \<rho> "env_val Map.empty"] show ?thesis
    by (simp add: fold_constant_def evaluate_True_den)
qed (simp add: fold_constant_def)

lemma den_normalize [simp]: "den \<rho> (normalize_expr e) = den \<rho> e"
proof (induction e)
  case (Add l r)
  have "den \<rho> (fold_constant (Add (normalize_expr l) (normalize_expr r))) = den \<rho> (Add l r)"
    using Add by simp
  with Add show ?case by (simp add: Let_def)
next
  case (Mul l r)
  have "den \<rho> (fold_constant (Mul (normalize_expr l) (normalize_expr r))) = den \<rho> (Mul l r)"
    using Mul by simp
  with Mul show ?case by (simp add: Let_def)
next
  case (FloorDiv l d)
  then show ?case by (simp add: Let_def)
next
  case (Mod l d)
  then show ?case by (simp add: Let_def)
qed simp_all

lemma wf_fold_constant [intro]: "wf_expr e \<Longrightarrow> wf_expr (fold_constant e)"
  by (simp add: fold_constant_def split: sum.splits)

lemma wf_normalize: "wf_expr e \<Longrightarrow> wf_expr (normalize_expr e)"
  by (induction e) (auto simp: Let_def intro: wf_add wf_mul)

lemma same_exprs_den: "same_exprs xs ys \<Longrightarrow> map (den \<rho>) xs = map (den \<rho>) ys"
  unfolding same_exprs_def
  by (auto simp: list_eq_iff_nth_eq list_all_length) (metis den_normalize)

lemma same_exprs_refl [simp]: "same_exprs xs xs"
  by (auto simp: same_exprs_def list_all_length)

lemma same_exprs_length: "same_exprs xs ys \<Longrightarrow> length xs = length ys"
  by (simp add: same_exprs_def)

lemma same_descriptor_refl [simp]: "same_descriptor s s"
  by (simp add: same_descriptor_def)

lemma same_param_refl [simp]: "same_param p p"
proof (cases p)
  case (Some q)
  then show ?thesis by (cases q) auto
qed simp

text \<open>A descriptor as the numbers it stands for under an assignment of the symbols.\<close>

definition den_spec :: "(string \<Rightarrow> int) \<Rightarrow> expr tensor_spec \<Rightarrow> int tensor_spec" where
  "den_spec \<rho> s = \<lparr>ts_shape = map (den \<rho>) (ts_shape s), ts_strides = map (den \<rho>) (ts_strides s),
     ts_offset = den \<rho> (ts_offset s), ts_dtype = ts_dtype s\<rparr>"

lemma same_descriptor_den: "same_descriptor a e \<Longrightarrow> den_spec \<rho> a = den_spec \<rho> e"
  unfolding same_descriptor_def den_spec_def
  by (auto dest!: same_exprs_den [of _ _ \<rho>]) (metis den_normalize)

text \<open>
  Constants beyond 64 bits do fold: when the checked evaluation overflows, the fallback \<open>add\<close>
  combines them without a bound.
\<close>

lemma normalize_overflow:
  "normalize_expr (Add (Const (2 ^ 62)) (Const (2 ^ 62))) = Const (2 ^ 63)"
  "evaluate True b (Add (Const (2 ^ 62)) (Const (2 ^ 62))) = Inl (GuardError ''integer_overflow'')"
  by (simp_all add: fold_constant_def is_const_def fit_def i64_py_def in_i64_def add_def commutative_def)

section \<open>The symbols of a recipe\<close>

fun operation_exprs :: "operation \<Rightarrow> expr list" where
  "operation_exprs (Reshape shape) = shape"
| "operation_exprs (Pad axis lo hi f) = [lo, hi]"
| "operation_exprs (Quantize q) =
     concat (map (\<lambda>p. case p of BindingParam b \<Rightarrow> bp_extents b | InlineParam _ \<Rightarrow> []) (op_params (Quantize q)))"
| "operation_exprs (Dequantize q) =
     concat (map (\<lambda>p. case p of BindingParam b \<Rightarrow> bp_extents b | InlineParam _ \<Rightarrow> []) (op_params (Dequantize q)))"
| "operation_exprs _ = []"

definition descriptor_exprs :: "expr tensor_spec \<Rightarrow> expr list" where
  "descriptor_exprs s = ts_shape s @ ts_strides s @ [ts_offset s]"

definition recipe_exprs :: "recipe \<Rightarrow> expr list" where
  "recipe_exprs r = descriptor_exprs (r_source r) @ descriptor_exprs (r_destination r) @
     concat (map operation_exprs (r_operations r))"

definition recipe_symbols :: "recipe \<Rightarrow> string set" where
  "recipe_symbols r = set (concat (map symbols_of (recipe_exprs r)))"

section \<open>Divisibility constraints\<close>

record constraint =
  c_expr :: expr
  c_divisor :: int

definition constraint_repr :: "constraint \<Rightarrow> string" where
  "constraint_repr c = ''DivisibilityConstraint(expr='' @ expr_repr (c_expr c) @ '', divisor='' @
     py_str (c_divisor c) @ '')''"

fun visit_constraints :: "expr \<Rightarrow> constraint list \<Rightarrow> constraint list" where
  "visit_constraints (FloorDiv lhs divisor) cs =
     (let normalized = normalize_expr lhs;
          item = \<lparr>c_expr = normalized, c_divisor = divisor\<rparr>
      in visit_constraints lhs
           (if divisor \<noteq> 1 \<and> \<not> is_const normalized \<and> item \<notin> set cs then cs @ [item] else cs))"
| "visit_constraints (Add lhs rhs) cs = visit_constraints rhs (visit_constraints lhs cs)"
| "visit_constraints (Mul lhs rhs) cs = visit_constraints rhs (visit_constraints lhs cs)"
| "visit_constraints (Mod lhs d) cs = visit_constraints lhs cs"
| "visit_constraints e cs = cs"

fun reshape_exprs :: "operation \<Rightarrow> expr list" where
  "reshape_exprs (Reshape shape) = shape"
| "reshape_exprs _ = []"

definition expected_constraints :: "recipe \<Rightarrow> constraint list" where
  "expected_constraints r = fold visit_constraints (concat (map reshape_exprs (r_operations r))) []"

definition parse_constraint :: "json \<Rightarrow> constraint res" where
  "parse_constraint entry =
     res_bind (exact_keys entry [''expr'', ''divisor''] ''divisibility constraint'') (\<lambda>kvs.
     res_bind (json_field kvs ''divisor'') (\<lambda>d. res_bind (json_integer ''constraint divisor'' d) (\<lambda>divisor.
     if divisor \<le> 0 then Inl (RuntimeErr ''compiler manifest constraint divisor must be positive'') else
     res_bind (json_field kvs ''expr'') (\<lambda>e. res_bind (parse_expr ''constraint'' e) (\<lambda>e.
       Inr \<lparr>c_expr = normalize_expr e, c_divisor = divisor\<rparr>)))))"

definition parse_constraints :: "json \<Rightarrow> constraint list res" where
  "parse_constraints value =
     res_bind (exact_keys value [''divisibility''] ''constraints'') (\<lambda>kvs.
     res_bind (json_field kvs ''divisibility'') (\<lambda>entries.
     res_bind (json_list (RuntimeErr ''compiler manifest divisibility constraints must be an array'') entries)
       (mapR parse_constraint)))"

definition wf_constraint :: "constraint \<Rightarrow> bool" where
  "wf_constraint c \<longleftrightarrow> wf_expr (c_expr c) \<and> 0 < c_divisor c"

lemma constraint_repr_inj:
  assumes "wf_constraint c" "wf_constraint d" "constraint_repr c = constraint_repr d"
  shows "c = d"
proof -
  from assms(3) have "expr_repr (c_expr c) @ '', divisor='' @ py_str (c_divisor c) @ '')'' =
    expr_repr (c_expr d) @ '', divisor='' @ py_str (c_divisor d) @ '')''"
    by (simp add: constraint_repr_def)
  from expr_repr_prefix [OF _ _ this] assms(1,2)
  have e: "c_expr c = c_expr d" and "py_str (c_divisor c) @ '')'' = py_str (c_divisor d) @ '')''"
    by (simp_all add: wf_constraint_def)
  then have "c_divisor c = c_divisor d" by (auto dest: py_str_inj)
  with e show ?thesis by simp
qed

text \<open>Comparing the two constraint lists sorted by \<open>repr\<close> compares them as multisets.\<close>

lemma sorted_constraints_iff:
  assumes "\<forall>c\<in>set xs \<union> set ys. wf_constraint c"
  shows "sort_key constraint_repr xs = sort_key constraint_repr ys \<longleftrightarrow> mset xs = mset ys"
proof
  show "sort_key constraint_repr xs = sort_key constraint_repr ys \<Longrightarrow> mset xs = mset ys"
    by (metis mset_sort)
  show "mset xs = mset ys \<Longrightarrow> sort_key constraint_repr xs = sort_key constraint_repr ys"
    using assms by (intro sort_key_eq_of_mset) (auto intro!: inj_onI constraint_repr_inj)
qed

lemma parse_constraint_wf: "parse_constraint j = Inr c \<Longrightarrow> wf_constraint c"
  by (auto simp: parse_constraint_def wf_constraint_def wf_normalize expr_codec.dec_iff split: if_splits)

lemma parse_constraints_wf: "parse_constraints j = Inr cs \<Longrightarrow> c \<in> set cs \<Longrightarrow> wf_constraint c"
  by (auto simp: parse_constraints_def mapR_eq_Inr list_all2_conv_all_nth in_set_conv_nth
      intro: parse_constraint_wf)

text \<open>What a list of constraints demands of an expression: every division in it is exact.\<close>

definition constraint_holds :: "(string \<Rightarrow> int) \<Rightarrow> constraint \<Rightarrow> bool" where
  "constraint_holds \<rho> c \<longleftrightarrow> c_divisor c dvd den \<rho> (c_expr c)"

fun exact_divisions :: "(string \<Rightarrow> int) \<Rightarrow> expr \<Rightarrow> bool" where
  "exact_divisions \<rho> (FloorDiv l d) \<longleftrightarrow>
     (is_const (normalize_expr l) \<or> d dvd den \<rho> l) \<and> exact_divisions \<rho> l"
| "exact_divisions \<rho> (Add l r) \<longleftrightarrow> exact_divisions \<rho> l \<and> exact_divisions \<rho> r"
| "exact_divisions \<rho> (Mul l r) \<longleftrightarrow> exact_divisions \<rho> l \<and> exact_divisions \<rho> r"
| "exact_divisions \<rho> (Mod l d) \<longleftrightarrow> exact_divisions \<rho> l"
| "exact_divisions \<rho> e \<longleftrightarrow> True"

lemma visit_grows: "set cs \<subseteq> set (visit_constraints e cs)"
proof (induction e arbitrary: cs)
  case (FloorDiv l d)
  let ?item = "\<lparr>c_expr = normalize_expr l, c_divisor = d\<rparr>"
  have "set cs \<subseteq> set (cs @ [?item])" by auto
  from subset_trans [OF this FloorDiv [of "cs @ [?item]"]] FloorDiv [of cs] show ?case
    by (simp only: visit_constraints.simps Let_def split: if_split) blast
next
  case (Add l r)
  then show ?case unfolding visit_constraints.simps by (meson subset_trans)
next
  case (Mul l r)
  then show ?case unfolding visit_constraints.simps by (meson subset_trans)
qed simp_all

lemma visit_complete:
  "\<forall>c\<in>set (visit_constraints e cs). constraint_holds \<rho> c \<Longrightarrow> exact_divisions \<rho> e"
proof (induction e arbitrary: cs)
  case (FloorDiv l d)
  let ?item = "\<lparr>c_expr = normalize_expr l, c_divisor = d\<rparr>"
  define cs' where "cs' = (if d \<noteq> 1 \<and> \<not> is_const (normalize_expr l) \<and> ?item \<notin> set cs then cs @ [?item] else cs)"
  have all: "\<forall>c\<in>set (visit_constraints l cs'). constraint_holds \<rho> c"
    using FloorDiv.prems by (simp add: Let_def cs'_def)
  have "d = 1 \<or> is_const (normalize_expr l) \<or> ?item \<in> set cs'" by (simp add: cs'_def)
  then have "is_const (normalize_expr l) \<or> d dvd den \<rho> l"
    using all visit_grows [of cs' l] by (auto simp: constraint_holds_def dest!: subsetD)
  with FloorDiv.IH [OF all] show ?case by (simp only: exact_divisions.simps simp_thms)
next
  case (Add l r)
  have "\<forall>c\<in>set (visit_constraints l cs). constraint_holds \<rho> c"
    using Add.prems visit_grows [of "visit_constraints l cs" r] by auto
  with Add.IH(1) [of cs] Add.IH(2) [of "visit_constraints l cs"] Add.prems show ?case by simp
next
  case (Mul l r)
  have "\<forall>c\<in>set (visit_constraints l cs). constraint_holds \<rho> c"
    using Mul.prems visit_grows [of "visit_constraints l cs" r] by auto
  with Mul.IH(1) [of cs] Mul.IH(2) [of "visit_constraints l cs"] Mul.prems show ?case by simp
next
  case (Mod l d)
  then show ?case by simp
qed simp_all

lemma visit_wf:
  "wf_expr e \<Longrightarrow> \<forall>c\<in>set cs. wf_constraint c \<Longrightarrow> \<forall>c\<in>set (visit_constraints e cs). wf_constraint c"
proof (induction e arbitrary: cs)
  case (FloorDiv l d)
  from FloorDiv.prems have "wf_expr l" and item: "wf_constraint \<lparr>c_expr = normalize_expr l, c_divisor = d\<rparr>"
    by (simp_all add: wf_constraint_def wf_normalize)
  from FloorDiv.prems(2) item show ?case
    unfolding visit_constraints.simps Let_def
    by (intro FloorDiv.IH [OF \<open>wf_expr l\<close>]) auto
next
  case (Add l r)
  from Add.prems(1) have "wf_expr l" "wf_expr r" by simp_all
  from Add.IH(2) [OF this(2) Add.IH(1) [OF this(1) Add.prems(2)]] show ?case by (simp only: visit_constraints.simps)
next
  case (Mul l r)
  from Mul.prems(1) have "wf_expr l" "wf_expr r" by simp_all
  from Mul.IH(2) [OF this(2) Mul.IH(1) [OF this(1) Mul.prems(2)]] show ?case by (simp only: visit_constraints.simps)
qed simp_all

lemma fold_visit_grows: "set cs \<subseteq> set (fold visit_constraints es cs)"
proof (induction es arbitrary: cs)
  case (Cons e es)
  from subset_trans [OF visit_grows [of cs e] Cons [of "visit_constraints e cs"]] show ?case by simp
qed simp

lemma fold_visit_complete:
  "\<forall>c\<in>set (fold visit_constraints es cs). constraint_holds \<rho> c \<Longrightarrow> e \<in> set es \<Longrightarrow> exact_divisions \<rho> e"
proof (induction es arbitrary: cs)
  case (Cons x es)
  then show ?case
    using fold_visit_grows [of "visit_constraints x cs" es] visit_complete [of x cs \<rho>] by auto
qed simp

lemma fold_visit_wf:
  "\<forall>e\<in>set es. wf_expr e \<Longrightarrow> \<forall>c\<in>set cs. wf_constraint c \<Longrightarrow>
     \<forall>c\<in>set (fold visit_constraints es cs). wf_constraint c"
proof (induction es arbitrary: cs)
  case (Cons e es)
  from Cons.IH [OF _ visit_wf [of e, OF _ Cons.prems(2)]] Cons.prems(1) show ?case by simp
qed simp

lemma wf_reshape_exprs: "wf_op op \<Longrightarrow> e \<in> set (reshape_exprs op) \<Longrightarrow> wf_expr e"
  by (cases op) (auto simp: list_all_iff)

lemma expected_constraints_wf: "wf_recipe r \<Longrightarrow> \<forall>c\<in>set (expected_constraints r). wf_constraint c"
  unfolding expected_constraints_def
  by (rule fold_visit_wf) (auto simp: wf_recipe_def list_all_iff dest: wf_reshape_exprs)

lemma expected_constraints_complete:
  "\<forall>c\<in>set (expected_constraints r). constraint_holds \<rho> c \<Longrightarrow> Reshape shape \<in> set (r_operations r) \<Longrightarrow>
     e \<in> set shape \<Longrightarrow> exact_divisions \<rho> e"
  unfolding expected_constraints_def by (erule fold_visit_complete) force

end
