(* ===== verification/Manifest.thy ===== *)
theory Manifest
  imports Normalize "HOL-Library.Product_Lexorder"
begin

text \<open>
  \<open>reloc_torch/artifact.py\<close>, the parts of admission: compiler identity and version checks, the
  symbol table in the plan's wire header, and the typed sections (stages, fills, parameters).
  A string is the sequence of its UTF-8 bytes, so the bytes of a plan are a string too.  The plan
  decoder and the digest belong to other components: what the decoder returns is the record
  \<open>decoded_plan\<close>, and both are arguments of the functions that call them.
\<close>

section \<open>Records\<close>

record compiler_identity =
  ci_name :: string
  ci_interface_version :: int
  ci_llvm_version :: string
  ci_build_identity :: string

record parameter_declaration =
  pd_name :: string
  pd_dtype :: string
  pd_extents :: "expr list"

record decoded_stage =
  ds_transform :: string
  ds_policy :: string
  ds_input :: string
  ds_output :: string
  ds_axis :: int
  ds_has_channel :: bool

record decoded_plan =
  dp_symbols :: "string list"
  dp_num_stages :: nat
  dp_stages :: "decoded_stage list"
  dp_fills :: nat
  dp_parameters :: "(string \<times> string \<times> nat) list"

record compiled_recipe =
  cr_recipe :: recipe
  cr_plan_bytes :: string
  cr_compiler :: compiler_identity
  cr_wire_version :: int
  cr_symbols :: "string list"
  cr_symbol_sources :: "symbol_source list"
  cr_constraints :: "constraint list"
  cr_logical_source :: "expr tensor_spec"
  cr_logical_destination :: "expr tensor_spec"
  cr_manifest :: json
  cr_parameters :: "parameter_declaration list"

section \<open>Identity and versions\<close>

definition layout_schema :: "int \<times> int" where "layout_schema = (1, 0)"
definition typed_schema :: "int \<times> int" where "typed_schema = (2, 1)"

definition compiler_identity_of :: "json \<Rightarrow> compiler_identity res" where
  "compiler_identity_of value =
     res_bind (exact_keys value [''name'', ''interface_version'', ''llvm_version'', ''build_identity'']
       ''compiler'') (\<lambda>kvs.
     res_bind (json_field kvs ''name'') (\<lambda>n. res_bind (json_string ''compiler.name'' n) (\<lambda>name.
     res_bind (json_field kvs ''interface_version'') (\<lambda>i.
     res_bind (json_integer ''compiler.interface_version'' i) (\<lambda>iface.
     res_bind (json_field kvs ''llvm_version'') (\<lambda>l. res_bind (json_string ''compiler.llvm_version'' l) (\<lambda>llvm.
     res_bind (json_field kvs ''build_identity'') (\<lambda>b.
     res_bind (json_string ''compiler.build_identity'' b) (\<lambda>build.
     if name \<noteq> ''sym-reloc-export'' \<or> iface \<noteq> 1
     then Inl (RuntimeErr ''compiler manifest identifies an unsupported compiler interface'')
     else Inr \<lparr>ci_name = name, ci_interface_version = iface, ci_llvm_version = llvm,
       ci_build_identity = build\<rparr>)))))))))"

text \<open>\<open>dict.get\<close>: the value of an absent key is \<open>None\<close>.\<close>

definition json_get :: "(string \<times> json) list \<Rightarrow> string \<Rightarrow> json" where
  "json_get kvs k = (case map_of kvs k of None \<Rightarrow> JNull | Some v \<Rightarrow> v)"

definition validate_base :: "(string \<times> json) list \<Rightarrow> int \<times> int \<Rightarrow> compiler_identity res" where
  "validate_base kvs expected =
     res_bind (json_integer ''schema_version'' (json_get kvs ''schema_version'')) (\<lambda>schema.
     if schema \<noteq> fst expected then Inl (RuntimeErr ''compiler manifest schema version mismatch'') else
     res_bind (json_integer ''wire_version'' (json_get kvs ''wire_version'')) (\<lambda>wire.
     if wire \<noteq> snd expected then Inl (RuntimeErr ''compiler manifest wire version mismatch'') else
     compiler_identity_of (json_get kvs ''compiler'')))"

definition validate_unsupported_manifest :: "json \<Rightarrow> unit res" where
  "validate_unsupported_manifest manifest =
     res_bind (exact_keys manifest [''schema_version'', ''wire_version'', ''status'', ''compiler'', ''reason'',
       ''detail''] ''unsupported'') (\<lambda>kvs.
     res_bind (validate_base kvs layout_schema) (\<lambda>_.
     res_bind (json_field kvs ''status'') (\<lambda>status.
     if status \<noteq> JStr ''unsupported''
     then Inl (RuntimeErr ''compiler exit 2 did not publish unsupported status'') else
     res_bind (json_field kvs ''reason'') (\<lambda>r. res_bind (json_string ''reason'' r) (\<lambda>_.
     res_bind (json_field kvs ''detail'') (\<lambda>d. res_bind (json_string ''detail'' d) (\<lambda>_. Inr ())))))))"

lemma validate_base_eq_Inr:
  "validate_base kvs expected = Inr c \<longleftrightarrow>
     json_get kvs ''schema_version'' = JInt (fst expected) \<and> json_get kvs ''wire_version'' = JInt (snd expected) \<and>
     compiler_identity_of (json_get kvs ''compiler'') = Inr c"
  by (auto simp: validate_base_def)

lemma compiler_identity_interface:
  "compiler_identity_of v = Inr c \<Longrightarrow> ci_name c = ''sym-reloc-export'' \<and> ci_interface_version c = 1"
  by (auto simp: compiler_identity_of_def split: if_splits)

section \<open>The wire header\<close>

text \<open>\<open>int.from_bytes(b, 'little')\<close>, and the four-byte encoding it inverts.\<close>

definition le_int :: "string \<Rightarrow> nat" where
  "le_int s = foldr (\<lambda>c a. of_char c + 256 * a) s 0"

definition le4 :: "nat \<Rightarrow> string" where
  "le4 n = (let n1 = n div 256; n2 = n1 div 256; n3 = n2 div 256
     in map char_of [n mod 256, n1 mod 256, n2 mod 256, n3 mod 256])"

definition truncated_table :: exn where
  "truncated_table = RuntimeErr ''compiler plan has truncated symbol table''"

definition truncated_name :: exn where
  "truncated_name = RuntimeErr ''compiler plan has truncated symbol name''"

text \<open>
  The loop over the symbol table; \<open>rest\<close> is \<open>plan[offset:]\<close>.  Bytes that are not UTF-8 and text
  that is not an ASCII identifier raise the same error.
\<close>

fun wire_names :: "nat \<Rightarrow> string \<Rightarrow> string list res" where
  "wire_names 0 rest = Inr []"
| "wire_names (Suc cnt) rest =
     (if length rest < 4 then Inl truncated_table else
      let n = le_int (take 4 rest); rest = drop 4 rest in
      if length rest < n then Inl truncated_name else
      let name = take n rest in
      if \<not> ascii_identifier name then Inl (RuntimeErr ''compiler plan has invalid symbol name'') else
      res_bind (wire_names cnt (drop n rest)) (\<lambda>names. Inr (name # names)))"

definition wire_magic :: string where "wire_magic = ''RPLN''"

definition wire_symbols :: "string \<Rightarrow> int \<Rightarrow> string list res" where
  "wire_symbols plan wire_version =
     (if length plan < 12 \<or> take 4 plan \<noteq> wire_magic
      then Inl (RuntimeErr ''compiler plan has invalid wire header'')
      else if int (le_int (take 4 (drop 4 plan))) \<noteq> wire_version
      then Inl (RuntimeErr ''compiler plan wire version mismatch'')
      else res_bind (wire_names (le_int (take 4 (drop 8 plan))) (drop 12 plan)) (\<lambda>names.
        if \<not> distinct names then Inl (RuntimeErr ''compiler plan has duplicate symbols'') else Inr names))"

text \<open>The header a plan with these symbols starts with.\<close>

definition wire_entry :: "string \<Rightarrow> string" where
  "wire_entry name = le4 (length name) @ name"

definition wire_header :: "nat \<Rightarrow> string list \<Rightarrow> string" where
  "wire_header version names = wire_magic @ le4 version @ le4 (length names) @ concat (map wire_entry names)"

lemma length_le4 [simp]: "length (le4 n) = 4"
  by (simp add: le4_def Let_def)

lemma le_int_four: "le_int [a, b, c, d] = of_char a + 256 * (of_char b + 256 * (of_char c + 256 * of_char d))"
  by (simp add: le_int_def)

lemma le_int_le4:
  assumes "n < 2 ^ 32"
  shows "le_int (le4 n) = n"
proof -
  define n1 where "n1 = n div 256"
  define n2 where "n2 = n1 div 256"
  define n3 where "n3 = n2 div 256"
  have "n3 = n div (256 * 256 * 256)" by (simp add: n1_def n2_def n3_def div_mult2_eq)
  also have "\<dots> < 256" using assms by (intro less_mult_imp_div_less) simp
  finally have n3: "n3 < 256" .
  have c: "(of_char (char_of (m mod 256) :: char) :: nat) = m mod 256" for m by simp
  have "le_int (le4 n) = n mod 256 + 256 * (n1 mod 256 + 256 * (n2 mod 256 + 256 * (n3 mod 256)))"
    by (simp only: le4_def Let_def n1_def [symmetric] n2_def [symmetric] n3_def [symmetric] list.map
        le_int_four c)
  also have "n3 mod 256 = n3" using n3 by simp
  also have "n2 mod 256 + 256 * n3 = n2" unfolding n3_def by (rule mod_mult_div_eq)
  also have "n1 mod 256 + 256 * n2 = n1" unfolding n2_def by (rule mod_mult_div_eq)
  also have "n mod 256 + 256 * n1 = n" unfolding n1_def by (rule mod_mult_div_eq)
  finally show ?thesis .
qed

lemma four_bytes: "length s = 4 \<Longrightarrow> \<exists>a b c d. s = [a, b, c, d]"
  by (auto simp: numeral_eq_Suc length_Suc_conv)

lemma byte_cons: "((of_char c :: nat) + 256 * r) mod 256 = of_char c" "((of_char c :: nat) + 256 * r) div 256 = r"
proof -
  have "(of_char c :: nat) < 256" by (metis nat_of_char_less_256)
  then show "((of_char c :: nat) + 256 * r) mod 256 = of_char c" "((of_char c :: nat) + 256 * r) div 256 = r"
    by simp_all
qed

lemma le4_le_int:
  assumes "length s = 4"
  shows "le4 (le_int s) = s" and "le_int s < 2 ^ 32"
proof -
  obtain a b c d where s: "s = [a, b, c, d]" using four_bytes [OF assms] by blast
  have d: "(of_char d :: nat) mod 256 = of_char d" using byte_cons(1) [of d 0] by simp
  show "le4 (le_int s) = s"
    unfolding s le_int_four le4_def Let_def byte_cons d by simp
  have "(of_char x :: nat) < Suc 255" for x :: char using nat_of_char_less_256 [of x] by simp
  then have "(of_char x :: nat) \<le> 255" for x :: char by (simp only: less_Suc_eq_le)
  from this [of a] this [of b] this [of c] this [of d] show "le_int s < 2 ^ 32"
    unfolding s le_int_four by simp
qed

lemma wire_names_complete:
  "\<forall>n\<in>set names. ascii_identifier n \<and> length n < 2 ^ 32 \<Longrightarrow>
     wire_names (length names) (concat (map wire_entry names) @ tail) = Inr names"
  by (induction names) (simp_all add: wire_entry_def le_int_le4)

lemma wire_names_sound:
  "wire_names cnt rest = Inr names \<Longrightarrow> length names = cnt \<and>
     (\<forall>n\<in>set names. ascii_identifier n \<and> length n < 2 ^ 32) \<and>
     (\<exists>tail. rest = concat (map wire_entry names) @ tail)"
proof (induction cnt rest arbitrary: names rule: wire_names.induct)
  case (2 cnt rest)
  let ?n = "le_int (take 4 rest)" and ?rest = "drop 4 rest"
  from "2.prems" obtain names' where len: "\<not> length rest < 4" "\<not> length ?rest < ?n"
    and name: "ascii_identifier (take ?n ?rest)"
    and rec: "wire_names cnt (drop ?n ?rest) = Inr names'" and names: "names = take ?n ?rest # names'"
    by (auto simp: Let_def split: if_splits)
  from "2.IH" [OF len(1) refl refl len(2) refl _ rec] name obtain tail where
    ih: "length names' = cnt" "\<forall>n\<in>set names'. ascii_identifier n \<and> length n < 2 ^ 32"
    and tail: "drop ?n ?rest = concat (map wire_entry names') @ tail" by auto
  have four: "length (take 4 rest) = 4" using len(1) by simp
  have "rest = take 4 rest @ take ?n ?rest @ drop ?n ?rest" by (simp only: append_take_drop_id)
  also have "\<dots> = wire_entry (take ?n ?rest) @ concat (map wire_entry names') @ tail"
    using len(2) le4_le_int(1) [OF four] by (simp only: tail wire_entry_def append_assoc) simp
  finally have "rest = concat (map wire_entry names) @ tail" by (simp add: names)
  moreover have "length (take ?n ?rest) < 2 ^ 32" using le4_le_int(2) [OF four] by simp
  ultimately show ?case using ih name names by auto
qed simp

text \<open>
  The header parser accepts exactly the plans that start with the encoding of a duplicate-free
  table of ASCII identifiers, and returns that table.
\<close>

lemma wire_symbols_iff:
  assumes "version < 2 ^ 32"
  shows "wire_symbols plan (int version) = Inr names \<longleftrightarrow>
    distinct names \<and> length names < 2 ^ 32 \<and>
    (\<forall>n\<in>set names. ascii_identifier n \<and> length n < 2 ^ 32) \<and>
    (\<exists>tail. plan = wire_header version names @ tail)" (is "?l \<longleftrightarrow> ?r")
proof
  assume ?l
  then have len: "12 \<le> length plan" and magic: "take 4 plan = wire_magic"
    and ver: "le_int (take 4 (drop 4 plan)) = version" and d: "distinct names"
    and names: "wire_names (le_int (take 4 (drop 8 plan))) (drop 12 plan) = Inr names"
    by (auto simp: wire_symbols_def split: if_splits)
  from wire_names_sound [OF names] obtain tail where
    n: "length names = le_int (take 4 (drop 8 plan))"
    "\<forall>n\<in>set names. ascii_identifier n \<and> length n < 2 ^ 32"
    and tail: "drop 12 plan = concat (map wire_entry names) @ tail" by blast
  have f1: "length (take 4 (drop 4 plan)) = 4" and f2: "length (take 4 (drop 8 plan)) = 4" using len by simp_all
  have "plan = take 4 plan @ take 4 (drop 4 plan) @ take 4 (drop 4 (drop 4 plan)) @ drop 4 (drop 4 (drop 4 plan))"
    by (simp only: append_take_drop_id)
  then have "plan = take 4 plan @ take 4 (drop 4 plan) @ take 4 (drop 8 plan) @ drop 12 plan" by simp
  also have "\<dots> = wire_header version names @ tail"
    using le4_le_int(1) [OF f1] le4_le_int(1) [OF f2] by (simp add: magic ver n(1) tail wire_header_def)
  finally have "plan = wire_header version names @ tail" .
  with d n le4_le_int(2) [OF f2] show ?r by auto
next
  assume ?r
  then obtain tail where plan: "plan = wire_header version names @ tail" by blast
  have "length wire_magic = 4" by (simp add: wire_magic_def)
  with \<open>?r\<close> assms show ?l
    by (simp add: wire_symbols_def plan wire_header_def le_int_le4 wire_names_complete)
qed

section \<open>Channel maps\<close>

fun check_channel_expr :: "json \<Rightarrow> int \<Rightarrow> string list \<Rightarrow> string \<Rightarrow> unit res" where
  "check_channel_expr (JList [JStr tag, a]) rank symbols loc =
     (if tag = ''const'' then res_bind (json_integer loc a) (\<lambda>_. Inr ())
      else if tag = ''dim'' then res_bind (json_integer loc a) (\<lambda>d.
        ensure (0 \<le> d \<and> d < rank)
          (RuntimeErr (msg [''compiler manifest '', loc, '' channel dimension is out of range''])))
      else if tag = ''symbol'' then res_bind (json_string loc a) (\<lambda>s.
        ensure (s \<in> set symbols)
          (RuntimeErr (msg [''compiler manifest '', loc, '' channel symbol is not a plan symbol''])))
      else Inl (RuntimeErr (msg [''compiler manifest '', loc, '' has unsupported channel expression''])))"
| "check_channel_expr (JList [JStr tag, a, b]) rank symbols loc =
     (if tag \<in> set [''add'', ''mul'', ''floordiv'', ''mod'']
      then res_bind (check_channel_expr a rank symbols loc) (\<lambda>_. check_channel_expr b rank symbols loc)
      else Inl (RuntimeErr (msg [''compiler manifest '', loc, '' has unsupported channel expression''])))"
| "check_channel_expr (JList (JStr tag # args)) rank symbols loc =
     Inl (RuntimeErr (msg [''compiler manifest '', loc, '' has unsupported channel expression'']))"
| "check_channel_expr v rank symbols loc =
     Inl (RuntimeErr (msg [''compiler manifest '', loc, '' has invalid channel expression'']))"

text \<open>What a channel map may be: affine-style trees over coordinates and plan symbols.\<close>

inductive channel_expr :: "int \<Rightarrow> string list \<Rightarrow> json \<Rightarrow> bool" for rank symbols where
  ce_const: "channel_expr rank symbols (JList [JStr ''const'', JInt n])"
| ce_dim: "0 \<le> d \<Longrightarrow> d < rank \<Longrightarrow> channel_expr rank symbols (JList [JStr ''dim'', JInt d])"
| ce_symbol: "s \<in> set symbols \<Longrightarrow> s \<noteq> [] \<Longrightarrow> channel_expr rank symbols (JList [JStr ''symbol'', JStr s])"
| ce_binary: "tag \<in> set [''add'', ''mul'', ''floordiv'', ''mod''] \<Longrightarrow> channel_expr rank symbols a \<Longrightarrow>
    channel_expr rank symbols b \<Longrightarrow> channel_expr rank symbols (JList [JStr tag, a, b])"

lemma check_channel_sound: "check_channel_expr v rank symbols loc = Inr u \<Longrightarrow> channel_expr rank symbols v"
  by (induction v rank symbols loc arbitrary: u rule: check_channel_expr.induct)
    (auto split: if_splits intro: channel_expr.intros)

lemma check_channel_complete: "channel_expr rank symbols v \<Longrightarrow> check_channel_expr v rank symbols loc = Inr ()"
  by (induction rule: channel_expr.induct) auto

lemma check_channel_iff: "check_channel_expr v rank symbols loc = Inr u \<longleftrightarrow> channel_expr rank symbols v"
  using check_channel_sound check_channel_complete by (cases u) blast

end
