(* ===== verification/Typed_Sections.thy ===== *)
theory Typed_Sections
  imports Manifest
begin

text \<open>
  \<open>reloc_torch/artifact.py\<close>: the typed sections of a schema-2 manifest.  Each stage is checked
  against the recipe's value transform, against the operand shape the symbolic chain reaches there,
  and against the stage the plan decoder saw; fills and parameters are checked as a whole.
\<close>

section \<open>Parameters\<close>

definition parse_param :: "string \<Rightarrow> json \<Rightarrow> param option res" where
  "parse_param loc value = read_param hex_bits
     (RuntimeErr (msg [''compiler manifest '', loc, '' has invalid parameter'']))
     (RuntimeErr (msg [''compiler manifest '', loc, '' has unsupported parameter kind'']))
     (RuntimeErr (msg [''compiler manifest '', loc, '' shape/bits must be arrays'']))
     (RuntimeErr (msg [''compiler manifest '', loc, '' extents must be an array''])) loc value"

fun transform_name :: "operation \<Rightarrow> string" where
  "transform_name (Cast _ _) = ''cast''"
| "transform_name (Quantize _) = ''quantize''"
| "transform_name (Dequantize _) = ''dequantize''"
| "transform_name _ = []"

fun op_policy :: "operation \<Rightarrow> string" where
  "op_policy (Cast _ policy) = policy"
| "op_policy (Quantize q) = q_policy q"
| "op_policy (Dequantize q) = q_policy q"
| "op_policy _ = []"

fun op_scale :: "operation \<Rightarrow> param option" where
  "op_scale (Quantize q) = Some (q_scale q)"
| "op_scale (Dequantize q) = Some (q_scale q)"
| "op_scale _ = None"

fun op_zero_point :: "operation \<Rightarrow> param option" where
  "op_zero_point (Quantize q) = q_zero_point q"
| "op_zero_point (Dequantize q) = q_zero_point q"
| "op_zero_point _ = None"

definition expected_axis :: "operation \<Rightarrow> int" where
  "expected_axis op = (case op_axis op of None \<Rightarrow> -1 | Some a \<Rightarrow> a)"

section \<open>Stages\<close>

definition stage_fields :: "string list" where
  "stage_fields = [''transform'', ''policy'', ''input_dtype'', ''output_dtype'', ''shape'', ''scale'',
     ''zero_point'', ''axis'', ''channel'']"

definition check_stage ::
  "json \<Rightarrow> decoded_stage \<Rightarrow> operation \<Rightarrow> expr list \<Rightarrow> string \<Rightarrow> int \<Rightarrow> string list \<Rightarrow> nat \<Rightarrow> unit res" where
  "check_stage entry decoded op shape dtype result_rank symbols index =
     (let loc = ''stage '' @ py_str (int index);
          err = (\<lambda>m. Inl (RuntimeErr (msg [''compiler manifest '', loc, m]))) in
     res_bind (exact_keys entry stage_fields loc) (\<lambda>kvs.
     res_bind (json_field kvs ''transform'') (\<lambda>t. res_bind (json_string loc t) (\<lambda>transform.
     res_bind (json_field kvs ''policy'') (\<lambda>p. res_bind (json_string loc p) (\<lambda>policy.
     res_bind (json_field kvs ''input_dtype'') (\<lambda>i. res_bind (json_string loc i) (\<lambda>input_dtype.
     res_bind (json_field kvs ''output_dtype'') (\<lambda>out. res_bind (json_string loc out) (\<lambda>output_dtype.
     if transform \<noteq> transform_name op \<or> policy \<noteq> op_policy op \<or> input_dtype \<noteq> dtype \<or>
        output_dtype \<noteq> op_dtype op
     then err '' does not match the recipe transform'' else
     res_bind (json_field kvs ''shape'') (\<lambda>s.
     res_bind (json_list (RuntimeErr (msg [''compiler manifest '', loc, '' operand shape mismatch''])) s) (\<lambda>s.
     res_bind (mapR (parse_expr loc) s) (\<lambda>actual_shape.
     if \<not> same_exprs actual_shape shape then err '' operand shape mismatch'' else
     res_bind (json_field kvs ''axis'') (\<lambda>a. res_bind (json_integer loc a) (\<lambda>axis.
     if axis \<noteq> expected_axis op then err '' channel axis mismatch'' else
     res_bind (json_field kvs ''scale'') (\<lambda>sc. res_bind (parse_param loc sc) (\<lambda>scale.
     if \<not> same_param scale (op_scale op) then err '' parameter mismatch'' else
     res_bind (json_field kvs ''zero_point'') (\<lambda>z. res_bind (parse_param loc z) (\<lambda>zero_point.
     if \<not> same_param zero_point (op_zero_point op) then err '' parameter mismatch'' else
     res_bind (json_field kvs ''channel'') (\<lambda>channel.
     res_bind (if expected_axis op < 0
       then ensure (channel = JNull)
         (RuntimeErr (msg [''compiler manifest '', loc, '' has a channel map without an axis'']))
       else res_bind (exact_keys channel [''dims'', ''expr''] (loc @ '' channel'')) (\<lambda>ch.
         res_bind (json_field ch ''dims'') (\<lambda>d. res_bind (json_integer loc d) (\<lambda>d.
         if d \<noteq> result_rank then err '' channel rank is not the result rank'' else
         res_bind (json_field ch ''expr'') (\<lambda>e. check_channel_expr e result_rank symbols loc))))) (\<lambda>_.
     if (ds_transform decoded, ds_policy decoded, ds_input decoded, ds_output decoded, ds_axis decoded,
         ds_has_channel decoded) \<noteq>
        (transform, policy, input_dtype, output_dtype, expected_axis op, 0 \<le> expected_axis op)
     then Inl (RuntimeErr (msg [''compiler plan '', loc, '' does not match the manifest'']))
     else Inr ())))))))))))))))))))))"

text \<open>\<open>sequence[index]\<close> at the head of what is left of the sequence.\<close>

definition next_item :: "'a list \<Rightarrow> ('a \<times> 'a list) res" where
  "next_item xs = (case xs of [] \<Rightarrow> Inl (OtherExn ''IndexError'') | x # rest \<Rightarrow> Inr (x, rest))"

text \<open>
  The walk over the recipe's operations: the stages left to check, the current symbolic shape and
  dtype, the index of the next stage.  Returns the dtype reached.
\<close>

fun check_stages ::
  "operation list \<Rightarrow> json list \<Rightarrow> decoded_stage list \<Rightarrow> expr list \<Rightarrow> string \<Rightarrow> int \<Rightarrow> string list \<Rightarrow> nat \<Rightarrow>
     string res" where
  "check_stages [] stages decoded shape dtype result_rank symbols index = Inr dtype"
| "check_stages (op # ops) stages decoded shape dtype result_rank symbols index =
     (if is_typed_op op then
        res_bind (next_item stages) (\<lambda>(entry, stages).
        res_bind (next_item decoded) (\<lambda>(stage, decoded).
        res_bind (check_stage entry stage op shape dtype result_rank symbols index) (\<lambda>_.
        res_bind (operation_shape shape op) (\<lambda>shape.
          check_stages ops stages decoded shape (op_dtype op) result_rank symbols (Suc index)))))
      else res_bind (operation_shape shape op) (\<lambda>shape.
          check_stages ops stages decoded shape dtype result_rank symbols index))"

section \<open>Fills and parameters\<close>

definition check_fill :: "int \<Rightarrow> nat \<Rightarrow> json \<Rightarrow> (string \<times> int) res" where
  "check_fill result_rank num_stages fill =
     res_bind (exact_keys fill [''dst_axis'', ''stage'', ''dtype'', ''bits''] ''fill'') (\<lambda>kvs.
     res_bind (json_field kvs ''dst_axis'') (\<lambda>a. res_bind (json_integer ''fill dst_axis'' a) (\<lambda>axis.
     if \<not> (0 \<le> axis \<and> axis < result_rank)
     then Inl (RuntimeErr ''compiler manifest fill axis is out of range'') else
     res_bind (json_field kvs ''stage'') (\<lambda>s. res_bind (json_integer ''fill stage'' s) (\<lambda>stage.
     if \<not> (0 \<le> stage \<and> stage \<le> int num_stages)
     then Inl (RuntimeErr ''compiler manifest fill stage is out of range'') else
     res_bind (json_field kvs ''dtype'') (\<lambda>d. res_bind (json_string ''fill dtype'' d) (\<lambda>dtype.
     res_bind (json_field kvs ''bits'') (\<lambda>b. res_bind (hex_bits ''fill'' b) (\<lambda>bits.
       Inr (dtype, bits))))))))))"

definition parse_declaration :: "json \<Rightarrow> parameter_declaration res" where
  "parse_declaration entry =
     res_bind (exact_keys entry [''name'', ''dtype'', ''extents''] ''parameter'') (\<lambda>kvs.
     res_bind (json_field kvs ''extents'') (\<lambda>es.
     res_bind (json_list (RuntimeErr ''compiler manifest parameter extents must be an array'') es) (\<lambda>es.
     res_bind (json_field kvs ''name'') (\<lambda>n. res_bind (json_string ''parameter name'' n) (\<lambda>name.
     res_bind (json_field kvs ''dtype'') (\<lambda>d. res_bind (json_string ''parameter dtype'' d) (\<lambda>dtype.
     res_bind (mapR (parse_expr ''parameter extents'') es) (\<lambda>extents.
       Inr \<lparr>pd_name = name, pd_dtype = dtype, pd_extents = extents\<rparr>))))))))"

definition same_declaration :: "parameter_declaration \<Rightarrow> binding_param \<Rightarrow> bool" where
  "same_declaration d e \<longleftrightarrow> pd_name d = bp_name e \<and> pd_dtype d = bp_dtype e \<and>
     same_exprs (pd_extents d) (bp_extents e)"

definition pad_fills :: "operation list \<Rightarrow> (string \<times> int) list" where
  "pad_fills ops = concat (map (\<lambda>op. case op of Pad axis lo hi f \<Rightarrow> [(fill_dtype f, fill_bits f)] | _ \<Rightarrow> []) ops)"

definition check_parameters ::
  "recipe \<Rightarrow> json list \<Rightarrow> decoded_plan \<Rightarrow> parameter_declaration list res" where
  "check_parameters r parameters decoded =
     res_bind (mapR parse_declaration parameters) (\<lambda>declared.
     if \<not> list_all2 same_declaration declared (parameter_bindings r)
     then Inl (RuntimeErr ''compiler manifest parameters do not match the recipe bindings'')
     else if dp_parameters decoded \<noteq> map (\<lambda>d. (pd_name d, pd_dtype d, length (pd_extents d))) declared
     then Inl (RuntimeErr ''compiler plan parameters do not match the manifest'')
     else Inr declared)"

definition validate_typed_sections ::
  "recipe \<Rightarrow> (string \<times> json) list \<Rightarrow> string list \<Rightarrow> decoded_plan \<Rightarrow> parameter_declaration list res" where
  "validate_typed_sections r kvs symbols decoded =
     (let arrays = RuntimeErr ''compiler manifest typed sections must be arrays'';
          ops = r_operations r; result_rank = int (length (ts_shape (r_destination r))) in
     res_bind (json_field kvs ''stages'') (\<lambda>st.
     res_bind (json_field kvs ''fills'') (\<lambda>fi.
     res_bind (json_field kvs ''parameters'') (\<lambda>pa.
     res_bind (json_list arrays st) (\<lambda>stages.
     res_bind (json_list arrays fi) (\<lambda>fills.
     res_bind (json_list arrays pa) (\<lambda>parameters.
     if length stages \<noteq> length (filter is_typed_op ops) \<or> dp_num_stages decoded \<noteq> length stages
     then Inl (RuntimeErr ''compiler manifest stage count does not match the recipe'') else
     res_bind (check_stages ops stages (dp_stages decoded) (ts_shape (r_source r)) (ts_dtype (r_source r))
       result_rank symbols 0) (\<lambda>dtype.
     if dtype \<noteq> ts_dtype (r_destination r)
     then Inl (RuntimeErr ''compiled recipe chain dtype does not reach the destination dtype'') else
     if length fills \<noteq> length (pad_fills ops) \<or> dp_fills decoded \<noteq> length fills
     then Inl (RuntimeErr ''compiler manifest fill count does not match the recipe'') else
     res_bind (mapR (check_fill result_rank (length stages)) fills) (\<lambda>actual.
     if sort actual \<noteq> sort (pad_fills ops)
     then Inl (RuntimeErr ''compiler manifest fills do not match the recipe pads'')
     else check_parameters r parameters decoded)))))))))"

section \<open>What a validated manifest says\<close>

text \<open>The stage the recipe asks for at one value transform.\<close>

definition stage_of :: "string \<Rightarrow> operation \<Rightarrow> decoded_stage" where
  "stage_of dtype op = \<lparr>ds_transform = transform_name op, ds_policy = op_policy op, ds_input = dtype,
     ds_output = op_dtype op, ds_axis = expected_axis op, ds_has_channel = (0 \<le> expected_axis op)\<rparr>"

fun recipe_stages :: "string \<Rightarrow> operation list \<Rightarrow> decoded_stage list" where
  "recipe_stages dtype [] = []"
| "recipe_stages dtype (op # ops) =
     (if is_typed_op op then stage_of dtype op # recipe_stages (op_dtype op) ops else recipe_stages dtype ops)"

lemma length_recipe_stages: "length (recipe_stages dtype ops) = length (filter is_typed_op ops)"
  by (induction ops arbitrary: dtype) auto

lemma check_stage_decoded:
  assumes "check_stage entry decoded op shape dtype result_rank symbols index = Inr u"
  shows "decoded = stage_of dtype op"
proof -
  from assms have "(ds_transform decoded, ds_policy decoded, ds_input decoded, ds_output decoded,
      ds_axis decoded, ds_has_channel decoded) =
    (transform_name op, op_policy op, dtype, op_dtype op, expected_axis op, 0 \<le> expected_axis op)"
    unfolding check_stage_def Let_def by (auto split: if_splits)
  then show ?thesis by (simp add: stage_of_def)
qed

lemma next_item_eq_Inr [simp, res_simps]: "next_item xs = Inr (x, rest) \<longleftrightarrow> xs = x # rest"
  by (cases xs) (auto simp: next_item_def)

lemma check_stages_decoded:
  "check_stages ops stages decoded shape dtype result_rank symbols index = Inr dtype' \<Longrightarrow>
     (\<exists>rest. decoded = recipe_stages dtype ops @ rest) \<and> dtype' = foldl next_dtype dtype ops"
proof (induction ops arbitrary: stages decoded shape dtype index)
  case (Cons op ops)
  show ?case
  proof (cases "is_typed_op op")
    case True
    with Cons.prems obtain entry stages' stage decoded' shape' u where
      d: "decoded = stage # decoded'"
      and st: "check_stage entry stage op shape dtype result_rank symbols index = Inr u"
      and rec: "check_stages ops stages' decoded' shape' (op_dtype op) result_rank symbols (Suc index) = Inr dtype'"
      by auto
    from Cons.IH [OF rec] d check_stage_decoded [OF st] True show ?thesis by (auto simp: next_dtype_def)
  next
    case False
    with Cons.prems Cons.IH show ?thesis by (auto simp: next_dtype_def)
  qed
qed simp

lemma validate_typed_parts:
  assumes "validate_typed_sections r kvs symbols decoded = Inr ps" and "length (dp_stages decoded) = dp_num_stages decoded"
  shows "dp_stages decoded = recipe_stages (ts_dtype (r_source r)) (r_operations r)"
    and "foldl next_dtype (ts_dtype (r_source r)) (r_operations r) = ts_dtype (r_destination r)"
    and "dp_fills decoded = length (pad_fills (r_operations r))"
    and "list_all2 same_declaration ps (parameter_bindings r)"
    and "dp_parameters decoded = map (\<lambda>d. (pd_name d, pd_dtype d, length (pd_extents d))) ps"
proof -
  from assms(1) obtain stages dtype where
    n: "length stages = length (filter is_typed_op (r_operations r))" "dp_num_stages decoded = length stages"
    and st: "check_stages (r_operations r) stages (dp_stages decoded) (ts_shape (r_source r))
      (ts_dtype (r_source r)) (int (length (ts_shape (r_destination r)))) symbols 0 = Inr dtype"
    and dt: "dtype = ts_dtype (r_destination r)"
    and f: "dp_fills decoded = length (pad_fills (r_operations r))"
    and p: "list_all2 same_declaration ps (parameter_bindings r)"
      "dp_parameters decoded = map (\<lambda>d. (pd_name d, pd_dtype d, length (pd_extents d))) ps"
    unfolding validate_typed_sections_def Let_def
    by (auto simp: check_parameters_def split: if_splits)
  from f p show "dp_fills decoded = length (pad_fills (r_operations r))"
    "list_all2 same_declaration ps (parameter_bindings r)"
    "dp_parameters decoded = map (\<lambda>d. (pd_name d, pd_dtype d, length (pd_extents d))) ps" .
  from check_stages_decoded [OF st] n assms(2) show
    "dp_stages decoded = recipe_stages (ts_dtype (r_source r)) (r_operations r)"
    by (auto simp: length_recipe_stages)
  from check_stages_decoded [OF st] dt show
    "foldl next_dtype (ts_dtype (r_source r)) (r_operations r) = ts_dtype (r_destination r)" by simp
qed

text \<open>The fills: the manifest lists the pads' exact bit patterns, in some order.\<close>

lemma validate_typed_fills:
  assumes "validate_typed_sections r kvs symbols decoded = Inr ps"
  obtains fills actual where "map_of kvs ''fills'' = Some (JList fills)"
    and "list_all2 (\<lambda>j f. check_fill (int (length (ts_shape (r_destination r))))
           (length (filter is_typed_op (r_operations r))) j = Inr f) fills actual"
    and "mset actual = mset (pad_fills (r_operations r))"
proof -
  from assms obtain fills actual where
    "map_of kvs ''fills'' = Some (JList fills)"
    "list_all2 (\<lambda>j f. check_fill (int (length (ts_shape (r_destination r))))
           (length (filter is_typed_op (r_operations r))) j = Inr f) fills actual"
    "sort actual = sort (pad_fills (r_operations r))"
    unfolding validate_typed_sections_def Let_def
    by (auto simp: json_field_eq_Inr mapR_eq_Inr split: if_splits)
  with that show thesis by (metis mset_sort)
qed

lemma same_declarations_names:
  "list_all2 same_declaration ps bs \<Longrightarrow> map pd_name ps = map bp_name bs"
  by (induction rule: list_all2_induct) (auto simp: same_declaration_def)

end
