(* ===== verification/Emit.thy ===== *)
theory Emit
  imports Binding
begin

text \<open>
  \<open>reloc_torch/mlir_emit.py\<close>: the textual reloc IR a recipe is compiled from.  \<open>emit_mlir\<close> is
  also the frontend's last check of a recipe: dense zero-offset endpoints, supported dtypes, a
  defined shape at every step.
\<close>

section \<open>Expressions, shapes and types\<close>

definition mlir_dtypes :: "(string \<times> string) list" where
  "mlir_dtypes = [(''float32'', ''f32''), (''float16'', ''f16''), (''bfloat16'', ''bf16''), (''int8'', ''i8'')]"

definition mlir_param_dtypes :: "(string \<times> string) list" where
  "mlir_param_dtypes = mlir_dtypes @ [(''int32'', ''i32'')]"

definition mlir_index_dtypes :: "(string \<times> string) list" where
  "mlir_index_dtypes = [(''int32'', ''i32''), (''int64'', ''i64'')]"

definition mlir_widths :: "(string \<times> nat) list" where
  "mlir_widths = [(''f32'', 32), (''f16'', 16), (''bf16'', 16), (''i8'', 8), (''i32'', 32)]"

text \<open>\<open>table[key]\<close>, and \<open>sep.join(parts)\<close>.\<close>

definition lookup :: "(string \<times> 'a) list \<Rightarrow> string \<Rightarrow> 'a res" where
  "lookup table key = (case map_of table key of None \<Rightarrow> Inl (KeyErr key) | Some v \<Rightarrow> Inr v)"

fun join :: "string \<Rightarrow> string list \<Rightarrow> string" where
  "join sep [] = []"
| "join sep [x] = x"
| "join sep (x # xs) = x @ sep @ join sep xs"

fun expr_text :: "bool \<Rightarrow> expr \<Rightarrow> string" where
  "expr_text quoted (Const v) = py_str v"
| "expr_text quoted (Symbol name) = (if quoted then CHR 0x22 # name @ [CHR 0x22] else name)"
| "expr_text quoted (Add l r) = ''('' @ expr_text quoted l @ '' + '' @ expr_text quoted r @ '')''"
| "expr_text quoted (Mul l r) = ''('' @ expr_text quoted l @ '' * '' @ expr_text quoted r @ '')''"
| "expr_text quoted (FloorDiv l d) = ''('' @ expr_text quoted l @ '' floordiv '' @ py_str d @ '')''"
| "expr_text quoted (Mod l d) = ''('' @ expr_text quoted l @ '' mod '' @ py_str d @ '')''"

definition shape_text :: "bool \<Rightarrow> expr list \<Rightarrow> string" where
  "shape_text quoted shape = ''['' @ join '', '' (map (expr_text quoted) shape) @ '']''"

definition type_text :: "expr list \<Rightarrow> string \<Rightarrow> string" where
  "type_text shape dtype = ''!sym.tensor<'' @ shape_text True shape @ '', '' @ dtype @ ''>''"

section \<open>Literals\<close>

definition hex_char :: "nat \<Rightarrow> char" where
  "hex_char d = char_of (if d < 10 then 48 + d else 55 + d)"

fun hex_upper :: "nat \<Rightarrow> string" where
  "hex_upper n = (if n < 16 then [hex_char n] else hex_upper (n div 16) @ [hex_char (n mod 16)])"

declare hex_upper.simps [simp del]

definition zero_pad :: "nat \<Rightarrow> string \<Rightarrow> string" where
  "zero_pad n s = replicate (n - length s) (CHR ''0'') @ s"

text \<open>The signed number an integer's two's complement bits stand for.\<close>

definition signed_value :: "nat \<Rightarrow> int \<Rightarrow> int" where
  "signed_value width bits = (if bits < 2 ^ (width - 1) then bits else bits - 2 ^ width)"

definition literal :: "int \<Rightarrow> string \<Rightarrow> string res" where
  "literal bits dtype = res_bind (lookup mlir_widths dtype) (\<lambda>width.
     Inr (if dtype \<noteq> [] \<and> hd dtype = CHR ''i'' then py_str (signed_value width bits)
          else ''0x'' @ zero_pad (width div 4) (hex_upper (nat bits))))"

definition fill_text :: "fill \<Rightarrow> string res" where
  "fill_text f = res_bind (lookup mlir_dtypes (fill_dtype f)) (\<lambda>dtype.
     res_bind (literal (fill_bits f) dtype) (\<lambda>l. Inr (''('' @ l @ '' : '' @ dtype @ '')'')))"

definition param_text :: "param \<Rightarrow> string res" where
  "param_text p = (case p of
     BindingParam b \<Rightarrow> res_bind (lookup mlir_param_dtypes (bp_dtype b)) (\<lambda>dtype.
       Inr (''#reloc.binding<'' @ CHR 0x22 # bp_name b @ CHR 0x22 # '' : '' @
            shape_text False (bp_extents b) @ '', '' @ dtype @ ''>''))
   | InlineParam i \<Rightarrow> res_bind (lookup mlir_param_dtypes (ip_dtype i)) (\<lambda>dtype.
       res_bind (mapR (\<lambda>b. literal b dtype) (ip_bits i)) (\<lambda>values.
       case ip_shape i of
         d # _ \<Rightarrow> Inr (''dense<['' @ join '', '' values @ '']> : tensor<'' @ py_str d @ ''x'' @ dtype @ ''>'')
       | [] \<Rightarrow> (case values of
           [] \<Rightarrow> Inl (OtherExn ''IndexError'')
         | v # _ \<Rightarrow> Inr (''dense<'' @ v @ ''> : tensor<'' @ dtype @ ''>'')))))"

definition quant_text :: "string \<Rightarrow> quant \<Rightarrow> string \<Rightarrow> string res" where
  "quant_text name q v =
     res_bind (param_text (q_scale q)) (\<lambda>scale.
     res_bind (case q_zero_point q of None \<Rightarrow> Inr []
               | Some p \<Rightarrow> res_bind (param_text p) (\<lambda>z. Inr ('' zero_point('' @ z @ '')''))) (\<lambda>zp.
     Inr (''reloc.'' @ name @ '' '' @ v @
          (case q_axis q of None \<Rightarrow> [] | Some a \<Rightarrow> '' axis '' @ py_str a) @
          '' scale('' @ scale @ '')'' @ zp @ '' policy '' @ q_policy q)))"

section \<open>The function\<close>

fun operation_text :: "string \<Rightarrow> expr list \<Rightarrow> operation \<Rightarrow> string res" where
  "operation_text v target (IndexSelect indices axis) =
     Inr (''reloc.index_select '' @ v @ '', %indices axis '' @ py_str axis)"
| "operation_text v target (Transpose perm) =
     Inr (''reloc.transpose '' @ v @ '' perm ['' @ join '', '' (map py_str perm) @ '']'')"
| "operation_text v target (Reshape shape) =
     Inr (''reloc.reshape '' @ v @ '' to '' @ shape_text False target)"
| "operation_text v target (Pad axis lo hi f) = res_bind (fill_text f) (\<lambda>t.
     Inr (''reloc.pad '' @ v @ '' axis '' @ py_str axis @ '' lo '' @ expr_text False lo @ '' hi '' @
          expr_text False hi @ '' value '' @ t))"
| "operation_text v target (Cast dtype policy) = Inr (''reloc.cast '' @ v @ '' policy '' @ policy)"
| "operation_text v target (Quantize q) = quant_text ''quantize'' q v"
| "operation_text v target (Dequantize q) = quant_text ''dequantize'' q v"

definition dense_descriptor :: "expr tensor_spec \<Rightarrow> bool" where
  "dense_descriptor s \<longleftrightarrow> ts_shape s \<noteq> [] \<and> ts_offset s = Const 0 \<and>
     ts_strides s = dense_strides (ts_shape s)"

text \<open>The operand an indexed recipe adds: at most one cast may follow the selection.\<close>

fun is_cast :: "operation \<Rightarrow> bool" where
  "is_cast (Cast _ _) = True"
| "is_cast _ = False"

definition indexed_chain :: "operation list \<Rightarrow> bool" where
  "indexed_chain ops \<longleftrightarrow> ops \<noteq> [] \<and> is_index_select (hd ops) \<and> length ops \<le> 2 \<and> list_all is_cast (tl ops)"

definition index_type :: "recipe \<Rightarrow> string option res" where
  "index_type r =
     (if \<not> recipe_indexed r then Inr None
      else if \<not> indexed_chain (r_operations r)
      then Inl (UnsupportedSymbolicExpr ''index_select must precede at most one cast'')
      else (case r_operations r of
          IndexSelect indices axis # _ \<Rightarrow>
            if ts_strides indices \<noteq> dense_strides (ts_shape indices) \<or> ts_offset indices \<noteq> Const 0
            then Inl (UnsupportedSymbolicExpr ''index operand must describe a dense snapshot'')
            else res_bind (lookup mlir_index_dtypes (ts_dtype indices)) (\<lambda>d.
              Inr (Some (type_text (ts_shape indices) d)))
        | _ \<Rightarrow> Inl (UnsupportedSymbolicExpr ''index_select must precede at most one cast'')))"

text \<open>The loop over the operations: the value's name, its shape and dtype, and the lines so far.\<close>

fun emit_operations ::
  "string option \<Rightarrow> nat \<Rightarrow> string \<Rightarrow> expr list \<Rightarrow> string \<Rightarrow> operation list \<Rightarrow> string list \<Rightarrow>
     (string \<times> string \<times> string list) res" where
  "emit_operations itype index v current dtype [] lns = Inr (v, dtype, lns)"
| "emit_operations itype index v current dtype (op # ops) lns =
     res_bind (operation_shape current op) (\<lambda>target.
     if map_of mlir_dtypes (next_dtype dtype op) = None
     then Inl (UnsupportedSymbolicExpr ''unsupported dtype'') else
     res_bind (operation_text v target op) (\<lambda>text.
     res_bind (lookup mlir_dtypes dtype) (\<lambda>from_type.
     res_bind (lookup mlir_dtypes (next_dtype dtype op)) (\<lambda>to_type.
     let next_value = ''%v'' @ py_str (int index);
         operand = (case (op, itype) of (IndexSelect _ _, Some t) \<Rightarrow> '', '' @ t | _ \<Rightarrow> []);
         line = ''  '' @ next_value @ '' = '' @ text @ '' : '' @ type_text current from_type @ operand @
           '' -> '' @ type_text target to_type
     in emit_operations itype (Suc index) next_value target (next_dtype dtype op) ops (lns @ [line])))))"

definition emit_mlir :: "recipe \<Rightarrow> string res" where
  "emit_mlir r = (let src = r_source r; dst = r_destination r in
     if map_of mlir_dtypes (ts_dtype src) = None \<or> map_of mlir_dtypes (ts_dtype dst) = None
     then Inl (UnsupportedSymbolicExpr ''unsupported dtype'')
     else if \<not> recipe_typed r \<and> ts_dtype src \<noteq> ts_dtype dst
     then Inl (UnsupportedSymbolicExpr ''unsupported or changed dtype'')
     else if \<not> dense_descriptor src
     then Inl (UnsupportedSymbolicExpr ''source_layout: expected dense zero-offset tensor'')
     else if \<not> dense_descriptor dst
     then Inl (UnsupportedSymbolicExpr ''destination_layout: expected dense zero-offset tensor'')
     else
     res_bind (lookup mlir_dtypes (ts_dtype src)) (\<lambda>src_dtype.
     res_bind (lookup mlir_dtypes (ts_dtype dst)) (\<lambda>dst_dtype.
     res_bind (index_type r) (\<lambda>itype.
     let result_type = type_text (ts_shape dst) dst_dtype;
         extra = (case itype of None \<Rightarrow> [] | Some t \<Rightarrow> '', %indices: '' @ t);
         ops = (if r_operations r = [] then [Transpose (map int [0..<length (ts_shape src)])] else r_operations r);
         header = ''func.func @torch_relocation(%x: '' @ type_text (ts_shape src) src_dtype @ extra @
           '') -> '' @ result_type @ '' {''
     in res_bind (emit_operations itype 0 ''%x'' (ts_shape src) (ts_dtype src) ops [header])
       (\<lambda>(v, dtype, lns).
        if dtype \<noteq> ts_dtype dst
        then Inl (UnsupportedSymbolicExpr ''destination dtype does not match the chain'')
        else Inr (join [CHR 0x0A] (lns @ [''  return '' @ v @ '' : '' @ result_type, ''}'']) @ [CHR 0x0A]))))))"

section \<open>What an emitted recipe satisfies\<close>

lemma lookup_eq_Inr [simp, res_simps]: "lookup t k = Inr v \<longleftrightarrow> map_of t k = Some v"
  by (simp add: lookup_def split: option.splits)

lemma emit_operations_chain:
  "emit_operations itype n v current dtype ops lns = Inr (v', dtype', lns') \<Longrightarrow>
     (\<exists>final. shape_chain current ops = Inr final) \<and> dtype' = foldl next_dtype dtype ops"
  by (induction ops arbitrary: n v current dtype lns) (auto simp: Let_def split: if_splits)

lemma emit_mlir_parts:
  assumes "emit_mlir r = Inr text"
  shows "dense_descriptor (r_source r)" and "dense_descriptor (r_destination r)"
    and "recipe_indexed r \<Longrightarrow> indexed_chain (r_operations r)"
    and "\<exists>final. shape_chain (ts_shape (r_source r)) (r_operations r) = Inr final"
    and "ts_dtype (r_destination r) = foldl next_dtype (ts_dtype (r_source r)) (r_operations r)"
proof -
  define ops where
    "ops = (if r_operations r = [] then [Transpose (map int [0..<length (ts_shape (r_source r))])] else r_operations r)"
  from assms obtain itype v dtype lns h where
    d: "dense_descriptor (r_source r)" "dense_descriptor (r_destination r)"
    and i: "index_type r = Inr itype"
    and e: "emit_operations itype 0 ''%x'' (ts_shape (r_source r)) (ts_dtype (r_source r)) ops [h] = Inr (v, dtype, lns)"
    and dt: "dtype = ts_dtype (r_destination r)"
    by (auto simp: emit_mlir_def Let_def ops_def split: if_splits prod.splits)
  from d show "dense_descriptor (r_source r)" "dense_descriptor (r_destination r)" .
  from i show "recipe_indexed r \<Longrightarrow> indexed_chain (r_operations r)"
    by (auto simp: index_type_def split: if_splits)
  note c = emit_operations_chain [OF e]
  then show "\<exists>final. shape_chain (ts_shape (r_source r)) (r_operations r) = Inr final"
    by (cases "r_operations r = []") (simp_all add: ops_def)
  from c dt show "ts_dtype (r_destination r) = foldl next_dtype (ts_dtype (r_source r)) (r_operations r)"
    by (cases "r_operations r = []") (simp_all add: ops_def next_dtype_def)
qed

section \<open>Literals are exact\<close>

definition hex_char_value :: "char \<Rightarrow> nat" where
  "hex_char_value c = (if is_digit c then of_char c - 48 else of_char c - 55)"

definition hex_read :: "string \<Rightarrow> nat" where
  "hex_read s = foldl (\<lambda>a c. 16 * a + hex_char_value c) 0 s"

lemma hex_char_value_char [simp]: "d < 16 \<Longrightarrow> hex_char_value (hex_char d) = d"
  by (auto simp: hex_char_def hex_char_value_def is_digit_def)

lemma hex_read_upper: "hex_read (hex_upper n) = n"
proof (induction n rule: hex_upper.induct)
  case (1 n)
  then show ?case by (subst hex_upper.simps) (simp add: hex_read_def)
qed

lemma hex_read_zeros: "hex_read (replicate k (CHR ''0'') @ s) = hex_read s"
proof -
  have "foldl (\<lambda>a c. 16 * a + hex_char_value c) 0 (replicate k (CHR ''0'')) = 0"
    by (induction k) (simp_all add: hex_char_value_def is_digit_def)
  then show ?thesis by (simp add: hex_read_def)
qed

lemma length_hex_upper: "n < 16 ^ Suc k \<Longrightarrow> length (hex_upper n) \<le> Suc k"
proof (induction k arbitrary: n)
  case 0
  then show ?case by (subst hex_upper.simps) simp
next
  case (Suc k)
  then have "n div 16 < 16 ^ Suc k" by (simp add: less_mult_imp_div_less)
  with Suc.IH [of "n div 16"] show ?case by (subst hex_upper.simps) simp
qed

text \<open>A hexadecimal literal has exactly one digit per nibble and reads back as the bits.\<close>

lemma zero_pad_hex:
  assumes "n < 16 ^ k" and "0 < k"
  shows "length (zero_pad k (hex_upper n)) = k" and "hex_read (zero_pad k (hex_upper n)) = n"
proof -
  from assms obtain j where k: "k = Suc j" by (cases k) auto
  with length_hex_upper [of n j] assms(1) show "length (zero_pad k (hex_upper n)) = k"
    by (simp add: zero_pad_def)
  show "hex_read (zero_pad k (hex_upper n)) = n"
    by (simp add: zero_pad_def hex_read_zeros hex_read_upper)
qed

text \<open>The decimal literal is the only signed value whose two's complement is the bits.\<close>

lemma signed_value_range:
  assumes "bits_fit width bits" and "0 < width"
  shows "- (2 ^ (width - 1)) \<le> signed_value width bits" and "signed_value width bits < 2 ^ (width - 1)"
    and "signed_value width bits mod 2 ^ width = bits"
proof -
  have two: "(2::int) ^ width = 2 * 2 ^ (width - 1)" using assms(2) by (cases width) auto
  show "- (2 ^ (width - 1)) \<le> signed_value width bits" "signed_value width bits < 2 ^ (width - 1)"
    using assms(1) two by (auto simp: signed_value_def bits_fit_def)
  have "0 \<le> bits" "bits < 2 ^ width" using assms(1) by (auto simp: bits_fit_def)
  then show "signed_value width bits mod 2 ^ width = bits"
    using mod_pos_pos_trivial [of bits "2 ^ width"] minus_mod_self2 [of bits "2 ^ width"]
    by (auto simp: signed_value_def)
qed

end
