(* ===== verification/Base64.thy ===== *)
theory Base64
  imports Prelude
begin

text \<open>
  \<open>base64.b64encode\<close> and \<open>base64.b64decode(..., validate=True)\<close>, which carry a plan's bytes
  through the portable JSON form of an artifact.  Bytes and ASCII text are both lists of characters.
\<close>

definition b64_alphabet :: string where
  "b64_alphabet = ''ABCDEFGHIJKLMNOPQRSTUVWXYZabcdefghijklmnopqrstuvwxyz0123456789+/''"

definition b64_char :: "nat \<Rightarrow> char" where
  "b64_char n = b64_alphabet ! n"

definition b64_value :: "char \<Rightarrow> nat option" where
  "b64_value c = map_of (zip b64_alphabet [0..<64]) c"

fun b64_encode :: "string \<Rightarrow> string" where
  "b64_encode [] = []"
| "b64_encode [x] = (let a = of_char x in [b64_char (a div 4), b64_char (a mod 4 * 16), CHR ''='', CHR ''=''])"
| "b64_encode [x, y] = (let a = of_char x; b = of_char y in
     [b64_char (a div 4), b64_char (a mod 4 * 16 + b div 16), b64_char (b mod 16 * 4), CHR ''=''])"
| "b64_encode (x # y # z # rest) = (let a = of_char x; b = of_char y; c = of_char z in
     [b64_char (a div 4), b64_char (a mod 4 * 16 + b div 16), b64_char (b mod 16 * 4 + c div 64),
      b64_char (c mod 64)] @ b64_encode rest)"

definition byte1 :: "nat \<Rightarrow> nat \<Rightarrow> char" where "byte1 w x = char_of (w * 4 + x div 16)"
definition byte2 :: "nat \<Rightarrow> nat \<Rightarrow> char" where "byte2 x y = char_of (x mod 16 * 16 + y div 4)"
definition byte3 :: "nat \<Rightarrow> nat \<Rightarrow> char" where "byte3 y z = char_of (y mod 4 * 64 + z)"

fun b64_decode :: "string \<Rightarrow> string option" where
  "b64_decode [] = Some []"
| "b64_decode (p # q # r # s # rest) = (case (b64_value p, b64_value q) of
     (Some w, Some x) \<Rightarrow>
       (case b64_value r of
          None \<Rightarrow> if r = CHR ''='' \<and> s = CHR ''='' \<and> rest = [] then Some [byte1 w x] else None
        | Some y \<Rightarrow> (case b64_value s of
            None \<Rightarrow> if s = CHR ''='' \<and> rest = [] then Some [byte1 w x, byte2 x y] else None
          | Some z \<Rightarrow> (case b64_decode rest of
              None \<Rightarrow> None | Some more \<Rightarrow> Some (byte1 w x # byte2 x y # byte3 y z # more))))
   | _ \<Rightarrow> None)"
| "b64_decode _ = None"

lemma b64_length: "length b64_alphabet = 64"
  by (simp add: b64_alphabet_def)

lemma b64_distinct: "distinct b64_alphabet"
  unfolding b64_alphabet_def by code_simp

lemma b64_value_char [simp]: "n < 64 \<Longrightarrow> b64_value (b64_char n) = Some n"
  unfolding b64_value_def b64_char_def
  by (rule map_of_eq_Some_iff [THEN iffD2]) (auto simp: b64_distinct b64_length in_set_zip)

lemma b64_value_pad [simp]: "b64_value (CHR ''='') = None"
  by code_simp

lemma byte_bound: "(of_char c :: nat) < 256"
  by (metis nat_of_char_less_256)

lemma split_div: "r < n \<Longrightarrow> (k * n + r) div n = (k::nat)"
  and split_mod: "r < n \<Longrightarrow> (k * n + r) mod n = (r::nat)"
  by auto

lemma div_bound: "(b::nat) < n * m \<Longrightarrow> b div m < n"
  by (rule less_mult_imp_div_less)

lemma byte1_enc:
  assumes "b < 256"
  shows "byte1 ((of_char x :: nat) div 4) (of_char x mod 4 * 16 + b div 16) = x"
proof -
  have "b div 16 < 16" using assms by (intro div_bound) simp
  from split_div [OF this] have "(of_char x mod 4 * 16 + b div 16) div 16 = (of_char x :: nat) mod 4" .
  then show ?thesis unfolding byte1_def by (simp only: div_mult_mod_eq char_of_char)
qed

lemma byte1_enc0: "byte1 ((of_char x :: nat) div 4) (of_char x mod 4 * 16) = x"
  using byte1_enc [of 0 x] by simp

lemma byte2_enc:
  assumes "c < 256"
  shows "byte2 (a mod 4 * 16 + (of_char y :: nat) div 16) (of_char y mod 16 * 4 + c div 64) = y"
proof -
  have "c div 64 < 4" using assms by (intro div_bound) simp
  from split_div [OF this] have d: "(of_char y mod 16 * 4 + c div 64) div 4 = (of_char y :: nat) mod 16" .
  have "(of_char y :: nat) div 16 < 16" using byte_bound [of y] by (intro div_bound) simp
  from split_mod [OF this] have "(a mod 4 * 16 + of_char y div 16) mod 16 = (of_char y :: nat) div 16" .
  with d show ?thesis unfolding byte2_def by (simp only: div_mult_mod_eq char_of_char)
qed

lemma byte2_enc0: "byte2 (a mod 4 * 16 + (of_char y :: nat) div 16) (of_char y mod 16 * 4) = y"
  using byte2_enc [of 0 a y] by simp

lemma byte3_enc: "byte3 (b mod 16 * 4 + (of_char z :: nat) div 64) (of_char z mod 64) = z"
proof -
  have "(of_char z :: nat) div 64 < 4" using byte_bound [of z] by (intro div_bound) simp
  from split_mod [OF this] have "(b mod 16 * 4 + of_char z div 64) mod 4 = (of_char z :: nat) div 64" .
  then show ?thesis unfolding byte3_def by (simp only: div_mult_mod_eq char_of_char)
qed

lemma sextets:
  "(of_char x :: nat) div 4 < 64" "(of_char x :: nat) mod 64 < 64" "a mod 4 * 16 < (64::nat)"
  "b mod 16 * 4 < (64::nat)" "a mod 4 * 16 + (of_char x :: nat) div 16 < 64"
  "b mod 16 * 4 + (of_char x :: nat) div 64 < 64"
proof -
  have d: "(of_char x :: nat) div 16 < 16" "(of_char x :: nat) div 64 < 4"
    using byte_bound [of x] by (auto intro!: div_bound)
  have "a mod 4 < (4::nat)" "b mod 16 < (16::nat)" by simp_all
  then have m: "a mod 4 * 16 \<le> (48::nat)" "b mod 16 * 4 \<le> (60::nat)" by linarith+
  then show "a mod 4 * 16 < (64::nat)" "b mod 16 * 4 < (64::nat)" by linarith+
  from m d show "a mod 4 * 16 + (of_char x :: nat) div 16 < 64" "b mod 16 * 4 + (of_char x :: nat) div 64 < 64"
    by linarith+
  show "(of_char x :: nat) div 4 < 64" using byte_bound [of x] by (intro div_bound) simp
qed simp

lemma b64_decode_encode: "b64_decode (b64_encode bs) = Some bs"
proof (induction bs rule: b64_encode.induct)
  case (2 x)
  show ?case by (simp add: Let_def sextets byte1_enc0)
next
  case (3 x y)
  show ?case by (simp add: Let_def sextets byte1_enc byte2_enc0 byte_bound)
next
  case (4 x y z rest)
  then show ?case by (simp add: Let_def sextets byte1_enc byte2_enc byte3_enc byte_bound)
qed simp

end
