(* ===== verification/Artifact.thy ===== *)
theory Artifact
  imports Typed_Sections Emit Base64
begin

text \<open>
  \<open>reloc_torch/artifact.py\<close> and \<open>reloc_torch/indexed_artifact.py\<close>: admission of what the compiler
  published, the admitted artifact's metadata operations, and its portable form.  The plan decoder
  of the native runtime and SHA-256 are the fields of \<open>native\<close>, an argument of every function that
  calls them.
\<close>

section \<open>The native runtime\<close>

record indexed_operand =
  io_shape :: "json list"
  io_dtype :: string

record indexed_plan =
  xp_symbols :: "string list"
  xp_axis :: int
  xp_policy :: string
  xp_source :: indexed_operand
  xp_indices :: indexed_operand
  xp_result :: indexed_operand

text \<open>A loader returns the decoded plan, or the text of its \<open>DecodeError\<close>.\<close>

record native =
  nv_available :: bool
  nv_load :: "bool \<Rightarrow> string \<Rightarrow> string + decoded_plan"
  nv_load_indexed :: "string \<Rightarrow> string + indexed_plan"
  nv_sha256 :: "string \<Rightarrow> string"

definition decode_plan :: "native \<Rightarrow> string \<Rightarrow> bool \<Rightarrow> decoded_plan res" where
  "decode_plan nv plan typed =
     (if \<not> nv_available nv then Inl (RuntimeErr ''pyreloc runtime is required to validate compiler plans'')
      else (case nv_load nv typed plan of
          Inl detail \<Rightarrow> Inl (RuntimeErr (msg [''compiler published an invalid plan: '', detail]))
        | Inr d \<Rightarrow> Inr d))"

section \<open>Shared steps\<close>

definition json_strings :: "exn \<Rightarrow> json \<Rightarrow> string list res" where
  "json_strings e v = res_bind (json_list e v)
     (mapR (\<lambda>x. case x of JStr s \<Rightarrow> Inr s | _ \<Rightarrow> Inl e))"

definition exactly_one_plan :: "(string \<times> json) list \<Rightarrow> exn \<Rightarrow> unit res" where
  "exactly_one_plan kvs e =
     res_bind (json_field kvs ''status'') (\<lambda>status.
     if status \<noteq> JStr ''ok'' then Inl e else
     res_bind (json_field kvs ''plan_count'') (\<lambda>c. res_bind (json_integer ''plan_count'' c) (\<lambda>plans.
       ensure (plans = 1) e)))"

text \<open>\<open>by_name[name] for name in symbols\<close>: the dictionary keeps the last source of a name.\<close>

definition sources_by_name :: "symbol_source list \<Rightarrow> string list \<Rightarrow> symbol_source list res" where
  "sources_by_name sources symbols =
     mapR (\<lambda>n. case map_of (rev (map (\<lambda>s. (ss_name s, s)) sources)) n of
       None \<Rightarrow> Inl (KeyErr n) | Some s \<Rightarrow> Inr s) symbols"

lemma json_str_item: "(case x of JStr s \<Rightarrow> Inr s | _ \<Rightarrow> Inl e) = Inr t \<longleftrightarrow> x = JStr t"
  by (cases x) auto

lemma list_all2_eq_map: "list_all2 (\<lambda>x s. x = f s) xs ss \<longleftrightarrow> xs = map f ss"
  by (induction xs arbitrary: ss) (auto simp: list_all2_Cons1)

lemma json_strings_eq_Inr [res_simps]: "json_strings e v = Inr ss \<longleftrightarrow> v = JList (map JStr ss)"
  by (simp add: json_strings_def mapR_eq_Inr json_str_item list_all2_eq_map)

lemma sources_by_name_names:
  assumes "sources_by_name sources symbols = Inr ss"
  shows "map ss_name ss = symbols" and "set ss \<subseteq> set sources"
proof -
  have "list_all2 (\<lambda>n s. s \<in> set sources \<and> ss_name s = n) symbols ss"
    using assms unfolding sources_by_name_def mapR_eq_Inr
    by (rule list_all2_mono) (auto split: option.splits dest!: map_of_SomeD)
  then have "map ss_name ss = symbols \<and> set ss \<subseteq> set sources"
    by (induction rule: list_all2_induct) auto
  then show "map ss_name ss = symbols" and "set ss \<subseteq> set sources" by auto
qed

section \<open>Indexed admission\<close>

definition first_indices :: "recipe \<Rightarrow> (expr tensor_spec \<times> int) res" where
  "first_indices r = (case r_operations r of
     IndexSelect indices axis # _ \<Rightarrow> Inr (indices, axis)
   | _ \<Rightarrow> Inl (OtherExn ''AttributeError''))"

definition sources_for :: "recipe \<Rightarrow> symbol_source list res" where
  "sources_for r =
     res_bind (symbol_sources (ts_shape (r_source r))) (\<lambda>sources.
     res_bind (first_indices r) (\<lambda>(indices, axis).
     res_bind (symbol_sources (ts_shape indices)) (\<lambda>extra.
       Inr (sources @ map (\<lambda>s. s\<lparr>ss_operand := ''indices''\<rparr>)
         (filter (\<lambda>s. ss_name s \<notin> ss_name ` set sources) extra)))))"

definition check_wire_operand :: "string \<Rightarrow> indexed_operand \<Rightarrow> expr tensor_spec \<Rightarrow> unit res" where
  "check_wire_operand key raw expected =
     res_bind (mapR (parse_expr key) (io_shape raw)) (\<lambda>shape.
       ensure (same_descriptor \<lparr>ts_shape = shape, ts_strides = dense_strides shape, ts_offset = Const 0,
           ts_dtype = io_dtype raw\<rparr> expected)
         (RuntimeErr (msg [''indexed wire '', key, '' descriptor mismatch''])))"

definition admit_indexed :: "native \<Rightarrow> recipe \<Rightarrow> string \<Rightarrow> string \<Rightarrow> json \<Rightarrow> compiled_recipe res" where
  "admit_indexed nv r mlir plan manifest =
     (if \<not> nv_available nv then Inl (OtherExn ''ImportError'') else
     res_bind (exact_keys manifest [''schema_version'', ''wire_version'', ''status'', ''compiler'', ''plan_count'',
       ''symbols'', ''logical_source'', ''logical_destination'', ''constraints'', ''index_select'',
       ''plan_sha256'', ''input_sha256''] ''indexed manifest'') (\<lambda>kvs.
     res_bind (validate_base kvs (3, 2)) (\<lambda>compiler.
     res_bind (exactly_one_plan kvs (RuntimeErr ''indexed manifest must describe exactly one plan'')) (\<lambda>_.
     if \<not> indexed_chain (r_operations r) then Inl (RuntimeErr ''unsupported indexed recipe chain'') else
     res_bind (first_indices r) (\<lambda>(indices, axis).
     res_bind (json_field kvs ''index_select'') (\<lambda>e.
     res_bind (exact_keys e [''axis'', ''indices'', ''policy''] ''index_select'') (\<lambda>entry.
     let policy = (case tl (r_operations r) of op # _ \<Rightarrow> op_policy op | [] \<Rightarrow> ''exact'') in
     res_bind (json_field entry ''axis'') (\<lambda>a. res_bind (json_integer ''index_select axis'' a) (\<lambda>entry_axis.
     res_bind (json_field entry ''policy'') (\<lambda>entry_policy.
     if entry_axis \<noteq> axis \<or> entry_policy \<noteq> JStr policy
     then Inl (RuntimeErr ''indexed manifest selection/policy mismatch'') else
     res_bind (json_field kvs ''logical_source'') (\<lambda>s.
     res_bind (parse_descriptor False ''logical_source'' s) (\<lambda>source.
     res_bind (json_field entry ''indices'') (\<lambda>i. res_bind (parse_descriptor True ''indices'' i) (\<lambda>declared.
     res_bind (json_field kvs ''logical_destination'') (\<lambda>d.
     res_bind (parse_descriptor False ''logical_destination'' d) (\<lambda>destination.
     if \<not> (same_descriptor source (r_source r) \<and> same_descriptor declared indices \<and>
            same_descriptor destination (r_destination r))
     then Inl (RuntimeErr ''indexed manifest descriptor mismatch'') else
     res_bind (json_field kvs ''constraints'') (\<lambda>c. res_bind (parse_constraints c) (\<lambda>constraints.
     if constraints \<noteq> [] then Inl (RuntimeErr ''unexpected indexed constraints'') else
     res_bind (json_field kvs ''plan_sha256'') (\<lambda>plan_digest.
     res_bind (json_field kvs ''input_sha256'') (\<lambda>input_digest.
     if plan_digest \<noteq> JStr (nv_sha256 nv plan) \<or> input_digest \<noteq> JStr (nv_sha256 nv mlir)
     then Inl (RuntimeErr ''indexed artifact digest mismatch'') else
     (case nv_load_indexed nv plan of Inl detail \<Rightarrow> Inl (OtherExn detail) | Inr decoded \<Rightarrow>
     let table_error = RuntimeErr ''indexed manifest symbol table mismatch'' in
     res_bind (json_field kvs ''symbols'') (\<lambda>sy. res_bind (json_strings table_error sy) (\<lambda>symbols.
     res_bind (wire_symbols plan 2) (\<lambda>wire.
     if symbols \<noteq> wire \<or> symbols \<noteq> xp_symbols decoded then Inl table_error else
     res_bind (sources_for r) (\<lambda>sources.
     if \<not> distinct symbols \<or> set symbols \<noteq> ss_name ` set sources
     then Inl (RuntimeErr ''indexed recipe symbol set mismatch'') else
     if xp_axis decoded \<noteq> entry_axis \<or> JStr (xp_policy decoded) \<noteq> entry_policy
     then Inl (RuntimeErr ''indexed wire selection/policy mismatch'') else
     res_bind (check_wire_operand ''source'' (xp_source decoded) source) (\<lambda>_.
     res_bind (check_wire_operand ''indices'' (xp_indices decoded) declared) (\<lambda>_.
     res_bind (check_wire_operand ''result'' (xp_result decoded) destination) (\<lambda>_.
     res_bind (sources_by_name sources symbols) (\<lambda>ordered.
       Inr \<lparr>cr_recipe = r, cr_plan_bytes = plan, cr_compiler = compiler, cr_wire_version = 2,
         cr_symbols = symbols, cr_symbol_sources = ordered, cr_constraints = [],
         cr_logical_source = source, cr_logical_destination = destination, cr_manifest = manifest,
         cr_parameters = []\<rparr>)))))))))))))))))))))))))))))"

section \<open>Admission\<close>

definition success_fields :: "bool \<Rightarrow> string list" where
  "success_fields typed = [''schema_version'', ''wire_version'', ''status'', ''compiler'', ''plan_count'',
     ''symbols'', ''logical_source'', ''logical_destination'', ''constraints'', ''plan_sha256'',
     ''input_sha256''] @ (if typed then [''stages'', ''fills'', ''parameters''] else [])"

definition admit :: "native \<Rightarrow> recipe \<Rightarrow> string \<Rightarrow> string \<Rightarrow> json \<Rightarrow> compiled_recipe res" where
  "admit nv r mlir plan manifest =
     (if recipe_indexed r then admit_indexed nv r mlir plan manifest else
     let typed = recipe_typed r; schema = (if typed then typed_schema else layout_schema) in
     res_bind (exact_keys manifest (success_fields typed) ''success'') (\<lambda>kvs.
     res_bind (validate_base kvs schema) (\<lambda>compiler.
     res_bind (exactly_one_plan kvs
       (RuntimeErr ''compiler manifest does not describe exactly one successful plan'')) (\<lambda>_.
     res_bind (json_field kvs ''symbols'') (\<lambda>sy.
     res_bind (json_strings (RuntimeErr ''compiler manifest symbols must be an array of strings'') sy) (\<lambda>symbols.
     res_bind (decode_plan nv plan typed) (\<lambda>decoded.
     res_bind (wire_symbols plan (snd schema)) (\<lambda>wire.
     if symbols \<noteq> wire \<or> symbols \<noteq> dp_symbols decoded
     then Inl (RuntimeErr ''compiler manifest symbol order does not match the plan'') else
     if \<not> distinct symbols \<or> set symbols \<noteq> recipe_symbols r
     then Inl (RuntimeErr ''compiler manifest symbol set does not match the recipe'') else
     res_bind (json_field kvs ''logical_source'') (\<lambda>s.
     res_bind (parse_descriptor False ''logical_source'' s) (\<lambda>source.
     res_bind (json_field kvs ''logical_destination'') (\<lambda>d.
     res_bind (parse_descriptor False ''logical_destination'' d) (\<lambda>destination.
     if \<not> same_descriptor source (r_source r)
     then Inl (RuntimeErr ''compiler manifest logical source descriptor mismatch'') else
     if \<not> same_descriptor destination (r_destination r)
     then Inl (RuntimeErr ''compiler manifest logical destination descriptor mismatch'') else
     res_bind (json_field kvs ''constraints'') (\<lambda>c. res_bind (parse_constraints c) (\<lambda>constraints.
     if sort_key constraint_repr constraints \<noteq> sort_key constraint_repr (expected_constraints r)
     then Inl (RuntimeErr ''compiler manifest constraints mismatch'') else
     res_bind (if typed then validate_typed_sections r kvs symbols decoded else Inr []) (\<lambda>parameters.
     res_bind (json_field kvs ''plan_sha256'') (\<lambda>p. res_bind (json_string ''plan_sha256'' p) (\<lambda>plan_digest.
     res_bind (json_field kvs ''input_sha256'') (\<lambda>i. res_bind (json_string ''input_sha256'' i) (\<lambda>input_digest.
     if plan_digest \<noteq> nv_sha256 nv plan then Inl (RuntimeErr ''compiler manifest plan digest mismatch'') else
     if input_digest \<noteq> nv_sha256 nv mlir then Inl (RuntimeErr ''compiler manifest input digest mismatch'') else
     res_bind (symbol_sources (ts_shape (r_source r))) (\<lambda>sources.
     res_bind (sources_by_name sources symbols) (\<lambda>ordered.
       Inr \<lparr>cr_recipe = r, cr_plan_bytes = plan, cr_compiler = compiler, cr_wire_version = snd schema,
         cr_symbols = symbols, cr_symbol_sources = ordered, cr_constraints = constraints,
         cr_logical_source = source, cr_logical_destination = destination, cr_manifest = manifest,
         cr_parameters = parameters\<rparr>)))))))))))))))))))))"

definition cr_indexed :: "compiled_recipe \<Rightarrow> bool" where
  "cr_indexed a \<longleftrightarrow> cr_wire_version a = 2"

definition cr_typed :: "compiled_recipe \<Rightarrow> bool" where
  "cr_typed a \<longleftrightarrow> cr_wire_version a = snd typed_schema \<or> (cr_indexed a \<and> recipe_typed (cr_recipe a))"

section \<open>Metadata operations of an admitted artifact\<close>

text \<open>
  \<open>_tensor_spec\<close>: a tensor-like object whose attributes may be missing (\<open>None\<close>); a missing
  \<open>storage_offset\<close> defaults to 0.
\<close>

record tensor_like =
  tl_shape :: "pyint list option"
  tl_stride :: "pyint list option"
  tl_storage_offset :: "pyint option"
  tl_dtype :: "string option"

definition remove_prefix :: "string \<Rightarrow> string \<Rightarrow> string" where
  "remove_prefix p s = (if take (length p) s = p then drop (length p) s else s)"

definition tensor_spec_of :: "tensor_like \<Rightarrow> pyint tensor_spec res" where
  "tensor_spec_of v = (case (tl_shape v, tl_stride v, tl_dtype v) of
     (Some shape, Some strides, Some dtype) \<Rightarrow>
       Inr \<lparr>ts_shape = shape, ts_strides = strides,
            ts_offset = (case tl_storage_offset v of None \<Rightarrow> PyInt 0 | Some off \<Rightarrow> off),
            ts_dtype = remove_prefix ''torch.'' dtype\<rparr>
   | _ \<Rightarrow> Inl (GuardError ''source_descriptor''))"

definition binding_of :: "env \<Rightarrow> string \<Rightarrow> (string \<times> pyint) res" where
  "binding_of b n = (case b n of None \<Rightarrow> Inl (KeyErr n) | Some v \<Rightarrow> Inr (n, v))"

definition check_constraint :: "env \<Rightarrow> constraint \<Rightarrow> unit res" where
  "check_constraint b c = res_bind (ev b (c_expr c)) (\<lambda>dividend.
     res_bind (py_mod dividend (c_divisor c)) (\<lambda>m.
       ensure (m = 0) (GuardError ''divisibility'')))"

text \<open>
  \<open>_metadata_binder\<close>; its \<open>lru_cache\<close> memoises a function of immutable descriptors and does not
  show in its results.
\<close>

definition metadata_bind :: "compiled_recipe \<Rightarrow> pyint tensor_spec \<Rightarrow> (string \<times> pyint) list res" where
  "metadata_bind a concrete =
     res_bind (bind_recipe (cr_recipe a) (cr_symbol_sources a) concrete Map.empty) (\<lambda>bindings.
     res_bind (mapR (check_constraint bindings) (cr_constraints a)) (\<lambda>_.
       mapR (binding_of bindings) (cr_symbols a)))"

text \<open>\<open>indexed_artifact.bind_values\<close>.\<close>

fun bind_operands :: "symbol_source list \<Rightarrow> pyint list \<Rightarrow> pyint list \<Rightarrow> env \<Rightarrow> env res" where
  "bind_operands [] source index b = Inr b"
| "bind_operands (p # ps) source index b =
     (let shape = (if ss_operand p = ''indices'' then index else source) in
      if int (length shape) \<le> ss_axis p then Inl (GuardError ''source_descriptor'')
      else bind_operands ps source index (b(ss_name p \<mapsto> shape ! nat (ss_axis p))))"

definition indexed_bind ::
  "compiled_recipe \<Rightarrow> pyint tensor_spec \<Rightarrow> pyint tensor_spec \<Rightarrow> (string \<times> pyint) list res" where
  "indexed_bind a source index =
     res_bind (first_indices (cr_recipe a)) (\<lambda>(declared, axis).
     if length (ts_shape index) \<noteq> 1 \<or> ts_dtype index \<noteq> ts_dtype declared
     then Inl (GuardError ''index_descriptor'') else
     res_bind (bind_operands (cr_symbol_sources a) (ts_shape source) (ts_shape index) Map.empty) (\<lambda>b0.
     res_bind (bind_recipe (cr_recipe a)
       (filter (\<lambda>s. ss_operand s = ''source'') (cr_symbol_sources a)) source b0) (\<lambda>bindings.
     res_bind (mapR (evaluate True bindings) (ts_shape declared)) (\<lambda>extents.
     if map PyInt extents \<noteq> ts_shape index then Inl (GuardError ''index_descriptor'') else
     if the_int (hd (ts_shape index)) * (if ts_dtype index = ''int32'' then 4 else 8) \<ge> 2 ^ 63
     then Inl (GuardError ''integer_overflow'') else
       mapR (binding_of bindings) (cr_symbols a)))))"

definition bind_values :: "compiled_recipe \<Rightarrow> tensor_like \<Rightarrow> tensor_like option \<Rightarrow> (string \<times> pyint) list res" where
  "bind_values a value indices =
     (if cr_indexed a then (case indices of
          None \<Rightarrow> Inl (GuardError ''index_operand_required'')
        | Some ix \<Rightarrow> res_bind (tensor_spec_of value) (\<lambda>s. res_bind (tensor_spec_of ix) (\<lambda>i. indexed_bind a s i)))
      else res_bind (tensor_spec_of value) (metadata_bind a))"

definition destination_metadata ::
  "compiled_recipe \<Rightarrow> (string \<times> pyint) list \<Rightarrow> (int list \<times> int list \<times> string) res" where
  "destination_metadata a items =
     (let b = map_of items; logical = cr_logical_destination a in
     res_bind (mapR (evaluate True b) (ts_shape logical)) (\<lambda>shape.
     res_bind (mapR (evaluate True b) (ts_strides logical)) (\<lambda>strides.
     res_bind (evaluate True b (ts_offset logical)) (\<lambda>off.
     if off \<noteq> 0 \<or> (\<exists>d\<in>set shape. d \<le> 0) then Inl (GuardError ''destination_descriptor'')
     else Inr (shape, strides, ts_dtype logical)))))"

definition parameter_metadata ::
  "compiled_recipe \<Rightarrow> (string \<times> pyint) list \<Rightarrow> (string \<times> string \<times> int list) list res" where
  "parameter_metadata a items =
     mapR (\<lambda>d. res_bind (mapR (evaluate True (map_of items)) (pd_extents d)) (\<lambda>extents.
       Inr (pd_name d, pd_dtype d, extents))) (cr_parameters a)"

definition parameter_extents ::
  "compiled_recipe \<Rightarrow> (string \<times> pyint) list \<Rightarrow> (string \<times> string \<times> int list) list res" where
  "parameter_extents a items = (case parameter_metadata a items of
     Inl (KeyErr _) \<Rightarrow> Inl (GuardError ''missing_symbol'') | r \<Rightarrow> r)"

section \<open>The portable form\<close>

text \<open>\<open>to_bytes\<close> and \<open>from_bytes\<close>, between artifacts and the JSON value whose text they write and read.\<close>

definition format_version :: "bool \<Rightarrow> bool \<Rightarrow> int" where
  "format_version indexed typed = (if indexed then 3 else if typed then 2 else 1)"

definition to_payload :: "compiled_recipe \<Rightarrow> json" where
  "to_payload a = JObj [
     (''format_version'', JInt (format_version (cr_indexed a) (cr_typed a))),
     (''manifest'', cr_manifest a),
     (''plan_base64'', JStr (b64_encode (cr_plan_bytes a))),
     (''recipe'', encode_recipe (cr_recipe a))]"

definition plan_of_text :: "json \<Rightarrow> string res" where
  "plan_of_text p = (case p of
     JStr text \<Rightarrow> (case b64_decode text of
         None \<Rightarrow> Inl (RuntimeErr ''compiled recipe has invalid plan bytes'')
       | Some plan \<Rightarrow> Inr plan)
   | _ \<Rightarrow> Inl (RuntimeErr ''compiled recipe plan_base64 must be a string''))"

definition from_payload :: "native \<Rightarrow> json \<Rightarrow> compiled_recipe res" where
  "from_payload nv payload =
     res_bind (exact_keys payload [''format_version'', ''manifest'', ''plan_base64'', ''recipe''] ''artifact'') (\<lambda>kvs.
     res_bind (json_field kvs ''format_version'') (\<lambda>v.
     res_bind (json_integer ''artifact format_version'' v) (\<lambda>version.
     if version \<notin> {1, 2, 3} then Inl (RuntimeErr ''compiled recipe format version mismatch'') else
     res_bind (json_field kvs ''plan_base64'') (\<lambda>p. res_bind (plan_of_text p) (\<lambda>plan.
     res_bind (json_field kvs ''recipe'') (\<lambda>r. res_bind (decode_recipe r) (\<lambda>recipe.
     if version \<noteq> format_version (recipe_indexed recipe) (recipe_typed recipe)
     then Inl (RuntimeErr ''compiled recipe format version does not match its recipe'') else
     res_bind (emit_mlir recipe) (\<lambda>mlir.
     res_bind (json_field kvs ''manifest'') (\<lambda>manifest.
       admit nv recipe mlir plan manifest)))))))))"

lemma plan_of_text_eq_Inr [simp, res_simps]:
  "plan_of_text p = Inr plan \<longleftrightarrow> (\<exists>b64. p = JStr b64 \<and> b64_decode b64 = Some plan)"
  by (auto simp: plan_of_text_def split: json.splits option.splits)

lemma plan_of_text_encode [simp]: "plan_of_text (JStr (b64_encode plan)) = Inr plan"
  by (simp add: b64_decode_encode)

section \<open>What admission establishes\<close>

lemma exactly_one_plan_eq_Inr [res_simps]:
  "exactly_one_plan kvs e = Inr u \<longleftrightarrow>
     map_of kvs ''status'' = Some (JStr ''ok'') \<and> map_of kvs ''plan_count'' = Some (JInt 1)"
  by (auto simp: exactly_one_plan_def json_field_eq_Inr)

definition wire_version_of :: "recipe \<Rightarrow> int" where
  "wire_version_of r = (if recipe_indexed r then 2 else if recipe_typed r then 1 else 0)"

lemma admit_parts:
  assumes "admit nv r mlir plan manifest = Inr a" and "\<not> recipe_indexed r"
  obtains kvs decoded sources where
    "manifest = JObj kvs" and "decode_plan nv plan (recipe_typed r) = Inr decoded"
    and "cr_recipe a = r" "cr_plan_bytes a = plan" "cr_manifest a = manifest"
      "cr_wire_version a = wire_version_of r"
    and "compiler_identity_of (json_get kvs ''compiler'') = Inr (cr_compiler a)"
    and "wire_symbols plan (wire_version_of r) = Inr (cr_symbols a)" "cr_symbols a = dp_symbols decoded"
    and "distinct (cr_symbols a)" "set (cr_symbols a) = recipe_symbols r"
    and "descriptor_ok False (cr_logical_source a)" "descriptor_ok False (cr_logical_destination a)"
    and "same_descriptor (cr_logical_source a) (r_source r)"
      "same_descriptor (cr_logical_destination a) (r_destination r)"
    and "\<forall>c\<in>set (cr_constraints a). wf_constraint c"
      "sort_key constraint_repr (cr_constraints a) = sort_key constraint_repr (expected_constraints r)"
    and "recipe_typed r \<Longrightarrow> validate_typed_sections r kvs (cr_symbols a) decoded = Inr (cr_parameters a)"
      "\<not> recipe_typed r \<Longrightarrow> cr_parameters a = []"
    and "map_of kvs ''plan_sha256'' = Some (JStr (nv_sha256 nv plan))"
      "map_of kvs ''input_sha256'' = Some (JStr (nv_sha256 nv mlir))"
    and "symbol_sources (ts_shape (r_source r)) = Inr sources"
      "sources_by_name sources (cr_symbols a) = Inr (cr_symbol_sources a)"
proof -
  define schema where "schema = (if recipe_typed r then typed_schema else layout_schema)"
  have wire: "snd schema = wire_version_of r"
    using assms(2) by (simp add: schema_def typed_schema_def layout_schema_def wire_version_of_def)
  from assms obtain kvs compiler symbols decoded source destination constraints parameters sources ordered c s d where
    k: "manifest = JObj kvs" and vb: "validate_base kvs schema = Inr compiler"
    and dec: "decode_plan nv plan (recipe_typed r) = Inr decoded"
    and w: "wire_symbols plan (snd schema) = Inr symbols" "symbols = dp_symbols decoded"
    and sy: "distinct symbols" "set symbols = recipe_symbols r"
    and src: "parse_descriptor False ''logical_source'' s = Inr source" "same_descriptor source (r_source r)"
    and dst: "parse_descriptor False ''logical_destination'' d = Inr destination"
      "same_descriptor destination (r_destination r)"
    and cs: "parse_constraints c = Inr constraints"
      "sort_key constraint_repr constraints = sort_key constraint_repr (expected_constraints r)"
    and ps: "(if recipe_typed r then validate_typed_sections r kvs symbols decoded else Inr []) = Inr parameters"
    and dg: "map_of kvs ''plan_sha256'' = Some (JStr (nv_sha256 nv plan))"
      "map_of kvs ''input_sha256'' = Some (JStr (nv_sha256 nv mlir))"
    and so: "symbol_sources (ts_shape (r_source r)) = Inr sources" "sources_by_name sources symbols = Inr ordered"
    and a: "a = \<lparr>cr_recipe = r, cr_plan_bytes = plan, cr_compiler = compiler, cr_wire_version = snd schema,
         cr_symbols = symbols, cr_symbol_sources = ordered, cr_constraints = constraints,
         cr_logical_source = source, cr_logical_destination = destination, cr_manifest = manifest,
         cr_parameters = parameters\<rparr>"
    unfolding admit_def Let_def schema_def [symmetric]
    by (auto simp: json_field_eq_Inr split: if_splits)
  show thesis
    by (rule that [OF k dec])
      (use a w sy src dst cs ps dg so vb wire in \<open>auto simp: validate_base_eq_Inr split: if_splits
        intro: descriptor_codec.dec_ok dest: parse_constraints_wf\<close>)
qed

end
