(* ===== verification/Ordered_Dict.thy ===== *)
theory Ordered_Dict
  imports Prelude
begin

text \<open>
  \<open>collections.OrderedDict\<close> and \<open>collections.Counter\<close> as the caches use them: association lists,
  oldest entry first, one entry per key.  The interface every bounded cache of the program meets is
  the locale \<open>bounded_store\<close>.
\<close>

section \<open>Ordered dictionaries\<close>

type_synonym ('k, 'v) odict = "('k \<times> 'v) list"

definition od_keys :: "('k, 'v) odict \<Rightarrow> 'k list" where
  "od_keys d = map fst d"

definition od_ok :: "('k, 'v) odict \<Rightarrow> bool" where
  "od_ok d \<longleftrightarrow> distinct (od_keys d)"

text \<open>\<open>d[k] = v\<close>: an existing key keeps its place.\<close>

fun od_set :: "'k \<Rightarrow> 'v \<Rightarrow> ('k, 'v) odict \<Rightarrow> ('k, 'v) odict" where
  "od_set k v [] = [(k, v)]"
| "od_set k v ((k', v') # d) = (if k = k' then (k, v) # d else (k', v') # od_set k v d)"

definition od_del :: "'k \<Rightarrow> ('k, 'v) odict \<Rightarrow> ('k, 'v) odict" where
  "od_del k d = filter (\<lambda>e. fst e \<noteq> k) d"

text \<open>\<open>d.move_to_end(k)\<close>.\<close>

definition od_touch :: "'k \<Rightarrow> ('k, 'v) odict \<Rightarrow> ('k, 'v) odict" where
  "od_touch k d = filter (\<lambda>e. fst e \<noteq> k) d @ filter (\<lambda>e. fst e = k) d"

text \<open>\<open>while len(d) > n: d.popitem(last=False)\<close>.\<close>

function od_trim :: "nat \<Rightarrow> ('k, 'v) odict \<Rightarrow> ('k, 'v) odict" where
  "od_trim n d = (if n < length d then od_trim n (tl d) else d)"
  by pat_completeness auto

termination od_trim
  by (relation "measure (\<lambda>(n, d). length d)") auto

declare od_trim.simps [simp del]

lemma od_trim_drop: "od_trim n d = drop (length d - n) d"
proof (induction n d rule: od_trim.induct)
  case (1 n d)
  show ?case
  proof (cases "n < length d")
    case True
    then have "drop (length (tl d) - n) (tl d) = drop (length d - n) d"
      by (cases d) (auto simp: Suc_diff_le)
    with 1 True show ?thesis by (subst od_trim.simps) simp
  qed (subst od_trim.simps, simp)
qed

lemma od_keys_set: "set (od_keys (od_set k v d)) = insert k (set (od_keys d))"
  by (induction k v d rule: od_set.induct) (auto simp: od_keys_def)

lemma od_ok_set [intro]: "od_ok d \<Longrightarrow> od_ok (od_set k v d)"
proof (induction k v d rule: od_set.induct)
  case (2 k v k' v' d)
  then show ?case using od_keys_set [of k v d] by (auto simp: od_ok_def od_keys_def)
qed (simp add: od_ok_def od_keys_def)

lemma od_set_lookup [simp]: "map_of (od_set k v d) = (map_of d)(k \<mapsto> v)"
  by (induction k v d rule: od_set.induct) (auto simp: fun_eq_iff)

lemma od_set_new: "k \<notin> set (od_keys d) \<Longrightarrow> od_set k v d = d @ [(k, v)]"
  by (induction k v d rule: od_set.induct) (auto simp: od_keys_def)

lemma length_od_set: "length (od_set k v d) = (if k \<in> set (od_keys d) then length d else Suc (length d))"
  by (induction k v d rule: od_set.induct) (auto simp: od_keys_def)

lemma od_keys_del: "set (od_keys (od_del k d)) = set (od_keys d) - {k}"
  by (auto simp: od_keys_def od_del_def)

lemma od_ok_del [intro]: "od_ok d \<Longrightarrow> od_ok (od_del k d)"
  by (induction d) (auto simp: od_ok_def od_keys_def od_del_def)

lemma od_del_lookup [simp]: "map_of (od_del k d) = (map_of d)(k := None)"
  by (induction d) (auto simp: od_del_def fun_eq_iff)

lemma length_od_del: "length (od_del k d) \<le> length d"
  by (simp add: od_del_def)

lemma od_keys_touch: "set (od_keys (od_touch k d)) = set (od_keys d)"
  by (auto simp: od_keys_def od_touch_def)

lemma length_od_touch [simp]: "length (od_touch k d) = length d"
  unfolding od_touch_def length_append using sum_length_filter_compl [of "\<lambda>e. fst e \<noteq> k" d] by simp

lemma od_touch_mset [simp]: "mset (od_touch k d) = mset d"
  unfolding od_touch_def mset_append mset_filter
  using multiset_partition [of "mset d" "\<lambda>e. fst e = k"] by (simp only: add.commute)

lemma od_ok_touch [intro]: "od_ok d \<Longrightarrow> od_ok (od_touch k d)"
proof -
  assume "od_ok d"
  moreover have "mset (od_keys (od_touch k d)) = mset (od_keys d)"
    by (simp add: od_keys_def)
  ultimately show ?thesis unfolding od_ok_def by (metis mset_eq_imp_distinct_iff)
qed

lemma od_touch_lookup: "od_ok d \<Longrightarrow> map_of (od_touch k d) = map_of d"
  by (metis map_of_inject_set od_keys_def od_ok_def od_ok_touch od_touch_mset set_mset_mset)

lemma od_ok_trim [intro]: "od_ok d \<Longrightarrow> od_ok (od_trim n d)"
  unfolding od_ok_def od_keys_def od_trim_drop by (metis distinct_drop drop_map)

lemma length_od_trim: "length (od_trim n d) \<le> n"
  by (simp add: od_trim_drop)

lemma od_keys_trim: "set (od_keys (od_trim n d)) \<subseteq> set (od_keys d)"
  unfolding od_keys_def od_trim_drop by (metis drop_map set_drop_subset)

lemma od_trim_subset: "od_ok d \<Longrightarrow> map_of (od_trim n d) \<subseteq>\<^sub>m map_of d"
proof -
  assume ok: "od_ok d"
  have "map_of d k = Some v" if "map_of (od_trim n d) k = Some v" for k v
  proof -
    from that have "(k, v) \<in> set d" unfolding od_trim_drop by (meson in_set_dropD map_of_SomeD)
    with ok show ?thesis by (simp add: od_ok_def od_keys_def)
  qed
  then show ?thesis by (auto simp: map_le_def)
qed

text \<open>The newest entry survives trimming.\<close>

lemma od_trim_snoc: "0 < n \<Longrightarrow> \<exists>d'. od_trim n (d @ [e]) = d' @ [e]"
  by (simp add: od_trim_drop)

lemma od_trim_touch_lookup:
  assumes "od_ok d" and "map_of d k = Some v" and "0 < n"
  shows "map_of (od_trim n (od_touch k d)) k = Some v"
proof -
  have kv: "(k, v) \<in> set d" using assms(2) by (rule map_of_SomeD)
  have "distinct (map fst (filter (\<lambda>e. fst e = k) d))" using assms(1)
    by (simp add: od_ok_def od_keys_def distinct_map_filter)
  moreover have "set (map fst (filter (\<lambda>e. fst e = k) d)) = {k}" using kv by force
  ultimately have "length (filter (\<lambda>e. fst e = k) d) = 1"
    by (metis distinct_card card.empty card_insert_disjoint empty_iff finite.emptyI length_map One_nat_def)
  then obtain e where e: "filter (\<lambda>e. fst e = k) d = [e]" by (auto simp: length_Suc_conv)
  with kv have "e = (k, v)" by (metis (mono_tags, lifting) fst_conv list.set(1) list.set_intros(1) list.simps(15) mem_Collect_eq set_filter singletonD)
  with e have "od_touch k d = filter (\<lambda>e. fst e \<noteq> k) d @ [(k, v)]" by (simp add: od_touch_def)
  with od_trim_snoc [OF assms(3)] obtain d' where "od_trim n (od_touch k d) = d' @ [(k, v)]" by metis
  moreover have "od_ok (od_trim n (od_touch k d))" using assms(1) by blast
  ultimately have "map_of (d' @ [(k, v)]) k = Some v"
    unfolding od_ok_def od_keys_def by (intro map_of_is_SomeI) auto
  with \<open>od_trim n (od_touch k d) = d' @ [(k, v)]\<close> show ?thesis by simp
qed

section \<open>Counters\<close>

definition counted :: "(string, int) odict \<Rightarrow> string \<Rightarrow> int" where
  "counted c k = (case map_of c k of None \<Rightarrow> 0 | Some n \<Rightarrow> n)"

definition bump :: "string \<Rightarrow> (string, int) odict \<Rightarrow> (string, int) odict" where
  "bump k c = od_set k (counted c k + 1) c"

definition total :: "(string, int) odict \<Rightarrow> int" where
  "total c = sum_list (map snd c)"

lemma counted_bump: "counted (bump k c) j = (if j = k then counted c k + 1 else counted c j)"
  by (simp add: counted_def bump_def)

lemma total_set: "od_ok c \<Longrightarrow> total (od_set k v c) = total c - counted c k + v"
proof (induction k v c rule: od_set.induct)
  case (2 k v k' v' d)
  then show ?case
    by (auto simp: total_def counted_def od_ok_def od_keys_def split: option.splits)
qed (simp add: total_def counted_def)

lemma total_bump: "od_ok c \<Longrightarrow> total (bump k c) = total c + 1"
  by (simp add: bump_def total_set)

lemma od_ok_bump [intro]: "od_ok c \<Longrightarrow> od_ok (bump k c)"
  by (auto simp: bump_def)

section \<open>Bounded stores\<close>

text \<open>
  What the caches share: a state with a table in it, a bound on the table, and operations that keep
  both.  A whole run of operations then keeps them, whatever their order.
\<close>

locale bounded_store =
  fixes table :: "'s \<Rightarrow> ('k, 'v) odict"
    and ok :: "'s \<Rightarrow> bool"
    and limit :: "'s \<Rightarrow> nat"
    and run :: "'op \<Rightarrow> 's \<Rightarrow> 's"
  assumes keys: "ok s \<Longrightarrow> od_ok (table s)"
    and bounded: "ok s \<Longrightarrow> length (table s) \<le> limit s"
    and run_ok: "ok s \<Longrightarrow> ok (run op s)"
    and run_limit: "ok s \<Longrightarrow> limit (run op s) = limit s"
begin

lemma runs_ok: "ok s \<Longrightarrow> ok (fold run ops s)"
  by (induction ops arbitrary: s) (auto intro: run_ok)

lemma runs_limit: "ok s \<Longrightarrow> limit (fold run ops s) = limit s"
  by (induction ops arbitrary: s) (simp_all add: run_limit run_ok)

lemma runs_bounded: "ok s \<Longrightarrow> length (table (fold run ops s)) \<le> limit s"
  using bounded [OF runs_ok [of s ops]] runs_limit [of s ops] by simp

lemma runs_keys: "ok s \<Longrightarrow> distinct (map fst (table (fold run ops s)))"
  using keys [OF runs_ok [of s ops]] by (simp add: od_ok_def od_keys_def)

end

end
