(* ===== verification/Diagnostics.thy ===== *)
theory Diagnostics
  imports Ordered_Dict
begin

text \<open>
  \<open>reloc_torch/diagnostics.py\<close>: the frontend's counters.  Every operation runs under the object's
  lock, so each is one atomic step here.
\<close>

record diagnostics =
  dg_counters :: "(string, int) odict"
  dg_fallbacks :: "(string, int) odict"
  dg_exclusions :: "(string, int) odict"
  dg_redispatches :: "(string, int) odict"
  dg_dispatches :: "(string, int) odict"
  dg_staging_decisions :: "(string, int) odict"
  dg_staging_reuse :: "(string, int) odict"

definition counter_names :: "string list" where
  "counter_names = [''dynamo_compiles'', ''inductor_compiles'', ''inductor_compile_failures'',
     ''inductor_executions'', ''plan_compiles'', ''symbol_binds'', ''cache_hits'', ''runtime_executions'',
     ''typed_executions'', ''typed_payload_bytes'', ''weight_preparations'', ''weight_invalidations'']"

definition new_diagnostics :: diagnostics where
  "new_diagnostics = \<lparr>dg_counters = map (\<lambda>n. (n, 0)) counter_names, dg_fallbacks = [], dg_exclusions = [],
     dg_redispatches = [], dg_dispatches = [], dg_staging_decisions = [], dg_staging_reuse = []\<rparr>"

definition increment :: "string \<Rightarrow> int \<Rightarrow> diagnostics \<Rightarrow> diagnostics res" where
  "increment name amount d = (case map_of (dg_counters d) name of
     None \<Rightarrow> Inl (KeyErr name)
   | Some n \<Rightarrow> Inr (d\<lparr>dg_counters := od_set name (n + amount) (dg_counters d)\<rparr>))"

definition record_fallback :: "string \<Rightarrow> diagnostics \<Rightarrow> diagnostics" where
  "record_fallback reason d = d\<lparr>dg_fallbacks := bump reason (dg_fallbacks d)\<rparr>"

definition record_exclusion :: "string \<Rightarrow> diagnostics \<Rightarrow> diagnostics" where
  "record_exclusion reason d = d\<lparr>dg_exclusions := bump reason (dg_exclusions d)\<rparr>"

definition record_redispatch :: "string \<Rightarrow> diagnostics \<Rightarrow> diagnostics" where
  "record_redispatch reason d = d\<lparr>dg_redispatches := bump reason (dg_redispatches d)\<rparr>"

text \<open>A staging decision, and the two report fields \<open>record_dispatch\<close> reads.\<close>

record staging_row =
  sr_memory_kind :: string
  sr_reason :: string
  sr_reused :: bool

record dispatch_report =
  rp_payload :: "int option"
  rp_implementation :: "string option"

definition record_staging_row :: "staging_row \<Rightarrow> diagnostics \<Rightarrow> diagnostics" where
  "record_staging_row row d = d\<lparr>
     dg_staging_decisions := bump (sr_memory_kind row @ '':'' @ sr_reason row) (dg_staging_decisions d),
     dg_staging_reuse := bump (if sr_reused row then ''reused'' else ''allocated'') (dg_staging_reuse d)\<rparr>"

definition record_staging :: "staging_row list \<Rightarrow> diagnostics \<Rightarrow> diagnostics" where
  "record_staging decisions d = fold record_staging_row decisions d"

definition record_dispatch :: "dispatch_report \<Rightarrow> diagnostics \<Rightarrow> diagnostics res" where
  "record_dispatch report d =
     res_bind (increment ''typed_executions'' 1 d) (\<lambda>d.
     res_bind (increment ''typed_payload_bytes'' (case rp_payload report of None \<Rightarrow> 0 | Some n \<Rightarrow> n) d) (\<lambda>d.
       Inr (d\<lparr>dg_dispatches := bump (case rp_implementation report of None \<Rightarrow> ''None'' | Some i \<Rightarrow> i)
         (dg_dispatches d)\<rparr>)))"

text \<open>A snapshot: the scalar counters, then one entry per table.\<close>

definition diagnostics_snapshot :: "diagnostics \<Rightarrow> (string \<times> (int + (string, int) odict)) list" where
  "diagnostics_snapshot d = map (\<lambda>(n, v). (n, Inl v)) (dg_counters d) @
     [(''fallbacks'', Inr (dg_fallbacks d)), (''exclusions'', Inr (dg_exclusions d)),
      (''redispatches'', Inr (dg_redispatches d)), (''dispatches'', Inr (dg_dispatches d)),
      (''staging_decisions'', Inr (dg_staging_decisions d)), (''staging_reuse'', Inr (dg_staging_reuse d))]"

definition diagnostics_ok :: "diagnostics \<Rightarrow> bool" where
  "diagnostics_ok d \<longleftrightarrow> od_keys (dg_counters d) = counter_names \<and> od_ok (dg_fallbacks d) \<and>
     od_ok (dg_exclusions d) \<and> od_ok (dg_redispatches d) \<and> od_ok (dg_dispatches d) \<and>
     od_ok (dg_staging_decisions d) \<and> od_ok (dg_staging_reuse d)"

lemma new_diagnostics_ok: "diagnostics_ok new_diagnostics"
  by (simp add: diagnostics_ok_def new_diagnostics_def od_ok_def od_keys_def comp_def)

lemma od_keys_set_same: "k \<in> set (od_keys d) \<Longrightarrow> od_keys (od_set k v d) = od_keys d"
  by (induction k v d rule: od_set.induct) (auto simp: od_keys_def)

lemma increment_eq_Inr [res_simps]:
  "increment name amount d = Inr d' \<longleftrightarrow> (\<exists>n. map_of (dg_counters d) name = Some n \<and>
     d' = d\<lparr>dg_counters := od_set name (n + amount) (dg_counters d)\<rparr>)"
  by (auto simp: increment_def split: option.splits)

lemma lookup_in_keys: "map_of d k = Some v \<Longrightarrow> k \<in> set (od_keys d)"
  by (auto simp: od_keys_def dest: map_of_SomeD intro: rev_image_eqI)

lemma increment_ok: "diagnostics_ok d \<Longrightarrow> increment name amount d = Inr d' \<Longrightarrow> diagnostics_ok d'"
  by (auto simp: increment_eq_Inr diagnostics_ok_def)
    (metis lookup_in_keys od_keys_set_same)

lemma increment_known: "diagnostics_ok d \<Longrightarrow> name \<in> set counter_names \<Longrightarrow> \<exists>d'. increment name amount d = Inr d'"
proof -
  assume "diagnostics_ok d" "name \<in> set counter_names"
  then have "name \<in> fst ` set (dg_counters d)" by (metis diagnostics_ok_def list.set_map od_keys_def)
  then obtain n where "map_of (dg_counters d) name = Some n" by (metis map_of_eq_None_iff not_None_eq)
  then show ?thesis by (auto simp: increment_def)
qed

lemma record_ok:
  "diagnostics_ok d \<Longrightarrow> diagnostics_ok (record_fallback reason d)"
  "diagnostics_ok d \<Longrightarrow> diagnostics_ok (record_exclusion reason d)"
  "diagnostics_ok d \<Longrightarrow> diagnostics_ok (record_redispatch reason d)"
  by (auto simp: diagnostics_ok_def record_fallback_def record_exclusion_def record_redispatch_def)

lemma record_staging_row_ok: "diagnostics_ok d \<Longrightarrow> diagnostics_ok (record_staging_row row d)"
  by (auto simp: diagnostics_ok_def record_staging_row_def)

lemma record_staging_ok: "diagnostics_ok d \<Longrightarrow> diagnostics_ok (record_staging decisions d)"
  unfolding record_staging_def by (induction decisions arbitrary: d) (simp_all add: record_staging_row_ok)

text \<open>Every decision is counted once in each of the two staging tables.\<close>

lemma record_staging_total:
  "diagnostics_ok d \<Longrightarrow>
     total (dg_staging_decisions (record_staging rows d)) = total (dg_staging_decisions d) + int (length rows) \<and>
     total (dg_staging_reuse (record_staging rows d)) = total (dg_staging_reuse d) + int (length rows)"
proof (induction rows arbitrary: d)
  case (Cons row rows)
  let ?d = "record_staging_row row d"
  have "total (dg_staging_decisions ?d) = total (dg_staging_decisions d) + 1"
    "total (dg_staging_reuse ?d) = total (dg_staging_reuse d) + 1"
    using Cons.prems by (simp_all add: record_staging_row_def diagnostics_ok_def total_bump)
  with Cons.IH [OF record_staging_row_ok [OF Cons.prems, of row]] show ?case
    by (simp add: record_staging_def)
qed (simp add: record_staging_def)

end
