(* ===== verification/Artifact_Cache.thy ===== *)
theory Artifact_Cache
  imports Artifact Diagnostics
begin

text \<open>
  \<open>reloc_torch/cache.py\<close>: artifact identity, the bounded artifact cache with its single-flight
  compilation, and the registry of execution handles.  The two critical sections of
  \<open>get_or_compile\<close> are the functions \<open>probe\<close> and \<open>settle\<close>; between them a thread compiles with no
  lock held.  The step relation interleaves any number of threads.
\<close>

section \<open>Artifact identity\<close>

record compile_key =
  ak_recipe :: recipe
  ak_frontend :: string
  ak_compiler :: string
  ak_wire_version :: int
  ak_dtype :: string
  ak_layout_family :: string
  ak_direction :: string
  ak_blocking :: bool
  ak_value_transform :: string
  ak_runtime_capability :: string

definition frontend_identity :: string where "frontend_identity = ''reloc_torch/1''"
definition default_capacity :: nat where "default_capacity = 128"

text \<open>\<open>canonical_identity\<close> is the tuple of the recipe's fields, so the recipe itself here.\<close>

definition artifact_key :: "recipe \<Rightarrow> string \<Rightarrow> string \<Rightarrow> string \<Rightarrow> int option \<Rightarrow> bool \<Rightarrow> compile_key" where
  "artifact_key r compiler capability frontend wire_version blocking = \<lparr>
     ak_recipe = r, ak_frontend = frontend, ak_compiler = compiler,
     ak_wire_version = (case wire_version of Some v \<Rightarrow> v
       | None \<Rightarrow> if recipe_indexed r then 2 else if recipe_typed r then 1 else 0),
     ak_dtype = ts_dtype (r_source r), ak_layout_family = ''dense'', ak_direction = r_direction r,
     ak_blocking = blocking,
     ak_value_transform = (if recipe_indexed r then ''indexed'' else if recipe_typed r then ''typed''
       else ''layout_only''),
     ak_runtime_capability = capability\<rparr>"

section \<open>The cache\<close>

record ('k, 'a) artifact_cache =
  ac_capacity :: nat
  ac_entries :: "('k, 'a) odict"
  ac_rejections :: "('k, string \<times> string) odict"
  ac_pending :: "'k list"

definition new_cache :: "pyint \<Rightarrow> ('k, 'a) artifact_cache res" where
  "new_cache capacity = (case capacity of
     PyInt n \<Rightarrow> (if n < 1 then Inl (ValueErr ''cache capacity must be a positive integer'')
                else Inr \<lparr>ac_capacity = nat n, ac_entries = [], ac_rejections = [], ac_pending = []\<rparr>)
   | NotInt \<Rightarrow> Inl (ValueErr ''cache capacity must be a positive integer''))"

text \<open>What a caller learns under the lock.\<close>

datatype 'a probe_result = Hit 'a | Rejected string string | Claimed | Busy

definition probe :: "'k \<Rightarrow> ('k, 'a) artifact_cache \<Rightarrow> 'a probe_result \<times> ('k, 'a) artifact_cache" where
  "probe key c = (case map_of (ac_entries c) key of
     Some a \<Rightarrow> (Hit a, c\<lparr>ac_entries := od_touch key (ac_entries c)\<rparr>)
   | None \<Rightarrow> (case map_of (ac_rejections c) key of
       Some (reason, detail) \<Rightarrow>
         (Rejected reason detail, c\<lparr>ac_rejections := od_touch key (ac_rejections c)\<rparr>)
     | None \<Rightarrow> if key \<notin> set (ac_pending c) then (Claimed, c\<lparr>ac_pending := key # ac_pending c\<rparr>)
              else (Busy, c)))"

text \<open>How a compilation ends: an artifact, an explicit rejection, any other exception.\<close>

datatype 'a outcome = Compiled 'a | Declined string string | Failed exn

definition outcome_of :: "'a res \<Rightarrow> 'a outcome" where
  "outcome_of r = (case r of
     Inr a \<Rightarrow> Compiled a
   | Inl (UnsupportedRecipe reason detail) \<Rightarrow> Declined reason detail
   | Inl e \<Rightarrow> Failed e)"

definition settle :: "'k \<Rightarrow> 'a outcome \<Rightarrow> ('k, 'a) artifact_cache \<Rightarrow> ('k, 'a) artifact_cache" where
  "settle key result c = (let c = c\<lparr>ac_pending := removeAll key (ac_pending c)\<rparr> in (case result of
     Compiled a \<Rightarrow> c\<lparr>ac_entries := od_trim (ac_capacity c) (od_touch key (od_set key a (ac_entries c)))\<rparr>
   | Declined reason detail \<Rightarrow>
       c\<lparr>ac_rejections := od_trim (ac_capacity c) (od_set key (reason, detail) (ac_rejections c))\<rparr>
   | Failed e \<Rightarrow> c))"

text \<open>
  A whole call, with no other thread in between: what the caller gets, and whether it compiled.
  A busy key makes the caller wait; alone it would wait forever (\<open>None\<close>).
\<close>

definition get_or_compile ::
  "'k \<Rightarrow> 'a res \<Rightarrow> ('k, 'a) artifact_cache \<Rightarrow> diagnostics \<Rightarrow>
     ('a res \<times> ('k, 'a) artifact_cache \<times> diagnostics res) option" where
  "get_or_compile key compile c d = (case probe key c of
     (Hit a, c) \<Rightarrow> Some (Inr a, c, increment ''cache_hits'' 1 d)
   | (Rejected reason detail, c) \<Rightarrow>
       Some (Inl (UnsupportedRecipe reason detail), c, increment ''cache_hits'' 1 d)
   | (Claimed, c) \<Rightarrow> Some (compile, settle key (outcome_of compile) c, increment ''plan_compiles'' 1 d)
   | (Busy, c) \<Rightarrow> None)"

section \<open>Invariant\<close>

definition cache_ok :: "('k, 'a) artifact_cache \<Rightarrow> bool" where
  "cache_ok c \<longleftrightarrow> 0 < ac_capacity c \<and> od_ok (ac_entries c) \<and> od_ok (ac_rejections c) \<and>
     distinct (ac_pending c) \<and>
     length (ac_entries c) \<le> ac_capacity c \<and> length (ac_rejections c) \<le> ac_capacity c \<and>
     set (od_keys (ac_entries c)) \<inter> set (od_keys (ac_rejections c)) = {} \<and>
     set (od_keys (ac_entries c)) \<inter> set (ac_pending c) = {} \<and>
     set (od_keys (ac_rejections c)) \<inter> set (ac_pending c) = {}"

lemma cache_okD:
  assumes "cache_ok c"
  shows "0 < ac_capacity c" "od_ok (ac_entries c)" "od_ok (ac_rejections c)" "distinct (ac_pending c)"
    "length (ac_entries c) \<le> ac_capacity c" "length (ac_rejections c) \<le> ac_capacity c"
    "set (od_keys (ac_entries c)) \<inter> set (od_keys (ac_rejections c)) = {}"
    "set (od_keys (ac_entries c)) \<inter> set (ac_pending c) = {}"
    "set (od_keys (ac_rejections c)) \<inter> set (ac_pending c) = {}"
  using assms by (auto simp: cache_ok_def)

lemma new_cache_ok: "new_cache n = Inr c \<Longrightarrow> cache_ok c"
  by (auto simp: new_cache_def cache_ok_def od_ok_def od_keys_def split: pyint.splits if_splits)

lemma lookup_none_keys: "map_of d k = None \<longleftrightarrow> k \<notin> set (od_keys d)"
  by (simp add: od_keys_def map_of_eq_None_iff)

lemma probe_ok: "cache_ok c \<Longrightarrow> probe key c = (p, c') \<Longrightarrow> cache_ok c'"
  by (auto simp: probe_def cache_ok_def od_keys_touch lookup_none_keys split: option.splits if_splits prod.splits)

lemma probe_pending:
  "probe key c = (p, c') \<Longrightarrow> ac_pending c' = (if p = Claimed then key # ac_pending c else ac_pending c)"
  by (auto simp: probe_def split: option.splits if_splits prod.splits)

lemma probe_capacity: "probe key c = (p, c') \<Longrightarrow> ac_capacity c' = ac_capacity c"
  by (auto simp: probe_def split: option.splits if_splits prod.splits)

lemma probe_claimed:
  "probe key c = (Claimed, c') \<Longrightarrow>
     key \<notin> set (ac_pending c) \<and> map_of (ac_entries c) key = None \<and> map_of (ac_rejections c) key = None"
  by (auto simp: probe_def split: option.splits if_splits prod.splits)

lemma settle_capacity [simp]: "ac_capacity (settle key result c) = ac_capacity c"
  by (cases result) (simp_all add: settle_def Let_def)

lemma settle_pending [simp]: "ac_pending (settle key result c) = removeAll key (ac_pending c)"
  by (cases result) (simp_all add: settle_def Let_def)

lemma settle_ok:
  assumes ok: "cache_ok c" and key: "key \<in> set (ac_pending c)"
  shows "cache_ok (settle key result c)"
proof -
  note D = cache_okD [OF ok]
  have fresh: "key \<notin> set (od_keys (ac_entries c))" "key \<notin> set (od_keys (ac_rejections c))"
    using D(8,9) key by auto
  show ?thesis
  proof (cases result)
    case (Compiled a)
    let ?d = "od_touch key (od_set key a (ac_entries c))"
    have sub: "set (od_keys (od_trim (ac_capacity c) ?d)) \<subseteq> insert key (set (od_keys (ac_entries c)))"
      using od_keys_trim [of "ac_capacity c" ?d] by (simp add: od_keys_touch od_keys_set)
    have "od_ok (od_trim (ac_capacity c) ?d)" using D(2) by blast
    with Compiled D fresh sub length_od_trim [of "ac_capacity c" ?d] show ?thesis
      by (auto simp: settle_def Let_def cache_ok_def distinct_removeAll)
  next
    case (Declined reason detail)
    let ?d = "od_set key (reason, detail) (ac_rejections c)"
    have sub: "set (od_keys (od_trim (ac_capacity c) ?d)) \<subseteq> insert key (set (od_keys (ac_rejections c)))"
      using od_keys_trim [of "ac_capacity c" ?d] by (simp add: od_keys_set)
    have "od_ok (od_trim (ac_capacity c) ?d)" using D(3) by blast
    with Declined D fresh sub length_od_trim [of "ac_capacity c" ?d] show ?thesis
      by (auto simp: settle_def Let_def cache_ok_def distinct_removeAll)
  next
    case (Failed e)
    with D show ?thesis by (auto simp: settle_def Let_def cache_ok_def distinct_removeAll)
  qed
qed

text \<open>What a compilation stored is there for the next caller.\<close>

lemma settle_compiled_lookup:
  assumes "cache_ok c"
  shows "map_of (ac_entries (settle key (Compiled a) c)) key = Some a"
proof -
  note D = cache_okD [OF assms]
  have "od_ok (od_set key a (ac_entries c))" using D(2) by blast
  from od_trim_touch_lookup [OF this _ D(1), of key a] show ?thesis by (simp add: settle_def Let_def)
qed

lemma settle_declined_lookup:
  assumes "cache_ok c" and "key \<in> set (ac_pending c)"
  shows "map_of (ac_rejections (settle key (Declined reason detail) c)) key = Some (reason, detail)"
    and "map_of (ac_entries (settle key (Declined reason detail) c)) key = None"
proof -
  note D = cache_okD [OF assms(1)]
  have new: "od_set key (reason, detail) (ac_rejections c) = ac_rejections c @ [(key, (reason, detail))]"
    using D(9) assms(2) by (intro od_set_new) auto
  obtain d' where t: "od_trim (ac_capacity c) (ac_rejections c @ [(key, (reason, detail))]) = d' @ [(key, (reason, detail))]"
    using od_trim_snoc [OF D(1)] by blast
  have "od_ok (od_trim (ac_capacity c) (od_set key (reason, detail) (ac_rejections c)))" using D(3) by blast
  then have "map_of (d' @ [(key, (reason, detail))]) key = Some (reason, detail)"
    unfolding new t od_ok_def od_keys_def by (intro map_of_is_SomeI) auto
  then show "map_of (ac_rejections (settle key (Declined reason detail) c)) key = Some (reason, detail)"
    by (simp add: settle_def Let_def new t)
  show "map_of (ac_entries (settle key (Declined reason detail) c)) key = None"
    using D(8) assms(2) by (auto simp: settle_def Let_def lookup_none_keys)
qed

section \<open>Threads\<close>

text \<open>
  A thread asks for a key, may have to wait, may compile it, and ends with an answer.  \<open>Waiting\<close>
  covers both a fresh caller and one woken by \<open>notify_all\<close>: either way it probes again.
\<close>

datatype ('k, 'a) thread = Idle | Waiting 'k | Compiling 'k | Answered 'k "'a res"

type_synonym ('t, 'k, 'a) cache_world = "('k, 'a) artifact_cache \<times> ('t \<Rightarrow> ('k, 'a) thread)"

inductive cache_step :: "('t, 'k, 'a) cache_world \<Rightarrow> ('t, 'k, 'a) cache_world \<Rightarrow> bool" where
  ask: "th t = Idle \<or> th t = Answered k r \<Longrightarrow> cache_step (c, th) (c, th(t := Waiting key))"
| hit: "th t = Waiting key \<Longrightarrow> probe key c = (Hit a, c') \<Longrightarrow>
    cache_step (c, th) (c', th(t := Answered key (Inr a)))"
| rejected: "th t = Waiting key \<Longrightarrow> probe key c = (Rejected reason detail, c') \<Longrightarrow>
    cache_step (c, th) (c', th(t := Answered key (Inl (UnsupportedRecipe reason detail))))"
| claim: "th t = Waiting key \<Longrightarrow> probe key c = (Claimed, c') \<Longrightarrow>
    cache_step (c, th) (c', th(t := Compiling key))"
| wait: "th t = Waiting key \<Longrightarrow> probe key c = (Busy, c') \<Longrightarrow> cache_step (c, th) (c', th)"
| finish: "th t = Compiling key \<Longrightarrow>
    cache_step (c, th) (settle key (outcome_of r) c, th(t := Answered key r))"

inductive_cases cache_stepE: "cache_step w w'"

text \<open>A key is pending exactly when one thread compiles it, and never more than one does.\<close>

definition cache_world_ok :: "('t, 'k, 'a) cache_world \<Rightarrow> bool" where
  "cache_world_ok w \<longleftrightarrow> cache_ok (fst w) \<and>
     (\<forall>key. key \<in> set (ac_pending (fst w)) \<longleftrightarrow> (\<exists>t. snd w t = Compiling key)) \<and>
     (\<forall>t u key. snd w t = Compiling key \<longrightarrow> snd w u = Compiling key \<longrightarrow> t = u)"

lemma cache_world_quiet:
  assumes "cache_world_ok (c, th)" and "cache_ok c'" and "ac_pending c' = ac_pending c"
    and "\<forall>k. th t \<noteq> Compiling k" and "\<forall>k. s \<noteq> Compiling k"
  shows "cache_world_ok (c', th(t := s))"
  using assms unfolding cache_world_ok_def fst_conv snd_conv fun_upd_apply by metis

lemma cache_step_ok:
  assumes "cache_step w w'" and "cache_world_ok w"
  shows "cache_world_ok w'"
  using assms
proof (induction rule: cache_step.induct)
  case (ask th t k r c key)
  then show ?case by (intro cache_world_quiet [OF ask(2)]) (auto simp: cache_world_ok_def)
next
  case (hit th t key c a c')
  then show ?case
    by (intro cache_world_quiet [OF hit(3)]) (auto simp: cache_world_ok_def probe_pending intro: probe_ok)
next
  case (rejected th t key c reason detail c')
  then show ?case
    by (intro cache_world_quiet [OF rejected(3)]) (auto simp: cache_world_ok_def probe_pending intro: probe_ok)
next
  case (claim th t key c c')
  have p: "ac_pending c' = key # ac_pending c" using probe_pending [OF claim(2)] by simp
  have n: "key \<notin> set (ac_pending c)" using probe_claimed [OF claim(2)] by blast
  have ok: "cache_ok c'" using claim(2,3) by (auto simp: cache_world_ok_def intro: probe_ok)
  from claim(3) n have none: "\<forall>u. th u \<noteq> Compiling key" by (auto simp: cache_world_ok_def)
  from claim(3) have old: "\<forall>k. k \<in> set (ac_pending c) \<longleftrightarrow> (\<exists>t. th t = Compiling k)"
    "\<forall>t u k. th t = Compiling k \<longrightarrow> th u = Compiling k \<longrightarrow> t = u" by (auto simp: cache_world_ok_def)
  have other: "th u = Compiling k \<Longrightarrow> u \<noteq> t" for u k using claim(1) by auto
  from ok none old other show ?case unfolding cache_world_ok_def fst_conv snd_conv p by auto metis
next
  case (wait th t key c c')
  then have "cache_world_ok (c', th(t := Waiting key))"
    by (intro cache_world_quiet [OF wait(3)]) (auto simp: cache_world_ok_def probe_pending intro: probe_ok)
  with wait(1) show ?case by (metis fun_upd_triv)
next
  case (finish th t key c r)
  from finish have k: "key \<in> set (ac_pending c)" and ok: "cache_ok c" by (auto simp: cache_world_ok_def)
  from finish(2) have old: "\<forall>k. k \<in> set (ac_pending c) \<longleftrightarrow> (\<exists>t. th t = Compiling k)"
    "\<forall>t u k. th t = Compiling k \<longrightarrow> th u = Compiling k \<longrightarrow> t = u" by (auto simp: cache_world_ok_def)
  have other: "th u = Compiling k \<Longrightarrow> k \<noteq> key \<Longrightarrow> u \<noteq> t" for u k using finish(1) by auto
  from settle_ok [OF ok k] old finish(1) other show ?case
    unfolding cache_world_ok_def fst_conv snd_conv settle_pending by auto metis
qed

lemma cache_steps_ok: "cache_step\<^sup>*\<^sup>* w w' \<Longrightarrow> cache_world_ok w \<Longrightarrow> cache_world_ok w'"
  by (induction rule: rtranclp_induct) (auto intro: cache_step_ok)

lemma start_ok: "cache_ok c \<Longrightarrow> ac_pending c = [] \<Longrightarrow> cache_world_ok (c, \<lambda>_. Idle)"
  by (simp add: cache_world_ok_def)

text \<open>Nobody waits for nothing: a busy key has a thread compiling it, whose end wakes the waiters.\<close>

lemma busy_has_compiler:
  "cache_world_ok (c, th) \<Longrightarrow> probe key c = (Busy, c') \<Longrightarrow> \<exists>u. th u = Compiling key"
  by (auto simp: cache_world_ok_def probe_def split: option.splits if_splits prod.splits)

section \<open>The bounded-store interface\<close>

text \<open>Whole calls, one after the other, as operations on the cache.\<close>

definition cache_run :: "'k \<times> 'a res \<Rightarrow> ('k, 'a) artifact_cache \<Rightarrow> ('k, 'a) artifact_cache" where
  "cache_run op c = (case get_or_compile (fst op) (snd op) c new_diagnostics of
     None \<Rightarrow> c | Some (_, c', _) \<Rightarrow> c')"

lemma get_or_compile_ok:
  assumes "cache_ok c" and "get_or_compile key compile c d = Some (r, c', d')"
  shows "cache_ok c'" and "ac_capacity c' = ac_capacity c"
proof -
  obtain p cp where p: "probe key c = (p, cp)" by fastforce
  have ok: "cache_ok cp" and cap: "ac_capacity cp = ac_capacity c"
    using probe_ok [OF assms(1) p] probe_capacity [OF p] by auto
  have "cache_ok c' \<and> ac_capacity c' = ac_capacity c"
  proof (cases p)
    case Claimed
    with p have "key \<in> set (ac_pending cp)" using probe_pending [OF p] by simp
    with assms(2) p Claimed settle_ok [OF ok] cap show ?thesis by (auto simp: get_or_compile_def)
  qed (use assms(2) p ok cap in \<open>auto simp: get_or_compile_def\<close>)
  then show "cache_ok c'" and "ac_capacity c' = ac_capacity c" by auto
qed

interpretation artifact_entries:
  bounded_store ac_entries cache_ok ac_capacity cache_run
proof unfold_locales
  fix s :: "('a, 'b) artifact_cache" and op
  assume ok: "cache_ok s"
  show "cache_ok (cache_run op s)" "ac_capacity (cache_run op s) = ac_capacity s"
    using get_or_compile_ok [OF ok] ok by (auto simp: cache_run_def split: option.splits)
qed (auto dest: cache_okD)

section \<open>Execution handles\<close>

text \<open>
  \<open>Registration\<close> and \<open>HandleRegistry\<close>.  \<open>'e\<close> is the entry with its \<open>handle\<close> and \<open>closed\<close>
  attributes outside; the random part of a handle is an argument.
\<close>

record 'e registry =
  rg_next :: nat
  rg_entries :: "(string, 'e) odict"

record registration =
  rn_handle :: string
  rn_live :: bool

definition handle_text :: "nat \<Rightarrow> string \<Rightarrow> string" where
  "handle_text n token = ''reloc-'' @ py_str (int n) @ CHR ''-'' # token"

definition new_registry :: "'e registry" where
  "new_registry = \<lparr>rg_next = 1, rg_entries = []\<rparr>"

definition register :: "string \<Rightarrow> 'e \<Rightarrow> 'e registry \<Rightarrow> registration \<times> 'e registry" where
  "register token entry g = (let handle = handle_text (rg_next g) token in
     (\<lparr>rn_handle = handle, rn_live = True\<rparr>,
      g\<lparr>rg_next := Suc (rg_next g), rg_entries := od_set handle entry (rg_entries g)\<rparr>))"

definition lookup_handle :: "('e \<Rightarrow> bool) \<Rightarrow> string \<Rightarrow> 'e registry \<Rightarrow> 'e res" where
  "lookup_handle closed handle g = (case map_of (rg_entries g) handle of
     None \<Rightarrow> Inl (RuntimeErr (msg [''unknown or closed reloc_torch execution handle '', handle]))
   | Some e \<Rightarrow> if closed e
       then Inl (RuntimeErr (msg [''unknown or closed reloc_torch execution handle '', handle]))
       else Inr e)"

definition release_registration ::
  "registration \<Rightarrow> 'e registry \<Rightarrow> registration \<times> 'e registry" where
  "release_registration rn g = (if rn_live rn
     then (rn\<lparr>rn_live := False\<rparr>, g\<lparr>rg_entries := od_del (rn_handle rn) (rg_entries g)\<rparr>)
     else (rn, g))"

text \<open>Every handle in use carries a number already drawn from the counter.\<close>

definition registry_ok :: "'e registry \<Rightarrow> bool" where
  "registry_ok g \<longleftrightarrow> od_ok (rg_entries g) \<and>
     (\<forall>h\<in>set (od_keys (rg_entries g)). \<exists>n<rg_next g. \<exists>token. h = handle_text n token)"

lemma nat_text_chars: "\<forall>c\<in>set (py_str (int n)). is_digit c"
  using nat_digits_digit by (simp add: py_str_def)

lemma handle_text_inj:
  assumes "handle_text m s = handle_text n t"
  shows "m = n"
proof -
  have "\<not> is_digit (CHR ''-'')" by (simp add: is_digit_def)
  from assms have "py_str (int m) @ CHR ''-'' # s = py_str (int n) @ CHR ''-'' # t"
    by (simp add: handle_text_def)
  from append_sep_inj [OF this nat_text_chars nat_text_chars \<open>\<not> is_digit _\<close> \<open>\<not> is_digit _\<close>]
  show ?thesis by (auto dest: py_str_inj)
qed

lemma new_registry_ok: "registry_ok new_registry"
  by (simp add: registry_ok_def new_registry_def od_ok_def od_keys_def)

lemma register_fresh:
  assumes "registry_ok g" and "register token e g = (rn, g')"
  shows "rn_handle rn \<notin> set (od_keys (rg_entries g))"
  using assms handle_text_inj by (fastforce simp: registry_ok_def register_def Let_def)

lemma register_ok:
  assumes "registry_ok g" and "register token e g = (rn, g')"
  shows "registry_ok g'"
proof -
  from assms(2) have g': "g' = g\<lparr>rg_next := Suc (rg_next g),
      rg_entries := od_set (handle_text (rg_next g) token) e (rg_entries g)\<rparr>"
    by (auto simp: register_def Let_def)
  have "\<exists>n<Suc (rg_next g). \<exists>token. h = handle_text n token"
    if h: "h \<in> insert (handle_text (rg_next g) token) (set (od_keys (rg_entries g)))" for h
  proof (cases "h = handle_text (rg_next g) token")
    case False
    with h assms(1) obtain n s where "n < rg_next g" "h = handle_text n s" by (auto simp: registry_ok_def)
    then show ?thesis by (intro exI [of _ n]) auto
  qed auto
  with assms(1) show ?thesis by (auto simp: registry_ok_def g' od_keys_set)
qed

lemma release_ok:
  "registry_ok g \<Longrightarrow> release_registration rn g = (rn', g') \<Longrightarrow> registry_ok g'"
  by (auto simp: registry_ok_def release_registration_def od_keys_del split: if_splits)

lemma release_idempotent:
  assumes "release_registration rn g = (rn1, g1)"
  shows "release_registration rn1 g1 = (rn1, g1)"
  using assms by (auto simp: release_registration_def split: if_splits)

end
