(* ===== verification/Templates.thy ===== *)
theory Templates
  imports Ordered_Dict
begin

text \<open>
  \<open>reloc_torch/execution_templates.py\<close>: the per-artifact cache of native metadata, least recently
  used first out, bounded by entries and by the bytes of copied parameters.  Each operation first
  compares the process id and starts over in a forked process.
\<close>

record ('k, 'v) templates =
  tc_max_entries :: int
  tc_max_bytes :: int
  tc_items :: "('k, 'v \<times> int) odict"
  tc_bytes :: int
  tc_hits :: nat
  tc_misses :: nat
  tc_evictions :: nat
  tc_bypasses :: nat
  tc_pid :: int

definition tc_reset :: "int \<Rightarrow> ('k, 'v) templates \<Rightarrow> ('k, 'v) templates" where
  "tc_reset pid t = t\<lparr>tc_items := [], tc_bytes := 0, tc_hits := 0, tc_misses := 0, tc_evictions := 0,
     tc_bypasses := 0, tc_pid := pid\<rparr>"

definition new_templates :: "int \<Rightarrow> int \<Rightarrow> int \<Rightarrow> ('k, 'v) templates" where
  "new_templates pid max_entries max_bytes = \<lparr>tc_max_entries = max_entries, tc_max_bytes = max_bytes,
     tc_items = [], tc_bytes = 0, tc_hits = 0, tc_misses = 0, tc_evictions = 0, tc_bypasses = 0, tc_pid = pid\<rparr>"

definition tc_process :: "int \<Rightarrow> ('k, 'v) templates \<Rightarrow> ('k, 'v) templates" where
  "tc_process pid t = (if tc_pid t \<noteq> pid then tc_reset pid t else t)"

definition tc_bypass :: "int \<Rightarrow> ('k, 'v) templates \<Rightarrow> bool" where
  "tc_bypass parameter_bytes t \<longleftrightarrow> tc_max_entries t = 0 \<or> parameter_bytes > tc_max_bytes t"

definition tc_get :: "int \<Rightarrow> 'k \<Rightarrow> int \<Rightarrow> ('k, 'v) templates \<Rightarrow> 'v option \<times> ('k, 'v) templates" where
  "tc_get pid key parameter_bytes t0 = (let t = tc_process pid t0 in
     if tc_bypass parameter_bytes t then (None, t\<lparr>tc_bypasses := Suc (tc_bypasses t)\<rparr>)
     else (case map_of (tc_items t) key of
         None \<Rightarrow> (None, t\<lparr>tc_misses := Suc (tc_misses t)\<rparr>)
       | Some (v, _) \<Rightarrow> (Some v, t\<lparr>tc_hits := Suc (tc_hits t), tc_items := od_touch key (tc_items t)\<rparr>)))"

text \<open>The eviction loop; popping from an empty dictionary raises \<open>KeyError\<close>.\<close>

fun tc_evict :: "int \<Rightarrow> int \<Rightarrow> int \<Rightarrow> ('k, 'v \<times> int) odict \<Rightarrow> int \<Rightarrow> nat \<Rightarrow>
    (('k, 'v \<times> int) odict \<times> int \<times> nat) res" where
  "tc_evict max_entries max_bytes incoming items bytes evictions =
     (if int (length items) \<ge> max_entries \<or> bytes + incoming > max_bytes
      then (case items of
          [] \<Rightarrow> Inl (KeyErr ''dictionary is empty'')
        | (_, _, charge) # rest \<Rightarrow> tc_evict max_entries max_bytes incoming rest (bytes - charge) (Suc evictions))
      else Inr (items, bytes, evictions))"

declare tc_evict.simps [simp del]

definition tc_put :: "int \<Rightarrow> 'k \<Rightarrow> 'v \<Rightarrow> int \<Rightarrow> ('k, 'v) templates \<Rightarrow> ('v \<times> ('k, 'v) templates) res" where
  "tc_put pid key v parameter_bytes t0 = (let t = tc_process pid t0 in
     if tc_bypass parameter_bytes t then Inr (v, t)
     else (case map_of (tc_items t) key of
         Some (old, _) \<Rightarrow> Inr (old, t\<lparr>tc_items := od_touch key (tc_items t)\<rparr>)
       | None \<Rightarrow>
           res_bind (tc_evict (tc_max_entries t) (tc_max_bytes t) parameter_bytes (tc_items t) (tc_bytes t)
             (tc_evictions t)) (\<lambda>(items, bytes, evictions).
             Inr (v, t\<lparr>tc_items := od_set key (v, parameter_bytes) items, tc_bytes := bytes + parameter_bytes,
               tc_evictions := evictions\<rparr>))))"

definition tc_clear :: "int \<Rightarrow> ('k, 'v) templates \<Rightarrow> ('k, 'v) templates" where
  "tc_clear pid t0 = (let t = tc_process pid t0 in t\<lparr>tc_items := [], tc_bytes := 0\<rparr>)"

definition tc_info :: "int \<Rightarrow> ('k, 'v) templates \<Rightarrow> (string \<times> int) list" where
  "tc_info pid t0 = (let t = tc_process pid t0 in
     [(''entries'', int (length (tc_items t))), (''parameter_key_bytes'', tc_bytes t),
      (''max_entries'', tc_max_entries t), (''max_parameter_key_bytes'', tc_max_bytes t),
      (''hits'', int (tc_hits t)), (''misses'', int (tc_misses t)), (''evictions'', int (tc_evictions t)),
      (''bypasses'', int (tc_bypasses t))])"

section \<open>Invariant\<close>

definition charges :: "('k, 'v \<times> int) odict \<Rightarrow> int" where
  "charges items = sum_list (map (\<lambda>e. snd (snd e)) items)"

definition templates_ok :: "('k, 'v) templates \<Rightarrow> bool" where
  "templates_ok t \<longleftrightarrow> 0 \<le> tc_max_entries t \<and> 0 \<le> tc_max_bytes t \<and> od_ok (tc_items t) \<and>
     int (length (tc_items t)) \<le> tc_max_entries t \<and>
     (\<forall>e\<in>set (tc_items t). 0 \<le> snd (snd e)) \<and> tc_bytes t = charges (tc_items t) \<and> tc_bytes t \<le> tc_max_bytes t"

lemma templates_okD:
  assumes "templates_ok t"
  shows "0 \<le> tc_max_entries t" "0 \<le> tc_max_bytes t" "od_ok (tc_items t)"
    "int (length (tc_items t)) \<le> tc_max_entries t" "\<forall>e\<in>set (tc_items t). 0 \<le> snd (snd e)"
    "tc_bytes t = charges (tc_items t)" "tc_bytes t \<le> tc_max_bytes t"
  using assms by (auto simp: templates_ok_def)

lemma new_templates_ok: "0 \<le> n \<Longrightarrow> 0 \<le> m \<Longrightarrow> templates_ok (new_templates pid n m)"
  by (simp add: templates_ok_def new_templates_def od_ok_def od_keys_def charges_def)

lemma process_ok: "templates_ok t \<Longrightarrow> templates_ok (tc_process pid t)"
  by (auto simp: templates_ok_def tc_process_def tc_reset_def od_ok_def od_keys_def charges_def)

lemma process_limits [simp]:
  "tc_max_entries (tc_process pid t) = tc_max_entries t" "tc_max_bytes (tc_process pid t) = tc_max_bytes t"
  by (simp_all add: tc_process_def tc_reset_def)

lemma process_pid [simp]: "tc_pid (tc_process pid t) = pid"
  by (simp add: tc_process_def tc_reset_def)

lemma process_same: "tc_pid t = pid \<Longrightarrow> tc_process pid t = t"
  by (simp add: tc_process_def)

lemma charges_touch [simp]: "charges (od_touch k items) = charges items"
proof -
  have "mset (map (\<lambda>e. snd (snd e)) (od_touch k items)) = mset (map (\<lambda>e. snd (snd e)) items)"
    by (simp only: mset_map od_touch_mset)
  then show ?thesis unfolding charges_def by (metis sum_mset_sum_list)
qed

lemma touch_members: "set (od_touch k items) = set items"
  by (auto simp: od_touch_def)

lemma touch_ok: "templates_ok t \<Longrightarrow> templates_ok (t\<lparr>tc_items := od_touch k (tc_items t)\<rparr>)"
  by (auto simp: templates_ok_def touch_members)

lemma get_ok: "templates_ok t \<Longrightarrow> tc_get pid key n t = (r, t') \<Longrightarrow> templates_ok t'"
  using process_ok [of t pid]
  by (auto simp: tc_get_def Let_def templates_ok_def touch_members split: if_splits option.splits)

text \<open>
  The loop ends with room for one more entry and its bytes, having dropped only the oldest entries;
  while the incoming bytes fit at all it never pops an empty dictionary.
\<close>

lemma evict_returns:
  assumes "0 < max_entries" and "incoming \<le> max_bytes" and "bytes = charges items"
  shows "\<exists>rest. tc_evict max_entries max_bytes incoming items bytes ev =
      Inr (rest, charges rest, ev + (length items - length rest)) \<and>
    (\<exists>dropped. items = dropped @ rest) \<and> int (length rest) < max_entries \<and>
    charges rest + incoming \<le> max_bytes"
  using assms
proof (induction items arbitrary: bytes ev)
  case Nil
  then show ?case by (subst tc_evict.simps) (simp add: charges_def)
next
  case (Cons e items)
  obtain k v charge where e: "e = (k, v, charge)" by (cases e) auto
  show ?case
  proof (cases "int (length (e # items)) \<ge> max_entries \<or> bytes + incoming > max_bytes")
    case True
    have "bytes - charge = charges items" using Cons.prems(3) by (simp add: charges_def e)
    from Cons.IH [OF Cons.prems(1,2) this, of "Suc ev"] obtain rest dropped where
      r: "tc_evict max_entries max_bytes incoming items (bytes - charge) (Suc ev) =
        Inr (rest, charges rest, Suc ev + (length items - length rest))"
      and d: "items = dropped @ rest" and b: "int (length rest) < max_entries" "charges rest + incoming \<le> max_bytes"
      by blast
    have "tc_evict max_entries max_bytes incoming (e # items) bytes ev =
        Inr (rest, charges rest, ev + (length (e # items) - length rest))"
      using True r d by (subst tc_evict.simps) (simp add: e)
    with d b show ?thesis by (metis append_Cons)
  next
    case False
    with Cons.prems(3) show ?thesis by (subst tc_evict.simps) auto
  qed
qed

lemma put_ok:
  assumes ok: "templates_ok t0" and n: "0 \<le> n"
  obtains r t' where "tc_put pid key v n t0 = Inr (r, t')" and "templates_ok t'"
    and "tc_max_entries t' = tc_max_entries t0" "tc_max_bytes t' = tc_max_bytes t0"
proof -
  define t where "t = tc_process pid t0"
  have t: "templates_ok t" using process_ok [OF ok] by (simp add: t_def)
  note D = templates_okD [OF t]
  have lim: "tc_max_entries t = tc_max_entries t0" "tc_max_bytes t = tc_max_bytes t0" by (simp_all add: t_def)
  show thesis
  proof (cases "tc_bypass n t")
    case True
    with t lim show thesis by (intro that [of v t]) (simp_all add: tc_put_def t_def)
  next
    case False
    show thesis
    proof (cases "map_of (tc_items t) key")
      case (Some e)
      with False t lim touch_ok [OF t, of key] show thesis
        by (intro that [of "fst e" "t\<lparr>tc_items := od_touch key (tc_items t)\<rparr>"])
          (simp_all add: tc_put_def t_def Let_def split: prod.splits)
    next
      case None
      from False D(1) have pos: "0 < tc_max_entries t" "n \<le> tc_max_bytes t" by (auto simp: tc_bypass_def)
      from evict_returns [OF pos D(6)] obtain rest dropped where
        ev: "tc_evict (tc_max_entries t) (tc_max_bytes t) n (tc_items t) (tc_bytes t) (tc_evictions t) =
          Inr (rest, charges rest, tc_evictions t + (length (tc_items t) - length rest))"
        and d: "tc_items t = dropped @ rest" and b: "int (length rest) < tc_max_entries t"
          "charges rest + n \<le> tc_max_bytes t" by blast
      let ?t = "t\<lparr>tc_items := od_set key (v, n) rest, tc_bytes := charges rest + n,
        tc_evictions := tc_evictions t + (length (tc_items t) - length rest)\<rparr>"
      have "key \<notin> set (od_keys rest)" using None d by (auto simp: od_keys_def map_of_eq_None_iff)
      then have new: "od_set key (v, n) rest = rest @ [(key, v, n)]" by (rule od_set_new)
      have "od_ok (od_set key (v, n) rest)" using D(3) d by (intro od_ok_set) (auto simp: od_ok_def od_keys_def)
      then have "templates_ok ?t"
        unfolding new using D n b d by (auto simp: templates_ok_def charges_def)
      with False None ev lim show thesis
        by (intro that [of v ?t]) (simp_all add: tc_put_def t_def Let_def)
    qed
  qed
qed

lemma clear_ok: "templates_ok t \<Longrightarrow> templates_ok (tc_clear pid t)"
  using process_ok [of t pid]
  by (auto simp: tc_clear_def Let_def templates_ok_def od_ok_def od_keys_def charges_def)

text \<open>What was put is what the next lookup in the same process returns.\<close>

lemma put_get:
  assumes ok: "templates_ok t0" and n: "0 \<le> n" and fits: "\<not> tc_bypass n t0"
    and put: "tc_put pid key v n t0 = Inr (r, t')"
  shows "fst (tc_get pid key n t') = Some r"
proof -
  define t where "t = tc_process pid t0"
  have t: "templates_ok t" using process_ok [OF ok] by (simp add: t_def)
  note D = templates_okD [OF t]
  have fits': "\<not> tc_bypass n t" using fits by (simp add: t_def tc_bypass_def)
  have pid: "tc_pid t = pid" by (simp add: t_def)
  show ?thesis
  proof (cases "map_of (tc_items t) key")
    case (Some e)
    with put fits' have r: "r = fst e" and t': "t' = t\<lparr>tc_items := od_touch key (tc_items t)\<rparr>"
      by (auto simp: tc_put_def Let_def t_def [symmetric] split: prod.splits)
    from fits' t' have "\<not> tc_bypass n t'" by (simp add: tc_bypass_def)
    with r t' pid Some od_touch_lookup [OF D(3), of key] show ?thesis
      by (auto simp: tc_get_def Let_def process_same split: option.splits prod.splits)
  next
    case None
    with put fits' obtain items b ev where r: "r = v"
      and t': "t' = t\<lparr>tc_items := od_set key (v, n) items, tc_bytes := b + n, tc_evictions := ev\<rparr>"
      by (auto simp: tc_put_def Let_def t_def [symmetric])
    from fits' t' have "\<not> tc_bypass n t'" by (simp add: tc_bypass_def)
    with r t' pid show ?thesis by (auto simp: tc_get_def Let_def process_same split: option.splits)
  qed
qed

section \<open>Memoisation\<close>

text \<open>Every stored value stands in the relation \<open>P\<close> to its key: what a memo table must keep.\<close>

definition memo_ok :: "('k \<Rightarrow> 'v \<Rightarrow> bool) \<Rightarrow> ('k, 'v) templates \<Rightarrow> bool" where
  "memo_ok P t \<longleftrightarrow> (\<forall>(k, v, _)\<in>set (tc_items t). P k v)"

lemma memo_process: "memo_ok P t \<Longrightarrow> memo_ok P (tc_process pid t)"
  by (simp add: memo_ok_def tc_process_def tc_reset_def)

lemma memo_new: "memo_ok P (new_templates pid n m)"
  by (simp add: memo_ok_def new_templates_def)

lemma memo_lookup: "memo_ok P t \<Longrightarrow> map_of (tc_items t) k = Some (v, n) \<Longrightarrow> P k v"
  by (auto simp: memo_ok_def dest: map_of_SomeD)

lemma memo_get:
  assumes "memo_ok P t" and "tc_get pid key n t = (r, t')"
  shows "memo_ok P t'" and "r = Some v \<Longrightarrow> P key v"
  using memo_process [OF assms(1), of pid] assms(2)
  by (auto simp: tc_get_def Let_def memo_ok_def touch_members dest: map_of_SomeD split: if_splits option.splits)

lemma evict_members:
  "tc_evict me mb incoming items bytes ev = Inr (rest, b, e) \<Longrightarrow> set rest \<subseteq> set items"
proof (induction items arbitrary: bytes ev)
  case Nil
  then show ?case by (subst (asm) tc_evict.simps) (auto split: if_splits)
next
  case (Cons x items)
  obtain k v c where x: "x = (k, v, c)" by (cases x)
  show ?case
  proof (cases "int (length (x # items)) \<ge> me \<or> bytes + incoming > mb")
    case True
    with Cons.prems have "tc_evict me mb incoming items (bytes - c) (Suc ev) = Inr (rest, b, e)"
      by (subst (asm) tc_evict.simps) (simp add: x)
    from Cons.IH [OF this] show ?thesis by auto
  next
    case False
    with Cons.prems show ?thesis by (subst (asm) tc_evict.simps) auto
  qed
qed

lemma set_members: "set (od_set k v d) \<subseteq> insert (k, v) (set d)"
  by (induction k v d rule: od_set.induct) auto

lemma memo_put:
  assumes memo: "memo_ok P t" and new: "P key v" and put: "tc_put pid key v n t = Inr (r, t')"
  shows "memo_ok P t'" and "P key r"
proof -
  define u where "u = tc_process pid t"
  have u: "memo_ok P u" unfolding u_def by (rule memo_process [OF memo])
  have "memo_ok P t' \<and> P key r"
  proof (cases "tc_bypass n u")
    case True
    with put u new show ?thesis by (simp add: tc_put_def u_def [symmetric] Let_def)
  next
    case False
    show ?thesis
    proof (cases "map_of (tc_items u) key")
      case None
      with put False obtain items b e where
        ev: "tc_evict (tc_max_entries u) (tc_max_bytes u) n (tc_items u) (tc_bytes u) (tc_evictions u) = Inr (items, b, e)"
        and r: "r = v" and t': "tc_items t' = od_set key (v, n) items"
        by (auto simp: tc_put_def u_def [symmetric] Let_def)
      from u evict_members [OF ev] new set_members [of key "(v, n)" items] show ?thesis
        unfolding memo_ok_def t' r by fastforce
    next
      case (Some e)
      obtain old m where e: "e = (old, m)" by (cases e)
      with Some u have "P key old" by (metis memo_lookup)
      with put False Some u e show ?thesis
        by (auto simp: tc_put_def u_def [symmetric] Let_def memo_ok_def touch_members)
    qed
  qed
  then show "memo_ok P t'" "P key r" by auto
qed

section \<open>The bounded-store interface\<close>

datatype ('k, 'v) template_op = TGet 'k int | TPut 'k 'v int | TClear

definition template_run :: "int \<times> ('k, 'v) template_op \<Rightarrow> ('k, 'v) templates \<Rightarrow> ('k, 'v) templates" where
  "template_run op t = (case snd op of
     TGet key n \<Rightarrow> snd (tc_get (fst op) key n t)
   | TPut key v n \<Rightarrow> (case tc_put (fst op) key v (max 0 n) t of Inl e \<Rightarrow> t | Inr (_, t') \<Rightarrow> t')
   | TClear \<Rightarrow> tc_clear (fst op) t)"

lemma get_limits: "tc_max_entries (snd (tc_get pid key n t)) = tc_max_entries t"
  by (auto simp: tc_get_def Let_def split: option.splits)

lemma template_run_ok:
  assumes "templates_ok t"
  shows "templates_ok (template_run op t)" and "tc_max_entries (template_run op t) = tc_max_entries t"
proof -
  have "templates_ok (template_run op t) \<and> tc_max_entries (template_run op t) = tc_max_entries t"
  proof (cases "snd op")
    case (TGet key n)
    obtain r t' where g: "tc_get (fst op) key n t = (r, t')" by fastforce
    from get_ok [OF assms g] get_limits [of "fst op" key n t] g TGet show ?thesis
      by (simp add: template_run_def)
  next
    case (TPut key v n)
    show ?thesis
      by (rule put_ok [OF assms, of "max 0 n" "fst op" key v]) (simp_all add: template_run_def TPut)
  next
    case TClear
    with clear_ok [OF assms, of "fst op"] show ?thesis
      by (simp add: template_run_def tc_clear_def Let_def)
  qed
  then show "templates_ok (template_run op t)" and "tc_max_entries (template_run op t) = tc_max_entries t"
    by auto
qed

interpretation template_entries:
  bounded_store tc_items templates_ok "\<lambda>t. nat (tc_max_entries t)" template_run
proof unfold_locales
  fix s :: "('a, 'b) templates" and op
  assume ok: "templates_ok s"
  from template_run_ok [OF ok, of op] show "templates_ok (template_run op s)"
    and "nat (tc_max_entries (template_run op s)) = nat (tc_max_entries s)" by simp_all
  from templates_okD [OF ok] show "od_ok (tc_items s)" "length (tc_items s) \<le> nat (tc_max_entries s)" by auto
qed

end
