(* ===== verification/Store.thy ===== *)
theory Store
  imports Artifact
begin

text \<open>
  \<open>reloc_torch/artifact_store.py\<close>: the on-disk store of portable artifacts.  A directory is a list of
  files; every method runs under the store's file lock and is one atomic step.  The JSON text layer is
  an argument; times of last use are integers the caller supplies.
\<close>

section \<open>Directory and counters\<close>

record text_layer =
  tx_dumps :: "bool \<Rightarrow> json \<Rightarrow> string"
  tx_loads :: "string \<Rightarrow> json option"

record stored_file =
  sf_name :: string
  sf_mtime :: int
  sf_data :: string

record store =
  st_max_bytes :: int
  st_max_entries :: int
  st_namespace :: string
  st_frontend :: string
  st_files :: "stored_file list"
  st_hits :: nat
  st_misses :: nat
  st_invalid :: nat
  st_evictions :: nat

definition new_store :: "pyint \<Rightarrow> pyint \<Rightarrow> string \<Rightarrow> string \<Rightarrow> stored_file list \<Rightarrow> store res" where
  "new_store max_bytes max_entries namespace frontend files =
     (if \<not> is_int max_bytes \<or> the_int max_bytes < 1
      then Inl (ValueErr ''max_bytes must be a positive integer'')
      else if \<not> is_int max_entries \<or> the_int max_entries < 1
      then Inl (ValueErr ''max_entries must be a positive integer'')
      else Inr \<lparr>st_max_bytes = the_int max_bytes, st_max_entries = the_int max_entries,
        st_namespace = namespace, st_frontend = frontend, st_files = files, st_hits = 0, st_misses = 0,
        st_invalid = 0, st_evictions = 0\<rparr>)"

definition file_size :: "stored_file \<Rightarrow> int" where
  "file_size f = int (length (sf_data f))"

definition store_bytes :: "stored_file list \<Rightarrow> int" where
  "store_bytes files = sum_list (map file_size files)"

text \<open>The loop of \<open>_trim\<close> over the files, oldest first; returns those kept and how many were unlinked.\<close>

fun trim_loop :: "int \<Rightarrow> int \<Rightarrow> int \<Rightarrow> int \<Rightarrow> int \<Rightarrow> int \<Rightarrow> stored_file list \<Rightarrow> stored_file list \<times> nat" where
  "trim_loop max_bytes max_entries incoming slots tot cnt [] = ([], 0)"
| "trim_loop max_bytes max_entries incoming slots tot cnt (f # files) =
     (if tot + incoming \<le> max_bytes \<and> cnt + slots \<le> max_entries then (f # files, 0)
      else (let (kept, n) = trim_loop max_bytes max_entries incoming slots (tot - file_size f) (cnt - 1) files
            in (kept, Suc n)))"

definition trim :: "int \<Rightarrow> int \<Rightarrow> store \<Rightarrow> store" where
  "trim incoming slots s = (let files = sort_key sf_mtime (st_files s);
     (kept, n) = trim_loop (st_max_bytes s) (st_max_entries s) incoming slots (store_bytes files)
       (int (length files)) files
     in s\<lparr>st_files := kept, st_evictions := st_evictions s + n\<rparr>)"

section \<open>Lookup and publication\<close>

definition artifact_name :: "string \<Rightarrow> string" where
  "artifact_name key = key @ ''.artifact''"

definition store_key :: "native \<Rightarrow> text_layer \<Rightarrow> store \<Rightarrow> string \<Rightarrow> recipe \<Rightarrow> string" where
  "store_key nv tx s compiler r = nv_sha256 nv (tx_dumps tx True (JObj [
     (''version'', JInt 1), (''frontend'', JStr (st_frontend s)), (''compiler'', JStr compiler),
     (''namespace'', JStr (st_namespace s)), (''recipe'', encode_recipe r)]))"

definition find_file :: "string \<Rightarrow> stored_file list \<Rightarrow> stored_file option" where
  "find_file name files = find (\<lambda>f. sf_name f = name) files"

definition artifact_text :: "text_layer \<Rightarrow> compiled_recipe \<Rightarrow> string" where
  "artifact_text tx a = tx_dumps tx True (to_payload a) @ [CHR 0x0A]"

definition artifact_of_text :: "native \<Rightarrow> text_layer \<Rightarrow> string \<Rightarrow> compiled_recipe res" where
  "artifact_of_text nv tx data = (case tx_loads tx data of
     None \<Rightarrow> Inl (RuntimeErr ''malformed compiled recipe serialization'')
   | Some payload \<Rightarrow> from_payload nv payload)"

definition read_envelope ::
  "native \<Rightarrow> text_layer \<Rightarrow> int \<Rightarrow> string \<Rightarrow> recipe \<Rightarrow> string \<Rightarrow> compiled_recipe res" where
  "read_envelope nv tx max_bytes key r data =
     (if int (length data) > max_bytes then Inl (ValueErr ''oversize artifact'')
      else (case tx_loads tx data of
          None \<Rightarrow> Inl (ValueErr ''JSONDecodeError'')
        | Some (JObj kvs) \<Rightarrow>
            (if json_get kvs ''key'' \<noteq> JStr key then Inl (ValueErr ''cache identity mismatch'')
             else (case json_get kvs ''artifact'' of
                 JStr b \<Rightarrow> res_bind (artifact_of_text nv tx b) (\<lambda>a.
                   if cr_recipe a \<noteq> r then Inl (ValueErr ''recipe mismatch'') else Inr a)
               | _ \<Rightarrow> Inl (ValueErr ''cache identity mismatch'')))
        | Some _ \<Rightarrow> Inl (ValueErr ''cache identity mismatch'')))"

text \<open>\<open>except (RuntimeError, ValueError, TypeError, KeyError, UnicodeError)\<close>.\<close>

fun store_caught :: "exn \<Rightarrow> bool" where
  "store_caught (KeyErr _) = True"
| "store_caught (TypeErr _) = True"
| "store_caught e \<longleftrightarrow> is_runtime_error e \<or> is_value_error e"

definition remove_file :: "string \<Rightarrow> stored_file list \<Rightarrow> stored_file list" where
  "remove_file name files = filter (\<lambda>f. sf_name f \<noteq> name) files"

definition publish :: "text_layer \<Rightarrow> int \<Rightarrow> string \<Rightarrow> compiled_recipe \<Rightarrow> store \<Rightarrow> store" where
  "publish tx now key a s = (let data = tx_dumps tx False (JObj [(''key'', JStr key),
       (''artifact'', JStr (artifact_text tx a))]) in
     if int (length data) \<le> st_max_bytes s then
       (let s = trim (int (length data)) 1 s in
        s\<lparr>st_files := remove_file (artifact_name key) (st_files s) @
          [\<lparr>sf_name = artifact_name key, sf_mtime = now, sf_data = data\<rparr>]\<rparr>)
     else s)"

definition compile_and_publish ::
  "text_layer \<Rightarrow> int \<Rightarrow> string \<Rightarrow> compiled_recipe res \<Rightarrow> store \<Rightarrow> compiled_recipe res \<times> store" where
  "compile_and_publish tx now key compile s = (let s = s\<lparr>st_misses := Suc (st_misses s)\<rparr> in
     case compile of Inl e \<Rightarrow> (Inl e, s) | Inr a \<Rightarrow> (Inr a, publish tx now key a s))"

definition store_get_or_compile ::
  "native \<Rightarrow> text_layer \<Rightarrow> int \<Rightarrow> recipe \<Rightarrow> string \<Rightarrow> compiled_recipe res \<Rightarrow> store \<Rightarrow>
     compiled_recipe res \<times> store" where
  "store_get_or_compile nv tx now r compiler compile s0 =
     (let key = store_key nv tx s0 compiler r; name = artifact_name key; s = trim 0 0 s0 in
      case find_file name (st_files s) of
        None \<Rightarrow> compile_and_publish tx now key compile s
      | Some f \<Rightarrow> (case read_envelope nv tx (st_max_bytes s) key r (sf_data f) of
          Inr a \<Rightarrow> (Inr a, s\<lparr>st_hits := Suc (st_hits s),
            st_files := map (\<lambda>g. if sf_name g = name then g\<lparr>sf_mtime := now\<rparr> else g) (st_files s)\<rparr>)
        | Inl e \<Rightarrow> if store_caught e
            then compile_and_publish tx now key compile
              (s\<lparr>st_invalid := Suc (st_invalid s), st_files := remove_file name (st_files s)\<rparr>)
            else (Inl e, s)))"

definition store_stats :: "store \<Rightarrow> (string \<times> int) list \<times> store" where
  "store_stats s0 = (let s = trim 0 0 s0; files = sort_key sf_mtime (st_files s) in
     ([(''hits'', int (st_hits s)), (''misses'', int (st_misses s)), (''invalid'', int (st_invalid s)),
       (''evictions'', int (st_evictions s)), (''entries'', int (length files)),
       (''bytes'', store_bytes files), (''max_entries'', st_max_entries s), (''max_bytes'', st_max_bytes s)], s))"

section \<open>Bounds\<close>

lemma file_size_nonneg [simp]: "0 \<le> file_size f"
  by (simp add: file_size_def)

lemma store_bytes_simps [simp]:
  "store_bytes [] = 0" "store_bytes (f # fs) = file_size f + store_bytes fs"
  "store_bytes (xs @ ys) = store_bytes xs + store_bytes ys"
  by (simp_all add: store_bytes_def)

lemma store_bytes_nonneg [simp]: "0 \<le> store_bytes fs"
  by (induction fs) auto

lemma store_bytes_filter: "store_bytes (filter P fs) \<le> store_bytes fs"
  by (induction fs) (auto simp: add_increasing)

lemma trim_loop_fits:
  assumes "tot = store_bytes files" "cnt = int (length files)" "incoming \<le> max_bytes" "slots \<le> max_entries"
    and "trim_loop max_bytes max_entries incoming slots tot cnt files = (kept, n)"
  shows "store_bytes kept + incoming \<le> max_bytes \<and> int (length kept) + slots \<le> max_entries \<and>
    kept = drop n files \<and> n \<le> length files"
  using assms
proof (induction files arbitrary: tot cnt n)
  case (Cons f files)
  show ?case
  proof (cases "tot + incoming \<le> max_bytes \<and> cnt + slots \<le> max_entries")
    case True
    with Cons.prems show ?thesis by auto
  next
    case False
    with Cons.prems(5) obtain m where
      rec: "trim_loop max_bytes max_entries incoming slots (tot - file_size f) (cnt - 1) files = (kept, m)"
      and n: "n = Suc m" by (auto split: prod.splits)
    have "tot - file_size f = store_bytes files" "cnt - 1 = int (length files)" using Cons.prems(1,2) by auto
    from Cons.IH [OF this Cons.prems(3,4) rec] n show ?thesis
      by (metis Suc_le_mono drop_Suc_Cons length_Cons)
  qed
qed auto

definition within_limits :: "store \<Rightarrow> bool" where
  "within_limits s \<longleftrightarrow> store_bytes (st_files s) \<le> st_max_bytes s \<and> int (length (st_files s)) \<le> st_max_entries s"

lemma trim_fields [simp]:
  "st_max_bytes (trim i k s) = st_max_bytes s" "st_max_entries (trim i k s) = st_max_entries s"
  "st_frontend (trim i k s) = st_frontend s" "st_namespace (trim i k s) = st_namespace s"
  by (simp_all add: trim_def Let_def split: prod.splits)

lemma trim_fits:
  assumes "incoming \<le> st_max_bytes s" and "slots \<le> st_max_entries s"
  shows "store_bytes (st_files (trim incoming slots s)) + incoming \<le> st_max_bytes s \<and>
    int (length (st_files (trim incoming slots s))) + slots \<le> st_max_entries s \<and>
    set (st_files (trim incoming slots s)) \<subseteq> set (st_files s)"
proof -
  let ?files = "sort_key sf_mtime (st_files s)"
  obtain kept n where t: "trim_loop (st_max_bytes s) (st_max_entries s) incoming slots (store_bytes ?files)
      (int (length ?files)) ?files = (kept, n)" by fastforce
  from trim_loop_fits [OF refl refl assms t] t show ?thesis
    by (auto simp: trim_def Let_def dest: in_set_dropD)
qed

definition store_ok :: "store \<Rightarrow> bool" where
  "store_ok s \<longleftrightarrow> 0 < st_max_bytes s \<and> 0 < st_max_entries s"

lemma new_store_ok: "new_store b e ns fr files = Inr s \<Longrightarrow> store_ok s"
  by (auto simp: new_store_def store_ok_def split: if_splits)

lemma publish_fields [simp]:
  "st_max_bytes (publish tx now key a s) = st_max_bytes s"
  "st_max_entries (publish tx now key a s) = st_max_entries s"
  "st_frontend (publish tx now key a s) = st_frontend s"
  "st_namespace (publish tx now key a s) = st_namespace s"
  by (simp_all add: publish_def Let_def)

lemma publish_within:
  assumes "store_ok s" and "within_limits s"
  shows "within_limits (publish tx now key a s)"
proof -
  define data where "data = tx_dumps tx False (JObj [(''key'', JStr key), (''artifact'', JStr (artifact_text tx a))])"
  show ?thesis
  proof (cases "int (length data) \<le> st_max_bytes s")
    case True
    have "1 \<le> st_max_entries s" using assms(1) by (simp add: store_ok_def)
    from trim_fits [OF True this]
    have t: "store_bytes (st_files (trim (int (length data)) 1 s)) + int (length data) \<le> st_max_bytes s"
      "int (length (st_files (trim (int (length data)) 1 s))) + 1 \<le> st_max_entries s" by auto
    let ?kept = "remove_file (artifact_name key) (st_files (trim (int (length data)) 1 s))"
    have "store_bytes ?kept \<le> store_bytes (st_files (trim (int (length data)) 1 s))"
      "length ?kept \<le> length (st_files (trim (int (length data)) 1 s))"
      by (simp_all add: remove_file_def store_bytes_filter)
    with t True show ?thesis
      by (simp add: publish_def data_def [symmetric] Let_def within_limits_def file_size_def)
  next
    case False
    with assms(2) show ?thesis by (simp add: publish_def data_def [symmetric] Let_def)
  qed
qed

lemma compile_and_publish_within:
  assumes "store_ok s" and "within_limits s" and "compile_and_publish tx now key compile s = (r, s')"
  shows "within_limits s'"
  using assms publish_within [of "s\<lparr>st_misses := Suc (st_misses s)\<rparr>" tx now key]
  by (auto simp: compile_and_publish_def Let_def within_limits_def store_ok_def split: sum.splits)

lemma store_bytes_utime:
  "store_bytes (map (\<lambda>g. if sf_name g = name then g\<lparr>sf_mtime := now\<rparr> else g) files) = store_bytes files"
  by (induction files) (auto simp: file_size_def)

lemma store_within:
  assumes "store_ok s0" and "store_get_or_compile nv tx now r compiler compile s0 = (res, s')"
  shows "within_limits s'"
proof -
  define s where "s = trim 0 0 s0"
  define key where "key = store_key nv tx s0 compiler r"
  have ok: "store_ok s" using assms(1) by (simp add: store_ok_def s_def)
  have w: "within_limits s"
    using assms(1) trim_fits [of 0 s0 0] by (auto simp: store_ok_def within_limits_def s_def)
  let ?drop = "s\<lparr>st_invalid := Suc (st_invalid s), st_files := remove_file (artifact_name key) (st_files s)\<rparr>"
  have "store_bytes (remove_file (artifact_name key) (st_files s)) \<le> store_bytes (st_files s)"
    "length (remove_file (artifact_name key) (st_files s)) \<le> length (st_files s)"
    by (simp_all add: remove_file_def store_bytes_filter)
  with w ok have d: "within_limits ?drop" "store_ok ?drop" by (auto simp: within_limits_def store_ok_def)
  from assms(2) show ?thesis
    unfolding store_get_or_compile_def Let_def s_def [symmetric] key_def [symmetric]
    using w compile_and_publish_within [OF ok w] compile_and_publish_within [OF d(2,1)]
    by (auto simp: within_limits_def store_bytes_utime split: option.splits sum.splits if_splits)
qed

section \<open>What the store hands out\<close>

lemma read_envelope_sound:
  "read_envelope nv tx n key r data = Inr a \<Longrightarrow>
     cr_recipe a = r \<and> (\<exists>b. artifact_of_text nv tx b = Inr a)"
  by (auto simp: read_envelope_def split: if_splits option.splits json.splits)

lemma compile_and_publish_result:
  "compile_and_publish tx now key compile s = (r, s') \<Longrightarrow> r = compile \<and> st_hits s' = st_hits s"
  by (auto simp: compile_and_publish_def Let_def publish_def trim_def split: sum.splits if_splits prod.splits)

lemma find_file_publish:
  assumes "int (length (tx_dumps tx False (JObj [(''key'', JStr key), (''artifact'', JStr (artifact_text tx a))])))
    \<le> st_max_bytes s"
  shows "\<exists>f. find_file (artifact_name key) (st_files (publish tx now key a s)) = Some f \<and>
    sf_data f = tx_dumps tx False (JObj [(''key'', JStr key), (''artifact'', JStr (artifact_text tx a))])"
proof -
  have "find (\<lambda>f. sf_name f = n) (remove_file n files @ [f]) = Some f" if "sf_name f = n" for n files and f :: stored_file
    using that by (induction files) (auto simp: remove_file_def)
  then show ?thesis using assms by (simp add: publish_def Let_def find_file_def)
qed

end
