(* ===== verification/Eligibility.thy ===== *)
theory Eligibility
  imports Shapes
begin

text \<open>
  \<open>reloc_torch/records.py\<close> and \<open>reloc_torch/eligibility.py\<close>: observed transfers and their
  reason-coded classification.
\<close>

section \<open>Records\<close>

text \<open>A dimension is an integer or the text of a symbolic one.\<close>

datatype dimension = DInt int | DSym string

record tensor_metadata =
  tm_shape :: "dimension list"
  tm_strides :: "dimension list"
  tm_storage_offset :: dimension
  tm_dtype :: string
  tm_device_type :: string
  tm_device_index :: "int option"
  tm_requires_grad :: bool
  tm_layout :: string
  tm_pinned :: bool
  tm_is_subclass :: bool
  tm_storage_capacity_bytes :: "int option"

record transfer_record =
  tr_operator :: string
  tr_phase :: string
  tr_source :: tensor_metadata
  tr_destination :: tensor_metadata
  tr_non_blocking :: bool
  tr_mutates :: bool
  tr_aliases_source :: bool
  tr_layout_history :: "string list"
  tr_failure_type :: "string option"
  tr_failure_message :: "string option"

record graph_record =
  gr_node_name :: string
  gr_node_kind :: string
  gr_target :: string
  gr_input_nodes :: "string list"
  gr_user_nodes :: "string list"
  gr_tensor_metadata :: "tensor_metadata option"
  gr_metadata_reason :: "string option"
  gr_transfer :: "transfer_record option"
  gr_alias_semantics :: string

datatype observation = ObservedTransfer transfer_record | ObservedNode graph_record

record eligibility =
  el_category :: string
  el_candidate :: bool
  el_reason :: string

section \<open>Classification\<close>

definition transfer_operators :: "string list" where
  "transfer_operators = [''aten._to_copy.default'']"

definition view_operators :: "string list" where
  "view_operators = [''aten.view.default'', ''aten.reshape.default'', ''aten.transpose.int'',
     ''aten.permute.default'', ''aten.as_strided.default'']"

definition supported_devices :: "string list" where
  "supported_devices = [''cpu'', ''cuda'']"

definition supported_dtypes :: "string list" where
  "supported_dtypes = [''float32'', ''float16'', ''bfloat16'', ''int8'']"

definition c1_casts :: "(string \<times> string) list" where
  "c1_casts = [(''float32'', ''float16''), (''float16'', ''float32''), (''float32'', ''bfloat16''),
     (''bfloat16'', ''float32'')]"

definition category :: "transfer_record \<Rightarrow> string" where
  "category r = (let s = tr_source r; d = tr_destination r in
     if tr_mutates r then ''mutation''
     else if (tm_device_type s, tm_device_index s) \<noteq> (tm_device_type d, tm_device_index d) then ''transfer''
     else if tm_dtype s \<noteq> tm_dtype d then ''cast''
     else if tr_operator r \<in> set view_operators then ''layout''
     else if tr_operator r = ''aten._to_copy.default'' then ''same_device_copy''
     else ''other'')"

text \<open>The loop of \<open>_is_dense_contiguous\<close> over the reversed sizes and strides.\<close>

fun dense_loop :: "(dimension \<times> dimension) list \<Rightarrow> int \<Rightarrow> bool" where
  "dense_loop [] expected = True"
| "dense_loop ((DInt n, DInt s) # rest) expected =
     (if n < 0 then False else if n \<noteq> 1 \<and> s \<noteq> expected then False else dense_loop rest (expected * n))"
| "dense_loop _ expected = False"

definition is_dense_contiguous :: "tensor_metadata \<Rightarrow> bool" where
  "is_dense_contiguous m \<longleftrightarrow> length (tm_shape m) = length (tm_strides m) \<and>
     dense_loop (zip (rev (tm_shape m)) (rev (tm_strides m))) 1"

definition bad_device :: "tensor_metadata \<Rightarrow> bool" where
  "bad_device m \<longleftrightarrow> tm_device_type m \<notin> set supported_devices \<or>
     (tm_device_type m = ''cpu'' \<and> tm_device_index m \<noteq> None) \<or>
     (tm_device_type m = ''cuda'' \<and> (case tm_device_index m of None \<Rightarrow> True | Some i \<Rightarrow> i < 0))"

definition metadata_reason :: "tensor_metadata \<Rightarrow> string option" where
  "metadata_reason m =
     (if tm_requires_grad m then Some ''requires_grad''
      else if bad_device m then Some ''unsupported_device''
      else if tm_dtype m \<notin> set supported_dtypes then Some ''unsupported_dtype''
      else if tm_layout m \<noteq> ''strided'' then Some ''unsupported_layout''
      else if tm_shape m = [] then Some ''unsupported_rank''
      else if DInt 0 \<in> set (tm_shape m) then Some ''empty_tensor''
      else if tm_storage_capacity_bytes m = Some 0 then Some ''empty_tensor''
      else if tm_storage_offset m \<noteq> DInt 0 then Some ''storage_offset''
      else if tm_is_subclass m then Some ''tensor_subclass''
      else if \<not> is_dense_contiguous m then Some ''unsupported_layout''
      else None)"

definition ineligible :: "string \<Rightarrow> string \<Rightarrow> eligibility" where
  "ineligible cat reason = \<lparr>el_category = cat, el_candidate = False, el_reason = reason\<rparr>"

definition classify_transfer :: "transfer_record \<Rightarrow> eligibility" where
  "classify_transfer r = (let cat = category r; s = tr_source r; d = tr_destination r in
     if tr_failure_type r \<noteq> None then ineligible cat ''operator_failed''
     else if cat = ''mutation'' then ineligible cat ''mutation''
     else if cat = ''cast'' then ineligible cat ''typed_transform_unavailable''
     else if cat = ''same_device_copy'' then ineligible cat ''same_device_copy''
     else if cat = ''layout'' then ineligible cat ''layout_only''
     else if cat = ''other'' then ineligible cat ''unsupported_operator''
     else (case metadata_reason s of Some reason \<Rightarrow> ineligible cat reason | None \<Rightarrow>
       (case metadata_reason d of Some reason \<Rightarrow> ineligible cat reason | None \<Rightarrow>
         if {tm_device_type s, tm_device_type d} \<noteq> {''cpu'', ''cuda''} then ineligible cat ''unsupported_device''
         else if tr_non_blocking r then ineligible cat ''nonblocking_unavailable''
         else if tr_aliases_source r then ineligible cat ''unsupported_layout''
         else if tm_dtype s \<noteq> tm_dtype d \<and> (tm_dtype s, tm_dtype d) \<notin> set c1_casts
         then ineligible cat ''typed_transform_unavailable''
         else if tr_operator r \<notin> set transfer_operators then ineligible cat ''unsupported_operator''
         else \<lparr>el_category = cat, el_candidate = True, el_reason = ''needs_compile_and_runtime_check''\<rparr>)))"

definition classify :: "observation \<Rightarrow> eligibility" where
  "classify v = (case v of
     ObservedTransfer r \<Rightarrow> classify_transfer r
   | ObservedNode g \<Rightarrow> (case gr_transfer g of
       None \<Rightarrow> ineligible ''other'' (case gr_metadata_reason g of
         Some m \<Rightarrow> if m = [] then ''unsupported_operator'' else m | None \<Rightarrow> ''unsupported_operator'')
     | Some r \<Rightarrow>
         if gr_node_kind g = ''call_method'' \<and> gr_target g \<in> {''to'', ''cpu'', ''cuda''} \<and>
            gr_alias_semantics g = ''aliases'' \<and> tr_source r = tr_destination r
         then ineligible ''other'' ''same_device_noop''
         else classify_transfer r))"

section \<open>What a candidate is\<close>

text \<open>The tensors a plan can read or write: dense, on a supported device, of a supported dtype.\<close>

definition plain_dense :: "tensor_metadata \<Rightarrow> bool" where
  "plain_dense m \<longleftrightarrow> \<not> tm_requires_grad m \<and> \<not> bad_device m \<and> tm_dtype m \<in> set supported_dtypes \<and>
     tm_layout m = ''strided'' \<and> tm_shape m \<noteq> [] \<and> DInt 0 \<notin> set (tm_shape m) \<and>
     tm_storage_capacity_bytes m \<noteq> Some 0 \<and> tm_storage_offset m = DInt 0 \<and> \<not> tm_is_subclass m \<and>
     is_dense_contiguous m"

lemma metadata_reason_None: "metadata_reason m = None \<longleftrightarrow> plain_dense m"
  by (simp add: metadata_reason_def plain_dense_def)

lemma category_transfer_devices:
  "category r = ''transfer'' \<longleftrightarrow> \<not> tr_mutates r \<and>
     (tm_device_type (tr_source r), tm_device_index (tr_source r)) \<noteq>
     (tm_device_type (tr_destination r), tm_device_index (tr_destination r))"
  by (simp add: category_def Let_def)

lemma category_cases:
  "category r \<in> {''mutation'', ''transfer'', ''cast'', ''layout'', ''same_device_copy'', ''other''}"
  by (simp add: category_def Let_def)

lemma ineligible_fields [simp]:
  "el_candidate (ineligible c x) = False" "el_category (ineligible c x) = c" "el_reason (ineligible c x) = x"
  by (simp_all add: ineligible_def)

lemma classify_transfer_candidate:
  "el_candidate (classify_transfer r) \<longleftrightarrow>
     category r = ''transfer'' \<and> tr_failure_type r = None \<and> plain_dense (tr_source r) \<and>
     plain_dense (tr_destination r) \<and>
     {tm_device_type (tr_source r), tm_device_type (tr_destination r)} = {''cpu'', ''cuda''} \<and>
     \<not> tr_non_blocking r \<and> \<not> tr_aliases_source r \<and>
     (tm_dtype (tr_source r) = tm_dtype (tr_destination r) \<or>
      (tm_dtype (tr_source r), tm_dtype (tr_destination r)) \<in> set c1_casts) \<and>
     tr_operator r \<in> set transfer_operators"
  using category_cases [of r]
  by (auto simp: classify_transfer_def Let_def metadata_reason_None [symmetric] split: option.splits)

text \<open>Dense means row-major, except that an axis of extent one may carry any stride.\<close>

lemma dense_loop_ints:
  "dense_loop ps e \<Longrightarrow> \<exists>ns. map fst ps = map DInt ns \<and> list_all (\<lambda>n. 0 \<le> n) ns"
proof (induction ps e rule: dense_loop.induct)
  case (2 n s rest e)
  then obtain ns where "map fst rest = map DInt ns" "list_all (\<lambda>n. 0 \<le> n) ns" "0 \<le> n"
    by (auto split: if_splits)
  then show ?case by (intro exI [of _ "n # ns"]) simp
qed auto

lemma dense_loop_iff:
  "length ns = length ss \<Longrightarrow>
     dense_loop (zip (map DInt ns) (map DInt ss)) e \<longleftrightarrow>
       list_all (\<lambda>n. 0 \<le> n) ns \<and> (\<forall>i<length ns. ns ! i \<noteq> 1 \<longrightarrow> ss ! i = e * prod_list (take i ns))"
proof (induction ns ss arbitrary: e rule: list_induct2)
  case (Cons n ns s ss)
  have "(\<forall>i<Suc (length ns). (n # ns) ! i \<noteq> 1 \<longrightarrow> (s # ss) ! i = e * prod_list (take i (n # ns))) \<longleftrightarrow>
    (n \<noteq> 1 \<longrightarrow> s = e) \<and> (\<forall>i<length ns. ns ! i \<noteq> 1 \<longrightarrow> ss ! i = e * n * prod_list (take i ns))"
    by (auto simp: mult.assoc less_Suc_eq_0_disj)
  with Cons.IH [of "e * n"] show ?case by auto
qed simp

lemma row_major_nth: "i < length ns \<Longrightarrow> row_major ns ! i = prod_list (drop (Suc i) ns)"
proof (induction ns arbitrary: i)
  case (Cons n ns)
  then show ?case by (cases i) simp_all
qed simp

lemma length_row_major [simp]: "length (row_major ns) = length ns"
  by (induction ns) simp_all

lemma prod_list_rev: "prod_list (rev ns) = prod_list (ns :: int list)"
  by (induction ns) (simp_all add: mult.commute)

lemma is_dense_contiguous_iff:
  assumes "tm_shape m = map DInt ns" and "tm_strides m = map DInt ss" and len: "length ns = length ss"
  shows "is_dense_contiguous m \<longleftrightarrow>
    list_all (\<lambda>n. 0 \<le> n) ns \<and> (\<forall>i<length ns. ns ! i \<noteq> 1 \<longrightarrow> ss ! i = row_major ns ! i)"
proof -
  let ?n = "length ns"
  have mirror: "rev ns ! i = ns ! (?n - Suc i) \<and> rev ss ! i = ss ! (?n - Suc i) \<and>
      prod_list (take i (rev ns)) = row_major ns ! (?n - Suc i)" if i: "i < ?n" for i
  proof -
    have t: "take i (rev ns) = rev (drop (?n - i) ns)" by (simp add: take_rev)
    have s: "Suc (?n - Suc i) = ?n - i" using i by simp
    from i have "?n - Suc i < ?n" by simp
    then have "row_major ns ! (?n - Suc i) = prod_list (drop (?n - i) ns)" by (simp only: row_major_nth s)
    with t i len show ?thesis by (simp add: rev_nth prod_list_rev)
  qed
  have flip: "(\<forall>i<?n. P (?n - Suc i)) \<longleftrightarrow> (\<forall>i<?n. P i)" for P
  proof
    assume all: "\<forall>i<?n. P (?n - Suc i)"
    show "\<forall>i<?n. P i"
    proof (intro allI impI)
      fix i assume "i < ?n"
      then have "?n - Suc i < ?n" and "?n - Suc (?n - Suc i) = i" by auto
      with all show "P i" by metis
    qed
  qed auto
  have "is_dense_contiguous m \<longleftrightarrow> dense_loop (zip (map DInt (rev ns)) (map DInt (rev ss))) 1"
    using assms by (simp add: is_dense_contiguous_def rev_map)
  also have "\<dots> \<longleftrightarrow> list_all (\<lambda>n. 0 \<le> n) ns \<and>
      (\<forall>i<?n. rev ns ! i \<noteq> 1 \<longrightarrow> rev ss ! i = prod_list (take i (rev ns)))"
    using len by (subst dense_loop_iff) simp_all
  also have "(\<forall>i<?n. rev ns ! i \<noteq> 1 \<longrightarrow> rev ss ! i = prod_list (take i (rev ns))) \<longleftrightarrow>
      (\<forall>i<?n. ns ! (?n - Suc i) \<noteq> 1 \<longrightarrow> ss ! (?n - Suc i) = row_major ns ! (?n - Suc i))"
    using mirror by metis
  also have "\<dots> \<longleftrightarrow> (\<forall>i<?n. ns ! i \<noteq> 1 \<longrightarrow> ss ! i = row_major ns ! i)" by (rule flip)
  finally show ?thesis .
qed

end
