(* ===== verification/Ledger.thy ===== *)
theory Ledger
  imports Ordered_Dict
begin

text \<open>
  Budgets: resources are reserved, held for a while, and given back.  The locale \<open>ledger\<close> is the
  interface of every such account in the program; the byte and entry budget of prepared weights
  (\<open>reloc_torch/wire_weights.py\<close>, class \<open>_Budget\<close>) is here, the transfer queue provides another.
\<close>

section \<open>The interface\<close>

datatype 'h ledger_op = Reserve 'h | Release 'h

locale ledger =
  fixes charged :: "'s \<Rightarrow> int"
    and limit :: "'s \<Rightarrow> int"
    and cost :: "'h \<Rightarrow> int"
    and accounts :: "'s \<Rightarrow> 'h multiset \<Rightarrow> bool"
    and reserve :: "'h \<Rightarrow> 's \<Rightarrow> 's res"
    and release :: "'h \<Rightarrow> 's \<Rightarrow> 's"
  assumes charged_sum: "accounts s H \<Longrightarrow> charged s = sum_mset (image_mset cost H)"
    and within: "accounts s H \<Longrightarrow> charged s \<le> limit s"
    and reserve_accounts: "accounts s H \<Longrightarrow> reserve h s = Inr s' \<Longrightarrow> accounts s' (add_mset h H)"
    and reserve_limit: "reserve h s = Inr s' \<Longrightarrow> limit s' = limit s"
    and release_accounts: "accounts s (add_mset h H) \<Longrightarrow> accounts (release h s) H"
    and release_limit: "limit (release h s) = limit s"
begin

text \<open>A refused reservation changes nothing; only what is held is released.\<close>

fun perform :: "'h ledger_op \<Rightarrow> 's \<times> 'h multiset \<Rightarrow> 's \<times> 'h multiset" where
  "perform (Reserve h) (s, H) = (case reserve h s of Inl e \<Rightarrow> (s, H) | Inr s' \<Rightarrow> (s', add_mset h H))"
| "perform (Release h) (s, H) = (if h \<in># H then (release h s, H - {#h#}) else (s, H))"

lemma perform_accounts:
  assumes "accounts s H" and "perform op (s, H) = (s', H')"
  shows "accounts s' H' \<and> limit s' = limit s"
proof (cases op)
  case (Reserve h)
  with assms show ?thesis
    by (auto split: sum.splits intro: reserve_accounts reserve_limit)
next
  case (Release h)
  with assms release_accounts [of s h "H - {#h#}"] show ?thesis
    by (auto simp: release_limit split: if_splits)
qed

lemma run_accounts:
  "accounts s H \<Longrightarrow> fold perform ops (s, H) = (s', H') \<Longrightarrow> accounts s' H' \<and> limit s' = limit s"
proof (induction ops arbitrary: s H)
  case (Cons op ops)
  obtain s1 H1 where p: "perform op (s, H) = (s1, H1)" by fastforce
  with perform_accounts [OF Cons.prems(1) p] Cons.IH [of s1 H1] Cons.prems(2) show ?case by simp
qed simp

lemma run_charged:
  assumes "accounts s H" and "fold perform ops (s, H) = (s', H')"
  shows "charged s' = sum_mset (image_mset cost H') \<and> charged s' \<le> limit s"
  using run_accounts [OF assms] charged_sum within by metis

end

section \<open>The prepared-weight budget\<close>

record budget =
  bd_limit :: int
  bd_pin_limit :: int
  bd_entry_limit :: int
  bd_entries :: int
  bd_live :: int
  bd_pinned :: int
  bd_peak :: int
  bd_pin_peak :: int

definition new_budget :: "int \<Rightarrow> int \<Rightarrow> int \<Rightarrow> budget" where
  "new_budget prepared pinned entries = \<lparr>bd_limit = prepared, bd_pin_limit = pinned, bd_entry_limit = entries,
     bd_entries = 0, bd_live = 0, bd_pinned = 0, bd_peak = 0, bd_pin_peak = 0\<rparr>"

text \<open>A holding is the bytes prepared and, of those, the bytes pinned.\<close>

definition budget_reserve :: "nat \<times> nat \<Rightarrow> budget \<Rightarrow> budget res" where
  "budget_reserve h b = (let sz = int (fst h); pinned = int (snd h) in
     if bd_live b + sz > bd_limit b \<or> bd_pinned b + pinned > bd_pin_limit b \<or> bd_entries b \<ge> bd_entry_limit b
     then Inl (BufferErr ''prepared/pinned weight budget exceeded (including retired snapshots)'')
     else Inr (b\<lparr>bd_entries := bd_entries b + 1, bd_live := bd_live b + sz, bd_pinned := bd_pinned b + pinned,
         bd_peak := max (bd_peak b) (bd_live b + sz),
         bd_pin_peak := max (bd_pin_peak b) (bd_pinned b + pinned)\<rparr>))"

definition budget_release :: "nat \<times> nat \<Rightarrow> budget \<Rightarrow> budget" where
  "budget_release h b = b\<lparr>bd_entries := bd_entries b - 1, bd_live := bd_live b - int (fst h),
     bd_pinned := bd_pinned b - int (snd h)\<rparr>"

definition budget_accounts :: "budget \<Rightarrow> (nat \<times> nat) multiset \<Rightarrow> bool" where
  "budget_accounts b H \<longleftrightarrow>
     bd_live b = sum_mset (image_mset (\<lambda>h. int (fst h)) H) \<and>
     bd_pinned b = sum_mset (image_mset (\<lambda>h. int (snd h)) H) \<and>
     bd_entries b = int (size H) \<and> bd_live b \<le> bd_limit b \<and> bd_pinned b \<le> bd_pin_limit b \<and>
     bd_entries b \<le> bd_entry_limit b \<and> bd_live b \<le> bd_peak b \<and> bd_peak b \<le> bd_limit b \<and>
     bd_pinned b \<le> bd_pin_peak b \<and> bd_pin_peak b \<le> bd_pin_limit b"

lemma new_budget_accounts:
  "0 \<le> p \<Longrightarrow> 0 \<le> q \<Longrightarrow> 0 \<le> n \<Longrightarrow> budget_accounts (new_budget p q n) {#}"
  by (simp add: budget_accounts_def new_budget_def)

lemma budget_reserve_accounts:
  "budget_accounts b H \<Longrightarrow> budget_reserve h b = Inr b' \<Longrightarrow> budget_accounts b' (add_mset h H)"
  by (auto simp: budget_accounts_def budget_reserve_def Let_def split: if_splits)

lemma budget_release_accounts:
  "budget_accounts b (add_mset h H) \<Longrightarrow> budget_accounts (budget_release h b) H"
  by (auto simp: budget_accounts_def budget_release_def)

interpretation weight_budget:
  ledger bd_live bd_limit "\<lambda>h. int (fst h)" budget_accounts budget_reserve budget_release
  by unfold_locales
    (auto simp: budget_reserve_def budget_release_def Let_def budget_accounts_def split: if_splits
      intro: budget_reserve_accounts budget_release_accounts)

text \<open>The same account read on its pinned bytes.\<close>

interpretation pinned_budget:
  ledger bd_pinned bd_pin_limit "\<lambda>h. int (snd h)" budget_accounts budget_reserve budget_release
  by unfold_locales
    (auto simp: budget_reserve_def budget_release_def Let_def budget_accounts_def split: if_splits
      intro: budget_reserve_accounts budget_release_accounts)

text \<open>A reservation is refused exactly when it would break one of the three limits.\<close>

lemma budget_reserve_iff:
  assumes "budget_accounts b H"
  shows "(\<exists>b'. budget_reserve h b = Inr b') \<longleftrightarrow>
    bd_live b + int (fst h) \<le> bd_limit b \<and> bd_pinned b + int (snd h) \<le> bd_pin_limit b \<and>
    int (size H) < bd_entry_limit b"
  using assms by (auto simp: budget_reserve_def Let_def budget_accounts_def)

end
