(* ===== verification/Wire_Weights.thy ===== *)
theory Wire_Weights
  imports Ledger Emit
begin

text \<open>
  \<open>reloc_torch/wire_weights.py\<close>: bounded, revisioned snapshots of quantized weights.  A snapshot's
  bytes are charged when it is reserved and given back when its storage is collected, which may be
  long after its name was replaced or invalidated: the storages in that state are \<open>ww_retired\<close>.
  Binding, the native dispatch template and the copy into packed storage are one outcome argument.
\<close>

section \<open>State\<close>

text \<open>\<open>_positive\<close>: booleans and objects without an index are both \<open>NotInt\<close>.\<close>

definition positive :: "pyint \<Rightarrow> string \<Rightarrow> int res" where
  "positive v name = (case v of
     NotInt \<Rightarrow> Inl (TypeErr (msg [name, '' must be an integer'']))
   | PyInt n \<Rightarrow> if n \<le> 0 then Inl (ValueErr (msg [name, '' must be positive''])) else Inr n)"

record host_tensor =
  ht_plain :: bool
  ht_device :: string
  ht_dtype :: string
  ht_shape :: "int list"
  ht_contiguous :: bool
  ht_requires_grad :: bool

record weight_info =
  wi_name :: string
  wi_revision :: nat
  wi_shape :: "int list"
  wi_output_dtype :: string
  wi_wire_bytes :: nat
  wi_parameter_bytes :: nat
  wi_payload_bytes :: nat
  wi_output_bytes :: nat
  wi_prepared_bytes :: nat
  wi_pinned_bytes :: nat

record weights =
  ww_budget :: budget
  ww_max_entries :: int
  ww_pin :: bool
  ww_output_dtype :: string
  ww_pid :: int
  ww_entries :: "(string, weight_info) odict"
  ww_retired :: "(nat \<times> nat) list"
  ww_closed :: bool
  ww_revision :: nat

definition holding :: "weight_info \<Rightarrow> nat \<times> nat" where
  "holding i = (wi_prepared_bytes i, wi_pinned_bytes i)"

text \<open>The recipe every store compiles: per-output-channel dequantization, then at most one cast.\<close>

definition wire_recipe :: "string \<Rightarrow> recipe" where
  "wire_recipe dtype = (let shape = [Symbol ''out'', Symbol ''in''];
     spec = (\<lambda>d. \<lparr>ts_shape = shape, ts_strides = dense_strides shape, ts_offset = Const 0, ts_dtype = d\<rparr>);
     scale = BindingParam \<lparr>bp_name = ''scale'', bp_dtype = ''float32'', bp_extents = [Symbol ''out'']\<rparr> in
     \<lparr>r_source = spec ''int8'',
      r_operations = Dequantize \<lparr>q_dtype = ''float32'', q_scale = scale, q_zero_point = None, q_axis = Some 0,
          q_policy = ''affine''\<rparr> # (if dtype = ''float16'' then [Cast ''float16'' ''ieee_rne''] else []),
      r_destination = spec dtype, r_direction = ''h2d''\<rparr>)"

definition new_weights ::
  "int \<Rightarrow> bool \<Rightarrow> pyint \<Rightarrow> pyint \<Rightarrow> pyint \<Rightarrow> string \<Rightarrow> pyint list \<Rightarrow> string \<Rightarrow> weights res" where
  "new_weights pid pin max_entries max_prepared max_pinned device queue_options dtype =
     res_bind (positive max_entries ''max_entries'') (\<lambda>entries.
     res_bind (positive max_prepared ''max_prepared_bytes'') (\<lambda>prepared.
     res_bind (positive max_pinned ''max_pinned_bytes'') (\<lambda>pinned.
     if device \<noteq> ''cuda'' then Inl (ValueErr ''prepared wire weights require a CUDA target'') else
     res_bind (mapR (\<lambda>(v, name). positive v name) (zip queue_options
       [''max_in_flight'', ''max_output_bytes'', ''max_scratch_bytes'', ''gather_threads''])) (\<lambda>_.
     if dtype \<noteq> ''float32'' \<and> dtype \<noteq> ''float16''
     then Inl (ValueErr ''output dtype must be float32 or float16'')
     else Inr \<lparr>ww_budget = new_budget prepared pinned entries, ww_max_entries = entries, ww_pin = pin,
       ww_output_dtype = dtype, ww_pid = pid, ww_entries = [], ww_retired = [], ww_closed = False,
       ww_revision = 0\<rparr>))))"

section \<open>Operations\<close>

definition weights_open :: "int \<Rightarrow> weights \<Rightarrow> unit res" where
  "weights_open pid w = (if ww_pid w \<noteq> pid then Inl (RuntimeErr ''prepared wire weights belong to another process'')
     else if ww_closed w then Inl (RuntimeErr ''prepared wire weights are closed'') else Inr ())"

definition weight_tensor_ok :: "host_tensor \<Rightarrow> string \<Rightarrow> nat \<Rightarrow> bool" where
  "weight_tensor_ok t dtype rank \<longleftrightarrow> ht_plain t \<and> ht_device t = ''cpu'' \<and> ht_dtype t = dtype \<and>
     length (ht_shape t) = rank \<and> ht_contiguous t \<and> \<not> ht_requires_grad t \<and> list_all (\<lambda>n. 0 < n) (ht_shape t)"

definition weight_info_of :: "string \<Rightarrow> nat \<Rightarrow> int \<Rightarrow> int \<Rightarrow> string \<Rightarrow> bool \<Rightarrow> weight_info" where
  "weight_info_of name revision rows cols dtype pin = (let
     wire = nat (rows * cols); parameter = nat cols * 4 in
     \<lparr>wi_name = name, wi_revision = revision, wi_shape = [cols, rows], wi_output_dtype = dtype,
      wi_wire_bytes = wire, wi_parameter_bytes = parameter, wi_payload_bytes = wire + parameter,
      wi_output_bytes = wire * (if dtype = ''float16'' then 2 else 4),
      wi_prepared_bytes = wire + 2 * parameter + 4, wi_pinned_bytes = (if pin then wire else 0)\<rparr>)"

text \<open>
  How the native part of a preparation ends: with an exception before the packed storage and its
  finalizer exist, with one after, or well.
\<close>

datatype build = FailsEarly exn | FailsLate exn | Builds

definition check_weight_inputs :: "string \<Rightarrow> host_tensor \<Rightarrow> host_tensor \<Rightarrow> weights \<Rightarrow> unit res" where
  "check_weight_inputs name q scale w =
     (if name = [] then Inl (ValueErr ''name must be a nonempty string'')
      else if name \<notin> set (od_keys (ww_entries w)) \<and> int (length (ww_entries w)) \<ge> ww_max_entries w
      then Inl (BufferErr ''prepared weight entry budget exceeded'')
      else if \<not> weight_tensor_ok q ''int8'' 2 \<or> \<not> weight_tensor_ok scale ''float32'' 1
      then Inl (ValueErr ''weights require dense CPU int8[in,out] and float32[out] inference tensors'')
      else if ht_shape scale \<noteq> [ht_shape q ! 1]
      then Inl (ValueErr ''scale must have one entry per output channel'') else Inr ())"

text \<open>The storage an assignment to \<open>_entries[name]\<close> drops from lookup.\<close>

definition replaced :: "string \<Rightarrow> weights \<Rightarrow> (nat \<times> nat) list" where
  "replaced name w = (case map_of (ww_entries w) name of None \<Rightarrow> [] | Some i \<Rightarrow> [holding i])"

definition prepare ::
  "int \<Rightarrow> string \<Rightarrow> host_tensor \<Rightarrow> host_tensor \<Rightarrow> build \<Rightarrow> weights \<Rightarrow> weight_info res \<times> weights" where
  "prepare pid name q scale build w =
     (case res_bind (weights_open pid w) (\<lambda>_. check_weight_inputs name q scale w) of
        Inl e \<Rightarrow> (Inl e, w)
      | Inr _ \<Rightarrow>
        (let info = weight_info_of name (Suc (ww_revision w)) (ht_shape q ! 0) (ht_shape q ! 1)
             (ww_output_dtype w) (ww_pin w) in
         case budget_reserve (holding info) (ww_budget w) of
           Inl e \<Rightarrow> (Inl e, w)
         | Inr b \<Rightarrow> (case build of
             FailsEarly e \<Rightarrow> (Inl e, w\<lparr>ww_budget := budget_release (holding info) b\<rparr>)
           | FailsLate e \<Rightarrow> (Inl e, w\<lparr>ww_budget := b, ww_retired := holding info # ww_retired w\<rparr>)
           | Builds \<Rightarrow> (Inr info, w\<lparr>ww_budget := b, ww_retired := replaced name w @ ww_retired w,
               ww_entries := od_set name info (ww_entries w), ww_revision := Suc (ww_revision w)\<rparr>))))"

text \<open>The garbage collector running one retired storage's finalizer.\<close>

definition collect_retired :: "nat \<Rightarrow> weights \<Rightarrow> weights" where
  "collect_retired i w = (if i < length (ww_retired w)
     then w\<lparr>ww_budget := budget_release (ww_retired w ! i) (ww_budget w),
       ww_retired := take i (ww_retired w) @ drop (Suc i) (ww_retired w)\<rparr>
     else w)"

definition describe :: "int \<Rightarrow> string \<Rightarrow> weights \<Rightarrow> weight_info res" where
  "describe pid name w = res_bind (weights_open pid w) (\<lambda>_.
     case map_of (ww_entries w) name of None \<Rightarrow> Inl (KeyErr name) | Some i \<Rightarrow> Inr i)"

definition invalidate :: "int \<Rightarrow> string option \<Rightarrow> weights \<Rightarrow> weights res" where
  "invalidate pid name w = res_bind (weights_open pid w) (\<lambda>_.
     case name of
       None \<Rightarrow> Inr (w\<lparr>ww_entries := [], ww_retired := map (\<lambda>e. holding (snd e)) (ww_entries w) @ ww_retired w\<rparr>)
     | Some n \<Rightarrow> (case map_of (ww_entries w) n of
         None \<Rightarrow> Inl (KeyErr n)
       | Some i \<Rightarrow> Inr (w\<lparr>ww_entries := od_del n (ww_entries w), ww_retired := holding i # ww_retired w\<rparr>)))"

text \<open>The entries of \<open>_group\<close>, whose immutable revisions a transfer then owns.\<close>

definition weight_group :: "int \<Rightarrow> string list \<Rightarrow> weights \<Rightarrow> weight_info list res" where
  "weight_group pid names w = res_bind (weights_open pid w) (\<lambda>_.
     if \<not> (1 \<le> length names \<and> length names \<le> 256)
     then Inl (ValueErr ''a group must contain between 1 and 256 weights'')
     else mapR (\<lambda>n. case map_of (ww_entries w) n of None \<Rightarrow> Inl (KeyErr n) | Some i \<Rightarrow> Inr i) names)"

definition close_weights :: "int \<Rightarrow> weights \<Rightarrow> weights res" where
  "close_weights pid w = (if ww_pid w \<noteq> pid
     then Inl (RuntimeErr ''prepared wire weights belong to another process'')
     else Inr (w\<lparr>ww_closed := True, ww_entries := [],
       ww_retired := map (\<lambda>e. holding (snd e)) (ww_entries w) @ ww_retired w\<rparr>))"

definition weights_stats :: "int \<Rightarrow> weights \<Rightarrow> (string \<times> int) list res" where
  "weights_stats pid w = (if ww_pid w \<noteq> pid
     then Inl (RuntimeErr ''prepared wire weights belong to another process'')
     else (let b = ww_budget w in Inr [
       (''entries'', int (length (ww_entries w))), (''live_snapshots'', bd_entries b),
       (''revisions'', int (ww_revision w)), (''prepared_bytes'', bd_live b), (''pinned_bytes'', bd_pinned b),
       (''peak_prepared_bytes'', bd_peak b), (''peak_pinned_bytes'', bd_pin_peak b)]))"

section \<open>Invariant\<close>

definition live_holdings :: "weights \<Rightarrow> (nat \<times> nat) multiset" where
  "live_holdings w = mset (map (\<lambda>e. holding (snd e)) (ww_entries w)) + mset (ww_retired w)"

definition weights_ok :: "weights \<Rightarrow> bool" where
  "weights_ok w \<longleftrightarrow> od_ok (ww_entries w) \<and> int (length (ww_entries w)) \<le> ww_max_entries w \<and>
     budget_accounts (ww_budget w) (live_holdings w) \<and>
     (\<forall>(n, i)\<in>set (ww_entries w). wi_name i = n \<and> wi_revision i \<le> ww_revision w)"

lemma weights_okD:
  assumes "weights_ok w"
  shows "od_ok (ww_entries w)" "int (length (ww_entries w)) \<le> ww_max_entries w"
    "budget_accounts (ww_budget w) (live_holdings w)"
    "(n, i) \<in> set (ww_entries w) \<Longrightarrow> wi_name i = n \<and> wi_revision i \<le> ww_revision w"
  using assms by (auto simp: weights_ok_def)

lemma new_weights_ok: "new_weights pid pin n p q device opts dtype = Inr w \<Longrightarrow> weights_ok w"
  by (auto simp: new_weights_def weights_ok_def od_ok_def od_keys_def live_holdings_def positive_def
      intro!: new_budget_accounts split: if_splits pyint.splits)

text \<open>Replacing or dropping an entry moves its holding to the retired ones; the total stays.\<close>

lemma holdings_set:
  assumes "od_ok d"
  shows "mset (map (\<lambda>e. h (snd e)) (od_set k v d)) +
      mset (case map_of d k of None \<Rightarrow> [] | Some i \<Rightarrow> [h i]) = add_mset (h v) (mset (map (\<lambda>e. h (snd e)) d))"
  using assms
proof (induction k v d rule: od_set.induct)
  case (2 k v k' v' d)
  then show ?case by (auto simp: od_ok_def od_keys_def ac_simps)
qed simp

lemma holdings_del:
  assumes "od_ok d" and "map_of d k = Some i"
  shows "add_mset (h i) (mset (map (\<lambda>e. h (snd e)) (od_del k d))) = mset (map (\<lambda>e. h (snd e)) d)"
  using assms
proof (induction d)
  case (Cons e d)
  show ?case
  proof (cases "fst e = k")
    case True
    with Cons.prems(2) have "i = snd e" by auto
    moreover have "k \<notin> fst ` set d" using Cons.prems(1) True by (auto simp: od_ok_def od_keys_def)
    then have "\<forall>e'\<in>set d. fst e' \<noteq> k" by (metis imageI)
    then have "od_del k d = d" by (simp add: od_del_def filter_id_conv)
    ultimately have "od_del k d = d" "i = snd e" by simp_all
    with True show ?thesis by (simp add: od_del_def)
  next
    case False
    with Cons show ?thesis by (auto simp: od_ok_def od_keys_def od_del_def)
  qed
qed simp

lemma od_set_members: "e \<in> set (od_set k v d) \<Longrightarrow> e = (k, v) \<or> e \<in> set d"
  by (induction k v d rule: od_set.induct) (auto split: if_splits)

lemma prepare_ok:
  assumes ok: "weights_ok w" and p: "prepare pid name q scale build w = (r, w')"
  shows "weights_ok w'"
proof (cases "res_bind (weights_open pid w) (\<lambda>_. check_weight_inputs name q scale w)")
  case (Inl e)
  with p ok show ?thesis by (simp add: prepare_def)
next
  case (Inr u)
  note D = weights_okD [OF ok]
  define info where "info = weight_info_of name (Suc (ww_revision w)) (ht_shape q ! 0) (ht_shape q ! 1)
    (ww_output_dtype w) (ww_pin w)"
  have p': "(r, w') = (case budget_reserve (holding info) (ww_budget w) of
      Inl e \<Rightarrow> (Inl e, w)
    | Inr b \<Rightarrow> (case build of
        FailsEarly e \<Rightarrow> (Inl e, w\<lparr>ww_budget := budget_release (holding info) b\<rparr>)
      | FailsLate e \<Rightarrow> (Inl e, w\<lparr>ww_budget := b, ww_retired := holding info # ww_retired w\<rparr>)
      | Builds \<Rightarrow> (Inr info, w\<lparr>ww_budget := b, ww_retired := replaced name w @ ww_retired w,
          ww_entries := od_set name info (ww_entries w), ww_revision := Suc (ww_revision w)\<rparr>)))"
    unfolding p [symmetric] prepare_def Inr info_def Let_def by (simp only: sum.case)
  show ?thesis
  proof (cases "budget_reserve (holding info) (ww_budget w)")
    case (Inl e)
    with p' ok show ?thesis by simp
  next
    case b: (Inr b)
    have acc: "budget_accounts b (add_mset (holding info) (live_holdings w))"
      by (rule budget_reserve_accounts [OF D(3) b])
    show ?thesis
    proof (cases build)
      case (FailsEarly e)
      with p' b budget_release_accounts [OF acc] ok show ?thesis
        by (auto simp: weights_ok_def live_holdings_def)
    next
      case (FailsLate e)
      with p' b acc ok show ?thesis
        by (auto simp: weights_ok_def live_holdings_def)
    next
      case Builds
      have w': "w' = w\<lparr>ww_budget := b, ww_retired := replaced name w @ ww_retired w,
          ww_entries := od_set name info (ww_entries w), ww_revision := Suc (ww_revision w)\<rparr>"
        using p' b Builds by simp
      have "live_holdings w' = add_mset (holding info) (live_holdings w)"
        using holdings_set [OF D(1), of holding name info]
        by (simp add: live_holdings_def w' replaced_def)
      then have "budget_accounts (ww_budget w') (live_holdings w')" using acc by (simp add: w')
      moreover have "int (length (ww_entries w')) \<le> ww_max_entries w'"
        using Inr D(2) by (auto simp: w' length_od_set check_weight_inputs_def split: if_splits)
      moreover have "wi_name info = name" "wi_revision info = Suc (ww_revision w)"
        by (simp_all add: info_def weight_info_of_def Let_def)
      then have "\<forall>(n, i)\<in>set (ww_entries w'). wi_name i = n \<and> wi_revision i \<le> ww_revision w'"
        using D(4) by (auto simp: w' dest!: od_set_members intro: le_SucI)
      moreover have "od_ok (ww_entries w')" using D(1) by (auto simp: w')
      ultimately show ?thesis by (simp add: weights_ok_def)
    qed
  qed
qed

lemma invalidate_ok:
  assumes ok: "weights_ok w" and i: "invalidate pid name w = Inr w'"
  shows "weights_ok w'"
proof -
  note D = weights_okD [OF ok]
  show ?thesis
  proof (cases name)
    case None
    with i have "w' = w\<lparr>ww_entries := [], ww_retired := map (\<lambda>e. holding (snd e)) (ww_entries w) @ ww_retired w\<rparr>"
      by (auto simp: invalidate_def)
    with ok show ?thesis by (auto simp: weights_ok_def live_holdings_def od_ok_def od_keys_def)
  next
    case (Some n)
    with i obtain e where e: "map_of (ww_entries w) n = Some e"
      and w': "w' = w\<lparr>ww_entries := od_del n (ww_entries w), ww_retired := holding e # ww_retired w\<rparr>"
      by (auto simp: invalidate_def split: option.splits)
    have "live_holdings w' = live_holdings w"
      using holdings_del [OF D(1) e, of holding] by (simp add: live_holdings_def w')
    moreover have "set (ww_entries w') \<subseteq> set (ww_entries w)" by (auto simp: w' od_del_def)
    moreover have "od_ok (ww_entries w')" using D(1) by (auto simp: w')
    ultimately show ?thesis using D length_od_del [of n "ww_entries w"]
      by (auto simp: weights_ok_def w')
  qed
qed

lemma close_weights_ok: "weights_ok w \<Longrightarrow> close_weights pid w = Inr w' \<Longrightarrow> weights_ok w'"
  by (auto simp: close_weights_def weights_ok_def live_holdings_def od_ok_def od_keys_def split: if_splits)

lemma collect_retired_ok:
  assumes "weights_ok w"
  shows "weights_ok (collect_retired i w)"
proof (cases "i < length (ww_retired w)")
  case True
  have "mset (ww_retired w) = add_mset (ww_retired w ! i) (mset (take i (ww_retired w) @ drop (Suc i) (ww_retired w)))"
    by (subst id_take_nth_drop [OF True]) simp
  then have "live_holdings w = add_mset (ww_retired w ! i) (live_holdings (collect_retired i w))"
    using True by (simp add: live_holdings_def collect_retired_def)
  with weights_okD(3) [OF assms]
  have "budget_accounts (budget_release (ww_retired w ! i) (ww_budget w)) (live_holdings (collect_retired i w))"
    by (metis budget_release_accounts)
  with assms True show ?thesis by (auto simp: weights_ok_def collect_retired_def)
qed (use assms in \<open>simp add: collect_retired_def\<close>)

text \<open>A failed preparation leaves every published revision as it was.\<close>

lemma prepare_failure:
  "prepare pid name q scale build w = (Inl e, w') \<Longrightarrow>
     ww_entries w' = ww_entries w \<and> ww_revision w' = ww_revision w \<and> ww_closed w' = ww_closed w"
  by (auto simp: prepare_def Let_def split: sum.splits build.splits)

lemma prepare_success:
  "prepare pid name q scale build w = (Inr info, w') \<Longrightarrow>
     map_of (ww_entries w') = (map_of (ww_entries w))(name \<mapsto> info) \<and> wi_name info = name \<and>
     wi_revision info = Suc (ww_revision w) \<and> ww_revision w' = Suc (ww_revision w)"
  by (auto simp: prepare_def Let_def weight_info_of_def split: sum.splits build.splits)

section \<open>The recipe\<close>

lemma wire_recipe_typed: "recipe_typed (wire_recipe dtype)" and wire_recipe_layout: "\<not> recipe_indexed (wire_recipe dtype)"
  by (simp_all add: recipe_typed_def recipe_indexed_def wire_recipe_def Let_def)

lemma wire_recipe_emits:
  "\<exists>mlir. emit_mlir (wire_recipe ''float32'') = Inr mlir" "\<exists>mlir. emit_mlir (wire_recipe ''float16'') = Inr mlir"
proof -
  have "case emit_mlir (wire_recipe ''float32'') of Inr m \<Rightarrow> True | Inl e \<Rightarrow> False" by code_simp
  then show "\<exists>mlir. emit_mlir (wire_recipe ''float32'') = Inr mlir" by (auto split: sum.splits)
  have "case emit_mlir (wire_recipe ''float16'') of Inr m \<Rightarrow> True | Inl e \<Rightarrow> False" by code_simp
  then show "\<exists>mlir. emit_mlir (wire_recipe ''float16'') = Inr mlir" by (auto split: sum.splits)
qed

lemma wire_recipe_wf: "wf_recipe (wire_recipe ''float32'') \<and> wf_recipe (wire_recipe ''float16'')"
  by code_simp

section \<open>Sequences of operations\<close>

datatype weight_op =
    Prepare string host_tensor host_tensor build
  | Invalidate "string option"
  | Collect nat
  | Close

fun weight_run :: "int \<Rightarrow> weight_op \<Rightarrow> weights \<Rightarrow> weights" where
  "weight_run pid (Prepare name q scale b) w = snd (prepare pid name q scale b w)"
| "weight_run pid (Invalidate name) w = (case invalidate pid name w of Inl _ \<Rightarrow> w | Inr w' \<Rightarrow> w')"
| "weight_run pid (Collect i) w = collect_retired i w"
| "weight_run pid Close w = (case close_weights pid w of Inl _ \<Rightarrow> w | Inr w' \<Rightarrow> w')"

lemma weight_run_ok: "weights_ok w \<Longrightarrow> weights_ok (weight_run pid op w)"
  by (cases op) (auto intro: collect_retired_ok invalidate_ok close_weights_ok prepare_ok [OF _ surjective_pairing]
      split: sum.splits)

lemma weight_runs_ok: "weights_ok w \<Longrightarrow> weights_ok (fold (weight_run pid) ops w)"
  by (induction ops arbitrary: w) (simp_all add: weight_run_ok)

end
