(* ===== verification/Transfer_Queue.thy ===== *)
theory Transfer_Queue
  imports Ledger Shapes
begin

text \<open>
  \<open>reloc_torch/asynchronous.py\<close>: bounded submission of transfers, the completion handle of each and
  the prefetch window.  The queue's lock makes every method one atomic step.  CUDA and the native
  runtime are the fields of \<open>gpu\<close>, an argument: each call either succeeds or raises.
\<close>

section \<open>Output bytes\<close>

record descriptor =
  de_shape :: "int list"
  de_strides :: "int list"
  de_itemsize :: int

definition descriptor_bytes :: "descriptor \<Rightarrow> int" where
  "descriptor_bytes d = (if 0 \<in> set (de_shape d) then 0
     else 1 + sum_list (map (\<lambda>(n, s). (n - 1) * s) (zip (de_shape d) (de_strides d)))) * de_itemsize d"

definition output_bytes :: "descriptor list \<Rightarrow> int" where
  "output_bytes ds = sum_list (map descriptor_bytes ds)"

text \<open>For a dense row-major output the span is the element count.\<close>

lemma span_row_major: "1 + sum_list (map (\<lambda>(n, s). (n - 1) * s) (zip ns (row_major ns))) = prod_list ns"
  by (induction ns) (auto simp: algebra_simps)

lemma descriptor_bytes_dense:
  assumes "de_strides d = row_major (de_shape d)"
  shows "descriptor_bytes d = prod_list (de_shape d) * de_itemsize d"
proof (cases "0 \<in> set (de_shape d)")
  case True
  then have "prod_list (de_shape d) = 0" by (simp add: prod_list_zero_iff)
  with True show ?thesis by (simp add: descriptor_bytes_def)
next
  case False
  with span_row_major [of "de_shape d"] assms show ?thesis by (simp add: descriptor_bytes_def)
qed

section \<open>State\<close>

record handle =
  hd_size :: nat
  hd_cuda :: bool
  hd_consumers :: "string list"
  hd_retired :: "string list"
  hd_released :: bool

record report_item =
  ri_source_bytes :: int
  ri_wire_bytes :: int
  ri_destination_bytes :: int
  ri_payload_bytes :: int
  ri_implementation :: string

record group_report =
  gr_logical_transfers :: int
  gr_items :: "report_item list"

record totals =
  to_groups :: nat
  to_logical_transfers :: int
  to_source_bytes :: int
  to_wire_bytes :: int
  to_destination_bytes :: int
  to_payload_bytes :: int
  to_dispatches :: "(string, int) odict"

record queue =
  qu_device :: string
  qu_max_in_flight :: int
  qu_max_output_bytes :: int
  qu_pid :: int
  qu_closed :: bool
  qu_held :: "(nat, handle) odict"
  qu_bytes :: int
  qu_submitted :: nat
  qu_peak_bytes :: int
  qu_peak_handles :: int
  qu_totals :: totals
  qu_quarantine :: "nat list"
  qu_owns_resources :: bool

text \<open>Handles are numbered in the order of submission; \<open>None\<close> is success.\<close>

record gpu =
  gp_wait :: "nat \<Rightarrow> exn option"
  gp_wait_stream :: "nat \<Rightarrow> string \<Rightarrow> exn option"
  gp_query :: "nat \<Rightarrow> bool res"
  gp_record_event :: "nat \<Rightarrow> string \<Rightarrow> exn option"
  gp_synchronize :: "nat \<Rightarrow> string \<Rightarrow> exn option"
  gp_report :: "nat \<Rightarrow> group_report"
  gp_current_stream :: string
  gp_stream_device :: "string \<Rightarrow> string"
  gp_close_resources :: "exn option"

definition attempt :: "exn option \<Rightarrow> unit res" where
  "attempt e = (case e of None \<Rightarrow> Inr () | Some x \<Rightarrow> Inl x)"

definition check_queue :: "int \<Rightarrow> queue \<Rightarrow> unit res" where
  "check_queue pid q = ensure (qu_pid q = pid) (RuntimeErr ''transfer queue belongs to another process'')"

text \<open>A closed handle is no longer held, so the held table has exactly the open ones.\<close>

definition open_handle :: "int \<Rightarrow> nat \<Rightarrow> queue \<Rightarrow> handle res" where
  "open_handle pid h q = res_bind (check_queue pid q) (\<lambda>_. case map_of (qu_held q) h of
     None \<Rightarrow> Inl (RuntimeErr ''transfer completion is closed'') | Some x \<Rightarrow> Inr x)"

definition set_handle :: "nat \<Rightarrow> handle \<Rightarrow> queue \<Rightarrow> queue" where
  "set_handle h x q = q\<lparr>qu_held := od_set h x (qu_held q)\<rparr>"

definition record_consumer :: "string \<Rightarrow> handle \<Rightarrow> handle" where
  "record_consumer s x = (if s \<in> set (hd_consumers x) then x else x\<lparr>hd_consumers := hd_consumers x @ [s]\<rparr>)"

text \<open>\<open>_record\<close>: a finished group's report enters the queue's totals.\<close>

definition record_item :: "report_item \<Rightarrow> totals \<Rightarrow> totals" where
  "record_item i t = t\<lparr>to_source_bytes := to_source_bytes t + ri_source_bytes i,
     to_wire_bytes := to_wire_bytes t + ri_wire_bytes i,
     to_destination_bytes := to_destination_bytes t + ri_destination_bytes i,
     to_payload_bytes := to_payload_bytes t + ri_payload_bytes i,
     to_dispatches := bump (ri_implementation i) (to_dispatches t)\<rparr>"

definition record_report :: "group_report \<Rightarrow> totals \<Rightarrow> totals" where
  "record_report r t = fold record_item (gr_items r) (t\<lparr>to_groups := Suc (to_groups t),
     to_logical_transfers := to_logical_transfers t + gr_logical_transfers r\<rparr>)"

section \<open>Completions\<close>

definition handle_done :: "gpu \<Rightarrow> int \<Rightarrow> nat \<Rightarrow> queue \<Rightarrow> bool res" where
  "handle_done g pid h q = res_bind (open_handle pid h q) (\<lambda>_. gp_query g h)"

definition handle_wait :: "gpu \<Rightarrow> int \<Rightarrow> nat \<Rightarrow> queue \<Rightarrow> queue res" where
  "handle_wait g pid h q = res_bind (open_handle pid h q) (\<lambda>x.
     res_bind (attempt (gp_wait g h)) (\<lambda>_.
       Inr (if \<not> hd_released x \<and> hd_cuda x
            then set_handle h (record_consumer (gp_current_stream g) x) q else q)))"

definition check_stream :: "gpu \<Rightarrow> string \<Rightarrow> queue \<Rightarrow> unit res" where
  "check_stream g s q = ensure (gp_stream_device g s = qu_device q)
     (ValueErr ''stream must belong to the transfer queue device'')"

definition handle_wait_stream :: "gpu \<Rightarrow> int \<Rightarrow> nat \<Rightarrow> string option \<Rightarrow> queue \<Rightarrow> queue res" where
  "handle_wait_stream g pid h stream q = res_bind (open_handle pid h q) (\<lambda>x.
     if hd_released x then Inl (RuntimeErr ''consumer use was already released'') else
     let s = (case stream of None \<Rightarrow> gp_current_stream g | Some s \<Rightarrow> s) in
     res_bind (check_stream g s q) (\<lambda>_.
     res_bind (attempt (gp_wait_stream g h s)) (\<lambda>_.
       Inr (set_handle h (record_consumer s x) q))))"

text \<open>The loop of \<open>release\<close>: an event per consumer stream; a failure leaves those recorded so far.\<close>

fun record_events :: "gpu \<Rightarrow> nat \<Rightarrow> string list \<Rightarrow> handle \<Rightarrow> handle \<times> exn option" where
  "record_events g h [] x = (x\<lparr>hd_released := True\<rparr>, None)"
| "record_events g h (s # ss) x = (case gp_record_event g h s of
     Some e \<Rightarrow> (x, Some e)
   | None \<Rightarrow> record_events g h ss (x\<lparr>hd_retired := hd_retired x @ [s]\<rparr>))"

definition release_handle :: "gpu \<Rightarrow> nat \<Rightarrow> handle \<Rightarrow> handle \<times> exn option" where
  "release_handle g h x = (if hd_released x then (x, None) else record_events g h (hd_consumers x) x)"

definition handle_release :: "gpu \<Rightarrow> int \<Rightarrow> nat \<Rightarrow> queue \<Rightarrow> queue \<times> exn option" where
  "handle_release g pid h q = (case open_handle pid h q of
     Inl e \<Rightarrow> (q, Some e)
   | Inr x \<Rightarrow> (let (x', e) = release_handle g h x in (set_handle h x' q, e)))"

fun first_error :: "exn option list \<Rightarrow> exn option" where
  "first_error [] = None"
| "first_error (None # es) = first_error es"
| "first_error (Some e # es) = Some e"

text \<open>
  \<open>close\<close>: end the consumers, drain the producer, wait for the consumers, and give the reservation
  back whatever failed; the first failure is raised at the end.  Consumers whose completion is
  unknown are quarantined and the queue refuses further work.
\<close>

definition close_handle :: "gpu \<Rightarrow> nat \<Rightarrow> queue \<Rightarrow> queue \<times> exn option" where
  "close_handle g h q = (case map_of (qu_held q) h of
     None \<Rightarrow> (q, None)
   | Some x \<Rightarrow> (let
       (x', released) = release_handle g h x;
       drained = gp_wait g h;
       q1 = (if drained = None then q\<lparr>qu_totals := record_report (gp_report g h) (qu_totals q)\<rparr> else q);
       synced = first_error (map (gp_synchronize g h) (if hd_released x' then hd_retired x' else hd_consumers x'));
       q2 = (if synced = None then q1 else q1\<lparr>qu_quarantine := h # qu_quarantine q1, qu_closed := True\<rparr>)
     in (q2\<lparr>qu_held := od_del h (qu_held q2), qu_bytes := qu_bytes q2 - int (hd_size x)\<rparr>,
         first_error [released, drained, synced])))"

definition handle_close :: "gpu \<Rightarrow> int \<Rightarrow> nat \<Rightarrow> queue \<Rightarrow> queue \<times> exn option" where
  "handle_close g pid h q = (case check_queue pid q of Inl e \<Rightarrow> (q, Some e) | Inr _ \<Rightarrow> close_handle g h q)"

section \<open>The queue\<close>

definition can_submit :: "nat \<Rightarrow> queue \<Rightarrow> bool" where
  "can_submit sz q \<longleftrightarrow> \<not> qu_closed q \<and> int (length (qu_held q)) < qu_max_in_flight q \<and>
     qu_bytes q + int sz \<le> qu_max_output_bytes q"

definition reserve_slot :: "nat \<times> handle \<Rightarrow> queue \<Rightarrow> queue res" where
  "reserve_slot hx q = (let sz = hd_size (snd hx) in
     if \<not> can_submit sz q
     then Inl (BufferErr ''transfer queue output/slot budget exceeded; close a prior completion'')
     else Inr (q\<lparr>qu_held := od_set (fst hx) (snd hx) (qu_held q), qu_bytes := qu_bytes q + int sz,
       qu_submitted := Suc (qu_submitted q), qu_peak_bytes := max (qu_peak_bytes q) (qu_bytes q + int sz),
       qu_peak_handles := max (qu_peak_handles q) (int (length (qu_held q)) + 1)\<rparr>))"

text \<open>
  \<open>submit\<close>: \<open>d2h\<close> says whether some request reads the device, \<open>launch\<close> is how the native group
  execution ends, \<open>sz\<close> its output bytes.  The new handle is numbered \<open>qu_submitted\<close>.
\<close>

definition submit ::
  "gpu \<Rightarrow> int \<Rightarrow> string \<Rightarrow> nat \<Rightarrow> bool \<Rightarrow> bool \<Rightarrow> string option \<Rightarrow> exn option \<Rightarrow> queue \<Rightarrow> nat res \<times> queue" where
  "submit g pid device sz d2h cuda producer launch q =
     (case res_bind (check_queue pid q) (\<lambda>_.
        res_bind (ensure (\<not> qu_closed q) (RuntimeErr ''transfer queue is closed'')) (\<lambda>_.
        res_bind (ensure (device = qu_device q) (ValueErr ''group device differs from the transfer queue'')) (\<lambda>_.
        res_bind (ensure (can_submit sz q)
          (BufferErr ''transfer queue output/slot budget exceeded; close a prior completion'')) (\<lambda>_.
        res_bind (case (if producer = None \<and> d2h then Some (gp_current_stream g) else producer) of
            None \<Rightarrow> Inr () | Some s \<Rightarrow> check_stream g s q) (\<lambda>_. attempt launch))))) of
      Inl e \<Rightarrow> (Inl e, q)
    | Inr _ \<Rightarrow>
      (let h = qu_submitted q;
           x = \<lparr>hd_size = sz, hd_cuda = cuda, hd_consumers = [], hd_retired = [], hd_released = False\<rparr>
       in case reserve_slot (h, x) q of Inl e \<Rightarrow> (Inl e, q) | Inr q' \<Rightarrow> (Inr h, q')))"

fun close_all :: "gpu \<Rightarrow> nat list \<Rightarrow> queue \<Rightarrow> queue \<times> exn option" where
  "close_all g [] q = (q, None)"
| "close_all g (h # hs) q = (let (q1, e) = close_handle g h q; (q2, e') = close_all g hs q1
     in (q2, first_error [e, e']))"

definition close_queue :: "gpu \<Rightarrow> int \<Rightarrow> queue \<Rightarrow> queue \<times> exn option" where
  "close_queue g pid q = (case check_queue pid q of
     Inl e \<Rightarrow> (q, Some e)
   | Inr _ \<Rightarrow> (let (q', e) = close_all g (od_keys (qu_held q)) (q\<lparr>qu_closed := True\<rparr>)
       in (q', first_error [e, if qu_owns_resources q then gp_close_resources g else None])))"

section \<open>The reservation account\<close>

definition held_sizes :: "queue \<Rightarrow> int" where
  "held_sizes q = sum_list (map (\<lambda>e. int (hd_size (snd e))) (qu_held q))"

definition queue_ok :: "queue \<Rightarrow> bool" where
  "queue_ok q \<longleftrightarrow> od_ok (qu_held q) \<and> (\<forall>h\<in>set (od_keys (qu_held q)). h < qu_submitted q) \<and>
     qu_bytes q = held_sizes q \<and> qu_bytes q \<le> qu_max_output_bytes q \<and>
     int (length (qu_held q)) \<le> qu_max_in_flight q \<and>
     qu_bytes q \<le> qu_peak_bytes q \<and> qu_peak_bytes q \<le> qu_max_output_bytes q \<and>
     int (length (qu_held q)) \<le> qu_peak_handles q \<and> qu_peak_handles q \<le> qu_max_in_flight q"

lemma queue_okD:
  assumes "queue_ok q"
  shows "od_ok (qu_held q)" "h \<in> set (od_keys (qu_held q)) \<Longrightarrow> h < qu_submitted q"
    "qu_bytes q = held_sizes q" "qu_bytes q \<le> qu_max_output_bytes q"
    "int (length (qu_held q)) \<le> qu_max_in_flight q" "qu_bytes q \<le> qu_peak_bytes q"
    "qu_peak_bytes q \<le> qu_max_output_bytes q" "int (length (qu_held q)) \<le> qu_peak_handles q"
    "qu_peak_handles q \<le> qu_max_in_flight q"
  using assms by (auto simp: queue_ok_def)

lemma sizes_set:
  "od_ok d \<Longrightarrow> sum_list (map (\<lambda>e. int (hd_size (snd e))) (od_set h x d)) =
     sum_list (map (\<lambda>e. int (hd_size (snd e))) d) + int (hd_size x) -
     (case map_of d h of None \<Rightarrow> 0 | Some y \<Rightarrow> int (hd_size y))"
proof (induction h x d rule: od_set.induct)
  case (2 h x h' x' d)
  then show ?case by (auto simp: od_ok_def od_keys_def split: option.splits)
qed simp

lemma sizes_del:
  "od_ok d \<Longrightarrow> map_of d h = Some x \<Longrightarrow>
     sum_list (map (\<lambda>e. int (hd_size (snd e))) (od_del h d)) =
     sum_list (map (\<lambda>e. int (hd_size (snd e))) d) - int (hd_size x)"
proof (induction d)
  case (Cons e d)
  show ?case
  proof (cases "fst e = h")
    case True
    then have "h \<notin> fst ` set d" using Cons.prems(1) by (auto simp: od_ok_def od_keys_def)
    then have "\<forall>e'\<in>set d. fst e' \<noteq> h" by (metis imageI)
    then have "od_del h d = d" by (simp add: od_del_def filter_id_conv)
    with True Cons.prems(2) show ?thesis by (auto simp: od_del_def)
  next
    case False
    with Cons show ?thesis by (auto simp: od_ok_def od_keys_def od_del_def)
  qed
qed simp

lemma length_del: "od_ok d \<Longrightarrow> map_of d h = Some x \<Longrightarrow> length (od_del h d) = length d - 1"
proof (induction d)
  case (Cons e d)
  show ?case
  proof (cases "fst e = h")
    case True
    then have "h \<notin> fst ` set d" using Cons.prems(1) by (auto simp: od_ok_def od_keys_def)
    then have "\<forall>e'\<in>set d. fst e' \<noteq> h" by (metis imageI)
    then have "od_del h d = d" by (simp add: od_del_def filter_id_conv)
    with True show ?thesis by (simp add: od_del_def)
  next
    case False
    with Cons have "od_ok d" "map_of d h = Some x" by (auto simp: od_ok_def od_keys_def)
    moreover from this(2) have "d \<noteq> []" by auto
    ultimately show ?thesis using Cons.IH False by (cases d) (auto simp: od_del_def)
  qed
qed simp

lemma reserve_slot_ok:
  assumes ok: "queue_ok q" and fresh: "h = qu_submitted q" and r: "reserve_slot (h, x) q = Inr q'"
  shows "queue_ok q'"
proof -
  note D = queue_okD [OF ok]
  have new: "h \<notin> set (od_keys (qu_held q))" using D(2) fresh by blast
  then have none: "map_of (qu_held q) h = None" by (simp add: od_keys_def map_of_eq_None_iff)
  from r have can: "can_submit (hd_size x) q" and q': "q' = q\<lparr>qu_held := od_set h x (qu_held q),
      qu_bytes := qu_bytes q + int (hd_size x), qu_submitted := Suc (qu_submitted q),
      qu_peak_bytes := max (qu_peak_bytes q) (qu_bytes q + int (hd_size x)),
      qu_peak_handles := max (qu_peak_handles q) (int (length (qu_held q)) + 1)\<rparr>"
    by (auto simp: reserve_slot_def Let_def split: if_splits)
  have len: "length (od_set h x (qu_held q)) = Suc (length (qu_held q))" using new by (simp add: length_od_set)
  have "h' < Suc (qu_submitted q)" if "h' \<in> set (od_keys (od_set h x (qu_held q)))" for h'
    using that D(2) fresh by (auto simp: od_keys_set intro: less_SucI)
  moreover have "held_sizes q' = qu_bytes q'"
    using sizes_set [OF D(1), of h x] none D(3) by (simp add: q' held_sizes_def)
  ultimately show ?thesis
    using D can len unfolding queue_ok_def by (auto simp: q' can_submit_def)
qed

lemma release_handle_size [simp]: "hd_size (fst (release_handle g h x)) = hd_size x"
proof -
  have "hd_size (fst (record_events g h ss x)) = hd_size x" for ss
    by (induction ss arbitrary: x) (auto split: option.splits)
  then show ?thesis by (simp add: release_handle_def)
qed

lemma set_handle_ok:
  assumes "queue_ok q" and "map_of (qu_held q) h = Some x" and "hd_size y = hd_size x"
  shows "queue_ok (set_handle h y q)"
proof -
  note D = queue_okD [OF assms(1)]
  have "h \<in> set (od_keys (qu_held q))" using assms(2) by (auto simp: od_keys_def dest: map_of_SomeD intro: rev_image_eqI)
  then have "length (od_set h y (qu_held q)) = length (qu_held q)"
    "set (od_keys (od_set h y (qu_held q))) = set (od_keys (qu_held q))"
    by (auto simp: length_od_set od_keys_set)
  moreover have "held_sizes (set_handle h y q) = held_sizes q"
    using sizes_set [OF D(1), of h y] assms(2,3) by (simp add: held_sizes_def set_handle_def)
  ultimately show ?thesis
    using assms(1) unfolding queue_ok_def by (auto simp: set_handle_def)
qed

lemma close_handle_fields:
  assumes "map_of (qu_held q) h = Some x"
  shows "qu_held (fst (close_handle g h q)) = od_del h (qu_held q)"
    "qu_bytes (fst (close_handle g h q)) = qu_bytes q - int (hd_size x)"
    "qu_max_output_bytes (fst (close_handle g h q)) = qu_max_output_bytes q"
    "qu_max_in_flight (fst (close_handle g h q)) = qu_max_in_flight q"
    "qu_submitted (fst (close_handle g h q)) = qu_submitted q"
    "qu_peak_bytes (fst (close_handle g h q)) = qu_peak_bytes q"
    "qu_peak_handles (fst (close_handle g h q)) = qu_peak_handles q"
    "qu_closed q \<Longrightarrow> qu_closed (fst (close_handle g h q))"
  using assms by (simp_all add: close_handle_def Let_def split: prod.splits)

lemma close_handle_ok:
  assumes ok: "queue_ok q"
  shows "queue_ok (fst (close_handle g h q))"
proof (cases "map_of (qu_held q) h")
  case None
  with ok show ?thesis by (simp add: close_handle_def)
next
  case (Some x)
  note D = queue_okD [OF ok] and F = close_handle_fields [OF Some]
  have "qu_bytes q - int (hd_size x) = held_sizes (fst (close_handle g h q))"
    using sizes_del [OF D(1) Some] D(3) by (simp add: held_sizes_def F)
  moreover have "length (od_del h (qu_held q)) \<le> length (qu_held q)" by (rule length_od_del)
  moreover have "od_ok (od_del h (qu_held q))" using D(1) by blast
  ultimately show ?thesis
    using D unfolding queue_ok_def F by (auto simp: od_keys_del)
qed

lemma close_all_Cons:
  "fst (close_all g (h # hs) q) = fst (close_all g hs (fst (close_handle g h q)))"
  by (simp add: split_def Let_def)

lemma close_all_ok: "queue_ok q \<Longrightarrow> queue_ok (fst (close_all g hs q))"
proof (induction hs arbitrary: q)
  case (Cons h hs)
  from Cons.IH [OF close_handle_ok [OF Cons.prems]] show ?case by (simp only: close_all_Cons)
qed simp

text \<open>Closing gives every reservation back, whatever the device reports.\<close>

lemma close_handle_keys: "set (od_keys (qu_held (fst (close_handle g h q)))) = set (od_keys (qu_held q)) - {h}"
proof (cases "map_of (qu_held q) h")
  case None
  then have "close_handle g h q = (q, None)" by (simp add: close_handle_def)
  moreover have "h \<notin> set (od_keys (qu_held q))" using None by (simp add: od_keys_def map_of_eq_None_iff)
  ultimately show ?thesis by simp
next
  case (Some x)
  then show ?thesis by (simp add: close_handle_fields [OF Some] od_keys_del)
qed

lemma close_all_keys:
  "set (od_keys (qu_held (fst (close_all g hs q)))) = set (od_keys (qu_held q)) - set hs"
proof (induction hs arbitrary: q)
  case (Cons h hs)
  show ?case unfolding close_all_Cons Cons.IH close_handle_keys by auto
qed simp

lemma close_queue_empty:
  assumes "qu_pid q = pid" and ok: "queue_ok q"
  shows "qu_held (fst (close_queue g pid q)) = []" and "qu_bytes (fst (close_queue g pid q)) = 0"
proof -
  let ?q = "q\<lparr>qu_closed := True\<rparr>"
  have ok': "queue_ok ?q" using ok by (simp add: queue_ok_def held_sizes_def)
  have f: "fst (close_queue g pid q) = fst (close_all g (od_keys (qu_held q)) ?q)"
    using assms(1) by (simp add: close_queue_def check_queue_def Let_def split: prod.splits)
  have "set (od_keys (qu_held (fst (close_all g (od_keys (qu_held q)) ?q)))) = {}"
    by (simp add: close_all_keys)
  then show e: "qu_held (fst (close_queue g pid q)) = []" unfolding f by (simp add: od_keys_def)
  from queue_okD(3) [OF close_all_ok [OF ok', of g "od_keys (qu_held q)"]] e
  show "qu_bytes (fst (close_queue g pid q)) = 0" by (simp add: f held_sizes_def)
qed

lemma submit_ok:
  assumes "queue_ok q" and "submit g pid device sz d2h cuda producer launch q = (r, q')"
  shows "queue_ok q'"
  using assms reserve_slot_ok [OF assms(1) refl]
  by (auto simp: submit_def Let_def split: sum.splits)

section \<open>The prefetch window\<close>

record group_request =
  rq_device :: string
  rq_size :: nat
  rq_d2h :: bool
  rq_cuda :: bool
  rq_launch :: "exn option"

record window =
  pw_groups :: "group_request list"
  pw_handles :: "nat list"
  pw_last :: "nat option"
  pw_closed :: bool

text \<open>\<open>while not can_submit(group) and handles: handles.popleft().close()\<close>.\<close>

fun make_room :: "gpu \<Rightarrow> nat \<Rightarrow> nat list \<Rightarrow> queue \<Rightarrow> nat list \<times> queue \<times> exn option" where
  "make_room g sz [] q = ([], q, None)"
| "make_room g sz (h # hs) q = (if can_submit sz q then (h # hs, q, None)
     else (case close_handle g h q of
         (q1, Some e) \<Rightarrow> (hs, q1, Some e)
       | (q1, None) \<Rightarrow> make_room g sz hs q1))"

definition window_close :: "gpu \<Rightarrow> window \<Rightarrow> queue \<Rightarrow> window \<times> queue \<times> exn option" where
  "window_close g w q = (if pw_closed w then (w, q, None)
     else (let (q', e) = close_all g (pw_handles w) q
       in (w\<lparr>pw_handles := [], pw_last := None, pw_closed := True\<rparr>, q', e)))"

definition stop_iteration :: exn where
  "stop_iteration = OtherExn ''StopIteration''"

text \<open>Submitting one group and handing its tensors to the current consumer stream.\<close>

definition window_submit ::
  "gpu \<Rightarrow> int \<Rightarrow> group_request \<Rightarrow> window \<Rightarrow> queue \<Rightarrow> nat res \<times> window \<times> queue" where
  "window_submit g pid r w q =
     (case submit g pid (rq_device r) (rq_size r) (rq_d2h r) (rq_cuda r) None (rq_launch r) q of
        (Inl e, q1) \<Rightarrow> (Inl e, w, q1)
      | (Inr h, q1) \<Rightarrow> (let w' = w\<lparr>pw_handles := pw_handles w @ [h], pw_last := Some h\<rparr> in
          case handle_wait_stream g pid h None q1 of
            Inl e \<Rightarrow> (Inl e, w', q1) | Inr q2 \<Rightarrow> (Inr h, w', q2)))"

definition window_next :: "gpu \<Rightarrow> int \<Rightarrow> window \<Rightarrow> queue \<Rightarrow> nat res \<times> window \<times> queue" where
  "window_next g pid w q = (if pw_closed w then (Inl stop_iteration, w, q)
     else (case (case pw_last w of None \<Rightarrow> (q, None) | Some h \<Rightarrow> handle_release g pid h q) of
         (q1, Some e) \<Rightarrow> (Inl e, w, q1)
       | (q1, None) \<Rightarrow> (case pw_groups w of
           [] \<Rightarrow> (case window_close g (w\<lparr>pw_last := None\<rparr>) q1 of
               (w', q', Some e) \<Rightarrow> (Inl e, w', q') | (w', q', None) \<Rightarrow> (Inl stop_iteration, w', q'))
         | r # groups \<Rightarrow> (case make_room g (rq_size r) (pw_handles w) q1 of
               (hs, q2, Some e) \<Rightarrow> (Inl e, w\<lparr>pw_last := None, pw_groups := groups, pw_handles := hs\<rparr>, q2)
             | (hs, q2, None) \<Rightarrow>
                 window_submit g pid r (w\<lparr>pw_last := None, pw_groups := groups, pw_handles := hs\<rparr>) q2))))"

lemma make_room_ok: "queue_ok q \<Longrightarrow> make_room g sz hs q = (hs', q', e) \<Longrightarrow> queue_ok q'"
proof (induction hs arbitrary: q)
  case (Cons h hs)
  then show ?case
    using close_handle_ok [OF Cons.prems(1), of g h]
    by (auto split: if_splits prod.splits option.splits)
qed simp

lemma handle_release_ok: "queue_ok q \<Longrightarrow> queue_ok (fst (handle_release g pid h q))"
  by (auto simp: handle_release_def open_handle_def Let_def split: sum.splits option.splits prod.splits
      intro!: set_handle_ok) (metis fst_conv release_handle_size)

lemma record_consumer_size [simp]: "hd_size (record_consumer s x) = hd_size x"
  by (simp add: record_consumer_def)

lemma handle_wait_stream_ok:
  "queue_ok q \<Longrightarrow> handle_wait_stream g pid h s q = Inr q' \<Longrightarrow> queue_ok q'"
  by (auto simp: handle_wait_stream_def open_handle_def Let_def split: if_splits option.splits
      intro!: set_handle_ok)

lemma window_close_ok: "queue_ok q \<Longrightarrow> window_close g w q = (w', q', e) \<Longrightarrow> queue_ok q'"
  using close_all_ok [of q g "pw_handles w"]
  by (auto simp: window_close_def Let_def split: if_splits prod.splits)

lemma window_submit_ok:
  assumes "queue_ok q" and "window_submit g pid r w q = (res, w', q')"
  shows "queue_ok q'"
proof -
  obtain s q1 where s: "submit g pid (rq_device r) (rq_size r) (rq_d2h r) (rq_cuda r) None (rq_launch r) q = (s, q1)"
    by fastforce
  from submit_ok [OF assms(1) s] assms(2) s show ?thesis
    by (auto simp: window_submit_def Let_def split: sum.splits intro: handle_wait_stream_ok)
qed

lemma window_next_ok:
  assumes ok: "queue_ok q" and n: "window_next g pid w q = (r, w', q')"
  shows "queue_ok q'"
proof (cases "pw_closed w")
  case True
  with n ok show ?thesis by (simp add: window_next_def)
next
  case False
  obtain q1 e where rel: "(case pw_last w of None \<Rightarrow> (q, None) | Some h \<Rightarrow> handle_release g pid h q) = (q1, e)"
    by fastforce
  have q1: "queue_ok q1" using rel ok handle_release_ok [OF ok, of g pid] by (auto split: option.splits) (metis fst_conv)
  show ?thesis
  proof (cases e)
    case (Some x)
    with n rel False q1 show ?thesis by (simp add: window_next_def)
  next
    case None
    note step = n [unfolded window_next_def rel None prod.case option.case if_not_P [OF False]]
    show ?thesis
    proof (cases "pw_groups w")
      case Nil
      obtain w2 q2 e2 where c: "window_close g (w\<lparr>pw_last := None\<rparr>) q1 = (w2, q2, e2)" using prod_cases3 by blast
      from window_close_ok [OF q1 c] step c Nil show ?thesis by (auto split: option.splits)
    next
      case (Cons gr groups)
      obtain hs q2 e2 where m: "make_room g (rq_size gr) (pw_handles w) q1 = (hs, q2, e2)" using prod_cases3 by blast
      from make_room_ok [OF q1 m] step m Cons show ?thesis
        by (auto split: option.splits intro: window_submit_ok)
    qed
  qed
qed

text \<open>Leaving the window, normally or not, gives back all its reservations.\<close>

lemma window_close_releases:
  assumes "\<not> pw_closed w" and "window_close g w q = (w', q', e)"
  shows "set (od_keys (qu_held q')) = set (od_keys (qu_held q)) - set (pw_handles w)"
    and "pw_closed w'" and "pw_handles w' = []"
proof -
  have q': "q' = fst (close_all g (pw_handles w) q)"
    and w': "w' = w\<lparr>pw_handles := [], pw_last := None, pw_closed := True\<rparr>"
    using assms by (auto simp: window_close_def Let_def split: prod.splits)
  show "set (od_keys (qu_held q')) = set (od_keys (qu_held q)) - set (pw_handles w)"
    unfolding q' by (rule close_all_keys)
  show "pw_closed w'" and "pw_handles w' = []" by (simp_all add: w')
qed

text \<open>When nothing fails, room is made whenever the window holds all there is.\<close>

lemma make_room_fits:
  assumes "queue_ok q" and "make_room g sz hs q = (hs', q', None)"
    and "set (od_keys (qu_held q)) \<subseteq> set hs" and "\<not> qu_closed q'"
    and "int sz \<le> qu_max_output_bytes q" and "0 < qu_max_in_flight q"
  shows "can_submit sz q'"
  using assms
proof (induction hs arbitrary: q)
  case Nil
  then have "qu_held q = []" and "q' = q" by (simp_all add: od_keys_def)
  moreover from this have "qu_bytes q = 0" using queue_okD(3) [OF Nil.prems(1)] by (simp add: held_sizes_def)
  ultimately show ?case using Nil.prems(4-6) by (simp add: can_submit_def)
next
  case (Cons h hs)
  show ?case
  proof (cases "can_submit sz q")
    case True
    with Cons.prems(2) show ?thesis by simp
  next
    case False
    with Cons.prems(2) obtain q1 where c: "close_handle g h q = (q1, None)"
      and m: "make_room g sz hs q1 = (hs', q', None)"
      by (auto split: prod.splits option.splits)
    have "queue_ok q1" using close_handle_ok [OF Cons.prems(1), of g h] c by simp
    moreover have "set (od_keys (qu_held q1)) \<subseteq> set hs"
      using close_handle_keys [of g h q] c Cons.prems(3) by auto
    moreover have "qu_max_output_bytes q1 = qu_max_output_bytes q" "qu_max_in_flight q1 = qu_max_in_flight q"
      using c close_handle_fields(3,4) [of q h _ g] by (cases "map_of (qu_held q) h"; force simp: close_handle_def)+
    ultimately show ?thesis using Cons.IH [OF _ m] Cons.prems(4-6) by simp
  qed
qed

section \<open>Sequences of operations\<close>

datatype queue_op =
    Submit string nat bool bool "string option" "exn option"
  | HostWait nat
  | StreamWait nat "string option"
  | Release nat
  | CloseHandle nat
  | CloseQueue

fun queue_run :: "gpu \<Rightarrow> int \<Rightarrow> queue_op \<Rightarrow> queue \<Rightarrow> queue" where
  "queue_run g pid (Submit device sz d2h cuda producer launch) q = snd (submit g pid device sz d2h cuda producer launch q)"
| "queue_run g pid (HostWait h) q = (case handle_wait g pid h q of Inl _ \<Rightarrow> q | Inr q' \<Rightarrow> q')"
| "queue_run g pid (StreamWait h s) q = (case handle_wait_stream g pid h s q of Inl _ \<Rightarrow> q | Inr q' \<Rightarrow> q')"
| "queue_run g pid (Release h) q = fst (handle_release g pid h q)"
| "queue_run g pid (CloseHandle h) q = fst (handle_close g pid h q)"
| "queue_run g pid CloseQueue q = fst (close_queue g pid q)"

lemma close_all_closed: "qu_closed q \<Longrightarrow> qu_closed (fst (close_all g hs q))"
proof (induction hs arbitrary: q)
  case (Cons h hs)
  have "qu_closed (fst (close_handle g h q))"
    using Cons.prems close_handle_fields(8) [of q h] by (cases "map_of (qu_held q) h") (auto simp: close_handle_def)
  from Cons.IH [OF this] show ?case by (simp only: close_all_Cons)
qed simp

lemma handle_wait_ok: "queue_ok q \<Longrightarrow> handle_wait g pid h q = Inr q' \<Longrightarrow> queue_ok q'"
  by (auto simp: handle_wait_def open_handle_def intro: set_handle_ok split: option.splits if_splits)

lemma closing_ok: "queue_ok q \<Longrightarrow> queue_ok (q\<lparr>qu_closed := True\<rparr>)"
  by (simp add: queue_ok_def held_sizes_def)

lemma close_queue_ok: "queue_ok q \<Longrightarrow> queue_ok (fst (close_queue g pid q))"
  using close_all_ok [OF closing_ok] by (auto simp: close_queue_def split_beta split: sum.splits)

lemma queue_run_ok: "queue_ok q \<Longrightarrow> queue_ok (queue_run g pid op q)"
  by (cases op) (auto simp: handle_close_def intro: submit_ok [OF _ surjective_pairing] handle_wait_ok
      handle_wait_stream_ok handle_release_ok close_handle_ok close_queue_ok split: sum.splits)

lemma queue_runs_ok: "queue_ok q \<Longrightarrow> queue_ok (fold (queue_run g pid) ops q)"
  by (induction ops arbitrary: q) (simp_all add: queue_run_ok)

end
