(* ===== verification/Admission.thy ===== *)
theory Admission
  imports Artifact
begin

text \<open>
  What an admitted artifact guarantees: identity with what was submitted, the plan's own symbol
  table, descriptors and constraints that mean what the recipe means, metadata binding that is
  sound and raises guard errors only, and a portable form that reads back as the same artifact.
\<close>

section \<open>Indexed admission\<close>

lemma admit_indexed_parts:
  assumes "admit nv r mlir plan manifest = Inr a" and "recipe_indexed r"
  obtains kvs sources indices axis decoded where
    "manifest = JObj kvs" and "indexed_chain (r_operations r)"
    and "first_indices r = Inr (indices, axis)" and "nv_load_indexed nv plan = Inr decoded"
    and "cr_recipe a = r" "cr_plan_bytes a = plan" "cr_manifest a = manifest" "cr_wire_version a = 2"
    and "compiler_identity_of (json_get kvs ''compiler'') = Inr (cr_compiler a)"
    and "wire_symbols plan 2 = Inr (cr_symbols a)" "cr_symbols a = xp_symbols decoded"
    and "sources_for r = Inr sources" "sources_by_name sources (cr_symbols a) = Inr (cr_symbol_sources a)"
    and "distinct (cr_symbols a)" "set (cr_symbols a) = ss_name ` set sources"
    and "descriptor_ok False (cr_logical_source a)" "descriptor_ok False (cr_logical_destination a)"
    and "same_descriptor (cr_logical_source a) (r_source r)"
      "same_descriptor (cr_logical_destination a) (r_destination r)"
    and "cr_constraints a = []" "cr_parameters a = []"
    and "map_of kvs ''plan_sha256'' = Some (JStr (nv_sha256 nv plan))"
      "map_of kvs ''input_sha256'' = Some (JStr (nv_sha256 nv mlir))"
    and "xp_axis decoded = axis"
proof -
  from assms(1,2) have ad: "admit_indexed nv r mlir plan manifest = Inr a" by (simp add: admit_def)
  from ad obtain kvs compiler indices axis symbols decoded source destination sources ordered s d where
    k: "manifest = JObj kvs" and vb: "validate_base kvs (3, 2) = Inr compiler"
    and ic: "indexed_chain (r_operations r)" and fi: "first_indices r = Inr (indices, axis)"
    and dec: "nv_load_indexed nv plan = Inr decoded" and ax: "xp_axis decoded = axis"
    and w: "wire_symbols plan 2 = Inr symbols" "symbols = xp_symbols decoded"
    and sf: "sources_for r = Inr sources" "sources_by_name sources symbols = Inr ordered"
    and sy: "distinct symbols" "set symbols = ss_name ` set sources"
    and src: "parse_descriptor False ''logical_source'' s = Inr source" "same_descriptor source (r_source r)"
    and dst: "parse_descriptor False ''logical_destination'' d = Inr destination"
      "same_descriptor destination (r_destination r)"
    and dg: "map_of kvs ''plan_sha256'' = Some (JStr (nv_sha256 nv plan))"
      "map_of kvs ''input_sha256'' = Some (JStr (nv_sha256 nv mlir))"
    and a: "a = \<lparr>cr_recipe = r, cr_plan_bytes = plan, cr_compiler = compiler, cr_wire_version = 2,
         cr_symbols = symbols, cr_symbol_sources = ordered, cr_constraints = [],
         cr_logical_source = source, cr_logical_destination = destination, cr_manifest = manifest,
         cr_parameters = []\<rparr>"
    unfolding admit_indexed_def Let_def
    by (auto simp: json_field_eq_Inr split: if_splits sum.splits prod.splits)
  show thesis
    by (rule that [OF k ic fi dec])
      (use a w sf sy src dst dg vb ax in \<open>auto simp: validate_base_eq_Inr intro: descriptor_codec.dec_ok\<close>)
qed

section \<open>Identity\<close>

lemma admit_identity:
  assumes "admit nv r mlir plan manifest = Inr a"
  shows "cr_recipe a = r" "cr_plan_bytes a = plan" "cr_manifest a = manifest"
    "cr_wire_version a = wire_version_of r" "wire_symbols plan (wire_version_of r) = Inr (cr_symbols a)"
    "distinct (cr_symbols a)"
    "\<exists>kvs. manifest = JObj kvs \<and> map_of kvs ''plan_sha256'' = Some (JStr (nv_sha256 nv plan)) \<and>
       map_of kvs ''input_sha256'' = Some (JStr (nv_sha256 nv mlir))"
proof -
  let ?P = "cr_recipe a = r \<and> cr_plan_bytes a = plan \<and> cr_manifest a = manifest \<and>
    cr_wire_version a = wire_version_of r \<and> wire_symbols plan (wire_version_of r) = Inr (cr_symbols a) \<and>
    distinct (cr_symbols a) \<and>
    (\<exists>kvs. manifest = JObj kvs \<and> map_of kvs ''plan_sha256'' = Some (JStr (nv_sha256 nv plan)) \<and>
       map_of kvs ''input_sha256'' = Some (JStr (nv_sha256 nv mlir)))"
  have ?P
  proof (cases "recipe_indexed r")
    case True
    show ?thesis
      by (rule admit_indexed_parts [OF assms True]) (use True in \<open>auto simp: wire_version_of_def\<close>)
  next
    case False
    show ?thesis by (rule admit_parts [OF assms False]) auto
  qed
  then show "cr_recipe a = r" "cr_plan_bytes a = plan" "cr_manifest a = manifest"
    "cr_wire_version a = wire_version_of r" "wire_symbols plan (wire_version_of r) = Inr (cr_symbols a)"
    "distinct (cr_symbols a)"
    "\<exists>kvs. manifest = JObj kvs \<and> map_of kvs ''plan_sha256'' = Some (JStr (nv_sha256 nv plan)) \<and>
       map_of kvs ''input_sha256'' = Some (JStr (nv_sha256 nv mlir))" by auto
qed

lemma admit_descriptors:
  assumes "admit nv r mlir plan manifest = Inr a"
  shows "descriptor_ok False (cr_logical_source a)" "descriptor_ok False (cr_logical_destination a)"
    "den_spec \<rho> (cr_logical_source a) = den_spec \<rho> (r_source r)"
    "den_spec \<rho> (cr_logical_destination a) = den_spec \<rho> (r_destination r)"
proof -
  have "descriptor_ok False (cr_logical_source a) \<and> descriptor_ok False (cr_logical_destination a) \<and>
    same_descriptor (cr_logical_source a) (r_source r) \<and> same_descriptor (cr_logical_destination a) (r_destination r)"
  proof (cases "recipe_indexed r")
    case True
    show ?thesis by (rule admit_indexed_parts [OF assms True]) auto
  next
    case False
    show ?thesis by (rule admit_parts [OF assms False]) auto
  qed
  then show "descriptor_ok False (cr_logical_source a)" "descriptor_ok False (cr_logical_destination a)"
    "den_spec \<rho> (cr_logical_source a) = den_spec \<rho> (r_source r)"
    "den_spec \<rho> (cr_logical_destination a) = den_spec \<rho> (r_destination r)"
    by (auto intro: same_descriptor_den)
qed

lemma admit_flags:
  assumes "admit nv r mlir plan manifest = Inr a"
  shows "cr_indexed a = recipe_indexed r" and "cr_typed a = recipe_typed r"
  using admit_identity(1,4) [OF assms]
  by (auto simp: cr_indexed_def cr_typed_def wire_version_of_def typed_schema_def)

section \<open>Portable round trip\<close>

lemma payload_round_trip:
  assumes "admit nv r mlir plan manifest = Inr a" and "emit_mlir r = Inr mlir" and "recipe_ok r"
  shows "from_payload nv (to_payload a) = Inr a"
proof -
  note id = admit_identity [OF assms(1)]
  have "format_version i t \<in> {1, 2, 3}" for i t by (simp add: format_version_def)
  then show ?thesis
    using assms admit_flags [OF assms(1)]
    by (simp add: from_payload_def to_payload_def same_keys_def id(1-3)
        recipe_codec.dec_enc)
qed

lemma from_payload_parts:
  assumes "from_payload nv payload = Inr a"
  obtains kvs b64 rj where "payload = JObj kvs"
    and "map_of kvs ''plan_base64'' = Some (JStr b64)" "b64_decode b64 = Some (cr_plan_bytes a)"
    and "map_of kvs ''recipe'' = Some rj" "decode_recipe rj = Inr (cr_recipe a)"
    and "recipe_ok (cr_recipe a)"
    and "\<exists>mlir. emit_mlir (cr_recipe a) = Inr mlir \<and>
      admit nv (cr_recipe a) mlir (cr_plan_bytes a) (cr_manifest a) = Inr a"
    and "map_of kvs ''format_version'' = Some (JInt (format_version (cr_indexed a) (cr_typed a)))"
proof -
  from assms obtain kvs b64 plan rj r mlir manifest where
    k: "payload = JObj kvs" "map_of kvs ''plan_base64'' = Some (JStr b64)" "b64_decode b64 = Some plan"
    "map_of kvs ''recipe'' = Some rj" "decode_recipe rj = Inr r"
    and v: "map_of kvs ''format_version'' = Some (JInt (format_version (recipe_indexed r) (recipe_typed r)))"
    and e: "emit_mlir r = Inr mlir" and ad: "admit nv r mlir plan manifest = Inr a"
    by (auto simp: from_payload_def json_field_eq_Inr split: if_splits)
  note id = admit_identity [OF ad] and fl = admit_flags [OF ad]
  show thesis
    by (rule that [OF k(1,2)]) (use k e ad v id(1-3) fl recipe_codec.dec_ok in auto)
qed

section \<open>Metadata binding\<close>

lemma emit_chain:
  "emit_mlir r = Inr mlir \<Longrightarrow> \<exists>t. shape_chain (ts_shape (r_source r)) (r_operations r) = Inr t"
  by (rule emit_mlir_parts(4))

lemma check_constraint_holds:
  assumes "check_constraint b c = Inr u"
  shows "constraint_holds (env_val b) c"
  using assms
  by (auto simp: check_constraint_def constraint_holds_def dvd_eq_mod_eq_0 dest!: evaluate_True_den)

lemma check_constraint_error: "wf_constraint c \<Longrightarrow> check_constraint b c = Inl x \<Longrightarrow> is_guard x"
  by (auto simp: check_constraint_def wf_constraint_def res_bind_eq_Inl py_mod_def ensure_def
      dest: ev_error split: if_splits)

lemma mapR_binding_of:
  "mapR (binding_of b) ns = Inr items \<Longrightarrow> map fst items = ns \<and> (\<forall>(n, v)\<in>set items. b n = Some v)"
  by (induction ns arbitrary: items) (auto simp: binding_of_def split: option.splits)

lemma metadata_bind_parts:
  assumes "metadata_bind a c = Inr items"
  obtains b where "bind_recipe (cr_recipe a) (cr_symbol_sources a) c Map.empty = Inr b"
    and "\<forall>k\<in>set (cr_constraints a). constraint_holds (env_val b) k"
    and "map fst items = cr_symbols a" and "\<forall>(n, v)\<in>set items. b n = Some v"
proof -
  from assms obtain b us where b: "bind_recipe (cr_recipe a) (cr_symbol_sources a) c Map.empty = Inr b"
    and us: "mapR (check_constraint b) (cr_constraints a) = Inr us"
    and items: "mapR (binding_of b) (cr_symbols a) = Inr items"
    by (auto simp: metadata_bind_def)
  have "\<forall>k\<in>set (cr_constraints a). \<exists>u. check_constraint b k = Inr u"
    using us by (auto simp: mapR_eq_Inr list_all2_conv_all_nth in_set_conv_nth)
  with b mapR_binding_of [OF items] that show thesis by (blast intro: check_constraint_holds)
qed

text \<open>Every symbol of an admitted artifact has a source, so binding never raises \<open>KeyError\<close>.\<close>

lemma bind_sources_all:
  "bind_sources ss shape b = Inr b' \<Longrightarrow> n \<in> ss_name ` set ss \<Longrightarrow> b' n \<noteq> None"
  by (auto dest: bind_sources_bound)

lemma metadata_bind_error:
  assumes ad: "admit nv r mlir plan manifest = Inr a" and ni: "\<not> recipe_indexed r"
    and em: "emit_mlir r = Inr mlir" and wf: "wf_recipe r" and err: "metadata_bind a c = Inl x"
  shows "\<exists>reason. x = GuardError reason"
proof -
  obtain sources where cs: "\<forall>k\<in>set (cr_constraints a). wf_constraint k"
    and so: "sources_by_name sources (cr_symbols a) = Inr (cr_symbol_sources a)"
    by (rule admit_parts [OF ad ni]) blast
  have r: "cr_recipe a = r" by (rule admit_identity(1) [OF ad])
  obtain t where t: "shape_chain (ts_shape (r_source r)) (r_operations r) = Inr t"
    using emit_chain [OF em] by blast
  from err consider (bind) "bind_recipe r (cr_symbol_sources a) c Map.empty = Inl x"
    | (guard) b where "mapR (check_constraint b) (cr_constraints a) = Inl x"
    | (names) b where "bind_recipe r (cr_symbol_sources a) c Map.empty = Inr b"
        "mapR (binding_of b) (cr_symbols a) = Inl x"
    by (auto simp: metadata_bind_def r res_bind_eq_Inl)
  then show ?thesis
  proof cases
    case bind
    then show ?thesis by (rule bind_recipe_guard [OF wf t])
  next
    case guard
    have "is_guard x"
      by (rule mapR_error [OF _ guard]) (use cs in \<open>blast intro: check_constraint_error\<close>)
    then show ?thesis by (simp add: is_guard_def)
  next
    case names
    have "n \<in> ss_name ` set (cr_symbol_sources a)" if "n \<in> set (cr_symbols a)" for n
      using sources_by_name_names(1) [OF so] that by (metis set_map)
    moreover from names(1) have "bind_sources (cr_symbol_sources a) (ts_shape c) Map.empty = Inr b"
      by (rule bind_recipe_parts)
    ultimately have "b n \<noteq> None" if "n \<in> set (cr_symbols a)" for n
      using bind_sources_all that by metis
    then have "mapR (binding_of b) (cr_symbols a) = Inr (map (\<lambda>n. (n, the (b n))) (cr_symbols a))"
      by (intro mapR_all) (force simp: binding_of_def)
    with names show ?thesis by simp
  qed
qed

text \<open>The bound values are integers, and they carry the recipe from the source to the destination.\<close>

lemma bind_sources_ints:
  "bind_sources ss shape b = Inr b' \<Longrightarrow> \<forall>v\<in>set shape. is_int v \<Longrightarrow> \<forall>n v. b n = Some v \<longrightarrow> is_int v \<Longrightarrow>
     b' n = Some v \<Longrightarrow> is_int v"
proof (induction ss arbitrary: b)
  case (Cons s ss)
  from Cons.prems(1) have axis: "0 \<le> ss_axis s \<and> ss_axis s < int (length shape)"
    and rec: "bind_sources ss shape (b(ss_name s \<mapsto> shape ! nat (ss_axis s))) = Inr b'"
    by (auto simp: Let_def split: if_splits)
  from axis have "shape ! nat (ss_axis s) \<in> set shape" by (intro nth_mem) linarith
  with Cons.prems(2,3) have "\<forall>n v. (b(ss_name s \<mapsto> shape ! nat (ss_axis s))) n = Some v \<longrightarrow> is_int v" by simp
  from Cons.IH [OF rec Cons.prems(2) this Cons.prems(4)] show ?case .
qed simp

lemma is_int_env_val: "b n = Some v \<Longrightarrow> is_int v \<Longrightarrow> v = PyInt (env_val b n)"
  by (cases v) (simp_all add: env_val_def)

lemma metadata_bind_sound:
  assumes ad: "admit nv r mlir plan manifest = Inr a" and ni: "\<not> recipe_indexed r"
    and bd: "metadata_bind a c = Inr items"
  obtains \<rho> where "items = map (\<lambda>n. (n, PyInt (\<rho> n))) (cr_symbols a)"
    and "concrete_chain \<rho> (map the_int (ts_shape c), ts_dtype c) (r_operations r) =
      Some (ts_shape (den_spec \<rho> (cr_logical_destination a)), ts_dtype (cr_logical_destination a))"
    and "ts_shape c = map PyInt (ts_shape (den_spec \<rho> (cr_logical_source a)))"
    and "\<forall>shape. Reshape shape \<in> set (r_operations r) \<longrightarrow> list_all (exact_divisions \<rho>) shape"
proof -
  have r: "cr_recipe a = r" by (rule admit_identity(1) [OF ad])
  obtain b where b: "bind_recipe r (cr_symbol_sources a) c Map.empty = Inr b"
    and cs: "\<forall>k\<in>set (cr_constraints a). constraint_holds (env_val b) k"
    and names: "map fst items = cr_symbols a" and vals: "\<forall>(n, v)\<in>set items. b n = Some v"
    using metadata_bind_parts [OF bd] unfolding r by metis
  define \<rho> where "\<rho> = env_val b"
  note chain = bind_recipe_chain [OF b, folded \<rho>_def]
  note dens = admit_descriptors(3,4) [OF ad, of \<rho>]
  from b have bs: "bind_sources (cr_symbol_sources a) (ts_shape c) Map.empty = Inr b" by (rule bind_recipe_parts)
  have ints: "\<forall>v\<in>set (ts_shape c). is_int v" using chain by auto
  have "v = PyInt (\<rho> n)" if "(n, v) \<in> set items" for n v
    using vals that bind_sources_ints [OF bs ints] by (auto simp: \<rho>_def intro!: is_int_env_val)
  then have "items = map (\<lambda>n. (n, PyInt (\<rho> n))) (map fst items)"
    unfolding map_map comp_def by (intro map_idI [symmetric]) (auto simp: prod_eq_iff)
  moreover have "constraint_holds \<rho> k" if "k \<in> set (expected_constraints r)" for k
  proof -
    have "mset (cr_constraints a) = mset (expected_constraints r)"
      by (rule admit_parts [OF ad ni]) (metis mset_sort)
    then show ?thesis using that cs by (metis \<rho>_def mset_eq_setD)
  qed
  then have "list_all (exact_divisions \<rho>) shape" if "Reshape shape \<in> set (r_operations r)" for shape
    using that by (auto simp: list_all_iff intro: expected_constraints_complete)
  moreover have "ts_shape (den_spec \<rho> (cr_logical_destination a)) = map (den \<rho>) (ts_shape (r_destination r))"
    "ts_dtype (cr_logical_destination a) = ts_dtype (r_destination r)"
    "ts_shape (den_spec \<rho> (cr_logical_source a)) = map (den \<rho>) (ts_shape (r_source r))"
    using dens by (auto simp: den_spec_def)
  ultimately show thesis using chain by (intro that [of \<rho>]) (auto simp: names)
qed

section \<open>Binding two operands\<close>

lemma mapR_evaluate_den: "mapR (evaluate True b) es = Inr vs \<Longrightarrow> map (den (env_val b)) es = vs"
  by (induction es arbitrary: vs) (auto dest: evaluate_True_den)

lemma indexed_bind_parts:
  assumes "indexed_bind a source index = Inr items"
  obtains declared axis b0 b n where "first_indices (cr_recipe a) = Inr (declared, axis)"
    and "bind_recipe (cr_recipe a) (filter (\<lambda>s. ss_operand s = ''source'') (cr_symbol_sources a)) source b0 = Inr b"
    and "ts_shape index = [PyInt n]" "ts_dtype index = ts_dtype declared"
    and "n * (if ts_dtype index = ''int32'' then 4 else 8) < 2 ^ 63"
    and "ts_shape index = map PyInt (map (den (env_val b)) (ts_shape declared))"
    and "map fst items = cr_symbols a" "\<forall>(n, v)\<in>set items. b n = Some v"
proof -
  from assms obtain declared axis b0 b es where
    f: "first_indices (cr_recipe a) = Inr (declared, axis)"
    and b: "bind_recipe (cr_recipe a) (filter (\<lambda>s. ss_operand s = ''source'') (cr_symbol_sources a)) source b0 = Inr b"
    and l: "length (ts_shape index) = 1" "ts_dtype index = ts_dtype declared"
    and es: "mapR (evaluate True b) (ts_shape declared) = Inr es" "map PyInt es = ts_shape index"
    and sz: "the_int (hd (ts_shape index)) * (if ts_dtype index = ''int32'' then 4 else 8) < 2 ^ 63"
    and items: "mapR (binding_of b) (cr_symbols a) = Inr items"
    by (auto simp: indexed_bind_def split: if_splits)
  from arg_cong [OF es(2), of length] l obtain n where n: "es = [n]"
    by (cases es) (auto simp: length_Suc_conv)
  have "map (den (env_val b)) (ts_shape declared) = es"
    by (rule mapR_evaluate_den [OF es(1)])
  moreover have "the_int (hd (ts_shape index)) = n" using es(2) n by (metis list.sel(1) list.simps(9) the_int.simps(1))
  ultimately show thesis
    using that [OF f b] es(2) n l sz mapR_binding_of [OF items] by simp
qed

section \<open>Errors of binding\<close>

lemma bind_operands_error: "bind_operands ps source index b = Inl x \<Longrightarrow> is_guard x"
  by (induction ps arbitrary: b) (auto simp: Let_def split: if_splits)

lemma bind_operands_keeps: "bind_operands ps source index b = Inr b' \<Longrightarrow> b n \<noteq> None \<Longrightarrow> b' n \<noteq> None"
proof (induction ps arbitrary: b)
  case (Cons p ps)
  then obtain v where rest: "bind_operands ps source index (b(ss_name p \<mapsto> v)) = Inr b'" by (auto simp: Let_def split: if_splits)
  show ?case by (rule Cons.IH [OF rest]) (use Cons.prems(2) in simp)
qed simp

lemma bind_operands_bound: "bind_operands ps source index b = Inr b' \<Longrightarrow> p \<in> set ps \<Longrightarrow> b' (ss_name p) \<noteq> None"
proof (induction ps arbitrary: b)
  case (Cons q ps)
  then obtain v where rest: "bind_operands ps source index (b(ss_name q \<mapsto> v)) = Inr b'" by (auto simp: Let_def split: if_splits)
  show ?case
  proof (cases "p = q")
    case True
    show ?thesis by (rule bind_operands_keeps [OF rest]) (simp add: True)
  next
    case False
    with Cons.prems(2) Cons.IH [OF rest] show ?thesis by simp
  qed
qed simp

text \<open>The extents of an index are constants and symbols, and every symbol has a source.\<close>

lemma symbol_sources_loop_dims:
  "symbol_sources_loop axis shape sources indices = Inr out \<Longrightarrow> e \<in> set shape \<Longrightarrow> n \<in> set (symbols_of e) \<Longrightarrow> e = Symbol n"
  by (induction axis shape sources indices rule: symbol_sources_loop.induct)
    (auto simp: Let_def split: expr.splits option.splits)

lemma sources_for_names:
  assumes "sources_for r = Inr sources" and "first_indices r = Inr (indices, axis)"
    and "e \<in> set (ts_shape indices)" and "n \<in> set (symbols_of e)"
  shows "n \<in> ss_name ` set sources"
proof -
  from assms(1,2) obtain own extra where own: "symbol_sources (ts_shape (r_source r)) = Inr own"
    and extra: "symbol_sources (ts_shape indices) = Inr extra"
    and sources: "sources = own @ map (\<lambda>s. s\<lparr>ss_operand := ''indices''\<rparr>) (filter (\<lambda>s. ss_name s \<notin> ss_name ` set own) extra)"
    by (auto simp: sources_for_def)
  from extra assms(3,4) have "Symbol n \<in> set (ts_shape indices)"
    using symbol_sources_loop_dims unfolding symbol_sources_def by metis
  with symbol_sources_spec(2) [OF extra] obtain s where s: "s \<in> set extra" "ss_name s = n"
    by (metis (mono_tags, lifting) imageE mem_Collect_eq set_map)
  show ?thesis
  proof (cases "n \<in> ss_name ` set own")
    case False
    with s have "s\<lparr>ss_operand := ''indices''\<rparr> \<in> set sources" by (auto simp: sources)
    then show ?thesis using s(2) by (metis image_eqI symbol_source.select_convs(1) symbol_source.surjective symbol_source.update_convs(4))
  qed (auto simp: sources)
qed

lemma mapR_binding_bound: "\<forall>n\<in>set ns. b n \<noteq> None \<Longrightarrow> mapR (binding_of b) ns \<noteq> Inl x"
  by (induction ns) (auto simp: res_bind_eq_Inl binding_of_def split: option.splits)

lemma evaluate_bound_error:
  "wf_expr e \<Longrightarrow> \<forall>n\<in>set (symbols_of e). b n \<noteq> None \<Longrightarrow> evaluate True b e = Inl x \<Longrightarrow> is_guard x"
  by (auto dest!: evaluate_error)

lemma indexed_bind_error:
  assumes ad: "admit nv r mlir plan manifest = Inr a" and ix: "recipe_indexed r"
    and em: "emit_mlir r = Inr mlir" and wf: "wf_recipe r" and err: "indexed_bind a source index = Inl x"
  shows "\<exists>reason. x = GuardError reason"
proof -
  obtain sources declared axis where parts: "cr_recipe a = r" "first_indices r = Inr (declared, axis)" "sources_for r = Inr sources"
    "sources_by_name sources (cr_symbols a) = Inr (cr_symbol_sources a)" "set (cr_symbols a) = ss_name ` set sources"
    by (rule admit_indexed_parts [OF ad ix])
  have names: "ss_name ` set (cr_symbol_sources a) = set (cr_symbols a)" using sources_by_name_names(1) [OF parts(4)] by (metis set_map)
  obtain t where t: "shape_chain (ts_shape (r_source r)) (r_operations r) = Inr t" using emit_chain [OF em] by blast
  have wf_dims: "wf_expr e" if "e \<in> set (ts_shape declared)" for e
    using wf parts(2) that
    by (auto simp: wf_recipe_def first_indices_def wf_spec_def list_all_iff split: list.splits operation.splits)
  let ?own = "filter (\<lambda>s. ss_operand s = ''source'') (cr_symbol_sources a)"
  have bound: "b n \<noteq> None" if "bind_operands (cr_symbol_sources a) (ts_shape source) (ts_shape index) Map.empty = Inr b0"
    "bind_recipe r ?own source b0 = Inr b" "n \<in> set (cr_symbols a)" for b0 b n
  proof -
    from that(3) names obtain p where "p \<in> set (cr_symbol_sources a)" "ss_name p = n" by (metis imageE)
    then have "b0 n \<noteq> None" using bind_operands_bound [OF that(1)] by blast
    moreover from that(2) have "bind_sources ?own (ts_shape source) b0 = Inr b" by (rule bind_recipe_parts)
    ultimately show ?thesis using bind_sources_keeps by (metis option.exhaust option.distinct(1))
  qed
  from err consider (guard) "is_guard x"
    | (operands) "bind_operands (cr_symbol_sources a) (ts_shape source) (ts_shape index) Map.empty = Inl x"
    | (bind) b0 where "bind_recipe r ?own source b0 = Inl x"
    | (extents) b0 b where "bind_operands (cr_symbol_sources a) (ts_shape source) (ts_shape index) Map.empty = Inr b0"
        "bind_recipe r ?own source b0 = Inr b" "mapR (evaluate True b) (ts_shape declared) = Inl x"
    | (names) b0 b where "bind_operands (cr_symbol_sources a) (ts_shape source) (ts_shape index) Map.empty = Inr b0"
        "bind_recipe r ?own source b0 = Inr b" "mapR (binding_of b) (cr_symbols a) = Inl x"
    by (auto simp: indexed_bind_def parts(1,2) res_bind_eq_Inl split: if_splits)
  then show ?thesis
  proof cases
    case guard
    then show ?thesis by (simp add: is_guard_def)
  next
    case operands
    then show ?thesis using bind_operands_error by (simp add: is_guard_def)
  next
    case bind
    then show ?thesis by (rule bind_recipe_guard [OF wf t])
  next
    case extents
    have "\<forall>n\<in>set (symbols_of e). b n \<noteq> None" if "e \<in> set (ts_shape declared)" for e
      using bound [OF extents(1,2)] sources_for_names [OF parts(3,2) that] parts(5) by simp
    then have "is_guard x" using mapR_error [OF _ extents(3), of is_guard] wf_dims evaluate_bound_error by blast
    then show ?thesis by (simp add: is_guard_def)
  next
    case names
    have "\<forall>n\<in>set (cr_symbols a). b n \<noteq> None" using bound [OF names(1,2)] by blast
    from mapR_binding_bound [OF this] names(3) show ?thesis by blast
  qed
qed

lemma bind_values_error:
  assumes "admit nv r mlir plan manifest = Inr a" and "emit_mlir r = Inr mlir" and "wf_recipe r"
    and "bind_values a value indices = Inl x"
  shows "\<exists>reason. x = GuardError reason"
proof -
  have spec: "\<exists>reason. y = GuardError reason" if "tensor_spec_of v = Inl y" for v y
    using that by (auto simp: tensor_spec_of_def split: option.splits)
  show ?thesis
  proof (cases "recipe_indexed r")
    case True
    with assms(4) admit_flags(1) [OF assms(1)] spec indexed_bind_error [OF assms(1) True assms(2,3)] show ?thesis
      by (auto simp: bind_values_def res_bind_eq_Inl split: option.splits)
  next
    case False
    with assms(4) admit_flags(1) [OF assms(1)] spec metadata_bind_error [OF assms(1) False assms(2,3)] show ?thesis
      by (auto simp: bind_values_def res_bind_eq_Inl)
  qed
qed

section \<open>Destination and parameters\<close>

lemma destination_metadata_den:
  assumes "destination_metadata a items = Inr (shape, strides, dtype)"
  shows "shape = map (den (env_val (map_of items))) (ts_shape (cr_logical_destination a))"
    and "strides = map (den (env_val (map_of items))) (ts_strides (cr_logical_destination a))"
    and "dtype = ts_dtype (cr_logical_destination a)" and "\<forall>d\<in>set shape. 0 < d"
  using assms
  by (auto simp: destination_metadata_def Let_def dest!: mapR_evaluate_den split: if_splits)

lemma parameter_extents_names:
  "parameter_extents a items = Inr ps \<Longrightarrow> map fst ps = map pd_name (cr_parameters a)"
proof -
  assume "parameter_extents a items = Inr ps"
  then have "parameter_metadata a items = Inr ps"
    by (auto simp: parameter_extents_def split: sum.splits exn.splits)
  then have "list_all2 (\<lambda>d p. fst p = pd_name d) (cr_parameters a) ps"
    unfolding parameter_metadata_def mapR_eq_Inr by (rule list_all2_mono) auto
  then show ?thesis by (induction rule: list_all2_induct) auto
qed

end
