(* ===== verification/Worked_Example.thy ===== *)
theory Worked_Example
  imports Admission
begin

text \<open>
  One artifact, end to end: the recipe that reshapes a float32 vector of \<open>s0\<close> elements into rows of
  64 and transposes them, the plan header and the manifest a compiler publishes for it, and a native
  runtime that decodes that header.  The witnesses of the properties apply them here.
\<close>

definition readme_mlir :: string where
  "readme_mlir = (case emit_mlir readme_recipe of Inl _ \<Rightarrow> [] | Inr t \<Rightarrow> t)"

definition readme_plan :: string where
  "readme_plan = wire_header 0 [''s0'']"

definition readme_native :: native where
  "readme_native = \<lparr>nv_available = True,
     nv_load = (\<lambda>typed plan. case wire_symbols plan 0 of
        Inl _ \<Rightarrow> Inl ''truncated plan''
      | Inr names \<Rightarrow> Inr \<lparr>dp_symbols = names, dp_num_stages = 0, dp_stages = [], dp_fills = 0, dp_parameters = []\<rparr>),
     nv_load_indexed = (\<lambda>plan. Inl ''not an indexed plan''),
     nv_sha256 = (\<lambda>s. py_str (int (length s)))\<rparr>"

definition readme_fields :: "(string \<times> json) list" where
  "readme_fields = [
     (''schema_version'', JInt 1), (''wire_version'', JInt 0), (''status'', JStr ''ok''),
     (''compiler'', JObj [(''name'', JStr ''sym-reloc-export''), (''interface_version'', JInt 1),
        (''llvm_version'', JStr ''21.1''), (''build_identity'', JStr ''release'')]),
     (''plan_count'', JInt 1), (''symbols'', JList [JStr ''s0'']),
     (''logical_source'', encode_descriptor (r_source readme_recipe)),
     (''logical_destination'', encode_descriptor (r_destination readme_recipe)),
     (''constraints'', JObj [(''divisibility'',
        JList [JObj [(''expr'', encode_expr (Symbol ''s0'')), (''divisor'', JInt 64)]])]),
     (''plan_sha256'', JStr (py_str (int (length readme_plan)))),
     (''input_sha256'', JStr (py_str (int (length readme_mlir))))]"

definition readme_manifest :: json where
  "readme_manifest = JObj readme_fields"

definition readme_artifact :: compiled_recipe where
  "readme_artifact = \<lparr>cr_recipe = readme_recipe, cr_plan_bytes = readme_plan,
     cr_compiler = \<lparr>ci_name = ''sym-reloc-export'', ci_interface_version = 1, ci_llvm_version = ''21.1'',
       ci_build_identity = ''release''\<rparr>,
     cr_wire_version = 0, cr_symbols = [''s0''], cr_symbol_sources = readme_sources,
     cr_constraints = [\<lparr>c_expr = Symbol ''s0'', c_divisor = 64\<rparr>],
     cr_logical_source = r_source readme_recipe, cr_logical_destination = r_destination readme_recipe,
     cr_manifest = readme_manifest, cr_parameters = []\<rparr>"

lemma readme_emits: "emit_mlir readme_recipe = Inr readme_mlir"
proof -
  have "case emit_mlir readme_recipe of Inl _ \<Rightarrow> False | Inr _ \<Rightarrow> True" by code_simp
  then show ?thesis by (auto simp: readme_mlir_def split: sum.splits)
qed

lemma readme_recipe_ok: "recipe_ok readme_recipe"
  by code_simp

lemma readme_layout: "\<not> recipe_indexed readme_recipe" "\<not> recipe_typed readme_recipe"
  by code_simp+

lemma readme_wire: "wire_symbols readme_plan 0 = Inr [''s0'']"
proof -
  have "ascii_identifier ''s0''" by code_simp
  then show ?thesis
    using wire_symbols_iff [of 0 readme_plan "[''s0'']"] by (simp add: readme_plan_def)
qed

lemma readme_symbols: "symbol_sources (ts_shape (r_source readme_recipe)) = Inr readme_sources"
  by code_simp

lemma readme_expected: "expected_constraints readme_recipe = [\<lparr>c_expr = Symbol ''s0'', c_divisor = 64\<rparr>]"
  by (simp add: expected_constraints_def readme_recipe_def is_const_def Let_def)

lemma readme_descriptors_ok:
  "descriptor_ok False (r_source readme_recipe)" "descriptor_ok False (r_destination readme_recipe)"
  by code_simp+

lemma readme_recipe_symbols: "recipe_symbols readme_recipe = {''s0''}"
  by (auto simp: recipe_symbols_def recipe_exprs_def descriptor_exprs_def readme_recipe_def)

lemma readme_constraints:
  "parse_constraints (JObj [(''divisibility'',
     JList [JObj [(''expr'', encode_expr (Symbol ''s0'')), (''divisor'', JInt 64)]])]) =
   Inr [\<lparr>c_expr = Symbol ''s0'', c_divisor = 64\<rparr>]"
  by code_simp

lemma readme_lookups:
  "json_field readme_fields ''symbols'' = Inr (JList [JStr ''s0''])"
  "json_field readme_fields ''logical_source'' = Inr (encode_descriptor (r_source readme_recipe))"
  "json_field readme_fields ''logical_destination'' = Inr (encode_descriptor (r_destination readme_recipe))"
  "json_field readme_fields ''plan_sha256'' = Inr (JStr (nv_sha256 readme_native readme_plan))"
  "json_field readme_fields ''input_sha256'' = Inr (JStr (nv_sha256 readme_native readme_mlir))"
  by (simp_all add: readme_fields_def readme_native_def)

lemma readme_keys: "same_keys (map fst readme_fields) (success_fields False)"
  by (simp add: readme_fields_def success_fields_def same_keys_def)

lemma readme_status: "exactly_one_plan readme_fields e = Inr ()"
  by (simp add: exactly_one_plan_eq_Inr readme_fields_def)

lemma readme_base: "validate_base readme_fields layout_schema = Inr (cr_compiler readme_artifact)"
  by (simp add: validate_base_eq_Inr layout_schema_def json_get_def readme_fields_def readme_artifact_def
      compiler_identity_of_def same_keys_def)

lemma readme_constraints_field:
  "json_field readme_fields ''constraints'' = Inr (JObj [(''divisibility'',
     JList [JObj [(''expr'', encode_expr (Symbol ''s0'')), (''divisor'', JInt 64)]])])"
  by (simp add: readme_fields_def)

lemma readme_decodes:
  "decode_plan readme_native readme_plan typed = Inr \<lparr>dp_symbols = [''s0''], dp_num_stages = 0,
     dp_stages = [], dp_fills = 0, dp_parameters = []\<rparr>"
  by (simp add: decode_plan_def readme_native_def readme_wire)

lemma readme_sources: "sources_by_name readme_sources [''s0''] = Inr readme_sources"
  by (simp add: sources_by_name_def readme_sources_def)

lemma readme_digest: "nv_sha256 readme_native s \<noteq> []"
  by (simp add: readme_native_def py_str_def)

lemma readme_version: "snd layout_schema = 0"
  by (simp add: layout_schema_def)

lemmas readme_steps = readme_version readme_digest readme_layout readme_keys readme_status readme_base readme_lookups readme_constraints_field
  readme_decodes readme_wire readme_descriptors_ok readme_expected readme_constraints readme_symbols readme_sources
  readme_recipe_symbols parse_encode_descriptor

lemma readme_admitted: "admit readme_native readme_recipe readme_mlir readme_plan readme_manifest = Inr readme_artifact"
  by (simp add: admit_def readme_manifest_def readme_steps json_strings_def json_list_def Let_def readme_artifact_def
      del: encode_expr.simps)

lemma readme_metadata: "metadata_bind readme_artifact (vector_source 128) = Inr [(''s0'', PyInt 128)]"
proof -
  obtain b where b: "bind_recipe readme_recipe readme_sources (vector_source 128) Map.empty = Inr b"
    using readme_bound ..
  have s0: "b ''s0'' = Some (PyInt 128)"
    using bind_sources_bound [of readme_sources "ts_shape (vector_source 128)" Map.empty b]
    using b by (auto elim!: bind_recipe_parts simp: readme_sources_def vector_source_def)
  then have "ev b (Symbol ''s0'') = Inr 128" by (simp add: in_i64_def)
  with s0 b show ?thesis
    by (simp add: metadata_bind_def readme_artifact_def check_constraint_def binding_of_def py_mod_def)
qed


text \<open>An indexed recipe: \<open>picked\<close> rows out of \<open>rows\<close>, each of four float32 values.\<close>

definition gather_recipe :: recipe where
  "gather_recipe = \<lparr>r_source = \<lparr>ts_shape = [Symbol ''rows'', Const 4], ts_strides = [Const 4, Const 1],
      ts_offset = Const 0, ts_dtype = ''float32''\<rparr>,
    r_operations = [IndexSelect \<lparr>ts_shape = [Symbol ''picked''], ts_strides = [Const 1], ts_offset = Const 0,
      ts_dtype = ''int64''\<rparr> 0],
    r_destination = \<lparr>ts_shape = [Symbol ''picked'', Const 4], ts_strides = [Const 4, Const 1],
      ts_offset = Const 0, ts_dtype = ''float32''\<rparr>,
    r_direction = ''h2d''\<rparr>"

definition gather_artifact :: compiled_recipe where
  "gather_artifact = \<lparr>cr_recipe = gather_recipe, cr_plan_bytes = [],
     cr_compiler = cr_compiler readme_artifact, cr_wire_version = 2, cr_symbols = [''rows'', ''picked''],
     cr_symbol_sources = [
       \<lparr>ss_name = ''rows'', ss_axis = 0, ss_equal_axes = [], ss_operand = ''source''\<rparr>,
       \<lparr>ss_name = ''picked'', ss_axis = 0, ss_equal_axes = [], ss_operand = ''indices''\<rparr>],
     cr_constraints = [], cr_logical_source = r_source gather_recipe,
     cr_logical_destination = r_destination gather_recipe, cr_manifest = JNull, cr_parameters = []\<rparr>"

definition gather_source :: "pyint tensor_spec" where
  "gather_source = \<lparr>ts_shape = [PyInt 100, PyInt 4], ts_strides = [PyInt 4, PyInt 1], ts_offset = PyInt 0,
     ts_dtype = ''float32''\<rparr>"

definition gather_index :: "pyint tensor_spec" where
  "gather_index = \<lparr>ts_shape = [PyInt 7], ts_strides = [PyInt 1], ts_offset = PyInt 0, ts_dtype = ''int64''\<rparr>"

lemma gather_binds: "\<exists>items. indexed_bind gather_artifact gather_source gather_index = Inr items"
proof -
  have "case indexed_bind gather_artifact gather_source gather_index of Inl _ \<Rightarrow> False | Inr _ \<Rightarrow> True"
    by code_simp
  then show ?thesis by (auto split: sum.splits)
qed

end
