(* ===== verification/Service_Properties.thy ===== *)
theory Service_Properties
  imports Artifact_Cache Templates Store Eligibility Wire_Weights Transfer_Queue Worked_Example
begin

text \<open>
  The properties of the services around execution: compilation and template caches, the artifact
  store, eligibility, prepared weights and the transfer queue.
\<close>

section \<open>Caches\<close>

lemma cache_step_capacity: "cache_step w w' \<Longrightarrow> ac_capacity (fst w') = ac_capacity (fst w)"
  by (induction rule: cache_step.induct) (auto dest: probe_capacity)

lemma cache_steps_capacity: "cache_step\<^sup>*\<^sup>* w w' \<Longrightarrow> ac_capacity (fst w') = ac_capacity (fst w)"
  by (induction rule: rtranclp_induct) (simp_all add: cache_step_capacity)

lemma new_cache_fields: "new_cache (PyInt n) = Inr c \<Longrightarrow> ac_capacity c = nat n \<and> ac_pending c = []"
  by (auto simp: new_cache_def split: if_splits)

text \<open>
  C12. Single flight.  From a fresh cache, whatever any number of threads do in whatever order, at most
  one thread compiles a key at a time, both tables stay within the capacity, and a thread that has to
  wait waits for a thread that really is compiling its key, so no waiter is forgotten.
\<close>

theorem cache_single_flight:
  assumes "new_cache (PyInt n) = Inr c0" and "cache_step\<^sup>*\<^sup>* (c0, \<lambda>_. Idle) (c, th)"
  shows "(\<forall>t u key. th t = Compiling key \<longrightarrow> th u = Compiling key \<longrightarrow> t = u) \<and>
    int (length (ac_entries c)) \<le> n \<and> int (length (ac_rejections c)) \<le> n \<and>
    (\<forall>key. fst (probe key c) = Busy \<longrightarrow> (\<exists>u. th u = Compiling key))"
proof -
  have ok: "cache_world_ok (c, th)"
    using cache_steps_ok [OF assms(2)] start_ok [OF new_cache_ok [OF assms(1)]] new_cache_fields [OF assms(1)] by simp
  have cap: "ac_capacity c = nat n" "1 \<le> n"
    using cache_steps_capacity [OF assms(2)] new_cache_fields [OF assms(1)] assms(1)
    by (auto simp: new_cache_def split: if_splits)
  have "\<exists>u. th u = Compiling key" if "fst (probe key c) = Busy" for key
    using busy_has_compiler [OF ok, of key "snd (probe key c)"] that by (metis surjective_pairing)
  with ok cap cache_okD(5,6) [of c] show ?thesis by (auto simp: cache_world_ok_def)
qed

theorem cache_single_flight_witness:
  "\<exists>c th. cache_step\<^sup>*\<^sup>* (\<lparr>ac_capacity = 2, ac_entries = [], ac_rejections = [], ac_pending = []\<rparr>, \<lambda>_. Idle)
       (c :: (string, nat) artifact_cache, th :: nat \<Rightarrow> (string, nat) thread) \<and>
     th 0 = Compiling ''k'' \<and> (\<forall>u. th u = Compiling ''k'' \<longrightarrow> 0 = u)"
proof -
  let ?c = "\<lparr>ac_capacity = 2, ac_entries = [], ac_rejections = [], ac_pending = []\<rparr> :: (string, nat) artifact_cache"
  let ?th = "(\<lambda>_. Idle)(0 := Waiting ''k'') :: nat \<Rightarrow> (string, nat) thread"
  have "cache_step (?c, \<lambda>_. Idle) (?c, ?th)" by (rule ask) simp
  moreover have "cache_step (?c, ?th) (?c\<lparr>ac_pending := [''k'']\<rparr>, ?th(0 := Compiling ''k''))"
    by (rule claim) (simp_all add: probe_def)
  ultimately have steps: "cache_step\<^sup>*\<^sup>* (?c, \<lambda>_. Idle) (?c\<lparr>ac_pending := [''k'']\<rparr>, ?th(0 := Compiling ''k''))" by auto
  have "new_cache (PyInt 2) = Inr ?c" by (simp add: new_cache_def)
  from cache_single_flight [OF this steps] steps show ?thesis by (metis fun_upd_same)
qed

text \<open>
  The cache remembers.  After a request ends with an artifact or an explicit rejection, a later
  request for the same key gets the same answer as a cache hit, whatever a compilation would do by then;
  only other failures are compiled again.
\<close>

theorem cache_remembers:
  assumes ok: "cache_ok c" and call: "get_or_compile key compile c d = Some (r, c', d')"
    and settled: "r = Inr a \<or> r = Inl (UnsupportedRecipe reason detail)"
  shows "\<exists>c''. get_or_compile key again c' d2 = Some (r, c'', increment ''cache_hits'' 1 d2)"
proof -
  obtain p cp where p: "probe key c = (p, cp)" by fastforce
  note okp = probe_ok [OF ok p]
  have known: "(\<exists>a. r = Inr a \<and> map_of (ac_entries c') key = Some a) \<or>
    (\<exists>x y. r = Inl (UnsupportedRecipe x y) \<and> map_of (ac_entries c') key = None \<and>
       map_of (ac_rejections c') key = Some (x, y))"
  proof (cases p)
    case Claimed
    with p call have c': "c' = settle key (outcome_of r) cp" "key \<in> set (ac_pending cp)"
      using probe_pending [OF p] by (auto simp: get_or_compile_def)
    with settled settle_compiled_lookup [OF okp] settle_declined_lookup [OF okp c'(2)] show ?thesis
      by (auto simp: outcome_of_def)
  qed (use p call in \<open>auto simp: get_or_compile_def probe_def od_touch_lookup [OF cache_okD(2) [OF ok]]
      od_touch_lookup [OF cache_okD(3) [OF ok]] split: option.splits if_splits\<close>)
  then show ?thesis by (auto simp: get_or_compile_def probe_def split: option.splits)
qed

theorem cache_remembers_witness:
  "\<exists>c' d'. get_or_compile ''k'' (Inr 7) \<lparr>ac_capacity = 1, ac_entries = [], ac_rejections = [], ac_pending = []\<rparr>
       new_diagnostics = Some (Inr (7::nat), c', d') \<and>
     (\<exists>c''. get_or_compile ''k'' (Inr 8) c' new_diagnostics =
        Some (Inr 7, c'', increment ''cache_hits'' 1 new_diagnostics))"
proof -
  let ?c = "\<lparr>ac_capacity = 1, ac_entries = [], ac_rejections = [], ac_pending = []\<rparr> :: (string, nat) artifact_cache"
  have ok: "cache_ok ?c" by (rule new_cache_ok [of "PyInt 1"]) (simp add: new_cache_def)
  obtain c' d' where run: "get_or_compile ''k'' (Inr 7) ?c new_diagnostics = Some (Inr 7, c', d')"
    by (simp add: get_or_compile_def probe_def)
  from cache_remembers [OF ok run disjI1 [OF refl]] run show ?thesis by blast
qed

text \<open>
  The template cache always finds room.  Inserting into a consistent cache returns, never raises out
  of its eviction loop, and keeps both limits and the byte account; and what an insertion returns is what
  the next lookup of that key finds, unless the cache is bypassed.
\<close>

theorem template_insertion:
  assumes "templates_ok t" and "0 \<le> n"
  shows "\<exists>r t'. tc_put pid key v n t = Inr (r, t') \<and> templates_ok t' \<and>
    tc_max_entries t' = tc_max_entries t \<and> tc_max_bytes t' = tc_max_bytes t \<and>
    (\<not> tc_bypass n t \<longrightarrow> fst (tc_get pid key n t') = Some r)"
proof -
  obtain r t' where put: "tc_put pid key v n t = Inr (r, t')" and "templates_ok t'"
    and "tc_max_entries t' = tc_max_entries t" "tc_max_bytes t' = tc_max_bytes t"
    by (rule put_ok [OF assms])
  with put_get [OF assms _ put] show ?thesis by blast
qed

theorem template_insertion_witness:
  "\<exists>r t'. tc_put 1 ''b'' ''second'' 5 (new_templates 1 1 8) = Inr (r, t') \<and> templates_ok t' \<and>
     fst (tc_get 1 ''b'' 5 t') = Some r"
proof -
  have ok: "templates_ok (new_templates 1 1 8 :: (string, string) templates)" by (rule new_templates_ok) simp_all
  have fits: "\<not> tc_bypass 5 (new_templates 1 1 8)" by (simp add: tc_bypass_def new_templates_def tc_reset_def)
  from template_insertion [OF ok, of 5 1 "''b''" "''second''"] fits show ?thesis by auto
qed

section \<open>The artifact store\<close>

text \<open>
  Every store operation leaves the directory within its limits: however full, corrupted or foreign
  the directory was, after \<open>get_or_compile\<close> at most \<open>max_entries\<close> artifacts of at most \<open>max_bytes\<close> in
  all remain, whether the call hit, missed, replaced an invalid file or failed.
\<close>

theorem store_stays_within_limits:
  assumes "store_ok s" and "store_get_or_compile nv tx now r compiler compile s = (res, s')"
  shows "store_bytes (st_files s') \<le> st_max_bytes s' \<and> int (length (st_files s')) \<le> st_max_entries s'"
  using store_within [OF assms] by (simp add: within_limits_def)

theorem store_stays_within_limits_witness:
  "\<exists>s res s'. new_store (PyInt 3) (PyInt 1) ''ns'' ''reloc_torch/1''
       [\<lparr>sf_name = ''old.artifact'', sf_mtime = 1, sf_data = ''oversize''\<rparr>] = Inr s \<and>
     store_get_or_compile readme_native \<lparr>tx_dumps = \<lambda>_ _. ''x'', tx_loads = \<lambda>_. None\<rparr> 2
       readme_recipe ''digest'' (Inr readme_artifact) s = (res, s') \<and>
     store_bytes (st_files s') \<le> st_max_bytes s' \<and> int (length (st_files s')) \<le> st_max_entries s'"
proof -
  obtain s where new: "new_store (PyInt 3) (PyInt 1) ''ns'' ''reloc_torch/1''
       [\<lparr>sf_name = ''old.artifact'', sf_mtime = 1, sf_data = ''oversize''\<rparr>] = Inr s"
    by (simp add: new_store_def)
  obtain res s' where run: "store_get_or_compile readme_native \<lparr>tx_dumps = \<lambda>_ _. ''x'', tx_loads = \<lambda>_. None\<rparr> 2
       readme_recipe ''digest'' (Inr readme_artifact) s = (res, s')" by fastforce
  from store_stays_within_limits [OF new_store_ok [OF new] run] new run show ?thesis by blast
qed

lemma store_answer_admitted:
  assumes "store_get_or_compile nv tx now r compiler compile s = (Inr a, s')"
  shows "compile = Inr a \<or> (cr_recipe a = r \<and> (\<exists>mlir. emit_mlir r = Inr mlir \<and>
    admit nv r mlir (cr_plan_bytes a) (cr_manifest a) = Inr a))"
proof -
  have "compile = Inr a \<or> (\<exists>n key data. read_envelope nv tx n key r data = Inr a)"
    using assms compile_and_publish_result
    by (fastforce simp: store_get_or_compile_def Let_def split: option.splits sum.splits if_splits)
  moreover have ?thesis if "read_envelope nv tx n key r data = Inr a" for n key data
  proof -
    from read_envelope_sound [OF that] obtain b where "cr_recipe a = r" "artifact_of_text nv tx b = Inr a" by blast
    then obtain payload where "from_payload nv payload = Inr a" by (auto simp: artifact_of_text_def split: option.splits)
    then show ?thesis using \<open>cr_recipe a = r\<close> by (auto elim: from_payload_parts)
  qed
  ultimately show ?thesis by blast
qed

text \<open>
  The store never serves what was not admitted: an answer is either what the compiler just returned
  or an artifact for exactly the requested recipe that passed admission when it was read back.
\<close>

theorem store_serves_admitted:
  assumes "store_get_or_compile nv tx now r compiler compile s = (Inr a, s')"
  shows "compile = Inr a \<or> (cr_recipe a = r \<and> (\<exists>mlir. emit_mlir r = Inr mlir \<and>
    admit nv r mlir (cr_plan_bytes a) (cr_manifest a) = Inr a))"
  using assms by (rule store_answer_admitted)

theorem store_serves_admitted_witness:
  "\<exists>a s'. store_get_or_compile readme_native \<lparr>tx_dumps = \<lambda>_ _. ''x'', tx_loads = \<lambda>_. None\<rparr> 2
        readme_recipe ''digest'' (Inr readme_artifact)
        \<lparr>st_max_bytes = 3, st_max_entries = 1, st_namespace = ''ns'', st_frontend = ''reloc_torch/1'',
          st_files = [], st_hits = 0, st_misses = 0, st_invalid = 0, st_evictions = 0\<rparr> = (Inr a, s') \<and>
     (Inr readme_artifact = (Inr a :: compiled_recipe res) \<or> cr_recipe a = readme_recipe)"
proof -
  let ?s = "\<lparr>st_max_bytes = 3, st_max_entries = 1, st_namespace = ''ns'', st_frontend = ''reloc_torch/1'',
          st_files = [], st_hits = 0, st_misses = 0, st_invalid = 0, st_evictions = 0\<rparr>"
  let ?tx = "\<lparr>tx_dumps = \<lambda>_ _. ''x'', tx_loads = \<lambda>_. None\<rparr>"
  obtain a s' where run: "store_get_or_compile readme_native ?tx 2 readme_recipe ''digest'' (Inr readme_artifact) ?s = (Inr a, s')"
    by (simp add: store_get_or_compile_def trim_def find_file_def compile_and_publish_def Let_def)
  from store_serves_admitted [OF run] run show ?thesis by blast
qed

section \<open>Eligibility\<close>

text \<open>
  Exactly the offloadable transfers are candidates: an observation is classified as one if and only
  if it is a successful, blocking, fresh, non-mutating copy between CPU and CUDA by a transfer operator,
  both tensors are plain, dense, non-empty and at offset zero in a supported dtype, and the dtypes agree
  or are a supported cast.
\<close>

theorem candidates_exactly:
  "el_candidate (classify_transfer r) \<longleftrightarrow>
     category r = ''transfer'' \<and> tr_failure_type r = None \<and> plain_dense (tr_source r) \<and>
     plain_dense (tr_destination r) \<and>
     {tm_device_type (tr_source r), tm_device_type (tr_destination r)} = {''cpu'', ''cuda''} \<and>
     \<not> tr_non_blocking r \<and> \<not> tr_aliases_source r \<and>
     (tm_dtype (tr_source r) = tm_dtype (tr_destination r) \<or>
      (tm_dtype (tr_source r), tm_dtype (tr_destination r)) \<in> set c1_casts) \<and>
     tr_operator r \<in> set transfer_operators"
  by (rule classify_transfer_candidate)

section \<open>Prepared weights\<close>

text \<open>
  C31. The weight budget holds in every state: after any sequence of preparations (failed ones included),
  invalidations, finalizer runs and a close, the bytes charged are exactly those of the live and retired
  snapshots and stay within the prepared, pinned and entry limits, peaks included.
\<close>

theorem weight_budget_invariant:
  assumes "new_weights pid pin n p q device opts dtype = Inr w0"
  shows "let w = fold (weight_run pid) ops w0; b = ww_budget w in
    bd_live b = sum_mset (image_mset (\<lambda>h. int (fst h)) (live_holdings w)) \<and>
    bd_pinned b = sum_mset (image_mset (\<lambda>h. int (snd h)) (live_holdings w)) \<and>
    bd_entries b = int (size (live_holdings w)) \<and> bd_live b \<le> bd_peak b \<and> bd_peak b \<le> bd_limit b \<and>
    bd_pinned b \<le> bd_pin_peak b \<and> bd_pin_peak b \<le> bd_pin_limit b \<and> bd_entries b \<le> bd_entry_limit b"
  using weights_okD(3) [OF weight_runs_ok [OF new_weights_ok [OF assms], of pid ops]]
  by (simp add: Let_def budget_accounts_def)

theorem weight_budget_invariant_witness:
  "\<exists>w0. new_weights 1 True (PyInt 4) (PyInt 100) (PyInt 50) ''cuda'' [] ''float32'' = Inr w0 \<and>
     bd_peak (ww_budget (fold (weight_run 1) [Close, Collect 0] w0)) \<le>
       bd_limit (ww_budget (fold (weight_run 1) [Close, Collect 0] w0))"
proof -
  obtain w0 where w: "new_weights 1 True (PyInt 4) (PyInt 100) (PyInt 50) ''cuda'' [] ''float32'' = Inr w0"
    by (simp add: new_weights_def positive_def)
  from weight_budget_invariant [OF w, of "[Close, Collect 0]"] w show ?thesis unfolding Let_def by blast
qed

text \<open>
  C32. Preparing a weight is atomic: a failure, wherever it happens, leaves every name's previous revision
  and the revision counter as they were; a success replaces exactly that name's entry by a snapshot with
  the next revision number.
\<close>

theorem weight_preparation_atomic:
  "case prepare pid name q scale build w of
     (Inl e, w') \<Rightarrow> ww_entries w' = ww_entries w \<and> ww_revision w' = ww_revision w
   | (Inr info, w') \<Rightarrow> map_of (ww_entries w') = (map_of (ww_entries w))(name \<mapsto> info) \<and>
       wi_name info = name \<and> wi_revision info = Suc (ww_revision w) \<and> ww_revision w' = Suc (ww_revision w)"
proof -
  obtain r w' where p: "prepare pid name q scale build w = (r, w')" by fastforce
  show ?thesis unfolding p using prepare_failure [of pid name q scale build w _ w']
      prepare_success [of pid name q scale build w _ w'] p by (cases r) auto
qed

section \<open>The transfer queue\<close>

definition idle_queue :: queue where
  "idle_queue = \<lparr>qu_device = ''cuda:0'', qu_max_in_flight = 2, qu_max_output_bytes = 1024, qu_pid = 1,
     qu_closed = False, qu_held = [], qu_bytes = 0, qu_submitted = 0, qu_peak_bytes = 0, qu_peak_handles = 0,
     qu_totals = \<lparr>to_groups = 0, to_logical_transfers = 0, to_source_bytes = 0, to_wire_bytes = 0,
       to_destination_bytes = 0, to_payload_bytes = 0, to_dispatches = []\<rparr>,
     qu_quarantine = [], qu_owns_resources = False\<rparr>"

lemma idle_queue_ok: "queue_ok idle_queue"
  by (simp add: queue_ok_def idle_queue_def od_ok_def od_keys_def held_sizes_def)

definition reliable_gpu :: gpu where
  "reliable_gpu = \<lparr>gp_wait = \<lambda>_. None, gp_wait_stream = \<lambda>_ _. None, gp_query = \<lambda>_. Inr True,
     gp_record_event = \<lambda>_ _. None, gp_synchronize = \<lambda>_ _. None,
     gp_report = \<lambda>_. \<lparr>gr_logical_transfers = 1, gr_items = []\<rparr>, gp_current_stream = ''default'',
     gp_stream_device = \<lambda>_. ''cuda:0'', gp_close_resources = None\<rparr>"

text \<open>
  C30. The queue's reservations are exact in every state: after any sequence of submissions, waits,
  releases and closes, with any GPU failures, the bytes reserved are the sum over the open handles, and
  bytes, handles and both peaks stay within the configured limits.
\<close>

theorem queue_reservations:
  assumes "queue_ok q0"
  shows "let q = fold (queue_run g pid) ops q0 in
    qu_bytes q = held_sizes q \<and> qu_bytes q \<le> qu_peak_bytes q \<and> qu_peak_bytes q \<le> qu_max_output_bytes q \<and>
    int (length (qu_held q)) \<le> qu_peak_handles q \<and> qu_peak_handles q \<le> qu_max_in_flight q"
  using queue_okD [OF queue_runs_ok [OF assms, of g pid ops]] by (simp add: Let_def)

theorem queue_reservations_witness:
  "let q = fold (queue_run reliable_gpu 1) [Submit ''cuda:0'' 600 False True None None,
       Submit ''cuda:0'' 600 False True None None, CloseHandle 0] idle_queue
   in qu_bytes q = held_sizes q \<and> qu_peak_bytes q \<le> qu_max_output_bytes q"
  using queue_reservations [OF idle_queue_ok] unfolding Let_def by blast

text \<open>
  Closing a queue drains it: whatever fails on the way, every handle is closed exactly once, no
  reservation is left, and the queue accepts no more work.
\<close>

theorem queue_close_drains:
  assumes "queue_ok q" and "qu_pid q = pid" and "close_queue g pid q = (q', e)"
  shows "qu_held q' = [] \<and> qu_bytes q' = 0 \<and> \<not> can_submit sz q'"
proof -
  have "q' = fst (close_queue g pid q)" using assms(3) by simp
  moreover have "qu_closed (fst (close_all g hs (q\<lparr>qu_closed := True\<rparr>)))" for hs
    by (rule close_all_closed) simp
  ultimately show ?thesis
    using close_queue_empty [OF assms(2,1)] assms(2)
    by (auto simp: can_submit_def close_queue_def check_queue_def split_beta)
qed

theorem queue_close_drains_witness:
  "let q = snd (submit reliable_gpu 1 ''cuda:0'' 600 False True None None idle_queue);
       q' = fst (close_queue reliable_gpu 1 q)
   in length (qu_held q) = 1 \<and> qu_held q' = [] \<and> \<not> can_submit 1 q'"
proof -
  let ?r = "submit reliable_gpu 1 ''cuda:0'' 600 False True None None idle_queue"
  have ok: "queue_ok (snd ?r)" by (rule submit_ok [OF idle_queue_ok surjective_pairing])
  have one: "qu_pid (snd ?r) = 1 \<and> length (qu_held (snd ?r)) = 1" by code_simp
  from queue_close_drains [OF ok _ surjective_pairing, of 1 reliable_gpu 1] one
  show ?thesis unfolding Let_def by auto
qed

text \<open>
  The prefetch window makes room by retiring its oldest completions: if the window holds all open
  handles and no close fails or quarantines, then after the loop the next group fits, provided it fits an
  empty queue at all.
\<close>

theorem prefetch_makes_room:
  assumes "queue_ok q" and "make_room g sz hs q = (hs', q', None)"
    and "set (od_keys (qu_held q)) \<subseteq> set hs" and "\<not> qu_closed q'"
    and "int sz \<le> qu_max_output_bytes q" and "0 < qu_max_in_flight q"
  shows "can_submit sz q'"
  using assms by (rule make_room_fits)

theorem prefetch_makes_room_witness:
  "let q = snd (submit reliable_gpu 1 ''cuda:0'' 600 False True None None idle_queue);
       (hs', q', e) = make_room reliable_gpu 900 [0] q
   in \<not> can_submit 900 q \<and> can_submit 900 q'"
proof -
  let ?q = "snd (submit reliable_gpu 1 ''cuda:0'' 600 False True None None idle_queue)"
  have ok: "queue_ok ?q" by (rule submit_ok [OF idle_queue_ok surjective_pairing])
  obtain hs' q' e where room: "make_room reliable_gpu 900 [0] ?q = (hs', q', e)" by (metis prod.exhaust)
  have closes: "snd (snd (make_room reliable_gpu 900 [0] ?q)) = None \<and>
    \<not> qu_closed (fst (snd (make_room reliable_gpu 900 [0] ?q)))" by code_simp
  have small: "set (od_keys (qu_held ?q)) \<subseteq> set [0]" "int 900 \<le> qu_max_output_bytes ?q" "0 < qu_max_in_flight ?q"
    "\<not> can_submit 900 ?q" by code_simp+
  from prefetch_makes_room [OF ok, of reliable_gpu 900 "[0]" hs' q'] room closes small
  show ?thesis unfolding Let_def by simp
qed

end
