(* ===== verification/Data_Properties.thy ===== *)
theory Data_Properties
  imports Worked_Example
begin

text \<open>
  The properties of the data plane: the expression algebra, shapes, the artifact format and its
  admission.  Each states what the code promises over the definitions of its component and rests on
  that component's lemmas.
\<close>

section \<open>Expressions and shapes\<close>

text \<open>
  Checked evaluation refuses exactly what does not fit: it returns a value if and only if every
  symbol is bound to an integer and every subexpression, not only the result, is a signed 64-bit
  value, and then the value is the integer the expression denotes (floor division and modulo as
  Python computes them).
\<close>

theorem checked_evaluation:
  assumes "wf_expr e"
  shows "evaluate True b e = Inr v \<longleftrightarrow>
    binds b e \<and> (\<forall>s\<in>set (subexprs e). in_i64 (den (env_val b) s)) \<and> v = den (env_val b) e"
  using assms by (rule evaluate_checked_iff)

theorem checked_evaluation_witness:
  "\<not> (\<exists>v. evaluate True [''n'' \<mapsto> PyInt (2 ^ 62)] (Mod (Mul (Symbol ''n'') (Const 4)) 8) = Inr v)"
proof -
  have wf: "wf_expr (Mod (Mul (Symbol ''n'') (Const 4)) 8)" by code_simp
  show ?thesis unfolding checked_evaluation [OF wf] by (simp add: in_i64_def env_val_def)
qed

text \<open>
  The smart constructors are a canonical form of the commutative operators: \<open>add\<close> and \<open>mul\<close> of
  well-formed expressions are commutative and associative as syntax, not only in value, so
  structural equality identifies reordered sums and products; and their value is the sum and the
  product.
\<close>

theorem canonical_algebra:
  assumes "wf_expr a" "wf_expr b" "wf_expr c"
  shows "add a b = add b a \<and> add (add a b) c = add a (add b c) \<and>
    mul a b = mul b a \<and> mul (mul a b) c = mul a (mul b c) \<and>
    den \<rho> (add a b) = den \<rho> a + den \<rho> b \<and> den \<rho> (mul a b) = den \<rho> a * den \<rho> b"
  using assms by (simp add: add_def mul_def commutative_comm commutative_assoc
      den_commutative [of \<rho> KAdd, simplified] den_commutative [of \<rho> KMul, simplified])

theorem canonical_algebra_witness:
  "add (add (Symbol ''n'') (Const 3)) (Symbol ''m'') = add (Symbol ''n'') (add (Const 3) (Symbol ''m''))"
proof -
  have "wf_expr (Symbol ''n'')" "wf_expr (Const 3)" "wf_expr (Symbol ''m'')" by code_simp+
  from canonical_algebra [OF this] show ?thesis by blast
qed

text \<open>
  Dense strides address a tensor exactly: whatever values the symbols take, offsets computed
  with \<open>dense_strides\<close> stay inside the element count and distinct in-bounds indices have distinct
  offsets.
\<close>

theorem dense_strides_address:
  assumes "in_bounds idx (map (den \<rho>) shape)" and "in_bounds idx' (map (den \<rho>) shape)"
  shows "0 \<le> linear_offset idx (map (den \<rho>) (dense_strides shape)) \<and>
    linear_offset idx (map (den \<rho>) (dense_strides shape)) < den \<rho> (product shape) \<and>
    (linear_offset idx (map (den \<rho>) (dense_strides shape)) =
     linear_offset idx' (map (den \<rho>) (dense_strides shape)) \<longrightarrow> idx = idx')"
  using assms linear_offset_bounds linear_offset_inj by (simp add: den_dense_strides den_product)

theorem dense_strides_address_witness:
  "linear_offset [1, 2] (map (den (\<lambda>_. 4)) (dense_strides [Const 3, Symbol ''n''])) <
     den (\<lambda>_. 4) (product [Const 3, Symbol ''n''])"
  using dense_strides_address [of "[1, 2]" "\<lambda>_. 4" "[Const 3, Symbol ''n'']" "[1, 2]"]
  by simp

text \<open>
  Reshape inference keeps the elements: when \<open>infer_reshape\<close> resolves a \<open>-1\<close> extent and the
  known extents divide the source count, the resolved shape has exactly the source's element count
  for these symbol values.
\<close>

theorem infer_reshape_elements:
  assumes "infer_reshape src tgt = Inr shape" and "Const (-1) \<in> set tgt"
    and "prod_list (map (den \<rho>) (filter (\<lambda>d. d \<noteq> Const (-1)) tgt)) dvd prod_list (map (den \<rho>) src)"
  shows "den \<rho> (product shape) = den \<rho> (product src)"
  using infer_reshape_count [OF assms] by (simp add: den_product)

theorem infer_reshape_elements_witness:
  "\<exists>shape. infer_reshape [Symbol ''n'', Const 6] [Const (-1), Const 3] = Inr shape \<and>
     den (\<lambda>_. 5) (product shape) = 30"
proof -
  have "case infer_reshape [Symbol ''n'', Const 6] [Const (-1), Const 3] of Inl _ \<Rightarrow> False | Inr _ \<Rightarrow> True"
    by code_simp
  then obtain shape where r: "infer_reshape [Symbol ''n'', Const 6] [Const (-1), Const 3] = Inr shape"
    by (auto split: sum.splits)
  from infer_reshape_elements [OF r, of "\<lambda>_. 5"] r show ?thesis by (auto simp: den_product)
qed

text \<open>
  Symbol sources: for every symbol of a shape there is exactly one source, its axis is the first
  place the symbol occurs, its equal axes are all later places in order, and nothing else is a
  source.
\<close>

theorem symbol_sources_positions:
  assumes "symbol_sources shape = Inr sources"
  shows "distinct (map ss_name sources) \<and> set (map ss_name sources) = {n. Symbol n \<in> set shape} \<and>
    (\<forall>s\<in>set sources. ss_axis s # ss_equal_axes s = positions (ss_name s) shape)"
  using symbol_sources_spec [OF assms] by blast

theorem symbol_sources_positions_witness:
  "\<exists>sources. symbol_sources [Symbol ''n'', Const 4, Symbol ''n''] = Inr sources \<and>
     (\<forall>s\<in>set sources. ss_axis s # ss_equal_axes s = positions (ss_name s) [Symbol ''n'', Const 4, Symbol ''n''])"
proof -
  have "case symbol_sources [Symbol ''n'', Const 4, Symbol ''n''] of Inl _ \<Rightarrow> False | Inr _ \<Rightarrow> True"
    by code_simp
  then obtain sources where r: "symbol_sources [Symbol ''n'', Const 4, Symbol ''n''] = Inr sources"
    by (auto split: sum.splits)
  from symbol_sources_positions [OF r] r show ?thesis by blast
qed

text \<open>
  Normalisation, the form in which admission compares descriptors, never changes a value: an
  expression and its normal form denote the same integer under all symbol values, and descriptors
  that \<open>_same_descriptor\<close> accepts denote the same descriptor.
\<close>

theorem normalisation_sound:
  "den \<rho> (normalize_expr e) = den \<rho> e \<and> (same_descriptor a s \<longrightarrow> den_spec \<rho> a = den_spec \<rho> s)"
  by (simp add: same_descriptor_den)

theorem normalisation_sound_witness:
  "\<forall>\<rho>. den_spec \<rho> \<lparr>ts_shape = [Add (Const 2) (Const 3)], ts_strides = [Const 1], ts_offset = Const 0, ts_dtype = ''int8''\<rparr> =
     den_spec \<rho> \<lparr>ts_shape = [Const 5], ts_strides = [Const 1], ts_offset = Const 0, ts_dtype = ''int8''\<rparr>"
proof -
  have "same_descriptor
     \<lparr>ts_shape = [Add (Const 2) (Const 3)], ts_strides = [Const 1], ts_offset = Const 0, ts_dtype = ''int8''\<rparr>
     \<lparr>ts_shape = [Const 5], ts_strides = [Const 1], ts_offset = Const 0, ts_dtype = ''int8''\<rparr>" by code_simp
  then show ?thesis using normalisation_sound by blast
qed

section \<open>The artifact format\<close>

text \<open>
  C29. The recipe codec is exact on what admission trusts: decoding an encoded well-formed recipe
  returns it, whatever a decoder accepts is well-formed, and re-encoding what was decoded decodes to
  the same recipe.
\<close>

theorem recipe_round_trip:
  "(recipe_ok r \<longrightarrow> decode_recipe (encode_recipe r) = Inr r) \<and>
   (decode_recipe j = Inr r \<longrightarrow> recipe_ok r \<and> decode_recipe (encode_recipe r) = Inr r)"
  using decode_encode_recipe decode_recipe_ok by blast

theorem recipe_round_trip_witness: "decode_recipe (encode_recipe readme_recipe) = Inr readme_recipe"
  using recipe_round_trip readme_recipe_ok by blast

text \<open>
  C40. The symbol table of a plan header: for every version that its 32-bit field holds, \<open>_wire_symbols\<close> returns names if
  and only if the plan starts with the magic, that version, their count and each name with its length, all of them
  distinct ASCII identifiers; so the table read is the one table the bytes can spell.
\<close>

theorem wire_symbols_exact:
  assumes "version < 2 ^ 32"
  shows "wire_symbols plan (int version) = Inr names \<longleftrightarrow>
    distinct names \<and> length names < 2 ^ 32 \<and>
    (\<forall>n\<in>set names. ascii_identifier n \<and> length n < 2 ^ 32) \<and>
    (\<exists>tail. plan = wire_header version names @ tail)"
  using assms by (rule wire_symbols_iff)

theorem wire_symbols_exact_witness:
  "wire_symbols (wire_header 1 [''batch'', ''hidden''] @ ''rest'') 1 = Inr [''batch'', ''hidden'']"
proof -
  have "ascii_identifier ''batch''" "ascii_identifier ''hidden''" by code_simp+
  then show ?thesis
    using wire_symbols_exact [of 1 "wire_header 1 [''batch'', ''hidden''] @ ''rest''" "[''batch'', ''hidden'']"]
    by simp
qed

text \<open>
  C7. An admitted artifact is exactly what was asked for and what was published: admission keeps the
  recipe, plan and manifest, reads its distinct symbols off the plan header, has checked both
  digests, and its logical descriptors denote the recipe's under every symbol assignment.
\<close>

theorem admission_sound:
  assumes "admit nv r mlir plan manifest = Inr a"
  shows "cr_recipe a = r \<and> cr_plan_bytes a = plan \<and> cr_manifest a = manifest \<and>
    wire_symbols plan (cr_wire_version a) = Inr (cr_symbols a) \<and> distinct (cr_symbols a) \<and>
    cr_indexed a = recipe_indexed r \<and> cr_typed a = recipe_typed r \<and>
    (\<exists>kvs. manifest = JObj kvs \<and> map_of kvs ''plan_sha256'' = Some (JStr (nv_sha256 nv plan)) \<and>
       map_of kvs ''input_sha256'' = Some (JStr (nv_sha256 nv mlir))) \<and>
    (\<forall>\<rho>. den_spec \<rho> (cr_logical_source a) = den_spec \<rho> (r_source r) \<and>
       den_spec \<rho> (cr_logical_destination a) = den_spec \<rho> (r_destination r))"
  using admit_identity [OF assms] admit_descriptors [OF assms] admit_flags [OF assms] by simp

theorem admission_sound_witness:
  "\<exists>a. admit readme_native readme_recipe readme_mlir readme_plan readme_manifest = Inr a \<and>
     cr_symbols a = [''s0''] \<and> distinct (cr_symbols a) \<and> \<not> cr_typed a"
  using admission_sound [OF readme_admitted] readme_admitted readme_layout by (auto simp: readme_artifact_def)





section \<open>Binding an admitted artifact\<close>

text \<open>
  C2. Binding an admitted layout or typed artifact to a concrete source executes the recipe on
  integers: the bindings assign an integer to each wire symbol in order, under them the recipe's
  chain maps the source's extents to the admitted destination's extents and dtype, the source has the
  admitted source shape, and every reshape division is exact.
\<close>

theorem artifact_binding_refines:
  assumes "admit nv r mlir plan manifest = Inr a" and "\<not> recipe_indexed r" and "metadata_bind a c = Inr items"
  shows "\<exists>\<rho>. items = map (\<lambda>n. (n, PyInt (\<rho> n))) (cr_symbols a) \<and>
    concrete_chain \<rho> (map the_int (ts_shape c), ts_dtype c) (r_operations r) =
      Some (ts_shape (den_spec \<rho> (cr_logical_destination a)), ts_dtype (cr_logical_destination a)) \<and>
    ts_shape c = map PyInt (ts_shape (den_spec \<rho> (cr_logical_source a))) \<and>
    (\<forall>shape. Reshape shape \<in> set (r_operations r) \<longrightarrow> list_all (exact_divisions \<rho>) shape)"
proof -
  obtain \<rho> where "items = map (\<lambda>n. (n, PyInt (\<rho> n))) (cr_symbols a)"
    and "concrete_chain \<rho> (map the_int (ts_shape c), ts_dtype c) (r_operations r) =
      Some (ts_shape (den_spec \<rho> (cr_logical_destination a)), ts_dtype (cr_logical_destination a))"
    and "ts_shape c = map PyInt (ts_shape (den_spec \<rho> (cr_logical_source a)))"
    and "\<forall>shape. Reshape shape \<in> set (r_operations r) \<longrightarrow> list_all (exact_divisions \<rho>) shape"
    by (rule metadata_bind_sound [OF assms])
  then show ?thesis by (intro exI [of _ \<rho>] conjI)
qed

theorem artifact_binding_refines_witness:
  "\<exists>\<rho>. [(''s0'', PyInt 128)] = map (\<lambda>n. (n, PyInt (\<rho> n))) [''s0''] \<and>
     concrete_chain \<rho> ([128], ''float32'') (r_operations readme_recipe) = Some ([64, \<rho> ''s0'' div 64], ''float32'')"
proof -
  have shape: "map the_int (ts_shape (vector_source 128)) = [128]" "ts_dtype (vector_source 128) = ''float32''"
    by (simp_all add: vector_source_def)
  have target: "ts_shape (den_spec \<rho> (cr_logical_destination readme_artifact)) = [64, \<rho> ''s0'' div 64]"
    "ts_dtype (cr_logical_destination readme_artifact) = ''float32''" "cr_symbols readme_artifact = [''s0'']" for \<rho>
    by (simp_all add: readme_artifact_def readme_recipe_def den_spec_def)
  from artifact_binding_refines [OF readme_admitted readme_layout(1) readme_metadata]
  obtain \<rho> where "[(''s0'', PyInt 128)] = map (\<lambda>n. (n, PyInt (\<rho> n))) [''s0'']"
    and "concrete_chain \<rho> ([128], ''float32'') (r_operations readme_recipe) = Some ([64, \<rho> ''s0'' div 64], ''float32'')"
    unfolding shape target by (elim exE conjE)
  then show ?thesis by (intro exI [of _ \<rho>] conjI)
qed




text \<open>
  The constraints a manifest must carry are complete: symbol values that satisfy the recipe's
  expected divisibility constraints make every floor division in every reshape target exact, so no
  extent is ever rounded.
\<close>

theorem constraints_complete:
  assumes "\<forall>c\<in>set (expected_constraints r). constraint_holds \<rho> c"
    and "Reshape shape \<in> set (r_operations r)" and "e \<in> set shape"
  shows "exact_divisions \<rho> e"
  using assms by (rule expected_constraints_complete)

theorem constraints_complete_witness: "exact_divisions (\<lambda>_. 192) (FloorDiv (Symbol ''s0'') 64)"
  using constraints_complete [of readme_recipe "\<lambda>_. 192" "[FloorDiv (Symbol ''s0'') 64, Const 64]"
      "FloorDiv (Symbol ''s0'') 64"]
  by (simp add: readme_expected constraint_holds_def readme_recipe_def)

text \<open>
  Binding an indexed artifact: when \<open>bind_values\<close> accepts a source and an index tensor, the source
  bound the recipe under the source's own symbols, the index is a vector of the declared dtype and
  extent whose bytes fit 63 bits, and every wire symbol is bound in order.
\<close>

theorem indexed_binding:
  assumes "indexed_bind a source index = Inr items"
  shows "\<exists>declared axis b0 b n. first_indices (cr_recipe a) = Inr (declared, axis) \<and>
    bind_recipe (cr_recipe a) (filter (\<lambda>s. ss_operand s = ''source'') (cr_symbol_sources a)) source b0 = Inr b \<and>
    ts_shape index = [PyInt n] \<and> ts_dtype index = ts_dtype declared \<and>
    n * (if ts_dtype index = ''int32'' then 4 else 8) < 2 ^ 63 \<and>
    ts_shape index = map PyInt (map (den (env_val b)) (ts_shape declared)) \<and>
    map fst items = cr_symbols a \<and> (\<forall>(n, v)\<in>set items. b n = Some v)"
  using indexed_bind_parts [OF assms] by metis


theorem indexed_binding_witness:
  "\<exists>items b. indexed_bind gather_artifact gather_source gather_index = Inr items \<and>
     map fst items = [''rows'', ''picked''] \<and> (\<forall>(n, v)\<in>set items. b n = Some v)"
proof -
  obtain items where r: "indexed_bind gather_artifact gather_source gather_index = Inr items"
    using gather_binds ..
  from indexed_binding [OF r] r show ?thesis by (auto simp: gather_artifact_def)
qed

end
