(* ===== verification/Placement.thy ===== *)
theory Placement
  imports Complex_Main Artifact Ordered_Dict
begin

text \<open>
  \<open>reloc_torch/placement.py\<close>: selection of the implementation of one completed call from recorded
  measurements.  Times are exact rationals, and the base-2 logarithm of a ratio of extents is an
  argument; hardware discovery is an outcome argument.
\<close>

section \<open>Families and candidates\<close>

definition paths :: "string list" where
  "paths = [''native'', ''torch_cpu'', ''torch_gpu'', ''sym_cpu'', ''sym_gpu'']"

datatype family_op = FTranspose "int list" | FCast string string

text \<open>The tuple \<open>family\<close> serialises; only permutations and casts are qualified for replay.\<close>

type_synonym family = "string \<times> string \<times> string \<times> nat \<times> family_op list"

fun family_ops :: "operation list \<Rightarrow> family_op list option" where
  "family_ops [] = Some []"
| "family_ops (Transpose perm # ops) = map_option (\<lambda>fs. FTranspose perm # fs) (family_ops ops)"
| "family_ops (Cast dtype policy # ops) = map_option (\<lambda>fs. FCast dtype policy # fs) (family_ops ops)"
| "family_ops (_ # ops) = None"

definition family_of :: "recipe \<Rightarrow> family option" where
  "family_of r = map_option (\<lambda>ops. (r_direction r, ts_dtype (r_source r), ts_dtype (r_destination r),
     length (ts_shape (r_source r)), ops)) (family_ops (r_operations r))"

definition candidates :: "recipe \<Rightarrow> string list" where
  "candidates r = (if family_of r = None then []
     else [''native'', ''torch_cpu'', ''torch_gpu'', ''sym_cpu''] @
       (if recipe_typed r \<and> length (ts_shape (r_source r)) \<le> 8 then [''sym_gpu''] else []))"

definition gpu_implementation :: "recipe \<Rightarrow> string" where
  "gpu_implementation r = (if r_direction r = ''d2h''
     then ''cuda_stages_then_cpu@'' @ py_str (int (length (filter is_cast (r_operations r))))
     else if ts_dtype (r_source r) = ''float32'' then ''cuda_relocate_f32'' else ''cpu_stages_cuda_stages@0'')"

definition wire_dtype :: "recipe \<Rightarrow> string \<Rightarrow> string" where
  "wire_dtype r path = (if path = ''native'' then ts_dtype (r_source r)
     else if path = ''torch_gpu'' \<or> path = ''sym_gpu''
     then (if r_direction r = ''h2d'' then ts_dtype (r_source r) else ts_dtype (r_destination r))
     else (if r_direction r = ''h2d'' then ts_dtype (r_destination r) else ts_dtype (r_source r)))"

definition wire_bytes :: "recipe \<Rightarrow> int list \<Rightarrow> string \<Rightarrow> int res" where
  "wire_bytes r shape path = res_bind (lookup dtype_sizes (wire_dtype r path)) (\<lambda>w. Inr (prod_list shape * w))"

section \<open>Contexts and profiles\<close>

record workload =
  cx_cpu_load :: string
  cx_gpu_load :: string
  cx_overlap :: string

definition check_context :: "workload \<Rightarrow> workload res" where
  "check_context c = (if cx_cpu_load c \<notin> {''unknown'', ''idle'', ''busy''} \<or> cx_gpu_load c \<notin> {''unknown'', ''idle'', ''busy''}
     then Inl (ValueErr ''load must be unknown, idle or busy'')
     else if cx_overlap c \<notin> {''none'', ''cpu_h2d'', ''consumer''}
     then Inl (ValueErr ''overlap must be none, cpu_h2d or consumer'') else Inr c)"

record sample =
  ob_family :: family
  ob_shape :: "int list"
  ob_strides :: "int list"
  ob_path :: string
  ob_wire_bytes :: int
  ob_state :: string
  ob_context :: workload
  ob_completed_ms :: rat

definition check_sample :: "sample \<Rightarrow> sample res" where
  "check_sample s = (if ob_shape s = [] \<or> length (ob_shape s) > 8 \<or> (\<exists>n\<in>set (ob_shape s). n < 1) \<or>
       ob_path s \<notin> set paths \<or> ob_state s \<notin> {''cold'', ''warm''} \<or> ob_completed_ms s \<le> 0 \<or> ob_wire_bytes s \<le> 0
     then Inl (ValueErr ''invalid placement observation'')
     else if ob_strides s \<noteq> row_major (ob_shape s)
     then Inl (ValueErr ''placement observations require dense row-major strides'')
     else res_bind (check_context (ob_context s)) (\<lambda>c. Inr (s\<lparr>ob_context := c\<rparr>)))"

record profile =
  pf_hardware :: string
  pf_execution :: string
  pf_samples :: "sample list"

definition new_profile :: "string \<Rightarrow> string \<Rightarrow> sample list \<Rightarrow> profile res" where
  "new_profile hw execution samples = (if length samples > 4096
     then Inl (ValueErr ''placement profile exceeds 4096 observations'')
     else res_bind (mapR check_sample samples) (\<lambda>rows.
       Inr \<lparr>pf_hardware = hw, pf_execution = execution, pf_samples = rows\<rparr>))"

section \<open>Prediction\<close>

text \<open>\<open>log_ratio n m\<close> stands for \<open>abs(log2(n / m))\<close>.\<close>

definition shape_distance :: "(int \<Rightarrow> int \<Rightarrow> rat) \<Rightarrow> int list \<Rightarrow> int list \<Rightarrow> rat" where
  "shape_distance log_ratio ns ms = sum_list (map (\<lambda>(n, m). log_ratio n m) (zip ns ms))"

definition matching_samples ::
  "profile \<Rightarrow> family \<Rightarrow> int list \<Rightarrow> string \<Rightarrow> string \<Rightarrow> workload \<Rightarrow> int \<Rightarrow> sample list" where
  "matching_samples p fam shape path st cx wire =
     filter (\<lambda>s. ob_family s = fam \<and> ob_path s = path \<and> ob_state s = st \<and> ob_context s = cx \<and>
       length (ob_shape s) = length shape \<and>
       ob_wire_bytes s * prod_list shape = wire * prod_list (ob_shape s)) (pf_samples p)"

definition covered :: "sample list \<Rightarrow> int list \<Rightarrow> bool" where
  "covered rows shape \<longleftrightarrow> (\<forall>i<length shape.
     (\<exists>s\<in>set rows. ob_shape s ! i \<le> shape ! i) \<and> (\<exists>s\<in>set rows. shape ! i \<le> ob_shape s ! i))"

text \<open>Inverse-square weighting of the measured times; Python's \<open>sorted\<close> on pairs is lexicographic.\<close>

definition weighted_mean :: "(rat \<times> rat) list \<Rightarrow> rat" where
  "weighted_mean points = (let ws = map (\<lambda>(d, _). 1 / (d * d)) points
     in sum_list (map (\<lambda>(w, (_, ms)). w * ms) (zip ws points)) / sum_list ws)"

definition predict ::
  "(int \<Rightarrow> int \<Rightarrow> rat) \<Rightarrow> profile \<Rightarrow> family \<Rightarrow> int list \<Rightarrow> string \<Rightarrow> string \<Rightarrow> workload \<Rightarrow> int \<Rightarrow> rat option" where
  "predict log_ratio p fam shape path st cx wire =
     (let rows = matching_samples p fam shape path st cx wire in
      if rows = [] then None
      else if \<not> covered rows shape then None
      else (let points = sort_key snd (map (\<lambda>s. (shape_distance log_ratio shape (ob_shape s), ob_completed_ms s)) rows);
                points = sort_key fst points in
        if fst (hd points) = 0
        then (let exact = sort (map snd (filter (\<lambda>q. fst q = 0) points)) in Some (exact ! (length exact div 2)))
        else if fst (hd points) > 2 then None
        else Some (weighted_mean (take 4 points))))"

section \<open>The policy\<close>

type_synonym placement_key =
  "family \<times> int list \<times> int list \<times> string \<times> string \<times> (string \<times> string \<times> string) \<times> nat"

record placement_record =
  pr_path :: string
  pr_wire_bytes :: int
  pr_state :: string
  pr_reason :: string
  pr_predictions :: "(string \<times> rat) list"
  pr_unprofiled :: "string list"

record policy =
  po_profile :: "profile option"
  po_capacity :: nat
  po_context :: workload
  po_pid :: int
  po_seen :: "(placement_key \<times> string, unit) odict"
  po_counts :: "(string, int) odict"
  po_predictions :: "(placement_key \<times> (string \<times> string) list, (string \<times> rat) list) odict"
  po_cached_profile :: "profile option"
  po_forced :: "string option"
  po_last :: "placement_record option"

definition new_policy :: "int \<Rightarrow> profile option \<Rightarrow> workload \<Rightarrow> pyint \<Rightarrow> policy res" where
  "new_policy pid profile cx capacity = (case capacity of
     NotInt \<Rightarrow> Inl (ValueErr ''capacity must be positive'')
   | PyInt n \<Rightarrow> if n < 1 then Inl (ValueErr ''capacity must be positive'')
       else res_bind (check_context cx) (\<lambda>cx. Inr \<lparr>po_profile = profile, po_capacity = nat n, po_context = cx,
         po_pid = pid, po_seen = [], po_counts = [], po_predictions = [], po_cached_profile = profile,
         po_forced = None, po_last = None\<rparr>))"

text \<open>What the runtime and the machine report to a call: settings, owner generation, retention, hardware.\<close>

record situation =
  si_pid :: int
  si_open :: "exn option"
  si_execution :: string
  si_epoch :: nat
  si_retained :: bool
  si_cuda_enabled :: bool
  si_hardware :: "string option"
  si_device :: string
  si_log_ratio :: "int \<Rightarrow> int \<Rightarrow> rat"

definition starts_sym :: "string \<Rightarrow> bool" where
  "starts_sym p \<longleftrightarrow> take 3 p = ''sym''"

definition eligible_paths :: "recipe \<Rightarrow> bool \<Rightarrow> string list" where
  "eligible_paths r cuda_enabled =
     (let e = (if cuda_enabled then candidates r else filter (\<lambda>p. \<not> starts_sym p) (candidates r))
      in if recipe_typed r then filter (\<lambda>p. p \<noteq> ''native'') e else e)"

definition fallback_path :: "recipe \<Rightarrow> string" where
  "fallback_path r = (if recipe_typed r then ''torch_cpu'' else ''native'')"

definition path_states :: "policy \<Rightarrow> placement_key \<Rightarrow> bool \<Rightarrow> string list \<Rightarrow> (string \<times> string) list" where
  "path_states po key retained eligible = map (\<lambda>path. (path,
     if map_of (po_seen po) (key, path) \<noteq> None \<and> (retained \<or> \<not> starts_sym path) then ''warm'' else ''cold'')) eligible"

fun predict_all ::
  "situation \<Rightarrow> profile \<Rightarrow> recipe \<Rightarrow> family \<Rightarrow> int list \<Rightarrow> workload \<Rightarrow> (string \<times> string) list \<Rightarrow> (string \<times> rat) list res" where
  "predict_all si p r fam shape cx [] = Inr []"
| "predict_all si p r fam shape cx ((path, st) # states) =
     res_bind (wire_bytes r shape path) (\<lambda>wire.
     res_bind (predict_all si p r fam shape cx states) (\<lambda>rest.
       Inr (case predict (si_log_ratio si) p fam shape path st cx wire of
         None \<Rightarrow> rest | Some ms \<Rightarrow> (path, ms) # rest)))"

text \<open>\<open>min(predictions, key=predictions.get)\<close>: the first of the least.\<close>

fun cheapest :: "(string \<times> rat) list \<Rightarrow> string" where
  "cheapest [] = []"
| "cheapest [(p, _)] = p"
| "cheapest ((p, ms) # (q, ns) # rest) = (if ms \<le> ns then cheapest ((p, ms) # rest) else cheapest ((q, ns) # rest))"

definition cached_predictions ::
  "situation \<Rightarrow> profile \<Rightarrow> recipe \<Rightarrow> family \<Rightarrow> int list \<Rightarrow> placement_key \<Rightarrow> (string \<times> string) list \<Rightarrow> policy \<Rightarrow>
     ((string \<times> rat) list \<times> policy) res" where
  "cached_predictions si p r fam shape key states po =
     (let po = (if po_cached_profile po \<noteq> Some p then po\<lparr>po_predictions := [], po_cached_profile := Some p\<rparr> else po) in
      case map_of (po_predictions po) (key, states) of
        Some predictions \<Rightarrow> Inr (predictions, po\<lparr>po_predictions := od_touch (key, states) (po_predictions po)\<rparr>)
      | None \<Rightarrow> res_bind (predict_all si p r fam shape (po_context po) states) (\<lambda>predictions.
          Inr (predictions, po\<lparr>po_predictions :=
            od_trim (po_capacity po) (od_set (key, states) predictions (po_predictions po))\<rparr>)))"

text \<open>The choice, its reason and the predictions behind it.\<close>

definition select_path ::
  "situation \<Rightarrow> recipe \<Rightarrow> family \<Rightarrow> int list \<Rightarrow> placement_key \<Rightarrow> string list \<Rightarrow> (string \<times> string) list \<Rightarrow> policy \<Rightarrow>
     ((string \<times> string \<times> (string \<times> rat) list) \<times> policy) res" where
  "select_path si r fam shape key eligible states po =
     (let fallback = fallback_path r in
      case po_forced po of
        Some f \<Rightarrow> if f \<notin> set eligible
          then Inl (ValueErr (msg [''placement '', f, '' is not qualified for this recipe'']))
          else Inr ((f, ''forced'', []), po)
      | None \<Rightarrow> (case po_profile po of
          None \<Rightarrow> Inr ((fallback, ''no_profile'', []), po)
        | Some p \<Rightarrow> (case si_hardware si of
            None \<Rightarrow> Inr ((fallback, ''profile_hardware_unavailable'', []), po)
          | Some hw \<Rightarrow>
              if pf_hardware p \<noteq> hw then Inr ((fallback, ''profile_hardware_mismatch'', []), po)
              else if pf_execution p \<noteq> si_execution si
              then Inr ((fallback, ''profile_execution_mismatch'', []), po)
              else res_bind (cached_predictions si p r fam shape key states po) (\<lambda>(predictions, po).
                if map_of predictions fallback = None
                then Inr ((fallback, ''profile_missing_native_coverage'', predictions), po)
                else Inr ((cheapest predictions, ''lowest_completed_cost'', predictions), po)))))"

type_synonym decision = "string \<times> placement_key \<times> placement_record"

definition choose_path ::
  "situation \<Rightarrow> recipe \<Rightarrow> int list \<Rightarrow> int list \<Rightarrow> policy \<Rightarrow> (decision option \<times> policy) res" where
  "choose_path si r shape strides po =
     (if si_pid si \<noteq> po_pid po
      then Inl (RuntimeErr ''process_mismatch: placement policy belongs to another process'')
      else case si_open si of Some e \<Rightarrow> Inl e | None \<Rightarrow>
     (case family_of r of
        None \<Rightarrow> if po_forced po \<noteq> None
          then Inl (ValueErr ''forced placement is not qualified for this recipe'')
          else Inr (None, po\<lparr>po_counts := bump ''legacy:unsupported_recipe'' (po_counts po)\<rparr>)
      | Some fam \<Rightarrow>
          res_bind (check_context (po_context po)) (\<lambda>cx.
          let key = (fam, shape, strides, si_device si, si_execution si,
                (cx_cpu_load cx, cx_gpu_load cx, cx_overlap cx), si_epoch si);
              eligible = eligible_paths r (si_cuda_enabled si);
              states = path_states po key (si_retained si) eligible
          in res_bind (select_path si r fam shape key eligible states po) (\<lambda>((choice, reason, predictions), po).
             res_bind (wire_bytes r shape choice) (\<lambda>wire.
             res_bind (lookup states choice) (\<lambda>st.
             let chosen = \<lparr>pr_path = choice, pr_wire_bytes = wire, pr_state = st, pr_reason = reason,
               pr_predictions = predictions, pr_unprofiled = filter (\<lambda>p. map_of predictions p = None) eligible\<rparr>
             in Inr (Some (choice, key, chosen), po\<lparr>po_last := Some chosen,
                  po_counts := bump (choice @ '':'' @ reason) (po_counts po)\<rparr>)))))))"

text \<open>A successful call makes its path warm, under the owner generation after the call.\<close>

definition with_epoch :: "placement_key \<Rightarrow> nat \<Rightarrow> placement_key" where
  "with_epoch key epoch = (case key of (f, s, t, d, e, c, _) \<Rightarrow> (f, s, t, d, e, c, epoch))"

definition succeeded :: "decision \<Rightarrow> nat \<Rightarrow> policy \<Rightarrow> policy" where
  "succeeded d epoch po = (let (choice, key, _) = d; k = (with_epoch key epoch, choice) in
     po\<lparr>po_seen := od_trim (po_capacity po) (od_touch k (od_set k () (po_seen po)))\<rparr>)"

text \<open>\<open>force\<close>: the body runs with the path forced, and whatever it does the previous one returns.\<close>

definition force :: "int \<Rightarrow> string \<Rightarrow> (policy \<Rightarrow> 'a res \<times> policy) \<Rightarrow> policy \<Rightarrow> 'a res \<times> policy" where
  "force pid path body po =
     (if pid \<noteq> po_pid po
      then (Inl (RuntimeErr ''process_mismatch: placement policy belongs to another process''), po)
      else if path \<notin> set paths then (Inl (ValueErr ''unknown placement path''), po)
      else (let previous = po_forced po; (r, po') = body (po\<lparr>po_forced := Some path\<rparr>)
        in (r, po'\<lparr>po_forced := previous\<rparr>)))"

section \<open>Replay\<close>

text \<open>
  \<open>replay\<close> on what it decides of the tensor: its extents, dtype and device, with the PyTorch calls in
  order.  An operation that is neither a permutation nor a cast has no \<open>dtype\<close> attribute to read.
\<close>

datatype replay_step = MoveTo string | Permuted "int list" | Converted string | MadeContiguous | Synchronized string

fun replay_operations :: "int list \<times> string \<Rightarrow> operation list \<Rightarrow> ((int list \<times> string) \<times> replay_step list) res" where
  "replay_operations v [] = Inr (v, [])"
| "replay_operations (shape, dtype) (Transpose perm # ops) =
     res_bind (replay_operations (permute perm shape, dtype) ops) (\<lambda>(v, steps). Inr (v, Permuted perm # steps))"
| "replay_operations (shape, dtype) (Cast d policy # ops) =
     res_bind (replay_operations (shape, d) ops) (\<lambda>(v, steps). Inr (v, Converted d # steps))"
| "replay_operations v (_ # ops) = Inl (OtherExn ''AttributeError'')"

definition replay ::
  "recipe \<Rightarrow> int list \<Rightarrow> string \<Rightarrow> string \<Rightarrow> string \<Rightarrow> string \<Rightarrow> ((int list \<times> string) \<times> replay_step list) res" where
  "replay r shape dtype source_device device path =
     (let transform = (if path = ''torch_cpu'' then ''cpu''
            else if r_direction r = ''h2d'' then device else source_device);
          cuda_device = (if r_direction r = ''h2d'' then device else source_device)
      in res_bind (replay_operations (shape, dtype) (r_operations r)) (\<lambda>(v, steps).
        Inr (v, MoveTo transform # steps @ [MadeContiguous, MoveTo device, Synchronized cuda_device])))"

section \<open>What a choice guarantees\<close>

lemma family_transpose_cast:
  "family_of r \<noteq> None \<Longrightarrow> \<exists>v steps. replay_operations v0 (r_operations r) = Inr (v, steps)"
proof -
  have "family_ops ops \<noteq> None \<Longrightarrow> \<exists>v steps. replay_operations v0 ops = Inr (v, steps)" for ops v0
    by (induction ops arbitrary: v0 rule: family_ops.induct) (case_tac v0, fastforce)+
  then show "family_of r \<noteq> None \<Longrightarrow> ?thesis" by (auto simp: family_of_def)
qed

text \<open>Replay follows the recipe's concrete chain: a call whose metadata bound ends at the bound destination.\<close>

lemma replay_operations_chain:
  "concrete_chain \<rho> v ops = Some w \<Longrightarrow> family_ops ops \<noteq> None \<Longrightarrow> \<exists>steps. replay_operations v ops = Inr (w, steps)"
proof (induction ops arbitrary: v)
  case Nil
  then show ?case by (cases v) (auto split: if_splits)
next
  case (Cons op ops)
  obtain sh dt where v: "v = (sh, dt)" by (cases v)
  show ?case
  proof (cases op)
    case (Transpose perm)
    with Cons.prems v have "concrete_chain \<rho> (permute perm sh, dt) ops = Some w" "family_ops ops \<noteq> None"
      by (auto simp: next_dtype_def split: if_splits)
    from Cons.IH [OF this] obtain steps where "replay_operations (permute perm sh, dt) ops = Inr (w, steps)" ..
    with Transpose v show ?thesis by simp
  next
    case (Cast d policy)
    with Cons.prems v have "concrete_chain \<rho> (sh, d) ops = Some w" "family_ops ops \<noteq> None"
      by (auto simp: next_dtype_def split: if_splits)
    from Cons.IH [OF this] obtain steps where "replay_operations (sh, d) ops = Inr (w, steps)" ..
    with Cast v show ?thesis by simp
  qed (use Cons.prems in simp_all)
qed

lemma candidates_empty: "candidates r = [] \<longleftrightarrow> family_of r = None"
  by (simp add: candidates_def)

lemma starts_sym_simps [simp]:
  "starts_sym ''native'' = False" "starts_sym ''torch_cpu'' = False" "starts_sym ''torch_gpu'' = False"
  "starts_sym ''sym_cpu'' = True" "starts_sym ''sym_gpu'' = True"
  by (simp_all add: starts_sym_def)

lemma fallback_eligible: "family_of r \<noteq> None \<Longrightarrow> fallback_path r \<in> set (eligible_paths r cuda)"
  by (auto simp: fallback_path_def eligible_paths_def candidates_def Let_def)

lemma eligible_known: "p \<in> set (eligible_paths r cuda) \<Longrightarrow> p \<in> set paths"
  by (auto simp: eligible_paths_def candidates_def paths_def Let_def split: if_splits)

lemma eligible_typed: "recipe_typed r \<Longrightarrow> ''native'' \<notin> set (eligible_paths r cuda)"
  by (simp add: eligible_paths_def Let_def)

lemma eligible_sym_needs_cuda: "starts_sym p \<Longrightarrow> p \<in> set (eligible_paths r cuda) \<Longrightarrow> cuda"
  by (auto simp: eligible_paths_def Let_def split: if_splits)

lemma cheapest_in: "ps \<noteq> [] \<Longrightarrow> cheapest ps \<in> fst ` set ps"
  by (induction ps rule: cheapest.induct) (auto split: if_splits)

lemma cheapest_least:
  "ps \<noteq> [] \<Longrightarrow> \<exists>ms. (cheapest ps, ms) \<in> set ps \<and> (\<forall>q\<in>set ps. ms \<le> snd q)"
proof (induction ps rule: cheapest.induct)
  case (3 p ms q ns rest)
  show ?case
  proof (cases "ms \<le> ns")
    case True
    with 3(1) obtain m where "(cheapest ((p, ms) # rest), m) \<in> set ((p, ms) # rest)"
      "\<forall>x\<in>set ((p, ms) # rest). m \<le> snd x" by blast
    with True show ?thesis by (intro exI [of _ m]) auto
  next
    case False
    with 3(2) obtain m where "(cheapest ((q, ns) # rest), m) \<in> set ((q, ns) # rest)"
      "\<forall>x\<in>set ((q, ns) # rest). m \<le> snd x" by blast
    with False show ?thesis by (intro exI [of _ m]) auto
  qed
qed auto

lemma path_states_paths [simp]: "map fst (path_states po key retained eligible) = eligible"
  by (simp add: path_states_def comp_def)

lemma predict_all_paths:
  "predict_all si p r fam shape cx states = Inr ps \<Longrightarrow> set (map fst ps) \<subseteq> set (map fst states)"
proof (induction states arbitrary: ps)
  case (Cons e states)
  obtain path st where e: "e = (path, st)" by (cases e)
  from Cons.prems obtain wire rest where
    rest: "predict_all si p r fam shape cx states = Inr rest"
    and ps: "ps = (case predict (si_log_ratio si) p fam shape path st cx wire of
      None \<Rightarrow> rest | Some ms \<Rightarrow> (path, ms) # rest)"
    unfolding e predict_all.simps res_bind_eq_Inr by auto
  have "set (map fst ps) \<subseteq> insert path (set (map fst rest))"
    unfolding ps by (cases "predict (si_log_ratio si) p fam shape path st cx wire") auto
  with Cons.IH [OF rest] show ?case unfolding e by simp (meson insert_mono subset_trans)
qed simp

text \<open>
  The policy's invariant: its two tables are dictionaries within their capacity, and a stored
  prediction only names paths whose state it was made for.
\<close>

definition policy_ok :: "policy \<Rightarrow> bool" where
  "policy_ok po \<longleftrightarrow> 0 < po_capacity po \<and>
     od_ok (po_seen po) \<and> length (po_seen po) \<le> po_capacity po \<and>
     od_ok (po_predictions po) \<and> length (po_predictions po) \<le> po_capacity po \<and>
     (\<forall>((k, states), ps)\<in>set (po_predictions po). set (map fst ps) \<subseteq> set (map fst states)) \<and>
     od_ok (po_counts po)"

lemma new_policy_ok: "new_policy pid profile cx capacity = Inr po \<Longrightarrow> policy_ok po"
  by (auto simp: new_policy_def policy_ok_def od_ok_def od_keys_def split: pyint.splits if_splits)

lemma od_set_entries: "set (od_set k v d) \<subseteq> insert (k, v) (set d)"
  by (induction k v d rule: od_set.induct) auto

lemma od_trim_entries: "set (od_trim n d) \<subseteq> set d"
  by (simp add: od_trim_drop set_drop_subset)

lemma od_touch_entries [simp]: "set (od_touch k d) = set d"
  by (auto simp: od_touch_def)

lemma cached_predictions_paths:
  assumes ok: "policy_ok po" and "cached_predictions si p r fam shape key states po = Inr (ps, po')"
  shows "set (map fst ps) \<subseteq> set (map fst states) \<and> policy_ok po' \<and> po_forced po' = po_forced po"
proof -
  define q where "q = (if po_cached_profile po \<noteq> Some p
    then po\<lparr>po_predictions := [], po_cached_profile := Some p\<rparr> else po)"
  have q: "policy_ok q" "po_forced q = po_forced po"
    using ok by (auto simp: q_def policy_ok_def od_ok_def od_keys_def)
  show ?thesis
  proof (cases "map_of (po_predictions q) (key, states)")
    case None
    with assms(2) have "res_bind (predict_all si p r fam shape (po_context q) states) (\<lambda>predictions.
          Inr (predictions, q\<lparr>po_predictions :=
            od_trim (po_capacity q) (od_set (key, states) predictions (po_predictions q))\<rparr>)) = Inr (ps, po')"
      by (simp add: cached_predictions_def q_def [symmetric] Let_def)
    then have ps: "predict_all si p r fam shape (po_context q) states = Inr ps"
      and po': "po' = q\<lparr>po_predictions := od_trim (po_capacity q) (od_set (key, states) ps (po_predictions q))\<rparr>"
      by auto
    have sub: "set (map fst ps) \<subseteq> set (map fst states)" using ps by (rule predict_all_paths)
    have "set (po_predictions po') \<subseteq> insert ((key, states), ps) (set (po_predictions q))"
      unfolding po' by simp (rule subset_trans [OF od_trim_entries od_set_entries])
    with sub q(1) have "\<forall>((k, states), ps)\<in>set (po_predictions po'). set (map fst ps) \<subseteq> set (map fst states)"
      unfolding policy_ok_def by blast
    with q sub show ?thesis by (auto simp: policy_ok_def po' length_od_trim)
  next
    case (Some v)
    with assms(2) have v: "v = ps" "po' = q\<lparr>po_predictions := od_touch (key, states) (po_predictions q)\<rparr>"
      by (simp_all add: cached_predictions_def q_def [symmetric] Let_def)
    from Some have "((key, states), v) \<in> set (po_predictions q)" by (rule map_of_SomeD)
    with q(1) have "set (map fst ps) \<subseteq> set (map fst states)" unfolding policy_ok_def v(1) by blast
    with q v show ?thesis by (auto simp: policy_ok_def)
  qed
qed

text \<open>The result of a selection: an eligible path, and when it is priced, the cheapest of the priced ones.\<close>

lemma select_path_choice:
  assumes ok: "policy_ok po" and fam: "family_of r = Some fam"
    and e: "eligible = eligible_paths r cuda" and st: "map fst states = eligible"
    and sel: "select_path si r fam shape key eligible states po = Inr ((choice, reason, ps), po')"
  shows "choice \<in> set eligible \<and> policy_ok po' \<and> po_forced po' = po_forced po \<and>
    (reason = ''lowest_completed_cost'' \<longrightarrow>
      (\<exists>ms. (choice, ms) \<in> set ps \<and> (\<forall>q\<in>set ps. ms \<le> snd q)) \<and> fallback_path r \<in> fst ` set ps) \<and>
    (reason \<noteq> ''lowest_completed_cost'' \<longrightarrow> reason \<noteq> ''forced'' \<longrightarrow> choice = fallback_path r)"
proof -
  have fb: "fallback_path r \<in> set eligible" unfolding e using fam by (intro fallback_eligible) simp
  show ?thesis
  proof (cases "po_forced po")
    case (Some f)
    with sel ok show ?thesis by (auto simp: select_path_def Let_def split: if_splits)
  next
    case forced: None
    show ?thesis
    proof (cases "po_profile po")
      case None
      with sel ok forced fb show ?thesis by (auto simp: select_path_def Let_def)
    next
      case (Some p)
      show ?thesis
      proof (cases "si_hardware si = Some (pf_hardware p) \<and> pf_execution p = si_execution si")
        case False
        with sel ok forced Some fb show ?thesis
          by (auto simp: select_path_def Let_def split: option.splits if_splits)
      next
        case True
        with sel forced Some obtain ps0 po0 where
          cached: "cached_predictions si p r fam shape key states po = Inr (ps0, po0)"
          and rest: "(if map_of ps0 (fallback_path r) = None
             then Inr ((fallback_path r, ''profile_missing_native_coverage'', ps0), po0)
             else Inr ((cheapest ps0, ''lowest_completed_cost'', ps0), po0)) =
             (Inr ((choice, reason, ps), po') :: ((string \<times> string \<times> (string \<times> rat) list) \<times> policy) res)"
          by (auto simp: select_path_def Let_def)
        from cached_predictions_paths [OF ok cached] have inv:
          "set (map fst ps0) \<subseteq> set eligible" "policy_ok po0" "po_forced po0 = po_forced po"
          using st by auto
        show ?thesis
        proof (cases "map_of ps0 (fallback_path r)")
          case None
          with rest inv fb show ?thesis by auto
        next
          case (Some v)
          then have ne: "ps0 \<noteq> []" by auto
          have "cheapest ps0 \<in> set eligible" using cheapest_in [OF ne] inv(1) by auto
          moreover have "fallback_path r \<in> fst ` set ps0" using Some by (metis map_of_eq_None_iff option.distinct(1))
          ultimately show ?thesis using rest Some inv cheapest_least [OF ne] by auto
        qed
      qed
    qed
  qed
qed

lemma choose_path_ok:
  assumes ok: "policy_ok po"
    and ch: "choose_path si r shape strides po = Inr (Some (choice, key, chosen), po')"
  shows "choice \<in> set (eligible_paths r (si_cuda_enabled si)) \<and> policy_ok po' \<and>
    po_forced po' = po_forced po \<and> pr_path chosen = choice \<and>
    (pr_reason chosen = ''lowest_completed_cost'' \<longrightarrow>
      (\<exists>ms. (choice, ms) \<in> set (pr_predictions chosen) \<and> (\<forall>q\<in>set (pr_predictions chosen). ms \<le> snd q))) \<and>
    (pr_reason chosen \<noteq> ''lowest_completed_cost'' \<longrightarrow> pr_reason chosen \<noteq> ''forced'' \<longrightarrow>
      choice = fallback_path r)"
proof -
  from ch obtain fam where pid: "si_pid si = po_pid po" and op: "si_open si = None" and fam: "family_of r = Some fam"
    by (auto simp: choose_path_def split: if_splits option.splits)
  define cx where "cx = po_context po"
  let ?key = "(fam, shape, strides, si_device si, si_execution si,
    (cx_cpu_load cx, cx_gpu_load cx, cx_overlap cx), si_epoch si)"
  let ?el = "eligible_paths r (si_cuda_enabled si)"
  let ?st = "path_states po ?key (si_retained si) ?el"
  have cc: "check_context (po_context po) = Inr cx' \<Longrightarrow> cx' = cx" for cx'
    by (auto simp: check_context_def cx_def split: if_splits)
  from ch pid op fam obtain reason ps po1 wire st where
    sel: "select_path si r fam shape ?key ?el ?st po = Inr ((choice, reason, ps), po1)"
    and key: "key = ?key"
    and chosen: "chosen = \<lparr>pr_path = choice, pr_wire_bytes = wire, pr_state = st, pr_reason = reason,
       pr_predictions = ps, pr_unprofiled = filter (\<lambda>p. map_of ps p = None) ?el\<rparr>"
    and po': "po' = po1\<lparr>po_last := Some chosen, po_counts := bump (choice @ '':'' @ reason) (po_counts po1)\<rparr>"
    by (auto simp: choose_path_def Let_def dest!: cc)
  note c = select_path_choice [OF ok fam refl path_states_paths sel]
  then have "policy_ok po'" by (auto simp: policy_ok_def po' bump_def)
  with c show ?thesis by (simp add: chosen po')
qed

lemma policy_ok_counts: "policy_ok po \<Longrightarrow> policy_ok (po\<lparr>po_counts := bump k (po_counts po)\<rparr>)"
  by (simp add: policy_ok_def bump_def od_ok_set)

lemma choose_path_none_ok:
  assumes ok: "policy_ok po" and ch: "choose_path si r shape strides po = Inr (None, po')"
  shows "policy_ok po' \<and> po_forced po = None \<and> family_of r = None"
proof -
  from ch have "po' = po\<lparr>po_counts := bump ''legacy:unsupported_recipe'' (po_counts po)\<rparr>"
    "po_forced po = None" "family_of r = None"
    by (auto simp: choose_path_def Let_def split: if_splits option.splits)
  with policy_ok_counts [OF ok] show ?thesis by simp
qed

lemma succeeded_ok: "policy_ok po \<Longrightarrow> policy_ok (succeeded d epoch po)"
  by (cases d) (auto simp: succeeded_def policy_ok_def Let_def length_od_trim)

text \<open>A path recorded as successful is warm for the same request under the generation it left.\<close>

lemma succeeded_warm:
  assumes "policy_ok po"
  shows "map_of (po_seen (succeeded (choice, key, chosen) epoch po)) (with_epoch key epoch, choice) = Some ()"
  using assms unfolding succeeded_def Let_def case_prod_conv
  by (simp, intro od_trim_touch_lookup) (auto simp: policy_ok_def)

lemma force_restores:
  "force pid path body po = (res, po') \<Longrightarrow> po_forced po' = po_forced po"
  by (auto simp: force_def Let_def split: if_splits prod.splits)

text \<open>The weighted mean of measured times lies between the least and the greatest of them.\<close>

lemma weighted_bounds:
  fixes ps :: "(rat \<times> rat) list"
  assumes "\<forall>(w, x)\<in>set ps. 0 < w \<and> lo \<le> x \<and> x \<le> hi" and "ps \<noteq> []"
  shows "0 < sum_list (map fst ps) \<and>
    lo * sum_list (map fst ps) \<le> sum_list (map (\<lambda>(w, x). w * x) ps) \<and>
    sum_list (map (\<lambda>(w, x). w * x) ps) \<le> hi * sum_list (map fst ps)"
  using assms
proof (induction ps)
  case (Cons p ps)
  obtain w x where p: "p = (w, x)" by (cases p)
  from Cons.prems p have w: "0 < w" "lo \<le> x" "x \<le> hi" by auto
  then have m: "lo * w \<le> w * x" "w * x \<le> hi * w"
    by (simp_all add: mult.commute mult_left_mono)
  show ?case
  proof (cases "ps = []")
    case True
    with w m show ?thesis by (simp add: p)
  next
    case False
    define S T where "S = sum_list (map fst ps)" and "T = sum_list (map (\<lambda>(w, x). w * x) ps)"
    from Cons False have st: "0 < S" "lo * S \<le> T" "T \<le> hi * S" by (auto simp: S_def T_def)
    have "lo * (w + S) \<le> w * x + T" "w * x + T \<le> hi * (w + S)"
      unfolding distrib_left using m st by linarith+
    with w st show ?thesis by (simp add: p S_def [symmetric] T_def [symmetric])
  qed
qed simp

lemma weighted_mean_pairs:
  "weighted_mean points = sum_list (map (\<lambda>(w, x). w * x) (map (\<lambda>(d, ms). (1 / (d * d), ms)) points)) /
     sum_list (map fst (map (\<lambda>(d, ms). (1 / (d * d), ms)) points))"
proof -
  have "map (\<lambda>(w, (_, ms)). w * ms) (zip (map (\<lambda>(d, _). 1 / (d * d)) points) points) =
      map (\<lambda>(w, x). w * x) (map (\<lambda>(d, ms). (1 / (d * d), ms)) points)"
    by (induction points) auto
  moreover have "map (\<lambda>(d, _). 1 / (d * d)) points = map fst (map (\<lambda>(d, ms). (1 / (d * d), ms)) points)"
    by (induction points) auto
  ultimately show ?thesis unfolding weighted_mean_def Let_def by (simp only:)
qed

lemma weighted_mean_bounds:
  assumes "\<forall>(d, ms)\<in>set points. 0 < d \<and> lo \<le> ms \<and> ms \<le> hi" and "points \<noteq> []"
  shows "lo \<le> weighted_mean points \<and> weighted_mean points \<le> hi"
proof -
  let ?ps = "map (\<lambda>(d, ms). (1 / (d * d), ms)) points"
  have "\<forall>(w, x)\<in>set ?ps. 0 < w \<and> lo \<le> x \<and> x \<le> hi" using assms(1) by fastforce
  from weighted_bounds [OF this] assms(2) show ?thesis
    unfolding weighted_mean_pairs by (simp add: pos_le_divide_eq pos_divide_le_eq)
qed

lemma predict_bounds:
  assumes dist: "\<forall>n m. 0 \<le> log_ratio n m"
    and pred: "predict log_ratio p fam shape path st cx wire = Some ms"
    and rng: "\<forall>s\<in>set (matching_samples p fam shape path st cx wire). lo \<le> ob_completed_ms s \<and> ob_completed_ms s \<le> hi"
  shows "lo \<le> ms \<and> ms \<le> hi"
proof -
  define rows where "rows = matching_samples p fam shape path st cx wire"
  define points where "points = sort_key fst (sort_key snd
    (map (\<lambda>s. (shape_distance log_ratio shape (ob_shape s), ob_completed_ms s)) rows))"
  have ne: "rows \<noteq> []" using pred by (auto simp: predict_def Let_def rows_def split: if_splits)
  have set_points: "set points = (\<lambda>s. (shape_distance log_ratio shape (ob_shape s), ob_completed_ms s)) ` set rows"
    by (simp add: points_def)
  then have pne: "points \<noteq> []" using ne by auto
  have rp: "\<forall>(d, m)\<in>set points. lo \<le> m \<and> m \<le> hi" using rng unfolding set_points rows_def by auto
  have "0 \<le> shape_distance log_ratio ns ms" for ns ms
    unfolding shape_distance_def using dist by (intro sum_list_nonneg) auto
  then have dp: "\<forall>(d, m)\<in>set points. 0 \<le> d" unfolding set_points by auto
  have sorted: "sorted (map fst points)" unfolding points_def by simp
  have hd_least: "\<forall>q\<in>set points. fst (hd points) \<le> fst q"
    using sorted pne by (cases points) auto
  from pred ne have eq: "Some ms = (if fst (hd points) = 0
        then (let exact = sort (map snd (filter (\<lambda>q. fst q = 0) points)) in Some (exact ! (length exact div 2)))
        else if fst (hd points) > 2 then None else Some (weighted_mean (take 4 points)))"
    by (auto simp: predict_def Let_def rows_def [symmetric] points_def [symmetric] split: if_splits)
  show ?thesis
  proof (cases "fst (hd points) = 0")
    case True
    define ex where "ex = sort (map snd (filter (\<lambda>q. fst q = 0) points))"
    have "hd points \<in> set (filter (\<lambda>q. fst q = 0) points)" using pne True by simp
    then have "ex \<noteq> []" unfolding ex_def by (metis empty_iff list.map_disc_iff list.set(1) set_empty set_sort)
    then have "ex ! (length ex div 2) \<in> set ex" by (simp add: nth_mem)
    moreover have "set ex \<subseteq> snd ` set points" by (auto simp: ex_def)
    ultimately have "ms \<in> snd ` set points" using eq True by (auto simp: ex_def Let_def)
    with rp show ?thesis by auto
  next
    case False
    with eq have ms: "ms = weighted_mean (take 4 points)" by (auto split: if_splits)
    have "0 < fst (hd points)" using False dp pne by (metis case_prodD hd_in_set order_le_less prod.collapse)
    with hd_least have "\<forall>(d, m)\<in>set (take 4 points). 0 < d \<and> lo \<le> m \<and> m \<le> hi"
      using rp by (fastforce dest: in_set_takeD)
    with pne show ?thesis unfolding ms by (intro weighted_mean_bounds) auto
  qed
qed

end
