(* ===== verification/Runtime.thy ===== *)
theory Runtime
  imports Placement Diagnostics Eligibility
begin

text \<open>
  \<open>reloc_torch/runtime.py\<close> and the binding half of \<open>reloc_torch/index_select.py\<close>: the guarded
  boundary between the frontend and the runtime adapter.  PyTorch, the saved original region and the
  adapter are outcome arguments (\<open>host\<close>); a log records each piece of work a call starts.
\<close>

section \<open>Live tensors\<close>

record device =
  dv_type :: string
  dv_index :: "int option"

text \<open>The fields the module reads of a tensor; \<open>lv_id\<close> is the object's identity.\<close>

record live =
  lv_id :: nat
  lv_plain :: bool
  lv_requires_grad :: bool
  lv_device :: device
  lv_dtype :: string
  lv_layout :: string
  lv_shape :: "int list"
  lv_strides :: "int list"
  lv_offset :: int
  lv_contiguous :: bool
  lv_lazy_view :: bool
  lv_base :: int
  lv_capacity :: int
  lv_item_bytes :: int

type_synonym snapshot = "int list \<times> int list \<times> int \<times> string \<times> device \<times> int \<times> int"

definition storage_span :: "live \<Rightarrow> int \<times> int \<times> int" where
  "storage_span t = (lv_base t, lv_capacity t, lv_offset t * lv_item_bytes t)"

definition storage_snapshot :: "live \<Rightarrow> snapshot" where
  "storage_snapshot t = (let (base, capacity, off) = storage_span t
     in (lv_shape t, lv_strides t, off, lv_dtype t, lv_device t, base, capacity))"

definition tensor_view :: "live \<Rightarrow> tensor_like" where
  "tensor_view t = \<lparr>tl_shape = Some (map PyInt (lv_shape t)), tl_stride = Some (map PyInt (lv_strides t)),
     tl_storage_offset = Some (PyInt (lv_offset t)), tl_dtype = Some (''torch.'' @ lv_dtype t)\<rparr>"

definition unsupported_device :: "device \<Rightarrow> bool" where
  "unsupported_device d \<longleftrightarrow> dv_type d \<notin> {''cpu'', ''cuda''} \<or>
     (dv_type d = ''cpu'' \<and> dv_index d \<noteq> None) \<or>
     (dv_type d = ''cuda'' \<and> (case dv_index d of None \<Rightarrow> True | Some i \<Rightarrow> i < 0))"

definition source_reason :: "bool \<Rightarrow> live \<Rightarrow> string option" where
  "source_reason grad_enabled t =
     (if \<not> lv_plain t then Some ''tensor_subclass''
      else if lv_requires_grad t \<and> grad_enabled then Some ''requires_grad''
      else if unsupported_device (lv_device t) then Some ''unsupported_device''
      else if lv_dtype t \<notin> {''float32'', ''float16'', ''bfloat16'', ''int8''} then Some ''unsupported_dtype''
      else if lv_layout t \<noteq> ''strided'' then Some ''unsupported_layout''
      else if lv_shape t = [] then Some ''unsupported_rank''
      else if 0 \<in> set (lv_shape t) \<or> lv_capacity t = 0 then Some ''empty_tensor''
      else if lv_offset t \<noteq> 0 then Some ''storage_offset''
      else if \<not> lv_contiguous t then Some ''unsupported_layout''
      else None)"

section \<open>Binding at the boundary\<close>

text \<open>\<open>except GuardError\<close> and \<open>except KeyError\<close> turned into a reason.\<close>

fun guard_reason :: "exn \<Rightarrow> exn" where
  "guard_reason (GuardError r) = UnsupportedRecipe r r"
| "guard_reason e = e"

fun metadata_reason_of :: "exn \<Rightarrow> exn" where
  "metadata_reason_of (KeyErr k) = UnsupportedRecipe ''missing_symbol'' k"
| "metadata_reason_of e = guard_reason e"

definition reason_of :: "(exn \<Rightarrow> exn) \<Rightarrow> 'a res \<Rightarrow> 'a res" where
  "reason_of h m = (case m of Inl e \<Rightarrow> Inl (h e) | Inr x \<Rightarrow> Inr x)"

type_synonym bindings = "(string \<times> pyint) list"

record concrete_descriptor =
  cd_shape :: "int list"
  cd_strides :: "int list"
  cd_dtype :: string
  cd_device :: device

text \<open>The thread-local admission record, with the identities its reuse compares.\<close>

record validated_binding =
  vb_compiled :: nat
  vb_source :: nat
  vb_snapshot :: snapshot
  vb_bindings :: bindings
  vb_destination :: "concrete_descriptor option"
  vb_grad :: "bool \<times> bool"

definition bind_symbols ::
  "validated_binding option \<Rightarrow> nat \<Rightarrow> compiled_recipe \<Rightarrow> live \<Rightarrow> bindings res" where
  "bind_symbols shared cid a src =
     (let fresh = reason_of guard_reason (bind_values a (tensor_view src) None) in
      case shared of
        None \<Rightarrow> fresh
      | Some v \<Rightarrow> if vb_compiled v = cid \<and> vb_source v = lv_id src \<and> vb_snapshot v = storage_snapshot src
          then Inr (vb_bindings v) else fresh)"

definition destination_descriptor :: "compiled_recipe \<Rightarrow> bindings \<Rightarrow> device \<Rightarrow> concrete_descriptor res" where
  "destination_descriptor a b d =
     res_bind (reason_of metadata_reason_of (destination_metadata a (sort_key fst b))) (\<lambda>(shape, strides, dtype).
       Inr \<lparr>cd_shape = shape, cd_strides = strides, cd_dtype = dtype, cd_device = d\<rparr>)"

definition record_validated ::
  "bool \<Rightarrow> nat \<Rightarrow> live \<Rightarrow> bindings \<Rightarrow> concrete_descriptor option \<Rightarrow> validated_binding" where
  "record_validated grad_enabled cid src b d = \<lparr>vb_compiled = cid, vb_source = lv_id src,
     vb_snapshot = storage_snapshot src, vb_bindings = b, vb_destination = d,
     vb_grad = (lv_requires_grad src, grad_enabled)\<rparr>"

definition validated_preparation ::
  "validated_binding option \<Rightarrow> bool \<Rightarrow> nat \<Rightarrow> live \<Rightarrow> (bindings \<times> concrete_descriptor) option" where
  "validated_preparation shared grad_enabled cid src = (case shared of
     None \<Rightarrow> None
   | Some v \<Rightarrow> (case vb_destination v of
       None \<Rightarrow> None
     | Some d \<Rightarrow> if vb_compiled v = cid \<and> vb_source v = lv_id src \<and>
           vb_grad v = (lv_requires_grad src, grad_enabled) \<and> vb_snapshot v = storage_snapshot src
         then Some (vb_bindings v, d) else None))"

definition prepared_destination ::
  "compiled_recipe \<Rightarrow> bindings \<Rightarrow> device \<Rightarrow> (bindings \<times> concrete_descriptor) option \<Rightarrow> concrete_descriptor res" where
  "prepared_destination a b d shared = (case shared of
     None \<Rightarrow> destination_descriptor a b d
   | Some (_, cd) \<Rightarrow> if cd_device cd = d then Inr cd else Inr (cd\<lparr>cd_device := d\<rparr>))"

text \<open>\<open>index_select.bind_index_select\<close>.\<close>

definition bind_index_select :: "bool \<Rightarrow> compiled_recipe \<Rightarrow> live \<Rightarrow> live \<Rightarrow> bindings res" where
  "bind_index_select grad_enabled a src index = (case source_reason grad_enabled src of
     Some r \<Rightarrow> Inl (UnsupportedRecipe r (msg [''index_select source rejected: '', r]))
   | None \<Rightarrow>
       if dv_type (lv_device src) \<noteq> ''cpu'' \<or> length (lv_shape src) < 1 \<or> \<not> lv_contiguous src \<or> lv_lazy_view src
       then Inl (UnsupportedRecipe ''unsupported_index_select'' ''expected a dense CPU source'')
       else if \<not> lv_plain index \<or> dv_type (lv_device index) \<noteq> ''cpu'' \<or> lv_layout index \<noteq> ''strided'' \<or>
         length (lv_shape index) \<noteq> 1 \<or> lv_dtype index \<notin> {''int32'', ''int64''}
       then Inl (UnsupportedRecipe ''unsupported_index_select'' ''expected a CPU int32/int64 index vector'')
       else reason_of guard_reason (bind_values a (tensor_view src) (Some (tensor_view index))))"

section \<open>The promise on results\<close>

text \<open>A result is a tensor or some other object (\<open>None\<close>); \<open>alias\<close> is PyTorch's storage test.\<close>

definition verify_result :: "(live \<Rightarrow> live \<Rightarrow> bool) \<Rightarrow> live option \<Rightarrow> live \<Rightarrow> concrete_descriptor \<Rightarrow> live option res" where
  "verify_result alias result src d = (case result of
     None \<Rightarrow> Inl (RuntimeErr ''reloc_torch produced a non-tensor result'')
   | Some t \<Rightarrow>
       if alias t src then Inl (RuntimeErr ''reloc_torch result must not alias its input'')
       else if lv_shape t \<noteq> cd_shape d \<or> lv_dtype t \<noteq> cd_dtype d \<or> lv_offset t \<noteq> 0
       then Inl (RuntimeErr ''reloc_torch output metadata mismatch'')
       else if \<exists>(size, stride, promised) \<in> set (zip (lv_shape t) (zip (lv_strides t) (cd_strides d))).
           size \<noteq> 1 \<and> stride \<noteq> promised
       then Inl (RuntimeErr ''reloc_torch output metadata mismatch'')
       else if dv_type (lv_device t) \<noteq> dv_type (cd_device d) \<or>
           (dv_index (cd_device d) \<noteq> None \<and> dv_index (lv_device t) \<noteq> dv_index (cd_device d))
       then Inl (RuntimeErr ''reloc_torch output device does not match declared'')
       else Inr (Some t))"

section \<open>Prepared calls\<close>

record prepared_call =
  pc_bindings :: bindings
  pc_destination :: concrete_descriptor
  pc_snapshot :: snapshot
  pc_consumed :: bool
  pc_request :: nat

definition new_prepared :: "live \<Rightarrow> bindings \<Rightarrow> concrete_descriptor \<Rightarrow> nat \<Rightarrow> prepared_call" where
  "new_prepared src b d request = \<lparr>pc_bindings = b, pc_destination = d,
     pc_snapshot = storage_snapshot src, pc_consumed = False, pc_request = request\<rparr>"

definition recheck :: "prepared_call \<Rightarrow> live \<Rightarrow> unit res" where
  "recheck call src = ensure (storage_snapshot src = pc_snapshot call)
     (RuntimeErr ''stale prepared call: source metadata changed after preflight'')"

definition consume :: "prepared_call \<Rightarrow> prepared_call res" where
  "consume call = (if pc_consumed call then Inl (RuntimeErr ''prepared call was already executed'')
     else Inr (call\<lparr>pc_consumed := True\<rparr>))"

text \<open>\<open>bind_plan\<close>: \<open>layout\<close> is the bound template the compiled recipe's cache returns.\<close>

definition bind_plan :: "'b res \<Rightarrow> diagnostics option \<Rightarrow> 'b res \<times> diagnostics option" where
  "bind_plan layout dg = (case dg of
     None \<Rightarrow> (layout, None)
   | Some d \<Rightarrow> (case increment ''symbol_binds'' 1 d of
       Inl e \<Rightarrow> (Inl e, Some d) | Inr d \<Rightarrow> (layout, Some d)))"

definition prepare_host_call ::
  "bool \<Rightarrow> validated_binding option \<Rightarrow> nat \<Rightarrow> compiled_recipe \<Rightarrow> live \<Rightarrow> device \<Rightarrow> bool \<Rightarrow>
     (bindings \<Rightarrow> nat res) \<Rightarrow> diagnostics option \<Rightarrow> prepared_call res \<times> diagnostics option" where
  "prepare_host_call grad_enabled shared cid a src d non_blocking layout dg =
     (if non_blocking then (Inl (UnsupportedRecipe ''nonblocking_unavailable'' ''blocking transfers only''), dg)
      else case source_reason grad_enabled src of
        Some r \<Rightarrow> (Inl (UnsupportedRecipe r (msg [''source tensor rejected: '', r])), dg)
      | None \<Rightarrow> (case bind_symbols shared cid a src of
          Inl e \<Rightarrow> (Inl e, dg)
        | Inr b \<Rightarrow> (case bind_plan (layout b) dg of
            (Inl e, dg) \<Rightarrow> (Inl e, dg)
          | (Inr bound, dg) \<Rightarrow>
              (res_bind (destination_descriptor a b d) (\<lambda>cd. Inr (new_prepared src b cd bound)), dg))))"

section \<open>Execution entries\<close>

record entry =
  en_identity :: nat
  en_compiled :: compiled_recipe
  en_symbolic :: "(string \<times> expr) list"
  en_guards :: "expr list"
  en_indexed :: bool
  en_handle :: "string option"
  en_closed :: bool
  en_event_set :: bool

definition entry_closed :: "entry \<Rightarrow> bool" where
  "entry_closed en \<longleftrightarrow> en_closed en \<or> en_event_set en"

definition close_entry :: "entry \<Rightarrow> entry" where
  "close_entry en = en\<lparr>en_closed := True\<rparr>"

definition describe_entry :: "entry \<Rightarrow> string" where
  "describe_entry en = (case en_handle en of None \<Rightarrow> ''unregistered entry'' | Some h \<Rightarrow> h)"

definition scalar_arguments :: "entry \<Rightarrow> int list \<Rightarrow> int list res" where
  "scalar_arguments en symbols =
     (if en_symbolic en = [] then Inr []
      else let names = cr_symbols (en_compiled en) in
        if length symbols \<noteq> length names then Inl (RuntimeErr ''wrong number of symbol values'')
        else mapR (\<lambda>(_, e). evaluate False (map_of (zip names (map PyInt symbols))) e) (en_symbolic en))"

text \<open>\<open>_derived_symbols\<close>: \<open>None\<close> when the source's rank does not reach a symbol's axis.\<close>

fun derived_symbols :: "symbol_source list \<Rightarrow> int list \<Rightarrow> string list \<Rightarrow> int list option" where
  "derived_symbols sources shape [] = Some []"
| "derived_symbols sources shape (name # names) =
     (case find (\<lambda>s. ss_name s = name) sources of
        None \<Rightarrow> None
      | Some s \<Rightarrow> if int (length shape) \<le> ss_axis s then None
          else map_option (\<lambda>vs. shape ! nat (ss_axis s) # vs) (derived_symbols sources shape names))"

section \<open>The world of a call\<close>

text \<open>The pieces of work a call can start.\<close>

datatype event = RanOriginal | RanReplay string | Launched

text \<open>What a call changes: the diagnostics, the entry's fallback count, the policy, and the log.\<close>

record world =
  wd_diagnostics :: diagnostics
  wd_fallback_calls :: nat
  wd_policy :: "policy option"
  wd_log :: "event list"

type_synonym 'a act = "world \<Rightarrow> 'a res \<times> world"

definition act_bind :: "'a act \<Rightarrow> ('a \<Rightarrow> 'b act) \<Rightarrow> 'b act" where
  "act_bind m f w = (case m w of (Inl e, w') \<Rightarrow> (Inl e, w') | (Inr x, w') \<Rightarrow> f x w')"

definition lift_res :: "'a res \<Rightarrow> 'a act" where
  "lift_res r w = (r, w)"

definition log_event :: "event \<Rightarrow> unit act" where
  "log_event e w = (Inr (), w\<lparr>wd_log := wd_log w @ [e]\<rparr>)"

definition on_diagnostics :: "(diagnostics \<Rightarrow> diagnostics res) \<Rightarrow> unit act" where
  "on_diagnostics f w = (case f (wd_diagnostics w) of
     Inl e \<Rightarrow> (Inl e, w) | Inr d \<Rightarrow> (Inr (), w\<lparr>wd_diagnostics := d\<rparr>))"

text \<open>\<open>record_fallback\<close> and the entry's own count, made together before the region runs.\<close>

definition count_fallback :: "string \<Rightarrow> unit act" where
  "count_fallback reason w = (Inr (), w\<lparr>wd_diagnostics := record_fallback reason (wd_diagnostics w),
     wd_fallback_calls := Suc (wd_fallback_calls w)\<rparr>)"

text \<open>The adapter's keyword options, and what it and PyTorch do in this call.\<close>

record options =
  op_non_blocking :: bool
  op_implementation :: "string option"
  op_index :: "live option"
  op_parameters :: "(string \<times> live) list option"

record host =
  ho_grad :: bool
  ho_alias :: "live \<Rightarrow> live \<Rightarrow> bool"
  ho_original :: "live \<Rightarrow> int list \<Rightarrow> live list \<Rightarrow> live option res"
  ho_synchronize :: "unit res"
  ho_replay :: "string \<Rightarrow> live option res"
  ho_transport :: bool
  ho_preflight :: "options \<Rightarrow> nat \<times> prepared_call res"
  ho_source_now :: live
  ho_execute :: "prepared_call \<Rightarrow> (live option \<times> dispatch_report option \<times> staging_row list) res"
  ho_situation :: situation
  ho_epoch_after :: nat

section \<open>Execute or fall back\<close>

definition run_original :: "host \<Rightarrow> entry \<Rightarrow> live \<Rightarrow> int list \<Rightarrow> live list \<Rightarrow> live option act" where
  "run_original h en src symbols parameters =
     act_bind (lift_res (scalar_arguments en symbols)) (\<lambda>args.
     act_bind (log_event RanOriginal) (\<lambda>_. lift_res (ho_original h src args parameters)))"

definition fallback ::
  "host \<Rightarrow> entry \<Rightarrow> live \<Rightarrow> int list option \<Rightarrow> string \<Rightarrow> concrete_descriptor option \<Rightarrow> live list \<Rightarrow> live option act" where
  "fallback h en src symbols reason promised parameters =
     (let values = (case symbols of
          Some vs \<Rightarrow> Inr vs
        | None \<Rightarrow> if en_symbolic en = [] then Inr []
            else (case derived_symbols (cr_symbol_sources (en_compiled en)) (lv_shape src) (cr_symbols (en_compiled en)) of
              None \<Rightarrow> Inl (RuntimeErr ''cannot evaluate the original region's scalar placeholders'')
            | Some vs \<Rightarrow> Inr vs))
      in act_bind (lift_res values) (\<lambda>vs.
         act_bind (count_fallback reason) (\<lambda>_.
         act_bind (run_original h en src vs parameters) (\<lambda>result.
           lift_res (case promised of None \<Rightarrow> Inr result
             | Some d \<Rightarrow> verify_result (ho_alias h) result src d)))))"

text \<open>The frontend guards, each with its reason: binding, destination and extent guards.\<close>

fun check_guards :: "bindings \<Rightarrow> expr list \<Rightarrow> unit res" where
  "check_guards b [] = Inr ()"
| "check_guards b (g # gs) = res_bind (evaluate True (map_of b) g) (\<lambda>v.
     if v < 2 then Inl (UnsupportedRecipe ''singleton_extent'' (msg [expr_repr g, '' binds below two'']))
     else check_guards b gs)"

definition frontend_bind :: "host \<Rightarrow> validated_binding option \<Rightarrow> entry \<Rightarrow> live \<Rightarrow> device \<Rightarrow> live list \<Rightarrow>
    (bindings \<times> concrete_descriptor) res" where
  "frontend_bind h shared en src d parameters =
     res_bind (if en_indexed en then bind_index_select (ho_grad h) (en_compiled en) src (hd parameters)
       else bind_symbols shared (en_identity en) (en_compiled en) src) (\<lambda>b.
     res_bind (destination_descriptor (en_compiled en) b d) (\<lambda>cd.
     res_bind (check_guards b (en_guards en)) (\<lambda>_. Inr (b, cd))))"

fun handled_reason :: "exn \<Rightarrow> string option" where
  "handled_reason (UnsupportedRecipe r _) = Some r"
| "handled_reason (GuardError r) = Some r"
| "handled_reason (KeyErr _) = Some ''missing_symbol''"
| "handled_reason _ = None"

text \<open>An exception of work already started becomes \<open>ExecutionError\<close>.\<close>

definition wrap_execution :: "'a act \<Rightarrow> 'a act" where
  "wrap_execution m w = (case m w of (Inl e, w') \<Rightarrow> (Inl (ExecutionErr ''execution failed''), w') | r \<Rightarrow> r)"

definition choose_placement :: "host \<Rightarrow> entry \<Rightarrow> live \<Rightarrow> decision option act" where
  "choose_placement h en src w = (case wd_policy w of
     None \<Rightarrow> (Inr None, w)
   | Some po \<Rightarrow> (case choose_path (ho_situation h) (cr_recipe (en_compiled en)) (lv_shape src) (lv_strides src) po of
       Inl e \<Rightarrow> (Inl e, w)
     | Inr (decision, po) \<Rightarrow> (Inr decision, w\<lparr>wd_policy := Some po\<rparr>)))"

definition note_success :: "host \<Rightarrow> decision option \<Rightarrow> unit act" where
  "note_success h decision w = (case (decision, wd_policy w) of
     (Some d, Some po) \<Rightarrow> (Inr (), w\<lparr>wd_policy := Some (succeeded d (ho_epoch_after h) po)\<rparr>)
   | _ \<Rightarrow> (Inr (), w))"

definition run_placed ::
  "host \<Rightarrow> entry \<Rightarrow> live \<Rightarrow> int list option \<Rightarrow> live list \<Rightarrow> concrete_descriptor \<Rightarrow> string \<Rightarrow> live option act" where
  "run_placed h en src symbols parameters promised path = wrap_execution (
     act_bind (if path = ''native'' then
         act_bind (run_original h en src (case symbols of None \<Rightarrow> [] | Some vs \<Rightarrow> vs) parameters) (\<lambda>result.
         act_bind (lift_res (ho_synchronize h)) (\<lambda>_. lift_res (Inr result)))
       else act_bind (log_event (RanReplay path)) (\<lambda>_. lift_res (ho_replay h path)))
     (\<lambda>result. lift_res (verify_result (ho_alias h) result src promised)))"

definition same_dict :: "bindings \<Rightarrow> bindings \<Rightarrow> bool" where
  "same_dict a b \<longleftrightarrow> (\<forall>k\<in>set (map fst (a @ b)). map_of a k = map_of b k)"

definition call_adapter :: "host \<Rightarrow> options \<Rightarrow> prepared_call act" where
  "call_adapter h opts = (let (binds, r) = ho_preflight h opts in
     act_bind (on_diagnostics (\<lambda>d. increment ''symbol_binds'' (int binds) d)) (\<lambda>_. lift_res r))"

definition launch :: "host \<Rightarrow> live \<Rightarrow> concrete_descriptor \<Rightarrow> prepared_call \<Rightarrow> live option act" where
  "launch h src promised call =
     act_bind (lift_res (recheck call (ho_source_now h))) (\<lambda>_.
     act_bind (lift_res (consume call)) (\<lambda>call.
     act_bind (on_diagnostics (increment ''runtime_executions'' 1)) (\<lambda>_.
     act_bind (wrap_execution (act_bind (log_event Launched) (\<lambda>_. lift_res (ho_execute h call)))) (\<lambda>(result, report, staging).
     act_bind (on_diagnostics (\<lambda>d. case report of None \<Rightarrow> Inr d | Some rp \<Rightarrow> record_dispatch rp d)) (\<lambda>_.
     act_bind (on_diagnostics (\<lambda>d. Inr (record_staging staging d))) (\<lambda>_.
       lift_res (verify_result (ho_alias h) result src promised)))))))"

definition adapter_branch ::
  "host \<Rightarrow> entry \<Rightarrow> live \<Rightarrow> int list option \<Rightarrow> string list \<Rightarrow> live list \<Rightarrow> bindings \<Rightarrow> concrete_descriptor \<Rightarrow>
     concrete_descriptor \<Rightarrow> decision option \<Rightarrow> live option act" where
  "adapter_branch h en src symbols names parameters b destination promised decision =
     (if en_indexed en \<and> \<not> ho_transport h
      then fallback h en src symbols ''indexed_runtime_unavailable'' (Some promised) parameters
      else
        let typed = cr_typed (en_compiled en);
            opts = \<lparr>op_non_blocking = False,
              op_implementation = (case decision of None \<Rightarrow> None | Some (path, _) \<Rightarrow> if \<not> typed then None
                else Some (if path = ''sym_cpu'' then ''cpu_reference''
                  else gpu_implementation (cr_recipe (en_compiled en)))),
              op_index = (if en_indexed en then Some (hd parameters) else None),
              op_parameters = (if \<not> en_indexed en \<and> typed then Some (zip names parameters) else None)\<rparr>
        in (\<lambda>w. case call_adapter h opts w of
          (Inl (UnsupportedRecipe reason detail), w) \<Rightarrow> (case decision of
              Some (path, _) \<Rightarrow> (Inl (UnsupportedRecipe ''placement_unavailable'' (msg [path, '': '', detail])), w)
            | None \<Rightarrow> fallback h en src symbols reason (Some promised) parameters w)
        | (Inl e, w) \<Rightarrow> (Inl e, w)
        | (Inr call, w) \<Rightarrow>
            if \<not> same_dict (pc_bindings call) b \<or> cd_shape (pc_destination call) \<noteq> cd_shape destination
            then (Inl (RuntimeErr ''runtime adapter disagreed with the frontend binding''), w)
            else act_bind (launch h src promised call) (\<lambda>result.
                 act_bind (note_success h decision) (\<lambda>_. lift_res (Inr result))) w))"

definition parameter_names :: "entry \<Rightarrow> string list" where
  "parameter_names en = (if en_indexed en then [''index'']
     else if cr_typed (en_compiled en) then map pd_name (cr_parameters (en_compiled en)) else [])"

text \<open>The symbol values the caller supplied differ from the bound ones.\<close>

definition symbols_differ :: "entry \<Rightarrow> bindings \<Rightarrow> int list \<Rightarrow> bool res" where
  "symbols_differ en b vs = res_bind (mapR (binding_of (map_of b)) (cr_symbols (en_compiled en)))
     (\<lambda>expected. Inr (map PyInt vs \<noteq> map snd expected))"

definition after_binding ::
  "host \<Rightarrow> entry \<Rightarrow> live \<Rightarrow> int list option \<Rightarrow> concrete_descriptor option \<Rightarrow> live list \<Rightarrow> bindings \<Rightarrow>
     concrete_descriptor \<Rightarrow> live option act" where
  "after_binding h en src symbols declared parameters b destination =
     (let promised = (case declared of None \<Rightarrow> destination | Some d \<Rightarrow> d) in
      act_bind (lift_res (case symbols of None \<Rightarrow> Inr False | Some vs \<Rightarrow> symbols_differ en b vs)) (\<lambda>differ.
      if differ then fallback h en src symbols ''symbol_mismatch'' (Some promised) parameters
      else if declared \<noteq> None \<and> (cd_shape promised \<noteq> cd_shape destination \<or> cd_strides promised \<noteq> cd_strides destination)
      then lift_res (Inl (RuntimeErr ''declared output metadata does not match the compiled descriptor''))
      else act_bind (choose_placement h en src) (\<lambda>decision. case decision of
          Some (path, key, chosen) \<Rightarrow>
            if path \<in> {''native'', ''torch_cpu'', ''torch_gpu''}
            then act_bind (run_placed h en src symbols parameters promised path) (\<lambda>result.
                 act_bind (note_success h decision) (\<lambda>_. lift_res (Inr result)))
            else adapter_branch h en src symbols (parameter_names en) parameters b destination promised decision
        | None \<Rightarrow> adapter_branch h en src symbols (parameter_names en) parameters b destination promised None)))"

definition execute_or_fallback ::
  "host \<Rightarrow> validated_binding option \<Rightarrow> entry \<Rightarrow> live \<Rightarrow> int list option \<Rightarrow> device \<Rightarrow> bool \<Rightarrow>
     concrete_descriptor option \<Rightarrow> live list \<Rightarrow> live option act" where
  "execute_or_fallback h shared en src symbols d non_blocking declared parameters =
     (if entry_closed en then lift_res (Inl (RuntimeErr ''execution entry is closed''))
      else if length parameters \<noteq> length (parameter_names en)
      then lift_res (Inl (RuntimeErr ''wrong number of runtime parameters''))
      else if non_blocking then fallback h en src symbols ''nonblocking_unavailable'' declared parameters
      else case source_reason (ho_grad h) src of
        Some reason \<Rightarrow> fallback h en src symbols reason declared parameters
      | None \<Rightarrow> (case frontend_bind h shared en src d parameters of
          Inl e \<Rightarrow> (case handled_reason e of
              Some reason \<Rightarrow> fallback h en src symbols reason declared parameters
            | None \<Rightarrow> lift_res (Inl e))
        | Inr (b, destination) \<Rightarrow> after_binding h en src symbols declared parameters b destination))"

section \<open>One piece of work per call\<close>

definition world_ok :: "world \<Rightarrow> bool" where
  "world_ok w \<longleftrightarrow> diagnostics_ok (wd_diagnostics w) \<and>
     (case wd_policy w of None \<Rightarrow> True | Some po \<Rightarrow> policy_ok po)"

text \<open>
  \<open>emits m P\<close>: from a well-formed world, \<open>m\<close> keeps it well formed, appends the events \<open>es\<close> to the log
  and counts \<open>k\<close> fallbacks, in both places that count them, with \<open>P result es k\<close>.
\<close>

definition emits :: "'a act \<Rightarrow> ('a res \<Rightarrow> event list \<Rightarrow> nat \<Rightarrow> bool) \<Rightarrow> bool" where
  "emits m P \<longleftrightarrow> (\<forall>w r w'. m w = (r, w') \<longrightarrow> world_ok w \<longrightarrow> world_ok w' \<and>
     (\<exists>es k. wd_log w' = wd_log w @ es \<and> wd_fallback_calls w' = wd_fallback_calls w + k \<and>
        total (dg_fallbacks (wd_diagnostics w')) = total (dg_fallbacks (wd_diagnostics w)) + int k \<and> P r es k))"

lemma emitsI:
  assumes "\<And>w r w'. m w = (r, w') \<Longrightarrow> world_ok w \<Longrightarrow> world_ok w' \<and>
     (\<exists>es k. wd_log w' = wd_log w @ es \<and> wd_fallback_calls w' = wd_fallback_calls w + k \<and>
        total (dg_fallbacks (wd_diagnostics w')) = total (dg_fallbacks (wd_diagnostics w)) + int k \<and> P r es k)"
  shows "emits m P"
  using assms unfolding emits_def by blast

lemma emits_bind:
  assumes m: "emits m P" and f: "\<And>x. emits (f x) (Q x)"
    and err: "\<And>e es k. P (Inl e) es k \<Longrightarrow> R (Inl e) es k"
    and ok: "\<And>x r es k es' k'. P (Inr x) es k \<Longrightarrow> Q x r es' k' \<Longrightarrow> R r (es @ es') (k + k')"
  shows "emits (act_bind m f) R"
proof (rule emitsI, goal_cases)
  case (1 w r w')
  obtain r1 w1 where m1: "m w = (r1, w1)" by fastforce
  with m 1(2) obtain es k where w1: "world_ok w1" "wd_log w1 = wd_log w @ es"
    "wd_fallback_calls w1 = wd_fallback_calls w + k"
    "total (dg_fallbacks (wd_diagnostics w1)) = total (dg_fallbacks (wd_diagnostics w)) + int k" "P r1 es k"
    unfolding emits_def by blast
  show ?case
  proof (cases r1)
    case (Inl e)
    with 1 m1 have "r = Inl e" "w' = w1" by (auto simp: act_bind_def)
    with w1 Inl err show ?thesis by blast
  next
    case (Inr x)
    with 1 m1 have "f x w1 = (r, w')" by (auto simp: act_bind_def)
    with f [of x] w1(1) obtain es' k' where w2: "world_ok w'" "wd_log w' = wd_log w1 @ es'"
      "wd_fallback_calls w' = wd_fallback_calls w1 + k'"
      "total (dg_fallbacks (wd_diagnostics w')) = total (dg_fallbacks (wd_diagnostics w1)) + int k'" "Q x r es' k'"
      unfolding emits_def by blast
    show ?thesis using w1 w2 ok [OF w1(5) [unfolded Inr] w2(5)]
      by (intro conjI exI [of _ "es @ es'"] exI [of _ "k + k'"]) simp_all
  qed
qed

lemma emits_weaken: "emits m P \<Longrightarrow> (\<And>r es k. P r es k \<Longrightarrow> Q r es k) \<Longrightarrow> emits m Q"
  unfolding emits_def by blast

definition silent :: "'a res \<Rightarrow> event list \<Rightarrow> nat \<Rightarrow> bool" where
  "silent r es k \<longleftrightarrow> es = [] \<and> k = 0"

lemma emits_silentI:
  assumes "\<And>w r w'. m w = (r, w') \<Longrightarrow> world_ok w \<Longrightarrow> world_ok w' \<and> wd_log w' = wd_log w \<and>
     wd_fallback_calls w' = wd_fallback_calls w \<and>
     dg_fallbacks (wd_diagnostics w') = dg_fallbacks (wd_diagnostics w)"
  shows "emits m silent"
proof (rule emitsI, goal_cases)
  case (1 w r w')
  from assms [OF 1] show ?case by (intro conjI exI [of _ "[]"] exI [of _ 0]) (simp_all add: silent_def)
qed

lemma emits_lift: "emits (lift_res r) (\<lambda>r' es k. r' = r \<and> es = [] \<and> k = 0)"
  by (rule emitsI) (auto simp: lift_res_def)

lemma emits_log: "emits (log_event e) (\<lambda>r es k. r = Inr () \<and> es = [e] \<and> k = 0)"
  by (rule emitsI) (auto simp: log_event_def world_ok_def)

lemma emits_count: "emits (count_fallback reason) (\<lambda>r es k. r = Inr () \<and> es = [] \<and> k = 1)"
proof (rule emitsI, goal_cases)
  case (1 w r w')
  then have "diagnostics_ok (wd_diagnostics w)" by (simp add: world_ok_def)
  then have "total (dg_fallbacks (record_fallback reason (wd_diagnostics w))) = total (dg_fallbacks (wd_diagnostics w)) + 1"
    by (simp add: record_fallback_def diagnostics_ok_def total_bump)
  with 1 show ?case by (auto simp: count_fallback_def world_ok_def record_ok)
qed

lemma emits_diagnostics:
  assumes "\<And>d d'. diagnostics_ok d \<Longrightarrow> f d = Inr d' \<Longrightarrow> diagnostics_ok d' \<and> dg_fallbacks d' = dg_fallbacks d"
  shows "emits (on_diagnostics f) silent"
proof (rule emits_silentI, goal_cases)
  case (1 w r w')
  show ?case
  proof (cases "f (wd_diagnostics w)")
    case (Inr d)
    from 1(2) have "diagnostics_ok (wd_diagnostics w)" by (simp add: world_ok_def)
    from assms [OF this Inr] 1 Inr show ?thesis by (auto simp: on_diagnostics_def world_ok_def)
  qed (use 1 in \<open>auto simp: on_diagnostics_def\<close>)
qed

lemma increment_fallbacks: "increment name amount d = Inr d' \<Longrightarrow> dg_fallbacks d' = dg_fallbacks d"
  by (auto simp: increment_eq_Inr)

lemma emits_increment: "emits (on_diagnostics (increment name amount)) silent"
  by (rule emits_diagnostics) (auto dest: increment_ok increment_fallbacks)

lemma record_staging_fallbacks: "dg_fallbacks (record_staging rows d) = dg_fallbacks d"
  unfolding record_staging_def by (induction rows arbitrary: d) (simp_all add: record_staging_row_def)

lemma emits_staging: "emits (on_diagnostics (\<lambda>d. Inr (record_staging rows d))) silent"
  by (rule emits_diagnostics) (auto simp: record_staging_fallbacks record_staging_ok)

lemma record_dispatch_ok:
  "diagnostics_ok d \<Longrightarrow> record_dispatch rp d = Inr d' \<Longrightarrow> diagnostics_ok d' \<and> dg_fallbacks d' = dg_fallbacks d"
proof -
  assume ok: "diagnostics_ok d" and r: "record_dispatch rp d = Inr d'"
  then obtain d1 d2 name where d: "increment ''typed_executions'' 1 d = Inr d1"
    "increment ''typed_payload_bytes'' (case rp_payload rp of None \<Rightarrow> 0 | Some n \<Rightarrow> n) d1 = Inr d2"
    "d' = d2\<lparr>dg_dispatches := bump name (dg_dispatches d2)\<rparr>"
    unfolding record_dispatch_def res_bind_eq_Inr by auto
  from d(1) ok have "diagnostics_ok d1" by (blast dest: increment_ok)
  with d(2) have "diagnostics_ok d2" by (blast dest: increment_ok)
  then show ?thesis using d by (auto simp: diagnostics_ok_def bump_def dest!: increment_fallbacks)
qed

lemma emits_dispatch:
  "emits (on_diagnostics (\<lambda>d. case report of None \<Rightarrow> Inr d | Some rp \<Rightarrow> record_dispatch rp d)) silent"
  by (rule emits_diagnostics) (auto dest: record_dispatch_ok split: option.splits)

text \<open>
  The contract of a call: at most one piece of work; a counted fallback ran the original region, unless the scalar
  arguments of that region could not be evaluated, which ends the call with nothing run; a call that returns did
  exactly one piece of work and its result meets the promised metadata.
\<close>

definition one_piece ::
  "host \<Rightarrow> entry \<Rightarrow> live \<Rightarrow> concrete_descriptor option \<Rightarrow> live option res \<Rightarrow> event list \<Rightarrow> nat \<Rightarrow> bool" where
  "one_piece h en src promised r es k \<longleftrightarrow> length es \<le> 1 \<and> k \<le> 1 \<and>
     (k = 1 \<longrightarrow> es = [RanOriginal] \<or> es = [] \<and> (\<exists>vs e. scalar_arguments en vs = Inl e \<and> r = Inl e)) \<and>
     (\<forall>result. r = Inr result \<longrightarrow> length es = 1 \<and>
       (\<forall>d. promised = Some d \<longrightarrow> verify_result (ho_alias h) result src d = Inr result))"

lemma one_piece_Inl: "es = [] \<Longrightarrow> k = 0 \<Longrightarrow> one_piece h en src p (Inl e) es k"
  by (simp add: one_piece_def)

lemma verify_result_same: "verify_result alias result src d = Inr x \<Longrightarrow> x = result"
  by (auto simp: verify_result_def split: option.splits if_splits)

lemma emits_original:
  "emits (run_original h en src vs ps) (\<lambda>r es k. k = 0 \<and> (es = [RanOriginal] \<or> es = [] \<and> (\<exists>e. scalar_arguments en vs = Inl e \<and> r = Inl e)))"
  unfolding run_original_def
  by (rule emits_bind [OF emits_lift emits_bind [OF emits_log emits_lift,
        where R = "\<lambda>r es k. k = 0 \<and> es = [RanOriginal]"]]) auto

lemma emits_fallback: "emits (fallback h en src symbols reason promised ps) (one_piece h en src promised)"
proof -
  let ?verify = "\<lambda>result. case promised of None \<Rightarrow> Inr result | Some d \<Rightarrow> verify_result (ho_alias h) result src d"
  let ?R = "\<lambda>r es k. k = 0 \<and> (es = [RanOriginal] \<or> es = [] \<and> (\<exists>vs e. scalar_arguments en vs = Inl e \<and> r = Inl e)) \<and>
    (\<forall>result. r = Inr result \<longrightarrow> (\<forall>d. promised = Some d \<longrightarrow> verify_result (ho_alias h) result src d = Inr result))"
  have run: "emits (act_bind (run_original h en src vs ps) (\<lambda>result. lift_res (?verify result))) ?R" for vs
    by (rule emits_bind [OF emits_original emits_lift])
      (auto split: option.splits dest: verify_result_same)
  have counted: "emits (act_bind (count_fallback reason) (\<lambda>_.
      act_bind (run_original h en src vs ps) (\<lambda>result. lift_res (?verify result)))) (one_piece h en src promised)" for vs
    by (rule emits_bind [OF emits_count run]) (auto simp: one_piece_def)
  show ?thesis
    unfolding fallback_def Let_def
    by (rule emits_bind [OF emits_lift counted]) (auto simp: one_piece_def)
qed

lemma emits_wrap:
  "emits m P \<Longrightarrow> (\<And>e es k. P (Inl e) es k \<Longrightarrow> Q (Inl (ExecutionErr ''execution failed'')) es k) \<Longrightarrow>
     (\<And>x es k. P (Inr x) es k \<Longrightarrow> Q (Inr x) es k) \<Longrightarrow> emits (wrap_execution m) Q"
proof (rule emitsI, goal_cases)
  case (1 w r w')
  obtain r1 w1 where m1: "m w = (r1, w1)" by fastforce
  with 1(1,5) obtain es k where w1: "world_ok w1" "wd_log w1 = wd_log w @ es"
    "wd_fallback_calls w1 = wd_fallback_calls w + k"
    "total (dg_fallbacks (wd_diagnostics w1)) = total (dg_fallbacks (wd_diagnostics w)) + int k" "P r1 es k"
    unfolding emits_def by blast
  show ?case
  proof (cases r1)
    case (Inl e)
    with 1(4) m1 have "r = Inl (ExecutionErr ''execution failed'')" "w' = w1" by (auto simp: wrap_execution_def)
    with w1 1(2) Inl show ?thesis by blast
  next
    case (Inr x)
    with 1(4) m1 have "r = r1" "w' = w1" by (auto simp: wrap_execution_def)
    with w1 1(3) Inr show ?thesis by blast
  qed
qed

lemma emits_placed: "emits (run_placed h en src symbols ps promised path) (one_piece h en src (Some promised))"
proof -
  let ?S = "\<lambda>r es k. k = 0 \<and> (length es = 1 \<or> es = [] \<and> (\<exists>e. r = Inl e))"
  have native: "emits (act_bind (run_original h en src vs ps) (\<lambda>result.
      act_bind (lift_res (ho_synchronize h)) (\<lambda>_. lift_res (Inr result)))) ?S" for vs
    by (rule emits_bind [OF emits_original emits_bind [OF emits_lift emits_lift,
        where R = "\<lambda>r es k. k = 0 \<and> es = []"]]) auto
  have rep: "emits (act_bind (log_event (RanReplay path)) (\<lambda>_. lift_res (ho_replay h path))) ?S"
    by (rule emits_bind [OF emits_log emits_lift]) auto
  have work: "emits (if path = ''native'' then
         act_bind (run_original h en src (case symbols of None \<Rightarrow> [] | Some vs \<Rightarrow> vs) ps) (\<lambda>result.
         act_bind (lift_res (ho_synchronize h)) (\<lambda>_. lift_res (Inr result)))
       else act_bind (log_event (RanReplay path)) (\<lambda>_. lift_res (ho_replay h path))) ?S"
    using native rep by (split if_split) blast
  show ?thesis
    unfolding run_placed_def
    by (rule emits_wrap [OF emits_bind [OF work emits_lift, where R = "\<lambda>r es k. k = 0 \<and> one_piece h en src (Some promised) r es k"]])
      (auto simp: one_piece_def dest: verify_result_same)
qed

lemma emits_choose: "emits (choose_placement h en src) silent"
proof (rule emits_silentI, goal_cases)
  case (1 w r w')
  show ?case
  proof (cases "wd_policy w")
    case (Some po)
    then have po: "policy_ok po" using 1 by (simp add: world_ok_def)
    let ?c = "choose_path (ho_situation h) (cr_recipe (en_compiled en)) (lv_shape src) (lv_strides src) po"
    show ?thesis
    proof (cases ?c)
      case (Inr v)
      obtain dec po' where v: "v = (dec, po')" by (cases v)
      have "policy_ok po'"
      proof (cases dec)
        case None
        with Inr v choose_path_none_ok [OF po] show ?thesis by blast
      next
        case (Some d)
        obtain c k x where "d = (c, k, x)" by (cases d)
        with Some Inr v choose_path_ok [OF po] show ?thesis by blast
      qed
      with 1 Some Inr v show ?thesis by (auto simp: choose_placement_def world_ok_def)
    qed (use 1 Some in \<open>auto simp: choose_placement_def\<close>)
  qed (use 1 in \<open>auto simp: choose_placement_def\<close>)
qed

lemma emits_success: "emits (note_success h decision) silent"
  by (rule emits_silentI)
    (auto simp: note_success_def world_ok_def succeeded_ok split: option.splits)

lemma emits_launch: "emits (launch h src promised call) (one_piece h en src (Some promised))"
proof -
  let ?L = "\<lambda>r es k. k = 0 \<and> es = [Launched]"
  let ?V = "\<lambda>result r es k. k = 0 \<and> es = [] \<and> r = verify_result (ho_alias h) result src promised"
  have tail: "emits (act_bind (on_diagnostics (\<lambda>d. case report of None \<Rightarrow> Inr d | Some rp \<Rightarrow> record_dispatch rp d)) (\<lambda>_.
     act_bind (on_diagnostics (\<lambda>d. Inr (record_staging staging d))) (\<lambda>_.
       lift_res (verify_result (ho_alias h) result src promised))))
     (\<lambda>r es k. k = 0 \<and> es = [] \<and> (\<forall>x. r = Inr x \<longrightarrow> verify_result (ho_alias h) x src promised = Inr x))"
    for report staging result
    by (rule emits_bind [OF emits_dispatch emits_bind [OF emits_staging emits_lift,
        where R = "\<lambda>r es k. k = 0 \<and> es = [] \<and>
          (\<forall>x. r = Inr x \<longrightarrow> verify_result (ho_alias h) x src promised = Inr x)"]])
      (auto simp: silent_def dest: verify_result_same)
  have exec: "emits (wrap_execution (act_bind (log_event Launched) (\<lambda>_. lift_res (ho_execute h call)))) ?L" for call
    by (rule emits_wrap [OF emits_bind [OF emits_log emits_lift, where R = ?L]]) auto
  have run: "emits (act_bind (wrap_execution (act_bind (log_event Launched) (\<lambda>_. lift_res (ho_execute h call))))
     (\<lambda>(result, report, staging).
     act_bind (on_diagnostics (\<lambda>d. case report of None \<Rightarrow> Inr d | Some rp \<Rightarrow> record_dispatch rp d)) (\<lambda>_.
     act_bind (on_diagnostics (\<lambda>d. Inr (record_staging staging d))) (\<lambda>_.
       lift_res (verify_result (ho_alias h) result src promised))))) (one_piece h en src (Some promised))" for call
  proof (rule emits_bind [OF exec, where Q = "\<lambda>_ r es k. k = 0 \<and> es = [] \<and>
      (\<forall>x. r = Inr x \<longrightarrow> verify_result (ho_alias h) x src promised = Inr x)"], goal_cases)
    case (1 x)
    show ?case by (cases x) (use tail in simp)
  qed (auto simp: one_piece_def)
  show ?thesis
    unfolding launch_def
    by (rule emits_bind [OF emits_lift emits_bind [OF emits_lift emits_bind [OF emits_increment run,
        where R = "one_piece h en src (Some promised)"], where R = "one_piece h en src (Some promised)"]])
      (auto simp: one_piece_def silent_def)
qed

lemma emits_adapter_call: "emits (call_adapter h opts) silent"
proof -
  obtain binds r where h: "ho_preflight h opts = (binds, r)" by fastforce
  show ?thesis unfolding call_adapter_def h Let_def case_prod_conv
    by (rule emits_bind [OF emits_increment emits_lift]) (auto simp: silent_def)
qed

lemma emits_finish:
  "emits m (one_piece h en src p) \<Longrightarrow>
     emits (act_bind m (\<lambda>result. act_bind (note_success h decision) (\<lambda>_. lift_res (Inr result)))) (one_piece h en src p)"
proof (erule emits_bind)
  show "emits (act_bind (note_success h decision) (\<lambda>_. lift_res (Inr result)))
      (\<lambda>r es k. es = [] \<and> k = 0 \<and> (\<forall>x. r = Inr x \<longrightarrow> x = result))" for result :: "live option"
    by (rule emits_bind [OF emits_success emits_lift]) (auto simp: silent_def)
qed (auto simp: one_piece_def)

text \<open>Case analysis on a step whose error picks the continuation, as an \<open>except\<close> clause does.\<close>

lemma emits_handler:
  assumes m: "emits m silent" and err: "\<And>e. emits (g e) P" and ok: "\<And>x. emits (f x) P"
  shows "emits (\<lambda>w. case m w of (Inl e, w) \<Rightarrow> g e w | (Inr x, w) \<Rightarrow> f x w) P"
proof (rule emitsI, goal_cases)
  case (1 w r w')
  obtain r1 w1 where m1: "m w = (r1, w1)" by fastforce
  with m 1(2) have w1: "world_ok w1" "wd_log w1 = wd_log w" "wd_fallback_calls w1 = wd_fallback_calls w"
    "total (dg_fallbacks (wd_diagnostics w1)) = total (dg_fallbacks (wd_diagnostics w))"
    unfolding emits_def silent_def by fastforce+
  have "\<exists>n. emits n P \<and> n w1 = (r, w')"
    using 1(1) m1 err ok by (cases r1) auto
  then obtain n where "emits n P" "n w1 = (r, w')" by blast
  with w1 show ?case unfolding emits_def by metis
qed

lemma emits_error: "emits (lift_res (Inl e)) (one_piece h en src p)"
  by (rule emits_weaken [OF emits_lift]) (auto simp: one_piece_def)

lemma emits_adapter:
  "emits (adapter_branch h en src symbols names ps b destination promised decision) (one_piece h en src (Some promised))"
proof (cases "en_indexed en \<and> \<not> ho_transport h")
  case True
  then show ?thesis unfolding adapter_branch_def by (simp add: emits_fallback)
next
  case False
  define opts where "opts = \<lparr>op_non_blocking = False,
      op_implementation = (case decision of None \<Rightarrow> None | Some (path, _) \<Rightarrow> if \<not> cr_typed (en_compiled en) then None
        else Some (if path = ''sym_cpu'' then ''cpu_reference'' else gpu_implementation (cr_recipe (en_compiled en)))),
      op_index = (if en_indexed en then Some (hd ps) else None),
      op_parameters = (if \<not> en_indexed en \<and> cr_typed (en_compiled en) then Some (zip names ps) else None)\<rparr>"
  let ?g = "\<lambda>e. case e of UnsupportedRecipe reason detail \<Rightarrow> (case decision of
        Some (path, _) \<Rightarrow> lift_res (Inl (UnsupportedRecipe ''placement_unavailable'' (msg [path, '': '', detail])))
      | None \<Rightarrow> fallback h en src symbols reason (Some promised) ps) | _ \<Rightarrow> lift_res (Inl e)"
  let ?f = "\<lambda>call. if \<not> same_dict (pc_bindings call) b \<or> cd_shape (pc_destination call) \<noteq> cd_shape destination
      then lift_res (Inl (RuntimeErr ''runtime adapter disagreed with the frontend binding''))
      else act_bind (launch h src promised call) (\<lambda>result.
        act_bind (note_success h decision) (\<lambda>_. lift_res (Inr result)))"
  have branch: "adapter_branch h en src symbols names ps b destination promised decision =
      (\<lambda>w. case call_adapter h opts w of (Inl e, w) \<Rightarrow> ?g e w | (Inr x, w) \<Rightarrow> ?f x w)"
    using False unfolding adapter_branch_def opts_def
    by (auto simp: Let_def lift_res_def fun_eq_iff split: prod.splits sum.splits exn.splits option.splits)
  have g: "emits (?g e) (one_piece h en src (Some promised))" for e
    by (auto intro: emits_error emits_fallback split: exn.splits option.splits)
  have f: "emits (?f x) (one_piece h en src (Some promised))" for x
    by (simp add: emits_error emits_finish [OF emits_launch])
  show ?thesis unfolding branch by (rule emits_handler [OF emits_adapter_call g f])
qed

lemma one_piece_promise:
  "one_piece h en src (Some (case declared of None \<Rightarrow> d | Some d' \<Rightarrow> d')) r es k \<Longrightarrow> one_piece h en src declared r es k"
  by (auto simp: one_piece_def)

lemma emits_after_binding: "emits (after_binding h en src symbols declared ps b d) (one_piece h en src declared)"
proof -
  define promised where "promised = (case declared of None \<Rightarrow> d | Some d' \<Rightarrow> d')"
  let ?P = "one_piece h en src (Some promised)"
  have dec: "emits (case decision of
          Some (path, key, chosen) \<Rightarrow>
            if path \<in> {''native'', ''torch_cpu'', ''torch_gpu''}
            then act_bind (run_placed h en src symbols ps promised path) (\<lambda>result.
                 act_bind (note_success h decision) (\<lambda>_. lift_res (Inr result)))
            else adapter_branch h en src symbols (parameter_names en) ps b d promised decision
        | None \<Rightarrow> adapter_branch h en src symbols (parameter_names en) ps b d promised None) ?P" for decision
    using emits_finish [OF emits_placed] emits_adapter
    by (cases decision) (auto simp only: option.case split: prod.splits if_split)
  have body: "emits (if differ then fallback h en src symbols ''symbol_mismatch'' (Some promised) ps
      else if declared \<noteq> None \<and> (cd_shape promised \<noteq> cd_shape d \<or> cd_strides promised \<noteq> cd_strides d)
      then lift_res (Inl (RuntimeErr ''declared output metadata does not match the compiled descriptor''))
      else act_bind (choose_placement h en src) (\<lambda>decision. case decision of
          Some (path, key, chosen) \<Rightarrow>
            if path \<in> {''native'', ''torch_cpu'', ''torch_gpu''}
            then act_bind (run_placed h en src symbols ps promised path) (\<lambda>result.
                 act_bind (note_success h decision) (\<lambda>_. lift_res (Inr result)))
            else adapter_branch h en src symbols (parameter_names en) ps b d promised decision
        | None \<Rightarrow> adapter_branch h en src symbols (parameter_names en) ps b d promised None)) ?P" for differ
    using emits_fallback emits_error
      emits_bind [OF emits_choose dec, where R = ?P] by (auto simp: silent_def one_piece_def)
  have "emits (after_binding h en src symbols declared ps b d) ?P"
    unfolding after_binding_def Let_def promised_def [symmetric]
    by (rule emits_bind [OF emits_lift body]) (auto simp: one_piece_def)
  then show ?thesis by (rule emits_weaken) (simp only: promised_def one_piece_promise)
qed

lemma execute_once:
  "emits (execute_or_fallback h shared en src symbols d nb declared ps) (one_piece h en src declared)"
  unfolding execute_or_fallback_def
  by (auto intro: emits_error emits_fallback emits_after_binding split: option.splits sum.splits)

lemma refused_entry_idle:
  "entry_closed en \<or> length ps \<noteq> length (parameter_names en) \<Longrightarrow>
     \<exists>e. execute_or_fallback h shared en src symbols d nb declared ps w = (Inl e, w)"
  by (auto simp: execute_or_fallback_def lift_res_def)

text \<open>An excluded source, and a non-blocking request, reach nothing but the original region.\<close>

lemma excluded_never_launches:
  assumes "nb \<or> source_reason (ho_grad h) src \<noteq> None" and "world_ok w"
    and run: "execute_or_fallback h shared en src symbols d nb declared ps w = (r, w')"
  shows "\<exists>es. wd_log w' = wd_log w @ es \<and> set es \<subseteq> {RanOriginal} \<and>
    dg_counters (wd_diagnostics w') = dg_counters (wd_diagnostics w)"
proof (cases "entry_closed en \<or> length ps \<noteq> length (parameter_names en)")
  case True
  from refused_entry_idle [OF this] run have "w' = w" by (metis prod.inject)
  then show ?thesis by simp
next
  case False
  with assms(1) run obtain reason where fb: "fallback h en src symbols reason declared ps w = (r, w')"
    by (auto simp: execute_or_fallback_def split: if_splits option.splits)
  then have "wd_log w' = wd_log w \<or> wd_log w' = wd_log w @ [RanOriginal]"
    and "dg_counters (wd_diagnostics w') = dg_counters (wd_diagnostics w)"
    by (auto simp: fallback_def act_bind_def lift_res_def count_fallback_def run_original_def
        log_event_def record_fallback_def split: sum.splits option.splits prod.splits if_splits)
  then show ?thesis by fastforce
qed

lemma verify_result_iff:
  "verify_result alias (Some t) src d = Inr (Some t) \<longleftrightarrow>
     \<not> alias t src \<and> lv_shape t = cd_shape d \<and> lv_dtype t = cd_dtype d \<and> lv_offset t = 0 \<and>
     (\<forall>(size, stride, promised) \<in> set (zip (lv_shape t) (zip (lv_strides t) (cd_strides d))). size = 1 \<or> stride = promised) \<and>
     dv_type (lv_device t) = dv_type (cd_device d) \<and>
     (dv_index (cd_device d) = None \<or> dv_index (lv_device t) = dv_index (cd_device d))"
  by (auto simp: verify_result_def)

text \<open>Metadata equal up to the snapshot binds equally: the admission record may be reused.\<close>

lemma snapshot_view:
  assumes "storage_snapshot t = storage_snapshot u" and "lv_item_bytes t = lv_item_bytes u" "lv_item_bytes t \<noteq> 0"
  shows "tensor_view t = tensor_view u"
  using assms by (auto simp: storage_snapshot_def storage_span_def tensor_view_def)

lemma bind_symbols_shared:
  assumes bound: "bind_values a (tensor_view src0) None = Inr b"
    and item: "lv_item_bytes src = lv_item_bytes src0" "lv_item_bytes src \<noteq> 0"
  shows "bind_symbols (Some (record_validated grad cid src0 b d)) cid a src = bind_symbols None cid a src"
proof (cases "lv_id src0 = lv_id src \<and> storage_snapshot src0 = storage_snapshot src")
  case True
  with item have "tensor_view src0 = tensor_view src" by (intro snapshot_view) auto
  with bound True show ?thesis by (simp add: bind_symbols_def record_validated_def reason_of_def Let_def)
qed (auto simp: bind_symbols_def record_validated_def Let_def)

lemma derived_symbols_values:
  "derived_symbols sources shape names = Some vs \<Longrightarrow> length vs = length names \<and>
     (\<forall>i<length names. \<exists>s\<in>set sources. ss_name s = names ! i \<and> ss_axis s < int (length shape) \<and>
        vs ! i = shape ! nat (ss_axis s))"
proof (induction sources shape names arbitrary: vs rule: derived_symbols.induct)
  case (2 sources shape name names)
  from 2(2) obtain s rest where s: "find (\<lambda>s. ss_name s = name) sources = Some s"
    "ss_axis s < int (length shape)" "derived_symbols sources shape names = Some rest"
    "vs = shape ! nat (ss_axis s) # rest"
    by (auto split: option.splits if_splits)
  from s(1) have "s \<in> set sources" "ss_name s = name" by (auto simp: find_Some_iff)
  with 2(1) [OF s(1) _ s(3)] s show ?case by (auto simp: nth_Cons split: nat.splits)
qed simp

end
