(* ===== verification/Single_Use.thy ===== *)
theory Single_Use
  imports Prelude
begin

text \<open>
  The contract of a single-use request: a body run under the request's lock reports how many times it
  launched work.  Clients are the layout transfers, the typed transfers and the grouped transfers; the
  lemmas hold for any order in which threads take and leave the lock.
\<close>

text \<open>What a thread does with a request: wait, hold the lock, or have finished.\<close>

datatype ('e, 'r) caller = Waiting 'e | Holding 'e | Finished "'r option"

type_synonym ('e, 'q, 'r) body = "'e \<Rightarrow> 'q \<Rightarrow> ('r \<times> 'q) \<times> nat"

fun runs :: "('e, 'q, 'r) body \<Rightarrow> 'e list \<Rightarrow> 'q \<Rightarrow> 'r list \<times> 'q \<times> nat" where
  "runs body [] q = ([], q, 0)"
| "runs body (e # es) q = (let ((r, q), n) = body e q; (rs, q, m) = runs body es q in (r # rs, q, n + m))"

text \<open>Threads of one request: the lock is taken without blocking, and a second taker fails at once.\<close>

type_synonym ('e, 'q, 'r) race_state = "('e, 'r) caller list \<times> bool \<times> 'q \<times> nat"

inductive race :: "('e, 'q, 'r) body \<Rightarrow> ('e, 'q, 'r) race_state \<Rightarrow> ('e, 'q, 'r) race_state \<Rightarrow> bool"
  for body :: "('e, 'q, 'r) body" where
  take_lock: "i < length ts \<Longrightarrow> ts ! i = Waiting e \<Longrightarrow>
     race body (ts, False, q, n) (ts[i := Holding e], True, q, n)"
| refused: "i < length ts \<Longrightarrow> ts ! i = Waiting e \<Longrightarrow>
     race body (ts, True, q, n) (ts[i := Finished None], True, q, n)"
| leave: "i < length ts \<Longrightarrow> ts ! i = Holding e \<Longrightarrow> body e q = ((r, q'), m) \<Longrightarrow>
     race body (ts, True, q, n) (ts[i := Finished (Some r)], False, q', n + m)"

definition holders :: "('e, 'r) caller list \<Rightarrow> nat" where
  "holders ts = length (filter (\<lambda>t. case t of Holding _ \<Rightarrow> True | _ \<Rightarrow> False) ts)"

locale single_use =
  fixes body :: "('e, 'q, 'r) body"
    and consumed :: "'q \<Rightarrow> bool"
  assumes launch_consumes: "body e q = ((r, q'), n) \<Longrightarrow> 0 < n \<Longrightarrow> \<not> consumed q \<and> consumed q' \<and> n = 1"
    and stays_consumed: "body e q = ((r, q'), n) \<Longrightarrow> consumed q \<Longrightarrow> consumed q'"
begin

lemma runs_consumed: "consumed q \<Longrightarrow> snd (snd (runs body es q)) = 0"
proof (induction es arbitrary: q)
  case (Cons e es)
  obtain r q' n where b: "body e q = ((r, q'), n)" by (metis prod.exhaust)
  have "n = 0" using launch_consumes [OF b] Cons.prems by blast
  moreover have "consumed q'" using stays_consumed [OF b Cons.prems] .
  ultimately show ?case using Cons.IH [of q'] b by (simp add: split_beta)
qed simp

lemma runs_launch_once: "snd (snd (runs body es q)) \<le> 1"
proof (induction es arbitrary: q)
  case (Cons e es)
  obtain r q' n where b: "body e q = ((r, q'), n)" by (metis prod.exhaust)
  show ?case
  proof (cases "n = 0")
    case True
    with Cons.IH [of q'] b show ?thesis by (simp add: split_beta)
  next
    case False
    then have "consumed q'" "n = 1" using launch_consumes [OF b] by auto
    with runs_consumed [of q' es] b show ?thesis by (simp add: split_beta)
  qed
qed simp

lemma race_step:
  "race body s s' \<Longrightarrow> (case s of (ts, locked, q, n) \<Rightarrow> n \<le> 1 \<and> (n = 1 \<longrightarrow> consumed q)) \<Longrightarrow>
     (case s' of (ts, locked, q, n) \<Rightarrow> n \<le> 1 \<and> (n = 1 \<longrightarrow> consumed q))"
proof (induction rule: race.induct)
  case (leave i ts e q r q' m n)
  show ?case
  proof (cases "m = 0")
    case True
    with leave stays_consumed [OF leave(3)] show ?thesis by auto
  next
    case False
    with launch_consumes [OF leave(3)] leave(4) show ?thesis by auto
  qed
qed auto

lemma race_launches_once:
  assumes "(race body)\<^sup>*\<^sup>* (ts, False, q, 0) (ts', locked, q', n)"
  shows "n \<le> 1 \<and> (n = 1 \<longrightarrow> consumed q')"
proof -
  have "case (ts', locked, q', n) of (ts, locked, q, n) \<Rightarrow> n \<le> 1 \<and> (n = 1 \<longrightarrow> consumed q)"
    using assms by (induction rule: rtranclp_induct) (simp, erule (1) race_step)
  then show ?thesis by simp
qed

end

text \<open>Whatever the body, the lock admits one holder at a time.\<close>

lemma holders_update:
  "i < length ts \<Longrightarrow> holders (ts[i := t]) + holders [ts ! i] = holders ts + holders [t]"
proof (induction ts arbitrary: i)
  case (Cons u ts)
  show ?case
  proof (cases i)
    case 0
    then show ?thesis by (simp add: holders_def)
  next
    case (Suc j)
    with Cons.prems have "holders (ts[j := t]) + holders [ts ! j] = holders ts + holders [t]"
      by (intro Cons.IH) simp
    with Suc show ?thesis by (simp add: holders_def)
  qed
qed simp

lemma race_one_holder:
  assumes "race body s s'" and "case s of (ts, locked, _) \<Rightarrow> holders ts = of_bool locked"
  shows "case s' of (ts, locked, _) \<Rightarrow> holders ts = of_bool locked"
  using assms
proof (induction rule: race.induct)
  case (take_lock i ts e q n)
  from holders_update [OF take_lock(1), of "Holding e"] take_lock show ?case by (simp add: holders_def)
next
  case (refused i ts e q n)
  from holders_update [OF refused(1), of "Finished None"] refused show ?case by (simp add: holders_def)
next
  case (leave i ts e q r q' m n)
  from holders_update [OF leave(1), of "Finished (Some r)"] leave show ?case by (simp add: holders_def)
qed

end
