(* ===== verification/Transport.thy ===== *)
theory Transport
  imports Runtime Templates Single_Use
begin

text \<open>
  \<open>reloc_torch/transport.py\<close> and \<open>reloc_torch/resources.py\<close>: preparation and execution of a layout
  transfer, the validation of transfer options, and the ownership of transfer resources.  The native
  library and CUDA are outcome arguments; a native error is the text of its exception.
\<close>

section \<open>Storage views\<close>

record buffer_view =
  bv_base :: int
  bv_capacity :: int
  bv_offset :: int
  bv_extents :: "int list"
  bv_strides :: "int list"
  bv_element_size :: int
  bv_kind :: string
  bv_device :: int

definition storage_view :: "live \<Rightarrow> string \<Rightarrow> int \<Rightarrow> buffer_view" where
  "storage_view t kind dev = (let (base, capacity, off) = storage_span t in
     \<lparr>bv_base = base, bv_capacity = capacity, bv_offset = off, bv_extents = lv_shape t,
      bv_strides = lv_strides t, bv_element_size = lv_item_bytes t, bv_kind = kind, bv_device = dev\<rparr>)"

definition is_space :: "char \<Rightarrow> bool" where
  "is_space c \<longleftrightarrow> c \<in> {CHR '' '', CHR 0x09, CHR 0x0A, CHR 0x0B, CHR 0x0C, CHR 0x0D}"

definition strip :: "string \<Rightarrow> string" where
  "strip s = rev (dropWhile is_space (rev (dropWhile is_space s)))"

text \<open>\<open>_code\<close>: the text before the first colon names the native error.\<close>

definition error_code :: "string \<Rightarrow> string" where
  "error_code text = (let c = strip (takeWhile (\<lambda>c. c \<noteq> CHR '':'') text) in if c = [] then ''invalid_view'' else c)"

text \<open>\<open>_DIRECTIONS\<close>: the device types a direction moves between.\<close>

definition direction_devices :: "string \<Rightarrow> (string \<times> string) option" where
  "direction_devices direction = (if direction = ''h2d'' then Some (''cpu'', ''cuda'')
     else if direction = ''d2h'' then Some (''cuda'', ''cpu'') else None)"

section \<open>The bound plan of a layout recipe\<close>

text \<open>
  \<open>CompiledRecipe.bind_layout\<close> through the recipe's template cache; \<open>native_bind\<close> is the standalone
  binder.  Its rejection becomes a reason in \<open>runtime.bind_plan\<close>.
\<close>

definition bind_layout ::
  "int \<Rightarrow> (bindings \<Rightarrow> string + nat) \<Rightarrow> bindings \<Rightarrow> (bindings, nat) templates \<Rightarrow> nat res \<times> (bindings, nat) templates" where
  "bind_layout pid native_bind b cache =
     (let key = sort_key fst b; (found, cache) = tc_get pid key 0 cache in
      case found of
        Some bound \<Rightarrow> (Inr bound, cache)
      | None \<Rightarrow> (case native_bind key of
          Inl text \<Rightarrow> (Inl (UnsupportedRecipe ''bind_error'' text), cache)
        | Inr bound \<Rightarrow> (case tc_put pid key bound 0 cache of
            Inl e \<Rightarrow> (Inl e, cache) | Inr (bound, cache) \<Rightarrow> (Inr bound, cache))))"

lemma bind_layout_memo:
  assumes ok: "templates_ok cache" and memo: "memo_ok (\<lambda>k v. native_bind k = Inr v) cache"
    and run: "bind_layout pid native_bind b cache = (r, cache')"
  shows "r = (case native_bind (sort_key fst b) of Inl t \<Rightarrow> Inl (UnsupportedRecipe ''bind_error'' t) | Inr v \<Rightarrow> Inr v)"
    and "templates_ok cache'" and "memo_ok (\<lambda>k v. native_bind k = Inr v) cache'"
proof -
  let ?k = "sort_key fst b"
  obtain found c1 where g: "tc_get pid ?k 0 cache = (found, c1)" by fastforce
  note m = memo_get [OF memo g] and t = get_ok [OF ok g]
  have "r = (case native_bind ?k of Inl t \<Rightarrow> Inl (UnsupportedRecipe ''bind_error'' t) | Inr v \<Rightarrow> Inr v) \<and>
    templates_ok cache' \<and> memo_ok (\<lambda>k v. native_bind k = Inr v) cache'"
  proof (cases found)
    case (Some v)
    with m t run g show ?thesis by (auto simp: bind_layout_def Let_def)
  next
    case None
    show ?thesis
    proof (cases "native_bind ?k")
      case (Inl e)
      with None m t run g show ?thesis by (auto simp: bind_layout_def Let_def)
    next
      case (Inr v)
      obtain w c2 where p: "tc_put pid ?k v 0 c1 = Inr (w, c2)" "templates_ok c2"
        by (rule put_ok [OF t, of 0 pid ?k v]) simp_all
      from memo_put [OF m(1) Inr p(1)] Inr have "w = v" "memo_ok (\<lambda>k v. native_bind k = Inr v) c2" by auto
      with None Inr p run g show ?thesis by (auto simp: bind_layout_def Let_def)
    qed
  qed
  then show "r = (case native_bind ?k of Inl t \<Rightarrow> Inl (UnsupportedRecipe ''bind_error'' t) | Inr v \<Rightarrow> Inr v)"
    "templates_ok cache'" "memo_ok (\<lambda>k v. native_bind k = Inr v) cache'" by auto
qed

section \<open>Preparation\<close>

text \<open>What the native library and CUDA answer while a call prepares.\<close>

record platform =
  pl_cuda_built :: bool
  pl_cuda_available :: bool
  pl_current_device :: int
  pl_pointer_device :: "string + int"

record prepared_transfer =
  pt_bindings :: bindings
  pt_bound :: nat
  pt_destination :: concrete_descriptor
  pt_direction :: string
  pt_device :: device
  pt_view :: buffer_view
  pt_span :: int
  pt_request :: "nat option"
  pt_consumed :: bool
  pt_staging :: "staging_row list"
  pt_snapshot :: snapshot

definition native_result :: "(string \<Rightarrow> exn) \<Rightarrow> string + 'a \<Rightarrow> 'a res" where
  "native_result h r = (case r of Inl text \<Rightarrow> Inl (h text) | Inr x \<Rightarrow> Inr x)"

text \<open>The target device and the source view, for each direction.\<close>

definition transfer_target :: "platform \<Rightarrow> string \<Rightarrow> live \<Rightarrow> device \<Rightarrow> (device \<times> buffer_view) res" where
  "transfer_target pl direction src d =
     (if direction = ''h2d'' then
        if \<not> pl_cuda_built pl \<or> \<not> pl_cuda_available pl
        then Inl (UnsupportedRecipe ''cuda_unavailable'' ''no CUDA-capable runtime'')
        else (let index = (case dv_index d of Some i \<Rightarrow> i | None \<Rightarrow> pl_current_device pl)
          in Inr (\<lparr>dv_type = ''cuda'', dv_index = Some index\<rparr>, storage_view src ''host'' (- 1)))
      else if \<not> pl_cuda_built pl
      then Inl (UnsupportedRecipe ''cuda_unavailable'' ''pyreloc built without CUDA'')
      else res_bind (native_result (\<lambda>t. UnsupportedRecipe ''device_mismatch'' t) (pl_pointer_device pl)) (\<lambda>owner.
        if Some owner \<noteq> dv_index (lv_device src)
        then Inl (UnsupportedRecipe ''device_mismatch'' ''source storage belongs to another device'')
        else Inr (\<lparr>dv_type = ''cpu'', dv_index = None\<rparr>, storage_view src ''cuda'' owner)))"

text \<open>Admission of the source, unless the frontend admitted this very invocation.\<close>

definition admitted_source ::
  "bool \<Rightarrow> validated_binding option \<Rightarrow> nat \<Rightarrow> live \<Rightarrow> (bindings \<times> concrete_descriptor) option res" where
  "admitted_source grad shared cid src = (case validated_preparation shared grad cid src of
     Some p \<Rightarrow> Inr (Some p)
   | None \<Rightarrow> (case source_reason grad src of
       Some r \<Rightarrow> Inl (UnsupportedRecipe r (msg [''source tensor rejected: '', r])) | None \<Rightarrow> Inr None))"

definition check_direction :: "string \<Rightarrow> live \<Rightarrow> device \<Rightarrow> unit res" where
  "check_direction direction src d =
     ensure (direction_devices direction = Some (dv_type (lv_device src), dv_type d))
       (UnsupportedRecipe ''direction_mismatch'' (msg [direction, '' recipe cannot move this source'']))"

definition prepare_transfer ::
  "platform \<Rightarrow> bool \<Rightarrow> validated_binding option \<Rightarrow> nat \<Rightarrow> compiled_recipe \<Rightarrow> live \<Rightarrow> device \<Rightarrow> bool \<Rightarrow>
     (bindings \<Rightarrow> nat res) \<Rightarrow> (nat \<Rightarrow> buffer_view \<Rightarrow> string \<Rightarrow> string + int) \<Rightarrow> diagnostics option \<Rightarrow>
     prepared_transfer res \<times> diagnostics option" where
  "prepare_transfer pl grad shared cid a src d non_blocking layout validate dg =
     (if non_blocking then (Inl (UnsupportedRecipe ''nonblocking_unavailable'' ''blocking transfers only''), dg)
      else
        let direction = r_direction (cr_recipe a) in
        case res_bind (admitted_source grad shared cid src) (\<lambda>admitted.
             res_bind (check_direction direction src d) (\<lambda>_.
             res_bind (case admitted of Some (b, _) \<Rightarrow> Inr b | None \<Rightarrow> bind_symbols shared cid a src) (\<lambda>b.
               Inr (admitted, b)))) of
          Inl e \<Rightarrow> (Inl e, dg)
        | Inr (admitted, b) \<Rightarrow> (case bind_plan (layout b) dg of
            (Inl e, dg) \<Rightarrow> (Inl e, dg)
          | (Inr bound, dg) \<Rightarrow>
             (res_bind (transfer_target pl direction src d) (\<lambda>(target, view).
              res_bind (prepared_destination a b target admitted) (\<lambda>cd.
              res_bind (native_result (\<lambda>t. UnsupportedRecipe (error_code t) t) (validate bound view direction)) (\<lambda>span.
                Inr \<lparr>pt_bindings = b, pt_bound = bound, pt_destination = cd, pt_direction = direction,
                  pt_device = target, pt_view = view, pt_span = span, pt_request = None, pt_consumed = False,
                  pt_staging = [], pt_snapshot = storage_snapshot src\<rparr>))), dg)))"

section \<open>Execution\<close>

text \<open>What execution meets: the source as it now is, the allocation, the native request and its run.\<close>

record execution =
  ex_source :: live
  ex_allocated :: "live res"
  ex_made :: "string + nat"
  ex_stream :: "unit res"
  ex_ran :: "string + unit"
  ex_staging :: "staging_row list"

definition recheck_transfer :: "prepared_transfer \<Rightarrow> live \<Rightarrow> unit res" where
  "recheck_transfer q src = ensure (storage_snapshot src = pt_snapshot q)
     (RuntimeErr ''stale transfer request: source storage or metadata changed after preflight'')"

text \<open>
  The part of \<open>execute_transfer\<close> under the request's lock; the count is of native launches.  The
  caller's stream is read between consumption and the launch, inside the \<open>finally\<close> that records staging.
\<close>

definition transfer_body :: "(execution, prepared_transfer, live res) body" where
  "transfer_body x q =
     (if pt_consumed q then ((Inl (RuntimeErr ''transfer request was already executed''), q), 0)
      else case res_bind (recheck_transfer q (ex_source x)) (\<lambda>_.
           res_bind (ex_allocated x) (\<lambda>out.
           res_bind (native_result (\<lambda>t. RuntimeErr (msg [''transfer request rejected at execution: '', t])) (ex_made x)) (\<lambda>native.
             Inr (out, native)))) of
        Inl e \<Rightarrow> ((Inl e, q), 0)
      | Inr (out, native) \<Rightarrow>
         (let q = q\<lparr>pt_request := Some native, pt_consumed := True, pt_staging := ex_staging x\<rparr> in
          case ex_stream x of
            Inl e \<Rightarrow> ((Inl e, q), 0)
          | Inr _ \<Rightarrow> ((res_bind (native_result (\<lambda>t. RuntimeErr (msg [pt_direction q, '' transfer failed: '', t])) (ex_ran x))
               (\<lambda>_. Inr out), q), 1)))"

section \<open>Execution launches at most once\<close>

interpretation layout_transfer: single_use transfer_body pt_consumed
proof
  fix e :: execution and q r q' n
  assume b: "transfer_body e q = ((r, q'), n)"
  show "0 < n \<Longrightarrow> \<not> pt_consumed q \<and> pt_consumed q' \<and> n = 1"
    using b by (auto simp: transfer_body_def Let_def split: if_splits sum.splits)
  show "pt_consumed q \<Longrightarrow> pt_consumed q'" using b by (simp add: transfer_body_def)
qed

lemma transfer_stale:
  "\<not> pt_consumed q \<Longrightarrow> storage_snapshot (ex_source x) \<noteq> pt_snapshot q \<Longrightarrow>
     \<exists>m. transfer_body x q = ((Inl (RuntimeErr m), q), 0)"
  by (simp add: transfer_body_def recheck_transfer_def)

text \<open>A call that launched nothing and did not reach the native request leaves the request as it was.\<close>

lemma transfer_reusable:
  "transfer_body x q = ((r, q'), n) \<Longrightarrow> \<not> pt_consumed q' \<Longrightarrow> q' = q \<and> n = 0 \<and> (\<exists>e. r = Inl e)"
  by (auto simp: transfer_body_def Let_def split: if_splits sum.splits)

lemma transfer_returns:
  "transfer_body x q = ((Inr out, q'), n) \<Longrightarrow>
     n = 1 \<and> \<not> pt_consumed q \<and> pt_consumed q' \<and> ex_allocated x = Inr out \<and> ex_ran x = Inr () \<and>
     storage_snapshot (ex_source x) = pt_snapshot q"
  by (auto simp: transfer_body_def recheck_transfer_def native_result_def Let_def split: if_splits sum.splits)

section \<open>Reusing the frontend's admission\<close>

text \<open>
  A record that applies to this invocation holds what a full admission would find.
\<close>

definition shared_ok ::
  "bool \<Rightarrow> nat \<Rightarrow> compiled_recipe \<Rightarrow> live \<Rightarrow> validated_binding option \<Rightarrow> bool" where
  "shared_ok grad cid a src shared \<longleftrightarrow> (\<forall>v. shared = Some v \<longrightarrow> vb_compiled v = cid \<longrightarrow> vb_source v = lv_id src \<longrightarrow>
     vb_snapshot v = storage_snapshot src \<longrightarrow>
     bind_values a (tensor_view src) None = Inr (vb_bindings v) \<and>
     (vb_grad v = (lv_requires_grad src, grad) \<longrightarrow> source_reason grad src = None) \<and>
     (\<forall>d. vb_destination v = Some d \<longrightarrow> destination_descriptor a (vb_bindings v) (cd_device d) = Inr d))"

lemma shared_ok_bind: "shared_ok grad cid a src shared \<Longrightarrow> bind_symbols shared cid a src = bind_symbols None cid a src"
  by (auto simp: shared_ok_def bind_symbols_def reason_of_def Let_def split: option.splits)

lemma destination_device:
  "destination_descriptor a b d = Inr cd \<Longrightarrow> destination_descriptor a b d' = Inr (cd\<lparr>cd_device := d'\<rparr>)"
  by (auto simp: destination_descriptor_def)

lemma shared_ok_admitted:
  assumes ok: "shared_ok grad cid a src shared" and v: "validated_preparation shared grad cid src = Some (b, d)"
  shows "source_reason grad src = None \<and> bind_symbols None cid a src = Inr b \<and>
    prepared_destination a b target (Some (b, d)) = prepared_destination a b target None"
proof -
  from v obtain r where r: "shared = Some r" "vb_compiled r = cid" "vb_source r = lv_id src"
    "vb_snapshot r = storage_snapshot src" "vb_grad r = (lv_requires_grad src, grad)"
    "vb_destination r = Some d" "vb_bindings r = b"
    by (auto simp: validated_preparation_def split: option.splits if_splits)
  with ok have s: "bind_values a (tensor_view src) None = Inr b" "source_reason grad src = None"
    "destination_descriptor a b (cd_device d) = Inr d" by (auto simp: shared_ok_def)
  from destination_device [OF s(3), of target] s show ?thesis
    by (auto simp: bind_symbols_def reason_of_def prepared_destination_def)
qed

lemma prepare_transfer_shared:
  assumes ok: "shared_ok grad cid a src shared"
  shows "prepare_transfer pl grad shared cid a src d nb layout validate dg =
    prepare_transfer pl grad None cid a src d nb layout validate dg"
proof (cases "validated_preparation shared grad cid src")
  case None
  then have adm: "admitted_source grad shared cid src = admitted_source grad None cid src"
    by (simp add: admitted_source_def validated_preparation_def)
  show ?thesis unfolding prepare_transfer_def adm shared_ok_bind [OF ok] by (rule refl)
next
  case (Some p)
  obtain b cd where p: "p = (b, cd)" by (cases p)
  note s = shared_ok_admitted [OF ok Some [unfolded p]]
  have adm: "admitted_source grad shared cid src = Inr (Some (b, cd))"
    "admitted_source grad None cid src = Inr None"
    using Some p s by (simp_all add: admitted_source_def validated_preparation_def)
  have dest: "prepared_destination a b target (Some (b, cd)) = prepared_destination a b target None" for target
    using s by blast
  show ?thesis unfolding prepare_transfer_def adm
    by (cases "check_direction (r_direction (cr_recipe a)) src d") (simp_all add: s dest Let_def cong del: prod.case_cong_weak sum.case_cong_weak if_weak_cong)
qed

text \<open>What the boundary records for the adapter is such a record.\<close>

lemma record_validated_ok:
  assumes "source_reason grad src = None" and "bind_values a (tensor_view src) None = Inr b"
    and "destination_descriptor a b d = Inr cd"
  shows "shared_ok grad cid a src (Some (record_validated grad cid src b (Some cd)))"
proof -
  from assms(3) have "cd_device cd = d" by (auto simp: destination_descriptor_def)
  with assms show ?thesis by (auto simp: shared_ok_def record_validated_def)
qed

lemma transfer_target_device:
  "transfer_target pl direction src d = Inr (target, view) \<Longrightarrow>
     direction_devices direction = Some (from_type, to_type) \<Longrightarrow> dv_type target = to_type"
  by (auto simp: transfer_target_def direction_devices_def Let_def split: if_splits)

text \<open>A prepared transfer: admitted source, matching direction, exact bindings, and nothing launched yet.\<close>

lemma prepare_transfer_parts:
  assumes "prepare_transfer pl grad None cid a src d nb layout validate dg = (Inr q, dg')"
  shows "source_reason grad src = None" and "\<not> nb"
    and "direction_devices (r_direction (cr_recipe a)) = Some (dv_type (lv_device src), dv_type d)"
    and "bind_values a (tensor_view src) None = Inr (pt_bindings q)"
    and "destination_descriptor a (pt_bindings q) (pt_device q) = Inr (pt_destination q)"
    and "pt_snapshot q = storage_snapshot src" and "\<not> pt_consumed q" and "dv_type (pt_device q) = dv_type d"
proof -
  from assms show nb: "\<not> nb" by (auto simp: prepare_transfer_def split: if_splits)
  from assms nb obtain b bound dg1 target view span where
    r: "source_reason grad src = None" and dir: "check_direction (r_direction (cr_recipe a)) src d = Inr ()"
    and b: "bind_symbols None cid a src = Inr b" and t: "transfer_target pl (r_direction (cr_recipe a)) src d = Inr (target, view)"
    and cd: "destination_descriptor a b target = Inr (pt_destination q)"
    and q: "pt_bindings q = b" "pt_device q = target" "pt_snapshot q = storage_snapshot src" "\<not> pt_consumed q"
    unfolding prepare_transfer_def admitted_source_def validated_preparation_def prepared_destination_def
    by (auto simp: Let_def split: option.splits sum.splits prod.splits)
  show "source_reason grad src = None" by (rule r)
  show dd: "direction_devices (r_direction (cr_recipe a)) = Some (dv_type (lv_device src), dv_type d)"
    using dir by (simp add: check_direction_def)
  show "bind_values a (tensor_view src) None = Inr (pt_bindings q)"
    using b q(1) by (auto simp: bind_symbols_def reason_of_def split: sum.splits)
  show "destination_descriptor a (pt_bindings q) (pt_device q) = Inr (pt_destination q)" using cd q by simp
  show "pt_snapshot q = storage_snapshot src" "\<not> pt_consumed q" using q by simp_all
  show "dv_type (pt_device q) = dv_type d"
    using transfer_target_device [OF t dd] q(2) by simp
qed

end
