(* ===== verification/Resources.thy ===== *)
theory Resources
  imports Transport
begin

text \<open>
  \<open>reloc_torch/resources.py\<close> and \<open>runtime.TransportAdapter\<close>: the validation of transfer options, the
  owner of native transfer resources, and the adapter that may own one lazily.  Python objects reach
  the option checks as \<open>option_value\<close>s.
\<close>

section \<open>Transfer options\<close>

text \<open>\<open>OIndex\<close> is an object with \<open>__index__\<close> that is not an \<open>int\<close>; \<open>OPool\<close> is a \<open>GatherPool\<close> and its size.\<close>

datatype option_value = OText string | OInt int | OBool bool | OIndex int | OPool nat | ONone | OOther

text \<open>The \<open>resources\<close> argument: \<open>AUTO\<close>, an owner by identity, nothing, or another object.\<close>

datatype resources_arg = ResAuto | ResOwner nat | ResNone | ResOther

datatype options_arg = OptNone | OptMapping "(string \<times> option_value) list" | OptOther

definition integer_options :: "string list" where
  "integer_options = [''n_buffers'', ''n_streams'', ''gather_threads'', ''min_pinned_bytes'']"

definition option_minimum :: "string \<Rightarrow> int" where
  "option_minimum name = (if name = ''gather_threads'' \<or> name = ''min_pinned_bytes'' then 0 else 1)"

fun index_of_value :: "option_value \<Rightarrow> int option" where
  "index_of_value (OInt n) = Some n"
| "index_of_value (OIndex n) = Some n"
| "index_of_value _ = None"

definition check_integer_option :: "string \<Rightarrow> option_value \<Rightarrow> option_value res" where
  "check_integer_option name v =
     (if name = ''min_pinned_bytes'' \<and> v = ONone then Inr v
      else case index_of_value v of
        None \<Rightarrow> Inl (TypeErr (msg [name, '' must be an integer'']))
      | Some n \<Rightarrow> if option_minimum name \<le> n \<and> n \<le> 2 ^ 31 - 1 then Inr (OInt n)
          else Inl (ValueErr (msg [name, '' out of range''])))"

definition check_option :: "string \<Rightarrow> option_value \<Rightarrow> option_value res" where
  "check_option name v =
     (if name = ''pinning'' then
        (if v \<in> {OText ''auto'', OText ''pinned'', OText ''pageable''} then Inr v
         else Inl (ValueErr ''pinning must be auto, pinned or pageable''))
      else if name = ''gather_pool'' then
        (case v of ONone \<Rightarrow> Inr v | OPool _ \<Rightarrow> Inr v | _ \<Rightarrow> Inl (TypeErr ''gather_pool must be GatherPool or None''))
      else if name \<in> set integer_options then check_integer_option name v
      else Inl (ValueErr (msg [''unknown transfer option: '', name])))"

definition transfer_configuration :: "resources_arg \<Rightarrow> options_arg \<Rightarrow> (string \<times> option_value) list res" where
  "transfer_configuration resources opts =
     (if resources = ResOther then Inl (TypeErr ''transfer_resources must be AUTO, TransferResources or None'')
      else case opts of
        OptOther \<Rightarrow> Inl (TypeErr ''transfer_options must be a mapping or None'')
      | OptNone \<Rightarrow> Inr []
      | OptMapping items \<Rightarrow> mapR (\<lambda>(name, v). res_bind (check_option name v) (\<lambda>v. Inr (name, v))) items)"

section \<open>Transfer resources\<close>

text \<open>One native cache: its generation, whether it is closed, and how its next operations end.\<close>

record native_cache =
  nc_closed :: bool
  nc_generation :: nat
  nc_clear_error :: "exn option"
  nc_close_error :: "exn option"

record transfer_resources =
  rs_pid :: int
  rs_limits :: "(string \<times> option_value) list"
  rs_native :: native_cache
  rs_typed :: native_cache

definition default_limits :: "(string \<times> option_value) list" where
  "default_limits = [(''max_retained_bytes'', OInt (256 * 2 ^ 20)), (''max_contexts'', OInt 4),
     (''max_contexts_per_device'', OInt 2), (''max_background_workers'', OInt 64),
     (''max_live_staging_bytes'', ONone), (''acquire_timeout_ms'', ONone),
     (''max_typed_retained_bytes'', OInt (64 * 2 ^ 20)), (''max_typed_live_bytes'', OInt 0),
     (''max_typed_streams'', OInt 8), (''max_typed_background_workers'', OInt 64),
     (''max_typed_contexts'', OInt 1), (''max_typed_contexts_per_device'', OInt 1),
     (''typed_acquire_timeout_ms'', ONone)]"

definition new_resources :: "int \<Rightarrow> (string \<times> option_value) list \<Rightarrow> transfer_resources" where
  "new_resources pid limits = (let c = \<lparr>nc_closed = False, nc_generation = 0, nc_clear_error = None, nc_close_error = None\<rparr>
     in \<lparr>rs_pid = pid, rs_limits = limits, rs_native = c, rs_typed = c\<rparr>)"

definition clear_cache :: "native_cache \<Rightarrow> native_cache \<times> unit res" where
  "clear_cache c = (case nc_clear_error c of
     Some e \<Rightarrow> (c, Inl e) | None \<Rightarrow> (c\<lparr>nc_generation := Suc (nc_generation c)\<rparr>, Inr ()))"

text \<open>A failing close still leaves the cache refusing further work.\<close>

definition close_cache :: "native_cache \<Rightarrow> native_cache \<times> unit res" where
  "close_cache c = (c\<lparr>nc_closed := True\<rparr>, case nc_close_error c of Some e \<Rightarrow> Inl e | None \<Rightarrow> Inr ())"

definition process_mismatch :: exn where
  "process_mismatch = RuntimeErr ''process_mismatch: transfer resources belong to another process''"

text \<open>
  \<open>try: native.op() finally: native_typed.op()\<close>: the typed half runs whatever the first one did, and
  its exception replaces the first.
\<close>

definition both_caches ::
  "(native_cache \<Rightarrow> native_cache \<times> unit res) \<Rightarrow> int \<Rightarrow> transfer_resources \<Rightarrow> unit res \<times> transfer_resources" where
  "both_caches f pid rs =
     (if pid \<noteq> rs_pid rs then (Inl process_mismatch, rs)
      else let (native, r1) = f (rs_native rs); (typed, r2) = f (rs_typed rs)
        in ((case r2 of Inl e \<Rightarrow> Inl e | Inr _ \<Rightarrow> r1), rs\<lparr>rs_native := native, rs_typed := typed\<rparr>))"

definition clear_resources :: "int \<Rightarrow> transfer_resources \<Rightarrow> unit res \<times> transfer_resources" where
  "clear_resources = both_caches clear_cache"

definition close_resources :: "int \<Rightarrow> transfer_resources \<Rightarrow> unit res \<times> transfer_resources" where
  "close_resources = both_caches close_cache"

definition resources_closed :: "int \<Rightarrow> transfer_resources \<Rightarrow> bool res" where
  "resources_closed pid rs = (if pid \<noteq> rs_pid rs then Inl process_mismatch else Inr (nc_closed (rs_native rs)))"

section \<open>The transport adapter\<close>

text \<open>
  \<open>ta_resources\<close> holds the owner's identity and value; \<open>ta_next\<close> is the identity the next owner gets.
\<close>

record transport_adapter =
  ta_options :: "(string \<times> option_value) list"
  ta_owns :: bool
  ta_resources :: "(nat \<times> transfer_resources) option"
  ta_pid :: int
  ta_closed :: bool
  ta_module :: bool

definition new_adapter ::
  "int \<Rightarrow> resources_arg \<Rightarrow> transfer_resources \<Rightarrow> options_arg \<Rightarrow> bool \<Rightarrow> transport_adapter res" where
  "new_adapter pid arg borrowed opts present =
     res_bind (transfer_configuration arg opts) (\<lambda>opts.
       Inr \<lparr>ta_options = opts, ta_owns = (arg = ResAuto),
         ta_resources = (case arg of ResOwner i \<Rightarrow> Some (i, borrowed) | _ \<Rightarrow> None),
         ta_pid = pid, ta_closed = False, ta_module = present\<rparr>)"

definition check_process :: "int \<Rightarrow> transport_adapter \<Rightarrow> unit res" where
  "check_process pid ta = ensure (pid = ta_pid ta)
     (RuntimeErr ''process_mismatch: transport adapter belongs to another process'')"

definition require_open :: "int \<Rightarrow> transport_adapter \<Rightarrow> unit res" where
  "require_open pid ta = res_bind (check_process pid ta) (\<lambda>_.
     ensure (\<not> ta_closed ta) (RuntimeErr ''resources_closed: TransportAdapter is closed''))"

definition close_adapter :: "int \<Rightarrow> transport_adapter \<Rightarrow> unit res \<times> transport_adapter" where
  "close_adapter pid ta = (case check_process pid ta of
     Inl e \<Rightarrow> (Inl e, ta)
   | Inr _ \<Rightarrow> (let ta = ta\<lparr>ta_closed := True\<rparr> in
       case (if ta_owns ta then ta_resources ta else None) of
         None \<Rightarrow> (Inr (), ta)
       | Some (i, rs) \<Rightarrow> (let (r, rs) = close_resources pid rs in (r, ta\<lparr>ta_resources := Some (i, rs)\<rparr>))))"

text \<open>\<open>placement_configuration\<close>: settings with the pool replaced by its size, the owner generation, retention.\<close>

definition pool_threads :: "(string \<times> option_value) list \<Rightarrow> (string \<times> option_value) list" where
  "pool_threads opts = (let rest = filter (\<lambda>(n, _). n \<noteq> ''gather_pool'') opts in
     case map_of opts ''gather_pool'' of
       Some (OPool t) \<Rightarrow> od_set ''gather_pool_threads'' (OInt (int t)) rest
     | _ \<Rightarrow> rest)"

definition placement_configuration ::
  "int \<Rightarrow> transport_adapter \<Rightarrow>
     (((string \<times> option_value) list \<times> (string \<times> option_value) list option) \<times> (nat option \<times> nat) \<times> bool) res" where
  "placement_configuration pid ta = res_bind (require_open pid ta) (\<lambda>_.
     res_bind (case ta_resources ta of None \<Rightarrow> Inr (None, 0)
       | Some (i, rs) \<Rightarrow> if pid \<noteq> rs_pid rs then Inl process_mismatch else Inr (Some i, nc_generation (rs_native rs))) (\<lambda>owner.
     let retained = ta_owns ta \<or> ta_resources ta \<noteq> None;
         limits = (case ta_resources ta of Some (_, rs) \<Rightarrow> Some (rs_limits rs)
           | None \<Rightarrow> if retained then Some default_limits else None)
     in Inr ((pool_threads (ta_options ta), limits), owner, retained)))"

text \<open>The thread count a typed preparation asks for; zero means every CPU.\<close>

definition preflight_threads :: "int option \<Rightarrow> transport_adapter \<Rightarrow> int" where
  "preflight_threads cpus ta =
     (let t = (case map_of (ta_options ta) ''gather_pool'' of
            Some (OPool n) \<Rightarrow> int n
          | _ \<Rightarrow> (case map_of (ta_options ta) ''gather_threads'' of Some (OInt n) \<Rightarrow> n | _ \<Rightarrow> 8))
      in if t = 0 then (case cpus of Some c \<Rightarrow> if c = 0 then 1 else c | None \<Rightarrow> 1) else t)"

text \<open>Which module prepares a call, and with what request.\<close>

datatype route = IndexRoute int | TypedRoute int "(string \<times> live) list" string | LayoutRoute bool

definition preflight_route ::
  "int \<Rightarrow> int option \<Rightarrow> transport_adapter \<Rightarrow> compiled_recipe \<Rightarrow> options \<Rightarrow> route res" where
  "preflight_route pid cpus ta a opts =
     res_bind (require_open pid ta) (\<lambda>_.
     if \<not> ta_module ta then Inl (UnsupportedRecipe ''runtime_unavailable'' ''reloc_torch.transport is not available'')
     else if cr_typed a \<or> op_index opts \<noteq> None then
       (let t = preflight_threads cpus ta in
        if op_index opts \<noteq> None then Inr (IndexRoute t)
        else Inr (TypedRoute t (case op_parameters opts of None \<Rightarrow> [] | Some ps \<Rightarrow> ps)
          (case op_implementation opts of None \<Rightarrow> [] | Some i \<Rightarrow> i)))
     else Inr (LayoutRoute (op_non_blocking opts)))"

text \<open>
  The state half of \<open>execute\<close>: under the lock the adapter must be open, and an \<open>AUTO\<close> adapter creates
  its owner on first use.  \<open>fresh\<close> is the identity of an owner created now.
\<close>

definition acquire_resources ::
  "int \<Rightarrow> nat \<Rightarrow> transport_adapter \<Rightarrow> transfer_resources option res \<times> transport_adapter" where
  "acquire_resources pid fresh ta = (case res_bind (check_process pid ta) (\<lambda>_. require_open pid ta) of
     Inl e \<Rightarrow> (Inl e, ta)
   | Inr _ \<Rightarrow> (let ta = (if ta_owns ta \<and> ta_resources ta = None
         then ta\<lparr>ta_resources := Some (fresh, new_resources pid default_limits)\<rparr> else ta)
       in (Inr (map_option snd (ta_resources ta)), ta)))"

section \<open>The public execution of a layout transfer\<close>

text \<open>
  The argument checks of \<open>transport.execute_transfer\<close> before it takes the request's lock: options,
  the type of \<open>resources\<close> (\<open>AUTO\<close> is refused here) and the owner's process.
\<close>

definition check_owner :: "resources_arg \<Rightarrow> bool \<Rightarrow> unit res" where
  "check_owner arg same_process = (case arg of
     ResNone \<Rightarrow> Inr ()
   | ResOwner _ \<Rightarrow> ensure same_process process_mismatch
   | _ \<Rightarrow> Inl (TypeErr ''resources must be TransferResources or None''))"

record layout_call =
  lc_resources :: resources_arg
  lc_same_process :: bool
  lc_pinning :: option_value
  lc_min_pinned_bytes :: option_value
  lc_execution :: execution

definition execute_transfer :: "(layout_call, prepared_transfer, live res) body" where
  "execute_transfer x q =
     (case res_bind (transfer_configuration (lc_resources x) (OptMapping
            [(''pinning'', lc_pinning x), (''min_pinned_bytes'', lc_min_pinned_bytes x)]))
          (\<lambda>_. check_owner (lc_resources x) (lc_same_process x)) of
        Inl e \<Rightarrow> ((Inl e, q), 0)
      | Inr _ \<Rightarrow> transfer_body (lc_execution x) q)"

interpretation layout_request: single_use execute_transfer pt_consumed
proof
  fix e :: layout_call and q r q' n
  assume b: "execute_transfer e q = ((r, q'), n)"
  show "0 < n \<Longrightarrow> \<not> pt_consumed q \<and> pt_consumed q' \<and> n = 1"
    using b layout_transfer.launch_consumes [of "lc_execution e" q r q' n]
    by (auto simp: execute_transfer_def split: sum.splits)
  show "pt_consumed q \<Longrightarrow> pt_consumed q'"
    using b layout_transfer.stays_consumed [of "lc_execution e" q r q' n]
    by (auto simp: execute_transfer_def split: sum.splits)
qed

section \<open>Laws of the adapter and its owner\<close>

text \<open>Every accepted integer option is in range, whatever form it had.\<close>

lemma check_option_int:
  "check_option name v = Inr w \<Longrightarrow> name \<in> set integer_options \<Longrightarrow>
     w = ONone \<and> name = ''min_pinned_bytes'' \<or> (\<exists>n. w = OInt n \<and> option_minimum name \<le> n \<and> n < 2 ^ 31)"
proof -
  assume c: "check_option name v = Inr w" and n: "name \<in> set integer_options"
  from n have "name \<noteq> ''pinning''" "name \<noteq> ''gather_pool''" by (auto simp: integer_options_def)
  with c n have "check_integer_option name v = Inr w" by (simp add: check_option_def)
  then show ?thesis by (auto simp: check_integer_option_def split: if_split_asm option.split_asm)
qed

lemma transfer_configuration_sound:
  assumes "transfer_configuration arg opts = Inr out"
  shows "arg \<noteq> ResOther" and "opts = OptMapping items \<Longrightarrow> map fst out = map fst items"
    and "(name, w) \<in> set out \<Longrightarrow> \<exists>v. check_option name v = Inr w"
proof -
  show "arg \<noteq> ResOther" using assms by (auto simp: transfer_configuration_def)
  show "map fst out = map fst items" if "opts = OptMapping items"
  proof -
    from assms that have "mapR (\<lambda>(name, v). res_bind (check_option name v) (\<lambda>v. Inr (name, v))) items = Inr out"
      by (auto simp: transfer_configuration_def split: if_splits)
    then show ?thesis by (induction items arbitrary: out) auto
  qed
  show "\<exists>v. check_option name v = Inr w" if "(name, w) \<in> set out"
  proof (cases opts)
    case (OptMapping items)
    with assms have "mapR (\<lambda>(name, v). res_bind (check_option name v) (\<lambda>v. Inr (name, v))) items = Inr out"
      by (auto simp: transfer_configuration_def split: if_splits)
    then show ?thesis using that by (induction items arbitrary: out) auto
  qed (use assms that in \<open>auto simp: transfer_configuration_def split: if_splits\<close>)
qed

text \<open>A validated mapping is accepted again unchanged.\<close>

lemma check_option_again: "check_option name v = Inr w \<Longrightarrow> check_option name w = Inr w"
proof -
  assume c: "check_option name v = Inr w"
  have int: "check_integer_option name v = Inr w \<Longrightarrow> check_integer_option name w = Inr w"
    by (auto simp: check_integer_option_def split: if_split_asm option.split_asm)
  consider "name = ''pinning''" | "name = ''gather_pool''" | "name \<noteq> ''pinning''" "name \<noteq> ''gather_pool''" by blast
  then show ?thesis
  proof cases
    case 1
    with c have "w = v" by (simp add: check_option_def split: if_split_asm)
    with c show ?thesis by simp
  next
    case 2
    with c have "w = v" by (simp add: check_option_def split: option_value.split_asm)
    with c show ?thesis by simp
  next
    case 3
    with c int show ?thesis by (simp add: check_option_def split: if_split_asm)
  qed
qed

lemma transfer_configuration_again:
  assumes "transfer_configuration arg (OptMapping items) = Inr out"
  shows "transfer_configuration arg (OptMapping out) = Inr out"
proof -
  from assms have ok: "arg \<noteq> ResOther"
    and m: "mapR (\<lambda>(name, v). res_bind (check_option name v) (\<lambda>v. Inr (name, v))) items = Inr out"
    by (auto simp: transfer_configuration_def split: if_splits)
  from m have "mapR (\<lambda>(name, v). res_bind (check_option name v) (\<lambda>v. Inr (name, v))) out = Inr out"
    by (induction items arbitrary: out) (auto dest: check_option_again)
  with ok show ?thesis by (simp add: transfer_configuration_def)
qed

text \<open>Closing closes both halves, whatever either reports; another process changes nothing.\<close>

lemma close_resources_both:
  "close_resources pid rs = (r, rs') \<Longrightarrow> pid = rs_pid rs \<Longrightarrow>
     nc_closed (rs_native rs') \<and> nc_closed (rs_typed rs') \<and>
     (r = Inr () \<longleftrightarrow> nc_close_error (rs_native rs) = None \<and> nc_close_error (rs_typed rs) = None)"
  by (auto simp: close_resources_def both_caches_def close_cache_def Let_def split: option.splits)

lemma both_caches_process: "pid \<noteq> rs_pid rs \<Longrightarrow> both_caches f pid rs = (Inl process_mismatch, rs)"
  by (simp add: both_caches_def)

lemma close_adapter_owned:
  assumes "pid = ta_pid ta" and "close_adapter pid ta = (r, ta')"
  shows "ta_closed ta'" and "\<exists>e. require_open p ta' = Inl e"
    and "\<not> ta_owns ta \<Longrightarrow> ta_resources ta' = ta_resources ta \<and> r = Inr ()"
  using assms by (auto simp: close_adapter_def check_process_def require_open_def ensure_def Let_def
      split: option.splits prod.splits)

lemma close_adapter_twice:
  "close_adapter (ta_pid ta) ta = (Inr (), ta') \<Longrightarrow> close_adapter (ta_pid ta) ta' = (Inr (), ta')"
  by (auto simp: close_adapter_def check_process_def close_resources_def both_caches_def close_cache_def Let_def
      split: option.splits prod.splits if_splits)

lemma closed_adapter_refuses:
  "ta_closed ta \<Longrightarrow> \<exists>e. acquire_resources pid fresh ta = (Inl e, ta) \<and> preflight_route pid cpus ta a opts = Inl e"
  by (cases "pid = ta_pid ta") (simp_all add: acquire_resources_def preflight_route_def require_open_def check_process_def)

text \<open>The owner of an \<open>AUTO\<close> adapter appears once and stays the same over later executions.\<close>

lemma acquire_resources_once:
  assumes "acquire_resources pid fresh ta = (Inr owner, ta')"
  shows "ta_owns ta \<Longrightarrow> ta_resources ta' \<noteq> None"
    and "acquire_resources pid fresh2 ta' = (Inr owner, ta')"
    and "ta_resources ta \<noteq> None \<Longrightarrow> ta' = ta" and "\<not> ta_owns ta \<Longrightarrow> ta' = ta"
  using assms by (auto simp: acquire_resources_def check_process_def require_open_def Let_def
      split: sum.splits if_splits)

end
