(* ===== verification/Dispatch.thy ===== *)
theory Dispatch
  imports Resources
begin

text \<open>
  \<open>reloc_torch/dispatch.py\<close> and the preparation half of \<open>reloc_torch/index_select.py\<close>: typed transfers
  with runtime parameters.  Parameter values are snapshotted as bytes when a request is prepared and
  compared again when it runs; the bound template of a call is cached under everything it depends on.
\<close>

section \<open>Parameter snapshots\<close>

text \<open>
  A runtime parameter tensor: \<open>pv_values\<close> are the elements of an integer tensor, \<open>pv_bytes\<close> the bytes
  of any other one in logical order.
\<close>

record param_tensor =
  pv_plain :: bool
  pv_device :: string
  pv_dtype :: string
  pv_extents :: "int list"
  pv_values :: "int list"
  pv_bytes :: string

type_synonym param_snapshot = "string \<times> int list \<times> string"

definition int32_bytes :: "int list \<Rightarrow> string" where
  "int32_bytes vs = concat (map (\<lambda>v. le4 (nat (v mod 2 ^ 32))) vs)"

definition parameter_snapshot :: "string \<Rightarrow> param_tensor \<Rightarrow> string \<Rightarrow> param_snapshot res" where
  "parameter_snapshot name v declared =
     (if \<not> pv_plain v then Inl (UnsupportedRecipe ''parameter_subclass'' (msg [''parameter '', name, '' is not a plain tensor'']))
      else if pv_device v \<noteq> ''cpu'' then Inl (UnsupportedRecipe ''device_parameters_unavailable'' (msg [''parameter '', name]))
      else if declared = ''int32'' \<and> pv_dtype v \<in> {''int64'', ''int16'', ''int8''}
      then (if \<exists>n\<in>set (pv_values v). n < - (2 ^ 31) \<or> 2 ^ 31 \<le> n
            then Inl (UnsupportedRecipe ''bind_error'' (msg [''parameter '', name, '' does not fit int32'']))
            else Inr (''int32'', pv_extents v, int32_bytes (pv_values v)))
      else if pv_dtype v \<noteq> declared
      then Inl (UnsupportedRecipe ''parameter_dtype'' (msg [''parameter '', name]))
      else Inr (pv_dtype v, pv_extents v, pv_bytes v))"

fun snapshots_of :: "(string \<times> param_tensor) list \<Rightarrow> (string \<times> string \<times> int list) list \<Rightarrow>
    (string \<times> param_snapshot) list res" where
  "snapshots_of ps [] = Inr []"
| "snapshots_of ps ((name, dtype, _) # declared) = (case map_of ps name of
     None \<Rightarrow> Inl (KeyErr name)
   | Some v \<Rightarrow> res_bind (parameter_snapshot name v dtype) (\<lambda>s.
       res_bind (snapshots_of ps declared) (\<lambda>rest. Inr ((name, s) # rest))))"

definition check_parameter_names :: "string list \<Rightarrow> string list \<Rightarrow> unit res" where
  "check_parameter_names declared given =
     ensure (set declared = set given) (UnsupportedRecipe ''parameter_binding'' ''declared parameters differ'')"

section \<open>Preparation\<close>

definition policies :: "string list" where
  "policies = [''auto'', ''original_cpu'']"

text \<open>The key of a cached template: everything the bound and selected program depends on.\<close>

record typed_key =
  tk_bindings :: bindings
  tk_parameters :: "(string \<times> param_snapshot) list"
  tk_direction :: string
  tk_source :: device
  tk_target_type :: string
  tk_index :: "int option"
  tk_policy :: string
  tk_calibration :: "nat option"
  tk_threads :: int
  tk_implementation :: string

record typed_template =
  tt_bound :: nat
  tt_native :: nat
  tt_program :: nat
  tt_capability :: "(string \<times> (string \<times> json) list list) list"
  tt_selection :: "(string \<times> json) list"

datatype bind_failure = BadPlan string | BadBinding string

text \<open>The native binder and the native dispatch preparation.\<close>

record typed_native =
  tn_bind :: "bindings \<Rightarrow> (string \<times> param_snapshot) list \<Rightarrow> bind_failure + nat"
  tn_prepare :: "nat \<Rightarrow> typed_key \<Rightarrow> string + typed_template"

datatype calibration_arg = CalNone | CalGiven nat | CalOther

record typed_request =
  ty_policy :: string
  ty_calibration :: calibration_arg
  ty_threads :: "int option"
  ty_implementation :: "string option"
  ty_parameters :: "(string \<times> param_tensor) list"

record prepared_typed =
  py_bindings :: bindings
  py_bound :: nat
  py_destination :: concrete_descriptor
  py_direction :: string
  py_device :: device
  py_view :: buffer_view
  py_policy :: string
  py_calibration :: "nat option"
  py_threads :: int
  py_parameters :: "string list"
  py_snapshots :: "(string \<times> param_snapshot) list"
  py_selected :: "(string \<times> json) list"
  py_program :: nat
  py_template :: "nat option"
  py_index_snapshot :: "(snapshot \<times> string) option"
  py_request :: "nat option"
  py_consumed :: bool
  py_staging :: "staging_row list"
  py_storage :: snapshot

definition check_typed_request :: "typed_request \<Rightarrow> (int \<times> string \<times> nat option) res" where
  "check_typed_request rq = (case ty_threads rq of
     None \<Rightarrow> Inl (TypeErr ''threads must be an integer'')
   | Some t \<Rightarrow> if \<not> (1 \<le> t \<and> t \<le> 2 ^ 31 - 1) then Inl (ValueErr ''threads must be between 1 and 2147483647'')
       else (case ty_implementation rq of
         None \<Rightarrow> Inl (TypeErr ''implementation must be a string'')
       | Some impl \<Rightarrow> (case ty_calibration rq of
           CalOther \<Rightarrow> Inl (TypeErr ''calibration must be pyreloc.Calibration or None'')
         | CalNone \<Rightarrow> Inr (t, impl, None)
         | CalGiven c \<Rightarrow> Inr (t, impl, Some c))))"

text \<open>Everything before the cache lookup: admission, binding, parameter snapshots, the key.\<close>

definition typed_front ::
  "platform \<Rightarrow> bool \<Rightarrow> validated_binding option \<Rightarrow> nat \<Rightarrow> compiled_recipe \<Rightarrow> live \<Rightarrow> device \<Rightarrow> typed_request \<Rightarrow>
     (typed_key \<times> (bindings \<times> concrete_descriptor) option) res" where
  "typed_front pl grad shared cid a src d rq =
     (if \<not> cr_typed a then Inl (UnsupportedRecipe ''not_typed_recipe'' ''the compiled recipe has no value transform'')
      else if ty_policy rq \<notin> set policies then Inl (ValueErr ''unknown policy'')
      else
        let direction = r_direction (cr_recipe a) in
        res_bind (admitted_source grad shared cid src) (\<lambda>admitted.
        res_bind (check_direction direction src d) (\<lambda>_.
        res_bind (case admitted of Some (b, _) \<Rightarrow> Inr b | None \<Rightarrow> bind_symbols shared cid a src) (\<lambda>b.
        res_bind (parameter_extents a b) (\<lambda>declared.
        res_bind (check_parameter_names (map fst declared) (map fst (ty_parameters rq))) (\<lambda>_.
        res_bind (snapshots_of (ty_parameters rq) declared) (\<lambda>snapshots.
        res_bind (check_typed_request rq) (\<lambda>(threads, impl, calibration).
        let index = (if direction = ''h2d'' then (case dv_index d of Some i \<Rightarrow> Some i
              | None \<Rightarrow> if pl_cuda_built pl \<and> pl_cuda_available pl then Some (pl_current_device pl) else None)
            else dv_index (lv_device src))
        in Inr (\<lparr>tk_bindings = sort_key fst b, tk_parameters = sort_key fst snapshots, tk_direction = direction,
             tk_source = lv_device src, tk_target_type = dv_type d, tk_index = index, tk_policy = ty_policy rq,
             tk_calibration = calibration, tk_threads = threads, tk_implementation = impl\<rparr>, admitted)))))))))"

definition parameter_bytes :: "typed_key \<Rightarrow> int" where
  "parameter_bytes k = sum_list (map (\<lambda>(_, _, _, data). int (length data)) (tk_parameters k))"

text \<open>The target and view once the template is known; both directions need a CUDA runtime.\<close>

definition typed_target :: "platform \<Rightarrow> typed_key \<Rightarrow> live \<Rightarrow> (device \<times> buffer_view) res" where
  "typed_target pl k src =
     (if \<not> (pl_cuda_built pl \<and> pl_cuda_available pl)
      then Inl (UnsupportedRecipe ''cuda_unavailable'' ''no CUDA-capable runtime'')
      else if tk_direction k = ''h2d''
      then Inr (\<lparr>dv_type = ''cuda'', dv_index = tk_index k\<rparr>, storage_view src ''host'' (- 1))
      else res_bind (native_result (\<lambda>t. UnsupportedRecipe ''device_mismatch'' t) (pl_pointer_device pl)) (\<lambda>owner.
        if Some owner \<noteq> dv_index (lv_device src)
        then Inl (UnsupportedRecipe ''device_mismatch'' ''source storage belongs to another device'')
        else Inr (\<lparr>dv_type = ''cpu'', dv_index = None\<rparr>, storage_view src ''cuda'' owner)))"

definition bind_typed :: "typed_native \<Rightarrow> bindings \<Rightarrow> (string \<times> param_snapshot) list \<Rightarrow> nat res" where
  "bind_typed tn b snapshots = (case tn_bind tn b snapshots of
     Inl (BadPlan t) \<Rightarrow> Inl (RuntimeErr (msg [''compiled recipe holds an invalid typed plan: '', t]))
   | Inl (BadBinding t) \<Rightarrow> Inl (UnsupportedRecipe ''bind_error'' t)
   | Inr bound \<Rightarrow> Inr bound)"

definition new_prepared_typed ::
  "live \<Rightarrow> typed_key \<Rightarrow> device \<Rightarrow> buffer_view \<Rightarrow> concrete_descriptor \<Rightarrow> typed_template \<Rightarrow> prepared_typed" where
  "new_prepared_typed src k target view cd t = \<lparr>py_bindings = tk_bindings k, py_bound = tt_bound t,
     py_destination = cd, py_direction = tk_direction k, py_device = target, py_view = view,
     py_policy = tk_policy k, py_calibration = tk_calibration k, py_threads = tk_threads k,
     py_parameters = map fst (tk_parameters k), py_snapshots = tk_parameters k,
     py_selected = tt_selection t, py_program = tt_program t, py_template = Some (tt_native t),
     py_index_snapshot = None, py_request = None, py_consumed = False, py_staging = [],
     py_storage = storage_snapshot src\<rparr>"

type_synonym template_cache = "(typed_key, typed_template) templates"

definition prepare_typed_transfer ::
  "int \<Rightarrow> platform \<Rightarrow> typed_native \<Rightarrow> bool \<Rightarrow> validated_binding option \<Rightarrow> nat \<Rightarrow> compiled_recipe \<Rightarrow> live \<Rightarrow> device \<Rightarrow>
     typed_request \<Rightarrow> template_cache \<Rightarrow> prepared_typed res \<times> template_cache" where
  "prepare_typed_transfer pid pl tn grad shared cid a src d rq cache =
     (case typed_front pl grad shared cid a src d rq of
        Inl e \<Rightarrow> (Inl e, cache)
      | Inr (k, admitted) \<Rightarrow>
         (let n = parameter_bytes k; (found, cache) = tc_get pid k n cache in
          case res_bind (case found of Some t \<Rightarrow> Inr (tt_bound t) | None \<Rightarrow> bind_typed tn (tk_bindings k) (tk_parameters k)) (\<lambda>bound.
               res_bind (typed_target pl k src) (\<lambda>(target, view).
               res_bind (prepared_destination a (tk_bindings k) target admitted) (\<lambda>cd.
                 Inr (bound, target, view, cd)))) of
            Inl e \<Rightarrow> (Inl e, cache)
          | Inr (bound, target, view, cd) \<Rightarrow> (case found of
              Some t \<Rightarrow> (Inr (new_prepared_typed src k target view cd t), cache)
            | None \<Rightarrow> (case native_result (\<lambda>t. UnsupportedRecipe (error_code t) t) (tn_prepare tn bound k) of
                Inl e \<Rightarrow> (Inl e, cache)
              | Inr t \<Rightarrow> (case tc_put pid k (t\<lparr>tt_bound := bound\<rparr>) n cache of
                  Inl e \<Rightarrow> (Inl e, cache)
                | Inr (t, cache) \<Rightarrow> (Inr (new_prepared_typed src k target view cd t), cache))))))"

section \<open>Execution\<close>

text \<open>What execution meets; \<open>tx_parameters\<close> and \<open>tx_index\<close> are the operands as they now are.\<close>

record typed_execution =
  tx_source :: live
  tx_index :: "snapshot \<times> string"
  tx_parameters :: "(string \<times> param_tensor) list"
  tx_declared :: "(string \<times> string \<times> int list) list res"
  tx_allocated :: "live res"
  tx_made :: "string + nat"
  tx_stream :: "unit res"
  tx_ran :: "string + (string \<times> json) list"
  tx_staging :: "staging_row list"

text \<open>The keyword arguments of \<open>execute_typed_transfer\<close>.\<close>

record typed_arguments =
  xa_pipeline :: option_value
  xa_chunk_size :: option_value
  xa_options :: "(string \<times> option_value) list"
  xa_gather_threads :: option_value
  xa_resources :: resources_arg
  xa_same_process :: bool

fun recheck_parameters ::
  "(string \<times> param_tensor) list \<Rightarrow> (string \<times> string \<times> int list) list \<Rightarrow> (string \<times> param_snapshot) list \<Rightarrow>
     string list \<Rightarrow> unit res" where
  "recheck_parameters now declared snapshots [] = Inr ()"
| "recheck_parameters now declared snapshots (name # names) =
     (case (map_of now name, map_of declared name, map_of snapshots name) of
        (Some v, Some (dtype, _), Some prepared) \<Rightarrow> (case parameter_snapshot name v dtype of
            Inl (UnsupportedRecipe _ detail) \<Rightarrow> Inl (RuntimeErr (msg [''stale typed transfer: '', detail]))
          | Inl e \<Rightarrow> Inl e
          | Inr current \<Rightarrow> if current \<noteq> prepared
              then Inl (RuntimeErr (msg [''stale typed transfer: parameter '', name, '' changed after preflight'']))
              else recheck_parameters now declared snapshots names)
      | _ \<Rightarrow> Inl (KeyErr name))"

definition recheck_typed :: "prepared_typed \<Rightarrow> typed_execution \<Rightarrow> unit res" where
  "recheck_typed q x =
     (if storage_snapshot (tx_source x) \<noteq> py_storage q
      then Inl (RuntimeErr ''stale typed transfer: source storage or metadata changed after preflight'')
      else if py_index_snapshot q \<noteq> None \<and> py_index_snapshot q \<noteq> Some (tx_index x)
      then Inl (RuntimeErr ''stale index_select transfer: indices changed after preflight'')
      else res_bind (tx_declared x) (\<lambda>declared.
        recheck_parameters (tx_parameters x) declared (py_snapshots q) (py_parameters q)))"

definition check_chunk_size :: "option_value \<Rightarrow> unit res" where
  "check_chunk_size v = (case v of
     ONone \<Rightarrow> Inr ()
   | OBool _ \<Rightarrow> Inl (TypeErr ''chunk_size must be an integer byte count'')
   | _ \<Rightarrow> (case index_of_value v of
       None \<Rightarrow> Inl (TypeErr ''chunk_size must be an integer byte count'')
     | Some n \<Rightarrow> ensure (0 < n \<and> n < 2 ^ 64) (ValueErr ''chunk_size must be positive and fit size_t'')))"

definition check_typed_arguments :: "typed_arguments \<Rightarrow> int \<Rightarrow> unit res" where
  "check_typed_arguments xa threads =
     (case xa_pipeline xa of
        OBool _ \<Rightarrow>
          res_bind (check_chunk_size (xa_chunk_size xa)) (\<lambda>_.
          res_bind (transfer_configuration (xa_resources xa) (OptMapping (xa_options xa @
            [(''gather_threads'', if xa_gather_threads xa = ONone then OInt threads else xa_gather_threads xa)]))) (\<lambda>_.
            check_owner (xa_resources xa) (xa_same_process xa)))
      | _ \<Rightarrow> Inl (TypeErr ''pipeline must be a bool''))"

definition final_report :: "int \<Rightarrow> prepared_typed \<Rightarrow> (string \<times> json) list \<Rightarrow> (string \<times> json) list res" where
  "final_report wire_version q report =
     (let report = (if py_index_snapshot q \<noteq> None
          then od_set ''host_index_select'' (JBool True) (od_set ''artifact_version'' (JInt wire_version) report)
          else report)
      in res_bind (lookup (py_selected q) ''placement_reason'') (\<lambda>reason.
         res_bind (lookup (py_selected q) ''policy'') (\<lambda>policy.
           Inr (od_set ''policy'' policy (od_set ''placement_reason'' reason report)))))"

definition typed_body ::
  "int \<Rightarrow> (typed_arguments \<times> typed_execution, prepared_typed, (live \<times> (string \<times> json) list) res) body" where
  "typed_body wire_version ax q = (case ax of (xa, x) \<Rightarrow>
     case res_bind (check_typed_arguments xa (py_threads q)) (\<lambda>_.
          res_bind (ensure (\<not> py_consumed q) (RuntimeErr ''typed transfer request was already executed'')) (\<lambda>_.
          res_bind (recheck_typed q x) (\<lambda>_.
          res_bind (tx_allocated x) (\<lambda>out.
          res_bind (native_result (\<lambda>t. RuntimeErr (msg [''typed dispatch rejected at execution: '', t])) (tx_made x)) (\<lambda>native.
            Inr (out, native)))))) of
       Inl e \<Rightarrow> ((Inl e, q), 0)
     | Inr (out, native) \<Rightarrow>
        (let q = q\<lparr>py_request := Some native, py_consumed := True, py_staging := tx_staging x\<rparr> in
         case tx_stream x of
           Inl e \<Rightarrow> ((Inl e, q), 0)
         | Inr _ \<Rightarrow> ((res_bind (native_result (\<lambda>t. RuntimeErr (msg [py_direction q, '' typed dispatch failed: '', t])) (tx_ran x))
              (\<lambda>report. res_bind (final_report wire_version q report) (\<lambda>report. Inr (out, report))), q), 1)))"

interpretation typed_call: single_use "typed_body wire_version" py_consumed for wire_version :: int
proof
  fix e :: "typed_arguments \<times> typed_execution" and q r q' n
  assume b: "typed_body wire_version e q = ((r, q'), n)"
  show "0 < n \<Longrightarrow> \<not> py_consumed q \<and> py_consumed q' \<and> n = 1"
    using b by (cases e) (auto simp: typed_body_def Let_def split: if_splits sum.splits)
  show "py_consumed q \<Longrightarrow> py_consumed q'"
    using b by (cases e) (auto simp: typed_body_def Let_def split: sum.splits)
qed

section \<open>Value comparison of parameters\<close>

lemma le4_inject: "n < 2 ^ 32 \<Longrightarrow> m < 2 ^ 32 \<Longrightarrow> le4 n = le4 m \<Longrightarrow> n = m"
  by (metis le_int_le4)

lemma mod_in_range:
  fixes v w :: int
  assumes "v mod 2 ^ 32 = w mod 2 ^ 32" "- (2 ^ 31) \<le> v" "v < 2 ^ 31" "- (2 ^ 31) \<le> w" "w < 2 ^ 31"
  shows "v = w"
proof -
  from assms(1) obtain k where k: "v - w = 2 ^ 32 * k" by (metis mod_eq_dvd_iff dvdE)
  with assms(2-5) have "2 ^ 32 * k < 2 ^ 32 * 1" "2 ^ 32 * (- 1) < 2 ^ 32 * k" by simp_all
  then have "k = 0" by simp
  with k show ?thesis by simp
qed

lemma int32_bytes_length: "length (int32_bytes vs) = 4 * length vs"
  by (induction vs) (simp_all add: int32_bytes_def)

text \<open>The bytes of in-range integers determine the integers: an unchanged snapshot is unchanged values.\<close>

lemma int32_bytes_inject:
  assumes "\<forall>v\<in>set vs \<union> set ws. - (2 ^ 31) \<le> v \<and> v < 2 ^ 31" and "int32_bytes vs = int32_bytes ws"
  shows "vs = ws"
  using assms
proof (induction vs arbitrary: ws)
  case Nil
  then have "length (int32_bytes ws) = 0" by (simp add: int32_bytes_def)
  then show ?case unfolding int32_bytes_length by simp
next
  case (Cons v vs)
  then have "4 * length (v # vs) = 4 * length ws" by (metis int32_bytes_length)
  then obtain w us where ws: "ws = w # us" by (cases ws) simp_all
  have split: "int32_bytes (x # xs) = le4 (nat (x mod 2 ^ 32)) @ int32_bytes xs" for x xs
    by (simp add: int32_bytes_def)
  from Cons.prems(2) have "le4 (nat (v mod 2 ^ 32)) = le4 (nat (w mod 2 ^ 32))" "int32_bytes vs = int32_bytes us"
    unfolding ws split by simp_all
  moreover have "nat (x mod 2 ^ 32) < 2 ^ 32" for x :: int by (simp add: nat_less_iff)
  ultimately have "nat (v mod 2 ^ 32) = nat (w mod 2 ^ 32)" using le4_inject by blast
  then have "v mod 2 ^ 32 = w mod 2 ^ 32" by (simp add: nat_eq_iff)
  then have "v = w" using mod_in_range [of v w] Cons.prems(1) ws by auto
  moreover have "vs = us" using Cons.IH [of us] Cons.prems(1) ws \<open>int32_bytes vs = int32_bytes us\<close> by auto
  ultimately show ?case using ws by simp
qed

section \<open>The template cache is transparent\<close>

text \<open>Preparation with no cache at all.\<close>

definition prepare_uncached ::
  "platform \<Rightarrow> typed_native \<Rightarrow> bool \<Rightarrow> validated_binding option \<Rightarrow> nat \<Rightarrow> compiled_recipe \<Rightarrow> live \<Rightarrow> device \<Rightarrow>
     typed_request \<Rightarrow> prepared_typed res" where
  "prepare_uncached pl tn grad shared cid a src d rq =
     res_bind (typed_front pl grad shared cid a src d rq) (\<lambda>(k, admitted).
     res_bind (bind_typed tn (tk_bindings k) (tk_parameters k)) (\<lambda>bound.
     res_bind (typed_target pl k src) (\<lambda>(target, view).
     res_bind (prepared_destination a (tk_bindings k) target admitted) (\<lambda>cd.
     res_bind (native_result (\<lambda>t. UnsupportedRecipe (error_code t) t) (tn_prepare tn bound k)) (\<lambda>t.
       Inr (new_prepared_typed src k target view cd (t\<lparr>tt_bound := bound\<rparr>)))))))"

definition template_for :: "typed_native \<Rightarrow> typed_key \<Rightarrow> typed_template \<Rightarrow> bool" where
  "template_for tn k t \<longleftrightarrow> bind_typed tn (tk_bindings k) (tk_parameters k) = Inr (tt_bound t) \<and>
     (\<exists>u. tn_prepare tn (tt_bound t) k = Inr u \<and> t = u\<lparr>tt_bound := tt_bound t\<rparr>)"

lemma parameter_bytes_nonneg: "0 \<le> parameter_bytes k"
  unfolding parameter_bytes_def by (intro sum_list_nonneg) auto

lemma template_for_unique: "template_for tn k t \<Longrightarrow> template_for tn k u \<Longrightarrow> t = u"
  by (auto simp: template_for_def)

lemma prepare_typed_transparent:
  assumes ok: "templates_ok cache" and memo: "memo_ok (template_for tn) cache"
    and run: "prepare_typed_transfer pid pl tn grad shared cid a src d rq cache = (r, cache')"
  shows "r = prepare_uncached pl tn grad shared cid a src d rq" (is ?same)
    and "templates_ok cache'" and "memo_ok (template_for tn) cache'"
proof -
  have "?same \<and> templates_ok cache' \<and> memo_ok (template_for tn) cache'"
  proof (cases "typed_front pl grad shared cid a src d rq")
    case (Inl e)
    with run ok memo show ?thesis by (auto simp: prepare_typed_transfer_def prepare_uncached_def)
  next
    case (Inr ka)
    obtain k admitted where front: "typed_front pl grad shared cid a src d rq = Inr (k, admitted)"
      using Inr by (cases ka) simp
    define n where "n = parameter_bytes k"
    obtain found c1 where get: "tc_get pid k n cache = (found, c1)" by fastforce
    note m1 = memo_get(1) [OF memo get] and t1 = get_ok [OF ok get]
    let ?rest = "\<lambda>bound. res_bind (typed_target pl k src) (\<lambda>(target, view).
       res_bind (prepared_destination a (tk_bindings k) target admitted) (\<lambda>cd. Inr (bound, target, view, cd)))"
    show ?thesis
    proof (cases found)
      case (Some t)
      with memo_get(2) [OF memo get] have tf: "template_for tn k t" by simp
      then obtain u where u: "bind_typed tn (tk_bindings k) (tk_parameters k) = Inr (tt_bound t)"
        "tn_prepare tn (tt_bound t) k = Inr u" "t = u\<lparr>tt_bound := tt_bound t\<rparr>" by (auto simp: template_for_def)
      have "(r, cache') = (case ?rest (tt_bound t) of Inl e \<Rightarrow> (Inl e, c1)
          | Inr (bound, target, view, cd) \<Rightarrow> (Inr (new_prepared_typed src k target view cd t), c1))"
        using run front get Some
        by (simp add: prepare_typed_transfer_def n_def [symmetric] Let_def cong del: sum.case_cong_weak prod.case_cong_weak)
      moreover have "prepare_uncached pl tn grad shared cid a src d rq = (case ?rest (tt_bound t) of Inl e \<Rightarrow> Inl e
          | Inr (bound, target, view, cd) \<Rightarrow> Inr (new_prepared_typed src k target view cd t))"
        using front u by (cases "typed_target pl k src")
          (auto simp: prepare_uncached_def native_result_def res_bind_def split: sum.splits)
      ultimately show ?thesis using m1 t1 by (auto split: sum.splits)
    next
      case None
      show ?thesis
      proof (cases "res_bind (bind_typed tn (tk_bindings k) (tk_parameters k)) ?rest")
        case (Inl e)
        then have "prepare_uncached pl tn grad shared cid a src d rq = Inl e"
          using front by (auto simp: prepare_uncached_def res_bind_eq_Inl split: prod.splits)
        moreover have "(r, cache') = (Inl e, c1)"
          using run front get None Inl by (simp add: prepare_typed_transfer_def n_def [symmetric] Let_def)
        ultimately show ?thesis using m1 t1 by simp
      next
        case (Inr q)
        then obtain bound target view cd where q: "bind_typed tn (tk_bindings k) (tk_parameters k) = Inr bound"
          "typed_target pl k src = Inr (target, view)"
          "prepared_destination a (tk_bindings k) target admitted = Inr cd" "q = (bound, target, view, cd)"
          by auto
        let ?nat = "native_result (\<lambda>t. UnsupportedRecipe (error_code t) t) (tn_prepare tn bound k)"
        have un: "prepare_uncached pl tn grad shared cid a src d rq = res_bind ?nat (\<lambda>t.
            Inr (new_prepared_typed src k target view cd (t\<lparr>tt_bound := bound\<rparr>)))"
          using front q by (simp add: prepare_uncached_def)
        have go: "(r, cache') = (case ?nat of Inl e \<Rightarrow> (Inl e, c1)
            | Inr t \<Rightarrow> (case tc_put pid k (t\<lparr>tt_bound := bound\<rparr>) n c1 of Inl e \<Rightarrow> (Inl e, c1)
              | Inr (t, cache) \<Rightarrow> (Inr (new_prepared_typed src k target view cd t), cache)))"
          using run front get None q
          by (simp add: prepare_typed_transfer_def n_def Let_def cong del: sum.case_cong_weak prod.case_cong_weak)
        show ?thesis
        proof (cases ?nat)
          case (Inl e)
          with un go m1 t1 show ?thesis by simp
        next
          case nat: (Inr t)
          then have tp: "tn_prepare tn bound k = Inr t" by (auto simp: native_result_def split: sum.splits)
          with q(1) have tf: "template_for tn k (t\<lparr>tt_bound := bound\<rparr>)" by (simp add: template_for_def)
          obtain w c2 where put: "tc_put pid k (t\<lparr>tt_bound := bound\<rparr>) n c1 = Inr (w, c2)" "templates_ok c2"
            by (rule put_ok [OF t1, of n pid k "t\<lparr>tt_bound := bound\<rparr>"]) (simp_all add: n_def parameter_bytes_nonneg)
          from memo_put [OF m1 tf put(1)] template_for_unique [OF _ tf, of w]
          have "w = t\<lparr>tt_bound := bound\<rparr>" "memo_ok (template_for tn) c2" by auto
          with un go nat put show ?thesis by simp
        qed
      qed
    qed
  qed
  then show ?same "templates_ok cache'" "memo_ok (template_for tn) cache'" by auto
qed

section \<open>Execution of typed requests\<close>

lemma typed_returns:
  assumes "typed_body wire (xa, x) q = ((Inr (out, report), q'), n)"
  shows "n = 1 \<and> \<not> py_consumed q \<and> py_consumed q' \<and> tx_allocated x = Inr out \<and>
    storage_snapshot (tx_source x) = py_storage q \<and>
    map_of report ''policy'' = map_of (py_selected q) ''policy'' \<and>
    map_of report ''placement_reason'' = map_of (py_selected q) ''placement_reason''"
  using assms
  by (auto simp: typed_body_def recheck_typed_def native_result_def final_report_def lookup_def Let_def
      split: if_splits sum.splits option.splits)

text \<open>Every parameter a request ran with had the very bytes it was prepared with.\<close>

lemma recheck_parameters_same:
  "recheck_parameters now declared snapshots names = Inr u \<Longrightarrow> name \<in> set names \<Longrightarrow>
     \<exists>v dtype extents prepared. map_of now name = Some v \<and> map_of declared name = Some (dtype, extents) \<and>
       map_of snapshots name = Some prepared \<and> parameter_snapshot name v dtype = Inr prepared"
  by (induction now declared snapshots names rule: recheck_parameters.induct)
    (auto split: option.splits prod.splits sum.splits exn.splits if_splits)

lemma snapshots_of_names: "snapshots_of ps declared = Inr ss \<Longrightarrow> map fst ss = map fst declared"
  by (induction ps declared arbitrary: ss rule: snapshots_of.induct) (auto split: option.splits)

lemma parameter_snapshot_values:
  assumes "parameter_snapshot name v ''int32'' = Inr s" and "parameter_snapshot name w ''int32'' = Inr s"
    and "pv_dtype v \<in> {''int64'', ''int16'', ''int8''}" and "pv_dtype w \<in> {''int64'', ''int16'', ''int8''}"
  shows "pv_values v = pv_values w \<and> pv_extents v = pv_extents w"
proof -
  from assms have r: "\<forall>n\<in>set (pv_values v) \<union> set (pv_values w). - (2 ^ 31) \<le> n \<and> n < 2 ^ 31"
    and s: "s = (''int32'', pv_extents v, int32_bytes (pv_values v))"
      "s = (''int32'', pv_extents w, int32_bytes (pv_values w))"
    by (auto simp: parameter_snapshot_def not_less not_le split: if_splits)
  from s int32_bytes_inject [OF r] show ?thesis by simp
qed

end
