(* ===== verification/Eager.thy ===== *)
theory Eager
  imports Runtime
begin

text \<open>
  \<open>reloc_torch/eager.py\<close>, with \<open>compat.tensor_metadata\<close> on a real tensor: the decision whether a
  dispatched operator is an eager transfer to replace, and the dispatch of one intercepted call.
\<close>

section \<open>Observed metadata\<close>

text \<open>\<open>layout\<close> without its prefix; pinning is only queried for a strided CPU tensor.\<close>

definition metadata_of :: "live \<Rightarrow> bool \<Rightarrow> tensor_metadata" where
  "metadata_of t pinned = \<lparr>tm_shape = map DInt (lv_shape t), tm_strides = map DInt (lv_strides t),
     tm_storage_offset = DInt (lv_offset t), tm_dtype = lv_dtype t, tm_device_type = dv_type (lv_device t),
     tm_device_index = dv_index (lv_device t), tm_requires_grad = lv_requires_grad t, tm_layout = lv_layout t,
     tm_pinned = (dv_type (lv_device t) = ''cpu'' \<and> lv_layout t = ''strided'' \<and> pinned),
     tm_is_subclass = (\<not> lv_plain t),
     tm_storage_capacity_bytes = (if lv_layout t = ''strided'' then Some (lv_capacity t) else None)\<rparr>"

fun dense_strides_loop :: "dimension list \<Rightarrow> int \<Rightarrow> int list" where
  "dense_strides_loop [] running = []"
| "dense_strides_loop (DInt n # rest) running = running # dense_strides_loop rest (running * n)"
| "dense_strides_loop (DSym _ # rest) running = running # dense_strides_loop rest running"

definition eager_dense_strides :: "dimension list \<Rightarrow> dimension list" where
  "eager_dense_strides shape = map DInt (rev (dense_strides_loop (rev shape) 1))"

section \<open>The decision\<close>

text \<open>The schema-bound options of one \<open>_to_copy\<close> call; \<open>None\<close> is an absent or \<open>None\<close> argument.\<close>

record copy_options =
  co_layout :: "string option"
  co_pin_memory :: bool
  co_memory_format :: "string option"
  co_device :: "device option"
  co_dtype :: "string option"
  co_non_blocking :: bool

record eager_decision =
  dn_reason :: "string option"
  dn_direction :: "string option"
  dn_device :: "device option"

definition declined :: "string \<Rightarrow> eager_decision" where
  "declined reason = \<lparr>dn_reason = Some reason, dn_direction = None, dn_device = None\<rparr>"

text \<open>The current CUDA device, or \<open>None\<close> when CUDA is not available.\<close>

definition canonical_device :: "int option \<Rightarrow> device \<Rightarrow> device" where
  "canonical_device current d = (if dv_type d = ''cuda'' \<and> dv_index d = None
     then d\<lparr>dv_index := Some (case current of Some i \<Rightarrow> i | None \<Rightarrow> 0)\<rparr> else d)"

definition eager_record :: "bool \<Rightarrow> live \<Rightarrow> bool \<Rightarrow> device \<Rightarrow> string \<Rightarrow> bool \<Rightarrow> transfer_record" where
  "eager_record grad src pinned d dtype non_blocking =
     (let m = metadata_of src pinned;
          source = (if tm_requires_grad m \<and> \<not> grad then m\<lparr>tm_requires_grad := False\<rparr> else m)
      in \<lparr>tr_operator = ''aten._to_copy.default'', tr_phase = ''eager'', tr_source = source,
          tr_destination = source\<lparr>tm_strides := eager_dense_strides (tm_shape source),
            tm_storage_offset := DInt 0, tm_dtype := dtype, tm_device_type := dv_type d,
            tm_device_index := (if dv_type d \<noteq> ''cpu'' then dv_index d else None), tm_pinned := False\<rparr>,
          tr_non_blocking = non_blocking, tr_mutates = False, tr_aliases_source = False,
          tr_layout_history = [], tr_failure_type = None, tr_failure_message = None\<rparr>)"

definition decide ::
  "bool \<Rightarrow> int option \<Rightarrow> bool \<Rightarrow> live option \<Rightarrow> bool \<Rightarrow> copy_options \<Rightarrow> eager_decision" where
  "decide grad current is_copy first pinned co =
     (case (is_copy, first) of
        (True, Some src) \<Rightarrow>
          if \<not> lv_plain src then declined ''tensor_subclass''
          else if co_layout co \<notin> {None, Some ''strided''} then declined ''unsupported_layout''
          else if co_pin_memory co then declined ''pinned_transfer_unavailable''
          else if co_memory_format co \<notin> {None, Some ''preserve_format'', Some ''contiguous_format''}
          then declined ''unsupported_memory_format''
          else
            let d = canonical_device current (case co_device co of None \<Rightarrow> lv_device src | Some d \<Rightarrow> d);
                dtype = (case co_dtype co of None \<Rightarrow> lv_dtype src | Some t \<Rightarrow> t)
            in if d = lv_device src
               then declined (if dtype \<noteq> lv_dtype src then ''typed_transform_unavailable'' else ''same_device_copy'')
               else if dtype \<noteq> lv_dtype src then declined ''typed_transform_unavailable''
               else
                 let e = classify (ObservedTransfer (eager_record grad src pinned d dtype (co_non_blocking co)))
                 in if \<not> el_candidate e then declined (el_reason e)
                    else \<lparr>dn_reason = None,
                      dn_direction = Some (if dv_type (lv_device src) = ''cpu'' then ''h2d'' else ''d2h''),
                      dn_device = Some d\<rparr>
      | _ \<Rightarrow> declined ''unsupported_operator'')"

section \<open>One intercepted call\<close>

text \<open>
  \<open>__torch_dispatch__\<close>: the redispatched operator and the common executor are the two ways a call
  runs; interception is thread-local, with its suspension depth.
\<close>

datatype interception = Redispatched string | PassedThrough | Offloaded

definition dispatch_call ::
  "nat \<Rightarrow> bool \<Rightarrow> eager_decision \<Rightarrow> exn option \<Rightarrow> diagnostics \<Rightarrow> interception res \<times> diagnostics" where
  "dispatch_call depth is_copy de entry_error d =
     (if \<not> is_copy \<or> 0 < depth then (Inr PassedThrough, d)
      else case dn_reason de of
        Some reason \<Rightarrow> (Inr (Redispatched reason), record_redispatch reason d)
      | None \<Rightarrow> (case entry_error of
          Some (UnsupportedRecipe reason _) \<Rightarrow> (Inr (Redispatched reason), record_exclusion reason d)
        | Some e \<Rightarrow> (Inl e, d)
        | None \<Rightarrow> (Inr Offloaded, d)))"

section \<open>What interception guarantees\<close>

lemma decide_accepts:
  assumes "dn_reason (decide grad current is_copy first pinned co) = None"
  obtains src d where "is_copy" and "first = Some src" and "lv_plain src"
    and "d = canonical_device current (case co_device co of None \<Rightarrow> lv_device src | Some d \<Rightarrow> d)"
    and "d \<noteq> lv_device src" and "case co_dtype co of None \<Rightarrow> True | Some t \<Rightarrow> t = lv_dtype src"
    and "el_candidate (classify_transfer (eager_record grad src pinned d (lv_dtype src) (co_non_blocking co)))"
    and "decide grad current is_copy first pinned co = \<lparr>dn_reason = None,
      dn_direction = Some (if dv_type (lv_device src) = ''cpu'' then ''h2d'' else ''d2h''), dn_device = Some d\<rparr>"
proof -
  from assms obtain src where src: "is_copy" "first = Some src"
    by (auto simp: decide_def declined_def split: bool.splits option.splits)
  let ?d = "canonical_device current (case co_device co of None \<Rightarrow> lv_device src | Some d \<Rightarrow> d)"
  have "lv_plain src \<and> ?d \<noteq> lv_device src \<and> (case co_dtype co of None \<Rightarrow> True | Some t \<Rightarrow> t = lv_dtype src) \<and>
    el_candidate (classify_transfer (eager_record grad src pinned ?d (lv_dtype src) (co_non_blocking co))) \<and>
    decide grad current is_copy first pinned co = \<lparr>dn_reason = None,
      dn_direction = Some (if dv_type (lv_device src) = ''cpu'' then ''h2d'' else ''d2h''), dn_device = Some ?d\<rparr>"
    using assms src
    by (auto simp: decide_def declined_def classify_def Let_def split: if_split_asm option.splits)
  with src that show ?thesis by blast
qed

text \<open>
  An accepted call passes the boundary's own guard: the source the eager mode hands to the executor is
  never one it refuses, provided PyTorch calls a densely strided tensor contiguous.
\<close>

lemma plain_dense_source:
  assumes "plain_dense m" and "m = metadata_of t pinned \<or> m = (metadata_of t pinned)\<lparr>tm_requires_grad := False\<rparr>"
    and "tm_requires_grad m = (lv_requires_grad t \<and> grad)" and "lv_plain t"
    and "is_dense_contiguous m \<Longrightarrow> lv_contiguous t"
  shows "source_reason grad t = None"
proof -
  from assms(2) have m: "tm_shape m = map DInt (lv_shape t)" "tm_storage_offset m = DInt (lv_offset t)"
    "tm_dtype m = lv_dtype t" "tm_device_type m = dv_type (lv_device t)" "tm_device_index m = dv_index (lv_device t)"
    "tm_layout m = lv_layout t"
    "tm_storage_capacity_bytes m = (if lv_layout t = ''strided'' then Some (lv_capacity t) else None)"
    by (auto simp: metadata_of_def)
  from assms(1) have p: "\<not> (lv_requires_grad t \<and> grad)" "\<not> unsupported_device (lv_device t)"
    "lv_dtype t \<in> {''float32'', ''float16'', ''bfloat16'', ''int8''}" "lv_layout t = ''strided''"
    "lv_shape t \<noteq> []" "0 \<notin> set (lv_shape t)" "lv_capacity t \<noteq> 0" "lv_offset t = 0" "is_dense_contiguous m"
    unfolding plain_dense_def assms(3) bad_device_def unsupported_device_def supported_devices_def
      supported_dtypes_def m by auto
  with assms(4,5) show ?thesis by (auto simp: source_reason_def)
qed

lemma decide_admitted:
  assumes acc: "decide grad current is_copy (Some src) pinned co = de" "dn_reason de = None"
    and torch: "\<And>m. tm_shape m = map DInt (lv_shape src) \<Longrightarrow> tm_strides m = map DInt (lv_strides src) \<Longrightarrow>
      is_dense_contiguous m \<Longrightarrow> lv_contiguous src"
  shows "source_reason grad src = None"
proof -
  have none: "dn_reason (decide grad current is_copy (Some src) pinned co) = None" using acc by simp
  obtain d where plain: "lv_plain src"
    and cand: "el_candidate (classify_transfer (eager_record grad src pinned d (lv_dtype src) (co_non_blocking co)))"
    by (rule decide_accepts [OF none]) auto
  let ?m = "tr_source (eager_record grad src pinned d (lv_dtype src) (co_non_blocking co))"
  have m: "?m = metadata_of src pinned \<or> ?m = (metadata_of src pinned)\<lparr>tm_requires_grad := False\<rparr>"
    "tm_requires_grad ?m = (lv_requires_grad src \<and> grad)"
    "tm_shape ?m = map DInt (lv_shape src)" "tm_strides ?m = map DInt (lv_strides src)"
    by (auto simp: eager_record_def Let_def metadata_of_def)
  from cand have "plain_dense ?m" unfolding classify_transfer_candidate by blast
  from plain_dense_source [OF this m(1,2) plain] torch [OF m(3,4)] show ?thesis by blast
qed

text \<open>A suspended thread, and any other operator, goes straight through and records nothing.\<close>

lemma dispatch_suspended: "0 < depth \<or> \<not> is_copy \<Longrightarrow> dispatch_call depth is_copy de err d = (Inr PassedThrough, d)"
  by (auto simp: dispatch_call_def)

lemma dispatch_counts_once:
  assumes "diagnostics_ok d" and "dispatch_call 0 True de err d = (Inr how, d')"
  shows "total (dg_redispatches d') + total (dg_exclusions d') =
    total (dg_redispatches d) + total (dg_exclusions d) + (if how = Offloaded then 0 else 1)"
  using assms by (auto simp: dispatch_call_def record_redispatch_def record_exclusion_def diagnostics_ok_def total_bump
      split: option.splits exn.splits)

lemma dense_strides_loop_ints: "dense_strides_loop (map DInt ns) running = map (\<lambda>i. running * prod_list (take i ns)) [0..<length ns]"
proof (induction ns arbitrary: running)
  case (Cons n ns)
  have "map (\<lambda>i. running * prod_list (take i (n # ns))) [0..<Suc (length ns)] =
      running # map (\<lambda>i. running * n * prod_list (take i ns)) [0..<length ns]"
    by (subst upt_conv_Cons) (simp_all add: map_Suc_upt [symmetric] mult.assoc del: map_Suc_upt upt_Suc)
  with Cons show ?case by simp
qed simp

lemma eager_dense_strides_row_major: "eager_dense_strides (map DInt ns) = map DInt (row_major ns)"
proof -
  have "rev (dense_strides_loop (map DInt (rev ns)) 1) = row_major ns"
  proof (rule nth_equalityI)
    fix i assume "i < length (rev (dense_strides_loop (map DInt (rev ns)) 1))"
    then have i: "i < length ns" by (simp add: dense_strides_loop_ints)
    then have "length ns - Suc i < length ns" by simp
    with i have "rev (dense_strides_loop (map DInt (rev ns)) 1) ! i = prod_list (take (length ns - Suc i) (rev ns))"
      by (simp add: dense_strides_loop_ints rev_nth)
    also have "take (length ns - Suc i) (rev ns) = rev (drop (Suc i) ns)"
      using i by (simp add: take_rev)
    finally show "rev (dense_strides_loop (map DInt (rev ns)) 1) ! i = row_major ns ! i"
      using i by (simp add: row_major_nth prod_list_rev)
  qed (simp add: dense_strides_loop_ints)
  then show ?thesis by (simp add: eager_dense_strides_def rev_map)
qed

end
