(* ===== verification/Worked_Call.thy ===== *)
theory Worked_Call
  imports Worked_Example Wire_Weights Dispatch Eager
begin

text \<open>
  Calls on concrete tensors: the vector artifact of \<open>Worked_Example\<close> executed on a CUDA host, and the
  typed artifact of prepared weights.
\<close>

definition cpu :: device where "cpu = \<lparr>dv_type = ''cpu'', dv_index = None\<rparr>"

definition gpu0 :: device where "gpu0 = \<lparr>dv_type = ''cuda'', dv_index = Some 0\<rparr>"

definition host_vector :: live where
  "host_vector = \<lparr>lv_id = 1, lv_plain = True, lv_requires_grad = False, lv_device = cpu, lv_dtype = ''float32'',
     lv_layout = ''strided'', lv_shape = [128], lv_strides = [1], lv_offset = 0, lv_contiguous = True,
     lv_lazy_view = False, lv_base = 4096, lv_capacity = 512, lv_item_bytes = 4\<rparr>"

definition device_matrix :: live where
  "device_matrix = host_vector\<lparr>lv_id := 2, lv_device := gpu0, lv_shape := [64, 2], lv_strides := [2, 1], lv_base := 8192\<rparr>"

definition matrix_descriptor :: concrete_descriptor where
  "matrix_descriptor = \<lparr>cd_shape = [64, 2], cd_strides = [2, 1], cd_dtype = ''float32'', cd_device = gpu0\<rparr>"

definition vector_entry :: entry where
  "vector_entry = \<lparr>en_identity = 7, en_compiled = readme_artifact, en_symbolic = [], en_guards = [],
     en_indexed = False, en_handle = Some ''reloc-1-0'', en_closed = False, en_event_set = False\<rparr>"

definition vector_host :: host where
  "vector_host = \<lparr>ho_grad = False, ho_alias = (\<lambda>t u. lv_base t = lv_base u),
     ho_original = (\<lambda>src args ps. Inr (Some device_matrix)), ho_synchronize = Inr (),
     ho_replay = (\<lambda>path. Inr (Some device_matrix)), ho_transport = True,
     ho_preflight = (\<lambda>opts. (1, Inr (new_prepared host_vector [(''s0'', PyInt 128)] matrix_descriptor 3))),
     ho_source_now = host_vector, ho_execute = (\<lambda>call. Inr (Some device_matrix, None, [])),
     ho_situation = \<lparr>si_pid = 1, si_open = None, si_execution = ''{}'', si_epoch = 0, si_retained = False,
       si_cuda_enabled = True, si_hardware = None, si_device = ''cuda:0'', si_log_ratio = (\<lambda>n m. 0)\<rparr>,
     ho_epoch_after = 0\<rparr>"

definition quiet_world :: world where
  "quiet_world = \<lparr>wd_diagnostics = new_diagnostics, wd_fallback_calls = 0, wd_policy = None, wd_log = []\<rparr>"

definition vector_call :: "bool \<Rightarrow> live option res \<times> world" where
  "vector_call non_blocking = execute_or_fallback vector_host None vector_entry host_vector None gpu0 non_blocking
     None [] quiet_world"

lemma quiet_world_ok: "world_ok quiet_world"
  by (simp add: world_ok_def quiet_world_def new_diagnostics_ok)

lemma vector_admitted: "source_reason False host_vector = None"
  by code_simp

lemma vector_bound: "bind_values readme_artifact (tensor_view host_vector) None = Inr [(''s0'', PyInt 128)]"
proof -
  have "tensor_spec_of (tensor_view host_vector) = Inr (vector_source 128)"
    by (simp add: tensor_spec_of_def tensor_view_def host_vector_def vector_source_def remove_prefix_def)
  then show ?thesis
    using readme_metadata by (simp add: bind_values_def cr_indexed_def readme_artifact_def)
qed

lemma vector_destination: "destination_descriptor readme_artifact [(''s0'', PyInt 128)] gpu0 = Inr matrix_descriptor"
  by (simp add: destination_descriptor_def destination_metadata_def readme_artifact_def readme_recipe_def
      matrix_descriptor_def reason_of_def in_i64_def py_floordiv_def fit_def i64_py_def)

lemma vector_frontend:
  "frontend_bind vector_host None vector_entry host_vector gpu0 [] = Inr ([(''s0'', PyInt 128)], matrix_descriptor)"
  using vector_bound vector_destination
  by (simp add: frontend_bind_def vector_entry_def bind_symbols_def reason_of_def)

lemma vector_flags:
  "\<not> entry_closed vector_entry" "parameter_names vector_entry = []" "\<not> ho_grad vector_host"
  "en_indexed vector_entry = False" "\<not> cr_typed (en_compiled vector_entry)"
  by (simp_all add: entry_closed_def parameter_names_def vector_entry_def cr_typed_def cr_indexed_def
      readme_artifact_def typed_schema_def vector_host_def)

lemma vector_increments: "\<exists>d. increment name n new_diagnostics = Inr d" if "name \<in> set counter_names"
  using increment_known [OF new_diagnostics_ok that] .

lemma vector_verified: "verify_result (ho_alias vector_host) (Some device_matrix) host_vector matrix_descriptor = Inr (Some device_matrix)"
  by code_simp

lemma vector_launches:
  "fst (vector_call False) = Inr (Some device_matrix) \<and> wd_log (snd (vector_call False)) = [Launched] \<and>
     wd_fallback_calls (snd (vector_call False)) = 0"
proof -
  have "vector_call False = after_binding vector_host vector_entry host_vector None None []
     [(''s0'', PyInt 128)] matrix_descriptor quiet_world"
    by (simp add: vector_call_def execute_or_fallback_def vector_flags vector_admitted vector_frontend)
  also have "\<dots> = adapter_branch vector_host vector_entry host_vector None [] [] [(''s0'', PyInt 128)]
     matrix_descriptor matrix_descriptor None quiet_world"
    by (simp add: after_binding_def act_bind_def lift_res_def choose_placement_def quiet_world_def vector_flags)
  finally have run: "vector_call False = \<dots>" .
  show ?thesis unfolding run by code_simp
qed

section \<open>A prepared layout transfer\<close>

definition cuda_platform :: platform where
  "cuda_platform = \<lparr>pl_cuda_built = True, pl_cuda_available = True, pl_current_device = 0, pl_pointer_device = Inr 0\<rparr>"

definition vector_transfer :: prepared_transfer where
  "vector_transfer = \<lparr>pt_bindings = [(''s0'', PyInt 128)], pt_bound = 11, pt_destination = matrix_descriptor,
     pt_direction = ''h2d'', pt_device = gpu0, pt_view = storage_view host_vector ''host'' (-1), pt_span = 512,
     pt_request = None, pt_consumed = False, pt_staging = [], pt_snapshot = storage_snapshot host_vector\<rparr>"

definition vector_execution :: execution where
  "vector_execution = \<lparr>ex_source = host_vector, ex_allocated = Inr device_matrix, ex_made = Inr 5,
     ex_stream = Inr (), ex_ran = Inr (), ex_staging = []\<rparr>"

definition vector_request :: layout_call where
  "vector_request = \<lparr>lc_resources = ResNone, lc_same_process = True, lc_pinning = OText ''auto'',
     lc_min_pinned_bytes = ONone, lc_execution = vector_execution\<rparr>"

lemma vector_body_runs: "\<exists>q'. transfer_body vector_execution vector_transfer = ((Inr device_matrix, q'), 1)"
  by (simp add: transfer_body_def vector_execution_def vector_transfer_def recheck_transfer_def native_result_def)

lemma vector_transfer_runs: "\<exists>q'. execute_transfer vector_request vector_transfer = ((Inr device_matrix, q'), 1)"
  using vector_body_runs
  by (simp add: execute_transfer_def vector_request_def transfer_configuration_def check_option_def
      check_integer_option_def integer_options_def check_owner_def)

section \<open>A typed weight\<close>

definition weight_artifact :: compiled_recipe where
  "weight_artifact = readme_artifact\<lparr>cr_recipe := wire_recipe ''float32'', cr_wire_version := 1,
     cr_symbols := [''out'', ''in''],
     cr_symbol_sources := [
       \<lparr>ss_name = ''out'', ss_axis = 0, ss_equal_axes = [], ss_operand = ''source''\<rparr>,
       \<lparr>ss_name = ''in'', ss_axis = 1, ss_equal_axes = [], ss_operand = ''source''\<rparr>],
     cr_constraints := [], cr_logical_source := r_source (wire_recipe ''float32''),
     cr_logical_destination := r_destination (wire_recipe ''float32''),
     cr_parameters := [\<lparr>pd_name = ''scale'', pd_dtype = ''float32'', pd_extents = [Symbol ''out'']\<rparr>]\<rparr>"

definition host_weight :: live where
  "host_weight = host_vector\<lparr>lv_id := 3, lv_dtype := ''int8'', lv_shape := [2, 3], lv_strides := [3, 1],
     lv_base := 16384, lv_capacity := 6, lv_item_bytes := 1\<rparr>"

definition weight_request :: typed_request where
  "weight_request = \<lparr>ty_policy = ''auto'', ty_calibration = CalNone, ty_threads = Some 8, ty_implementation = Some [],
     ty_parameters = [(''scale'', \<lparr>pv_plain = True, pv_device = ''cpu'', pv_dtype = ''float32'', pv_extents = [2],
       pv_values = [], pv_bytes = ''scaling!''\<rparr>)]\<rparr>"

definition weight_native :: typed_native where
  "weight_native = \<lparr>tn_bind = (\<lambda>b snapshots. Inr (length b)),
     tn_prepare = (\<lambda>bound k. Inr \<lparr>tt_bound = bound, tt_native = 1, tt_program = 2, tt_capability = [],
       tt_selection = [(''policy'', JStr ''auto'')]\<rparr>)\<rparr>"

definition zero_points :: "int list \<Rightarrow> param_tensor" where
  "zero_points vs = \<lparr>pv_plain = True, pv_device = ''cpu'', pv_dtype = ''int64'', pv_extents = [int (length vs)],
     pv_values = vs, pv_bytes = []\<rparr>"

lemma weight_prepares:
  "case prepare_uncached cuda_platform weight_native False None 9 weight_artifact host_weight gpu0 weight_request of
     Inl _ \<Rightarrow> False | Inr q \<Rightarrow> cd_shape (py_destination q) = [2, 3]"
  by code_simp

section \<open>A measured recipe\<close>

definition cast_recipe :: recipe where
  "cast_recipe = \<lparr>r_source = \<lparr>ts_shape = [Symbol ''n'', Symbol ''m''], ts_strides = [Symbol ''m'', Const 1],
      ts_offset = Const 0, ts_dtype = ''float32''\<rparr>,
    r_operations = [Transpose [1, 0], Cast ''float16'' ''ieee_rne''],
    r_destination = \<lparr>ts_shape = [Symbol ''m'', Symbol ''n''], ts_strides = [Symbol ''n'', Const 1],
      ts_offset = Const 0, ts_dtype = ''float16''\<rparr>,
    r_direction = ''h2d''\<rparr>"

definition cast_family :: family where
  "cast_family = (''h2d'', ''float32'', ''float16'', 2, [FTranspose [1, 0], FCast ''float16'' ''ieee_rne''])"

definition idle_load :: workload where
  "idle_load = \<lparr>cx_cpu_load = ''idle'', cx_gpu_load = ''idle'', cx_overlap = ''none''\<rparr>"

definition measured :: "string \<Rightarrow> int list \<Rightarrow> int \<Rightarrow> rat \<Rightarrow> sample" where
  "measured path shape wire ms = \<lparr>ob_family = cast_family, ob_shape = shape, ob_strides = row_major shape, ob_path = path,
     ob_wire_bytes = wire, ob_state = ''cold'', ob_context = idle_load, ob_completed_ms = ms\<rparr>"

definition measured_profile :: profile where
  "measured_profile = \<lparr>pf_hardware = ''bench'', pf_execution = ''{}'', pf_samples =
     [measured ''torch_cpu'' [4, 8] 64 5, measured ''sym_gpu'' [4, 4] 64 2, measured ''sym_gpu'' [4, 8] 128 3]\<rparr>"

definition measured_policy :: policy where
  "measured_policy = \<lparr>po_profile = Some measured_profile, po_capacity = 4, po_context = idle_load,
     po_pid = 1, po_seen = [], po_counts = [], po_predictions = [], po_cached_profile = Some measured_profile,
     po_forced = None, po_last = None\<rparr>"

definition measured_situation :: situation where
  "measured_situation = (ho_situation vector_host)\<lparr>si_hardware := Some ''bench'',
     si_log_ratio := (\<lambda>n m. if n = m then 0 else 1)\<rparr>"

lemma measured_policy_ok: "policy_ok measured_policy"
  by (rule new_policy_ok [of 1 "Some measured_profile" idle_load "PyInt 4"])
    (simp add: new_policy_def check_context_def idle_load_def measured_policy_def)

lemma measured_choice:
  obtains key chosen po' where "choose_path measured_situation cast_recipe [4, 8] [8, 1] measured_policy =
       Inr (Some (''sym_gpu'', key, chosen), po')" and "pr_reason chosen = ''lowest_completed_cost''"
proof -
  have "case choose_path measured_situation cast_recipe [4, 8] [8, 1] measured_policy of
      Inr (Some (choice, key, chosen), po') \<Rightarrow> choice = ''sym_gpu'' \<and> pr_reason chosen = ''lowest_completed_cost''
    | _ \<Rightarrow> False" by code_simp
  with that show thesis by (auto split: sum.splits option.splits prod.splits)
qed

lemma measured_prediction:
  obtains ms where "predict (\<lambda>n m. if n = m then 0 else 1) measured_profile cast_family [4, 6] ''sym_gpu'' ''cold''
     idle_load 96 = Some ms"
proof -
  have "predict (\<lambda>n m. if n = m then 0 else 1) measured_profile cast_family [4, 6] ''sym_gpu'' ''cold''
     idle_load 96 \<noteq> None" by code_simp
  with that show thesis by auto
qed

lemma measured_range:
  "\<forall>s\<in>set (matching_samples measured_profile cast_family [4, 6] ''sym_gpu'' ''cold'' idle_load 96).
     2 \<le> ob_completed_ms s \<and> ob_completed_ms s \<le> 3"
  by (simp add: matching_samples_def measured_profile_def measured_def)

definition copy_to_gpu :: copy_options where
  "copy_to_gpu = \<lparr>co_layout = None, co_pin_memory = False, co_memory_format = None, co_device = Some gpu0,
     co_dtype = None, co_non_blocking = False\<rparr>"

end
