(* ===== verification/Runtime_Properties.thy ===== *)
theory Runtime_Properties
  imports Worked_Call
begin

text \<open>
  The properties of execution: one piece of work per call, single-use requests, reuse of checked
  metadata and templates, placement and interception.
\<close>

section \<open>One piece of work per call\<close>

text \<open>
  C3. A call does its work at most once.  Whatever the source, the symbols, the policy and every outside
  outcome are, \<open>execute_or_fallback\<close> runs the saved region, replays it or launches at most once in all; a
  call that returns did exactly one of them; it counts at most one fallback, in both places alike, and when it
  counts one the saved region is exactly what ran, unless the scalar arguments of that region could not be
  evaluated: then nothing ran and the call ended with that error; and a returned result passed verification
  against the promised metadata.
\<close>

theorem one_execution:
  assumes "world_ok w"
    and "execute_or_fallback h shared en src symbols d nb declared ps w = (r, w')"
  shows "world_ok w' \<and> (\<exists>es k. wd_log w' = wd_log w @ es \<and> wd_fallback_calls w' = wd_fallback_calls w + k \<and>
    total (dg_fallbacks (wd_diagnostics w')) = total (dg_fallbacks (wd_diagnostics w)) + int k \<and>
    one_piece h en src declared r es k)"
  using execute_once [of h shared en src symbols d nb declared ps] assms unfolding emits_def by blast

theorem one_execution_witness:
  "world_ok (snd (vector_call False)) \<and> wd_log (snd (vector_call False)) = [Launched] \<and>
     (\<exists>k. one_piece vector_host vector_entry host_vector None (fst (vector_call False)) [Launched] k)"
proof -
  obtain r w' where run: "execute_or_fallback vector_host None vector_entry host_vector None gpu0 False None [] quiet_world = (r, w')"
    by fastforce
  from one_execution [OF quiet_world_ok run] vector_launches run show ?thesis
    by (auto simp: vector_call_def quiet_world_def)
qed

text \<open>
  An excluded source never launches: when the caller asks for a non-blocking transfer or the source's
  metadata is refused, only the saved region can run, no placement or adapter is consulted, and no
  execution counter moves.
\<close>

theorem exclusion_never_launches:
  assumes "nb \<or> source_reason (ho_grad h) src \<noteq> None" and "world_ok w"
    and "execute_or_fallback h shared en src symbols d nb declared ps w = (r, w')"
  shows "\<exists>es. wd_log w' = wd_log w @ es \<and> set es \<subseteq> {RanOriginal} \<and>
    dg_counters (wd_diagnostics w') = dg_counters (wd_diagnostics w)"
  using assms by (rule excluded_never_launches)

theorem exclusion_never_launches_witness:
  "set (wd_log (snd (vector_call True))) \<subseteq> {RanOriginal} \<and>
     dg_counters (wd_diagnostics (snd (vector_call True))) = dg_counters new_diagnostics"
proof -
  obtain r w' where run: "execute_or_fallback vector_host None vector_entry host_vector None gpu0 True None [] quiet_world = (r, w')"
    by fastforce
  from exclusion_never_launches [OF disjI1 quiet_world_ok this] run show ?thesis
    by (auto simp: vector_call_def quiet_world_def)
qed

section \<open>Single-use requests\<close>

text \<open>
  C13. A prepared layout transfer launches at most once, however many threads execute it and however they
  interleave at the request's lock, and it is consumed when it has launched.
\<close>

theorem layout_request_launches_once:
  assumes "(race execute_transfer)\<^sup>*\<^sup>* (ts, False, q, 0) (ts', locked, q', n)"
  shows "n \<le> 1 \<and> (n = 1 \<longrightarrow> pt_consumed q')"
  using assms by (rule layout_request.race_launches_once)

theorem layout_request_launches_once_witness:
  "\<exists>n q'. (race execute_transfer)\<^sup>*\<^sup>* ([Waiting vector_request, Waiting vector_request], False, vector_transfer, 0)
       ([Finished (Some (Inr device_matrix)), Finished None], False, q', n) \<and> n = 1 \<and> pt_consumed q'"
proof -
  let ?e = vector_request and ?q = vector_transfer
  obtain q' where body: "execute_transfer ?e ?q = ((Inr device_matrix, q'), 1)" using vector_transfer_runs by blast
  have "race execute_transfer ([Waiting ?e, Waiting ?e], False, ?q, 0) ([Holding ?e, Waiting ?e], True, ?q, 0)"
    using take_lock [of 0 "[Waiting ?e, Waiting ?e]" ?e execute_transfer ?q 0] by simp
  moreover have "race execute_transfer ([Holding ?e, Waiting ?e], True, ?q, 0) ([Holding ?e, Finished None], True, ?q, 0)"
    using refused [of 1 "[Holding ?e, Waiting ?e]" ?e execute_transfer ?q 0] by simp
  moreover have "race execute_transfer ([Holding ?e, Finished None], True, ?q, 0)
      ([Finished (Some (Inr device_matrix)), Finished None], False, q', 0 + 1)"
    using leave [of 0 "[Holding ?e, Finished None]" ?e execute_transfer ?q _ q' 1 0] body by simp
  ultimately have steps: "(race execute_transfer)\<^sup>*\<^sup>* ([Waiting ?e, Waiting ?e], False, ?q, 0)
      ([Finished (Some (Inr device_matrix)), Finished None], False, q', 1)" by (auto intro: converse_rtranclp_into_rtranclp)
  with layout_request_launches_once [OF steps] show ?thesis by blast
qed

text \<open>
  A layout transfer that returns its output ran against what was prepared: it launched exactly once, on
  a request not consumed before, the source's storage and metadata were those seen at preparation, and the
  output is the fresh allocation whose native execution succeeded.
\<close>

theorem layout_transfer_fresh:
  assumes "transfer_body x q = ((Inr out, q'), n)"
  shows "n = 1 \<and> \<not> pt_consumed q \<and> pt_consumed q' \<and> ex_allocated x = Inr out \<and> ex_ran x = Inr () \<and>
    storage_snapshot (ex_source x) = pt_snapshot q"
  using assms by (rule transfer_returns)

theorem layout_transfer_fresh_witness:
  "\<exists>q'. transfer_body vector_execution vector_transfer = ((Inr device_matrix, q'), 1) \<and> pt_consumed q'"
proof -
  obtain q' where body: "transfer_body vector_execution vector_transfer = ((Inr device_matrix, q'), 1)"
    using vector_body_runs by blast
  from layout_transfer_fresh [OF body] body show ?thesis by blast
qed

section \<open>Reuse of checked work\<close>

text \<open>
  Reusing the frontend's admission changes nothing: preparing a transfer inside the scope in which the
  source was admitted, bound and given its destination yields exactly what the full admission path yields,
  errors and counted binds included.
\<close>

theorem shared_admission_equivalent:
  assumes "source_reason grad src = None" and "bind_values a (tensor_view src) None = Inr b"
    and "destination_descriptor a b d = Inr cd"
  shows "prepare_transfer pl grad (Some (record_validated grad cid src b (Some cd))) cid a src d nb layout validate dg =
    prepare_transfer pl grad None cid a src d nb layout validate dg"
  by (rule prepare_transfer_shared [OF record_validated_ok [OF assms]])

theorem shared_admission_equivalent_witness:
  "prepare_transfer \<lparr>pl_cuda_built = True, pl_cuda_available = True, pl_current_device = 0, pl_pointer_device = Inr 0\<rparr>
       False (Some (record_validated False 7 host_vector [(''s0'', PyInt 128)] (Some matrix_descriptor))) 7
       readme_artifact host_vector gpu0 False (\<lambda>b. Inr 11) (\<lambda>bound view direction. Inr 512) None =
   prepare_transfer \<lparr>pl_cuda_built = True, pl_cuda_available = True, pl_current_device = 0, pl_pointer_device = Inr 0\<rparr>
       False None 7 readme_artifact host_vector gpu0 False (\<lambda>b. Inr 11) (\<lambda>bound view direction. Inr 512) None"
  by (rule shared_admission_equivalent [OF vector_admitted vector_bound vector_destination])

text \<open>
  C11. Template caching is invisible in results: with a cache holding only templates its own misses made,
  preparing a typed transfer returns exactly what it returns without the cache, for every key, on hits,
  misses, bypasses and errors, and the cache keeps that property and its limits.
\<close>

theorem typed_templates_transparent:
  assumes "templates_ok cache" and "memo_ok (template_for tn) cache"
    and "prepare_typed_transfer pid pl tn grad shared cid a src d rq cache = (r, cache')"
  shows "r = prepare_uncached pl tn grad shared cid a src d rq \<and> templates_ok cache' \<and> memo_ok (template_for tn) cache'"
  using prepare_typed_transparent [OF assms] by blast

theorem typed_templates_transparent_witness:
  "\<exists>r cache'. prepare_typed_transfer 1 cuda_platform weight_native False None 9 weight_artifact host_weight gpu0
       weight_request (new_templates 1 32 262144) = (r, cache') \<and>
     r = prepare_uncached cuda_platform weight_native False None 9 weight_artifact host_weight gpu0 weight_request \<and>
     (\<exists>q. r = Inr q) \<and> (\<exists>again c. prepare_typed_transfer 1 cuda_platform weight_native False None 9 weight_artifact host_weight gpu0
        weight_request cache' = (again, c) \<and> again = r)"
proof -
  let ?run = "prepare_typed_transfer 1 cuda_platform weight_native False None 9 weight_artifact host_weight gpu0 weight_request"
  have ok: "templates_ok (new_templates 1 32 262144)" by (rule new_templates_ok) simp_all
  obtain r cache' where first: "?run (new_templates 1 32 262144) = (r, cache')" by fastforce
  obtain again c where second: "?run cache' = (again, c)" by fastforce
  have "\<exists>q. prepare_uncached cuda_platform weight_native False None 9 weight_artifact host_weight gpu0 weight_request = Inr q"
    using weight_prepares by (auto split: sum.splits)
  with typed_templates_transparent [OF ok memo_new first] typed_templates_transparent [OF _ _ second] first second
  show ?thesis by metis
qed

text \<open>
  A typed transfer runs on the parameter values it was prepared with: if execution returns, every
  parameter was snapshotted again and equals its snapshot, and snapshots of int32 parameters agree only if
  the values and the shape agree, whatever integer width the tensors have.
\<close>

theorem typed_parameters_fresh:
  assumes "recheck_parameters now declared snapshots names = Inr u" and "name \<in> set names"
  shows "\<exists>v dtype extents prepared. map_of now name = Some v \<and> map_of declared name = Some (dtype, extents) \<and>
    map_of snapshots name = Some prepared \<and> parameter_snapshot name v dtype = Inr prepared \<and>
    (\<forall>w. dtype = ''int32'' \<longrightarrow> parameter_snapshot name w ''int32'' = Inr prepared \<longrightarrow>
       pv_dtype v \<in> {''int64'', ''int16'', ''int8''} \<longrightarrow> pv_dtype w \<in> {''int64'', ''int16'', ''int8''} \<longrightarrow>
       pv_values v = pv_values w \<and> pv_extents v = pv_extents w)"
proof -
  from recheck_parameters_same [OF assms] obtain v dtype extents prepared where
    "map_of now name = Some v" "map_of declared name = Some (dtype, extents)"
    "map_of snapshots name = Some prepared" and snap: "parameter_snapshot name v dtype = Inr prepared" by blast
  moreover have "pv_values v = pv_values w \<and> pv_extents v = pv_extents w"
    if "dtype = ''int32''" "parameter_snapshot name w ''int32'' = Inr prepared"
      "pv_dtype v \<in> {''int64'', ''int16'', ''int8''}" "pv_dtype w \<in> {''int64'', ''int16'', ''int8''}" for w
    using parameter_snapshot_values [of name v prepared w] that snap by blast
  ultimately show ?thesis by blast
qed

theorem typed_parameters_fresh_witness:
  "\<exists>v dtype extents prepared. map_of [(''zero'', zero_points [3, -4])] ''zero'' = Some v \<and>
     map_of [(''zero'', ''int32'', [2])] ''zero'' = Some (dtype, extents) \<and>
     parameter_snapshot ''zero'' v dtype = Inr (prepared :: param_snapshot)"
proof -
  have "recheck_parameters [(''zero'', zero_points [3, -4])] [(''zero'', ''int32'', [2])]
      [(''zero'', ''int32'', [2], int32_bytes [3, -4])] [''zero''] = Inr ()"
    by (simp add: zero_points_def parameter_snapshot_def)
  from typed_parameters_fresh [OF this] show ?thesis by auto
qed

section \<open>Placement\<close>

text \<open>
  A placement choice is always qualified and explained: the chosen path is one the recipe and the
  build support, a choice labelled \<open>lowest_completed_cost\<close> has the least prediction of all, any other
  unforced choice is the recipe's fallback path, and the policy's tables stay within capacity.
\<close>

theorem placement_choice:
  assumes "policy_ok po" and "choose_path si r shape strides po = Inr (Some (choice, key, chosen), po')"
  shows "choice \<in> set (eligible_paths r (si_cuda_enabled si)) \<and> pr_path chosen = choice \<and> policy_ok po' \<and>
    po_forced po' = po_forced po \<and>
    (pr_reason chosen = ''lowest_completed_cost'' \<longrightarrow>
      (\<exists>ms. (choice, ms) \<in> set (pr_predictions chosen) \<and> (\<forall>q\<in>set (pr_predictions chosen). ms \<le> snd q))) \<and>
    (pr_reason chosen \<noteq> ''lowest_completed_cost'' \<longrightarrow> pr_reason chosen \<noteq> ''forced'' \<longrightarrow> choice = fallback_path r)"
  using choose_path_ok [OF assms] by blast

theorem placement_choice_witness:
  "\<exists>key chosen po'. choose_path measured_situation cast_recipe [4, 8] [8, 1] measured_policy =
       Inr (Some (''sym_gpu'', key, chosen), po') \<and> pr_reason chosen = ''lowest_completed_cost'' \<and>
     (\<exists>ms. (''sym_gpu'', ms) \<in> set (pr_predictions chosen) \<and> (\<forall>q\<in>set (pr_predictions chosen). ms \<le> snd q))"
proof -
  obtain key chosen po' where run: "choose_path measured_situation cast_recipe [4, 8] [8, 1] measured_policy =
       Inr (Some (''sym_gpu'', key, chosen), po')" and reason: "pr_reason chosen = ''lowest_completed_cost''"
    by (rule measured_choice)
  from placement_choice [OF measured_policy_ok run] run reason show ?thesis by blast
qed

text \<open>
  A predicted cost interpolates: whatever the distances, a prediction lies between the least and the
  greatest measured cost among the matching observations, so nothing is extrapolated.
\<close>

theorem prediction_interpolates:
  assumes "\<forall>n m. 0 \<le> log_ratio n m"
    and "predict log_ratio p fam shape path st cx wire = Some ms"
    and "\<forall>s\<in>set (matching_samples p fam shape path st cx wire). lo \<le> ob_completed_ms s \<and> ob_completed_ms s \<le> hi"
  shows "lo \<le> ms \<and> ms \<le> hi"
  using assms by (rule predict_bounds)

theorem prediction_interpolates_witness:
  "\<exists>ms. predict (\<lambda>n m. if n = m then 0 else 1) measured_profile cast_family [4, 6] ''sym_gpu'' ''cold'' idle_load 96 = Some ms \<and>
     2 \<le> ms \<and> ms \<le> 3"
proof -
  obtain ms where p: "predict (\<lambda>n m. if n = m then 0 else 1) measured_profile cast_family [4, 6] ''sym_gpu'' ''cold'' idle_load 96 = Some ms"
    by (rule measured_prediction)
  from prediction_interpolates [OF _ p, of 2 3] measured_range p show ?thesis by auto
qed

text \<open>
  The Torch replay computes the recipe: for the recipes placement may replay, the permutations and
  casts it performs take the source extents and dtype to exactly those the recipe's chain denotes.
\<close>

theorem replay_refines_chain:
  assumes "family_of r \<noteq> None" and "concrete_chain \<rho> (shape, dtype) (r_operations r) = Some w"
  shows "\<exists>steps. replay r shape dtype source_device d path = Inr (w, steps)"
proof -
  have "family_ops (r_operations r) \<noteq> None" using assms(1) by (auto simp: family_of_def)
  from replay_operations_chain [OF assms(2) this] show ?thesis by (cases w) (auto simp: replay_def Let_def)
qed

theorem replay_refines_chain_witness:
  "\<exists>steps. replay cast_recipe [4, 8] ''float32'' ''cpu'' ''cuda:0'' ''torch_gpu'' = Inr (([8, 4], ''float16''), steps)"
proof -
  have "family_of cast_recipe \<noteq> None" by code_simp
  moreover have "concrete_chain (\<lambda>_. 4) ([4, 8], ''float32'') (r_operations cast_recipe) = Some ([8, 4], ''float16'')"
    by code_simp
  ultimately show ?thesis by (rule replay_refines_chain)
qed

section \<open>Eager interception\<close>

text \<open>
  Interception and admission agree: a copy the eager mode decides to offload is a candidate the
  runtime's source guard admits, so interception never routes a call that admission would refuse at once
  (Torch's contiguity flag is taken to hold for the row-major strides it is defined by).
\<close>

theorem eager_decisions_admitted:
  assumes "decide grad current is_copy (Some src) pinned co = de" and "dn_reason de = None"
    and "\<And>m. tm_shape m = map DInt (lv_shape src) \<Longrightarrow> tm_strides m = map DInt (lv_strides src) \<Longrightarrow>
      is_dense_contiguous m \<Longrightarrow> lv_contiguous src"
  shows "source_reason grad src = None"
  using assms by (rule decide_admitted)

theorem eager_decisions_admitted_witness:
  "dn_reason (decide False (Some 0) True (Some host_vector) False copy_to_gpu) = None \<and>
     source_reason False host_vector = None"
proof -
  have "dn_reason (decide False (Some 0) True (Some host_vector) False copy_to_gpu) = None" by code_simp
  moreover from eager_decisions_admitted [OF refl this] have "source_reason False host_vector = None"
    by (simp add: host_vector_def)
  ultimately show ?thesis ..
qed

section \<open>Resources\<close>

text \<open>
  Closing resources reaches both native caches: in the owning process both are closed even if closing
  the first one failed, and the call succeeds only if neither failed; in a forked process nothing native is
  touched.
\<close>

theorem resources_close_both:
  assumes "close_resources pid rs = (r, rs')"
  shows "(pid = rs_pid rs \<longrightarrow> nc_closed (rs_native rs') \<and> nc_closed (rs_typed rs') \<and>
      (r = Inr () \<longleftrightarrow> nc_close_error (rs_native rs) = None \<and> nc_close_error (rs_typed rs) = None)) \<and>
    (pid \<noteq> rs_pid rs \<longrightarrow> r = Inl process_mismatch \<and> rs' = rs)"
  using close_resources_both [OF assms] both_caches_process [of pid rs close_cache] assms
  by (auto simp: close_resources_def)

theorem resources_close_both_witness:
  "\<exists>rs'. close_resources 1 (new_resources 1 [])  = (Inr (), rs') \<and> nc_closed (rs_typed rs')"
proof -
  obtain r rs' where run: "close_resources 1 (new_resources 1 []) = (r, rs')" by fastforce
  have start: "1 = rs_pid (new_resources 1 [])" "nc_close_error (rs_native (new_resources 1 [])) = None"
    "nc_close_error (rs_typed (new_resources 1 [])) = None" by (simp_all add: new_resources_def Let_def)
  from resources_close_both [OF run] start run show ?thesis by auto
qed

end
