(* ===== verification/Group.thy ===== *)
theory Group
  imports Dispatch
begin

text \<open>
  \<open>reloc_torch/group.py\<close>: layout and typed preparations executed together as one native submission.  A
  group holds its members by identity; execution takes the group's lock and every member's lock without
  blocking, checks them all, and consumes them all.  The last section is the shared picture: several
  groups and single executions competing for the same requests.
\<close>

section \<open>Preparation\<close>

datatype member = Layout prepared_transfer | Typed prepared_typed

fun member_consumed :: "member \<Rightarrow> bool" where
  "member_consumed (Layout q) = pt_consumed q"
| "member_consumed (Typed q) = py_consumed q"

fun member_direction :: "member \<Rightarrow> string" where
  "member_direction (Layout q) = pt_direction q"
| "member_direction (Typed q) = py_direction q"

fun member_device :: "member \<Rightarrow> device" where
  "member_device (Layout q) = pt_device q"
| "member_device (Typed q) = py_device q"

fun member_destination :: "member \<Rightarrow> concrete_descriptor" where
  "member_destination (Layout q) = pt_destination q"
| "member_destination (Typed q) = py_destination q"

fun member_template_missing :: "member \<Rightarrow> bool" where
  "member_template_missing (Layout q) = False"
| "member_template_missing (Typed q) = (py_template q = None)"

fun consume_member :: "member \<Rightarrow> member" where
  "consume_member (Layout q) = Layout (q\<lparr>pt_consumed := True\<rparr>)"
| "consume_member (Typed q) = Typed (q\<lparr>py_consumed := True\<rparr>)"

text \<open>An object offered to a group: its identity, the request it is (if one) and its source's device.\<close>

record group_offer =
  go_id :: nat
  go_member :: "member option"
  go_source_device :: device

definition member_current :: "group_offer \<Rightarrow> member \<Rightarrow> device" where
  "member_current r m = (if member_direction m = ''h2d'' then member_device m else go_source_device r)"

record transfer_group =
  tg_members :: "(nat \<times> member) list"
  tg_device :: "device option"
  tg_consumed :: bool
  tg_native :: "nat option"

fun check_members :: "device option \<Rightarrow> group_offer list \<Rightarrow> (device option \<times> (nat \<times> member) list) res" where
  "check_members d [] = Inr (d, [])"
| "check_members d (r # rs) = (case go_member r of
     None \<Rightarrow> Inl (TypeErr ''group members must be prepared layout or typed transfers'')
   | Some m \<Rightarrow>
      if member_consumed m then Inl (RuntimeErr ''group member was already executed'')
      else if member_template_missing m
      then Inl (ValueErr ''typed group members require an immutable dispatch template'')
      else (let current = member_current r m in
        if dv_type current \<noteq> ''cuda'' \<or> dv_index current = None
        then Inl (ValueErr ''group members need a canonical CUDA device'')
        else if d \<noteq> None \<and> d \<noteq> Some current
        then Inl (ValueErr ''group members must use the same CUDA device'')
        else res_bind (check_members (Some current) rs) (\<lambda>(d', ms). Inr (d', (go_id r, m) # ms))))"

definition prepare_transfer_group :: "group_offer list \<Rightarrow> transfer_group res" where
  "prepare_transfer_group requests =
     (if \<not> (1 \<le> length requests \<and> length requests \<le> 256)
      then Inl (ValueErr ''a group must contain between 1 and 256 requests'')
      else if \<not> distinct (map go_id requests)
      then Inl (ValueErr ''a request cannot occur twice in a group'')
      else res_bind (check_members None requests) (\<lambda>(d, ms).
        Inr \<lparr>tg_members = ms, tg_device = d, tg_consumed = False, tg_native = None\<rparr>))"

definition group_destinations :: "transfer_group \<Rightarrow> concrete_descriptor list" where
  "group_destinations g = map (member_destination \<circ> snd) (tg_members g)"

section \<open>Execution\<close>

text \<open>The members' live state at execution: whether its lock is free, and what its recheck reads.\<close>

datatype member_now = LayoutNow live | TypedNow typed_execution

record group_execution =
  ge_resources :: resources_arg
  ge_same_process :: bool
  ge_max_scratch_bytes :: int
  ge_gather_threads :: int
  ge_options :: "(string \<times> option_value) list"
  ge_lock_free :: "nat \<Rightarrow> bool"
  ge_now :: "nat \<Rightarrow> member_now"
  ge_allocated :: "live list res"
  ge_made :: "nat res"
  ge_stream :: "unit res"
  ge_ran :: "string + (string \<times> json) list"

definition check_group_arguments :: "group_execution \<Rightarrow> unit res" where
  "check_group_arguments x =
     (if \<not> (0 < ge_max_scratch_bytes x \<and> ge_max_scratch_bytes x < 2 ^ 64)
      then Inl (ValueErr ''max_scratch_bytes must be positive and fit size_t'')
      else if \<not> (0 < ge_gather_threads x \<and> ge_gather_threads x < 2 ^ 31)
      then Inl (ValueErr ''gather_threads must be positive and fit a native int'')
      else res_bind (transfer_configuration (ge_resources x) (OptMapping
             ([(''n_buffers'', OInt 1), (''n_streams'', OInt 1), (''gather_threads'', OInt (ge_gather_threads x))] @
              ge_options x))) (\<lambda>_. check_owner (ge_resources x) (ge_same_process x)))"

fun take_member_locks :: "(nat \<Rightarrow> bool) \<Rightarrow> (nat \<times> member) list \<Rightarrow> unit res" where
  "take_member_locks free [] = Inr ()"
| "take_member_locks free ((i, m) # ms) =
     (if \<not> free i then Inl (RuntimeErr ''group or member is already executing'')
      else if member_consumed m then Inl (RuntimeErr ''group or member was already executed'')
      else take_member_locks free ms)"

fun recheck_member :: "member \<Rightarrow> member_now \<Rightarrow> unit res" where
  "recheck_member (Layout q) (LayoutNow src) = recheck_transfer q src"
| "recheck_member (Typed q) (TypedNow x) = recheck_typed q x"
| "recheck_member _ _ = Inl (OtherExn ''AttributeError'')"

fun recheck_members :: "(nat \<Rightarrow> member_now) \<Rightarrow> (nat \<times> member) list \<Rightarrow> unit res" where
  "recheck_members now [] = Inr ()"
| "recheck_members now ((i, m) # ms) = res_bind (recheck_member m (now i)) (\<lambda>_. recheck_members now ms)"

definition consume_group :: "transfer_group \<Rightarrow> transfer_group" where
  "consume_group g = g\<lparr>tg_consumed := True, tg_members := map (\<lambda>(i, m). (i, consume_member m)) (tg_members g)\<rparr>"

definition group_body ::
  "(group_execution, transfer_group, (live list \<times> concrete_descriptor list \<times> (string \<times> json) list) res) body" where
  "group_body x g =
     (case res_bind (check_group_arguments x) (\<lambda>_.
           res_bind (ensure (\<not> tg_consumed g) (RuntimeErr ''group or member was already executed'')) (\<lambda>_.
           res_bind (take_member_locks (ge_lock_free x) (tg_members g)) (\<lambda>_.
           res_bind (recheck_members (ge_now x) (tg_members g)) (\<lambda>_.
           res_bind (ge_allocated x) (\<lambda>outputs.
           res_bind (ge_made x) (\<lambda>native. Inr (outputs, native))))))) of
        Inl e \<Rightarrow> ((Inl e, g), 0)
      | Inr (outputs, native) \<Rightarrow>
         (let g = g\<lparr>tg_native := Some native\<rparr> in
          case ge_stream x of
            Inl e \<Rightarrow> ((Inl e, g), 0)
          | Inr _ \<Rightarrow> ((res_bind (native_result (\<lambda>t. RuntimeErr (msg [''transfer group failed: '', t])) (ge_ran x))
               (\<lambda>report. Inr (outputs, group_destinations g, report)), consume_group g), 1)))"

section \<open>What a group guarantees\<close>

interpretation group_call: single_use group_body tg_consumed
proof
  fix e :: group_execution and q r q' n
  assume b: "group_body e q = ((r, q'), n)"
  show "0 < n \<Longrightarrow> \<not> tg_consumed q \<and> tg_consumed q' \<and> n = 1"
    using b by (auto simp: group_body_def consume_group_def Let_def split: if_splits sum.splits)
  show "tg_consumed q \<Longrightarrow> tg_consumed q'"
    using b by (auto simp: group_body_def consume_group_def Let_def split: sum.splits)
qed

text \<open>An admitted list: its members in order, all fresh, all on one canonical CUDA device.\<close>

lemma check_members_sound:
  "check_members d rs = Inr (d', ms) \<Longrightarrow> map fst ms = map go_id rs \<and>
     (\<forall>(i, m)\<in>set ms. \<not> member_consumed m \<and> \<not> member_template_missing m) \<and>
     (\<forall>r\<in>set rs. \<exists>m. go_member r = Some m \<and> d' = Some (member_current r m)) \<and>
     (if d = None \<and> rs \<noteq> [] then \<exists>c. d' = Some c else d' = d) \<and>
     (rs \<noteq> [] \<longrightarrow> (\<exists>c. d' = Some c \<and> dv_type c = ''cuda'' \<and> dv_index c \<noteq> None))"
proof (induction rs arbitrary: d ms)
  case (Cons r rs)
  obtain m where m: "go_member r = Some m" using Cons.prems by (cases "go_member r") auto
  define c where "c = member_current r m"
  obtain ms' where ok: "\<not> member_consumed m" "\<not> member_template_missing m" "dv_type c = ''cuda''" "dv_index c \<noteq> None"
    "d = None \<or> d = Some c" and rest: "check_members (Some c) rs = Inr (d', ms')" and ms: "ms = (go_id r, m) # ms'"
    using Cons.prems m by (auto simp: c_def [symmetric] Let_def split: if_splits)
  have "d' = Some c" using Cons.IH [OF rest] by simp
  with Cons.IH [OF rest] ok ms m show ?case by (auto simp: c_def [symmetric])
qed simp

lemma take_member_locks_fresh: "take_member_locks free ms = Inr u \<Longrightarrow> (i, m) \<in> set ms \<Longrightarrow> free i \<and> \<not> member_consumed m"
  by (induction free ms rule: take_member_locks.induct) (auto split: if_splits)

lemma recheck_members_all: "recheck_members now ms = Inr u \<Longrightarrow> (i, m) \<in> set ms \<Longrightarrow> recheck_member m (now i) = Inr ()"
  by (induction now ms rule: recheck_members.induct) auto

lemma consume_member_consumed [simp]: "member_consumed (consume_member m)"
  by (cases m) simp_all

text \<open>All or nothing: a launch consumes every member, a failure before it consumes none.\<close>

lemma group_all_or_nothing:
  assumes "group_body x g = ((r, g'), n)"
  shows "(n = 0 \<and> (\<exists>e. r = Inl e) \<and> tg_members g' = tg_members g \<and> tg_consumed g' = tg_consumed g) \<or>
    (n = 1 \<and> g' = consume_group (g\<lparr>tg_native := tg_native g'\<rparr>) \<and> \<not> tg_consumed g \<and>
     (\<forall>(i, m)\<in>set (tg_members g). ge_lock_free x i \<and> \<not> member_consumed m \<and> recheck_member m (ge_now x i) = Inr ()))"
  using assms unfolding group_body_def
  by (auto simp: Let_def consume_group_def split: sum.splits if_splits
      dest: take_member_locks_fresh recheck_members_all)

end
