(* ===== verification/Contention.thy ===== *)
theory Contention
  imports Group
begin

text \<open>
  Groups and single executions that compete for the same requests.  Every execution, of a request or of a
  group, walks the locks it wants in order, without blocking, and reads under each lock whether the
  request was already consumed; the launch consumes all of them, and leaving frees the locks one by one.
  The steps of several executions interleave freely.
\<close>

section \<open>Interleaved executions\<close>

text \<open>
  Where an execution stands: about to take the next lock of \<open>rest\<close>, about to read \<open>consumed\<close> under the
  lock just taken, or leaving with locks still to free.  \<open>held\<close> has the last lock taken first, the order
  in which \<open>ExitStack\<close> frees them.
\<close>

datatype phase = Taking (held: "nat list") "nat list" | Checking (held: "nat list") "nat list" | Leaving (held: "nat list")

record contender =
  ct_wants :: "nat list"
  ct_phase :: phase
  ct_launched :: bool

record arena =
  ar_contenders :: "contender list"
  ar_holder :: "nat \<Rightarrow> nat option"
  ar_consumed :: "nat \<Rightarrow> bool"
  ar_launches :: "nat \<Rightarrow> nat"

definition set_phase :: "nat \<Rightarrow> phase \<Rightarrow> arena \<Rightarrow> arena" where
  "set_phase t p a = a\<lparr>ar_contenders := (ar_contenders a)[t := (ar_contenders a ! t)\<lparr>ct_phase := p\<rparr>]\<rparr>"

definition launch_all :: "nat \<Rightarrow> arena \<Rightarrow> arena" where
  "launch_all t a = (let c = ar_contenders a ! t in
     a\<lparr>ar_contenders := (ar_contenders a)[t := c\<lparr>ct_phase := Leaving (held (ct_phase c)), ct_launched := True\<rparr>],
       ar_consumed := (\<lambda>i. ar_consumed a i \<or> i \<in> set (ct_wants c)),
       ar_launches := (\<lambda>i. ar_launches a i + (if i \<in> set (ct_wants c) then 1 else 0))\<rparr>)"

text \<open>
  One step of execution \<open>t\<close>.  \<open>ready\<close> is the outcome of everything between the last lock and the launch:
  the rechecks, the allocations and the native validation.
\<close>

definition advance :: "bool \<Rightarrow> nat \<Rightarrow> arena \<Rightarrow> arena" where
  "advance ready t a = (if length (ar_contenders a) \<le> t then a else
     case ct_phase (ar_contenders a ! t) of
       Taking hs (i # rest) \<Rightarrow>
         (if ar_holder a i \<noteq> None then set_phase t (Leaving hs) a
          else set_phase t (Checking (i # hs) rest) (a\<lparr>ar_holder := (ar_holder a)(i \<mapsto> t)\<rparr>))
     | Checking hs rest \<Rightarrow>
         (if ar_consumed a (hd hs) then set_phase t (Leaving hs) a else set_phase t (Taking hs rest) a)
     | Taking hs [] \<Rightarrow> (if ready then launch_all t a else set_phase t (Leaving hs) a)
     | Leaving (i # hs) \<Rightarrow> set_phase t (Leaving hs) (a\<lparr>ar_holder := (ar_holder a)(i := None)\<rparr>)
     | Leaving [] \<Rightarrow> a)"

definition contender_ended :: "contender \<Rightarrow> bool" where
  "contender_ended c \<longleftrightarrow> ct_phase c = Leaving []"

text \<open>The step relation, and the arenas an initial one reaches.\<close>

inductive arena_step :: "arena \<Rightarrow> arena \<Rightarrow> bool" where
  step: "t < length (ar_contenders a) \<Longrightarrow> \<not> contender_ended (ar_contenders a ! t) \<Longrightarrow> arena_step a (advance ready t a)"

inductive_cases arena_stepE: "arena_step a a'"

fun entering :: "nat list \<Rightarrow> contender" where
  "entering wants = \<lparr>ct_wants = wants, ct_phase = Taking [] wants, ct_launched = False\<rparr>"

definition start :: "nat list list \<Rightarrow> arena" where
  "start ws = \<lparr>ar_contenders = map entering ws, ar_holder = Map.empty, ar_consumed = (\<lambda>_. False), ar_launches = (\<lambda>_. 0)\<rparr>"

section \<open>The invariant\<close>

text \<open>One execution: what it holds is what it has walked, all of it unconsumed until its own launch.\<close>

definition contender_ok :: "(nat \<Rightarrow> bool) \<Rightarrow> contender \<Rightarrow> bool" where
  "contender_ok consumed c \<longleftrightarrow> distinct (held (ct_phase c)) \<and> set (held (ct_phase c)) \<subseteq> set (ct_wants c) \<and>
     (case ct_phase c of
        Taking hs rest \<Rightarrow> ct_wants c = rev hs @ rest \<and> (\<forall>i\<in>set hs. \<not> consumed i) \<and> \<not> ct_launched c
      | Checking hs rest \<Rightarrow> hs \<noteq> [] \<and> ct_wants c = rev hs @ rest \<and> (\<forall>i\<in>set (tl hs). \<not> consumed i) \<and> \<not> ct_launched c
      | Leaving hs \<Rightarrow> True)"

abbreviation "inside a t \<equiv> t < length (ar_contenders a)"

definition launched_with :: "arena \<Rightarrow> nat \<Rightarrow> nat \<Rightarrow> bool" where
  "launched_with a t i \<longleftrightarrow> inside a t \<and> ct_launched (ar_contenders a ! t) \<and> i \<in> set (ct_wants (ar_contenders a ! t))"

definition arena_ok :: "arena \<Rightarrow> bool" where
  "arena_ok a \<longleftrightarrow>
     (\<forall>t. inside a t \<longrightarrow> contender_ok (ar_consumed a) (ar_contenders a ! t)) \<and>
     (\<forall>i t. ar_holder a i = Some t \<longleftrightarrow> inside a t \<and> i \<in> set (held (ct_phase (ar_contenders a ! t)))) \<and>
     (\<forall>i. ar_launches a i = of_bool (ar_consumed a i)) \<and>
     (\<forall>i. ar_consumed a i \<longleftrightarrow> (\<exists>t. launched_with a t i)) \<and>
     (\<forall>i t u. launched_with a t i \<longrightarrow> launched_with a u i \<longrightarrow> t = u)"

lemma arena_okD:
  assumes "arena_ok a"
  shows "inside a t \<Longrightarrow> contender_ok (ar_consumed a) (ar_contenders a ! t)"
    and "ar_holder a i = Some t \<longleftrightarrow> inside a t \<and> i \<in> set (held (ct_phase (ar_contenders a ! t)))"
    and "ar_launches a i = of_bool (ar_consumed a i)"
    and "ar_consumed a i \<longleftrightarrow> (\<exists>t. launched_with a t i)"
    and "launched_with a t i \<Longrightarrow> launched_with a u i \<Longrightarrow> t = u"
  using assms unfolding arena_ok_def by blast+

lemma set_phase_simps [simp]:
  "ar_holder (set_phase t p a) = ar_holder a" "ar_consumed (set_phase t p a) = ar_consumed a"
  "ar_launches (set_phase t p a) = ar_launches a"
  "length (ar_contenders (set_phase t p a)) = length (ar_contenders a)"
  by (simp_all add: set_phase_def)

lemma set_phase_nth:
  "inside a t \<Longrightarrow> ar_contenders (set_phase t p a) ! u =
     (if u = t then (ar_contenders a ! t)\<lparr>ct_phase := p\<rparr> else ar_contenders a ! u)"
  by (simp add: set_phase_def nth_list_update)

lemma arena_ok_phase:
  assumes ok: "arena_ok a" and t: "inside a t"
    and c: "contender_ok (ar_consumed a) ((ar_contenders a ! t)\<lparr>ct_phase := p\<rparr>)"
    and H: "\<And>i u. H i = Some u \<longleftrightarrow> (if u = t then i \<in> set (held p) else ar_holder a i = Some u)"
  shows "arena_ok (set_phase t p (a\<lparr>ar_holder := H\<rparr>))"
proof -
  note D = arena_okD [OF ok]
  have t': "inside (a\<lparr>ar_holder := H\<rparr>) t" using t by simp
  have n: "ar_contenders (set_phase t p (a\<lparr>ar_holder := H\<rparr>)) ! u =
      (if u = t then (ar_contenders a ! t)\<lparr>ct_phase := p\<rparr> else ar_contenders a ! u)" for u
    using set_phase_nth [OF t'] by simp
  have l: "launched_with (set_phase t p (a\<lparr>ar_holder := H\<rparr>)) u i = launched_with a u i" for u i
    by (simp add: launched_with_def n)
  show ?thesis
    unfolding arena_ok_def l
    using D(1,3,4,5) c t by (auto simp: n H D(2))
qed

lemma arena_ok_launch:
  assumes ok: "arena_ok a" and t: "inside a t" and p: "ct_phase (ar_contenders a ! t) = Taking hs []"
  shows "arena_ok (launch_all t a)"
proof -
  note D = arena_okD [OF ok]
  let ?c = "ar_contenders a ! t"
  have c: "ct_wants ?c = rev hs" "\<And>i. i \<in> set hs \<Longrightarrow> \<not> ar_consumed a i" "\<not> ct_launched ?c" "distinct hs"
    using D(1) [OF t] p by (auto simp: contender_ok_def)
  let ?a = "launch_all t a"
  have s: "length (ar_contenders ?a) = length (ar_contenders a)" "ar_holder ?a = ar_holder a"
    "ar_consumed ?a i = (ar_consumed a i \<or> i \<in> set hs)"
    "ar_launches ?a i = ar_launches a i + of_bool (i \<in> set hs)" for i
    using c(1) by (simp_all add: launch_all_def Let_def)
  have n: "ar_contenders ?a ! u = (if u = t then ?c\<lparr>ct_phase := Leaving hs, ct_launched := True\<rparr> else ar_contenders a ! u)" for u
    using t p by (simp add: launch_all_def Let_def nth_list_update)
  have l: "launched_with ?a u i \<longleftrightarrow> (if u = t then i \<in> set hs else launched_with a u i)" for u i
    using t c(1) by (simp add: launched_with_def s n)
  have old: "launched_with a u i \<Longrightarrow> i \<notin> set hs" for u i using D(4) c(2) by blast
  have disjoint: "i \<notin> set hs" if "inside a u" "u \<noteq> t" "i \<in> set (held (ct_phase (ar_contenders a ! u)))" for u i
    using that D(2) [of i t] D(2) [of i u] t p by auto
  have ok_u: "contender_ok (ar_consumed ?a) (ar_contenders ?a ! u)" if u: "inside a u" for u
  proof (cases "u = t")
    case True
    then show ?thesis using c by (simp add: n contender_ok_def)
  next
    case False
    with D(1) [OF u] disjoint [OF u False] show ?thesis
      by (auto simp: n s contender_ok_def split: phase.splits dest: list.set_sel(2))
  qed
  have counts: "ar_launches ?a i = of_bool (ar_consumed ?a i)" for i using D(3) c(2) by (auto simp: s)
  have cons: "ar_consumed ?a i \<longleftrightarrow> (\<exists>u. launched_with ?a u i)" for i
    unfolding l s D(4) using c(3) by (metis launched_with_def)
  have uniq: "launched_with ?a u i \<Longrightarrow> launched_with ?a v i \<Longrightarrow> u = v" for u v i
    unfolding l using old D(5) by (metis (full_types))
  show ?thesis
    unfolding arena_ok_def using ok_u counts cons uniq s(1,2) D(2) p n by (auto split: if_splits)
qed

lemma advance_ok:
  assumes ok: "arena_ok a"
  shows "arena_ok (advance ready t a)"
proof (cases "inside a t")
  case t: True
  note D = arena_okD [OF ok]
  let ?c = "ar_contenders a ! t"
  have t2: "\<not> length (ar_contenders a) \<le> t" using t by simp
  note c = D(1) [OF t, unfolded contender_ok_def]
  have held: "ar_holder a i = Some t \<longleftrightarrow> i \<in> set (held (ct_phase ?c))" for i using D(2) t by simp
  have keep: "arena_ok (set_phase t p a)"
    if "contender_ok (ar_consumed a) (?c\<lparr>ct_phase := p\<rparr>)" "set (held p) = set (held (ct_phase ?c))" for p
    using arena_ok_phase [OF ok t that(1), of "ar_holder a"] that(2) held by simp
  show ?thesis
  proof (cases "ct_phase ?c")
    case (Taking hs rest)
    show ?thesis
    proof (cases rest)
      case Nil
      with Taking c show ?thesis
        by (auto simp: advance_def t2 contender_ok_def intro!: keep arena_ok_launch [OF ok t])
    next
      case (Cons i js)
      have "arena_ok (set_phase t (Checking (i # hs) js) (a\<lparr>ar_holder := (ar_holder a)(i \<mapsto> t)\<rparr>))"
        if free: "ar_holder a i = None"
        using c Taking Cons held [of i] free
        by (intro arena_ok_phase [OF ok t]) (auto simp: contender_ok_def held)
      with Taking Cons c show ?thesis
        by (auto simp: advance_def t2 contender_ok_def intro!: keep)
    qed
  next
    case (Checking hs rest)
    then obtain i js where hs: "hs = i # js" using c by (cases hs) auto
    with Checking c show ?thesis by (auto simp: advance_def t2 contender_ok_def intro!: keep)
  next
    case (Leaving hs)
    have "arena_ok (set_phase t (Leaving js) (a\<lparr>ar_holder := (ar_holder a)(i := None)\<rparr>))" if hs: "hs = i # js" for i js
    proof -
      have "ar_holder a i = Some t" using held Leaving hs by simp
      then have "ar_holder a i \<noteq> Some u" if "u \<noteq> t" for u using that by simp
      with c Leaving hs show ?thesis
        by (intro arena_ok_phase [OF ok t]) (auto simp: contender_ok_def held)
    qed
    with Leaving ok show ?thesis by (auto simp: advance_def t2 split: list.splits)
  qed
qed (simp add: advance_def ok)

lemma arena_start_ok: "arena_ok (start ws)"
  by (auto simp: arena_ok_def start_def contender_ok_def launched_with_def)

lemma reachable_ok: "arena_step\<^sup>*\<^sup>* (start ws) a \<Longrightarrow> arena_ok a"
  by (induction rule: rtranclp_induct) (auto simp: arena_start_ok advance_ok elim!: arena_stepE)

text \<open>What a reachable arena guarantees.\<close>

lemma arena_safe:
  assumes "arena_ok a"
  shows "ar_launches a i \<le> 1" and "ar_launches a i = 1 \<longleftrightarrow> (\<exists>!t. launched_with a t i)"
    and "inside a t \<Longrightarrow> inside a u \<Longrightarrow> t \<noteq> u \<Longrightarrow>
      set (held (ct_phase (ar_contenders a ! t))) \<inter> set (held (ct_phase (ar_contenders a ! u))) = {}"
    and "inside a t \<Longrightarrow> ct_launched (ar_contenders a ! t) \<Longrightarrow> i \<in> set (ct_wants (ar_contenders a ! t)) \<Longrightarrow>
      ar_launches a i = 1"
proof -
  note D = arena_okD [OF assms]
  show "ar_launches a i \<le> 1" by (simp add: D(3))
  show "ar_launches a i = 1 \<longleftrightarrow> (\<exists>!t. launched_with a t i)" using D(3,4,5) by auto
  show "set (held (ct_phase (ar_contenders a ! t))) \<inter> set (held (ct_phase (ar_contenders a ! u))) = {}"
    if "inside a t" "inside a u" "t \<noteq> u" using that D(2) by (metis disjoint_iff option.inject)
  show "ar_launches a i = 1"
    if "inside a t" "ct_launched (ar_contenders a ! t)" "i \<in> set (ct_wants (ar_contenders a ! t))"
    using that D(3,4) by (auto simp: launched_with_def)
qed

section \<open>No execution blocks another\<close>

fun effort :: "phase \<Rightarrow> nat" where
  "effort (Taking hs rest) = 3 * length rest + length hs + 1"
| "effort (Checking hs rest) = 3 * length rest + length hs + 2"
| "effort (Leaving hs) = length hs"

definition arena_effort :: "arena \<Rightarrow> nat" where
  "arena_effort a = sum_list (map (effort \<circ> ct_phase) (ar_contenders a))"

lemma effort_update:
  "t < length cs \<Longrightarrow> effort (ct_phase c) < effort (ct_phase (cs ! t)) \<Longrightarrow>
     sum_list (map (effort \<circ> ct_phase) (cs[t := c])) < sum_list (map (effort \<circ> ct_phase) cs)"
proof (induction cs arbitrary: t)
  case (Cons d cs)
  then show ?case by (cases t) auto
qed simp

lemma advance_effort:
  assumes "inside a t" and "\<not> contender_ended (ar_contenders a ! t)"
  shows "arena_effort (advance ready t a) < arena_effort a"
  using assms
  by (auto simp: arena_effort_def advance_def contender_ended_def set_phase_def launch_all_def Let_def
      simp del: map_map split: phase.splits list.splits intro!: effort_update)

lemma steps_bounded: "(arena_step ^^ n) a a' \<Longrightarrow> n + arena_effort a' \<le> arena_effort a"
proof (induction n arbitrary: a')
  case (Suc n)
  then obtain b where b: "(arena_step ^^ n) a b" and st: "arena_step b a'" by auto
  from st have "arena_effort a' < arena_effort b" by (auto elim!: arena_stepE intro: advance_effort)
  with Suc.IH [OF b] show ?case by simp
qed simp

lemma start_effort: "arena_effort (start ws) = sum_list (map (\<lambda>w. 3 * length w + 1) ws)"
  by (simp add: arena_effort_def start_def comp_def)

text \<open>An arena without a step: every execution has left, and every lock is free.\<close>

lemma quiescent_free:
  assumes ok: "arena_ok a" and q: "\<nexists>a'. arena_step a a'"
  shows "ar_holder a = Map.empty \<and> (\<forall>c\<in>set (ar_contenders a). contender_ended c)"
proof -
  have ended: "contender_ended (ar_contenders a ! t)" if "inside a t" for t using q that arena_step.step by blast
  then have "ar_holder a i \<noteq> Some t" for i t
    using arena_okD(2) [OF ok, of i t] by (auto simp: contender_ended_def)
  then have "ar_holder a i = None" for i by (cases "ar_holder a i") auto
  with ended show ?thesis by (auto simp: in_set_conv_nth)
qed

section \<open>The group's own walk is this one\<close>

lemma take_blocked:
  "inside a t \<Longrightarrow> ct_phase (ar_contenders a ! t) = Taking hs (i # rest) \<Longrightarrow> ar_holder a i \<noteq> None \<Longrightarrow>
     advance r t a = set_phase t (Leaving hs) a"
  by (simp add: advance_def)

lemma take_and_check:
  "inside a t \<Longrightarrow> ct_phase (ar_contenders a ! t) = Taking hs (i # rest) \<Longrightarrow> ar_holder a i = None \<Longrightarrow>
     advance r t (advance r t a) =
       set_phase t (if ar_consumed a i then Leaving (i # hs) else Taking (i # hs) rest)
         (a\<lparr>ar_holder := (ar_holder a)(i \<mapsto> t)\<rparr>)"
  by (simp add: advance_def set_phase_def)

lemma leaving_stays:
  "inside a t \<Longrightarrow> ct_phase (ar_contenders a ! t) = Leaving hs \<Longrightarrow>
     \<exists>hs'. ct_phase (ar_contenders (((advance r t) ^^ n) a) ! t) = Leaving hs' \<and> inside (((advance r t) ^^ n) a) t"
proof (induction n)
  case (Suc n)
  then show ?case
    by (auto simp: advance_def set_phase_nth [of t] set_phase_def split: list.splits)
qed simp

text \<open>
  Run without interference, an execution reaches its launch exactly when \<open>take_member_locks\<close>
  succeeds on the members' locks and consumed flags.
\<close>

lemma group_walk:
  assumes "inside a t" and "ct_phase (ar_contenders a ! t) = Taking hs (map fst ms)" and "distinct (map fst ms)"
    and "\<forall>(i, m)\<in>set ms. (free i \<longleftrightarrow> ar_holder a i = None) \<and> (member_consumed m \<longleftrightarrow> ar_consumed a i)"
  shows "(\<exists>u. take_member_locks free ms = Inr u) \<longleftrightarrow>
    (\<exists>hs'. ct_phase (ar_contenders (((advance r t) ^^ (2 * length ms)) a) ! t) = Taking hs' [])"
  using assms
proof (induction ms arbitrary: a hs)
  case (Cons im ms)
  obtain i m where im: "im = (i, m)" by (cases im)
  have two: "((advance r t) ^^ (2 * length (im # ms))) a = ((advance r t) ^^ (2 * length ms)) (advance r t (advance r t a))"
    by (simp add: funpow_swap1 del: funpow.simps(2) add: funpow_Suc_right)
  have ph: "ct_phase (ar_contenders a ! t) = Taking hs (i # map fst ms)" using Cons.prems(2) im by simp
  note blocked = take_blocked [OF Cons.prems(1) ph, of r] and taken = take_and_check [OF Cons.prems(1) ph, of r]
  show ?case
  proof (cases "free i \<and> \<not> member_consumed m")
    case True
    then have "ar_holder a i = None" "\<not> ar_consumed a i" using Cons.prems(4) im by auto
    let ?b = "set_phase t (Taking (i # hs) (map fst ms)) (a\<lparr>ar_holder := (ar_holder a)(i \<mapsto> t)\<rparr>)"
    have b: "advance r t (advance r t a) = ?b" using taken \<open>ar_holder a i = None\<close> \<open>\<not> ar_consumed a i\<close> by simp
    have "(\<exists>u. take_member_locks free ms = Inr u) \<longleftrightarrow>
      (\<exists>hs'. ct_phase (ar_contenders (((advance r t) ^^ (2 * length ms)) ?b) ! t) = Taking hs' [])"
    proof (rule Cons.IH)
      show "\<forall>(j, m)\<in>set ms. (free j \<longleftrightarrow> ar_holder ?b j = None) \<and> (member_consumed m \<longleftrightarrow> ar_consumed ?b j)"
        using Cons.prems(3,4) im by (force simp: image_iff)
    qed (use Cons.prems im in \<open>simp_all add: set_phase_def\<close>)
    with True two b im show ?thesis by simp
  next
    case False
    have "\<exists>hs'. ct_phase (ar_contenders (advance r t (advance r t a)) ! t) = Leaving hs' \<and> inside (advance r t (advance r t a)) t"
    proof (cases "ar_holder a i")
      case None
      with False Cons.prems(1,4) im have "ar_consumed a i" by auto
      with taken None Cons.prems(1) show ?thesis by (simp add: set_phase_def)
    next
      case (Some y)
      with blocked Cons.prems(1) leaving_stays [where a = "set_phase t (Leaving hs) a" and t = t and hs = hs and r = r and n = 1] show ?thesis
        by (simp add: set_phase_nth)
    qed
    then obtain hs' where l: "ct_phase (ar_contenders (advance r t (advance r t a)) ! t) = Leaving hs'"
      and ins: "inside (advance r t (advance r t a)) t" by blast
    from leaving_stays [OF ins l, where r = r and n = "2 * length ms"] False two im show ?thesis by auto
  qed
qed simp

end
