(* ===== verification/Replay.thy ===== *)
theory Replay
  imports Binding Complex_Main
begin

text \<open>
  The first part of \<open>reloc_torch/weights.py\<close>: replaying a layout recipe with ordinary PyTorch
  operations.  PyTorch is an argument; the documented effect of its operations on shapes is a predicate
  on that argument.
\<close>

section \<open>Padding values\<close>

text \<open>\<open>struct.unpack\<close> of an IEEE pattern: sign and magnitude of the finite values.\<close>

datatype float_value = Finite bool rat | Infinite bool | NotANumber

definition unpack :: "nat \<Rightarrow> nat \<Rightarrow> int \<Rightarrow> float_value" where
  "unpack eb mb bits =
     (let negative = bits div 2 ^ (eb + mb) mod 2 = 1; e = bits div 2 ^ mb mod 2 ^ eb; m = bits mod 2 ^ mb;
          bias = 2 ^ (eb - 1) - 1
      in if e = 2 ^ eb - 1 then (if m = 0 then Infinite negative else NotANumber)
         else if e = 0 then Finite negative (of_int m * 2 powi (1 - bias - int mb))
         else Finite negative (of_int (2 ^ mb + m) * 2 powi (e - bias - int mb)))"

datatype fill_number = Floating float_value | Integral int

definition fill_value :: "fill \<Rightarrow> fill_number" where
  "fill_value f =
     (if fill_dtype f = ''float32'' then Floating (unpack 8 23 (fill_bits f))
      else if fill_dtype f = ''float16'' then Floating (unpack 5 10 (fill_bits f))
      else Integral (if fill_bits f \<ge> 128 then fill_bits f - 256 else fill_bits f))"

text \<open>What the pattern means in its own element type.\<close>

definition fill_meaning :: "fill \<Rightarrow> fill_number" where
  "fill_meaning f =
     (if fill_dtype f = ''float32'' then Floating (unpack 8 23 (fill_bits f))
      else if fill_dtype f = ''float16'' then Floating (unpack 5 10 (fill_bits f))
      else if fill_dtype f = ''bfloat16'' then Floating (unpack 8 7 (fill_bits f))
      else Integral (if fill_bits f \<ge> 128 then fill_bits f - 256 else fill_bits f))"

section \<open>Replay\<close>

text \<open>PyTorch's operations on a tensor type \<open>'t\<close>.\<close>

record 't torch_layout =
  to_shape :: "'t \<Rightarrow> int list"
  to_permute :: "int list \<Rightarrow> 't \<Rightarrow> 't res"
  to_reshape :: "int list \<Rightarrow> 't \<Rightarrow> 't res"
  to_pad :: "int list \<Rightarrow> fill_number \<Rightarrow> 't \<Rightarrow> 't res"
  to_contiguous :: "'t \<Rightarrow> 't res"

fun replay_bindings :: "symbol_source list \<Rightarrow> int list \<Rightarrow> env \<Rightarrow> env res" where
  "replay_bindings [] shape b = Inr b"
| "replay_bindings (s # sources) shape b =
     (if \<not> (0 \<le> ss_axis s \<and> ss_axis s < int (length shape)) then Inl (OtherExn ''IndexError'')
      else replay_bindings sources shape (b(ss_name s \<mapsto> PyInt (shape ! nat (ss_axis s)))))"

text \<open>The widths of \<open>torch.nn.functional.pad\<close>: pairs from the last axis down to the padded one.\<close>

definition pad_widths :: "int \<Rightarrow> int \<Rightarrow> int \<Rightarrow> int \<Rightarrow> int list" where
  "pad_widths rank axis lo hi = (let k = nat (2 * (rank - 1 - axis)) in
     ((replicate (nat (2 * (rank - axis))) 0)[k := lo])[k + 1 := hi])"

definition replay_operation :: "'t torch_layout \<Rightarrow> env \<Rightarrow> operation \<Rightarrow> 't \<Rightarrow> 't res" where
  "replay_operation T b op t = (case op of
     Transpose perm \<Rightarrow> to_permute T perm t
   | Reshape target \<Rightarrow> res_bind (mapR (evaluate False b) target) (\<lambda>dims. to_reshape T dims t)
   | Pad axis lo hi f \<Rightarrow>
       (let rank = int (length (to_shape T t)) in
        if rank \<le> axis then Inl (OtherExn ''IndexError'')
        else res_bind (evaluate False b lo) (\<lambda>l. res_bind (evaluate False b hi) (\<lambda>h.
          to_pad T (pad_widths rank axis l h) (fill_value f) t)))
   | _ \<Rightarrow> Inl (UnsupportedRecipe ''unsupported_operator'' ''cannot replay operation''))"

fun replay_operations :: "'t torch_layout \<Rightarrow> env \<Rightarrow> operation list \<Rightarrow> 't \<Rightarrow> 't res" where
  "replay_operations T b [] t = Inr t"
| "replay_operations T b (op # ops) t =
     res_bind (replay_operation T b op t) (replay_operations T b ops)"

definition replay :: "'t torch_layout \<Rightarrow> recipe \<Rightarrow> 't \<Rightarrow> 't res" where
  "replay T r t =
     res_bind (symbol_sources (ts_shape (r_source r))) (\<lambda>sources.
     res_bind (replay_bindings sources (to_shape T t) Map.empty) (\<lambda>b.
     res_bind (replay_operations T b (r_operations r) t) (to_contiguous T)))"

section \<open>The documented effect on shapes\<close>

text \<open>Padding by pairs of widths, the first pair for the last axis.\<close>

definition padded :: "int list \<Rightarrow> int list \<Rightarrow> int list" where
  "padded widths s = map (\<lambda>i. let k = 2 * (length s - 1 - i) in
     s ! i + (if k + 1 < length widths then widths ! k + widths ! (k + 1) else 0)) [0..<length s]"

definition torch_documented :: "'t torch_layout \<Rightarrow> bool" where
  "torch_documented T \<longleftrightarrow>
     (\<forall>t p. is_permutation p (length (to_shape T t)) \<longrightarrow>
        (\<exists>u. to_permute T p t = Inr u \<and> to_shape T u = permute p (to_shape T t))) \<and>
     (\<forall>t d. (\<forall>x\<in>set d. 0 < x) \<and> prod_list d = prod_list (to_shape T t) \<longrightarrow>
        (\<exists>u. to_reshape T d t = Inr u \<and> to_shape T u = d)) \<and>
     (\<forall>t w v. even (length w) \<and> length w \<le> 2 * length (to_shape T t) \<and> (\<forall>x\<in>set w. 0 \<le> x) \<longrightarrow>
        (\<exists>u. to_pad T w v t = Inr u \<and> to_shape T u = padded w (to_shape T t))) \<and>
     (\<forall>t. \<exists>u. to_contiguous T t = Inr u \<and> to_shape T u = to_shape T t)"

lemma torch_documentedD:
  assumes "torch_documented T"
  shows "is_permutation p (length (to_shape T t)) \<Longrightarrow>
      \<exists>u. to_permute T p t = Inr u \<and> to_shape T u = permute p (to_shape T t)"
    and "\<forall>x\<in>set d. 0 < x \<Longrightarrow> prod_list d = prod_list (to_shape T t) \<Longrightarrow>
      \<exists>u. to_reshape T d t = Inr u \<and> to_shape T u = d"
    and "even (length w) \<Longrightarrow> length w \<le> 2 * length (to_shape T t) \<Longrightarrow> \<forall>x\<in>set w. 0 \<le> x \<Longrightarrow>
      \<exists>u. to_pad T w v t = Inr u \<and> to_shape T u = padded w (to_shape T t)"
    and "\<exists>u. to_contiguous T t = Inr u \<and> to_shape T u = to_shape T t"
  using assms unfolding torch_documented_def by blast+

lemma pad_widths_eq: "axis < rank \<Longrightarrow> pad_widths (int rank) (int axis) lo hi = replicate (2 * (rank - 1 - axis)) 0 @ [lo, hi]"
proof -
  assume "axis < rank"
  then obtain n where "rank = axis + 1 + n" by (metis Suc_eq_plus1 add.commute less_imp_Suc_add add.assoc)
  then have "nat (2 * (int rank - int axis)) = 2 * n + 2" "nat (2 * (int rank - 1 - int axis)) = 2 * n"
    "2 * (rank - 1 - axis) = 2 * n" by auto
  moreover have "replicate (2 * n + 2) (0::int) = replicate (2 * n) 0 @ [0, 0]"
    using replicate_add [of "2 * n" 2 "0::int"] by (simp add: numeral_2_eq_2)
  ultimately show ?thesis by (simp add: pad_widths_def list_update_append)
qed

lemma padded_axis:
  assumes a: "axis < length s"
  shows "padded (pad_widths (int (length s)) (int axis) lo hi) s = s[axis := s ! axis + lo + hi]"
proof (rule nth_equalityI)
  let ?w = "replicate (2 * (length s - 1 - axis)) 0 @ [lo, hi]"
  show "padded (pad_widths (int (length s)) (int axis) lo hi) s ! i = s[axis := s ! axis + lo + hi] ! i"
    if "i < length (padded (pad_widths (int (length s)) (int axis) lo hi) s)" for i
  proof -
    have i: "i < length s" using that by (simp add: padded_def)
    show ?thesis
    proof (cases "i = axis")
      case True
      with a show ?thesis by (simp add: padded_def Let_def pad_widths_eq nth_append)
    next
      case False
      then consider "length s - 1 - i < length s - 1 - axis" | "length s - 1 - axis < length s - 1 - i"
        using i a by linarith
      then show ?thesis
      proof cases
        case 1
        then have "2 * (length s - 1 - i) + 1 < 2 * (length s - 1 - axis)" by linarith
        with False i a show ?thesis by (simp add: padded_def Let_def pad_widths_eq nth_append)
      next
        case 2
        then have "length ?w \<le> 2 * (length s - 1 - i) + 1" by simp
        with False i a show ?thesis by (simp add: padded_def Let_def pad_widths_eq)
      qed
    qed
  qed
qed (simp add: padded_def)

lemma pad_widths_ok:
  assumes "axis < rank" and "0 \<le> lo" and "0 \<le> hi"
  shows "even (length (pad_widths (int rank) (int axis) lo hi))"
    and "length (pad_widths (int rank) (int axis) lo hi) \<le> 2 * rank"
    and "\<forall>x\<in>set (pad_widths (int rank) (int axis) lo hi). 0 \<le> x"
  using assms by (auto simp: pad_widths_eq)

lemma evaluate_unchecked_of: "evaluate True b e = Inr v \<Longrightarrow> evaluate False b e = Inr v"
  by (induction e arbitrary: v)
    (auto simp: fit_def py_floordiv_def py_mod_def split: option.splits pyint.splits if_splits)

lemma mapR_evaluate_unchecked: "mapR (ev b) es = Inr vs \<Longrightarrow> mapR (evaluate False b) es = Inr vs"
  by (induction es arbitrary: vs) (auto intro: evaluate_unchecked_of)

text \<open>The bindings replay reads from the shape are those of the guards.\<close>

lemma replay_bindings_bound:
  "bind_sources sources (map PyInt shape) b = Inr b' \<Longrightarrow> replay_bindings sources shape b = Inr b'"
  by (induction sources arbitrary: b) (auto simp: Let_def split: if_splits)

section \<open>Replay reaches the bound destination\<close>

text \<open>One operation the guards admitted, replayed on a tensor of its concrete extents.\<close>

lemma replay_operation_shape:
  assumes T: "torch_documented T" and layout: "\<not> is_typed_op op" "\<not> is_index_select op"
    and target: "operation_shape current op = Inr target" and guard: "op_guard b current dtype target op = Inr ()"
    and dims: "dims b target = Inr vs" and t: "to_shape T t = map (den (env_val b)) current"
  shows "\<exists>u. replay_operation T b op t = Inr u \<and> to_shape T u = map (den (env_val b)) target"
proof -
  note shape = op_guard_sound [OF target guard]
  have tgt: "vs = map (den (env_val b)) target" "\<forall>d\<in>set vs. 0 < d" using dims_den [OF dims] by auto
  show ?thesis
  proof (cases op)
    case (Transpose perm)
    with shape t have "is_permutation perm (length (to_shape T t))"
      "permute perm (to_shape T t) = map (den (env_val b)) target" by (auto split: if_splits)
    with torch_documentedD(1) [OF T this(1)] Transpose show ?thesis by (simp add: replay_operation_def)
  next
    case (Reshape d)
    then have d: "d = target" using target by simp
    have "mapR (ev b) target = Inr vs" using dims by (auto simp: dims_def split: if_splits)
    then have "mapR (evaluate False b) target = Inr vs" by (rule mapR_evaluate_unchecked)
    moreover have "prod_list vs = prod_list (to_shape T t)" using shape t Reshape d tgt by (auto split: if_splits)
    ultimately show ?thesis using torch_documentedD(2) [OF T tgt(2)] tgt(1) Reshape d
      by (simp add: replay_operation_def)
  next
    case (Pad axis lo hi f)
    from guard Pad obtain l h where lh: "evaluate True b lo = Inr l" "evaluate True b hi = Inr h"
      by (auto split: if_splits)
    have den: "den (env_val b) lo = l" "den (env_val b) hi = h" using lh evaluate_True_den by blast+
    have ax: "0 \<le> axis" "axis < int (length (to_shape T t))" "0 \<le> l" "0 \<le> h"
      "map (den (env_val b)) target = (to_shape T t)[nat axis := to_shape T t ! nat axis + l + h]"
      using shape t Pad den by (auto split: if_splits)
    then have n: "nat axis < length (to_shape T t)" "axis = int (nat axis)" by auto
    have w: "pad_widths (int (length (to_shape T t))) axis l h = pad_widths (int (length (to_shape T t))) (int (nat axis)) l h"
      using n by simp
    obtain u where "to_pad T (pad_widths (int (length (to_shape T t))) axis l h) (fill_value f) t = Inr u"
      and "to_shape T u = padded (pad_widths (int (length (to_shape T t))) axis l h) (to_shape T t)"
      using torch_documentedD(3) [OF T pad_widths_ok [OF n(1) ax(3,4)]] unfolding w by blast
    with Pad lh ax n padded_axis [OF n(1), of l h] show ?thesis
      by (simp add: replay_operation_def Let_def evaluate_unchecked_of)
  qed (use layout in simp_all)
qed

lemma replay_operations_shape:
  assumes "torch_documented T" and "\<forall>op\<in>set ops. \<not> is_typed_op op \<and> \<not> is_index_select op"
    and "bind_operations b current dtype ops = Inr (final, dtype')" and "to_shape T t = map (den (env_val b)) current"
  shows "\<exists>u. replay_operations T b ops t = Inr u \<and> to_shape T u = map (den (env_val b)) final"
  using assms
proof (induction ops arbitrary: current dtype t)
  case (Cons op ops)
  from Cons.prems(3) obtain target vs n where
    o: "operation_shape current op = Inr target" "op_guard b current dtype target op = Inr ()" "dims b target = Inr vs"
    and rest: "bind_operations b target (next_dtype dtype op) ops = Inr (final, dtype')"
    by auto
  from replay_operation_shape [OF Cons.prems(1) _ _ o Cons.prems(4)] Cons.prems(2)
  obtain u where u: "replay_operation T b op t = Inr u" "to_shape T u = map (den (env_val b)) target" by auto
  from Cons.IH [OF Cons.prems(1) _ rest u(2)] Cons.prems(2) u(1) show ?case by auto
qed simp

lemma replay_bound:
  assumes T: "torch_documented T" and layout: "\<not> recipe_typed r" "\<not> recipe_indexed r"
    and s: "symbol_sources (ts_shape (r_source r)) = Inr sources"
    and b: "bind_recipe r sources c Map.empty = Inr b" and t: "ts_shape c = map PyInt (to_shape T t)"
  shows "\<exists>u. replay T r t = Inr u \<and> to_shape T u = map (den (env_val b)) (ts_shape (r_destination r))"
proof -
  from b obtain current dtype where bs: "bind_sources sources (ts_shape c) Map.empty = Inr b"
    and cs: "check_source b (r_source r) c = Inr ()"
    and ops: "bind_operations b (ts_shape (r_source r)) (ts_dtype (r_source r)) (r_operations r) = Inr (current, dtype)"
    and cd: "check_destination b current dtype (r_destination r) = Inr ()"
    by (auto simp: bind_recipe_def)
  have "to_shape T t = map (den (env_val b)) (ts_shape (r_source r))"
    using check_source_sound(1) [OF cs] t by (metis map_PyInt_eq)
  from replay_operations_shape [OF T _ ops this] layout
  obtain u where u: "replay_operations T b (r_operations r) t = Inr u" "to_shape T u = map (den (env_val b)) current"
    by (auto simp: recipe_typed_def recipe_indexed_def)
  obtain v where "to_contiguous T u = Inr v" "to_shape T v = to_shape T u"
    using torch_documentedD(4) [OF T] by blast
  with u s replay_bindings_bound [OF bs [unfolded t]] check_destination_sound(1) [OF cd] show ?thesis
    by (simp add: replay_def)
qed

text \<open>A bfloat16 pattern is read as an integer: the pattern of one pads with sixteen thousand.\<close>

lemma bfloat16_one:
  "fill_value \<lparr>fill_dtype = ''bfloat16'', fill_bits = 0x3F80\<rparr> = Integral 16000 \<and>
   fill_meaning \<lparr>fill_dtype = ''bfloat16'', fill_bits = 0x3F80\<rparr> = Floating (Finite False 1)"
  by (simp add: fill_value_def fill_meaning_def unpack_def)

end
