(* ===== verification/Weights.thy ===== *)
theory Weights
  imports Replay Runtime
begin

text \<open>
  \<open>reloc_torch/weights.py\<close>, the owner \<open>PreparedWeights\<close>: live slots of a module relocated on demand,
  with an optional cache of transformed host data.  The module, PyTorch and the native executor appear
  as what they answer during one call; \<open>get\<close> first decides what to deliver and its last action
  delivers it.
\<close>

section \<open>Slots and fingerprints\<close>

text \<open>A tensor in a slot: its metadata, its mutation version where PyTorch tracks one, its bytes.\<close>

record slot =
  sl_tensor :: live
  sl_version :: "int option"
  sl_bytes :: string

type_synonym fingerprint = "nat \<times> int list \<times> int list \<times> int \<times> string \<times> device \<times> int \<times> int \<times> int option"

definition fingerprint :: "slot \<Rightarrow> fingerprint" where
  "fingerprint s = (let t = sl_tensor s; (base, capacity, off) = storage_span t in
     (lv_id t, lv_shape t, lv_strides t, off, lv_dtype t, lv_device t, base, capacity, sl_version s))"

definition detach :: "slot \<Rightarrow> slot" where
  "detach s = s\<lparr>sl_tensor := (sl_tensor s)\<lparr>lv_requires_grad := False\<rparr>\<rparr>"

text \<open>The module as one resolution sees it; \<open>None\<close> once it was collected.\<close>

record module_view =
  mv_parameters :: "(string \<times> slot) list"
  mv_buffers :: "(string \<times> slot) list"

definition slot_of :: "module_view option \<Rightarrow> string \<Rightarrow> slot res" where
  "slot_of mv name = (case mv of
     None \<Rightarrow> Inl (RuntimeErr ''the prepared module was garbage collected'')
   | Some m \<Rightarrow> (case map_of (mv_parameters m) name of
       Some s \<Rightarrow> Inr s
     | None \<Rightarrow> (case map_of (mv_buffers m) name of
         Some s \<Rightarrow> Inr s
       | None \<Rightarrow> Inl (RuntimeErr (msg [''module slot '', name, '' no longer exists''])))))"

section \<open>The owner\<close>

record stable_state =
  ss_fingerprint :: fingerprint
  ss_saved :: string
  ss_prepared :: slot

record prepared_weights =
  pw_recipes :: "(string \<times> recipe) list"
  pw_stable :: bool
  pw_closed :: bool
  pw_compiled :: "(string, compiled_recipe) odict"
  pw_states :: "(string, stable_state) odict"

definition prepare_weights :: "bool \<Rightarrow> (string \<times> recipe) list \<Rightarrow> bool \<Rightarrow> prepared_weights res" where
  "prepare_weights is_module recipes retain =
     (if \<not> is_module then Inl (TypeErr ''prepare_weights expects a torch.nn.Module'')
      else Inr \<lparr>pw_recipes = recipes, pw_stable = retain, pw_closed = False, pw_compiled = [], pw_states = []\<rparr>)"

definition close_weights :: "prepared_weights \<Rightarrow> prepared_weights" where
  "close_weights p = (if pw_closed p then p else p\<lparr>pw_closed := True, pw_states := [], pw_compiled := []\<rparr>)"

text \<open>Operations on the owner and the diagnostics it shares; an exception keeps the changes made before it.\<close>

type_synonym 'a wact = "prepared_weights \<times> diagnostics \<Rightarrow> 'a res \<times> prepared_weights \<times> diagnostics"

definition wa_bind :: "'a wact \<Rightarrow> ('a \<Rightarrow> 'b wact) \<Rightarrow> 'b wact" where
  "wa_bind m f s = (case m s of (Inl e, s') \<Rightarrow> (Inl e, s') | (Inr x, s') \<Rightarrow> f x s')"

definition wa_res :: "'a res \<Rightarrow> 'a wact" where
  "wa_res r s = (r, s)"

definition wa_owner :: "(prepared_weights \<Rightarrow> prepared_weights) \<Rightarrow> unit wact" where
  "wa_owner f s = (Inr (), f (fst s), snd s)"

definition wa_count :: "(diagnostics \<Rightarrow> diagnostics res) \<Rightarrow> unit wact" where
  "wa_count f s = (case f (snd s) of Inl e \<Rightarrow> (Inl e, s) | Inr d \<Rightarrow> (Inr (), fst s, d))"

definition drop_state :: "string \<Rightarrow> unit wact" where
  "drop_state name = wa_owner (\<lambda>p. p\<lparr>pw_states := od_del name (pw_states p)\<rparr>)"

definition require_open_weights :: "unit wact" where
  "require_open_weights s = (if pw_closed (fst s) then (Inl (RuntimeErr ''PreparedWeights is closed''), s) else (Inr (), s))"

fun invalidate_all :: "string list \<Rightarrow> unit wact" where
  "invalidate_all [] s = (Inr (), s)"
| "invalidate_all (k # ks) s =
     (if map_of (pw_states (fst s)) k = None then invalidate_all ks s
      else wa_bind (drop_state k) (\<lambda>_. wa_bind (wa_count (increment ''weight_invalidations'' 1)) (\<lambda>_. invalidate_all ks)) s)"

definition invalidate_weights :: "string option \<Rightarrow> unit wact" where
  "invalidate_weights name = wa_bind require_open_weights (\<lambda>_ s.
     invalidate_all (case name of None \<Rightarrow> od_keys (pw_states (fst s)) | Some n \<Rightarrow> [n]) s)"

section \<open>One get\<close>

text \<open>
  What the outside answers during a call.  The module is read up to three times; the bytes of the tensor
  resolved first are also read by the relocation and once more after it, and other threads may write
  them in between.
\<close>

record weight_call =
  wc_before :: "module_view option"
  wc_after :: "module_view option"
  wc_last :: "module_view option"
  wc_bytes_during :: string
  wc_bytes_after :: string
  wc_grad :: bool

text \<open>The compiler and the native executor: functions of what they are given.\<close>

record weight_native =
  wn_compile :: "recipe \<Rightarrow> compiled_recipe res"
  wn_layout :: "compiled_recipe \<Rightarrow> bindings \<Rightarrow> nat res"
  wn_empty :: "int list \<Rightarrow> string \<Rightarrow> live"
  wn_relocate :: "nat \<Rightarrow> string \<Rightarrow> string res"

text \<open>What a get delivers: a replay, a transfer of current values, or the prepared host tensor.\<close>

datatype delivery =
    Replayed recipe slot
  | Transferred compiled_recipe recipe slot
  | Copied slot
  | Moved compiled_recipe slot

definition compile_slot :: "weight_native \<Rightarrow> string \<Rightarrow> recipe \<Rightarrow> compiled_recipe wact" where
  "compile_slot wn name r s = (case map_of (pw_compiled (fst s)) name of
     Some a \<Rightarrow> (Inr a, s)
   | None \<Rightarrow> wa_bind (wa_res (wn_compile wn r)) (\<lambda>a.
       wa_bind (wa_owner (\<lambda>p. p\<lparr>pw_compiled := od_set name a (pw_compiled p)\<rparr>)) (\<lambda>_. wa_res (Inr a))) s)"

text \<open>\<open>_materialize\<close>: \<open>None\<close> when the recipe does not bind this source.\<close>

definition bound_layout :: "weight_native \<Rightarrow> compiled_recipe \<Rightarrow> slot \<Rightarrow> (bindings \<times> nat) res" where
  "bound_layout wn a src =
     res_bind (bind_symbols None 0 a (sl_tensor src)) (\<lambda>b. res_bind (wn_layout wn a b) (\<lambda>n. Inr (b, n)))"

definition prepared_extents :: "compiled_recipe \<Rightarrow> bindings \<Rightarrow> int list res" where
  "prepared_extents a b = mapR (evaluate False (map_of b)) (ts_shape (cr_logical_destination a))"

definition materialize :: "weight_native \<Rightarrow> compiled_recipe \<Rightarrow> slot \<Rightarrow> string \<Rightarrow> slot option wact" where
  "materialize wn a src bytes = (case bound_layout wn a src of
     Inl (UnsupportedRecipe reason _) \<Rightarrow>
       wa_bind (wa_count (\<lambda>d. Inr (record_fallback reason d))) (\<lambda>_. wa_res (Inr None))
   | Inl e \<Rightarrow> wa_res (Inl e)
   | Inr (b, n) \<Rightarrow>
       wa_bind (wa_res (prepared_extents a b)) (\<lambda>shape.
       wa_bind (wa_count (increment ''symbol_binds'' 1)) (\<lambda>_.
       wa_bind (wa_res (wn_relocate wn n bytes)) (\<lambda>out.
         wa_res (Inr (Some \<lparr>sl_tensor = wn_empty wn shape (lv_dtype (sl_tensor src)), sl_version = Some 0,
           sl_bytes = out\<rparr>))))))"

definition cacheable :: "bool \<Rightarrow> slot \<Rightarrow> bool" where
  "cacheable grad src \<longleftrightarrow> dv_type (lv_device (sl_tensor src)) = ''cpu'' \<and> source_reason grad (sl_tensor src) = None"

text \<open>\<open>backend.identity_recipe\<close>.\<close>

definition identity_recipe :: "nat \<Rightarrow> string \<Rightarrow> string \<Rightarrow> recipe res" where
  "identity_recipe rank dtype direction =
     (if rank < 1 then Inl (UnsupportedRecipe ''unsupported_rank'' ''identity recipe requires rank >= 1'')
      else let shape = map (\<lambda>axis. Symbol (''s'' @ py_str (int axis))) [0..<rank];
               d = \<lparr>ts_shape = shape, ts_strides = dense_strides shape, ts_offset = Const 0, ts_dtype = dtype\<rparr>
           in Inr \<lparr>r_source = d, r_operations = [], r_destination = d, r_direction = direction\<rparr>)"

text \<open>
  The step after materialising: publish only if the slot still has the fingerprint and the resolved
  tensor still has the bytes taken before.
\<close>

definition publish_state ::
  "weight_call \<Rightarrow> string \<Rightarrow> recipe \<Rightarrow> fingerprint \<Rightarrow> string \<Rightarrow> slot \<Rightarrow> (slot + delivery) wact" where
  "publish_state x name r fp current q =
     wa_bind (wa_res (slot_of (wc_after x) name)) (\<lambda>now.
       if fingerprint now \<noteq> fp \<or> wc_bytes_after x \<noteq> current
       then wa_bind (wa_res (slot_of (wc_last x) name)) (\<lambda>latest. wa_res (Inr (Inr (Replayed r (detach latest)))))
       else wa_bind (wa_owner (\<lambda>p. p\<lparr>pw_states :=
                od_set name \<lparr>ss_fingerprint = fp, ss_saved = current, ss_prepared = q\<rparr> (pw_states p)\<rparr>)) (\<lambda>_.
            wa_bind (wa_count (increment ''weight_preparations'' 1)) (\<lambda>_. wa_res (Inr (Inl q)))))"

text \<open>The retained state, dropped first when it no longer matches.\<close>

definition retained_state :: "bool \<Rightarrow> string \<Rightarrow> fingerprint \<Rightarrow> string \<Rightarrow> stable_state option wact" where
  "retained_state admitted name fp current s = (case map_of (pw_states (fst s)) name of
     None \<Rightarrow> (Inr None, s)
   | Some st \<Rightarrow>
      (if admitted \<and> ss_fingerprint st = fp \<and> current = ss_saved st then (Inr (Some st), s)
       else wa_bind (drop_state name) (\<lambda>_. wa_bind (wa_count (increment ''weight_invalidations'' 1)) (\<lambda>_.
         wa_res (Inr None))) s))"

definition deliver_prepared :: "weight_native \<Rightarrow> compiled_recipe \<Rightarrow> device \<Rightarrow> slot \<Rightarrow> delivery wact" where
  "deliver_prepared wn a dev q =
     (if dv_type dev \<noteq> ''cuda'' then wa_res (Inr (Copied q))
      else let d = cr_logical_destination a in
        wa_bind (wa_res (res_bind (identity_recipe (length (ts_shape d)) (ts_dtype d) ''h2d'') (wn_compile wn)))
          (\<lambda>i. wa_res (Inr (Moved i q))))"

definition stable_get ::
  "weight_native \<Rightarrow> weight_call \<Rightarrow> string \<Rightarrow> recipe \<Rightarrow> compiled_recipe \<Rightarrow> slot \<Rightarrow> device \<Rightarrow> delivery wact" where
  "stable_get wn x name r a source dev =
     (let src = detach source; fp = fingerprint source; admitted = cacheable (wc_grad x) src; current = sl_bytes src in
      wa_bind (retained_state admitted name fp current) (\<lambda>state.
        if \<not> admitted then wa_res (Inr (Transferred a r src))
        else case state of
          Some st \<Rightarrow> deliver_prepared wn a dev (ss_prepared st)
        | None \<Rightarrow> wa_bind (materialize wn a src (wc_bytes_during x)) (\<lambda>out. case out of
              None \<Rightarrow> wa_res (Inr (Replayed r src))
            | Some q \<Rightarrow> wa_bind (publish_state x name r fp current q) (\<lambda>published. case published of
                  Inr dl \<Rightarrow> wa_res (Inr dl)
                | Inl q \<Rightarrow> deliver_prepared wn a dev q))))"

definition compiled_get :: "weight_native \<Rightarrow> weight_call \<Rightarrow> string \<Rightarrow> recipe \<Rightarrow> slot \<Rightarrow> device \<Rightarrow> delivery wact" where
  "compiled_get wn x name r source dev s = (case compile_slot wn name r s of
     (Inl (UnsupportedRecipe reason _), s) \<Rightarrow>
       wa_bind (wa_count (\<lambda>d. Inr (record_exclusion reason d))) (\<lambda>_. wa_res (Inr (Replayed r (detach source)))) s
   | (Inl e, s) \<Rightarrow> (Inl e, s)
   | (Inr a, s) \<Rightarrow>
       (if \<not> pw_stable (fst s) then (Inr (Transferred a r (detach source)), s)
        else stable_get wn x name r a source dev s))"

definition get_weight :: "weight_native \<Rightarrow> weight_call \<Rightarrow> string \<Rightarrow> device \<Rightarrow> delivery wact" where
  "get_weight wn x name dev s =
     (if pw_closed (fst s) then (Inl (RuntimeErr ''PreparedWeights is closed''), s)
      else case map_of (pw_recipes (fst s)) name of
        None \<Rightarrow> (Inl (KeyErr (msg [''no recipe was supplied for slot '', name])), s)
      | Some r \<Rightarrow> (case slot_of (wc_before x) name of
          Inl e \<Rightarrow> (Inl e, s)
        | Inr source \<Rightarrow>
            if lv_requires_grad (sl_tensor source) \<and> wc_grad x
            then wa_bind (wa_count (\<lambda>d. Inr (record_fallback ''requires_grad'' d))) (\<lambda>_. wa_res (Inr (Replayed r source))) s
            else compiled_get wn x name r source dev s))"

text \<open>
  The last action: replays and copies are PyTorch's; a transfer goes through \<open>execute_or_fallback\<close> with
  a replay, or a copy, as its original region.
\<close>

definition weight_entry :: "compiled_recipe \<Rightarrow> string \<Rightarrow> nat \<Rightarrow> entry" where
  "weight_entry a label i = \<lparr>en_identity = i, en_compiled = a, en_symbolic = [], en_guards = [],
     en_indexed = False, en_handle = Some label, en_closed = False, en_event_set = False\<rparr>"

record torch_weights =
  tw_replay :: "recipe \<Rightarrow> slot \<Rightarrow> device \<Rightarrow> live res"
  tw_copy :: "slot \<Rightarrow> device \<Rightarrow> live res"

definition deliver :: "host \<Rightarrow> torch_weights \<Rightarrow> string \<Rightarrow> nat \<Rightarrow> device \<Rightarrow> delivery \<Rightarrow> live option act" where
  "deliver h tw name i dev dl = (case dl of
     Replayed r s \<Rightarrow> lift_res (map_sum id Some (tw_replay tw r s dev))
   | Copied q \<Rightarrow> lift_res (map_sum id Some (tw_copy tw q dev))
   | Transferred a r s \<Rightarrow>
       execute_or_fallback (h\<lparr>ho_original := \<lambda>_ _ _. map_sum id Some (tw_replay tw r s dev)\<rparr>) None
         (weight_entry a (''weight/'' @ name) i) (sl_tensor s) None dev False None []
   | Moved a q \<Rightarrow>
       execute_or_fallback (h\<lparr>ho_original := \<lambda>_ _ _. map_sum id Some (tw_copy tw q dev)\<rparr>) None
         (weight_entry a (''weight/'' @ name @ ''/prepared'') i) (sl_tensor q) None dev False None [])"

section \<open>Prepared data is current\<close>

text \<open>What a retained host tensor has to be: the relocation of these bytes under this source's layout.\<close>

definition transformed :: "weight_native \<Rightarrow> compiled_recipe \<Rightarrow> slot \<Rightarrow> string \<Rightarrow> slot res" where
  "transformed wn a src bytes =
     res_bind (bound_layout wn a src) (\<lambda>(b, n).
     res_bind (prepared_extents a b) (\<lambda>shape.
     res_bind (wn_relocate wn n bytes) (\<lambda>out.
       Inr \<lparr>sl_tensor = wn_empty wn shape (lv_dtype (sl_tensor src)), sl_version = Some 0, sl_bytes = out\<rparr>)))"

definition state_ok :: "weight_native \<Rightarrow> compiled_recipe \<Rightarrow> stable_state \<Rightarrow> bool" where
  "state_ok wn a st \<longleftrightarrow> (\<exists>src grad. cacheable grad (detach src) \<and> fingerprint src = ss_fingerprint st \<and>
     transformed wn a (detach src) (ss_saved st) = Inr (ss_prepared st))"

definition weights_current :: "weight_native \<Rightarrow> prepared_weights \<Rightarrow> bool" where
  "weights_current wn p \<longleftrightarrow> (\<forall>name st. map_of (pw_states p) name = Some st \<longrightarrow>
     (case map_of (pw_compiled p) name of None \<Rightarrow> False | Some a \<Rightarrow> state_ok wn a st))"

lemma weights_currentD:
  "weights_current wn p \<Longrightarrow> map_of (pw_states p) name = Some st \<Longrightarrow> map_of (pw_compiled p) name = Some a \<Longrightarrow>
     state_ok wn a st"
  unfolding weights_current_def by fastforce

text \<open>The fingerprint of an admissible source fixes what the binder reads of it.\<close>

lemma cacheable_offset: "cacheable g (detach s) \<Longrightarrow> lv_offset (sl_tensor s) = 0"
  by (auto simp: cacheable_def detach_def source_reason_def split: if_splits)

lemma transformed_fingerprint:
  assumes "cacheable g (detach s)" and "cacheable g' (detach s')" and "fingerprint s = fingerprint s'"
  shows "transformed wn a (detach s) bytes = transformed wn a (detach s') bytes"
proof -
  have "lv_offset (sl_tensor s) = 0" "lv_offset (sl_tensor s') = 0"
    using assms(1,2) by (simp_all add: cacheable_offset)
  with assms(3) have "tensor_view (sl_tensor (detach s)) = tensor_view (sl_tensor (detach s'))"
    and "lv_dtype (sl_tensor (detach s)) = lv_dtype (sl_tensor (detach s'))"
    by (auto simp: fingerprint_def storage_span_def detach_def tensor_view_def Let_def)
  then show ?thesis by (simp add: transformed_def bound_layout_def bind_symbols_def)
qed

named_theorems wa_defs "unfolding of the owner's operations"

lemmas [wa_defs] = wa_bind_def wa_res_def wa_owner_def wa_count_def drop_state_def require_open_weights_def

lemma materialize_transformed:
  assumes "materialize wn a src bytes s = (Inr (Some q), s')"
  shows "transformed wn a src bytes = Inr q \<and> fst s' = fst s"
  using assms unfolding materialize_def transformed_def
  by (auto simp: wa_defs res_bind_def split: sum.splits exn.splits prod.splits)

lemma materialize_owner: "materialize wn a src bytes s = (r, s') \<Longrightarrow> fst s' = fst s"
  unfolding materialize_def by (auto simp: wa_defs split: sum.splits exn.splits prod.splits)

lemma weights_current_drop: "weights_current wn p \<Longrightarrow> weights_current wn (p\<lparr>pw_states := od_del name (pw_states p)\<rparr>)"
  by (auto simp: weights_current_def)

lemma weights_current_set:
  assumes "weights_current wn p" and "map_of (pw_compiled p) name = Some a" and "state_ok wn a st"
  shows "weights_current wn (p\<lparr>pw_states := od_set name st (pw_states p)\<rparr>)"
  using assms by (simp add: weights_current_def)

lemma weights_current_compile:
  assumes "weights_current wn p" and "map_of (pw_compiled p) name = None"
  shows "weights_current wn (p\<lparr>pw_compiled := od_set name a (pw_compiled p)\<rparr>)"
  unfolding weights_current_def
proof (intro allI impI)
  fix n st
  assume st: "map_of (pw_states (p\<lparr>pw_compiled := od_set name a (pw_compiled p)\<rparr>)) n = Some st"
  then have "case map_of (pw_compiled p) n of None \<Rightarrow> False | Some a \<Rightarrow> state_ok wn a st"
    using assms(1) by (simp add: weights_current_def)
  then show "case map_of (pw_compiled (p\<lparr>pw_compiled := od_set name a (pw_compiled p)\<rparr>)) n of
      None \<Rightarrow> False | Some a \<Rightarrow> state_ok wn a st"
    using assms(2) by (auto split: option.splits)
qed

lemma retained_state_cases:
  assumes "retained_state admitted name fp current s = (r, s')"
  shows "(fst s' = fst s \<or> fst s' = (fst s)\<lparr>pw_states := od_del name (pw_states (fst s))\<rparr>) \<and>
    (\<forall>st. r = Inr (Some st) \<longrightarrow> fst s' = fst s \<and> map_of (pw_states (fst s)) name = Some st \<and> admitted \<and>
       ss_fingerprint st = fp \<and> ss_saved st = current)"
  using assms unfolding retained_state_def
  by (auto simp: wa_defs split: option.splits if_splits sum.splits prod.splits)

lemma publish_state_cases:
  assumes "publish_state x name r fp current q s = (out, s')"
  shows "(fst s' = fst s \<or> wc_bytes_after x = current \<and>
      fst s' = (fst s)\<lparr>pw_states := od_set name \<lparr>ss_fingerprint = fp, ss_saved = current, ss_prepared = q\<rparr> (pw_states (fst s))\<rparr>) \<and>
    (\<forall>q'. out = Inr (Inl q') \<longrightarrow> q' = q \<and> wc_bytes_after x = current) \<and>
    (\<forall>dl. out = Inr (Inr dl) \<longrightarrow> (\<exists>l. slot_of (wc_last x) name = Inr l \<and> dl = Replayed r (detach l)))"
  using assms unfolding publish_state_def
  by (auto simp: wa_defs split: if_splits sum.splits prod.splits)

lemma deliver_prepared_cases:
  assumes "deliver_prepared wn a dev q s = (out, s')"
  shows "s' = s \<and> (\<forall>dl. out = Inr dl \<longrightarrow> dl = Copied q \<or> (\<exists>i. dl = Moved i q))"
  using assms unfolding deliver_prepared_def
  by (auto simp: wa_defs Let_def split: if_splits sum.splits prod.splits)

text \<open>What one delivery stands for: the values of the slot, at the first reading or at the last.\<close>

definition prepared_of :: "weight_native \<Rightarrow> compiled_recipe option \<Rightarrow> slot \<Rightarrow> slot \<Rightarrow> bool" where
  "prepared_of wn oa source q \<longleftrightarrow> (case oa of None \<Rightarrow> False
     | Some a \<Rightarrow> transformed wn a (detach source) (sl_bytes source) = Inr q)"

fun delivers :: "weight_native \<Rightarrow> weight_call \<Rightarrow> string \<Rightarrow> compiled_recipe option \<Rightarrow> slot \<Rightarrow> delivery \<Rightarrow> bool" where
  "delivers wn x name oa source (Replayed r s) \<longleftrightarrow>
     s = source \<or> s = detach source \<or> (case slot_of (wc_last x) name of Inl _ \<Rightarrow> False | Inr l \<Rightarrow> s = detach l)"
| "delivers wn x name oa source (Transferred a r s) \<longleftrightarrow> oa = Some a \<and> s = detach source"
| "delivers wn x name oa source (Copied q) \<longleftrightarrow> prepared_of wn oa source q"
| "delivers wn x name oa source (Moved i q) \<longleftrightarrow> prepared_of wn oa source q"

text \<open>The relocation reads the bytes as they were before or as they are after: no write is undone in between.\<close>

definition undisturbed :: "weight_call \<Rightarrow> string \<Rightarrow> bool" where
  "undisturbed x name \<longleftrightarrow> (\<forall>s. slot_of (wc_before x) name = Inr s \<longrightarrow>
     wc_bytes_during x \<in> {sl_bytes s, wc_bytes_after x})"

lemma stable_get_current:
  assumes ok: "weights_current wn (fst s)" and a: "map_of (pw_compiled (fst s)) name = Some a"
    and calm: "wc_bytes_during x \<in> {sl_bytes source, wc_bytes_after x}"
    and run: "stable_get wn x name r a source dev s = (out, s')"
  shows "weights_current wn (fst s') \<and> pw_compiled (fst s') = pw_compiled (fst s) \<and>
    pw_closed (fst s') = pw_closed (fst s) \<and> (\<forall>dl. out = Inr dl \<longrightarrow> delivers wn x name (Some a) source dl)"
proof -
  let ?src = "detach source" and ?adm = "cacheable (wc_grad x) (detach source)"
  have bytes: "sl_bytes ?src = sl_bytes source" by (simp add: detach_def)
  obtain r1 s1 where ret: "retained_state ?adm name (fingerprint source) (sl_bytes ?src) s = (r1, s1)" by (metis surj_pair)
  note R = retained_state_cases [OF ret]
  have ok1: "weights_current wn (fst s1)" and a1: "map_of (pw_compiled (fst s1)) name = Some a"
    and c1: "pw_compiled (fst s1) = pw_compiled (fst s)" "pw_closed (fst s1) = pw_closed (fst s)"
    using R ok a weights_current_drop by auto
  show ?thesis
  proof (cases r1)
    case (Inl e)
    with run ret ok1 c1 show ?thesis by (auto simp: stable_get_def Let_def wa_bind_def)
  next
    case (Inr state)
    show ?thesis
    proof (cases "?adm")
      case False
      with run ret Inr ok1 c1 show ?thesis by (auto simp: stable_get_def Let_def wa_bind_def wa_res_def)
    next
      case adm: True
      show ?thesis
      proof (cases state)
        case (Some st)
        with R Inr have st: "map_of (pw_states (fst s)) name = Some st" "fst s1 = fst s"
          "ss_fingerprint st = fingerprint source" "ss_saved st = sl_bytes source" by (auto simp: bytes)
        from weights_currentD [OF ok st(1) a] obtain src g where
          "cacheable g (detach src)" "fingerprint src = fingerprint source"
          "transformed wn a (detach src) (sl_bytes source) = Inr (ss_prepared st)"
          by (auto simp: state_ok_def st)
        then have t: "transformed wn a ?src (sl_bytes source) = Inr (ss_prepared st)"
          using transformed_fingerprint [OF _ adm] by metis
        have "deliver_prepared wn a dev (ss_prepared st) s1 = (out, s')"
          using run ret Inr Some adm by (simp add: stable_get_def Let_def wa_bind_def)
        from deliver_prepared_cases [OF this] ok1 c1 t show ?thesis by (auto simp: prepared_of_def)
      next
        case None
        obtain r2 s2 where mat: "materialize wn a ?src (wc_bytes_during x) s1 = (r2, s2)" by (metis surj_pair)
        have ok2: "weights_current wn (fst s2)" "map_of (pw_compiled (fst s2)) name = Some a"
          and c2: "pw_compiled (fst s2) = pw_compiled (fst s)" "pw_closed (fst s2) = pw_closed (fst s)"
          using materialize_owner [OF mat] ok1 a1 c1 by simp_all
        show ?thesis
        proof (cases "\<exists>q. r2 = Inr (Some q)")
          case False
          with run ret Inr None adm mat ok2 c2 show ?thesis
            by (cases r2) (auto simp: stable_get_def Let_def wa_bind_def wa_res_def split: option.splits)
        next
          case True
          then obtain q where q: "r2 = Inr (Some q)" ..
          with materialize_transformed mat have t: "transformed wn a ?src (wc_bytes_during x) = Inr q" by blast
          obtain r3 s3 where pub: "publish_state x name r (fingerprint source) (sl_bytes ?src) q s2 = (r3, s3)" by (metis surj_pair)
          note P = publish_state_cases [OF pub]
          have tq: "transformed wn a ?src (sl_bytes source) = Inr q" if "wc_bytes_after x = sl_bytes source"
            using t calm that by auto
          have "state_ok wn a \<lparr>ss_fingerprint = fingerprint source, ss_saved = sl_bytes source, ss_prepared = q\<rparr>"
            if "wc_bytes_after x = sl_bytes source"
            using tq [OF that] adm by (auto simp: state_ok_def)
          then have ok3: "weights_current wn (fst s3)" using P ok2 weights_current_set by (auto simp: bytes)
          have c3: "pw_compiled (fst s3) = pw_compiled (fst s)" "pw_closed (fst s3) = pw_closed (fst s)"
            using P c2 by auto
          have after: "(case r3 of Inl e \<Rightarrow> (Inl e, s3) | Inr (Inr dl) \<Rightarrow> (Inr dl, s3)
              | Inr (Inl q') \<Rightarrow> deliver_prepared wn a dev q' s3) = (out, s')"
            using run ret Inr None adm mat q pub
            by (simp add: stable_get_def Let_def wa_bind_def wa_res_def split: sum.splits)
          then show ?thesis
            using ok3 P tq c3
            by (auto simp: bytes prepared_of_def split: sum.splits dest!: deliver_prepared_cases)
        qed
      qed
    qed
  qed
qed

lemma compile_slot_cases:
  assumes "compile_slot wn name r s = (out, s')" and ok: "weights_current wn (fst s)"
  shows "weights_current wn (fst s') \<and> (\<forall>a. out = Inr a \<longrightarrow> map_of (pw_compiled (fst s')) name = Some a) \<and>
    pw_closed (fst s') = pw_closed (fst s)"
  using assms(1) weights_current_compile [OF ok, of name] ok unfolding compile_slot_def
  by (auto simp: wa_defs split: option.splits sum.splits prod.splits)

text \<open>The whole of \<open>get\<close>: what it delivers is the slot's data, retained or not.\<close>

lemma compiled_get_current:
  assumes ok: "weights_current wn (fst s)" and calm: "wc_bytes_during x \<in> {sl_bytes source, wc_bytes_after x}"
    and run: "compiled_get wn x name r source dev s = (out, s')"
  shows "weights_current wn (fst s') \<and> pw_closed (fst s') = pw_closed (fst s) \<and>
    (\<forall>dl. out = Inr dl \<longrightarrow> delivers wn x name (map_of (pw_compiled (fst s')) name) source dl)"
proof -
  obtain c s1 where comp: "compile_slot wn name r s = (c, s1)" by (metis surj_pair)
  note C = compile_slot_cases [OF comp ok]
  show ?thesis
  proof (cases c)
    case (Inl e)
    with run comp C show ?thesis by (cases e) (auto simp: compiled_get_def wa_defs)
  next
    case (Inr a)
    with C have a: "map_of (pw_compiled (fst s1)) name = Some a" by blast
    show ?thesis
    proof (cases "pw_stable (fst s1)")
      case True
      with run comp Inr have "stable_get wn x name r a source dev s1 = (out, s')" by (simp add: compiled_get_def)
      from stable_get_current [OF conjunct1 [OF C] a calm this] C a show ?thesis by simp
    qed (use run comp Inr C a in \<open>auto simp: compiled_get_def\<close>)
  qed
qed

lemma get_weight_current:
  assumes ok: "weights_current wn (fst s)" and calm: "undisturbed x name"
    and run: "get_weight wn x name dev s = (out, s')"
  shows "weights_current wn (fst s') \<and> pw_closed (fst s') = pw_closed (fst s) \<and>
    (\<forall>dl. out = Inr dl \<longrightarrow> (case slot_of (wc_before x) name of
      Inl _ \<Rightarrow> False | Inr source \<Rightarrow> delivers wn x name (map_of (pw_compiled (fst s')) name) source dl))"
proof (cases "slot_of (wc_before x) name")
  case (Inr source)
  with calm have "wc_bytes_during x \<in> {sl_bytes source, wc_bytes_after x}" by (auto simp: undisturbed_def)
  from compiled_get_current [OF ok this] run ok Inr show ?thesis
    by (auto simp: get_weight_def wa_defs split: if_splits option.splits)
qed (use run ok in \<open>auto simp: get_weight_def split: if_splits option.splits\<close>)

section \<open>Runs of the owner\<close>

datatype weight_request = GetWeight weight_call string device | InvalidateWeight "string option" | CloseWeights

fun weight_request_run :: "weight_native \<Rightarrow> weight_request \<Rightarrow> prepared_weights \<times> diagnostics \<Rightarrow> prepared_weights \<times> diagnostics" where
  "weight_request_run wn (GetWeight x name dev) s = snd (get_weight wn x name dev s)"
| "weight_request_run wn (InvalidateWeight name) s = snd (invalidate_weights name s)"
| "weight_request_run wn CloseWeights s = (close_weights (fst s), snd s)"

fun request_undisturbed :: "weight_request \<Rightarrow> bool" where
  "request_undisturbed (GetWeight x name dev) \<longleftrightarrow> undisturbed x name"
| "request_undisturbed _ \<longleftrightarrow> True"

lemma invalidate_all_current: "weights_current wn (fst s) \<Longrightarrow> weights_current wn (fst (snd (invalidate_all ks s)))"
  by (induction ks s rule: invalidate_all.induct)
    (auto simp: wa_defs weights_current_drop split: sum.splits)

lemma request_current:
  assumes "weights_current wn (fst s)" and "request_undisturbed op"
  shows "weights_current wn (fst (weight_request_run wn op s))"
proof (cases op)
  case (GetWeight x name dev)
  obtain out s' where "get_weight wn x name dev s = (out, s')" by (metis surj_pair)
  with get_weight_current [OF assms(1) _ this] assms(2) GetWeight show ?thesis by simp
qed (use assms in \<open>auto simp: invalidate_weights_def wa_bind_def require_open_weights_def close_weights_def
  weights_current_def [of _ "_\<lparr>pw_closed := _, pw_states := _, pw_compiled := _\<rparr>"] invalidate_all_current\<close>)

lemma requests_current:
  "weights_current wn (fst s) \<Longrightarrow> \<forall>op\<in>set ops. request_undisturbed op \<Longrightarrow>
     weights_current wn (fst (fold (weight_request_run wn) ops s))"
proof (induction ops arbitrary: s)
  case (Cons op ops)
  then have "weights_current wn (fst (weight_request_run wn op s))" by (intro request_current) auto
  with Cons show ?case by simp
qed simp

lemma prepare_weights_current: "prepare_weights is_module recipes stb = Inr p \<Longrightarrow> weights_current wn p"
  by (auto simp: prepare_weights_def weights_current_def split: if_splits)

section \<open>Retained data is accounted for\<close>

text \<open>
  While the owner is open, the preparations counted exceed the invalidations counted by exactly the
  states retained now; \<open>base\<close> is the difference the shared counters had at the start.
\<close>

definition counter :: "diagnostics \<Rightarrow> string \<Rightarrow> int" where
  "counter d name = the (map_of (dg_counters d) name)"

definition accounted :: "int \<Rightarrow> prepared_weights \<times> diagnostics \<Rightarrow> bool" where
  "accounted base s \<longleftrightarrow> diagnostics_ok (snd s) \<and> od_ok (pw_states (fst s)) \<and> (\<not> pw_closed (fst s) \<longrightarrow>
     counter (snd s) ''weight_preparations'' = base + counter (snd s) ''weight_invalidations'' + int (length (pw_states (fst s))))"

definition keeps :: "(prepared_weights \<times> diagnostics \<Rightarrow> bool) \<Rightarrow> 'a wact \<Rightarrow> bool" where
  "keeps P m \<longleftrightarrow> (\<forall>s r s'. m s = (r, s') \<longrightarrow> P s \<longrightarrow> P s')"

named_theorems keeps_intros "operations that keep an invariant of the owner and its diagnostics"

lemma keeps_bind [keeps_intros]: "keeps P m \<Longrightarrow> (\<And>x. keeps P (f x)) \<Longrightarrow> keeps P (wa_bind m f)"
  unfolding keeps_def wa_bind_def by (auto split: prod.splits sum.splits)

lemma keeps_res [keeps_intros]: "keeps P (wa_res r)"
  by (simp add: keeps_def wa_res_def)

lemma increment_counter:
  assumes "increment name n d = Inr d'"
  shows "counter d' name = counter d name + n" and "m \<noteq> name \<Longrightarrow> counter d' m = counter d m"
  using assms by (auto simp: increment_def counter_def split: option.splits)

lemma counter_names_weight:
  "''weight_preparations'' \<in> set counter_names" "''weight_invalidations'' \<in> set counter_names"
  by (simp_all add: counter_names_def)

lemma weight_names_distinct: "''weight_preparations'' \<noteq> ''weight_invalidations''"
  by simp

lemma increment_known_ok:
  assumes "diagnostics_ok d" and "name \<in> set counter_names"
  shows "\<exists>d'. increment name n d = Inr d' \<and> diagnostics_ok d' \<and> counter d' name = counter d name + n \<and>
    (\<forall>m. m \<noteq> name \<longrightarrow> counter d' m = counter d m)"
proof -
  obtain d' where i: "increment name n d = Inr d'" using increment_known [OF assms] ..
  show ?thesis using i increment_ok [OF assms(1) i] increment_counter [OF i] by blast
qed

lemma filter_absent: "k \<notin> fst ` set d \<Longrightarrow> filter (\<lambda>e. fst e \<noteq> k) d = d"
  by (induction d) auto

lemma length_del_present: "od_ok d \<Longrightarrow> map_of d k = Some v \<Longrightarrow> Suc (length (od_del k d)) = length d"
  by (induction d) (auto simp: od_del_def od_ok_def od_keys_def filter_absent dest: map_of_SomeD split: if_splits)

lemma keeps_count:
  assumes "name \<noteq> ''weight_preparations''" and "name \<noteq> ''weight_invalidations''"
  shows "keeps (accounted base) (wa_count (increment name n))"
  unfolding keeps_def accounted_def wa_count_def
  using increment_ok increment_counter(2) assms by (auto split: sum.splits)

lemma keeps_tables [keeps_intros]:
  "keeps (accounted base) (wa_count (\<lambda>d. Inr (record_fallback reason d)))"
  "keeps (accounted base) (wa_count (\<lambda>d. Inr (record_exclusion reason d)))"
  by (auto simp: keeps_def accounted_def wa_count_def counter_def record_fallback_def record_exclusion_def diagnostics_ok_def)

lemma accounted_drop:
  assumes "accounted base s" and "map_of (pw_states (fst s)) name = Some st"
    and "wa_bind (drop_state name) (\<lambda>_. wa_bind (wa_count (increment ''weight_invalidations'' 1)) f) s = (r, s')"
  shows "\<exists>s1. accounted base s1 \<and> f () s1 = (r, s')"
proof -
  have d: "diagnostics_ok (snd s)" and ok: "od_ok (pw_states (fst s))" using assms(1) by (simp_all add: accounted_def)
  obtain d' where i: "increment ''weight_invalidations'' 1 (snd s) = Inr d'" and d': "diagnostics_ok d'"
    and c: "counter d' ''weight_invalidations'' = counter (snd s) ''weight_invalidations'' + 1"
    and o: "\<And>m. m \<noteq> ''weight_invalidations'' \<Longrightarrow> counter d' m = counter (snd s) m"
    using increment_known_ok [OF d counter_names_weight(2), of 1] by blast
  let ?s = "((fst s)\<lparr>pw_states := od_del name (pw_states (fst s))\<rparr>, d')"
  have "accounted base ?s"
    using assms(1) d' ok c o [OF weight_names_distinct] length_del_present [OF ok assms(2)]
    by (simp add: accounted_def od_ok_del del: of_nat_Suc)
  moreover have "f () ?s = (r, s')" using assms(3) i by (simp add: wa_defs)
  ultimately show ?thesis by blast
qed

lemma keeps_retained [keeps_intros]: "keeps (accounted base) (retained_state admitted name fp current)"
  unfolding keeps_def
proof (intro allI impI)
  fix s s' :: "prepared_weights \<times> diagnostics" and r
  assume run: "retained_state admitted name fp current s = (r, s')" and ok: "accounted base s"
  show "accounted base s'"
  proof (cases "map_of (pw_states (fst s)) name")
    case (Some st)
    show ?thesis
    proof (cases "admitted \<and> ss_fingerprint st = fp \<and> current = ss_saved st")
      case False
      with run Some have "wa_bind (drop_state name) (\<lambda>_. wa_bind (wa_count (increment ''weight_invalidations'' 1))
          (\<lambda>_. wa_res (Inr None))) s = (r, s')" by (auto simp: retained_state_def)
      from accounted_drop [OF ok Some this] show ?thesis by (auto simp: wa_res_def)
    qed (use run ok Some in \<open>simp add: retained_state_def\<close>)
  qed (use run ok in \<open>simp add: retained_state_def\<close>)
qed

lemma keeps_materialize [keeps_intros]: "keeps (accounted base) (materialize wn a src bytes)"
  unfolding materialize_def by (auto split: sum.splits exn.splits intro!: keeps_intros keeps_count)

lemma keeps_deliver [keeps_intros]: "keeps (accounted base) (deliver_prepared wn a dev q)"
  unfolding deliver_prepared_def Let_def by (auto intro!: keeps_intros)

text \<open>A state is published only where none was retained.\<close>

lemma publish_accounted:
  assumes ok: "accounted base s" and none: "map_of (pw_states (fst s)) name = None" and op: "\<not> pw_closed (fst s)"
    and run: "publish_state x name r fp current q s = (out, s')"
  shows "accounted base s'"
proof -
  have d: "diagnostics_ok (snd s)" and od: "od_ok (pw_states (fst s))" using ok by (simp_all add: accounted_def)
  obtain d' where i: "increment ''weight_preparations'' 1 (snd s) = Inr d'" and d': "diagnostics_ok d'"
    and c: "counter d' ''weight_preparations'' = counter (snd s) ''weight_preparations'' + 1"
    and o: "\<And>m. m \<noteq> ''weight_preparations'' \<Longrightarrow> counter d' m = counter (snd s) m"
    using increment_known_ok [OF d counter_names_weight(1), of 1] by blast
  have "name \<notin> set (od_keys (pw_states (fst s)))" using none by (metis map_of_eq_None_iff od_keys_def set_map)
  then have "length (od_set name st (pw_states (fst s))) = Suc (length (pw_states (fst s)))" for st
    by (simp add: length_od_set)
  then have "accounted base ((fst s)\<lparr>pw_states := od_set name st (pw_states (fst s))\<rparr>, d')" for st
    using ok od d' c o [OF weight_names_distinct [symmetric]] op by (simp add: accounted_def od_ok_set)
  with run ok i show ?thesis
    by (auto simp: publish_state_def wa_defs split: sum.splits if_splits)
qed

lemma retained_none:
  "retained_state admitted name fp current s = (Inr None, s') \<Longrightarrow> map_of (pw_states (fst s')) name = None"
  by (auto simp: retained_state_def wa_defs split: option.splits if_splits sum.splits)

lemma keepsD: "keeps P m \<Longrightarrow> m s = (r, s') \<Longrightarrow> P s \<Longrightarrow> P s'"
  unfolding keeps_def by blast

lemma stable_get_accounted:
  assumes ok: "accounted base s" and op: "\<not> pw_closed (fst s)"
    and run: "stable_get wn x name r a source dev s = (out, s')"
  shows "accounted base s'"
proof -
  let ?src = "detach source" and ?adm = "cacheable (wc_grad x) (detach source)"
  obtain r1 s1 where ret: "retained_state ?adm name (fingerprint source) (sl_bytes ?src) s = (r1, s1)" by (metis surj_pair)
  have ok1: "accounted base s1" by (rule keepsD [OF keeps_retained ret ok])
  have op1: "\<not> pw_closed (fst s1)" using retained_state_cases [OF ret] op by auto
  show ?thesis
  proof (cases "r1 = Inr None \<and> ?adm")
    case False
    then consider e where "r1 = Inl e" | st where "r1 = Inr st" "\<not> ?adm" | st where "r1 = Inr (Some st)" "?adm"
      by (cases r1) auto
    then show ?thesis
    proof cases
      case 3
      with run ret have "deliver_prepared wn a dev (ss_prepared st) s1 = (out, s')"
        by (simp add: stable_get_def Let_def wa_bind_def)
      from keepsD [OF keeps_deliver this ok1] show ?thesis .
    qed (use run ret ok1 in \<open>auto simp: stable_get_def Let_def wa_bind_def wa_res_def\<close>)
  next
    case True
    then have none: "map_of (pw_states (fst s1)) name = None" using retained_none ret by blast
    obtain r2 s2 where mat: "materialize wn a ?src (wc_bytes_during x) s1 = (r2, s2)" by (metis surj_pair)
    have ok2: "accounted base s2" by (rule keepsD [OF keeps_materialize mat ok1])
    have s2: "fst s2 = fst s1" using materialize_owner [OF mat] .
    show ?thesis
    proof (cases "\<exists>q. r2 = Inr (Some q)")
      case False
      with run ret True mat ok2 show ?thesis
        by (cases r2) (auto simp: stable_get_def Let_def wa_bind_def wa_res_def split: option.splits)
    next
      case q: True
      then obtain q where q: "r2 = Inr (Some q)" ..
      obtain r3 s3 where pub: "publish_state x name r (fingerprint source) (sl_bytes ?src) q s2 = (r3, s3)" by (metis surj_pair)
      have ok3: "accounted base s3" using publish_accounted [OF ok2 _ _ pub] none op1 s2 by simp
      have after: "(case r3 of Inl e \<Rightarrow> (Inl e, s3) | Inr (Inr dl) \<Rightarrow> (Inr dl, s3)
          | Inr (Inl q') \<Rightarrow> deliver_prepared wn a dev q' s3) = (out, s')"
        using run ret True mat q pub by (simp add: stable_get_def Let_def wa_bind_def wa_res_def split: sum.splits)
      then show ?thesis using ok3 by (auto split: sum.splits dest!: deliver_prepared_cases)
    qed
  qed
qed

lemma compile_slot_accounted:
  assumes "accounted base s" and "compile_slot wn name r s = (out, s')"
  shows "accounted base s' \<and> pw_closed (fst s') = pw_closed (fst s)"
  using assms by (auto simp: compile_slot_def wa_defs accounted_def split: option.splits sum.splits)

lemma compiled_get_accounted:
  assumes ok: "accounted base s" and op: "\<not> pw_closed (fst s)"
    and run: "compiled_get wn x name r source dev s = (out, s')"
  shows "accounted base s'"
proof -
  obtain c s1 where comp: "compile_slot wn name r s = (c, s1)" by (metis surj_pair)
  have ok1: "accounted base s1" and op1: "\<not> pw_closed (fst s1)" using compile_slot_accounted [OF ok comp] op by auto
  have recorded: "accounted base s'"
    if "wa_bind (wa_count (\<lambda>d. Inr (record_exclusion reason d))) (\<lambda>_. wa_res (Inr (Replayed r (detach source)))) s1 = (out, s')"
    for reason
  proof -
    have "keeps (accounted base) (wa_bind (wa_count (\<lambda>d. Inr (record_exclusion reason d)))
      (\<lambda>_. wa_res (Inr (Replayed r (detach source)))))" by (intro keeps_intros)
    from this [unfolded keeps_def] that ok1 show ?thesis by blast
  qed
  show ?thesis
  proof (cases c)
    case (Inl e)
    with run comp ok1 recorded show ?thesis by (cases e) (auto simp: compiled_get_def)
  next
    case (Inr a)
    show ?thesis
    proof (cases "pw_stable (fst s1)")
      case True
      with run comp Inr have "stable_get wn x name r a source dev s1 = (out, s')" by (simp add: compiled_get_def)
      from stable_get_accounted [OF ok1 op1 this] show ?thesis .
    qed (use run comp Inr ok1 in \<open>auto simp: compiled_get_def\<close>)
  qed
qed

lemma get_weight_accounted:
  assumes ok: "accounted base s" and run: "get_weight wn x name dev s = (out, s')"
  shows "accounted base s'"
proof -
  have recorded: "accounted base s'"
    if "wa_bind (wa_count (\<lambda>d. Inr (record_fallback reason d))) (\<lambda>_. wa_res (Inr dl)) s = (out, s')" for reason dl
  proof -
    have "keeps (accounted base) (wa_bind (wa_count (\<lambda>d. Inr (record_fallback reason d))) (\<lambda>_. wa_res (Inr dl)))"
      by (intro keeps_intros)
    from this [unfolded keeps_def] that ok show ?thesis by blast
  qed
  show ?thesis
    using run ok compiled_get_accounted [OF ok] recorded
    by (auto simp: get_weight_def split: if_splits option.splits sum.splits)
qed

lemma invalidate_all_accounted: "accounted base s \<Longrightarrow> accounted base (snd (invalidate_all ks s))"
proof (induction ks arbitrary: s)
  case (Cons k ks)
  show ?case
  proof (cases "map_of (pw_states (fst s)) k")
    case None
    with Cons show ?thesis by simp
  next
    case (Some st)
    obtain r s' where run: "invalidate_all (k # ks) s = (r, s')" by (metis surj_pair)
    with Some have "wa_bind (drop_state k) (\<lambda>_. wa_bind (wa_count (increment ''weight_invalidations'' 1))
        (\<lambda>_. invalidate_all ks)) s = (r, s')" by simp
    from accounted_drop [OF Cons.prems Some this] obtain s1 where "accounted base s1" "invalidate_all ks s1 = (r, s')" by blast
    with Cons.IH [of s1] run show ?thesis by simp
  qed
qed simp

lemma request_accounted:
  assumes ok: "accounted base s"
  shows "accounted base (weight_request_run wn op s)"
proof (cases op)
  case (GetWeight x name dev)
  obtain out s' where "get_weight wn x name dev s = (out, s')" by (metis surj_pair)
  with get_weight_accounted [OF ok this] GetWeight show ?thesis by simp
next
  case CloseWeights
  with ok show ?thesis by (auto simp: close_weights_def accounted_def od_ok_def od_keys_def)
qed (use ok in \<open>auto simp: invalidate_weights_def wa_bind_def require_open_weights_def invalidate_all_accounted\<close>)

lemma requests_accounted: "accounted base s \<Longrightarrow> accounted base (fold (weight_request_run wn) ops s)"
proof (induction ops arbitrary: s)
  case (Cons op ops)
  from Cons.IH [OF request_accounted [OF Cons.prems]] show ?case by simp
qed simp

end
