(* ===== verification/Owner_Properties.thy ===== *)
theory Owner_Properties
  imports Worked_Call Contention Weights
begin

text \<open>
  Properties of the objects that own several requests or weights: transfer groups, groups competing for
  the same requests, replayed recipes and prepared module weights.
\<close>

section \<open>Groups\<close>

text \<open>
  C27. A group executes as a whole: either nothing was launched, the call failed and every member keeps its
  state, or there was exactly one launch, the group was fresh, every member's lock was free, every member was
  fresh and passed its own recheck, and group and members are all consumed.
\<close>

theorem group_launches_whole:
  assumes "group_body x g = ((r, g'), n)"
  shows "(n = 0 \<and> (\<exists>e. r = Inl e) \<and> tg_members g' = tg_members g \<and> tg_consumed g' = tg_consumed g) \<or>
    (n = 1 \<and> \<not> tg_consumed g \<and> tg_consumed g' \<and> map fst (tg_members g') = map fst (tg_members g) \<and>
     (\<forall>(i, m)\<in>set (tg_members g'). member_consumed m) \<and>
     (\<forall>(i, m)\<in>set (tg_members g). ge_lock_free x i \<and> \<not> member_consumed m \<and> recheck_member m (ge_now x i) = Inr ()))"
proof -
  have "map fst (tg_members g') = map fst (tg_members g) \<and> (\<forall>(i, m)\<in>set (tg_members g'). member_consumed m) \<and> tg_consumed g'"
    if "g' = consume_group (g\<lparr>tg_native := tg_native g'\<rparr>)"
    by (subst (1 2 3) that) (auto simp: consume_group_def comp_def case_prod_unfold)
  with group_all_or_nothing [OF assms] show ?thesis by blast
qed

definition pair_group :: transfer_group where
  "pair_group = \<lparr>tg_members = [(1, Layout vector_transfer)], tg_device = Some gpu0, tg_consumed = False, tg_native = None\<rparr>"

definition pair_execution :: "bool \<Rightarrow> group_execution" where
  "pair_execution free = \<lparr>ge_resources = ResNone, ge_same_process = True, ge_max_scratch_bytes = 2 ^ 26,
     ge_gather_threads = 8, ge_options = [], ge_lock_free = (\<lambda>_. free), ge_now = (\<lambda>_. LayoutNow host_vector),
     ge_allocated = Inr [device_matrix], ge_made = Inr 5, ge_stream = Inr (), ge_ran = Inr []\<rparr>"

theorem group_launches_whole_witness:
  "\<exists>g' m. group_body (pair_execution True) pair_group = ((Inr ([device_matrix], [matrix_descriptor], []), g'), 1) \<and>
     tg_consumed g' \<and> tg_members g' = [(1, m)] \<and> member_consumed m"
proof -
  obtain g' where run: "group_body (pair_execution True) pair_group = ((Inr ([device_matrix], [matrix_descriptor], []), g'), 1)"
  proof -
    have "fst (fst (group_body (pair_execution True) pair_group)) = Inr ([device_matrix], [matrix_descriptor], []) \<and>
        snd (group_body (pair_execution True) pair_group) = 1" by code_simp
    then show thesis using that by (metis prod.collapse)
  qed
  from group_launches_whole [OF run]
  have "tg_consumed g'" and fsts: "map fst (tg_members g') = [1]" and all: "\<forall>(i, m)\<in>set (tg_members g'). member_consumed m"
    by (auto simp: pair_group_def)
  obtain m where "tg_members g' = [(1, m)]" using fsts by (cases "tg_members g'") auto
  with run all \<open>tg_consumed g'\<close> show ?thesis by auto
qed

text \<open>A member whose lock is taken keeps the whole group from launching.\<close>

lemma pair_busy: "snd (group_body (pair_execution False) pair_group) = 0"
  by code_simp

section \<open>Competing executions\<close>

text \<open>
  C28. Executions of single requests and of groups that share members, interleaved lock by lock in any order: at
  every moment each request was launched at most once, it was launched exactly if one and only one execution
  that wanted it has launched, an execution that launched did so for everything it wanted, and no lock has
  two holders.
\<close>

theorem competing_launches:
  assumes "arena_step\<^sup>*\<^sup>* (start ws) a"
  shows "(\<forall>i. ar_launches a i \<le> 1 \<and> (ar_launches a i = 1 \<longleftrightarrow> (\<exists>!t. launched_with a t i))) \<and>
    (\<forall>t<length (ar_contenders a). ct_launched (ar_contenders a ! t) \<longrightarrow>
       (\<forall>i\<in>set (ct_wants (ar_contenders a ! t)). ar_launches a i = 1)) \<and>
    (\<forall>t<length (ar_contenders a). \<forall>u<length (ar_contenders a). t \<noteq> u \<longrightarrow>
       set (held (ct_phase (ar_contenders a ! t))) \<inter> set (held (ct_phase (ar_contenders a ! u))) = {})"
  using arena_safe [OF reachable_ok [OF assms]] by blast

text \<open>A schedule of steps is a run of the arena.\<close>

lemma schedule_reaches: "arena_step\<^sup>*\<^sup>* a (fold (\<lambda>(t, ready). advance ready t) sched a)"
proof (induction sched arbitrary: a)
  case (Cons e sched)
  obtain t ready where e: "e = (t, ready)" by (cases e)
  have "advance ready t a = a" if "\<not> (t < length (ar_contenders a) \<and> \<not> contender_ended (ar_contenders a ! t))"
    using that by (auto simp: advance_def contender_ended_def)
  then have "arena_step\<^sup>*\<^sup>* a (advance ready t a)" using arena_step.step by fastforce
  also have "arena_step\<^sup>*\<^sup>* (advance ready t a) (fold (\<lambda>(t, ready). advance ready t) sched (advance ready t a))"
    by (rule Cons.IH)
  finally show ?case by (simp add: e)
qed simp

text \<open>A group of requests 1 and 2 (its own lock is 0) against a single execution of request 2.\<close>

definition contest :: arena where
  "contest = fold (\<lambda>(t, ready). advance ready t)
     [(0, True), (0, True), (0, True), (1, True), (1, True), (0, True), (1, True), (0, True), (0, True), (0, True)]
     (start [[0, 1, 2], [2]])"

theorem competing_launches_witness:
  "ar_launches contest 2 = 1 \<and> ar_launches contest 0 = 0 \<and> (\<exists>!t. launched_with contest t 2)"
proof -
  have two: "ar_launches contest 2 = 1" and zero: "ar_launches contest 0 = 0" by code_simp+
  have "arena_step\<^sup>*\<^sup>* (start [[0, 1, 2], [2]]) contest" unfolding contest_def by (rule schedule_reaches)
  from competing_launches [OF this] two zero show ?thesis by blast
qed

text \<open>
  No execution blocks another: a run takes at most three steps for each lock wanted and one more for each
  execution, and when no step is left every lock is free and every execution has ended.
\<close>

theorem competing_ends:
  assumes "(arena_step ^^ n) (start ws) a"
  shows "n \<le> sum_list (map (\<lambda>w. 3 * length w + 1) ws) \<and>
    ((\<nexists>a'. arena_step a a') \<longrightarrow> ar_holder a = Map.empty \<and> (\<forall>c\<in>set (ar_contenders a). contender_ended c))"
proof -
  have "n \<le> sum_list (map (\<lambda>w. 3 * length w + 1) ws)"
    using steps_bounded [OF assms] by (simp add: start_effort)
  moreover have "arena_ok a" using assms reachable_ok relpowp_imp_rtranclp by fastforce
  ultimately show ?thesis using quiescent_free by blast
qed

theorem competing_ends_witness:
  "\<exists>a. (arena_step ^^ 1) (start [[4]]) a \<and> (1::nat) \<le> 4"
proof -
  have "arena_step (start [[4]]) (advance True 0 (start [[4]]))"
    by (rule arena_step.step) (simp_all add: start_def contender_ended_def)
  then have "(arena_step ^^ 1) (start [[4]]) (advance True 0 (start [[4]]))" by (simp only: relpowp_1)
  with competing_ends [OF this] show ?thesis by auto
qed

section \<open>Replay\<close>

text \<open>
  Replaying a recipe with PyTorch's own operations on a tensor the guards admitted succeeds and gives a
  tensor of exactly the bound destination extents, for any PyTorch whose operations have their documented
  effect on shapes.
\<close>

theorem replay_shape:
  assumes "torch_documented T" and "\<not> recipe_typed r" and "\<not> recipe_indexed r"
    and "symbol_sources (ts_shape (r_source r)) = Inr sources"
    and "bind_recipe r sources c Map.empty = Inr b" and "ts_shape c = map PyInt (to_shape T t)"
  shows "\<exists>u. replay T r t = Inr u \<and> to_shape T u = map (den (env_val b)) (ts_shape (r_destination r))"
  using assms by (rule replay_bound)

text \<open>A PyTorch that knows shapes only.\<close>

definition shape_torch :: "int list torch_layout" where
  "shape_torch = \<lparr>to_shape = id, to_permute = (\<lambda>p s. Inr (permute p s)), to_reshape = (\<lambda>d s. Inr d),
     to_pad = (\<lambda>w v s. Inr (padded w s)), to_contiguous = Inr\<rparr>"

theorem replay_shape_witness:
  "\<exists>b. bind_recipe readme_recipe readme_sources (vector_source 128) Map.empty = Inr b \<and>
     replay shape_torch readme_recipe [128] = Inr (map (den (env_val b)) (ts_shape (r_destination readme_recipe)))"
proof -
  obtain b where b: "bind_recipe readme_recipe readme_sources (vector_source 128) Map.empty = Inr b"
    using readme_bound ..
  have T: "torch_documented shape_torch" by (simp add: torch_documented_def shape_torch_def)
  have s: "ts_shape (vector_source 128) = map PyInt (to_shape shape_torch [128])"
    by (simp add: vector_source_def shape_torch_def)
  from replay_shape [OF T readme_layout(2,1) readme_symbols b s] b show ?thesis by (auto simp: shape_torch_def)
qed

section \<open>Prepared weights\<close>

text \<open>
  A prepared weight is never stale: after any sequence of gets, invalidations and closes, whatever a get
  delivers was made from the slot's tensor as this very get resolved it (or, when the slot changed meanwhile, as
  it resolved it again) and, for retained data, it is the relocation of the bytes the tensor has now.  The gets
  are those during which no concurrent write of the tensor's bytes is undone again.
\<close>

theorem stable_weights_current:
  assumes "prepare_weights is_module recipes stb = Inr p" and "\<forall>op\<in>set ops. request_undisturbed op"
    and "undisturbed x name"
    and "get_weight wn x name dev (fold (weight_request_run wn) ops (p, d)) = (Inr dl, s')"
  shows "\<exists>source. slot_of (wc_before x) name = Inr source \<and>
    delivers wn x name (map_of (pw_compiled (fst s')) name) source dl"
proof -
  have "weights_current wn (fst (fold (weight_request_run wn) ops (p, d)))"
    using requests_current [of wn "(p, d)" ops] prepare_weights_current [OF assms(1)] assms(2) by simp
  from get_weight_current [OF this assms(3,4)] show ?thesis by (auto split: sum.splits)
qed

definition vector_module :: "string \<Rightarrow> module_view option" where
  "vector_module b = Some \<lparr>mv_parameters = [(''w'', \<lparr>sl_tensor = host_vector, sl_version = Some 3, sl_bytes = b\<rparr>)], mv_buffers = []\<rparr>"

definition calm_call :: "string \<Rightarrow> weight_call" where
  "calm_call b = \<lparr>wc_before = vector_module b, wc_after = vector_module b, wc_last = vector_module b,
     wc_bytes_during = b, wc_bytes_after = b, wc_grad = False\<rparr>"

definition reversing :: weight_native where
  "reversing = \<lparr>wn_compile = (\<lambda>_. Inr readme_artifact), wn_layout = (\<lambda>_ _. Inr 11),
     wn_empty = (\<lambda>shape dtype. host_vector\<lparr>lv_id := 9, lv_shape := shape\<rparr>), wn_relocate = (\<lambda>n b. Inr (rev b))\<rparr>"

definition vector_weights :: prepared_weights where
  "vector_weights = \<lparr>pw_recipes = [(''w'', readme_recipe)], pw_stable = True, pw_closed = False, pw_compiled = [], pw_states = []\<rparr>"

lemma vector_slot_facts:
  "detach \<lparr>sl_tensor = host_vector, sl_version = v, sl_bytes = b\<rparr> = \<lparr>sl_tensor = host_vector, sl_version = v, sl_bytes = b\<rparr>"
  "slot_of (vector_module b) ''w'' = Inr \<lparr>sl_tensor = host_vector, sl_version = Some 3, sl_bytes = b\<rparr>"
  "cacheable False \<lparr>sl_tensor = host_vector, sl_version = v, sl_bytes = b\<rparr>"
  "\<not> lv_requires_grad host_vector" "dv_type cpu \<noteq> ''cuda''"
  "bound_layout reversing readme_artifact \<lparr>sl_tensor = host_vector, sl_version = v, sl_bytes = b\<rparr> = Inr ([(''s0'', PyInt 128)], 11)"
  using vector_admitted vector_bound
  by (simp_all add: detach_def slot_of_def vector_module_def cacheable_def bound_layout_def bind_symbols_def reversing_def
      reason_of_def) (simp_all add: host_vector_def cpu_def)

lemma vector_extents: "prepared_extents readme_artifact [(''s0'', PyInt 128)] = Inr [64, 2]"
  by (simp add: prepared_extents_def readme_artifact_def readme_recipe_def fit_def py_floordiv_def)

lemma calm_facts: "wc_before (calm_call b) = vector_module b" "wc_after (calm_call b) = vector_module b"
  "wc_bytes_during (calm_call b) = b" "wc_bytes_after (calm_call b) = b" "wc_grad (calm_call b) = False"
  "undisturbed (calm_call b) ''w''"
  by (simp_all add: calm_call_def undisturbed_def vector_slot_facts)

text \<open>The first get materialises and retains; after a write of the bytes the next one does so again.\<close>

lemma vector_materialize:
  assumes "diagnostics_ok d"
  shows "\<exists>d'. diagnostics_ok d' \<and>
    materialize reversing readme_artifact \<lparr>sl_tensor = host_vector, sl_version = v, sl_bytes = b\<rparr> c (p, d) =
      (Inr (Some \<lparr>sl_tensor = host_vector\<lparr>lv_id := 9, lv_shape := [64, 2]\<rparr>, sl_version = Some 0, sl_bytes = rev c\<rparr>), p, d')"
proof -
  obtain d' where "increment ''symbol_binds'' 1 d = Inr d'" "diagnostics_ok d'"
    using increment_known_ok [OF assms, of "''symbol_binds''" 1] by (auto simp: counter_names_def)
  then show ?thesis
    by (intro exI [of _ d']) (simp add: materialize_def vector_slot_facts vector_extents wa_defs, simp add: wa_res_def reversing_def host_vector_def)
qed

lemma vector_get:
  assumes p: "\<not> pw_closed p" "pw_stable p" "pw_recipes p = [(''w'', readme_recipe)]"
      "map_of (pw_compiled p) ''w'' \<in> {None, Some readme_artifact}"
      "\<forall>st. map_of (pw_states p) ''w'' = Some st \<longrightarrow> ss_saved st \<noteq> b"
    and d: "diagnostics_ok d"
  shows "\<exists>p' d' q st. get_weight reversing (calm_call b) ''w'' cpu (p, d) = (Inr (Copied q), p', d') \<and> sl_bytes q = rev b \<and>
    diagnostics_ok d' \<and> \<not> pw_closed p' \<and> pw_stable p' \<and> pw_recipes p' = pw_recipes p \<and>
    map_of (pw_compiled p') ''w'' = Some readme_artifact \<and> map_of (pw_states p') ''w'' = Some st \<and> ss_saved st = b"
proof -
  let ?slot = "\<lparr>sl_tensor = host_vector, sl_version = Some 3, sl_bytes = b\<rparr>"
  obtain p1 where comp: "compile_slot reversing ''w'' readme_recipe (p, d) = (Inr readme_artifact, p1, d)"
    and p1: "\<not> pw_closed p1" "pw_stable p1" "pw_recipes p1 = pw_recipes p" "pw_states p1 = pw_states p"
      "map_of (pw_compiled p1) ''w'' = Some readme_artifact"
    using p by (auto simp: compile_slot_def wa_defs reversing_def)
  obtain p2 d2 where ret: "retained_state True ''w'' (fingerprint ?slot) b (p1, d) = (Inr None, p2, d2)" and d2: "diagnostics_ok d2"
    and p2: "\<not> pw_closed p2" "pw_stable p2" "pw_recipes p2 = pw_recipes p" "map_of (pw_compiled p2) ''w'' = Some readme_artifact"
  proof (cases "map_of (pw_states p1) ''w''")
    case None
    with p1 d show ?thesis by (intro that [of p1 d]) (simp_all add: retained_state_def)
  next
    case (Some st)
    obtain d' where "increment ''weight_invalidations'' 1 d = Inr d'" "diagnostics_ok d'"
      using increment_known_ok [OF d counter_names_weight(2), of 1] by blast
    with Some p1 p show ?thesis
      by (intro that [of "p1\<lparr>pw_states := od_del ''w'' (pw_states p1)\<rparr>" d']) (auto simp: retained_state_def wa_defs)
  qed
  obtain d3 where d3: "diagnostics_ok d3" and mat: "materialize reversing readme_artifact ?slot b (p2, d2) =
      (Inr (Some \<lparr>sl_tensor = host_vector\<lparr>lv_id := 9, lv_shape := [64, 2]\<rparr>, sl_version = Some 0, sl_bytes = rev b\<rparr>), p2, d3)"
    using vector_materialize [OF d2] by blast
  obtain d4 where inc: "increment ''weight_preparations'' 1 d3 = Inr d4" "diagnostics_ok d4"
    using increment_known_ok [OF d3 counter_names_weight(1), of 1] by blast
  have "get_weight reversing (calm_call b) ''w'' cpu (p, d) = stable_get reversing (calm_call b) ''w'' readme_recipe readme_artifact ?slot cpu (p1, d)"
    using p p1 comp by (simp add: get_weight_def calm_facts vector_slot_facts compiled_get_def)
  also have "\<dots> = (Inr (Copied \<lparr>sl_tensor = host_vector\<lparr>lv_id := 9, lv_shape := [64, 2]\<rparr>, sl_version = Some 0, sl_bytes = rev b\<rparr>),
      p2\<lparr>pw_states := od_set ''w'' \<lparr>ss_fingerprint = fingerprint ?slot, ss_saved = b,
        ss_prepared = \<lparr>sl_tensor = host_vector\<lparr>lv_id := 9, lv_shape := [64, 2]\<rparr>, sl_version = Some 0, sl_bytes = rev b\<rparr>\<rparr> (pw_states p2)\<rparr>, d4)"
    using ret mat inc
    by (simp add: stable_get_def Let_def calm_facts vector_slot_facts wa_bind_def publish_state_def deliver_prepared_def wa_res_def wa_owner_def wa_count_def)
  finally show ?thesis using p2 inc by fastforce
qed

theorem stable_weights_current_witness:
  "\<exists>q s'. get_weight reversing (calm_call ''abce'') ''w'' cpu
       (fold (weight_request_run reversing) [GetWeight (calm_call ''abcd'') ''w'' cpu] (vector_weights, new_diagnostics)) =
     (Inr (Copied q), s') \<and> sl_bytes q = ''ecba'' \<and>
     delivers reversing (calm_call ''abce'') ''w'' (map_of (pw_compiled (fst s')) ''w'')
       \<lparr>sl_tensor = host_vector, sl_version = Some 3, sl_bytes = ''abce''\<rparr> (Copied q)"
proof -
  have prep: "prepare_weights True [(''w'', readme_recipe)] True = Inr vector_weights"
    by (simp add: prepare_weights_def vector_weights_def)
  obtain p1 d1 q1 st where one: "get_weight reversing (calm_call ''abcd'') ''w'' cpu (vector_weights, new_diagnostics) = (Inr (Copied q1), p1, d1)"
    and p1: "diagnostics_ok d1" "\<not> pw_closed p1" "pw_stable p1" "pw_recipes p1 = [(''w'', readme_recipe)]"
      "map_of (pw_compiled p1) ''w'' = Some readme_artifact" "map_of (pw_states p1) ''w'' = Some st" "ss_saved st = ''abcd''"
    using vector_get [of vector_weights "''abcd''", OF _ _ _ _ _ new_diagnostics_ok] by (auto simp: vector_weights_def)
  have "\<forall>st. map_of (pw_states p1) ''w'' = Some st \<longrightarrow> ss_saved st \<noteq> ''abce''" using p1 by simp
  then obtain q p2 d2 where two: "get_weight reversing (calm_call ''abce'') ''w'' cpu (p1, d1) = (Inr (Copied q), p2, d2)" "sl_bytes q = rev ''abce''"
    using vector_get [of p1 "''abce''" d1] p1 by auto
  have run: "get_weight reversing (calm_call ''abce'') ''w'' cpu
       (fold (weight_request_run reversing) [GetWeight (calm_call ''abcd'') ''w'' cpu] (vector_weights, new_diagnostics)) =
     (Inr (Copied q), p2, d2)" using one two by simp
  have calm: "\<forall>op\<in>set [GetWeight (calm_call ''abcd'') ''w'' cpu]. request_undisturbed op" by (simp add: calm_facts)
  from stable_weights_current [OF prep calm calm_facts(6) run]
  have "delivers reversing (calm_call ''abce'') ''w'' (map_of (pw_compiled p2) ''w'')
       \<lparr>sl_tensor = host_vector, sl_version = Some 3, sl_bytes = ''abce''\<rparr> (Copied q)"
    by (auto simp: calm_facts vector_slot_facts)
  with run two(2) show ?thesis by auto
qed

text \<open>
  The owner's accounts: along any sequence of gets, invalidations and closes, whatever they raise, the
  preparations counted minus the invalidations counted grow by exactly the number of states the open owner
  retains.
\<close>

theorem weight_accounts:
  assumes "prepare_weights is_module recipes stb = Inr p" and "diagnostics_ok d"
    and "fold (weight_request_run wn) ops (p, d) = (p', d')" and "\<not> pw_closed p'"
  shows "counter d' ''weight_preparations'' - counter d' ''weight_invalidations'' =
    counter d ''weight_preparations'' - counter d ''weight_invalidations'' + int (length (pw_states p'))"
proof -
  let ?base = "counter d ''weight_preparations'' - counter d ''weight_invalidations''"
  have "accounted ?base (p, d)"
    using assms(1,2) by (auto simp: accounted_def prepare_weights_def od_ok_def od_keys_def split: if_splits)
  from requests_accounted [OF this, of wn ops] assms(3,4) show ?thesis by (simp add: accounted_def)
qed

theorem weight_accounts_witness:
  "\<exists>p' d'. fold (weight_request_run reversing) [GetWeight (calm_call ''abcd'') ''w'' cpu] (vector_weights, new_diagnostics) = (p', d') \<and>
     counter d' ''weight_preparations'' - counter d' ''weight_invalidations'' =
       counter new_diagnostics ''weight_preparations'' - counter new_diagnostics ''weight_invalidations'' + int (length (pw_states p'))"
proof -
  have prep: "prepare_weights True [(''w'', readme_recipe)] True = Inr vector_weights"
    by (simp add: prepare_weights_def vector_weights_def)
  obtain p1 d1 q1 where one: "get_weight reversing (calm_call ''abcd'') ''w'' cpu (vector_weights, new_diagnostics) = (Inr (Copied q1), p1, d1)"
    and p1: "\<not> pw_closed p1"
    using vector_get [of vector_weights "''abcd''", OF _ _ _ _ _ new_diagnostics_ok] by (auto simp: vector_weights_def)
  have run: "fold (weight_request_run reversing) [GetWeight (calm_call ''abcd'') ''w'' cpu] (vector_weights, new_diagnostics) = (p1, d1)"
    using one by simp
  from weight_accounts [OF prep new_diagnostics_ok run p1] run show ?thesis by blast
qed

end
