(* ===== verification/Graph_Rewrite.thy ===== *)
theory Graph_Rewrite
  imports Runtime Artifact_Cache
begin

text \<open>
  The graph half of \<open>reloc_torch/backend.py\<close>: captured graphs as ordered node lists, the insertion of a
  transfer node with the arithmetic of its output extents, and the replacement of a region by it.  A graph's
  meaning is its evaluation in node order under a semantics of calls, which is an argument.
\<close>

section \<open>Graphs\<close>

datatype arith = Plus | Times | Floor_Divide | Modulo

text \<open>
  What a node does: read an input or attribute, a captured call (target and constant options named), and the
  calls the backend inserts.
\<close>

datatype gcall = Input string | Captured string | Sym_Size | Arith arith
  | Transfer | Typed_Transfer | Index_Select_Transfer | Output

datatype arg = Ref string | Num int | Text_Arg string | Device_Arg device | Args "arg list"

text \<open>\<open>gn_device\<close>: the device of the node's example tensor, where it carries one.\<close>

record gnode =
  gn_name :: string
  gn_call :: gcall
  gn_args :: "arg list"
  gn_device :: "device option"

fun arg_refs :: "arg \<Rightarrow> string set" where
  "arg_refs (Ref n) = {n}"
| "arg_refs (Args as) = \<Union> (arg_refs ` set as)"
| "arg_refs _ = {}"

definition node_refs :: "gnode \<Rightarrow> string set" where
  "node_refs n = \<Union> (arg_refs ` set (gn_args n))"

definition users :: "gnode list \<Rightarrow> string \<Rightarrow> string list" where
  "users g name = map gn_name (filter (\<lambda>n. name \<in> node_refs n) g)"

text \<open>\<open>replace_all_uses_with\<close>.\<close>

fun redirect_arg :: "string \<Rightarrow> string \<Rightarrow> arg \<Rightarrow> arg" where
  "redirect_arg old new (Ref n) = Ref (if n = old then new else n)"
| "redirect_arg old new (Args as) = Args (map (redirect_arg old new) as)"
| "redirect_arg old new a = a"

definition redirect :: "string \<Rightarrow> string \<Rightarrow> gnode \<Rightarrow> gnode" where
  "redirect old new n = n\<lparr>gn_args := map (redirect_arg old new) (gn_args n)\<rparr>"

section \<open>The inserted nodes\<close>

text \<open>
  \<open>graph.call_function\<close> appends a node under a name the graph does not use yet; \<open>nm\<close> chooses it from the
  names in use.
\<close>

type_synonym namer = "string list \<Rightarrow> string"

type_synonym emitted = "string list \<times> gnode list"

definition call_function :: "namer \<Rightarrow> gcall \<Rightarrow> arg list \<Rightarrow> device option \<Rightarrow> emitted \<Rightarrow> string \<times> emitted" where
  "call_function nm c as d e = (case e of (used, code) \<Rightarrow> let n = nm used in
     (n, n # used, code @ [\<lparr>gn_name = n, gn_call = c, gn_args = as, gn_device = d\<rparr>]))"

fun arith_value :: "arith \<Rightarrow> int \<Rightarrow> int \<Rightarrow> int res" where
  "arith_value Plus x y = Inr (x + y)"
| "arith_value Times x y = Inr (x * y)"
| "arith_value Floor_Divide x y = py_floordiv x y"
| "arith_value Modulo x y = py_mod x y"

text \<open>\<open>binary\<close>: two constants are computed at once, anything else becomes a node.\<close>

definition emit_binary :: "namer \<Rightarrow> arith \<Rightarrow> arg \<Rightarrow> arg \<Rightarrow> emitted \<Rightarrow> (arg \<times> emitted) res" where
  "emit_binary nm f l r e = (case (l, r) of
     (Num x, Num y) \<Rightarrow> res_bind (arith_value f x y) (\<lambda>v. Inr (Num v, e))
   | _ \<Rightarrow> (let (n, e) = call_function nm (Arith f) [l, r] None e in Inr (Ref n, e)))"

fun emit :: "namer \<Rightarrow> (string \<times> string) list \<Rightarrow> expr \<Rightarrow> emitted \<Rightarrow> (arg \<times> emitted) res" where
  "emit nm syms (Const c) e = Inr (Num c, e)"
| "emit nm syms (Symbol s) e = (case map_of syms s of None \<Rightarrow> Inl (KeyErr s) | Some n \<Rightarrow> Inr (Ref n, e))"
| "emit nm syms (Add l r) e = res_bind (emit nm syms l e) (\<lambda>(x, e). res_bind (emit nm syms r e) (\<lambda>(y, e).
     emit_binary nm Plus x y e))"
| "emit nm syms (Mul l r) e = res_bind (emit nm syms l e) (\<lambda>(x, e). res_bind (emit nm syms r e) (\<lambda>(y, e).
     emit_binary nm Times x y e))"
| "emit nm syms (FloorDiv l d) e = res_bind (emit nm syms l e) (\<lambda>(x, e). emit_binary nm Floor_Divide x (Num d) e)"
| "emit nm syms (Mod l d) e = res_bind (emit nm syms l e) (\<lambda>(x, e). emit_binary nm Modulo x (Num d) e)"

fun emit_all :: "namer \<Rightarrow> (string \<times> string) list \<Rightarrow> expr list \<Rightarrow> emitted \<Rightarrow> (arg list \<times> emitted) res" where
  "emit_all nm syms [] e = Inr ([], e)"
| "emit_all nm syms (x # xs) e = res_bind (emit nm syms x e) (\<lambda>(a, e). res_bind (emit_all nm syms xs e) (\<lambda>(as, e).
     Inr (a # as, e)))"

text \<open>One \<open>sym_size\<close> node for each symbol source, on the operand the source names.\<close>

fun emit_symbols :: "namer \<Rightarrow> string \<Rightarrow> string option \<Rightarrow> symbol_source list \<Rightarrow> (string \<times> string) list \<times> emitted \<Rightarrow>
    ((string \<times> string) list \<times> emitted) res" where
  "emit_symbols nm base index [] s = Inr s"
| "emit_symbols nm base index (p # ps) (syms, e) =
     (case (if ss_operand p = ''indices'' then index else Some base) of
        None \<Rightarrow> Inl (OtherExn ''RuntimeError'')
      | Some operand \<Rightarrow> (let (n, e) = call_function nm Sym_Size [Ref operand, Num (ss_axis p)] None e
          in emit_symbols nm base index ps ((ss_name p, n) # syms, e)))"

record region =
  rc_source :: string
  rc_members :: "string list"
  rc_recipe :: recipe
  rc_symbolic :: "(string \<times> expr) list"
  rc_guards :: "expr list"
  rc_device :: "device option"
  rc_parameters :: "string list"
  rc_index :: "string option"

definition lookup_symbol :: "(string \<times> string) list \<Rightarrow> string \<Rightarrow> arg res" where
  "lookup_symbol syms name = (case map_of syms name of None \<Rightarrow> Inl (KeyErr name) | Some n \<Rightarrow> Inr (Ref n))"

text \<open>The operation and its arguments, from the arguments all three share.\<close>

definition transfer_arguments :: "compiled_recipe \<Rightarrow> region \<Rightarrow> string \<Rightarrow> arg list \<Rightarrow> (gcall \<times> arg list) res" where
  "transfer_arguments a c handle tail =
     (let base = Ref (rc_source c); dtype = Text_Arg (ts_dtype (cr_logical_destination a)) in
      case rc_index c of
        Some i \<Rightarrow> Inr (Index_Select_Transfer, [base, Ref i, Text_Arg handle] @ tail @ [dtype])
      | None \<Rightarrow> if cr_typed a
          then (if length (rc_parameters c) \<noteq> length (cr_parameters a)
                then Inl (RuntimeErr ''typed candidate parameters do not match the compiled declarations'')
                else Inr (Typed_Transfer, [base, Args (map Ref (rc_parameters c)), Text_Arg handle] @ tail @ [dtype]))
          else Inr (Transfer, [base, Text_Arg handle] @ tail))"

definition insert_transfer ::
  "namer \<Rightarrow> compiled_recipe \<Rightarrow> region \<Rightarrow> string \<Rightarrow> device \<Rightarrow> device option \<Rightarrow> string list \<Rightarrow> (string \<times> gnode list) res" where
  "insert_transfer nm a c handle dev meta names =
     res_bind (emit_symbols nm (rc_source c) (rc_index c) (cr_symbol_sources a) ([], names, [])) (\<lambda>(syms, e).
     res_bind (mapR (lookup_symbol syms) (cr_symbols a)) (\<lambda>symbols.
     let d = cr_logical_destination a in
     res_bind (emit_all nm syms (ts_shape d) e) (\<lambda>(shape, e).
     res_bind (emit_all nm syms (ts_strides d) e) (\<lambda>(strides, e).
     res_bind (transfer_arguments a c handle [Args symbols, Args shape, Args strides, Device_Arg dev]) (\<lambda>(op, as).
     let (n, e) = call_function nm op as meta e in Inr (n, snd e))))))"

section \<open>Replacing a region\<close>

text \<open>
  \<open>_region_reason\<close>.  \<open>names\<close> are the nodes of the dictionary it is given: the graph's nodes when the
  dictionary was made, erased ones included; the users are those of the graph as it is.
\<close>

definition region_reason :: "string list \<Rightarrow> gnode list \<Rightarrow> region \<Rightarrow> string option" where
  "region_reason names g c =
     (if rc_source c \<notin> set names \<or> \<not> set (rc_members c) \<subseteq> set names then Some ''graph_mismatch''
      else if \<exists>m\<in>set (butlast (rc_members c)). \<not> set (users g m) \<subseteq> set (rc_members c)
      then Some ''escaping_intermediate'' else None)"

text \<open>The members are erased last to first; one that still has users is an internal error.\<close>

fun erase_members :: "string list \<Rightarrow> gnode list \<Rightarrow> gnode list res" where
  "erase_members [] g = Inr g"
| "erase_members (m # ms) g =
     (if users g m \<noteq> [] then Inl (RuntimeErr (msg [''region member '', m, '' is still used after redirection'']))
      else erase_members ms (filter (\<lambda>n. gn_name n \<noteq> m) g))"

text \<open>\<open>used\<close>: the names the graph has ever given out.\<close>

definition replace_region ::
  "namer \<Rightarrow> compiled_recipe \<Rightarrow> region \<Rightarrow> string \<Rightarrow> device \<Rightarrow> string list \<Rightarrow> gnode list \<Rightarrow> gnode list res" where
  "replace_region nm a c handle dev used g =
     (if rc_members c = [] then Inl (OtherExn ''IndexError'') else
      let tail = last (rc_members c);
          pre = takeWhile (\<lambda>n. gn_name n \<noteq> tail) g; post = dropWhile (\<lambda>n. gn_name n \<noteq> tail) g in
      case post of
        [] \<Rightarrow> Inl (KeyErr tail)
      | t # rest \<Rightarrow>
         res_bind (insert_transfer nm a c handle dev (gn_device t) used) (\<lambda>(op, code).
           erase_members (rev (rc_members c)) (map (redirect tail op) (pre @ code @ post))))"

section \<open>Meaning\<close>

text \<open>The values nodes produce; \<open>'t\<close> are the tensors.\<close>

datatype 't gvalue = Int_Value int | Tensor_Value 't | List_Value "'t gvalue list" | Text_Value string | Device_Value device

type_synonym 't semantics = "gcall \<Rightarrow> 't gvalue list \<Rightarrow> 't gvalue option"

type_synonym 't genv = "string \<Rightarrow> 't gvalue option"

fun arg_value :: "'t genv \<Rightarrow> arg \<Rightarrow> 't gvalue option" where
  "arg_value v (Ref n) = v n"
| "arg_value v (Num i) = Some (Int_Value i)"
| "arg_value v (Text_Arg s) = Some (Text_Value s)"
| "arg_value v (Device_Arg d) = Some (Device_Value d)"
| "arg_value v (Args as) = map_option List_Value (those (map (arg_value v) as))"

fun run_nodes :: "'t semantics \<Rightarrow> gnode list \<Rightarrow> 't genv \<Rightarrow> 't genv option" where
  "run_nodes S [] v = Some v"
| "run_nodes S (n # ns) v = (case those (map (arg_value v) (gn_args n)) of
     None \<Rightarrow> None
   | Some xs \<Rightarrow> (case S (gn_call n) xs of None \<Rightarrow> None | Some x \<Rightarrow> run_nodes S ns (v(gn_name n \<mapsto> x))))"

text \<open>The inserted arithmetic and extent reads mean what Python and PyTorch document.\<close>

definition standard_ops :: "('t \<Rightarrow> int list) \<Rightarrow> 't semantics \<Rightarrow> bool" where
  "standard_ops extents S \<longleftrightarrow>
     (\<forall>t i. 0 \<le> i \<and> i < int (length (extents t)) \<longrightarrow>
        S Sym_Size [Tensor_Value t, Int_Value i] = Some (Int_Value (extents t ! nat i))) \<and>
     (\<forall>f x y z. arith_value f x y = Inr z \<longrightarrow> S (Arith f) [Int_Value x, Int_Value y] = Some (Int_Value z))"

lemma run_nodes_append:
  "run_nodes S (xs @ ys) v = (case run_nodes S xs v of None \<Rightarrow> None | Some w \<Rightarrow> run_nodes S ys w)"
  by (induction xs arbitrary: v) (auto split: option.splits)

lemma those_eq_Some: "those xs = Some ys \<longleftrightarrow> xs = map Some ys"
  by (induction xs arbitrary: ys) (auto split: option.splits simp: map_eq_Cons_conv)

lemma run_nodes_names:
  "run_nodes S ns v = Some w \<Longrightarrow> (\<forall>x. x \<notin> gn_name ` set ns \<longrightarrow> w x = v x) \<and> dom w = dom v \<union> gn_name ` set ns"
proof (induction ns arbitrary: v)
  case (Cons n ns)
  then obtain x where "run_nodes S ns (v(gn_name n \<mapsto> x)) = Some w" by (auto split: option.splits)
  from Cons.IH [OF this] show ?case by auto
qed simp

text \<open>A value depends on the names it mentions.\<close>

lemma arg_value_cong: "(\<And>n. n \<in> arg_refs a \<Longrightarrow> v n = w n) \<Longrightarrow> arg_value v a = arg_value w a"
proof (induction a)
  case (Args as)
  then have m: "map (arg_value v) as = map (arg_value w) as" by (intro map_cong) auto
  show ?case by (simp only: arg_value.simps m)
qed auto

lemma arg_value_refs: "arg_value v a = Some x \<Longrightarrow> arg_refs a \<subseteq> dom v"
proof (induction a arbitrary: x)
  case (Args as)
  then obtain xs where "those (map (arg_value v) as) = Some xs" by auto
  then have "map (arg_value v) as = map Some xs" by (simp add: those_eq_Some)
  then have "\<forall>a\<in>set as. \<exists>x. arg_value v a = Some x"
    by (metis (no_types, lifting) imageE image_eqI list.set_map)
  with Args.IH show ?case by auto blast
qed auto

lemma run_node_refs: "run_nodes S (n # ns) v = Some w \<Longrightarrow> node_refs n \<subseteq> dom v"
proof -
  assume "run_nodes S (n # ns) v = Some w"
  then obtain xs where "map (arg_value v) (gn_args n) = map Some xs"
    by (auto simp: those_eq_Some split: option.splits)
  then have "\<forall>a\<in>set (gn_args n). \<exists>x. arg_value v a = Some x"
    by (metis (no_types, lifting) imageE image_eqI list.set_map)
  then show ?thesis unfolding node_refs_def using arg_value_refs by blast
qed

section \<open>The inserted code computes the bound extents\<close>

definition emitted_ok :: "emitted \<Rightarrow> bool" where
  "emitted_ok e \<longleftrightarrow> distinct (map gn_name (snd e)) \<and> gn_name ` set (snd e) \<subseteq> set (fst e)"

definition fresh_namer :: "namer \<Rightarrow> bool" where
  "fresh_namer nm \<longleftrightarrow> (\<forall>used. nm used \<notin> set used)"

text \<open>
  Emitting extends: the code grows at its end by nodes under names unused before; evaluated on any
  environment that gives the symbols' nodes their values, the result argument has the expression's value.
\<close>

definition extends :: "emitted \<Rightarrow> emitted \<Rightarrow> bool" where
  "extends e e' \<longleftrightarrow> (\<exists>new. snd e' = snd e @ new \<and> fst e' = rev (map gn_name new) @ fst e \<and>
     gn_name ` set new \<inter> set (fst e) = {} \<and> distinct (map gn_name new))"

lemma extends_refl [simp]: "extends e e"
  by (simp add: extends_def)

lemma extends_trans:
  assumes "extends e e'" and "extends e' e''"
  shows "extends e e''"
proof -
  from assms obtain xs ys where x: "snd e' = snd e @ xs" "fst e' = rev (map gn_name xs) @ fst e"
      "gn_name ` set xs \<inter> set (fst e) = {}" "distinct (map gn_name xs)"
    and y: "snd e'' = snd e' @ ys" "fst e'' = rev (map gn_name ys) @ fst e'"
      "gn_name ` set ys \<inter> set (fst e') = {}" "distinct (map gn_name ys)"
    unfolding extends_def by blast
  show ?thesis unfolding extends_def
    by (rule exI [of _ "xs @ ys"]) (use x y in auto)
qed

lemma call_function_extends:
  assumes "fresh_namer nm" and "call_function nm c as d e = (n, e')"
  shows "extends e e' \<and> e' = (n # fst e, snd e @ [\<lparr>gn_name = n, gn_call = c, gn_args = as, gn_device = d\<rparr>]) \<and> n \<notin> set (fst e)"
  using assms by (cases e) (auto simp: call_function_def Let_def fresh_namer_def extends_def)

text \<open>The state of an emission: run on \<open>v0\<close> the code so far gives \<open>v\<close>, and every name of \<open>v\<close> is in use.\<close>

definition computes :: "'t semantics \<Rightarrow> 't genv \<Rightarrow> emitted \<Rightarrow> 't genv \<Rightarrow> bool" where
  "computes S v0 e v \<longleftrightarrow> run_nodes S (snd e) v0 = Some v \<and> dom v \<subseteq> set (fst e)"

lemma computes_call:
  assumes "computes S v0 e v" and nm: "fresh_namer nm" and call: "call_function nm c as d e = (n, e')"
    and as: "map (arg_value v) as = map Some xs" and x: "S c xs = Some x"
  shows "extends e e' \<and> computes S v0 e' (v(n \<mapsto> x)) \<and> n \<in> set (fst e') \<and> n \<notin> set (fst e)"
proof -
  have "those (map (arg_value v) as) = Some xs" using as by (simp add: those_eq_Some)
  with call_function_extends [OF nm call] assms(1) x show ?thesis
    by (auto simp: computes_def run_nodes_append)
qed

text \<open>What a later state keeps of an earlier one.\<close>

definition keeps_values :: "emitted \<Rightarrow> 't genv \<Rightarrow> 't genv \<Rightarrow> bool" where
  "keeps_values e v w \<longleftrightarrow> (\<forall>n\<in>set (fst e). w n = v n)"

lemma keeps_values_arg: "keeps_values e v w \<Longrightarrow> arg_refs a \<subseteq> set (fst e) \<Longrightarrow> arg_value w a = arg_value v a"
  by (rule arg_value_cong) (auto simp: keeps_values_def)

lemma extends_used: "extends e e' \<Longrightarrow> set (fst e) \<subseteq> set (fst e')"
  by (auto simp: extends_def)

lemma keeps_values_trans:
  "keeps_values e v w \<Longrightarrow> keeps_values e' w u \<Longrightarrow> extends e e' \<Longrightarrow> keeps_values e v u"
  unfolding keeps_values_def using extends_used by (metis subsetD)

definition symbols_at :: "(string \<times> string) list \<Rightarrow> (string \<Rightarrow> int) \<Rightarrow> emitted \<Rightarrow> 't genv \<Rightarrow> bool" where
  "symbols_at syms \<rho> e v \<longleftrightarrow> (\<forall>s n. map_of syms s = Some n \<longrightarrow> n \<in> set (fst e) \<and> v n = Some (Int_Value (\<rho> s)))"

lemma symbols_at_keep: "symbols_at syms \<rho> e v \<Longrightarrow> keeps_values e v w \<Longrightarrow> extends e e' \<Longrightarrow> symbols_at syms \<rho> e' w"
  unfolding symbols_at_def keeps_values_def using extends_used by (metis subsetD)

text \<open>An emission from \<open>e\<close>, where the names have the values \<open>v\<close>, to \<open>e'\<close> with an argument of value \<open>k\<close>.\<close>

definition yields :: "'t semantics \<Rightarrow> 't genv \<Rightarrow> emitted \<Rightarrow> 't genv \<Rightarrow> arg \<Rightarrow> emitted \<Rightarrow> 't gvalue \<Rightarrow> bool" where
  "yields S v0 e v a e' k \<longleftrightarrow> extends e e' \<and> (\<exists>w. computes S v0 e' w \<and> keeps_values e v w \<and>
     arg_value w a = Some k \<and> arg_refs a \<subseteq> set (fst e'))"

lemma yields_then:
  assumes "yields S v0 e v a e1 k" and "\<And>w. computes S v0 e1 w \<Longrightarrow> keeps_values e v w \<Longrightarrow> arg_value w a = Some k \<Longrightarrow>
      arg_refs a \<subseteq> set (fst e1) \<Longrightarrow> yields S v0 e1 w b e2 m"
  shows "yields S v0 e v b e2 m"
proof -
  from assms(1) obtain w where "extends e e1" "computes S v0 e1 w" and k: "keeps_values e v w"
    and "arg_value w a = Some k" "arg_refs a \<subseteq> set (fst e1)" by (auto simp: yields_def)
  with assms(2) have "yields S v0 e1 w b e2 m" by blast
  with k \<open>extends e e1\<close> show ?thesis unfolding yields_def using extends_trans keeps_values_trans by blast
qed

lemma emit_binary_yields:
  assumes nm: "fresh_namer nm" and std: "standard_ops extents S" and c: "computes S v0 e v"
    and l: "arg_value v l = Some (Int_Value x)" and r: "arg_value v r = Some (Int_Value y)"
    and z: "arith_value f x y = Inr z" and run: "emit_binary nm f l r e = Inr (a, e')"
  shows "yields S v0 e v a e' (Int_Value z)"
proof (cases "\<exists>i j. l = Num i \<and> r = Num j")
  case True
  with run l(1) r(1) z have "a = Num z" "e' = e" by (auto simp: emit_binary_def)
  with c show ?thesis by (auto simp: yields_def keeps_values_def)
next
  case False
  obtain n e1 where call: "call_function nm (Arith f) [l, r] None e = (n, e1)" by (metis surj_pair)
  have "a = Ref n \<and> e' = e1" using run False call by (auto simp: emit_binary_def split: arg.splits)
  moreover have "S (Arith f) [Int_Value x, Int_Value y] = Some (Int_Value z)" using std z by (auto simp: standard_ops_def)
  ultimately show ?thesis
    using computes_call [OF c nm call, of "[Int_Value x, Int_Value y]" "Int_Value z"] l(1) r(1)
    by (auto simp: yields_def keeps_values_def intro!: exI [of _ "v(n \<mapsto> Int_Value z)"])
qed

lemma yields_extends: "yields S v0 e v a e' k \<Longrightarrow> extends e e'"
  by (simp add: yields_def)

lemma emit_two:
  assumes nm: "fresh_namer nm" and std: "standard_ops extents S" and at: "symbols_at syms \<rho> e v"
    and L: "yields S v0 e v x e1 (Int_Value i)"
    and R: "\<And>w. computes S v0 e1 w \<Longrightarrow> symbols_at syms \<rho> e1 w \<Longrightarrow> yields S v0 e1 w y e2 (Int_Value j)"
    and z: "arith_value f i j = Inr z" and run: "emit_binary nm f x y e2 = Inr (a, e')"
  shows "yields S v0 e v a e' (Int_Value z)"
proof (rule yields_then [OF L])
  fix w assume w: "computes S v0 e1 w" "keeps_values e v w" "arg_value w x = Some (Int_Value i)" "arg_refs x \<subseteq> set (fst e1)"
  have "symbols_at syms \<rho> e1 w" using symbols_at_keep [OF at w(2)] yields_extends [OF L] by blast
  show "yields S v0 e1 w a e' (Int_Value z)"
  proof (rule yields_then [OF R [OF w(1) \<open>symbols_at syms \<rho> e1 w\<close>]])
    fix u assume u: "computes S v0 e2 u" "keeps_values e1 w u" "arg_value u y = Some (Int_Value j)"
    have "arg_value u x = Some (Int_Value i)" using keeps_values_arg [OF u(2) w(4)] w(3) by simp
    from emit_binary_yields [OF nm std u(1) this u(3) z run] show "yields S v0 e2 u a e' (Int_Value z)" .
  qed
qed

lemma emit_yields:
  assumes nm: "fresh_namer nm" and std: "standard_ops extents S"
  shows "wf_expr x \<Longrightarrow> computes S v0 e v \<Longrightarrow> symbols_at syms \<rho> e v \<Longrightarrow> emit nm syms x e = Inr (a, e') \<Longrightarrow>
    yields S v0 e v a e' (Int_Value (den \<rho> x))"
proof (induction x arbitrary: e v a e')
  case (Const c)
  then show ?case by (auto simp: yields_def keeps_values_def)
next
  case (Symbol s)
  then show ?case by (auto simp: yields_def keeps_values_def symbols_at_def split: option.splits)
next
  case (Add l r)
  then obtain x e1 y e2 where l: "emit nm syms l e = Inr (x, e1)" and r: "emit nm syms r e1 = Inr (y, e2)"
    and b: "emit_binary nm Plus x y e2 = Inr (a, e')" and wf: "wf_expr l" "wf_expr r" by auto
  have z: "arith_value Plus (den \<rho> l) (den \<rho> r) = Inr (den \<rho> (Add l r))"
    unfolding arith_value.simps den.simps by (rule refl)
  show ?case
    by (rule emit_two [OF nm std Add.prems(3) Add.IH(1) [OF wf(1) Add.prems(2,3) l] Add.IH(2) [OF wf(2) _ _ r] z b])
next
  case (Mul l r)
  then obtain x e1 y e2 where l: "emit nm syms l e = Inr (x, e1)" and r: "emit nm syms r e1 = Inr (y, e2)"
    and b: "emit_binary nm Times x y e2 = Inr (a, e')" and wf: "wf_expr l" "wf_expr r" by auto
  have z: "arith_value Times (den \<rho> l) (den \<rho> r) = Inr (den \<rho> (Mul l r))"
    unfolding arith_value.simps den.simps by (rule refl)
  show ?case
    by (rule emit_two [OF nm std Mul.prems(3) Mul.IH(1) [OF wf(1) Mul.prems(2,3) l] Mul.IH(2) [OF wf(2) _ _ r] z b])
next
  case (FloorDiv l d)
  then obtain x e1 where l: "emit nm syms l e = Inr (x, e1)" and b: "emit_binary nm Floor_Divide x (Num d) e1 = Inr (a, e')"
    and wf: "wf_expr l" "0 < d" by auto
  have d: "yields S v0 e1 w (Num d) e1 (Int_Value d)" if "computes S v0 e1 w" for w
    using that by (auto simp: yields_def keeps_values_def)
  have z: "arith_value Floor_Divide (den \<rho> l) d = Inr (den \<rho> (FloorDiv l d))"
    using wf(2) unfolding arith_value.simps den.simps py_floordiv_def by simp
  show ?case
    by (rule emit_two [OF nm std FloorDiv.prems(3) FloorDiv.IH [OF wf(1) FloorDiv.prems(2,3) l] d z b])
next
  case (Mod l d)
  then obtain x e1 where l: "emit nm syms l e = Inr (x, e1)" and b: "emit_binary nm Modulo x (Num d) e1 = Inr (a, e')"
    and wf: "wf_expr l" "0 < d" by auto
  have d: "yields S v0 e1 w (Num d) e1 (Int_Value d)" if "computes S v0 e1 w" for w
    using that by (auto simp: yields_def keeps_values_def)
  have z: "arith_value Modulo (den \<rho> l) d = Inr (den \<rho> (Mod l d))"
    using wf(2) unfolding arith_value.simps den.simps py_mod_def by simp
  show ?case
    by (rule emit_two [OF nm std Mod.prems(3) Mod.IH [OF wf(1) Mod.prems(2,3) l] d z b])
qed

lemma emit_all_yields:
  assumes nm: "fresh_namer nm" and std: "standard_ops extents S"
  shows "list_all wf_expr xs \<Longrightarrow> computes S v0 e v \<Longrightarrow> symbols_at syms \<rho> e v \<Longrightarrow> emit_all nm syms xs e = Inr (as, e') \<Longrightarrow>
    yields S v0 e v (Args as) e' (List_Value (map (Int_Value \<circ> den \<rho>) xs))"
proof (induction xs arbitrary: e v as e')
  case Nil
  then show ?case by (auto simp: yields_def keeps_values_def)
next
  case (Cons x xs)
  then obtain a e1 bs where x: "emit nm syms x e = Inr (a, e1)" and xs: "emit_all nm syms xs e1 = Inr (bs, e')"
    and as: "as = a # bs" by auto
  have wf: "wf_expr x" "list_all wf_expr xs" using Cons.prems(1) by auto
  show ?case
  proof (rule yields_then [OF emit_yields [OF nm std wf(1) Cons.prems(2,3) x]])
    fix w assume w: "computes S v0 e1 w" "keeps_values e v w" "arg_value w a = Some (Int_Value (den \<rho> x))" "arg_refs a \<subseteq> set (fst e1)"
    have at: "symbols_at syms \<rho> e1 w"
      using symbols_at_keep [OF Cons.prems(3) w(2)] yields_extends [OF emit_yields [OF nm std wf(1) Cons.prems(2,3) x]] by blast
    have Y: "yields S v0 e1 w (Args bs) e' (List_Value (map (Int_Value \<circ> den \<rho>) xs))" by (rule Cons.IH [OF wf(2) w(1) at xs])
    then obtain u where u: "computes S v0 e' u" "keeps_values e1 w u"
      "arg_value u (Args bs) = Some (List_Value (map (Int_Value \<circ> den \<rho>) xs))" "arg_refs (Args bs) \<subseteq> set (fst e')"
      and ex: "extends e1 e'" unfolding yields_def by blast
    have "arg_value u a = Some (Int_Value (den \<rho> x))" using keeps_values_arg [OF u(2) w(4)] w(3) by simp
    moreover have "those (map (arg_value u) bs) = Some (map (Int_Value \<circ> den \<rho>) xs)" using u(3) by auto
    ultimately have "arg_value u (Args as) = Some (List_Value (map (Int_Value \<circ> den \<rho>) (x # xs)))" by (simp add: as)
    moreover have "arg_refs (Args as) \<subseteq> set (fst e')" using u(4) w(4) extends_used [OF ex] by (auto simp: as)
    ultimately show "yields S v0 e1 w (Args as) e' (List_Value (map (Int_Value \<circ> den \<rho>) (x # xs)))"
      unfolding yields_def using ex u(1,2) by blast
  qed
qed

text \<open>The values \<open>\<rho>\<close> of the symbols are read from the operands the sources name.\<close>

definition reads :: "('t \<Rightarrow> int list) \<Rightarrow> 't genv \<Rightarrow> region \<Rightarrow> (string \<Rightarrow> int) \<Rightarrow> symbol_source \<Rightarrow> bool" where
  "reads extents v c \<rho> p \<longleftrightarrow>
     (case (if ss_operand p = ''indices'' then rc_index c else Some (rc_source c)) of
        None \<Rightarrow> False
      | Some n \<Rightarrow> (case v n of
          Some (Tensor_Value t) \<Rightarrow> 0 \<le> ss_axis p \<and> ss_axis p < int (length (extents t)) \<and> \<rho> (ss_name p) = extents t ! nat (ss_axis p)
        | _ \<Rightarrow> False))"

lemma reads_keep:
  assumes "reads extents v c \<rho> p" and "dom v \<subseteq> set (fst e)" and "keeps_values e v w"
  shows "reads extents w c \<rho> p"
proof -
  have "w n = v n" if "v n = Some x" for n x using that assms(2,3) unfolding keeps_values_def by blast
  with assms(1) show ?thesis by (auto simp: reads_def split: option.splits gvalue.splits if_splits)
qed

lemma emit_symbols_computes:
  assumes nm: "fresh_namer nm" and std: "standard_ops extents S"
  shows "computes S v0 e v \<Longrightarrow> symbols_at syms \<rho> e v \<Longrightarrow> \<forall>p\<in>set ps. reads extents v c \<rho> p \<Longrightarrow>
    emit_symbols nm (rc_source c) (rc_index c) ps (syms, e) = Inr (syms', e') \<Longrightarrow>
    extends e e' \<and> (\<exists>w. computes S v0 e' w \<and> keeps_values e v w \<and> symbols_at syms' \<rho> e' w)"
proof (induction ps arbitrary: syms e v)
  case Nil
  then show ?case by (auto simp: keeps_values_def)
next
  case (Cons p ps)
  from Cons.prems(3) obtain operand t where
    op: "(if ss_operand p = ''indices'' then rc_index c else Some (rc_source c)) = Some operand"
    and t: "v operand = Some (Tensor_Value t)" "0 \<le> ss_axis p" "ss_axis p < int (length (extents t))"
      "\<rho> (ss_name p) = extents t ! nat (ss_axis p)"
    by (auto simp: reads_def split: option.splits gvalue.splits)
  obtain n e1 where call: "call_function nm Sym_Size [Ref operand, Num (ss_axis p)] None e = (n, e1)" by (metis surj_pair)
  have "S Sym_Size [Tensor_Value t, Int_Value (ss_axis p)] = Some (Int_Value (\<rho> (ss_name p)))"
    using std t(2,3,4) by (auto simp: standard_ops_def)
  from computes_call [OF Cons.prems(1) nm call _ this] t(1)
  have e1: "extends e e1" "computes S v0 e1 (v(n \<mapsto> Int_Value (\<rho> (ss_name p))))" "n \<in> set (fst e1)" "n \<notin> set (fst e)" by auto
  let ?v = "v(n \<mapsto> Int_Value (\<rho> (ss_name p)))"
  have kept: "keeps_values e v ?v" using e1(4) by (auto simp: keeps_values_def)
  have at: "symbols_at ((ss_name p, n) # syms) \<rho> e1 ?v"
    using symbols_at_keep [OF Cons.prems(2) kept e1(1)] e1(3) by (auto simp: symbols_at_def)
  have rd: "\<forall>p\<in>set ps. reads extents ?v c \<rho> p"
    using Cons.prems(1,3) reads_keep [OF _ _ kept] by (auto simp: computes_def)
  have run: "emit_symbols nm (rc_source c) (rc_index c) ps ((ss_name p, n) # syms, e1) = Inr (syms', e')"
    using Cons.prems(4) op call by simp
  from Cons.IH [OF e1(2) at rd run] e1(1) kept show ?case
    using extends_trans keeps_values_trans by blast
qed

text \<open>The call the operation node makes, with the values of its arguments.\<close>

definition transfer_call ::
  "compiled_recipe \<Rightarrow> region \<Rightarrow> string \<Rightarrow> device \<Rightarrow> (string \<Rightarrow> int) \<Rightarrow> 't genv \<Rightarrow> gcall \<times> 't gvalue list" where
  "transfer_call a c handle dev \<rho> v =
     (let d = cr_logical_destination a; src = the (v (rc_source c));
          tail = [List_Value (map (Int_Value \<circ> \<rho>) (cr_symbols a)), List_Value (map (Int_Value \<circ> den \<rho>) (ts_shape d)),
            List_Value (map (Int_Value \<circ> den \<rho>) (ts_strides d)), Device_Value dev];
          dtype = Text_Value (ts_dtype d)
      in case rc_index c of
           Some i \<Rightarrow> (Index_Select_Transfer, [src, the (v i), Text_Value handle] @ tail @ [dtype])
         | None \<Rightarrow> if cr_typed a
             then (Typed_Transfer, [src, List_Value (map (\<lambda>p. the (v p)) (rc_parameters c)), Text_Value handle] @ tail @ [dtype])
             else (Transfer, [src, Text_Value handle] @ tail))"

definition operands :: "region \<Rightarrow> string set" where
  "operands c = insert (rc_source c) (set (rc_parameters c) \<union> set_option (rc_index c))"

lemma lookup_symbols_value:
  assumes "mapR (lookup_symbol syms) names = Inr as" and "symbols_at syms \<rho> e v"
  shows "map (arg_value v) as = map (Some \<circ> Int_Value \<circ> \<rho>) names \<and> list_all (\<lambda>a. arg_refs a \<subseteq> set (fst e)) as"
  using assms
proof (induction names arbitrary: as)
  case (Cons s names)
  then show ?case by (auto simp: lookup_symbol_def symbols_at_def split: option.splits)
qed simp

lemma Args_value: "arg_value v (Args as) = Some (List_Value xs) \<longleftrightarrow> map (arg_value v) as = map Some xs"
  by (auto simp: those_eq_Some)

text \<open>
  The inserted code runs on the environment at the tail, touches no name in use, and its last node has the
  value the operation's call returns.
\<close>

lemma insert_transfer_runs:
  assumes nm: "fresh_namer nm" and std: "standard_ops extents S" and dom: "dom v \<subseteq> set names"
    and wf: "list_all wf_expr (ts_shape (cr_logical_destination a))" "list_all wf_expr (ts_strides (cr_logical_destination a))"
    and rd: "\<forall>p\<in>set (cr_symbol_sources a). reads extents v c \<rho> p" and operands: "operands c \<subseteq> dom v"
    and ins: "insert_transfer nm a c handle dev meta names = Inr (op, code)"
    and y: "(case transfer_call a c handle dev \<rho> v of (f, xs) \<Rightarrow> S f xs) = Some y"
  shows "\<exists>w. run_nodes S code v = Some w \<and> w op = Some y \<and> (\<forall>n\<in>set names. w n = v n) \<and>
    distinct (map gn_name code) \<and> gn_name ` set code \<inter> set names = {} \<and> op \<in> gn_name ` set code"
proof -
  let ?d = "cr_logical_destination a" and ?e0 = "(names, []) :: emitted"
  obtain syms e1 symbols shape e2 strides e3 f as where
    sy: "emit_symbols nm (rc_source c) (rc_index c) (cr_symbol_sources a) ([], ?e0) = Inr (syms, e1)"
    and sl: "mapR (lookup_symbol syms) (cr_symbols a) = Inr symbols"
    and sh: "emit_all nm syms (ts_shape ?d) e1 = Inr (shape, e2)" and st: "emit_all nm syms (ts_strides ?d) e2 = Inr (strides, e3)"
    and fas: "transfer_arguments a c handle [Args symbols, Args shape, Args strides, Device_Arg dev] = Inr (f, as)"
    and last: "(let (n, e) = call_function nm f as meta e3 in Inr (n, snd e)) = (Inr (op, code) :: (string \<times> gnode list) res)"
    using ins unfolding insert_transfer_def by (auto simp: Let_def [of "cr_logical_destination a"])
  obtain n e4 where call: "call_function nm f as meta e3 = (n, e4)" by (metis surj_pair)
  with last have out: "op = n" "code = snd e4" by simp_all
  have c0: "computes S v ?e0 v" and at0: "symbols_at [] \<rho> ?e0 v" using dom by (auto simp: computes_def symbols_at_def)
  obtain v1 where x1: "extends ?e0 e1" and c1: "computes S v e1 v1" and k1: "keeps_values ?e0 v v1" and at1: "symbols_at syms \<rho> e1 v1"
    using emit_symbols_computes [OF nm std c0 at0 rd sy] by blast
  obtain v2 where x2: "extends e1 e2" and c2: "computes S v e2 v2" and k2: "keeps_values e1 v1 v2"
    and a2: "arg_value v2 (Args shape) = Some (List_Value (map (Int_Value \<circ> den \<rho>) (ts_shape ?d)))" "arg_refs (Args shape) \<subseteq> set (fst e2)"
    using emit_all_yields [OF nm std wf(1) c1 at1 sh] unfolding yields_def by blast
  have at2: "symbols_at syms \<rho> e2 v2" by (rule symbols_at_keep [OF at1 k2 x2])
  obtain v3 where x3: "extends e2 e3" and c3: "computes S v e3 v3" and k3: "keeps_values e2 v2 v3"
    and a3: "arg_value v3 (Args strides) = Some (List_Value (map (Int_Value \<circ> den \<rho>) (ts_strides ?d)))"
    using emit_all_yields [OF nm std wf(2) c2 at2 st] unfolding yields_def by blast
  have at3: "symbols_at syms \<rho> e3 v3" by (rule symbols_at_keep [OF at2 k3 x3])
  have k: "keeps_values ?e0 v v3" using keeps_values_trans [OF k1 k2 x1] keeps_values_trans [OF _ k3] x1 x2 extends_trans by blast
  have kept: "v3 m = v m" if "m \<in> operands c" for m using k that operands dom by (auto simp: keeps_values_def)
  have shape3: "map (arg_value v3) shape = map Some (map (Int_Value \<circ> den \<rho>) (ts_shape ?d))"
    using keeps_values_arg [OF k3 a2(2)] a2(1) Args_value by metis
  have strides3: "map (arg_value v3) strides = map Some (map (Int_Value \<circ> den \<rho>) (ts_strides ?d))"
    using a3 Args_value by metis
  have symbols3: "map (arg_value v3) symbols = map Some (map (Int_Value \<circ> \<rho>) (cr_symbols a))"
    using lookup_symbols_value [OF sl at3] by simp
  have some: "v m = Some (the (v m))" if "m \<in> operands c" for m using that operands by force
  have params: "map (arg_value v3) (map Ref (rc_parameters c)) = map Some (map (\<lambda>p. the (v p)) (rc_parameters c))"
    using kept some by (auto simp: operands_def)
  have "\<exists>xs. transfer_call a c handle dev \<rho> v = (f, xs) \<and> map (arg_value v3) as = map Some xs"
  proof (cases "rc_index c")
    case (Some i)
    then have "v3 i = Some (the (v i))" "v3 (rc_source c) = Some (the (v (rc_source c)))"
      using kept [of i] kept [of "rc_source c"] some [of i] some [of "rc_source c"] by (auto simp: operands_def)
    with Some fas shape3 strides3 symbols3 show ?thesis
      by (auto simp: transfer_call_def Let_def transfer_arguments_def those_eq_Some)
  next
    case None
    have "v3 (rc_source c) = Some (the (v (rc_source c)))"
      using kept [of "rc_source c"] some [of "rc_source c"] by (auto simp: operands_def)
    with None fas shape3 strides3 symbols3 params show ?thesis
      by (auto simp: transfer_call_def transfer_arguments_def Let_def those_eq_Some comp_def split: if_splits)
  qed
  then obtain xs where "transfer_call a c handle dev \<rho> v = (f, xs)" and xs: "map (arg_value v3) as = map Some xs" by blast
  with y have "S f xs = Some y" by simp
  from computes_call [OF c3 nm call xs this]
  have x4: "extends e3 e4" "computes S v e4 (v3(n \<mapsto> y))" "n \<in> set (fst e4)" "n \<notin> set (fst e3)" by auto
  have x: "extends ?e0 e4" using x1 x2 x3 x4(1) extends_trans by blast
  have "extends ?e0 e3" using x1 x2 x3 extends_trans by blast
  from extends_used [OF this] have "set names \<subseteq> set (fst e3)" by simp
  then have "\<forall>m\<in>set names. (v3(n \<mapsto> y)) m = v m" using k x4(4) by (auto simp: keeps_values_def)
  moreover have "n \<in> gn_name ` set (snd e4)"
    using call by (cases e3) (auto simp: call_function_def Let_def)
  ultimately show ?thesis using x4(2) x out by (auto simp: computes_def extends_def)
qed

text \<open>Emission succeeds when every symbol has a node.\<close>

lemma emit_binary_total:
  assumes "f \<in> {Plus, Times} \<or> (\<exists>d. r = Num d \<and> 0 < d)"
  shows "\<exists>a e'. emit_binary nm f l r e = Inr (a, e')"
proof (cases "\<exists>i j. l = Num i \<and> r = Num j")
  case True
  with assms show ?thesis by (cases f) (auto simp: emit_binary_def py_floordiv_def py_mod_def)
next
  case False
  obtain n e1 where "call_function nm (Arith f) [l, r] None e = (n, e1)" by (metis surj_pair)
  with False show ?thesis by (auto simp: emit_binary_def split: arg.splits)
qed

lemma emit_total:
  "wf_expr x \<Longrightarrow> set (symbols_of x) \<subseteq> dom (map_of syms) \<Longrightarrow> \<exists>a e'. emit nm syms x e = Inr (a, e')"
proof (induction x arbitrary: e)
  case (Symbol s)
  then show ?case by (auto split: option.splits)
next
  case (Add l r)
  obtain x e1 where l: "emit nm syms l e = Inr (x, e1)" using Add.IH(1) [of e] Add.prems by auto
  obtain y e2 where r: "emit nm syms r e1 = Inr (y, e2)" using Add.IH(2) [of e1] Add.prems by auto
  from l r emit_binary_total [of Plus y nm x e2] show ?case by auto
next
  case (Mul l r)
  obtain x e1 where l: "emit nm syms l e = Inr (x, e1)" using Mul.IH(1) [of e] Mul.prems by auto
  obtain y e2 where r: "emit nm syms r e1 = Inr (y, e2)" using Mul.IH(2) [of e1] Mul.prems by auto
  from l r emit_binary_total [of Times y nm x e2] show ?case by auto
next
  case (FloorDiv l d)
  obtain x e1 where "emit nm syms l e = Inr (x, e1)" using FloorDiv.IH [of e] FloorDiv.prems by auto
  with FloorDiv.prems emit_binary_total [of Floor_Divide "Num d" nm x e1] show ?case by auto
next
  case (Mod l d)
  obtain x e1 where "emit nm syms l e = Inr (x, e1)" using Mod.IH [of e] Mod.prems by auto
  with Mod.prems emit_binary_total [of Modulo "Num d" nm x e1] show ?case by auto
qed simp

lemma emit_all_total:
  "list_all wf_expr xs \<Longrightarrow> (\<Union>x\<in>set xs. set (symbols_of x)) \<subseteq> dom (map_of syms) \<Longrightarrow> \<exists>as e'. emit_all nm syms xs e = Inr (as, e')"
proof (induction xs arbitrary: e)
  case (Cons x xs)
  then obtain a e1 where x: "emit nm syms x e = Inr (a, e1)" using emit_total [of x syms nm e] by auto
  obtain as e2 where "emit_all nm syms xs e1 = Inr (as, e2)" using Cons.IH [of e1] Cons.prems by auto
  with x show ?case by auto
qed simp

lemma emit_symbols_total:
  "\<forall>p\<in>set ps. ss_operand p = ''indices'' \<longrightarrow> index \<noteq> None \<Longrightarrow>
     \<exists>syms' e'. emit_symbols nm base index ps (syms, e) = Inr (syms', e') \<and>
       fst ` set syms' = fst ` set syms \<union> ss_name ` set ps"
proof (induction ps arbitrary: syms e)
  case (Cons p ps)
  obtain operand where op: "(if ss_operand p = ''indices'' then index else Some base) = Some operand"
    using Cons.prems by (cases "ss_operand p = ''indices''") auto
  obtain n e1 where call: "call_function nm Sym_Size [Ref operand, Num (ss_axis p)] None e = (n, e1)" by (metis surj_pair)
  from Cons.IH [of "(ss_name p, n) # syms" e1] Cons.prems obtain syms' e' where
    "emit_symbols nm base index ps ((ss_name p, n) # syms, e1) = Inr (syms', e')"
    "fst ` set syms' = fst ` set ((ss_name p, n) # syms) \<union> ss_name ` set ps" by auto
  with op call show ?case by auto
qed simp

text \<open>An artifact whose symbols all have sources, and a region that supplies the operands it declares.\<close>

definition artifact_fits :: "compiled_recipe \<Rightarrow> region \<Rightarrow> bool" where
  "artifact_fits a c \<longleftrightarrow> (let d = cr_logical_destination a; known = ss_name ` set (cr_symbol_sources a) in
     list_all wf_expr (ts_shape d) \<and> list_all wf_expr (ts_strides d) \<and> set (cr_symbols a) \<subseteq> known \<and>
     (\<forall>x\<in>set (ts_shape d) \<union> set (ts_strides d). set (symbols_of x) \<subseteq> known) \<and>
     (\<forall>p\<in>set (cr_symbol_sources a). ss_operand p = ''indices'' \<longrightarrow> rc_index c \<noteq> None) \<and>
     (rc_index c = None \<and> cr_typed a \<longrightarrow> length (rc_parameters c) = length (cr_parameters a)))"

lemma lookup_symbols_total: "set names \<subseteq> dom (map_of syms) \<Longrightarrow> \<exists>as. mapR (lookup_symbol syms) names = Inr as"
  by (induction names) (auto simp: lookup_symbol_def)

lemma insert_transfer_total:
  assumes "artifact_fits a c"
  shows "\<exists>op code. insert_transfer nm a c handle dev meta names = Inr (op, code)"
proof -
  let ?d = "cr_logical_destination a"
  from assms have fits: "list_all wf_expr (ts_shape ?d)" "list_all wf_expr (ts_strides ?d)"
    "set (cr_symbols a) \<subseteq> ss_name ` set (cr_symbol_sources a)"
    "\<forall>x\<in>set (ts_shape ?d) \<union> set (ts_strides ?d). set (symbols_of x) \<subseteq> ss_name ` set (cr_symbol_sources a)"
    "\<forall>p\<in>set (cr_symbol_sources a). ss_operand p = ''indices'' \<longrightarrow> rc_index c \<noteq> None"
    "rc_index c = None \<and> cr_typed a \<longrightarrow> length (rc_parameters c) = length (cr_parameters a)"
    by (simp_all add: artifact_fits_def Let_def)
  obtain syms e1 where sy: "emit_symbols nm (rc_source c) (rc_index c) (cr_symbol_sources a) ([], names, []) = Inr (syms, e1)"
    and dom: "dom (map_of syms) = ss_name ` set (cr_symbol_sources a)"
    using emit_symbols_total [OF fits(5), of nm "rc_source c" "[]" "(names, [])"]
    by (auto simp: dom_map_of_conv_image_fst)
  obtain symbols where sl: "mapR (lookup_symbol syms) (cr_symbols a) = Inr symbols"
    using lookup_symbols_total fits(3) dom by metis
  obtain shape e2 where sh: "emit_all nm syms (ts_shape ?d) e1 = Inr (shape, e2)"
    using emit_all_total [OF fits(1), of syms nm e1] fits(4) unfolding dom by blast
  obtain strides e3 where st: "emit_all nm syms (ts_strides ?d) e2 = Inr (strides, e3)"
    using emit_all_total [OF fits(2), of syms nm e2] fits(4) unfolding dom by blast
  obtain f as where fas: "transfer_arguments a c handle [Args symbols, Args shape, Args strides, Device_Arg dev] = Inr (f, as)"
  proof -
    have "\<exists>x. transfer_arguments a c handle [Args symbols, Args shape, Args strides, Device_Arg dev] = Inr x"
      using fits(6) by (auto simp: transfer_arguments_def Let_def split: option.splits)
    then show thesis using that by fastforce
  qed
  show ?thesis using sy sl sh st fas by (auto simp: insert_transfer_def Let_def split: prod.splits)
qed

section \<open>Replacement preserves meaning\<close>

lemma redirect_simps [simp]: "gn_name (redirect old new n) = gn_name n" "gn_call (redirect old new n) = gn_call n"
  by (simp_all add: redirect_def)

lemma redirect_refs: "node_refs (redirect old new n) = (\<lambda>m. if m = old then new else m) ` node_refs n"
proof -
  have "arg_refs (redirect_arg old new a) = (\<lambda>m. if m = old then new else m) ` arg_refs a" for a
    by (induction a) auto
  then show ?thesis by (auto simp: node_refs_def redirect_def)
qed

lemma redirect_id: "old \<notin> node_refs n \<Longrightarrow> redirect old new n = n"
proof -
  assume "old \<notin> node_refs n"
  moreover have "old \<notin> arg_refs a \<Longrightarrow> redirect_arg old new a = a" for a
    by (induction a) (auto simp: map_idI)
  ultimately have "map (redirect_arg old new) (gn_args n) = gn_args n"
    by (intro map_idI) (auto simp: node_refs_def)
  then show ?thesis by (simp add: redirect_def)
qed

lemma redirect_value:
  "(\<And>r. r \<in> arg_refs a \<Longrightarrow> w (if r = old then new else r) = v r) \<Longrightarrow> arg_value w (redirect_arg old new a) = arg_value v a"
proof (induction a)
  case (Args as)
  then have m: "map (arg_value w \<circ> redirect_arg old new) as = map (arg_value v) as" by (intro map_cong) auto
  show ?case by (simp add: m)
qed auto

text \<open>
  Two environments agree when they have the same values off the replaced names \<open>D\<close> and the redirected name
  has, under its new name, the old one's value.
\<close>

definition agree :: "string set \<Rightarrow> string set \<Rightarrow> string \<Rightarrow> string \<Rightarrow> 't genv \<Rightarrow> 't genv \<Rightarrow> bool" where
  "agree N D old new v w \<longleftrightarrow> (\<forall>n\<in>N - D. w n = v n) \<and> w new = v old"

lemma run_simulated:
  assumes old: "old \<in> D" "old \<notin> gn_name ` set ns" and new: "new \<notin> N"
    and ok: "\<forall>n\<in>set ns. gn_name n \<in> N \<and> node_refs n \<subseteq> N \<and> (gn_name n \<notin> D \<longrightarrow> node_refs n \<inter> D \<subseteq> {old})"
  shows "run_nodes S ns v = Some u \<Longrightarrow> agree N D old new v w \<Longrightarrow>
    \<exists>u'. run_nodes S (filter (\<lambda>n. gn_name n \<notin> D) (map (redirect old new) ns)) w = Some u' \<and> agree N D old new u u'"
  using old(2) ok
proof (induction ns arbitrary: v w)
  case (Cons n ns)
  from Cons.prems(1) obtain xs x where xs: "those (map (arg_value v) (gn_args n)) = Some xs" and x: "S (gn_call n) xs = Some x"
    and rest: "run_nodes S ns (v(gn_name n \<mapsto> x)) = Some u" by (auto split: option.splits)
  have ne: "gn_name n \<noteq> old" and N: "gn_name n \<in> N" "node_refs n \<subseteq> N" using Cons.prems(3,4) by auto
  have IH: "\<exists>u'. run_nodes S (filter (\<lambda>n. gn_name n \<notin> D) (map (redirect old new) ns)) w' = Some u' \<and> agree N D old new u u'"
    if "agree N D old new (v(gn_name n \<mapsto> x)) w'" for w'
    using Cons.IH [OF rest that] Cons.prems(3,4) by auto
  show ?case
  proof (cases "gn_name n \<in> D")
    case True
    with Cons.prems(2) ne have "agree N D old new (v(gn_name n \<mapsto> x)) w" by (auto simp: agree_def)
    from IH [OF this] True show ?thesis by simp
  next
    case False
    have "arg_value w (redirect_arg old new a) = arg_value v a" if a: "a \<in> set (gn_args n)" for a
    proof (rule redirect_value)
      fix r assume "r \<in> arg_refs a"
      then have r: "r \<in> node_refs n" using a by (auto simp: node_refs_def)
      then have "r \<in> N" "r \<in> D \<Longrightarrow> r = old" using N Cons.prems(4) False by auto
      with Cons.prems(2) show "w (if r = old then new else r) = v r" by (auto simp: agree_def)
    qed
    then have m: "map (arg_value w \<circ> redirect_arg old new) (gn_args n) = map (arg_value v) (gn_args n)" by (intro map_cong) auto
    have args: "those (map (arg_value w) (gn_args (redirect old new n))) = Some xs"
      by (simp add: redirect_def m xs)
    have "gn_name n \<noteq> new" using N new by auto
    with Cons.prems(2) ne False have "agree N D old new (v(gn_name n \<mapsto> x)) (w(gn_name n \<mapsto> x))" by (auto simp: agree_def)
    from IH [OF this] False args x show ?thesis by simp
  qed
qed simp

lemma redirected_users:
  "u \<in> set (users (map (redirect old new) g) m) \<Longrightarrow> \<exists>n\<in>set g. u = gn_name n \<and> m \<in> node_refs (redirect old new n)"
  by (auto simp: users_def)

text \<open>Erasing from the last: it never meets a user.\<close>

lemma erase_members_all:
  "(\<And>xs m ys. ms = xs @ m # ys \<Longrightarrow> set (users g m) \<subseteq> set xs) \<Longrightarrow>
     erase_members ms g = Inr (filter (\<lambda>n. gn_name n \<notin> set ms) g)"
proof (induction ms arbitrary: g)
  case (Cons m ms)
  have "users g m = []" using Cons.prems [of "[]" m ms] by simp
  moreover have "erase_members ms (filter (\<lambda>n. gn_name n \<noteq> m) g) =
      Inr (filter (\<lambda>n. gn_name n \<notin> set ms) (filter (\<lambda>n. gn_name n \<noteq> m) g))"
  proof (rule Cons.IH)
    fix xs m' ys assume "ms = xs @ m' # ys"
    then have "set (users g m') \<subseteq> set (m # xs)" using Cons.prems [of "m # xs" m' ys] by simp
    then show "set (users (filter (\<lambda>n. gn_name n \<noteq> m) g) m') \<subseteq> set xs" by (auto simp: users_def)
  qed
  ultimately show ?case by (simp add: filter_filter conj_commute)
qed simp

text \<open>A graph that evaluates from nothing refers backwards only.\<close>

lemma refs_backwards:
  assumes "run_nodes S (g1 @ n # g2) Map.empty = Some env"
  shows "node_refs n \<subseteq> gn_name ` set g1"
proof -
  from assms obtain v where v: "run_nodes S g1 Map.empty = Some v" "run_nodes S (n # g2) v = Some env"
    by (auto simp: run_nodes_append split: option.splits)
  from run_node_refs [OF v(2)] run_nodes_names [OF v(1)] show ?thesis by simp
qed

lemma closed_refs:
  assumes "run_nodes S g Map.empty = Some env" and "n \<in> set g"
  shows "node_refs n \<subseteq> gn_name ` set g"
proof -
  from assms(2) obtain g1 g2 where "g = g1 @ n # g2" by (meson split_list)
  with refs_backwards assms(1) show ?thesis by fastforce
qed

lemma run_refs:
  assumes "run_nodes S ns v = Some w" and "n \<in> set ns"
  shows "node_refs n \<subseteq> dom v \<union> gn_name ` set ns"
proof -
  from assms(2) obtain n1 n2 where ns: "ns = n1 @ n # n2" by (meson split_list)
  with assms(1) obtain u where u: "run_nodes S n1 v = Some u" "run_nodes S (n # n2) u = Some w"
    by (auto simp: run_nodes_append split: option.splits)
  from run_node_refs [OF u(2)] run_nodes_names [OF u(1)] ns show ?thesis by auto
qed

lemma operand_names:
  "(if ss_operand p = ''indices'' then rc_index c else Some (rc_source c)) = Some n \<Longrightarrow> n \<in> operands c"
  by (auto simp: operands_def split: if_splits)

lemma reads_cong:
  assumes "\<And>m. m \<in> operands c \<Longrightarrow> w m = v m"
  shows "reads extents w c \<rho> p = reads extents v c \<rho> p"
proof (cases "if ss_operand p = ''indices'' then rc_index c else Some (rc_source c)")
  case (Some n)
  with assms [OF operand_names [OF Some]] show ?thesis by (simp add: reads_def)
qed (simp add: reads_def)

lemma transfer_call_cong:
  assumes "\<And>m. m \<in> operands c \<Longrightarrow> w m = v m"
  shows "transfer_call a c handle dev \<rho> w = transfer_call a c handle dev \<rho> v"
proof -
  have "map (\<lambda>p. the (w p)) (rc_parameters c) = map (\<lambda>p. the (v p)) (rc_parameters c)"
    using assms by (auto simp: operands_def)
  with assms show ?thesis by (auto simp: transfer_call_def Let_def operands_def split: option.splits)
qed

text \<open>
  A region the backend may replace: its members in graph order, with the operands outside it and before its
  tail.
\<close>

definition region_shape :: "gnode list \<Rightarrow> region \<Rightarrow> bool" where
  "region_shape g c \<longleftrightarrow> rc_members c \<noteq> [] \<and> distinct (map gn_name g) \<and> region_reason (map gn_name g) g c = None \<and>
     rc_members c = filter (\<lambda>n. n \<in> set (rc_members c)) (map gn_name g) \<and>
     operands c \<inter> set (rc_members c) = {} \<and>
     operands c \<subseteq> gn_name ` set (takeWhile (\<lambda>n. gn_name n \<noteq> last (rc_members c)) g)"

lemma member_users_later:
  assumes run: "run_nodes S g Map.empty = Some env" and d: "distinct (map gn_name g)"
    and order: "ms = filter (\<lambda>n. n \<in> set ms) (map gn_name g)" and split: "ms = ys @ m # xs"
    and u: "u \<in> set (users g m)" "u \<in> set ms"
  shows "u \<in> set xs"
proof -
  from u(1) obtain n where n: "n \<in> set g" "gn_name n = u" "m \<in> node_refs n" by (auto simp: users_def)
  from n(1) obtain g1 g2 where g: "g = g1 @ n # g2" by (meson split_list)
  have "m \<in> gn_name ` set g1" using refs_backwards [OF run [unfolded g]] n(3) by blast
  moreover have "m \<in> set ms" using split by simp
  ultimately have "m \<in> set (filter (\<lambda>n. n \<in> set ms) (map gn_name g1))" by auto
  then obtain as bs where ab: "filter (\<lambda>n. n \<in> set ms) (map gn_name g1) = as @ m # bs" by (meson split_list)
  let ?rest = "bs @ u # filter (\<lambda>n. n \<in> set ms) (map gn_name g2)"
  have ms: "ms = as @ m # ?rest"
    using order ab u(2) n(2) by (subst order) (simp add: g)
  have "distinct ms" by (subst order) (use d in simp)
  then have "distinct (as @ m # ?rest)" using ms by metis
  then have "m \<notin> set as" "m \<notin> set ?rest" by auto
  moreover have "as @ m # ?rest = ys @ m # xs" using ms split by metis
  ultimately have "?rest = xs" by (metis append_Cons_eq_iff)
  then show ?thesis by auto
qed

lemma members_before:
  assumes ms: "ms = filter (\<lambda>n. n \<in> D) (map gn_name (pre @ t # rest))" and t: "gn_name t = last ms"
    and d: "distinct (map gn_name (pre @ t # rest))" and "last ms \<in> D"
  shows "set ms - {last ms} \<subseteq> gn_name ` set pre"
proof -
  let ?A = "filter (\<lambda>n. n \<in> D) (map gn_name pre)" and ?B = "filter (\<lambda>n. n \<in> D) (map gn_name rest)"
  have eq: "ms = ?A @ gn_name t # ?B" using ms t assms(4) by simp
  have "?B = []"
  proof (rule ccontr)
    assume "?B \<noteq> []"
    moreover have "gn_name t = last ?B" using t eq \<open>?B \<noteq> []\<close> by simp
    ultimately have "gn_name t \<in> set ?B" by (metis last_in_set)
    then show False using d by auto
  qed
  then have "set ms = set ?A \<union> {gn_name t}" using eq by simp
  then show ?thesis using t by auto
qed

lemma replace_region_runs:
  assumes nm: "fresh_namer nm" and std: "standard_ops extents S" and run: "run_nodes S g Map.empty = Some env"
    and sh: "region_shape g c" and fits: "artifact_fits a c"
    and rd: "\<forall>p\<in>set (cr_symbol_sources a). reads extents env c \<rho> p"
    and contract: "(case transfer_call a c handle dev \<rho> env of (f, xs) \<Rightarrow> S f xs) = env (last (rc_members c))"
    and us: "gn_name ` set g \<subseteq> set used"
  shows "\<exists>g' env'. replace_region nm a c handle dev used g = Inr g' \<and> run_nodes S g' Map.empty = Some env' \<and>
    (\<forall>n\<in>gn_name ` set g - set (rc_members c). env' n = env n \<and> n \<in> gn_name ` set g') \<and>
    distinct (map gn_name g') \<and> gn_name ` set g' \<inter> set (rc_members c) = {} \<and>
    (\<forall>X. X \<subseteq> gn_name ` set g - set (rc_members c) \<longrightarrow>
      filter (\<lambda>n. n \<in> X) (map gn_name g') = filter (\<lambda>n. n \<in> X) (map gn_name g)) \<and>
    gn_name ` set g' \<inter> set used \<subseteq> gn_name ` set g"
proof -
  let ?D = "set (rc_members c)" and ?tail = "last (rc_members c)" and ?N = "gn_name ` set g"
  from sh have ne: "rc_members c \<noteq> []" and d: "distinct (map gn_name g)" and rr: "region_reason (map gn_name g) g c = None"
    and order: "rc_members c = filter (\<lambda>n. n \<in> ?D) (map gn_name g)" and opD: "operands c \<inter> ?D = {}"
    and opp: "operands c \<subseteq> gn_name ` set (takeWhile (\<lambda>n. gn_name n \<noteq> ?tail) g)"
    by (auto simp: region_shape_def)
  have tailD: "?tail \<in> ?D" using ne by simp
  have DN: "?D \<subseteq> ?N" using rr by (auto simp: region_reason_def split: if_splits)
  define pre where "pre = takeWhile (\<lambda>n. gn_name n \<noteq> ?tail) g"
  obtain t rest where post: "dropWhile (\<lambda>n. gn_name n \<noteq> ?tail) g = t # rest" and t: "gn_name t = ?tail"
  proof -
    have "?tail \<in> ?N" using tailD DN by blast
    then have "\<exists>n\<in>set g. \<not> gn_name n \<noteq> ?tail" by auto
    then have "dropWhile (\<lambda>n. gn_name n \<noteq> ?tail) g \<noteq> []" by (auto simp: dropWhile_eq_Nil_conv)
    then show thesis using that hd_dropWhile [of "\<lambda>n. gn_name n \<noteq> ?tail" g] by (cases "dropWhile (\<lambda>n. gn_name n \<noteq> ?tail) g") auto
  qed
  have g: "g = pre @ t # rest" unfolding pre_def post [symmetric] by simp
  have tpre: "?tail \<notin> gn_name ` set pre" by (auto simp: pre_def dest: set_takeWhileD)
  have gd: "gn_name ` set pre \<inter> gn_name ` set rest = {}" "?tail \<notin> gn_name ` set rest" using d t by (auto simp: g)
  have membersPre: "?D - {?tail} \<subseteq> gn_name ` set pre"
    by (rule members_before [OF order [unfolded g] t d [unfolded g] tailD])
  from run g obtain v1 where v1: "run_nodes S pre Map.empty = Some v1" and r2: "run_nodes S (t # rest) v1 = Some env"
    by (auto simp: run_nodes_append split: option.splits)
  from r2 obtain y where y: "run_nodes S rest (v1(?tail \<mapsto> y)) = Some env" using t by (auto split: option.splits)
  note dv1 = run_nodes_names [OF v1]
  note denv = run_nodes_names [OF y]
  have envpre: "env n = v1 n" if "n \<in> gn_name ` set pre" for n
    using that denv gd tpre by (metis (no_types, lifting) disjoint_iff fun_upd_other)
  have envtail: "env ?tail = Some y" using denv gd(2) by auto
  have infinite_names: "infinite (UNIV :: string set)" by (rule infinite_UNIV_listI)
  then obtain spare where spare: "spare \<notin> ?N" using ex_new_if_finite by (metis List.finite_set finite_imageI)
  have prerefs: "node_refs n \<subseteq> gn_name ` set pre" if "n \<in> set pre" for n using closed_refs [OF v1 that] .
  have escape: "gn_name n \<notin> ?D \<longrightarrow> node_refs n \<inter> ?D \<subseteq> {?tail}" if n: "n \<in> set g" for n
  proof (intro impI subsetI)
    fix m assume out: "gn_name n \<notin> ?D" and m: "m \<in> node_refs n \<inter> ?D"
    have "set (users g k) \<subseteq> ?D" if "k \<in> set (butlast (rc_members c))" for k
      using rr that by (auto simp: region_reason_def split: if_splits)
    moreover have "gn_name n \<in> set (users g m)" using n m by (auto simp: users_def)
    ultimately have "m \<notin> set (butlast (rc_members c))" using out by blast
    then show "m \<in> {?tail}" using m ne by (metis IntE append_butlast_last_id in_set_conv_decomp_first insertE list.set(2) rotate1.simps(2) set_rotate1 singletonD singletonI)
  qed
  have sub: "set pre \<subseteq> set g" "set rest \<subseteq> set g" by (auto simp: g)
  have cond: "\<forall>n\<in>A. gn_name n \<in> ?N \<and> node_refs n \<subseteq> ?N \<and> (gn_name n \<notin> ?D \<longrightarrow> node_refs n \<inter> ?D \<subseteq> {?tail})"
    if A: "A \<subseteq> set g" for A
  proof
    fix n assume "n \<in> A"
    then have n: "n \<in> set g" using A by blast
    show "gn_name n \<in> ?N \<and> node_refs n \<subseteq> ?N \<and> (gn_name n \<notin> ?D \<longrightarrow> node_refs n \<inter> ?D \<subseteq> {?tail})"
      using n escape [OF n] closed_refs [OF run n] by blast
  qed
  have "agree ?N ?D ?tail spare Map.empty Map.empty" by (simp add: agree_def)
  from run_simulated [OF tailD tpre spare cond [OF sub(1)] v1 this] obtain u1 where
    u1: "run_nodes S (filter (\<lambda>n. gn_name n \<notin> ?D) (map (redirect ?tail spare) pre)) Map.empty = Some u1"
    and ag1: "agree ?N ?D ?tail spare v1 u1" by blast
  have idpre: "redirect ?tail x n = n" if "n \<in> set pre" for n x
    by (rule redirect_id) (use prerefs [OF that] tpre in blast)
  have pre1: "run_nodes S (filter (\<lambda>n. gn_name n \<notin> ?D) pre) Map.empty = Some u1"
    using u1 idpre by (simp add: map_idI)
  have dom1: "dom u1 = gn_name ` {n \<in> set pre. gn_name n \<notin> ?D}" using run_nodes_names [OF pre1] by simp
  have ops: "u1 m = env m" if "m \<in> operands c" for m
  proof -
    have "m \<in> gn_name ` set pre" "m \<notin> ?D" using that opp opD by (auto simp: pre_def)
    then have "m \<in> ?N - ?D" by (auto simp: g)
    with ag1 \<open>m \<in> gn_name ` set pre\<close> envpre show ?thesis by (auto simp: agree_def)
  qed
  obtain op code where ins: "insert_transfer nm a c handle dev (gn_device t) used = Inr (op, code)"
    using insert_transfer_total [OF fits] by blast
  have wf: "list_all wf_expr (ts_shape (cr_logical_destination a))" "list_all wf_expr (ts_strides (cr_logical_destination a))"
    using fits by (simp_all add: artifact_fits_def Let_def)
  have du: "dom u1 \<subseteq> set used" using dom1 us by (auto simp: g)
  have ru: "\<forall>p\<in>set (cr_symbol_sources a). reads extents u1 c \<rho> p" using rd reads_cong [where w = u1 and v = env and c = c, OF ops] by blast
  have "m \<in> dom u1" if "m \<in> operands c" for m
  proof -
    have "m \<in> gn_name ` set pre" "m \<notin> ?D" using that opp opD by (auto simp: pre_def)
    then show ?thesis unfolding dom1 by blast
  qed
  then have ou: "operands c \<subseteq> dom u1" by blast
  have cu: "(case transfer_call a c handle dev \<rho> u1 of (f, xs) \<Rightarrow> S f xs) = Some y"
    using contract envtail transfer_call_cong [where w = u1 and v = env and c = c, OF ops] by simp
  obtain w where w: "run_nodes S code u1 = Some w" "w op = Some y" "\<forall>n\<in>set used. w n = u1 n"
    and new: "gn_name ` set code \<inter> set used = {}"
    and code: "op \<in> gn_name ` set code" "distinct (map gn_name code)"
    using insert_transfer_runs [OF nm std du wf ru ou ins cu] by blast
  have w: "run_nodes S code u1 = Some w" "w op = Some y" "\<forall>n\<in>?N. w n = u1 n" using w us by blast+
  have code: "gn_name ` set code \<inter> ?N = {}" "op \<in> gn_name ` set code" "distinct (map gn_name code)"
    using code new us by blast+
  have opN: "op \<notin> ?N" using code by blast
  have D1: "dom u1 \<inter> ?D = {}" unfolding dom1 by auto
  have D2: "gn_name ` set code \<inter> ?D = {}" using code(1) DN by blast
  have coderefs: "node_refs n \<inter> ?D = {}" if "n \<in> set code" for n
    using run_refs [OF w(1) that] D1 D2 by blast
  have idcode: "redirect ?tail op n = n" if "n \<in> set code" for n
    by (rule redirect_id) (use coderefs [OF that] tailD in blast)
  have "agree ?N ?D ?tail op (v1(?tail \<mapsto> y)) w"
    unfolding agree_def
  proof (intro conjI ballI)
    fix n assume n: "n \<in> ?N - ?D"
    then have "n \<noteq> ?tail" using tailD by blast
    moreover have "u1 n = v1 n" using n ag1 by (simp add: agree_def)
    moreover have "w n = u1 n" using n w(3) by blast
    ultimately show "w n = (v1(?tail \<mapsto> y)) n" by simp
  qed (simp add: w(2))
  from run_simulated [OF tailD gd(2) opN cond [OF sub(2)] y this] obtain env' where
    post': "run_nodes S (filter (\<lambda>n. gn_name n \<notin> ?D) (map (redirect ?tail op) rest)) w = Some env'"
    and ag: "agree ?N ?D ?tail op env env'" by blast
  let ?h = "map (redirect ?tail op) (pre @ code @ t # rest)"
  have "erase_members (rev (rc_members c)) ?h = Inr (filter (\<lambda>n. gn_name n \<notin> set (rev (rc_members c))) ?h)"
  proof (rule erase_members_all)
    fix xs m ys assume split: "rev (rc_members c) = xs @ m # ys"
    then have ms: "rc_members c = rev ys @ m # rev xs" by (metis append.assoc append_Cons append_Nil rev_append rev_rev_ident rev_singleton_conv rev.simps(2))
    then have mD: "m \<in> ?D" by simp
    show "set (users ?h m) \<subseteq> set xs"
    proof
      fix u assume "u \<in> set (users ?h m)"
      then obtain n where n: "n \<in> set (pre @ code @ t # rest)" "u = gn_name n" "m \<in> node_refs (redirect ?tail op n)"
        using redirected_users by blast
      have "n \<notin> set code" using n(3) idcode coderefs mD by fastforce
      with n(1) have ng: "n \<in> set g" by (auto simp: g)
      have "m \<noteq> op" using mD DN opN by blast
      with n(3) have m: "m \<in> node_refs n" "m \<noteq> ?tail" by (auto simp: redirect_refs split: if_splits)
      have um: "u \<in> set (users g m)" using ng m n(2) by (auto simp: users_def)
      moreover have "u \<in> ?D" using escape [OF ng] m mD n(2) by blast
      ultimately show "u \<in> set xs" using member_users_later [OF run d order ms] by simp
    qed
  qed
  moreover have "filter (\<lambda>n. gn_name n \<notin> set (rev (rc_members c))) ?h =
      filter (\<lambda>n. gn_name n \<notin> ?D) pre @ code @ filter (\<lambda>n. gn_name n \<notin> ?D) (map (redirect ?tail op) rest)"
  proof -
    have "filter (\<lambda>n. gn_name n \<notin> ?D) code = code" using code(1) DN by (auto simp: filter_id_conv)
    then show ?thesis using idpre idcode t tailD by (simp add: map_idI)
  qed
  ultimately have rep: "replace_region nm a c handle dev used g =
      Inr (filter (\<lambda>n. gn_name n \<notin> ?D) pre @ code @ filter (\<lambda>n. gn_name n \<notin> ?D) (map (redirect ?tail op) rest))"
    using ne ins post by (simp add: replace_region_def Let_def pre_def [symmetric])
  let ?g' = "filter (\<lambda>n. gn_name n \<notin> ?D) pre @ code @ filter (\<lambda>n. gn_name n \<notin> ?D) (map (redirect ?tail op) rest)"
  have run': "run_nodes S ?g' Map.empty = Some env'"
    using pre1 w(1) post' by (simp add: run_nodes_append)
  have agr: "env' n = env n" if "n \<in> ?N - ?D" for n using ag that by (simp add: agree_def)
  have there: "n \<in> gn_name ` set ?g'" if n: "n \<in> ?N - ?D" for n
  proof -
    from n obtain k where k: "n = gn_name k" "k \<in> set pre \<or> k \<in> set rest" "gn_name k \<notin> ?D" using t tailD by (auto simp: g)
    then have "k \<in> set (filter (\<lambda>n. gn_name n \<notin> ?D) pre) \<or>
        redirect ?tail op k \<in> set (filter (\<lambda>n. gn_name n \<notin> ?D) (map (redirect ?tail op) rest))" by auto
    then show ?thesis using k(1) by (metis Un_iff image_eqI redirect_simps(1) set_append)
  qed
  have names: "map gn_name ?g' = filter (\<lambda>n. n \<notin> ?D) (map gn_name pre) @ map gn_name code @ filter (\<lambda>n. n \<notin> ?D) (map gn_name rest)"
    by (simp add: filter_map comp_def)
  have grown: "gn_name ` set ?g' \<inter> set used \<subseteq> ?N" using new by (auto simp: g)
  have dist: "distinct (map gn_name ?g')" unfolding names using d code(1,3) by (auto simp: g)
  have apart: "gn_name ` set ?g' \<inter> ?D = {}" using D2 by auto
  have kept: "filter (\<lambda>n. n \<in> X) (map gn_name ?g') = filter (\<lambda>n. n \<in> X) (map gn_name g)" if X: "X \<subseteq> ?N - ?D" for X
  proof -
    have "filter (\<lambda>n. n \<in> X) (filter (\<lambda>n. n \<notin> ?D) ys) = filter (\<lambda>n. n \<in> X) ys" for ys
      using X by (induction ys) auto
    moreover have "filter (\<lambda>n. n \<in> X) (map gn_name code) = []" using X code(1) by (auto simp: filter_empty_conv)
    moreover have "gn_name t \<notin> X" using X t tailD by auto
    ultimately show ?thesis unfolding names by (simp add: g)
  qed
  show ?thesis
    by (intro exI [of _ ?g'] exI [of _ env'] conjI ballI allI impI rep run' dist apart grown) (erule agr there kept)+
qed

end
