(* ===== verification/Action.thy ===== *)
theory Action
  imports Prelude
begin

text \<open>
  Operations on a shared state that may raise: the value or the exception, with the state they leave.  An
  exception keeps the changes made before it, as in Python.
\<close>

type_synonym ('s, 'a) action = "'s \<Rightarrow> 'a res \<times> 's"

definition andthen :: "('s, 'a) action \<Rightarrow> ('a \<Rightarrow> ('s, 'b) action) \<Rightarrow> ('s, 'b) action" where
  "andthen m f s = (case m s of (Inl e, s') \<Rightarrow> (Inl e, s') | (Inr x, s') \<Rightarrow> f x s')"

definition give :: "'a res \<Rightarrow> ('s, 'a) action" where
  "give r s = (r, s)"

definition observe :: "('s \<Rightarrow> 'a) \<Rightarrow> ('s, 'a) action" where
  "observe f s = (Inr (f s), s)"

definition update :: "('s \<Rightarrow> 's) \<Rightarrow> ('s, unit) action" where
  "update f s = (Inr (), f s)"

text \<open>A part of the state: read it and replace it by what a fallible function makes of it.\<close>

definition modify :: "('s \<Rightarrow> 's res) \<Rightarrow> ('s, unit) action" where
  "modify f s = (case f s of Inl e \<Rightarrow> (Inl e, s) | Inr s' \<Rightarrow> (Inr (), s'))"

text \<open>A \<open>for\<close> loop whose body may raise.\<close>

fun for_each :: "('x \<Rightarrow> ('s, unit) action) \<Rightarrow> 'x list \<Rightarrow> ('s, unit) action" where
  "for_each f [] = give (Inr ())"
| "for_each f (x # xs) = andthen (f x) (\<lambda>_. for_each f xs)"

text \<open>A loop that carries a value.\<close>

fun for_fold :: "('x \<Rightarrow> 'p \<Rightarrow> ('s, 'p) action) \<Rightarrow> 'x list \<Rightarrow> 'p \<Rightarrow> ('s, 'p) action" where
  "for_fold f [] p = give (Inr p)"
| "for_fold f (x # xs) p = andthen (f x p) (for_fold f xs)"

named_theorems action_defs "unfolding of the operations on actions"

lemmas [action_defs] = andthen_def give_def observe_def update_def modify_def

lemma andthen_cong [fundef_cong]:
  "m s = m' s' \<Longrightarrow> (\<And>x t. m' s' = (Inr x, t) \<Longrightarrow> f x t = f' x t) \<Longrightarrow> andthen m f s = andthen m' f' s'"
  by (auto simp: andthen_def split: prod.splits sum.splits)

lemma andthen_Inr:
  "andthen m f s = (Inr y, u) \<longleftrightarrow> (\<exists>x t. m s = (Inr x, t) \<and> f x t = (Inr y, u))"
  by (auto simp: andthen_def split: prod.splits sum.splits)

lemma andthen_Inl:
  "andthen m f s = (Inl e, u) \<longleftrightarrow> m s = (Inl e, u) \<or> (\<exists>x t. m s = (Inr x, t) \<and> f x t = (Inl e, u))"
  by (auto simp: andthen_def split: prod.splits sum.splits)

text \<open>What every operation keeps, a sequence keeps: an invariant of the state, exceptions included.\<close>

definition keeps :: "('s \<Rightarrow> bool) \<Rightarrow> ('s, 'a) action \<Rightarrow> bool" where
  "keeps P m \<longleftrightarrow> (\<forall>s. P s \<longrightarrow> P (snd (m s)))"

named_theorems keep_intros "operations that keep an invariant"

lemma keeps_andthen [keep_intros]: "keeps P m \<Longrightarrow> (\<And>x. keeps P (f x)) \<Longrightarrow> keeps P (andthen m f)"
  unfolding keeps_def andthen_def by (auto split: prod.splits sum.splits)

lemma keeps_give [keep_intros]: "keeps P (give r)"
  by (simp add: keeps_def give_def)

lemma keeps_observe [keep_intros]: "keeps P (observe f)"
  by (simp add: keeps_def observe_def)

lemma keeps_update [keep_intros]: "(\<And>s. P s \<Longrightarrow> P (f s)) \<Longrightarrow> keeps P (update f)"
  by (simp add: keeps_def update_def)

lemma keeps_modify [keep_intros]: "(\<And>s s'. P s \<Longrightarrow> f s = Inr s' \<Longrightarrow> P s') \<Longrightarrow> keeps P (modify f)"
  by (auto simp: keeps_def modify_def split: sum.splits)

lemma keeps_for_each [keep_intros]: "(\<And>x. keeps P (f x)) \<Longrightarrow> keeps P (for_each f xs)"
  by (induction xs) (simp_all add: keep_intros)

lemma keeps_for_fold [keep_intros]: "(\<And>x p. keeps P (f x p)) \<Longrightarrow> keeps P (for_fold f xs p)"
  by (induction xs arbitrary: p) (simp_all add: keep_intros)

lemma action_keepsD: "keeps P m \<Longrightarrow> P s \<Longrightarrow> m s = (r, s') \<Longrightarrow> P s'"
  by (metis keeps_def snd_conv)

end
