(* ===== verification/Backend.thy ===== *)
theory Backend
  imports Graph_Rewrite Weights Resources Action
begin

text \<open>
  The state half of \<open>reloc_torch/backend.py\<close>: a \<open>RelocBackend\<close> with its artifact cache, handle registry
  and execution entries, the rewriting of a captured graph candidate by candidate, the callables it returns
  and their release.
\<close>

section \<open>Construction\<close>

text \<open>The \<open>transfer_resources\<close> argument may be left out; \<open>None\<close> then stands for the omission.\<close>

record backend_options =
  bo_compute_backend :: string
  bo_inductor_options :: "bool option"
  bo_placement :: "bool option"
  bo_runtime :: bool
  bo_resources :: "resources_arg option"
  bo_options :: options_arg
  bo_capacity :: pyint

text \<open>
  Execution entries are objects: the registry and the backend refer to them by identity.  \<open>bk_live\<close> has the
  registrations alive, by handle.
\<close>

record backend =
  bk_inductor :: bool
  bk_closed :: bool
  bk_event :: bool
  bk_owns_runtime :: bool
  bk_resources :: resources_arg
  bk_options :: options_arg
  bk_runtime :: "transport_adapter option"
  bk_cache :: "(compile_key, compiled_recipe) artifact_cache"
  bk_diagnostics :: diagnostics
  bk_registry :: "nat registry"
  bk_entries :: "entry list"
  bk_live :: "(string, nat) odict"
  bk_replaced :: nat

text \<open>
  \<open>bo_inductor_options\<close> is the truth of the option \<open>triton.cudagraphs\<close>, where options were given;
  \<open>bo_placement\<close> says of a given placement whether it is a policy; \<open>injected\<close> is the runtime given.
\<close>

definition quoted :: "string \<Rightarrow> string" where
  "quoted s = CHR 0x27 # s @ [CHR 0x27]"

definition new_backend :: "backend_options \<Rightarrow> nat registry \<Rightarrow> transport_adapter \<Rightarrow> backend res" where
  "new_backend bo registry injected =
     (if bo_compute_backend bo \<notin> {''eager'', ''inductor''}
      then Inl (ValueErr (msg [''compute_backend must be '', quoted ''eager'', '' or '', quoted ''inductor'']))
      else if bo_inductor_options bo \<noteq> None \<and> bo_compute_backend bo \<noteq> ''inductor''
      then Inl (ValueErr (''inductor_options requires compute_backend='' @ quoted ''inductor''))
      else if bo_inductor_options bo = Some True then Inl (ValueErr ''Sym transfer ops do not support CUDA graph capture'')
      else if bo_placement bo = Some False then Inl (TypeErr ''placement must be PlacementPolicy or None'')
      else if bo_placement bo \<noteq> None \<and> bo_runtime bo then Inl (ValueErr ''custom runtime owns its placement policy'')
      else let resources = (case bo_resources bo of Some r \<Rightarrow> r | None \<Rightarrow> if bo_runtime bo then ResNone else ResAuto) in
        if bo_runtime bo \<and> (resources \<noteq> ResNone \<or> bo_options bo \<noteq> OptNone)
        then Inl (ValueErr ''custom runtime owns its policy; configure transfer resources/options on it'')
        else res_bind (transfer_configuration resources (bo_options bo)) (\<lambda>_.
          res_bind (new_cache (bo_capacity bo)) (\<lambda>cache.
          Inr \<lparr>bk_inductor = (bo_compute_backend bo = ''inductor''), bk_closed = False, bk_event = False,
            bk_owns_runtime = (\<not> bo_runtime bo), bk_resources = resources, bk_options = bo_options bo,
            bk_runtime = (if bo_runtime bo then Some injected else None), bk_cache = cache,
            bk_diagnostics = new_diagnostics, bk_registry = registry, bk_entries = [], bk_live = [], bk_replaced = 0\<rparr>)))"

section \<open>What the outside answers\<close>

text \<open>
  \<open>bw_compile\<close> is the compiler client, whose answer for a recipe does not change during the process;
  \<open>bw_borrowed\<close> the resources object given, \<open>bw_module\<close> whether the transport module imports.
\<close>

record backend_world =
  bw_pid :: int
  bw_same_process :: bool
  bw_compiler_identity :: "string res"
  bw_capability :: string
  bw_compile :: "recipe \<Rightarrow> compiled_recipe res"
  bw_token :: "nat \<Rightarrow> string"
  bw_namer :: namer
  bw_borrowed :: transfer_resources
  bw_module :: bool

type_synonym 'a bact = "(backend, 'a) action"

definition count_backend :: "(diagnostics \<Rightarrow> diagnostics res) \<Rightarrow> unit bact" where
  "count_backend f = modify (\<lambda>b. res_bind (f (bk_diagnostics b)) (\<lambda>d. Inr (b\<lparr>bk_diagnostics := d\<rparr>)))"

definition exclude :: "string \<Rightarrow> unit bact" where
  "exclude reason = count_backend (\<lambda>d. Inr (record_exclusion reason d))"

definition check_backend_process :: "backend_world \<Rightarrow> unit bact" where
  "check_backend_process bw = give (ensure (bw_same_process bw)
     (RuntimeErr ''process_mismatch: RelocBackend belongs to another process''))"

definition require_backend :: "backend_world \<Rightarrow> unit bact" where
  "require_backend bw = andthen (check_backend_process bw) (\<lambda>_.
     modify (\<lambda>b. res_bind (ensure (\<not> bk_closed b) (RuntimeErr ''RelocBackend is closed'')) (\<lambda>_. Inr b)))"

text \<open>The \<open>runtime\<close> property: the adapter is made on first use.\<close>

definition backend_runtime :: "backend_world \<Rightarrow> unit bact" where
  "backend_runtime bw = andthen (check_backend_process bw) (\<lambda>_. andthen (require_backend bw) (\<lambda>_.
     modify (\<lambda>b. case bk_runtime b of Some _ \<Rightarrow> Inr b
       | None \<Rightarrow> res_bind (new_adapter (bw_pid bw) (bk_resources b) (bw_borrowed bw) (bk_options b) (bw_module bw)) (\<lambda>ta.
           Inr (b\<lparr>bk_runtime := Some ta\<rparr>)))))"

text \<open>
  \<open>compile_recipe\<close>.  A busy key belongs to a compilation of another thread; its end wakes the caller, which
  then finds the answer in the cache or compiles itself.  This is a call with no compilation under way.
\<close>

definition cached_compile :: "backend_world \<Rightarrow> compile_key \<Rightarrow> recipe \<Rightarrow> compiled_recipe bact" where
  "cached_compile bw key r b = (case get_or_compile key (bw_compile bw r) (bk_cache b) (bk_diagnostics b) of
     None \<Rightarrow> (Inl (OtherExn ''waiting for another thread''), b)
   | Some (result, c, Inl e) \<Rightarrow> (Inl e, b)
   | Some (result, c, Inr d) \<Rightarrow> (result, b\<lparr>bk_cache := c, bk_diagnostics := d\<rparr>))"

definition compile_recipe :: "backend_world \<Rightarrow> recipe \<Rightarrow> compiled_recipe bact" where
  "compile_recipe bw r = andthen (require_backend bw) (\<lambda>_.
     andthen (give (bw_compiler_identity bw)) (\<lambda>identity.
     andthen (backend_runtime bw) (\<lambda>_.
       cached_compile bw (artifact_key r identity (bw_capability bw) frontend_identity None True) r)))"

section \<open>Execution entries\<close>

text \<open>The entry of an identity, as its \<open>closed\<close> property sees the backend's event.\<close>

definition entry_object :: "backend \<Rightarrow> nat \<Rightarrow> entry option" where
  "entry_object b i = (if i < length (bk_entries b) then Some ((bk_entries b ! i)\<lparr>en_event_set := bk_event b\<rparr>) else None)"

definition entry_is_closed :: "backend \<Rightarrow> nat \<Rightarrow> bool" where
  "entry_is_closed b i = (case entry_object b i of None \<Rightarrow> True | Some en \<Rightarrow> entry_closed en)"

definition make_entry :: "compiled_recipe \<Rightarrow> region \<Rightarrow> nat \<Rightarrow> entry" where
  "make_entry a c i = \<lparr>en_identity = i, en_compiled = a, en_symbolic = rc_symbolic c, en_guards = rc_guards c,
     en_indexed = (rc_index c \<noteq> None), en_handle = None, en_closed = False, en_event_set = False\<rparr>"

text \<open>A new entry is registered under a fresh handle, which becomes its name.\<close>

definition register_entry :: "backend_world \<Rightarrow> compiled_recipe \<Rightarrow> region \<Rightarrow> string bact" where
  "register_entry bw a c b =
     (let i = length (bk_entries b);
          (rn, rg) = register (bw_token bw (rg_next (bk_registry b))) i (bk_registry b); h = rn_handle rn
      in (Inr h, b\<lparr>bk_registry := rg, bk_entries := bk_entries b @ [(make_entry a c i)\<lparr>en_handle := Some h\<rparr>],
            bk_live := od_set h i (bk_live b)\<rparr>))"

definition close_object :: "nat \<Rightarrow> backend \<Rightarrow> backend" where
  "close_object i b = b\<lparr>bk_entries := (bk_entries b)[i := close_entry (bk_entries b ! i)]\<rparr>"

definition release_handle :: "string \<Rightarrow> backend \<Rightarrow> backend" where
  "release_handle h b = b\<lparr>bk_registry := snd (release_registration \<lparr>rn_handle = h, rn_live = True\<rparr> (bk_registry b)),
     bk_live := od_del h (bk_live b)\<rparr>"

text \<open>What an inserted operation finds under its handle when it executes.\<close>

definition find_entry :: "string \<Rightarrow> backend \<Rightarrow> entry res" where
  "find_entry h b = res_bind (lookup_handle (entry_is_closed b) h (bk_registry b)) (\<lambda>i.
     case entry_object b i of None \<Rightarrow> Inl (OtherExn h) | Some en \<Rightarrow> Inr en)"

section \<open>Rewriting a graph\<close>

text \<open>
  The copy of the graph, once one was made, with the names it has given out, and the handles registered for
  the regions replaced so far.
\<close>

record progress =
  pg_copy :: "(string list \<times> gnode list) option"
  pg_handles :: "string list"

definition current_copy :: "gnode list \<Rightarrow> progress \<Rightarrow> string list \<times> gnode list" where
  "current_copy g0 p = (case pg_copy p of Some x \<Rightarrow> x | None \<Rightarrow> (map gn_name g0, g0))"

definition node_device :: "gnode list \<Rightarrow> string \<Rightarrow> device option" where
  "node_device g name = (case find (\<lambda>n. gn_name n = name) g of None \<Rightarrow> None | Some n \<Rightarrow> gn_device n)"

definition skip_region :: "string \<Rightarrow> progress \<Rightarrow> progress bact" where
  "skip_region reason p = andthen (exclude reason) (\<lambda>_. give (Inr p))"

text \<open>The region is replaced: entry, handle, insertion, redirection, erasure.\<close>

definition apply_region ::
  "backend_world \<Rightarrow> gnode list \<Rightarrow> region \<Rightarrow> compiled_recipe \<Rightarrow> device \<Rightarrow> progress \<Rightarrow> progress bact" where
  "apply_region bw g0 c a dev p = (case current_copy g0 p of (used, g) \<Rightarrow>
     andthen (backend_runtime bw) (\<lambda>_.
     andthen (require_backend bw) (\<lambda>_.
     andthen (register_entry bw a c) (\<lambda>h.
     andthen (give (mapR (\<lambda>n. ensure (n \<in> gn_name ` set g0) (KeyErr n)) (rc_parameters c @ (case rc_index c of None \<Rightarrow> [] | Some i \<Rightarrow> [i])))) (\<lambda>_.
     andthen (give (replace_region (bw_namer bw) a c h dev used g)) (\<lambda>g'.
       give (Inr (p\<lparr>pg_copy := Some (map gn_name g' @ used, g'), pg_handles := pg_handles p @ [h]\<rparr>))))))))"

definition replace_candidate :: "backend_world \<Rightarrow> gnode list \<Rightarrow> region \<Rightarrow> compiled_recipe \<Rightarrow> progress \<Rightarrow> progress bact" where
  "replace_candidate bw g0 c a p = (let (used, g) = current_copy g0 p; p = p\<lparr>pg_copy := Some (used, g)\<rparr> in
     case region_reason (map gn_name g0) g c of
       Some reason \<Rightarrow> skip_region reason p
     | None \<Rightarrow>
        if rc_members c = [] then give (Inl (OtherExn ''IndexError''))
        else case (case rc_device c of Some d \<Rightarrow> Some d | None \<Rightarrow> node_device g0 (last (rc_members c))) of
            None \<Rightarrow> skip_region ''metadata_unavailable'' p
          | Some dev \<Rightarrow> apply_region bw g0 c a dev p)"

definition rewrite_candidate :: "backend_world \<Rightarrow> gnode list \<Rightarrow> region \<Rightarrow> progress \<Rightarrow> progress bact" where
  "rewrite_candidate bw g0 c p b = (case region_reason (map gn_name g0) g0 c of
     Some reason \<Rightarrow> skip_region reason p b
   | None \<Rightarrow> (case compile_recipe bw (rc_recipe c) b of
       (Inl (UnsupportedRecipe reason detail), b) \<Rightarrow> skip_region reason p b
     | (Inl e, b) \<Rightarrow> (Inl e, b)
     | (Inr a, b) \<Rightarrow> replace_candidate bw g0 c a p b))"

text \<open>\<open>graph.lint()\<close>: every name is defined once, and used only after its definition.\<close>

fun defined_before_use :: "string list \<Rightarrow> gnode list \<Rightarrow> bool" where
  "defined_before_use seen [] = True"
| "defined_before_use seen (n # ns) \<longleftrightarrow> node_refs n \<subseteq> set seen \<and> gn_name n \<notin> set seen \<and> defined_before_use (gn_name n # seen) ns"

definition lint :: "gnode list \<Rightarrow> unit res" where
  "lint g = ensure (defined_before_use [] g) (RuntimeErr ''graph lint'')"

text \<open>\<open>_rewrite\<close>: the new graph, or \<open>None\<close> for the captured one itself, and the handles registered.\<close>

definition rewrite :: "backend_world \<Rightarrow> gnode list \<Rightarrow> region list \<Rightarrow> (gnode list option \<times> string list) bact" where
  "rewrite bw g0 cs = (if cs = [] then give (Inr (None, [])) else
     andthen (for_fold (rewrite_candidate bw g0) cs \<lparr>pg_copy = None, pg_handles = []\<rparr>) (\<lambda>p.
       if pg_handles p = [] then give (Inr (None, []))
       else let g = snd (current_copy g0 p) in
         andthen (give (lint g)) (\<lambda>_.
         andthen (update (\<lambda>b. b\<lparr>bk_replaced := bk_replaced b + length (pg_handles p)\<rparr>)) (\<lambda>_.
           give (Inr (Some g, pg_handles p))))))"

section \<open>Captures and callables\<close>

text \<open>One call of the backend: the captured graph and what Torch, the importer and Inductor answer.\<close>

record capture =
  cp_graph :: "gnode list"
  cp_version :: "unit res"
  cp_grad_enabled :: bool
  cp_needs_autograd :: bool
  cp_report :: "(string list \<times> region list) res"
  cp_executor :: "unit res"

record graph_callable =
  gc_original :: "gnode list"
  gc_rewritten :: "gnode list option"
  gc_handles :: "string list"
  gc_executor :: bool

definition require_inference :: "bool \<Rightarrow> 'a bact \<Rightarrow> 'a bact" where
  "require_inference grad m = andthen (give (ensure (\<not> grad)
     (RuntimeErr ''Sym + Inductor requires torch.no_grad() or torch.inference_mode(); use Inductor alone for training''))) (\<lambda>_. m)"

text \<open>A failed Inductor compilation closes the entries the rewriting registered.\<close>

definition drop_registration :: "string \<Rightarrow> backend \<Rightarrow> backend" where
  "drop_registration h b = release_handle h (case map_of (bk_live b) h of None \<Rightarrow> b | Some i \<Rightarrow> close_object i b)"

definition compile_executor :: "capture \<Rightarrow> gnode list option \<Rightarrow> string list \<Rightarrow> graph_callable bact" where
  "compile_executor cp rewritten hs b = (case cp_executor cp of
     Inl e \<Rightarrow> andthen (count_backend (increment ''inductor_compile_failures'' 1)) (\<lambda>_.
       andthen (update (fold drop_registration hs)) (\<lambda>_. give (Inl e))) b
   | Inr _ \<Rightarrow> andthen (count_backend (increment ''inductor_compiles'' 1)) (\<lambda>_.
       give (Inr \<lparr>gc_original = cp_graph cp, gc_rewritten = rewritten, gc_handles = hs, gc_executor = True\<rparr>)) b)"

definition capture_regions :: "backend_world \<Rightarrow> capture \<Rightarrow> bool \<Rightarrow> graph_callable bact" where
  "capture_regions bw cp inductor =
     (if cp_needs_autograd cp
      then andthen (exclude ''requires_grad'') (\<lambda>_.
        give (Inr \<lparr>gc_original = cp_graph cp, gc_rewritten = None, gc_handles = [], gc_executor = False\<rparr>))
      else andthen (give (cp_report cp)) (\<lambda>(exclusions, candidates).
        andthen (for_each exclude exclusions) (\<lambda>_.
        andthen (rewrite bw (cp_graph cp) candidates) (\<lambda>(rewritten, hs).
          if inductor then compile_executor cp rewritten hs
          else give (Inr \<lparr>gc_original = cp_graph cp, gc_rewritten = rewritten, gc_handles = hs, gc_executor = False\<rparr>)))))"

definition capture_graph :: "backend_world \<Rightarrow> capture \<Rightarrow> graph_callable bact" where
  "capture_graph bw cp = andthen (require_backend bw) (\<lambda>_.
     andthen (give (cp_version cp)) (\<lambda>_.
     andthen (count_backend (increment ''dynamo_compiles'' 1)) (\<lambda>_.
     andthen (observe bk_inductor) (\<lambda>inductor.
       if inductor then require_inference (cp_grad_enabled cp) (capture_regions bw cp True)
       else capture_regions bw cp False))))"

text \<open>\<open>GraphCallable.__call__\<close>: which program runs.\<close>

datatype ran = Executor | Ran "gnode list"

definition run_callable :: "backend_world \<Rightarrow> bool \<Rightarrow> bool \<Rightarrow> graph_callable \<Rightarrow> ran bact" where
  "run_callable bw grad autograd gc =
     (if gc_executor gc
      then andthen (require_backend bw) (\<lambda>_. require_inference grad
        (andthen (count_backend (increment ''inductor_executions'' 1)) (\<lambda>_. give (Inr Executor))))
      else give (Inr (Ran (case gc_rewritten gc of None \<Rightarrow> gc_original gc
        | Some g \<Rightarrow> if autograd then gc_original gc else g))))"

definition release_callable :: "graph_callable \<Rightarrow> backend \<Rightarrow> graph_callable \<times> backend" where
  "release_callable gc b = (gc\<lparr>gc_handles := []\<rparr>, fold release_handle (gc_handles gc) b)"

text \<open>\<open>close\<close>: every live entry is closed and its handle released, then the runtime the backend owns.\<close>

definition close_backend :: "backend_world \<Rightarrow> unit bact" where
  "close_backend bw = andthen (check_backend_process bw) (\<lambda>_.
     andthen (observe bk_live) (\<lambda>live.
     andthen (update (\<lambda>b. b\<lparr>bk_closed := True, bk_event := True, bk_live := []\<rparr>)) (\<lambda>_.
     andthen (update (fold (\<lambda>(h, i). release_handle h \<circ> close_object i) live)) (\<lambda>_ b.
       case (if bk_owns_runtime b then bk_runtime b else None) of
         None \<Rightarrow> (Inr (), b)
       | Some ta \<Rightarrow> (let (r, ta) = close_adapter (bw_pid bw) ta in (r, b\<lparr>bk_runtime := Some ta\<rparr>))))))"

text \<open>The backend's own part of \<open>stats\<close>.\<close>

record backend_stats =
  bs_replaced_regions :: nat
  bs_live_handles :: nat
  bs_closed :: bool
  bs_inductor :: bool
  bs_cache_entries :: nat
  bs_cache_rejections :: nat

definition stats :: "backend_world \<Rightarrow> backend_stats bact" where
  "stats bw = andthen (check_backend_process bw) (\<lambda>_. observe (\<lambda>b.
     \<lparr>bs_replaced_regions = bk_replaced b, bs_live_handles = length (bk_live b), bs_closed = bk_closed b,
      bs_inductor = bk_inductor b, bs_cache_entries = length (ac_entries (bk_cache b)),
      bs_cache_rejections = length (ac_rejections (bk_cache b))\<rparr>))"

text \<open>\<open>eager_entry\<close>: an entry that is never registered, under a descriptive name.\<close>

definition eager_entry :: "backend_world \<Rightarrow> live \<Rightarrow> string option \<Rightarrow> entry bact" where
  "eager_entry bw src direction = andthen (require_backend bw) (\<lambda>_.
     let dir = (case direction of Some d \<Rightarrow> d | None \<Rightarrow> if dv_type (lv_device src) = ''cpu'' then ''h2d'' else ''d2h'');
         rank = length (lv_shape src)
     in andthen (give (identity_recipe rank (lv_dtype src) dir)) (\<lambda>r.
        andthen (compile_recipe bw r) (\<lambda>a.
        andthen (backend_runtime bw) (\<lambda>_ b.
          let en = \<lparr>en_identity = length (bk_entries b), en_compiled = a, en_symbolic = [], en_guards = [], en_indexed = False,
             en_handle = Some (msg [''eager/'', dir, ''/'', lv_dtype src, ''/rank'', py_str (int rank)]),
             en_closed = False, en_event_set = bk_event b\<rparr>
          in (Inr en, b\<lparr>bk_entries := bk_entries b @ [en]\<rparr>)))))"

end
