(* ===== verification/Capture.thy ===== *)
theory Capture
  imports Backend
begin

text \<open>
  What a \<open>RelocBackend\<close> keeps: the invariant of its tables and that every operation preserves it, exceptions
  included; and what a rewriting pass does to a captured graph.
\<close>

section \<open>The invariant\<close>

text \<open>
  The registry and the live table agree, every live handle names one open entry of that name, a cached
  artifact is the compiler's answer for the recipe of its key, and a closed backend owns nothing.
\<close>

definition backend_ok :: "backend_world \<Rightarrow> backend \<Rightarrow> bool" where
  "backend_ok bw b \<longleftrightarrow> cache_ok (bk_cache b) \<and> ac_pending (bk_cache b) = [] \<and>
     (\<forall>k a. map_of (ac_entries (bk_cache b)) k = Some a \<longrightarrow> bw_compile bw (ak_recipe k) = Inr a) \<and>
     (\<forall>k x. map_of (ac_rejections (bk_cache b)) k = Some x \<longrightarrow> bw_compile bw (ak_recipe k) = Inl (UnsupportedRecipe (fst x) (snd x))) \<and>
     diagnostics_ok (bk_diagnostics b) \<and> registry_ok (bk_registry b) \<and> od_ok (bk_live b) \<and>
     map_of (rg_entries (bk_registry b)) = map_of (bk_live b) \<and>
     (\<forall>h i. map_of (bk_live b) h = Some i \<longrightarrow> i < length (bk_entries b) \<and>
        en_handle (bk_entries b ! i) = Some h \<and> \<not> en_closed (bk_entries b ! i)) \<and>
     (bk_event b \<longleftrightarrow> bk_closed b) \<and> (bk_closed b \<longrightarrow> bk_live b = []) \<and>
     (case transfer_configuration (bk_resources b) (bk_options b) of Inl _ \<Rightarrow> False | Inr _ \<Rightarrow> True)"

lemma backend_okD:
  assumes "backend_ok bw b"
  shows "cache_ok (bk_cache b)" "ac_pending (bk_cache b) = []"
    "map_of (ac_entries (bk_cache b)) k = Some a \<Longrightarrow> bw_compile bw (ak_recipe k) = Inr a"
    "map_of (ac_rejections (bk_cache b)) k = Some x \<Longrightarrow> bw_compile bw (ak_recipe k) = Inl (UnsupportedRecipe (fst x) (snd x))"
    "diagnostics_ok (bk_diagnostics b)" "registry_ok (bk_registry b)" "od_ok (bk_live b)"
    "map_of (rg_entries (bk_registry b)) = map_of (bk_live b)"
    "map_of (bk_live b) h = Some i \<Longrightarrow> i < length (bk_entries b)"
    "map_of (bk_live b) h = Some i \<Longrightarrow> en_handle (bk_entries b ! i) = Some h"
    "map_of (bk_live b) h = Some i \<Longrightarrow> \<not> en_closed (bk_entries b ! i)"
    "bk_event b \<longleftrightarrow> bk_closed b" "bk_closed b \<Longrightarrow> bk_live b = []"
    "\<exists>opts. transfer_configuration (bk_resources b) (bk_options b) = Inr opts"
  using assms unfolding backend_ok_def by (blast | simp split: sum.splits)+

text \<open>Updates of the fields the invariant does not mention, and of the diagnostics.\<close>

lemma backend_ok_frame:
  assumes "backend_ok bw b" and "bk_cache b' = bk_cache b" and "diagnostics_ok (bk_diagnostics b')"
    and "bk_registry b' = bk_registry b" and "bk_entries b' = bk_entries b" and "bk_live b' = bk_live b"
    and "bk_event b' = bk_event b" and "bk_closed b' = bk_closed b"
    and "bk_resources b' = bk_resources b" and "bk_options b' = bk_options b"
  shows "backend_ok bw b'"
  using assms unfolding backend_ok_def by auto

lemma keeps_diagnostics [keep_intros]:
  assumes "\<And>d d'. diagnostics_ok d \<Longrightarrow> f d = Inr d' \<Longrightarrow> diagnostics_ok d'"
  shows "keeps (backend_ok bw) (count_backend f)"
  unfolding count_backend_def
proof (rule keeps_modify)
  fix b b' assume b: "backend_ok bw b" and "res_bind (f (bk_diagnostics b)) (\<lambda>d. Inr (b\<lparr>bk_diagnostics := d\<rparr>)) = Inr b'"
  then obtain d where "f (bk_diagnostics b) = Inr d" "b' = b\<lparr>bk_diagnostics := d\<rparr>" by auto
  with assms [OF backend_okD(5) [OF b]] show "backend_ok bw b'" by (intro backend_ok_frame [OF b]) simp_all
qed

lemma record_exclusion_ok: "diagnostics_ok d \<Longrightarrow> diagnostics_ok (record_exclusion reason d)"
  by (auto simp: diagnostics_ok_def record_exclusion_def)

lemma keeps_exclude [keep_intros]: "keeps (backend_ok bw) (exclude reason)"
  unfolding exclude_def by (intro keeps_diagnostics) (auto simp: record_exclusion_ok)

lemma keeps_increment [keep_intros]: "keeps (backend_ok bw) (count_backend (increment name n))"
  by (intro keeps_diagnostics) (rule increment_ok)

lemma keeps_process [keep_intros]: "keeps P (check_backend_process bw)"
  unfolding check_backend_process_def by (intro keep_intros)

lemma keeps_require [keep_intros]: "keeps P (require_backend bw)"
  unfolding require_backend_def by (intro keep_intros) (auto simp: ensure_def split: if_splits)

lemma keeps_runtime [keep_intros]: "keeps (backend_ok bw) (backend_runtime bw)"
  unfolding backend_runtime_def
proof (intro keep_intros)
  fix b b' assume b: "backend_ok bw b" and "(case bk_runtime b of Some _ \<Rightarrow> Inr b
       | None \<Rightarrow> res_bind (new_adapter (bw_pid bw) (bk_resources b) (bw_borrowed bw) (bk_options b) (bw_module bw)) (\<lambda>ta.
           Inr (b\<lparr>bk_runtime := Some ta\<rparr>))) = Inr b'"
  then have "b' = b \<or> (\<exists>ta. b' = b\<lparr>bk_runtime := Some ta\<rparr>)" by (auto split: option.splits)
  then show "backend_ok bw b'" using backend_ok_frame [OF b] backend_okD(5) [OF b] b by fastforce
qed

lemma keeps_for_exclusions [keep_intros]: "keeps (backend_ok bw) (for_each exclude xs)"
  by (intro keep_intros)

lemma backend_counters: "''cache_hits'' \<in> set counter_names" "''plan_compiles'' \<in> set counter_names"
  "''dynamo_compiles'' \<in> set counter_names" "''inductor_compiles'' \<in> set counter_names"
  "''inductor_compile_failures'' \<in> set counter_names" "''inductor_executions'' \<in> set counter_names"
  by (simp_all add: counter_names_def)

section \<open>Compilation\<close>

lemma settled_entries:
  assumes ok: "cache_ok c" and e: "map_of (ac_entries (settle key r c)) k = Some a"
  shows "map_of (ac_entries c) k = Some a \<or> (k = key \<and> r = Compiled a)"
proof (cases r)
  case (Compiled x)
  have "od_ok (od_set key x (ac_entries c))" using cache_okD(2) [OF ok] by blast
  then have "map_of (od_trim (ac_capacity c) (od_touch key (od_set key x (ac_entries c)))) \<subseteq>\<^sub>m (map_of (ac_entries c))(key \<mapsto> x)"
    using od_trim_subset [OF od_ok_touch] by (metis od_touch_lookup od_set_lookup)
  moreover have "map_of (od_trim (ac_capacity c) (od_touch key (od_set key x (ac_entries c)))) k = Some a"
    using e by (simp add: Compiled settle_def Let_def)
  ultimately have "((map_of (ac_entries c))(key \<mapsto> x)) k = Some a" by (simp add: map_le_def dom_def)
  then show ?thesis using Compiled by (simp split: if_splits)
qed (use e in \<open>auto simp: settle_def Let_def\<close>)

lemma settled_rejections:
  assumes ok: "cache_ok c" and e: "map_of (ac_rejections (settle key r c)) k = Some x"
  shows "map_of (ac_rejections c) k = Some x \<or> (k = key \<and> r = Declined (fst x) (snd x))"
proof (cases r)
  case (Declined u v)
  have "od_ok (od_set key (u, v) (ac_rejections c))" using cache_okD(3) [OF ok] by blast
  then have "map_of (od_trim (ac_capacity c) (od_set key (u, v) (ac_rejections c))) \<subseteq>\<^sub>m (map_of (ac_rejections c))(key \<mapsto> (u, v))"
    using od_trim_subset by (metis od_set_lookup)
  moreover have "map_of (od_trim (ac_capacity c) (od_set key (u, v) (ac_rejections c))) k = Some x"
    using e by (simp add: Declined settle_def Let_def)
  ultimately have "((map_of (ac_rejections c))(key \<mapsto> (u, v))) k = Some x" by (simp add: map_le_def dom_def)
  then show ?thesis using Declined by (auto split: if_splits)
qed (use e in \<open>auto simp: settle_def Let_def\<close>)

text \<open>The cache is transparent: the answer is the compiler's, whether it was kept or asked for.\<close>

lemma cached_compile_answers:
  assumes ok: "backend_ok bw b" and key: "ak_recipe key = r"
  shows "\<exists>c d. cached_compile bw key r b = (bw_compile bw r, b\<lparr>bk_cache := c, bk_diagnostics := d\<rparr>) \<and>
    backend_ok bw (b\<lparr>bk_cache := c, bk_diagnostics := d\<rparr>)"
proof -
  note D = backend_okD [OF ok]
  obtain p cp where p: "probe key (bk_cache b) = (p, cp)" by (metis surj_pair)
  have cp: "cache_ok cp" using probe_ok [OF D(1) p] .
  have hits: "\<exists>d. increment ''cache_hits'' 1 (bk_diagnostics b) = Inr d \<and> diagnostics_ok d"
    and compiles: "\<exists>d. increment ''plan_compiles'' 1 (bk_diagnostics b) = Inr d \<and> diagnostics_ok d"
    using increment_known_ok [OF D(5) backend_counters(1), of 1] increment_known_ok [OF D(5) backend_counters(2), of 1] by blast+
  have same: "backend_ok bw (b\<lparr>bk_cache := c, bk_diagnostics := d\<rparr>)"
    if "cache_ok c" "ac_pending c = []" "diagnostics_ok d"
      "\<And>k a. map_of (ac_entries c) k = Some a \<Longrightarrow> bw_compile bw (ak_recipe k) = Inr a"
      "\<And>k x. map_of (ac_rejections c) k = Some x \<Longrightarrow> bw_compile bw (ak_recipe k) = Inl (UnsupportedRecipe (fst x) (snd x))"
    for c d using ok that unfolding backend_ok_def by simp
  show ?thesis
  proof (cases p)
    case (Hit a)
    then have e: "map_of (ac_entries (bk_cache b)) key = Some a" "cp = bk_cache b\<lparr>ac_entries := od_touch key (ac_entries (bk_cache b))\<rparr>"
      using p by (auto simp: probe_def split: option.splits if_splits prod.splits)
    obtain d where d: "increment ''cache_hits'' 1 (bk_diagnostics b) = Inr d" "diagnostics_ok d" using hits by blast
    have "backend_ok bw (b\<lparr>bk_cache := cp, bk_diagnostics := d\<rparr>)"
      by (rule same [OF cp _ d(2)]) (use e D(2-4) in \<open>auto simp: od_touch_lookup [OF cache_okD(2) [OF D(1)]]\<close>)
    moreover have "cached_compile bw key r b = (bw_compile bw r, b\<lparr>bk_cache := cp, bk_diagnostics := d\<rparr>)"
      using p Hit d(1) D(3) [OF e(1)] key by (simp add: cached_compile_def get_or_compile_def)
    ultimately show ?thesis by blast
  next
    case (Rejected reason detail)
    then have e: "map_of (ac_rejections (bk_cache b)) key = Some (reason, detail)"
        "cp = bk_cache b\<lparr>ac_rejections := od_touch key (ac_rejections (bk_cache b))\<rparr>"
      using p by (auto simp: probe_def split: option.splits if_splits prod.splits)
    obtain d where d: "increment ''cache_hits'' 1 (bk_diagnostics b) = Inr d" "diagnostics_ok d" using hits by blast
    have "backend_ok bw (b\<lparr>bk_cache := cp, bk_diagnostics := d\<rparr>)"
      by (rule same [OF cp _ d(2)]) (use e D(2-4) in \<open>auto simp: od_touch_lookup [OF cache_okD(3) [OF D(1)]]\<close>)
    moreover have "cached_compile bw key r b = (bw_compile bw r, b\<lparr>bk_cache := cp, bk_diagnostics := d\<rparr>)"
      using p Rejected d(1) D(4) [OF e(1)] key by (simp add: cached_compile_def get_or_compile_def)
    ultimately show ?thesis by blast
  next
    case Claimed
    let ?c = "settle key (outcome_of (bw_compile bw r)) cp"
    have e: "cp = bk_cache b\<lparr>ac_pending := [key]\<rparr>"
      using p Claimed D(2) by (auto simp: probe_def split: option.splits if_splits prod.splits)
    obtain d where d: "increment ''plan_compiles'' 1 (bk_diagnostics b) = Inr d" "diagnostics_ok d" using compiles by blast
    have "backend_ok bw (b\<lparr>bk_cache := ?c, bk_diagnostics := d\<rparr>)"
    proof (rule same [OF settle_ok [OF cp] _ d(2)])
      show "bw_compile bw (ak_recipe k) = Inr a" if "map_of (ac_entries ?c) k = Some a" for k a
        using settled_entries [OF cp that] D(3) [of k a] e key by (auto simp: outcome_of_def split: sum.splits exn.splits)
      show "bw_compile bw (ak_recipe k) = Inl (UnsupportedRecipe (fst x) (snd x))" if "map_of (ac_rejections ?c) k = Some x" for k x
        using settled_rejections [OF cp that] D(4) [of k x] e key by (auto simp: outcome_of_def split: sum.splits exn.splits)
    qed (simp_all add: e)
    moreover have "cached_compile bw key r b = (bw_compile bw r, b\<lparr>bk_cache := ?c, bk_diagnostics := d\<rparr>)"
      using p Claimed d(1) by (simp add: cached_compile_def get_or_compile_def)
    ultimately show ?thesis by blast
  next
    case Busy
    then show ?thesis using p D(2) by (auto simp: probe_def split: option.splits if_splits prod.splits)
  qed
qed

lemma runtime_frame:
  assumes ok: "backend_ok bw b" and p: "bw_same_process bw" "\<not> bk_closed b"
  shows "\<exists>ta. backend_runtime bw b = (Inr (), b\<lparr>bk_runtime := Some ta\<rparr>) \<and> backend_ok bw (b\<lparr>bk_runtime := Some ta\<rparr>)"
proof -
  have frame: "backend_ok bw (b\<lparr>bk_runtime := Some ta\<rparr>)" for ta
    by (rule backend_ok_frame [OF ok]) (simp_all add: backend_okD(5) [OF ok])
  show ?thesis
  proof (cases "bk_runtime b")
    case None
    obtain opts where "transfer_configuration (bk_resources b) (bk_options b) = Inr opts" using backend_okD(14) [OF ok] ..
    with None p frame show ?thesis
      by (auto simp: backend_runtime_def check_backend_process_def require_backend_def action_defs new_adapter_def)
  next
    case (Some ta)
    then have "b\<lparr>bk_runtime := Some ta\<rparr> = b" by simp
    with Some p ok show ?thesis
      using frame [of ta] by (intro exI [of _ ta]) (simp add: backend_runtime_def check_backend_process_def require_backend_def action_defs)
  qed
qed

text \<open>An open backend of this process answers \<open>compile_recipe\<close> as the compiler would.\<close>

definition usable :: "backend_world \<Rightarrow> backend \<Rightarrow> bool" where
  "usable bw b \<longleftrightarrow> bw_same_process bw \<and> \<not> bk_closed b \<and> (case bw_compiler_identity bw of Inl _ \<Rightarrow> False | Inr _ \<Rightarrow> True)"

definition same_handles :: "backend \<Rightarrow> backend \<Rightarrow> bool" where
  "same_handles b b' \<longleftrightarrow> bk_registry b' = bk_registry b \<and> bk_entries b' = bk_entries b \<and> bk_live b' = bk_live b \<and>
     bk_closed b' = bk_closed b \<and> bk_event b' = bk_event b \<and> bk_replaced b' = bk_replaced b \<and> bk_inductor b' = bk_inductor b"

lemma compile_recipe_answers:
  assumes ok: "backend_ok bw b" and u: "usable bw b"
  shows "\<exists>b'. compile_recipe bw r b = (bw_compile bw r, b') \<and> backend_ok bw b' \<and> usable bw b' \<and> same_handles b b'"
proof -
  from u obtain i where p: "bw_same_process bw" "\<not> bk_closed b" and i: "bw_compiler_identity bw = Inr i"
    by (auto simp: usable_def split: sum.splits)
  obtain ta where rt: "backend_runtime bw b = (Inr (), b\<lparr>bk_runtime := Some ta\<rparr>)" and ok1: "backend_ok bw (b\<lparr>bk_runtime := Some ta\<rparr>)"
    using runtime_frame [OF ok p] by blast
  let ?key = "artifact_key r i (bw_capability bw) frontend_identity None True"
  obtain c d where cc: "cached_compile bw ?key r (b\<lparr>bk_runtime := Some ta\<rparr>) =
      (bw_compile bw r, b\<lparr>bk_runtime := Some ta, bk_cache := c, bk_diagnostics := d\<rparr>)"
    and ok2: "backend_ok bw (b\<lparr>bk_runtime := Some ta, bk_cache := c, bk_diagnostics := d\<rparr>)"
    using cached_compile_answers [OF ok1, of ?key r] by (auto simp: artifact_key_def)
  have "compile_recipe bw r b = (bw_compile bw r, b\<lparr>bk_runtime := Some ta, bk_cache := c, bk_diagnostics := d\<rparr>)"
    using p i rt cc by (simp add: compile_recipe_def check_backend_process_def require_backend_def action_defs)
  with ok2 p i show ?thesis
    by (intro exI [of _ "b\<lparr>bk_runtime := Some ta, bk_cache := c, bk_diagnostics := d\<rparr>"]) (simp add: usable_def same_handles_def)
qed

lemma keeps_compile [keep_intros]: "keeps (backend_ok bw) (compile_recipe bw r)"
proof -
  have "keeps (backend_ok bw) (cached_compile bw (artifact_key r i c f None True) r)" for i c f
    unfolding keeps_def using cached_compile_answers [of bw _ "artifact_key r i c f None True" r]
    by (metis artifact_key_def compile_key.select_convs(1) snd_conv)
  then show ?thesis unfolding compile_recipe_def by (intro keep_intros)
qed

section \<open>Handles\<close>

lemma register_entry_ok:
  assumes ok: "backend_ok bw b" and run: "register_entry bw a c b = (r, b')" and opened: "\<not> bk_closed b"
  shows "\<exists>h. r = Inr h \<and> backend_ok bw b' \<and> h \<notin> set (od_keys (bk_live b)) \<and>
    bk_live b' = bk_live b @ [(h, length (bk_entries b))] \<and>
    bk_entries b' = bk_entries b @ [(make_entry a c (length (bk_entries b)))\<lparr>en_handle := Some h\<rparr>] \<and>
    bk_closed b' = bk_closed b \<and> bk_replaced b' = bk_replaced b \<and> bk_inductor b' = bk_inductor b"
proof -
  note D = backend_okD [OF ok]
  let ?i = "length (bk_entries b)"
  obtain rn rg where reg: "register (bw_token bw (rg_next (bk_registry b))) ?i (bk_registry b) = (rn, rg)" by (metis surj_pair)
  let ?h = "rn_handle rn"
  have "?h \<notin> set (od_keys (rg_entries (bk_registry b)))" using register_fresh [OF D(6) reg] .
  then have none: "map_of (bk_live b) ?h = None" by (metis D(8) lookup_none_keys)
  then have fresh: "?h \<notin> set (od_keys (bk_live b))" by (simp add: lookup_none_keys)
  have live: "od_set ?h ?i (bk_live b) = bk_live b @ [(?h, ?i)]" by (rule od_set_new [OF fresh])
  have rgm: "map_of (rg_entries rg) = (map_of (bk_live b))(?h \<mapsto> ?i)" using reg D(8) by (auto simp: register_def Let_def)
  have b': "r = Inr ?h" "b' = b\<lparr>bk_registry := rg, bk_entries := bk_entries b @ [(make_entry a c ?i)\<lparr>en_handle := Some ?h\<rparr>],
      bk_live := od_set ?h ?i (bk_live b)\<rparr>" using run reg by (simp_all add: register_entry_def Let_def)
  have "backend_ok bw b'"
    unfolding backend_ok_def
  proof (intro conjI)
    show "registry_ok (bk_registry b')" using register_ok [OF D(6) reg] by (simp add: b')
    show "od_ok (bk_live b')" using D(7) by (auto simp: b')
    show "map_of (rg_entries (bk_registry b')) = map_of (bk_live b')" by (simp add: b' rgm)
    show "\<forall>h i. map_of (bk_live b') h = Some i \<longrightarrow> i < length (bk_entries b') \<and>
        en_handle (bk_entries b' ! i) = Some h \<and> \<not> en_closed (bk_entries b' ! i)"
      using D(9-11) by (auto simp: b' nth_append make_entry_def less_SucI)
    show "bk_closed b' \<longrightarrow> bk_live b' = []" using opened by (simp add: b')
  qed (use ok in \<open>simp_all add: b' backend_ok_def\<close>)
  with fresh live show ?thesis by (simp add: b')
qed

lemma release_live: "bk_live (release_handle h b) = od_del h (bk_live b)"
  by (simp add: release_handle_def)

lemma release_handle_ok:
  assumes ok: "backend_ok bw b"
  shows "backend_ok bw (release_handle h b)"
proof -
  note D = backend_okD [OF ok]
  have "registry_ok (snd (release_registration \<lparr>rn_handle = h, rn_live = True\<rparr> (bk_registry b)))"
    using release_ok [OF D(6)] by (metis prod.collapse)
  moreover have "map_of (rg_entries (snd (release_registration \<lparr>rn_handle = h, rn_live = True\<rparr> (bk_registry b)))) =
      map_of (od_del h (bk_live b))" using D(8) by (simp add: release_registration_def)
  moreover have "od_ok (od_del h (bk_live b))" using D(7) by blast
  moreover have "map_of (od_del h (bk_live b)) g = Some i \<longrightarrow> map_of (bk_live b) g = Some i" for g i by simp
  moreover have "od_del h [] = ([] :: (string, nat) odict)" by (simp add: od_del_def)
  ultimately show ?thesis using ok unfolding backend_ok_def release_handle_def by auto
qed

lemma drop_registration_ok:
  assumes ok: "backend_ok bw b"
  shows "backend_ok bw (drop_registration h b)"
proof (cases "map_of (bk_live b) h")
  case None
  then show ?thesis using release_handle_ok [OF ok] by (simp add: drop_registration_def)
next
  case (Some i)
  have other: "map_of (bk_live b) g = Some j \<Longrightarrow> g \<noteq> h \<Longrightarrow> j \<noteq> i" for g j
    using backend_okD(10) [OF ok, of g j] backend_okD(10) [OF ok Some] by auto
  have untouched: "(bk_entries b)[i := x] ! j = bk_entries b ! j" if "map_of (bk_live b) g = Some j" "g \<noteq> h" for g j x
    using other [OF that] by simp
  have "backend_ok bw (release_handle h b)" by (rule release_handle_ok [OF ok])
  then show ?thesis using Some untouched backend_okD(9-11) [OF ok] unfolding backend_ok_def
    by (auto simp: drop_registration_def release_handle_def close_object_def close_entry_def)
qed

lemma fold_ok: "(\<And>x s. P s \<Longrightarrow> P (f x s)) \<Longrightarrow> P s \<Longrightarrow> P (fold f xs s)"
  by (induction xs arbitrary: s) auto

lemma keeps_fold [keep_intros]: "(\<And>x s. P s \<Longrightarrow> P (f x s)) \<Longrightarrow> keeps P (update (fold f xs))"
  by (intro keeps_update) (rule fold_ok)

lemma require_backend_cases:
  "require_backend bw b = (if \<not> bw_same_process bw then (Inl (RuntimeErr ''process_mismatch: RelocBackend belongs to another process''), b)
     else if bk_closed b then (Inl (RuntimeErr ''RelocBackend is closed''), b) else (Inr (), b))"
  by (simp add: require_backend_def check_backend_process_def action_defs)

lemma keeps_register [keep_intros]:
  assumes "\<And>h. keeps (backend_ok bw) (f h)"
  shows "keeps (backend_ok bw) (andthen (require_backend bw) (\<lambda>_. andthen (register_entry bw a c) f))"
proof -
  have "backend_ok bw (snd (andthen (register_entry bw a c) f b))" if b: "backend_ok bw b" "\<not> bk_closed b" for b
  proof -
    obtain r b1 where run: "register_entry bw a c b = (r, b1)" by (metis surj_pair)
    with register_entry_ok [OF b(1) run b(2)] assms show ?thesis by (auto simp: andthen_def keeps_def)
  qed
  then show ?thesis by (auto simp: keeps_def andthen_def [of "require_backend bw"] require_backend_cases)
qed

lemma keeps_skip [keep_intros]: "keeps (backend_ok bw) (skip_region reason p)"
  unfolding skip_region_def by (intro keep_intros)

lemma keeps_apply [keep_intros]: "keeps (backend_ok bw) (apply_region bw g0 c a dev p)"
  unfolding apply_region_def by (cases "current_copy g0 p") (auto intro!: keep_intros)

lemma keeps_replace [keep_intros]: "keeps (backend_ok bw) (replace_candidate bw g0 c a p)"
  unfolding replace_candidate_def Let_def
  by (cases "current_copy g0 p") (auto intro!: keep_intros split: option.splits)

lemma keeps_candidate [keep_intros]: "keeps (backend_ok bw) (rewrite_candidate bw g0 c p)"
  unfolding keeps_def
proof (intro allI impI)
  fix b assume b: "backend_ok bw b"
  obtain r b1 where run: "compile_recipe bw (rc_recipe c) b = (r, b1)" by (metis surj_pair)
  have ok: "backend_ok bw b1" by (rule action_keepsD [OF keeps_compile b run])
  have skip: "backend_ok bw (snd (skip_region reason p b))" if "backend_ok bw b" for reason b
    using keeps_skip that unfolding keeps_def by blast
  have rep: "backend_ok bw (snd (replace_candidate bw g0 c a p b))" if "backend_ok bw b" for a b
    using keeps_replace that unfolding keeps_def by blast
  show "backend_ok bw (snd (rewrite_candidate bw g0 c p b))"
    using run ok b skip rep by (auto simp: rewrite_candidate_def split: option.splits sum.splits exn.splits)
qed

lemma keeps_replaced [keep_intros]: "keeps (backend_ok bw) (update (\<lambda>b. b\<lparr>bk_replaced := bk_replaced b + n\<rparr>))"
proof (rule keeps_update)
  fix b assume "backend_ok bw b"
  then show "backend_ok bw (b\<lparr>bk_replaced := bk_replaced b + n\<rparr>)"
    by (rule backend_ok_frame) (simp_all add: backend_okD(5) [OF \<open>backend_ok bw b\<close>])
qed

lemma keeps_if [keep_intros]: "(c \<Longrightarrow> keeps P m) \<Longrightarrow> (\<not> c \<Longrightarrow> keeps P n) \<Longrightarrow> keeps P (if c then m else n)"
  by simp

lemma keeps_rewrite [keep_intros]: "keeps (backend_ok bw) (rewrite bw g0 cs)"
  unfolding rewrite_def Let_def by (intro keep_intros)

lemma keeps_inference [keep_intros]: "keeps P m \<Longrightarrow> keeps P (require_inference grad m)"
  unfolding require_inference_def by (intro keep_intros)

lemma keeps_executor [keep_intros]: "keeps (backend_ok bw) (compile_executor cp rewritten hs)"
proof -
  have "keeps (backend_ok bw) (andthen (count_backend (increment ''inductor_compile_failures'' 1)) (\<lambda>_.
       andthen (update (fold drop_registration hs)) (\<lambda>_. give (Inl e))))" for e :: exn
    by (intro keep_intros drop_registration_ok)
  moreover have "keeps (backend_ok bw) (andthen (count_backend (increment ''inductor_compiles'' 1)) (\<lambda>_. give r))" for r :: "graph_callable res"
    by (intro keep_intros)
  ultimately show ?thesis by (cases "cp_executor cp") (simp_all add: compile_executor_def keeps_def)
qed

text \<open>Captures keep the invariant.\<close>

lemma keeps_regions [keep_intros]: "keeps (backend_ok bw) (capture_regions bw cp inductor)"
  unfolding capture_regions_def by (auto intro!: keep_intros split: prod.splits)

lemma keeps_capture [keep_intros]: "keeps (backend_ok bw) (capture_graph bw cp)"
  unfolding capture_graph_def by (intro keep_intros)

lemma keeps_run [keep_intros]: "keeps (backend_ok bw) (run_callable bw grad autograd gc)"
  unfolding run_callable_def by (auto intro!: keep_intros)

lemma release_callable_ok: "backend_ok bw b \<Longrightarrow> backend_ok bw (snd (release_callable gc b))"
  unfolding release_callable_def by (simp add: fold_ok release_handle_ok)

section \<open>Closing\<close>

lemma close_walk:
  "let b' = fold (\<lambda>(h, i). release_handle h \<circ> close_object i) xs b in
     map_of (rg_entries (bk_registry b')) = (\<lambda>h. if h \<in> fst ` set xs then None else map_of (rg_entries (bk_registry b)) h) \<and>
     (registry_ok (bk_registry b) \<longrightarrow> registry_ok (bk_registry b')) \<and>
     (bk_live b = [] \<longrightarrow> bk_live b' = []) \<and> bk_cache b' = bk_cache b \<and> bk_diagnostics b' = bk_diagnostics b \<and>
     bk_event b' = bk_event b \<and> bk_closed b' = bk_closed b \<and> bk_resources b' = bk_resources b \<and> bk_options b' = bk_options b \<and>
     bk_owns_runtime b' = bk_owns_runtime b \<and> bk_runtime b' = bk_runtime b \<and> bk_replaced b' = bk_replaced b"
proof (induction xs arbitrary: b)
  case (Cons x xs)
  obtain h i where x: "x = (h, i)" by (cases x)
  let ?b = "release_handle h (close_object i b)"
  have reg: "registry_ok (bk_registry b) \<longrightarrow> registry_ok (bk_registry ?b)"
    using release_ok [of "bk_registry b" "\<lparr>rn_handle = h, rn_live = True\<rparr>"]
    by (simp add: release_handle_def close_object_def) (metis prod.collapse)
  have look: "map_of (rg_entries (bk_registry ?b)) = (map_of (rg_entries (bk_registry b)))(h := None)"
    by (simp add: release_handle_def close_object_def release_registration_def)
  have rest: "bk_live b = [] \<longrightarrow> bk_live ?b = []" "bk_cache ?b = bk_cache b" "bk_diagnostics ?b = bk_diagnostics b"
    "bk_event ?b = bk_event b" "bk_closed ?b = bk_closed b" "bk_resources ?b = bk_resources b" "bk_options ?b = bk_options b"
    "bk_owns_runtime ?b = bk_owns_runtime b" "bk_runtime ?b = bk_runtime b" "bk_replaced ?b = bk_replaced b"
    by (simp_all add: release_handle_def close_object_def od_del_def)
  show ?case using Cons.IH [of ?b] reg look rest by (auto simp: x Let_def fun_eq_iff)
qed (simp add: Let_def)

text \<open>Closing succeeds or fails with the runtime it owns, but the backend is closed and owns no handle either way.\<close>

lemma close_backend_spec:
  assumes ok: "backend_ok bw b" and pr: "bw_same_process bw" and run: "close_backend bw b = (r, b')"
  shows "backend_ok bw b' \<and> bk_closed b' \<and> bk_live b' = [] \<and> rg_entries (bk_registry b') = [] \<and>
    (\<forall>h. find_entry h b' = Inl (RuntimeErr (msg [''unknown or closed reloc_torch execution handle '', h])))"
proof -
  note D = backend_okD [OF ok]
  let ?b = "b\<lparr>bk_closed := True, bk_event := True, bk_live := []\<rparr>"
  define b1 where "b1 = fold (\<lambda>(h, i). release_handle h \<circ> close_object i) (bk_live b) ?b"
  note W = close_walk [of "bk_live b" ?b, folded b1_def, unfolded Let_def]
  have "map_of (rg_entries (bk_registry b1)) = (\<lambda>h. None)"
    using W D(8) by (auto simp: fun_eq_iff map_of_eq_None_iff)
  then have empty: "rg_entries (bk_registry b1) = []" by (metis map_of_eq_empty_iff)
  have reg: "registry_ok (bk_registry b1)" using W D(6) by simp
  have fields: "bk_cache b1 = bk_cache b" "bk_diagnostics b1 = bk_diagnostics b" "bk_live b1 = []" "bk_event b1" "bk_closed b1"
    "bk_resources b1 = bk_resources b" "bk_options b1 = bk_options b" using W by simp_all
  have ok1: "backend_ok bw b1"
    unfolding backend_ok_def fields(1-3,6-) empty using reg fields(4,5) D(1-5,14)
    by (auto simp: od_ok_def od_keys_def split: sum.splits)
  have b': "b' = b1 \<or> (\<exists>ta. b' = b1\<lparr>bk_runtime := Some ta\<rparr>)"
    using run pr by (auto simp: close_backend_def check_backend_process_def action_defs b1_def [symmetric] Let_def split: option.splits prod.splits if_splits)
  have "backend_ok bw (b1\<lparr>bk_runtime := Some ta\<rparr>)" for ta
    by (rule backend_ok_frame [OF ok1]) (simp_all add: backend_okD(5) [OF ok1])
  with b' ok1 have "backend_ok bw b'" by blast
  moreover have "bk_closed b' \<and> bk_live b' = [] \<and> rg_entries (bk_registry b') = []" using b' W empty by auto
  ultimately show ?thesis by (simp add: find_entry_def lookup_handle_def)
qed

end
