(* ===== verification/Rewriting.thy ===== *)
theory Rewriting
  imports Capture
begin

text \<open>
  What a whole rewriting pass computes: after every candidate the copy of the graph still evaluates, agrees
  with the captured graph on every node that is left, and keeps their order, so the next candidate finds the
  graph it was discovered on.
\<close>

section \<open>Candidates of one graph\<close>

text \<open>
  The candidates the importer delivers: members in graph order, no node a member of two candidates, and
  operands outside every member, before the tail.  A candidate the graph does not match is refused by the
  code and need not satisfy anything.
\<close>

definition candidate_shape :: "gnode list \<Rightarrow> string set \<Rightarrow> region \<Rightarrow> bool" where
  "candidate_shape g0 erased c \<longleftrightarrow> rc_members c \<noteq> [] \<and>
     rc_members c = filter (\<lambda>n. n \<in> set (rc_members c)) (map gn_name g0) \<and>
     operands c \<inter> erased = {} \<and>
     operands c \<subseteq> gn_name ` set (takeWhile (\<lambda>n. gn_name n \<noteq> last (rc_members c)) g0)"

definition candidates_shape :: "gnode list \<Rightarrow> region list \<Rightarrow> bool" where
  "candidates_shape g0 cs \<longleftrightarrow> distinct (map gn_name g0) \<and> distinct (concat (map rc_members cs)) \<and>
     (\<forall>c\<in>set cs. region_reason (map gn_name g0) g0 c = None \<longrightarrow>
        candidate_shape g0 (set (concat (map rc_members cs))) c)"

definition region_target :: "gnode list \<Rightarrow> region \<Rightarrow> device option" where
  "region_target g0 c = (case rc_device c of Some d \<Rightarrow> Some d | None \<Rightarrow> node_device g0 (last (rc_members c)))"

section \<open>One step\<close>

lemma before_filter:
  assumes "distinct xs" and "o' \<noteq> t" and "t \<in> set xs"
  shows "o' \<in> set (takeWhile (\<lambda>n. n \<noteq> t) xs) \<longleftrightarrow> filter (\<lambda>n. n \<in> {o', t}) xs = [o', t]"
  using assms
proof (induction xs)
  case (Cons x xs)
  have none: "filter (\<lambda>n. n \<in> {o', t}) xs = [] \<longleftrightarrow> o' \<notin> set xs \<and> t \<notin> set xs" by (auto simp: filter_empty_conv)
  have one: "filter (\<lambda>n. n \<in> {o', t}) xs = [t]" if "o' \<notin> set xs" "t \<in> set xs"
  proof -
    have "filter (\<lambda>n. n \<in> {o', t}) xs = filter (\<lambda>n. n = t) xs" using that by (auto intro!: filter_cong)
    also have "\<dots> = [t]" using that Cons.prems(1) by (induction xs) (auto simp: filter_empty_conv)
    finally show ?thesis .
  qed
  show ?case
  proof (cases "x = t")
    case True
    then show ?thesis using Cons.prems by (auto simp: Cons_eq_append_conv)
  next
    case False
    show ?thesis
    proof (cases "x = o'")
      case True
      then show ?thesis using Cons.prems one False by auto
    next
      case False
      then show ?thesis using Cons \<open>x \<noteq> t\<close> by auto
    qed
  qed
qed simp

lemma names_before:
  "gn_name ` set (takeWhile (\<lambda>n. gn_name n \<noteq> t) g) = set (takeWhile (\<lambda>n. n \<noteq> t) (map gn_name g))"
  by (simp add: takeWhile_map comp_def)

text \<open>\<open>D\<close> are the nodes erased so far.\<close>

definition copy_ok ::
  "'t semantics \<Rightarrow> gnode list \<Rightarrow> 't genv \<Rightarrow> string set \<Rightarrow> string list \<times> gnode list \<Rightarrow> bool" where
  "copy_ok S g0 env0 D u \<longleftrightarrow> (case u of (used, g) \<Rightarrow>
     distinct (map gn_name g) \<and> gn_name ` set g \<subseteq> set used \<and> gn_name ` set g0 \<subseteq> set used \<and> D \<subseteq> gn_name ` set g0 \<and>
     gn_name ` set g \<inter> D = {} \<and> gn_name ` set g0 - D \<subseteq> gn_name ` set g \<and>
     (\<forall>X. X \<subseteq> gn_name ` set g0 - D \<longrightarrow>
        filter (\<lambda>n. n \<in> X) (map gn_name g) = filter (\<lambda>n. n \<in> X) (map gn_name g0)) \<and>
     (\<exists>env. run_nodes S g Map.empty = Some env \<and> (\<forall>n\<in>gn_name ` set g0 - D. env n = env0 n)))"

lemma copy_ok_start:
  "distinct (map gn_name g0) \<Longrightarrow> run_nodes S g0 Map.empty = Some env0 \<Longrightarrow> copy_ok S g0 env0 {} (map gn_name g0, g0)"
  by (simp add: copy_ok_def)

lemma region_reason_names:
  assumes "region_reason names g c = None" and "set (rc_members c) \<subseteq> gn_name ` set g" and "rc_source c \<in> gn_name ` set g"
  shows "region_reason (map gn_name g) g c = None"
  using assms by (auto simp: region_reason_def split: if_splits)

lemma operands_named:
  assumes "candidate_shape g0 erased c" and "D \<subseteq> erased"
  shows "operands c \<subseteq> gn_name ` set g0 - D"
proof
  fix n assume "n \<in> operands c"
  then obtain k where "k \<in> set (takeWhile (\<lambda>n. gn_name n \<noteq> last (rc_members c)) g0)" "n = gn_name k" "n \<notin> erased"
    using assms(1) by (auto simp: candidate_shape_def)
  then show "n \<in> gn_name ` set g0 - D" using set_takeWhileD [of k] assms(2) by blast
qed

lemma copy_shape:
  assumes ok: "copy_ok S g0 env0 D (used, g)" and d0: "distinct (map gn_name g0)"
    and sh: "candidate_shape g0 erased c" and D: "D \<subseteq> erased" "set (rc_members c) \<inter> D = {}"
    and own: "set (rc_members c) \<subseteq> erased" and rr: "region_reason (map gn_name g0) g c = None"
  shows "region_shape g c"
proof -
  let ?M = "set (rc_members c)" and ?t = "last (rc_members c)" and ?N0 = "gn_name ` set g0"
  from sh have ne: "rc_members c \<noteq> []" and order: "rc_members c = filter (\<lambda>n. n \<in> ?M) (map gn_name g0)"
    and ops: "operands c \<inter> erased = {}" "operands c \<subseteq> gn_name ` set (takeWhile (\<lambda>n. gn_name n \<noteq> ?t) g0)"
    by (simp_all add: candidate_shape_def)
  from ok have d: "distinct (map gn_name g)" and left: "?N0 - D \<subseteq> gn_name ` set g"
    and kept: "\<And>X. X \<subseteq> ?N0 - D \<Longrightarrow> filter (\<lambda>n. n \<in> X) (map gn_name g) = filter (\<lambda>n. n \<in> X) (map gn_name g0)"
    by (simp_all add: copy_ok_def)
  have MN: "?M \<subseteq> ?N0 - D" using rr D(2) by (auto simp: region_reason_def split: if_splits)
  have oN: "operands c \<subseteq> ?N0 - D" by (rule operands_named [OF sh D(1)])
  have src: "rc_source c \<in> operands c" by (simp add: operands_def)
  have rr': "region_reason (map gn_name g) g c = None"
    using region_reason_names [OF rr] MN oN left src by blast
  have tM: "?t \<in> ?M" using ne by simp
  have "operands c \<subseteq> gn_name ` set (takeWhile (\<lambda>n. gn_name n \<noteq> ?t) g)"
  proof
    fix n assume n: "n \<in> operands c"
    have nt: "n \<noteq> ?t" using n tM own ops(1) by blast
    have "n \<in> set (takeWhile (\<lambda>n. n \<noteq> ?t) (map gn_name g0))" using n ops(2) unfolding names_before by blast
    moreover have "?t \<in> set (map gn_name g0)" using tM MN by auto
    ultimately have "filter (\<lambda>k. k \<in> {n, ?t}) (map gn_name g0) = [n, ?t]" using before_filter [OF d0 nt] by blast
    moreover have "{n, ?t} \<subseteq> ?N0 - D" using n oN tM MN by blast
    ultimately have "filter (\<lambda>k. k \<in> {n, ?t}) (map gn_name g) = [n, ?t]" using kept by metis
    moreover have "?t \<in> set (map gn_name g)" using tM MN left by auto
    ultimately show "n \<in> gn_name ` set (takeWhile (\<lambda>n. gn_name n \<noteq> ?t) g)"
      unfolding names_before using before_filter [OF d nt] by blast
  qed
  moreover have "operands c \<inter> ?M = {}" using ops(1) own by blast
  moreover have "rc_members c = filter (\<lambda>n. n \<in> ?M) (map gn_name g)" using kept [OF MN] order by simp
  ultimately show ?thesis using ne d rr' by (simp add: region_shape_def)
qed

lemma copy_step:
  assumes ok: "copy_ok S g0 env0 D (used, g)" and d0: "distinct (map gn_name g0)"
    and sh: "candidate_shape g0 erased c" and D: "D \<subseteq> erased" "set (rc_members c) \<inter> D = {}"
    and own: "set (rc_members c) \<subseteq> erased" and rr: "region_reason (map gn_name g0) g c = None"
    and nm: "fresh_namer nm" and std: "standard_ops extents S" and fits: "artifact_fits a c"
    and rd: "\<forall>p\<in>set (cr_symbol_sources a). reads extents env0 c \<rho> p"
    and contract: "(case transfer_call a c h dev \<rho> env0 of (f, xs) \<Rightarrow> S f xs) = env0 (last (rc_members c))"
  shows "\<exists>g'. replace_region nm a c h dev used g = Inr g' \<and>
    copy_ok S g0 env0 (D \<union> set (rc_members c)) (map gn_name g' @ used, g')"
proof -
  let ?M = "set (rc_members c)" and ?N0 = "gn_name ` set g0"
  from ok obtain env where us: "gn_name ` set g \<subseteq> set used" "?N0 \<subseteq> set used" and DN: "D \<subseteq> ?N0"
    and apart: "gn_name ` set g \<inter> D = {}" and left: "?N0 - D \<subseteq> gn_name ` set g"
    and kept: "\<And>X. X \<subseteq> ?N0 - D \<Longrightarrow> filter (\<lambda>n. n \<in> X) (map gn_name g) = filter (\<lambda>n. n \<in> X) (map gn_name g0)"
    and run: "run_nodes S g Map.empty = Some env" and same: "\<And>n. n \<in> ?N0 - D \<Longrightarrow> env n = env0 n"
    unfolding copy_ok_def by auto
  have shape: "region_shape g c" by (rule copy_shape [OF ok d0 sh D own rr])
  have oN: "operands c \<subseteq> ?N0 - D" by (rule operands_named [OF sh D(1)])
  have MN: "?M \<subseteq> ?N0 - D" using rr D(2) by (auto simp: region_reason_def split: if_splits)
  have ops: "env m = env0 m" if "m \<in> operands c" for m using that oN same by blast
  have rd': "\<forall>p\<in>set (cr_symbol_sources a). reads extents env c \<rho> p"
    using rd reads_cong [where w = env and v = env0 and c = c, OF ops] by blast
  have tail: "last (rc_members c) \<in> ?N0 - D" using sh MN last_in_set unfolding candidate_shape_def by blast
  have contract': "(case transfer_call a c h dev \<rho> env of (f, xs) \<Rightarrow> S f xs) = env (last (rc_members c))"
    using contract transfer_call_cong [where w = env and v = env0 and c = c, OF ops] same [OF tail] by simp
  obtain g' env' where R: "replace_region nm a c h dev used g = Inr g' \<and> run_nodes S g' Map.empty = Some env' \<and>
    (\<forall>n\<in>gn_name ` set g - ?M. env' n = env n \<and> n \<in> gn_name ` set g') \<and>
    distinct (map gn_name g') \<and> gn_name ` set g' \<inter> ?M = {} \<and>
    (\<forall>X. X \<subseteq> gn_name ` set g - ?M \<longrightarrow>
      filter (\<lambda>n. n \<in> X) (map gn_name g') = filter (\<lambda>n. n \<in> X) (map gn_name g)) \<and>
    gn_name ` set g' \<inter> set used \<subseteq> gn_name ` set g"
    using replace_region_runs [OF nm std run shape fits rd' contract' us(1)] by (elim exE) (rule that, assumption)
  note rep = R [THEN conjunct1] and run' = R [THEN conjunct2, THEN conjunct1]
    and ag = R [THEN conjunct2, THEN conjunct2, THEN conjunct1, THEN bspec]
    and d' = R [THEN conjunct2, THEN conjunct2, THEN conjunct2, THEN conjunct1]
    and gone = R [THEN conjunct2, THEN conjunct2, THEN conjunct2, THEN conjunct2, THEN conjunct1]
    and kept' = R [THEN conjunct2, THEN conjunct2, THEN conjunct2, THEN conjunct2, THEN conjunct2, THEN conjunct1, THEN spec, THEN mp]
    and grown = R [THEN conjunct2, THEN conjunct2, THEN conjunct2, THEN conjunct2, THEN conjunct2, THEN conjunct2]
  have still: "?N0 - (D \<union> ?M) \<subseteq> gn_name ` set g - ?M" using left by blast
  have order: "filter (\<lambda>n. n \<in> X) (map gn_name g') = filter (\<lambda>n. n \<in> X) (map gn_name g0)" if X: "X \<subseteq> ?N0 - (D \<union> ?M)" for X
  proof -
    have "X \<subseteq> gn_name ` set g - ?M" by (rule subset_trans [OF X still])
    moreover have "X \<subseteq> ?N0 - D" using X by blast
    ultimately show ?thesis by (rule trans [OF kept' kept])
  qed
  have agree: "env' n = env0 n" if "n \<in> ?N0 - (D \<union> ?M)" for n
    using that still ag [of n] same [of n] by auto
  have there: "?N0 - (D \<union> ?M) \<subseteq> gn_name ` set g'" using still ag by blast
  have "copy_ok S g0 env0 (D \<union> ?M) (map gn_name g' @ used, g')"
    unfolding copy_ok_def prod.case
  proof (intro conjI allI impI exI [of _ env'] ballI)
    show "gn_name ` set g' \<inter> (D \<union> ?M) = {}" using gone grown apart DN us(2) by blast
    show "D \<union> ?M \<subseteq> ?N0" using DN MN by blast
    show "gn_name ` set g0 \<subseteq> set (map gn_name g' @ used)" using us by auto
    show "distinct (map gn_name g')" "run_nodes S g' Map.empty = Some env'" "?N0 - (D \<union> ?M) \<subseteq> gn_name ` set g'"
      by (rule d' run' there)+
    show "filter (\<lambda>n. n \<in> X) (map gn_name g') = filter (\<lambda>n. n \<in> X) (map gn_name g0)" if "X \<subseteq> ?N0 - (D \<union> ?M)" for X
      by (rule order [OF that])
    show "env' n = env0 n" if "n \<in> ?N0 - (D \<union> ?M)" for n by (rule agree [OF that])
  qed simp
  with rep show ?thesis by blast
qed

section \<open>One candidate\<close>

lemma skip_runs:
  assumes "backend_ok bw b" and "usable bw b"
  shows "\<exists>b'. skip_region reason p b = (Inr p, b') \<and> backend_ok bw b' \<and> usable bw b' \<and> same_handles b b'"
proof -
  let ?b = "b\<lparr>bk_diagnostics := record_exclusion reason (bk_diagnostics b)\<rparr>"
  have run: "skip_region reason p b = (Inr p, ?b)"
    by (simp add: skip_region_def exclude_def count_backend_def action_defs)
  moreover have "backend_ok bw ?b" by (rule action_keepsD [OF keeps_skip assms(1) run])
  ultimately show ?thesis using assms(2) by (intro exI [of _ ?b]) (simp add: usable_def same_handles_def)
qed

text \<open>Every handle of the backend serves the region it was registered for, as far as \<open>S\<close> executes it.\<close>

definition serves :: "backend_world \<Rightarrow> 't semantics \<Rightarrow> gnode list \<Rightarrow> 't genv \<Rightarrow> (string \<Rightarrow> int) \<Rightarrow> backend \<Rightarrow> region \<Rightarrow> bool" where
  "serves bw S g0 env0 \<rho> b c \<longleftrightarrow> (\<forall>a dev h i. bw_compile bw (rc_recipe c) = Inr a \<longrightarrow> region_target g0 c = Some dev \<longrightarrow>
     map_of (bk_live b) h = Some i \<longrightarrow> bk_entries b ! i = (make_entry a c i)\<lparr>en_handle := Some h\<rparr> \<longrightarrow>
     (case transfer_call a c h dev \<rho> env0 of (f, xs) \<Rightarrow> S f xs) = env0 (last (rc_members c)))"

text \<open>The artifact of a candidate, if it compiles, is one for it.\<close>

definition compiles_well :: "backend_world \<Rightarrow> ('t \<Rightarrow> int list) \<Rightarrow> 't genv \<Rightarrow> (string \<Rightarrow> int) \<Rightarrow> region \<Rightarrow> bool" where
  "compiles_well bw extents env0 \<rho> c \<longleftrightarrow> (case bw_compile bw (rc_recipe c) of Inl _ \<Rightarrow> True
     | Inr a \<Rightarrow> artifact_fits a c \<and> (\<forall>p\<in>set (cr_symbol_sources a). reads extents env0 c \<rho> p))"

text \<open>Handles and entries only get more.\<close>

definition grows :: "backend \<Rightarrow> backend \<Rightarrow> string list \<Rightarrow> bool" where
  "grows b b' hs \<longleftrightarrow> (\<exists>new es. bk_live b' = bk_live b @ new \<and> map fst new = hs \<and> bk_entries b' = bk_entries b @ es) \<and>
     bk_replaced b' = bk_replaced b \<and> bk_inductor b' = bk_inductor b"

lemma grows_same: "same_handles b b' \<Longrightarrow> grows b b' []"
  by (simp add: grows_def same_handles_def)

lemma grows_trans: "grows b b1 hs \<Longrightarrow> grows b1 b2 ks \<Longrightarrow> grows b b2 (hs @ ks)"
  by (fastforce simp: grows_def)

definition later :: "backend \<Rightarrow> backend \<Rightarrow> bool" where
  "later b b' \<longleftrightarrow> (\<exists>new es. bk_live b' = bk_live b @ new \<and> bk_entries b' = bk_entries b @ es)"

lemma grows_later: "grows b b' hs \<Longrightarrow> later b b'"
  by (auto simp: grows_def later_def)

lemma serves_before:
  assumes g: "later b b'" and ok: "backend_ok bw b" and s: "serves bw S g0 env0 \<rho> b' c"
  shows "serves bw S g0 env0 \<rho> b c"
  unfolding serves_def
proof (intro allI impI)
  fix a dev h i
  assume a: "bw_compile bw (rc_recipe c) = Inr a" "region_target g0 c = Some dev" "map_of (bk_live b) h = Some i"
    "bk_entries b ! i = (make_entry a c i)\<lparr>en_handle := Some h\<rparr>"
  have "i < length (bk_entries b)" by (rule backend_okD(9) [OF ok a(3)])
  with g a have "map_of (bk_live b') h = Some i" "bk_entries b' ! i = (make_entry a c i)\<lparr>en_handle := Some h\<rparr>"
    by (auto simp: later_def nth_append map_add_dom_app_simps(1) domI)
  with a s show "(case transfer_call a c h dev \<rho> env0 of (f, xs) \<Rightarrow> S f xs) = env0 (last (rc_members c))"
    unfolding serves_def by blast
qed

text \<open>The handle registered for a candidate names an entry with its artifact.\<close>

definition handle_for :: "backend_world \<Rightarrow> region list \<Rightarrow> backend \<Rightarrow> string \<Rightarrow> bool" where
  "handle_for bw cs b h \<longleftrightarrow> (\<exists>c\<in>set cs. \<exists>a i. bw_compile bw (rc_recipe c) = Inr a \<and> map_of (bk_live b) h = Some i \<and>
     bk_entries b ! i = (make_entry a c i)\<lparr>en_handle := Some h\<rparr>)"

lemma handle_for_later:
  assumes "handle_for bw cs b h" and g: "later b b'" and ok: "backend_ok bw b" and sub: "set cs \<subseteq> set cs'"
  shows "handle_for bw cs' b' h"
proof -
  from assms(1) obtain c a i where c: "c \<in> set cs" "bw_compile bw (rc_recipe c) = Inr a" "map_of (bk_live b) h = Some i"
    "bk_entries b ! i = (make_entry a c i)\<lparr>en_handle := Some h\<rparr>" unfolding handle_for_def by blast
  have "i < length (bk_entries b)" by (rule backend_okD(9) [OF ok c(3)])
  with g c(3,4) have "map_of (bk_live b') h = Some i" "bk_entries b' ! i = (make_entry a c i)\<lparr>en_handle := Some h\<rparr>"
    by (auto simp: later_def nth_append map_add_dom_app_simps(1) domI)
  with c sub show ?thesis unfolding handle_for_def by blast
qed

lemma apply_region_runs:
  assumes ok: "backend_ok bw b" and u: "usable bw b" and cp: "copy_ok S g0 env0 D (current_copy g0 p)"
    and d0: "distinct (map gn_name g0)" and sh: "candidate_shape g0 erased c"
    and D: "D \<subseteq> erased" "set (rc_members c) \<inter> D = {}" and own: "set (rc_members c) \<subseteq> erased"
    and rr: "region_reason (map gn_name g0) (snd (current_copy g0 p)) c = None"
    and nm: "fresh_namer (bw_namer bw)" and std: "standard_ops extents S"
    and a: "bw_compile bw (rc_recipe c) = Inr a" and dev: "region_target g0 c = Some dev"
    and cw: "compiles_well bw extents env0 \<rho> c"
    and run: "apply_region bw g0 c a dev p b = (r, b')" and sv: "serves bw S g0 env0 \<rho> b' c"
  shows "\<exists>p' h. r = Inr p' \<and> backend_ok bw b' \<and> usable bw b' \<and> grows b b' [h] \<and> pg_handles p' = pg_handles p @ [h] \<and>
    handle_for bw [c] b' h \<and> copy_ok S g0 env0 (D \<union> set (rc_members c)) (current_copy g0 p')"
proof -
  obtain used g where cc: "current_copy g0 p = (used, g)" by (cases "current_copy g0 p")
  from u have open1: "bw_same_process bw" "\<not> bk_closed b" by (simp_all add: usable_def)
  obtain ta where rt: "backend_runtime bw b = (Inr (), b\<lparr>bk_runtime := Some ta\<rparr>)"
    and ok1: "backend_ok bw (b\<lparr>bk_runtime := Some ta\<rparr>)" using runtime_frame [OF ok open1] by blast
  let ?b1 = "b\<lparr>bk_runtime := Some ta\<rparr>"
  obtain q b2 where reg: "register_entry bw a c ?b1 = (q, b2)" by (metis surj_pair)
  obtain h where q: "q = Inr h" and ok2: "backend_ok bw b2" and fresh: "h \<notin> set (od_keys (bk_live b))"
    and live2: "bk_live b2 = bk_live b @ [(h, length (bk_entries b))]"
    and en2: "bk_entries b2 = bk_entries b @ [(make_entry a c (length (bk_entries b)))\<lparr>en_handle := Some h\<rparr>]"
    and rest2: "bk_closed b2 = bk_closed b" "bk_replaced b2 = bk_replaced b" "bk_inductor b2 = bk_inductor b"
    using register_entry_ok [OF ok1 reg] open1(2) by auto
  have here: "map_of (bk_live b2) h = Some (length (bk_entries b))"
    using fresh by (simp add: live2 map_add_Some_iff lookup_none_keys [symmetric])
  have known: "mapR (\<lambda>n. ensure (n \<in> gn_name ` set g0) (KeyErr n)) (rc_parameters c @ (case rc_index c of None \<Rightarrow> [] | Some i \<Rightarrow> [i])) =
      Inr (map (\<lambda>_. ()) (rc_parameters c @ (case rc_index c of None \<Rightarrow> [] | Some i \<Rightarrow> [i])))"
  proof (rule mapR_all)
    fix n assume "n \<in> set (rc_parameters c @ (case rc_index c of None \<Rightarrow> [] | Some i \<Rightarrow> [i]))"
    then have "n \<in> operands c" by (auto simp: operands_def split: option.splits)
    then have "n \<in> gn_name ` set g0" using operands_named [OF sh D(1)] by blast
    then show "ensure (n \<in> gn_name ` set g0) (KeyErr n) = Inr ()" by simp
  qed
  have b': "b' = b2"
    using run rt reg q known open1 by (auto simp: apply_region_def cc andthen_def give_def require_backend_cases split: sum.splits)
  have contract: "(case transfer_call a c h dev \<rho> env0 of (f, xs) \<Rightarrow> S f xs) = env0 (last (rc_members c))"
    using sv a dev here en2 unfolding serves_def b' by fastforce
  have fits: "artifact_fits a c" "\<forall>p\<in>set (cr_symbol_sources a). reads extents env0 c \<rho> p"
    using cw a by (simp_all add: compiles_well_def)
  obtain g' where rep: "replace_region (bw_namer bw) a c h dev used g = Inr g'"
    and cp': "copy_ok S g0 env0 (D \<union> set (rc_members c)) (map gn_name g' @ used, g')"
    using copy_step [OF cp [unfolded cc] d0 sh D own rr [unfolded cc snd_conv] nm std fits contract] by blast
  have r: "r = Inr (p\<lparr>pg_copy := Some (map gn_name g' @ used, g'), pg_handles := pg_handles p @ [h]\<rparr>)"
    using run rt reg q known rep open1 by (simp add: apply_region_def cc andthen_def give_def require_backend_cases)
  have "grows b b2 [h]" unfolding grows_def using live2 en2 rest2 by simp
  moreover have "handle_for bw [c] b2 h" unfolding handle_for_def using a here en2 by simp
  moreover have "usable bw b2" using u rest2 by (simp add: usable_def)
  ultimately show ?thesis using r b' ok2 cp' by (simp add: current_copy_def)
qed

text \<open>
  A candidate either leaves the copy as it is, or is replaced under a new handle; an exception is one the
  compiler raised.
\<close>

lemma rewrite_candidate_runs:
  assumes ok: "backend_ok bw b" and u: "usable bw b" and cp: "copy_ok S g0 env0 D (current_copy g0 p)"
    and d0: "distinct (map gn_name g0)"
    and sh: "region_reason (map gn_name g0) g0 c = None \<longrightarrow> candidate_shape g0 erased c"
    and D: "D \<subseteq> erased" "set (rc_members c) \<inter> D = {}" and own: "set (rc_members c) \<subseteq> erased"
    and nm: "fresh_namer (bw_namer bw)" and std: "standard_ops extents S" and cw: "compiles_well bw extents env0 \<rho> c"
    and run: "rewrite_candidate bw g0 c p b = (r, b')" and sv: "serves bw S g0 env0 \<rho> b' c"
  shows "backend_ok bw b' \<and> (case r of
      Inl e \<Rightarrow> bw_compile bw (rc_recipe c) = Inl e \<and> grows b b' []
    | Inr p' \<Rightarrow> usable bw b' \<and> (\<exists>D' hs. D' \<subseteq> D \<union> set (rc_members c) \<and> D \<subseteq> D' \<and> grows b b' hs \<and>
        pg_handles p' = pg_handles p @ hs \<and> (\<forall>h\<in>set hs. handle_for bw [c] b' h) \<and> copy_ok S g0 env0 D' (current_copy g0 p')))"
proof -
  have skipped: ?thesis if b0: "backend_ok bw b0" "usable bw b0" "same_handles b b0" and
      s: "skip_region reason q b0 = (r, b')" and q: "current_copy g0 q = current_copy g0 p" "pg_handles q = pg_handles p" for b0 reason q
  proof -
    obtain b1 where "skip_region reason q b0 = (Inr q, b1)" and b1: "backend_ok bw b1" "usable bw b1" "same_handles b0 b1"
      using skip_runs [OF b0(1,2)] by blast
    with s have rb: "r = Inr q" "b' = b1" by simp_all
    have "grows b b1 []" using grows_trans [OF grows_same [OF b0(3)] grows_same [OF b1(3)]] by simp
    then show ?thesis using rb b1 cp q by (auto intro!: exI [of _ D] exI [of _ "[]"])
  qed
  show ?thesis
  proof (cases "region_reason (map gn_name g0) g0 c")
    case (Some reason)
    have "same_handles b b" by (simp add: same_handles_def)
    then show ?thesis using skipped [OF ok u _ _ refl refl] run Some by (simp add: rewrite_candidate_def)
  next
    case None
    obtain b1 where comp: "compile_recipe bw (rc_recipe c) b = (bw_compile bw (rc_recipe c), b1)"
      and b1: "backend_ok bw b1" "usable bw b1" "same_handles b b1" using compile_recipe_answers [OF ok u] by blast
    show ?thesis
    proof (cases "bw_compile bw (rc_recipe c)")
      case (Inl e)
      show ?thesis
      proof (cases "\<exists>x y. e = UnsupportedRecipe x y")
        case True
        then show ?thesis using skipped [OF b1 _ refl refl] run None comp Inl by (auto simp: rewrite_candidate_def)
      next
        case False
        then have "r = Inl e" "b' = b1" using run None comp Inl by (auto simp: rewrite_candidate_def split: exn.splits)
        then show ?thesis using b1 grows_same Inl by simp
      qed
    next
      case (Inr a)
      obtain used g where cc: "current_copy g0 p = (used, g)" by (cases "current_copy g0 p")
      define q where "q = p\<lparr>pg_copy := Some (used, g)\<rparr>"
      have q: "current_copy g0 q = current_copy g0 p" "pg_handles q = pg_handles p" by (simp_all add: q_def current_copy_def [of _ "p\<lparr>pg_copy := _\<rparr>"] cc)
      have rep: "replace_candidate bw g0 c a p b1 = (r, b')" using run None comp Inr by (simp add: rewrite_candidate_def)
      have ne: "rc_members c \<noteq> []" using sh None by (simp add: candidate_shape_def)
      show ?thesis
      proof (cases "region_reason (map gn_name g0) g c")
        case (Some reason)
        then show ?thesis using skipped [OF b1 _ q] rep by (simp add: replace_candidate_def Let_def cc q_def)
      next
        case free: None
        show ?thesis
        proof (cases "region_target g0 c")
          case None
          then show ?thesis using skipped [OF b1 _ q] rep free ne
            by (simp add: replace_candidate_def Let_def cc q_def region_target_def)
        next
          case (Some dev)
          then have app: "apply_region bw g0 c a dev q b1 = (r, b')" using rep free ne
            by (simp add: replace_candidate_def Let_def cc q_def region_target_def)
          have rrq: "region_reason (map gn_name g0) (snd (current_copy g0 q)) c = None" using free q cc by simp
          have cs: "candidate_shape g0 erased c" using sh \<open>region_reason (map gn_name g0) g0 c = None\<close> by blast
          obtain p' h where "r = Inr p'" "backend_ok bw b'" "usable bw b'" and g: "grows b1 b' [h]" and "pg_handles p' = pg_handles q @ [h]"
            and "handle_for bw [c] b' h" "copy_ok S g0 env0 (D \<union> set (rc_members c)) (current_copy g0 p')"
            using apply_region_runs [OF b1(1,2) cp [folded q(1)] d0 cs D own rrq nm std Inr Some cw app sv] by blast
          moreover have "grows b b' [h]" using grows_trans [OF grows_same [OF b1(3)] g] by simp
          ultimately show ?thesis using q(2) by (auto intro!: exI [of _ "D \<union> set (rc_members c)"] exI [of _ "[h]"])
        qed
      qed
    qed
  qed
qed

section \<open>The pass\<close>

text \<open>Whatever happens to a candidate, earlier handles and entries stay.\<close>

lemma later_frame: "later b0 b \<Longrightarrow> bk_live b' = bk_live b \<Longrightarrow> bk_entries b' = bk_entries b \<Longrightarrow> later b0 b'"
  by (simp add: later_def)

lemma later_count: "keeps (later b0) (count_backend f)"
  unfolding count_backend_def by (rule keeps_modify) (auto intro: later_frame)

lemma later_runtime: "keeps (later b0) (backend_runtime bw)"
  unfolding backend_runtime_def by (intro keep_intros) (auto intro: later_frame split: option.splits)

lemma later_skip: "keeps (later b0) (skip_region reason p)"
  unfolding skip_region_def exclude_def by (intro keep_intros later_count)

lemma later_compile: "keeps (later b0) (compile_recipe bw r)"
proof -
  have "keeps (later b0) (cached_compile bw key r)" for key
    unfolding keeps_def cached_compile_def by (auto intro: later_frame split: option.splits sum.splits)
  then show ?thesis unfolding compile_recipe_def by (intro keep_intros later_runtime)
qed

lemma keeps_both: "keeps P m \<Longrightarrow> keeps Q m \<Longrightarrow> keeps (\<lambda>s. P s \<and> Q s) m"
  by (simp add: keeps_def)

lemma later_register:
  assumes "\<And>h. keeps (\<lambda>s. backend_ok bw s \<and> later b0 s) (f h)"
  shows "keeps (\<lambda>s. backend_ok bw s \<and> later b0 s) (andthen (require_backend bw) (\<lambda>_. andthen (register_entry bw a c) f))"
proof -
  have "backend_ok bw t \<and> later b0 t" if b: "backend_ok bw b" "later b0 b" "\<not> bk_closed b" and
    t: "t = snd (andthen (register_entry bw a c) f b)" for b t
  proof -
    obtain r b1 where run: "register_entry bw a c b = (r, b1)" by (metis surj_pair)
    from register_entry_ok [OF b(1) run b(3)] b(2) obtain h where "r = Inr h" "backend_ok bw b1" "later b0 b1"
      by (auto simp: later_def)
    with run assms t show ?thesis by (auto simp: andthen_def keeps_def)
  qed
  then show ?thesis by (auto simp: keeps_def andthen_def [of "require_backend bw"] require_backend_cases)
qed

lemma later_replace: "keeps (\<lambda>s. backend_ok bw s \<and> later b0 s) (replace_candidate bw g0 c a p)"
proof -
  have skip: "keeps (\<lambda>s. backend_ok bw s \<and> later b0 s) (skip_region reason q)" for reason q
    by (intro keeps_both keeps_skip later_skip)
  have app: "keeps (\<lambda>s. backend_ok bw s \<and> later b0 s) (apply_region bw g0 c a dev q)" for dev q
  proof (cases "current_copy g0 q")
    case (Pair used g)
    show ?thesis unfolding apply_region_def Pair prod.case
      by (intro keeps_andthen [OF keeps_both [OF keeps_runtime later_runtime]] later_register keeps_andthen [OF keeps_give] keeps_give)
  qed
  show ?thesis unfolding replace_candidate_def Let_def
    by (cases "current_copy g0 p") (auto intro!: skip app keeps_give split: option.splits)
qed

lemma later_candidate: "keeps (\<lambda>s. backend_ok bw s \<and> later b0 s) (rewrite_candidate bw g0 c p)"
  unfolding keeps_def
proof (intro allI impI)
  fix b assume b: "backend_ok bw b \<and> later b0 b"
  obtain r b1 where run: "compile_recipe bw (rc_recipe c) b = (r, b1)" by (metis surj_pair)
  have ok: "backend_ok bw b1 \<and> later b0 b1" using action_keepsD [OF keeps_both [OF keeps_compile later_compile] b run] .
  have skip: "backend_ok bw (snd (skip_region reason p b)) \<and> later b0 (snd (skip_region reason p b))" if "backend_ok bw b \<and> later b0 b" for reason b
    using keeps_both [OF keeps_skip later_skip] that unfolding keeps_def by blast
  have rep: "backend_ok bw (snd (replace_candidate bw g0 c a p b)) \<and> later b0 (snd (replace_candidate bw g0 c a p b))"
    if "backend_ok bw b \<and> later b0 b" for a b
    using later_replace that unfolding keeps_def by blast
  show "backend_ok bw (snd (rewrite_candidate bw g0 c p b)) \<and> later b0 (snd (rewrite_candidate bw g0 c p b))"
    unfolding rewrite_candidate_def
    by (cases "region_reason (map gn_name g0) g0 c"; cases r; cases "projl r") (use run ok b skip rep in simp_all)
qed

lemma candidates_run:
  assumes d0: "distinct (map gn_name g0)" and nm: "fresh_namer (bw_namer bw)" and std: "standard_ops extents S"
  shows "backend_ok bw b \<Longrightarrow> usable bw b \<Longrightarrow> copy_ok S g0 env0 D (current_copy g0 p) \<Longrightarrow>
    distinct (concat (map rc_members cs)) \<Longrightarrow> D \<subseteq> erased \<Longrightarrow> D \<inter> set (concat (map rc_members cs)) = {} \<Longrightarrow>
    set (concat (map rc_members cs)) \<subseteq> erased \<Longrightarrow>
    (\<forall>c\<in>set cs. (region_reason (map gn_name g0) g0 c = None \<longrightarrow> candidate_shape g0 erased c) \<and>
       compiles_well bw extents env0 (\<rho> c) c \<and> serves bw S g0 env0 (\<rho> c) b' c) \<Longrightarrow>
    for_fold (rewrite_candidate bw g0) cs p b = (r, b') \<Longrightarrow>
    backend_ok bw b' \<and> (\<exists>hs. grows b b' hs \<and> (\<forall>h\<in>set hs. handle_for bw cs b' h) \<and> (case r of
        Inl e \<Rightarrow> (\<exists>c\<in>set cs. bw_compile bw (rc_recipe c) = Inl e)
      | Inr p' \<Rightarrow> usable bw b' \<and> pg_handles p' = pg_handles p @ hs \<and>
          (\<exists>D'. D' \<subseteq> D \<union> set (concat (map rc_members cs)) \<and> copy_ok S g0 env0 D' (current_copy g0 p'))))"
proof (induction cs arbitrary: p b D)
  case Nil
  have "grows b b []" by (simp add: grows_def)
  with Nil show ?case by (auto simp: give_def)
next
  case (Cons c cs)
  obtain r1 b1 where one: "rewrite_candidate bw g0 c p b = (r1, b1)" by (metis surj_pair)
  have late: "for_fold (rewrite_candidate bw g0) cs p1 b1 = (r, b')" if "r1 = Inr p1" for p1
    using Cons.prems(9) one that by (simp add: andthen_def)
  have ok1: "backend_ok bw b1" by (rule action_keepsD [OF keeps_candidate Cons.prems(1) one])
  let ?M = "set (rc_members c)" and ?R = "set (concat (map rc_members cs))"
  have sub: "set [c] \<subseteq> set (c # cs)" "set cs \<subseteq> set (c # cs)" by auto
  have grown: "later b1 b'"
  proof (cases r1)
    case (Inl e)
    with Cons.prems(9) one show ?thesis by (simp add: andthen_def later_def)
  next
    case (Inr p1)
    have "(\<lambda>s. backend_ok bw s \<and> later b1 s) b'"
      by (rule action_keepsD [OF keeps_for_fold [OF later_candidate] _ late [OF Inr]]) (simp add: ok1 later_def)
    then show ?thesis by simp
  qed
  have sv: "serves bw S g0 env0 (\<rho> c) b1 c" by (rule serves_before [OF grown ok1]) (use Cons.prems(8) in simp)
  have fresh: "?M \<inter> D = {}" "?M \<subseteq> erased" using Cons.prems(6,7) by auto
  have step: "backend_ok bw b1 \<and> (case r1 of
      Inl e \<Rightarrow> bw_compile bw (rc_recipe c) = Inl e \<and> grows b b1 []
    | Inr p' \<Rightarrow> usable bw b1 \<and> (\<exists>D' hs. D' \<subseteq> D \<union> ?M \<and> D \<subseteq> D' \<and> grows b b1 hs \<and>
        pg_handles p' = pg_handles p @ hs \<and> (\<forall>h\<in>set hs. handle_for bw [c] b1 h) \<and> copy_ok S g0 env0 D' (current_copy g0 p')))"
    using rewrite_candidate_runs [OF Cons.prems(1,2,3) d0 _ Cons.prems(5) fresh nm std _ one sv] Cons.prems(8) by simp
  show ?case
  proof (cases r1)
    case (Inl e)
    then have "r = Inl e" "b' = b1" using Cons.prems(9) one by (simp_all add: andthen_def)
    with step Inl show ?thesis by (intro conjI exI [of _ "[]"]) auto
  next
    case (Inr p1)
    from step Inr obtain D1 hs where u1: "usable bw b1" and D1: "D1 \<subseteq> D \<union> ?M" "D \<subseteq> D1" and g1: "grows b b1 hs"
      and h1: "pg_handles p1 = pg_handles p @ hs" "\<forall>h\<in>set hs. handle_for bw [c] b1 h"
      and c1: "copy_ok S g0 env0 D1 (current_copy g0 p1)" by auto
    have dist: "distinct (concat (map rc_members cs))" "?M \<inter> ?R = {}" "?R \<subseteq> erased" "D \<inter> ?R = {}"
      using Cons.prems(4,6,7) by auto
    have E1: "D1 \<subseteq> erased" "D1 \<inter> ?R = {}" using D1 Cons.prems(5) fresh(2) dist(2,4) by blast+
    have rest: "backend_ok bw b' \<and> (\<exists>ks. grows b1 b' ks \<and> (\<forall>h\<in>set ks. handle_for bw cs b' h) \<and> (case r of
        Inl e \<Rightarrow> (\<exists>c\<in>set cs. bw_compile bw (rc_recipe c) = Inl e)
      | Inr p' \<Rightarrow> usable bw b' \<and> pg_handles p' = pg_handles p1 @ ks \<and>
          (\<exists>D'. D' \<subseteq> D1 \<union> ?R \<and> copy_ok S g0 env0 D' (current_copy g0 p'))))"
      using Cons.IH [OF ok1 u1 c1 dist(1) E1 dist(3) _ late [OF Inr]] Cons.prems(8) by simp
    then obtain ks where okb: "backend_ok bw b'" and g2: "grows b1 b' ks" and h2: "\<forall>h\<in>set ks. handle_for bw cs b' h"
      and out: "case r of Inl e \<Rightarrow> (\<exists>c\<in>set cs. bw_compile bw (rc_recipe c) = Inl e)
      | Inr p' \<Rightarrow> usable bw b' \<and> pg_handles p' = pg_handles p1 @ ks \<and>
          (\<exists>D'. D' \<subseteq> D1 \<union> ?R \<and> copy_ok S g0 env0 D' (current_copy g0 p'))" by blast
    have "\<forall>h\<in>set (hs @ ks). handle_for bw (c # cs) b' h"
    proof
      fix h assume "h \<in> set (hs @ ks)"
      then consider "h \<in> set hs" | "h \<in> set ks" by auto
      then show "handle_for bw (c # cs) b' h"
      proof cases
        case 1
        then show ?thesis using handle_for_later [OF _ grown ok1 sub(1)] h1(2) by blast
      next
        case 2
        have "later b' b'" by (simp add: later_def)
        then show ?thesis using handle_for_later [OF _ _ okb sub(2)] h2 2 by blast
      qed
    qed
    moreover have "grows b b' (hs @ ks)" by (rule grows_trans [OF g1 g2])
    moreover have "case r of Inl e \<Rightarrow> (\<exists>c\<in>set (c # cs). bw_compile bw (rc_recipe c) = Inl e)
      | Inr p' \<Rightarrow> usable bw b' \<and> pg_handles p' = pg_handles p @ hs @ ks \<and>
          (\<exists>D'. D' \<subseteq> D \<union> set (concat (map rc_members (c # cs))) \<and> copy_ok S g0 env0 D' (current_copy g0 p'))"
    proof (cases r)
      case (Inr p')
      with out h1(1) obtain D' where "usable bw b'" "pg_handles p' = pg_handles p @ hs @ ks" "D' \<subseteq> D1 \<union> ?R"
        "copy_ok S g0 env0 D' (current_copy g0 p')" by auto
      moreover have "D1 \<union> ?R \<subseteq> D \<union> set (concat (map rc_members (c # cs)))" using D1(1) by auto
      ultimately show ?thesis unfolding Inr sum.case by (intro conjI exI [of _ D']) auto
    qed (use out in auto)
    ultimately show ?thesis using okb by blast
  qed
qed

text \<open>A graph that evaluates passes \<open>lint\<close>.\<close>

lemma evaluated_defined:
  "run_nodes S g v = Some w \<Longrightarrow> distinct (map gn_name g) \<Longrightarrow> dom v = set seen \<Longrightarrow> gn_name ` set g \<inter> set seen = {} \<Longrightarrow>
    defined_before_use seen g"
proof (induction g arbitrary: v seen)
  case (Cons n ns)
  from Cons.prems(1) obtain x where r: "run_nodes S ns (v(gn_name n \<mapsto> x)) = Some w" by (auto split: option.splits)
  have dom: "dom (v(gn_name n \<mapsto> x)) = set (gn_name n # seen)" using Cons.prems(3) by simp
  have "defined_before_use (gn_name n # seen) ns" using Cons.prems(2,4) by (intro Cons.IH [OF r _ dom]) auto
  then show ?case using Cons.prems run_node_refs [OF Cons.prems(1)] by auto
qed simp

text \<open>The program \<open>g\<close> computes what \<open>g0\<close> does, on every node but the \<open>erased\<close> ones.\<close>

definition computes_same :: "'t semantics \<Rightarrow> gnode list \<Rightarrow> 't genv \<Rightarrow> string set \<Rightarrow> gnode list \<Rightarrow> bool" where
  "computes_same S g0 env0 erased g \<longleftrightarrow> (\<exists>env. run_nodes S g Map.empty = Some env \<and>
     (\<forall>n\<in>gn_name ` set g0 - erased. env n = env0 n \<and> n \<in> gn_name ` set g))"

lemma copy_computes:
  assumes "copy_ok S g0 env0 D u" and "D \<subseteq> erased"
  shows "computes_same S g0 env0 erased (snd u) \<and> lint (snd u) = Inr ()"
proof -
  obtain used g where u: "u = (used, g)" by (cases u)
  from assms(1) u obtain env where env: "run_nodes S g Map.empty = Some env" "\<And>n. n \<in> gn_name ` set g0 - D \<Longrightarrow> env n = env0 n"
    and d: "distinct (map gn_name g)" and there: "gn_name ` set g0 - D \<subseteq> gn_name ` set g" by (auto simp: copy_ok_def)
  have "defined_before_use [] g" using evaluated_defined [OF env(1) d, of "[]"] by simp
  moreover have "computes_same S g0 env0 erased g"
    unfolding computes_same_def using env there assms(2) by blast
  ultimately show ?thesis by (simp add: u lint_def)
qed

lemma rewrite_runs:
  assumes ok: "backend_ok bw b" and u: "usable bw b" and nm: "fresh_namer (bw_namer bw)" and std: "standard_ops extents S"
    and run0: "run_nodes S g0 Map.empty = Some env0" and cs: "candidates_shape g0 cs"
    and each: "\<forall>c\<in>set cs. compiles_well bw extents env0 (\<rho> c) c \<and> serves bw S g0 env0 (\<rho> c) b' c"
    and run: "rewrite bw g0 cs b = (r, b')"
  shows "backend_ok bw b' \<and> (\<exists>hs. bk_live b' = bk_live b @ hs \<and> (\<forall>h\<in>set (map fst hs). handle_for bw cs b' h) \<and> (case r of
      Inl e \<Rightarrow> \<exists>c\<in>set cs. bw_compile bw (rc_recipe c) = Inl e
    | Inr (None, ks) \<Rightarrow> hs = [] \<and> ks = []
    | Inr (Some g, ks) \<Rightarrow> ks = map fst hs \<and> usable bw b' \<and> computes_same S g0 env0 (set (concat (map rc_members cs))) g))"
proof (cases "cs = []")
  case True
  then have "r = Inr (None, [])" "b' = b" using run by (simp_all add: rewrite_def give_def)
  then show ?thesis using ok by simp
next
  case False
  let ?E = "set (concat (map rc_members cs))" and ?p = "\<lparr>pg_copy = None, pg_handles = []\<rparr> :: progress"
  from cs have d0: "distinct (map gn_name g0)" and dcs: "distinct (concat (map rc_members cs))"
    and sh: "\<forall>c\<in>set cs. region_reason (map gn_name g0) g0 c = None \<longrightarrow> candidate_shape g0 ?E c" by (simp_all add: candidates_shape_def)
  obtain q b1 where loop: "for_fold (rewrite_candidate bw g0) cs ?p b = (q, b1)" by (metis surj_pair)
  have b1: "\<exists>n. b' = b1\<lparr>bk_replaced := n\<rparr>"
  proof (cases q)
    case (Inl e)
    with run loop False have "b' = b1" by (simp add: rewrite_def andthen_def)
    then have "b' = b1\<lparr>bk_replaced := bk_replaced b1\<rparr>" by simp
    then show ?thesis ..
  next
    case (Inr p)
    have same: "b1 = b1\<lparr>bk_replaced := bk_replaced b1\<rparr>" by simp
    show ?thesis
      using run loop False Inr by (auto simp: rewrite_def andthen_def give_def update_def Let_def split: if_splits sum.splits)
        (metis same)+
  qed
  then have sv: "serves bw S g0 env0 (\<rho> c) b1 c" if "c \<in> set cs" for c using each that by (auto simp: serves_def)
  have c0: "copy_ok S g0 env0 {} (current_copy g0 ?p)" using copy_ok_start [OF d0 run0] by (simp add: current_copy_def)
  have all: "\<forall>c\<in>set cs. (region_reason (map gn_name g0) g0 c = None \<longrightarrow> candidate_shape g0 ?E c) \<and>
       compiles_well bw extents env0 (\<rho> c) c \<and> serves bw S g0 env0 (\<rho> c) b1 c" using sh each sv by blast
  from candidates_run [OF d0 nm std ok u c0 dcs empty_subsetI Int_empty_left order_refl all loop]
  have res: "backend_ok bw b1 \<and> (\<exists>hs. grows b b1 hs \<and> (\<forall>h\<in>set hs. handle_for bw cs b1 h) \<and> (case q of
        Inl e \<Rightarrow> (\<exists>c\<in>set cs. bw_compile bw (rc_recipe c) = Inl e)
      | Inr p' \<Rightarrow> usable bw b1 \<and> pg_handles p' = hs \<and> (\<exists>D'. D' \<subseteq> ?E \<and> copy_ok S g0 env0 D' (current_copy g0 p'))))"
    by (simp only: progress.simps append_Nil Un_empty_left)
  then obtain hs where ok1: "backend_ok bw b1" and g: "grows b b1 (map fst hs)" "bk_live b1 = bk_live b @ hs"
    and hf: "\<forall>h\<in>set (map fst hs). handle_for bw cs b1 h" and out: "case q of
        Inl e \<Rightarrow> (\<exists>c\<in>set cs. bw_compile bw (rc_recipe c) = Inl e)
      | Inr p' \<Rightarrow> usable bw b1 \<and> pg_handles p' = map fst hs \<and> (\<exists>D'. D' \<subseteq> ?E \<and> copy_ok S g0 env0 D' (current_copy g0 p'))"
    unfolding grows_def by blast
  have keep: "backend_ok bw (b1\<lparr>bk_replaced := n\<rparr>)" "usable bw (b1\<lparr>bk_replaced := n\<rparr>) = usable bw b1"
    "handle_for bw cs (b1\<lparr>bk_replaced := n\<rparr>) h = handle_for bw cs b1 h" for n h
    using backend_ok_frame [OF ok1, of "b1\<lparr>bk_replaced := n\<rparr>"] backend_okD(5) [OF ok1] by (simp_all add: usable_def handle_for_def)
  have result: "case r of
      Inl e \<Rightarrow> \<exists>c\<in>set cs. bw_compile bw (rc_recipe c) = Inl e
    | Inr (None, ks) \<Rightarrow> hs = [] \<and> ks = []
    | Inr (Some g, ks) \<Rightarrow> ks = map fst hs \<and> usable bw b' \<and> computes_same S g0 env0 ?E g"
  proof (cases q)
    case (Inl e)
    with run loop False out show ?thesis by (auto simp: rewrite_def andthen_def)
  next
    case (Inr p')
    with out obtain D' where h: "usable bw b1" "pg_handles p' = map fst hs" and D: "D' \<subseteq> ?E" "copy_ok S g0 env0 D' (current_copy g0 p')" by auto
    show ?thesis
    proof (cases "pg_handles p' = []")
      case True
      with run loop False Inr h(2) show ?thesis by (auto simp: rewrite_def andthen_def give_def)
    next
      case some: False
      with run loop False Inr copy_computes [OF D(2,1)]
      have "r = Inr (Some (snd (current_copy g0 p')), pg_handles p')"
        by (simp add: rewrite_def andthen_def give_def update_def Let_def)
      then show ?thesis using h b1 keep copy_computes [OF D(2,1)] by auto
    qed
  qed
  obtain n where b': "b' = b1\<lparr>bk_replaced := n\<rparr>" using b1 ..
  show ?thesis
    using keep(1) hf g(2) result unfolding b' keep(3) by (intro conjI exI [of _ hs]) simp_all
qed

end
