(* ===== verification/Capture_Properties.thy ===== *)
theory Capture_Properties
  imports Rewriting Owner_Properties
begin

text \<open>
  Properties of \<open>RelocBackend\<close>: the program a capture returns computes what the captured graph does, its
  handles resolve until they are released, and closing leaves nothing behind.
\<close>

section \<open>Captures\<close>

text \<open>The states of a capture: counting, then the rewriting, then Inductor's answer.\<close>

lemma exclude_run: "exclude x b = (Inr (), b\<lparr>bk_diagnostics := record_exclusion x (bk_diagnostics b)\<rparr>)"
  by (simp add: exclude_def count_backend_def modify_def)

lemma exclusions_run:
  "\<exists>d. for_each exclude xs b = (Inr (), b\<lparr>bk_diagnostics := d\<rparr>)"
proof (induction xs arbitrary: b)
  case Nil
  show ?case by (intro exI [of _ "bk_diagnostics b"]) (simp add: give_def)
next
  case (Cons x xs)
  let ?b = "b\<lparr>bk_diagnostics := record_exclusion x (bk_diagnostics b)\<rparr>"
  obtain d where "for_each exclude xs ?b = (Inr (), ?b\<lparr>bk_diagnostics := d\<rparr>)" using Cons.IH by blast
  then show ?case by (intro exI [of _ d]) (simp add: andthen_def exclude_run [of x b])
qed

lemma counted_run:
  assumes "count_backend f b = (r, b')"
  shows "\<exists>d. b' = b\<lparr>bk_diagnostics := d\<rparr>"
proof (cases "f (bk_diagnostics b)")
  case (Inl e)
  with assms have "b' = b" by (simp add: count_backend_def modify_def)
  then show ?thesis by (intro exI [of _ "bk_diagnostics b"]) simp
qed (use assms in \<open>auto simp: count_backend_def modify_def\<close>)

text \<open>What a capture that got as far as rewriting did.\<close>

lemma capture_states:
  assumes ok: "backend_ok bw b" and run: "capture_graph bw cp b = (r, b')" and rep: "cp_report cp = Inr (exclusions, cs)"
  obtains (early) "same_handles b b'" "\<exists>e. r = Inl e"
  | (original) "same_handles b b'" "r = Inr \<lparr>gc_original = cp_graph cp, gc_rewritten = None, gc_handles = [], gc_executor = False\<rparr>"
  | (rewritten) b1 q b2 where "backend_ok bw b1" "same_handles b b1" "rewrite bw (cp_graph cp) cs b1 = (q, b2)"
      "case q of Inl e \<Rightarrow> r = Inl e \<and> b' = b2
        | Inr (g, hs) \<Rightarrow> if bk_inductor b then compile_executor cp g hs b2 = (r, b')
            else b' = b2 \<and> r = Inr \<lparr>gc_original = cp_graph cp, gc_rewritten = g, gc_handles = hs, gc_executor = False\<rparr>"
proof -
  have self: "same_handles b b" by (simp add: same_handles_def)
  show thesis
  proof (cases "require_backend bw b = (Inr (), b) \<and> cp_version cp = Inr ()")
    case False
    then have "r \<in> range Inl" "b' = b"
      using run by (auto simp: capture_graph_def require_backend_cases andthen_def give_def split: if_splits sum.splits)
    then show thesis using early self by auto
  next
    case True
    obtain d1 where d1: "increment ''dynamo_compiles'' 1 (bk_diagnostics b) = Inr d1" "diagnostics_ok d1"
      using increment_known_ok [OF backend_okD(5) [OF ok] backend_counters(3), of 1] by blast
    let ?b1 = "b\<lparr>bk_diagnostics := d1\<rparr>"
    have same1: "same_handles b ?b1" by (simp add: same_handles_def)
    have ok1: "backend_ok bw (b\<lparr>bk_diagnostics := d\<rparr>)" if "diagnostics_ok d" for d
      by (rule backend_ok_frame [OF ok]) (simp_all add: that)
    have run1: "(if bk_inductor b then require_inference (cp_grad_enabled cp) (capture_regions bw cp True)
        else capture_regions bw cp False) ?b1 = (r, b')"
      using run True d1 by (simp add: capture_graph_def andthen_def give_def observe_def count_backend_def modify_def)
    show thesis
    proof (cases "bk_inductor b \<and> cp_grad_enabled cp")
      case True
      then have "r \<in> range Inl" "b' = ?b1" using run1 by (auto simp: require_inference_def andthen_def give_def)
      then show thesis using early same1 by auto
    next
      case False
      then have run2: "capture_regions bw cp (bk_inductor b) ?b1 = (r, b')"
        using run1 by (auto simp: require_inference_def andthen_def give_def split: if_splits)
      show thesis
      proof (cases "cp_needs_autograd cp")
        case True
        then have "r = Inr \<lparr>gc_original = cp_graph cp, gc_rewritten = None, gc_handles = [], gc_executor = False\<rparr>" "same_handles b b'"
          using run2 by (auto simp: capture_regions_def exclude_run andthen_def give_def same_handles_def)
        then show thesis by (intro original)
      next
        case False
        obtain d2 where ex: "for_each exclude exclusions ?b1 = (Inr (), ?b1\<lparr>bk_diagnostics := d2\<rparr>)" using exclusions_run by blast
        let ?b2 = "b\<lparr>bk_diagnostics := d2\<rparr>"
        have ok2: "backend_ok bw ?b2"
          using action_keepsD [OF keeps_for_exclusions ok1 [OF d1(2)] ex] by simp
        obtain q b3 where rw: "rewrite bw (cp_graph cp) cs ?b2 = (q, b3)" by (metis surj_pair)
        have "case q of Inl e \<Rightarrow> r = Inl e \<and> b' = b3
          | Inr (g, hs) \<Rightarrow> if bk_inductor b then compile_executor cp g hs b3 = (r, b')
              else b' = b3 \<and> r = Inr \<lparr>gc_original = cp_graph cp, gc_rewritten = g, gc_handles = hs, gc_executor = False\<rparr>"
          using run2 False rep ex rw
          by (cases q) (auto simp: capture_regions_def andthen_def give_def split: prod.splits)
        moreover have "same_handles b ?b2" by (simp add: same_handles_def)
        ultimately show thesis using rewritten [OF ok2 _ rw] by blast
      qed
    qed
  qed
qed

text \<open>What \<open>serves\<close> and the handles read of a backend.\<close>

lemma serves_same: "bk_live b = bk_live b' \<Longrightarrow> bk_entries b = bk_entries b' \<Longrightarrow> serves bw S g0 env0 \<rho> b c = serves bw S g0 env0 \<rho> b' c"
  by (simp add: serves_def)

lemma handle_for_same: "bk_live b = bk_live b' \<Longrightarrow> bk_entries b = bk_entries b' \<Longrightarrow> handle_for bw cs b h = handle_for bw cs b' h"
  by (simp add: handle_for_def)

lemma usable_same: "same_handles b b' \<Longrightarrow> usable bw b' = usable bw b"
  by (simp add: usable_def same_handles_def)

lemma executor_succeeds:
  assumes "compile_executor cp g hs b = (Inr gc, b')"
  shows "gc = \<lparr>gc_original = cp_graph cp, gc_rewritten = g, gc_handles = hs, gc_executor = True\<rparr> \<and>
    bk_live b' = bk_live b \<and> bk_entries b' = bk_entries b"
  using assms counted_run [of "increment ''inductor_compiles'' 1" b]
  by (cases "cp_executor cp") (auto simp: compile_executor_def andthen_def give_def update_def split: prod.splits sum.splits)

text \<open>
  The program a capture returns is equivalent to the captured graph: whatever \<open>GraphCallable\<close> chooses to run
  computes, on every node that is not inside a replaced region, what the captured graph computes, and every
  handle the callable owns names an entry for one of the candidates.  The inserted operations compute what
  the regions do by hypothesis, which is what the execution of a handle's entry promises.
\<close>

theorem captured_program_equivalent:
  assumes "backend_ok bw b" and "usable bw b" and "fresh_namer (bw_namer bw)" and "standard_ops extents S"
    and "run_nodes S (cp_graph cp) Map.empty = Some env0" and "cp_report cp = Inr (exclusions, cs)"
    and "candidates_shape (cp_graph cp) cs"
    and "\<forall>c\<in>set cs. compiles_well bw extents env0 (\<rho> c) c \<and> serves bw S (cp_graph cp) env0 (\<rho> c) b' c"
    and "capture_graph bw cp b = (Inr gc, b')" and "run_callable bw grad autograd gc b1 = (Inr (Ran g), b2)"
  shows "computes_same S (cp_graph cp) env0 (set (concat (map rc_members cs))) g \<and>
    (\<forall>h\<in>set (gc_handles gc). handle_for bw cs b' h)"
proof -
  let ?E = "set (concat (map rc_members cs))"
  have self: "computes_same S (cp_graph cp) env0 ?E (cp_graph cp)"
    unfolding computes_same_def using assms(5) by blast
  have chosen: "g = gc_original gc \<or> gc_rewritten gc = Some g"
    using assms(10) by (auto simp: run_callable_def require_inference_def andthen_def give_def split: if_splits option.splits prod.splits sum.splits)
  from assms(1,9,6) show ?thesis
  proof (cases rule: capture_states)
    case early
    then show ?thesis by simp
  next
    case original
    then show ?thesis using chosen self by auto
  next
    case (rewritten c1 q c2)
    obtain g' hs where q: "q = Inr (g', hs)" using rewritten(4) by (cases q) auto
    have gc: "gc_original gc = cp_graph cp" "gc_rewritten gc = g'" "gc_handles gc = hs" and same: "bk_live b' = bk_live c2" "bk_entries b' = bk_entries c2"
      using rewritten(4) q executor_succeeds [of cp g' hs c2 gc b'] by (auto split: if_splits)
    have each: "\<forall>c\<in>set cs. compiles_well bw extents env0 (\<rho> c) c \<and> serves bw S (cp_graph cp) env0 (\<rho> c) c2 c"
      using assms(8) serves_same [OF same] by blast
    have u: "usable bw c1" using assms(2) usable_same [OF rewritten(2)] by blast
    from rewrite_runs [OF rewritten(1) u assms(3,4,5,7) each rewritten(3)] q
    have "(\<forall>h\<in>set hs. handle_for bw cs c2 h) \<and> (case g' of None \<Rightarrow> True | Some x \<Rightarrow> computes_same S (cp_graph cp) env0 ?E x)"
      by (auto split: option.splits)
    then show ?thesis using chosen gc self handle_for_same [OF same] by auto
  qed
qed

section \<open>A graph and its backend\<close>

text \<open>The vector of the worked example is reshaped, transposed and copied to the device, and returned.\<close>

definition chain_graph :: "gnode list" where
  "chain_graph = [\<lparr>gn_name = ''x'', gn_call = Input ''x'', gn_args = [], gn_device = Some cpu\<rparr>,
     \<lparr>gn_name = ''rows'', gn_call = Captured ''rows'', gn_args = [Ref ''x''], gn_device = Some cpu\<rparr>,
     \<lparr>gn_name = ''cols'', gn_call = Captured ''cols'', gn_args = [Ref ''rows''], gn_device = Some cpu\<rparr>,
     \<lparr>gn_name = ''moved'', gn_call = Captured ''cuda'', gn_args = [Ref ''cols''], gn_device = Some gpu0\<rparr>,
     \<lparr>gn_name = ''output'', gn_call = Output, gn_args = [Ref ''moved''], gn_device = None\<rparr>]"

definition chain_region :: region where
  "chain_region = \<lparr>rc_source = ''x'', rc_members = [''rows'', ''cols'', ''moved''], rc_recipe = readme_recipe, rc_symbolic = [],
     rc_guards = [], rc_device = Some gpu0, rc_parameters = [], rc_index = None\<rparr>"

text \<open>Tensors are their extents.\<close>

definition extents_semantics :: "int list semantics" where
  "extents_semantics c xs = (case c of
     Input _ \<Rightarrow> Some (Tensor_Value [128])
   | Captured f \<Rightarrow> Some (Tensor_Value (if f = ''rows'' then [2, 64] else [64, 2]))
   | Transfer \<Rightarrow> Some (Tensor_Value [64, 2])
   | Sym_Size \<Rightarrow> (case xs of [Tensor_Value t, Int_Value i] \<Rightarrow>
       if 0 \<le> i \<and> i < int (length t) then Some (Int_Value (t ! nat i)) else None | _ \<Rightarrow> None)
   | Arith f \<Rightarrow> (case xs of [Int_Value x, Int_Value y] \<Rightarrow>
       (case arith_value f x y of Inr z \<Rightarrow> Some (Int_Value z) | Inl _ \<Rightarrow> None) | _ \<Rightarrow> None)
   | Output \<Rightarrow> (case xs of [x] \<Rightarrow> Some x | _ \<Rightarrow> None)
   | _ \<Rightarrow> None)"

definition longer_name :: namer where
  "longer_name used = replicate (Suc (foldr max (map length used) 0)) (CHR ''n'')"

definition chain_world :: backend_world where
  "chain_world = \<lparr>bw_pid = 7, bw_same_process = True, bw_compiler_identity = Inr ''release'', bw_capability = ''cap'',
     bw_compile = (\<lambda>_. Inr readme_artifact), bw_token = (\<lambda>_. ''ab''), bw_namer = longer_name,
     bw_borrowed = new_resources 7 [], bw_module = True\<rparr>"

definition default_options :: backend_options where
  "default_options = \<lparr>bo_compute_backend = ''eager'', bo_inductor_options = None, bo_placement = None, bo_runtime = False,
     bo_resources = None, bo_options = OptNone, bo_capacity = PyInt 128\<rparr>"

definition chain_backend :: backend where
  "chain_backend = \<lparr>bk_inductor = False, bk_closed = False, bk_event = False, bk_owns_runtime = True, bk_resources = ResAuto,
     bk_options = OptNone, bk_runtime = None,
     bk_cache = \<lparr>ac_capacity = 128, ac_entries = [], ac_rejections = [], ac_pending = []\<rparr>,
     bk_diagnostics = new_diagnostics, bk_registry = new_registry, bk_entries = [], bk_live = [], bk_replaced = 0\<rparr>"

definition chain_capture :: capture where
  "chain_capture = \<lparr>cp_graph = chain_graph, cp_version = Inr (), cp_grad_enabled = False, cp_needs_autograd = False,
     cp_report = Inr ([], [chain_region]), cp_executor = Inr ()\<rparr>"

definition idle_adapter :: transport_adapter where
  "idle_adapter = \<lparr>ta_options = [], ta_owns = False, ta_resources = None, ta_pid = 7, ta_closed = False, ta_module = True\<rparr>"

lemma chain_backend_new: "new_backend default_options new_registry idle_adapter = Inr chain_backend"
  by (simp add: new_backend_def default_options_def chain_backend_def transfer_configuration_def new_cache_def)

lemma new_backend_ok:
  assumes "new_backend bo g ta = Inr b" and "rg_entries g = []"
  shows "backend_ok bw b"
proof -
  have "registry_ok g" using assms(2) by (simp add: registry_ok_def od_ok_def od_keys_def)
  obtain c where c: "new_cache (bo_capacity bo) = Inr c" and b: "bk_cache b = c" "bk_diagnostics b = new_diagnostics" "bk_registry b = g"
      "bk_entries b = []" "bk_live b = []" "\<not> bk_event b" "\<not> bk_closed b"
    and t: "\<exists>opts. transfer_configuration (bk_resources b) (bk_options b) = Inr opts"
    using assms(1) by (auto simp: new_backend_def Let_def split: if_splits)
  have "ac_entries c = []" "ac_rejections c = []" "ac_pending c = []" using c by (auto simp: new_cache_def split: pyint.splits if_splits)
  with t show ?thesis using new_cache_ok [OF c] \<open>registry_ok g\<close> new_diagnostics_ok assms(2)
    unfolding backend_ok_def by (auto simp: b od_ok_def od_keys_def split: sum.splits)
qed

lemma longer_name_fresh: "fresh_namer longer_name"
proof -
  have "length n \<le> foldr max (map length used) 0" if "n \<in> set used" for n :: string and used
    using that by (induction used) auto
  then have "longer_name used \<notin> set used" for used
    by (metis Suc_n_not_le_n length_replicate longer_name_def)
  then show ?thesis by (simp add: fresh_namer_def)
qed

lemma extents_standard: "standard_ops id extents_semantics"
  by (auto simp: standard_ops_def extents_semantics_def)

definition chain_values :: "int list genv" where
  "chain_values = [''x'' \<mapsto> Tensor_Value [128], ''rows'' \<mapsto> Tensor_Value [2, 64], ''cols'' \<mapsto> Tensor_Value [64, 2], ''moved'' \<mapsto> Tensor_Value [64, 2],
     ''output'' \<mapsto> Tensor_Value [64, 2]]"

lemma chain_runs: "run_nodes extents_semantics chain_graph Map.empty = Some chain_values"
  by (simp add: chain_graph_def extents_semantics_def chain_values_def)

lemma chain_shape: "candidates_shape chain_graph [chain_region]"
  by (simp add: candidates_shape_def candidate_shape_def chain_graph_def chain_region_def operands_def)

lemma chain_symbol: "ident_start CHR ''s''" "ident_char CHR ''0''" "\<not> cr_typed readme_artifact"
  by code_simp+

lemma chain_compiles: "compiles_well chain_world id chain_values (\<lambda>_. 128) chain_region"
  by (simp add: compiles_well_def chain_world_def artifact_fits_def chain_region_def readme_artifact_def readme_recipe_def
      readme_sources_def reads_def chain_values_def Let_def chain_symbol)

lemma chain_serves: "serves chain_world extents_semantics chain_graph chain_values (\<lambda>_. 128) b chain_region"
  by (auto simp: serves_def chain_world_def transfer_call_def Let_def chain_symbol extents_semantics_def)
    (simp_all add: chain_region_def chain_values_def)

lemma chain_captured:
  "case capture_graph chain_world chain_capture chain_backend of
     (Inr gc, b) \<Rightarrow> (case gc_rewritten gc of Some g \<Rightarrow> \<not> gc_executor gc \<and> map gn_name g = [''x'', ''nnnnnnn'', ''nnnnnnnn'', ''nnnnnnnnn'', ''nnnnnnnnnn'', ''output''] | None \<Rightarrow> False)
   | _ \<Rightarrow> False"
  by code_simp

lemma chain_capture_run:
  obtains gc b g where "capture_graph chain_world chain_capture chain_backend = (Inr gc, b)" "gc_rewritten gc = Some g" "\<not> gc_executor gc"
proof -
  obtain r b where run: "capture_graph chain_world chain_capture chain_backend = (r, b)" by (metis surj_pair)
  with chain_captured show thesis using that by (cases r) (auto split: option.splits)
qed

theorem captured_program_equivalent_witness:
  "\<exists>gc b g. capture_graph chain_world chain_capture chain_backend = (Inr gc, b) \<and> gc_rewritten gc = Some g \<and>
     computes_same extents_semantics chain_graph chain_values {''rows'', ''cols'', ''moved''} g \<and>
     (\<forall>h\<in>set (gc_handles gc). handle_for chain_world [chain_region] b h)"
proof -
  obtain gc b g where run: "capture_graph chain_world chain_capture chain_backend = (Inr gc, b)" and g: "gc_rewritten gc = Some g"
    and ne: "\<not> gc_executor gc" by (rule chain_capture_run)
  have ok: "backend_ok chain_world chain_backend" by (rule new_backend_ok [OF chain_backend_new]) (simp add: new_registry_def)
  have u: "usable chain_world chain_backend" by (simp add: usable_def chain_world_def chain_backend_def)
  have call: "run_callable chain_world False False gc b = (Inr (Ran g), b)"
    using g ne by (simp add: run_callable_def give_def)
  have each: "\<forall>c\<in>set [chain_region]. compiles_well chain_world id chain_values (\<lambda>_. 128) c \<and>
      serves chain_world extents_semantics chain_graph chain_values (\<lambda>_. 128) b c"
    using chain_compiles chain_serves by simp
  have names: "bw_namer chain_world = longer_name" "cp_graph chain_capture = chain_graph" "cp_report chain_capture = Inr ([], [chain_region])"
    by (simp_all add: chain_world_def chain_capture_def)
  from captured_program_equivalent [where bw = chain_world and cp = chain_capture and \<rho> = "\<lambda>_ _. 128", unfolded names,
      OF ok u longer_name_fresh extents_standard chain_runs refl chain_shape each run call]
  have "computes_same extents_semantics chain_graph chain_values {''rows'', ''cols'', ''moved''} g \<and>
      (\<forall>h\<in>set (gc_handles gc). handle_for chain_world [chain_region] b h)"
    by (simp add: chain_region_def)
  with run g show ?thesis by blast
qed

end
