(* ===== verification/Backend_Life.thy ===== *)
theory Backend_Life
  imports Capture_Properties
begin

text \<open>
  The handles of a \<open>RelocBackend\<close> over its life: what rewriting adds, what a failed Inductor compilation takes
  back, and what closing leaves.
\<close>

section \<open>Handles\<close>

text \<open>Replacing a candidate adds exactly the handle it reports.\<close>

lemma grows_refl: "grows b b []"
  by (simp add: grows_def)

lemma skip_grows:
  assumes "skip_region reason p b = (Inr p', b')"
  shows "grows b b' [] \<and> pg_handles p' = pg_handles p"
  using assms by (auto simp: skip_region_def exclude_run andthen_def give_def grows_def)

lemma runtime_same:
  assumes "backend_runtime bw b = (r, b')"
  shows "same_handles b b'"
  using assms by (auto simp: backend_runtime_def check_backend_process_def require_backend_cases andthen_def give_def modify_def
      same_handles_def split: sum.splits option.splits if_splits)

lemma compile_same:
  assumes "compile_recipe bw r b = (q, b')"
  shows "same_handles b b'"
proof -
  have "same_handles b b2" if "cached_compile bw key r b = (q, b2)" for key b q b2
    using that by (auto simp: cached_compile_def same_handles_def split: option.splits sum.splits prod.splits)
  moreover have "same_handles b b2 \<Longrightarrow> same_handles b2 b3 \<Longrightarrow> same_handles b b3" for b b2 b3 by (simp add: same_handles_def)
  moreover have "same_handles b b" for b by (simp add: same_handles_def)
  ultimately show ?thesis using assms runtime_same
    by (auto simp: compile_recipe_def require_backend_cases andthen_def give_def split: sum.splits if_splits prod.splits) metis+
qed

lemma apply_grows:
  assumes ok: "backend_ok bw b" and run: "apply_region bw g0 c a dev p b = (Inr p', b')"
  shows "\<exists>h. grows b b' [h] \<and> pg_handles p' = pg_handles p @ [h]"
proof -
  obtain used g where cc: "current_copy g0 p = (used, g)" by (cases "current_copy g0 p")
  from run obtain b1 where rt: "backend_runtime bw b = (Inr (), b1)" and o: "\<not> bk_closed b1" "bw_same_process bw"
    and rest: "andthen (register_entry bw a c) (\<lambda>h.
     andthen (give (mapR (\<lambda>n. ensure (n \<in> gn_name ` set g0) (KeyErr n)) (rc_parameters c @ (case rc_index c of None \<Rightarrow> [] | Some i \<Rightarrow> [i])))) (\<lambda>_.
     andthen (give (replace_region (bw_namer bw) a c h dev used g)) (\<lambda>g'.
       give (Inr (p\<lparr>pg_copy := Some (map gn_name g' @ used, g'), pg_handles := pg_handles p @ [h]\<rparr>))))) b1 = (Inr p', b')"
    by (auto simp: apply_region_def cc andthen_Inr require_backend_cases split: if_splits)
  have ok1: "backend_ok bw b1" by (rule action_keepsD [OF keeps_runtime ok rt])
  obtain q b2 where reg: "register_entry bw a c b1 = (q, b2)" by (metis surj_pair)
  from register_entry_ok [OF ok1 reg o(1)] obtain h where h: "q = Inr h" "grows b1 b2 [h]" by (auto simp: grows_def)
  have "grows b b2 [h]" using grows_trans [OF grows_same [OF runtime_same [OF rt]] h(2)] by simp
  moreover have "b' = b2 \<and> pg_handles p' = pg_handles p @ [h]"
    using rest reg h(1) by (auto simp: andthen_def give_def split: sum.splits)
  ultimately show ?thesis by blast
qed

lemma candidate_grows:
  assumes ok: "backend_ok bw b" and run: "rewrite_candidate bw g0 c p b = (Inr p', b')"
  shows "\<exists>hs. grows b b' hs \<and> pg_handles p' = pg_handles p @ hs"
proof (cases "region_reason (map gn_name g0) g0 c")
  case (Some reason)
  with run have "skip_region reason p b = (Inr p', b')" by (simp add: rewrite_candidate_def)
  then show ?thesis using skip_grows by (intro exI [of _ "[]"]) simp
next
  case None
  obtain q b1 where comp: "compile_recipe bw (rc_recipe c) b = (q, b1)" by (metis surj_pair)
  have ok1: "backend_ok bw b1" by (rule action_keepsD [OF keeps_compile ok comp])
  have g1: "grows b b1 []" by (rule grows_same [OF compile_same [OF comp]])
  have skipped: ?thesis if "skip_region reason p1 b1 = (Inr p', b')" "pg_handles p1 = pg_handles p" for reason p1
    using skip_grows [OF that(1)] that(2) grows_trans [OF g1] by (intro exI [of _ "[]"]) auto
  show ?thesis
  proof (cases q)
    case (Inl e)
    then obtain x y where "skip_region x p b1 = (Inr p', b')"
      using run None comp by (cases e) (auto simp: rewrite_candidate_def)
    then show ?thesis using skipped by blast
  next
    case (Inr a)
    obtain used g where cc: "current_copy g0 p = (used, g)" by (cases "current_copy g0 p")
    let ?p = "p\<lparr>pg_copy := Some (used, g)\<rparr>"
    have rep: "replace_candidate bw g0 c a p b1 = (Inr p', b')" using run None comp Inr by (simp add: rewrite_candidate_def)
    show ?thesis
    proof (cases "\<exists>dev. apply_region bw g0 c a dev ?p b1 = (Inr p', b')")
      case True
      then obtain dev where "apply_region bw g0 c a dev ?p b1 = (Inr p', b')" ..
      from apply_grows [OF ok1 this] obtain h where "grows b1 b' [h]" "pg_handles p' = pg_handles p @ [h]" by auto
      then show ?thesis using grows_trans [OF g1] by fastforce
    next
      case False
      with rep obtain reason where "skip_region reason ?p b1 = (Inr p', b')"
        by (auto simp: replace_candidate_def Let_def cc give_def split: option.splits if_splits)
      then show ?thesis using skipped by simp
    qed
  qed
qed

lemma pass_grows:
  "backend_ok bw b \<Longrightarrow> for_fold (rewrite_candidate bw g0) cs p b = (Inr p', b') \<Longrightarrow>
    \<exists>hs. grows b b' hs \<and> pg_handles p' = pg_handles p @ hs"
proof (induction cs arbitrary: p b)
  case Nil
  then show ?case using grows_refl by (auto simp: give_def)
next
  case (Cons c cs)
  from Cons.prems(2) obtain p1 b1 where one: "rewrite_candidate bw g0 c p b = (Inr p1, b1)"
    and rest: "for_fold (rewrite_candidate bw g0) cs p1 b1 = (Inr p', b')" by (auto simp: andthen_Inr)
  have "backend_ok bw b1" by (rule action_keepsD [OF keeps_candidate Cons.prems(1) one])
  from Cons.IH [OF this rest] candidate_grows [OF Cons.prems(1) one] show ?case
    using grows_trans by fastforce
qed

lemma rewrite_grows:
  assumes "backend_ok bw b" and "rewrite bw g0 cs b = (Inr (g, hs), b')"
  shows "\<exists>new. bk_live b' = bk_live b @ new \<and> map fst new = hs"
proof (cases "cs = []")
  case True
  then show ?thesis using assms(2) by (simp add: rewrite_def give_def)
next
  case False
  with assms(2) obtain p b1 where loop: "for_fold (rewrite_candidate bw g0) cs \<lparr>pg_copy = None, pg_handles = []\<rparr> b = (Inr p, b1)"
    and out: "hs = pg_handles p" "bk_live b' = bk_live b1"
    by (auto simp: rewrite_def andthen_Inr give_def update_def Let_def split: if_splits)
  from pass_grows [OF assms(1) loop] out show ?thesis by (auto simp: grows_def)
qed

section \<open>A failed Inductor compilation\<close>

lemma drop_live: "bk_live (drop_registration h b) = od_del h (bk_live b)"
  by (simp add: drop_registration_def release_handle_def close_object_def split: option.splits)

lemma drop_all_live:
  "od_ok (xs @ new) \<Longrightarrow> bk_live b = xs @ new \<Longrightarrow> bk_live (fold drop_registration (map fst new) b) = xs"
proof (induction new arbitrary: b)
  case (Cons e new)
  obtain h i where e: "e = (h, i)" by (cases e)
  from Cons.prems(1) have out: "h \<notin> fst ` set xs" "h \<notin> fst ` set new" by (auto simp: e od_ok_def od_keys_def)
  have "filter (\<lambda>e. fst e \<noteq> h) ys = ys" if "h \<notin> fst ` set ys" for ys :: "(string \<times> nat) list"
    using that by (intro filter_True) auto
  then have "od_del h (xs @ (h, i) # new) = xs @ new" using out by (simp add: od_del_def)
  then have "bk_live (drop_registration h b) = xs @ new" using Cons.prems(2) by (simp add: drop_live e)
  moreover have "od_ok (xs @ new)" using Cons.prems(1) by (auto simp: e od_ok_def od_keys_def)
  ultimately show ?case using Cons.IH by (simp add: e)
qed simp

text \<open>
  C36. When Inductor refuses the rewritten graph the exception propagates, and nothing of the rewriting is left
  alive: the backend owns exactly the handles it owned before, and none of the new ones resolves.
\<close>

theorem failed_inductor_releases:
  assumes "backend_ok bw b" and "rewrite bw (cp_graph cp) cs b = (Inr (g, hs), b1)" and "cp_executor cp = Inl e"
    and "compile_executor cp g hs b1 = (r, b')"
  shows "r = Inl e \<and> backend_ok bw b' \<and> bk_live b' = bk_live b \<and> (\<forall>h\<in>set hs. \<exists>m. find_entry h b' = Inl (RuntimeErr m))"
proof -
  have ok1: "backend_ok bw b1" by (rule action_keepsD [OF keeps_rewrite assms(1,2)])
  obtain new where live: "bk_live b1 = bk_live b @ new" and hs: "map fst new = hs" using rewrite_grows [OF assms(1,2)] by blast
  obtain d where d: "increment ''inductor_compile_failures'' 1 (bk_diagnostics b1) = Inr d"
    using increment_known_ok [OF backend_okD(5) [OF ok1] backend_counters(5), of 1] by blast
  have run: "r = Inl e" "b' = fold drop_registration hs (b1\<lparr>bk_diagnostics := d\<rparr>)"
    using assms(3,4) d by (simp_all add: compile_executor_def andthen_def give_def update_def count_backend_def modify_def)
  have distinct: "od_ok (bk_live b @ new)" using backend_okD(7) [OF ok1] live by simp
  have live': "bk_live b' = bk_live b" unfolding run(2) hs [symmetric] by (rule drop_all_live [OF distinct]) (simp add: live)
  have ok': "backend_ok bw b'" by (rule action_keepsD [OF keeps_executor ok1 assms(4)])
  have "map_of (rg_entries (bk_registry b')) h = None" if "h \<in> set hs" for h
  proof -
    have "h \<notin> fst ` set (bk_live b)" using distinct that hs by (auto simp: od_ok_def od_keys_def)
    then show ?thesis using backend_okD(8) [OF ok'] live' by (simp add: map_of_eq_None_iff)
  qed
  then show ?thesis using run(1) ok' live' by (auto simp: find_entry_def lookup_handle_def)
qed

section \<open>The life of a backend\<close>

datatype backend_request = CompileRecipe recipe | CaptureGraph capture | RunCallable bool bool graph_callable
  | ReleaseCallable graph_callable | CloseBackend

definition serve :: "backend_world \<Rightarrow> backend_request \<Rightarrow> backend \<Rightarrow> backend" where
  "serve bw req b = (case req of
     CompileRecipe r \<Rightarrow> snd (compile_recipe bw r b)
   | CaptureGraph cp \<Rightarrow> snd (capture_graph bw cp b)
   | RunCallable grad autograd gc \<Rightarrow> snd (run_callable bw grad autograd gc b)
   | ReleaseCallable gc \<Rightarrow> snd (release_callable gc b)
   | CloseBackend \<Rightarrow> snd (close_backend bw b))"

lemma serve_ok: "backend_ok bw b \<Longrightarrow> bw_same_process bw \<Longrightarrow> backend_ok bw (serve bw req b)"
  using keeps_compile keeps_capture keeps_run release_callable_ok close_backend_spec
  unfolding serve_def keeps_def by (cases req) (auto, metis prod.collapse)

lemma serve_all_ok: "backend_ok bw b \<Longrightarrow> bw_same_process bw \<Longrightarrow> backend_ok bw (fold (serve bw) reqs b)"
  by (induction reqs arbitrary: b) (auto intro: serve_ok)

lemma live_resolves:
  assumes ok: "backend_ok bw b" and l: "map_of (bk_live b) h = Some i"
  shows "\<exists>en. find_entry h b = Inr en \<and> en_handle en = Some h \<and> \<not> entry_closed en"
proof -
  note D = backend_okD [OF ok]
  have i: "i < length (bk_entries b)" "en_handle (bk_entries b ! i) = Some h" "\<not> en_closed (bk_entries b ! i)"
    using D(9-11) [of h i] l by auto
  have "\<not> bk_closed b" using D(13) l by auto
  then have e: "\<not> bk_event b" using D(12) by simp
  have r: "map_of (rg_entries (bk_registry b)) h = Some i" using D(8) l by simp
  show ?thesis using i e r
    by (simp add: find_entry_def lookup_handle_def entry_is_closed_def entry_object_def entry_closed_def)
qed

lemma dead_lookup:
  assumes ok: "backend_ok bw b" and l: "map_of (bk_live b) h = None"
  shows "\<exists>m. find_entry h b = Inl (RuntimeErr m)"
  using l backend_okD(8) [OF ok] by (simp add: find_entry_def lookup_handle_def)

lemma closed_stays:
  assumes "bk_closed b"
  shows "bk_closed (serve bw req b)"
proof -
  have req: "\<exists>e. require_backend bw b = (Inl e, b)" using assms by (simp add: require_backend_cases)
  have rel: "bk_closed (fold release_handle hs b) = bk_closed b" for hs
    by (induction hs arbitrary: b) (simp_all add: release_handle_def)
  show ?thesis
  proof (cases req)
    case CloseBackend
    let ?c = "b\<lparr>bk_closed := True, bk_event := True, bk_live := []\<rparr>"
    have "bk_closed (fold (\<lambda>(h, i). release_handle h \<circ> close_object i) xs ?c)" for xs
      using close_walk [of xs ?c] by (simp add: Let_def)
    then show ?thesis using assms CloseBackend
      by (auto simp: serve_def close_backend_def check_backend_process_def action_defs ensure_def Let_def split: option.splits prod.splits)
  qed (use assms req rel in \<open>auto simp: serve_def compile_recipe_def capture_graph_def run_callable_def release_callable_def
      andthen_def give_def\<close>)
qed

text \<open>
  C35. Along any sequence of compilations, captures, calls, releases and closes, exceptions included, a handle
  resolves exactly while its registration is alive, to an open entry of that name; and from the first close
  on, no handle is alive and every capture is refused.
\<close>

theorem backend_life:
  assumes "new_backend bo g ta = Inr b" and "rg_entries g = []" and "bw_same_process bw"
    and "b' = fold (serve bw) reqs b"
  shows "(case map_of (bk_live b') h of
      Some i \<Rightarrow> \<exists>en. find_entry h b' = Inr en \<and> en_handle en = Some h \<and> \<not> entry_closed en
    | None \<Rightarrow> \<exists>m. find_entry h b' = Inl (RuntimeErr m)) \<and>
    (CloseBackend \<in> set reqs \<longrightarrow> bk_live b' = [] \<and> fst (capture_graph bw cp b') = Inl (RuntimeErr ''RelocBackend is closed''))"
proof -
  have start: "backend_ok bw b" by (rule new_backend_ok [OF assms(1,2)])
  have ok: "backend_ok bw b'" unfolding assms(4) by (rule serve_all_ok [OF start assms(3)])
  have "bk_closed (fold (serve bw) rs c)" if "backend_ok bw c" "bk_closed c \<or> CloseBackend \<in> set rs" for rs c
    using that
  proof (induction rs arbitrary: c)
    case (Cons x rs)
    have "backend_ok bw (serve bw x c)" using serve_ok [OF Cons.prems(1) assms(3)] .
    moreover have "bk_closed (serve bw x c) \<or> CloseBackend \<in> set rs"
    proof (cases "x = CloseBackend")
      case True
      then show ?thesis using close_backend_spec [OF Cons.prems(1) assms(3)] unfolding serve_def by (simp, metis prod.collapse)
    qed (use Cons.prems closed_stays in auto)
    ultimately show ?case using Cons.IH by simp
  qed simp
  then have "bk_closed b'" if "CloseBackend \<in> set reqs" using that start assms(4) by blast
  then have "bk_live b' = [] \<and> fst (capture_graph bw cp b') = Inl (RuntimeErr ''RelocBackend is closed'')" if "CloseBackend \<in> set reqs"
    using that backend_okD(13) [OF ok] assms(3) by (simp add: capture_graph_def andthen_def require_backend_cases)
  moreover have "case map_of (bk_live b') h of
      Some i \<Rightarrow> \<exists>en. find_entry h b' = Inr en \<and> en_handle en = Some h \<and> \<not> entry_closed en
    | None \<Rightarrow> \<exists>m. find_entry h b' = Inl (RuntimeErr m)"
    using live_resolves [OF ok] dead_lookup [OF ok] by (auto split: option.splits)
  ultimately show ?thesis by blast
qed

theorem backend_life_witness:
  "\<exists>b'. b' = fold (serve chain_world) [CaptureGraph chain_capture, CloseBackend] chain_backend \<and> bk_live b' = [] \<and>
     fst (capture_graph chain_world chain_capture b') = Inl (RuntimeErr ''RelocBackend is closed'')"
proof -
  have same: "bw_same_process chain_world" by (simp add: chain_world_def)
  have fresh: "rg_entries (new_registry :: nat registry) = []" by (simp add: new_registry_def)
  from backend_life [OF chain_backend_new fresh same refl, where reqs = "[CaptureGraph chain_capture, CloseBackend]" and h = "[]" and cp = chain_capture]
  show ?thesis by auto
qed

text \<open>The same capture on a backend for Inductor, which refuses the graph.\<close>

definition refused_capture :: capture where
  "refused_capture = chain_capture\<lparr>cp_executor := Inl (RuntimeErr ''lowering'')\<rparr>"

lemma chain_rewritten:
  "case rewrite chain_world chain_graph [chain_region] chain_backend of
     (Inr (g, hs), b) \<Rightarrow> length hs = 1 \<and> length (bk_live b) = 1 | _ \<Rightarrow> False"
  by code_simp

theorem failed_inductor_releases_witness:
  "\<exists>g h b1 r b'. rewrite chain_world chain_graph [chain_region] chain_backend = (Inr (g, [h]), b1) \<and>
     compile_executor refused_capture g [h] b1 = (r, b') \<and> r = Inl (RuntimeErr ''lowering'') \<and> bk_live b' = [] \<and>
     (\<exists>m. find_entry h b' = Inl (RuntimeErr m))"
proof -
  obtain x b1 where run: "rewrite chain_world chain_graph [chain_region] chain_backend = (x, b1)" by (metis surj_pair)
  with chain_rewritten obtain g hs where x: "x = Inr (g, hs)" "length hs = 1" by (cases x) auto
  then obtain h where hs: "hs = [h]" by (auto simp: length_Suc_conv)
  obtain r b' where ex: "compile_executor refused_capture g [h] b1 = (r, b')" by (metis surj_pair)
  have ok: "backend_ok chain_world chain_backend" by (rule new_backend_ok [OF chain_backend_new]) (simp add: new_registry_def)
  have graph: "cp_graph refused_capture = chain_graph" and refusal: "cp_executor refused_capture = Inl (RuntimeErr ''lowering'')"
    by (simp_all add: refused_capture_def chain_capture_def)
  have run': "rewrite chain_world (cp_graph refused_capture) [chain_region] chain_backend = (Inr (g, [h]), b1)"
    using run x hs graph by simp
  from failed_inductor_releases [OF ok run' refusal ex]
  have "r = Inl (RuntimeErr ''lowering'')" "bk_live b' = bk_live chain_backend" "\<exists>m. find_entry h b' = Inl (RuntimeErr m)" by auto
  then show ?thesis using run x hs ex by (auto simp: chain_backend_def)
qed

end
