(* ===== verification/Packing.thy ===== *)
theory Packing
  imports Replay
begin

text \<open>
  Padding values on their way into a recipe: \<open>_fill\<close> of \<open>reloc_torch/fx_import.py\<close>, with Python's
  \<open>struct.pack\<close> of IEEE values written out.  Replay reads the patterns back.
\<close>

section \<open>IEEE patterns\<close>

text \<open>The exponent of a magnitude: the first one, from the least, whose binade reaches it.\<close>

function exponent :: "int \<Rightarrow> int \<Rightarrow> rat \<Rightarrow> int option" where
  "exponent emax e q =
     (if emax < e then None else if q < 2 powi (e + 1) then Some e else exponent emax (e + 1) q)"
  by auto
termination by (relation "measure (\<lambda>(emax, e, q). nat (emax + 1 - e))") auto

declare exponent.simps [simp del]

definition round_half_even :: "rat \<Rightarrow> int" where
  "round_half_even q = (let f = \<lfloor>q\<rfloor>; r = q - of_int f in
     if r < 1 / 2 then f else if 1 / 2 < r then f + 1 else if even f then f else f + 1)"

text \<open>
  \<open>struct.pack\<close> with \<open>eb\<close> exponent and \<open>mb\<close> mantissa bits: rounded to nearest even; \<open>None\<close> is its
  \<open>OverflowError\<close>.  The one NaN is the quiet one.
\<close>

definition pack :: "nat \<Rightarrow> nat \<Rightarrow> float_value \<Rightarrow> int option" where
  "pack eb mb v =
     (let bias = 2 ^ (eb - 1) - 1; top = (2 ^ eb - 1) * 2 ^ mb; sign = (\<lambda>s. if s then 2 ^ (eb + mb) else 0) in
      case v of
        NotANumber \<Rightarrow> Some (top + 2 ^ (mb - 1))
      | Infinite s \<Rightarrow> Some (sign s + top)
      | Finite s q \<Rightarrow> (case exponent bias (1 - bias) q of
          None \<Rightarrow> None
        | Some e \<Rightarrow> (let bits = (e - (1 - bias)) * 2 ^ mb + round_half_even (q / 2 powi (e - int mb))
            in if top \<le> bits then None else Some (sign s + bits))))"

text \<open>A Python number as the double \<open>struct.pack\<close> converts it to.\<close>

definition as_double :: "fill_number \<Rightarrow> float_value option" where
  "as_double n = (case n of
     Floating v \<Rightarrow> Some v
   | Integral i \<Rightarrow> map_option (unpack 11 52) (pack 11 52 (Finite (i < 0) (of_int \<bar>i\<bar>))))"

text \<open>\<open>int(value)\<close> where it equals the value.\<close>

definition exact_int :: "fill_number \<Rightarrow> int option" where
  "exact_int n = (case n of
     Integral i \<Rightarrow> Some i
   | Floating (Finite s q) \<Rightarrow> if of_int \<lfloor>q\<rfloor> = q then Some (if s then - \<lfloor>q\<rfloor> else \<lfloor>q\<rfloor>) else None
   | Floating _ \<Rightarrow> None)"

text \<open>\<open>_Reject\<close> carries the reason an exclusion reports; nothing below raises this class otherwise.\<close>

definition reject :: "string \<Rightarrow> 'a res" where
  "reject reason = Inl (UnsupportedRecipe reason [])"

lemma reject_not_Inr [simp]: "reject r \<noteq> Inr x" "Inr x \<noteq> reject r"
  by (simp_all add: reject_def)

definition fill_bits_of :: "string \<Rightarrow> fill_number \<Rightarrow> int option" where
  "fill_bits_of dtype n =
     (if dtype = ''int8''
      then (case exact_int n of None \<Rightarrow> None | Some i \<Rightarrow> if -128 \<le> i \<and> i \<le> 127 then Some (i mod 256) else None)
      else Option.bind (as_double n) (if dtype = ''float32'' then pack 8 23 else pack 5 10))"

definition fill_from :: "string \<Rightarrow> fill_number \<Rightarrow> fill res" where
  "fill_from dtype n = (case fill_bits_of dtype n of
     None \<Rightarrow> reject ''unsupported_padding''
   | Some bits \<Rightarrow> (case mk_fill dtype bits of Inl e \<Rightarrow> reject ''unsupported_padding'' | Inr f \<Rightarrow> Inr f))"

section \<open>Packing is exact on what unpacks\<close>

lemma exponent_is:
  "e0 \<le> e \<Longrightarrow> e \<le> emax \<Longrightarrow> q < 2 powi (e + 1) \<Longrightarrow> e0 = e \<or> 2 powi e \<le> q \<Longrightarrow> exponent emax e0 q = Some e"
proof (induction emax e0 q rule: exponent.induct)
  case (1 emax e0 q)
  show ?case
  proof (cases "e0 = e")
    case True
    then show ?thesis using "1.prems" by (subst exponent.simps) simp
  next
    case False
    then have "(2::rat) powi (e0 + 1) \<le> 2 powi e" using "1.prems" by (intro power_int_increasing) auto
    then have n: "\<not> q < 2 powi (e0 + 1)" using "1.prems" False by linarith
    then have "exponent emax (e0 + 1) q = Some e" using 1 False by simp
    then show ?thesis using n "1.prems" False by (subst exponent.simps) simp
  qed
qed

lemma round_half_even_int [simp]: "round_half_even (of_int m) = m"
  by (simp add: round_half_even_def Let_def)

lemma pack_scaled:
  fixes e :: int
  assumes "1 - bias \<le> e" "e \<le> bias" and bias: "bias = 2 ^ (eb - 1) - 1" and m: "0 \<le> m" "m < 2 ^ (mb + 1)"
    and norm: "e = 1 - bias \<or> 2 ^ mb \<le> m" and small: "(e - (1 - bias)) * 2 ^ mb + m < (2 ^ eb - 1) * 2 ^ mb"
  shows "pack eb mb (Finite s (of_int m * 2 powi (e - int mb))) =
    Some ((if s then 2 ^ (eb + mb) else 0) + ((e - (1 - bias)) * 2 ^ mb + m))"
proof -
  let ?q = "of_int m * 2 powi (e - int mb) :: rat"
  have p: "(2::rat) powi e = 2 ^ mb * 2 powi (e - int mb)"
    by (simp add: power_int_diff)
  have "(of_int m :: rat) < of_int (2 ^ (mb + 1))" using m by (simp only: of_int_less_iff)
  then have lt: "?q < 2 ^ (mb + 1) * 2 powi (e - int mb)" by simp
  have "2 powi (e + 1) = (2 ^ (mb + 1) * 2 powi (e - int mb) :: rat)" using p by (simp add: power_int_add)
  with lt have 1: "?q < 2 powi (e + 1)" by simp
  have 2: "1 - bias = e \<or> 2 powi e \<le> ?q"
  proof (cases "2 ^ mb \<le> m")
    case True
    then have "(of_int (2 ^ mb) :: rat) \<le> of_int m" by (simp only: of_int_le_iff)
    then show ?thesis using p by simp
  qed (use norm in auto)
  have "exponent bias (1 - bias) ?q = Some e" using assms(1,2) 1 2 by (rule exponent_is)
  moreover have "?q / 2 powi (e - int mb) = of_int m" by simp
  ultimately show ?thesis
    using small unfolding pack_def bias [symmetric] Let_def float_value.case by simp
qed

lemma pack_unpack:
  assumes bits: "0 \<le> bits" "bits < 2 ^ (eb + mb + 1)" and eb: "2 \<le> eb" and fin: "unpack eb mb bits \<noteq> NotANumber"
  shows "pack eb mb (unpack eb mb bits) = Some bits"
proof -
  define e where "e = bits div 2 ^ mb mod 2 ^ eb"
  define m where "m = bits mod 2 ^ mb"
  define neg where "neg \<longleftrightarrow> bits div 2 ^ (eb + mb) mod 2 = 1"
  define bias :: int where "bias = 2 ^ (eb - 1) - 1"
  have e: "0 \<le> e" "e < 2 ^ eb" and m: "0 \<le> m" "m < 2 ^ mb" by (simp_all add: e_def m_def)
  have b2: "2 ^ eb = 2 * bias + 2" using eb by (cases eb) (simp_all add: bias_def)
  have "bits div 2 ^ (eb + mb) < 2"
  proof (rule ccontr)
    let ?k = "2 ^ (eb + mb) :: int"
    assume "\<not> bits div ?k < 2"
    then have "?k * 2 \<le> ?k * (bits div ?k)" by (intro mult_left_mono) auto
    also have "\<dots> \<le> bits" using mult_div_mod_eq [of ?k bits] pos_mod_sign [of ?k bits]
      by (smt (verit) zero_less_power)
    finally show False using bits by simp
  qed
  moreover have "0 \<le> bits div 2 ^ (eb + mb)" using bits by (simp add: pos_imp_zdiv_nonneg_iff)
  moreover have "0 \<le> x \<Longrightarrow> x < 2 \<Longrightarrow> x = (if x mod 2 = 1 then 1 else 0)" for x :: int by auto
  ultimately have "bits div 2 ^ (eb + mb) = (if neg then 1 else 0)" unfolding neg_def by blast
  moreover have "bits div 2 ^ mb = 2 ^ eb * (bits div 2 ^ (eb + mb)) + e"
    using mult_div_mod_eq [of "2 ^ eb" "bits div 2 ^ mb"]
    by (simp add: e_def power_add mult.commute [of "2 ^ eb"] zdiv_zmult2_eq)
  moreover have "bits = 2 ^ mb * (bits div 2 ^ mb) + m" by (simp add: m_def)
  ultimately have total: "bits = (if neg then 2 ^ (eb + mb) else 0) + (e * 2 ^ mb + m)"
    by (auto simp: power_add algebra_simps)
  have un: "unpack eb mb bits = (if e = 2 ^ eb - 1 then (if m = 0 then Infinite neg else NotANumber)
      else if e = 0 then Finite neg (of_int m * 2 powi (1 - bias - int mb))
      else Finite neg (of_int (2 ^ mb + m) * 2 powi (e - bias - int mb)))"
    by (simp only: unpack_def Let_def e_def m_def neg_def bias_def)
  have small: "e * 2 ^ mb + m < (2 ^ eb - 1) * 2 ^ mb" if "e \<noteq> 2 ^ eb - 1"
  proof -
    have "e + 1 \<le> 2 ^ eb - 1" using e that by linarith
    then have "(e + 1) * 2 ^ mb \<le> (2 ^ eb - 1) * 2 ^ mb" by (rule mult_right_mono) simp
    then show ?thesis using m by (simp add: algebra_simps)
  qed
  have pos: "1 \<le> bias"
  proof -
    have "(2::int) ^ 1 \<le> 2 ^ (eb - 1)" using eb by (intro power_increasing) auto
    then show ?thesis by (simp add: bias_def)
  qed
  consider "e = 2 ^ eb - 1" | "e \<noteq> 2 ^ eb - 1" "e = 0" | "e \<noteq> 2 ^ eb - 1" "e \<noteq> 0" by blast
  then show ?thesis
  proof cases
    case 1
    then have "m = 0" "unpack eb mb bits = Infinite neg" using un fin by (auto split: if_splits)
    then show ?thesis using total 1 by (simp add: pack_def Let_def)
  next
    case 2
    then have u: "unpack eb mb bits = Finite neg (of_int m * 2 powi (1 - bias - int mb))" using un by simp
    show ?thesis unfolding u
      using pack_scaled [of bias "1 - bias" eb m mb neg] m small [OF 2(1)] 2 pos total bias_def by simp
  next
    case 3
    then have u: "unpack eb mb bits = Finite neg (of_int (2 ^ mb + m) * 2 powi (e - bias - int mb))" using un by simp
    have "e - bias - (1 - bias) = e - 1" by simp
    then have "(e - bias - (1 - bias)) * 2 ^ mb + (2 ^ mb + m) = e * 2 ^ mb + m" by (simp only: left_diff_distrib)
    moreover have "e - bias \<le> bias" using e 3 b2 by linarith
    moreover have "1 - bias \<le> e - bias" using e 3 by linarith
    ultimately show ?thesis unfolding u
      using pack_scaled [of bias "e - bias" eb "2 ^ mb + m" mb neg] m small [OF 3(1)] total bias_def by simp
  qed
qed

lemma fill_from_value:
  assumes ok: "fill_ok f" and dtype: "fill_dtype f \<in> {''float32'', ''float16'', ''int8''}"
    and number: "fill_value f \<noteq> Floating NotANumber"
  shows "fill_from (fill_dtype f) (fill_value f) = Inr f"
proof -
  have mk: "mk_fill (fill_dtype f) (fill_bits f) = Inr f" using ok by (simp add: mk_fill_eq_Inr)
  have bits: "0 \<le> fill_bits f" using ok by (simp add: fill_ok_def bits_fit_def split: option.splits)
  consider (single) "fill_dtype f = ''float32''" | (half) "fill_dtype f = ''float16''" | (byte) "fill_dtype f = ''int8''"
    using dtype by blast
  then have "fill_bits_of (fill_dtype f) (fill_value f) = Some (fill_bits f)"
  proof cases
    case single
    then have "fill_bits f < 2 ^ (8 + 23 + 1)" using ok by (simp add: fill_ok_def bits_fit_def tensor_dtypes_def)
    with single bits number show ?thesis
      by (simp add: fill_bits_of_def fill_value_def as_double_def pack_unpack)
  next
    case half
    then have "fill_bits f < 2 ^ (5 + 10 + 1)" using ok by (simp add: fill_ok_def bits_fit_def tensor_dtypes_def)
    with half bits number show ?thesis
      by (simp add: fill_bits_of_def fill_value_def as_double_def pack_unpack)
  next
    case byte
    then have "fill_bits f < 256" using ok by (simp add: fill_ok_def bits_fit_def tensor_dtypes_def)
    with byte bits show ?thesis
      by (simp add: fill_bits_of_def fill_value_def exact_int_def)
  qed
  with mk show ?thesis by (simp add: fill_from_def)
qed

lemma fill_from_ok: "fill_from dtype n = Inr f \<Longrightarrow> fill_ok f \<and> fill_dtype f = dtype"
  by (auto simp: fill_from_def mk_fill_eq_Inr split: option.splits sum.splits)

end
