(* ===== verification/Provenance.thy ===== *)
theory Provenance
  imports Binding
begin

text \<open>
  \<open>compat.SymbolicContext\<close>: how the symbolic extents Torch records become the expressions of a recipe.
  SymPy's expression trees are data here; the shape environment answers only whether a symbol is backed.
\<close>

section \<open>Symbolic extents\<close>

datatype sym_expr =
    SInteger int
  | SSymbol string
  | SAdd "sym_expr list"
  | SMul "sym_expr list"
  | SMax "sym_expr list"
  | SFloorDiv sym_expr sym_expr
  | SModulo sym_expr sym_expr
  | SPower sym_expr sym_expr
  | SFunction string

text \<open>A dimension: an integer, a \<open>SymInt\<close> with its shape environment, or another object.\<close>

datatype graph_dim = DimInt int | DimSym "nat option" sym_expr | DimOther

type_synonym backing = "nat \<Rightarrow> string \<Rightarrow> bool"

record context_state =
  cx_symbols :: "((nat \<times> string) \<times> nat) list"
  cx_sources :: "symbol_source list"

definition empty_context :: context_state where
  "empty_context = \<lparr>cx_symbols = [], cx_sources = []\<rparr>"

section \<open>Sources\<close>

text \<open>The body of \<open>add_tensor\<close> for one dimension that is a \<open>SymInt\<close>.\<close>

definition add_symbol :: "string \<Rightarrow> int \<Rightarrow> nat \<times> string \<Rightarrow> context_state \<Rightarrow> context_state" where
  "add_symbol operand axis key cx = (case map_of (cx_symbols cx) key of
     Some i \<Rightarrow> (let source = cx_sources cx ! i in
       if ss_operand source = operand
       then cx\<lparr>cx_sources := (cx_sources cx)[i := source\<lparr>ss_equal_axes := ss_equal_axes source @ [axis]\<rparr>]\<rparr> else cx)
   | None \<Rightarrow> (let i = length (cx_sources cx) in
       \<lparr>cx_symbols = cx_symbols cx @ [(key, i)],
        cx_sources = cx_sources cx @ [\<lparr>ss_name = CHR ''s'' # py_str (int i), ss_axis = axis, ss_equal_axes = [], ss_operand = operand\<rparr>]\<rparr>))"

fun add_dims :: "backing \<Rightarrow> string \<Rightarrow> int \<Rightarrow> graph_dim list \<Rightarrow> context_state \<Rightarrow> context_state res" where
  "add_dims backed operand axis [] cx = Inr cx"
| "add_dims backed operand axis (d # ds) cx = (case d of
     DimInt _ \<Rightarrow> add_dims backed operand (axis + 1) ds cx
   | DimOther \<Rightarrow> Inl (UnsupportedSymbolicExpr ''noninteger source dimension'')
   | DimSym (Some v) (SSymbol s) \<Rightarrow>
       if backed v s then add_dims backed operand (axis + 1) ds (add_symbol operand axis (v, s) cx)
       else Inl (UnsupportedSymbolicExpr ''source dimension is not an independent backed symbol'')
   | DimSym _ _ \<Rightarrow> Inl (UnsupportedSymbolicExpr ''source dimension is not an independent backed symbol''))"

definition add_tensor :: "backing \<Rightarrow> graph_dim list \<Rightarrow> string \<Rightarrow> context_state \<Rightarrow> context_state res" where
  "add_tensor backed shape operand cx = add_dims backed operand 0 shape cx"

definition from_tensor :: "backing \<Rightarrow> graph_dim list \<Rightarrow> context_state res" where
  "from_tensor backed shape = add_tensor backed shape ''source'' empty_context"

section \<open>Expressions\<close>

text \<open>\<open>functools.reduce\<close> without a start value.\<close>

fun reduce_with :: "(expr \<Rightarrow> expr \<Rightarrow> expr) \<Rightarrow> expr list \<Rightarrow> expr res" where
  "reduce_with f [] = Inl (TypeErr ''reduce() of empty iterable with no initial value'')"
| "reduce_with f (x # xs) = Inr (foldl f x xs)"

fun convert :: "backing \<Rightarrow> context_state \<Rightarrow> nat option \<Rightarrow> expr list \<Rightarrow> sym_expr \<Rightarrow> expr res" where
  "convert backed cx env positive (SInteger i) = Inr (Const i)"
| "convert backed cx env positive (SSymbol s) = (case env of
     None \<Rightarrow> Inl (UnsupportedSymbolicExpr ''unbacked or non-source symbol'')
   | Some v \<Rightarrow> (case map_of (cx_symbols cx) (v, s) of
       None \<Rightarrow> Inl (UnsupportedSymbolicExpr ''unbacked or non-source symbol'')
     | Some i \<Rightarrow> if backed v s then Inr (Symbol (ss_name (cx_sources cx ! i)))
         else Inl (UnsupportedSymbolicExpr ''unbacked or non-source symbol'')))"
| "convert backed cx env positive (SMax es) =
     (case es of
       [x, y] \<Rightarrow> if x = SInteger 1 \<and> y = SInteger 1 then Inl (OtherExn ''StopIteration'')
         else if x = SInteger 1 \<or> y = SInteger 1
         then res_bind (if x = SInteger 1 then convert backed cx env positive y else convert backed cx env positive x) (\<lambda>e.
           if e \<in> set positive then Inr e else Inl (UnsupportedSymbolicExpr ''Max extent lacks a positive guard''))
         else Inl (UnsupportedSymbolicExpr ''unknown expression function Max'')
     | _ \<Rightarrow> Inl (UnsupportedSymbolicExpr ''unknown expression function Max''))"
| "convert backed cx env positive (SAdd es) = res_bind (mapR (convert backed cx env positive) es) (reduce_with add)"
| "convert backed cx env positive (SMul es) = res_bind (mapR (convert backed cx env positive) es) (reduce_with mul)"
| "convert backed cx env positive (SFloorDiv l r) = (case r of
     SInteger d \<Rightarrow> if d \<le> 0 then Inl (UnsupportedSymbolicExpr ''symbolic or nonpositive divisor'')
       else res_bind (convert backed cx env positive l) (\<lambda>e. mk_floordiv e d)
   | _ \<Rightarrow> Inl (UnsupportedSymbolicExpr ''symbolic or nonpositive divisor''))"
| "convert backed cx env positive (SModulo l r) = (case r of
     SInteger d \<Rightarrow> if d \<le> 0 then Inl (UnsupportedSymbolicExpr ''symbolic or nonpositive divisor'')
       else res_bind (convert backed cx env positive l) (\<lambda>e. mk_mod e d)
   | _ \<Rightarrow> Inl (UnsupportedSymbolicExpr ''symbolic or nonpositive divisor''))"
| "convert backed cx env positive (SPower b e) = (case e of
     SInteger n \<Rightarrow> if n < 0 then Inl (UnsupportedSymbolicExpr ''unknown expression function Pow'')
       else if n = 0 then Inr (Const 1)
       else res_bind (convert backed cx env positive b) (\<lambda>x. Inr (foldl mul (Const 1) (replicate (nat n) x)))
   | _ \<Rightarrow> Inl (UnsupportedSymbolicExpr ''unknown expression function Pow''))"
| "convert backed cx env positive (SFunction f) = Inl (UnsupportedSymbolicExpr (''unknown expression function '' @ f))"

definition context_expression :: "backing \<Rightarrow> context_state \<Rightarrow> expr list \<Rightarrow> graph_dim \<Rightarrow> expr res" where
  "context_expression backed cx positive d = (case d of
     DimInt n \<Rightarrow> Inr (Const n)
   | DimSym env e \<Rightarrow> convert backed cx env positive e
   | DimOther \<Rightarrow> Inl (UnsupportedSymbolicExpr ''expected integer or backed SymInt''))"

text \<open>The descriptor of a tensor in a context.\<close>

definition context_spec ::
  "backing \<Rightarrow> context_state \<Rightarrow> bool \<Rightarrow> expr list \<Rightarrow> graph_dim tensor_spec \<Rightarrow> expr tensor_spec res" where
  "context_spec backed cx require_dense positive t =
     res_bind (mapR (context_expression backed cx []) (ts_shape t)) (\<lambda>shape.
     res_bind (mapR (context_expression backed cx positive) (ts_strides t)) (\<lambda>strides.
     res_bind (context_expression backed cx [] (ts_offset t)) (\<lambda>ofs.
     if require_dense \<and> (shape = [] \<or> strides \<noteq> dense_strides shape \<or> ofs \<noteq> Const 0)
     then Inl (UnsupportedSymbolicExpr ''source_layout: expected dense zero-offset tensor'')
     else Inr \<lparr>ts_shape = shape, ts_strides = strides, ts_offset = ofs, ts_dtype = ts_dtype t\<rparr>)))"

section \<open>Meaning\<close>

text \<open>The integer a SymPy tree denotes when its symbols do.\<close>

fun sym_value :: "(string \<Rightarrow> int) \<Rightarrow> sym_expr \<Rightarrow> int" where
  "sym_value \<sigma> (SInteger i) = i"
| "sym_value \<sigma> (SSymbol s) = \<sigma> s"
| "sym_value \<sigma> (SAdd es) = sum_list (map (sym_value \<sigma>) es)"
| "sym_value \<sigma> (SMul es) = prod_list (map (sym_value \<sigma>) es)"
| "sym_value \<sigma> (SMax es) = (case es of [] \<Rightarrow> 0 | x # xs \<Rightarrow> fold max (map (sym_value \<sigma>) xs) (sym_value \<sigma> x))"
| "sym_value \<sigma> (SFloorDiv l r) = sym_value \<sigma> l div sym_value \<sigma> r"
| "sym_value \<sigma> (SModulo l r) = sym_value \<sigma> l mod sym_value \<sigma> r"
| "sym_value \<sigma> (SPower b e) = sym_value \<sigma> b ^ nat (sym_value \<sigma> e)"
| "sym_value \<sigma> (SFunction f) = 0"

text \<open>Every symbol of the context is named by a source of its own, \<open>s0\<close>, \<open>s1\<close> and so on.\<close>

definition context_ok :: "context_state \<Rightarrow> bool" where
  "context_ok cx \<longleftrightarrow> map snd (cx_symbols cx) = [0..<length (cx_sources cx)] \<and> distinct (map fst (cx_symbols cx)) \<and>
     map ss_name (cx_sources cx) = map (\<lambda>i. CHR ''s'' # py_str (int i)) [0..<length (cx_sources cx)]"

text \<open>A valuation of names agrees with one of the environments' symbols.\<close>

definition names_value :: "context_state \<Rightarrow> (nat \<Rightarrow> string \<Rightarrow> int) \<Rightarrow> (string \<Rightarrow> int) \<Rightarrow> bool" where
  "names_value cx \<sigma> \<rho> \<longleftrightarrow> (\<forall>v s i. map_of (cx_symbols cx) (v, s) = Some i \<longrightarrow> \<rho> (ss_name (cx_sources cx ! i)) = \<sigma> v s)"

lemma empty_context_ok: "context_ok empty_context"
  by (simp add: context_ok_def empty_context_def)

lemma context_index:
  assumes "context_ok cx" and "map_of (cx_symbols cx) key = Some i"
  shows "i < length (cx_sources cx) \<and> ss_name (cx_sources cx ! i) = CHR ''s'' # py_str (int i)"
proof -
  have "i \<in> set (map snd (cx_symbols cx))" using map_of_SomeD [OF assms(2)] by force
  also have "map snd (cx_symbols cx) = [0..<length (cx_sources cx)]" using assms(1) by (simp add: context_ok_def)
  finally have i: "i < length (cx_sources cx)" by simp
  have "map ss_name (cx_sources cx) ! i = map (\<lambda>i. CHR ''s'' # py_str (int i)) [0..<length (cx_sources cx)] ! i"
    using assms(1) by (simp only: context_ok_def)
  with i show ?thesis by simp
qed

lemma add_symbol_ok:
  assumes "context_ok cx"
  shows "context_ok (add_symbol operand axis key cx)"
proof (cases "map_of (cx_symbols cx) key")
  case None
  then have "key \<notin> set (map fst (cx_symbols cx))" by (simp add: map_of_eq_None_iff)
  with None assms show ?thesis by (simp add: add_symbol_def Let_def context_ok_def)
next
  case (Some i)
  have "map ss_name ((cx_sources cx)[i := (cx_sources cx ! i)\<lparr>ss_equal_axes := x\<rparr>]) = map ss_name (cx_sources cx)" for x
    by (metis list_update_id map_update symbol_source.select_convs(1) symbol_source.surjective symbol_source.update_convs(3))
  with Some assms show ?thesis by (auto simp: add_symbol_def Let_def context_ok_def)
qed

lemma add_dims_ok: "context_ok cx \<Longrightarrow> add_dims backed operand axis ds cx = Inr cx' \<Longrightarrow> context_ok cx'"
proof (induction ds arbitrary: axis cx)
  case (Cons d ds)
  then show ?case
    by (cases d) (auto split: option.splits sym_expr.splits if_splits intro: add_symbol_ok)
qed simp

lemma from_tensor_ok: "from_tensor backed shape = Inr cx \<Longrightarrow> context_ok cx"
  unfolding from_tensor_def add_tensor_def using add_dims_ok empty_context_ok by blast

lemma source_name_identifier: "ascii_identifier (CHR ''s'' # py_str (int i))"
proof -
  have "list_all ident_char (py_str (int i))"
    using nat_digits_digit by (auto simp: py_str_def list_all_iff ident_char_def)
  moreover have "ident_start CHR ''s''" by code_simp
  ultimately show ?thesis by simp
qed

text \<open>The conversion is exact, and what it returns is a well-formed expression.\<close>

lemma foldl_add_den: "den \<rho> (foldl add x xs) = den \<rho> x + sum_list (map (den \<rho>) xs)"
  by (induction xs arbitrary: x) (simp_all add: den_add)

lemma foldl_mul_den: "den \<rho> (foldl mul x xs) = den \<rho> x * prod_list (map (den \<rho>) xs)"
  by (induction xs arbitrary: x) (simp_all add: den_mul)

lemma foldl_add_wf: "wf_expr x \<Longrightarrow> list_all wf_expr xs \<Longrightarrow> wf_expr (foldl add x xs)"
  by (induction xs arbitrary: x) (simp_all add: wf_add)

lemma foldl_mul_wf: "wf_expr x \<Longrightarrow> list_all wf_expr xs \<Longrightarrow> wf_expr (foldl mul x xs)"
  by (induction xs arbitrary: x) (simp_all add: wf_mul)

lemma convert_exact:
  assumes cx: "context_ok cx" and val: "names_value cx \<sigma> \<rho>" and pos: "\<forall>p\<in>set positive. 1 \<le> den \<rho> p"
  shows "convert backed cx (Some v) positive e = Inr x \<Longrightarrow> den \<rho> x = sym_value (\<sigma> v) e \<and> wf_expr x"
proof (induction e arbitrary: x)
  case (SSymbol s)
  then obtain i where "map_of (cx_symbols cx) (v, s) = Some i" "x = Symbol (ss_name (cx_sources cx ! i))"
    by (auto split: option.splits if_splits)
  then show ?case using val context_index [OF cx] source_name_identifier by (simp add: names_value_def)
next
  case (SAdd es)
  then obtain xs where xs: "list_all2 (\<lambda>e x. convert backed cx (Some v) positive e = Inr x) es xs" and r: "reduce_with add xs = Inr x"
    by (auto simp: mapR_eq_Inr)
  have m: "map (den \<rho>) xs = map (sym_value (\<sigma> v)) es \<and> list_all wf_expr xs"
    using xs SAdd.IH by (induction es xs rule: list_all2_induct) auto
  from r m show ?case by (cases xs) (auto simp: foldl_add_den foldl_add_wf simp flip: sum_list.Cons)
next
  case (SMul es)
  then obtain xs where xs: "list_all2 (\<lambda>e x. convert backed cx (Some v) positive e = Inr x) es xs" and r: "reduce_with mul xs = Inr x"
    by (auto simp: mapR_eq_Inr)
  have m: "map (den \<rho>) xs = map (sym_value (\<sigma> v)) es \<and> list_all wf_expr xs"
    using xs SMul.IH by (induction es xs rule: list_all2_induct) auto
  from r m show ?case by (cases xs) (auto simp: foldl_mul_den foldl_mul_wf simp flip: prod_list.Cons)
next
  case (SMax es)
  then obtain a b where es: "es = [a, b]" "a = SInteger 1 \<or> b = SInteger 1"
    by (auto split: list.splits if_splits)
  let ?o = "if a = SInteger 1 then b else a"
  have "convert backed cx (Some v) positive ?o = Inr x" "x \<in> set positive"
    using SMax.prems es by (auto split: if_splits)
  moreover have "?o \<in> set es" using es by auto
  ultimately have "den \<rho> x = sym_value (\<sigma> v) ?o" "wf_expr x" "1 \<le> den \<rho> x" using SMax.IH pos by blast+
  then show ?case using es by auto
next
  case (SFloorDiv l r)
  then show ?case by (auto simp: mk_floordiv_def split: sym_expr.splits if_splits)
next
  case (SModulo l r)
  then show ?case by (auto simp: mk_mod_def split: sym_expr.splits if_splits)
next
  case (SPower b e)
  then obtain n where e: "e = SInteger n" "0 \<le> n" by (auto split: sym_expr.splits if_splits)
  show ?case
  proof (cases "n = 0")
    case True
    then have "x = Const 1" using SPower.prems e by simp
    then show ?thesis using True e by simp
  next
    case False
    then obtain y where "convert backed cx (Some v) positive b = Inr y" "x = foldl mul (Const 1) (replicate (nat n) y)"
      using SPower.prems e by auto
    moreover have "prod_list (replicate k (den \<rho> y)) = den \<rho> y ^ k" for k by (induction k) simp_all
    ultimately show ?thesis using SPower.IH(1) e by (simp add: foldl_mul_den foldl_mul_wf list_all_iff)
  qed
qed simp_all

end
