(* ===== verification/Fx_Graph.thy ===== *)
theory Fx_Graph
  imports Packing Provenance Graph_Rewrite
begin

text \<open>
  Captured FX graphs as the importer reads them (\<open>reloc_torch/compat.py\<close>, \<open>reloc_torch/fx_import.py\<close>): nodes with
  their arguments and metadata, the closed vocabulary of operators, alias and mutation contracts, and the
  search for regions.  Operator schemas, the shape environment and the registration of the quantised operators
  are Torch's and form a record of arguments.
\<close>

section \<open>Nodes\<close>

datatype fx_arg =
    VRef string | VInt int | VFloat float_value | VBool bool | VNone | VStr string
  | VSym "nat option" sym_expr | VDtype string | VDevice device | VFormat string | VList "fx_arg list"

datatype fx_op = Op_Placeholder | Op_Get_Attr | Op_Function | Op_Method | Op_Module | Op_Output

text \<open>The metadata of a tensor: \<open>mt_subclass\<close> excludes fake tensors, plain tensors and parameters.\<close>

record meta_tensor =
  mt_spec :: "graph_dim tensor_spec"
  mt_device :: device
  mt_requires_grad :: bool
  mt_subclass :: bool
  mt_strided :: bool
  mt_quantized :: bool

datatype meta_value = No_Value | Tensor_Meta meta_tensor | Scalar_Meta fx_arg

text \<open>\<open>fn_value\<close> is \<open>compat.graph_value\<close>, \<open>fn_reason\<close> the entry \<open>reloc_reason\<close> of the node's metadata.\<close>

record fx_node =
  fn_name :: string
  fn_op :: fx_op
  fn_target :: string
  fn_args :: "fx_arg list"
  fn_kwargs :: "(string \<times> fx_arg) list"
  fn_value :: meta_value
  fn_reason :: "string option"

type_synonym fx_graph = "fx_node list"

text \<open>An operator schema: argument names with whether they are written, and whether a return has alias information.\<close>

record schema =
  sc_arguments :: "(string \<times> bool) list"
  sc_alias_returns :: bool

text \<open>
  \<open>iw_known_ge\<close> and \<open>iw_known_ne\<close> are \<open>statically_known_true\<close> of the two comparisons; \<open>None\<close> is an exception.
\<close>

record import_world =
  iw_schema :: "string \<Rightarrow> schema option"
  iw_quantized :: bool
  iw_backed :: backing
  iw_known_ge :: "graph_dim \<Rightarrow> int \<Rightarrow> bool option"
  iw_known_ne :: "graph_dim \<Rightarrow> int \<Rightarrow> bool option"
  iw_grad_enabled :: bool

fun refs :: "fx_arg \<Rightarrow> string list" where
  "refs (VRef n) = [n]"
| "refs (VList as) = concat (map refs as)"
| "refs _ = []"

definition all_input_nodes :: "fx_node \<Rightarrow> string list" where
  "all_input_nodes n = concat (map refs (fn_args n)) @ concat (map (refs \<circ> snd) (fn_kwargs n))"

definition find_node :: "fx_graph \<Rightarrow> string \<Rightarrow> fx_node option" where
  "find_node g name = find (\<lambda>n. fn_name n = name) g"

definition node_users :: "fx_graph \<Rightarrow> string \<Rightarrow> fx_node list" where
  "node_users g name = filter (\<lambda>n. name \<in> set (all_input_nodes n)) g"

definition tensor_input :: "fx_node \<Rightarrow> string option" where
  "tensor_input n = (case fn_args n of VRef m # _ \<Rightarrow> Some m | _ \<Rightarrow> None)"

definition dim_of :: "fx_arg \<Rightarrow> graph_dim" where
  "dim_of a = (case a of VInt i \<Rightarrow> DimInt i | VSym env e \<Rightarrow> DimSym env e | _ \<Rightarrow> DimOther)"

definition value_of :: "fx_graph \<Rightarrow> string \<Rightarrow> meta_value" where
  "value_of g name = (case find_node g name of None \<Rightarrow> No_Value | Some n \<Rightarrow> fn_value n)"

definition node_schema :: "import_world \<Rightarrow> fx_node \<Rightarrow> schema option" where
  "node_schema w n = (if fn_op n = Op_Function then iw_schema w (fn_target n) else None)"

section \<open>Contracts of operators\<close>

text \<open>\<open>bound_schema_arguments\<close>: positional arguments first, then keywords, in the order of the schema.\<close>

fun bind_schema :: "(string \<times> bool) list \<Rightarrow> fx_arg list \<Rightarrow> (string \<times> fx_arg) list \<Rightarrow> (string \<times> fx_arg \<times> bool) list" where
  "bind_schema [] args kwargs = []"
| "bind_schema ((name, written) # ps) (a # as) kwargs = (name, a, written) # bind_schema ps as kwargs"
| "bind_schema ((name, written) # ps) [] kwargs = (case map_of kwargs name of
     Some v \<Rightarrow> (name, v, written) # bind_schema ps [] kwargs
   | None \<Rightarrow> bind_schema ps [] kwargs)"

definition options_of :: "import_world \<Rightarrow> fx_node \<Rightarrow> (string \<times> fx_arg) list res" where
  "options_of w n = (case node_schema w n of
     None \<Rightarrow> Inl (OtherExn ''AttributeError'')
   | Some s \<Rightarrow> Inr (map (\<lambda>(k, v, _). (k, v)) (bind_schema (sc_arguments s) (fn_args n) (fn_kwargs n))))"

definition graph_mutates :: "import_world \<Rightarrow> fx_node \<Rightarrow> bool" where
  "graph_mutates w n = (if fn_op n = Op_Method then fn_target n \<noteq> [] \<and> last (fn_target n) = CHR ''_''
     else case node_schema w n of None \<Rightarrow> False | Some s \<Rightarrow> \<exists>(_, written)\<in>set (sc_arguments s). written)"

definition known_view_targets :: "string list" where
  "known_view_targets = [''aten.view.default'', ''aten._unsafe_view.default'', ''aten.transpose.int'',
     ''aten.permute.default'', ''aten.as_strided.default'', ''aten.squeeze.default'', ''aten.squeeze.dim'',
     ''aten.squeeze.dims'', ''aten.unsqueeze.default'']"

definition alias_methods :: "string list" where
  "alias_methods = [''view'', ''reshape'', ''transpose'', ''permute'', ''detach'', ''contiguous'', ''to'', ''squeeze'',
     ''unsqueeze'', ''flatten'']"

definition graph_may_alias_inputs :: "import_world \<Rightarrow> fx_node \<Rightarrow> bool" where
  "graph_may_alias_inputs w n \<longleftrightarrow> fn_target n \<in> set known_view_targets \<or>
     (case node_schema w n of None \<Rightarrow> False | Some s \<Rightarrow> sc_alias_returns s) \<or>
     fn_op n = Op_Method \<and> fn_target n \<in> set alias_methods"

definition statically_at_least :: "import_world \<Rightarrow> graph_dim \<Rightarrow> int \<Rightarrow> bool" where
  "statically_at_least w d bound = (case d of
     DimInt v \<Rightarrow> bound \<le> v
   | DimSym _ _ \<Rightarrow> (case iw_known_ge w d bound of
       None \<Rightarrow> False
     | Some True \<Rightarrow> True
     | Some False \<Rightarrow> iw_known_ge w d 0 = Some True \<and> (\<forall>k\<in>set [0..bound - 1]. iw_known_ne w d k = Some True))
   | DimOther \<Rightarrow> False)"

section \<open>The vocabulary\<close>

datatype fkind = K_Transfer | K_Permute | K_Transpose | K_Reshape | K_Squeeze | K_Unsqueeze | K_Flatten
  | K_Index_Select | K_Materialize | K_Pad | K_Scalar | K_Dequantize | K_Quantize

definition function_kinds :: "(string \<times> fkind) list" where
  "function_kinds =
    [(''aten._to_copy.default'', K_Transfer), (''aten.to.device'', K_Transfer), (''aten.to.dtype'', K_Transfer),
     (''aten.to.other'', K_Transfer), (''aten.permute.default'', K_Permute), (''aten.transpose.int'', K_Transpose),
     (''aten.t.default'', K_Transpose), (''torch.t'', K_Transpose), (''aten.view.default'', K_Reshape),
     (''aten.reshape.default'', K_Reshape), (''aten._unsafe_view.default'', K_Reshape),
     (''aten.squeeze.default'', K_Squeeze), (''aten.squeeze.dim'', K_Squeeze), (''aten.squeeze.dims'', K_Squeeze),
     (''aten.unsqueeze.default'', K_Unsqueeze), (''aten.flatten.using_ints'', K_Flatten),
     (''aten.index_select.default'', K_Index_Select), (''torch.index_select'', K_Index_Select),
     (''aten.clone.default'', K_Materialize), (''aten.contiguous.default'', K_Materialize),
     (''aten.constant_pad_nd.default'', K_Pad), (''aten.sym_size.int'', K_Scalar), (''torch.transpose'', K_Transpose),
     (''torch.permute'', K_Permute), (''torch.reshape'', K_Reshape), (''torch.clone'', K_Materialize),
     (''torch.squeeze'', K_Squeeze), (''torch.unsqueeze'', K_Unsqueeze), (''torch.flatten'', K_Flatten),
     (''torch.nn.functional.pad'', K_Pad), (''torch._C._nn.pad'', K_Pad), (''operator.floordiv'', K_Scalar),
     (''operator.mul'', K_Scalar), (''operator.add'', K_Scalar), (''operator.sub'', K_Scalar),
     (''operator.mod'', K_Scalar), (''operator.getitem'', K_Scalar), (''getattr'', K_Scalar)]"

definition quantized_kinds :: "(string \<times> fkind) list" where
  "quantized_kinds =
    [(''quantized_decomposed.dequantize_per_tensor.default'', K_Dequantize),
     (''quantized_decomposed.dequantize_per_tensor.tensor'', K_Dequantize),
     (''quantized_decomposed.dequantize_per_channel.default'', K_Dequantize),
     (''quantized_decomposed.quantize_per_tensor.default'', K_Quantize),
     (''quantized_decomposed.quantize_per_tensor.tensor'', K_Quantize),
     (''quantized_decomposed.quantize_per_tensor.tensor2'', K_Quantize),
     (''quantized_decomposed.quantize_per_channel.default'', K_Quantize)]"

definition method_kinds :: "(string \<times> fkind) list" where
  "method_kinds = [(''to'', K_Transfer), (''cpu'', K_Transfer), (''cuda'', K_Transfer), (''permute'', K_Permute),
     (''transpose'', K_Transpose), (''t'', K_Transpose), (''view'', K_Reshape), (''reshape'', K_Reshape),
     (''contiguous'', K_Materialize), (''squeeze'', K_Squeeze), (''unsqueeze'', K_Unsqueeze),
     (''flatten'', K_Flatten), (''index_select'', K_Index_Select), (''size'', K_Scalar)]"

text \<open>The audited packets, with the overload for a scalar scale and the one for a tensor scale.\<close>

definition quantized_packets :: "(string \<times> string \<times> string option) list" where
  "quantized_packets =
    [(''quantized_decomposed.dequantize_per_tensor'', ''quantized_decomposed.dequantize_per_tensor.default'',
        Some ''quantized_decomposed.dequantize_per_tensor.tensor''),
     (''quantized_decomposed.quantize_per_tensor'', ''quantized_decomposed.quantize_per_tensor.default'',
        Some ''quantized_decomposed.quantize_per_tensor.tensor''),
     (''quantized_decomposed.dequantize_per_channel'', ''quantized_decomposed.dequantize_per_channel.default'', None),
     (''quantized_decomposed.quantize_per_channel'', ''quantized_decomposed.quantize_per_channel.default'', None)]"

fun is_ref :: "fx_arg \<Rightarrow> bool" where
  "is_ref (VRef _) = True"
| "is_ref _ = False"

definition quantized_overload :: "import_world \<Rightarrow> fx_node \<Rightarrow> string option" where
  "quantized_overload w n =
     (if \<not> iw_quantized w \<or> fn_op n \<noteq> Op_Function then None
      else case map_of quantized_packets (fn_target n) of
        None \<Rightarrow> None
      | Some (scalar, tensor) \<Rightarrow>
          let scale = (if length (fn_args n) > 1 then Some (fn_args n ! 1) else map_of (fn_kwargs n) ''scale'')
          in case (tensor, scale) of (Some t, Some s) \<Rightarrow> Some (if is_ref s then t else scalar) | _ \<Rightarrow> Some scalar)"

definition node_kind :: "import_world \<Rightarrow> fx_node \<Rightarrow> fkind option" where
  "node_kind w n = (case fn_op n of
     Op_Function \<Rightarrow>
       let target = (case quantized_overload w n of Some t \<Rightarrow> t | None \<Rightarrow> fn_target n)
       in map_of (if iw_quantized w then function_kinds @ quantized_kinds else function_kinds) target
   | Op_Method \<Rightarrow> map_of method_kinds (fn_target n)
   | _ \<Rightarrow> None)"

definition is_layout :: "import_world \<Rightarrow> fx_node \<Rightarrow> bool" where
  "is_layout w n \<longleftrightarrow> node_kind w n \<in> Some ` {K_Permute, K_Transpose, K_Reshape, K_Squeeze, K_Unsqueeze, K_Flatten,
     K_Materialize, K_Pad, K_Index_Select}"

definition is_transfer :: "import_world \<Rightarrow> fx_node \<Rightarrow> bool" where
  "is_transfer w n \<longleftrightarrow> node_kind w n = Some K_Transfer"

definition is_typed :: "import_world \<Rightarrow> fx_node \<Rightarrow> bool" where
  "is_typed w n \<longleftrightarrow> node_kind w n \<in> Some ` {K_Dequantize, K_Quantize}"

text \<open>The nodes a region is made of.\<close>

definition is_stage :: "import_world \<Rightarrow> fx_node \<Rightarrow> bool" where
  "is_stage w n \<longleftrightarrow> is_layout w n \<or> is_transfer w n \<or> is_typed w n"

definition moves_device :: "import_world \<Rightarrow> fx_graph \<Rightarrow> fx_node \<Rightarrow> bool" where
  "moves_device w g n \<longleftrightarrow> is_transfer w n \<and>
     (case (case tensor_input n of None \<Rightarrow> No_Value | Some m \<Rightarrow> value_of g m, fn_value n) of
        (Tensor_Meta prior, Tensor_Meta after) \<Rightarrow> mt_device prior \<noteq> mt_device after
      | _ \<Rightarrow> True)"

definition stage_name :: "import_world \<Rightarrow> fx_graph \<Rightarrow> string \<Rightarrow> bool" where
  "stage_name w g m = (case find_node g m of None \<Rightarrow> False | Some n \<Rightarrow> is_stage w n)"

section \<open>Regions\<close>

text \<open>The neighbours of a node in the layout-connected component.\<close>

definition consumers :: "import_world \<Rightarrow> fx_graph \<Rightarrow> string \<Rightarrow> fx_node list" where
  "consumers w g m = filter (\<lambda>u. tensor_input u = Some m) (node_users g m)"

definition parent_of :: "fx_graph \<Rightarrow> string \<Rightarrow> string option" where
  "parent_of g m = Option.bind (find_node g m) tensor_input"

definition adjacent :: "import_world \<Rightarrow> fx_graph \<Rightarrow> string \<Rightarrow> string list" where
  "adjacent w g m = filter (stage_name w g) (map fn_name (consumers w g m) @ (case parent_of g m of None \<Rightarrow> [] | Some p \<Rightarrow> [p]))"

lemma stage_name_known: "stage_name w g m \<Longrightarrow> m \<in> fn_name ` set g"
  by (auto simp: stage_name_def find_node_def find_Some_iff split: option.splits)

lemma pending_shrinks:
  assumes "finite N" and "pending \<noteq> []"
  shows "card (N \<union> set (butlast pending) - F) \<le> card (N \<union> set pending - F)"
    and "last pending \<notin> F \<Longrightarrow> set extra \<subseteq> N \<Longrightarrow>
      card (N \<union> set (butlast pending @ extra) - insert (last pending) F) < card (N \<union> set pending - F)"
proof -
  have sub: "set (butlast pending) \<subseteq> set pending" by (meson in_set_butlastD subsetI)
  show "card (N \<union> set (butlast pending) - F) \<le> card (N \<union> set pending - F)"
    using sub assms(1) by (intro card_mono) auto
  have last: "last pending \<in> set pending" using assms(2) by simp
  assume "last pending \<notin> F" "set extra \<subseteq> N"
  then have "N \<union> set (butlast pending @ extra) - insert (last pending) F \<subset> N \<union> set pending - F"
    using sub last by auto
  then show "card (N \<union> set (butlast pending @ extra) - insert (last pending) F) < card (N \<union> set pending - F)"
    using assms(1) by (intro psubset_card_mono) auto
qed

lemma adjacent_known: "set (filter P (adjacent w g m)) \<subseteq> fn_name ` set g"
  by (auto simp: adjacent_def dest: stage_name_known)

text \<open>The search of \<open>import_graph\<close>: \<open>pending\<close> is popped from its end.\<close>

function component :: "import_world \<Rightarrow> fx_graph \<Rightarrow> string list \<Rightarrow> string list \<Rightarrow> string list" where
  "component w g found pending =
     (if pending = [] then found
      else let current = last pending; rest = butlast pending in
        if current \<in> set found then component w g found rest
        else component w g (current # found) (rest @ filter (\<lambda>m. m \<notin> set (current # found)) (adjacent w g current)))"
  by auto

termination
proof (relation "measures [\<lambda>(w, g, found, pending). card ((fn_name ` set g \<union> set pending) - set found),
    \<lambda>(w, g, found, pending). length pending]")
  fix w :: import_world and g :: fx_graph and found pending rest :: "string list" and current
  assume p: "pending \<noteq> []" "current = last pending" "rest = butlast pending"
  have le: "card (fn_name ` set g \<union> set rest - set found) \<le> card (fn_name ` set g \<union> set pending - set found)"
    using pending_shrinks(1) [of "fn_name ` set g" pending "set found"] p by simp
  have "length rest < length pending" using p by simp
  with le show "((w, g, found, rest), w, g, found, pending)
      \<in> measures [\<lambda>(w, g, found, pending). card ((fn_name ` set g \<union> set pending) - set found), \<lambda>(w, g, found, pending). length pending]"
    by (auto simp: le_less)
  assume c: "current \<notin> set found"
  let ?more = "filter (\<lambda>m. m \<notin> set (current # found)) (adjacent w g current)"
  have "card (fn_name ` set g \<union> set (rest @ ?more) - set (current # found)) < card (fn_name ` set g \<union> set pending - set found)"
    using pending_shrinks(2) [of "fn_name ` set g" pending "set found" ?more] p c adjacent_known by simp
  then show "((w, g, current # found, rest @ ?more), w, g, found, pending)
      \<in> measures [\<lambda>(w, g, found, pending). card ((fn_name ` set g \<union> set pending) - set found), \<lambda>(w, g, found, pending). length pending]"
    by (simp only: in_measures prod.case simp_thms)
qed simp

declare component.simps [simp del]

text \<open>The walk from a transfer to its root; \<open>None\<close> only for a graph whose arguments form a cycle.\<close>

partial_function (option) walk_up ::
  "import_world \<Rightarrow> fx_graph \<Rightarrow> string list \<Rightarrow> string option \<Rightarrow> (string list \<times> string option) option" where
  "walk_up w g members base = 
     (if base \<noteq> None \<and> stage_name w g (the base) then walk_up w g (the base # members) (parent_of g (the base))
      else Some (members, base))"

definition following :: "import_world \<Rightarrow> fx_graph \<Rightarrow> string \<Rightarrow> string list" where
  "following w g m = map fn_name (filter (is_stage w) (consumers w g m))"

partial_function (option) walk_down :: "import_world \<Rightarrow> fx_graph \<Rightarrow> string list \<Rightarrow> string list option" where
  "walk_down w g members = (let next = following w g (last members) in
     if length next \<noteq> 1 then Some members else walk_down w g (members @ next))"

end
