(* ===== verification/Fx_Region.thy ===== *)
theory Fx_Region
  imports Fx_Graph
begin

text \<open>
  Regions of a captured graph: the chains the importer walks, in graph order, and \<open>_safety\<close>, which refuses a
  chain something else may write, observe or share.
\<close>

section \<open>Aliases\<close>

definition alias_edges :: "import_world \<Rightarrow> fx_graph \<Rightarrow> string list list" where
  "alias_edges w g = map (\<lambda>n. fn_name n # all_input_nodes n) (filter (graph_may_alias_inputs w) g)"

definition alias_pass :: "string list list \<Rightarrow> string set \<Rightarrow> string set" where
  "alias_pass edges aliases = foldl (\<lambda>as e. if as \<inter> set e \<noteq> {} then as \<union> set e else as) aliases edges"

lemma alias_pass_Cons: "alias_pass (e # es) as = alias_pass es (if as \<inter> set e \<noteq> {} then as \<union> set e else as)"
  by (simp add: alias_pass_def)

lemma alias_pass_grows: "as \<subseteq> alias_pass edges as"
proof (induction edges arbitrary: as)
  case (Cons e es)
  then show ?case by (simp add: alias_pass_Cons) blast
qed (simp add: alias_pass_def)

lemma alias_pass_bounded: "alias_pass edges as \<subseteq> as \<union> \<Union> (set ` set edges)"
proof (induction edges arbitrary: as)
  case (Cons e es)
  then show ?case by (simp add: alias_pass_Cons) blast
qed (simp add: alias_pass_def)

function alias_closure :: "string list list \<Rightarrow> string set \<Rightarrow> string set" where
  "alias_closure edges aliases = (let more = alias_pass edges aliases in
     if more = aliases then aliases else alias_closure edges more)"
  by auto

termination
proof (relation "measure (\<lambda>(edges, as). card (\<Union> (set ` set edges) - as))")
  fix edges as more
  assume m: "more = alias_pass edges as" "more \<noteq> as"
  have "\<Union> (set ` set edges) - more \<subset> \<Union> (set ` set edges) - as"
  proof
    have grows: "as \<subseteq> more" using alias_pass_grows m(1) by simp
    show "\<Union> (set ` set edges) - more \<subseteq> \<Union> (set ` set edges) - as" using grows by (rule Diff_mono [OF order_refl])
    obtain x where "x \<in> more" "x \<notin> as" using grows m(2) by auto
    moreover from this have "x \<in> \<Union> (set ` set edges)" using alias_pass_bounded [of edges as] m(1) by auto
    ultimately show "\<Union> (set ` set edges) - more \<noteq> \<Union> (set ` set edges) - as" by (metis DiffD2 DiffI)
  qed
  then show "((edges, more), edges, as) \<in> measure (\<lambda>(edges, as). card (\<Union> (set ` set edges) - as))"
    by (simp add: psubset_card_mono)
qed simp

declare alias_closure.simps [simp del]

text \<open>The closure is what alias steps reach.\<close>

definition alias_step :: "string list list \<Rightarrow> (string \<times> string) set" where
  "alias_step edges = {(x, y). \<exists>e\<in>set edges. x \<in> set e \<and> y \<in> set e}"

lemma alias_step_edge: "e \<in> set edges \<Longrightarrow> x \<in> set e \<Longrightarrow> y \<in> set e \<Longrightarrow> (x, y) \<in> alias_step edges"
  by (auto simp: alias_step_def)

lemma alias_pass_reached:
  "set es \<subseteq> set edges \<Longrightarrow> as \<subseteq> (alias_step edges)\<^sup>* `` A \<Longrightarrow> alias_pass es as \<subseteq> (alias_step edges)\<^sup>* `` A"
proof (induction es arbitrary: as)
  case (Cons e es)
  have "as \<union> set e \<subseteq> (alias_step edges)\<^sup>* `` A" if hit: "as \<inter> set e \<noteq> {}"
  proof
    fix y assume "y \<in> as \<union> set e"
    then consider "y \<in> as" | "y \<in> set e" by blast
    then show "y \<in> (alias_step edges)\<^sup>* `` A"
    proof cases
      case 2
      from hit obtain x where x: "x \<in> as" "x \<in> set e" by blast
      then obtain a where "a \<in> A" "(a, x) \<in> (alias_step edges)\<^sup>*" using Cons.prems by blast
      moreover have "(x, y) \<in> alias_step edges" using alias_step_edge [of e edges x y] x 2 Cons.prems(1) by simp
      ultimately show ?thesis by (meson ImageI rtrancl.rtrancl_into_rtrancl)
    qed (use Cons.prems in blast)
  qed
  with Cons show ?case by (simp add: alias_pass_Cons)
qed (simp add: alias_pass_def)

lemma alias_pass_fixed: "alias_pass edges as = as \<Longrightarrow> e \<in> set edges \<Longrightarrow> as \<inter> set e \<noteq> {} \<Longrightarrow> set e \<subseteq> as"
proof (induction edges arbitrary: as)
  case (Cons e' es)
  let ?as = "if as \<inter> set e' \<noteq> {} then as \<union> set e' else as"
  have "alias_pass es ?as = as" using Cons.prems(1) by (simp add: alias_pass_Cons)
  moreover have "?as \<subseteq> alias_pass es ?as" by (rule alias_pass_grows)
  ultimately have eq: "?as = as" by (auto split: if_splits)
  with \<open>alias_pass es ?as = as\<close> have "alias_pass es as = as" by simp
  with Cons eq show ?case by (auto split: if_splits)
qed simp

lemma alias_closure_reach: "alias_closure edges A = (alias_step edges)\<^sup>* `` A"
proof -
  have "as \<subseteq> (alias_step edges)\<^sup>* `` A \<Longrightarrow> A \<subseteq> as \<Longrightarrow> alias_closure edges as = (alias_step edges)\<^sup>* `` A" for as
  proof (induction edges as rule: alias_closure.induct)
    case (1 edges as)
    show ?case
    proof (cases "alias_pass edges as = as")
      case True
      have "x \<in> as \<Longrightarrow> (x, y) \<in> (alias_step edges)\<^sup>* \<Longrightarrow> y \<in> as" for x y
      proof (erule rtrancl_induct)
        fix y z assume "x \<in> as" "(y, z) \<in> alias_step edges" "y \<in> as"
        then obtain e where "e \<in> set edges" "y \<in> set e" "z \<in> set e" by (auto simp: alias_step_def)
        then show "z \<in> as" using alias_pass_fixed [OF True, of e] \<open>y \<in> as\<close> by blast
      qed
      then have "(alias_step edges)\<^sup>* `` A \<subseteq> as" using "1.prems"(2) by blast
      with "1.prems"(1) True show ?thesis by (subst alias_closure.simps) auto
    next
      case False
      have "alias_pass edges as \<subseteq> (alias_step edges)\<^sup>* `` A" using "1.prems"(1) by (intro alias_pass_reached) auto
      moreover have "A \<subseteq> alias_pass edges as" using "1.prems"(2) alias_pass_grows by blast
      ultimately show ?thesis using "1.IH" False by (subst alias_closure.simps) simp
    qed
  qed
  then show ?thesis by auto
qed

section \<open>Safety\<close>

definition position :: "fx_graph \<Rightarrow> string \<Rightarrow> nat" where
  "position g name = length (takeWhile (\<lambda>n. fn_name n \<noteq> name) g)"

definition lookup_position :: "fx_graph \<Rightarrow> string \<Rightarrow> nat res" where
  "lookup_position g name = (if name \<in> fn_name ` set g then Inr (position g name) else Inl (KeyErr name))"

definition unknown_call :: "import_world \<Rightarrow> fx_node \<Rightarrow> bool" where
  "unknown_call w n \<longleftrightarrow> fn_op n \<in> {Op_Function, Op_Method, Op_Module} \<and> (node_kind w n = None \<or> fn_reason n \<noteq> None)"

definition escapes :: "fx_graph \<Rightarrow> string set \<Rightarrow> string \<Rightarrow> bool" where
  "escapes g involved m \<longleftrightarrow> (\<exists>u\<in>set (node_users g m). fn_name u \<notin> involved)"

definition safety :: "import_world \<Rightarrow> fx_graph \<Rightarrow> string \<Rightarrow> string list \<Rightarrow> unit res" where
  "safety w g base members =
     (let involved = insert base (set members); aliases = alias_closure (alias_edges w g) involved in
      if \<exists>n\<in>set g. graph_mutates w n \<and> set (all_input_nodes n) \<inter> aliases \<noteq> {} then reject ''mutation'' else
      res_bind (lookup_position g base) (\<lambda>i. res_bind (lookup_position g (last members)) (\<lambda>j.
      if \<exists>n\<in>set (drop (i + 1) (take j g)). fn_name n \<notin> involved \<and> unknown_call w n then reject ''unknown_side_effect''
      else if \<exists>m\<in>set (butlast members). escapes g involved m then reject ''escaping_intermediate'' else Inr ())))"

section \<open>Graph order\<close>

text \<open>What FX's lint guarantees: distinct names, arguments before their users.\<close>

definition well_ordered :: "fx_graph \<Rightarrow> bool" where
  "well_ordered g \<longleftrightarrow> distinct (map fn_name g) \<and>
     (\<forall>i<length g. set (all_input_nodes (g ! i)) \<subseteq> fn_name ` set (take i g))"

lemma find_node_in: "find_node g m = Some n \<Longrightarrow> n \<in> set g \<and> fn_name n = m"
  by (auto simp: find_node_def find_Some_iff)

lemma find_node_Some: "distinct (map fn_name g) \<Longrightarrow> n \<in> set g \<Longrightarrow> find_node g (fn_name n) = Some n"
  by (induction g) (auto simp: find_node_def)

lemma position_less: "m \<in> fn_name ` set g \<Longrightarrow> position g m < length g \<and> fn_name (g ! position g m) = m"
  by (induction g) (auto simp: position_def)

lemma position_nth: "distinct (map fn_name g) \<Longrightarrow> i < length g \<Longrightarrow> position g (fn_name (g ! i)) = i"
proof (induction g arbitrary: i)
  case (Cons n g)
  then show ?case by (cases i) (auto simp: position_def)
qed simp

lemma position_inj: "m \<in> fn_name ` set g \<Longrightarrow> m' \<in> fn_name ` set g \<Longrightarrow> position g m = position g m' \<Longrightarrow> m = m'"
  using position_less by metis

lemma input_before:
  assumes "well_ordered g" and "n \<in> set g" and "m \<in> set (all_input_nodes n)"
  shows "m \<in> fn_name ` set g \<and> position g m < position g (fn_name n)"
proof -
  have d: "distinct (map fn_name g)" using assms(1) by (simp add: well_ordered_def)
  from assms(2) obtain i where i: "i < length g" "g ! i = n" by (auto simp: in_set_conv_nth)
  with assms have "m \<in> fn_name ` set (take i g)" by (auto simp: well_ordered_def)
  then obtain j where j: "j < i" "fn_name (g ! j) = m" using i(1) by (auto simp: in_set_conv_nth)
  then have "m \<in> fn_name ` set g" using i(1) by force
  moreover have "position g m = j" using position_nth [OF d, of j] j i(1) by simp
  moreover have "position g (fn_name n) = i" using position_nth [OF d i(1)] i(2) by simp
  ultimately show ?thesis using j(1) by simp
qed

lemma tensor_input_in: "tensor_input n = Some m \<Longrightarrow> m \<in> set (all_input_nodes n)"
  by (auto simp: tensor_input_def all_input_nodes_def split: list.splits fx_arg.splits)

lemma parent_before:
  assumes "well_ordered g" and "parent_of g r = Some p"
  shows "r \<in> fn_name ` set g \<and> p \<in> fn_name ` set g \<and> position g p < position g r"
proof -
  from assms(2) obtain n where n: "find_node g r = Some n" "tensor_input n = Some p"
    by (auto simp: parent_of_def bind_eq_Some_conv)
  then show ?thesis using input_before [OF assms(1), of n p] find_node_in [OF n(1)] tensor_input_in by fastforce
qed

lemma consumer_before:
  assumes "well_ordered g" and "u \<in> set (consumers w g m)"
  shows "u \<in> set g \<and> parent_of g (fn_name u) = Some m"
proof -
  have u: "u \<in> set g" "tensor_input u = Some m" using assms(2) by (simp_all add: consumers_def node_users_def)
  with assms(1) show ?thesis by (simp add: parent_of_def find_node_Some well_ordered_def)
qed

lemma following_step:
  assumes "well_ordered g" and "u \<in> set (following w g m)"
  shows "parent_of g u = Some m \<and> stage_name w g u"
proof -
  from assms(2) obtain n where n: "n \<in> set (consumers w g m)" "is_stage w n" "fn_name n = u" by (auto simp: following_def)
  with consumer_before [OF assms(1) n(1)] assms(1) show ?thesis
    by (auto simp: stage_name_def find_node_Some well_ordered_def)
qed

lemma following_distinct: "well_ordered g \<Longrightarrow> distinct (following w g m)"
  unfolding following_def consumers_def node_users_def well_ordered_def
  by (simp add: distinct_map distinct_filter inj_on_def)

section \<open>Chains\<close>

text \<open>The members of a region, from the node after its root to its tail.\<close>

definition chain :: "import_world \<Rightarrow> fx_graph \<Rightarrow> string list \<Rightarrow> string option \<Rightarrow> bool" where
  "chain w g members base \<longleftrightarrow> members \<noteq> [] \<and> list_all (stage_name w g) members \<and>
     successively (\<lambda>x y. parent_of g y = Some x) members \<and> parent_of g (hd members) = base"

lemma walk_up_stop: "\<not> (base \<noteq> None \<and> stage_name w g (the base)) \<Longrightarrow> walk_up w g members base = Some (members, base)"
  by (rule trans [OF walk_up.simps if_not_P])

lemma walk_up_more:
  "stage_name w g r \<Longrightarrow> walk_up w g members (Some r) = walk_up w g (r # members) (parent_of g r)"
  by (rule trans [OF walk_up.simps trans [OF if_P]]) simp_all

lemma walk_up_ends:
  assumes "well_ordered g"
  shows "(case base of None \<Rightarrow> True | Some r \<Rightarrow> r \<in> fn_name ` set g) \<Longrightarrow> walk_up w g members base \<noteq> None"
proof (induction "case base of None \<Rightarrow> 0 | Some r \<Rightarrow> Suc (position g r)" arbitrary: base members rule: less_induct)
  case less
  show ?case
  proof (cases "base \<noteq> None \<and> stage_name w g (the base)")
    case False
    from walk_up_stop [OF this] show ?thesis by (simp del: not_None_eq)
  next
    case True
    then obtain r where r: "base = Some r" "stage_name w g r" by (cases base) auto
    have "walk_up w g (r # members) (parent_of g r) \<noteq> None"
    proof (cases "parent_of g r")
      case None
      show ?thesis using less.hyps [of None "r # members"] r None by simp
    next
      case (Some p)
      show ?thesis using less.hyps [of "Some p" "r # members"] parent_before [OF assms Some] r Some by simp
    qed
    then show ?thesis using r by (simp add: walk_up_more)
  qed
qed

lemma walk_up_chain:
  "walk_up w g members base = Some res \<Longrightarrow> chain w g members base \<Longrightarrow>
     chain w g (fst res) (snd res) \<and> (\<forall>r. snd res = Some r \<longrightarrow> \<not> stage_name w g r) \<and> last (fst res) = last members"
proof (induction rule: walk_up.raw_induct [rotated, consumes 1, case_names step])
  case (step walk_up' w g members base res)
  show ?case
  proof (cases "base \<noteq> None \<and> stage_name w g (the base)")
    case True
    then have more: "walk_up' w g (the base # members) (parent_of g (the base)) = Some res" using step.hyps by simp
    have "chain w g (the base # members) (parent_of g (the base))"
      using step.prems(1) True by (auto simp: chain_def successively_Cons)
    from step.IH [OF more this] step.prems(1) show ?thesis by (simp add: chain_def)
  next
    case False
    then have "res = (members, base)" using step.hyps by auto
    with step.prems(1) False show ?thesis by auto
  qed
qed

lemma walk_down_stop: "length (following w g (last members)) \<noteq> 1 \<Longrightarrow> walk_down w g members = Some members"
  by (rule trans [OF walk_down.simps]) (simp add: Let_def)

lemma walk_down_more: "following w g (last members) = [u] \<Longrightarrow> walk_down w g members = walk_down w g (members @ [u])"
  by (rule trans [OF walk_down.simps]) (simp add: Let_def)

lemma walk_down_ends:
  assumes "well_ordered g"
  shows "last members \<in> fn_name ` set g \<Longrightarrow> walk_down w g members \<noteq> None"
proof (induction "length g - position g (last members)" arbitrary: members rule: less_induct)
  case less
  show ?case
  proof (cases "length (following w g (last members)) = 1")
    case False
    then show ?thesis by (simp add: walk_down_stop)
  next
    case True
    then obtain u where u: "following w g (last members) = [u]" by (auto simp: length_Suc_conv)
    have p: "u \<in> fn_name ` set g" "position g (last members) < position g u"
      using parent_before [OF assms] following_step [OF assms, of u w "last members"] u by simp_all
    with position_less [OF p(1)] have "length g - position g u < length g - position g (last members)" by linarith
    with less.hyps [of "members @ [u]"] p(1) have "walk_down w g (members @ [u]) \<noteq> None" by simp
    then show ?thesis using walk_down_more [OF u] by simp
  qed
qed

lemma chain_snoc:
  "chain w g members base \<Longrightarrow> parent_of g u = Some (last members) \<Longrightarrow> stage_name w g u \<Longrightarrow> chain w g (members @ [u]) base"
  by (simp add: chain_def successively_append_iff)

lemma walk_down_chain:
  "walk_down w g members = Some members' \<Longrightarrow> well_ordered g \<Longrightarrow> chain w g members base \<Longrightarrow>
     chain w g members' base \<and> length (following w g (last members')) \<noteq> 1 \<and> set members \<subseteq> set members'"
proof (induction rule: walk_down.raw_induct [rotated, consumes 1, case_names step])
  case (step walk_down' w g members members')
  show ?case
  proof (cases "length (following w g (last members)) = 1")
    case True
    then obtain u where u: "following w g (last members) = [u]" by (auto simp: length_Suc_conv)
    then have more: "walk_down' w g (members @ [u]) = Some members'" using step.hyps by (simp add: Let_def)
    have "chain w g (members @ [u]) base"
      using chain_snoc step.prems(2) following_step [OF step.prems(1), of u w "last members"] u by simp
    from step.IH [OF more step.prems(1) this] show ?thesis by auto
  next
    case False
    then have "members' = members" using step.hyps by (simp add: Let_def)
    with step.prems False show ?thesis by simp
  qed
qed

end
