(* ===== verification/Fx_Recipe.thy ===== *)
theory Fx_Recipe
  imports Fx_Region Emit
begin

text \<open>
  \<open>_recipe\<close> of \<open>reloc_torch/fx_import.py\<close>: the layout of a region is followed node by node, from the root's
  metadata and the exact operator arguments, to the recipe the region computes.
\<close>

section \<open>Checks\<close>

text \<open>A run of \<open>_require\<close> calls: the first condition that fails gives the reason.\<close>

fun requires :: "(bool \<times> string) list \<Rightarrow> unit res" where
  "requires [] = Inr ()"
| "requires ((c, reason) # cs) = (if c then requires cs else reject reason)"

lemma requires_eq_Inr [simp, res_simps]: "requires cs = Inr u \<longleftrightarrow> (\<forall>c\<in>set cs. fst c)"
  by (induction cs rule: requires.induct) auto

declare requires.simps [simp del]

definition item :: "'a list \<Rightarrow> nat \<Rightarrow> 'a res" where
  "item xs i = (if i < length xs then Inr (xs ! i) else Inl (OtherExn ''IndexError''))"

lemma item_eq_Inr [simp, res_simps]: "item xs i = Inr x \<longleftrightarrow> i < length xs \<and> x = xs ! i"
  by (auto simp: item_def)

definition option_item :: "(string \<times> fx_arg) list \<Rightarrow> string \<Rightarrow> fx_arg res" where
  "option_item opts k = (case map_of opts k of None \<Rightarrow> Inl (KeyErr k) | Some v \<Rightarrow> Inr v)"

definition option_or :: "(string \<times> fx_arg) list \<Rightarrow> string \<Rightarrow> fx_arg \<Rightarrow> fx_arg" where
  "option_or opts k d = (case map_of opts k of None \<Rightarrow> d | Some v \<Rightarrow> v)"

text \<open>Iteration over an argument.\<close>

definition items :: "fx_arg \<Rightarrow> fx_arg list res" where
  "items a = (case a of VList xs \<Rightarrow> Inr xs | VStr s \<Rightarrow> Inr (map (\<lambda>c. VStr [c]) s)
     | _ \<Rightarrow> Inl (TypeErr ''object is not iterable''))"

text \<open>Python's \<open>==\<close> of a literal argument with an integer.\<close>

definition equals_int :: "fx_arg \<Rightarrow> int \<Rightarrow> bool" where
  "equals_int a i = (case a of VInt j \<Rightarrow> j = i | VBool b \<Rightarrow> of_bool b = i
     | VFloat (Finite s q) \<Rightarrow> (if s then - q else q) = of_int i | _ \<Rightarrow> False)"

definition none_or_false :: "fx_arg \<Rightarrow> bool" where
  "none_or_false a \<longleftrightarrow> a = VNone \<or> equals_int a 0"

definition number_of :: "fx_arg \<Rightarrow> fill_number option" where
  "number_of a = (case a of VInt i \<Rightarrow> Some (Integral i) | VBool b \<Rightarrow> Some (Integral (of_bool b))
     | VFloat v \<Rightarrow> Some (Floating v) | _ \<Rightarrow> None)"

definition int_in :: "fx_arg \<Rightarrow> int \<Rightarrow> int \<Rightarrow> bool" where
  "int_in a lo hi = (case a of VInt i \<Rightarrow> lo \<le> i \<and> i \<le> hi | _ \<Rightarrow> False)"

fun the_index :: "nat \<Rightarrow> fx_arg \<Rightarrow> nat" where
  "the_index rank (VInt i) = nat (i mod int rank)"
| "the_index rank _ = 0"

section \<open>Pieces\<close>

definition fill_of :: "string \<Rightarrow> fx_arg \<Rightarrow> fill res" where
  "fill_of dtype a = (case number_of a of None \<Rightarrow> reject ''unsupported_padding'' | Some n \<Rightarrow> fill_from dtype n)"

definition constant_fold :: "expr \<Rightarrow> expr res" where
  "constant_fold e = (case evaluate False Map.empty e of
     Inr v \<Rightarrow> Inr (Const v) | Inl (KeyErr _) \<Rightarrow> Inr e | Inl x \<Rightarrow> Inl x)"

definition view_dim :: "fx_arg \<Rightarrow> nat \<Rightarrow> nat res" where
  "view_dim a rank = (if int_in a (- int rank) (int rank - 1) then Inr (the_index rank a)
     else reject ''unsupported_view_dimension'')"

definition casts :: "((string \<times> string) \<times> operation) list" where
  "casts = [((''float32'', ''float16''), Cast ''float16'' ''ieee_rne''), ((''float16'', ''float32''), Cast ''float32'' ''exact''),
     ((''float32'', ''bfloat16''), Cast ''bfloat16'' ''ieee_rne''), ((''bfloat16'', ''float32''), Cast ''float32'' ''exact'')]"

definition cast_between :: "string \<Rightarrow> string \<Rightarrow> operation res" where
  "cast_between prior after = (case map_of casts (prior, after) of
     None \<Rightarrow> reject ''typed_transform_unavailable'' | Some op \<Rightarrow> Inr op)"

section \<open>Quantisation parameters\<close>

text \<open>Nodes that are read, not computed.\<close>

definition is_leaf :: "fx_graph \<Rightarrow> string \<Rightarrow> bool" where
  "is_leaf g m \<longleftrightarrow> (case find_node g m of None \<Rightarrow> False | Some n \<Rightarrow> fn_op n \<in> {Op_Placeholder, Op_Get_Attr})"

text \<open>A graph node as a runtime parameter, declared under its name.\<close>

definition binding_of :: "import_world \<Rightarrow> fx_graph \<Rightarrow> context_state \<Rightarrow> bool \<Rightarrow> expr option \<Rightarrow> string \<Rightarrow> param res" where
  "binding_of w g cx scale extent name = (case value_of g name of
     Tensor_Meta t \<Rightarrow> let dtype = ts_dtype (mt_spec t); shape = ts_shape (mt_spec t) in
       res_bind (requires
         [(is_leaf g name, ''unsupported_parameter''),
          (dtype \<in> (if scale then {''float32''} else {''int32'', ''int64'', ''int8''}), ''parameter_dtype_unsupported''),
          (length shape = (if extent = None then 0 else 1), ''unsupported_parameter'')]) (\<lambda>_.
       res_bind (mapR (context_expression (iw_backed w) cx []) shape) (\<lambda>extents.
       res_bind (requires [(extent = None \<or> extents = [the extent], ''unsupported_parameter'')]) (\<lambda>_.
       mk_binding name (if scale then ''float32'' else ''int32'') extents)))
   | _ \<Rightarrow> reject ''metadata_unavailable'')"

text \<open>A Python scalar as inline bits.  \<open>math.isfinite\<close> and \<open>struct.pack\<close> raise on numbers out of range.\<close>

definition inline_scale :: "fx_arg \<Rightarrow> param res" where
  "inline_scale a = (case (case a of VBool _ \<Rightarrow> None | _ \<Rightarrow> number_of a) of
     None \<Rightarrow> reject ''unsupported_parameter''
   | Some n \<Rightarrow> (case as_double n of
       None \<Rightarrow> Inl (OtherExn ''OverflowError'')
     | Some v \<Rightarrow> if \<not> (case v of Finite s q \<Rightarrow> \<not> s \<and> 0 < q | _ \<Rightarrow> False) then reject ''unsupported_parameter''
         else (case pack 8 23 v of None \<Rightarrow> Inl (OtherExn ''OverflowError'') | Some bits \<Rightarrow> mk_inline ''float32'' [] [bits])))"

definition inline_zero_point :: "fx_arg \<Rightarrow> param res" where
  "inline_zero_point a = (case a of
     VInt v \<Rightarrow> if -128 \<le> v \<and> v \<le> 127 then mk_inline ''int32'' [] [v mod 2 ^ 32] else reject ''unsupported_parameter''
   | _ \<Rightarrow> reject ''unsupported_parameter'')"

text \<open>\<open>extent\<close> is present for a per-channel operand; \<open>parameters\<close> are the names declared so far.\<close>

definition parameter_of :: "import_world \<Rightarrow> fx_graph \<Rightarrow> context_state \<Rightarrow> bool \<Rightarrow> expr option \<Rightarrow> fx_arg \<Rightarrow>
    string list \<Rightarrow> (param \<times> string list) res" where
  "parameter_of w g cx scale extent a parameters = (case a of
     VRef name \<Rightarrow> res_bind (binding_of w g cx scale extent name) (\<lambda>p.
       Inr (p, if name \<in> set parameters then parameters else parameters @ [name]))
   | _ \<Rightarrow> res_bind (requires [(extent = None, ''unsupported_parameter'')]) (\<lambda>_.
       res_bind (if scale then inline_scale a else inline_zero_point a) (\<lambda>p. Inr (p, parameters))))"

section \<open>The recipe under construction\<close>

record building =
  bl_operations :: "operation list"
  bl_shape :: "expr list"
  bl_direction :: "string option"
  bl_strides :: "expr list option"
  bl_offset :: expr
  bl_dtype :: string
  bl_parameters :: "string list"
  bl_guards :: "expr list"

definition dense_now :: "building \<Rightarrow> bool" where
  "dense_now b \<longleftrightarrow> bl_strides b = Some (dense_strides (bl_shape b))"

definition same_dtype :: "meta_tensor \<Rightarrow> building \<Rightarrow> unit res" where
  "same_dtype t b = requires [(ts_dtype (mt_spec t) = bl_dtype b, ''typed_transform_unavailable'')]"

definition input_tensor :: "fx_graph \<Rightarrow> fx_node \<Rightarrow> meta_tensor res" where
  "input_tensor g n = (case (case tensor_input n of None \<Rightarrow> No_Value | Some m \<Rightarrow> value_of g m) of
     Tensor_Meta t \<Rightarrow> Inr t | _ \<Rightarrow> Inl (OtherExn ''AttributeError''))"

text \<open>Transfers and casts.\<close>

definition moved_direction :: "meta_tensor \<Rightarrow> meta_tensor \<Rightarrow> (string \<times> fx_arg) list \<Rightarrow> building \<Rightarrow> string option res" where
  "moved_direction prior t opts b =
     (if mt_device prior \<noteq> mt_device t
      then res_bind (requires
        [(bl_direction b = None, ''multiple_transfers''),
         (option_or opts ''non_blocking'' (VBool False) = VBool False, ''nonblocking_unavailable''),
         ((dv_type (mt_device prior), dv_type (mt_device t)) \<in> {(''cpu'', ''cuda''), (''cuda'', ''cpu'')}, ''unsupported_device''),
         (none_or_false (option_or opts ''pin_memory'' VNone), ''pinned_transfer_unavailable'')]) (\<lambda>_.
        Inr (Some (if dv_type (mt_device prior) = ''cpu'' then ''h2d'' else ''d2h'')))
      else res_bind (requires [(ts_dtype (mt_spec prior) \<noteq> ts_dtype (mt_spec t), ''same_device_transfer'')]) (\<lambda>_.
        Inr (bl_direction b)))"

definition cast_stage :: "meta_tensor \<Rightarrow> meta_tensor \<Rightarrow> building \<Rightarrow> building res" where
  "cast_stage prior t b =
     (if ts_dtype (mt_spec prior) = ts_dtype (mt_spec t) then Inr b
      else res_bind (cast_between (ts_dtype (mt_spec prior)) (ts_dtype (mt_spec t))) (\<lambda>op.
        res_bind (same_dtype prior b) (\<lambda>_.
        Inr (b\<lparr>bl_operations := bl_operations b @ [op], bl_dtype := op_dtype op\<rparr>))))"

definition transfer_stage :: "fx_graph \<Rightarrow> fx_node \<Rightarrow> meta_tensor \<Rightarrow> (string \<times> fx_arg) list \<Rightarrow> building \<Rightarrow> building res" where
  "transfer_stage g n t opts b =
     res_bind (input_tensor g n) (\<lambda>prior.
     res_bind (moved_direction prior t opts b) (\<lambda>direction.
     let form = option_or opts ''memory_format'' VNone; contiguous = (form = VFormat ''contiguous_format'');
         b = b\<lparr>bl_direction := direction\<rparr> in
     res_bind (requires [(form \<in> {VNone, VFormat ''preserve_format'', VFormat ''contiguous_format''}, ''unsupported_memory_format'')]) (\<lambda>_.
     res_bind (cast_stage prior t b) (\<lambda>b.
     if (contiguous \<or> mt_device prior \<noteq> mt_device t) \<and> (contiguous \<or> dense_now b)
     then Inr (b\<lparr>bl_strides := Some (dense_strides (bl_shape b)), bl_offset := Const 0\<rparr>) else Inr b))))"

definition dequantize_stage :: "import_world \<Rightarrow> fx_graph \<Rightarrow> context_state \<Rightarrow> meta_tensor \<Rightarrow> (string \<times> fx_arg) list \<Rightarrow>
    building \<Rightarrow> building res" where
  "dequantize_stage w g cx t opts b =
     (let per_channel = (map_of opts ''scales'' \<noteq> None); axis = option_or opts ''axis'' VNone; rank = length (bl_shape b) in
     res_bind (requires
       [(bl_dtype b = ''int8'' \<and> ts_dtype (mt_spec t) = ''float32'', ''typed_transform_unavailable''),
        (map_of opts ''dtype'' = Some (VDtype ''int8''), ''unsupported_dtype''),
        (equals_int (option_or opts ''quant_min'' VNone) (-128) \<and> equals_int (option_or opts ''quant_max'' VNone) 127, ''unsupported_quantization_range''),
        (option_or opts ''out_dtype'' VNone \<in> {VNone, VDtype ''float32''}, ''typed_transform_unavailable''),
        (per_channel \<longrightarrow> int_in axis 0 (int rank - 1), ''unsupported_channel_axis'')]) (\<lambda>_.
     let extent = (if per_channel then Some (bl_shape b ! the_index rank axis) else None) in
     res_bind (option_item opts (if per_channel then ''scales'' else ''scale'')) (\<lambda>a.
     res_bind (parameter_of w g cx True extent a (bl_parameters b)) (\<lambda>(scale, ps).
     let raw = option_or opts (if per_channel then ''zero_points'' else ''zero_point'') VNone in
     res_bind (if raw = VNone then Inr (None, ps)
       else res_bind (parameter_of w g cx False extent raw ps) (\<lambda>(zp, ps). Inr (Some zp, ps))) (\<lambda>(zp, ps).
     res_bind (check_quant ''float32'' (Some scale) zp (if per_channel then Some (int (the_index rank axis)) else None) ''affine'') (\<lambda>q.
     Inr (b\<lparr>bl_operations := bl_operations b @ [Dequantize q], bl_dtype := ''float32'', bl_parameters := ps\<rparr>)))))))"

text \<open>Axis permutations.\<close>

definition permutation_of :: "fkind \<Rightarrow> (string \<times> fx_arg) list \<Rightarrow> nat \<Rightarrow> fx_arg list res" where
  "permutation_of kind opts rank =
     (if kind = K_Permute then res_bind (option_item opts ''dims'') items
      else res_bind (option_item opts ''dim0'') (\<lambda>d0. res_bind (option_item opts ''dim1'') (\<lambda>d1.
        let ok = (\<lambda>d. int_in d (- int rank) (int rank - 1)); i = the_index rank d0; j = the_index rank d1;
            ident = map (VInt \<circ> int) [0..<rank] in
        res_bind (requires [(ok d0 \<and> ok d1, ''unsupported_permutation'')]) (\<lambda>_. Inr (ident[i := VInt (int j), j := VInt (int i)])))))"

definition permute_stage :: "fkind \<Rightarrow> meta_tensor \<Rightarrow> (string \<times> fx_arg) list \<Rightarrow> building \<Rightarrow> building res" where
  "permute_stage kind t opts b =
     (let rank = length (bl_shape b) in
     res_bind (same_dtype t b) (\<lambda>_.
     res_bind (permutation_of kind opts rank) (\<lambda>ds.
     let perm = map (int \<circ> the_index rank) ds in
     res_bind (requires
       [(\<forall>d\<in>set ds. int_in d (- int rank) (int rank - 1), ''unsupported_permutation''),
        (is_permutation perm rank, ''unsupported_permutation'')]) (\<lambda>_.
     res_bind (operation_shape (bl_shape b) (Transpose perm)) (\<lambda>shape.
     res_bind (case bl_strides b of None \<Rightarrow> Inr None
       | Some ss \<Rightarrow> res_bind (mapR (item ss \<circ> nat) perm) (\<lambda>ss. Inr (Some ss))) (\<lambda>strides.
     Inr (b\<lparr>bl_operations := bl_operations b @ [Transpose perm], bl_shape := shape, bl_strides := strides\<rparr>)))))))"

text \<open>Views that add or drop axes of extent one.\<close>

definition unsqueeze_stage :: "(string \<times> fx_arg) list \<Rightarrow> building \<Rightarrow> building res" where
  "unsqueeze_stage opts b =
     (let shape = bl_shape b; rank = length shape in
     res_bind (option_item opts ''dim'') (\<lambda>a.
     res_bind (view_dim a (rank + 1)) (\<lambda>dim.
     res_bind (case bl_strides b of None \<Rightarrow> Inr None
       | Some ss \<Rightarrow> res_bind (if dim = rank then Inr (Const 1)
           else res_bind (item ss dim) (\<lambda>s. Inr (mul (shape ! dim) s))) (\<lambda>inserted.
         Inr (Some (take dim ss @ inserted # drop dim ss)))) (\<lambda>strides.
     Inr (b\<lparr>bl_shape := take dim shape @ Const 1 # drop dim shape, bl_strides := strides\<rparr>)))))"

text \<open>The axes \<open>squeeze\<close> removes and the guards of those it keeps.\<close>

fun squeeze_axes :: "import_world \<Rightarrow> graph_dim list \<Rightarrow> expr list \<Rightarrow> nat list \<Rightarrow> nat set \<Rightarrow> expr list \<Rightarrow> (nat set \<times> expr list) res" where
  "squeeze_axes w prior shape [] removed guards = Inr (removed, guards)"
| "squeeze_axes w prior shape (axis # ds) removed guards =
     res_bind (constant_fold (shape ! axis)) (\<lambda>extent. case extent of
       Const v \<Rightarrow> squeeze_axes w prior shape ds (if v = 1 then insert axis removed else removed) guards
     | _ \<Rightarrow> res_bind (item prior axis) (\<lambda>d.
         if statically_at_least w d 2 then squeeze_axes w prior shape ds removed (guards @ [extent])
         else reject ''conditional_squeeze''))"

definition drop_axes :: "nat set \<Rightarrow> 'a list \<Rightarrow> 'a list" where
  "drop_axes removed xs = map ((!) xs) (filter (\<lambda>i. i \<notin> removed) [0..<length xs])"

definition squeeze_stage :: "import_world \<Rightarrow> fx_graph \<Rightarrow> fx_node \<Rightarrow> (string \<times> fx_arg) list \<Rightarrow> building \<Rightarrow> building res" where
  "squeeze_stage w g n opts b =
     (let shape = bl_shape b; rank = length shape in
     res_bind (case option_or opts ''dim'' (VList (map (VInt \<circ> int) [0..<rank])) of
         VInt i \<Rightarrow> Inr [VInt i] | VList ds \<Rightarrow> Inr ds | _ \<Rightarrow> reject ''unsupported_view_dimension'') (\<lambda>ds.
     res_bind (mapR (\<lambda>a. view_dim a rank) ds) (\<lambda>axes.
     res_bind (requires [(distinct axes, ''unsupported_view_dimension'')]) (\<lambda>_.
     res_bind (input_tensor g n) (\<lambda>prior.
     res_bind (squeeze_axes w (ts_shape (mt_spec prior)) shape axes {} (bl_guards b)) (\<lambda>(removed, guards).
     Inr (b\<lparr>bl_shape := drop_axes removed shape, bl_strides := map_option (drop_axes removed) (bl_strides b),
       bl_guards := guards\<rparr>)))))))"

definition view_stage :: "import_world \<Rightarrow> fx_graph \<Rightarrow> fkind \<Rightarrow> fx_node \<Rightarrow> meta_tensor \<Rightarrow> (string \<times> fx_arg) list \<Rightarrow>
    building \<Rightarrow> building res" where
  "view_stage w g kind n t opts b =
     res_bind (same_dtype t b) (\<lambda>_.
     res_bind (if kind = K_Unsqueeze then unsqueeze_stage opts b else squeeze_stage w g n opts b) (\<lambda>b.
     res_bind (requires [(bl_shape b \<noteq> [], ''rank_zero'')]) (\<lambda>_.
     Inr (b\<lparr>bl_operations := bl_operations b @ [Reshape (bl_shape b)]\<rparr>))))"

text \<open>Reshapes: a dense layout stays dense, any other is what the metadata says, if that has a provenance.\<close>

definition reshape_target :: "import_world \<Rightarrow> context_state \<Rightarrow> fkind \<Rightarrow> (string \<times> fx_arg) list \<Rightarrow> expr list \<Rightarrow> expr list res" where
  "reshape_target w cx kind opts shape =
     (if kind = K_Flatten
      then res_bind (view_dim (option_or opts ''start_dim'' (VInt 0)) (length shape)) (\<lambda>start.
        res_bind (view_dim (option_or opts ''end_dim'' (VInt (-1))) (length shape)) (\<lambda>stop.
        res_bind (requires [(start \<le> stop, ''unsupported_view_dimension'')]) (\<lambda>_.
        Inr (take start shape @ product (take (stop + 1 - start) (drop start shape)) # drop (stop + 1) shape))))
      else res_bind (items (option_or opts ''shape'' (option_or opts ''size'' VNone))) (\<lambda>ds.
        res_bind (mapR (context_expression (iw_backed w) cx [] \<circ> dim_of) ds) (\<lambda>target.
        infer_reshape shape target)))"

definition known_layout :: "import_world \<Rightarrow> context_state \<Rightarrow> meta_tensor \<Rightarrow> expr list \<Rightarrow> expr tensor_spec res" where
  "known_layout w cx t shape = context_spec (iw_backed w) cx False shape (mt_spec t)"

definition is_unsupported :: "exn \<Rightarrow> bool" where
  "is_unsupported e = (case e of UnsupportedSymbolicExpr _ \<Rightarrow> True | _ \<Rightarrow> False)"

definition reshape_stage :: "import_world \<Rightarrow> context_state \<Rightarrow> fkind \<Rightarrow> meta_tensor \<Rightarrow> (string \<times> fx_arg) list \<Rightarrow>
    building \<Rightarrow> building res" where
  "reshape_stage w cx kind t opts b =
     res_bind (same_dtype t b) (\<lambda>_.
     res_bind (reshape_target w cx kind opts (bl_shape b)) (\<lambda>target.
     res_bind (mapR constant_fold target) (\<lambda>shape.
     let b' = b\<lparr>bl_operations := bl_operations b @ [Reshape shape], bl_shape := shape\<rparr> in
     if dense_now b then Inr (b'\<lparr>bl_strides := Some (dense_strides shape)\<rparr>)
     else catch (res_bind (known_layout w cx t shape) (\<lambda>actual.
         Inr (b'\<lparr>bl_strides := Some (ts_strides actual), bl_offset := ts_offset actual\<rparr>)))
       is_unsupported (\<lambda>_. Inr (b'\<lparr>bl_strides := None\<rparr>)))))"

text \<open>Padding, from the last axis on.\<close>

fun pad_loop :: "nat \<Rightarrow> int list \<Rightarrow> fill \<Rightarrow> building \<Rightarrow> building res" where
  "pad_loop i (lo # hi # widths) f b =
     (let op = Pad (int (length (bl_shape b)) - 1 - int i) (Const lo) (Const hi) f in
     res_bind (operation_shape (bl_shape b) op) (\<lambda>shape.
     pad_loop (Suc i) widths f (b\<lparr>bl_operations := bl_operations b @ [op], bl_shape := shape\<rparr>)))"
| "pad_loop i _ f b = Inr b"

fun int_value :: "fx_arg \<Rightarrow> int" where
  "int_value (VInt i) = i"
| "int_value _ = 0"

definition is_width :: "fx_arg \<Rightarrow> bool" where
  "is_width a = (case a of VInt i \<Rightarrow> 0 \<le> i | _ \<Rightarrow> False)"

definition pad_stage :: "meta_tensor \<Rightarrow> (string \<times> fx_arg) list \<Rightarrow> building \<Rightarrow> building res" where
  "pad_stage t opts b =
     res_bind (same_dtype t b) (\<lambda>_.
     res_bind (option_item opts ''pad'') (\<lambda>a.
     res_bind (items a) (\<lambda>widths.
     res_bind (requires [(even (length widths) \<and> length widths \<le> 2 * length (bl_shape b) \<and> (\<forall>v\<in>set widths. is_width v), ''unsupported_padding'')]) (\<lambda>_.
     res_bind (fill_of (bl_dtype b) (option_or opts ''value'' (VInt 0))) (\<lambda>f.
     res_bind (pad_loop 0 (map int_value widths) f b) (\<lambda>b.
     Inr (b\<lparr>bl_strides := Some (dense_strides (bl_shape b)), bl_offset := Const 0\<rparr>)))))))"

text \<open>
  Materialisations.  \<open>contiguous\<close> copies a layout that is not dense; where that depends on the extents, either all
  are provably at least two, which becomes a guard, or the region has no symbols at all.
\<close>

definition contiguous_guard :: "import_world \<Rightarrow> fx_graph \<Rightarrow> context_state \<Rightarrow> fx_node \<Rightarrow> building \<Rightarrow> building res" where
  "contiguous_guard w g cx n b =
     (if dense_now b then Inr b
      else let prior = (case tensor_input n of None \<Rightarrow> No_Value | Some m \<Rightarrow> value_of g m);
          unconditional = (case prior of
            Tensor_Meta s \<Rightarrow> length (ts_shape (mt_spec s)) = length (bl_shape b) \<and>
              (\<forall>d\<in>set (ts_shape (mt_spec s)). statically_at_least w d 2)
          | _ \<Rightarrow> False)
        in if unconditional
           then Inr (b\<lparr>bl_guards := bl_guards b @ filter (\<lambda>d. const_value d = None) (bl_shape b)\<rparr>)
           else res_bind (requires [(cx_sources cx = [], ''conditional_materialization'')]) (\<lambda>_. Inr b))"

definition materialize_stage :: "import_world \<Rightarrow> fx_graph \<Rightarrow> context_state \<Rightarrow> fx_node \<Rightarrow> meta_tensor \<Rightarrow> (string \<times> fx_arg) list \<Rightarrow>
    building \<Rightarrow> building res" where
  "materialize_stage w g cx n t opts b =
     (let form = option_or opts ''memory_format'' VNone in
     res_bind (same_dtype t b) (\<lambda>_.
     res_bind (requires [(form \<in> {VNone, VFormat ''contiguous_format''}, ''unsupported_memory_format'')]) (\<lambda>_.
     if fn_target n = ''aten.contiguous.default''
     then res_bind (contiguous_guard w g cx n b) (\<lambda>b.
       res_bind (known_layout w cx t (bl_shape b)) (\<lambda>actual.
       Inr (b\<lparr>bl_strides := Some (ts_strides actual), bl_offset := ts_offset actual\<rparr>)))
     else if form = VFormat ''contiguous_format''
     then Inr (b\<lparr>bl_strides := Some (dense_strides (bl_shape b)), bl_offset := Const 0\<rparr>)
     else Inr b)))"

section \<open>The whole region\<close>

text \<open>Scalar operands of reshapes and paddings are read from the metadata of the nodes that compute them.\<close>

fun resolve_scalar :: "fx_graph \<Rightarrow> fx_arg \<Rightarrow> fx_arg res" where
  "resolve_scalar g (VRef m) = (case value_of g m of Scalar_Meta v \<Rightarrow> Inr v | _ \<Rightarrow> reject ''unsupported_symbolic_expr'')"
| "resolve_scalar g (VList as) = res_bind (mapR (resolve_scalar g) as) (\<lambda>as. Inr (VList as))"
| "resolve_scalar g a = Inr a"

definition stage_options :: "import_world \<Rightarrow> fx_graph \<Rightarrow> fkind option \<Rightarrow> fx_node \<Rightarrow> (string \<times> fx_arg) list res" where
  "stage_options w g kind n =
     res_bind (options_of w n) (\<lambda>opts.
     let opts = filter (\<lambda>(k, _). k \<noteq> ''self'') opts in
     if kind \<in> {Some K_Reshape, Some K_Pad}
     then mapR (\<lambda>(k, v). res_bind (resolve_scalar g v) (\<lambda>v. Inr (k, v))) opts else Inr opts)"

definition stage_of_kind :: "import_world \<Rightarrow> fx_graph \<Rightarrow> context_state \<Rightarrow> fx_node \<Rightarrow> meta_tensor \<Rightarrow> (string \<times> fx_arg) list \<Rightarrow>
    fkind \<Rightarrow> building \<Rightarrow> building res" where
  "stage_of_kind w g cx n t opts kind b =
     (if kind = K_Transfer then transfer_stage g n t opts b
      else if kind = K_Dequantize then dequantize_stage w g cx t opts b
      else if kind = K_Quantize then reject ''quantize_semantics_unproved''
      else if kind \<in> {K_Permute, K_Transpose} then permute_stage kind t opts b
      else if kind \<in> {K_Squeeze, K_Unsqueeze} then view_stage w g kind n t opts b
      else if kind \<in> {K_Reshape, K_Flatten} then reshape_stage w cx kind t opts b
      else if kind = K_Pad then pad_stage t opts b
      else if kind = K_Materialize then materialize_stage w g cx n t opts b
      else Inr b)"

definition stage :: "import_world \<Rightarrow> fx_graph \<Rightarrow> context_state \<Rightarrow> fx_node \<Rightarrow> building \<Rightarrow> building res" where
  "stage w g cx n b =
     (case fn_reason n of Some reason \<Rightarrow> reject reason | None \<Rightarrow>
      case fn_value n of
        Tensor_Meta t \<Rightarrow>
          res_bind (requires [(\<not> mt_requires_grad t \<or> \<not> iw_grad_enabled w, ''requires_grad'')]) (\<lambda>_.
          res_bind (stage_options w g (node_kind w n) n) (\<lambda>opts.
          case node_kind w n of None \<Rightarrow> Inr b | Some kind \<Rightarrow> stage_of_kind w g cx n t opts kind b))
      | _ \<Rightarrow> reject ''metadata_unavailable'')"

fun stages :: "import_world \<Rightarrow> fx_graph \<Rightarrow> context_state \<Rightarrow> string list \<Rightarrow> building \<Rightarrow> building res" where
  "stages w g cx [] b = Inr b"
| "stages w g cx (m # ms) b = (case find_node g m of
     None \<Rightarrow> Inl (KeyErr m)
   | Some n \<Rightarrow> res_bind (stage w g cx n b) (stages w g cx ms))"

definition source_checks :: "import_world \<Rightarrow> meta_tensor \<Rightarrow> unit res" where
  "source_checks w s = requires
     [(\<not> mt_subclass s, ''tensor_subclass''),
      (mt_strided s \<and> \<not> mt_quantized s, ''unsupported_layout''),
      (\<not> mt_requires_grad s \<or> \<not> iw_grad_enabled w, ''requires_grad''),
      (ts_shape (mt_spec s) \<noteq> [], ''rank_zero''),
      (DimInt 0 \<notin> set (ts_shape (mt_spec s)), ''empty_tensor'')]"

text \<open>\<open>dict.fromkeys\<close>: the first occurrence of each element.\<close>

definition first_occurrences :: "'a list \<Rightarrow> 'a list" where
  "first_occurrences xs = rev (remdups (rev xs))"

text \<open>The checks on the result, and the recipe with its guards and its parameters in declaration order.\<close>

definition finish_recipe :: "import_world \<Rightarrow> fx_graph \<Rightarrow> context_state \<Rightarrow> expr tensor_spec \<Rightarrow> string list \<Rightarrow> building \<Rightarrow>
    (recipe \<times> expr list \<times> string list) res" where
  "finish_recipe w g cx src members b = (case bl_direction b of
     None \<Rightarrow> reject ''same_device_transfer''
   | Some direction \<Rightarrow>
       let shape = bl_shape b; strides = dense_strides shape in
       res_bind (requires [(bl_offset b = Const 0 \<and> dense_now b, ''destination_layout'')]) (\<lambda>_.
       if members = [] then Inl (OtherExn ''IndexError'') else
       case value_of g (last members) of
         Tensor_Meta t \<Rightarrow>
           res_bind (known_layout w cx t shape) (\<lambda>actual.
           res_bind (requires
             [(ts_shape actual = shape, ''unsupported_symbolic_expr''),
              (ts_strides actual = strides \<and> ts_offset actual = bl_offset b, ''destination_layout''),
              (ts_dtype actual = bl_dtype b, ''typed_transform_unavailable'')]) (\<lambda>_.
           let recipe = \<lparr>r_source = src, r_operations = bl_operations b,
               r_destination = \<lparr>ts_shape = shape, ts_strides = strides, ts_offset = bl_offset b, ts_dtype = bl_dtype b\<rparr>,
               r_direction = direction\<rparr>
           in res_bind (mapR (\<lambda>p. if bp_name p \<in> set (bl_parameters b) then Inr (bp_name p) else Inl (KeyErr (bp_name p)))
               (parameter_bindings recipe)) (\<lambda>ordered.
             Inr (recipe, first_occurrences (bl_guards b), ordered))))
       | _ \<Rightarrow> Inl (OtherExn ''AttributeError'')))"

definition dense_source :: "expr tensor_spec \<Rightarrow> unit res" where
  "dense_source src = requires [(ts_offset src = Const 0 \<and> ts_strides src = dense_strides (ts_shape src), ''source_layout'')]"

text \<open>What a region's recipe starts from.\<close>

definition start_building :: "expr tensor_spec \<Rightarrow> building" where
  "start_building src = \<lparr>bl_operations = [], bl_shape = ts_shape src, bl_direction = None, bl_strides = Some (ts_strides src),
     bl_offset = ts_offset src, bl_dtype = ts_dtype src, bl_parameters = [], bl_guards = []\<rparr>"

definition recipe_of :: "import_world \<Rightarrow> fx_graph \<Rightarrow> string \<Rightarrow> string list \<Rightarrow>
    (recipe \<times> context_state \<times> expr list \<times> string list) res" where
  "recipe_of w g base members = (case value_of g base of
     Tensor_Meta s \<Rightarrow>
       res_bind (source_checks w s) (\<lambda>_.
       res_bind (from_tensor (iw_backed w) (ts_shape (mt_spec s))) (\<lambda>cx.
       res_bind (known_layout w cx s []) (\<lambda>src.
       res_bind (dense_source src) (\<lambda>_.
       res_bind (requires [(ts_dtype src \<in> {''float32'', ''float16'', ''bfloat16'', ''int8''}, ''unsupported_dtype'')]) (\<lambda>_.
       res_bind (stages w g cx members (start_building src)) (\<lambda>b.
       res_bind (finish_recipe w g cx src members b) (\<lambda>(r, guards, ps). Inr (r, cx, guards, ps))))))))
   | _ \<Rightarrow> reject (case Option.bind (find_node g base) fn_reason of None \<Rightarrow> ''metadata_unavailable'' | Some r \<Rightarrow> r))"

end
