(* ===== verification/Fx_Import.thy ===== *)
theory Fx_Import
  imports Fx_Recipe
begin

text \<open>
  \<open>import_graph\<close> of \<open>reloc_torch/fx_import.py\<close>: every transfer of a normalised graph is widened to its region,
  checked, described by a recipe and extracted; what fails is excluded with a reason.  Normalisation itself runs
  Torch's fake tensors and is an argument: the captured graph and its normalised copy come together, node by node
  under the same names.
\<close>

section \<open>The original region as a callable\<close>

text \<open>Its inputs in calling order, the nodes copied in graph order, and the node it returns.\<close>

record extracted =
  ex_inputs :: "string list"
  ex_body :: "string list"
  ex_result :: string

text \<open>
  \<open>visit\<close>: the nodes to copy, and the scalar placeholders with their expressions.  The first argument bounds the
  depth of the recursion, as Python's limit does.
\<close>

type_synonym visited = "string list \<times> (string \<times> expr) list"

fun foldR :: "('a \<Rightarrow> 's \<Rightarrow> 's res) \<Rightarrow> 'a list \<Rightarrow> 's \<Rightarrow> 's res" where
  "foldR f [] s = Inr s"
| "foldR f (x # xs) s = res_bind (f x s) (foldR f xs)"

primrec visit :: "import_world \<Rightarrow> fx_graph \<Rightarrow> context_state \<Rightarrow> string \<Rightarrow> string list \<Rightarrow> string list \<Rightarrow> nat \<Rightarrow> string \<Rightarrow>
    visited \<Rightarrow> visited res" where
  "visit w g cx base members params 0 m s = Inl (RuntimeErr ''maximum recursion depth exceeded'')"
| "visit w g cx base members params (Suc depth) m s =
     (if m = base \<or> m \<in> set (fst s) \<or> m \<in> set params then Inr s
      else case find_node g m of
        None \<Rightarrow> Inl (KeyErr m)
      | Some n \<Rightarrow>
          if fn_op n = Op_Placeholder
          then (case fn_value n of
              Tensor_Meta _ \<Rightarrow> reject ''unsupported_symbolic_expr''
            | v \<Rightarrow> res_bind (context_expression (iw_backed w) cx [] (case v of Scalar_Meta a \<Rightarrow> dim_of a | _ \<Rightarrow> DimOther)) (\<lambda>e.
                Inr (fst s, snd s @ [(m, e)])))
          else res_bind (requires [(m \<in> set members \<or> node_kind w n = Some K_Scalar, ''unsupported_symbolic_expr'')]) (\<lambda>_.
            res_bind (foldR (visit w g cx base members params depth) (all_input_nodes n) s) (\<lambda>s. Inr (m # fst s, snd s))))"

text \<open>\<open>node_copy\<close> of the body: every argument has to be mapped already.\<close>

fun copy_body :: "string set \<Rightarrow> fx_node list \<Rightarrow> string set res" where
  "copy_body mapped [] = Inr mapped"
| "copy_body mapped (n # ns) = (case find (\<lambda>m. m \<notin> mapped) (all_input_nodes n) of
     Some m \<Rightarrow> Inl (KeyErr m) | None \<Rightarrow> copy_body (insert (fn_name n) mapped) ns)"

definition extract_region :: "import_world \<Rightarrow> fx_graph \<Rightarrow> string \<Rightarrow> string list \<Rightarrow> context_state \<Rightarrow> string list \<Rightarrow>
    (extracted \<times> (string \<times> expr) list) res" where
  "extract_region w g base members cx params =
     res_bind (foldR (visit w g cx base members params (length g + 1)) members ([], [])) (\<lambda>(dependencies, external).
     let bindings = concat (map (\<lambda>n. case map_of external (fn_name n) of None \<Rightarrow> [] | Some e \<Rightarrow> [(fn_name n, e)]) g);
         inputs = base # map fst bindings @ params;
         body = filter (\<lambda>n. fn_name n \<in> set dependencies) g in
     res_bind (copy_body (set inputs) body) (\<lambda>mapped.
     if last members \<notin> mapped then Inl (KeyErr (last members))
     else Inr (\<lparr>ex_inputs = inputs, ex_body = map fn_name body, ex_result = last members\<rparr>, bindings)))"

section \<open>Selections by an index\<close>

definition has_kind :: "import_world \<Rightarrow> fx_graph \<Rightarrow> fkind \<Rightarrow> string \<Rightarrow> bool" where
  "has_kind w g kind m \<longleftrightarrow> (case find_node g m of None \<Rightarrow> False | Some n \<Rightarrow> node_kind w n = Some kind)"

definition index_operand :: "fx_graph \<Rightarrow> fx_arg \<Rightarrow> (string \<times> meta_tensor) res" where
  "index_operand g a = (case a of
     VRef i \<Rightarrow> res_bind (requires [(is_leaf g i, ''unsupported_index_select'')]) (\<lambda>_.
       case value_of g i of
         Tensor_Meta v \<Rightarrow> res_bind (requires [(dv_type (mt_device v) = ''cpu'' \<and> length (ts_shape (mt_spec v)) = 1 \<and>
             ts_dtype (mt_spec v) \<in> {''int32'', ''int64''} \<and> mt_strided v, ''unsupported_index_select'')]) (\<lambda>_. Inr (i, v))
       | _ \<Rightarrow> reject ''unsupported_index_select'')
   | _ \<Rightarrow> reject ''unsupported_index_select'')"

definition indexed_source :: "import_world \<Rightarrow> meta_value \<Rightarrow> meta_tensor res" where
  "indexed_source w v = (case v of
     Tensor_Meta s \<Rightarrow> res_bind (requires
       [(dv_type (mt_device s) = ''cpu'', ''unsupported_index_select''),
        (\<not> mt_requires_grad s \<or> \<not> iw_grad_enabled w, ''requires_grad''),
        (ts_shape (mt_spec s) \<noteq> [] \<and> mt_strided s \<and> \<not> mt_quantized s, ''unsupported_index_select'')]) (\<lambda>_. Inr s)
   | _ \<Rightarrow> reject ''unsupported_index_select'')"

definition indexed_recipe :: "import_world \<Rightarrow> fx_graph \<Rightarrow> string \<Rightarrow> string list \<Rightarrow>
    (recipe \<times> context_state \<times> expr list \<times> string list) res" where
  "indexed_recipe w g base members = (case members of
     [] \<Rightarrow> Inl (OtherExn ''IndexError'')
   | select # rest \<Rightarrow> (case find_node g select of
       None \<Rightarrow> Inl (KeyErr select)
     | Some n \<Rightarrow>
         res_bind (requires
           [(node_kind w n = Some K_Index_Select, ''unsupported_index_select''),
            (fn_reason n = None, case fn_reason n of None \<Rightarrow> [] | Some reason \<Rightarrow> reason)]) (\<lambda>_.
         res_bind (indexed_source w (value_of g base)) (\<lambda>s.
         res_bind (from_tensor (iw_backed w) (ts_shape (mt_spec s))) (\<lambda>cx.
         res_bind (known_layout w cx s []) (\<lambda>spec.
         res_bind (dense_source spec) (\<lambda>_.
         res_bind (options_of w n) (\<lambda>opts.
         res_bind (option_item opts ''dim'') (\<lambda>a.
         res_bind (requires [(a \<in> {VInt 0, VInt (- int (length (ts_shape (mt_spec s))))}, ''unsupported_index_select_dim'')]) (\<lambda>_.
         res_bind (option_item opts ''index'') (\<lambda>a.
         res_bind (index_operand g a) (\<lambda>(i, v).
         res_bind (requires [(\<forall>m\<in>set rest. has_kind w g K_Transfer m, ''unsupported_index_select'')]) (\<lambda>_.
         res_bind (recipe_of w g select rest) (\<lambda>(r, _, guards, _).
         res_bind (requires [(r_direction r = ''h2d'' \<and> length (r_operations r) \<le> 1 \<and> list_all is_cast (r_operations r), ''unsupported_index_select'')]) (\<lambda>_.
         res_bind (add_tensor (iw_backed w) (ts_shape (mt_spec v)) ''indices'' cx) (\<lambda>cx.
         res_bind (mapR (context_expression (iw_backed w) cx []) (ts_shape (mt_spec v))) (\<lambda>index_shape.
         let index_spec = \<lparr>ts_shape = index_shape, ts_strides = dense_strides index_shape, ts_offset = Const 0, ts_dtype = ts_dtype (mt_spec v)\<rparr>;
             shape = hd index_shape # tl (ts_shape spec) in
         res_bind (mk_index_select index_spec 0) (\<lambda>op.
         Inr (\<lparr>r_source = spec, r_operations = op # r_operations r,
               r_destination = \<lparr>ts_shape = shape, ts_strides = dense_strides shape, ts_offset = Const 0, ts_dtype = ts_dtype (r_destination r)\<rparr>,
               r_direction = ''h2d''\<rparr>, cx, guards, [i])))))))))))))))))))"

section \<open>Discovery\<close>

text \<open>The dataclasses \<open>Candidate\<close> and \<open>ImportReport\<close>; an exclusion is a node and a reason.\<close>

record candidate =
  cd_source :: string
  cd_tail :: string
  cd_members :: "string list"
  cd_recipe :: recipe
  cd_symbol_sources :: "symbol_source list"
  cd_symbolic_bindings :: "(string \<times> expr) list"
  cd_original :: extracted
  cd_extent_guards :: "expr list"
  cd_device :: device
  cd_parameters :: "string list"
  cd_index :: "string option"

record import_report =
  ir_candidates :: "candidate list"
  ir_exclusions :: "(string \<times> string) list"

definition candidate_of :: "import_world \<Rightarrow> fx_graph \<Rightarrow> fx_graph \<Rightarrow> string option \<Rightarrow> string list \<Rightarrow> candidate res" where
  "candidate_of w orig g base members = (case base of
     None \<Rightarrow> reject ''metadata_unavailable''
   | Some base \<Rightarrow>
       res_bind (safety w g base members) (\<lambda>_.
       let indexed = (\<exists>m\<in>set members. has_kind w g K_Index_Select m) in
       res_bind (if indexed then indexed_recipe w g base members else recipe_of w g base members) (\<lambda>(r, cx, guards, ps).
       if \<not> set (base # members @ ps) \<subseteq> fn_name ` set orig then Inl (KeyErr base) else
       res_bind (extract_region w orig base members cx ps) (\<lambda>(original, bindings).
       case value_of g (last members) of
         Tensor_Meta t \<Rightarrow> Inr \<lparr>cd_source = base, cd_tail = last members, cd_members = members, cd_recipe = r,
           cd_symbol_sources = cx_sources cx, cd_symbolic_bindings = bindings, cd_original = original, cd_extent_guards = guards,
           cd_device = mt_device t, cd_parameters = (if indexed then [] else ps),
           cd_index = (if indexed then Some (hd ps) else None)\<rparr>
       | _ \<Rightarrow> Inl (OtherExn ''AttributeError'')))))"

record import_state =
  is_candidates :: "candidate list"
  is_exclusions :: "(string \<times> string) list"
  is_seen :: "string list"

text \<open>\<open>None\<close>: the walk along the arguments does not end.\<close>

definition import_one :: "import_world \<Rightarrow> fx_graph \<Rightarrow> fx_graph \<Rightarrow> fx_node \<Rightarrow> import_state \<Rightarrow> import_state res option" where
  "import_one w orig g n s =
     (if \<not> is_transfer w n \<or> fn_name n \<in> set (is_seen s) then Some (Inr s)
      else let found = component w g [] [fn_name n];
          transfers = filter (\<lambda>n. fn_name n \<in> set found \<and> moves_device w g n) g in
        if length transfers > 1
        then Some (Inr (s\<lparr>is_exclusions := is_exclusions s @ map (\<lambda>n. (fn_name n, ''multiple_transfers'')) transfers,
          is_seen := is_seen s @ map fn_name (filter (\<lambda>n. fn_name n \<in> set found \<and> is_transfer w n) g)\<rparr>))
        else Option.bind (walk_up w g [fn_name n] (tensor_input n)) (\<lambda>(above, base).
          Option.bind (walk_down w g above) (\<lambda>members.
          let s = s\<lparr>is_seen := is_seen s @ map fn_name (filter (\<lambda>n. fn_name n \<in> set members \<and> is_transfer w n) g)\<rparr> in
          Some (case candidate_of w orig g base members of
              Inr c \<Rightarrow> Inr (s\<lparr>is_candidates := is_candidates s @ [c]\<rparr>)
            | Inl (UnsupportedRecipe reason _) \<Rightarrow> Inr (s\<lparr>is_exclusions := is_exclusions s @ [(fn_name n, reason)]\<rparr>)
            | Inl (UnsupportedSymbolicExpr _) \<Rightarrow> Inr (s\<lparr>is_exclusions := is_exclusions s @ [(fn_name n, ''unsupported_symbolic_expr'')]\<rparr>)
            | Inl e \<Rightarrow> Inl e))))"

fun import_nodes :: "import_world \<Rightarrow> fx_graph \<Rightarrow> fx_graph \<Rightarrow> fx_node list \<Rightarrow> import_state \<Rightarrow> import_state res option" where
  "import_nodes w orig g [] s = Some (Inr s)"
| "import_nodes w orig g (n # ns) s = Option.bind (import_one w orig g n s) (\<lambda>r.
     case r of Inl e \<Rightarrow> Some (Inl e) | Inr s \<Rightarrow> import_nodes w orig g ns s)"

definition normalisation_exclusions :: "fx_graph \<Rightarrow> (string \<times> string) list" where
  "normalisation_exclusions g = concat (map (\<lambda>n. case fn_reason n of None \<Rightarrow> [] | Some r \<Rightarrow> [(fn_name n, r)]) g)"

definition import_graph :: "import_world \<Rightarrow> fx_graph \<Rightarrow> fx_graph \<Rightarrow> import_report res option" where
  "import_graph w orig g = map_option (\<lambda>r. res_bind r (\<lambda>s.
       Inr \<lparr>ir_candidates = is_candidates s, ir_exclusions = first_occurrences (is_exclusions s)\<rparr>))
     (import_nodes w orig g g \<lparr>is_candidates = [], is_exclusions = normalisation_exclusions g, is_seen = []\<rparr>)"

text \<open>A candidate as the backend reads it.\<close>

definition region_of :: "candidate \<Rightarrow> region" where
  "region_of c = \<lparr>rc_source = cd_source c, rc_members = cd_members c, rc_recipe = cd_recipe c,
     rc_symbolic = cd_symbolic_bindings c, rc_guards = cd_extent_guards c, rc_device = Some (cd_device c),
     rc_parameters = cd_parameters c, rc_index = cd_index c\<rparr>"

end
