(* ===== verification/Fx_Candidates.thy ===== *)
theory Fx_Candidates
  imports Fx_Import Rewriting
begin

text \<open>
  What holds of every report of the importer: discovery ends, and its candidates are disjoint chains in graph
  order whose operands lie outside every member, which is what the rewriting of a graph needs.
\<close>

section \<open>Chains in graph order\<close>

lemma chainD:
  assumes "chain w g members base"
  shows chain_ne: "members \<noteq> []" and chain_stage: "m \<in> set members \<Longrightarrow> stage_name w g m"
    and chain_next: "Suc i < length members \<Longrightarrow> parent_of g (members ! Suc i) = Some (members ! i)"
    and chain_first: "parent_of g (members ! 0) = base"
  using assms by (auto simp: chain_def list_all_iff successively_conv_nth hd_conv_nth)

lemma chain_known: "chain w g members base \<Longrightarrow> set members \<subseteq> fn_name ` set g"
  using chain_stage stage_name_known by blast

lemma chain_increasing:
  assumes "well_ordered g" and "chain w g members base"
  shows "sorted_wrt (<) (map (position g) members)"
proof -
  have "successively (<) (map (position g) members)"
    unfolding successively_conv_nth using chain_next [OF assms(2)] parent_before [OF assms(1)] by simp
  then show ?thesis by (simp add: successively_conv_sorted_wrt)
qed

lemma chain_order: "well_ordered g \<Longrightarrow> chain w g members base \<Longrightarrow> i < j \<Longrightarrow> j < length members \<Longrightarrow>
    position g (members ! i) < position g (members ! j)"
  using chain_increasing [of g w members base] by (simp add: sorted_wrt_iff_nth_less)

lemma chain_distinct: "well_ordered g \<Longrightarrow> chain w g members base \<Longrightarrow> distinct members"
  using chain_increasing [of g w members base] by (metis distinct_map strict_sorted_iff)

lemma chain_in_graph_order:
  assumes "well_ordered g" and "chain w g members base"
  shows "members = filter (\<lambda>m. m \<in> set members) (map fn_name g)"
proof -
  let ?f = "filter (\<lambda>m. m \<in> set members) (map fn_name g)"
  have d: "distinct (map fn_name g)" using assms(1) by (simp add: well_ordered_def)
  have "map (position g) (map fn_name g) = [0..<length g]"
    by (intro nth_equalityI) (simp_all add: position_nth [OF d])
  then have "sorted_wrt (<) (map (position g) (map fn_name g))" by simp
  then have "sorted_wrt (<) (map (position g) ?f)" by (simp only: sorted_wrt_map sorted_wrt_filter)
  moreover have "set ?f = set members" using chain_known [OF assms(2)] by auto
  then have "set (map (position g) ?f) = set (map (position g) members)" by (simp only: set_map)
  ultimately have eq: "map (position g) members = map (position g) ?f"
    using chain_increasing [OF assms] strict_sorted_equal by blast
  have "inj_on (position g) (set members \<union> set ?f)"
    using chain_known [OF assms(2)] by (intro inj_onI) (auto intro: position_inj)
  from map_inj_on [OF eq this] show ?thesis .
qed

lemma chain_last_before:
  assumes "well_ordered g" and "chain w g members base" and "m \<in> set members"
  shows "position g m \<le> position g (last members)"
proof -
  from assms(3) obtain i where i: "i < length members" "m = members ! i" by (auto simp: in_set_conv_nth)
  have "last members = members ! (length members - 1)" using chain_ne [OF assms(2)] by (simp add: last_conv_nth)
  moreover have "i = length members - 1 \<or> i < length members - 1 \<and> length members - 1 < length members"
    using i(1) by linarith
  ultimately show ?thesis using i(2) chain_order [OF assms(1,2), of i "length members - 1"] by auto
qed

section \<open>Disjoint regions\<close>

text \<open>A walked chain: nothing above it is a stage, and it does not continue uniquely below.\<close>

definition maximal :: "import_world \<Rightarrow> fx_graph \<Rightarrow> string list \<Rightarrow> string option \<Rightarrow> bool" where
  "maximal w g members base \<longleftrightarrow> chain w g members base \<and> (\<forall>r. base = Some r \<longrightarrow> \<not> stage_name w g r) \<and>
     length (following w g (last members)) \<noteq> 1"

definition closed_region :: "fx_graph \<Rightarrow> string list \<Rightarrow> string \<Rightarrow> bool" where
  "closed_region g members base \<longleftrightarrow> (\<forall>m\<in>set (butlast members). \<not> escapes g (insert base (set members)) m)"

lemma predecessor_shared:
  assumes "maximal w g as a" and "maximal w g bs b" and "Suc j < length bs" and "bs ! Suc j \<in> set as"
  shows "bs ! j \<in> set as"
proof -
  have A: "chain w g as a" and B: "chain w g bs b" using assms by (simp_all add: maximal_def)
  have p: "parent_of g (bs ! Suc j) = Some (bs ! j)" by (rule chain_next [OF B assms(3)])
  have st: "stage_name w g (bs ! j)" using chain_stage [OF B] assms(3) by simp
  from assms(4) obtain i where i: "i < length as" "as ! i = bs ! Suc j" by (auto simp: in_set_conv_nth)
  show ?thesis
  proof (cases i)
    case 0
    then have "a = Some (bs ! j)" using chain_first [OF A] i p by simp
    with assms(1) st show ?thesis by (simp add: maximal_def)
  next
    case (Suc k)
    then have "as ! k = bs ! j" using chain_next [OF A, of k] i p by simp
    with Suc i(1) show ?thesis by (metis Suc_lessD nth_mem)
  qed
qed

lemma user_in_region:
  assumes "well_ordered g" and "maximal w g bs (Some b)" and "closed_region g bs b"
    and "Suc j < length bs" and "parent_of g z = Some (bs ! j)" and "stage_name w g z"
  shows "z = bs ! Suc j"
proof -
  have B: "chain w g bs (Some b)" and nb: "\<not> stage_name w g b" using assms(2) by (auto simp: maximal_def)
  have "j < length (butlast bs)" using assms(4) by simp
  then have "bs ! j \<in> set (butlast bs)" using nth_butlast nth_mem by metis
  then have ne: "\<not> escapes g (insert b (set bs)) (bs ! j)" using assms(3) by (auto simp: closed_region_def)
  from assms(5) obtain n where n: "find_node g z = Some n" "tensor_input n = Some (bs ! j)"
    by (auto simp: parent_of_def bind_eq_Some_conv)
  then have "n \<in> set (node_users g (bs ! j))" "fn_name n = z"
    using find_node_in [OF n(1)] tensor_input_in [OF n(2)] by (simp_all add: node_users_def)
  with ne have "z \<in> insert b (set bs)" by (auto simp: escapes_def)
  with nb assms(6) have "z \<in> set bs" by auto
  then obtain k where k: "k < length bs" "bs ! k = z" by (auto simp: in_set_conv_nth)
  show ?thesis
  proof (cases k)
    case 0
    then have "b = bs ! j" using chain_first [OF B] k assms(5) by simp
    with nb chain_stage [OF B, of "bs ! j"] assms(4) show ?thesis by simp
  next
    case (Suc i)
    then have "bs ! i = bs ! j" using chain_next [OF B, of i] k assms(5) by simp
    then have "i = j" using chain_distinct [OF assms(1) B] k Suc assms(4) by (simp add: nth_eq_iff_index_eq)
    with Suc k show ?thesis by simp
  qed
qed

lemma parent_following:
  assumes "parent_of g z = Some x" and "stage_name w g z"
  shows "z \<in> set (following w g x)"
proof -
  from assms(1) obtain n where n: "find_node g z = Some n" "tensor_input n = Some x"
    by (auto simp: parent_of_def bind_eq_Some_conv)
  then have "n \<in> set (consumers w g x)" "fn_name n = z" "is_stage w n"
    using find_node_in [OF n(1)] tensor_input_in [OF n(2)] assms(2)
    by (simp_all add: consumers_def node_users_def stage_name_def)
  then show ?thesis by (force simp: following_def)
qed

lemma regions_disjoint:
  assumes wo: "well_ordered g" and A: "maximal w g as a" and B: "maximal w g bs (Some b)" and closed: "closed_region g bs b"
    and t: "t \<in> set bs" "t \<notin> set as"
  shows "set as \<inter> set bs = {}"
proof (rule ccontr)
  have cA: "chain w g as a" and cB: "chain w g bs (Some b)" using A B by (simp_all add: maximal_def)
  assume "set as \<inter> set bs \<noteq> {}"
  then obtain z where "z \<in> set bs" "z \<in> set as" by blast
  then obtain k where "k < length bs" "bs ! k \<in> set as" by (metis in_set_conv_nth)
  then obtain j where j: "j < length bs" "bs ! j \<in> set as" and top: "\<And>k. j < k \<Longrightarrow> k < length bs \<Longrightarrow> bs ! k \<notin> set as"
    using ex_has_greatest_nat [of "\<lambda>k. k < length bs \<and> bs ! k \<in> set as" k "\<lambda>k. k" "length bs"] by (metis leD less_imp_le_nat)
  have below: "bs ! k \<in> set as" if "k \<le> j" for k
    using that j
  proof (induction "j - k" arbitrary: k)
    case (Suc d)
    then have "bs ! Suc k \<in> set as" by simp
    then show ?case using predecessor_shared [OF A B, of k] Suc.prems Suc.hyps(2) by simp
  qed simp
  have more: "Suc j < length bs"
  proof (rule ccontr)
    assume "\<not> Suc j < length bs"
    then have "set bs \<subseteq> set as" using below j by (auto simp: in_set_conv_nth)
    with t show False by auto
  qed
  let ?x = "bs ! j" and ?y = "bs ! Suc j"
  have y: "?y \<notin> set as" using top [of "Suc j"] more by simp
  from j obtain i where i: "i < length as" "as ! i = ?x" by (auto simp: in_set_conv_nth)
  show False
  proof (cases "Suc i < length as")
    case True
    have "parent_of g (as ! Suc i) = Some ?x" using chain_next [OF cA True] i by simp
    moreover have "stage_name w g (as ! Suc i)" using chain_stage [OF cA] True by simp
    ultimately have "as ! Suc i = ?y" using user_in_region [OF wo B closed more] by blast
    with y True show False by (metis nth_mem)
  next
    case False
    then have last: "last as = ?x" using i by (metis Suc_lessI diff_Suc_1 last_conv_nth length_0_conv not_less_zero)
    have "u = ?y" if "u \<in> set (following w g ?x)" for u
      using user_in_region [OF wo B closed more] following_step [OF wo that] by blast
    moreover have "?y \<in> set (following w g ?x)"
      using parent_following chain_next [OF cB more] chain_stage [OF cB] more by simp
    ultimately have "set (following w g ?x) = {?y}" by blast
    then have "length (following w g ?x) = 1" using following_distinct [OF wo] by (metis card.empty card_insert_disjoint distinct_card empty_iff finite.emptyI One_nat_def)
    with A last show False by (simp add: maximal_def)
  qed
qed

section \<open>Operands\<close>

text \<open>Inputs that are read, not computed: runtime parameters and the index.\<close>

definition leaves :: "fx_graph \<Rightarrow> fx_node \<Rightarrow> string set" where
  "leaves g n = {m \<in> set (all_input_nodes n). is_leaf g m}"

lemma leaf_not_stage: "m \<in> leaves g n \<Longrightarrow> \<not> stage_name w g m"
  by (auto simp: leaves_def is_leaf_def stage_name_def is_stage_def is_layout_def is_transfer_def is_typed_def node_kind_def split: option.splits)

lemma bind_schema_values: "(k, v, f) \<in> set (bind_schema ps args kwargs) \<Longrightarrow> v \<in> set args \<union> snd ` set kwargs"
proof (induction ps args kwargs rule: bind_schema.induct)
  case (3 name written ps kwargs)
  then show ?case by (cases "map_of kwargs name") (auto dest!: map_of_SomeD intro: rev_image_eqI)
qed auto

lemma option_refs:
  assumes "options_of w n = Inr opts" and "(k, v) \<in> set opts"
  shows "set (refs v) \<subseteq> set (all_input_nodes n)"
proof -
  obtain s where s: "node_schema w n = Some s" using assms(1) by (cases "node_schema w n") (simp_all add: options_of_def)
  with assms(1) have "opts = map (\<lambda>(k, v, _). (k, v)) (bind_schema (sc_arguments s) (fn_args n) (fn_kwargs n))"
    by (auto simp: options_of_def)
  with assms(2) obtain f where "(k, v, f) \<in> set (bind_schema (sc_arguments s) (fn_args n) (fn_kwargs n))" by auto
  from bind_schema_values [OF this] show ?thesis by (auto simp: all_input_nodes_def)
qed

lemma option_node:
  assumes "options_of w n = Inr opts" and "map_of opts k = Some (VRef m)"
  shows "m \<in> set (all_input_nodes n)"
  using option_refs [OF assms(1) map_of_SomeD [OF assms(2)]] by simp

text \<open>The stages of a region, one per kind of node.\<close>

lemma stage_cases:
  assumes "stage w g cx n b = Inr b'"
  obtains "b' = b"
  | (transfer) t opts where "transfer_stage g n t opts b = Inr b'"
  | (dequantize) t opts where "options_of w n = Inr opts"
      "dequantize_stage w g cx t (filter (\<lambda>(k, _). k \<noteq> ''self'') opts) b = Inr b'"
  | (permute) kind t opts where "permute_stage kind t opts b = Inr b'"
  | (view) kind t opts where "view_stage w g kind n t opts b = Inr b'"
  | (reshape) kind t opts where "reshape_stage w cx kind t opts b = Inr b'"
  | (pad) t opts where "pad_stage t opts b = Inr b'"
  | (materialize) t opts where "materialize_stage w g cx n t opts b = Inr b'"
proof -
  have none: "fn_reason n = None" using assms by (cases "fn_reason n") (simp_all add: stage_def)
  obtain t where t: "fn_value n = Tensor_Meta t" using assms none by (cases "fn_value n") (simp_all add: stage_def)
  from assms none t have "res_bind (stage_options w g (node_kind w n) n) (\<lambda>opts.
      case node_kind w n of None \<Rightarrow> Inr b | Some kind \<Rightarrow> stage_of_kind w g cx n t opts kind b) = Inr b'"
    by (simp add: stage_def)
  then obtain opts where o: "stage_options w g (node_kind w n) n = Inr opts"
    and run: "(case node_kind w n of None \<Rightarrow> Inr b | Some kind \<Rightarrow> stage_of_kind w g cx n t opts kind b) = Inr b'"
    by (simp only: res_bind_eq_Inr) blast
  show thesis
  proof (cases "node_kind w n")
    case (Some kind)
    show thesis
    proof (cases "kind = K_Dequantize")
      case True
      then obtain opts0 where "options_of w n = Inr opts0" "opts = filter (\<lambda>(k, _). k \<noteq> ''self'') opts0"
        using o Some by (auto simp: stage_options_def Let_def)
      then show thesis using dequantize [of opts0 t] run True Some by (simp add: stage_of_kind_def)
    next
      case False
      have "stage_of_kind w g cx n t opts kind b = Inr b'" using run Some by simp
      with False show thesis
        by (cases kind) (auto simp: stage_of_kind_def intro: transfer permute view reshape pad materialize that(1))
    qed
  qed (use run that in simp)
qed

lemma parameter_of_names:
  assumes "parameter_of w g cx scale extent a ps = Inr (p, ps')"
  shows "set ps' \<subseteq> set ps \<union> {m. a = VRef m \<and> is_leaf g m}"
  using assms
  by (auto simp: parameter_of_def binding_of_def Let_def split: fx_arg.splits if_splits meta_value.splits)

text \<open>The parts of a dequantisation.\<close>

lemma dequantize_parts:
  assumes "dequantize_stage w g cx t opts b = Inr b'"
  obtains extent k a scale ps zp ps' axis q where "bl_dtype b = ''int8''"
    and "case extent of None \<Rightarrow> True | Some e \<Rightarrow> e \<in> set (bl_shape b)"
    and "map_of opts k = Some a" and "parameter_of w g cx True extent a (bl_parameters b) = Inr (scale, ps)"
    and "zp = None \<and> ps' = ps \<or> (\<exists>z k raw. map_of opts k = Some raw \<and> zp = Some z \<and> parameter_of w g cx False extent raw ps = Inr (z, ps'))"
    and "check_quant ''float32'' (Some scale) zp axis ''affine'' = Inr q"
    and "b' = b\<lparr>bl_operations := bl_operations b @ [Dequantize q], bl_dtype := ''float32'', bl_parameters := ps'\<rparr>"
proof -
  define per where "per \<longleftrightarrow> map_of opts ''scales'' \<noteq> None"
  define axis where "axis = option_or opts ''axis'' VNone"
  define extent where "extent = (if per then Some (bl_shape b ! the_index (length (bl_shape b)) axis) else None)"
  define raw where "raw = option_or opts (if per then ''zero_points'' else ''zero_point'') VNone"
  from assms have checks: "bl_dtype b = ''int8''" "per \<longrightarrow> int_in axis 0 (int (length (bl_shape b)) - 1)"
    by (auto simp: dequantize_stage_def Let_def per_def axis_def)
  have "the_index (length (bl_shape b)) axis < length (bl_shape b)" if per
    using checks(2) that by (cases axis) (auto simp: int_in_def nat_less_iff)
  then have extent: "case extent of None \<Rightarrow> True | Some e \<Rightarrow> e \<in> set (bl_shape b)" by (simp add: extent_def)
  from assms obtain a scale ps zp ps' q where parts:
      "option_item opts (if per then ''scales'' else ''scale'') = Inr a"
      "parameter_of w g cx True extent a (bl_parameters b) = Inr (scale, ps)"
      "(if raw = VNone then Inr (None, ps)
        else res_bind (parameter_of w g cx False extent raw ps) (\<lambda>(zp, ps). Inr (Some zp, ps))) = Inr (zp, ps')"
      "check_quant ''float32'' (Some scale) zp (if per then Some (int (the_index (length (bl_shape b)) axis)) else None) ''affine'' = Inr q"
      "b' = b\<lparr>bl_operations := bl_operations b @ [Dequantize q], bl_dtype := ''float32'', bl_parameters := ps'\<rparr>"
    unfolding dequantize_stage_def Let_def per_def [symmetric] axis_def [symmetric] raw_def [symmetric] extent_def [symmetric]
    by (clarsimp simp only: res_bind_eq_Inr split_paired_Ex prod.case sum.inject)
  have zp: "zp = None \<and> ps' = ps \<or> (\<exists>z k raw. map_of opts k = Some raw \<and> zp = Some z \<and> parameter_of w g cx False extent raw ps = Inr (z, ps'))"
  proof (cases "raw = VNone")
    case False
    let ?k = "if per then ''zero_points'' else ''zero_point''"
    from False have "map_of opts ?k = Some raw"
      unfolding raw_def option_or_def by (cases "map_of opts ?k") (simp_all only: option.case simp_thms)
    with parts(3) False show ?thesis by auto
  qed (use parts(3) in simp)
  have "map_of opts (if per then ''scales'' else ''scale'') = Some a"
    using parts(1) by (auto simp: option_item_def split: option.splits)
  from that [OF checks(1) extent this parts(2) zp parts(4,5)] show thesis .
qed

lemma dequantize_parameters:
  assumes "dequantize_stage w g cx t (filter (\<lambda>(k, _). k \<noteq> ''self'') opts) b = Inr b'" and "options_of w n = Inr opts"
  shows "set (bl_parameters b') \<subseteq> set (bl_parameters b) \<union> leaves g n"
proof -
  let ?opts = "filter (\<lambda>(k, _). k \<noteq> ''self'') opts"
  have node: "m \<in> set (all_input_nodes n)" if "map_of ?opts k = Some (VRef m)" for k m
    using option_refs [OF assms(2), of k "VRef m"] map_of_SomeD [OF that] by auto
  have names: "set ps' \<subseteq> set ps \<union> leaves g n"
    if "parameter_of w g cx scale extent a ps = Inr (p, ps')" "map_of ?opts k = Some a" for scale extent a ps p ps' k
    using parameter_of_names [OF that(1)] node [of k] that(2) by (auto simp: leaves_def)
  show ?thesis using assms(1)
  proof (cases rule: dequantize_parts)
    case (1 extent k a scale ps zp ps' axis q)
    have "set ps \<subseteq> set (bl_parameters b) \<union> leaves g n" by (rule names [OF 1(4,3)])
    moreover have "set ps' \<subseteq> set ps \<union> leaves g n" using 1(5) names by blast
    ultimately show ?thesis using 1(7) by auto
  qed
qed

lemma stage_parameters:
  assumes "stage w g cx n b = Inr b'"
  shows "set (bl_parameters b') \<subseteq> set (bl_parameters b) \<union> leaves g n"
  using assms
proof (cases rule: stage_cases)
  case (transfer t opts)
  have cast: "cast_stage before t c = Inr c' \<Longrightarrow> bl_parameters c' = bl_parameters c" for before c c'
    by (auto simp: cast_stage_def split: if_splits)
  from transfer obtain before direction c where "cast_stage before t (b\<lparr>bl_direction := direction\<rparr>) = Inr c"
    "bl_parameters b' = bl_parameters c"
    by (auto simp: transfer_stage_def Let_def split: if_split_asm)
  with cast show ?thesis by fastforce
next
  case (dequantize t opts)
  then show ?thesis by (intro dequantize_parameters)
next
  case (permute kind t opts)
  then have "bl_parameters b' = bl_parameters b" by (auto simp: permute_stage_def Let_def)
  then show ?thesis by simp
next
  case (view kind t opts)
  then have "bl_parameters b' = bl_parameters b"
    by (auto simp: view_stage_def unsqueeze_stage_def squeeze_stage_def Let_def split: if_splits)
  then show ?thesis by simp
next
  case (reshape kind t opts)
  then have "bl_parameters b' = bl_parameters b"
    by (auto simp: reshape_stage_def Let_def catch_def split: if_splits sum.splits)
  then show ?thesis by simp
next
  case (pad t opts)
  have loop: "pad_loop i ws f c = Inr c' \<Longrightarrow> bl_parameters c' = bl_parameters c" for i ws f c c'
    by (induction i ws f c rule: pad_loop.induct) (auto simp: Let_def)
  from pad have "bl_parameters b' = bl_parameters b" by (auto simp: pad_stage_def dest: loop)
  then show ?thesis by simp
next
  case (materialize t opts)
  have guard: "contiguous_guard w g cx n b = Inr c \<Longrightarrow> bl_parameters c = bl_parameters b" for c
    by (auto simp: contiguous_guard_def Let_def split: if_split_asm)
  from materialize have "bl_parameters b' = bl_parameters b"
    by (auto simp: materialize_stage_def Let_def guard split: if_splits)
  then show ?thesis by simp
qed simp

definition member_leaves :: "fx_graph \<Rightarrow> string list \<Rightarrow> string set" where
  "member_leaves g members = {p. \<exists>m\<in>set members. \<exists>n. find_node g m = Some n \<and> p \<in> leaves g n}"

lemma member_leaves_Cons: "find_node g m = Some n \<Longrightarrow> member_leaves g (m # ms) = leaves g n \<union> member_leaves g ms"
  by (auto simp: member_leaves_def)

lemma stages_parameters:
  "stages w g cx members b = Inr b' \<Longrightarrow> set (bl_parameters b') \<subseteq> set (bl_parameters b) \<union> member_leaves g members"
proof (induction members arbitrary: b)
  case (Cons m ms)
  then obtain n c where n: "find_node g m = Some n" and c: "stage w g cx n b = Inr c" "stages w g cx ms c = Inr b'"
    by (auto split: option.splits)
  with Cons.IH [OF c(2)] stage_parameters [OF c(1)] show ?case by (auto simp: member_leaves_Cons)
qed simp

text \<open>What a finished recipe is made of.\<close>

lemma finish_recipe_parts:
  assumes "finish_recipe w g cx src members b = Inr (r, guards, ps)"
  obtains direction where "bl_direction b = Some direction" "bl_offset b = Const 0" "dense_now b"
    "r = \<lparr>r_source = src, r_operations = bl_operations b,
      r_destination = \<lparr>ts_shape = bl_shape b, ts_strides = dense_strides (bl_shape b), ts_offset = Const 0, ts_dtype = bl_dtype b\<rparr>,
      r_direction = direction\<rparr>"
    "guards = first_occurrences (bl_guards b)" "ps = map bp_name (parameter_bindings r)" "set ps \<subseteq> set (bl_parameters b)"
proof -
  obtain direction where d: "bl_direction b = Some direction"
    using assms by (cases "bl_direction b") (simp_all add: finish_recipe_def)
  have look: "mapR (\<lambda>p. if bp_name p \<in> S then Inr (bp_name p) else Inl (KeyErr (bp_name p))) xs = Inr ys \<Longrightarrow>
      ys = map bp_name xs \<and> set ys \<subseteq> S" for S xs ys
    by (induction xs arbitrary: ys) (simp, fastforce split: if_splits)
  from assms d have dense: "bl_offset b = Const 0" "dense_now b"
    by (auto simp: finish_recipe_def Let_def)
  from assms d dense obtain t where "value_of g (last members) = Tensor_Meta t" "members \<noteq> []"
    by (cases "value_of g (last members)") (auto simp: finish_recipe_def Let_def split: if_splits)
  with assms d dense have "r = \<lparr>r_source = src, r_operations = bl_operations b,
      r_destination = \<lparr>ts_shape = bl_shape b, ts_strides = dense_strides (bl_shape b), ts_offset = Const 0, ts_dtype = bl_dtype b\<rparr>,
      r_direction = direction\<rparr>" "guards = first_occurrences (bl_guards b)"
      "mapR (\<lambda>p. if bp_name p \<in> set (bl_parameters b) then Inr (bp_name p) else Inl (KeyErr (bp_name p))) (parameter_bindings r) = Inr ps"
    by (auto simp add: finish_recipe_def Let_def simp del: mapR_eq_Inr)
  with d dense look show thesis using that by blast
qed

lemma recipe_of_parts:
  assumes "recipe_of w g base members = Inr (r, cx, guards, ps)"
  obtains s src b where "value_of g base = Tensor_Meta s" "source_checks w s = Inr ()"
    "from_tensor (iw_backed w) (ts_shape (mt_spec s)) = Inr cx" "known_layout w cx s [] = Inr src" "dense_source src = Inr ()"
    "ts_dtype src \<in> {''float32'', ''float16'', ''bfloat16'', ''int8''}"
    "stages w g cx members (start_building src) = Inr b" "finish_recipe w g cx src members b = Inr (r, guards, ps)"
proof -
  obtain s where s: "value_of g base = Tensor_Meta s"
    using assms by (cases "value_of g base") (simp_all add: recipe_of_def)
  show thesis using that [OF s] assms s by (auto simp: recipe_of_def)
qed

lemma recipe_of_operands: "recipe_of w g base members = Inr (r, cx, guards, ps) \<Longrightarrow> set ps \<subseteq> member_leaves g members"
  by (elim recipe_of_parts finish_recipe_parts) (drule stages_parameters, auto simp: start_building_def)

lemma indexed_recipe_operand:
  assumes "indexed_recipe w g base members = Inr (r, cx, guards, ps)"
  obtains i where "ps = [i]" "i \<in> member_leaves g members"
proof -
  obtain m ms where members: "members = m # ms" using assms by (cases members) (simp_all add: indexed_recipe_def)
  obtain n where n: "find_node g m = Some n"
    using assms members by (cases "find_node g m") (simp_all add: indexed_recipe_def)
  from assms members n obtain opts a i v where o: "options_of w n = Inr opts" "option_item opts ''index'' = Inr a"
    "index_operand g a = Inr (i, v)" "ps = [i]"
    by (auto simp: indexed_recipe_def Let_def)
  from o(3) have a: "a = VRef i" "is_leaf g i"
    by (auto simp: index_operand_def split: fx_arg.splits meta_value.splits)
  have "map_of opts ''index'' = Some (VRef i)" using o(2) a(1) by (auto simp: option_item_def split: option.splits)
  then have "i \<in> leaves g n" using option_node [OF o(1)] a(2) by (simp add: leaves_def)
  then show thesis using that [OF o(4)] n members by (auto simp: member_leaves_def)
qed

section \<open>Candidates\<close>

lemma safety_closed: "safety w g base members = Inr () \<Longrightarrow> closed_region g members base"
  by (auto simp: safety_def Let_def closed_region_def split: if_splits)

text \<open>What a candidate satisfies by itself.\<close>

definition candidate_ok :: "import_world \<Rightarrow> fx_graph \<Rightarrow> fx_graph \<Rightarrow> candidate \<Rightarrow> bool" where
  "candidate_ok w orig g c \<longleftrightarrow> maximal w g (cd_members c) (Some (cd_source c)) \<and> safety w g (cd_source c) (cd_members c) = Inr () \<and>
     set (cd_parameters c) \<union> set_option (cd_index c) \<subseteq> member_leaves g (cd_members c) \<and>
     candidate_of w orig g (Some (cd_source c)) (cd_members c) = Inr c"

lemma candidate_of_parts:
  assumes "candidate_of w orig g base members = Inr c"
  shows "base = Some (cd_source c)" and "cd_members c = members" and "safety w g (cd_source c) members = Inr ()"
    and "set (cd_parameters c) \<union> set_option (cd_index c) \<subseteq> member_leaves g members"
    and "\<exists>cx guards ps. (if cd_index c \<noteq> None then indexed_recipe w g (cd_source c) members else recipe_of w g (cd_source c) members) =
      Inr (cd_recipe c, cx, guards, ps) \<and> cd_symbol_sources c = cx_sources cx \<and> guards = cd_extent_guards c \<and>
      extract_region w orig (cd_source c) members cx ps = Inr (cd_original c, cd_symbolic_bindings c) \<and>
      ps = (case cd_index c of None \<Rightarrow> cd_parameters c | Some i \<Rightarrow> [i])"
    and "cd_tail c = last members"
proof -
  obtain b where b: "base = Some b" using assms by (cases base) (simp_all add: candidate_of_def)
  define indexed where "indexed = (\<exists>m\<in>set members. has_kind w g K_Index_Select m)"
  obtain t where t: "value_of g (last members) = Tensor_Meta t"
    using assms b by (cases "value_of g (last members)") (auto simp: candidate_of_def Let_def split: if_splits)
  from assms b obtain r cx guards ps original bindings where parts: "safety w g b members = Inr ()"
      "(if indexed then indexed_recipe w g b members else recipe_of w g b members) = Inr (r, cx, guards, ps)"
      "extract_region w orig b members cx ps = Inr (original, bindings)"
    and c: "c = \<lparr>cd_source = b, cd_tail = last members, cd_members = members, cd_recipe = r,
           cd_symbol_sources = cx_sources cx, cd_symbolic_bindings = bindings, cd_original = original, cd_extent_guards = guards,
           cd_device = mt_device t, cd_parameters = (if indexed then [] else ps),
           cd_index = (if indexed then Some (hd ps) else None)\<rparr>"
    unfolding candidate_of_def option.case Let_def indexed_def [symmetric] t meta_value.case
    by (auto split: if_split_asm simp del: if_split)
  show "base = Some (cd_source c)" "cd_members c = members" "safety w g (cd_source c) members = Inr ()" "cd_tail c = last members"
    using b parts(1) c by auto
  show "set (cd_parameters c) \<union> set_option (cd_index c) \<subseteq> member_leaves g members"
    using parts(2) c recipe_of_operands [of w g b members r cx guards ps]
    by (cases indexed) (auto elim: indexed_recipe_operand)
  show "\<exists>cx guards ps. (if cd_index c \<noteq> None then indexed_recipe w g (cd_source c) members else recipe_of w g (cd_source c) members) =
      Inr (cd_recipe c, cx, guards, ps) \<and> cd_symbol_sources c = cx_sources cx \<and> guards = cd_extent_guards c \<and>
      extract_region w orig (cd_source c) members cx ps = Inr (cd_original c, cd_symbolic_bindings c) \<and>
      ps = (case cd_index c of None \<Rightarrow> cd_parameters c | Some i \<Rightarrow> [i])"
    using parts(2,3) c by (cases indexed) (auto elim: indexed_recipe_operand)
qed

text \<open>The state of the discovery: its candidates are disjoint, and their transfers have been seen.\<close>

definition discovered :: "import_world \<Rightarrow> fx_graph \<Rightarrow> fx_graph \<Rightarrow> import_state \<Rightarrow> bool" where
  "discovered w orig g s \<longleftrightarrow> (\<forall>c\<in>set (is_candidates s). candidate_ok w orig g c) \<and> distinct (concat (map cd_members (is_candidates s))) \<and>
     (\<forall>c\<in>set (is_candidates s). \<forall>n\<in>set g. is_transfer w n \<and> fn_name n \<in> set (cd_members c) \<longrightarrow> fn_name n \<in> set (is_seen s))"

lemma discovered_exclude: "discovered w orig g s \<Longrightarrow> discovered w orig g (s\<lparr>is_exclusions := e\<rparr>)"
  by (simp add: discovered_def)

lemma discovered_seen: "discovered w orig g s \<Longrightarrow> discovered w orig g (s\<lparr>is_seen := is_seen s @ names\<rparr>)"
  by (auto simp: discovered_def)

text \<open>The region around a transfer: a maximal chain through it.\<close>

lemma region_walk:
  assumes wo: "well_ordered g" and n: "n \<in> set g" "is_transfer w n"
  obtains above base members where "walk_up w g [fn_name n] (tensor_input n) = Some (above, base)"
    "walk_down w g above = Some members" "maximal w g members base" "fn_name n \<in> set members"
proof -
  have f: "find_node g (fn_name n) = Some n" using find_node_Some wo n(1) by (simp add: well_ordered_def)
  have start: "chain w g [fn_name n] (tensor_input n)"
    using n(2) f by (simp add: chain_def stage_name_def is_stage_def parent_of_def)
  have "case tensor_input n of None \<Rightarrow> True | Some r \<Rightarrow> r \<in> fn_name ` set g"
    using input_before [OF wo n(1)] tensor_input_in by (auto split: option.splits)
  then obtain res where up: "walk_up w g [fn_name n] (tensor_input n) = Some res"
    using walk_up_ends [OF wo, of "tensor_input n" w "[fn_name n]"] by auto
  obtain above base where res: "res = (above, base)" by (metis surj_pair)
  have a: "chain w g above base" "\<And>r. base = Some r \<Longrightarrow> \<not> stage_name w g r" "last above = fn_name n"
    using walk_up_chain [OF up start] res by auto
  have "last above \<in> fn_name ` set g" using a(3) n(1) by simp
  from walk_down_ends [OF wo this, of w] obtain members where down: "walk_down w g above = Some members" by blast
  from walk_down_chain [OF down wo a(1)] have d: "chain w g members base" "length (following w g (last members)) \<noteq> 1" "set above \<subseteq> set members"
    by auto
  have "fn_name n \<in> set above" using a(3) chain_ne [OF a(1)] last_in_set by metis
  then have "fn_name n \<in> set members" using d(3) by blast
  moreover have "maximal w g members base" using d a(2) by (simp add: maximal_def)
  ultimately show thesis using that [of above base members] up res down by simp
qed

lemma import_one_discovered:
  assumes wo: "well_ordered g" and n: "n \<in> set g" and inv: "discovered w orig g s"
  shows "\<exists>r. import_one w orig g n s = Some r \<and> (\<forall>s'. r = Inr s' \<longrightarrow> discovered w orig g s')"
proof (cases "is_transfer w n \<and> fn_name n \<notin> set (is_seen s)")
  case False
  then show ?thesis using inv by (auto simp: import_one_def)
next
  case True
  define found where "found = component w g [] [fn_name n]"
  define transfers where "transfers = filter (\<lambda>n. fn_name n \<in> set found \<and> moves_device w g n) g"
  show ?thesis
  proof (cases "length transfers > 1")
    case many: True
    then show ?thesis using True inv discovered_exclude discovered_seen
      by (simp add: import_one_def Let_def flip: found_def transfers_def) (auto simp: discovered_def)
  next
    case False
    obtain above base members where walk: "walk_up w g [fn_name n] (tensor_input n) = Some (above, base)"
        "walk_down w g above = Some members" and reg: "maximal w g members base" "fn_name n \<in> set members"
      using region_walk [OF wo n] True by blast
    let ?s = "s\<lparr>is_seen := is_seen s @ map fn_name (filter (\<lambda>n. fn_name n \<in> set members \<and> is_transfer w n) g)\<rparr>"
    have inv': "discovered w orig g ?s" by (rule discovered_seen [OF inv])
    have run: "import_one w orig g n s = Some (case candidate_of w orig g base members of
              Inr c \<Rightarrow> Inr (?s\<lparr>is_candidates := is_candidates ?s @ [c]\<rparr>)
            | Inl (UnsupportedRecipe reason _) \<Rightarrow> Inr (?s\<lparr>is_exclusions := is_exclusions ?s @ [(fn_name n, reason)]\<rparr>)
            | Inl (UnsupportedSymbolicExpr _) \<Rightarrow> Inr (?s\<lparr>is_exclusions := is_exclusions ?s @ [(fn_name n, ''unsupported_symbolic_expr'')]\<rparr>)
            | Inl e \<Rightarrow> Inl e)"
      using True False walk by (simp add: import_one_def Let_def flip: found_def transfers_def)
    show ?thesis
    proof (cases "candidate_of w orig g base members")
      case (Inl e)
      then show ?thesis unfolding run using discovered_exclude [OF inv'] by (cases e) auto
    next
      case (Inr c)
      note parts = candidate_of_parts [OF Inr]
      have ok: "candidate_ok w orig g c" using Inr parts(1-4) reg by (simp add: candidate_ok_def)
      have disjoint: "set (cd_members c') \<inter> set members = {}" if c': "c' \<in> set (is_candidates s)" for c'
      proof (rule regions_disjoint [OF wo _ _ safety_closed [OF parts(3)] reg(2)])
        show "maximal w g (cd_members c') (Some (cd_source c'))" using inv c' by (auto simp: discovered_def candidate_ok_def)
        show "maximal w g members (Some (cd_source c))" using reg(1) parts(1) by simp
        show "fn_name n \<notin> set (cd_members c')" using inv c' True n by (auto simp: discovered_def)
      qed
      have "distinct members" using reg(1) chain_distinct [OF wo] by (auto simp: maximal_def)
      then have "discovered w orig g (?s\<lparr>is_candidates := is_candidates ?s @ [c]\<rparr>)"
        using inv ok disjoint parts(2) by (auto simp: discovered_def)
      then show ?thesis unfolding run Inr by simp
    qed
  qed
qed

lemma import_nodes_discovered:
  "well_ordered g \<Longrightarrow> set ns \<subseteq> set g \<Longrightarrow> discovered w orig g s \<Longrightarrow>
     \<exists>r. import_nodes w orig g ns s = Some r \<and> (\<forall>s'. r = Inr s' \<longrightarrow> discovered w orig g s')"
proof (induction ns arbitrary: s)
  case (Cons n ns)
  obtain r where r: "import_one w orig g n s = Some r" "\<forall>s'. r = Inr s' \<longrightarrow> discovered w orig g s'"
    using import_one_discovered [of g n w orig s] Cons.prems by auto
  then show ?case using Cons.IH [of "projr r"] Cons.prems by (cases r) auto
qed simp

lemma import_graph_discovered:
  assumes "well_ordered g"
  obtains r where "import_graph w orig g = Some r"
    "\<And>rep. r = Inr rep \<Longrightarrow> \<exists>s. discovered w orig g s \<and> ir_candidates rep = is_candidates s"
proof -
  obtain r where r: "import_nodes w orig g g \<lparr>is_candidates = [], is_exclusions = normalisation_exclusions g, is_seen = []\<rparr> = Some r"
      "\<forall>s'. r = Inr s' \<longrightarrow> discovered w orig g s'"
    using import_nodes_discovered [OF assms order_refl] by (metis (no_types, lifting) discovered_def empty_iff empty_set
      distinct.simps(1) import_state.select_convs(1) list.simps(8) concat.simps(1))
  show thesis
  proof (cases r)
    case (Inl e)
    with r(1) have "import_graph w orig g = Some (Inl e)" by (simp add: import_graph_def)
    then show thesis using that by simp
  next
    case (Inr s)
    with r(1) have "import_graph w orig g =
        Some (Inr \<lparr>ir_candidates = is_candidates s, ir_exclusions = first_occurrences (is_exclusions s)\<rparr>)"
      by (simp add: import_graph_def)
    then show thesis using that r(2) Inr by fastforce
  qed
qed

end
