(* ===== verification/Fx_Typing.thy ===== *)
theory Fx_Typing
  imports Fx_Candidates
begin

text \<open>
  Typing of imported recipes: every recipe the importer builds is well formed, its operations take the source's
  extents and dtype to the destination's, and its MLIR can be emitted.
\<close>

section \<open>Emission of well-typed recipes\<close>

lemma fill_text_total: "fill_ok f \<Longrightarrow> \<exists>t. fill_text f = Inr t"
  by (auto simp: fill_ok_def fill_text_def literal_def tensor_dtypes_def lookup_def mlir_dtypes_def mlir_widths_def
      split: option.splits if_splits)

lemma literal_total: "map_of param_dtypes d = Some k \<Longrightarrow> \<exists>dt. map_of mlir_param_dtypes d = Some dt \<and> (\<forall>b. \<exists>t. literal b dt = Inr t)"
  by (auto simp: literal_def param_dtypes_def tensor_dtypes_def lookup_def mlir_param_dtypes_def mlir_dtypes_def mlir_widths_def
      split: option.splits if_splits)

lemma param_text_total:
  assumes "param_ok p"
  shows "\<exists>t. param_text p = Inr t"
proof (cases p)
  case (BindingParam b)
  then obtain k where "map_of param_dtypes (bp_dtype b) = Some k" using assms by (auto simp: binding_ok_def)
  from literal_total [OF this] show ?thesis using BindingParam by (auto simp: param_text_def lookup_def)
next
  case (InlineParam i)
  then obtain k where "map_of param_dtypes (ip_dtype i) = Some k" using assms by (auto simp: inline_shape_ok_def)
  from literal_total [OF this] obtain dt where dt: "map_of mlir_param_dtypes (ip_dtype i) = Some dt"
    and l: "\<forall>b. \<exists>t. literal b dt = Inr t" by blast
  from l obtain f where "literal b dt = Inr (f b)" for b by metis
  then have v: "mapR (\<lambda>b. literal b dt) (ip_bits i) = Inr (map f (ip_bits i))" by simp
  have "ip_shape i = [] \<Longrightarrow> ip_bits i \<noteq> []" using assms InlineParam by (auto simp: inline_bits_ok_def)
  with v dt InlineParam show ?thesis
    by (cases "ip_shape i"; cases "ip_bits i") (simp_all add: param_text_def lookup_def del: mapR_eq_Inr)
qed

lemma operation_text_total: "wf_op op \<Longrightarrow> \<exists>t. operation_text v target op = Inr t"
proof (cases op)
  case (Pad axis lo hi f)
  assume "wf_op op"
  then obtain t where "fill_text f = Inr t" using Pad fill_text_total by auto
  with Pad show ?thesis by simp
next
  have quant: "\<exists>t. quant_text name q v = Inr t" if "quant_params_ok q" for name q
  proof -
    have "param_ok (q_scale q)" using that by (simp add: quant_params_ok_def)
    then obtain s where s: "param_text (q_scale q) = Inr s" using param_text_total by blast
    show ?thesis
    proof (cases "q_zero_point q")
      case (Some p)
      then have "param_ok p" using that by (simp add: quant_params_ok_def)
      then obtain z where "param_text p = Inr z" using param_text_total by blast
      with s Some show ?thesis by (simp add: quant_text_def)
    qed (use s in \<open>simp add: quant_text_def\<close>)
  qed
  { case (Quantize q)
    assume "wf_op op"
    with Quantize quant show ?thesis by simp }
  { case (Dequantize q)
    assume "wf_op op"
    with Dequantize quant show ?thesis by simp }
qed simp_all

lemma mlir_dtype_known: "map_of tensor_dtypes d = Some k \<Longrightarrow> map_of mlir_dtypes d \<noteq> None"
  by (auto simp: tensor_dtypes_def mlir_dtypes_def split: if_splits)

text \<open>\<open>chain_dtype\<close>: the dtype a chain of operations ends in.\<close>

definition chain_dtype :: "string \<Rightarrow> operation list \<Rightarrow> string" where
  "chain_dtype dtype ops = foldl next_dtype dtype ops"

lemma next_dtype_known:
  assumes "wf_op op" and "map_of tensor_dtypes d \<noteq> None"
  shows "map_of tensor_dtypes (next_dtype d op) \<noteq> None"
  using assms by (cases op) (auto simp: next_dtype_def cast_ok_def quant_params_ok_def quant_ok_def)

lemma emit_operations_total:
  "shape_chain current ops = Inr t \<Longrightarrow> list_all wf_op ops \<Longrightarrow> map_of tensor_dtypes dtype \<noteq> None \<Longrightarrow>
     \<exists>v' lns'. emit_operations itype i v current dtype ops lns = Inr (v', chain_dtype dtype ops, lns')"
proof (induction ops arbitrary: current dtype i v lns)
  case (Cons op ops)
  obtain target where target: "operation_shape current op = Inr target" "shape_chain target ops = Inr t"
    using Cons.prems(1) by auto
  obtain written where written: "operation_text v target op = Inr written" using operation_text_total Cons.prems(2) by fastforce
  have n: "map_of tensor_dtypes (next_dtype dtype op) \<noteq> None" using next_dtype_known Cons.prems by simp
  obtain d1 d2 where "map_of mlir_dtypes dtype = Some d1" "map_of mlir_dtypes (next_dtype dtype op) = Some d2"
    using mlir_dtype_known n Cons.prems(3) by (metis not_None_eq)
  then show ?case using target written Cons.IH [OF target(2) _ n] Cons.prems(2)
    by (simp add: Let_def lookup_def chain_dtype_def)
qed (simp add: chain_dtype_def)

text \<open>The conditions under which a recipe has MLIR.\<close>

definition typed_recipe :: "recipe \<Rightarrow> bool" where
  "typed_recipe r \<longleftrightarrow> wf_recipe r \<and> shape_chain (ts_shape (r_source r)) (r_operations r) = Inr (ts_shape (r_destination r)) \<and>
     chain_dtype (ts_dtype (r_source r)) (r_operations r) = ts_dtype (r_destination r) \<and>
     map_of tensor_dtypes (ts_dtype (r_source r)) \<noteq> None \<and> dense_descriptor (r_source r) \<and> dense_descriptor (r_destination r) \<and>
     r_direction r \<in> {''h2d'', ''d2h''}"

definition dense_index :: "recipe \<Rightarrow> bool" where
  "dense_index r \<longleftrightarrow> indexed_chain (r_operations r) \<and> (\<forall>s a. IndexSelect s a \<in> set (r_operations r) \<longrightarrow>
     ts_strides s = dense_strides (ts_shape s) \<and> ts_offset s = Const 0)"

lemma identity_permutation: "is_permutation (map int [0..<n]) n"
  by (simp add: is_permutation_def sorted_sort_id sorted_map)

lemma emit_mlir_total:
  assumes typed: "typed_recipe r" and index: "recipe_indexed r \<longrightarrow> dense_index r"
  shows "\<exists>mlir. emit_mlir r = Inr mlir"
proof -
  let ?s = "r_source r" and ?d = "r_destination r" and ?ops = "r_operations r"
  from typed have wf: "list_all wf_op ?ops" and chain: "shape_chain (ts_shape ?s) ?ops = Inr (ts_shape ?d)"
    and dt: "chain_dtype (ts_dtype ?s) ?ops = ts_dtype ?d" and known: "map_of tensor_dtypes (ts_dtype ?s) \<noteq> None"
    and dense: "dense_descriptor ?s" "dense_descriptor ?d"
    by (simp_all add: typed_recipe_def wf_recipe_def)
  have known': "map_of tensor_dtypes (chain_dtype d ops) \<noteq> None" if "list_all wf_op ops" "map_of tensor_dtypes d \<noteq> None" for d ops
    using that by (induction ops arbitrary: d) (simp_all add: chain_dtype_def next_dtype_known del: not_None_eq)
  then have kd: "map_of tensor_dtypes (ts_dtype ?d) \<noteq> None" using wf known dt by metis
  obtain d1 d2 where d: "map_of mlir_dtypes (ts_dtype ?s) = Some d1" "map_of mlir_dtypes (ts_dtype ?d) = Some d2"
    using mlir_dtype_known known kd by (metis not_None_eq)
  have same: "ts_dtype ?s = ts_dtype ?d" if "\<not> recipe_typed r"
  proof -
    have "\<forall>op\<in>set ops. \<not> is_typed_op op \<Longrightarrow> chain_dtype x ops = x" for x ops
    proof (induction ops arbitrary: x)
      case (Cons op ops)
      then have "next_dtype x op = x" by (simp add: next_dtype_def)
      with Cons show ?case by (simp add: chain_dtype_def)
    qed (simp add: chain_dtype_def)
    with that dt show ?thesis by (simp add: recipe_typed_def)
  qed
  obtain itype where itype: "index_type r = Inr itype"
  proof (cases "recipe_indexed r")
    case True
    with index have ic: "indexed_chain ?ops" and di: "\<forall>s a. IndexSelect s a \<in> set ?ops \<longrightarrow> ts_strides s = dense_strides (ts_shape s) \<and> ts_offset s = Const 0"
      by (simp_all add: dense_index_def)
    then obtain s a ops' where ops: "?ops = IndexSelect s a # ops'"
      by (cases ?ops; cases "hd ?ops") (auto simp: indexed_chain_def)
    then have "index_select_ok s a" using wf by simp
    then obtain k where "map_of mlir_index_dtypes (ts_dtype s) = Some k"
      by (auto simp: index_select_ok_def mlir_index_dtypes_def)
    moreover have dn: "ts_strides s = dense_strides (ts_shape s)" "ts_offset s = Const 0"
      using di [rule_format, of s a] ops by simp_all
    ultimately have "index_type r = Inr (Some (type_text (ts_shape s) k))"
      using ic True unfolding index_type_def ops by simp
    then show thesis by (rule that)
  next
    case False
    then have "index_type r = Inr None" by (simp add: index_type_def)
    then show thesis by (rule that)
  qed
  let ?run = "if ?ops = [] then [Transpose (map int [0..<length (ts_shape ?s)])] else ?ops"
  have "\<exists>v lns. emit_operations itype 0 ''%x'' (ts_shape ?s) (ts_dtype ?s) ?run header = Inr (v, ts_dtype ?d, lns)" for header
  proof (cases "?ops = []")
    case True
    have "shape_chain (ts_shape ?s) [Transpose (map int [0..<length (ts_shape ?s)])] =
        Inr (permute (map int [0..<length (ts_shape ?s)]) (ts_shape ?s))"
      by (simp add: identity_permutation)
    from emit_operations_total [OF this] known dt True show ?thesis by (simp add: chain_dtype_def next_dtype_def)
  next
    case False
    with emit_operations_total [OF chain wf known] dt show ?thesis by simp
  qed
  then show ?thesis using d same itype dense
    by (auto simp: emit_mlir_def Let_def lookup_def)
qed

section \<open>Well-formed pieces\<close>

lemma convert_wf:
  assumes cx: "context_ok cx"
  shows "convert backed cx env positive e = Inr x \<Longrightarrow> wf_expr x"
proof (induction e arbitrary: x)
  case (SSymbol s)
  then obtain v i where "map_of (cx_symbols cx) (v, s) = Some i" "x = Symbol (ss_name (cx_sources cx ! i))"
    by (auto split: option.splits if_splits)
  then show ?case using context_index [OF cx] source_name_identifier by simp
next
  case (SAdd es)
  then obtain xs where xs: "list_all2 (\<lambda>e x. convert backed cx env positive e = Inr x) es xs" and r: "reduce_with add xs = Inr x"
    by (auto simp: mapR_eq_Inr)
  have "list_all wf_expr xs" using xs SAdd.IH by (induction es xs rule: list_all2_induct) auto
  with r show ?case by (cases xs) (auto simp: foldl_add_wf)
next
  case (SMul es)
  then obtain xs where xs: "list_all2 (\<lambda>e x. convert backed cx env positive e = Inr x) es xs" and r: "reduce_with mul xs = Inr x"
    by (auto simp: mapR_eq_Inr)
  have "list_all wf_expr xs" using xs SMul.IH by (induction es xs rule: list_all2_induct) auto
  with r show ?case by (cases xs) (auto simp: foldl_mul_wf)
next
  case (SMax es)
  then obtain a b where es: "es = [a, b]" "a \<noteq> SInteger 1 \<or> b \<noteq> SInteger 1" "a = SInteger 1 \<or> b = SInteger 1"
    by (auto split: list.splits if_splits)
  then have "\<exists>e\<in>set es. convert backed cx env positive e = Inr x" using SMax.prems by (auto split: if_splits)
  with SMax.IH show ?case by blast
next
  case (SFloorDiv l r)
  then show ?case by (auto simp: mk_floordiv_def split: sym_expr.splits if_splits)
next
  case (SModulo l r)
  then show ?case by (auto simp: mk_mod_def split: sym_expr.splits if_splits)
next
  case (SPower b e)
  then obtain n where "e = SInteger n" by (auto split: sym_expr.splits)
  with SPower show ?case by (auto simp: foldl_mul_wf list_all_iff split: if_splits)
qed simp_all

lemma context_expression_wf: "context_ok cx \<Longrightarrow> context_expression backed cx positive d = Inr e \<Longrightarrow> wf_expr e"
  by (auto simp: context_expression_def convert_wf split: graph_dim.splits)

lemma mapR_all_holds: "mapR f xs = Inr ys \<Longrightarrow> (\<And>x y. x \<in> set xs \<Longrightarrow> f x = Inr y \<Longrightarrow> P y) \<Longrightarrow> list_all P ys"
  unfolding mapR_eq_Inr by (induction xs ys rule: list_all2_induct) auto

lemma known_layout_wf: "context_ok cx \<Longrightarrow> known_layout w cx t shape = Inr s \<Longrightarrow> wf_spec s"
  by (auto simp: known_layout_def context_spec_def wf_spec_def simp del: mapR_eq_Inr
      intro: mapR_all_holds context_expression_wf)

lemma infer_reshape_wf:
  assumes "infer_reshape src target = Inr shape" and "list_all wf_expr src" and "list_all wf_expr target"
  shows "list_all wf_expr shape"
proof -
  have p: "wf_expr (product src)" using assms(2) by (intro wf_product) (simp add: list_all_iff)
  then have q: "mk_floordiv (product src) d = Inr q \<Longrightarrow> wf_expr q" for d q
    by (auto simp: mk_floordiv_def split: if_splits)
  show ?thesis using assms(1,3) p by (auto simp: infer_reshape_def Let_def list_all_iff dest: q split: if_splits)
qed

lemma constant_fold_wf: "wf_expr e \<Longrightarrow> constant_fold e = Inr e' \<Longrightarrow> wf_expr e'"
  by (auto simp: constant_fold_def split: sum.splits exn.splits)

lemma binding_of_ok:
  assumes "context_ok cx" and "binding_of w g cx scale extent name = Inr p"
  shows "param_ok p"
proof -
  obtain t where t: "value_of g name = Tensor_Meta t" using assms(2) by (cases "value_of g name") (simp_all add: binding_of_def)
  from assms(2) t obtain extents where e: "mapR (context_expression (iw_backed w) cx []) (ts_shape (mt_spec t)) = Inr extents"
    and p: "mk_binding name (if scale then ''float32'' else ''int32'') extents = Inr p"
    by (auto simp: binding_of_def Let_def simp del: mapR_eq_Inr)
  have "list_all wf_expr extents" using e assms(1) by (intro mapR_all_holds [OF e]) (rule context_expression_wf)
  with p show ?thesis by (auto simp: mk_binding_eq_Inr)
qed

lemma parameter_of_ok:
  assumes "context_ok cx" and "parameter_of w g cx scale extent a ps = Inr (p, ps')"
  shows "param_ok p"
proof (cases "is_ref a")
  case True
  then show ?thesis using assms binding_of_ok by (cases a) (auto simp: parameter_of_def)
next
  case False
  then have "(if scale then inline_scale a else inline_zero_point a) = Inr p"
    using assms(2) by (cases a) (auto simp: parameter_of_def)
  then show ?thesis
    by (auto simp: inline_scale_def inline_zero_point_def mk_inline_eq_Inr simp del: param_ok.simps split: if_splits option.splits fx_arg.splits)
qed

section \<open>Stages preserve types\<close>

text \<open>The operations so far take the source's extents and dtype to the current ones.\<close>

definition building_ok :: "expr tensor_spec \<Rightarrow> building \<Rightarrow> bool" where
  "building_ok src b \<longleftrightarrow> shape_chain (ts_shape src) (bl_operations b) = Inr (bl_shape b) \<and> list_all wf_op (bl_operations b) \<and>
     list_all (\<lambda>op. \<not> is_index_select op) (bl_operations b) \<and> list_all wf_expr (bl_shape b) \<and>
     chain_dtype (ts_dtype src) (bl_operations b) = bl_dtype b \<and> list_all wf_expr (bl_guards b) \<and>
     bl_direction b \<in> {None, Some ''h2d'', Some ''d2h''} \<and> bl_shape b \<noteq> []"

lemma shape_chain_snoc: "shape_chain s (ops @ [op]) = res_bind (shape_chain s ops) (\<lambda>t. operation_shape t op)"
proof (induction ops arbitrary: s)
  case Nil
  show ?case by (cases "operation_shape s op") simp_all
next
  case (Cons a ops)
  then show ?case by (cases "operation_shape s a") simp_all
qed

lemma building_ok_step:
  assumes "building_ok src b" and "operation_shape (bl_shape b) op = Inr (bl_shape b')" and "wf_op op" and "\<not> is_index_select op"
    and "bl_operations b' = bl_operations b @ [op]" and "bl_dtype b' = next_dtype (bl_dtype b) op"
    and "list_all wf_expr (bl_guards b')" and "bl_direction b' = bl_direction b" and "bl_shape b' \<noteq> []"
  shows "building_ok src b'"
  using assms operation_shape_wf [of "bl_shape b" op "bl_shape b'"]
  by (simp add: building_ok_def shape_chain_snoc chain_dtype_def)

lemma building_ok_frame:
  assumes "building_ok src b" and "bl_operations b' = bl_operations b" and "bl_shape b' = bl_shape b" and "bl_dtype b' = bl_dtype b"
    and "list_all wf_expr (bl_guards b')" and "bl_direction b' \<in> {None, Some ''h2d'', Some ''d2h''}"
  shows "building_ok src b'"
  using assms by (simp add: building_ok_def)

lemma building_ok_guards: "building_ok src b \<Longrightarrow> list_all wf_expr (bl_guards b)"
  and building_ok_shape: "building_ok src b \<Longrightarrow> list_all wf_expr (bl_shape b)"
  and building_ok_ne: "building_ok src b \<Longrightarrow> bl_shape b \<noteq> []"
  and building_ok_direction: "building_ok src b \<Longrightarrow> bl_direction b \<in> {None, Some ''h2d'', Some ''d2h''}"
  by (simp_all add: building_ok_def)

lemma cast_between_ok: "cast_between a b = Inr op \<Longrightarrow> wf_op op \<and> \<not> is_index_select op \<and> is_typed_op op \<and> operation_shape s op = Inr s"
  by (auto simp: cast_between_def casts_def cast_ok_def cast_policies_def tensor_dtypes_def split: option.splits if_splits)

lemma cast_stage_ok:
  assumes "building_ok src b" and "cast_stage before t b = Inr b'"
  shows "building_ok src b'"
proof (cases "ts_dtype (mt_spec before) = ts_dtype (mt_spec t)")
  case False
  then obtain op where op: "cast_between (ts_dtype (mt_spec before)) (ts_dtype (mt_spec t)) = Inr op"
    and b': "b' = b\<lparr>bl_operations := bl_operations b @ [op], bl_dtype := op_dtype op\<rparr>"
    using assms(2) by (auto simp: cast_stage_def)
  show ?thesis
    by (rule building_ok_step [OF assms(1), of op])
      (use cast_between_ok [OF op, of "bl_shape b"] b' building_ok_guards [OF assms(1)] building_ok_ne [OF assms(1)] in \<open>simp_all add: next_dtype_def\<close>)
qed (use assms in \<open>simp add: cast_stage_def\<close>)

lemma transfer_stage_ok:
  assumes ok: "building_ok src b" and run: "transfer_stage g n t opts b = Inr b'"
  shows "building_ok src b'"
proof -
  from run obtain before direction c where d: "moved_direction before t opts b = Inr direction"
    and c: "cast_stage before t (b\<lparr>bl_direction := direction\<rparr>) = Inr c"
    and b': "b' = c \<or> b' = c\<lparr>bl_strides := Some (dense_strides (bl_shape c)), bl_offset := Const 0\<rparr>"
    by (auto simp: transfer_stage_def Let_def split: if_split_asm)
  have "direction \<in> {None, Some ''h2d'', Some ''d2h''}"
    using d building_ok_direction [OF ok] by (auto simp: moved_direction_def split: if_split_asm)
  then have "building_ok src (b\<lparr>bl_direction := direction\<rparr>)"
    by (intro building_ok_frame [OF ok]) (simp_all add: building_ok_guards [OF ok])
  from cast_stage_ok [OF this c] have c': "building_ok src c" .
  from b' show ?thesis
    by (elim disjE) (simp_all add: c' building_ok_frame [OF c'] building_ok_guards [OF c'] building_ok_direction [OF c', simplified])
qed

lemma dequantize_stage_ok:
  assumes cx: "context_ok cx" and ok: "building_ok src b" and run: "dequantize_stage w g cx t opts b = Inr b'"
  shows "building_ok src b'"
  using run
proof (cases rule: dequantize_parts)
  case (1 extent k a scale ps zp ps' axis q)
  have "param_ok scale" by (rule parameter_of_ok [OF cx 1(4)])
  moreover have "case zp of None \<Rightarrow> True | Some p \<Rightarrow> param_ok p" using 1(5) parameter_of_ok [OF cx] by auto
  ultimately have "quant_params_ok q" "q_dtype q = ''float32''" using 1(6) by (auto simp: check_quant_eq_Inr quant_params_ok_def)
  then show ?thesis using 1(7) building_ok_guards [OF ok] building_ok_ne [OF ok]
    by (intro building_ok_step [OF ok, of "Dequantize q"]) (simp_all add: next_dtype_def)
qed

lemma permute_stage_ok:
  assumes ok: "building_ok src b" and run: "permute_stage kind t opts b = Inr b'"
  shows "building_ok src b'"
proof -
  from run obtain perm where p: "operation_shape (bl_shape b) (Transpose perm) = Inr (bl_shape b')"
    and b': "bl_operations b' = bl_operations b @ [Transpose perm]" "bl_dtype b' = bl_dtype b" "bl_guards b' = bl_guards b"
      "bl_direction b' = bl_direction b"
    by (auto simp: permute_stage_def Let_def simp del: operation_shape.simps)
  from p have "is_permutation perm (length (bl_shape b))" "bl_shape b' = permute perm (bl_shape b)" by (auto split: if_splits)
  then have "length (bl_shape b') = length (bl_shape b)" by (simp add: length_permute)
  then have "bl_shape b' \<noteq> []" using building_ok_ne [OF ok] by auto
  then show ?thesis by (intro building_ok_step [OF ok p]) (simp_all add: b' next_dtype_def building_ok_guards [OF ok])
qed

text \<open>A stage that ends in a reshape to extents of its own.\<close>

lemma reshaped_ok:
  assumes ok: "building_ok src b" and "list_all wf_expr shape" and "bl_shape b' = shape" and "shape \<noteq> []"
    and "bl_operations b' = bl_operations b @ [Reshape shape]" and "bl_dtype b' = bl_dtype b"
    and "list_all wf_expr (bl_guards b')" and "bl_direction b' = bl_direction b"
  shows "building_ok src b'"
  by (rule building_ok_step [OF ok, of "Reshape shape"]) (simp_all add: assms next_dtype_def)

lemma list_all_cut: "list_all P xs \<Longrightarrow> list_all P (take n xs)" "list_all P xs \<Longrightarrow> list_all P (drop n xs)"
  by (metis append_take_drop_id list_all_append)+

lemma unsqueeze_stage_shape:
  assumes "unsqueeze_stage opts b = Inr c" and "list_all wf_expr (bl_shape b)"
  shows "list_all wf_expr (bl_shape c) \<and> bl_operations c = bl_operations b \<and> bl_dtype c = bl_dtype b \<and> bl_guards c = bl_guards b \<and>
    bl_direction c = bl_direction b"
  using assms by (auto simp: unsqueeze_stage_def Let_def list_all_cut)

lemma squeeze_axes_guards:
  "squeeze_axes w before shape axes removed guards = Inr (removed', guards') \<Longrightarrow> list_all wf_expr shape \<Longrightarrow>
     \<forall>a\<in>set axes. a < length shape \<Longrightarrow> list_all wf_expr guards \<Longrightarrow> list_all wf_expr guards'"
proof (induction axes arbitrary: removed guards)
  case (Cons a axes)
  then obtain e where e: "constant_fold (shape ! a) = Inr e" by auto
  then have "wf_expr e" using constant_fold_wf Cons.prems(2,3) by (auto simp: list_all_length)
  with Cons e show ?case by (cases e) (auto split: if_splits)
qed simp

lemma drop_axes_wf: "list_all wf_expr xs \<Longrightarrow> list_all wf_expr (drop_axes removed xs)"
  by (auto simp: drop_axes_def list_all_iff)

lemma view_dim_less: "view_dim a rank = Inr i \<Longrightarrow> i < rank"
  by (cases a) (auto simp: view_dim_def int_in_def nat_less_iff split: if_splits)

lemma squeeze_stage_shape:
  assumes run: "squeeze_stage w g n opts b = Inr c" and wf: "list_all wf_expr (bl_shape b)" "list_all wf_expr (bl_guards b)"
  shows "list_all wf_expr (bl_shape c) \<and> bl_operations c = bl_operations b \<and> bl_dtype c = bl_dtype b \<and> list_all wf_expr (bl_guards c) \<and>
    bl_direction c = bl_direction b"
proof -
  from run obtain ds axes extents removed guards where ax: "mapR (\<lambda>a. view_dim a (length (bl_shape b))) ds = Inr axes"
    and sq: "squeeze_axes w extents (bl_shape b) axes {} (bl_guards b) = Inr (removed, guards)"
    and c: "bl_shape c = drop_axes removed (bl_shape b)" "bl_operations c = bl_operations b" "bl_dtype c = bl_dtype b"
      "bl_guards c = guards" "bl_direction c = bl_direction b"
    by (auto simp: squeeze_stage_def Let_def simp del: mapR_eq_Inr)
  have "list_all (\<lambda>i. i < length (bl_shape b)) axes" by (rule mapR_all_holds [OF ax]) (rule view_dim_less)
  with squeeze_axes_guards [OF sq wf(1)] wf(2) c drop_axes_wf [OF wf(1), of removed] show ?thesis by (simp add: list_all_iff)
qed

lemma view_stage_ok:
  assumes ok: "building_ok src b" and run: "view_stage w g kind n t opts b = Inr b'"
  shows "building_ok src b'"
proof -
  from run obtain c where c: "(if kind = K_Unsqueeze then unsqueeze_stage opts b else squeeze_stage w g n opts b) = Inr c"
    and b': "b' = c\<lparr>bl_operations := bl_operations c @ [Reshape (bl_shape c)]\<rparr>" and ne: "bl_shape c \<noteq> []"
    by (auto simp: view_stage_def)
  have "list_all wf_expr (bl_shape c) \<and> bl_operations c = bl_operations b \<and> bl_dtype c = bl_dtype b \<and> list_all wf_expr (bl_guards c) \<and>
      bl_direction c = bl_direction b"
  proof (cases "kind = K_Unsqueeze")
    case True
    then show ?thesis using unsqueeze_stage_shape [of opts b c] c building_ok_shape [OF ok] building_ok_guards [OF ok] by simp
  next
    case False
    then show ?thesis using squeeze_stage_shape [of w g n opts b c] c building_ok_shape [OF ok] building_ok_guards [OF ok] by simp
  qed
  then show ?thesis using b' ne by (intro reshaped_ok [OF ok, of "bl_shape c"]) simp_all
qed

lemma reshape_target_wf:
  assumes cx: "context_ok cx" and wf: "list_all wf_expr shape" and run: "reshape_target w cx kind opts shape = Inr target"
  shows "list_all wf_expr target \<and> target \<noteq> []"
proof (cases "kind = K_Flatten")
  case True
  then obtain i j where "target = take i shape @ product (take (j + 1 - i) (drop i shape)) # drop (j + 1) shape"
    using run by (auto simp: reshape_target_def)
  moreover have "wf_expr (product (take (j + 1 - i) (drop i shape)))"
    using list_all_cut(1) [OF list_all_cut(2) [OF wf]] by (intro wf_product) (simp add: list_all_iff)
  ultimately show ?thesis using wf by (simp add: list_all_cut)
next
  case False
  then obtain ds es where es: "mapR (context_expression (iw_backed w) cx [] \<circ> dim_of) ds = Inr es" and t: "infer_reshape shape es = Inr target"
    using run by (auto simp: reshape_target_def simp del: mapR_eq_Inr)
  have "list_all wf_expr es" by (rule mapR_all_holds [OF es]) (simp add: context_expression_wf [OF cx])
  then have "list_all wf_expr target" by (rule infer_reshape_wf [OF t wf])
  moreover have "target \<noteq> []" using t by (auto simp: infer_reshape_def Let_def split: if_splits)
  ultimately show ?thesis by simp
qed

lemma reshape_stage_ok:
  assumes cx: "context_ok cx" and ok: "building_ok src b" and run: "reshape_stage w cx kind t opts b = Inr b'"
  shows "building_ok src b'"
proof -
  from run obtain target shape where t: "reshape_target w cx kind opts (bl_shape b) = Inr target" and s: "mapR constant_fold target = Inr shape"
    and b': "bl_shape b' = shape" "bl_operations b' = bl_operations b @ [Reshape shape]" "bl_dtype b' = bl_dtype b"
      "bl_guards b' = bl_guards b" "bl_direction b' = bl_direction b"
    by (auto simp: reshape_stage_def Let_def catch_def simp del: mapR_eq_Inr split: if_splits sum.splits)
  have target: "list_all wf_expr target \<and> target \<noteq> []" by (rule reshape_target_wf [OF cx building_ok_shape [OF ok] t])
  then have "shape \<noteq> []" using mapR_length [OF s] by auto
  moreover have "list_all wf_expr shape" using target by (intro mapR_all_holds [OF s]) (auto simp: list_all_iff intro: constant_fold_wf)
  ultimately show ?thesis using b' building_ok_guards [OF ok] by (intro reshaped_ok [OF ok]) simp_all
qed

lemma pad_loop_ok:
  "pad_loop i widths f b = Inr b' \<Longrightarrow> fill_ok f \<Longrightarrow> building_ok src b \<Longrightarrow> building_ok src b'"
proof (induction i widths f b rule: pad_loop.induct)
  case (1 i lo hi widths f b)
  let ?op = "Pad (int (length (bl_shape b)) - 1 - int i) (Const lo) (Const hi) f"
  from "1.prems"(1) obtain shape where s: "operation_shape (bl_shape b) ?op = Inr shape"
    and rest: "pad_loop (Suc i) widths f (b\<lparr>bl_operations := bl_operations b @ [?op], bl_shape := shape\<rparr>) = Inr b'"
    by (auto simp: Let_def simp del: operation_shape.simps)
  have "length shape = length (bl_shape b)" using s by (auto split: if_splits)
  then have "shape \<noteq> []" using building_ok_ne [OF "1.prems"(3)] by auto
  then have "building_ok src (b\<lparr>bl_operations := bl_operations b @ [?op], bl_shape := shape\<rparr>)"
    by (intro building_ok_step [OF "1.prems"(3), of ?op])
      (simp_all add: s "1.prems"(2) next_dtype_def building_ok_guards [OF "1.prems"(3)] del: operation_shape.simps)
  from "1.IH" [OF refl s rest "1.prems"(2) this] show ?case .
qed simp_all

lemma pad_stage_ok:
  assumes ok: "building_ok src b" and run: "pad_stage t opts b = Inr b'"
  shows "building_ok src b'"
proof -
  from run obtain f widths c where f: "fill_of (bl_dtype b) (option_or opts ''value'' (VInt 0)) = Inr f"
    and c: "pad_loop 0 widths f b = Inr c" and b': "b' = c\<lparr>bl_strides := Some (dense_strides (bl_shape c)), bl_offset := Const 0\<rparr>"
    unfolding pad_stage_def by (auto simp only: res_bind_eq_Inr sum.inject)
  have "fill_ok f" using f fill_from_ok by (auto simp: fill_of_def split: option.splits)
  from pad_loop_ok [OF c this ok] have "building_ok src c" .
  then show ?thesis using b' by (simp add: building_ok_def)
qed

lemma contiguous_guard_ok:
  assumes ok: "building_ok src b" and run: "contiguous_guard w g cx n b = Inr c"
  shows "building_ok src c"
proof -
  from run have "c = b \<or> c = b\<lparr>bl_guards := bl_guards b @ filter (\<lambda>d. const_value d = None) (bl_shape b)\<rparr>"
    by (auto simp: contiguous_guard_def Let_def split: if_split_asm)
  moreover have "list_all wf_expr (filter P (bl_shape b))" for P
    using building_ok_shape [OF ok] by (auto simp: list_all_iff)
  ultimately show ?thesis using ok by (auto simp: building_ok_def)
qed

lemma materialize_stage_ok:
  assumes ok: "building_ok src b" and run: "materialize_stage w g cx n t opts b = Inr b'"
  shows "building_ok src b'"
proof -
  from run obtain c ss ofs where c: "c = b \<or> contiguous_guard w g cx n b = Inr c"
    and b': "b' = c \<or> b' = c\<lparr>bl_strides := ss, bl_offset := ofs\<rparr>"
    by (auto simp: materialize_stage_def Let_def split: if_split_asm)
  then have "building_ok src c" using ok contiguous_guard_ok by blast
  then show ?thesis using b' by (auto simp: building_ok_def)
qed

lemma stage_ok:
  assumes cx: "context_ok cx" and ok: "building_ok src b" and run: "stage w g cx n b = Inr b'"
  shows "building_ok src b'"
  using run
proof (cases rule: stage_cases)
  case (transfer t opts)
  then show ?thesis by (rule transfer_stage_ok [OF ok])
next
  case (dequantize t opts)
  then show ?thesis by (intro dequantize_stage_ok [OF cx ok])
next
  case (permute kind t opts)
  then show ?thesis by (rule permute_stage_ok [OF ok])
next
  case (view kind t opts)
  then show ?thesis by (rule view_stage_ok [OF ok])
next
  case (reshape kind t opts)
  then show ?thesis by (rule reshape_stage_ok [OF cx ok])
next
  case (pad t opts)
  then show ?thesis by (rule pad_stage_ok [OF ok])
next
  case (materialize t opts)
  then show ?thesis by (rule materialize_stage_ok [OF ok])
qed (use ok in simp)

lemma stages_ok: "context_ok cx \<Longrightarrow> stages w g cx members b = Inr b' \<Longrightarrow> building_ok src b \<Longrightarrow> building_ok src b'"
proof (induction members arbitrary: b)
  case (Cons m ms)
  then show ?case by (auto split: option.splits dest: stage_ok)
qed simp

section \<open>Typed recipes\<close>

text \<open>Every shape a region can have is non-empty: the operations keep at least one axis.\<close>

lemma recipe_of_typed:
  assumes run: "recipe_of w g base members = Inr (r, cx, guards, ps)"
  shows "typed_recipe r \<and> \<not> recipe_indexed r \<and> list_all wf_expr guards \<and> (\<exists>s. value_of g base = Tensor_Meta s \<and>
    ts_dtype (r_source r) = ts_dtype (mt_spec s))"
  using run
proof (cases rule: recipe_of_parts)
  case (1 s src b)
  have cx: "context_ok cx" by (rule from_tensor_ok [OF 1(3)])
  have src: "wf_spec src" by (rule known_layout_wf [OF cx 1(4)])
  have "length (ts_shape src) = length (ts_shape (mt_spec s))"
    using 1(4) by (auto simp: known_layout_def context_spec_def simp del: mapR_eq_Inr dest: mapR_length)
  then have ne: "ts_shape src \<noteq> []" using 1(2) by (auto simp: source_checks_def)
  then have "building_ok src (start_building src)"
    using src by (simp add: building_ok_def start_building_def chain_dtype_def wf_spec_def)
  from stages_ok [OF cx 1(7) this] have ok: "building_ok src b" .
  show ?thesis using 1(8)
  proof (cases rule: finish_recipe_parts)
    case f: (1 direction)
    have r: "wf_spec (r_destination r)" "ts_shape (r_destination r) \<noteq> []"
      using f(4) building_ok_shape [OF ok] building_ok_ne [OF ok] wf_dense_strides by (auto simp: wf_spec_def list_all_iff)
    have wf: "wf_recipe r" using f(4) r(1) src ok by (simp add: wf_recipe_def building_ok_def)
    have ends: "dense_descriptor (r_source r)" "dense_descriptor (r_destination r)"
      using f(4) ne 1(5) building_ok_ne [OF ok] by (simp_all add: dense_descriptor_def dense_source_def)
    have dtype: "map_of tensor_dtypes (ts_dtype src) \<noteq> None" using 1(6) by (auto simp: tensor_dtypes_def)
    have chain: "shape_chain (ts_shape src) (bl_operations b) = Inr (bl_shape b)" "chain_dtype (ts_dtype src) (bl_operations b) = bl_dtype b"
        "list_all wf_expr (bl_guards b)" "\<forall>op\<in>set (bl_operations b). \<not> is_index_select op" "direction \<in> {''h2d'', ''d2h''}"
      using ok f(1) by (auto simp: building_ok_def list_all_iff)
    have "list_all wf_expr guards" using chain(3) f(5) by (simp add: first_occurrences_def list_all_iff)
    moreover have "typed_recipe r" unfolding typed_recipe_def using wf ends dtype chain f(4) by simp
    moreover have "\<not> recipe_indexed r" using chain(4) f(4) by (simp add: recipe_indexed_def)
    moreover have "ts_dtype (r_source r) = ts_dtype (mt_spec s)"
      using f(4) 1(4) by (auto simp: known_layout_def context_spec_def simp del: mapR_eq_Inr split: if_splits)
    ultimately show ?thesis using 1(1) by blast
  qed
qed

section \<open>Indexed selections\<close>

text \<open>What Torch records of \<open>index_select\<close>: its result has the dtype of its input.\<close>

definition selection_metadata :: "import_world \<Rightarrow> fx_graph \<Rightarrow> bool" where
  "selection_metadata w g \<longleftrightarrow> (\<forall>n p t s. n \<in> set g \<and> node_kind w n = Some K_Index_Select \<and> tensor_input n = Some p \<and>
     fn_value n = Tensor_Meta t \<and> value_of g p = Tensor_Meta s \<longrightarrow> ts_dtype (mt_spec t) = ts_dtype (mt_spec s))"

lemma indexed_recipe_parts:
  assumes "indexed_recipe w g base members = Inr (r, cx, guards, ps)"
  obtains m ms n cx0 spec r0 cx1 ps1 ishape and s v :: meta_tensor where "members = m # ms" "find_node g m = Some n" "node_kind w n = Some K_Index_Select"
    "indexed_source w (value_of g base) = Inr s" "from_tensor (iw_backed w) (ts_shape (mt_spec s)) = Inr cx0"
    "known_layout w cx0 s [] = Inr spec" "dense_source spec = Inr ()" "recipe_of w g m ms = Inr (r0, cx1, guards, ps1)"
    "length (r_operations r0) \<le> 1" "list_all is_cast (r_operations r0)"
    "add_tensor (iw_backed w) (ts_shape (mt_spec v)) ''indices'' cx0 = Inr cx"
    "mapR (context_expression (iw_backed w) cx []) (ts_shape (mt_spec v)) = Inr ishape"
    "index_select_ok \<lparr>ts_shape = ishape, ts_strides = dense_strides ishape, ts_offset = Const 0, ts_dtype = ts_dtype (mt_spec v)\<rparr> 0"
    "r = \<lparr>r_source = spec,
       r_operations = IndexSelect \<lparr>ts_shape = ishape, ts_strides = dense_strides ishape, ts_offset = Const 0, ts_dtype = ts_dtype (mt_spec v)\<rparr> 0
         # r_operations r0,
       r_destination = \<lparr>ts_shape = hd ishape # tl (ts_shape spec), ts_strides = dense_strides (hd ishape # tl (ts_shape spec)),
         ts_offset = Const 0, ts_dtype = ts_dtype (r_destination r0)\<rparr>,
       r_direction = ''h2d''\<rparr>"
proof -
  obtain m ms where members: "members = m # ms" using assms by (cases members) (simp_all add: indexed_recipe_def)
  obtain n where n: "find_node g m = Some n"
    using assms members by (cases "find_node g m") (simp_all add: indexed_recipe_def)
  from assms show thesis unfolding indexed_recipe_def members list.case n option.case Let_def
    by (clarsimp simp only: res_bind_eq_Inr split_paired_Ex prod.case sum.inject requires_eq_Inr set_simps ball_simps fst_conv mk_index_select_eq_Inr)
      (rule that [OF members n], assumption+, simp_all)
qed

lemma indexed_recipe_typed:
  assumes run: "indexed_recipe w g base members = Inr (r, cx, guards, ps)" and meta: "selection_metadata w g"
    and chain: "chain w g members (Some base)"
  shows "typed_recipe r \<and> dense_index r \<and> list_all wf_expr guards"
  using run
proof (cases rule: indexed_recipe_parts)
  case (1 m ms n cx0 spec r0 cx1 ps1 ishape s v)
  let ?ispec = "\<lparr>ts_shape = ishape, ts_strides = dense_strides ishape, ts_offset = Const 0, ts_dtype = ts_dtype (mt_spec v)\<rparr>"
  have cx0: "context_ok cx0" by (rule from_tensor_ok [OF 1(5)])
  have cx: "context_ok cx" using 1(11) add_dims_ok [OF cx0] by (simp add: add_tensor_def)
  have spec: "wf_spec spec" by (rule known_layout_wf [OF cx0 1(6)])
  have "list_all wf_expr ishape" by (rule mapR_all_holds [OF 1(12)]) (rule context_expression_wf [OF cx])
  then have ispec: "wf_spec ?ispec" using wf_dense_strides by (auto simp: wf_spec_def list_all_iff)
  from recipe_of_typed [OF 1(8)] have r0: "typed_recipe r0" "list_all wf_expr guards"
    and "\<exists>t. value_of g m = Tensor_Meta t \<and> ts_dtype (r_source r0) = ts_dtype (mt_spec t)" by blast+
  then obtain t where t: "value_of g m = Tensor_Meta t" "ts_dtype (r_source r0) = ts_dtype (mt_spec t)" by blast
  obtain s' where s: "value_of g base = Tensor_Meta s'" "s' = s" "ts_shape (mt_spec s) \<noteq> []"
    using 1(4) by (auto simp: indexed_source_def split: meta_value.splits)
  have "tensor_input n = Some base" using chain 1(1,2) by (simp add: chain_def parent_of_def)
  moreover have "n \<in> set g" using find_node_in [OF 1(2)] by simp
  moreover have "fn_value n = Tensor_Meta t" using t(1) 1(2) by (simp add: value_of_def)
  ultimately have same: "ts_dtype (mt_spec t) = ts_dtype (mt_spec s)" using meta 1(3) s(1,2) unfolding selection_metadata_def by blast
  have dt: "ts_dtype spec = ts_dtype (mt_spec s)" "length (ts_shape spec) = length (ts_shape (mt_spec s))"
    using 1(6) by (auto simp: known_layout_def context_spec_def simp del: mapR_eq_Inr dest: mapR_length split: if_splits)
  then have ne: "ts_shape spec \<noteq> []" using s(3) by auto
  have keep: "list_all is_cast ops \<Longrightarrow> shape_chain q ops = Inr q" for q ops
  proof (induction ops)
    case (Cons op ops)
    then show ?case by (cases op) simp_all
  qed simp
  have is1: "length ishape = 1" using 1(13) by (simp add: index_select_ok_def)
  then obtain d where d: "ishape = [d]" by (auto simp: length_Suc_conv)
  have out: "list_all wf_expr (d # tl (ts_shape spec))"
    using spec ispec d ne by (cases "ts_shape spec") (auto simp: wf_spec_def)
  then have "\<forall>e\<in>set (d # tl (ts_shape spec)). wf_expr e" by (simp only: list_all_iff)
  then have "list_all wf_expr (dense_strides (d # tl (ts_shape spec)))" using wf_dense_strides by (simp only: list_all_iff) blast
  with out have "wf_spec (r_destination r)" using 1(14) d by (simp add: wf_spec_def)
  then have wf: "wf_recipe r" using 1(13,14) spec ispec r0(1) by (simp add: wf_recipe_def typed_recipe_def)
  have ops: "shape_chain (ts_shape spec) (r_operations r) = Inr (ts_shape (r_destination r))"
    using 1(10,14) d keep by simp
  have "chain_dtype (ts_dtype spec) (r_operations r) = ts_dtype (r_destination r)"
    using 1(14) r0(1) same t(2) dt(1) by (simp add: chain_dtype_def next_dtype_def typed_recipe_def)
  moreover have "map_of tensor_dtypes (ts_dtype spec) \<noteq> None"
    using r0(1) same t(2) dt(1) unfolding typed_recipe_def by (metis (no_types))
  moreover have "dense_descriptor spec" "dense_descriptor (r_destination r)"
    using 1(7,14) ne by (simp_all add: dense_descriptor_def dense_source_def)
  ultimately have "typed_recipe r" unfolding typed_recipe_def using wf ops 1(14) by simp
  moreover have "\<forall>op\<in>set (r_operations r0). \<not> is_index_select op" 
  proof
    fix op assume "op \<in> set (r_operations r0)"
    then have "is_cast op" using 1(10) by (simp add: list_all_iff)
    then show "\<not> is_index_select op" by (cases op) simp_all
  qed
  then have "dense_index r" using 1(9,10,14) by (auto simp: dense_index_def indexed_chain_def)
  ultimately show ?thesis using r0(2) by blast
qed

text \<open>Whatever the region, its recipe is typed and emits.\<close>

lemma candidate_typed:
  assumes "candidate_of w orig g base members = Inr c" and "chain w g members base" and "selection_metadata w g"
  shows "typed_recipe (cd_recipe c) \<and> list_all wf_expr (cd_extent_guards c) \<and> (\<exists>mlir. emit_mlir (cd_recipe c) = Inr mlir)"
proof -
  note parts = candidate_of_parts [OF assms(1)]
  obtain cx guards ps where run: "(if cd_index c \<noteq> None then indexed_recipe w g (cd_source c) members else recipe_of w g (cd_source c) members) =
      Inr (cd_recipe c, cx, guards, ps)" and g: "guards = cd_extent_guards c" using parts(5) by blast
  have "typed_recipe (cd_recipe c) \<and> (recipe_indexed (cd_recipe c) \<longrightarrow> dense_index (cd_recipe c)) \<and> list_all wf_expr guards"
  proof (cases "cd_index c = None")
    case True
    then show ?thesis using run recipe_of_typed by simp
  next
    case False
    then have "indexed_recipe w g (cd_source c) members = Inr (cd_recipe c, cx, guards, ps)" using run by simp
    from indexed_recipe_typed [OF this assms(3)] assms(2) parts(1) show ?thesis by simp
  qed
  then show ?thesis using g emit_mlir_total by blast
qed

end
