(* ===== verification/Import_Example.thy ===== *)
theory Import_Example
  imports Fx_Typing Capture_Properties
begin

text \<open>
  The README's program as FX captures it, with a dynamic extent: \<open>x.view(-1, 64).t()\<close> moved to the GPU in dense
  layout.  Its import is the region the capture examples use.
\<close>

definition torch_schemas :: "string \<Rightarrow> schema option" where
  "torch_schemas target =
     (if target = ''aten.view.default'' then Some \<lparr>sc_arguments = [(''self'', False), (''size'', False)], sc_alias_returns = True\<rparr>
      else if target = ''aten.transpose.int''
      then Some \<lparr>sc_arguments = [(''self'', False), (''dim0'', False), (''dim1'', False)], sc_alias_returns = True\<rparr>
      else if target = ''aten._to_copy.default''
      then Some \<lparr>sc_arguments = [(''self'', False), (''dtype'', False), (''layout'', False), (''device'', False), (''pin_memory'', False),
        (''non_blocking'', False), (''memory_format'', False)], sc_alias_returns = False\<rparr>
      else if target = ''aten.mul_.Tensor''
      then Some \<lparr>sc_arguments = [(''self'', True), (''other'', False)], sc_alias_returns = True\<rparr>
      else None)"

definition readme_world :: import_world where
  "readme_world = \<lparr>iw_schema = torch_schemas, iw_quantized = True, iw_backed = (\<lambda>v s. v = 0 \<and> s = ''n''),
     iw_known_ge = (\<lambda>_ _. None), iw_known_ne = (\<lambda>_ _. None), iw_grad_enabled = False\<rparr>"

definition fake_tensor :: "graph_dim list \<Rightarrow> graph_dim list \<Rightarrow> device \<Rightarrow> meta_value" where
  "fake_tensor shape strides d = Tensor_Meta
     \<lparr>mt_spec = \<lparr>ts_shape = shape, ts_strides = strides, ts_offset = DimInt 0, ts_dtype = ''float32''\<rparr>, mt_device = d,
      mt_requires_grad = False, mt_subclass = False, mt_strided = True, mt_quantized = False\<rparr>"

definition extent_n :: graph_dim where "extent_n = DimSym (Some 0) (SSymbol ''n'')"

definition rows_n :: graph_dim where "rows_n = DimSym (Some 0) (SFloorDiv (SSymbol ''n'') (SInteger 64))"

definition positive_rows_n :: graph_dim where
  "positive_rows_n = DimSym (Some 0) (SMax [SInteger 1, SFloorDiv (SSymbol ''n'') (SInteger 64)])"

definition readme_fx :: fx_graph where
  "readme_fx =
    [\<lparr>fn_name = ''x'', fn_op = Op_Placeholder, fn_target = ''x'', fn_args = [], fn_kwargs = [],
      fn_value = fake_tensor [extent_n] [DimInt 1] cpu, fn_reason = None\<rparr>,
     \<lparr>fn_name = ''rows'', fn_op = Op_Function, fn_target = ''aten.view.default'', fn_args = [VRef ''x'', VList [VInt (-1), VInt 64]],
      fn_kwargs = [], fn_value = fake_tensor [rows_n, DimInt 64] [DimInt 64, DimInt 1] cpu, fn_reason = None\<rparr>,
     \<lparr>fn_name = ''cols'', fn_op = Op_Function, fn_target = ''aten.transpose.int'', fn_args = [VRef ''rows'', VInt 0, VInt 1],
      fn_kwargs = [], fn_value = fake_tensor [DimInt 64, rows_n] [DimInt 1, DimInt 64] cpu, fn_reason = None\<rparr>,
     \<lparr>fn_name = ''moved'', fn_op = Op_Function, fn_target = ''aten._to_copy.default'', fn_args = [VRef ''cols''],
      fn_kwargs = [(''device'', VDevice gpu0), (''memory_format'', VFormat ''contiguous_format'')],
      fn_value = fake_tensor [DimInt 64, rows_n] [positive_rows_n, DimInt 1] gpu0, fn_reason = None\<rparr>,
     \<lparr>fn_name = ''output'', fn_op = Op_Output, fn_target = ''output'', fn_args = [VRef ''moved''], fn_kwargs = [],
      fn_value = No_Value, fn_reason = None\<rparr>]"

declare walk_up.simps [code] walk_down.simps [code]

lemma readme_imported:
  "case import_graph readme_world readme_fx readme_fx of
     Some (Inr rep) \<Rightarrow> map region_of (ir_candidates rep) = [chain_region] \<and> ir_exclusions rep = [] \<and>
       map cd_symbol_sources (ir_candidates rep) = [readme_sources]
   | _ \<Rightarrow> False"
  by code_simp

lemma readme_report:
  obtains rep c where "import_graph readme_world readme_fx readme_fx = Some (Inr rep)" "ir_candidates rep = [c]"
    "region_of c = chain_region" "cd_members c = [''rows'', ''cols'', ''moved'']" "ir_exclusions rep = []"
proof -
  obtain rep where run: "import_graph readme_world readme_fx readme_fx = Some (Inr rep)"
    and rep: "map region_of (ir_candidates rep) = [chain_region]" "ir_exclusions rep = []"
    using readme_imported by (auto split: option.splits sum.splits)
  then obtain c where c: "ir_candidates rep = [c]" "region_of c = chain_region" by auto
  then have "cd_members c = [''rows'', ''cols'', ''moved'']" by (simp add: region_of_def chain_region_def)
  with run rep c show thesis using that by blast
qed

lemma readme_ordered: "well_ordered readme_fx"
  by (auto simp: well_ordered_def readme_fx_def all_input_nodes_def less_Suc_eq_0_disj)

lemma readme_selections: "selection_metadata readme_world readme_fx"
proof -
  have "list_all (\<lambda>n. node_kind readme_world n \<noteq> Some K_Index_Select) readme_fx" by code_simp
  then show ?thesis by (auto simp: selection_metadata_def list_all_iff)
qed

lemma readme_names: "map gn_name chain_graph = map fn_name readme_fx"
  by (simp add: chain_graph_def readme_fx_def)

text \<open>The context of a vector of \<open>n\<close> elements.\<close>

definition vector_context :: context_state where
  "vector_context = \<lparr>cx_symbols = [((0, ''n''), 0)], cx_sources = readme_sources\<rparr>"

lemma vector_context: "from_tensor (iw_backed readme_world) [extent_n] = Inr vector_context"
  by code_simp

end
