(* ===== verification/Fx_Sources.thy ===== *)
theory Fx_Sources
  imports Provenance
begin

text \<open>
  The two readings of a shape's symbols agree: \<open>SymbolicContext.from_tensor\<close>, which reads the extents Torch records,
  and \<open>symbol_sources\<close> of \<open>reloc_torch/symbolic.py\<close>, which reads the expressions they become.
\<close>

lemma py_str_nat_inj: "py_str (int i) = py_str (int j) \<Longrightarrow> i = j"
  by (simp add: py_str_def) (metis nat_digits_inj)

lemma add_symbol_extends:
  "map_of (cx_symbols cx) key = Some i \<Longrightarrow> map_of (cx_symbols (add_symbol operand axis key' cx)) key = Some i"
  by (auto simp: add_symbol_def Let_def map_add_def split: option.splits)

lemma add_dims_extends:
  "add_dims backed operand axis ds cx = Inr cx' \<Longrightarrow> map_of (cx_symbols cx) key = Some i \<Longrightarrow> map_of (cx_symbols cx') key = Some i"
proof (induction ds arbitrary: axis cx)
  case (Cons d ds)
  then show ?case
    by (cases d) (auto split: option.splits sym_expr.splits if_splits dest: add_symbol_extends)
qed simp

lemma add_symbol_known: "\<exists>i. map_of (cx_symbols (add_symbol operand axis key cx)) key = Some i"
  by (auto simp: add_symbol_def Let_def map_add_def split: option.splits)

definition indexes :: "(string \<Rightarrow> nat option) \<Rightarrow> symbol_source list \<Rightarrow> bool" where
  "indexes indices sources \<longleftrightarrow> (\<forall>n i. indices n = Some i \<longleftrightarrow> i < length sources \<and> ss_name (sources ! i) = n)"

text \<open>One extent: what \<open>add_symbol\<close> does is one step of the loop of \<open>symbol_sources\<close>.\<close>

lemma add_symbol_loop:
  assumes ok: "context_ok cx" and operand: "\<forall>s\<in>set (cx_sources cx). ss_operand s = ''source''" and ind: "indexes indices (cx_sources cx)"
    and i: "map_of (cx_symbols (add_symbol ''source'' axis key cx)) key = Some i"
  obtains indices' where "indexes indices' (cx_sources (add_symbol ''source'' axis key cx))"
    and "symbol_sources_loop axis (Symbol (CHR ''s'' # py_str (int i)) # es) (cx_sources cx) indices =
      symbol_sources_loop (axis + 1) es (cx_sources (add_symbol ''source'' axis key cx)) indices'"
proof (cases "map_of (cx_symbols cx) key")
  case None
  let ?n = "length (cx_sources cx)"
  have "i = ?n" using i None by (auto simp: add_symbol_def Let_def map_add_def)
  have name: "ss_name (cx_sources cx ! j) = CHR ''s'' # py_str (int j)" if "j < ?n" for j
  proof -
    have "map ss_name (cx_sources cx) ! j = map (\<lambda>i. CHR ''s'' # py_str (int i)) [0..<?n] ! j" using ok by (simp only: context_ok_def)
    with that show ?thesis by simp
  qed
  have fresh: "ss_name (cx_sources cx ! j) \<noteq> CHR ''s'' # py_str (int ?n)" if "j < ?n" for j
    using name [OF that] py_str_nat_inj [of j ?n] that by auto
  have "indices (CHR ''s'' # py_str (int ?n)) = None"
  proof (rule ccontr)
    assume "indices (CHR ''s'' # py_str (int ?n)) \<noteq> None"
    then obtain j where "j < ?n" "ss_name (cx_sources cx ! j) = CHR ''s'' # py_str (int ?n)" using ind by (auto simp: indexes_def)
    with fresh show False by blast
  qed
  moreover have "indexes (indices(CHR ''s'' # py_str (int ?n) \<mapsto> ?n)) (cx_sources (add_symbol ''source'' axis key cx))"
    using ind None calculation fresh by (auto simp: indexes_def add_symbol_def Let_def nth_append less_Suc_eq)
  ultimately show thesis using that None \<open>i = ?n\<close> by (simp add: add_symbol_def Let_def)
next
  case (Some k)
  have "k = i" using add_symbol_extends [OF Some, of "''source''" axis key] i by simp
  with Some have k: "i < length (cx_sources cx)" "ss_name (cx_sources cx ! i) = CHR ''s'' # py_str (int i)"
    using context_index [OF ok] by auto
  then have "indices (CHR ''s'' # py_str (int i)) = Some i" "ss_operand (cx_sources cx ! i) = ''source''" using ind operand by (simp_all add: indexes_def)
  moreover have "ss_name ((cx_sources cx)[k := (cx_sources cx ! k)\<lparr>ss_equal_axes := a\<rparr>] ! j) = ss_name (cx_sources cx ! j)" for a j
    by (cases "k < length (cx_sources cx)") (simp_all add: nth_list_update list_update_beyond not_less)
  then have "indexes indices (cx_sources (add_symbol ''source'' axis key cx))"
    using ind Some by (simp add: indexes_def add_symbol_def Let_def)
  moreover have "(cx_sources cx ! i)\<lparr>ss_equal_axes := a\<rparr> =
      \<lparr>ss_name = CHR ''s'' # py_str (int i), ss_axis = ss_axis (cx_sources cx ! i), ss_equal_axes = a, ss_operand = ''source''\<rparr>" for a
    using k(2) calculation(2) by (cases "cx_sources cx ! i") simp
  ultimately show thesis using that [of indices] Some \<open>k = i\<close> k(1) by (simp add: add_symbol_def Let_def)
qed

lemma add_dims_sources:
  "add_dims backed ''source'' axis ds cx = Inr cx' \<Longrightarrow> context_ok cx \<Longrightarrow> \<forall>s\<in>set (cx_sources cx). ss_operand s = ''source'' \<Longrightarrow>
     indexes indices (cx_sources cx) \<Longrightarrow> mapR (context_expression backed cx' []) ds = Inr es \<Longrightarrow>
     symbol_sources_loop axis es (cx_sources cx) indices = Inr (cx_sources cx')"
proof (induction ds arbitrary: axis cx indices es)
  case (Cons d ds)
  obtain e es' where e: "context_expression backed cx' [] d = Inr e" "mapR (context_expression backed cx' []) ds = Inr es'" "es = e # es'"
    using Cons.prems(5) by (auto simp: list_all2_Cons1 mapR_eq_Inr)
  show ?case
  proof (cases d)
    case (DimInt c)
    then have "e = Const c" "add_dims backed ''source'' (axis + 1) ds cx = Inr cx'" using e(1) Cons.prems(1) by (simp_all add: context_expression_def)
    with Cons.IH [OF _ Cons.prems(2,3,4) e(2)] e(3) show ?thesis by simp
  next
    case (DimSym env x)
    then obtain v s where sym: "env = Some v" "x = SSymbol s" "backed v s"
      and rest: "add_dims backed ''source'' (axis + 1) ds (add_symbol ''source'' axis (v, s) cx) = Inr cx'"
      using Cons.prems(1) by (auto split: option.splits sym_expr.splits if_splits)
    let ?cx = "add_symbol ''source'' axis (v, s) cx"
    have ok: "context_ok ?cx" by (rule add_symbol_ok [OF Cons.prems(2)])
    then have ok': "context_ok cx'" by (rule add_dims_ok [OF _ rest])
    obtain i where i: "map_of (cx_symbols ?cx) (v, s) = Some i" using add_symbol_known by blast
    have "map_of (cx_symbols cx') (v, s) = Some i" by (rule add_dims_extends [OF rest i])
    with e(1) DimSym sym context_index [OF ok'] have "e = Symbol (CHR ''s'' # py_str (int i))"
      by (simp add: context_expression_def)
    moreover obtain indices' where "indexes indices' (cx_sources ?cx)"
      "symbol_sources_loop axis (Symbol (CHR ''s'' # py_str (int i)) # es') (cx_sources cx) indices =
        symbol_sources_loop (axis + 1) es' (cx_sources ?cx) indices'"
      by (rule add_symbol_loop [OF Cons.prems(2,3,4) i])
    moreover have "\<forall>s\<in>set (cx_sources ?cx). ss_operand s = ''source''"
      using Cons.prems(3) by (auto simp: add_symbol_def Let_def split: option.splits dest!: set_update_subset_insert [THEN subsetD])
    ultimately show ?thesis using Cons.IH [OF rest ok _ _ e(2)] e(3) by simp
  qed (use Cons.prems(1) in simp)
qed simp

lemma from_tensor_sources:
  assumes "from_tensor backed shape = Inr cx" and "mapR (context_expression backed cx []) shape = Inr es"
  shows "symbol_sources es = Inr (cx_sources cx)"
  using add_dims_sources [of backed 0 shape empty_context cx "\<lambda>_. None" es] assms empty_context_ok
  by (simp add: symbol_sources_def from_tensor_def add_tensor_def empty_context_def indexes_def)

end
