(* ===== verification/Fx_Extract.thy ===== *)
theory Fx_Extract
  imports Fx_Import
begin

text \<open>
  The callable \<open>_extract\<close> copies out of the original graph is closed: whatever it leaves out, it only refuses regions
  that depend on something other than their inputs.
\<close>

section \<open>Folds that may fail\<close>

lemma foldR_invariant:
  assumes step: "\<And>x s. x \<in> set xs \<Longrightarrow> I s \<Longrightarrow> (case f x s of Inl e \<Rightarrow> E e | Inr s' \<Rightarrow> I s' \<and> K s \<subseteq> K s' \<and> x \<in> K s')"
  shows "I s \<Longrightarrow> (case foldR f xs s of Inl e \<Rightarrow> E e | Inr s' \<Rightarrow> I s' \<and> K s \<subseteq> K s' \<and> set xs \<subseteq> K s')"
  using step
proof (induction xs arbitrary: s)
  case (Cons x xs)
  show ?case
  proof (cases "f x s")
    case (Inl e)
    with Cons.prems(2) [of x s] Cons.prems(1) show ?thesis by simp
  next
    case (Inr t)
    with Cons.prems(2) [of x s] Cons.prems(1) have t: "I t" "K s \<subseteq> K t" "x \<in> K t" by simp_all
    have "case foldR f xs t of Inl e \<Rightarrow> E e | Inr s' \<Rightarrow> I s' \<and> K t \<subseteq> K s' \<and> set xs \<subseteq> K s'"
      by (rule Cons.IH [OF t(1)]) (rule Cons.prems(2), simp_all)
    then show ?thesis using Inr t by (cases "foldR f xs t") auto
  qed
qed simp

section \<open>Visiting\<close>

text \<open>The names the callable has a value for: its inputs and what it copies.\<close>

definition reached :: "string \<Rightarrow> string list \<Rightarrow> visited \<Rightarrow> string set" where
  "reached base params s = insert base (set (fst s) \<union> set params \<union> fst ` set (snd s))"

definition visited_ok :: "fx_graph \<Rightarrow> string \<Rightarrow> string list \<Rightarrow> visited \<Rightarrow> bool" where
  "visited_ok g base params s \<longleftrightarrow> (\<forall>d\<in>set (fst s). \<exists>n. find_node g d = Some n \<and> set (all_input_nodes n) \<subseteq> reached base params s) \<and>
     fst ` set (snd s) \<subseteq> fn_name ` set g"

lemma visited_ok_extend:
  assumes ok: "visited_ok g base params s" and more: "reached base params s \<subseteq> reached base params s'"
    and deps: "\<And>d. d \<in> set (fst s') \<Longrightarrow> d \<in> set (fst s) \<or> (\<exists>n. find_node g d = Some n \<and> set (all_input_nodes n) \<subseteq> reached base params s')"
    and ext: "fst ` set (snd s') \<subseteq> fn_name ` set g"
  shows "visited_ok g base params s'"
  unfolding visited_ok_def
proof (intro conjI ballI)
  fix d assume "d \<in> set (fst s')"
  then consider "d \<in> set (fst s)" | "\<exists>n. find_node g d = Some n \<and> set (all_input_nodes n) \<subseteq> reached base params s'"
    using deps by blast
  then show "\<exists>n. find_node g d = Some n \<and> set (all_input_nodes n) \<subseteq> reached base params s'"
  proof cases
    case 1
    with ok obtain n where "find_node g d = Some n" "set (all_input_nodes n) \<subseteq> reached base params s"
      unfolding visited_ok_def by blast
    then show ?thesis using more by (intro exI [of _ n]) (simp add: subset_trans)
  qed
qed (rule ext)

text \<open>The refusals of \<open>visit\<close>.\<close>

definition refusal :: "import_world \<Rightarrow> context_state \<Rightarrow> exn \<Rightarrow> bool" where
  "refusal w cx e \<longleftrightarrow> e = UnsupportedRecipe ''unsupported_symbolic_expr'' [] \<or> (\<exists>d. context_expression (iw_backed w) cx [] d = Inl e)"

lemma requires_one: "requires [(c, reason)] = (if c then Inr () else reject reason)"
  by (simp add: requires.simps)

lemma visit_spec:
  assumes wo: "well_ordered g"
  shows "m \<in> fn_name ` set g \<Longrightarrow> position g m < depth \<Longrightarrow> visited_ok g base params s \<Longrightarrow>
    (case visit w g cx base members params depth m s of Inl e \<Rightarrow> refusal w cx e
     | Inr s' \<Rightarrow> visited_ok g base params s' \<and> reached base params s \<subseteq> reached base params s' \<and> m \<in> reached base params s')"
proof (induction depth arbitrary: m s)
  case (Suc depth)
  have d: "distinct (map fn_name g)" using wo by (simp add: well_ordered_def)
  show ?case
  proof (cases "m = base \<or> m \<in> set (fst s) \<or> m \<in> set params")
    case True
    then show ?thesis using Suc.prems(3) by (auto simp: reached_def)
  next
    case new: False
    from Suc.prems(1) obtain n where n: "find_node g m = Some n" using find_node_Some [OF d] by auto
    show ?thesis
    proof (cases "fn_op n = Op_Placeholder")
      case True
      show ?thesis
      proof (cases "\<exists>t. fn_value n = Tensor_Meta t")
        case True
        then show ?thesis using new n \<open>fn_op n = Op_Placeholder\<close> by (auto simp: refusal_def reject_def)
      next
        case False
        then obtain dim where run: "visit w g cx base members params (Suc depth) m s =
            res_bind (context_expression (iw_backed w) cx [] dim) (\<lambda>e. Inr (fst s, snd s @ [(m, e)]))"
          using new n True by (cases "fn_value n") auto
        show ?thesis
        proof (cases "context_expression (iw_backed w) cx [] dim")
          case (Inl e)
          then show ?thesis unfolding run by (auto simp: refusal_def)
        next
          case (Inr e)
          have r: "reached base params (fst s, snd s @ [(m, e)]) = insert m (reached base params s)" by (auto simp: reached_def)
          have "visited_ok g base params (fst s, snd s @ [(m, e)])"
            by (rule visited_ok_extend [OF Suc.prems(3)]) (use Suc.prems(1,3) r in \<open>auto simp: visited_ok_def\<close>)
          then show ?thesis unfolding run Inr using r by simp blast
        qed
      qed
    next
      case False
      let ?ins = "all_input_nodes n"
      have run: "visit w g cx base members params (Suc depth) m s =
          res_bind (requires [(m \<in> set members \<or> node_kind w n = Some K_Scalar, ''unsupported_symbolic_expr'')]) (\<lambda>_.
            res_bind (foldR (visit w g cx base members params depth) ?ins s) (\<lambda>s. Inr (m # fst s, snd s)))"
        using new n False by simp
      have ins: "i \<in> fn_name ` set g \<and> position g i < depth" if "i \<in> set ?ins" for i
        using input_before [OF wo _ that] find_node_in [OF n] Suc.prems(2) by simp
      have fold: "case foldR (visit w g cx base members params depth) ?ins s of Inl e \<Rightarrow> refusal w cx e
          | Inr s' \<Rightarrow> visited_ok g base params s' \<and> reached base params s \<subseteq> reached base params s' \<and> set ?ins \<subseteq> reached base params s'"
        by (rule foldR_invariant [where I = "visited_ok g base params" and K = "reached base params" and E = "refusal w cx"])
          (use Suc.IH ins Suc.prems(3) in simp_all)
      show ?thesis
      proof (cases "m \<in> set members \<or> node_kind w n = Some K_Scalar")
        case True
        show ?thesis
        proof (cases "foldR (visit w g cx base members params depth) ?ins s")
          case (Inl e)
          then show ?thesis unfolding run requires_one using fold True by simp
        next
          case (Inr t)
          then have t: "visited_ok g base params t" "reached base params s \<subseteq> reached base params t" "set ?ins \<subseteq> reached base params t"
            using fold by simp_all
          have r: "reached base params (m # fst t, snd t) = insert m (reached base params t)" by (auto simp: reached_def)
          have "visited_ok g base params (m # fst t, snd t)"
            by (rule visited_ok_extend [OF t(1)]) (use t(1,3) n r in \<open>auto simp: visited_ok_def\<close>)
          then show ?thesis unfolding run requires_one using Inr t(2) True r by auto
        qed
      qed (simp only: run requires_one, simp add: refusal_def reject_def)
    qed
  qed
qed simp

section \<open>Copying\<close>

text \<open>The copies find their arguments mapped.\<close>

lemma copy_body_ordered:
  assumes wo: "well_ordered g" and ok: "visited_ok g base params (deps, external)"
    and mapped: "M = reached base params ([], external)"
  shows "g = pre @ post \<Longrightarrow> copy_body (M \<union> fn_name ` set (filter (\<lambda>n. fn_name n \<in> set deps) pre)) (filter (\<lambda>n. fn_name n \<in> set deps) post) =
    Inr (M \<union> fn_name ` set (filter (\<lambda>n. fn_name n \<in> set deps) g))"
proof (induction post arbitrary: pre)
  case (Cons n post)
  have IH: "copy_body (M \<union> fn_name ` set (filter (\<lambda>n. fn_name n \<in> set deps) (pre @ [n]))) (filter (\<lambda>n. fn_name n \<in> set deps) post) =
      Inr (M \<union> fn_name ` set (filter (\<lambda>n. fn_name n \<in> set deps) g))"
    by (rule Cons.IH) (simp add: Cons.prems)
  show ?case
  proof (cases "fn_name n \<in> set deps")
    case False
    then show ?thesis using IH by simp
  next
    case True
    have d: "distinct (map fn_name g)" using wo by (simp add: well_ordered_def)
    have n: "find_node g (fn_name n) = Some n" by (rule find_node_Some [OF d]) (simp add: Cons.prems)
    then have ins: "set (all_input_nodes n) \<subseteq> reached base params (deps, external)" using ok True unfolding visited_ok_def by fastforce
    have "length pre < length g" "g ! length pre = n" by (simp_all add: Cons.prems)
    then have "set (all_input_nodes n) \<subseteq> fn_name ` set (take (length pre) g)" using wo unfolding well_ordered_def by blast
    then have pre: "set (all_input_nodes n) \<subseteq> fn_name ` set pre" by (simp add: Cons.prems)
    have "m \<in> M \<union> fn_name ` set (filter (\<lambda>n. fn_name n \<in> set deps) pre)" if "m \<in> set (all_input_nodes n)" for m
      using that ins pre by (auto simp: mapped reached_def)
    then have "find (\<lambda>m. m \<notin> M \<union> fn_name ` set (filter (\<lambda>n. fn_name n \<in> set deps) pre)) (all_input_nodes n) = None"
      unfolding find_None_iff by blast
    then show ?thesis using IH True by simp
  qed
qed simp

lemma body_closed:
  assumes wo: "well_ordered g" and ok: "visited_ok g base params (deps, external)"
    and i: "i < length (filter (\<lambda>n. fn_name n \<in> set deps) g)"
  shows "set (all_input_nodes (filter (\<lambda>n. fn_name n \<in> set deps) g ! i)) \<subseteq>
    reached base params ([], external) \<union> fn_name ` set (take i (filter (\<lambda>n. fn_name n \<in> set deps) g))"
proof -
  let ?b = "filter (\<lambda>n. fn_name n \<in> set deps) g" and ?M = "reached base params ([], external)"
  have copied: "copy_body M ns = Inr M' \<Longrightarrow> i < length ns \<Longrightarrow> set (all_input_nodes (ns ! i)) \<subseteq> M \<union> fn_name ` set (take i ns)" for M M' ns i
  proof (induction ns arbitrary: M i)
    case (Cons n ns)
    have n: "set (all_input_nodes n) \<subseteq> M" "copy_body (insert (fn_name n) M) ns = Inr M'"
      using Cons.prems(1) by (auto simp: find_None_iff split: option.splits)
    show ?case
    proof (cases i)
      case (Suc k)
      then show ?thesis using Cons.IH [OF n(2), of k] Cons.prems(2) by auto
    qed (use n in simp)
  qed simp
  have "copy_body ?M ?b = Inr (?M \<union> fn_name ` set ?b)" using copy_body_ordered [OF wo ok refl, of "[]" g] by simp
  from copied [OF this i] show ?thesis .
qed

lemma bindings_names:
  "fst ` set (concat (map (\<lambda>n. case map_of external (fn_name n) of None \<Rightarrow> [] | Some e \<Rightarrow> [(fn_name n, e)]) g)) =
     fn_name ` set g \<inter> fst ` set external"
proof (induction g)
  case (Cons n g)
  show ?case
  proof (cases "map_of external (fn_name n)")
    case None
    then have "fn_name n \<notin> fst ` set external" by (simp only: map_of_eq_None_iff not_False_eq_True)
    then show ?thesis using Cons None by simp
  next
    case (Some e)
    then have "fn_name n \<in> fst ` set external" using map_of_SomeD by force
    then show ?thesis using Cons Some by (simp add: image_Un)
  qed
qed simp

end
