(* ===== verification/Import_Properties.thy ===== *)
theory Import_Properties
  imports Import_Example Fx_Sources Fx_Extract
begin

text \<open>
  Properties of the graph importer: discovery ends, its recipes are typed, its regions are undisturbed, what it
  extracts is closed, and the program a capture makes of its report computes what the captured graph does.
\<close>

section \<open>Reports\<close>

lemma report_candidates:
  assumes "well_ordered g" and "import_graph w orig g = Some (Inr rep)"
  shows "\<forall>c\<in>set (ir_candidates rep). candidate_ok w orig g c" and "distinct (concat (map cd_members (ir_candidates rep)))"
proof -
  obtain r where r: "import_graph w orig g = Some r"
      "\<And>rep. r = Inr rep \<Longrightarrow> \<exists>s. discovered w orig g s \<and> ir_candidates rep = is_candidates s"
    using import_graph_discovered [OF assms(1), of w orig] by metis
  then obtain s where "discovered w orig g s" "ir_candidates rep = is_candidates s" using assms(2) by auto
  then show "\<forall>c\<in>set (ir_candidates rep). candidate_ok w orig g c" "distinct (concat (map cd_members (ir_candidates rep)))"
    by (simp_all add: discovered_def)
qed

text \<open>Operands: the source and the leaves the members read are no stages, and come before the tail.\<close>

lemma member_leaf_operand:
  assumes wo: "well_ordered g" and ch: "chain w g members base" and p: "p \<in> member_leaves g members"
  shows "\<not> stage_name w g p \<and> p \<in> fn_name ` set g \<and> position g p < position g (last members)"
proof -
  from p obtain m n where n: "m \<in> set members" "find_node g m = Some n" "p \<in> leaves g n" by (auto simp: member_leaves_def)
  have "p \<in> set (all_input_nodes n)" using n(3) by (simp add: leaves_def)
  then have "p \<in> fn_name ` set g \<and> position g p < position g m"
    using input_before [OF wo, of n p] find_node_in [OF n(2)] by simp
  moreover have "position g m \<le> position g (last members)" by (rule chain_last_before [OF wo ch n(1)])
  ultimately show ?thesis using leaf_not_stage [OF n(3)] by auto
qed

lemma source_operand:
  assumes wo: "well_ordered g" and mx: "maximal w g members (Some b)"
  shows "\<not> stage_name w g b \<and> b \<in> fn_name ` set g \<and> position g b < position g (last members)"
proof -
  have ch: "chain w g members (Some b)" and nb: "\<not> stage_name w g b" using mx by (auto simp: maximal_def)
  have "parent_of g (members ! 0) = Some b" by (rule chain_first [OF ch])
  from parent_before [OF wo this] have "b \<in> fn_name ` set g" "position g b < position g (members ! 0)" by simp_all
  moreover have "position g (members ! 0) \<le> position g (last members)"
    using chain_ne [OF ch] by (intro chain_last_before [OF wo ch]) simp
  ultimately show ?thesis using nb by simp
qed

lemma before_position: "m \<in> fn_name ` set g \<Longrightarrow> position g m < position g t \<Longrightarrow> m \<in> set (takeWhile (\<lambda>n. n \<noteq> t) (map fn_name g))"
  by (induction g) (auto simp: position_def split: if_splits)

text \<open>The candidates of a report are what the rewriting of a graph asks for.\<close>

lemma report_candidates_shape:
  assumes wo: "well_ordered g" and run: "import_graph w orig g = Some (Inr rep)" and names: "map gn_name g0 = map fn_name g"
  shows "candidates_shape g0 (map region_of (ir_candidates rep))"
proof -
  note all = report_candidates [OF wo run]
  let ?E = "set (concat (map cd_members (ir_candidates rep)))"
  have stage: "m \<in> ?E \<Longrightarrow> stage_name w g m" for m using all(1) chain_stage by (fastforce simp: candidate_ok_def maximal_def)
  have one: "candidate_shape g0 ?E (region_of c)" if "c \<in> set (ir_candidates rep)" for c
  proof -
    have mx: "maximal w g (cd_members c) (Some (cd_source c))"
      and ops: "set (cd_parameters c) \<union> set_option (cd_index c) \<subseteq> member_leaves g (cd_members c)"
      using all(1) that by (auto simp: candidate_ok_def)
    then have ch: "chain w g (cd_members c) (Some (cd_source c))" by (simp add: maximal_def)
    have operand: "\<not> stage_name w g p \<and> p \<in> fn_name ` set g \<and> position g p < position g (last (cd_members c))"
      if "p \<in> operands (region_of c)" for p
      using that ops source_operand [OF wo mx] member_leaf_operand [OF wo ch] by (auto simp: operands_def region_of_def)
    have before: "p \<in> gn_name ` set (takeWhile (\<lambda>n. gn_name n \<noteq> last (cd_members c)) g0)" if "p \<in> operands (region_of c)" for p
    proof -
      have "p \<in> set (takeWhile (\<lambda>n. n \<noteq> last (cd_members c)) (map gn_name g0))"
        using before_position operand [OF that] names by simp
      then show ?thesis by (simp add: takeWhile_map comp_def)
    qed
    have "operands (region_of c) \<inter> ?E = {}" using operand stage by blast
    moreover have "cd_members c = filter (\<lambda>m. m \<in> set (cd_members c)) (map gn_name g0)"
      unfolding names by (rule chain_in_graph_order [OF wo ch])
    ultimately show ?thesis unfolding candidate_shape_def using chain_ne [OF ch] before by (simp add: region_of_def subset_iff)
  qed
  have "distinct (map gn_name g0)" using wo names by (simp add: well_ordered_def)
  then show ?thesis using all(2) one by (auto simp: candidates_shape_def region_of_def comp_def)
qed

section \<open>Regions\<close>

lemma not_last_butlast: "x \<in> set xs \<Longrightarrow> x \<noteq> last xs \<Longrightarrow> x \<in> set (butlast xs)"
  by (induction xs) auto

lemma between_positions:
  assumes "distinct (map fn_name g)" and "n \<in> set g" and "i < position g (fn_name n)" and "position g (fn_name n) < j"
  shows "n \<in> set (drop (i + 1) (take j g))"
proof -
  obtain k where k: "k < length g" "g ! k = n" using assms(2) by (auto simp: in_set_conv_nth)
  then have p: "position g (fn_name n) = k" using position_nth [OF assms(1) k(1)] by simp
  have "drop (i + 1) (take j g) ! (k - (i + 1)) = n" "k - (i + 1) < length (drop (i + 1) (take j g))"
    using k p assms(3,4) by simp_all
  then show ?thesis by (metis nth_mem)
qed

text \<open>
  C5. Safety of a discovered region.  Whatever the graph, a candidate's source and members are connected by alias
  steps to no argument of a mutating node; no call of unknown effect runs between the source and the tail; and
  no intermediate value is used outside the region.
\<close>

theorem region_untouched:
  assumes "well_ordered g" and "import_graph w orig g = Some (Inr rep)" and "c \<in> set (ir_candidates rep)"
  shows "(\<forall>n\<in>set g. graph_mutates w n \<longrightarrow>
      set (all_input_nodes n) \<inter> (alias_step (alias_edges w g))\<^sup>* `` insert (cd_source c) (set (cd_members c)) = {}) \<and>
    (\<forall>n\<in>set g. position g (cd_source c) < position g (fn_name n) \<and> position g (fn_name n) < position g (cd_tail c) \<and>
      fn_name n \<notin> set (cd_members c) \<longrightarrow> \<not> unknown_call w n) \<and>
    (\<forall>m\<in>set (cd_members c). m \<noteq> cd_tail c \<longrightarrow> (\<forall>u\<in>set (node_users g m). fn_name u \<in> set (cd_members c)))"
proof -
  have ok: "candidate_ok w orig g c" using report_candidates(1) [OF assms(1,2)] assms(3) by blast
  then have mx: "maximal w g (cd_members c) (Some (cd_source c))" and sf: "safety w g (cd_source c) (cd_members c) = Inr ()"
    and cd: "candidate_of w orig g (Some (cd_source c)) (cd_members c) = Inr c" by (simp_all add: candidate_ok_def)
  have ch: "chain w g (cd_members c) (Some (cd_source c))" using mx by (simp add: maximal_def)
  have d: "distinct (map fn_name g)" using assms(1) by (simp add: well_ordered_def)
  have tail: "cd_tail c = last (cd_members c)" by (rule candidate_of_parts(6) [OF cd])
  have known: "cd_source c \<in> fn_name ` set g" "last (cd_members c) \<in> fn_name ` set g"
    using source_operand [OF assms(1) mx] chain_known [OF ch] chain_ne [OF ch] by auto
  let ?I = "insert (cd_source c) (set (cd_members c))"
  from sf known have one: "\<forall>n\<in>set g. graph_mutates w n \<longrightarrow> set (all_input_nodes n) \<inter> alias_closure (alias_edges w g) ?I = {}"
    and two: "\<forall>n\<in>set (drop (position g (cd_source c) + 1) (take (position g (last (cd_members c))) g)). fn_name n \<in> ?I \<or> \<not> unknown_call w n"
    and three: "\<forall>m\<in>set (butlast (cd_members c)). \<not> escapes g ?I m"
    by (auto simp: safety_def Let_def lookup_position_def split: if_splits)
  have between: "\<not> unknown_call w n" if n: "n \<in> set g" "position g (cd_source c) < position g (fn_name n)"
      "position g (fn_name n) < position g (cd_tail c)" "fn_name n \<notin> set (cd_members c)" for n
  proof -
    have "n \<in> set (drop (position g (cd_source c) + 1) (take (position g (last (cd_members c))) g))"
      using n(3) unfolding tail by (intro between_positions [OF d n(1,2)])
    moreover have "fn_name n \<noteq> cd_source c" using n(2) by auto
    ultimately show ?thesis using two n(4) by blast
  qed
  have inner: "fn_name u \<in> set (cd_members c)" if m: "m \<in> set (cd_members c)" "m \<noteq> cd_tail c" "u \<in> set (node_users g m)" for m u
  proof -
    have "m \<in> set (butlast (cd_members c))" using m(1,2) unfolding tail by (rule not_last_butlast)
    then have "fn_name u \<in> ?I" using three m(3) by (auto simp: escapes_def)
    moreover have "fn_name u \<noteq> cd_source c"
    proof
      assume eq: "fn_name u = cd_source c"
      have u: "u \<in> set g" "m \<in> set (all_input_nodes u)" using m(3) by (simp_all add: node_users_def)
      then have "position g m < position g (cd_source c)" using input_before [OF assms(1) u] eq by simp
      moreover have "position g (cd_source c) < position g m"
      proof -
        obtain i where i: "i < length (cd_members c)" "m = cd_members c ! i" using m(1) by (auto simp: in_set_conv_nth)
        have first: "position g (cd_source c) < position g (cd_members c ! 0)"
          using parent_before [OF assms(1) chain_first [OF ch]] by simp
        show ?thesis using chain_order [OF assms(1) ch, of 0 i] i first by (cases i) auto
      qed
      ultimately show False by simp
    qed
    ultimately show ?thesis by simp
  qed
  show ?thesis using one between inner by (simp add: alias_closure_reach)
qed

theorem region_untouched_witness:
  "\<exists>rep c. import_graph readme_world readme_fx readme_fx = Some (Inr rep) \<and> c \<in> set (ir_candidates rep) \<and>
    (\<forall>n\<in>set readme_fx. graph_mutates readme_world n \<longrightarrow> set (all_input_nodes n) \<inter>
      (alias_step (alias_edges readme_world readme_fx))\<^sup>* `` insert (cd_source c) (set (cd_members c)) = {})"
proof -
  obtain rep c where "import_graph readme_world readme_fx readme_fx = Some (Inr rep)" "ir_candidates rep = [c]" by (rule readme_report)
  then show ?thesis using region_untouched [OF readme_ordered, of readme_world readme_fx rep c] by (intro exI [of _ rep] exI [of _ c]) simp
qed

text \<open>Every discovery ends: on a graph in execution order the walks along its arguments return.\<close>

theorem imports_terminate:
  assumes "well_ordered g"
  shows "\<exists>r. import_graph w orig g = Some r"
proof -
  from import_graph_discovered [OF assms] obtain r where "import_graph w orig g = Some r" by metis
  then show ?thesis ..
qed

theorem imports_terminate_witness: "\<exists>r. import_graph readme_world readme_fx readme_fx = Some r"
  by (rule imports_terminate [OF readme_ordered])

text \<open>
  C6. Typing of imported recipes.  Every recipe in a report is well formed: its ends are dense and start at offset
  zero, its operations take the extents and the dtype of its source to those of its destination, and the emitter
  accepts it.  The one fact about Torch is that \<open>index_select\<close> keeps the dtype of its input.
\<close>

theorem imported_recipes_typed:
  assumes "well_ordered g" and "selection_metadata w g" and "import_graph w orig g = Some (Inr rep)" and "c \<in> set (ir_candidates rep)"
  shows "typed_recipe (cd_recipe c) \<and> list_all wf_expr (cd_extent_guards c) \<and> (\<exists>mlir. emit_mlir (cd_recipe c) = Inr mlir)"
proof -
  have "candidate_ok w orig g c" using report_candidates(1) [OF assms(1,3)] assms(4) by blast
  then have "candidate_of w orig g (Some (cd_source c)) (cd_members c) = Inr c" "chain w g (cd_members c) (Some (cd_source c))"
    by (simp_all add: candidate_ok_def maximal_def)
  from candidate_typed [OF this assms(2)] show ?thesis .
qed

theorem imported_recipes_typed_witness:
  "\<exists>rep c. import_graph readme_world readme_fx readme_fx = Some (Inr rep) \<and> c \<in> set (ir_candidates rep) \<and>
    r_operations (cd_recipe c) = r_operations readme_recipe \<and> typed_recipe (cd_recipe c) \<and> (\<exists>mlir. emit_mlir (cd_recipe c) = Inr mlir)"
proof -
  obtain rep c where run: "import_graph readme_world readme_fx readme_fx = Some (Inr rep)" "ir_candidates rep = [c]"
    and region: "region_of c = chain_region" by (rule readme_report)
  have "cd_recipe c = readme_recipe" using region by (simp add: region_of_def chain_region_def)
  with imported_recipes_typed [OF readme_ordered readme_selections run(1), of c] run show ?thesis
    by (intro exI [of _ rep] exI [of _ c]) simp
qed

text \<open>
  C10. Extraction of the original region.  On a graph in execution order \<open>_extract\<close> either refuses a region that depends
  on something other than its inputs, with the reason of an unsupported expression, or returns a closed callable:
  every argument of a copied node is an input or a node copied before it, and the result is among them.  No lookup
  fails and the recursion stays within its bound.
\<close>

theorem extraction_closed:
  assumes "well_ordered g" and "set members \<subseteq> fn_name ` set g" and "members \<noteq> []"
  shows "case extract_region w g base members cx params of
      Inl e \<Rightarrow> e = UnsupportedRecipe ''unsupported_symbolic_expr'' [] \<or> (\<exists>d. context_expression (iw_backed w) cx [] d = Inl e)
    | Inr (x, bindings) \<Rightarrow> ex_result x = last members \<and> ex_result x \<in> set (ex_inputs x @ ex_body x) \<and>
        (\<forall>i<length (ex_body x). \<exists>n. find_node g (ex_body x ! i) = Some n \<and>
          set (all_input_nodes n) \<subseteq> set (ex_inputs x) \<union> set (take i (ex_body x)))"
proof -
  have d: "distinct (map fn_name g)" using assms(1) by (simp add: well_ordered_def)
  have within: "m \<in> fn_name ` set g \<and> position g m < length g + 1" if "m \<in> set members" for m
    using assms(2) that position_less [of m g] by auto
  have visited: "case foldR (visit w g cx base members params (length g + 1)) members ([], []) of Inl e \<Rightarrow> refusal w cx e
      | Inr s \<Rightarrow> visited_ok g base params s \<and> reached base params ([], []) \<subseteq> reached base params s \<and> set members \<subseteq> reached base params s"
  proof (rule foldR_invariant [where I = "visited_ok g base params" and K = "reached base params" and E = "refusal w cx"])
    fix m s assume "m \<in> set members" "visited_ok g base params s"
    with within show "case visit w g cx base members params (length g + 1) m s of Inl e \<Rightarrow> refusal w cx e
        | Inr s' \<Rightarrow> visited_ok g base params s' \<and> reached base params s \<subseteq> reached base params s' \<and> m \<in> reached base params s'"
      by (intro visit_spec [OF assms(1)]) blast+
  qed (simp add: visited_ok_def)
  show ?thesis
  proof (cases "foldR (visit w g cx base members params (length g + 1)) members ([], [])")
    case (Inl e)
    then show ?thesis using visited by (simp add: extract_region_def refusal_def)
  next
    case (Inr s)
    obtain deps external where s: "s = (deps, external)" by (metis surj_pair)
    have ok: "visited_ok g base params (deps, external)" and mem: "set members \<subseteq> reached base params (deps, external)"
      using visited Inr s by simp_all
    let ?b = "concat (map (\<lambda>n. case map_of external (fn_name n) of None \<Rightarrow> [] | Some e \<Rightarrow> [(fn_name n, e)]) g)"
    let ?body = "filter (\<lambda>n. fn_name n \<in> set deps) g" and ?M = "reached base params ([], external)"
    have "fst ` set ?b = fst ` set external"
      unfolding bindings_names using ok by (auto simp: visited_ok_def)
    then have M: "set (base # map fst ?b @ params) = ?M" by (auto simp: reached_def)
    have copied: "copy_body ?M ?body = Inr (?M \<union> fn_name ` set ?body)"
      using copy_body_ordered [OF assms(1) ok refl, of "[]" g] by simp
    have deps: "set deps \<subseteq> fn_name ` set ?body" using ok find_node_in by (fastforce simp: visited_ok_def)
    have "last members \<in> reached base params (deps, external)" using mem last_in_set [OF assms(3)] by blast
    then have res: "last members \<in> ?M \<union> fn_name ` set ?body" using deps by (auto simp: reached_def)
    have run: "extract_region w g base members cx params =
        Inr (\<lparr>ex_inputs = base # map fst ?b @ params, ex_body = map fn_name ?body, ex_result = last members\<rparr>, ?b)"
      unfolding extract_region_def Inr s res_bind_Inr prod.case Let_def M copied using res by simp
    have closed: "\<exists>n. find_node g (map fn_name ?body ! i) = Some n \<and> set (all_input_nodes n) \<subseteq> ?M \<union> set (take i (map fn_name ?body))"
      if i: "i < length ?body" for i
    proof -
      have "?body ! i \<in> set g" using nth_mem [OF i] by simp
      then have "find_node g (map fn_name ?body ! i) = Some (?body ! i)" using find_node_Some [OF d] i by simp
      then show ?thesis using body_closed [OF assms(1) ok i] by (simp add: take_map)
    qed
    show ?thesis unfolding run using res closed M by simp
  qed
qed

theorem extraction_closed_witness:
  "case extract_region readme_world readme_fx ''x'' [''rows'', ''cols'', ''moved''] vector_context [] of
      Inl e \<Rightarrow> e = UnsupportedRecipe ''unsupported_symbolic_expr'' [] \<or>
        (\<exists>d. context_expression (iw_backed readme_world) vector_context [] d = Inl e)
    | Inr (x, bindings) \<Rightarrow> ex_result x = last [''rows'', ''cols'', ''moved''] \<and> ex_result x \<in> set (ex_inputs x @ ex_body x) \<and>
        (\<forall>i<length (ex_body x). \<exists>n. find_node readme_fx (ex_body x ! i) = Some n \<and>
          set (all_input_nodes n) \<subseteq> set (ex_inputs x) \<union> set (take i (ex_body x)))"
  by (rule extraction_closed [OF readme_ordered]) (simp_all add: readme_fx_def)

text \<open>
  C33. Exactness of provenance.  An extent Torch records as a SymPy expression over backed source symbols becomes an
  expression of the recipe's language with the same value, whenever the names of the context stand for the symbols'
  values and the extents in \<open>known\<close> are positive.
\<close>

theorem provenance_exact:
  assumes "from_tensor backed shape = Inr cx" and "names_value cx \<sigma> \<rho>" and "\<forall>p\<in>set known. 1 \<le> den \<rho> p"
    and "context_expression backed cx known (DimSym (Some v) e) = Inr x"
  shows "den \<rho> x = sym_value (\<sigma> v) e \<and> wf_expr x"
  using convert_exact [OF from_tensor_ok [OF assms(1)] assms(2,3)] assms(4) by (simp add: context_expression_def)

theorem provenance_exact_witness:
  "context_expression (iw_backed readme_world) vector_context [] rows_n = Inr (FloorDiv (Symbol ''s0'') 64) \<and>
    den (\<lambda>_. 128) (FloorDiv (Symbol ''s0'') 64) = sym_value (\<lambda>_. 128) (SFloorDiv (SSymbol ''n'') (SInteger 64)) \<and>
    wf_expr (FloorDiv (Symbol ''s0'') 64)"
proof -
  have run: "context_expression (iw_backed readme_world) vector_context [] rows_n = Inr (FloorDiv (Symbol ''s0'') 64)" by code_simp
  have "names_value vector_context (\<lambda>_ _. 128) (\<lambda>_. 128)" by (simp add: names_value_def)
  from provenance_exact [OF vector_context this, of "[]" 0 "SFloorDiv (SSymbol ''n'') (SInteger 64)" "FloorDiv (Symbol ''s0'') 64"] run
  show ?thesis by (simp add: rows_n_def)
qed

text \<open>
  Sources of symbols.  The sources \<open>SymbolicContext.from_tensor\<close> reads off the recorded extents of a tensor are the
  ones \<open>symbol_sources\<close> finds in the expressions of its shape, in the same order with the same axes.
\<close>

theorem provenance_sources:
  assumes "from_tensor backed shape = Inr cx" and "mapR (context_expression backed cx []) shape = Inr es"
  shows "symbol_sources es = Inr (cx_sources cx)"
  using assms by (rule from_tensor_sources)

theorem provenance_sources_witness: "symbol_sources [Symbol ''s0''] = Inr readme_sources"
proof -
  have "mapR (context_expression (iw_backed readme_world) vector_context []) [extent_n] = Inr [Symbol ''s0'']" by code_simp
  from provenance_sources [OF vector_context this] show ?thesis by (simp add: vector_context_def)
qed

text \<open>
  Round trip of padding values.  Importing the number a float32, float16 or int8 pattern stands for gives back
  that pattern, for every pattern that is not a NaN.
\<close>

theorem fill_round_trip:
  assumes "fill_ok f" and "fill_dtype f \<in> {''float32'', ''float16'', ''int8''}" and "fill_value f \<noteq> Floating NotANumber"
  shows "fill_from (fill_dtype f) (fill_value f) = Inr f"
  using assms by (rule fill_from_value)

theorem fill_round_trip_witness:
  "fill_from ''int8'' (fill_value \<lparr>fill_dtype = ''int8'', fill_bits = 200\<rparr>) = Inr \<lparr>fill_dtype = ''int8'', fill_bits = 200\<rparr>"
  using fill_round_trip [of "\<lparr>fill_dtype = ''int8'', fill_bits = 200\<rparr>"]
  by (simp add: fill_ok_def tensor_dtypes_def bits_fit_def fill_value_def)

text \<open>
  C4. The imported program.  When a backend captures a graph with the importer's report, whatever its callable runs
  computes, on every node outside the regions it replaces, what the captured graph computes; every handle it owns
  belongs to one of the imported candidates.  That the candidates are disjoint chains with operands of their own
  is the importer's doing; that an artifact computes what its region does is the execution's promise.
\<close>

theorem imported_program_equivalent:
  assumes "backend_ok bw b" and "usable bw b" and "fresh_namer (bw_namer bw)" and "standard_ops extents S"
    and "run_nodes S (cp_graph cp) Map.empty = Some env0" and "well_ordered fx" and "map gn_name (cp_graph cp) = map fn_name fx"
    and "import_graph w orig fx = Some (Inr rep)" and "cp_report cp = Inr (map snd (ir_exclusions rep), map region_of (ir_candidates rep))"
    and "\<forall>c\<in>set (map region_of (ir_candidates rep)).
      compiles_well bw extents env0 (\<rho> c) c \<and> serves bw S (cp_graph cp) env0 (\<rho> c) b' c"
    and "capture_graph bw cp b = (Inr gc, b')" and "run_callable bw grad autograd gc b1 = (Inr (Ran g), b2)"
  shows "computes_same S (cp_graph cp) env0 (set (concat (map cd_members (ir_candidates rep)))) g \<and>
    (\<forall>h\<in>set (gc_handles gc). handle_for bw (map region_of (ir_candidates rep)) b' h)"
  using captured_program_equivalent [OF assms(1-5,9) report_candidates_shape [OF assms(6,8,7)] assms(10-12)]
  by (simp add: region_of_def comp_def)

theorem imported_program_equivalent_witness:
  "\<exists>rep gc b g. import_graph readme_world readme_fx readme_fx = Some (Inr rep) \<and>
     capture_graph chain_world chain_capture chain_backend = (Inr gc, b) \<and> gc_rewritten gc = Some g \<and>
     computes_same extents_semantics chain_graph chain_values {''rows'', ''cols'', ''moved''} g"
proof -
  obtain rep c where imp: "import_graph readme_world readme_fx readme_fx = Some (Inr rep)" and c: "ir_candidates rep = [c]"
    "region_of c = chain_region" "cd_members c = [''rows'', ''cols'', ''moved'']" and ex: "ir_exclusions rep = []" by (rule readme_report)
  obtain gc b g where run: "capture_graph chain_world chain_capture chain_backend = (Inr gc, b)" and g: "gc_rewritten gc = Some g"
    and ne: "\<not> gc_executor gc" by (rule chain_capture_run)
  have ok: "backend_ok chain_world chain_backend" by (rule new_backend_ok [OF chain_backend_new]) (simp add: new_registry_def)
  have u: "usable chain_world chain_backend" by (simp add: usable_def chain_world_def chain_backend_def)
  have call: "run_callable chain_world False False gc b = (Inr (Ran g), b)" using g ne by (simp add: run_callable_def give_def)
  have each: "\<forall>c\<in>set (map region_of (ir_candidates rep)). compiles_well chain_world id chain_values (\<lambda>_. 128) c \<and>
      serves chain_world extents_semantics chain_graph chain_values (\<lambda>_. 128) b c"
    using chain_compiles chain_serves c by simp
  have names: "bw_namer chain_world = longer_name" "cp_graph chain_capture = chain_graph"
    "cp_report chain_capture = Inr (map snd (ir_exclusions rep), map region_of (ir_candidates rep))"
    using c ex by (simp_all add: chain_world_def chain_capture_def)
  from imported_program_equivalent [where bw = chain_world and cp = chain_capture and \<rho> = "\<lambda>_ _. 128", unfolded names(1,2),
      OF ok u longer_name_fresh extents_standard chain_runs readme_ordered readme_names imp names(3) each run call]
  have "computes_same extents_semantics chain_graph chain_values {''rows'', ''cols'', ''moved''} g" by (simp add: c)
  with imp run g show ?thesis by blast
qed

end
