(* ===== verification/Fast.thy ===== *)
theory Fast
  imports Action Dispatch Transfer_Queue Artifact_Cache
begin

text \<open>
  \<open>FastTransfers\<close> and \<open>FastCompletion\<close> of \<open>reloc_torch/fast.py\<close>: an owner of prepared programs submits groups of
  transfers, keeps those a stream waits for until the host saw them end, and accounts for what they moved.
\<close>

section \<open>Programs as group members\<close>

text \<open>\<open>_signature\<close>: shape, strides, dtype and device type.\<close>

type_synonym signature = "int list \<times> int list \<times> string \<times> string"

definition signature_of :: "live \<Rightarrow> signature" where
  "signature_of t = (lv_shape t, lv_strides t, lv_dtype t, dv_type (lv_device t))"

text \<open>A program bound to one shape: \<open>fp_native\<close> is its native template or bound layout, \<open>fp_view\<close> kind and device of its source view.\<close>

record fast_program =
  fp_typed :: bool
  fp_native :: nat
  fp_bindings :: bindings
  fp_signature :: signature
  fp_dtype :: string
  fp_direction :: string
  fp_view :: "string \<times> int"
  fp_destination :: concrete_descriptor
  fp_parameter_bytes :: int

text \<open>What \<open>submit\<close> accepts: a program, the template of one call with its source view, or another object.\<close>

datatype group_member = Prepared fast_program | One_Shot nat buffer_view string | Other_Member

text \<open>An entry of the native group: of tensors, where the Torch extension is built, of buffer views otherwise.\<close>

datatype group_entry = Tensor_Entry nat live live string string | View_Entry nat buffer_view buffer_view string

definition device_number :: "device \<Rightarrow> int" where
  "device_number d = (case dv_index d of Some i \<Rightarrow> i | None \<Rightarrow> 0)"

definition is_cuda :: "live \<Rightarrow> bool" where
  "is_cuda t \<longleftrightarrow> dv_type (lv_device t) = ''cuda''"

definition output_view :: "live \<Rightarrow> buffer_view" where
  "output_view out = (if is_cuda out then storage_view out ''cuda'' (device_number (lv_device out)) else storage_view out ''host'' (- 1))"

definition source_view :: "fast_program \<Rightarrow> live \<Rightarrow> buffer_view" where
  "source_view p src = storage_view src (fst (fp_view p)) (snd (fp_view p))"

definition check_program :: "fast_program \<Rightarrow> live \<Rightarrow> unit res" where
  "check_program p src = ensure (signature_of src = fp_signature p) (ValueErr ''source does not match the prepared program'')"

definition check_member :: "group_member \<Rightarrow> live \<Rightarrow> unit res" where
  "check_member m src = (case m of
     Prepared p \<Rightarrow> check_program p src
   | One_Shot _ _ _ \<Rightarrow> Inr ()
   | Other_Member \<Rightarrow> Inl (TypeErr ''group members are typed or layout programs''))"

definition member_direction :: "group_member \<Rightarrow> string" where
  "member_direction m = (case m of Prepared p \<Rightarrow> fp_direction p | _ \<Rightarrow> ''h2d'')"

definition member_entry :: "bool \<Rightarrow> group_member \<Rightarrow> live \<Rightarrow> live \<Rightarrow> group_entry" where
  "member_entry views m src out = (case m of
     Prepared p \<Rightarrow> if views then Tensor_Entry (fp_native p) src out (fp_direction p) (fp_dtype p)
       else View_Entry (fp_native p) (source_view p src) (output_view out) (fp_direction p)
   | One_Shot n view dtype \<Rightarrow> if views then Tensor_Entry n src out ''h2d'' dtype
       else View_Entry n view (storage_view out ''cuda'' (device_number (lv_device out))) ''h2d''
   | Other_Member \<Rightarrow> Tensor_Entry 0 src out ''h2d'' [])"

section \<open>The owner\<close>

text \<open>A submitted group with its completion, which is finished once the host saw the native work end.\<close>

record fast_group =
  fg_entries :: "group_entry list"
  fg_sources :: "live list"
  fg_outputs :: "live list"
  fg_extra :: "live list"
  fg_host :: bool
  fg_after :: "string option"
  fg_threads :: int
  fg_device_layout :: bool
  fg_chunked :: bool
  fg_done :: bool

record fast_totals =
  ft_calls :: int
  ft_groups :: int
  ft_logical_transfers :: int
  ft_payload_bytes :: int
  ft_dispatches :: "(string, int) odict"

text \<open>
  \<open>ff_groups\<close> numbers the completions in the order of submission; \<open>ff_consumers\<close> lists the \<open>record_stream\<close> calls on
  outputs; \<open>ff_clock\<close> counts native calls, so that the same question may get another answer later.
\<close>

record fast =
  ff_device :: device
  ff_pid :: int
  ff_closed :: bool
  ff_threads :: int
  ff_pinning :: string
  ff_buffers :: int
  ff_chunk_size :: int
  ff_max_scratch_bytes :: int
  ff_compiled :: "(recipe, compiled_recipe) odict"
  ff_registrations :: "registration list"
  ff_resources :: transfer_resources
  ff_totals :: fast_totals
  ff_inflight :: "nat list"
  ff_max_inflight :: nat
  ff_groups :: "fast_group list"
  ff_consumers :: "(nat \<times> string) list"
  ff_clock :: nat

datatype native_failure = Transfer_Error string | Bind_Error string | Other_Error exn

text \<open>The report of a blocking dispatch; its entries may be missing.\<close>

record call_report =
  cl_payload_bytes :: "int option"
  cl_implementation :: "string option"

text \<open>The native runtime and Torch's allocator and streams.\<close>

record fast_native =
  nw_views :: bool
  nw_query :: "nat \<Rightarrow> nat \<Rightarrow> bool res"
  nw_wait :: "nat \<Rightarrow> nat \<Rightarrow> unit res"
  nw_wait_stream :: "nat \<Rightarrow> nat \<Rightarrow> string \<Rightarrow> unit res"
  nw_report :: "nat \<Rightarrow> group_report"
  nw_current_stream :: "nat \<Rightarrow> string"
  nw_allocate :: "nat \<Rightarrow> concrete_descriptor \<Rightarrow> bool \<Rightarrow> live res"
  nw_prepare :: "nat \<Rightarrow> group_entry list \<Rightarrow> native_failure + unit"
  nw_submit :: "nat \<Rightarrow> fast_group \<Rightarrow> native_failure + unit"
  nw_request :: "nat \<Rightarrow> group_entry \<Rightarrow> native_failure + nat"
  nw_execute :: "nat \<Rightarrow> nat \<Rightarrow> native_failure + call_report"

type_synonym 'a fast_action = "(fast, 'a) action"

definition ask :: "(nat \<Rightarrow> 'a res) \<Rightarrow> 'a fast_action" where
  "ask f s = (f (ff_clock s), s\<lparr>ff_clock := Suc (ff_clock s)\<rparr>)"

text \<open>\<open>except pyreloc.TransferError\<close>: its text becomes another exception; anything else passes.\<close>

definition failing :: "(string \<Rightarrow> exn) \<Rightarrow> native_failure + 'a \<Rightarrow> 'a res" where
  "failing h r = (case r of Inr x \<Rightarrow> Inr x
     | Inl (Transfer_Error t) \<Rightarrow> Inl (h t) | Inl (Bind_Error t) \<Rightarrow> Inl (OtherExn t) | Inl (Other_Error e) \<Rightarrow> Inl e)"

definition current_stream :: "fast_native \<Rightarrow> string fast_action" where
  "current_stream nw = observe (\<lambda>s. nw_current_stream nw (ff_clock s))"

definition check_open :: "int \<Rightarrow> unit fast_action" where
  "check_open pid = andthen (observe (\<lambda>s. (ff_pid s, ff_closed s))) (\<lambda>(owner, closed). give (
     res_bind (ensure (pid = owner) (RuntimeErr ''fast transfers belong to another process'')) (\<lambda>_.
     ensure (\<not> closed) (RuntimeErr ''fast transfers are closed''))))"

section \<open>Accounts\<close>

definition record_call :: "call_report \<Rightarrow> fast_totals \<Rightarrow> fast_totals" where
  "record_call r t = t\<lparr>ft_calls := ft_calls t + 1, ft_logical_transfers := ft_logical_transfers t + 1,
     ft_payload_bytes := ft_payload_bytes t + (case cl_payload_bytes r of None \<Rightarrow> 0 | Some n \<Rightarrow> n),
     ft_dispatches := bump (case cl_implementation r of None \<Rightarrow> ''?'' | Some i \<Rightarrow> i) (ft_dispatches t)\<rparr>"

definition record_fast_item :: "report_item \<Rightarrow> fast_totals \<Rightarrow> fast_totals" where
  "record_fast_item i t = t\<lparr>ft_payload_bytes := ft_payload_bytes t + ri_payload_bytes i,
     ft_dispatches := bump (ri_implementation i) (ft_dispatches t)\<rparr>"

definition record_group :: "group_report \<Rightarrow> fast_totals \<Rightarrow> fast_totals" where
  "record_group r t = fold record_fast_item (gr_items r) (t\<lparr>ft_groups := ft_groups t + 1,
     ft_logical_transfers := ft_logical_transfers t + gr_logical_transfers r\<rparr>)"

section \<open>Completions\<close>

definition is_done :: "nat \<Rightarrow> fast \<Rightarrow> bool" where
  "is_done h s = fg_done (ff_groups s ! h)"

definition finish_group :: "fast_native \<Rightarrow> nat \<Rightarrow> fast \<Rightarrow> fast" where
  "finish_group nw h s = s\<lparr>ff_groups := (ff_groups s)[h := (ff_groups s ! h)\<lparr>fg_done := True\<rparr>],
     ff_totals := record_group (nw_report nw h) (ff_totals s)\<rparr>"

definition completion_done :: "fast_native \<Rightarrow> nat \<Rightarrow> bool fast_action" where
  "completion_done nw h = andthen (observe (is_done h)) (\<lambda>d.
     if d then give (Inr True)
     else andthen (ask (\<lambda>t. nw_query nw t h)) (\<lambda>q.
       if q then andthen (update (finish_group nw h)) (\<lambda>_. give (Inr True)) else give (Inr False)))"

text \<open>The native wait of \<open>wait\<close> and \<open>wait_stream\<close> on the host.\<close>

definition host_wait :: "fast_native \<Rightarrow> nat \<Rightarrow> unit fast_action" where
  "host_wait nw h = andthen (observe (is_done h)) (\<lambda>d.
     if d then give (Inr ())
     else andthen (ask (\<lambda>t. nw_wait nw t h)) (\<lambda>_. update (finish_group nw h)))"

definition record_outputs :: "fast_native \<Rightarrow> nat \<Rightarrow> string option \<Rightarrow> unit fast_action" where
  "record_outputs nw h stream = andthen (current_stream nw) (\<lambda>current.
     update (\<lambda>s. s\<lparr>ff_consumers := ff_consumers s @
       map (\<lambda>t. (lv_id t, case stream of Some x \<Rightarrow> x | None \<Rightarrow> current)) (filter is_cuda (fg_outputs (ff_groups s ! h)))\<rparr>))"

definition outputs_of :: "nat \<Rightarrow> live list fast_action" where
  "outputs_of h = observe (\<lambda>s. fg_outputs (ff_groups s ! h))"

definition completion_wait :: "fast_native \<Rightarrow> nat \<Rightarrow> live list fast_action" where
  "completion_wait nw h = andthen (host_wait nw h) (\<lambda>_. andthen (record_outputs nw h None) (\<lambda>_. outputs_of h))"

section \<open>Groups in flight\<close>

definition set_inflight :: "nat list \<Rightarrow> fast \<Rightarrow> fast" where
  "set_inflight hs s = s\<lparr>ff_inflight := hs\<rparr>"

text \<open>The loops of \<open>_retain\<close> and \<open>_retire\<close>, over the queue they pop from the left.\<close>

fun drop_finished :: "fast_native \<Rightarrow> nat list \<Rightarrow> unit fast_action" where
  "drop_finished nw [] = give (Inr ())"
| "drop_finished nw (h # hs) = andthen (completion_done nw h) (\<lambda>d.
     if d then andthen (update (set_inflight hs)) (\<lambda>_. drop_finished nw hs) else give (Inr ()))"

fun make_slot :: "fast_native \<Rightarrow> nat \<Rightarrow> nat list \<Rightarrow> unit fast_action" where
  "make_slot nw limit [] = give (ensure (0 < limit) (OtherExn ''IndexError''))"
| "make_slot nw limit (h # hs) = (if length (h # hs) < limit then give (Inr ())
     else andthen (update (set_inflight hs)) (\<lambda>_. andthen (completion_wait nw h) (\<lambda>_. make_slot nw limit hs)))"

definition retain :: "fast_native \<Rightarrow> nat \<Rightarrow> unit fast_action" where
  "retain nw h = andthen (observe ff_inflight) (\<lambda>hs. andthen (drop_finished nw hs) (\<lambda>_.
     andthen (observe (\<lambda>s. (ff_max_inflight s, ff_inflight s))) (\<lambda>(limit, hs). andthen (make_slot nw limit hs) (\<lambda>_.
     update (\<lambda>s. set_inflight (ff_inflight s @ [h]) s)))))"

fun retire_loop :: "fast_native \<Rightarrow> bool \<Rightarrow> nat list \<Rightarrow> unit fast_action" where
  "retire_loop nw block [] = give (Inr ())"
| "retire_loop nw block (h # hs) = andthen (if block then give (Inr True) else completion_done nw h) (\<lambda>d.
     if d then andthen (update (set_inflight hs)) (\<lambda>_. andthen (completion_wait nw h) (\<lambda>_. retire_loop nw block hs))
     else give (Inr ()))"

definition retire :: "fast_native \<Rightarrow> bool \<Rightarrow> unit fast_action" where
  "retire nw block = andthen (observe ff_inflight) (retire_loop nw block)"

text \<open>\<open>wait_stream\<close>: a group that reads the device completes on the host; any other stays with its owner.\<close>

definition completion_wait_stream :: "fast_native \<Rightarrow> nat \<Rightarrow> string option \<Rightarrow> live list fast_action" where
  "completion_wait_stream nw h stream =
     andthen (observe (\<lambda>s. (fg_host (ff_groups s ! h), is_done h s))) (\<lambda>(host, d).
     if host then andthen (host_wait nw h) (\<lambda>_. andthen (record_outputs nw h stream) (\<lambda>_. outputs_of h))
     else andthen (current_stream nw) (\<lambda>current. let stream = (case stream of Some x \<Rightarrow> x | None \<Rightarrow> current) in
       andthen (if d then give (Inr ())
         else andthen (ask (\<lambda>t. nw_wait_stream nw t h stream)) (\<lambda>_. retain nw h)) (\<lambda>_.
       andthen (record_outputs nw h (Some stream)) (\<lambda>_. outputs_of h))))"

section \<open>Submission\<close>

record group_options =
  go_threads :: "int option"
  go_device_layout :: bool
  go_chunked :: bool
  go_pin_outputs :: bool

text \<open>\<open>allocate\<close>: pinning concerns only outputs on the host.\<close>

definition allocate :: "fast_native \<Rightarrow> fast_program \<Rightarrow> bool \<Rightarrow> live fast_action" where
  "allocate nw p pin = ask (\<lambda>t. nw_allocate nw t (fp_destination p) (dv_type (cd_device (fp_destination p)) \<noteq> ''cuda'' \<and> pin))"

definition member_output :: "fast_native \<Rightarrow> group_member \<Rightarrow> bool \<Rightarrow> live list option \<Rightarrow> nat \<Rightarrow> live fast_action" where
  "member_output nw m pin outputs position = (case outputs of
     Some outs \<Rightarrow> give (if position < length outs then Inr (outs ! position) else Inl (OtherExn ''IndexError''))
   | None \<Rightarrow> (case m of Prepared p \<Rightarrow> allocate nw p pin | _ \<Rightarrow> give (Inl (OtherExn ''AttributeError''))))"

text \<open>The loop of \<open>submit\<close>: outputs and entries, in the order of the items.\<close>

fun collect :: "fast_native \<Rightarrow> bool \<Rightarrow> live list option \<Rightarrow> nat \<Rightarrow> (group_member \<times> live) list \<Rightarrow>
    (live list \<times> group_entry list) fast_action" where
  "collect nw pin outputs position [] = give (Inr ([], []))"
| "collect nw pin outputs position ((m, src) # items) =
     andthen (give (check_member m src)) (\<lambda>_.
     andthen (member_output nw m pin outputs position) (\<lambda>out.
     andthen (collect nw pin outputs (Suc position) items) (\<lambda>(outs, entries).
     give (Inr (out # outs, member_entry (nw_views nw) m src out # entries)))))"

definition new_group :: "fast \<Rightarrow> group_options \<Rightarrow> group_entry list \<Rightarrow> live list \<Rightarrow> live list \<Rightarrow> live list \<Rightarrow> bool \<Rightarrow> string \<Rightarrow> fast_group" where
  "new_group s go entries sources outs extra host current =
     \<lparr>fg_entries = entries, fg_sources = sources, fg_outputs = outs, fg_extra = extra, fg_host = host,
      fg_after = (if host then Some current else None),
      fg_threads = (case go_threads go of None \<Rightarrow> ff_threads s | Some n \<Rightarrow> n),
      fg_device_layout = go_device_layout go, fg_chunked = go_chunked go, fg_done = False\<rparr>"

definition group_failed :: "string \<Rightarrow> exn" where
  "group_failed t = RuntimeErr (msg [''transfer group failed: '', t])"

text \<open>The native submission; the owner's resources refuse another process.\<close>

definition launch_group :: "fast_native \<Rightarrow> int \<Rightarrow> group_options \<Rightarrow> group_entry list \<Rightarrow> live list \<Rightarrow> live list \<Rightarrow> live list \<Rightarrow> bool \<Rightarrow> nat fast_action" where
  "launch_group nw pid go entries sources outs extra host =
     andthen (current_stream nw) (\<lambda>current.
     andthen (observe (\<lambda>s. (rs_pid (ff_resources s), new_group s go entries sources outs extra host current))) (\<lambda>(owner, group).
     andthen (give (ensure (pid = owner) process_mismatch)) (\<lambda>_.
     andthen (ask (\<lambda>t. failing group_failed (nw_submit nw t group))) (\<lambda>_.
     andthen (observe (length \<circ> ff_groups)) (\<lambda>h.
     andthen (update (\<lambda>s. s\<lparr>ff_groups := ff_groups s @ [group]\<rparr>)) (\<lambda>_. give (Inr h)))))))"

definition submit_group :: "fast_native \<Rightarrow> int \<Rightarrow> (group_member \<times> live) list \<Rightarrow> live list option \<Rightarrow> live list \<Rightarrow> group_options \<Rightarrow> nat fast_action" where
  "submit_group nw pid items outputs extra go =
     andthen (check_open pid) (\<lambda>_.
     andthen (retire nw False) (\<lambda>_.
     andthen (give (ensure (1 \<le> length items \<and> length items \<le> 256) (ValueErr ''a group holds between 1 and 256 transfers''))) (\<lambda>_.
     andthen (collect nw (go_pin_outputs go) outputs 0 items) (\<lambda>(outs, entries).
     andthen (ask (\<lambda>t. failing group_failed (nw_prepare nw t entries))) (\<lambda>_.
     launch_group nw pid go entries (map snd items) outs extra (\<exists>i\<in>set items. member_direction (fst i) = ''d2h''))))))"

text \<open>\<open>_submit_native\<close>: a group already prepared by the extension.\<close>

definition submit_native :: "fast_native \<Rightarrow> int \<Rightarrow> group_entry list \<Rightarrow> live list \<Rightarrow> live list \<Rightarrow> live list \<Rightarrow> bool \<Rightarrow> group_options \<Rightarrow> nat fast_action" where
  "submit_native nw pid entries sources outs extra host go =
     andthen (retire nw False) (\<lambda>_. launch_group nw pid go entries sources outs extra host)"

section \<open>Blocking calls\<close>

definition run_request :: "fast_native \<Rightarrow> int \<Rightarrow> (string \<Rightarrow> exn) \<Rightarrow> nat \<Rightarrow> unit fast_action" where
  "run_request nw pid failed request =
     andthen (observe (rs_pid \<circ> ff_resources)) (\<lambda>owner.
     andthen (give (ensure (pid = owner) process_mismatch)) (\<lambda>_.
     andthen (ask (\<lambda>t. failing failed (nw_execute nw t request))) (\<lambda>report.
     update (\<lambda>s. s\<lparr>ff_totals := record_call report (ff_totals s)\<rparr>))))"

text \<open>\<open>TypedProgram.execute\<close>.\<close>

definition execute_typed :: "fast_native \<Rightarrow> int \<Rightarrow> fast_program \<Rightarrow> live \<Rightarrow> live option \<Rightarrow> live fast_action" where
  "execute_typed nw pid p src out =
     andthen (check_open pid) (\<lambda>_.
     andthen (give (check_program p src)) (\<lambda>_.
     andthen (case out of Some x \<Rightarrow> give (Inr x) | None \<Rightarrow> allocate nw p True) (\<lambda>out.
     andthen (ask (\<lambda>t. failing (\<lambda>e. RuntimeErr (msg [''typed dispatch rejected at execution: '', e]))
       (nw_request nw t (member_entry (nw_views nw) (Prepared p) src out)))) (\<lambda>request.
     andthen (run_request nw pid (\<lambda>e. RuntimeErr (msg [fp_direction p, '' typed dispatch failed: '', e])) request) (\<lambda>_.
     give (Inr out))))))"

text \<open>\<open>LayoutProgram.execute\<close>: a group of one.\<close>

definition execute_layout :: "fast_native \<Rightarrow> int \<Rightarrow> fast_program \<Rightarrow> live \<Rightarrow> live option \<Rightarrow> bool \<Rightarrow> live fast_action" where
  "execute_layout nw pid p src out device_layout =
     andthen (submit_group nw pid [(Prepared p, src)] (map_option (\<lambda>x. [x]) out) []
       \<lparr>go_threads = Some 1, go_device_layout = device_layout, go_chunked = False, go_pin_outputs = True\<rparr>) (\<lambda>h.
     andthen (completion_wait nw h) (\<lambda>outs.
     give (case outs of [] \<Rightarrow> Inl (OtherExn ''IndexError'') | x # _ \<Rightarrow> Inr x)))"

section \<open>Construction\<close>

record fast_arguments =
  fa_threads :: pyint
  fa_contexts :: pyint
  fa_buffers :: pyint
  fa_scratch :: pyint
  fa_pinning :: string
  fa_chunk_size :: "pyint option"

text \<open>\<open>type(value) is int and value > 0\<close>.\<close>

definition positive_int :: "pyint \<Rightarrow> bool" where
  "positive_int v = (case v of PyInt n \<Rightarrow> 0 < n | NotInt \<Rightarrow> False)"

definition check_arguments :: "fast_arguments \<Rightarrow> unit res" where
  "check_arguments a =
     res_bind (mapR (\<lambda>(name, v). ensure (positive_int v) (ValueErr (msg [name, '' must be a positive integer''])))
       [(''gather_threads'', fa_threads a), (''contexts'', fa_contexts a), (''n_buffers'', fa_buffers a),
        (''max_scratch_bytes'', fa_scratch a)]) (\<lambda>_.
     res_bind (ensure (fa_pinning a \<in> {''pinned'', ''pageable''}) (ValueErr ''pinning must be pinned or pageable'')) (\<lambda>_.
     ensure (case fa_chunk_size a of None \<Rightarrow> True | Some v \<Rightarrow> positive_int v) (ValueErr ''chunk_size must be a positive integer or None'')))"

text \<open>The limits given to \<open>TransferResources\<close>: the scratch budget and the workers of every context.\<close>

definition fast_limits :: "int \<Rightarrow> int \<Rightarrow> int \<Rightarrow> (string \<times> option_value) list" where
  "fast_limits scratch threads contexts =
     [(''max_typed_retained_bytes'', OInt (scratch * contexts)), (''max_typed_live_bytes'', OInt (scratch * contexts)),
      (''max_typed_background_workers'', OInt (max 1 (threads - 1) * contexts)), (''max_typed_streams'', OInt contexts),
      (''max_typed_contexts'', OInt contexts), (''max_typed_contexts_per_device'', OInt contexts)]"

definition new_fast :: "bool \<Rightarrow> int \<Rightarrow> int \<Rightarrow> device \<Rightarrow> fast_arguments \<Rightarrow> fast res" where
  "new_fast cuda current pid d a =
     (if \<not> cuda then Inl (RuntimeErr ''fast transfers require a CUDA-capable runtime'')
      else if dv_type d \<noteq> ''cuda'' then Inl (ValueErr ''fast transfers require a CUDA device'')
      else res_bind (check_arguments a) (\<lambda>_.
        let contexts = the_int (fa_contexts a); threads = the_int (fa_threads a); scratch = the_int (fa_scratch a) in
        Inr \<lparr>ff_device = \<lparr>dv_type = ''cuda'', dv_index = Some (case dv_index d of None \<Rightarrow> current | Some i \<Rightarrow> i)\<rparr>,
          ff_pid = pid, ff_closed = False, ff_threads = threads, ff_pinning = fa_pinning a,
          ff_buffers = the_int (fa_buffers a), ff_chunk_size = (case fa_chunk_size a of None \<Rightarrow> 0 | Some v \<Rightarrow> the_int v),
          ff_max_scratch_bytes = scratch, ff_compiled = [], ff_registrations = [],
          ff_resources = new_resources pid (fold (\<lambda>(k, v). od_set k v) (fast_limits scratch threads contexts) default_limits),
          ff_totals = \<lparr>ft_calls = 0, ft_groups = 0, ft_logical_transfers = 0, ft_payload_bytes = 0, ft_dispatches = []\<rparr>,
          ff_inflight = [], ff_max_inflight = 8, ff_groups = [], ff_consumers = [], ff_clock = 0\<rparr>))"

section \<open>Life cycle\<close>

definition close_fast :: "fast_native \<Rightarrow> int \<Rightarrow> 'e registry \<Rightarrow> fast \<Rightarrow> unit res \<times> 'e registry \<times> fast" where
  "close_fast nw pid g s =
     (if ff_closed s then (Inr (), g, s)
      else let g = fold (\<lambda>r g. snd (release_registration r g)) (ff_registrations s) g;
          (drained, s) = retire nw True (s\<lparr>ff_closed := True, ff_registrations := []\<rparr>);
          (closed, rs) = close_resources pid (ff_resources s)
        in (case closed of Inl e \<Rightarrow> Inl e | Inr _ \<Rightarrow> drained, g, s\<lparr>ff_resources := rs\<rparr>))"

definition compile_fast :: "(recipe \<Rightarrow> compiled_recipe res) \<Rightarrow> int \<Rightarrow> recipe \<Rightarrow> compiled_recipe fast_action" where
  "compile_fast client pid r =
     andthen (check_open pid) (\<lambda>_.
     andthen (observe (\<lambda>s. map_of (ff_compiled s) r)) (\<lambda>found. case found of
       Some a \<Rightarrow> give (Inr a)
     | None \<Rightarrow> andthen (give (client r)) (\<lambda>a.
         andthen (update (\<lambda>s. s\<lparr>ff_compiled := od_set r a (ff_compiled s)\<rparr>)) (\<lambda>_. give (Inr a)))))"

text \<open>\<open>fast_ops.register\<close>.\<close>

definition register_program :: "int \<Rightarrow> string \<Rightarrow> 'e \<Rightarrow> 'e registry \<Rightarrow> fast \<Rightarrow> registration res \<times> 'e registry \<times> fast" where
  "register_program pid token entry g s = (case check_open pid s of
     (Inl e, s) \<Rightarrow> (Inl e, g, s)
   | (Inr _, s) \<Rightarrow> let (r, g) = register token entry g in (Inr r, g, s\<lparr>ff_registrations := ff_registrations s @ [r]\<rparr>))"

end
