(* ===== verification/Fast_Window.thy ===== *)
theory Fast_Window
  imports Fast
begin

text \<open>
  \<open>FastPrefetch\<close> of \<open>reloc_torch/fast.py\<close>: a window over an iterable of groups that submits ahead of its consumer.
\<close>

text \<open>
  \<open>pf_groups\<close> is what the iterator still has, \<open>None\<close> after it stopped; an element may be the exception of a generator,
  which ends it.  Pending groups are submitted, consumed ones were handed out and may still be in flight.
\<close>

record prefetch =
  pf_groups :: "(group_member \<times> live) list res list option"
  pf_slots :: int
  pf_pending :: "nat list"
  pf_consumed :: "nat list"
  pf_closed :: bool
  pf_options :: group_options

fun drop_consumed :: "fast_native \<Rightarrow> nat list \<Rightarrow> fast \<Rightarrow> unit res \<times> nat list \<times> fast" where
  "drop_consumed nw [] f = (Inr (), [], f)"
| "drop_consumed nw (h # hs) f = (case completion_done nw h f of
     (Inl e, f) \<Rightarrow> (Inl e, h # hs, f)
   | (Inr d, f) \<Rightarrow> if d then drop_consumed nw hs f else (Inr (), h # hs, f))"

lemma drop_consumed_suffix: "drop_consumed nw hs f = (r, hs', f') \<Longrightarrow> \<exists>as. hs = as @ hs'"
proof (induction hs arbitrary: f)
  case (Cons h hs)
  obtain q s where q: "completion_done nw h f = (q, s)" by fastforce
  show ?case
  proof (cases "q = Inr True")
    case True
    then obtain as where "hs = as @ hs'" using Cons.IH [of s] Cons.prems q by auto
    then show ?thesis by (intro exI [of _ "h # as"]) simp
  next
    case False
    with Cons.prems q show ?thesis by (auto split: sum.splits if_splits)
  qed
qed simp

lemma drop_consumed_length: "drop_consumed nw hs f = (r, hs', f') \<Longrightarrow> length hs' \<le> length hs"
  using drop_consumed_suffix by fastforce

text \<open>\<open>_fill\<close>: \<open>limit\<close> is already the minimum with the slots.\<close>

function fill :: "fast_native \<Rightarrow> int \<Rightarrow> int \<Rightarrow> bool \<Rightarrow> prefetch \<Rightarrow> fast \<Rightarrow> unit res \<times> prefetch \<times> fast" where
  "fill nw pid limit block p f = (case pf_groups p of
     None \<Rightarrow> (Inr (), p, f)
   | Some gs \<Rightarrow> if limit \<le> int (length (pf_pending p)) then (Inr (), p, f)
       else (case drop_consumed nw (pf_consumed p) f of
         (Inl e, hs, f) \<Rightarrow> (Inl e, p\<lparr>pf_consumed := hs\<rparr>, f)
       | (Inr _, hs, f) \<Rightarrow>
           if pf_slots p \<le> int (length (pf_pending p) + length hs)
           then (if \<not> block \<or> hs = [] then (Inr (), p\<lparr>pf_consumed := hs\<rparr>, f)
             else (case completion_wait nw (hd hs) f of
               (Inl e, f) \<Rightarrow> (Inl e, p\<lparr>pf_consumed := tl hs\<rparr>, f)
             | (Inr _, f) \<Rightarrow> fill nw pid limit block (p\<lparr>pf_consumed := tl hs\<rparr>) f))
           else (case gs of
             [] \<Rightarrow> (Inr (), p\<lparr>pf_consumed := hs, pf_groups := None\<rparr>, f)
           | Inl e # _ \<Rightarrow> (Inl e, p\<lparr>pf_consumed := hs, pf_groups := Some []\<rparr>, f)
           | Inr items # gs \<Rightarrow> (case submit_group nw pid items None [] (pf_options p) f of
               (Inl e, f) \<Rightarrow> (Inl e, p\<lparr>pf_consumed := hs, pf_groups := Some gs\<rparr>, f)
             | (Inr h, f) \<Rightarrow> fill nw pid limit block
                 (p\<lparr>pf_consumed := hs, pf_groups := Some gs, pf_pending := pf_pending p @ [h]\<rparr>) f))))"
  by auto
termination
  by (relation "measure (\<lambda>(_, _, _, _, p, _). (case pf_groups p of None \<Rightarrow> 0 | Some gs \<Rightarrow> length gs) + length (pf_consumed p))")
    (auto dest!: drop_consumed_length [OF sym] simp: neq_Nil_conv)

declare fill.simps [simp del]

fun wait_all :: "fast_native \<Rightarrow> nat list \<Rightarrow> fast \<Rightarrow> unit res \<times> nat list \<times> fast" where
  "wait_all nw [] f = (Inr (), [], f)"
| "wait_all nw (h # hs) f = (case completion_wait nw h f of (Inl e, f) \<Rightarrow> (Inl e, hs, f) | (Inr _, f) \<Rightarrow> wait_all nw hs f)"

definition close_prefetch :: "fast_native \<Rightarrow> prefetch \<Rightarrow> fast \<Rightarrow> unit res \<times> prefetch \<times> fast" where
  "close_prefetch nw p f = (if pf_closed p then (Inr (), p, f)
     else case wait_all nw (pf_pending p) f of
       (Inl e, hs, f) \<Rightarrow> (Inl e, p\<lparr>pf_closed := True, pf_pending := hs\<rparr>, f)
     | (Inr _, _, f) \<Rightarrow> (case wait_all nw (pf_consumed p) f of
         (r, hs, f) \<Rightarrow> (r, p\<lparr>pf_closed := True, pf_pending := [], pf_consumed := hs\<rparr>, f)))"

definition new_prefetch :: "fast_native \<Rightarrow> int \<Rightarrow> (group_member \<times> live) list res list \<Rightarrow> int \<Rightarrow> group_options \<Rightarrow> fast \<Rightarrow>
    unit res \<times> prefetch \<times> fast" where
  "new_prefetch nw pid groups slots go f = fill nw pid (min 1 slots) True
     \<lparr>pf_groups = Some groups, pf_slots = slots, pf_pending = [], pf_consumed = [], pf_closed = False, pf_options = go\<rparr> f"

text \<open>\<open>__next__\<close>: any wait for a slot comes before the next group is handed out.\<close>

definition next_group :: "fast_native \<Rightarrow> int \<Rightarrow> prefetch \<Rightarrow> fast \<Rightarrow> live list res \<times> prefetch \<times> fast" where
  "next_group nw pid p f = (if pf_closed p then (Inl stop_iteration, p, f)
     else case fill nw pid (pf_slots p) True p f of
       (Inl e, p, f) \<Rightarrow> (Inl e, p, f)
     | (Inr _, p, f) \<Rightarrow> (case pf_pending p of
         [] \<Rightarrow> (case close_prefetch nw p f of (Inl e, p, f) \<Rightarrow> (Inl e, p, f) | (Inr _, p, f) \<Rightarrow> (Inl stop_iteration, p, f))
       | h # hs \<Rightarrow> (case completion_wait_stream nw h None f of
           (Inl e, f) \<Rightarrow> (Inl e, p\<lparr>pf_pending := hs\<rparr>, f)
         | (Inr outs, f) \<Rightarrow> (case fill nw pid (pf_slots p) False (p\<lparr>pf_pending := hs, pf_consumed := pf_consumed p @ [h]\<rparr>) f of
             (Inl e, p, f) \<Rightarrow> (Inl e, p, f) | (Inr _, p, f) \<Rightarrow> (Inr outs, p, f)))))"

end
