(* ===== verification/Fast_Owner.thy ===== *)
theory Fast_Owner
  imports Fast
begin

text \<open>
  What the operations of a \<open>FastTransfers\<close> keep: groups once submitted, the bound on groups in flight, the accounts,
  and the groups a stream waits for.
\<close>

section \<open>Native calls and frames\<close>

lemma keeps_ask [keep_intros]: "(\<And>s. P s \<Longrightarrow> P (s\<lparr>ff_clock := Suc (ff_clock s)\<rparr>)) \<Longrightarrow> keeps P (ask f)"
  by (simp add: keeps_def ask_def)

lemma keeps_current_stream [keep_intros]: "keeps P (current_stream nw)"
  by (simp add: current_stream_def keep_intros)

lemma keeps_check_open [keep_intros]: "keeps P (check_open pid)"
  by (auto simp: check_open_def intro!: keep_intros)

lemma keeps_outputs_of [keep_intros]: "keeps P (outputs_of h)"
  by (simp add: outputs_of_def keep_intros)

named_theorems fast_defs "operations of the owner, unfolded"

lemmas [fast_defs] = completion_done_def host_wait_def record_outputs_def completion_wait_def retain_def retire_def
  completion_wait_stream_def allocate_def member_output_def launch_group_def submit_group_def submit_native_def
  run_request_def execute_typed_def execute_layout_def

text \<open>A predicate of the state that no operation on completions can break, if it ignores the parts they change.\<close>

definition ignores :: "(fast \<Rightarrow> bool) \<Rightarrow> bool" where
  "ignores P \<longleftrightarrow> (\<forall>s t. P s \<longrightarrow> P (s\<lparr>ff_clock := t\<rparr>)) \<and> (\<forall>s c. P s \<longrightarrow> P (s\<lparr>ff_consumers := c\<rparr>))"

lemma ignoresD: "ignores P \<Longrightarrow> P s \<Longrightarrow> P (s\<lparr>ff_clock := t\<rparr>)" "ignores P \<Longrightarrow> P s \<Longrightarrow> P (s\<lparr>ff_consumers := c\<rparr>)"
  by (simp_all add: ignores_def)

text \<open>One rule per operation on completions: what finishing keeps, they keep.\<close>

lemma keeps_completion_done:
  assumes "ignores P" and "\<And>s. P s \<Longrightarrow> \<not> is_done h s \<Longrightarrow> P (finish_group nw h s)"
  shows "keeps P (completion_done nw h)"
  using assms unfolding keeps_def completion_done_def
  by (auto simp: action_defs ask_def is_done_def ignoresD split: prod.splits sum.splits)

lemma keeps_host_wait:
  assumes "ignores P" and "\<And>s. P s \<Longrightarrow> \<not> is_done h s \<Longrightarrow> P (finish_group nw h s)"
  shows "keeps P (host_wait nw h)"
  using assms unfolding keeps_def host_wait_def
  by (auto simp: action_defs ask_def is_done_def ignoresD split: prod.splits sum.splits)

lemma keeps_record_outputs: "ignores P \<Longrightarrow> keeps P (record_outputs nw h stream)"
  unfolding record_outputs_def by (intro keep_intros) (simp add: ignoresD)

lemma keeps_completion_wait:
  assumes "ignores P" and "\<And>s. P s \<Longrightarrow> \<not> is_done h s \<Longrightarrow> P (finish_group nw h s)"
  shows "keeps P (completion_wait nw h)"
  unfolding completion_wait_def by (intro keep_intros keeps_host_wait keeps_record_outputs assms)

lemma keeps_drop_finished:
  assumes "ignores P" and "\<And>h s. h \<in> set hs \<Longrightarrow> P s \<Longrightarrow> \<not> is_done h s \<Longrightarrow> P (finish_group nw h s)"
    and "\<And>bs s. set bs \<subseteq> set hs \<Longrightarrow> length bs \<le> length hs \<Longrightarrow> P s \<Longrightarrow> P (set_inflight bs s)"
  shows "keeps P (drop_finished nw hs)"
  using assms(2,3)
proof (induction hs)
  case (Cons h hs)
  have "keeps P (drop_finished nw hs)" by (rule Cons.IH) (use Cons.prems in \<open>auto simp: subset_insertI2 le_SucI\<close>)
  then show ?case
    by (auto intro!: keep_intros keeps_completion_done assms(1) Cons.prems)
qed (simp add: keep_intros)

lemma keeps_make_slot:
  assumes "ignores P" and "\<And>h s. h \<in> set hs \<Longrightarrow> P s \<Longrightarrow> \<not> is_done h s \<Longrightarrow> P (finish_group nw h s)"
    and "\<And>bs s. set bs \<subseteq> set hs \<Longrightarrow> length bs \<le> length hs \<Longrightarrow> P s \<Longrightarrow> P (set_inflight bs s)"
  shows "keeps P (make_slot nw limit hs)"
  using assms(2,3)
proof (induction hs)
  case (Cons h hs)
  have "keeps P (make_slot nw limit hs)" by (rule Cons.IH) (use Cons.prems in \<open>auto simp: subset_insertI2 le_SucI\<close>)
  then show ?case
    by (auto intro!: keep_intros keeps_completion_wait assms(1) Cons.prems)
qed (simp add: keep_intros)

lemma keeps_retire_loop:
  assumes "ignores P" and "\<And>h s. h \<in> set hs \<Longrightarrow> P s \<Longrightarrow> \<not> is_done h s \<Longrightarrow> P (finish_group nw h s)"
    and "\<And>bs s. set bs \<subseteq> set hs \<Longrightarrow> length bs \<le> length hs \<Longrightarrow> P s \<Longrightarrow> P (set_inflight bs s)"
  shows "keeps P (retire_loop nw block hs)"
  using assms(2,3)
proof (induction hs)
  case (Cons h hs)
  have "keeps P (retire_loop nw block hs)" by (rule Cons.IH) (use Cons.prems in \<open>auto simp: subset_insertI2 le_SucI\<close>)
  then show ?case
    by (auto intro!: keep_intros keeps_completion_done keeps_completion_wait assms(1) Cons.prems)
qed (simp add: keep_intros)

section \<open>Submitted groups stay\<close>

definition same_group :: "fast_group \<Rightarrow> fast_group \<Rightarrow> bool" where
  "same_group a b \<longleftrightarrow> b = a\<lparr>fg_done := fg_done b\<rparr> \<and> (fg_done a \<longrightarrow> fg_done b)"

definition extends :: "fast \<Rightarrow> fast \<Rightarrow> bool" where
  "extends s t \<longleftrightarrow> length (ff_groups s) \<le> length (ff_groups t) \<and>
     (\<forall>h<length (ff_groups s). same_group (ff_groups s ! h) (ff_groups t ! h)) \<and> ff_max_inflight t = ff_max_inflight s"

lemma same_group_refl [simp]: "same_group a a"
  by (simp add: same_group_def)

lemma same_group_trans: "same_group a b \<Longrightarrow> same_group b c \<Longrightarrow> same_group a c"
  unfolding same_group_def by (cases a; cases b; cases c) auto

lemma owner_extends_refl [simp]: "extends s s"
  by (simp add: extends_def)

lemma owner_extends_trans: "extends s t \<Longrightarrow> extends t u \<Longrightarrow> extends s u"
  unfolding extends_def by (auto intro: same_group_trans)

lemma extends_fields:
  assumes "extends s t" and "h < length (ff_groups s)"
  shows "h < length (ff_groups t)" "fg_entries (ff_groups t ! h) = fg_entries (ff_groups s ! h)"
    "fg_sources (ff_groups t ! h) = fg_sources (ff_groups s ! h)" "fg_outputs (ff_groups t ! h) = fg_outputs (ff_groups s ! h)"
    "fg_host (ff_groups t ! h) = fg_host (ff_groups s ! h)" "is_done h s \<Longrightarrow> is_done h t"
proof -
  have "same_group (ff_groups s ! h) (ff_groups t ! h)" using assms by (simp add: extends_def)
  then have e: "ff_groups t ! h = (ff_groups s ! h)\<lparr>fg_done := fg_done (ff_groups t ! h)\<rparr>"
    and d: "fg_done (ff_groups s ! h) \<longrightarrow> fg_done (ff_groups t ! h)" by (simp_all add: same_group_def)
  show "h < length (ff_groups t)" using assms by (simp add: extends_def)
  show "is_done h s \<Longrightarrow> is_done h t" using d by (simp add: is_done_def)
  show "fg_entries (ff_groups t ! h) = fg_entries (ff_groups s ! h)" by (subst e) simp
  show "fg_sources (ff_groups t ! h) = fg_sources (ff_groups s ! h)" by (subst e) simp
  show "fg_outputs (ff_groups t ! h) = fg_outputs (ff_groups s ! h)" by (subst e) simp
  show "fg_host (ff_groups t ! h) = fg_host (ff_groups s ! h)" by (subst e) simp
qed

lemma same_group_done: "same_group a b \<Longrightarrow> same_group a (b\<lparr>fg_done := True\<rparr>)"
  unfolding same_group_def by (cases a; cases b) simp

lemma finished_groups:
  "k < length (ff_groups s) \<Longrightarrow>
     ff_groups (finish_group nw h s) ! k = (if k = h then (ff_groups s ! h)\<lparr>fg_done := True\<rparr> else ff_groups s ! k)"
  by (simp add: finish_group_def nth_list_update)

lemma extends_finish: "extends s t \<Longrightarrow> extends s (finish_group nw h t)"
  by (auto simp: extends_def finished_groups same_group_done) (simp_all add: finish_group_def)

lemma extends_ignores: "ignores (extends s)"
  by (simp add: ignores_def extends_def)

lemma extends_inflight [simp]: "extends s (set_inflight hs t) = extends s t"
  by (simp add: extends_def set_inflight_def)

lemma extends_totals [simp]: "extends s (t\<lparr>ff_totals := x\<rparr>) = extends s t" "extends s (t\<lparr>ff_clock := n\<rparr>) = extends s t"
  by (simp_all add: extends_def)

lemma extends_append: "extends s t \<Longrightarrow> extends s (t\<lparr>ff_groups := ff_groups t @ [g]\<rparr>)"
  by (auto simp: extends_def nth_append)

lemmas extends_keeps [keep_intros] =
  keeps_completion_done [OF extends_ignores extends_finish]
  keeps_host_wait [OF extends_ignores extends_finish]
  keeps_record_outputs [OF extends_ignores]
  keeps_completion_wait [OF extends_ignores extends_finish]
  keeps_drop_finished [OF extends_ignores extends_finish]
  keeps_make_slot [OF extends_ignores extends_finish]
  keeps_retire_loop [OF extends_ignores extends_finish]

lemma extends_retain [keep_intros]: "keeps (extends s) (retain nw h)"
  unfolding retain_def by (auto intro!: keep_intros)

lemma extends_retire [keep_intros]: "keeps (extends s) (retire nw block)"
  unfolding retire_def by (auto intro!: keep_intros)

lemma extends_wait_stream [keep_intros]: "keeps (extends s) (completion_wait_stream nw h stream)"
  unfolding completion_wait_stream_def by (auto simp: Let_def intro!: keep_intros)

section \<open>The bound and the accounts\<close>

definition done_groups :: "fast \<Rightarrow> nat set" where
  "done_groups s = {h. h < length (ff_groups s) \<and> is_done h s}"

text \<open>The totals are those of the blocking calls and of the groups the host saw finish.\<close>

definition accounted :: "fast_native \<Rightarrow> fast \<Rightarrow> bool" where
  "accounted nw s \<longleftrightarrow> ft_groups (ff_totals s) = int (card (done_groups s)) \<and>
     ft_logical_transfers (ff_totals s) = ft_calls (ff_totals s) + (\<Sum>h\<in>done_groups s. gr_logical_transfers (nw_report nw h)) \<and>
     total (ft_dispatches (ff_totals s)) = ft_calls (ff_totals s) + (\<Sum>h\<in>done_groups s. int (length (gr_items (nw_report nw h))))"

definition fast_ok :: "fast_native \<Rightarrow> fast \<Rightarrow> bool" where
  "fast_ok nw s \<longleftrightarrow> 0 < ff_max_inflight s \<and> length (ff_inflight s) \<le> ff_max_inflight s \<and>
     (\<forall>h\<in>set (ff_inflight s). h < length (ff_groups s)) \<and> od_ok (ft_dispatches (ff_totals s)) \<and> accounted nw s"

text \<open>The same with completions \<open>K\<close> that exist and the bound \<open>m\<close>.\<close>

definition fast_good :: "fast_native \<Rightarrow> nat set \<Rightarrow> nat \<Rightarrow> fast \<Rightarrow> bool" where
  "fast_good nw K m s \<longleftrightarrow> fast_ok nw s \<and> K \<subseteq> {..<length (ff_groups s)} \<and> ff_max_inflight s = m"

lemma record_items:
  "od_ok (ft_dispatches t) \<Longrightarrow> od_ok (ft_dispatches (fold record_fast_item is t)) \<and>
     total (ft_dispatches (fold record_fast_item is t)) = total (ft_dispatches t) + int (length is) \<and>
     ft_groups (fold record_fast_item is t) = ft_groups t \<and> ft_calls (fold record_fast_item is t) = ft_calls t \<and>
     ft_logical_transfers (fold record_fast_item is t) = ft_logical_transfers t"
proof (induction "is" arbitrary: t)
  case (Cons i "is")
  have "od_ok (ft_dispatches (record_fast_item i t))" using Cons.prems by (simp add: record_fast_item_def od_ok_bump)
  from Cons.IH [OF this] show ?case using Cons.prems by (simp add: record_fast_item_def total_bump)
qed simp

lemma done_groups_finish:
  "h < length (ff_groups s) \<Longrightarrow> done_groups (finish_group nw h s) = insert h (done_groups s)"
  by (auto simp: done_groups_def is_done_def finished_groups) (simp_all add: finish_group_def)

lemma done_groups_finite [simp]: "finite (done_groups s)"
  by (rule finite_subset [of _ "{..<length (ff_groups s)}"]) (auto simp: done_groups_def)

lemma finish_ok:
  assumes "fast_ok nw s" and "h < length (ff_groups s)" and "\<not> is_done h s"
  shows "fast_ok nw (finish_group nw h s)"
proof -
  have new: "h \<notin> done_groups s" using assms(3) by (simp add: done_groups_def)
  have d: "done_groups (finish_group nw h s) = insert h (done_groups s)" using assms(2) by (rule done_groups_finish)
  have ok: "od_ok (ft_dispatches (ff_totals s))" "accounted nw s" using assms(1) by (simp_all add: fast_ok_def)
  let ?t = "(ff_totals s)\<lparr>ft_groups := ft_groups (ff_totals s) + 1,
     ft_logical_transfers := ft_logical_transfers (ff_totals s) + gr_logical_transfers (nw_report nw h)\<rparr>"
  have t: "ff_totals (finish_group nw h s) = fold record_fast_item (gr_items (nw_report nw h)) ?t"
    by (simp add: finish_group_def record_group_def)
  have "od_ok (ft_dispatches ?t)" using ok by simp
  note r = record_items [OF this, of "gr_items (nw_report nw h)"]
  have "accounted nw (finish_group nw h s)" using ok(2) r new unfolding accounted_def t d by simp
  moreover have "od_ok (ft_dispatches (ff_totals (finish_group nw h s)))" using r unfolding t by simp
  ultimately show ?thesis using assms(1) by (simp add: fast_ok_def) (simp add: finish_group_def)
qed

lemma fast_good_ignores: "ignores (fast_good nw K m)"
  by (simp add: ignores_def fast_good_def fast_ok_def accounted_def done_groups_def is_done_def)

lemma fast_good_finish: "h \<in> K \<Longrightarrow> fast_good nw K m s \<Longrightarrow> \<not> is_done h s \<Longrightarrow> fast_good nw K m (finish_group nw h s)"
  using finish_ok [of nw s h] by (auto simp: fast_good_def) (auto simp: finish_group_def)

lemma fast_good_inflight:
  "set hs \<subseteq> K \<Longrightarrow> length hs \<le> m \<Longrightarrow> fast_good nw K m s \<Longrightarrow> fast_good nw K m (set_inflight hs s)"
  by (auto simp: fast_good_def fast_ok_def accounted_def done_groups_def is_done_def set_inflight_def)

lemmas fast_good_keeps =
  keeps_completion_done [OF fast_good_ignores fast_good_finish]
  keeps_host_wait [OF fast_good_ignores fast_good_finish]
  keeps_completion_wait [OF fast_good_ignores fast_good_finish]

lemma fast_good_loops:
  assumes "set hs \<subseteq> K" and "length hs \<le> m"
  shows "keeps (fast_good nw K m) (drop_finished nw hs)" "keeps (fast_good nw K m) (make_slot nw limit hs)"
    "keeps (fast_good nw K m) (retire_loop nw block hs)"
proof -
  have f: "h \<in> set hs \<Longrightarrow> fast_good nw K m s \<Longrightarrow> \<not> is_done h s \<Longrightarrow> fast_good nw K m (finish_group nw h s)" for h s
    using assms(1) by (intro fast_good_finish) auto
  have i: "set bs \<subseteq> set hs \<Longrightarrow> length bs \<le> length hs \<Longrightarrow> fast_good nw K m s \<Longrightarrow> fast_good nw K m (set_inflight bs s)" for bs s
    using assms by (intro fast_good_inflight) auto
  show "keeps (fast_good nw K m) (drop_finished nw hs)" by (rule keeps_drop_finished [OF fast_good_ignores f i])
  show "keeps (fast_good nw K m) (make_slot nw limit hs)" by (rule keeps_make_slot [OF fast_good_ignores f i])
  show "keeps (fast_good nw K m) (retire_loop nw block hs)" by (rule keeps_retire_loop [OF fast_good_ignores f i])
qed

lemma fast_good_all: "fast_good nw K m s \<Longrightarrow> fast_good nw (K \<union> set (ff_inflight s)) m s \<and> length (ff_inflight s) \<le> m"
  by (auto simp: fast_good_def fast_ok_def)

lemma fast_good_mono: "fast_good nw K' m s \<Longrightarrow> K \<subseteq> K' \<Longrightarrow> fast_good nw K m s"
  by (auto simp: fast_good_def)

lemma loop_good:
  assumes "\<And>hs L. set hs \<subseteq> L \<Longrightarrow> length hs \<le> m \<Longrightarrow> keeps (fast_good nw L m) (loop hs)"
  shows "keeps (fast_good nw K m) (andthen (observe ff_inflight) loop)"
  unfolding keeps_def
proof (intro allI impI)
  fix s assume g: "fast_good nw K m s"
  from fast_good_all [OF g] have "fast_good nw (K \<union> set (ff_inflight s)) m (snd (loop (ff_inflight s) s))"
    using assms [of "ff_inflight s" "K \<union> set (ff_inflight s)"] by (simp add: keeps_def)
  then show "fast_good nw K m (snd (andthen (observe ff_inflight) loop s))"
    by (auto simp: andthen_def observe_def intro: fast_good_mono)
qed

lemma fast_good_retire [keep_intros]: "keeps (fast_good nw K m) (retire nw block)"
  unfolding retire_def by (rule loop_good) (rule fast_good_loops(3))

text \<open>A completion's own operations leave the queue of groups in flight as it is.\<close>

lemma same_inflight: "ignores (\<lambda>s. ff_inflight s = hs)"
  by (simp add: ignores_def)

lemma wait_same_inflight: "completion_wait nw h s = (r, s') \<Longrightarrow> ff_inflight s' = ff_inflight s"
  using keeps_completion_wait [OF same_inflight, of "ff_inflight s" h nw] by (force simp: keeps_def finish_group_def)

lemma done_same_inflight: "completion_done nw h s = (r, s') \<Longrightarrow> ff_inflight s' = ff_inflight s"
  using keeps_completion_done [OF same_inflight, of "ff_inflight s" h nw] by (force simp: keeps_def finish_group_def)

lemma make_slot_room:
  "make_slot nw limit hs s = (Inr u, s') \<Longrightarrow> ff_inflight s = hs \<Longrightarrow> length (ff_inflight s') < limit"
proof (induction hs arbitrary: s)
  case Nil
  then show ?case by (simp add: give_def)
next
  case (Cons h hs)
  show ?case
  proof (cases "length (h # hs) < limit")
    case True
    then show ?thesis using Cons.prems by (simp add: give_def)
  next
    case False
    then obtain x t where "completion_wait nw h (set_inflight hs s) = (Inr x, t)" "make_slot nw limit hs t = (Inr u, s')"
      using Cons.prems by (auto simp: andthen_Inr update_def)
    with wait_same_inflight Cons.IH [of t] show ?thesis by (fastforce simp: set_inflight_def)
  qed
qed

lemma fast_good_append:
  "fast_good nw K m s \<Longrightarrow> length (ff_inflight s) < m \<Longrightarrow> h \<in> K \<Longrightarrow> fast_good nw K m (set_inflight (ff_inflight s @ [h]) s)"
  by (auto simp: fast_good_def fast_ok_def accounted_def done_groups_def is_done_def set_inflight_def)

lemma fast_good_retain [keep_intros]:
  assumes "h \<in> K"
  shows "keeps (fast_good nw K m) (retain nw h)"
  unfolding keeps_def
proof (intro allI impI)
  fix s assume g: "fast_good nw K m s"
  obtain r1 s1 where d: "andthen (observe ff_inflight) (drop_finished nw) s = (r1, s1)" by fastforce
  have g1: "fast_good nw K m s1"
    by (rule action_keepsD [OF loop_good [OF fast_good_loops(1)] g d])
  obtain r2 s2 where p: "make_slot nw m (ff_inflight s1) s1 = (r2, s2)" by fastforce
  have "keeps (fast_good nw (K \<union> set (ff_inflight s1)) m) (make_slot nw m (ff_inflight s1))"
    using fast_good_all [OF g1] by (intro fast_good_loops(2)) auto
  then have g2: "fast_good nw K m s2" using fast_good_all [OF g1] p by (auto elim: action_keepsD intro: fast_good_mono)
  have m: "ff_max_inflight s1 = m" using g1 by (simp add: fast_good_def)
  have e: "drop_finished nw (ff_inflight s) s = (r1, s1)" using d by (simp add: andthen_def observe_def)
  show "fast_good nw K m (snd (retain nw h s))"
  proof (cases r1)
    case (Inl x)
    then show ?thesis using e g1 by (simp add: retain_def andthen_def observe_def)
  next
    case r1: (Inr x)
    show ?thesis
    proof (cases r2)
      case (Inl y)
      then show ?thesis using e p g2 r1 m by (simp add: retain_def andthen_def observe_def)
    next
      case (Inr y)
      then have "length (ff_inflight s2) < m" using make_slot_room p by blast
      then show ?thesis using fast_good_append [OF g2 _ assms] e p Inr r1 m by (simp add: retain_def andthen_def observe_def update_def)
    qed
  qed
qed

lemma fast_good_record [keep_intros]: "keeps (fast_good nw K m) (record_outputs nw h stream)"
  by (rule keeps_record_outputs [OF fast_good_ignores])

lemma fast_good_ask [keep_intros]: "keeps (fast_good nw K m) (ask f)"
  by (rule keeps_ask) (rule ignoresD(1) [OF fast_good_ignores])

lemma fast_good_wait_stream:
  "h \<in> K \<Longrightarrow> keeps (fast_good nw K m) (completion_wait_stream nw h stream)"
  unfolding completion_wait_stream_def by (auto simp: Let_def intro!: keep_intros fast_good_keeps)

lemma fast_good_new_group: "fast_good nw K m s \<Longrightarrow> \<not> fg_done g \<Longrightarrow> fast_good nw K m (s\<lparr>ff_groups := ff_groups s @ [g]\<rparr>)"
proof -
  assume g: "fast_good nw K m s" "\<not> fg_done g"
  have "done_groups (s\<lparr>ff_groups := ff_groups s @ [g]\<rparr>) = done_groups s"
    using g(2) by (auto simp: done_groups_def is_done_def nth_append less_Suc_eq)
  then show ?thesis using g(1) by (auto simp: fast_good_def fast_ok_def accounted_def)
qed

lemma fast_good_give_check [keep_intros]: "keeps (fast_good nw K m) (check_open pid)"
  by (rule keeps_check_open)

lemma fast_good_collect [keep_intros]: "keeps (fast_good nw K m) (collect nw pin outputs position items)"
proof (induction nw pin outputs position items rule: collect.induct)
  case (2 nw pin outputs position mem src items)
  then show ?case by (auto simp: member_output_def allocate_def intro!: keep_intros split: option.splits group_member.splits)
qed (simp add: keep_intros)

lemma launch_group_cases:
  assumes "launch_group nw pid go entries sources outs extra host s = (r, s')"
  obtains "r = Inr (length (ff_groups s))" and "s' = s\<lparr>ff_clock := Suc (ff_clock s),
      ff_groups := ff_groups s @ [new_group s go entries sources outs extra host (nw_current_stream nw (ff_clock s))]\<rparr>"
  | e where "r = Inl e" and "s' = s \<or> s' = s\<lparr>ff_clock := Suc (ff_clock s)\<rparr>"
proof -
  let ?g = "new_group s go entries sources outs extra host (nw_current_stream nw (ff_clock s))"
  let ?q = "failing group_failed (nw_submit nw (ff_clock s) ?g)"
  have eq: "launch_group nw pid go entries sources outs extra host s = (if pid \<noteq> rs_pid (ff_resources s) then (Inl process_mismatch, s)
      else case ?q of Inl e \<Rightarrow> (Inl e, s\<lparr>ff_clock := Suc (ff_clock s)\<rparr>)
      | Inr _ \<Rightarrow> (Inr (length (ff_groups s)), s\<lparr>ff_clock := Suc (ff_clock s), ff_groups := ff_groups s @ [?g]\<rparr>))"
    unfolding launch_group_def by (simp add: action_defs current_stream_def ask_def split: sum.split)
  show ?thesis
  proof (cases "pid = rs_pid (ff_resources s)")
    case False
    then have "r = Inl process_mismatch" "s' = s" using eq assms by simp_all
    then show ?thesis by (intro that(2)) simp_all
  next
    case True
    note e = eq [unfolded assms, simplified True, simplified]
    show ?thesis
    proof (cases ?q)
      case (Inl x)
      then show ?thesis using e by (intro that(2) [of x]) simp_all
    next
      case (Inr x)
      then show ?thesis using e by (intro that(1)) simp_all
    qed
  qed
qed

lemma new_group_pending [simp]: "\<not> fg_done (new_group s go entries sources outs extra host current)"
  by (simp add: new_group_def)

lemma fast_good_launch [keep_intros]: "keeps (fast_good nw K m) (launch_group nw pid go entries sources outs extra host)"
  unfolding keeps_def
proof (intro allI impI)
  fix s assume g: "fast_good nw K m s"
  obtain r s' where run: "launch_group nw pid go entries sources outs extra host s = (r, s')" by fastforce
  from run show "fast_good nw K m (snd (launch_group nw pid go entries sources outs extra host s))"
  proof (cases rule: launch_group_cases)
    case 1
    from fast_good_new_group [OF ignoresD(1) [OF fast_good_ignores g] new_group_pending] show ?thesis by (simp add: run 1(2))
  next
    case (2 e)
    then show ?thesis using g ignoresD(1) [OF fast_good_ignores g] by (auto simp: run)
  qed
qed

lemma fast_good_submit [keep_intros]: "keeps (fast_good nw K m) (submit_group nw pid items outputs extra go)"
  unfolding submit_group_def by (auto intro!: keep_intros)

lemma fast_good_totals:
  "fast_good nw K m s \<Longrightarrow> fast_good nw K m (s\<lparr>ff_totals := record_call r (ff_totals s)\<rparr>)"
  by (auto simp: fast_good_def fast_ok_def accounted_def done_groups_def is_done_def record_call_def total_bump od_ok_bump)

lemma fast_good_execute [keep_intros]: "keeps (fast_good nw K m) (execute_typed nw pid p src out)"
  unfolding execute_typed_def run_request_def allocate_def
  by (auto intro!: keep_intros fast_good_totals split: option.splits)

end
