(* ===== verification/Fast_Runs.thy ===== *)
theory Fast_Runs
  imports Fast_Owner
begin

text \<open>
  Runs of a \<open>FastTransfers\<close>: groups a stream waits for stay with their owner, a submission is all or nothing, and
  sequences of calls keep the owner's invariant.
\<close>

section \<open>Groups a stream waits for\<close>

text \<open>The host saw the group end, or the owner still holds it.\<close>

definition tracked :: "nat \<Rightarrow> fast \<Rightarrow> bool" where
  "tracked h s \<longleftrightarrow> h < length (ff_groups s) \<and> (is_done h s \<or> h \<in> set (ff_inflight s))"

definition tracks :: "fast \<Rightarrow> fast \<Rightarrow> bool" where
  "tracks s t \<longleftrightarrow> extends s t \<and> (\<forall>h. tracked h s \<longrightarrow> tracked h t)"

lemma tracks_refl [simp]: "tracks s s"
  by (simp add: tracks_def)

lemma tracks_trans: "tracks s t \<Longrightarrow> tracks t u \<Longrightarrow> tracks s u"
  unfolding tracks_def using owner_extends_trans by blast

lemma tracks_same_inflight: "extends s t \<Longrightarrow> ff_inflight t = ff_inflight s \<Longrightarrow> tracks s t"
  by (auto simp: tracks_def tracked_def dest: extends_fields(1) extends_fields(6))

lemma wait_extends: "completion_wait nw h s = (r, t) \<Longrightarrow> extends s t"
  using action_keepsD [of "extends s" "completion_wait nw h" s r t] by (simp add: keep_intros)

lemma host_wait_extends: "host_wait nw h s = (r, t) \<Longrightarrow> extends s t"
  using action_keepsD [of "extends s" "host_wait nw h" s r t] by (simp add: keep_intros)

lemma done_extends: "completion_done nw h s = (r, t) \<Longrightarrow> extends s t"
  using action_keepsD [of "extends s" "completion_done nw h" s r t] by (simp add: keep_intros)

lemma finish_is_done: "h < length (ff_groups s) \<Longrightarrow> is_done h (finish_group nw h s)"
  by (simp add: is_done_def finished_groups)

lemma completion_done_True: "completion_done nw h s = (Inr True, t) \<Longrightarrow> h < length (ff_groups s) \<Longrightarrow> is_done h t"
  unfolding completion_done_def
  by (auto simp: action_defs ask_def intro!: finish_is_done split: sum.splits if_splits)

lemma host_wait_done: "host_wait nw h s = (Inr u, t) \<Longrightarrow> h < length (ff_groups s) \<Longrightarrow> is_done h t"
  unfolding host_wait_def
  by (auto simp: action_defs ask_def intro!: finish_is_done split: sum.splits if_splits)

lemma completion_wait_done:
  assumes "completion_wait nw h s = (Inr outs, t)" and "h < length (ff_groups s)"
  shows "is_done h t" and "outs = fg_outputs (ff_groups s ! h)"
proof -
  from assms(1) obtain u s1 where w: "host_wait nw h s = (Inr u, s1)"
    and t: "t = s1\<lparr>ff_consumers := ff_consumers t\<rparr>" and o: "outs = fg_outputs (ff_groups s1 ! h)"
    unfolding completion_wait_def record_outputs_def outputs_of_def
    by (auto simp: action_defs current_stream_def split: sum.splits prod.splits)
  have "is_done h s1" by (rule host_wait_done [OF w assms(2)])
  then show "is_done h t" by (subst t) (simp add: is_done_def)
  have "extends s s1" by (rule host_wait_extends [OF w])
  then show "outs = fg_outputs (ff_groups s ! h)" using extends_fields(4) assms(2) o by simp
qed

text \<open>What leaves the queue on the left is done.\<close>

lemma tracks_pop:
  assumes "extends s t" and "ff_inflight s = h # hs" and "ff_inflight t = hs" and "h < length (ff_groups s) \<Longrightarrow> is_done h t"
  shows "tracks s t"
proof -
  have "tracked k t" if "tracked k s" for k
    using that assms extends_fields(1,6) [OF assms(1)] unfolding tracked_def by (cases "k = h") auto
  with assms(1) show ?thesis by (simp add: tracks_def)
qed

lemma tracks_pop_wait:
  assumes "completion_wait nw h (set_inflight hs s) = (Inr x, t)" and "ff_inflight s = h # hs"
  shows "tracks s t" "ff_inflight t = hs"
proof -
  show i: "ff_inflight t = hs" using wait_same_inflight [OF assms(1)] by (simp add: set_inflight_def)
  have "extends (set_inflight hs s) t" by (rule wait_extends [OF assms(1)])
  then have "extends s t" by (simp add: extends_def set_inflight_def)
  then show "tracks s t" using completion_wait_done(1) [OF assms(1)] assms(2) i
    by (intro tracks_pop) (simp_all add: set_inflight_def)
qed

lemma tracks_drop_finished: "drop_finished nw hs s = (Inr u, t) \<Longrightarrow> ff_inflight s = hs \<Longrightarrow> tracks s t"
proof (induction hs arbitrary: s)
  case (Cons h hs)
  then obtain d s1 where c: "completion_done nw h s = (Inr d, s1)"
    and rest: "(if d then andthen (update (set_inflight hs)) (\<lambda>_. drop_finished nw hs) else give (Inr ())) s1 = (Inr u, t)"
    by (auto simp: andthen_Inr)
  have e: "extends s s1" by (rule done_extends [OF c])
  have i: "ff_inflight s1 = h # hs" using done_same_inflight [OF c] Cons.prems(2) by simp
  show ?case
  proof (cases d)
    case True
    then have "drop_finished nw hs (set_inflight hs s1) = (Inr u, t)" using rest by (simp add: andthen_def update_def)
    then have "tracks (set_inflight hs s1) t" by (rule Cons.IH) (simp add: set_inflight_def)
    moreover have "tracks s (set_inflight hs s1)"
      using e completion_done_True c Cons.prems(2) True
      by (intro tracks_pop) (auto simp: set_inflight_def is_done_def extends_def)
    ultimately show ?thesis by (rule tracks_trans [rotated])
  next
    case False
    then show ?thesis using rest tracks_same_inflight [OF e] i Cons.prems(2) by (simp add: give_def)
  qed
qed (simp add: give_def)

lemma tracks_make_slot: "make_slot nw limit hs s = (Inr u, t) \<Longrightarrow> ff_inflight s = hs \<Longrightarrow> tracks s t"
proof (induction hs arbitrary: s)
  case (Cons h hs)
  show ?case
  proof (cases "length (h # hs) < limit")
    case False
    then obtain x s1 where "completion_wait nw h (set_inflight hs s) = (Inr x, s1)" "make_slot nw limit hs s1 = (Inr u, t)"
      using Cons.prems by (auto simp: andthen_Inr update_def)
    with tracks_pop_wait Cons show ?thesis by (blast intro: tracks_trans)
  qed (use Cons.prems in \<open>simp add: give_def\<close>)
qed (simp add: give_def)

lemma tracks_retire_loop: "retire_loop nw block hs s = (Inr u, t) \<Longrightarrow> ff_inflight s = hs \<Longrightarrow> tracks s t"
proof (induction hs arbitrary: s)
  case (Cons h hs)
  then obtain d s1 where c: "(if block then give (Inr True) else completion_done nw h) s = (Inr d, s1)"
    and rest: "(if d then andthen (update (set_inflight hs)) (\<lambda>_. andthen (completion_wait nw h) (\<lambda>_. retire_loop nw block hs))
      else give (Inr ())) s1 = (Inr u, t)" by (auto simp: andthen_Inr)
  have e: "extends s s1" using done_extends c by (auto simp: give_def split: if_splits)
  have i: "ff_inflight s1 = h # hs" using done_same_inflight c Cons.prems(2) by (force simp: give_def split: if_splits)
  have s1: "tracks s s1" using e i Cons.prems(2) by (intro tracks_same_inflight) simp_all
  show ?case
  proof (cases d)
    case True
    then obtain x s2 where "completion_wait nw h (set_inflight hs s1) = (Inr x, s2)" "retire_loop nw block hs s2 = (Inr u, t)"
      using rest by (auto simp: andthen_Inr update_def)
    with tracks_pop_wait [OF _ i] Cons.IH s1 show ?thesis by (blast intro: tracks_trans)
  qed (use rest s1 in \<open>simp add: give_def\<close>)
qed (simp add: give_def)

lemma tracks_retire: "retire nw block s = (Inr u, t) \<Longrightarrow> tracks s t"
  unfolding retire_def by (auto simp: andthen_Inr observe_def intro: tracks_retire_loop)

lemma tracks_retain:
  assumes "retain nw h s = (Inr u, t)" and "h < length (ff_groups s)"
  shows "tracks s t \<and> tracked h t"
proof -
  from assms(1) obtain s1 s2 where "drop_finished nw (ff_inflight s) s = (Inr (), s1)"
    and "make_slot nw (ff_max_inflight s1) (ff_inflight s1) s1 = (Inr (), s2)" and t: "t = set_inflight (ff_inflight s2 @ [h]) s2"
    unfolding retain_def by (auto simp: andthen_Inr observe_def update_def)
  then have tr: "tracks s s2" by (blast intro: tracks_trans tracks_drop_finished tracks_make_slot)
  have "tracks s2 t" unfolding t by (auto simp: tracks_def tracked_def set_inflight_def is_done_def extends_def)
  moreover have "h < length (ff_groups t)" using tr assms(2) extends_fields(1) by (auto simp: t tracks_def set_inflight_def)
  then have "tracked h t" unfolding tracked_def by (simp add: t set_inflight_def)
  ultimately show ?thesis using tracks_trans [OF tr] by blast
qed

lemma record_and_return:
  assumes "andthen (record_outputs nw h stream) (\<lambda>_. outputs_of h) s = (Inr outs, t)"
  shows "t = s\<lparr>ff_consumers := ff_consumers t\<rparr>" "outs = fg_outputs (ff_groups s ! h)"
  using assms by (auto simp: record_outputs_def outputs_of_def action_defs current_stream_def)

lemma tracks_consumers: "t = s\<lparr>ff_consumers := c\<rparr> \<Longrightarrow> tracks s t \<and> (tracked h t \<longleftrightarrow> tracked h s)"
  by (simp add: tracks_def extends_def tracked_def is_done_def)

lemma wait_stream_tracks:
  assumes "completion_wait_stream nw h stream s = (Inr outs, t)" and "h < length (ff_groups s)"
  shows "tracks s t" "tracked h t" "outs = fg_outputs (ff_groups s ! h)" "fg_host (ff_groups s ! h) \<Longrightarrow> is_done h t"
proof -
  obtain s1 st where m: "tracks s s1" "tracked h s1" "fg_host (ff_groups s ! h) \<Longrightarrow> is_done h s1"
    and out: "andthen (record_outputs nw h st) (\<lambda>_. outputs_of h) s1 = (Inr outs, t)"
  proof (cases "fg_host (ff_groups s ! h)")
    case True
    then obtain s1 u where w: "host_wait nw h s = (Inr u, s1)"
      and out: "andthen (record_outputs nw h stream) (\<lambda>_. outputs_of h) s1 = (Inr outs, t)"
      using assms(1) unfolding completion_wait_stream_def by (auto simp: andthen_Inr [of "observe _"] andthen_Inr [of "host_wait _ _"] observe_def)
    have d: "is_done h s1" by (rule host_wait_done [OF w assms(2)])
    have i: "ff_inflight s1 = ff_inflight s"
      using keeps_host_wait [OF same_inflight, of "ff_inflight s" h nw] w by (force simp: keeps_def finish_group_def)
    have e: "extends s s1" by (rule host_wait_extends [OF w])
    show ?thesis using that [OF tracks_same_inflight [OF e i] _ _ out] d extends_fields(1) [OF e assms(2)] by (simp add: tracked_def)
  next
    case False
    let ?st = "case stream of Some x \<Rightarrow> x | None \<Rightarrow> nw_current_stream nw (ff_clock s)"
    obtain s1 where w: "(if is_done h s then give (Inr ())
        else andthen (ask (\<lambda>t. nw_wait_stream nw t h ?st)) (\<lambda>_. retain nw h)) s = (Inr (), s1)"
      and out: "andthen (record_outputs nw h (Some ?st)) (\<lambda>_. outputs_of h) s1 = (Inr outs, t)"
      using assms(1) False unfolding completion_wait_stream_def current_stream_def Let_def
      by (auto simp: andthen_Inr [of "observe _"] andthen_Inr [of "if _ then _ else _"] observe_def)
    have "tracks s s1 \<and> tracked h s1"
    proof (cases "is_done h s")
      case True
      then show ?thesis using w assms(2) by (simp add: give_def tracked_def)
    next
      case False
      then have "retain nw h (s\<lparr>ff_clock := Suc (ff_clock s)\<rparr>) = (Inr (), s1)" using w by (auto simp: andthen_Inr ask_def)
      from tracks_retain [OF this] assms(2) show ?thesis by (simp add: tracks_def tracked_def is_done_def extends_def)
    qed
    then show ?thesis using that [of s1 "Some ?st"] out False by blast
  qed
  note t = record_and_return(1) [OF out]
  show "tracks s t" "tracked h t" using tracks_trans [OF m(1)] m(2) tracks_consumers [OF t] by blast+
  show "outs = fg_outputs (ff_groups s ! h)"
    using record_and_return(2) [OF out] extends_fields(4) [of s s1] m(1) assms(2) by (simp add: tracks_def)
  show "is_done h t" if "fg_host (ff_groups s ! h)" using m(3) [OF that] by (subst t) (simp add: is_done_def)
qed

section \<open>Submissions\<close>

lemma same_count: "ignores (\<lambda>s. length (ff_groups s) = n)"
  by (simp add: ignores_def)

lemma keeps_count_retire: "keeps (\<lambda>s. length (ff_groups s) = n) (retire nw block)"
  unfolding retire_def keeps_def
  using keeps_retire_loop [OF same_count, of _ n nw block]
  by (simp add: andthen_def observe_def keeps_def finish_group_def set_inflight_def)

lemma tracks_open: "check_open pid s = (r, t) \<Longrightarrow> t = s"
  by (auto simp: check_open_def action_defs split: prod.splits)

lemma collect_clock: "keeps (\<lambda>t. t = s\<lparr>ff_clock := ff_clock t\<rparr>) (collect nw pin outputs position items)"
proof (induction nw pin outputs position items rule: collect.induct)
  case (2 nw pin outputs position mem src items)
  have "keeps (\<lambda>t. t = s\<lparr>ff_clock := ff_clock t\<rparr>) (member_output nw mem pin outputs position)"
    by (auto simp: member_output_def allocate_def ask_def keeps_def give_def split: option.splits group_member.splits) (metis fast.update_convs(17) fast.surjective)+
  with 2 show ?case by (auto intro!: keep_intros)
qed (simp add: keep_intros)

lemma collect_spec:
  "collect nw pin outputs position items s = (Inr (outs, entries), t) \<Longrightarrow>
     length outs = length items \<and> length entries = length items \<and>
     (\<forall>i<length items. check_member (fst (items ! i)) (snd (items ! i)) = Inr () \<and>
        entries ! i = member_entry (nw_views nw) (fst (items ! i)) (snd (items ! i)) (outs ! i) \<and>
        (case outputs of None \<Rightarrow> True | Some given \<Rightarrow> position + i < length given \<and> outs ! i = given ! (position + i)))"
proof (induction nw pin outputs position items arbitrary: s outs entries t rule: collect.induct)
  case (2 nw pin outputs position mem src items)
  then obtain out s1 s2 outs' entries' where c: "check_member mem src = Inr ()"
    and o: "member_output nw mem pin outputs position s1 = (Inr out, s2)"
    and rest: "collect nw pin outputs (Suc position) items s2 = (Inr (outs', entries'), t)"
    and eq: "outs = out # outs'" "entries = member_entry (nw_views nw) mem src out # entries'"
    by (auto simp: andthen_Inr give_def)
  have "case outputs of None \<Rightarrow> True | Some given \<Rightarrow> position < length given \<and> out = given ! position"
    using o by (auto simp: member_output_def give_def split: option.splits if_splits)
  with "2.IH" [OF rest] c show ?case unfolding eq
    by (auto simp: less_Suc_eq_0_disj split: option.splits)
qed (simp add: give_def)

text \<open>A submission is one native group for all its items, or nothing.\<close>

lemma submit_group_spec:
  assumes "submit_group nw pid items outputs extra go s = (r, t)"
  shows "case r of
      Inl e \<Rightarrow> length (ff_groups t) = length (ff_groups s)
    | Inr h \<Rightarrow> h = length (ff_groups s) \<and> length (ff_groups t) = Suc h \<and> \<not> is_done h t \<and>
        1 \<le> length items \<and> length items \<le> 256 \<and> fg_sources (ff_groups t ! h) = map snd items \<and>
        length (fg_entries (ff_groups t ! h)) = length items \<and> length (fg_outputs (ff_groups t ! h)) = length items \<and>
        (\<forall>i<length items. check_member (fst (items ! i)) (snd (items ! i)) = Inr () \<and>
          fg_entries (ff_groups t ! h) ! i =
            member_entry (nw_views nw) (fst (items ! i)) (snd (items ! i)) (fg_outputs (ff_groups t ! h) ! i)) \<and>
        (outputs \<noteq> None \<longrightarrow> (\<forall>i<length items. fg_outputs (ff_groups t ! h) ! i = the outputs ! i)) \<and>
        fg_host (ff_groups t ! h) = (\<exists>i\<in>set items. member_direction (fst i) = ''d2h'')"
proof -
  let ?n = "length (ff_groups s)"
  obtain r1 s1 where ret: "retire nw False s = (r1, s1)" by fastforce
  have n1: "length (ff_groups s1) = ?n" by (rule action_keepsD [OF keeps_count_retire _ ret]) simp
  obtain r2 s2 where col: "collect nw (go_pin_outputs go) outputs 0 items s1 = (r2, s2)" by fastforce
  have "s2 = s1\<lparr>ff_clock := ff_clock s2\<rparr>" by (rule action_keepsD [OF collect_clock _ col]) simp
  then have n2: "length (ff_groups s2) = ?n" using n1 by (metis fast.select_convs(15) fast.surjective fast.update_convs(17))
  obtain r0 where op: "check_open pid s = (r0, s)" using tracks_open by (metis surj_pair)
  let ?s3 = "s2\<lparr>ff_clock := Suc (ff_clock s2)\<rparr>"
  let ?host = "\<exists>i\<in>set items. member_direction (fst i) = ''d2h''"
  have eq: "submit_group nw pid items outputs extra go s = (case r0 of Inl e \<Rightarrow> (Inl e, s) | Inr _ \<Rightarrow> case r1 of Inl e \<Rightarrow> (Inl e, s1)
      | Inr _ \<Rightarrow> if \<not> (1 \<le> length items \<and> length items \<le> 256) then (Inl (ValueErr ''a group holds between 1 and 256 transfers''), s1)
      else case r2 of Inl e \<Rightarrow> (Inl e, s2) | Inr (outs, entries) \<Rightarrow> case failing group_failed (nw_prepare nw (ff_clock s2) entries) of
          Inl e \<Rightarrow> (Inl e, ?s3) | Inr _ \<Rightarrow> launch_group nw pid go entries (map snd items) outs extra ?host ?s3)"
    unfolding submit_group_def andthen_def op ret prod.case
    by (cases "1 \<le> length items \<and> length items \<le> 256") (auto simp: col give_def ask_def andthen_def ensure_def split: sum.split)
  consider e where "r = Inl e" "length (ff_groups t) = ?n"
    | outs entries where "r2 = Inr (outs, entries)" "1 \<le> length items" "length items \<le> 256"
      "launch_group nw pid go entries (map snd items) outs extra ?host ?s3 = (r, t)"
    using assms n1 n2 unfolding eq by (auto split: sum.splits if_splits prod.splits)
  then show ?thesis
  proof cases
    case 1
    then show ?thesis by simp
  next
    case 2
    note c = collect_spec [OF col [unfolded 2(1)]]
    from 2(4) show ?thesis
    proof (cases rule: launch_group_cases)
      case 1
      let ?h = "length (ff_groups s)"
      have g: "ff_groups t ! ?h = new_group ?s3 go entries (map snd items) outs extra ?host (nw_current_stream nw (ff_clock ?s3))"
        using n2 by (simp add: 1(2) nth_append)
      have "outputs \<noteq> None \<longrightarrow> (\<forall>i<length items. outs ! i = the outputs ! i)" using c by (auto split: option.splits)
      moreover have "length (ff_groups t) = Suc ?h" using n2 by (simp add: 1(2))
      moreover have "r = Inr ?h" using n2 by (simp add: 1(1))
      ultimately show ?thesis using c 2 by (simp add: g is_done_def) (simp add: new_group_def)
    next
      case (2 e)
      then show ?thesis using n2 by auto
    qed
  qed
qed

section \<open>Closing\<close>

lemma retire_all_empties: "retire_loop nw True hs s = (Inr u, t) \<Longrightarrow> ff_inflight s = hs \<Longrightarrow> ff_inflight t = []"
proof (induction hs arbitrary: s)
  case (Cons h hs)
  then obtain x s1 where "completion_wait nw h (set_inflight hs s) = (Inr x, s1)" "retire_loop nw True hs s1 = (Inr u, t)"
    by (auto simp: andthen_Inr update_def give_def)
  with Cons.IH wait_same_inflight show ?case by (fastforce simp: set_inflight_def)
qed (simp add: give_def)

lemma keeps_closed_retire: "keeps (\<lambda>s. ff_closed s \<and> ff_registrations s = [] \<and> ff_resources s = rs) (retire nw block)"
  unfolding retire_def keeps_def
  using keeps_retire_loop [of "\<lambda>s. ff_closed s \<and> ff_registrations s = [] \<and> ff_resources s = rs" _ nw block]
  by (simp add: andthen_def observe_def keeps_def finish_group_def set_inflight_def ignores_def)

lemma close_fast_spec:
  assumes "close_fast nw pid g s = (r, g', t)" and "\<not> ff_closed s"
  shows "ff_closed t" "ff_registrations t = []" "g' = fold (\<lambda>rn g. snd (release_registration rn g)) (ff_registrations s) g"
    "ff_resources t = snd (close_resources pid (ff_resources s))"
    "r = Inr u \<Longrightarrow> ff_inflight t = [] \<and> (\<forall>h\<in>set (ff_inflight s). h < length (ff_groups s) \<longrightarrow> is_done h t)"
proof -
  let ?s = "s\<lparr>ff_closed := True, ff_registrations := []\<rparr>"
  obtain d s1 where ret: "retire nw True ?s = (d, s1)" by fastforce
  have k: "ff_closed s1 \<and> ff_registrations s1 = [] \<and> ff_resources s1 = ff_resources s"
    by (rule action_keepsD [OF keeps_closed_retire _ ret]) simp
  obtain c rs where cl: "close_resources pid (ff_resources s) = (c, rs)" by fastforce
  have eq: "r = (case c of Inl e \<Rightarrow> Inl e | Inr _ \<Rightarrow> d)" "t = s1\<lparr>ff_resources := rs\<rparr>"
    "g' = fold (\<lambda>rn g. snd (release_registration rn g)) (ff_registrations s) g"
    using assms ret cl k by (auto simp: close_fast_def Let_def)
  show "ff_closed t" "ff_registrations t = []" "g' = fold (\<lambda>rn g. snd (release_registration rn g)) (ff_registrations s) g"
    "ff_resources t = snd (close_resources pid (ff_resources s))" using eq k cl by simp_all
  show "ff_inflight t = [] \<and> (\<forall>h\<in>set (ff_inflight s). h < length (ff_groups s) \<longrightarrow> is_done h t)" if "r = Inr u"
  proof -
    have d: "retire nw True ?s = (Inr (), s1)" using that eq(1) ret by (auto split: sum.splits)
    then have "ff_inflight s1 = []" unfolding retire_def by (auto simp: andthen_Inr observe_def intro: retire_all_empties)
    moreover have "tracks ?s s1" by (rule tracks_retire [OF d])
    ultimately have "is_done h s1" if "h \<in> set (ff_inflight s)" "h < length (ff_groups s)" for h
      using that by (auto simp: tracks_def tracked_def)
    then show ?thesis using \<open>ff_inflight s1 = []\<close> by (simp add: eq(2) is_done_def)
  qed
qed

text \<open>Registrations are gone from the registry after a close.\<close>

lemma released_handles:
  "fold (\<lambda>rn g. snd (release_registration rn g)) rs g = g' \<Longrightarrow> r \<in> set rs \<Longrightarrow> rn_live r \<Longrightarrow> map_of (rg_entries g') (rn_handle r) = None"
proof (induction rs arbitrary: g)
  case (Cons q rs)
  have keep: "map_of (rg_entries (fold (\<lambda>rn g. snd (release_registration rn g)) qs g)) h = None" if "map_of (rg_entries g) h = None" for qs h and g :: "'a registry"
    using that by (induction qs arbitrary: g) (auto simp: release_registration_def)
  show ?case
  proof (cases "r = q")
    case True
    then have "map_of (rg_entries (snd (release_registration q g))) (rn_handle r) = None"
      using Cons.prems(3) by (simp add: release_registration_def)
    then show ?thesis using keep Cons.prems(1) by auto
  next
    case False
    then show ?thesis using Cons by auto
  qed
qed simp

section \<open>Sequences of calls\<close>

text \<open>What a client does with an owner; a completion exists once its group was submitted.\<close>

datatype fast_call =
    Call_Submit "(group_member \<times> live) list" "live list option" "live list" group_options
  | Call_Wait nat
  | Call_Wait_Stream nat "string option"
  | Call_Done nat
  | Call_Execute fast_program live "live option"

definition on_completion :: "nat \<Rightarrow> 'a fast_action \<Rightarrow> unit fast_action" where
  "on_completion h m s = (if h < length (ff_groups s) then andthen m (\<lambda>_. give (Inr ())) s else (Inr (), s))"

fun run_call :: "fast_native \<Rightarrow> int \<Rightarrow> fast_call \<Rightarrow> unit fast_action" where
  "run_call nw pid (Call_Submit items outputs extra go) = andthen (submit_group nw pid items outputs extra go) (\<lambda>_. give (Inr ()))"
| "run_call nw pid (Call_Wait h) = on_completion h (completion_wait nw h)"
| "run_call nw pid (Call_Wait_Stream h stream) = on_completion h (completion_wait_stream nw h stream)"
| "run_call nw pid (Call_Done h) = on_completion h (completion_done nw h)"
| "run_call nw pid (Call_Execute p src out) = andthen (execute_typed nw pid p src out) (\<lambda>_. give (Inr ()))"

text \<open>A run in which calls may fail, and one in which each returns.\<close>

definition run_calls :: "fast_native \<Rightarrow> int \<Rightarrow> fast_call list \<Rightarrow> fast \<Rightarrow> fast" where
  "run_calls nw pid cs s = fold (\<lambda>c s. snd (run_call nw pid c s)) cs s"

lemma on_completion_good:
  assumes "\<And>K. h \<in> K \<Longrightarrow> keeps (fast_good nw K m) (act :: 'a fast_action)"
  shows "keeps (fast_good nw {} m) (on_completion h act)"
  unfolding keeps_def on_completion_def
proof (intro allI impI)
  fix s assume g: "fast_good nw {} m s"
  have k: "keeps (fast_good nw {h} m) (andthen act (\<lambda>_. give (Inr ())))" using assms by (intro keep_intros) auto
  show "fast_good nw {} m (snd (if h < length (ff_groups s) then andthen act (\<lambda>_. give (Inr ())) s else (Inr (), s)))"
  proof (cases "h < length (ff_groups s)")
    case True
    then have "fast_good nw {h} m s" using g by (simp add: fast_good_def)
    then have "fast_good nw {h} m (snd (andthen act (\<lambda>_. give (Inr ())) s))" using k by (simp add: keeps_def)
    then show ?thesis using True fast_good_mono [of nw "{h}" m _ "{}"] by simp
  qed (use g in simp)
qed

lemma run_call_good: "keeps (fast_good nw {} m) (run_call nw pid c)"
  by (cases c) (auto intro!: keep_intros on_completion_good fast_good_keeps fast_good_wait_stream)

lemma run_calls_good: "fast_good nw {} m s \<Longrightarrow> fast_good nw {} m (run_calls nw pid cs s)"
  unfolding run_calls_def using run_call_good by (induction cs arbitrary: s) (simp_all add: keeps_def)

lemma new_fast_good:
  assumes "new_fast cuda current pid d a = Inr s"
  shows "fast_good nw {} 8 s"
proof -
  from assms have "ff_inflight s = []" "ff_groups s = []" "ff_max_inflight s = 8"
    "ff_totals s = \<lparr>ft_calls = 0, ft_groups = 0, ft_logical_transfers = 0, ft_payload_bytes = 0, ft_dispatches = []\<rparr>"
    by (auto simp: new_fast_def Let_def split: if_splits)
  then show ?thesis by (simp add: fast_good_def fast_ok_def accounted_def done_groups_def total_def od_ok_def od_keys_def)
qed

section \<open>Groups held through a run\<close>

lemma tracks_append: "tracks s t \<Longrightarrow> tracks s (t\<lparr>ff_clock := n, ff_groups := ff_groups t @ [g]\<rparr>)"
proof -
  assume st: "tracks s t"
  have "tracks t (t\<lparr>ff_clock := n, ff_groups := ff_groups t @ [g]\<rparr>)"
    by (intro tracks_same_inflight) (simp_all add: extends_def nth_append)
  with st show ?thesis by (rule tracks_trans)
qed

lemma tracks_clock: "tracks s t \<Longrightarrow> tracks s (t\<lparr>ff_clock := n\<rparr>)"
  using tracks_trans [OF _ tracks_same_inflight] by (metis owner_extends_refl extends_totals(2) fast.select_convs(13) fast.surjective fast.update_convs(17))

lemma tracks_submit:
  assumes "submit_group nw pid items outputs extra go s = (Inr h, t)"
  shows "tracks s t"
proof -
  from assms obtain s1 s2 outs entries where ret: "retire nw False s = (Inr (), s1)"
    and col: "collect nw (go_pin_outputs go) outputs 0 items s1 = (Inr (outs, entries), s2)"
    and launch: "launch_group nw pid go entries (map snd items) outs extra (\<exists>i\<in>set items. member_direction (fst i) = ''d2h'')
      (s2\<lparr>ff_clock := Suc (ff_clock s2)\<rparr>) = (Inr h, t)"
    unfolding submit_group_def by (auto simp: andthen_Inr give_def ask_def dest: tracks_open)
  have "s2 = s1\<lparr>ff_clock := ff_clock s2\<rparr>" by (rule action_keepsD [OF collect_clock _ col]) simp
  then have s2: "tracks s s2" using tracks_clock [OF tracks_retire [OF ret]] by metis
  from launch show ?thesis
    by (cases rule: launch_group_cases) (use tracks_append [OF tracks_clock [OF s2]] in \<open>auto\<close>)
qed

lemma tracks_execute:
  assumes "execute_typed nw pid p src out s = (r, t)"
  shows "tracks s t"
proof -
  have "keeps (\<lambda>u. extends s u \<and> ff_inflight u = ff_inflight s) (execute_typed nw pid p src out)"
    unfolding execute_typed_def run_request_def allocate_def by (auto intro!: keep_intros split: option.splits)
  from action_keepsD [OF this _ assms] show ?thesis by (intro tracks_same_inflight) auto
qed

text \<open>A run in which every call returns.\<close>

fun calls_return :: "fast_native \<Rightarrow> int \<Rightarrow> fast_call list \<Rightarrow> fast \<Rightarrow> bool" where
  "calls_return nw pid [] s \<longleftrightarrow> True"
| "calls_return nw pid (c # cs) s \<longleftrightarrow> (case run_call nw pid c s of (Inl _, _) \<Rightarrow> False | (Inr _, t) \<Rightarrow> calls_return nw pid cs t)"

lemma run_call_tracks: "run_call nw pid c s = (Inr u, t) \<Longrightarrow> tracks s t"
proof (cases c)
  case (Call_Wait h)
  assume "run_call nw pid c s = (Inr u, t)"
  with Call_Wait show ?thesis using wait_extends wait_same_inflight tracks_same_inflight
    by (fastforce simp: on_completion_def andthen_Inr give_def split: if_splits)
next
  case (Call_Done h)
  assume "run_call nw pid c s = (Inr u, t)"
  with Call_Done show ?thesis using done_extends done_same_inflight tracks_same_inflight
    by (fastforce simp: on_completion_def andthen_Inr give_def split: if_splits)
qed (auto simp: on_completion_def andthen_Inr give_def dest: tracks_submit tracks_execute wait_stream_tracks(1) split: if_splits)

lemma calls_return_tracks: "calls_return nw pid cs s \<Longrightarrow> tracks s (run_calls nw pid cs s)"
proof (induction cs arbitrary: s)
  case (Cons c cs)
  then obtain u t where "run_call nw pid c s = (Inr u, t)" "calls_return nw pid cs t" by (auto split: prod.splits sum.splits)
  with Cons.IH [of t] show ?case unfolding run_calls_def using run_call_tracks tracks_trans by fastforce
qed (simp add: run_calls_def)

end
