(* ===== verification/Fast_Order.thy ===== *)
theory Fast_Order
  imports Fast_Window Fast_Runs
begin

text \<open>
  The window of \<open>FastPrefetch\<close>: never more groups than slots, handed out in the order of the iterable, none skipped.
\<close>

section \<open>A rule for the loop\<close>

text \<open>\<open>J\<close> holds between the steps of \<open>_fill\<close>, \<open>E\<close> when one of them raises.\<close>

lemma fill_rule:
  assumes drop: "\<And>p f d hs f'. J p f \<Longrightarrow> drop_consumed nw (pf_consumed p) f = (d, hs, f') \<Longrightarrow>
      (case d of Inl _ \<Rightarrow> E (p\<lparr>pf_consumed := hs\<rparr>) f' | Inr _ \<Rightarrow> J (p\<lparr>pf_consumed := hs\<rparr>) f')"
    and wait: "\<And>p f h hs q f'. J p f \<Longrightarrow> pf_consumed p = h # hs \<Longrightarrow> completion_wait nw h f = (q, f') \<Longrightarrow>
      (case q of Inl _ \<Rightarrow> E (p\<lparr>pf_consumed := hs\<rparr>) f' | Inr _ \<Rightarrow> J (p\<lparr>pf_consumed := hs\<rparr>) f')"
    and stop: "\<And>p f. J p f \<Longrightarrow> pf_groups p = Some [] \<Longrightarrow> J (p\<lparr>pf_groups := None\<rparr>) f"
    and gen: "\<And>p f e gs. J p f \<Longrightarrow> pf_groups p = Some (Inl e # gs) \<Longrightarrow> E (p\<lparr>pf_groups := Some []\<rparr>) f"
    and submit: "\<And>p f items gs q f'. J p f \<Longrightarrow> pf_groups p = Some (Inr items # gs) \<Longrightarrow>
      int (length (pf_pending p) + length (pf_consumed p)) < pf_slots p \<Longrightarrow>
      submit_group nw pid items None [] (pf_options p) f = (q, f') \<Longrightarrow>
      (case q of Inl _ \<Rightarrow> E (p\<lparr>pf_groups := Some gs\<rparr>) f'
       | Inr h \<Rightarrow> J (p\<lparr>pf_groups := Some gs, pf_pending := pf_pending p @ [h]\<rparr>) f')"
  shows "fill nw pid limit block p f = (r, p', f') \<Longrightarrow> J p f \<Longrightarrow> (case r of Inl _ \<Rightarrow> E p' f' | Inr _ \<Rightarrow> J p' f' \<and>
      (pf_groups p' = None \<or> limit \<le> int (length (pf_pending p')) \<or>
       pf_slots p' \<le> int (length (pf_pending p') + length (pf_consumed p')) \<and> (\<not> block \<or> pf_consumed p' = [])))"
proof (induction nw\<equiv>nw pid\<equiv>pid limit block p f rule: fill.induct)
  case (1 limit block p f)
  note run = "1.prems"(1) and J = "1.prems"(2)
  show ?case
  proof (cases "pf_groups p")
    case None
    with run J show ?thesis by (subst (asm) fill.simps) auto
  next
    case gs: (Some gs)
    show ?thesis
    proof (cases "limit \<le> int (length (pf_pending p))")
      case True
      with gs run J show ?thesis by (subst (asm) fill.simps) auto
    next
      case room: False
      obtain d hs f1 where d: "drop_consumed nw (pf_consumed p) f = (d, hs, f1)" by (metis surj_pair)
      let ?p = "p\<lparr>pf_consumed := hs\<rparr>"
      show ?thesis
      proof (cases d)
        case (Inl e)
        with gs room d run drop [OF J d] show ?thesis by (subst (asm) fill.simps) auto
      next
        case ok: (Inr u)
        have J1: "J ?p f1" using drop [OF J d] ok by simp
        show ?thesis
        proof (cases "pf_slots p \<le> int (length (pf_pending p) + length hs)")
          case full: True
          show ?thesis
          proof (cases "\<not> block \<or> hs = []")
            case True
            with gs room d ok full run J1 show ?thesis by (subst (asm) fill.simps) auto
          next
            case w: False
            obtain q f2 where q: "completion_wait nw (hd hs) f1 = (q, f2)" by fastforce
            have J2: "case q of Inl _ \<Rightarrow> E (p\<lparr>pf_consumed := tl hs\<rparr>) f2 | Inr _ \<Rightarrow> J (p\<lparr>pf_consumed := tl hs\<rparr>) f2"
              using wait [OF J1 _ q, of "tl hs"] w by (cases q) simp_all
            show ?thesis
            proof (cases q)
              case (Inl e)
              with gs room d ok full w q run J2 show ?thesis by (subst (asm) fill.simps) auto
            next
              case (Inr x)
              with gs room d ok full w q run have "fill nw pid limit block (p\<lparr>pf_consumed := tl hs\<rparr>) f2 = (r, p', f')"
                by (subst (asm) fill.simps) simp
              then show ?thesis using "1.hyps"(1) [OF gs room d [symmetric] ok refl full w q [symmetric] Inr] J2 Inr by simp
            qed
          qed
        next
          case free: False
          show ?thesis
          proof (cases gs)
            case Nil
            with gs room d ok free run stop [OF J1] show ?thesis by (subst (asm) fill.simps) auto
          next
            case (Cons g rest)
            show ?thesis
            proof (cases g)
              case (Inl e)
              with gs room d ok free Cons run gen [OF J1] show ?thesis by (subst (asm) fill.simps) auto
            next
              case items: (Inr items)
              obtain q f2 where q: "submit_group nw pid items None [] (pf_options p) f1 = (q, f2)" by fastforce
              have J2: "case q of Inl _ \<Rightarrow> E (?p\<lparr>pf_groups := Some rest\<rparr>) f2
                  | Inr h \<Rightarrow> J (?p\<lparr>pf_groups := Some rest, pf_pending := pf_pending p @ [h]\<rparr>) f2"
                using submit [OF J1 _ _ _, of items rest q f2] gs Cons items free q by (cases q) simp_all
              show ?thesis
              proof (cases q)
                case (Inl e)
                with gs room d ok free Cons items q run J2 show ?thesis by (subst (asm) fill.simps) auto
              next
                case (Inr h)
                have "fill nw pid limit block (?p\<lparr>pf_groups := Some rest, pf_pending := pf_pending p @ [h]\<rparr>) f2 = (r, p', f')"
                  using gs room d ok free Cons items q Inr run by (subst (asm) fill.simps) simp
                then show ?thesis using "1.hyps"(2) [OF gs room d [symmetric] ok refl free Cons items q [symmetric] Inr] J2 Inr by simp
              qed
            qed
          qed
        qed
      qed
    qed
  qed
qed

section \<open>The bound\<close>

definition window_bounded :: "int \<Rightarrow> prefetch \<Rightarrow> bool" where
  "window_bounded slots p \<longleftrightarrow> pf_slots p = slots \<and> int (length (pf_pending p) + length (pf_consumed p)) \<le> max 0 slots"

lemma fill_bounded:
  assumes run: "fill nw pid limit block p f = (r, p', f')" and b: "window_bounded slots p"
  shows "window_bounded slots p'"
proof -
  let ?W = "\<lambda>p (f :: fast). window_bounded slots p"
  have less: "?W p f \<Longrightarrow> length hs \<le> length (pf_consumed p) \<Longrightarrow> ?W (p\<lparr>pf_consumed := hs\<rparr>) g" for p f hs g
    by (simp add: window_bounded_def)
  have "case r of Inl _ \<Rightarrow> ?W p' f' | Inr _ \<Rightarrow> ?W p' f' \<and> (pf_groups p' = None \<or> limit \<le> int (length (pf_pending p')) \<or>
     pf_slots p' \<le> int (length (pf_pending p') + length (pf_consumed p')) \<and> (\<not> block \<or> pf_consumed p' = []))"
  proof (rule fill_rule [where J = ?W and E = ?W, OF _ _ _ _ _ run b])
    fix p f d hs f' assume "?W p f" "drop_consumed nw (pf_consumed p) f = (d, hs, f')"
    then show "case d of Inl _ \<Rightarrow> ?W (p\<lparr>pf_consumed := hs\<rparr>) f' | Inr _ \<Rightarrow> ?W (p\<lparr>pf_consumed := hs\<rparr>) f'"
      using less drop_consumed_length by (simp split: sum.split)
  next
    fix p f h hs and q :: "live list res" and f' assume "?W p f" "pf_consumed p = h # hs"
    then show "case q of Inl _ \<Rightarrow> ?W (p\<lparr>pf_consumed := hs\<rparr>) f' | Inr _ \<Rightarrow> ?W (p\<lparr>pf_consumed := hs\<rparr>) f'"
      using less by (simp split: sum.split)
  qed (simp_all add: window_bounded_def split: sum.split)
  then show ?thesis by (auto split: sum.splits)
qed

lemma wait_all_length: "wait_all nw hs f = (r, hs', f') \<Longrightarrow> length hs' \<le> length hs"
  by (induction hs arbitrary: f) (fastforce split: prod.splits sum.splits)+

lemma close_bounded: "close_prefetch nw p f = (r, p', f') \<Longrightarrow> window_bounded slots p \<Longrightarrow> window_bounded slots p'"
  by (auto simp: close_prefetch_def window_bounded_def dest!: wait_all_length split: if_splits prod.splits sum.splits)

lemma next_bounded:
  assumes "next_group nw pid p f = (r, p', f')" and "window_bounded slots p"
  shows "window_bounded slots p'"
proof (cases "pf_closed p")
  case True
  with assms show ?thesis by (simp add: next_group_def)
next
  case open_window: False
  obtain r1 p1 f1 where fl: "fill nw pid (pf_slots p) True p f = (r1, p1, f1)" by (metis surj_pair)
  have b1: "window_bounded slots p1" by (rule fill_bounded [OF fl assms(2)])
  show ?thesis
  proof (cases r1)
    case (Inl e)
    with assms(1) open_window fl b1 show ?thesis by (simp add: next_group_def)
  next
    case ok: (Inr u)
    show ?thesis
    proof (cases "pf_pending p1")
      case Nil
      with assms(1) open_window fl ok b1 close_bounded [of nw p1 f1] show ?thesis
        by (fastforce simp: next_group_def split: prod.splits sum.splits)
    next
      case (Cons h hs)
      obtain q f2 where w: "completion_wait_stream nw h None f1 = (q, f2)" by fastforce
      let ?p = "p1\<lparr>pf_pending := hs, pf_consumed := pf_consumed p1 @ [h]\<rparr>"
      have "window_bounded slots ?p" "window_bounded slots (p1\<lparr>pf_pending := hs\<rparr>)" using b1 Cons by (simp_all add: window_bounded_def)
      with assms(1) open_window fl ok Cons w fill_bounded [of nw pid "pf_slots p1" False ?p f2] show ?thesis
        by (fastforce simp: next_group_def split: prod.splits sum.splits)
    qed
  qed
qed

section \<open>The order\<close>

text \<open>
  The groups \<open>ids\<close> are the submissions for the first groups of the iterable, in order; \<open>k\<close> of them were handed out, the
  rest are pending, and those handed out are kept until the host saw them end.
\<close>

definition submitted_for :: "(group_member \<times> live) list res list \<Rightarrow> nat list \<Rightarrow> fast \<Rightarrow> bool" where
  "submitted_for gs ids f \<longleftrightarrow> length ids \<le> length gs \<and> sorted_wrt (<) ids \<and> (\<forall>i<length ids. ids ! i < length (ff_groups f) \<and>
     (\<exists>items. gs ! i = Inr items \<and> fg_sources (ff_groups f ! (ids ! i)) = map snd items))"

definition in_order :: "(group_member \<times> live) list res list \<Rightarrow> nat list \<Rightarrow> nat \<Rightarrow> prefetch \<Rightarrow> fast \<Rightarrow> bool" where
  "in_order gs ids k p f \<longleftrightarrow> submitted_for gs ids f \<and> k \<le> length ids \<and> pf_pending p = drop k ids \<and>
     (case pf_groups p of None \<Rightarrow> length ids = length gs | Some rest \<Rightarrow> rest = drop (length ids) gs) \<and>
     (\<forall>i<k. ids ! i \<in> set (pf_consumed p) \<or> is_done (ids ! i) f) \<and> (\<forall>h\<in>set (pf_consumed p). h < length (ff_groups f))"

lemma submitted_extends: "submitted_for gs ids f \<Longrightarrow> extends f f' \<Longrightarrow> submitted_for gs ids f'"
  unfolding submitted_for_def using extends_fields(1,3) by metis

lemma in_order_extends:
  assumes o: "in_order gs ids k p f" and e: "extends f f'"
  shows "in_order gs ids k p f'"
proof -
  have "submitted_for gs ids f'" using o submitted_extends [OF _ e] by (simp add: in_order_def)
  moreover have "ids ! i \<in> set (pf_consumed p) \<or> is_done (ids ! i) f'" if "i < k" for i
    using o that extends_fields(6) [OF e, of "ids ! i"] by (auto simp: in_order_def submitted_for_def)
  moreover have "\<forall>h\<in>set (pf_consumed p). h < length (ff_groups f')"
    using o extends_fields(1) [OF e] by (simp add: in_order_def)
  ultimately show ?thesis using o by (simp add: in_order_def)
qed

lemma in_order_drop:
  assumes "in_order gs ids k p f" and "extends f f'"
    and "\<forall>h\<in>set (pf_consumed p). h \<in> set hs \<or> is_done h f'" and "set hs \<subseteq> set (pf_consumed p)"
  shows "in_order gs ids k (p\<lparr>pf_consumed := hs\<rparr>) f'"
  using in_order_extends [OF assms(1,2)] assms(3,4) by (auto simp: in_order_def)

lemma drop_consumed_extends: "drop_consumed nw hs f = (r, hs', f') \<Longrightarrow> extends f f'"
proof (induction hs arbitrary: f)
  case (Cons h hs)
  obtain q s where q: "completion_done nw h f = (q, s)" by fastforce
  have "extends f s" by (rule done_extends [OF q])
  with Cons q show ?case by (auto intro: owner_extends_trans split: sum.splits if_splits)
qed simp

lemma drop_consumed_done:
  "drop_consumed nw hs f = (Inr u, hs', f') \<Longrightarrow> \<forall>h\<in>set hs. h < length (ff_groups f) \<Longrightarrow>
     (\<forall>h\<in>set hs. h \<in> set hs' \<or> is_done h f') \<and> set hs' \<subseteq> set hs"
proof (induction hs arbitrary: f)
  case (Cons h hs)
  obtain q s where q: "completion_done nw h f = (q, s)" by fastforce
  show ?case
  proof (cases "q = Inr True")
    case True
    have rest: "drop_consumed nw hs s = (Inr u, hs', f')" using Cons.prems(1) q True by simp
    have e: "extends f s" by (rule done_extends [OF q])
    have "is_done h s" using completion_done_True q True Cons.prems(2) by simp
    then have "is_done h f'" using drop_consumed_extends [OF rest] extends_fields(6) extends_fields(1) [OF e] Cons.prems(2) by simp
    moreover have "\<forall>h\<in>set hs. h < length (ff_groups s)" using extends_fields(1) [OF e] Cons.prems(2) by simp
    ultimately show ?thesis using Cons.IH [OF rest] by auto
  next
    case False
    with Cons.prems(1) q show ?thesis by (auto split: sum.splits if_splits)
  qed
qed simp

lemma sorted_snoc: "sorted_wrt (<) (ids :: nat list) \<Longrightarrow> \<forall>i<length ids. ids ! i < n \<Longrightarrow> sorted_wrt (<) (ids @ [n])"
  by (auto simp: sorted_wrt_append in_set_conv_nth)

lemma in_order_submit:
  assumes o: "in_order gs ids k p f" and g: "pf_groups p = Some (Inr items # rest)"
    and s: "submit_group nw pid items None [] (pf_options p) f = (Inr h, f')"
  shows "in_order gs (ids @ [h]) k (p\<lparr>pf_groups := Some rest, pf_pending := pf_pending p @ [h]\<rparr>) f'"
proof -
  have e: "extends f f'" using tracks_submit [OF s] by (simp add: tracks_def)
  have h: "h = length (ff_groups f)" "length (ff_groups f') = Suc h" "fg_sources (ff_groups f' ! h) = map snd items"
    using submit_group_spec [OF s] by auto
  have d: "drop (length ids) gs = Inr items # rest" using o g by (simp add: in_order_def)
  then have l: "length ids < length gs" "gs ! length ids = Inr items" "drop (Suc (length ids)) gs = rest"
    by (metis drop_all list.distinct(1) not_le, metis hd_drop_conv_nth list.sel(1) drop_all list.distinct(1) not_le,
        metis drop_Suc list.sel(3) tl_drop)
  have old: "submitted_for gs ids f'" using o submitted_extends [OF _ e] by (simp add: in_order_def)
  have "\<forall>i<length ids. ids ! i < h" using o h(1) by (simp add: in_order_def submitted_for_def)
  then have "sorted_wrt (<) (ids @ [h])" using old by (intro sorted_snoc) (simp_all add: submitted_for_def)
  then have "submitted_for gs (ids @ [h]) f'"
    using old h l by (auto simp: submitted_for_def nth_append less_Suc_eq)
  then show ?thesis using in_order_extends [OF o e] l by (auto simp: in_order_def nth_append)
qed

text \<open>A successful \<open>_fill\<close> keeps the order and stops for one of three reasons.\<close>

lemma fill_in_order:
  assumes run: "fill nw pid limit block p f = (Inr u, p', f')" and o: "in_order gs ids k p f"
  shows "\<exists>ids'. in_order gs ids' k p' f' \<and> take (length ids) ids' = ids \<and> extends f f' \<and>
    (pf_groups p' = None \<or> limit \<le> int (length (pf_pending p')) \<or>
     pf_slots p' \<le> int (length (pf_pending p') + length (pf_consumed p')) \<and> (\<not> block \<or> pf_consumed p' = []))"
proof -
  let ?J = "\<lambda>q g. \<exists>ids'. in_order gs ids' k q g \<and> take (length ids) ids' = ids \<and> extends f g"
  have J0: "?J p f" using o by (intro exI [of _ ids]) simp
  have "case (Inr u :: unit res) of Inl _ \<Rightarrow> True | Inr _ \<Rightarrow> ?J p' f' \<and> (pf_groups p' = None \<or> limit \<le> int (length (pf_pending p')) \<or>
     pf_slots p' \<le> int (length (pf_pending p') + length (pf_consumed p')) \<and> (\<not> block \<or> pf_consumed p' = []))"
  proof (rule fill_rule [where J = ?J and E = "\<lambda>_ _. True", OF _ _ _ _ _ run J0])
    fix q g d hs g' assume J: "?J q g" and d: "drop_consumed nw (pf_consumed q) g = (d, hs, g')"
    from J obtain ids' where i: "in_order gs ids' k q g" "take (length ids) ids' = ids" "extends f g" by blast
    note e = drop_consumed_extends [OF d]
    show "case d of Inl _ \<Rightarrow> True | Inr _ \<Rightarrow> ?J (q\<lparr>pf_consumed := hs\<rparr>) g'"
    proof (cases d)
      case (Inr x)
      have "\<forall>h\<in>set (pf_consumed q). h < length (ff_groups g)" using i(1) by (simp add: in_order_def)
      from drop_consumed_done [OF d [unfolded Inr] this] have "in_order gs ids' k (q\<lparr>pf_consumed := hs\<rparr>) g'"
        by (intro in_order_drop [OF i(1) e]) simp_all
      with i(2) owner_extends_trans [OF i(3) e] Inr show ?thesis by (auto intro: exI [of _ ids'])
    qed simp
  next
    fix q g h hs w g' assume J: "?J q g" and c: "pf_consumed q = h # hs" and w: "completion_wait nw h g = (w, g')"
    from J obtain ids' where i: "in_order gs ids' k q g" "take (length ids) ids' = ids" "extends f g" by blast
    note e = wait_extends [OF w]
    show "case w of Inl _ \<Rightarrow> True | Inr _ \<Rightarrow> ?J (q\<lparr>pf_consumed := hs\<rparr>) g'"
    proof (cases w)
      case (Inr x)
      have "h < length (ff_groups g)" using i(1) c by (simp add: in_order_def)
      from completion_wait_done(1) [OF w [unfolded Inr] this] have "in_order gs ids' k (q\<lparr>pf_consumed := hs\<rparr>) g'"
        using c by (intro in_order_drop [OF i(1) e]) auto
      with i(2) owner_extends_trans [OF i(3) e] Inr show ?thesis by (auto intro: exI [of _ ids'])
    qed simp
  next
    fix q g assume J: "?J q g" and n: "pf_groups q = Some []"
    from J obtain ids' where i: "in_order gs ids' k q g" "take (length ids) ids' = ids" "extends f g" by blast
    then have "in_order gs ids' k (q\<lparr>pf_groups := None\<rparr>) g" using n by (auto simp: in_order_def submitted_for_def)
    with i show "?J (q\<lparr>pf_groups := None\<rparr>) g" by blast
  next
    fix q g items rest w g' assume J: "?J q g" and n: "pf_groups q = Some (Inr items # rest)"
      and w: "submit_group nw pid items None [] (pf_options q) g = (w, g')"
    from J obtain ids' where i: "in_order gs ids' k q g" "take (length ids) ids' = ids" "extends f g" by blast
    show "case w of Inl _ \<Rightarrow> True | Inr h \<Rightarrow> ?J (q\<lparr>pf_groups := Some rest, pf_pending := pf_pending q @ [h]\<rparr>) g'"
    proof (cases w)
      case (Inr h)
      note w = w [unfolded Inr]
      have "extends g g'" using tracks_submit [OF w] by (simp add: tracks_def)
      then have e: "extends f g'" by (rule owner_extends_trans [OF i(3)])
      have "length ids \<le> length ids'" using arg_cong [OF i(2), of length] by simp
      then have "take (length ids) (ids' @ [h]) = ids" using i(2) by simp
      with in_order_submit [OF i(1) n w] e have "?J (q\<lparr>pf_groups := Some rest, pf_pending := pf_pending q @ [h]\<rparr>) g'" by blast
      then show ?thesis by (simp add: Inr)
    qed simp
  qed simp
  then show ?thesis by auto
qed

section \<open>The iterator\<close>

lemma next_in_order:
  assumes run: "next_group nw pid p f = (Inr outs, p', f')" and o: "in_order gs ids k p f"
  shows "\<exists>ids'. in_order gs ids' (Suc k) p' f' \<and> take k ids' = take k ids \<and> extends f f' \<and>
    outs = fg_outputs (ff_groups f' ! (ids' ! k))"
proof -
  have c: "\<not> pf_closed p" using run by (auto simp: next_group_def)
  obtain r1 p1 f1 where fl: "fill nw pid (pf_slots p) True p f = (r1, p1, f1)" by (metis surj_pair)
  have "r1 = Inr ()" using run c fl by (cases r1) (simp_all add: next_group_def)
  note fl = fl [unfolded this]
  from fill_in_order [OF fl o] obtain ids1 where o1: "in_order gs ids1 k p1 f1" "take (length ids) ids1 = ids" "extends f f1" by blast
  obtain h hs where pending: "pf_pending p1 = h # hs"
    using run c fl by (cases "pf_pending p1") (auto simp: next_group_def split: prod.splits sum.splits)
  let ?p = "p1\<lparr>pf_pending := hs, pf_consumed := pf_consumed p1 @ [h]\<rparr>"
  obtain f2 where w: "completion_wait_stream nw h None f1 = (Inr outs, f2)" and fl2: "fill nw pid (pf_slots p1) False ?p f2 = (Inr (), p', f')"
    using run c fl pending by (auto simp: next_group_def split: prod.splits sum.splits)
  have d: "drop k ids1 = h # hs" using o1(1) pending by (simp add: in_order_def)
  then have k: "k < length ids1" "ids1 ! k = h" "drop (Suc k) ids1 = hs"
    by (metis drop_all list.distinct(1) not_le, metis hd_drop_conv_nth list.sel(1) drop_all list.distinct(1) not_le,
        metis drop_Suc list.sel(3) tl_drop)
  have h: "h < length (ff_groups f1)" using o1(1) k by (auto simp: in_order_def submitted_for_def)
  note ws = wait_stream_tracks [OF w h]
  then have e2: "extends f1 f2" by (simp add: tracks_def)
  have "in_order gs ids1 (Suc k) ?p f2"
    using in_order_extends [OF o1(1) e2] k extends_fields(1) [OF e2 h] by (auto simp: in_order_def less_Suc_eq)
  from fill_in_order [OF fl2 this] obtain ids2 where o2: "in_order gs ids2 (Suc k) p' f'" "take (length ids1) ids2 = ids1" "extends f2 f'"
    by blast
  have "ids2 ! k = h" using o2(2) k by (metis nth_take)
  moreover have "outs = fg_outputs (ff_groups f' ! h)"
    using ws(3) extends_fields(4) [OF owner_extends_trans [OF e2 o2(3)] h] by simp
  moreover have "k \<le> length ids" using o by (simp add: in_order_def)
  then have "take k ids2 = take k ids" using o1(2) o2(2) k(1) by (metis less_imp_le min.absorb1 take_take)
  ultimately show ?thesis using o2(1) owner_extends_trans [OF o1(3) owner_extends_trans [OF e2 o2(3)]] by blast
qed

lemma fill_closed: "fill nw pid limit block p f = (r, p', f') \<Longrightarrow> \<not> pf_closed p \<Longrightarrow> \<not> pf_closed p' \<and> pf_slots p' = pf_slots p"
proof -
  assume run: "fill nw pid limit block p f = (r, p', f')" and c: "\<not> pf_closed p"
  let ?J = "\<lambda>q (g :: fast). \<not> pf_closed q \<and> pf_slots q = pf_slots p"
  have J0: "?J p f" using c by simp
  have "case r of Inl _ \<Rightarrow> ?J p' f' | Inr _ \<Rightarrow> ?J p' f' \<and> (pf_groups p' = None \<or> limit \<le> int (length (pf_pending p')) \<or>
     pf_slots p' \<le> int (length (pf_pending p') + length (pf_consumed p')) \<and> (\<not> block \<or> pf_consumed p' = []))"
    by (rule fill_rule [where J = ?J and E = ?J, OF _ _ _ _ _ run J0]) (simp_all split: sum.split)
  then show ?thesis by (auto split: sum.splits)
qed

lemma wait_all_done:
  "wait_all nw hs f = (Inr u, hs', f') \<Longrightarrow> \<forall>h\<in>set hs. h < length (ff_groups f) \<Longrightarrow> extends f f' \<and> (\<forall>h\<in>set hs. is_done h f')"
proof (induction hs arbitrary: f)
  case (Cons h hs)
  then obtain x s where w: "completion_wait nw h f = (Inr x, s)" and rest: "wait_all nw hs s = (Inr u, hs', f')"
    by (auto split: prod.splits sum.splits)
  note e = wait_extends [OF w]
  have all: "\<forall>h\<in>set hs. h < length (ff_groups s)" using Cons.prems(2) extends_fields(1) [OF e] by simp
  from Cons.IH [OF rest all] have r: "extends s f'" "\<forall>h\<in>set hs. is_done h f'" by simp_all
  have "is_done h s" using completion_wait_done(1) [OF w] Cons.prems(2) by simp
  then have "is_done h f'" using extends_fields(6) [OF r(1)] extends_fields(1) [OF e] Cons.prems(2) by simp
  then show ?case using owner_extends_trans [OF e r(1)] r(2) by simp
qed simp

lemma wait_all_raises: "wait_all nw hs f = (Inl e, hs', f') \<Longrightarrow> \<exists>t h. nw_wait nw t h = Inl e"
proof (induction hs arbitrary: f)
  case (Cons h hs)
  obtain q s where w: "completion_wait nw h f = (q, s)" by fastforce
  show ?case
  proof (cases q)
    case (Inl x)
    then have "completion_wait nw h f = (Inl e, s)" using Cons.prems w by simp
    then show ?thesis unfolding completion_wait_def host_wait_def record_outputs_def outputs_of_def current_stream_def
      by (auto simp: action_defs ask_def split: if_splits sum.splits prod.splits)
  next
    case (Inr x)
    with Cons w show ?thesis by simp
  qed
qed simp

text \<open>The iterator closes itself only when every group was handed out.\<close>

lemma next_ends:
  assumes run: "next_group nw pid p f = (r, p', f')" and o: "in_order gs ids k p f" and c: "\<not> pf_closed p" "pf_closed p'"
    and slots: "1 \<le> pf_slots p"
  shows "k = length gs" "r = Inl stop_iteration \<Longrightarrow> \<forall>t h. nw_wait nw t h \<noteq> Inl stop_iteration \<Longrightarrow> \<forall>i<k. is_done (ids ! i) f'"
proof -
  obtain r1 p1 f1 where fl: "fill nw pid (pf_slots p) True p f = (r1, p1, f1)" by (metis surj_pair)
  note c1 = fill_closed [OF fl c(1)]
  have r1: "r1 = Inr ()" using run c fl c1 by (cases r1) (simp_all add: next_group_def)
  note fl = fl [unfolded r1]
  have pending: "pf_pending p1 = []"
  proof (rule ccontr)
    assume "pf_pending p1 \<noteq> []"
    then obtain h hs where p1: "pf_pending p1 = h # hs" by (cases "pf_pending p1") simp_all
    obtain q f2 where w: "completion_wait_stream nw h None f1 = (q, f2)" by fastforce
    let ?p = "p1\<lparr>pf_pending := hs, pf_consumed := pf_consumed p1 @ [h]\<rparr>"
    obtain r2 p2 f3 where fl2: "fill nw pid (pf_slots p1) False ?p f2 = (r2, p2, f3)" by (metis surj_pair)
    have "\<not> pf_closed p2" using fill_closed [OF fl2] c1 by simp
    with run c fl p1 w fl2 c1 show False by (cases q; cases r2) (auto simp: next_group_def)
  qed
  from fill_in_order [OF fl o] obtain ids1 where o1: "in_order gs ids1 k p1 f1" "take (length ids) ids1 = ids"
    and "pf_groups p1 = None" using pending slots c1 by auto
  then have k: "k = length gs" "k = length ids1" using pending by (auto simp: in_order_def submitted_for_def)
  show "k = length gs" by (rule k(1))
  assume r: "r = Inl stop_iteration" and nat: "\<forall>t h. nw_wait nw t h \<noteq> Inl stop_iteration"
  obtain q hs f2 where w: "wait_all nw (pf_consumed p1) f1 = (q, hs, f2)" by (metis surj_pair)
  have "q = Inr ()" using run c fl pending w r c1 wait_all_raises [of nw "pf_consumed p1" f1] nat
    by (cases q) (auto simp: next_group_def close_prefetch_def)
  note w = w [unfolded this]
  have f': "f' = f2" using run c fl pending w c1 by (simp add: next_group_def close_prefetch_def)
  have "\<forall>h\<in>set (pf_consumed p1). h < length (ff_groups f1)" using o1(1) by (simp add: in_order_def)
  from wait_all_done [OF w this] have d: "extends f1 f2" "\<forall>h\<in>set (pf_consumed p1). is_done h f2" by simp_all
  show "\<forall>i<k. is_done (ids ! i) f'"
  proof (intro allI impI)
    fix i assume i: "i < k"
    have "k \<le> length ids" using o by (simp add: in_order_def)
    then have same: "ids ! i = ids1 ! i" using o1(2) i by (metis less_le_trans nth_take)
    have "ids1 ! i \<in> set (pf_consumed p1) \<or> is_done (ids1 ! i) f1" "ids1 ! i < length (ff_groups f1)"
      using o1(1) i by (auto simp: in_order_def submitted_for_def)
    then show "is_done (ids ! i) f'" using d extends_fields(6) [OF d(1)] unfolding f' same by auto
  qed
qed

text \<open>A consumer that takes \<open>n\<close> groups.\<close>

fun take_groups :: "fast_native \<Rightarrow> int \<Rightarrow> nat \<Rightarrow> prefetch \<Rightarrow> fast \<Rightarrow> (live list list \<times> prefetch \<times> fast) option" where
  "take_groups nw pid 0 p f = Some ([], p, f)"
| "take_groups nw pid (Suc n) p f = (case next_group nw pid p f of
     (Inl _, _) \<Rightarrow> None
   | (Inr outs, p, f) \<Rightarrow> map_option (\<lambda>(os, r). (outs # os, r)) (take_groups nw pid n p f))"

lemma take_groups_order:
  "take_groups nw pid n p f = Some (outs, p', f') \<Longrightarrow> in_order gs ids k p f \<Longrightarrow> window_bounded slots p \<Longrightarrow>
     \<exists>ids'. in_order gs ids' (k + n) p' f' \<and> take k ids' = take k ids \<and> extends f f' \<and> length outs = n \<and> window_bounded slots p' \<and>
       (\<forall>i<n. outs ! i = fg_outputs (ff_groups f' ! (ids' ! (k + i))))"
proof (induction n arbitrary: p f ids k outs)
  case 0
  then show ?case by (intro exI [of _ ids]) simp
next
  case (Suc n)
  then obtain o1 p1 f1 os where nx: "next_group nw pid p f = (Inr o1, p1, f1)"
    and rest: "take_groups nw pid n p1 f1 = Some (os, p', f')" and outs: "outs = o1 # os"
    by (auto split: prod.splits sum.splits)
  from next_in_order [OF nx Suc.prems(2)] obtain ids1 where i1: "in_order gs ids1 (Suc k) p1 f1" "take k ids1 = take k ids"
    "extends f f1" "o1 = fg_outputs (ff_groups f1 ! (ids1 ! k))" by blast
  from Suc.IH [OF rest i1(1) next_bounded [OF nx Suc.prems(3)]] obtain ids2 where
    i2: "in_order gs ids2 (Suc k + n) p' f'" "take (Suc k) ids2 = take (Suc k) ids1" "extends f1 f'" "length os = n"
      "window_bounded slots p'" "\<forall>i<n. os ! i = fg_outputs (ff_groups f' ! (ids2 ! (Suc k + i)))" by blast
  have k: "ids2 ! k = ids1 ! k" using i2(2) by (metis lessI nth_take)
  have "ids1 ! k < length (ff_groups f1)" using i1(1) by (auto simp: in_order_def submitted_for_def)
  then have "o1 = fg_outputs (ff_groups f' ! (ids2 ! k))" using i1(4) extends_fields(4) [OF i2(3)] k by simp
  then have all: "\<forall>i<Suc n. outs ! i = fg_outputs (ff_groups f' ! (ids2 ! (k + i)))"
    using i2(6) unfolding outs by (auto simp: less_Suc_eq_0_disj)
  have "take k ids2 = take k ids" using i2(2) i1(2) by (metis le_add2 min.absorb1 plus_1_eq_Suc take_take)
  then show ?case using i2 all owner_extends_trans [OF i1(3) i2(3)] outs by (intro exI [of _ ids2]) simp
qed

lemma new_prefetch_order:
  assumes "new_prefetch nw pid gs slots go f = (Inr u, p, f')"
  shows "\<exists>ids. in_order gs ids 0 p f' \<and> window_bounded slots p \<and> \<not> pf_closed p"
proof -
  let ?p = "\<lparr>pf_groups = Some gs, pf_slots = slots, pf_pending = [], pf_consumed = [], pf_closed = False, pf_options = go\<rparr>"
  have run: "fill nw pid (min 1 slots) True ?p f = (Inr (), p, f')" using assms by (simp add: new_prefetch_def)
  have "in_order gs [] 0 ?p f" by (simp add: in_order_def submitted_for_def)
  moreover have "window_bounded slots ?p" by (simp add: window_bounded_def)
  ultimately show ?thesis using fill_in_order [OF run] fill_bounded [OF run] fill_closed [OF run] by fastforce
qed

end
