(* ===== verification/Fast_Programs.thy ===== *)
theory Fast_Programs
  imports Fast
begin

text \<open>
  The programs of \<open>reloc_torch/fast.py\<close> and their custom operators (\<open>reloc_torch/fast_ops.py\<close>): typed and layout programs
  bound to one shape, selections whose index is bound per call, pooled embedding sums.
\<close>

section \<open>Preparation\<close>

text \<open>The native binders: of a typed plan, of a layout (with whether nothing would move), of a selection, of a pooled sum.\<close>

record template_request =
  tq_direction :: string
  tq_policy :: string
  tq_calibration :: "nat option"
  tq_threads :: int
  tq_implementation :: string

record program_native =
  pn_typed :: "bindings \<Rightarrow> (string \<times> param_snapshot) list \<Rightarrow> native_failure + nat"
  pn_template :: "nat \<Rightarrow> template_request \<Rightarrow> native_failure + nat"
  pn_layout :: "bindings \<Rightarrow> native_failure + nat \<times> bool"
  pn_indexed :: "bindings \<Rightarrow> string \<Rightarrow> int \<Rightarrow> int \<Rightarrow> int \<Rightarrow> buffer_view \<Rightarrow> native_failure + nat"
  pn_pooled :: "buffer_view list \<Rightarrow> (int \<times> int) list \<Rightarrow> (int \<times> int) list \<Rightarrow> int \<Rightarrow> int \<Rightarrow> string \<Rightarrow> native_failure + nat"
  pn_from_program :: "nat \<Rightarrow> native_failure + nat"
  pn_request :: "nat \<Rightarrow> buffer_view \<Rightarrow> buffer_view \<Rightarrow> native_failure + nat"
  pn_index_request :: "bindings \<Rightarrow> live \<Rightarrow> live \<Rightarrow> live \<Rightarrow> int \<Rightarrow> native_failure + nat"
  pn_index_group :: "bindings \<Rightarrow> live \<Rightarrow> live \<Rightarrow> live \<Rightarrow> int \<Rightarrow> native_failure + group_entry list"

definition check_plain :: "string \<Rightarrow> live \<Rightarrow> unit res" where
  "check_plain what t = ensure (lv_plain t \<and> \<not> lv_requires_grad t) (ValueErr (msg [what, '' must be a plain inference tensor'']))"

text \<open>\<open>except BindError\<close> and \<open>except TransferError\<close> of the constructors.\<close>

definition unsupported :: "native_failure + 'a \<Rightarrow> 'a res" where
  "unsupported r = (case r of Inr x \<Rightarrow> Inr x
     | Inl (Bind_Error t) \<Rightarrow> Inl (UnsupportedRecipe ''bind_error'' t)
     | Inl (Transfer_Error t) \<Rightarrow> Inl (UnsupportedRecipe (error_code t) t)
     | Inl (Other_Error e) \<Rightarrow> Inl e)"

text \<open>\<open>_init_common\<close>: the view of the source and the destination of its transfer.\<close>

definition program_frame :: "device \<Rightarrow> compiled_recipe \<Rightarrow> live \<Rightarrow> bindings \<Rightarrow> ((string \<times> int) \<times> concrete_descriptor) res" where
  "program_frame owner a src b =
     (let direction = r_direction (cr_recipe a) in
      case direction_devices direction of
        None \<Rightarrow> Inl (UnsupportedRecipe ''direction_mismatch'' (msg [direction, '' recipe cannot start here'']))
      | Some (from, _) \<Rightarrow>
          if dv_type (lv_device src) \<noteq> from then Inl (UnsupportedRecipe ''direction_mismatch'' (msg [direction, '' recipe cannot start here'']))
          else if direction = ''h2d'' then res_bind (destination_descriptor a b owner) (\<lambda>d. Inr ((''host'', - 1), d))
          else if lv_device src \<noteq> owner then Inl (UnsupportedRecipe ''device_mismatch'' ''d2h source is not on the owner's device'')
          else res_bind (destination_descriptor a b \<lparr>dv_type = ''cpu'', dv_index = None\<rparr>) (\<lambda>d. Inr ((''cuda'', device_number owner), d)))"

definition new_program :: "bool \<Rightarrow> nat \<Rightarrow> bindings \<Rightarrow> live \<Rightarrow> compiled_recipe \<Rightarrow> (string \<times> int) \<times> concrete_descriptor \<Rightarrow> int \<Rightarrow> fast_program" where
  "new_program typed native b src a frame bytes = \<lparr>fp_typed = typed, fp_native = native, fp_bindings = b,
     fp_signature = signature_of src, fp_dtype = lv_dtype src, fp_direction = r_direction (cr_recipe a),
     fp_view = fst frame, fp_destination = snd frame, fp_parameter_bytes = bytes\<rparr>"

definition bind_program :: "compiled_recipe \<Rightarrow> live \<Rightarrow> live option \<Rightarrow> bindings res" where
  "bind_program a src index = reason_of guard_reason (bind_values a (tensor_view src) (map_option tensor_view index))"

definition prepare_typed_program :: "program_native \<Rightarrow> device \<Rightarrow> compiled_recipe \<Rightarrow> live \<Rightarrow> (string \<times> param_tensor) list \<Rightarrow> template_request \<Rightarrow>
    fast_program res" where
  "prepare_typed_program pn owner a src parameters rq =
     res_bind (ensure (cr_typed a \<and> \<not> cr_indexed a) (UnsupportedRecipe ''not_typed_recipe'' ''typed programs need a value transform'')) (\<lambda>_.
     res_bind (check_plain ''source'' src) (\<lambda>_.
     res_bind (bind_program a src None) (\<lambda>b.
     res_bind (program_frame owner a src b) (\<lambda>frame.
     res_bind (parameter_extents a b) (\<lambda>declared.
     res_bind (check_parameter_names (map fst declared) (map fst parameters)) (\<lambda>_.
     res_bind (snapshots_of parameters declared) (\<lambda>snapshots.
     res_bind (unsupported (pn_typed pn b snapshots)) (\<lambda>bound.
     res_bind (unsupported (pn_template pn bound (rq\<lparr>tq_direction := r_direction (cr_recipe a)\<rparr>))) (\<lambda>template.
     Inr (new_program True template b src a frame (sum_list (map (\<lambda>(_, _, _, data). int (length data)) snapshots))))))))))))"

definition prepare_layout_program :: "program_native \<Rightarrow> device \<Rightarrow> compiled_recipe \<Rightarrow> live \<Rightarrow> fast_program res" where
  "prepare_layout_program pn owner a src =
     res_bind (ensure (\<not> cr_typed a \<and> \<not> cr_indexed a) (UnsupportedRecipe ''not_layout_recipe'' ''layout programs take layout-only recipes'')) (\<lambda>_.
     res_bind (check_plain ''source'' src) (\<lambda>_.
     res_bind (bind_program a src None) (\<lambda>b.
     res_bind (program_frame owner a src b) (\<lambda>frame.
     res_bind (case pn_layout pn b of Inl (Transfer_Error t) \<Rightarrow> Inl (OtherExn t) | r \<Rightarrow> unsupported r) (\<lambda>(bound, no_copy).
     res_bind (ensure (\<not> no_copy) (UnsupportedRecipe ''no_copy_layout'' ''a no-copy layout has nothing to transfer'')) (\<lambda>_.
     Inr (new_program False bound b src a frame 0)))))))"

section \<open>Selections\<close>

text \<open>The metadata bound for a shape of source and index: bindings and destination.\<close>

type_synonym index_key = "signature \<times> int \<times> string"
type_synonym index_spec = "bindings \<times> concrete_descriptor"

record indexed_program =
  ip_compiled :: compiled_recipe
  ip_specs :: "(index_key, index_spec) odict"

definition new_indexed :: "compiled_recipe \<Rightarrow> indexed_program res" where
  "new_indexed a = res_bind (ensure (cr_indexed a \<and> r_direction (cr_recipe a) = ''h2d'')
       (UnsupportedRecipe ''unsupported_index_select'' ''expected an H2D index_select recipe'')) (\<lambda>_.
     Inr \<lparr>ip_compiled = a, ip_specs = []\<rparr>)"

text \<open>The extents of the operator's output behind its rows, where the recipe's are all constants.\<close>

definition index_columns :: "compiled_recipe \<Rightarrow> int list option" where
  "index_columns a = (let cs = map const_value (tl (ts_shape (r_destination (cr_recipe a)))) in
     if None \<in> set cs then None else Some (map the cs))"

definition declared_indexed :: "compiled_recipe \<Rightarrow> live \<Rightarrow> (int list \<times> int list) res" where
  "declared_indexed a index = (case index_columns a of
     None \<Rightarrow> Inl (RuntimeErr ''index_select ops need constant trailing extents'')
   | Some cs \<Rightarrow> (case lv_shape index of [] \<Rightarrow> Inl (OtherExn ''IndexError'')
       | n # _ \<Rightarrow> Inr (n # cs, row_major (n # cs))))"

definition check_index_operands :: "live \<Rightarrow> live \<Rightarrow> unit res" where
  "check_index_operands src index =
     ensure (dv_type (lv_device src) = ''cpu'' \<and> lv_contiguous src \<and> dv_type (lv_device index) = ''cpu'' \<and>
         length (lv_shape index) = 1 \<and> lv_contiguous index \<and> lv_dtype index \<in> {''int32'', ''int64''})
       (ValueErr ''index_select needs a dense CPU source and a contiguous CPU int32/int64 index'')"

definition index_key :: "live \<Rightarrow> live \<Rightarrow> index_key" where
  "index_key src index = (signature_of src, hd (lv_shape index), lv_dtype index)"

definition fresh_spec :: "device \<Rightarrow> compiled_recipe \<Rightarrow> live \<Rightarrow> live \<Rightarrow> index_spec res" where
  "fresh_spec owner a src index = res_bind (bind_program a src (Some index)) (\<lambda>b.
     res_bind (destination_descriptor a b owner) (\<lambda>d. Inr (b, d)))"

definition index_spec :: "device \<Rightarrow> live \<Rightarrow> live \<Rightarrow> indexed_program \<Rightarrow> index_spec res \<times> indexed_program" where
  "index_spec owner src index p = (case map_of (ip_specs p) (index_key src index) of
     Some x \<Rightarrow> (Inr x, p)
   | None \<Rightarrow> (case fresh_spec owner (ip_compiled p) src index of
       Inl e \<Rightarrow> (Inl e, p)
     | Inr x \<Rightarrow> (Inr x, p\<lparr>ip_specs := od_set (index_key src index) x (ip_specs p)\<rparr>)))"

text \<open>A binding error of the live indices: out of range, or another.\<close>

definition contains_text :: "string \<Rightarrow> string \<Rightarrow> bool" where
  "contains_text t s \<longleftrightarrow> (\<exists>i\<in>set [0..<Suc (length s)]. take (length t) (drop i s) = t)"

definition index_failure :: "native_failure + 'a \<Rightarrow> 'a res" where
  "index_failure r = (case r of
     Inl (Bind_Error t) \<Rightarrow> Inl (UnsupportedRecipe (if contains_text ''index_out_of_range'' t then ''index_out_of_range'' else ''bind_error'') t)
   | _ \<Rightarrow> failing (\<lambda>t. RuntimeErr (msg [''index_select dispatch rejected: '', t])) r)"

text \<open>\<open>data_ptr()\<close>: the address of the first element.\<close>

definition element_pointer :: "live \<Rightarrow> int" where
  "element_pointer t = lv_base t + lv_offset t * lv_item_bytes t"

text \<open>\<open>_prepare\<close>: the native program over the source, and the output.\<close>

definition prepare_indexed :: "fast_native \<Rightarrow> program_native \<Rightarrow> int \<Rightarrow> live \<Rightarrow> live \<Rightarrow> live option \<Rightarrow> indexed_program \<Rightarrow> fast \<Rightarrow>
    (nat \<times> buffer_view \<times> live) res \<times> indexed_program \<times> fast" where
  "prepare_indexed nw pn pid src index out p f = (case check_open pid f of
     (Inl e, f) \<Rightarrow> (Inl e, p, f)
   | (Inr _, f) \<Rightarrow> (case res_bind (check_plain ''source'' src) (\<lambda>_. res_bind (check_plain ''index'' index) (\<lambda>_. check_index_operands src index)) of
       Inl e \<Rightarrow> (Inl e, p, f)
     | Inr _ \<Rightarrow> (case index_spec (ff_device f) src index p of
         (Inl e, p) \<Rightarrow> (Inl e, p, f)
       | (Inr (b, d), p) \<Rightarrow> (case (case out of Some x \<Rightarrow> (Inr x, f) | None \<Rightarrow> ask (\<lambda>t. nw_allocate nw t d False) f) of
           (Inl e, f) \<Rightarrow> (Inl e, p, f)
         | (Inr out, f) \<Rightarrow>
             let view = storage_view src ''host'' (- 1); n = hd (lv_shape index) in
             (res_bind (index_failure (pn_indexed pn b (lv_dtype index) n (element_pointer index) (n * lv_item_bytes index) view))
               (\<lambda>program. Inr (program, view, out)), p, f)))))"

section \<open>Producers of one call\<close>

text \<open>\<open>_execute_program\<close> and \<open>_submit_program\<close>.\<close>

definition producer_failed :: "string \<Rightarrow> exn" where
  "producer_failed t = RuntimeErr (msg [''producer dispatch failed: '', t])"

definition execute_program :: "fast_native \<Rightarrow> program_native \<Rightarrow> int \<Rightarrow> nat \<Rightarrow> buffer_view \<Rightarrow> live \<Rightarrow> live fast_action" where
  "execute_program nw pn pid program view out =
     andthen (give (failing producer_failed (pn_request pn program view (storage_view out ''cuda'' (device_number (lv_device out)))))) (\<lambda>request.
     andthen (run_request nw pid producer_failed request) (\<lambda>_. give (Inr out)))"

definition submit_program :: "fast_native \<Rightarrow> program_native \<Rightarrow> int \<Rightarrow> nat \<Rightarrow> buffer_view \<Rightarrow> live \<Rightarrow> live \<Rightarrow> live list \<Rightarrow> int option \<Rightarrow> string \<Rightarrow> nat fast_action" where
  "submit_program nw pn pid program view src out extra threads dtype =
     andthen (give (failing (\<lambda>t. RuntimeErr (msg [''producer dispatch rejected: '', t])) (pn_from_program pn program))) (\<lambda>template.
     submit_group nw pid [(One_Shot template view dtype, src)] (Some [out]) extra
       \<lparr>go_threads = threads, go_device_layout = False, go_chunked = True, go_pin_outputs = True\<rparr>)"

text \<open>
  With the Torch extension a call without output takes the metadata from the cache, filled by a preparation where it
  must, and one native call does the rest.
\<close>

definition cached_spec :: "fast_native \<Rightarrow> program_native \<Rightarrow> int \<Rightarrow> live \<Rightarrow> live \<Rightarrow> indexed_program \<Rightarrow> fast \<Rightarrow>
    index_spec res \<times> indexed_program \<times> fast" where
  "cached_spec nw pn pid src index p f = (case check_open pid f of
     (Inl e, f) \<Rightarrow> (Inl e, p, f)
   | (Inr _, f) \<Rightarrow> (case res_bind (check_plain ''source'' src) (\<lambda>_. check_plain ''index'' index) of
       Inl e \<Rightarrow> (Inl e, p, f)
     | Inr _ \<Rightarrow> if lv_shape index = [] then (Inl (OtherExn ''IndexError''), p, f)
         else (case map_of (ip_specs p) (index_key src index) of
           Some x \<Rightarrow> (Inr x, p, f)
         | None \<Rightarrow> (case prepare_indexed nw pn pid src index None p f of
             (Inl e, p, f) \<Rightarrow> (Inl e, p, f)
           | (Inr _, p, f) \<Rightarrow> (case map_of (ip_specs p) (index_key src index) of
               Some x \<Rightarrow> (Inr x, p, f) | None \<Rightarrow> (Inl (KeyErr ''key''), p, f))))))"

definition extension_execute :: "fast_native \<Rightarrow> program_native \<Rightarrow> int \<Rightarrow> live \<Rightarrow> live \<Rightarrow> index_spec \<Rightarrow> live fast_action" where
  "extension_execute nw pn pid src index spec =
     andthen (ask (\<lambda>t. nw_allocate nw t (snd spec) False)) (\<lambda>out.
     andthen (observe ff_threads) (\<lambda>threads.
     andthen (give (index_failure (pn_index_request pn (fst spec) src index out threads))) (\<lambda>request.
     andthen (run_request nw pid producer_failed request) (\<lambda>_. give (Inr out)))))"

definition extension_submit :: "fast_native \<Rightarrow> program_native \<Rightarrow> int \<Rightarrow> live \<Rightarrow> live \<Rightarrow> int option \<Rightarrow> index_spec \<Rightarrow> nat fast_action" where
  "extension_submit nw pn pid src index threads spec =
     andthen (ask (\<lambda>t. nw_allocate nw t (snd spec) False)) (\<lambda>out.
     andthen (observe ff_threads) (\<lambda>gather.
     andthen (give (index_failure (pn_index_group pn (fst spec) src index out gather))) (\<lambda>entries.
     submit_native nw pid entries [src] [out] [index] False
       \<lparr>go_threads = threads, go_device_layout = False, go_chunked = True, go_pin_outputs = True\<rparr>)))"

definition execute_indexed :: "fast_native \<Rightarrow> program_native \<Rightarrow> int \<Rightarrow> live \<Rightarrow> live \<Rightarrow> live option \<Rightarrow> indexed_program \<Rightarrow> fast \<Rightarrow>
    live res \<times> indexed_program \<times> fast" where
  "execute_indexed nw pn pid src index out p f =
     (if nw_views nw \<and> out = None then (case cached_spec nw pn pid src index p f of
        (Inl e, p, f) \<Rightarrow> (Inl e, p, f)
      | (Inr spec, p, f) \<Rightarrow> (case extension_execute nw pn pid src index spec f of (r, f) \<Rightarrow> (r, p, f)))
      else (case prepare_indexed nw pn pid src index out p f of
        (Inl e, p, f) \<Rightarrow> (Inl e, p, f)
      | (Inr (program, view, out), p, f) \<Rightarrow> (case execute_program nw pn pid program view out f of (r, f) \<Rightarrow> (r, p, f))))"

definition submit_indexed :: "fast_native \<Rightarrow> program_native \<Rightarrow> int \<Rightarrow> live \<Rightarrow> live \<Rightarrow> live option \<Rightarrow> int option \<Rightarrow> indexed_program \<Rightarrow> fast \<Rightarrow>
    nat res \<times> indexed_program \<times> fast" where
  "submit_indexed nw pn pid src index out threads p f =
     (if nw_views nw \<and> out = None then (case cached_spec nw pn pid src index p f of
        (Inl e, p, f) \<Rightarrow> (Inl e, p, f)
      | (Inr spec, p, f) \<Rightarrow> (case extension_submit nw pn pid src index threads spec f of (r, f) \<Rightarrow> (r, p, f)))
      else (case prepare_indexed nw pn pid src index out p f of
        (Inl e, p, f) \<Rightarrow> (Inl e, p, f)
      | (Inr (program, view, out), p, f) \<Rightarrow>
          (case submit_program nw pn pid program view src out [index] threads (lv_dtype src) f of (r, f) \<Rightarrow> (r, p, f))))"

section \<open>Pooled sums\<close>

record pooled_program =
  po_tables :: "live list"
  po_dim :: int
  po_dtype :: string

definition new_pooled :: "live list \<Rightarrow> string \<Rightarrow> pooled_program res" where
  "new_pooled tables dtype =
     res_bind (ensure (dtype \<in> {''float16'', ''float32''}) (ValueErr ''pooled output dtype must be float16 or float32'')) (\<lambda>_.
     res_bind (ensure (tables \<noteq> []) (ValueErr ''at least one table is required'')) (\<lambda>_.
     res_bind (mapR (\<lambda>t. res_bind (check_plain ''table'' t) (\<lambda>_.
       ensure (dv_type (lv_device t) = ''cpu'' \<and> lv_dtype t = ''float32'' \<and> length (lv_shape t) = 2 \<and> lv_contiguous t \<and> 0 < hd (lv_shape t))
         (ValueErr ''tables must be dense CPU float32 [rows, dim] tensors''))) tables) (\<lambda>_.
     let dim = lv_shape (hd tables) ! 1 in
     res_bind (ensure (\<forall>t\<in>set tables. lv_shape t ! 1 = dim) (ValueErr ''all tables must share one embedding dimension'')) (\<lambda>_.
     Inr \<lparr>po_tables = tables, po_dim = dim, po_dtype = dtype\<rparr>))))"

definition check_bag_operand :: "live \<Rightarrow> unit res" where
  "check_bag_operand t = res_bind (check_plain ''bag operand'' t) (\<lambda>_.
     ensure (dv_type (lv_device t) = ''cpu'' \<and> lv_dtype t = ''int64'' \<and> length (lv_shape t) = 1 \<and> lv_contiguous t)
       (ValueErr ''indices and offsets must be contiguous CPU int64 vectors''))"

text \<open>The loop of \<open>_prepare\<close>: every table has the same number of bags.\<close>

fun bag_operands :: "(live \<times> live) list \<Rightarrow> int option \<Rightarrow> (int option \<times> (int \<times> int) list \<times> (int \<times> int) list) res" where
  "bag_operands [] bags = Inr (bags, [], [])"
| "bag_operands ((index, offs) # rest) bags =
     res_bind (check_bag_operand index) (\<lambda>_. res_bind (check_bag_operand offs) (\<lambda>_.
     let n = hd (lv_shape offs); b = (case bags of None \<Rightarrow> n | Some b \<Rightarrow> b) in
     res_bind (ensure (n = b) (ValueErr ''every table needs the same number of bags'')) (\<lambda>_.
     res_bind (bag_operands rest (Some b)) (\<lambda>(total, is, os).
     Inr (total, (element_pointer index, hd (lv_shape index)) # is, (element_pointer offs, b) # os)))))"

definition check_bags :: "pooled_program \<Rightarrow> live list \<Rightarrow> live list \<Rightarrow> (int \<times> (int \<times> int) list \<times> (int \<times> int) list) res" where
  "check_bags p indices offs =
     res_bind (ensure (length indices = length (po_tables p) \<and> length offs = length (po_tables p))
       (ValueErr ''one index and one offset tensor per table'')) (\<lambda>_.
     res_bind (bag_operands (zip indices offs) None) (\<lambda>(bags, is, os).
     res_bind (ensure (bags \<noteq> Some 0) (ValueErr ''at least one bag is required'')) (\<lambda>_.
     Inr (the bags, is, os))))"

definition pooled_shape :: "pooled_program \<Rightarrow> int \<Rightarrow> int list" where
  "pooled_shape p bags = [bags, int (length (po_tables p)), po_dim p]"

definition prepare_pooled :: "fast_native \<Rightarrow> program_native \<Rightarrow> int \<Rightarrow> pooled_program \<Rightarrow> live list \<Rightarrow> live list \<Rightarrow> live option \<Rightarrow>
    (nat \<times> live \<times> live list) fast_action" where
  "prepare_pooled nw pn pid p indices offs out =
     andthen (check_open pid) (\<lambda>_.
     andthen (give (check_bags p indices offs)) (\<lambda>(bags, is, os).
     let shape = pooled_shape p bags in
     andthen (case out of
         Some x \<Rightarrow> give (if lv_shape x = shape \<and> lv_dtype x = po_dtype p \<and> lv_contiguous x then Inr x
           else Inl (ValueErr ''out must be a contiguous tensor of the pooled shape and dtype''))
       | None \<Rightarrow> andthen (observe ff_device) (\<lambda>d. ask (\<lambda>t. nw_allocate nw t
           \<lparr>cd_shape = shape, cd_strides = row_major shape, cd_dtype = po_dtype p, cd_device = d\<rparr> False))) (\<lambda>out.
     andthen (give (failing (\<lambda>t. RuntimeErr (msg [''pooled producer rejected: '', t]))
       (pn_pooled pn (map (\<lambda>t. storage_view t ''host'' (- 1)) (po_tables p)) is os bags (po_dim p) (po_dtype p)))) (\<lambda>program.
     give (Inr (program, out, tl (po_tables p) @ indices @ offs))))))"

definition execute_pooled :: "fast_native \<Rightarrow> program_native \<Rightarrow> int \<Rightarrow> pooled_program \<Rightarrow> live list \<Rightarrow> live list \<Rightarrow> live option \<Rightarrow> live fast_action" where
  "execute_pooled nw pn pid p indices offs out =
     andthen (prepare_pooled nw pn pid p indices offs out) (\<lambda>(program, out, extra).
     execute_program nw pn pid program (storage_view (hd (po_tables p)) ''host'' (- 1)) out)"

definition submit_pooled :: "fast_native \<Rightarrow> program_native \<Rightarrow> int \<Rightarrow> pooled_program \<Rightarrow> live list \<Rightarrow> live list \<Rightarrow> live option \<Rightarrow> int option \<Rightarrow> nat fast_action" where
  "submit_pooled nw pn pid p indices offs out threads =
     andthen (prepare_pooled nw pn pid p indices offs out) (\<lambda>(program, out, extra).
     submit_program nw pn pid program (storage_view (hd (po_tables p)) ''host'' (- 1)) (hd (po_tables p)) out extra threads ''float32'')"

section \<open>Custom operators\<close>

text \<open>What a handle of \<open>fast_ops\<close> stands for.\<close>

datatype fast_entry = Typed_Entry fast_program | Indexed_Entry indexed_program | Pooled_Entry pooled_program

definition lookup_program :: "string \<Rightarrow> fast_entry registry \<Rightarrow> fast \<Rightarrow> fast_entry res" where
  "lookup_program h g f = lookup_handle (\<lambda>_. ff_closed f) h g"

text \<open>\<open>_verify\<close>: an output other than the declared one comes from a graph captured against another program.\<close>

definition verify_declared :: "int list \<Rightarrow> int list option \<Rightarrow> device \<Rightarrow> string \<Rightarrow> live \<Rightarrow> live res" where
  "verify_declared shape strides d dtype out =
     (if lv_shape out = shape \<and> lv_dtype out = dtype \<and> lv_device out = d \<and> (strides = None \<or> strides = Some (lv_strides out))
      then Inr out else Inl (RuntimeErr ''fast op output does not match the declared metadata''))"

definition typed_op :: "fast_native \<Rightarrow> int \<Rightarrow> live \<Rightarrow> string \<Rightarrow> int list \<Rightarrow> int list \<Rightarrow> device \<Rightarrow> string \<Rightarrow> fast_entry registry \<Rightarrow> live fast_action" where
  "typed_op nw pid src h shape strides d dtype g =
     andthen (observe (lookup_program h g)) (\<lambda>entry.
     andthen (give entry) (\<lambda>entry. case entry of
       Typed_Entry p \<Rightarrow> andthen (execute_typed nw pid p src None) (\<lambda>out. give (verify_declared shape (Some strides) d dtype out))
     | _ \<Rightarrow> give (Inl (TypeErr ''execute() missing 1 required positional argument''))))"

text \<open>A pooled program refuses the rows of an index vector, which are scalars.\<close>

definition indexed_op :: "fast_native \<Rightarrow> program_native \<Rightarrow> int \<Rightarrow> live \<Rightarrow> live \<Rightarrow> string \<Rightarrow> int list \<Rightarrow> int list \<Rightarrow> device \<Rightarrow> string \<Rightarrow>
    fast_entry registry \<Rightarrow> fast \<Rightarrow> live res \<times> fast_entry registry \<times> fast" where
  "indexed_op nw pn pid src index h shape strides d dtype g f = (case lookup_program h g f of
     Inl e \<Rightarrow> (Inl e, g, f)
   | Inr (Indexed_Entry p) \<Rightarrow> (case execute_indexed nw pn pid src index None p f of
       (r, p, f) \<Rightarrow> (res_bind r (verify_declared shape (Some strides) d dtype), g\<lparr>rg_entries := od_set h (Indexed_Entry p) (rg_entries g)\<rparr>, f))
   | Inr (Typed_Entry _) \<Rightarrow> (Inl (TypeErr ''execute() takes 2 positional arguments but 3 were given''), g, f)
   | Inr (Pooled_Entry _) \<Rightarrow> (case check_open pid f of
       (Inl e, f) \<Rightarrow> (Inl e, g, f)
     | (Inr _, f) \<Rightarrow> (Inl (ValueErr ''one index and one offset tensor per table''), g, f)))"

definition pooled_op :: "fast_native \<Rightarrow> program_native \<Rightarrow> int \<Rightarrow> live list \<Rightarrow> live list \<Rightarrow> string \<Rightarrow> int list \<Rightarrow> device \<Rightarrow> string \<Rightarrow> fast_entry registry \<Rightarrow> live fast_action" where
  "pooled_op nw pn pid indices offs h shape d dtype g =
     andthen (observe (lookup_program h g)) (\<lambda>entry.
     andthen (give entry) (\<lambda>entry. case entry of
       Pooled_Entry p \<Rightarrow> andthen (submit_pooled nw pn pid p indices offs None None) (\<lambda>k.
         andthen (completion_wait_stream nw k None) (\<lambda>outs.
         give (case outs of [] \<Rightarrow> Inl (OtherExn ''IndexError'') | out # _ \<Rightarrow> verify_declared shape None d dtype out)))
     | Indexed_Entry _ \<Rightarrow> andthen (check_open pid) (\<lambda>_. give (Inl (ValueErr ''source must be a plain inference tensor'')))
     | Typed_Entry _ \<Rightarrow> give (Inl (OtherExn ''AttributeError''))))"

text \<open>The arguments \<open>TypedProgram.op\<close> passes: the destination is constant to a tracer.\<close>

definition typed_op_arguments :: "fast_program \<Rightarrow> (int list \<times> int list \<times> device \<times> string) res" where
  "typed_op_arguments p = (if fp_direction p \<noteq> ''h2d'' then Inl (RuntimeErr ''only H2D typed programs are available as ops'')
     else let d = fp_destination p in Inr (cd_shape d, cd_strides d, cd_device d, cd_dtype d))"

section \<open>The owner's constructors\<close>

text \<open>\<open>FastTransfers.layout\<close> and its siblings: compile once, then prepare; programs for operators are registered.\<close>

definition owner_layout :: "(recipe \<Rightarrow> compiled_recipe res) \<Rightarrow> program_native \<Rightarrow> int \<Rightarrow> recipe \<Rightarrow> live \<Rightarrow> fast_program fast_action" where
  "owner_layout client pn pid r src = andthen (compile_fast client pid r) (\<lambda>a.
     andthen (observe ff_device) (\<lambda>d. give (prepare_layout_program pn d a src)))"

definition registered :: "int \<Rightarrow> string \<Rightarrow> ('p \<Rightarrow> fast_entry option) \<Rightarrow> 'p fast_action \<Rightarrow> fast_entry registry \<Rightarrow> fast \<Rightarrow>
    ('p \<times> registration option) res \<times> fast_entry registry \<times> fast" where
  "registered pid token entry prepare g f = (case prepare f of
     (Inl e, f) \<Rightarrow> (Inl e, g, f)
   | (Inr p, f) \<Rightarrow> (case entry p of
       None \<Rightarrow> (Inr (p, None), g, f)
     | Some x \<Rightarrow> (case register_program pid token x g f of
         (Inl e, g, f) \<Rightarrow> (Inl e, g, f) | (Inr r, g, f) \<Rightarrow> (Inr (p, Some r), g, f))))"

definition owner_typed :: "(recipe \<Rightarrow> compiled_recipe res) \<Rightarrow> program_native \<Rightarrow> int \<Rightarrow> string \<Rightarrow> recipe \<Rightarrow> live \<Rightarrow>
    (string \<times> param_tensor) list \<Rightarrow> template_request \<Rightarrow> fast_entry registry \<Rightarrow> fast \<Rightarrow>
    (fast_program \<times> registration option) res \<times> fast_entry registry \<times> fast" where
  "owner_typed client pn pid token r src parameters rq = registered pid token
     (\<lambda>p. if fp_direction p = ''h2d'' then Some (Typed_Entry p) else None)
     (andthen (compile_fast client pid r) (\<lambda>a. andthen (observe (\<lambda>f. (ff_device f, ff_threads f))) (\<lambda>(d, threads).
        give (prepare_typed_program pn d a src parameters (rq\<lparr>tq_threads := threads\<rparr>)))))"

definition owner_indexed :: "(recipe \<Rightarrow> compiled_recipe res) \<Rightarrow> int \<Rightarrow> string \<Rightarrow> recipe \<Rightarrow> fast_entry registry \<Rightarrow> fast \<Rightarrow>
    (indexed_program \<times> registration option) res \<times> fast_entry registry \<times> fast" where
  "owner_indexed client pid token r = registered pid token (\<lambda>p. Some (Indexed_Entry p))
     (andthen (compile_fast client pid r) (\<lambda>a. give (new_indexed a)))"

definition owner_pooled :: "int \<Rightarrow> string \<Rightarrow> live list \<Rightarrow> string \<Rightarrow> fast_entry registry \<Rightarrow> fast \<Rightarrow>
    (pooled_program \<times> registration option) res \<times> fast_entry registry \<times> fast" where
  "owner_pooled pid token tables dtype = registered pid token (\<lambda>p. Some (Pooled_Entry p)) (give (new_pooled tables dtype))"

end
