(* ===== verification/Fast_Swap.thy ===== *)
theory Fast_Swap
  imports Fast_Programs
begin

text \<open>
  \<open>KVCacheSwap\<close> of \<open>reloc_torch/fast.py\<close>: caches \<open>[H, S, Dh]\<close> of a GPU leave for one block of pinned memory as
  \<open>[S, H, Dh]\<close>, and come back.
\<close>

record kv_swap =
  kv_heads :: int
  kv_head_dim :: int
  kv_dtype :: string
  kv_programs :: "((bool \<times> int list), fast_program) odict"
  kv_inflight :: "nat list"

text \<open>16-bit caches move as float32 pairs.\<close>

definition kv_pair :: "kv_swap \<Rightarrow> bool" where
  "kv_pair k \<longleftrightarrow> kv_dtype k \<noteq> ''float32''"

definition kv_inner :: "kv_swap \<Rightarrow> int" where
  "kv_inner k = (if kv_pair k then kv_head_dim k div 2 else kv_head_dim k)"

definition new_swap :: "int \<Rightarrow> int \<Rightarrow> string \<Rightarrow> kv_swap res" where
  "new_swap heads head_dim dtype =
     res_bind (ensure (dtype \<in> {''float32'', ''float16'', ''bfloat16''}) (ValueErr ''KV swap relocates float32, float16 or bfloat16 caches'')) (\<lambda>_.
     res_bind (ensure (dtype = ''float32'' \<or> even head_dim) (ValueErr ''16-bit caches need an even head dimension'')) (\<lambda>_.
     Inr \<lparr>kv_heads = heads, kv_head_dim = head_dim, kv_dtype = dtype, kv_programs = [], kv_inflight = []\<rparr>))"

definition float_spec :: "expr list \<Rightarrow> expr tensor_spec" where
  "float_spec shape = \<lparr>ts_shape = shape, ts_strides = dense_strides shape, ts_offset = Const 0, ts_dtype = ''float32''\<rparr>"

definition swap_recipe :: "int \<Rightarrow> int \<Rightarrow> bool \<Rightarrow> recipe" where
  "swap_recipe heads inner evict =
     (let cache = [Const heads, Symbol ''s0'', Const inner]; stored = [Symbol ''s0'', Const heads, Const inner] in
      \<lparr>r_source = float_spec (if evict then cache else stored), r_operations = [Transpose [1, 0, 2]],
       r_destination = float_spec (if evict then stored else cache), r_direction = (if evict then ''d2h'' else ''h2d'')\<rparr>)"

text \<open>\<open>Tensor.view\<close> of another dtype is Torch's.\<close>

type_synonym reinterpret = "live \<Rightarrow> string \<Rightarrow> live res"

definition as_pairs :: "reinterpret \<Rightarrow> kv_swap \<Rightarrow> live \<Rightarrow> live res" where
  "as_pairs view k t = (if \<not> kv_pair k then Inr t
     else if lv_dtype t \<noteq> kv_dtype k then Inl (ValueErr ''cache dtype is not the swap's'') else view t ''float32'')"

definition from_pairs :: "reinterpret \<Rightarrow> kv_swap \<Rightarrow> live \<Rightarrow> live res" where
  "from_pairs view k t = (if kv_pair k then view t (kv_dtype k) else Inr t)"

text \<open>Operations on a swap and its owner.\<close>

type_synonym 'a swap_action = "(kv_swap \<times> fast, 'a) action"

definition on_owner :: "'a fast_action \<Rightarrow> 'a swap_action" where
  "on_owner m s = (case m (snd s) of (r, f) \<Rightarrow> (r, (fst s, f)))"

definition swap_program :: "(recipe \<Rightarrow> compiled_recipe res) \<Rightarrow> program_native \<Rightarrow> int \<Rightarrow> bool \<Rightarrow> live \<Rightarrow> fast_program swap_action" where
  "swap_program client pn pid evict t = andthen (observe fst) (\<lambda>k.
     case map_of (kv_programs k) (evict, lv_shape t) of
       Some p \<Rightarrow> give (Inr p)
     | None \<Rightarrow> andthen (on_owner (owner_layout client pn pid (swap_recipe (kv_heads k) (kv_inner k) evict) t)) (\<lambda>p.
         andthen (update (\<lambda>(k, f). (k\<lparr>kv_programs := od_set (evict, lv_shape t) p (kv_programs k)\<rparr>, f))) (\<lambda>_. give (Inr p))))"

fun swap_retire_loop :: "fast_native \<Rightarrow> bool \<Rightarrow> nat list \<Rightarrow> unit swap_action" where
  "swap_retire_loop nw block [] = give (Inr ())"
| "swap_retire_loop nw block (h # hs) = andthen (if block then give (Inr True) else on_owner (completion_done nw h)) (\<lambda>d.
     if d then andthen (update (\<lambda>(k, f). (k\<lparr>kv_inflight := hs\<rparr>, f))) (\<lambda>_. andthen (on_owner (completion_wait nw h)) (\<lambda>_.
       swap_retire_loop nw block hs)) else give (Inr ()))"

definition swap_retire :: "fast_native \<Rightarrow> bool \<Rightarrow> unit swap_action" where
  "swap_retire nw block = andthen (observe (kv_inflight \<circ> fst)) (swap_retire_loop nw block)"

text \<open>The slices of the block: start and element count of each cache, one after the other.\<close>

fun slices :: "int \<Rightarrow> int list \<Rightarrow> (int \<times> int) list" where
  "slices start [] = []"
| "slices start (n # ns) = (start, n) # slices (start + n) ns"

definition slice_view :: "live \<Rightarrow> int \<Rightarrow> int list \<Rightarrow> live" where
  "slice_view block start shape = block\<lparr>lv_shape := shape, lv_strides := row_major shape, lv_offset := lv_offset block + start, lv_contiguous := True\<rparr>"

definition swap_options :: group_options where
  "swap_options = \<lparr>go_threads = Some 1, go_device_layout = True, go_chunked = False, go_pin_outputs = True\<rparr>"

fun map_action :: "('x \<Rightarrow> ('s, 'y) action) \<Rightarrow> 'x list \<Rightarrow> ('s, 'y list) action" where
  "map_action f [] = give (Inr [])"
| "map_action f (x # xs) = andthen (f x) (\<lambda>y. andthen (map_action f xs) (\<lambda>ys. give (Inr (y # ys))))"

definition evict_caches :: "fast_native \<Rightarrow> (recipe \<Rightarrow> compiled_recipe res) \<Rightarrow> program_native \<Rightarrow> reinterpret \<Rightarrow> int \<Rightarrow> live list \<Rightarrow> live list swap_action" where
  "evict_caches nw client pn view pid caches =
     andthen (observe fst) (\<lambda>k.
     andthen (give (mapR (as_pairs view k) caches)) (\<lambda>caches.
     andthen (swap_retire nw False) (\<lambda>_.
     andthen (map_action (swap_program client pn pid True) caches) (\<lambda>programs.
     let shapes = map (cd_shape \<circ> fp_destination) programs; counts = map prod_list shapes in
     andthen (case caches of [] \<Rightarrow> give (Inl (OtherExn ''IndexError''))
       | t # _ \<Rightarrow> on_owner (ask (\<lambda>c. nw_allocate nw c \<lparr>cd_shape = [sum_list counts], cd_strides = [1], cd_dtype = lv_dtype t,
           cd_device = \<lparr>dv_type = ''cpu'', dv_index = None\<rparr>\<rparr> True))) (\<lambda>block.
     let outputs = map (\<lambda>((start, _), shape). slice_view block start shape) (zip (slices 0 counts) shapes) in
     andthen (on_owner (submit_group nw pid (zip (map Prepared programs) caches) (Some outputs) [] swap_options)) (\<lambda>h.
     andthen (on_owner (completion_wait nw h)) (\<lambda>outs.
     give (mapR (from_pairs view k) outs))))))))"

definition restore_caches :: "fast_native \<Rightarrow> (recipe \<Rightarrow> compiled_recipe res) \<Rightarrow> program_native \<Rightarrow> reinterpret \<Rightarrow> int \<Rightarrow> live list \<Rightarrow> live list swap_action" where
  "restore_caches nw client pn view pid stored =
     andthen (observe fst) (\<lambda>k.
     andthen (give (mapR (as_pairs view k) stored)) (\<lambda>stored.
     andthen (swap_retire nw False) (\<lambda>_.
     andthen (map_action (swap_program client pn pid False) stored) (\<lambda>programs.
     andthen (on_owner (submit_group nw pid (zip (map Prepared programs) stored) None [] swap_options)) (\<lambda>h.
     andthen (on_owner (completion_wait_stream nw h None)) (\<lambda>outs.
     andthen (give (mapR (from_pairs view k) outs)) (\<lambda>outs.
     andthen (update (\<lambda>(k, f). (k\<lparr>kv_inflight := kv_inflight k @ [h]\<rparr>, f))) (\<lambda>_. give (Inr outs)))))))))"

definition drain_swap :: "fast_native \<Rightarrow> unit swap_action" where
  "drain_swap nw = swap_retire nw True"

section \<open>Slices\<close>

text \<open>The slices lie one after the other and fill the block.\<close>

lemma slices_bounds:
  "\<forall>n\<in>set ns. 0 \<le> n \<Longrightarrow> (a, n) \<in> set (slices start ns) \<Longrightarrow> start \<le> a \<and> a + n \<le> start + sum_list ns \<and> 0 \<le> n"
proof (induction ns arbitrary: start)
  case Nil
  then show ?case by simp
next
  case (Cons m ms)
  have nonneg: "0 \<le> m" "\<forall>k\<in>set ms. 0 \<le> k" using Cons.prems(1) by simp_all
  have total: "0 \<le> sum_list ms" by (rule sum_list_nonneg) (simp add: nonneg(2))
  from Cons.prems(2) consider "a = start" "n = m" | "(a, n) \<in> set (slices (start + m) ms)" by (simp, blast)
  then show ?case
  proof cases
    case 1
    then show ?thesis using nonneg(1) total by simp
  next
    case 2
    from Cons.IH [OF nonneg(2) this] nonneg(1) show ?thesis by simp
  qed
qed

lemma slices_sorted: "\<forall>n\<in>set ns. 0 \<le> n \<Longrightarrow> sorted_wrt (\<lambda>p q. fst p + snd p \<le> fst q) (slices start ns)"
proof (induction ns arbitrary: start)
  case Nil
  then show ?case by simp
next
  case (Cons m ms)
  then have nonneg: "\<forall>k\<in>set ms. 0 \<le> k" by simp
  have "start + m \<le> fst q" if "q \<in> set (slices (start + m) ms)" for q
    using slices_bounds [OF nonneg, of "fst q" "snd q" "start + m"] that by simp
  with Cons.IH [OF nonneg] show ?case by simp
qed

lemma slices_counts: "map snd (slices start ns) = ns"
  by (induction ns arbitrary: start) simp_all

section \<open>Elements\<close>

lemma swap_axes:
  assumes "in_bounds idx [a, b, c]"
  shows "in_bounds (permute [1, 0, 2] idx) [b, a, c]" "permute [1, 0, 2] (permute [1, 0, 2] idx) = idx"
proof -
  obtain i j k where "idx = [i, j, k]" using assms by (cases idx; cases "tl idx"; cases "tl (tl idx)"; cases "tl (tl (tl idx))") auto
  with assms show "in_bounds (permute [1, 0, 2] idx) [b, a, c]" "permute [1, 0, 2] (permute [1, 0, 2] idx) = idx"
    by (simp_all add: permute_def numeral_2_eq_2)
qed

lemma swap_typed_destination:
  "ts_shape (r_destination (swap_recipe heads inner evict)) = permute [1, 0, 2] (ts_shape (r_source (swap_recipe heads inner evict)))"
  by (simp add: swap_recipe_def float_spec_def permute_def numeral_2_eq_2 Let_def)

end
