(* ===== verification/Fast_Properties.thy ===== *)
theory Fast_Properties
  imports Fast_Order Fast_Swap Worked_Call
begin

text \<open>
  What owners of fast transfers, their windows and the cache swap promise, with a native runtime that stays busy until
  it is waited for as the example.
\<close>

section \<open>An example\<close>

definition busy_report :: group_report where
  "busy_report = \<lparr>gr_logical_transfers = 1, gr_items = [\<lparr>ri_source_bytes = 512, ri_wire_bytes = 512,
     ri_destination_bytes = 512, ri_payload_bytes = 512, ri_implementation = ''copy''\<rparr>]\<rparr>"

definition busy_native :: fast_native where
  "busy_native = \<lparr>nw_views = False, nw_query = (\<lambda>_ _. Inr False), nw_wait = (\<lambda>_ _. Inr ()), nw_wait_stream = (\<lambda>_ _ _. Inr ()),
     nw_report = (\<lambda>_. busy_report), nw_current_stream = (\<lambda>_. ''compute''),
     nw_allocate = (\<lambda>t d _. Inr (device_matrix\<lparr>lv_id := t, lv_dtype := cd_dtype d, lv_device := cd_device d, lv_shape := cd_shape d, lv_strides := cd_strides d\<rparr>)),
     nw_prepare = (\<lambda>_ _. Inr ()), nw_submit = (\<lambda>_ _. Inr ()), nw_request = (\<lambda>_ _. Inr 1),
     nw_execute = (\<lambda>_ _. Inr \<lparr>cl_payload_bytes = Some 512, cl_implementation = Some ''copy''\<rparr>)\<rparr>"

definition vector_arguments :: fast_arguments where
  "vector_arguments = \<lparr>fa_threads = PyInt 1, fa_contexts = PyInt 1, fa_buffers = PyInt 2, fa_scratch = PyInt 4096,
     fa_pinning = ''pinned'', fa_chunk_size = None\<rparr>"

definition vector_program :: fast_program where
  "vector_program = \<lparr>fp_typed = False, fp_native = 3, fp_bindings = [(''s0'', PyInt 128)], fp_signature = signature_of host_vector,
     fp_dtype = ''float32'', fp_direction = ''h2d'', fp_view = (''host'', - 1), fp_destination = matrix_descriptor,
     fp_parameter_bytes = 0\<rparr>"

definition vector_options :: group_options where
  "vector_options = \<lparr>go_threads = None, go_device_layout = False, go_chunked = False, go_pin_outputs = True\<rparr>"

definition vector_owner :: fast where
  "vector_owner = projr (new_fast True 0 1 gpu0 vector_arguments)"

lemma vector_owner_new: "new_fast True 0 1 gpu0 vector_arguments = Inr vector_owner"
proof -
  have "isl (new_fast True 0 1 gpu0 vector_arguments) = False" by code_simp
  then show ?thesis unfolding vector_owner_def by (cases "new_fast True 0 1 gpu0 vector_arguments") simp_all
qed

definition submit_vector :: fast_call where
  "submit_vector = Call_Submit [(Prepared vector_program, host_vector)] None [] vector_options"

text \<open>Ten groups, each handed to a stream as soon as it is submitted.\<close>

definition ten_groups :: "fast_call list" where
  "ten_groups = concat (map (\<lambda>h. [submit_vector, Call_Wait_Stream h None]) [0..<10])"

section \<open>Closing keeps what was submitted\<close>

lemma close_cases:
  assumes "close_fast nw pid g s = (r, g', t)"
  obtains "t = s"
    | (drained) d s1 rs where "retire nw True (s\<lparr>ff_closed := True, ff_registrations := []\<rparr>) = (d, s1)" "t = s1\<lparr>ff_resources := rs\<rparr>"
  using assms by (cases "ff_closed s") (auto simp: close_fast_def Let_def split: prod.splits)

lemma close_extends:
  assumes "close_fast nw pid g s = (r, g', t)"
  shows "extends s t"
  using assms
proof (cases rule: close_cases)
  case (drained d s1 rs)
  have "extends s (s\<lparr>ff_closed := True, ff_registrations := []\<rparr>)" by (simp add: extends_def)
  then have "extends s s1" by (rule action_keepsD [OF extends_retire _ drained(1)])
  then show ?thesis by (simp add: drained(2) extends_def)
qed simp_all

lemma keeps_pid_retire: "keeps (\<lambda>s. ff_pid s = p) (retire nw block)"
  unfolding retire_def keeps_def
  using keeps_retire_loop [of "\<lambda>s. ff_pid s = p" _ nw block]
  by (simp add: andthen_def observe_def keeps_def finish_group_def set_inflight_def ignores_def)

lemma close_keeps_pid:
  assumes "close_fast nw pid g s = (r, g', t)"
  shows "ff_pid t = ff_pid s"
  using assms
proof (cases rule: close_cases)
  case (drained d s1 rs)
  have "ff_pid s1 = ff_pid s" by (rule action_keepsD [OF keeps_pid_retire _ drained(1)]) simp
  then show ?thesis by (simp add: drained(2))
qed simp_all

section \<open>Groups in flight\<close>

text \<open>
  C15. Groups in flight.  Whatever submissions, waits, polls and blocking executions an owner went through, failed ones
  included, it keeps at most eight groups its streams still wait for, all of them submitted ones, and its totals count
  each group the host saw end exactly once, with the transfers its report names.
\<close>

theorem in_flight_bounded:
  assumes "new_fast cuda current pid d a = Inr s0"
  shows "length (ff_inflight (run_calls nw pid' cs s0)) \<le> 8 \<and>
    (\<forall>h\<in>set (ff_inflight (run_calls nw pid' cs s0)). h < length (ff_groups (run_calls nw pid' cs s0))) \<and>
    ft_groups (ff_totals (run_calls nw pid' cs s0)) = int (card (done_groups (run_calls nw pid' cs s0))) \<and>
    ft_logical_transfers (ff_totals (run_calls nw pid' cs s0)) = ft_calls (ff_totals (run_calls nw pid' cs s0)) +
      (\<Sum>h\<in>done_groups (run_calls nw pid' cs s0). gr_logical_transfers (nw_report nw h))"
proof -
  from run_calls_good [OF new_fast_good [OF assms], of nw pid' cs] show ?thesis
    unfolding fast_good_def fast_ok_def accounted_def by simp
qed

theorem in_flight_bounded_witness:
  "length (ff_inflight (run_calls busy_native 1 ten_groups vector_owner)) \<le> 8 \<and>
     ff_inflight (run_calls busy_native 1 ten_groups vector_owner) = [2, 3, 4, 5, 6, 7, 8, 9] \<and>
     ft_groups (ff_totals (run_calls busy_native 1 ten_groups vector_owner)) = 2"
proof -
  have "ff_inflight (run_calls busy_native 1 ten_groups vector_owner) = [2, 3, 4, 5, 6, 7, 8, 9]" by code_simp
  moreover have "ft_groups (ff_totals (run_calls busy_native 1 ten_groups vector_owner)) = 2" by code_simp
  ultimately show ?thesis using in_flight_bounded [OF vector_owner_new, of busy_native 1 ten_groups] by blast
qed

text \<open>
  C17. Consumed groups end.  A group whose outputs a stream was given stays with the owner, as long as its calls return,
  until the host saw it end; closing the owner waits for it, with its outputs unchanged.  So no buffer of a group in
  flight is let go.
\<close>

theorem consumed_groups_end:
  assumes "h < length (ff_groups s)" and "completion_wait_stream nw h stream s = (Inr outs, s1)" and "calls_return nw pid cs s1"
    and "close_fast nw pid g (run_calls nw pid cs s1) = (Inr u, g', t)" and "\<not> ff_closed (run_calls nw pid cs s1)"
  shows "(is_done h (run_calls nw pid cs s1) \<or> h \<in> set (ff_inflight (run_calls nw pid cs s1))) \<and>
    is_done h t \<and> ff_inflight t = [] \<and> outs = fg_outputs (ff_groups s ! h) \<and> fg_outputs (ff_groups t ! h) = outs"
proof -
  note w = wait_stream_tracks [OF assms(2,1)]
  have e: "extends s s1" using w(1) by (simp add: tracks_def)
  have run: "tracks s1 (run_calls nw pid cs s1)" by (rule calls_return_tracks [OF assms(3)])
  then have held: "tracked h (run_calls nw pid cs s1)" and e1: "extends s1 (run_calls nw pid cs s1)" using w(2) by (simp_all add: tracks_def)
  have e2: "extends (run_calls nw pid cs s1) t" by (rule close_extends [OF assms(4)])
  have closed: "ff_inflight t = []" "h \<in> set (ff_inflight (run_calls nw pid cs s1)) \<Longrightarrow> is_done h t"
    using close_fast_spec(5) [OF assms(4,5) refl] held by (simp_all add: tracked_def)
  have "is_done h t" using held closed(2) extends_fields(6) [OF e2] by (auto simp: tracked_def)
  moreover have "fg_outputs (ff_groups t ! h) = fg_outputs (ff_groups s ! h)"
    using extends_fields(4) [OF owner_extends_trans [OF owner_extends_trans [OF e e1] e2] assms(1)] .
  ultimately show ?thesis using held closed(1) w(3) by (simp add: tracked_def)
qed

text \<open>One group handed to a stream, then another submitted and waited for.\<close>

definition one_group :: fast where
  "one_group = run_calls busy_native 1 [submit_vector] vector_owner"

definition one_consumed :: "live list res \<times> fast" where
  "one_consumed = completion_wait_stream busy_native 0 None one_group"

definition after_consumed :: "fast_call list" where
  "after_consumed = [submit_vector, Call_Wait 1]"

theorem consumed_groups_end_witness:
  "\<exists>outs s1 g' t. completion_wait_stream busy_native 0 None one_group = (Inr outs, s1) \<and> \<not> is_done 0 s1 \<and>
     close_fast busy_native 1 (new_registry :: nat registry) (run_calls busy_native 1 after_consumed s1) = (Inr (), g', t) \<and> is_done 0 t"
proof -
  obtain r s1 where w: "completion_wait_stream busy_native 0 None one_group = (r, s1)" by fastforce
  have "\<not> isl (fst one_consumed)" by code_simp
  then obtain outs where r: "r = Inr outs" using w by (cases r) (simp_all add: one_consumed_def)
  have s1: "s1 = snd one_consumed" using w by (simp add: one_consumed_def)
  have "calls_return busy_native 1 after_consumed (snd one_consumed)" by code_simp
  moreover have "\<not> ff_closed (run_calls busy_native 1 after_consumed (snd one_consumed))" by code_simp
  moreover have "\<not> is_done 0 (snd one_consumed)" by code_simp
  moreover have "0 < length (ff_groups one_group)" by code_simp
  moreover obtain c g' t where c: "close_fast busy_native 1 (new_registry :: nat registry) (run_calls busy_native 1 after_consumed s1) = (c, g', t)"
    by (metis surj_pair)
  moreover have "fst (close_fast busy_native 1 (new_registry :: nat registry) (run_calls busy_native 1 after_consumed (snd one_consumed))) = Inr ()"
    by code_simp
  ultimately show ?thesis
    using consumed_groups_end [of 0 one_group busy_native None outs s1 1 after_consumed new_registry "()" g' t] w r s1 by auto
qed

section \<open>Submission and closing\<close>

text \<open>
  C20. Groups are submitted whole.  A submission that returns has put one new group last: between 1 and 256 members,
  each admitted, with sources, outputs and native entries in the order of its items; one that raises adds no group.
  The group belongs to the host exactly when a member reads the device.
\<close>

theorem group_submission_whole:
  assumes "submit_group nw pid items outputs extra go s = (r, t)"
  shows "case r of
      Inl e \<Rightarrow> length (ff_groups t) = length (ff_groups s)
    | Inr h \<Rightarrow> h = length (ff_groups s) \<and> length (ff_groups t) = Suc h \<and> \<not> is_done h t \<and>
        1 \<le> length items \<and> length items \<le> 256 \<and> fg_sources (ff_groups t ! h) = map snd items \<and>
        length (fg_entries (ff_groups t ! h)) = length items \<and> length (fg_outputs (ff_groups t ! h)) = length items \<and>
        (\<forall>i<length items. check_member (fst (items ! i)) (snd (items ! i)) = Inr () \<and>
          fg_entries (ff_groups t ! h) ! i =
            member_entry (nw_views nw) (fst (items ! i)) (snd (items ! i)) (fg_outputs (ff_groups t ! h) ! i)) \<and>
        (outputs \<noteq> None \<longrightarrow> (\<forall>i<length items. fg_outputs (ff_groups t ! h) ! i = the outputs ! i)) \<and>
        fg_host (ff_groups t ! h) = (\<exists>i\<in>set items. member_direction (fst i) = ''d2h'')"
  using assms by (rule submit_group_spec)

theorem group_submission_whole_witness:
  "\<exists>t. submit_group busy_native 1 [(Prepared vector_program, host_vector), (Prepared vector_program, host_vector)] None []
       vector_options vector_owner = (Inr 0, t) \<and> length (fg_outputs (ff_groups t ! 0)) = 2 \<and> length (ff_groups t) = 1"
proof -
  let ?run = "submit_group busy_native 1 [(Prepared vector_program, host_vector), (Prepared vector_program, host_vector)] None []
       vector_options vector_owner"
  have "fst ?run = Inr 0" by code_simp
  then obtain t where run: "?run = (Inr 0, t)" by (cases ?run) simp
  from group_submission_whole [OF run] run show ?thesis by auto
qed

text \<open>
  Closing an owner.  Whether the groups in flight end well or not, a closed owner has released every handle
  registered with it, closed its resources, and refuses further groups before it touches anything.
\<close>

theorem fast_close_releases:
  assumes "close_fast nw pid g s = (r, g', t)" and "\<not> ff_closed s" and "ff_pid s = pid"
  shows "(\<forall>rn\<in>set (ff_registrations s). rn_live rn \<longrightarrow> map_of (rg_entries g') (rn_handle rn) = None) \<and>
    ff_resources t = snd (close_resources pid (ff_resources s)) \<and>
    submit_group nw pid items outputs extra go t = (Inl (RuntimeErr ''fast transfers are closed''), t)"
proof -
  note c = close_fast_spec [OF assms(1,2)]
  have "ff_pid t = pid" using close_keeps_pid [OF assms(1)] assms(3) by simp
  then have "check_open pid t = (Inl (RuntimeErr ''fast transfers are closed''), t)" using c(1)
    by (simp add: check_open_def andthen_def observe_def give_def ensure_def)
  then have "submit_group nw pid items outputs extra go t = (Inl (RuntimeErr ''fast transfers are closed''), t)"
    by (simp add: submit_group_def andthen_def)
  then show ?thesis using c(3,4) released_handles by metis
qed

text \<open>An owner with one registered program.\<close>

definition registered_owner :: "registration res \<times> nat registry \<times> fast" where
  "registered_owner = register_program 1 ''t'' 5 new_registry vector_owner"

theorem fast_close_releases_witness:
  "map_of (rg_entries (fst (snd registered_owner))) ''reloc-1-t'' = Some 5 \<and>
     (\<exists>r g' t. close_fast busy_native 1 (fst (snd registered_owner)) (snd (snd registered_owner)) = (r, g', t) \<and>
       map_of (rg_entries g') ''reloc-1-t'' = None)"
proof -
  have before: "map_of (rg_entries (fst (snd registered_owner))) ''reloc-1-t'' = Some 5" by code_simp
  obtain r g' t where c: "close_fast busy_native 1 (fst (snd registered_owner)) (snd (snd registered_owner)) = (r, g', t)"
    by (metis surj_pair)
  have "\<not> ff_closed (snd (snd registered_owner))" "ff_pid (snd (snd registered_owner)) = 1" by code_simp+
  moreover have "ff_registrations (snd (snd registered_owner)) = [\<lparr>rn_handle = ''reloc-1-t'', rn_live = True\<rparr>]" by code_simp
  ultimately have "map_of (rg_entries g') ''reloc-1-t'' = None" using fast_close_releases [OF c] by simp
  with before c show ?thesis by blast
qed

section \<open>The window\<close>

text \<open>
  C16. A prefetching window keeps the order.  The groups it hands out are, one for one and without a gap, those of the
  iterable, each with the outputs of its own submission; never more than its slots are pending or consumed and not
  known to be done; and every group handed out is done or still held.
\<close>

theorem prefetch_in_order:
  assumes "new_prefetch nw pid gs slots go f = (Inr u, p, f1)" and "take_groups nw pid n p f1 = Some (outs, p', f')"
  shows "\<exists>ids. n \<le> length ids \<and> length ids \<le> length gs \<and> sorted_wrt (<) ids \<and> length outs = n \<and>
    (\<forall>i<n. ids ! i < length (ff_groups f') \<and> (\<exists>items. gs ! i = Inr items \<and> fg_sources (ff_groups f' ! (ids ! i)) = map snd items) \<and>
      outs ! i = fg_outputs (ff_groups f' ! (ids ! i)) \<and> (ids ! i \<in> set (pf_consumed p') \<or> is_done (ids ! i) f')) \<and>
    pf_pending p' = drop n ids \<and> int (length (pf_pending p') + length (pf_consumed p')) \<le> max 0 slots"
proof -
  from new_prefetch_order [OF assms(1)] obtain ids0 where o: "in_order gs ids0 0 p f1" "window_bounded slots p" by blast
  from take_groups_order [OF assms(2) o] obtain ids where ids: "in_order gs ids n p' f'" "length outs = n" "window_bounded slots p'"
    "\<forall>i<n. outs ! i = fg_outputs (ff_groups f' ! (ids ! i))" by auto
  then show ?thesis unfolding in_order_def submitted_for_def window_bounded_def by (intro exI [of _ ids]) auto
qed

text \<open>Three groups of one vector each through two slots.\<close>

definition three_groups :: "(group_member \<times> live) list res list" where
  "three_groups = replicate 3 (Inr [(Prepared vector_program, host_vector)])"

definition vector_window :: "unit res \<times> prefetch \<times> fast" where
  "vector_window = new_prefetch busy_native 1 three_groups 2 vector_options vector_owner"

declare fill.simps [code]

definition three_taken :: "(live list list \<times> prefetch \<times> fast) option" where
  "three_taken = take_groups busy_native 1 3 (fst (snd vector_window)) (snd (snd vector_window))"

lemma vector_window_new:
  "new_prefetch busy_native 1 three_groups 2 vector_options vector_owner = (Inr (), fst (snd vector_window), snd (snd vector_window))"
proof -
  have "\<not> isl (fst vector_window)" by code_simp
  then have "fst vector_window = Inr ()" by (cases "fst vector_window") simp_all
  then show ?thesis by (metis prod.collapse vector_window_def)
qed

lemma three_taken_some: "\<exists>outs p f. three_taken = Some (outs, p, f)"
proof -
  have "\<not> Option.is_none three_taken" by code_simp
  then show ?thesis by (cases three_taken) auto
qed

theorem prefetch_in_order_witness:
  "\<exists>outs p f. take_groups busy_native 1 3 (fst (snd vector_window)) (snd (snd vector_window)) = Some (outs, p, f) \<and> length outs = 3 \<and>
     int (length (pf_pending p) + length (pf_consumed p)) \<le> 2"
proof -
  obtain outs p f where t: "take_groups busy_native 1 3 (fst (snd vector_window)) (snd (snd vector_window)) = Some (outs, p, f)"
    using three_taken_some by (auto simp: three_taken_def)
  from prefetch_in_order [OF vector_window_new t] t show ?thesis by auto
qed

lemma fill_no_slot: "slots < 1 \<Longrightarrow> pf_pending p = [] \<Longrightarrow> fill nw pid (min l slots) block p f = (Inr (), p, f)"
  by (subst fill.simps) (simp add: min_def split: option.split)

lemma take_groups_open:
  "take_groups nw pid n p f = Some (outs, p', f') \<Longrightarrow> \<not> pf_closed p \<Longrightarrow> \<not> pf_closed p'"
proof (induction n arbitrary: p f outs)
  case (Suc n)
  then obtain o1 p1 f1 os where nx: "next_group nw pid p f = (Inr o1, p1, f1)" and rest: "take_groups nw pid n p1 f1 = Some (os, p', f')"
    by (auto split: prod.splits sum.splits)
  from nx Suc.prems(2) have "\<not> pf_closed p1"
    by (auto simp: next_group_def split: prod.splits sum.splits list.splits dest!: fill_closed)
  with Suc.IH [OF rest] show ?case by simp
qed simp

lemma no_slot_takes_none:
  assumes "new_prefetch nw pid gs slots go f = (Inr u, p, f1)" and "take_groups nw pid n p f1 = Some (outs, p', f')" and "slots < 1"
  shows "n = 0 \<and> outs = [] \<and> f1 = f"
proof -
  let ?p = "\<lparr>pf_groups = Some gs, pf_slots = slots, pf_pending = [], pf_consumed = [], pf_closed = False, pf_options = go\<rparr>"
  have "fill nw pid (min 1 slots) True ?p f = (Inr (), ?p, f)" by (rule fill_no_slot) (use assms(3) in simp_all)
  then have p: "p = ?p \<and> f1 = f" using assms(1) by (simp add: new_prefetch_def)
  have "fill nw pid slots True ?p f = (Inr (), ?p, f)" using fill_no_slot [of slots ?p nw pid slots] assms(3) by simp
  then have "next_group nw pid p f1 = (Inl stop_iteration, ?p\<lparr>pf_closed := True\<rparr>, f)"
    using p by (simp add: next_group_def close_prefetch_def)
  with assms(2) p show ?thesis by (cases n) simp_all
qed

text \<open>
  C21. A prefetching window ends.  Take a window with at least one slot, a consumer that has taken \<open>n\<close> groups, and a native
  runtime whose waits never raise \<open>StopIteration\<close> themselves.  When the next call raises \<open>StopIteration\<close> and leaves the window
  closed, every group of the iterable has been handed out and every one of them was seen to end, so closing the window let
  no transfer run on.  A window without a slot, which \<open>FastPrefetch\<close> accepts, submits nothing and hands nothing out.
\<close>

theorem prefetch_drains:
  assumes "new_prefetch nw pid gs slots go f = (Inr u, p, f1)" and "take_groups nw pid n p f1 = Some (outs, p', f')"
    and "next_group nw pid p' f' = (Inl stop_iteration, p'', f'')" and "pf_closed p''"
    and "\<forall>t h. nw_wait nw t h \<noteq> Inl stop_iteration"
  shows "(1 \<le> slots \<longrightarrow> n = length gs \<and> length outs = length gs \<and>
      (\<exists>ids. length ids = length gs \<and> sorted_wrt (<) ids \<and> (\<forall>i<length gs. is_done (ids ! i) f'' \<and>
        (\<exists>items. gs ! i = Inr items \<and> fg_sources (ff_groups f' ! (ids ! i)) = map snd items)))) \<and>
    (slots < 1 \<longrightarrow> n = 0 \<and> outs = [] \<and> f1 = f)"
proof -
  from new_prefetch_order [OF assms(1)] obtain ids0 where o: "in_order gs ids0 0 p f1" "window_bounded slots p" "\<not> pf_closed p" by blast
  from take_groups_order [OF assms(2) o(1,2)] obtain ids where ids: "in_order gs ids n p' f'" "length outs = n" "window_bounded slots p'"
    by auto
  note open_window = take_groups_open [OF assms(2) o(3)]
  have "?thesis" if slots: "1 \<le> slots"
  proof -
    have "1 \<le> pf_slots p'" using ids(3) slots by (simp add: window_bounded_def)
    note e = next_ends [OF assms(3) ids(1) open_window assms(4) this]
    have n: "n = length gs" by (rule e(1))
    have "\<forall>i<n. is_done (ids ! i) f''" by (rule e(2) [OF refl assms(5)])
    with n ids(1,2) slots show ?thesis unfolding in_order_def submitted_for_def by (intro conjI impI exI [of _ ids]) auto
  qed
  then show ?thesis using no_slot_takes_none [OF assms(1,2)] by (cases "1 \<le> slots") simp_all
qed

definition after_three :: "live list res \<times> prefetch \<times> fast" where
  "after_three = (case three_taken of Some (outs, p, f) \<Rightarrow> next_group busy_native 1 p f)"

theorem prefetch_drains_witness:
  "\<exists>outs p f p' f' ids. three_taken = Some (outs, p, f) \<and> next_group busy_native 1 p f = (Inl stop_iteration, p', f') \<and>
     length outs = 3 \<and> length ids = 3 \<and> (\<forall>i<3. is_done (ids ! i) f')"
proof -
  obtain outs p f where t: "three_taken = Some (outs, p, f)" using three_taken_some by blast
  obtain r p' f' where nx: "next_group busy_native 1 p f = (r, p', f')" by (metis surj_pair)
  have run: "after_three = (r, p', f')" by (simp add: after_three_def t nx)
  have "fst after_three = Inl stop_iteration" by code_simp
  then have r: "r = Inl stop_iteration" by (simp add: run)
  have "pf_closed (fst (snd after_three))" by code_simp
  then have closed: "pf_closed p'" by (simp add: run)
  have waits: "\<forall>t h. nw_wait busy_native t h \<noteq> Inl stop_iteration" by (simp add: busy_native_def)
  have "n = 3 \<longrightarrow> length three_groups = n" for n by (simp add: three_groups_def)
  moreover from prefetch_drains [OF vector_window_new t [unfolded three_taken_def] nx [unfolded r] closed waits]
  obtain ids where "length outs = length three_groups" "length ids = length three_groups" "\<forall>i<length three_groups. is_done (ids ! i) f'"
    by auto
  ultimately show ?thesis using t nx r by (intro exI [of _ outs] exI [of _ p] exI [of _ f] exI [of _ p'] exI [of _ f'] exI [of _ ids]) simp
qed

end
