(* ===== verification/Fast_Weights.thy ===== *)
theory Fast_Weights
  imports Fast_Programs Wire_Weights
begin

text \<open>
  \<open>FastWeights\<close> of \<open>reloc_torch/fast.py\<close>: groups of prepared wire weights whose members are kept from call to call
  and rebuilt when the store has prepared a newer revision.
\<close>

text \<open>
  A revision stands for its packed source and native template, which \<open>packed\<close> gives: two revisions are never the same
  object.
\<close>

type_synonym packed = "nat \<Rightarrow> nat \<times> live"

definition fast_entries :: "int \<Rightarrow> string list \<Rightarrow> weights \<Rightarrow> weight_info list res" where
  "fast_entries pid names w = res_bind (weights_open pid w) (\<lambda>_.
     mapR (\<lambda>n. case map_of (ww_entries w) n of None \<Rightarrow> Inl (KeyErr n) | Some i \<Rightarrow> Inr i) names)"

text \<open>\<open>_WireEntry\<close>: the snapshot's template as a typed program, without binding it again.\<close>

definition wire_program :: "device \<Rightarrow> string \<Rightarrow> nat \<times> live \<Rightarrow> fast_program" where
  "wire_program d dtype e = (let source = snd e in
     \<lparr>fp_typed = True, fp_native = fst e, fp_bindings = [], fp_signature = signature_of source, fp_dtype = ''int8'',
      fp_direction = ''h2d'', fp_view = (''host'', - 1),
      fp_destination = \<lparr>cd_shape = lv_shape source, cd_strides = lv_strides source, cd_dtype = dtype, cd_device = d\<rparr>,
      fp_parameter_bytes = 0\<rparr>)"

text \<open>A kept member with the revision it was built for and the registration that dies with it.\<close>

record weight_member =
  wm_program :: fast_program
  wm_revision :: nat
  wm_registration :: registration

type_synonym weight_members = "(string, weight_member) odict"

fun fast_items :: "int \<Rightarrow> string \<Rightarrow> string \<Rightarrow> packed \<Rightarrow> (string \<times> weight_info) list \<Rightarrow> weight_members \<Rightarrow> fast_entry registry \<Rightarrow> fast \<Rightarrow>
    (group_member \<times> live) list res \<times> weight_members \<times> fast_entry registry \<times> fast" where
  "fast_items pid token dtype packed [] ms g f = (Inr [], ms, g, f)"
| "fast_items pid token dtype packed ((n, i) # rest) ms g f =
     (let source = snd (packed (wi_revision i)) in
      case (case map_of ms n of
          Some m \<Rightarrow> if wm_revision m = wi_revision i then Some (wm_program m) else None
        | None \<Rightarrow> None) of
        Some p \<Rightarrow> (case fast_items pid token dtype packed rest ms g f of
            (Inl e, s) \<Rightarrow> (Inl e, s) | (Inr items, s) \<Rightarrow> (Inr ((Prepared p, source) # items), s))
      | None \<Rightarrow> (let p = wire_program (ff_device f) dtype (packed (wi_revision i)) in
          case register_program pid token (Typed_Entry p) g f of
            (Inl e, g, f) \<Rightarrow> (Inl e, ms, g, f)
          | (Inr r, g, f) \<Rightarrow> (case fast_items pid token dtype packed rest
                (od_set n \<lparr>wm_program = p, wm_revision = wi_revision i, wm_registration = r\<rparr> ms) g f of
              (Inl e, s) \<Rightarrow> (Inl e, s) | (Inr items, s) \<Rightarrow> (Inr ((Prepared p, source) # items), s))))"

definition weight_items :: "int \<Rightarrow> string \<Rightarrow> packed \<Rightarrow> string list \<Rightarrow> weights \<Rightarrow> weight_members \<Rightarrow> fast_entry registry \<Rightarrow> fast \<Rightarrow>
    (group_member \<times> live) list res \<times> weight_members \<times> fast_entry registry \<times> fast" where
  "weight_items pid token packed names w ms g f = (case fast_entries pid names w of
     Inl e \<Rightarrow> (Inl e, ms, g, f)
   | Inr entries \<Rightarrow> fast_items pid token (ww_output_dtype w) packed (zip names entries) ms g f)"

definition weight_options :: group_options where
  "weight_options = \<lparr>go_threads = Some 1, go_device_layout = False, go_chunked = False, go_pin_outputs = True\<rparr>"

definition submit_weights :: "fast_native \<Rightarrow> int \<Rightarrow> string \<Rightarrow> packed \<Rightarrow> string list \<Rightarrow> weights \<Rightarrow> weight_members \<Rightarrow> fast_entry registry \<Rightarrow> fast \<Rightarrow>
    nat res \<times> weight_members \<times> fast_entry registry \<times> fast" where
  "submit_weights nw pid token packed names w ms g f = (case weight_items pid token packed names w ms g f of
     (Inl e, s) \<Rightarrow> (Inl e, s)
   | (Inr items, ms, g, f) \<Rightarrow> (case submit_group nw pid items None [] weight_options f of (r, f) \<Rightarrow> (r, ms, g, f)))"

definition load_weights :: "fast_native \<Rightarrow> int \<Rightarrow> string \<Rightarrow> packed \<Rightarrow> string list \<Rightarrow> weights \<Rightarrow> weight_members \<Rightarrow> fast_entry registry \<Rightarrow> fast \<Rightarrow>
    live list res \<times> weight_members \<times> fast_entry registry \<times> fast" where
  "load_weights nw pid token packed names w ms g f = (case submit_weights nw pid token packed names w ms g f of
     (Inl e, s) \<Rightarrow> (Inl e, s)
   | (Inr h, ms, g, f) \<Rightarrow> (case completion_wait nw h f of (r, f) \<Rightarrow> (r, ms, g, f)))"

section \<open>Members are those of the current revision\<close>

text \<open>What a fresh cache would hold for every kept name.\<close>

definition members_ok :: "device \<Rightarrow> string \<Rightarrow> packed \<Rightarrow> weight_members \<Rightarrow> bool" where
  "members_ok d dtype packed ms \<longleftrightarrow> (\<forall>n m. map_of ms n = Some m \<longrightarrow> wm_program m = wire_program d dtype (packed (wm_revision m)))"

definition current_item :: "device \<Rightarrow> string \<Rightarrow> packed \<Rightarrow> weight_info \<Rightarrow> group_member \<times> live" where
  "current_item d dtype packed i = (Prepared (wire_program d dtype (packed (wi_revision i))), snd (packed (wi_revision i)))"

lemma members_ok_set:
  "members_ok d dtype packed ms \<Longrightarrow>
     members_ok d dtype packed (od_set n \<lparr>wm_program = wire_program d dtype (packed v), wm_revision = v, wm_registration = r\<rparr> ms)"
  by (auto simp: members_ok_def)

lemma register_keeps_device: "register_program pid token x g f = (r, g', f') \<Longrightarrow> ff_device f' = ff_device f"
  by (auto simp: register_program_def check_open_def andthen_def observe_def give_def split: sum.splits prod.splits)

lemma fast_items_current:
  "fast_items pid token dtype packed nis ms g f = (r, ms', g', f') \<Longrightarrow> members_ok (ff_device f) dtype packed ms \<Longrightarrow>
     members_ok (ff_device f) dtype packed ms' \<and> ff_device f' = ff_device f \<and>
     (\<forall>items. r = Inr items \<longrightarrow> items = map (current_item (ff_device f) dtype packed \<circ> snd) nis)"
proof (induction nis arbitrary: ms g f r)
  case (Cons ni rest)
  obtain n i where ni: "ni = (n, i)" by (cases ni)
  let ?p = "wire_program (ff_device f) dtype (packed (wi_revision i))"
  show ?case
  proof (cases "\<exists>m. map_of ms n = Some m \<and> wm_revision m = wi_revision i")
    case True
    then obtain m where m: "map_of ms n = Some m" "wm_revision m = wi_revision i" by blast
    with Cons.prems(2) have p: "wm_program m = ?p" by (auto simp: members_ok_def)
    obtain r1 s where rest: "fast_items pid token dtype packed rest ms g f = (r1, s)" by (metis surj_pair)
    with Cons.prems(1) m ni have s: "s = (ms', g', f')" by (auto simp: Let_def split: sum.splits)
    have "r = (case r1 of Inl e \<Rightarrow> Inl e | Inr items \<Rightarrow> Inr (current_item (ff_device f) dtype packed i # items))"
      using Cons.prems(1) m ni rest p by (auto simp: Let_def current_item_def split: sum.splits)
    with Cons.IH [OF rest [unfolded s] Cons.prems(2)] ni show ?thesis by (auto split: sum.splits)
  next
    case False
    obtain q g1 f1 where reg: "register_program pid token (Typed_Entry ?p) g f = (q, g1, f1)" by (metis surj_pair)
    note d = register_keeps_device [OF reg]
    have none: "(case map_of ms n of Some m \<Rightarrow> if wm_revision m = wi_revision i then Some (wm_program m) else None | None \<Rightarrow> None) = None"
      using False by (auto split: option.split)
    show ?thesis
    proof (cases q)
      case (Inl e)
      with Cons.prems ni reg none d show ?thesis by (auto simp: Let_def)
    next
      case (Inr x)
      let ?ms = "od_set n \<lparr>wm_program = ?p, wm_revision = wi_revision i, wm_registration = x\<rparr> ms"
      obtain r1 s where rest: "fast_items pid token dtype packed rest ?ms g1 f1 = (r1, s)" by (metis surj_pair)
      with Cons.prems(1) ni reg none Inr have s: "s = (ms', g', f')" by (auto simp: Let_def split: sum.splits)
      have r: "r = (case r1 of Inl e \<Rightarrow> Inl e | Inr items \<Rightarrow> Inr (current_item (ff_device f) dtype packed i # items))"
        using Cons.prems(1) ni reg none Inr rest by (auto simp: Let_def current_item_def split: sum.splits)
      have "members_ok (ff_device f1) dtype packed ?ms" unfolding d by (rule members_ok_set [OF Cons.prems(2)])
      from Cons.IH [OF rest [unfolded s] this] r ni d show ?thesis by (auto split: sum.splits)
    qed
  qed
qed simp

lemma fast_entries_length: "fast_entries pid names w = Inr is \<Longrightarrow> length is = length names"
  by (auto simp: fast_entries_def dest: mapR_length)

lemma weight_items_current:
  assumes "weight_items pid token packed names w ms g f = (r, ms', g', f')" and "members_ok (ff_device f) (ww_output_dtype w) packed ms"
  shows "members_ok (ff_device f) (ww_output_dtype w) packed ms' \<and>
    (\<forall>items. r = Inr items \<longrightarrow> (\<exists>is. fast_entries pid names w = Inr is \<and> items = map (current_item (ff_device f) (ww_output_dtype w) packed) is))"
proof (cases "fast_entries pid names w")
  case (Inl e)
  with assms show ?thesis by (auto simp: weight_items_def)
next
  case (Inr es)
  have "map (current_item (ff_device f) (ww_output_dtype w) packed \<circ> snd) (zip names es) =
    map (current_item (ff_device f) (ww_output_dtype w) packed) es"
    using fast_entries_length [OF Inr] by (simp flip: map_map)
  with assms Inr fast_items_current [of pid token "ww_output_dtype w" packed "zip names es" ms g f r ms' g' f']
  show ?thesis by (simp add: weight_items_def)
qed

lemma current_item_admitted: "check_member (fst (current_item d dtype packed i)) (snd (current_item d dtype packed i)) = Inr ()"
  by (simp add: current_item_def check_member_def check_program_def wire_program_def ensure_def Let_def)

end
