(* ===== verification/Swap_Properties.thy ===== *)
theory Swap_Properties
  imports Fast_Properties Fast_Weights Data_Properties Replay
begin

text \<open>
  What prepared programs, their operators, prepared weights and the cache swap promise.
\<close>

section \<open>Prepared programs\<close>

lemma den_agree: "(\<And>n. n \<in> set (symbols_of e) \<Longrightarrow> \<rho> n = \<sigma> n) \<Longrightarrow> den \<rho> e = den \<sigma> e"
  by (induction e) auto

lemma lookup_den:
  assumes "evaluate True (map_of (sort_key fst (map (\<lambda>n. (n, PyInt (\<rho> n))) ns))) e = Inr v"
  shows "den \<rho> e = v"
proof -
  let ?b = "map_of (sort_key fst (map (\<lambda>n. (n, PyInt (\<rho> n))) ns))"
  have val: "x = PyInt (\<rho> n)" if "?b n = Some x" for n x
    using map_of_SomeD [OF that] by auto
  have "env_val ?b n = \<rho> n" if "n \<in> set (symbols_of e)" for n
    using evaluate_binds [OF assms] that val [of n] by (auto simp: binds_def env_val_def)
  then have "den (env_val ?b) e = den \<rho> e" by (rule den_agree)
  with evaluate_den [OF assms] show ?thesis by simp
qed

lemma lookup_dens:
  "mapR (evaluate True (map_of (sort_key fst (map (\<lambda>n. (n, PyInt (\<rho> n))) ns)))) es = Inr vs \<Longrightarrow> map (den \<rho>) es = vs"
  by (induction es arbitrary: vs) (auto dest: lookup_den)

text \<open>
  C18. Prepared programs mean their recipe.  A layout program prepared from an admitted artifact (of a recipe without an
  index: \<open>layout\<close> takes no other) declares, for the shape of its source, the shape and dtype its recipe reaches from that
  shape.  Its direction is the recipe's: an h2d program was prepared from a CPU tensor and its destination is on the
  owner's device, a d2h program from a CUDA tensor on the owner's device and its destination is on the CPU, and there is
  no third kind.  It admits exactly the sources of that very shape, strides, dtype and kind of device.
\<close>

theorem layout_program_refines:
  assumes "admit nv r mlir plan manifest = Inr a" and "\<not> recipe_indexed r" and "prepare_layout_program pn d a src = Inr p"
  shows "(\<exists>\<rho>. fp_bindings p = map (\<lambda>n. (n, PyInt (\<rho> n))) (cr_symbols a) \<and>
      concrete_chain \<rho> (lv_shape src, lv_dtype src) (r_operations r) =
        Some (cd_shape (fp_destination p), cd_dtype (fp_destination p))) \<and>
    fp_direction p = r_direction r \<and>
    (r_direction r = ''h2d'' \<and> dv_type (lv_device src) = ''cpu'' \<and> fp_view p = (''host'', - 1) \<and>
        concrete_descriptor.cd_device (fp_destination p) = d \<or>
     r_direction r = ''d2h'' \<and> dv_type (lv_device src) = ''cuda'' \<and> lv_device src = d \<and> fp_view p = (''cuda'', device_number d) \<and>
        concrete_descriptor.cd_device (fp_destination p) = \<lparr>dv_type = ''cpu'', dv_index = None\<rparr>) \<and>
    (check_program p other = Inr () \<longleftrightarrow> lv_shape other = lv_shape src \<and> lv_strides other = lv_strides src \<and>
       lv_dtype other = lv_dtype src \<and> dv_type (lv_device other) = dv_type (lv_device src))"
proof -
  have rec: "cr_recipe a = r" by (rule admit_identity(1) [OF assms(1)])
  have ni: "\<not> cr_indexed a" using assms(2) admit_identity(4) [OF assms(1)] by (simp add: cr_indexed_def wire_version_of_def)
  from assms(3) obtain b frame bound where b: "bind_program a src None = Inr b" and frame: "program_frame d a src b = Inr frame"
    and p: "p = new_program False bound b src a frame 0"
    by (auto simp: prepare_layout_program_def res_simps split: if_splits)
  from b obtain c where c: "tensor_spec_of (tensor_view src) = Inr c" and bd: "metadata_bind a c = Inr b"
    using ni by (auto simp: bind_program_def bind_values_def reason_of_def res_simps split: sum.splits)
  have shape: "map the_int (ts_shape c) = lv_shape src" "ts_dtype c = lv_dtype src"
    using c by (auto simp: tensor_spec_of_def tensor_view_def remove_prefix_def comp_def)
  obtain \<rho> where items: "b = map (\<lambda>n. (n, PyInt (\<rho> n))) (cr_symbols a)"
    and chain: "concrete_chain \<rho> (map the_int (ts_shape c), ts_dtype c) (r_operations r) =
      Some (ts_shape (den_spec \<rho> (cr_logical_destination a)), ts_dtype (cr_logical_destination a))"
    by (rule metadata_bind_sound [OF assms(1,2) bd])
  obtain view cd where pair: "frame = (view, cd)" by fastforce
  from frame rec obtain t where dest: "destination_descriptor a b t = Inr cd"
    and t: "r_direction r = ''h2d'' \<and> dv_type (lv_device src) = ''cpu'' \<and> view = (''host'', - 1) \<and> t = d \<or>
      r_direction r = ''d2h'' \<and> dv_type (lv_device src) = ''cuda'' \<and> lv_device src = d \<and> view = (''cuda'', device_number d) \<and>
        t = \<lparr>dv_type = ''cpu'', dv_index = None\<rparr>"
    by (auto simp: pair program_frame_def direction_devices_def Let_def res_simps split: if_splits option.splits)
  from dest obtain shp where ev: "mapR (evaluate True (map_of (sort_key fst b))) (ts_shape (cr_logical_destination a)) = Inr shp"
    and cd: "cd_shape cd = shp" "cd_dtype cd = ts_dtype (cr_logical_destination a)" "cd_device cd = t"
    by (auto simp: destination_descriptor_def destination_metadata_def reason_of_def Let_def res_bind_def split: sum.splits if_splits)
  have "map (den \<rho>) (ts_shape (cr_logical_destination a)) = shp" by (rule lookup_dens [OF ev [unfolded items]])
  with chain shape items cd rec have "(\<exists>\<rho>. fp_bindings p = map (\<lambda>n. (n, PyInt (\<rho> n))) (cr_symbols a) \<and>
      concrete_chain \<rho> (lv_shape src, lv_dtype src) (r_operations r) =
        Some (cd_shape (fp_destination p), cd_dtype (fp_destination p)))"
    by (auto simp: p pair new_program_def den_spec_def)
  moreover have "fp_direction p = r_direction r" "fp_view p = view" "concrete_descriptor.cd_device (fp_destination p) = t"
    "fp_signature p = signature_of src"
    using rec cd by (simp_all add: p pair new_program_def)
  ultimately show ?thesis using t by (simp add: check_program_def ensure_def signature_of_def)
qed

text \<open>The runtime binds any layout.\<close>

definition plain_native :: program_native where
  "plain_native = \<lparr>pn_typed = (\<lambda>_ _. Inr 1), pn_template = (\<lambda>_ _. Inr 2), pn_layout = (\<lambda>_. Inr (3, False)),
     pn_indexed = (\<lambda>_ _ _ _ _ _. Inr 4), pn_pooled = (\<lambda>_ _ _ _ _ _. Inr 5), pn_from_program = (\<lambda>_. Inr 6),
     pn_request = (\<lambda>_ _ _. Inr 7), pn_index_request = (\<lambda>_ _ _ _ _. Inr 8), pn_index_group = (\<lambda>_ _ _ _ _. Inr [])\<rparr>"

lemma vector_prepared: "prepare_layout_program plain_native gpu0 readme_artifact host_vector = Inr vector_program"
proof -
  have flags: "\<not> cr_typed readme_artifact" "\<not> cr_indexed readme_artifact"
    using vector_flags(5) by (simp_all add: vector_entry_def cr_indexed_def readme_artifact_def)
  have bound: "bind_program readme_artifact host_vector None = Inr [(''s0'', PyInt 128)]"
    using vector_bound by (simp add: bind_program_def reason_of_def)
  have direction: "r_direction (cr_recipe readme_artifact) = ''h2d''" by (simp add: readme_artifact_def readme_recipe_def)
  have frame: "program_frame gpu0 readme_artifact host_vector [(''s0'', PyInt 128)] = Inr ((''host'', - 1), matrix_descriptor)"
    using vector_destination direction by (simp add: program_frame_def direction_devices_def host_vector_def cpu_def)
  show ?thesis using flags bound frame direction
    by (simp add: prepare_layout_program_def ensure_def check_plain_def plain_native_def unsupported_def new_program_def
        vector_program_def host_vector_def Let_def)
qed

theorem layout_program_refines_witness:
  "\<exists>\<rho>. concrete_chain \<rho> ([128], ''float32'') (r_operations readme_recipe) = Some ([64, 2], ''float32'') \<and>
     fp_destination vector_program = matrix_descriptor \<and> concrete_descriptor.cd_device matrix_descriptor = gpu0"
proof -
  have f: "lv_shape host_vector = [128]" "lv_dtype host_vector = ''float32''" "cd_shape (fp_destination vector_program) = [64, 2]"
    "cd_dtype (fp_destination vector_program) = ''float32''" "fp_destination vector_program = matrix_descriptor"
    "r_direction readme_recipe = ''h2d''"
    by (simp_all add: host_vector_def vector_program_def matrix_descriptor_def readme_recipe_def)
  from layout_program_refines [OF readme_admitted readme_layout(1) vector_prepared, of host_vector] show ?thesis
    unfolding f(1-4) using f(5,6) by auto
qed

section \<open>Operators\<close>

text \<open>Torch's \<open>empty_strided\<close> returns what it was asked for.\<close>

definition allocates :: "fast_native \<Rightarrow> bool" where
  "allocates nw \<longleftrightarrow> (\<forall>t c pin out. nw_allocate nw t c pin = Inr out \<longrightarrow> lv_shape out = cd_shape c \<and>
     lv_strides out = cd_strides c \<and> lv_dtype out = cd_dtype c \<and> lv_device out = cd_device c)"

lemma execute_typed_allocated:
  assumes "execute_typed nw pid p src None s = (Inr out, t)"
  obtains n pin where "nw_allocate nw n (fp_destination p) pin = Inr out"
  using assms by (auto simp: execute_typed_def allocate_def ask_def andthen_Inr give_def)

text \<open>
  C23. An operator is its program.  On the arguments a typed program passes, its custom operator does exactly what a
  direct call does, state and errors included, so long as the handle stands for the program: the check of the declared
  metadata never fails there.
\<close>

theorem fast_op_transparent:
  assumes "lookup_program h g s = Inr (Typed_Entry p)" and "typed_op_arguments p = Inr (shape, strides, d, dtype)" and "allocates nw"
  shows "typed_op nw pid src h shape strides d dtype g s = execute_typed nw pid p src None s"
proof -
  obtain r t where run: "execute_typed nw pid p src None s = (r, t)" by fastforce
  have "verify_declared shape (Some strides) d dtype out = Inr out" if r: "r = Inr out" for out
  proof -
    obtain n pin where "nw_allocate nw n (fp_destination p) pin = Inr out" by (rule execute_typed_allocated [OF run [unfolded r]])
    with assms(2,3) show ?thesis unfolding allocates_def
      by (auto simp: typed_op_arguments_def Let_def verify_declared_def split: if_splits)
  qed
  with run assms(1) show ?thesis
    by (cases r) (simp_all add: typed_op_def andthen_def observe_def give_def)
qed

theorem fast_op_transparent_witness:
  "\<exists>out t. typed_op busy_native 1 host_vector ''h'' [64, 2] [2, 1] gpu0 ''float32'' \<lparr>rg_next = 2, rg_entries = [(''h'', Typed_Entry vector_program)]\<rparr>
     vector_owner = (Inr out, t) \<and> lv_shape out = [64, 2]"
proof -
  let ?g = "\<lparr>rg_next = 2, rg_entries = [(''h'', Typed_Entry vector_program)]\<rparr>"
  have "\<not> ff_closed vector_owner" by code_simp
  then have "lookup_program ''h'' ?g vector_owner = Inr (Typed_Entry vector_program)"
    by (simp add: lookup_program_def lookup_handle_def)
  moreover have "typed_op_arguments vector_program = Inr ([64, 2], [2, 1], gpu0, ''float32'')"
    by (simp add: typed_op_arguments_def vector_program_def matrix_descriptor_def)
  moreover have "allocates busy_native" by (auto simp: allocates_def busy_native_def)
  ultimately have "typed_op busy_native 1 host_vector ''h'' [64, 2] [2, 1] gpu0 ''float32'' ?g vector_owner =
    execute_typed busy_native 1 vector_program host_vector None vector_owner" by (rule fast_op_transparent)
  moreover obtain r t where run: "execute_typed busy_native 1 vector_program host_vector None vector_owner = (r, t)" by fastforce
  moreover have "\<not> isl (fst (execute_typed busy_native 1 vector_program host_vector None vector_owner))" by code_simp
  moreover have "lv_shape (projr (fst (execute_typed busy_native 1 vector_program host_vector None vector_owner))) = [64, 2]" by code_simp
  ultimately show ?thesis by (cases r) simp_all
qed

section \<open>Prepared weights\<close>

text \<open>
  C19. Weights are never stale.  A group of prepared weights is made of the members of the revisions the store holds at
  the call, whatever members earlier calls kept: every member is the snapshot's own program with the snapshot's own
  source, which the owner admits; and the kept members stay what their revisions are.
\<close>

theorem fast_weights_current:
  assumes "weight_items pid token packed names w ms g f = (Inr items, ms', g', f')"
    and "members_ok (ff_device f) (ww_output_dtype w) packed ms"
  shows "(\<exists>is. fast_entries pid names w = Inr is \<and> items = map (current_item (ff_device f) (ww_output_dtype w) packed) is) \<and>
    (\<forall>(m, src)\<in>set items. check_member m src = Inr ()) \<and> members_ok (ff_device f) (ww_output_dtype w) packed ms'"
proof -
  from weight_items_current [OF assms] obtain "is" where cur: "fast_entries pid names w = Inr is"
    "items = map (current_item (ff_device f) (ww_output_dtype w) packed) is"
    and ok: "members_ok (ff_device f) (ww_output_dtype w) packed ms'" by blast
  have "\<forall>(m, src)\<in>set items. check_member m src = Inr ()" by (simp add: cur(2) split_beta current_item_admitted)
  with cur ok show ?thesis by blast
qed

text \<open>A store that has prepared the weight again since a member was kept.\<close>

definition weight_revision :: packed where
  "weight_revision n = (n, host_vector\<lparr>lv_id := n, lv_dtype := ''int8''\<rparr>)"

definition second_revision :: weights where
  "second_revision = \<lparr>ww_budget = new_budget 4096 4096 4, ww_max_entries = 4, ww_pin = False, ww_output_dtype = ''float32'',
     ww_pid = 1, ww_entries = [(''w'', weight_info_of ''w'' 2 2 64 ''float32'' False)], ww_retired = [], ww_closed = False, ww_revision = 2\<rparr>"

definition first_members :: weight_members where
  "first_members = [(''w'', \<lparr>wm_program = wire_program gpu0 ''float32'' (weight_revision 1), wm_revision = 1,
     wm_registration = \<lparr>rn_handle = ''reloc-1-t'', rn_live = True\<rparr>\<rparr>)]"

definition current_items :: "(group_member \<times> live) list res \<times> weight_members \<times> fast_entry registry \<times> fast" where
  "current_items = weight_items 1 ''t'' weight_revision [''w''] second_revision first_members new_registry vector_owner"

theorem fast_weights_current_witness:
  "\<exists>items s. current_items = (Inr items, s) \<and> items = [current_item gpu0 ''float32'' weight_revision (weight_info_of ''w'' 2 2 64 ''float32'' False)]"
proof -
  obtain r ms g f where run: "weight_items 1 ''t'' weight_revision [''w''] second_revision first_members new_registry vector_owner = (r, ms, g, f)"
    by (metis surj_pair)
  have "\<not> isl (fst current_items)" by code_simp
  then obtain items where r: "r = Inr items" using run by (cases r) (simp_all add: current_items_def)
  have d: "ff_device vector_owner = gpu0" by code_simp
  have "members_ok (ff_device vector_owner) (ww_output_dtype second_revision) weight_revision first_members"
    by (simp add: d second_revision_def members_ok_def first_members_def)
  from fast_weights_current [OF run [unfolded r] this] have "items = [current_item gpu0 ''float32'' weight_revision (weight_info_of ''w'' 2 2 64 ''float32'' False)]"
    by (auto simp: d second_revision_def fast_entries_def weights_open_def)
  with run r show ?thesis by (auto simp: current_items_def)
qed

section \<open>The cache swap\<close>

text \<open>
  Torch's \<open>permute\<close> of the first two axes of three, and \<open>contiguous\<close>, on tensors whose elements \<open>el\<close> reads by index.
\<close>

definition swaps_axes :: "'t torch_layout \<Rightarrow> ('t \<Rightarrow> int list \<Rightarrow> 'e) \<Rightarrow> bool" where
  "swaps_axes T el \<longleftrightarrow>
     (\<forall>t. length (to_shape T t) = 3 \<longrightarrow> (\<exists>u. to_permute T [1, 0, 2] t = Inr u \<and> to_shape T u = permute [1, 0, 2] (to_shape T t) \<and>
        (\<forall>idx. in_bounds idx (to_shape T t) \<longrightarrow> el u (permute [1, 0, 2] idx) = el t idx))) \<and>
     (\<forall>t. \<exists>u. to_contiguous T t = Inr u \<and> to_shape T u = to_shape T t \<and> (\<forall>idx. in_bounds idx (to_shape T t) \<longrightarrow> el u idx = el t idx))"

lemma swap_sources:
  "symbol_sources (ts_shape (r_source (swap_recipe h n True))) = Inr [\<lparr>ss_name = ''s0'', ss_axis = 1, ss_equal_axes = [], ss_operand = ''source''\<rparr>]"
  "symbol_sources (ts_shape (r_source (swap_recipe h n False))) = Inr [\<lparr>ss_name = ''s0'', ss_axis = 0, ss_equal_axes = [], ss_operand = ''source''\<rparr>]"
  by (simp_all add: swap_recipe_def float_spec_def Let_def symbol_sources_def)

lemma swap_replay:
  assumes T: "swaps_axes T el" and shape: "to_shape T t = [a, b, c]"
  shows "\<exists>u. replay T (swap_recipe h n evict) t = Inr u \<and> to_shape T u = [b, a, c] \<and>
    (\<forall>idx. in_bounds idx [a, b, c] \<longrightarrow> el u (permute [1, 0, 2] idx) = el t idx)"
proof -
  have "length (to_shape T t) = 3" by (simp add: shape)
  then obtain p where "to_permute T [1, 0, 2] t = Inr p \<and> to_shape T p = permute [1, 0, 2] (to_shape T t) \<and>
      (\<forall>idx. in_bounds idx (to_shape T t) \<longrightarrow> el p (permute [1, 0, 2] idx) = el t idx)"
    using T unfolding swaps_axes_def by blast
  moreover have "permute [1, 0, 2] [a, b, c] = [b, a, c]" by (simp add: permute_def numeral_2_eq_2)
  ultimately have p: "to_permute T [1, 0, 2] t = Inr p" "to_shape T p = [b, a, c]"
    "\<forall>idx. in_bounds idx [a, b, c] \<longrightarrow> el p (permute [1, 0, 2] idx) = el t idx"
    using shape by simp_all
  obtain u where u: "to_contiguous T p = Inr u" "to_shape T u = to_shape T p"
    "\<forall>idx. in_bounds idx (to_shape T p) \<longrightarrow> el u idx = el p idx"
    using T unfolding swaps_axes_def by blast
  have "replay T (swap_recipe h n evict) t = Inr u" using p(1) u(1) shape
    by (cases evict) (simp_all add: replay_def swap_sources, simp_all add: swap_recipe_def replay_operation_def Let_def)
  moreover have "el u (permute [1, 0, 2] idx) = el t idx" if "in_bounds idx [a, b, c]" for idx
    using p(2,3) u(3) that swap_axes(1) [OF that] by simp
  ultimately show ?thesis using p(2) u(2) by (intro exI [of _ u]) simp
qed

text \<open>
  Eviction and restoration invert each other.  The two recipes of a swap, replayed by Torch's operations, take a
  cache \<open>[H, S, D]\<close> to \<open>[S, H, D]\<close> with element \<open>[i, j, k]\<close> at \<open>[j, i, k]\<close>, and back to the same elements.
\<close>

theorem kv_round_trip:
  assumes "swaps_axes T el" and "to_shape T t = [kv_heads k, n, kv_inner k]"
  shows "\<exists>u v. replay T (swap_recipe (kv_heads k) (kv_inner k) True) t = Inr u \<and> to_shape T u = [n, kv_heads k, kv_inner k] \<and>
    (\<forall>i j d. in_bounds [i, j, d] (to_shape T t) \<longrightarrow> el u [j, i, d] = el t [i, j, d]) \<and>
    replay T (swap_recipe (kv_heads k) (kv_inner k) False) u = Inr v \<and> to_shape T v = to_shape T t \<and>
    (\<forall>idx. in_bounds idx (to_shape T t) \<longrightarrow> el v idx = el t idx)"
proof -
  let ?out = "swap_recipe (kv_heads k) (kv_inner k)"
  from swap_replay [OF assms, of "kv_heads k" "kv_inner k" True] obtain u where u: "replay T (?out True) t = Inr u"
    "to_shape T u = [n, kv_heads k, kv_inner k]"
    "\<forall>idx. in_bounds idx [kv_heads k, n, kv_inner k] \<longrightarrow> el u (permute [1, 0, 2] idx) = el t idx" by blast
  from swap_replay [OF assms(1) u(2), of "kv_heads k" "kv_inner k" False] obtain v where v: "replay T (?out False) u = Inr v"
    "to_shape T v = [kv_heads k, n, kv_inner k]"
    "\<forall>idx. in_bounds idx [n, kv_heads k, kv_inner k] \<longrightarrow> el v (permute [1, 0, 2] idx) = el u idx" by blast
  have "el u [j, i, d] = el t [i, j, d]" if "in_bounds [i, j, d] (to_shape T t)" for i j d
    using u(3) [rule_format, of "[i, j, d]"] that assms(2) by (simp add: permute_def numeral_2_eq_2)
  moreover have "el v idx = el t idx" if idx: "in_bounds idx (to_shape T t)" for idx
    using v(3) u(3) swap_axes [OF idx [unfolded assms(2)]] idx assms(2) by metis
  ultimately show ?thesis using u(1,2) v(1,2) assms(2) by (intro exI [of _ u] exI [of _ v]) simp
qed

text \<open>Tensors as a shape with the element at each index.\<close>

definition indexed_torch :: "(int list \<times> (int list \<Rightarrow> int)) torch_layout" where
  "indexed_torch = \<lparr>to_shape = fst, to_permute = (\<lambda>p t. Inr (permute p (fst t), \<lambda>idx. snd t (permute p idx))),
     to_reshape = (\<lambda>d t. Inl (OtherExn ''reshape'')), to_pad = (\<lambda>w x t. Inl (OtherExn ''pad'')), to_contiguous = Inr\<rparr>"

lemma indexed_torch_swaps: "swaps_axes indexed_torch snd"
proof -
  have "permute [1, 0, 2] (permute [1, 0, 2] idx) = idx" if i: "in_bounds idx s" and l: "length s = 3" for idx s
  proof -
    obtain a b c where "s = [a, b, c]" using l by (auto simp: numeral_3_eq_3 length_Suc_conv)
    with swap_axes(2) [of idx a b c] i show ?thesis by simp
  qed
  then show ?thesis by (simp add: swaps_axes_def indexed_torch_def)
qed

definition small_swap :: kv_swap where
  "small_swap = \<lparr>kv_heads = 2, kv_head_dim = 4, kv_dtype = ''float16'', kv_programs = [], kv_inflight = []\<rparr>"

definition small_cache :: "int list \<times> (int list \<Rightarrow> int)" where
  "small_cache = ([2, 3, 2], \<lambda>idx. linear_offset idx [6, 2, 1])"

theorem kv_round_trip_witness:
  "\<exists>u v. replay indexed_torch (swap_recipe 2 2 True) small_cache = Inr u \<and> fst u = [3, 2, 2] \<and> snd u [2, 1, 0] = 10 \<and>
     replay indexed_torch (swap_recipe 2 2 False) u = Inr v \<and> snd v [1, 2, 0] = 10"
proof -
  have k: "kv_heads small_swap = 2" "kv_inner small_swap = 2" by (simp_all add: small_swap_def kv_inner_def kv_pair_def)
  have s: "to_shape indexed_torch t = fst t" for t by (simp add: indexed_torch_def)
  have "to_shape indexed_torch small_cache = [kv_heads small_swap, 3, kv_inner small_swap]" by (simp add: k s small_cache_def)
  from kv_round_trip [OF indexed_torch_swaps this] obtain u v where uv: "replay indexed_torch (swap_recipe 2 2 True) small_cache = Inr u"
    "fst u = [3, 2, 2]" "\<forall>i j d. in_bounds [i, j, d] (fst small_cache) \<longrightarrow> snd u [j, i, d] = snd small_cache [i, j, d]"
    "replay indexed_torch (swap_recipe 2 2 False) u = Inr v" "\<forall>idx. in_bounds idx (fst small_cache) \<longrightarrow> snd v idx = snd small_cache idx"
    unfolding k s by blast
  have "in_bounds [1, 2, 0] (fst small_cache)" "snd small_cache [1, 2, 0] = 10" by (simp_all add: small_cache_def linear_offset_def)
  with uv show ?thesis by metis
qed

section \<open>The evicted block\<close>

lemma mapR_same: "(\<And>x. x \<in> set xs \<Longrightarrow> f x = Inr x) \<Longrightarrow> mapR f xs = Inr xs"
  by (induction xs) simp_all

lemma map_action_length: "map_action f xs s = (Inr ys, t) \<Longrightarrow> length ys = length xs"
  by (induction xs arbitrary: s ys) (auto simp: andthen_Inr give_def)

lemma slices_length [simp]: "length (slices start ns) = length ns"
  by (induction ns arbitrary: start) simp_all

text \<open>The views of one block, a shape each, one after the other.\<close>

definition block_views :: "live \<Rightarrow> int list list \<Rightarrow> live list" where
  "block_views block shapes = map (\<lambda>((start, _), shape). slice_view block start shape) (zip (slices 0 (map prod_list shapes)) shapes)"

lemma block_views_length [simp]: "length (block_views block shapes) = length shapes"
  by (simp add: block_views_def)

lemma block_views_nth:
  "i < length shapes \<Longrightarrow> block_views block shapes ! i = slice_view block (fst (slices 0 (map prod_list shapes) ! i)) (shapes ! i)"
  by (simp add: block_views_def split_beta)

lemma slices_snd: "i < length ns \<Longrightarrow> snd (slices start ns ! i) = ns ! i"
  using arg_cong [OF slices_counts, of "\<lambda>xs. xs ! i" start ns] by simp

text \<open>Their element counts are those of the shapes; without negative extents they lie apart, inside the block.\<close>

lemma block_views_counts: "map (prod_list \<circ> lv_shape) (block_views block shapes) = map prod_list shapes"
  by (rule nth_equalityI) (simp_all add: block_views_nth slice_view_def)

lemma block_views_apart:
  assumes "\<forall>v\<in>set (block_views block shapes). \<forall>d\<in>set (lv_shape v). 0 \<le> d"
  shows "sorted_wrt (\<lambda>a b. lv_offset a + prod_list (lv_shape a) \<le> lv_offset b) (block_views block shapes) \<and>
    (\<forall>v\<in>set (block_views block shapes). lv_offset block \<le> lv_offset v \<and>
      lv_offset v + prod_list (lv_shape v) \<le> lv_offset block + sum_list (map prod_list shapes))"
proof -
  let ?views = "block_views block shapes" and ?counts = "map prod_list shapes"
  have field: "lv_shape (?views ! i) = shapes ! i" "lv_offset (?views ! i) = lv_offset block + fst (slices 0 ?counts ! i)"
    if "i < length shapes" for i
    using that by (simp_all add: block_views_nth slice_view_def)
  have nonneg: "\<forall>n\<in>set ?counts. 0 \<le> n"
  proof
    fix n assume "n \<in> set ?counts"
    then obtain i where i: "i < length shapes" "n = prod_list (shapes ! i)" by (auto simp: in_set_conv_nth)
    then have "\<forall>d\<in>set (shapes ! i). 0 \<le> d" using assms field(1) [OF i(1)] by (metis block_views_length nth_mem)
    then show "0 \<le> n" using i(2) by (simp add: prod_list_nonneg)
  qed
  have order: "lv_offset (?views ! i) + prod_list (lv_shape (?views ! i)) \<le> lv_offset (?views ! j)" if "i < j" "j < length shapes" for i j
    using sorted_wrt_nth_less [OF slices_sorted [OF nonneg], of i j 0] that slices_snd [of i ?counts 0] by (simp add: field)
  have within: "lv_offset block \<le> lv_offset (?views ! i) \<and>
      lv_offset (?views ! i) + prod_list (lv_shape (?views ! i)) \<le> lv_offset block + sum_list ?counts" if i: "i < length shapes" for i
  proof -
    have "(fst (slices 0 ?counts ! i), snd (slices 0 ?counts ! i)) \<in> set (slices 0 ?counts)" using i by simp
    from slices_bounds [OF nonneg this] slices_snd [of i ?counts 0] i show ?thesis by (simp add: field)
  qed
  have "sorted_wrt (\<lambda>a b. lv_offset a + prod_list (lv_shape a) \<le> lv_offset b) ?views"
    unfolding sorted_wrt_iff_nth_less using order by simp
  with within show ?thesis by (auto simp: in_set_conv_nth)
qed

lemma slices_fst: "i < length ns \<Longrightarrow> fst (slices start ns ! i) = start + sum_list (take i ns)"
proof (induction ns arbitrary: start i)
  case (Cons n ns)
  then show ?case by (cases i) simp_all
qed simp

text \<open>The whole block is asked of Torch before the group is submitted; what the group hands back is its views.\<close>

lemma evict_views:
  assumes "evict_caches nw client pn view pid caches s = (Inr outs, t)"
  shows "\<exists>block shapes n dtype. length shapes = length caches \<and>
    nw_allocate nw n \<lparr>cd_shape = [sum_list (map prod_list shapes)], cd_strides = [1], cd_dtype = dtype, cd_device = cpu\<rparr> True = Inr block \<and>
    mapR (from_pairs view (fst s)) (block_views block shapes) = Inr outs"
proof -
  from assms obtain pairs s1 programs s2 block s3 s4 h s5 outs' s6 where
    pairs: "mapR (as_pairs view (fst s)) caches = Inr pairs"
    and progs: "map_action (swap_program client pn pid True) pairs s1 = (Inr programs, s2)"
    and alloc: "(case pairs of [] \<Rightarrow> give (Inl (OtherExn ''IndexError''))
      | first # _ \<Rightarrow> on_owner (ask (\<lambda>c. nw_allocate nw c \<lparr>cd_shape = [sum_list (map prod_list (map (cd_shape \<circ> fp_destination) programs))],
          cd_strides = [1], cd_dtype = lv_dtype first, cd_device = cpu\<rparr> True))) s2 = (Inr block, s3)"
    and sub: "on_owner (submit_group nw pid (zip (map Prepared programs) pairs)
      (Some (block_views block (map (cd_shape \<circ> fp_destination) programs))) [] swap_options) s3 = (Inr h, s4)"
    and wait: "on_owner (completion_wait nw h) s4 = (Inr outs', s5)" and outs: "mapR (from_pairs view (fst s)) outs' = Inr outs"
    unfolding evict_caches_def Let_def block_views_def cpu_def andthen_Inr by (auto simp: observe_def give_def)
  let ?views = "block_views block (map (cd_shape \<circ> fp_destination) programs)"
  have len: "length programs = length pairs" "length pairs = length caches"
    using map_action_length [OF progs] mapR_length [OF pairs(1)] by simp_all
  from sub have sub: "submit_group nw pid (zip (map Prepared programs) pairs) (Some ?views) [] swap_options (snd s3) = (Inr h, snd s4)"
    by (auto simp: on_owner_def split: prod.splits)
  note g = submit_group_spec [OF sub, simplified]
  from wait have wait: "completion_wait nw h (snd s4) = (Inr outs', snd s5)" by (auto simp: on_owner_def split: prod.splits)
  have "outs' = fg_outputs (ff_groups (snd s4) ! h)" using completion_wait_done(2) [OF wait] g by simp
  also have "\<dots> = ?views"
  proof (rule nth_equalityI)
    show l: "length (fg_outputs (ff_groups (snd s4) ! h)) = length ?views" using g len by auto
    show "fg_outputs (ff_groups (snd s4) ! h) ! i = ?views ! i" if "i < length (fg_outputs (ff_groups (snd s4) ! h))" for i
      using that unfolding l using g len by auto
  qed
  finally have views: "mapR (from_pairs view (fst s)) ?views = Inr outs" using outs by simp
  from alloc obtain first others where first: "pairs = first # others" by (cases pairs) (simp_all add: give_def)
  from alloc [unfolded first] obtain n where "nw_allocate nw n \<lparr>cd_shape = [sum_list (map prod_list (map (cd_shape \<circ> fp_destination) programs))],
      cd_strides = [1], cd_dtype = lv_dtype first, cd_device = cpu\<rparr> True = Inr block"
    by (auto simp: on_owner_def ask_def split: prod.splits)
  then show ?thesis using views len
    by (intro exI [of _ block] exI [of _ "map (cd_shape \<circ> fp_destination) programs"] exI [of _ n] exI [of _ "lv_dtype first"]) simp
qed

text \<open>
  C22. Evicted caches share one block, exactly.  An eviction that returns asked Torch for one pinned CPU vector with
  exactly as many elements as its views take together, and returns one view per cache, in their order, read back at the
  swap's dtype (float32 views as they are).  Every view is a dense part of that block, of its dtype and device; the first
  starts with the block, each next one starts where the one before it ends, and the last ends with the block.  So, no
  extent being negative, no two of them overlap and all lie inside it.
\<close>

theorem kv_evicted_slices:
  assumes "evict_caches nw client pn view pid caches s = (Inr outs, t)"
  shows "\<exists>block views n dtype. length views = length caches \<and> length outs = length caches \<and>
    mapR (from_pairs view (fst s)) views = Inr outs \<and> (kv_dtype (fst s) = ''float32'' \<longrightarrow> outs = views) \<and>
    (let counts = map (prod_list \<circ> lv_shape) views in
      nw_allocate nw n \<lparr>cd_shape = [sum_list counts], cd_strides = [1], cd_dtype = dtype, cd_device = cpu\<rparr> True = Inr block \<and>
      (\<forall>i<length views. lv_base (views ! i) = lv_base block \<and> lv_contiguous (views ! i) \<and>
        lv_strides (views ! i) = row_major (lv_shape (views ! i)) \<and> lv_dtype (views ! i) = lv_dtype block \<and>
        lv_device (views ! i) = lv_device block \<and> lv_offset (views ! i) = lv_offset block + sum_list (take i counts)) \<and>
      ((\<forall>v\<in>set views. \<forall>d\<in>set (lv_shape v). 0 \<le> d) \<longrightarrow>
        sorted_wrt (\<lambda>a b. lv_offset a + prod_list (lv_shape a) \<le> lv_offset b) views \<and>
        (\<forall>v\<in>set views. lv_offset block \<le> lv_offset v \<and> lv_offset v + prod_list (lv_shape v) \<le> lv_offset block + sum_list counts)))"
proof -
  from evict_views [OF assms] obtain block shapes n dtype where len: "length shapes = length caches"
    and alloc: "nw_allocate nw n \<lparr>cd_shape = [sum_list (map prod_list shapes)], cd_strides = [1], cd_dtype = dtype, cd_device = cpu\<rparr> True =
      Inr block"
    and unpair: "mapR (from_pairs view (fst s)) (block_views block shapes) = Inr outs" by blast
  let ?views = "block_views block shapes"
  have field: "lv_base (?views ! i) = lv_base block \<and> lv_contiguous (?views ! i) \<and>
      lv_strides (?views ! i) = row_major (lv_shape (?views ! i)) \<and> lv_dtype (?views ! i) = lv_dtype block \<and>
      lv_device (?views ! i) = lv_device block \<and> lv_offset (?views ! i) = lv_offset block + sum_list (take i (map prod_list shapes))"
    if "i < length ?views" for i
    using that by (simp add: block_views_nth slice_view_def slices_fst)
  have plain: "kv_dtype (fst s) = ''float32'' \<longrightarrow> outs = ?views"
    using unpair mapR_same [of ?views "from_pairs view (fst s)"] by (auto simp: from_pairs_def kv_pair_def)
  show ?thesis
    using len mapR_length [OF unpair] alloc unpair plain field block_views_apart [of block shapes]
    by (intro exI [of _ block] exI [of _ ?views] exI [of _ n] exI [of _ dtype]) (simp add: block_views_counts)
qed

text \<open>Two caches whose programs the swap already has.\<close>

definition cache_on_device :: live where
  "cache_on_device = device_matrix\<lparr>lv_shape := [2, 3, 4], lv_strides := [12, 4, 1]\<rparr>"

definition eviction_program :: fast_program where
  "eviction_program = vector_program\<lparr>fp_signature := signature_of cache_on_device, fp_direction := ''d2h'', fp_view := (''cuda'', 0),
     fp_destination := \<lparr>cd_shape = [3, 2, 4], cd_strides = [8, 4, 1], cd_dtype = ''float32'', cd_device = cpu\<rparr>\<rparr>"

definition warm_swap :: kv_swap where
  "warm_swap = \<lparr>kv_heads = 2, kv_head_dim = 4, kv_dtype = ''float32'', kv_programs = [((True, [2, 3, 4]), eviction_program)], kv_inflight = []\<rparr>"

definition two_evicted :: "live list res \<times> kv_swap \<times> fast" where
  "two_evicted = evict_caches busy_native (\<lambda>r. Inl (OtherExn ''compiler'')) plain_native (\<lambda>t d. Inr t) 1 [cache_on_device, cache_on_device]
     (warm_swap, vector_owner)"

theorem kv_evicted_slices_witness:
  "\<exists>a b. fst two_evicted = Inr [a, b] \<and> lv_offset b = lv_offset a + 24 \<and> lv_base a = lv_base b"
proof -
  obtain r t where run: "two_evicted = (r, t)" by (metis surj_pair)
  have "\<not> isl (fst two_evicted)" by code_simp
  then obtain outs where r: "r = Inr outs" unfolding run by (cases r) simp_all
  have "map lv_shape (projr (fst two_evicted)) = [[3, 2, 4], [3, 2, 4]]" by code_simp
  then have shapes: "map lv_shape outs = [[3, 2, 4], [3, 2, 4]]" by (simp add: run r)
  then obtain a b where outs: "outs = [a, b]" "lv_shape a = [3, 2, 4]" "lv_shape b = [3, 2, 4]" by (auto simp: map_eq_Cons_conv)
  have "kv_dtype (fst (warm_swap, vector_owner)) = ''float32''" by (simp add: warm_swap_def)
  with kv_evicted_slices [OF run [unfolded two_evicted_def r]] obtain block views where
    "outs = views" "\<forall>i<length views. lv_base (views ! i) = lv_base (block :: live) \<and>
       lv_offset (views ! i) = lv_offset block + sum_list (take i (map (prod_list \<circ> lv_shape) views))"
    unfolding Let_def by blast
  with outs have "lv_offset b = lv_offset a + 24" "lv_base a = lv_base b"
    by (simp_all add: less_Suc_eq all_conj_distrib)
  then show ?thesis by (auto simp: run r outs)
qed

end
