(* ===== verification/Compiler_Client.thy ===== *)
theory Compiler_Client
  imports Action Store Emit Transport
begin

text \<open>
  \<open>reloc_torch/compiler.py\<close>: the client that runs the exporter, admits what it publishes and keeps the answers in the
  store under the digest of the exporter's binary.  The exporter, its file and the process environment are arguments;
  what the file system answers about the binary may change from one question to the next, which \<open>cl_clock\<close> counts.
\<close>

section \<open>The exporter\<close>

text \<open>\<open>os.stat\<close> of the binary: resolved path, device, inode, size and the two times.\<close>

record file_status =
  fs_path :: string
  fs_device :: int
  fs_inode :: int
  fs_size :: int
  fs_mtime :: int
  fs_ctime :: int

text \<open>A finished run: exit status, what it wrote to \<open>stderr\<close>, and the files it published.\<close>

record exporter_run =
  er_status :: int
  er_stderr :: string
  er_plan :: "string option"
  er_manifest :: "string option"

record exporter =
  xp_stat :: "nat \<Rightarrow> file_status res"
  xp_content :: "nat \<Rightarrow> string res"
  xp_run :: "nat \<Rightarrow> string list \<Rightarrow> string \<Rightarrow> exporter_run option"

text \<open>\<open>_read_manifest\<close>: an unreadable file is \<open>None\<close>.\<close>

definition read_manifest :: "text_layer \<Rightarrow> string option \<Rightarrow> json res" where
  "read_manifest tx file = (case file of
     None \<Rightarrow> Inl (RuntimeErr ''compiler did not publish a readable manifest'')
   | Some data \<Rightarrow> (case tx_loads tx data of
       None \<Rightarrow> Inl (RuntimeErr ''compiler published malformed manifest JSON'')
     | Some (JObj kvs) \<Rightarrow> Inr (JObj kvs)
     | Some _ \<Rightarrow> Inl (RuntimeErr ''compiler manifest must be an object'')))"

definition json_text :: "json \<Rightarrow> string" where
  "json_text v = (case v of JStr t \<Rightarrow> t | _ \<Rightarrow> [])"

text \<open>What \<open>_compile\<close> makes of a run; \<open>None\<close> stands for a process that could not be started.\<close>

definition run_outcome :: "native \<Rightarrow> text_layer \<Rightarrow> string \<Rightarrow> recipe \<Rightarrow> string \<Rightarrow> exporter_run option \<Rightarrow> compiled_recipe res" where
  "run_outcome nv tx executable r mlir run = (case run of
     None \<Rightarrow> Inl (RuntimeErr (msg [''unable to invoke compiler: '', executable]))
   | Some x \<Rightarrow>
       if er_status x = 2 then
         (if er_plan x \<noteq> None then Inl (RuntimeErr ''compiler unsupported response unexpectedly published a plan'')
          else res_bind (read_manifest tx (er_manifest x)) (\<lambda>m. res_bind (validate_unsupported_manifest m) (\<lambda>_.
            case m of JObj kvs \<Rightarrow> Inl (UnsupportedRecipe (json_text (json_get kvs ''reason'')) (json_text (json_get kvs ''detail'')))
            | _ \<Rightarrow> Inl (RuntimeErr ''compiler manifest must be an object''))))
       else if er_status x \<noteq> 0 then
         Inl (RuntimeErr (msg ([''compiler exited with status '', py_str (er_status x)] @
           (if strip (er_stderr x) = [] then [] else ['': '', strip (er_stderr x)]))))
       else (case (er_plan x, er_manifest x) of
         (Some plan, Some manifest) \<Rightarrow> res_bind (read_manifest tx (Some manifest)) (admit nv r mlir plan)
       | _ \<Rightarrow> Inl (RuntimeErr ''compiler succeeded without a complete plan/manifest pair'')))"

section \<open>The client\<close>

record client =
  cl_executable :: string
  cl_canonicalize :: bool
  cl_identity :: "string option"
  cl_binary :: "(file_status \<times> string) option"
  cl_store :: "store option"
  cl_clock :: nat

definition new_client :: "string \<Rightarrow> store option \<Rightarrow> bool \<Rightarrow> client" where
  "new_client executable st canonicalize = \<lparr>cl_executable = executable, cl_canonicalize = canonicalize, cl_identity = None,
     cl_binary = None, cl_store = st, cl_clock = 0\<rparr>"

type_synonym 'a client_action = "(client, 'a) action"

definition consult :: "(nat \<Rightarrow> 'a) \<Rightarrow> 'a client_action" where
  "consult f c = (Inr (f (cl_clock c)), c\<lparr>cl_clock := Suc (cl_clock c)\<rparr>)"

text \<open>
  \<open>from_environment\<close>: an explicit exporter, one beside \<open>SYM_OPT\<close>, or the bundled one; \<open>runnable\<close> says which paths are
  executable files and \<open>beside\<close> is \<open>Path.with_name\<close>.
\<close>

definition client_from_environment ::
  "(string \<Rightarrow> string option) \<Rightarrow> (string \<Rightarrow> string res) \<Rightarrow> string res option \<Rightarrow> (string \<Rightarrow> bool) \<Rightarrow> store option \<Rightarrow> bool \<Rightarrow> client res" where
  "client_from_environment environ beside bundled runnable st canonicalize =
     res_bind (case environ ''SYM_RELOC_EXPORT'' of
         Some path \<Rightarrow> Inr path
       | None \<Rightarrow> (case environ ''SYM_OPT'' of
           Some path \<Rightarrow> beside path
         | None \<Rightarrow> (case bundled of
             Some tool \<Rightarrow> tool
           | None \<Rightarrow> Inl (RuntimeErr ''SYM_RELOC_EXPORT or SYM_OPT must select the R1 exporter; no bundled compiler is installed'')))) (\<lambda>path.
     if runnable path then Inr (new_client path st canonicalize)
     else Inl (RuntimeErr (msg [''configured R1 exporter is absent or not executable: '', path])))"

text \<open>\<open>identity\<close>: the part that names path and mode is kept from the first use on.\<close>

definition mode_suffix :: "bool \<Rightarrow> string" where
  "mode_suffix canonicalize = (if canonicalize then [] else ''+no-canonicalize'')"

definition identity_text :: "string \<Rightarrow> file_status \<Rightarrow> string" where
  "identity_text base s = msg [base, ''#'', py_str (fs_size s), ''-'', py_str (fs_mtime s), ''-'', py_str (fs_ctime s)]"

definition client_identity :: "exporter \<Rightarrow> (string \<Rightarrow> string) \<Rightarrow> string client_action" where
  "client_identity x resolve =
     andthen (observe (\<lambda>c. case cl_identity c of Some t \<Rightarrow> t
       | None \<Rightarrow> msg [''sym-reloc-export@'', resolve (cl_executable c), mode_suffix (cl_canonicalize c)])) (\<lambda>base.
     andthen (update (\<lambda>c. c\<lparr>cl_identity := Some base\<rparr>)) (\<lambda>_.
     andthen (consult (xp_stat x)) (\<lambda>s. give (Inr (case s of Inl _ \<Rightarrow> base | Inr s \<Rightarrow> identity_text base s)))))"

text \<open>\<open>_content_identity\<close>: the digest of the binary, read again only where its status changed.\<close>

definition answered :: "(nat \<Rightarrow> 'a res) \<Rightarrow> 'a client_action" where
  "answered f = andthen (consult f) give"

definition digest_binary :: "native \<Rightarrow> exporter \<Rightarrow> file_status \<Rightarrow> string client_action" where
  "digest_binary nv x s = andthen (answered (xp_content x)) (\<lambda>data. let d = nv_sha256 nv data in
     andthen (update (\<lambda>c. c\<lparr>cl_binary := Some (s, d)\<rparr>)) (\<lambda>_. give (Inr d)))"

definition content_identity :: "native \<Rightarrow> exporter \<Rightarrow> string client_action" where
  "content_identity nv x =
     andthen (answered (xp_stat x)) (\<lambda>s.
     andthen (observe cl_binary) (\<lambda>known.
     andthen (case known of
         Some (t, d) \<Rightarrow> if t = s then give (Inr d) else digest_binary nv x s
       | None \<Rightarrow> digest_binary nv x s) (\<lambda>digest.
     observe (\<lambda>c. digest @ mode_suffix (cl_canonicalize c)))))"

definition exporter_arguments :: "client \<Rightarrow> recipe \<Rightarrow> string list" where
  "exporter_arguments c r = [cl_executable c, ''recipe.mlir'', ''--output'', ''plan.bin'', ''--manifest'', ''manifest.json''] @
     (if recipe_typed r then [''--typed''] else []) @ (if recipe_indexed r then [''--indexed''] else []) @
     (if cl_canonicalize c then [] else [''--no-canonicalize''])"

definition run_compiler :: "native \<Rightarrow> text_layer \<Rightarrow> exporter \<Rightarrow> recipe \<Rightarrow> compiled_recipe client_action" where
  "run_compiler nv tx x r =
     andthen (give (emit_mlir r)) (\<lambda>mlir.
     andthen (observe (\<lambda>c. (cl_executable c, exporter_arguments c r))) (\<lambda>(executable, arguments).
     andthen (consult (\<lambda>t. xp_run x t arguments mlir)) (\<lambda>run. give (run_outcome nv tx executable r mlir run))))"

text \<open>\<open>compile_stable\<close>.\<close>

definition compile_stable :: "native \<Rightarrow> text_layer \<Rightarrow> exporter \<Rightarrow> string \<Rightarrow> recipe \<Rightarrow> compiled_recipe client_action" where
  "compile_stable nv tx x identity r =
     andthen (run_compiler nv tx x r) (\<lambda>a.
     andthen (content_identity nv x) (\<lambda>after.
     give (if identity \<noteq> after then Inl (RuntimeErr ''compiler changed during compilation; retry preparation'') else Inr a)))"

text \<open>
  \<open>ArtifactStore.get_or_compile\<close> around it: the compiler runs only where the store has no valid answer, so the client's
  state moves on only then.
\<close>

definition store_misses :: "native \<Rightarrow> text_layer \<Rightarrow> recipe \<Rightarrow> string \<Rightarrow> store \<Rightarrow> bool" where
  "store_misses nv tx r identity s =
     (st_misses (snd (store_get_or_compile nv tx 0 r identity (Inl (OtherExn [])) s)) \<noteq> st_misses s)"

definition through_store :: "native \<Rightarrow> text_layer \<Rightarrow> exporter \<Rightarrow> int \<Rightarrow> string \<Rightarrow> recipe \<Rightarrow> store \<Rightarrow> compiled_recipe client_action" where
  "through_store nv tx x now identity r s c =
     (let (compiled, c') = (if store_misses nv tx r identity s then compile_stable nv tx x identity r c else (Inl (OtherExn []), c));
          (answer, s') = store_get_or_compile nv tx now r identity compiled s
      in (answer, c'\<lparr>cl_store := Some s'\<rparr>))"

definition client_compile :: "native \<Rightarrow> text_layer \<Rightarrow> exporter \<Rightarrow> int \<Rightarrow> recipe \<Rightarrow> compiled_recipe client_action" where
  "client_compile nv tx x now r =
     andthen (observe cl_store) (\<lambda>st. case st of
       None \<Rightarrow> run_compiler nv tx x r
     | Some s \<Rightarrow> andthen (content_identity nv x) (\<lambda>identity.
         andthen (through_store nv tx x now identity r s) (\<lambda>a.
         andthen (content_identity nv x) (\<lambda>after.
         give (if identity \<noteq> after then Inl (RuntimeErr ''compiler changed during cache lookup; retry preparation'') else Inr a)))))"

definition client_cache_stats :: "client \<Rightarrow> ((string \<times> int) list option) \<times> client" where
  "client_cache_stats c = (case cl_store c of
     None \<Rightarrow> (None, c)
   | Some s \<Rightarrow> (case store_stats s of (x, s') \<Rightarrow> (Some x, c\<lparr>cl_store := Some s'\<rparr>)))"

end
