(* ===== verification/Preparation.thy ===== *)
theory Preparation
  imports Compiler_Client Fast_Programs
begin

text \<open>
  \<open>reloc_torch/preparation.py\<close>: a session compiles a finite mapping of recipes once, warms the device on request and
  serves transfers with fresh outputs under a bound on their size.
\<close>

section \<open>Selected rows\<close>

text \<open>
  \<open>reloc_torch/index_select.py\<close>: preparing the transfer of selected rows; the index vector is snapshotted with its values,
  so that execution can refuse it after a change.
\<close>

text \<open>The native binder, the program over a source, what it supports and the choice of an implementation.\<close>

record index_native =
  in_bind :: "bindings \<Rightarrow> string \<Rightarrow> int list \<Rightarrow> string \<Rightarrow> native_failure + nat"
  in_program :: "nat \<Rightarrow> buffer_view \<Rightarrow> native_failure + nat"
  in_capability :: "nat \<Rightarrow> native_failure + unit"
  in_select :: "nat \<Rightarrow> int \<Rightarrow> native_failure + (string \<times> json) list"

text \<open>\<open>index_snapshot\<close>: storage and metadata with the bytes of the values, \<open>values\<close>.\<close>

definition index_snapshot :: "live \<Rightarrow> string \<Rightarrow> snapshot \<times> string" where
  "index_snapshot index values = (storage_snapshot index, values)"

definition index_refused :: "native_failure + 'a \<Rightarrow> 'a res" where
  "index_refused r = (case r of
     Inl (Bind_Error t) \<Rightarrow> Inl (UnsupportedRecipe (if contains_text ''index_out_of_range'' t then ''index_out_of_range'' else ''bind_error'') t)
   | Inl (Transfer_Error t) \<Rightarrow> Inl (UnsupportedRecipe (error_code t) t)
   | Inl (Other_Error e) \<Rightarrow> Inl e
   | Inr x \<Rightarrow> Inr x)"

definition prepare_index_transfer :: "platform \<Rightarrow> index_native \<Rightarrow> bool \<Rightarrow> compiled_recipe \<Rightarrow> live \<Rightarrow> live \<Rightarrow> string \<Rightarrow> device \<Rightarrow> int \<Rightarrow>
    prepared_typed res" where
  "prepare_index_transfer pl nx grad a src index values d threads =
     res_bind (bind_index_select grad a src index) (\<lambda>b.
     res_bind (ensure (cr_indexed a \<and> r_direction (cr_recipe a) = ''h2d'')
       (UnsupportedRecipe ''unsupported_index_select'' ''expected row selection and optional cast'')) (\<lambda>_.
     res_bind (ensure (dv_type d = ''cuda'') (UnsupportedRecipe ''direction_mismatch'' ''index_select requires H2D'')) (\<lambda>_.
     let view = storage_view src ''host'' (- 1) in
     res_bind (index_refused (in_bind nx b (lv_dtype index) (lv_shape index) values)) (\<lambda>bound.
     res_bind (index_refused (in_program nx bound view)) (\<lambda>program.
     res_bind (index_refused (in_capability nx program)) (\<lambda>_.
     res_bind (index_refused (in_select nx program threads)) (\<lambda>selected.
     res_bind (ensure (pl_cuda_built pl \<and> pl_cuda_available pl) (UnsupportedRecipe ''cuda_unavailable'' ''no CUDA-capable runtime'')) (\<lambda>_.
     let target = \<lparr>dv_type = ''cuda'', dv_index = Some (case dv_index d of Some i \<Rightarrow> i | None \<Rightarrow> pl_current_device pl)\<rparr> in
     res_bind (destination_descriptor a b target) (\<lambda>cd.
     Inr \<lparr>py_bindings = b, py_bound = bound, py_destination = cd, py_direction = ''h2d'', py_device = target, py_view = view,
       py_policy = ''auto'', py_calibration = None, py_threads = threads, py_parameters = [], py_snapshots = [],
       py_selected = selected, py_program = program, py_template = None,
       py_index_snapshot = Some (index_snapshot index values), py_request = None, py_consumed = False, py_staging = [],
       py_storage = storage_snapshot src\<rparr>)))))))))"

text \<open>What a prepared selection holds.\<close>

lemma prepare_index_fields:
  assumes "prepare_index_transfer pl nx grad a src index values d threads = Inr q"
  shows "\<not> py_consumed q" "py_index_snapshot q = Some (index_snapshot index values)" "py_storage q = storage_snapshot src"
    "py_threads q = threads" "bind_index_select grad a src index = Inr (py_bindings q)"
    "destination_descriptor a (py_bindings q) (py_device q) = Inr (py_destination q)" "dv_type (py_device q) = ''cuda''"
  using assms by (auto simp: prepare_index_transfer_def Let_def res_simps)

text \<open>A selection runs only on the index values it was prepared with.\<close>

lemma prepare_index_fresh:
  assumes "prepare_index_transfer pl nx grad a src index values d threads = Inr q"
    and "typed_body wire_version (xa, x) q = ((Inr out, q'), n)"
  shows "tx_index x = index_snapshot index values \<and> storage_snapshot (tx_source x) = storage_snapshot src \<and> n = 1"
  using prepare_index_fields(1-3) [OF assms(1)] assms(2)
  by (auto simp: typed_body_def recheck_typed_def ensure_def Let_def split: if_splits sum.splits)

section \<open>Construction\<close>

text \<open>Elapsed times are integers the caller supplies; \<open>pr_first\<close> is \<open>None\<close> until a transfer was served.\<close>

record session_report =
  pr_compiler :: int
  pr_cuda :: int
  pr_warming :: int
  pr_warm_calls :: nat
  pr_serving_calls :: nat
  pr_first :: "int option"
  pr_subsequent :: int
  pr_retirement :: int

text \<open>\<open>ps_templates\<close> is the cache of execution templates that each compiled recipe owns, by the recipe's name; preparation reads and
  fills the one of the recipe it prepares.\<close>

record session =
  ps_pid :: int
  ps_closed :: bool
  ps_max_output :: int
  ps_devices :: "int list"
  ps_options :: "(string \<times> option_value) list"
  ps_compiled :: "(string, compiled_recipe) odict"
  ps_resources :: transfer_resources
  ps_templates :: "string \<Rightarrow> template_cache"
  ps_report :: session_report

type_synonym 'a session_action = "(session, 'a) action"

definition positive_limit :: "string \<Rightarrow> option_value \<Rightarrow> int res" where
  "positive_limit name v = (case v of
     OInt n \<Rightarrow> if n \<le> 0 then Inl (ValueErr (msg [name, '' must be a positive integer''])) else Inr n
   | _ \<Rightarrow> Inl (ValueErr (msg [name, '' must be a positive integer''])))"

definition resource_limit :: "string \<Rightarrow> (string \<times> option_value) list \<Rightarrow> int res" where
  "resource_limit name limits = (case map_of limits name of
     Some (OInt n) \<Rightarrow> if 0 < n then Inr n else Inl (ValueErr (msg [name, '' must be a positive integer for preparation'']))
   | _ \<Rightarrow> Inl (ValueErr (msg [name, '' must be a positive integer for preparation''])))"

definition set_default :: "string \<Rightarrow> option_value \<Rightarrow> (string \<times> option_value) list \<Rightarrow> (string \<times> option_value) list" where
  "set_default k v xs = (if map_of xs k = None then od_set k v xs else xs)"

fun compile_recipes :: "(recipe \<Rightarrow> compiled_recipe client_action) \<Rightarrow> (string \<times> recipe) list \<Rightarrow> (string, compiled_recipe) odict client_action" where
  "compile_recipes compile [] = give (Inr [])"
| "compile_recipes compile ((n, r) # rs) = andthen (compile r) (\<lambda>a. andthen (compile_recipes compile rs) (\<lambda>as. give (Inr ((n, a) # as))))"

definition new_report :: "int \<Rightarrow> session_report" where
  "new_report compiler_ms = \<lparr>pr_compiler = compiler_ms, pr_cuda = 0, pr_warming = 0, pr_warm_calls = 0, pr_serving_calls = 0,
     pr_first = None, pr_subsequent = 0, pr_retirement = 0\<rparr>"

text \<open>The checks before anything is compiled, down to the limits of the session's resources.\<close>

definition check_session :: "(string \<times> recipe) list \<Rightarrow> options_arg \<Rightarrow> (string \<times> option_value) list \<Rightarrow> option_value \<Rightarrow> option_value \<Rightarrow>
    (int \<times> (string \<times> option_value) list \<times> (string \<times> option_value) list) res" where
  "check_session recipes opts limits max_recipes max_output =
     res_bind (positive_limit ''max_recipes'' max_recipes) (\<lambda>n.
     res_bind (positive_limit ''max_output_bytes'' max_output) (\<lambda>bytes.
     res_bind (ensure (recipes \<noteq> [] \<and> int (length recipes) \<le> n) (ValueErr ''expected between one and max_recipes recipes'')) (\<lambda>_.
     res_bind (ensure (\<forall>(name, _)\<in>set recipes. name \<noteq> []) (ValueErr ''recipe names must be nonempty strings'')) (\<lambda>_.
     res_bind (transfer_configuration ResNone opts) (\<lambda>opts.
     res_bind (ensure (map_of opts ''gather_pool'' \<in> {None, Some ONone})
       (ValueErr ''preparation owns its worker budget; external gather pools are unsupported'')) (\<lambda>_.
     let limits = set_default ''max_typed_live_bytes'' (OInt (64 * 2 ^ 20)) (set_default ''max_live_staging_bytes'' (OInt (256 * 2 ^ 20)) limits) in
     res_bind (mapR (\<lambda>k. resource_limit k limits) [''max_live_staging_bytes'', ''max_typed_live_bytes'']) (\<lambda>_.
     Inr (bytes, opts, limits))))))))"

definition new_session :: "(recipe \<Rightarrow> compiled_recipe client_action) \<Rightarrow> int \<Rightarrow> (string \<times> recipe) list \<Rightarrow> options_arg \<Rightarrow>
    (string \<times> option_value) list \<Rightarrow> option_value \<Rightarrow> option_value \<Rightarrow> template_cache \<Rightarrow> int \<Rightarrow> session client_action" where
  "new_session compile pid recipes opts limits max_recipes max_output templates ms =
     andthen (give (check_session recipes opts limits max_recipes max_output)) (\<lambda>(bytes, opts, limits).
     andthen (compile_recipes compile recipes) (\<lambda>compiled.
     give (Inr \<lparr>ps_pid = pid, ps_closed = False, ps_max_output = bytes, ps_devices = [], ps_options = opts, ps_compiled = compiled,
       ps_resources = new_resources pid (fold (\<lambda>(k, v). od_set k v) limits default_limits), ps_templates = (\<lambda>_. templates),
       ps_report = new_report ms\<rparr>)))"

section \<open>Serving\<close>

definition session_process :: "int \<Rightarrow> session \<Rightarrow> unit res" where
  "session_process pid s = ensure (pid = ps_pid s) (RuntimeErr ''process_mismatch: preparation belongs to another process'')"

definition session_open :: "int \<Rightarrow> session \<Rightarrow> unit res" where
  "session_open pid s = res_bind (session_process pid s) (\<lambda>_.
     res_bind (ensure (\<not> ps_closed s) (RuntimeErr ''preparation session is closed'')) (\<lambda>_.
     ensure (pid = rs_pid (ps_resources s)) process_mismatch))"

text \<open>What a call brings: its keyword arguments, and the answers of the outside while it prepares and executes.\<close>

record serve_arguments =
  sa_parameters :: "(string \<times> param_tensor) list"
  sa_indices :: "(live \<times> string) option"
  sa_policy :: string
  sa_threads :: int
  sa_implementation :: string

record serving =
  sv_platform :: platform
  sv_grad :: bool
  sv_identity :: nat
  sv_layout :: "bindings \<Rightarrow> nat res"
  sv_validate :: "nat \<Rightarrow> buffer_view \<Rightarrow> string \<Rightarrow> string + int"
  sv_typed :: typed_native
  sv_index :: index_native
  sv_ran :: execution
  sv_typed_ran :: typed_execution

datatype request = Layout_Request prepared_transfer | Typed_Request prepared_typed

definition request_destination :: "request \<Rightarrow> concrete_descriptor" where
  "request_destination q = (case q of Layout_Request p \<Rightarrow> pt_destination p | Typed_Request p \<Rightarrow> py_destination p)"

definition layout_arguments :: "serve_arguments \<Rightarrow> bool" where
  "layout_arguments sa \<longleftrightarrow> sa_parameters sa = [] \<and> sa_policy sa = ''auto'' \<and> sa_implementation sa = []"

text \<open>Which module prepares, and the combinations of arguments it refuses.\<close>

definition prepare_request :: "int \<Rightarrow> serving \<Rightarrow> string \<Rightarrow> compiled_recipe \<Rightarrow> live \<Rightarrow> device \<Rightarrow> serve_arguments \<Rightarrow> request session_action" where
  "prepare_request pid w name a src d sa s =
     (if cr_indexed a then
        (if \<not> layout_arguments sa then (Inl (ValueErr ''indexed preparation does not accept typed placement/parameters''), s)
         else case sa_indices sa of
           None \<Rightarrow> (Inl (case source_reason (sv_grad w) src of
               Some reason \<Rightarrow> UnsupportedRecipe reason (msg [''index_select source rejected: '', reason])
             | None \<Rightarrow> UnsupportedRecipe ''unsupported_index_select'' ''expected a CPU int32/int64 index vector''), s)
         | Some (index, values) \<Rightarrow> (res_bind (prepare_index_transfer (sv_platform w) (sv_index w) (sv_grad w) a src index values d (sa_threads sa))
             (\<lambda>q. Inr (Typed_Request q)), s))
      else if cr_typed a then
        (if sa_indices sa \<noteq> None then (Inl (ValueErr ''indices require an indexed recipe''), s)
         else case prepare_typed_transfer pid (sv_platform w) (sv_typed w) (sv_grad w) None (sv_identity w) a src d
             \<lparr>ty_policy = sa_policy sa, ty_calibration = CalNone, ty_threads = Some (sa_threads sa),
               ty_implementation = Some (sa_implementation sa), ty_parameters = sa_parameters sa\<rparr> (ps_templates s name) of
           (r, cache) \<Rightarrow> (res_bind r (\<lambda>q. Inr (Typed_Request q)), s\<lparr>ps_templates := (ps_templates s)(name := cache)\<rparr>))
      else
        (if sa_indices sa \<noteq> None \<or> \<not> layout_arguments sa
         then (Inl (ValueErr ''layout preparation does not accept typed/indexed arguments''), s)
         else (res_bind (fst (prepare_transfer (sv_platform w) (sv_grad w) None (sv_identity w) a src d False (sv_layout w) (sv_validate w) None))
           (\<lambda>q. Inr (Layout_Request q)), s)))"

definition dtype_bytes :: "(string \<times> int) list" where
  "dtype_bytes = [(''float32'', 4), (''float16'', 2), (''bfloat16'', 2), (''int8'', 1)]"

definition prepared_output_bytes :: "concrete_descriptor \<Rightarrow> int res" where
  "prepared_output_bytes cd = (case map_of dtype_bytes (cd_dtype cd) of
     None \<Rightarrow> Inl (KeyErr (cd_dtype cd)) | Some n \<Rightarrow> Inr (foldl (*) n (cd_shape cd)))"

definition option_of :: "(string \<times> option_value) list \<Rightarrow> string \<Rightarrow> option_value \<Rightarrow> option_value" where
  "option_of opts k v = (case map_of opts k of None \<Rightarrow> v | Some x \<Rightarrow> x)"

text \<open>The options of the session go to the execution; the result is the output with the number of native launches.\<close>

definition run_prepared :: "int \<Rightarrow> serving \<Rightarrow> compiled_recipe \<Rightarrow> session \<Rightarrow> request \<Rightarrow> live res \<times> nat" where
  "run_prepared pid w a s q = (case q of
     Layout_Request p \<Rightarrow> (case execute_transfer \<lparr>lc_resources = ResOwner 0, lc_same_process = (pid = rs_pid (ps_resources s)),
         lc_pinning = option_of (ps_options s) ''pinning'' (OText ''auto''),
         lc_min_pinned_bytes = option_of (ps_options s) ''min_pinned_bytes'' ONone, lc_execution = sv_ran w\<rparr> p of ((r, _), n) \<Rightarrow> (r, n))
   | Typed_Request p \<Rightarrow> (case typed_body (cr_wire_version a) (\<lparr>xa_pipeline = OBool True, xa_chunk_size = ONone,
         xa_options = filter (\<lambda>(k, _). k \<noteq> ''gather_threads'') (ps_options s),
         xa_gather_threads = option_of (ps_options s) ''gather_threads'' ONone,
         xa_resources = ResOwner 0, xa_same_process = (pid = rs_pid (ps_resources s))\<rparr>, sv_typed_ran w) p of
       ((r, _), n) \<Rightarrow> (res_bind r (\<lambda>(out, _). Inr out), n)))"

definition execute_prepared :: "int \<Rightarrow> serving \<Rightarrow> string \<Rightarrow> live \<Rightarrow> device \<Rightarrow> serve_arguments \<Rightarrow> session \<Rightarrow> (live res \<times> nat) \<times> session" where
  "execute_prepared pid w name src d sa s = (case map_of (ps_compiled s) name of
     None \<Rightarrow> ((Inl (KeyErr name), 0), s)
   | Some a \<Rightarrow> (case prepare_request pid w name a src d sa s of
       (Inl e, s) \<Rightarrow> ((Inl e, 0), s)
     | (Inr q, s) \<Rightarrow> (case prepared_output_bytes (request_destination q) of
         Inl e \<Rightarrow> ((Inl e, 0), s)
       | Inr n \<Rightarrow> if ps_max_output s < n then ((Inl (ValueErr ''output exceeds preparation max_output_bytes''), 0), s)
           else (run_prepared pid w a s q, s))))"

text \<open>\<open>initialize_cuda\<close>: \<open>current\<close> is the index CUDA reports inside the device's scope, or its failure.\<close>

definition initialize_cuda :: "int \<Rightarrow> device \<Rightarrow> int res \<Rightarrow> int \<Rightarrow> int session_action" where
  "initialize_cuda pid d current ms =
     andthen (observe (session_open pid)) (\<lambda>ok. andthen (give ok) (\<lambda>_.
     andthen (give (ensure (dv_type d = ''cuda'') (ValueErr ''initialize_cuda requires a CUDA device''))) (\<lambda>_.
     andthen (give current) (\<lambda>i.
     andthen (update (\<lambda>s. s\<lparr>ps_devices := List.insert i (ps_devices s),
       ps_report := (ps_report s)\<lparr>pr_cuda := pr_cuda (ps_report s) + ms\<rparr>\<rparr>)) (\<lambda>_. give (Inr ms))))))"

definition serve_transfer :: "int \<Rightarrow> serving \<Rightarrow> string \<Rightarrow> live \<Rightarrow> device \<Rightarrow> serve_arguments \<Rightarrow> int \<Rightarrow> session \<Rightarrow> (live res \<times> nat) \<times> session" where
  "serve_transfer pid w name src d sa ms s = (case session_open pid s of
     Inl e \<Rightarrow> ((Inl e, 0), s)
   | Inr _ \<Rightarrow> (case execute_prepared pid w name src d sa s of
       ((Inl e, n), s) \<Rightarrow> ((Inl e, n), s)
     | ((Inr out, n), s) \<Rightarrow> let p = ps_report s in
         ((Inr out, n), s\<lparr>ps_report := (if pr_serving_calls p = 0 then p\<lparr>pr_first := Some ms\<rparr> else p\<lparr>pr_subsequent := pr_subsequent p + ms\<rparr>)
           \<lparr>pr_serving_calls := Suc (pr_serving_calls p)\<rparr>\<rparr>)))"

text \<open>\<open>warm\<close> initializes the device of the transfer where the session has not, and discards the output.\<close>

definition warm_transfer :: "int \<Rightarrow> serving \<Rightarrow> string \<Rightarrow> live \<Rightarrow> device \<Rightarrow> serve_arguments \<Rightarrow> int res \<Rightarrow> int \<Rightarrow> int \<Rightarrow> session \<Rightarrow>
    (session_report res \<times> nat) \<times> session" where
  "warm_transfer pid w name src d sa current cuda_ms ms s = (case session_open pid s of
     Inl e \<Rightarrow> ((Inl e, 0), s)
   | Inr _ \<Rightarrow> let cuda = (if dv_type d = ''cuda'' then d else lv_device src);
         ready = (case dv_index cuda of None \<Rightarrow> False | Some i \<Rightarrow> i \<in> set (ps_devices s))
     in (case (if ready then (Inr 0, s) else initialize_cuda pid cuda current cuda_ms s) of
       (Inl e, s) \<Rightarrow> ((Inl e, 0), s)
     | (Inr _, s) \<Rightarrow> (case execute_prepared pid w name src d sa s of
         ((Inl e, n), s) \<Rightarrow> ((Inl e, n), s)
       | ((Inr _, n), s) \<Rightarrow> let s = s\<lparr>ps_report := (ps_report s)\<lparr>pr_warming := pr_warming (ps_report s) + ms,
             pr_warm_calls := Suc (pr_warm_calls (ps_report s))\<rparr>\<rparr> in ((Inr (ps_report s), n), s))))"

definition close_session :: "int \<Rightarrow> int \<Rightarrow> unit session_action" where
  "close_session pid ms s = (case session_process pid s of
     Inl e \<Rightarrow> (Inl e, s)
   | Inr _ \<Rightarrow> if ps_closed s then (Inr (), s)
       else (case close_resources pid (ps_resources s) of
         (r, rs) \<Rightarrow> (r, s\<lparr>ps_resources := rs, ps_closed := True,
           ps_report := (ps_report s)\<lparr>pr_retirement := pr_retirement (ps_report s) + ms\<rparr>\<rparr>)))"

end
