(* ===== verification/Session_Properties.thy ===== *)
theory Session_Properties
  imports Preparation Client_Properties Worked_Call
begin

text \<open>
  What a preparation session promises: it compiled what it was given, never runs a transfer whose output is too large,
  and once closed it launches nothing.
\<close>

section \<open>Recipes\<close>

lemma compile_recipes_admitted:
  "compile_recipes (client_compile nv tx x now) rs c = (Inr as, c') \<Longrightarrow>
     map fst as = map fst rs \<and> (\<forall>((n, r), (m, a))\<in>set (zip rs as). cr_recipe a = r \<and>
       (\<exists>mlir. emit_mlir r = Inr mlir \<and> admit nv r mlir (cr_plan_bytes a) (cr_manifest a) = Inr a))"
proof (induction rs arbitrary: c as)
  case Nil
  then show ?case by (simp add: give_def)
next
  case (Cons nr rs)
  obtain n r where nr: "nr = (n, r)" by (cases nr)
  with Cons.prems obtain a c1 as1 where a: "client_compile nv tx x now r c = (Inr a, c1)"
    and rest: "compile_recipes (client_compile nv tx x now) rs c1 = (Inr as1, c')" and as: "as = (n, a) # as1"
    by (auto simp: andthen_Inr give_def)
  from Cons.IH [OF rest] client_compile_admitted [OF a] show ?case by (simp add: as nr)
qed

text \<open>
  A session serves the recipes it was given.  Under every name of the mapping a new session holds an artifact of that
  very recipe which admission accepted, whether the compiler or the store answered.
\<close>

theorem session_recipes_admitted:
  assumes "new_session (client_compile nv tx x now) pid recipes opts limits max_recipes max_output templates ms c = (Inr s, c')"
    and "distinct (map fst recipes)" and "(name, r) \<in> set recipes"
  shows "\<exists>a. map_of (ps_compiled s) name = Some a \<and> cr_recipe a = r \<and>
    (\<exists>mlir. emit_mlir r = Inr mlir \<and> admit nv r mlir (cr_plan_bytes a) (cr_manifest a) = Inr a)"
proof -
  from assms(1) obtain as c1 where as: "compile_recipes (client_compile nv tx x now) recipes c1 = (Inr as, c')" and s: "ps_compiled s = as"
    by (auto simp: new_session_def andthen_Inr give_def)
  note ad = compile_recipes_admitted [OF as]
  then have len: "length as = length recipes" by (metis length_map)
  from assms(3) obtain i where i: "i < length recipes" "recipes ! i = (name, r)" by (auto simp: in_set_conv_nth)
  obtain m a where a: "as ! i = (m, a)" by fastforce
  have "m = name" using ad i a len by (metis fst_conv nth_map)
  moreover have "((name, r), (m, a)) \<in> set (zip recipes as)" using i a len by (metis length_zip min.idem nth_mem nth_zip)
  moreover have "map_of as m = Some a" using a i len ad assms(2) by (metis map_of_eq_Some_iff nth_mem)
  ultimately show ?thesis using ad s by fastforce
qed

section \<open>Serving\<close>

lemma run_prepared_once: "run_prepared pid w a s q = (Inr out, n) \<Longrightarrow> n = 1"
proof -
  assume run: "run_prepared pid w a s q = (Inr out, n)"
  show ?thesis
  proof (cases q)
    case (Layout_Request p)
    with run show ?thesis
      by (auto simp: run_prepared_def execute_transfer_def split: prod.splits sum.splits dest: transfer_returns)
  next
    case (Typed_Request p)
    with run show ?thesis
      by (auto simp: run_prepared_def typed_body_def Let_def res_simps split: prod.splits sum.splits if_splits)
  qed
qed

lemma run_prepared_most: "snd (run_prepared pid w a s q) \<le> 1"
proof (cases q)
  case (Layout_Request p)
  obtain x where x: "run_prepared pid w a s q = (case execute_transfer x p of ((r, _), n) \<Rightarrow> (r, n))"
    by (simp add: run_prepared_def Layout_Request)
  obtain r p' n where e: "execute_transfer x p = ((r, p'), n)" by (metis surj_pair)
  then show ?thesis using layout_request.launch_consumes [OF e] x by (cases n) auto
next
  case (Typed_Request p)
  obtain x where x: "run_prepared pid w a s q = (case typed_body (cr_wire_version a) x p of ((r, _), n) \<Rightarrow> (res_bind r (\<lambda>(out, _). Inr out), n))"
    by (simp add: run_prepared_def Typed_Request)
  obtain r p' n where e: "typed_body (cr_wire_version a) x p = ((r, p'), n)" by (metis surj_pair)
  then show ?thesis using typed_call.launch_consumes [OF e] x by (cases n) auto
qed

lemma prepare_request_keeps:
  assumes "prepare_request pid w name a src d sa s = (r, s')"
  shows "s' = s\<lparr>ps_templates := ps_templates s'\<rparr>"
  using assms by (auto simp: prepare_request_def split: if_splits option.splits prod.splits)

lemma execute_prepared_cases:
  assumes "execute_prepared pid w name src d sa s = ((r, n), s')"
  shows "n \<le> 1 \<and> s' = s\<lparr>ps_templates := ps_templates s'\<rparr> \<and> (\<forall>out. r = Inr out \<longrightarrow> n = 1) \<and>
    (0 < n \<longrightarrow> (\<exists>a q s1 b. map_of (ps_compiled s) name = Some a \<and> prepare_request pid w name a src d sa s = (Inr q, s1) \<and>
      prepared_output_bytes (request_destination q) = Inr b \<and> b \<le> ps_max_output s))"
proof (cases "map_of (ps_compiled s) name")
  case None
  with assms show ?thesis by (auto simp: execute_prepared_def)
next
  case (Some a)
  obtain p s1 where prep: "prepare_request pid w name a src d sa s = (p, s1)" by fastforce
  note k = prepare_request_keeps [OF prep]
  show ?thesis
  proof (cases p)
    case (Inl e)
    with assms Some prep k show ?thesis by (auto simp: execute_prepared_def)
  next
    case (Inr q)
    show ?thesis
    proof (cases "prepared_output_bytes (request_destination q)")
      case (Inl e)
      with assms Some prep k \<open>p = Inr q\<close> show ?thesis by (auto simp add: execute_prepared_def)
    next
      case b: (Inr b)
      have bound: "ps_max_output s1 = ps_max_output s" by (subst k) simp
      show ?thesis
      proof (cases "ps_max_output s < b")
        case True
        with assms Some prep k \<open>p = Inr q\<close> b bound show ?thesis by (auto simp add: execute_prepared_def)
      next
        case False
        with assms Some prep \<open>p = Inr q\<close> b bound have run: "run_prepared pid w a s1 q = (r, n)" and s': "s' = s1"
          by (auto simp: execute_prepared_def)
        have "n \<le> 1" using run_prepared_most [of pid w a s1 q] run by simp
        moreover have "\<forall>out. r = Inr out \<longrightarrow> n = 1" using run_prepared_once run by blast
        ultimately show ?thesis using Some prep \<open>p = Inr q\<close> b False k s' by auto
      qed
    qed
  qed
qed

text \<open>
  C39. A session bounds what it runs.  A served transfer launches at most once, exactly once when it returns its output,
  and never when the destination it prepared is larger than the session allows; a transfer that raised counts nothing.
\<close>

theorem session_output_bounded:
  assumes "serve_transfer pid w name src d sa ms s = ((r, n), s')"
  shows "n \<le> 1 \<and> (\<forall>out. r = Inr out \<longrightarrow> n = 1 \<and> pr_serving_calls (ps_report s') = Suc (pr_serving_calls (ps_report s))) \<and>
    (\<forall>e. r = Inl e \<longrightarrow> ps_report s' = ps_report s) \<and>
    (0 < n \<longrightarrow> session_open pid s = Inr () \<and> (\<exists>a q s1 b. map_of (ps_compiled s) name = Some a \<and>
      prepare_request pid w name a src d sa s = (Inr q, s1) \<and> prepared_output_bytes (request_destination q) = Inr b \<and> b \<le> ps_max_output s))"
proof (cases "session_open pid s")
  case (Inl e)
  with assms show ?thesis by (auto simp: serve_transfer_def)
next
  case (Inr u)
  obtain q m s1 where run: "execute_prepared pid w name src d sa s = ((q, m), s1)" by (metis surj_pair)
  note x = execute_prepared_cases [OF run]
  have report: "ps_report s1 = ps_report s" using x by (metis session.select_convs(9) session.surjective session.update_convs(8))
  show ?thesis
  proof (cases q)
    case (Inl e)
    with assms Inr run have "r = Inl e" "n = m" "s' = s1" by (simp_all add: serve_transfer_def)
    with x report \<open>session_open pid s = Inr u\<close> show ?thesis by simp
  next
    case (Inr out)
    with assms \<open>session_open pid s = Inr u\<close> run have "r = Inr out" "n = m" "pr_serving_calls (ps_report s') = Suc (pr_serving_calls (ps_report s1))"
      by (auto simp: serve_transfer_def Let_def)
    with x report Inr \<open>session_open pid s = Inr u\<close> show ?thesis by simp
  qed
qed

section \<open>Runs\<close>

datatype session_call =
    Serve serving string live device serve_arguments int
  | Warm serving string live device serve_arguments "int res" int int
  | Initialize device "int res" int
  | Close int

text \<open>Whether the call returned, its native launches and the session it leaves.\<close>

definition run_session_call :: "int \<Rightarrow> session_call \<Rightarrow> session \<Rightarrow> (bool \<times> nat) \<times> session" where
  "run_session_call pid c s = (case c of
     Serve w name src d sa ms \<Rightarrow> (case serve_transfer pid w name src d sa ms s of ((r, n), s) \<Rightarrow> ((\<not> isl r, n), s))
   | Warm w name src d sa current cuda_ms ms \<Rightarrow> (case warm_transfer pid w name src d sa current cuda_ms ms s of ((r, n), s) \<Rightarrow> ((\<not> isl r, n), s))
   | Initialize d current ms \<Rightarrow> (case initialize_cuda pid d current ms s of (r, s) \<Rightarrow> ((\<not> isl r, 0), s))
   | Close ms \<Rightarrow> (case close_session pid ms s of (r, s) \<Rightarrow> ((\<not> isl r, 0), s)))"

fun run_session :: "int \<Rightarrow> session_call list \<Rightarrow> session \<Rightarrow> nat \<times> session" where
  "run_session pid [] s = (0, s)"
| "run_session pid (c # cs) s = (case run_session_call pid c s of ((_, n), s) \<Rightarrow>
     case run_session pid cs s of (m, s) \<Rightarrow> (n + m, s))"

lemma closed_call:
  assumes "ps_closed s"
  shows "\<exists>ok. run_session_call pid c s = ((ok, 0), s) \<and> (ok \<longrightarrow> (\<exists>ms. c = Close ms))"
proof -
  have "\<exists>e. session_open pid s = Inl e" using assms by (auto simp: session_open_def session_process_def ensure_def res_bind_def)
  then obtain e where "session_open pid s = Inl e" by blast
  then show ?thesis using assms
    by (cases c) (auto simp: run_session_call_def serve_transfer_def warm_transfer_def initialize_cuda_def close_session_def
        andthen_def observe_def give_def split: sum.splits)
qed

text \<open>
  C26. A closed session stays closed.  After a \<open>close\<close> in its own process, whether it released its resources or raised,
  no sequence of calls launches anything or changes the session.
\<close>

theorem closed_session_idle:
  assumes "close_session pid ms s = (r, s')" and "pid = ps_pid s"
  shows "ps_closed s' \<and> run_session pid cs s' = (0, s')"
proof -
  have closed: "ps_closed s'" using assms
    by (auto simp: close_session_def session_process_def ensure_def split: if_splits prod.splits)
  have "run_session pid cs t = (0, t)" if "ps_closed t" for t
    using that
  proof (induction cs)
    case (Cons c cs)
    from closed_call [OF Cons.prems] obtain ok where "run_session_call pid c t = ((ok, 0), t)" by blast
    with Cons show ?case by simp
  qed simp
  with closed show ?thesis by blast
qed

section \<open>An example\<close>

definition vector_session :: session where
  "vector_session = \<lparr>ps_pid = 1, ps_closed = False, ps_max_output = 512, ps_devices = [0], ps_options = [],
     ps_compiled = [(''rows'', readme_artifact)], ps_resources = new_resources 1 default_limits,
     ps_templates = (\<lambda>_. new_templates 1 32 262144), ps_report = new_report 0\<rparr>"

definition vector_serving :: serving where
  "vector_serving = \<lparr>sv_platform = cuda_platform, sv_grad = False, sv_identity = 7, sv_layout = (\<lambda>b. Inr 11),
     sv_validate = (\<lambda>_ _ _. Inr 512), sv_typed = weight_native, sv_index = \<lparr>in_bind = (\<lambda>_ _ _ _. Inr 1), in_program = (\<lambda>_ _. Inr 1),
       in_capability = (\<lambda>_. Inr ()), in_select = (\<lambda>_ _. Inr [])\<rparr>,
     sv_ran = vector_execution, sv_typed_ran = \<lparr>tx_source = host_vector, tx_index = (storage_snapshot host_vector, []), tx_parameters = [],
       tx_declared = Inr [], tx_allocated = Inr device_matrix, tx_made = Inr 5, tx_stream = Inr (), tx_ran = Inr [], tx_staging = []\<rparr>\<rparr>"

definition vector_serve :: serve_arguments where
  "vector_serve = \<lparr>sa_parameters = [], sa_indices = None, sa_policy = ''auto'', sa_threads = 8, sa_implementation = []\<rparr>"

lemma vector_served:
  "\<exists>s'. serve_transfer 1 vector_serving ''rows'' host_vector gpu0 vector_serve 3 vector_session = ((Inr device_matrix, 1), s')"
proof -
  have flags: "\<not> cr_indexed readme_artifact" "\<not> cr_typed readme_artifact"
    by (simp_all add: cr_typed_def cr_indexed_def readme_artifact_def typed_schema_def)
  have target: "transfer_target cuda_platform ''h2d'' host_vector gpu0 = Inr (gpu0, storage_view host_vector ''host'' (- 1))"
    by code_simp
  have direction: "r_direction (cr_recipe readme_artifact) = ''h2d''" "check_direction ''h2d'' host_vector gpu0 = Inr ()"
    by code_simp+
  have "fst (prepare_transfer cuda_platform False None 7 readme_artifact host_vector gpu0 False (\<lambda>b. Inr 11) (\<lambda>_ _ _. Inr 512) None) =
      Inr vector_transfer"
    using vector_bound vector_destination vector_admitted target direction
    by (simp add: prepare_transfer_def Let_def validated_preparation_def admitted_source_def bind_symbols_def bind_plan_def prepared_destination_def native_result_def
        reason_of_def vector_transfer_def)
  then have prepared: "prepare_request 1 vector_serving ''rows'' readme_artifact host_vector gpu0 vector_serve vector_session =
      (Inr (Layout_Request vector_transfer), vector_session)"
    by (simp add: prepare_request_def flags vector_serving_def vector_serve_def layout_arguments_def)
  moreover have "prepared_output_bytes (request_destination (Layout_Request vector_transfer)) = Inr 512"
    by code_simp
  moreover have "run_prepared 1 vector_serving readme_artifact vector_session (Layout_Request vector_transfer) = (Inr device_matrix, 1)"
    using vector_body_runs
    by (auto simp: run_prepared_def execute_transfer_def transfer_configuration_def check_option_def option_of_def
        check_integer_option_def integer_options_def check_owner_def vector_serving_def vector_session_def new_resources_def
        Let_def ensure_def)
  ultimately show ?thesis
    by (simp add: serve_transfer_def execute_prepared_def vector_session_def session_open_def session_process_def ensure_def
        new_resources_def Let_def)
qed

theorem session_output_bounded_witness:
  "\<exists>s'. serve_transfer 1 vector_serving ''rows'' host_vector gpu0 vector_serve 3 vector_session = ((Inr device_matrix, 1), s') \<and>
     pr_serving_calls (ps_report s') = 1"
proof -
  from vector_served obtain s' where run: "serve_transfer 1 vector_serving ''rows'' host_vector gpu0 vector_serve 3 vector_session = ((Inr device_matrix, 1), s')"
    by blast
  from session_output_bounded [OF run] run show ?thesis by (simp add: vector_session_def new_report_def)
qed

theorem closed_session_idle_witness:
  "\<exists>r s'. close_session 1 3 vector_session = (r, s') \<and> ps_closed s' \<and>
     run_session 1 [Serve vector_serving ''rows'' host_vector gpu0 vector_serve 3, Close 1] s' = (0, s')"
proof -
  obtain r s' where run: "close_session 1 3 vector_session = (r, s')" by fastforce
  have "1 = ps_pid vector_session" by (simp add: vector_session_def)
  from closed_session_idle [OF run this] run show ?thesis by blast
qed

lemma vector_session_made:
  "\<exists>s c'. new_session (client_compile readme_native readme_text readme_exporter 2) 1 [(''rows'', readme_recipe)] OptNone []
     (OInt 32) (OInt 512) (new_templates 1 32 262144) 3 readme_client = (Inr s, c')"
proof -
  from readme_compiled obtain c' where run: "client_compile readme_native readme_text readme_exporter 2 readme_recipe readme_client = (Inr readme_artifact, c')"
    by blast
  have "check_session [(''rows'', readme_recipe)] OptNone [] (OInt 32) (OInt 512) =
      Inr (512, [], [(''max_live_staging_bytes'', OInt (256 * 2 ^ 20)), (''max_typed_live_bytes'', OInt (64 * 2 ^ 20))])"
    by (simp add: check_session_def positive_limit_def resource_limit_def transfer_configuration_def ensure_def set_default_def od_set.simps)
  with run show ?thesis by (simp add: new_session_def andthen_def give_def)
qed

theorem session_recipes_admitted_witness:
  "\<exists>s c' a. new_session (client_compile readme_native readme_text readme_exporter 2) 1 [(''rows'', readme_recipe)] OptNone []
     (OInt 32) (OInt 512) (new_templates 1 32 262144) 3 readme_client = (Inr s, c') \<and>
     map_of (ps_compiled s) ''rows'' = Some a \<and> cr_recipe a = readme_recipe"
proof -
  from vector_session_made obtain s c' where run: "new_session (client_compile readme_native readme_text readme_exporter 2) 1
      [(''rows'', readme_recipe)] OptNone [] (OInt 32) (OInt 512) (new_templates 1 32 262144) 3 readme_client = (Inr s, c')" by blast
  from session_recipes_admitted [OF run, of "''rows''" readme_recipe] run show ?thesis by auto
qed

end
