(* ===== verification/Operators.thy ===== *)
theory Operators
  imports Runtime Artifact_Cache
begin

text \<open>
  \<open>reloc_torch/ops.py\<close>: the kernels of the custom operators and their fake kernels.  Registration with Torch's
  dispatcher is the library's; a kernel is what it runs.
\<close>

section \<open>Kernels\<close>

text \<open>\<open>_execute\<close> and \<open>_execute_typed\<close>: the entry behind the handle executes against the declared output.\<close>

definition declared_output :: "int list \<Rightarrow> int list \<Rightarrow> string \<Rightarrow> device \<Rightarrow> concrete_descriptor" where
  "declared_output out_shape out_strides dtype d = \<lparr>cd_shape = out_shape, cd_strides = out_strides, cd_dtype = dtype, cd_device = d\<rparr>"

definition execute_layout_operator :: "host \<Rightarrow> entry registry \<Rightarrow> live \<Rightarrow> string \<Rightarrow> int list \<Rightarrow> int list \<Rightarrow> int list \<Rightarrow> device \<Rightarrow>
    live option act" where
  "execute_layout_operator h g src handle symbols out_shape out_strides d = (case lookup_handle entry_closed handle g of
     Inl e \<Rightarrow> lift_res (Inl e)
   | Inr en \<Rightarrow> execute_or_fallback h None en src (Some symbols) d False (Some (declared_output out_shape out_strides (lv_dtype src) d)) [])"

definition execute_typed_operator :: "host \<Rightarrow> entry registry \<Rightarrow> live \<Rightarrow> live list \<Rightarrow> string \<Rightarrow> int list \<Rightarrow> int list \<Rightarrow> int list \<Rightarrow>
    device \<Rightarrow> string \<Rightarrow> live option act" where
  "execute_typed_operator h g src parameters handle symbols out_shape out_strides d dtype = (case lookup_handle entry_closed handle g of
     Inl e \<Rightarrow> lift_res (Inl e)
   | Inr en \<Rightarrow> execute_or_fallback h None en src (Some symbols) d False (Some (declared_output out_shape out_strides dtype d)) parameters)"

text \<open>The three operators; the index vector of a selection is its one parameter.\<close>

datatype operator_call =
    Layout_Operator live string "int list" "int list" "int list" device
  | Typed_Operator live "live list" string "int list" "int list" "int list" device string
  | Index_Operator live live string "int list" "int list" "int list" device string

definition operator_kernel :: "host \<Rightarrow> entry registry \<Rightarrow> operator_call \<Rightarrow> live option act" where
  "operator_kernel h g c = (case c of
     Layout_Operator src handle symbols shape strides d \<Rightarrow> execute_layout_operator h g src handle symbols shape strides d
   | Typed_Operator src parameters handle symbols shape strides d dtype \<Rightarrow>
       execute_typed_operator h g src parameters handle symbols shape strides d dtype
   | Index_Operator src index handle symbols shape strides d dtype \<Rightarrow>
       execute_typed_operator h g src [index] handle symbols shape strides d dtype)"

section \<open>Fake kernels\<close>

text \<open>\<open>torch.empty_strided\<close>: the metadata alone, and no storage in common with anything.\<close>

definition operator_fake :: "operator_call \<Rightarrow> concrete_descriptor" where
  "operator_fake c = (case c of
     Layout_Operator src _ _ shape strides d \<Rightarrow> \<lparr>cd_shape = shape, cd_strides = strides, cd_dtype = lv_dtype src, cd_device = d\<rparr>
   | Typed_Operator _ _ _ _ shape strides d dtype \<Rightarrow> \<lparr>cd_shape = shape, cd_strides = strides, cd_dtype = dtype, cd_device = d\<rparr>
   | Index_Operator _ _ _ _ shape strides d dtype \<Rightarrow> \<lparr>cd_shape = shape, cd_strides = strides, cd_dtype = dtype, cd_device = d\<rparr>)"

definition operator_source :: "operator_call \<Rightarrow> live" where
  "operator_source c = (case c of Layout_Operator src _ _ _ _ _ \<Rightarrow> src | Typed_Operator src _ _ _ _ _ _ _ \<Rightarrow> src
     | Index_Operator src _ _ _ _ _ _ _ \<Rightarrow> src)"

definition operator_handle :: "operator_call \<Rightarrow> string" where
  "operator_handle c = (case c of Layout_Operator _ k _ _ _ _ \<Rightarrow> k | Typed_Operator _ _ k _ _ _ _ _ \<Rightarrow> k | Index_Operator _ _ k _ _ _ _ _ \<Rightarrow> k)"

section \<open>Kernel and fake agree\<close>

lemma operator_kernel_entry:
  "\<exists>symbols ps. operator_kernel h g c = (case lookup_handle entry_closed (operator_handle c) g of
     Inl e \<Rightarrow> lift_res (Inl e)
   | Inr en \<Rightarrow> execute_or_fallback h None en (operator_source c) (Some symbols) (cd_device (operator_fake c)) False
       (Some (operator_fake c)) ps)"
proof (cases c)
  case (Layout_Operator src handle symbols shape strides d)
  then show ?thesis
    by (intro exI [of _ symbols] exI [of _ "[]"])
      (simp add: operator_kernel_def execute_layout_operator_def operator_source_def operator_handle_def operator_fake_def declared_output_def split: sum.split)
next
  case (Typed_Operator src parameters handle symbols shape strides d dtype)
  then show ?thesis
    by (intro exI [of _ symbols] exI [of _ parameters])
      (simp add: operator_kernel_def execute_typed_operator_def operator_source_def operator_handle_def operator_fake_def declared_output_def split: sum.split)
next
  case (Index_Operator src index handle symbols shape strides d dtype)
  then show ?thesis
    by (intro exI [of _ symbols] exI [of _ "[index]"])
      (simp add: operator_kernel_def execute_typed_operator_def operator_source_def operator_handle_def operator_fake_def declared_output_def split: sum.split)
qed

lemma operator_kernel_cases:
  assumes "operator_kernel h g c w = (r, w')" and "world_ok w"
  shows "world_ok w' \<and> (\<exists>es k. wd_log w' = wd_log w @ es \<and> (\<exists>en. one_piece h en (operator_source c) (Some (operator_fake c)) r es k)) \<and>
    ((\<exists>e. lookup_handle entry_closed (operator_handle c) g = Inl e) \<longrightarrow> w' = w \<and> (\<exists>e. r = Inl e))"
proof -
  obtain symbols ps where k: "operator_kernel h g c = (case lookup_handle entry_closed (operator_handle c) g of
      Inl e \<Rightarrow> lift_res (Inl e)
    | Inr en \<Rightarrow> execute_or_fallback h None en (operator_source c) (Some symbols) (cd_device (operator_fake c)) False
        (Some (operator_fake c)) ps)"
    using operator_kernel_entry by blast
  show ?thesis
  proof (cases "lookup_handle entry_closed (operator_handle c) g")
    case (Inl e)
    with assms k have "r = Inl e" "w' = w" by (simp_all add: lift_res_def)
    moreover have "one_piece h en (operator_source c) (Some (operator_fake c)) (Inl e) [] 0" for en by (simp add: one_piece_Inl)
    ultimately show ?thesis using assms(2) Inl by auto
  next
    case (Inr en)
    with assms(1) k have "execute_or_fallback h None en (operator_source c) (Some symbols) (cd_device (operator_fake c)) False
        (Some (operator_fake c)) ps w = (r, w')" by simp
    with execute_once assms(2) Inr show ?thesis unfolding emits_def by (metis Inl_Inr_False)
  qed
qed

lemma operator_result:
  assumes "operator_kernel h g c w = (Inr (Some t), w')" and "world_ok w"
  shows "verify_result (ho_alias h) (Some t) (operator_source c) (operator_fake c) = Inr (Some t)"
  using operator_kernel_cases [OF assms] by (auto simp: one_piece_def)

end
