(* ===== verification/Observation.thy ===== *)
theory Observation
  imports Fx_Graph Eligibility
begin

text \<open>
  \<open>reloc_torch/observer.py\<close>: a dispatch mode that runs every operator unchanged, records what it moved, and remembers
  for each live tensor the layout operators it came through.
\<close>

text \<open>A tensor is an address, which its successor may get again, and the object it was.\<close>

type_synonym observed_tensor = "nat \<times> nat"

datatype observed_value = OTensor observed_tensor | OSequence "observed_value list" | OMapping "observed_value list" | OPlain bool

fun tensor_leaves :: "observed_value \<Rightarrow> observed_tensor list" where
  "tensor_leaves (OTensor t) = [t]"
| "tensor_leaves (OSequence vs) = concat (map tensor_leaves vs)"
| "tensor_leaves (OMapping vs) = concat (map tensor_leaves vs)"
| "tensor_leaves (OPlain b) = []"

text \<open>\<open>_first_tensor\<close>.\<close>

fun first_tensor :: "observed_value \<Rightarrow> observed_tensor option" where
  "first_tensor (OTensor t) = Some t"
| "first_tensor (OSequence vs) = fold (\<lambda>v found. case found of None \<Rightarrow> first_tensor v | Some t \<Rightarrow> Some t) vs None"
| "first_tensor (OMapping vs) = fold (\<lambda>v found. case found of None \<Rightarrow> first_tensor v | Some t \<Rightarrow> Some t) vs None"
| "first_tensor (OPlain b) = None"

text \<open>Python's \<open>bool\<close> of an option.\<close>

definition truthy :: "observed_value \<Rightarrow> bool" where
  "truthy v = (case v of OPlain b \<Rightarrow> b | OSequence vs \<Rightarrow> vs \<noteq> [] | OMapping vs \<Rightarrow> vs \<noteq> [] | OTensor _ \<Rightarrow> True)"

text \<open>
  One dispatch: the operator with its bound arguments and whether each is written, how the call ended, and what Torch
  says about the tensors before and after it.
\<close>

record observed_call =
  dc_name :: string
  dc_bound :: "(string \<times> observed_value \<times> bool) list"
  dc_foreach_copy :: bool
  dc_layout :: bool
  dc_result :: "(string \<times> string) + observed_value"
  dc_before :: "observed_tensor \<Rightarrow> tensor_metadata"
  dc_after :: "observed_tensor \<Rightarrow> tensor_metadata"
  dc_alias :: "observed_tensor \<Rightarrow> observed_tensor \<Rightarrow> bool"

text \<open>\<open>ob_provenance\<close> maps an address to the object whose history it is; \<open>ob_phases\<close> has the current phase last.\<close>

record observer =
  ob_records :: "transfer_record list"
  ob_phases :: "string list"
  ob_provenance :: "nat \<Rightarrow> (nat \<times> string list) option"

definition new_observer :: observer where
  "new_observer = \<lparr>ob_records = [], ob_phases = [''input''], ob_provenance = (\<lambda>_. None)\<rparr>"

definition enter_phase :: "string \<Rightarrow> observer \<Rightarrow> observer" where
  "enter_phase name ob = ob\<lparr>ob_phases := ob_phases ob @ [name]\<rparr>"

definition leave_phase :: "observer \<Rightarrow> observer" where
  "leave_phase ob = ob\<lparr>ob_phases := butlast (ob_phases ob)\<rparr>"

definition history_limit :: nat where
  "history_limit = 16"

definition last_names :: "string list \<Rightarrow> string list" where
  "last_names h = drop (length h - history_limit) h"

definition history_of :: "observer \<Rightarrow> observed_tensor \<Rightarrow> string list" where
  "history_of ob t = (case ob_provenance ob (fst t) of
     Some (object, h) \<Rightarrow> if object = snd t then h else [] | None \<Rightarrow> [])"

definition set_history :: "observed_tensor \<Rightarrow> string list \<Rightarrow> observer \<Rightarrow> observer" where
  "set_history t h ob = ob\<lparr>ob_provenance := (ob_provenance ob)(fst t \<mapsto> (snd t, last_names h))\<rparr>"

text \<open>The callback of the weak reference: an address already taken by another object keeps its entry.\<close>

definition tensor_died :: "observed_tensor \<Rightarrow> observer \<Rightarrow> observer" where
  "tensor_died t ob = (case ob_provenance ob (fst t) of
     Some (object, _) \<Rightarrow> if object = snd t then ob\<lparr>ob_provenance := (ob_provenance ob)(fst t := None)\<rparr> else ob
   | None \<Rightarrow> ob)"

section \<open>Dispatch\<close>

definition written_tensors :: "observed_call \<Rightarrow> observed_tensor list" where
  "written_tensors c = concat (map (\<lambda>(_, v, w). if w then tensor_leaves v else []) (dc_bound c))"

definition read_tensors :: "observed_call \<Rightarrow> observed_tensor list" where
  "read_tensors c = concat (map (\<lambda>(_, v, w). if w then [] else tensor_leaves v) (dc_bound c))"

definition call_tensors :: "observed_call \<Rightarrow> observed_tensor list" where
  "call_tensors c = concat (map (\<lambda>(_, v, _). tensor_leaves v) (dc_bound c))"

definition call_sources :: "observed_call \<Rightarrow> observed_tensor list" where
  "call_sources c = (if read_tensors c = [] then call_tensors c else read_tensors c)"

text \<open>The pairs of source and destination of an operator that writes.\<close>

definition written_pairs :: "observed_call \<Rightarrow> (observed_tensor \<times> observed_tensor) list" where
  "written_pairs c = (let ins = read_tensors c; outs = written_tensors c in
     if dc_foreach_copy c then map (\<lambda>(i, d). (if i < length ins then ins ! i else d, d)) (enumerate 0 outs)
     else map (\<lambda>(i, d). (if length ins = length outs then ins ! i else case ins of s # _ \<Rightarrow> s | [] \<Rightarrow> d, d)) (enumerate 0 outs))"

definition fresh_pairs :: "observed_call \<Rightarrow> observed_tensor list \<Rightarrow> (observed_tensor \<times> observed_tensor) list" where
  "fresh_pairs c outs = (let ins = call_sources c in
     map (\<lambda>(i, d). (if length ins = length outs then ins ! i else hd ins, d)) (enumerate 0 outs))"

definition non_blocking :: "observed_call \<Rightarrow> bool" where
  "non_blocking c = (case map_of (map (\<lambda>(k, v, _). (k, v)) (rev (dc_bound c))) ''non_blocking'' of None \<Rightarrow> False | Some v \<Rightarrow> truthy v)"

definition failure_record :: "observed_call \<Rightarrow> string \<Rightarrow> bool \<Rightarrow> string \<times> string \<Rightarrow> tensor_metadata \<times> string list \<Rightarrow> transfer_record" where
  "failure_record c phase mutates e b = \<lparr>tr_operator = dc_name c, tr_phase = phase, tr_source = fst b, tr_destination = fst b,
     tr_non_blocking = non_blocking c, tr_mutates = mutates, tr_aliases_source = True, tr_layout_history = snd b,
     tr_failure_type = Some (fst e), tr_failure_message = Some (snd e)\<rparr>"

definition new_history :: "observed_call \<Rightarrow> bool \<Rightarrow> string list \<Rightarrow> string list" where
  "new_history c mutates h = (if mutates then [] else if dc_layout c then h @ [dc_name c]
     else if dc_name c = ''aten._to_copy.default'' then h else [])"

text \<open>The loop that records the pairs; the metadata and the history of the source are those from before the call.\<close>

fun record_pairs :: "observed_call \<Rightarrow> string \<Rightarrow> bool \<Rightarrow> ((tensor_metadata \<times> string list) \<times> observed_tensor \<times> observed_tensor) list \<Rightarrow>
    observer \<Rightarrow> observer" where
  "record_pairs c phase mutates [] ob = ob"
| "record_pairs c phase mutates ((b, src, d) # rest) ob = (let h = new_history c mutates (snd b); ob' = set_history d h ob in
     record_pairs c phase mutates rest (ob'\<lparr>ob_records := ob_records ob' @
       [\<lparr>tr_operator = dc_name c, tr_phase = phase, tr_source = fst b, tr_destination = dc_after c d,
         tr_non_blocking = non_blocking c, tr_mutates = mutates, tr_aliases_source = dc_alias c src d,
         tr_layout_history = last_names h, tr_failure_type = None, tr_failure_message = None\<rparr>]\<rparr>))"

definition dispatch :: "observed_call \<Rightarrow> observer \<Rightarrow> ((string \<times> string) + observed_value) \<times> observer" where
  "dispatch c ob =
     (let mutates = written_tensors c \<noteq> []; phase = last (ob_phases ob);
          sources = (if mutates then map fst (written_pairs c) else take 1 (call_sources c));
          before = map (\<lambda>s. (dc_before c s, history_of ob s)) sources in
      case dc_result c of
        Inl e \<Rightarrow> (Inl e, ob\<lparr>ob_records := ob_records ob @ map (failure_record c phase mutates e) before\<rparr>)
      | Inr result \<Rightarrow> (Inr result,
          if mutates then record_pairs c phase True (zip before (written_pairs c)) (ob\<lparr>ob_provenance := (\<lambda>_. None)\<rparr>)
          else let outs = tensor_leaves result in
            if outs = [] \<or> call_sources c = [] then ob
            else record_pairs c phase False (zip (replicate (length outs) (hd before)) (fresh_pairs c outs)) ob))"

section \<open>Invariant\<close>

definition observer_ok :: "observer \<Rightarrow> bool" where
  "observer_ok ob \<longleftrightarrow> (\<forall>a object h. ob_provenance ob a = Some (object, h) \<longrightarrow> length h \<le> history_limit) \<and>
     (\<forall>r\<in>set (ob_records ob). length (tr_layout_history r) \<le> history_limit)"

lemma last_names_length [simp]: "length (last_names h) \<le> history_limit"
  by (simp add: last_names_def)

lemma last_names_short [simp]: "length h \<le> history_limit \<Longrightarrow> last_names h = h"
  by (simp add: last_names_def)

lemma history_of_length: "observer_ok ob \<Longrightarrow> length (history_of ob t) \<le> history_limit"
  by (auto simp: observer_ok_def history_of_def split: option.splits)

lemma set_history_ok: "observer_ok ob \<Longrightarrow> observer_ok (set_history t h ob)"
  by (auto simp: observer_ok_def set_history_def split: if_splits)

lemma record_pairs_ok: "observer_ok ob \<Longrightarrow> observer_ok (record_pairs c phase mutates ps ob)"
proof (induction ps arbitrary: ob)
  case (Cons p ps)
  obtain b src d where p: "p = (b, src, d)" by (cases p)
  let ?ob = "set_history d (new_history c mutates (snd b)) ob"
  have "observer_ok ?ob" by (rule set_history_ok [OF Cons.prems])
  then have "observer_ok (?ob\<lparr>ob_records := ob_records ?ob @ [r]\<rparr>)" if "length (tr_layout_history r) \<le> history_limit" for r
    using that by (simp add: observer_ok_def)
  then show ?case using Cons.IH by (simp add: p Let_def)
qed simp

lemma dispatch_ok:
  assumes "observer_ok ob" and "dispatch c ob = (r, ob')"
  shows "observer_ok ob'"
proof (cases "dc_result c")
  case (Inl e)
  have "length (tr_layout_history x) \<le> history_limit" if "x \<in> set (map (failure_record c p m e) (map (\<lambda>s. (dc_before c s, history_of ob s)) ss))" for x p m ss
    using that history_of_length [OF assms(1)] by (auto simp: failure_record_def)
  with assms Inl show ?thesis by (auto simp: dispatch_def Let_def observer_ok_def)
next
  case (Inr result)
  have "observer_ok (ob\<lparr>ob_provenance := (\<lambda>_. None)\<rparr>)" using assms(1) by (simp add: observer_ok_def)
  with assms Inr show ?thesis by (auto simp: dispatch_def Let_def intro: record_pairs_ok)
qed

lemma tensor_died_ok: "observer_ok ob \<Longrightarrow> observer_ok (tensor_died t ob)"
  by (auto simp: observer_ok_def tensor_died_def split: option.splits if_splits)

text \<open>After a write no tensor has a history: what a view was made of may have changed.\<close>

lemma record_pairs_cleared:
  "\<forall>t. history_of ob t = [] \<Longrightarrow> history_of (record_pairs c phase True ps ob) t = []"
proof (induction ps arbitrary: ob)
  case Nil
  then show ?case by (simp del: split_paired_All)
next
  case (Cons p ps)
  obtain b src d where p: "p = (b, src, d)" by (cases p)
  have "history_of ((set_history d [] ob)\<lparr>ob_records := rs\<rparr>) u = []" for rs u
  proof -
    have "history_of ob u = []" using Cons.prems by blast
    then show ?thesis by (simp add: history_of_def set_history_def last_names_def)
  qed
  then show ?case by (simp add: p Let_def new_history_def Cons.IH del: split_paired_All)
qed

lemma dispatch_cleared:
  assumes "dispatch c ob = (Inr v, ob')" and "written_tensors c \<noteq> []"
  shows "history_of ob' t = []"
proof -
  have "\<forall>t. history_of (ob\<lparr>ob_provenance := (\<lambda>_. None)\<rparr>) t = []" by (simp add: history_of_def)
  note clear = record_pairs_cleared [OF this]
  from assms obtain p ps where "ob' = record_pairs c p True ps (ob\<lparr>ob_provenance := (\<lambda>_. None)\<rparr>)"
    by (auto simp: dispatch_def Let_def split: sum.splits)
  then show ?thesis using clear by simp
qed

text \<open>A run of dispatches, phases and deaths.\<close>

datatype observer_event = Dispatched observed_call | Entered string | Left | Died observed_tensor

definition observe_event :: "observer_event \<Rightarrow> observer \<Rightarrow> observer" where
  "observe_event e ob = (case e of Dispatched c \<Rightarrow> snd (dispatch c ob) | Entered n \<Rightarrow> enter_phase n ob | Left \<Rightarrow> leave_phase ob
     | Died t \<Rightarrow> tensor_died t ob)"

definition observe_events :: "observer_event list \<Rightarrow> observer \<Rightarrow> observer" where
  "observe_events es ob = fold observe_event es ob"

lemma observe_event_ok: "observer_ok ob \<Longrightarrow> observer_ok (observe_event e ob)"
proof (cases e)
  case (Dispatched c)
  assume "observer_ok ob"
  then show ?thesis using dispatch_ok [of ob c] by (cases "dispatch c ob") (simp add: observe_event_def Dispatched)
next
  case (Died t)
  assume "observer_ok ob"
  then show ?thesis by (simp add: observe_event_def Died tensor_died_ok)
qed (simp_all add: observe_event_def enter_phase_def leave_phase_def observer_ok_def)

lemma observe_events_ok: "observer_ok ob \<Longrightarrow> observer_ok (observe_events es ob)"
  unfolding observe_events_def by (induction es arbitrary: ob) (simp_all add: observe_event_ok)

lemma new_observer_ok: "observer_ok new_observer"
  by (simp add: observer_ok_def new_observer_def)

text \<open>
  \<open>reloc_torch/graph_inventory.py\<close> with the answers of \<open>compat.py\<close> it asks for: a read-only account of the nodes of a
  graph, each with the transfer it may be.
\<close>

section \<open>Non-blocking and alias answers\<close>

text \<open>\<open>graph_nonblocking\<close>: the literal \<open>False\<close> alone counts as blocking.\<close>

definition blocking_literal :: "fx_arg \<Rightarrow> bool" where
  "blocking_literal a \<longleftrightarrow> a = VBool False"

definition graph_nonblocking :: "import_world \<Rightarrow> fx_node \<Rightarrow> bool" where
  "graph_nonblocking w n = (case node_schema w n of
     Some s \<Rightarrow> (case map_of (rev (map (\<lambda>(k, v, _). (k, v)) (bind_schema (sc_arguments s) (fn_args n) (fn_kwargs n)))) ''non_blocking'' of
       None \<Rightarrow> False | Some v \<Rightarrow> \<not> blocking_literal v)
   | None \<Rightarrow> (case map_of (fn_kwargs n) ''non_blocking'' of
       Some v \<Rightarrow> \<not> blocking_literal v
     | None \<Rightarrow> let args = tl (fn_args n) in
         if fn_target n = ''to'' then
           (let i = (case args of VStr _ # _ \<Rightarrow> 2 | VDevice _ # _ \<Rightarrow> 2 | _ \<Rightarrow> 1) in i < length args \<and> \<not> blocking_literal (args ! i))
         else if fn_target n \<in> {''cuda'', ''copy_''} then 1 < length args \<and> \<not> blocking_literal (args ! 1)
         else False))"

text \<open>\<open>graph_alias_semantics\<close>: \<open>same_storage\<close> is Torch's test on the metadata, \<open>moved\<close> another device or dtype.\<close>

definition alias_semantics :: "import_world \<Rightarrow> fx_node \<Rightarrow> bool \<Rightarrow> bool \<Rightarrow> string" where
  "alias_semantics w n same_storage moved =
     (if fn_target n \<in> set known_view_targets then ''aliases''
      else if same_storage then ''aliases''
      else if moved then ''distinct''
      else case node_schema w n of
        Some s \<Rightarrow> if sc_alias_returns s then ''unknown'' else ''distinct''
      | None \<Rightarrow> if fn_op n = Op_Method \<and> fn_target n = ''to'' \<and> map_of (fn_kwargs n) ''copy'' = Some (VBool True) then ''distinct''
          else ''unknown'')"

section \<open>The inventory\<close>

text \<open>\<open>Node.all_input_nodes\<close> names every input once, at its first use.\<close>

definition input_names :: "fx_node \<Rightarrow> string list" where
  "input_names n = rev (remdups (rev (all_input_nodes n)))"

definition raw_operators :: "(string \<times> string) list" where
  "raw_operators = [(''to'', ''aten._to_copy.default''), (''cpu'', ''aten._to_copy.default''),
     (''cuda'', ''aten._to_copy.default''), (''reshape'', ''aten.reshape.default''),
     (''view'', ''aten.view.default''), (''transpose'', ''aten.transpose.int''),
     (''permute'', ''aten.permute.default''), (''contiguous'', ''aten.clone.default''),
     (''copy_'', ''aten.copy_.default''), (''add_'', ''aten.add_.Tensor'')]"

definition inventory_views :: "string list" where
  "inventory_views = [''aten.view.default'', ''aten.reshape.default'', ''aten.transpose.int'', ''aten.permute.default'',
     ''aten.as_strided.default'', ''aten._unsafe_view.default'']"

definition operator_of :: "fx_node \<Rightarrow> string" where
  "operator_of n = (if fn_op n = Op_Method then (case map_of raw_operators (fn_target n) of None \<Rightarrow> fn_target n | Some t \<Rightarrow> t)
     else fn_target n)"

text \<open>What Torch says of a graph: metadata of the nodes that are tensors, and shared storage.\<close>

record inventory_world =
  vw_import :: import_world
  vw_metadata :: "string \<Rightarrow> tensor_metadata option"
  vw_same_storage :: "string \<Rightarrow> string \<Rightarrow> bool"

type_synonym histories = "string \<Rightarrow> string list option"

definition next_history :: "import_world \<Rightarrow> fx_node \<Rightarrow> string list \<Rightarrow> string list" where
  "next_history w n h = (let op = operator_of n in
     if graph_mutates w n then []
     else if op \<in> set inventory_views \<or> op = ''aten.clone.default'' then (let h = h @ [op] in drop (length h - 16) h)
     else if op \<noteq> ''aten._to_copy.default'' then [] else h)"

definition kind_text :: "fx_op \<Rightarrow> string" where
  "kind_text k = (case k of Op_Placeholder \<Rightarrow> ''placeholder'' | Op_Get_Attr \<Rightarrow> ''get_attr'' | Op_Function \<Rightarrow> ''call_function''
     | Op_Method \<Rightarrow> ''call_method'' | Op_Module \<Rightarrow> ''call_module'' | Op_Output \<Rightarrow> ''output'')"

text \<open>The first input that is a tensor; for an in-place copy the second input is what is read.\<close>

definition source_of :: "inventory_world \<Rightarrow> fx_node \<Rightarrow> string option" where
  "source_of v n = find (\<lambda>m. vw_metadata v m \<noteq> None) (input_names n)"

definition read_input :: "fx_node \<Rightarrow> string \<Rightarrow> string" where
  "read_input n m = (let inputs = input_names n in
     if operator_of n = ''aten.copy_.default'' \<and> 1 < length inputs then inputs ! 1 else m)"

definition moved :: "tensor_metadata \<Rightarrow> tensor_metadata \<Rightarrow> bool" where
  "moved a b \<longleftrightarrow> (tm_device_type a, tm_device_index a, tm_dtype a) \<noteq> (tm_device_type b, tm_device_index b, tm_dtype b)"

definition node_transfer :: "inventory_world \<Rightarrow> fx_node \<Rightarrow> string list \<Rightarrow> (transfer_record option \<times> string) res" where
  "node_transfer v n h = (case (source_of v n, vw_metadata v (fn_name n)) of
     (Some m, Some d) \<Rightarrow> (let read = read_input n m in case vw_metadata v read of
         None \<Rightarrow> Inl (OtherExn ''AttributeError'')
       | Some s \<Rightarrow> let sem = alias_semantics (vw_import v) n (vw_same_storage v read (fn_name n)) (moved s d) in
           Inr (Some \<lparr>tr_operator = operator_of n, tr_phase = ''graph'', tr_source = s, tr_destination = d,
             tr_non_blocking = graph_nonblocking (vw_import v) n, tr_mutates = graph_mutates (vw_import v) n,
             tr_aliases_source = (sem \<noteq> ''distinct''), tr_layout_history = h, tr_failure_type = None, tr_failure_message = None\<rparr>, sem))
   | _ \<Rightarrow> Inr (None, ''unknown''))"

definition inventory_node :: "inventory_world \<Rightarrow> fx_graph \<Rightarrow> fx_node \<Rightarrow> histories \<Rightarrow> (graph_record \<times> histories) res" where
  "inventory_node v g n hs =
     (let before = (case source_of v n of None \<Rightarrow> [] | Some m \<Rightarrow> (case hs m of None \<Rightarrow> [] | Some h \<Rightarrow> h));
          h = next_history (vw_import v) n before;
          hs = (if graph_mutates (vw_import v) n then Map.empty else hs)(fn_name n \<mapsto> h);
          metadata = vw_metadata v (fn_name n)
      in res_bind (node_transfer v n h) (\<lambda>(transfer, sem).
         Inr (\<lparr>gr_node_name = fn_name n, gr_node_kind = kind_text (fn_op n), gr_target = fn_target n,
           gr_input_nodes = input_names n, gr_user_nodes = map fn_name (node_users g (fn_name n)),
           gr_tensor_metadata = metadata, gr_metadata_reason = (if metadata = None then Some ''metadata_unavailable'' else None),
           gr_transfer = transfer, gr_alias_semantics = sem\<rparr>, hs)))"

fun inventory_loop :: "inventory_world \<Rightarrow> fx_graph \<Rightarrow> fx_graph \<Rightarrow> histories \<Rightarrow> graph_record list res" where
  "inventory_loop v g [] hs = Inr []"
| "inventory_loop v g (n # ns) hs = res_bind (inventory_node v g n hs) (\<lambda>(r, hs).
     res_bind (inventory_loop v g ns hs) (\<lambda>rs. Inr (r # rs)))"

definition graph_inventory :: "inventory_world \<Rightarrow> fx_graph \<Rightarrow> graph_record list res" where
  "graph_inventory v g = inventory_loop v g g Map.empty"

section \<open>The account is complete\<close>

lemma inventory_loop_names: "inventory_loop v g ns hs = Inr rs \<Longrightarrow> map gr_node_name rs = map fn_name ns"
  by (induction ns arbitrary: hs rs) (auto simp: res_simps inventory_node_def Let_def)

text \<open>A transfer in the account has the metadata of its node, and its history is short.\<close>

definition short_histories :: "histories \<Rightarrow> bool" where
  "short_histories hs \<longleftrightarrow> (\<forall>m h. hs m = Some h \<longrightarrow> length h \<le> 16)"

lemma next_history_short: "length h \<le> 16 \<Longrightarrow> length (next_history w n h) \<le> 16"
  by (auto simp: next_history_def Let_def)

lemma inventory_node_short:
  assumes "inventory_node v g n hs = Inr (r, hs')" and "short_histories hs"
  shows "short_histories hs' \<and> (\<forall>t. gr_transfer r = Some t \<longrightarrow> length (tr_layout_history t) \<le> 16 \<and>
    vw_metadata v (fn_name n) = Some (tr_destination t) \<and> tr_mutates t = graph_mutates (vw_import v) n)"
proof -
  let ?before = "case source_of v n of None \<Rightarrow> [] | Some m \<Rightarrow> (case hs m of None \<Rightarrow> [] | Some h \<Rightarrow> h)"
  let ?h = "next_history (vw_import v) n ?before"
  have h: "length ?h \<le> 16"
    by (rule next_history_short) (use assms(2) in \<open>auto simp: short_histories_def split: option.splits\<close>)
  from assms(1) have hs': "hs' = (if graph_mutates (vw_import v) n then Map.empty else hs)(fn_name n \<mapsto> ?h)"
    by (auto simp: inventory_node_def Let_def res_simps)
  have "short_histories hs'" using assms(2) h by (auto simp: hs' short_histories_def split: if_splits)
  moreover have "length (tr_layout_history t) \<le> 16 \<and> vw_metadata v (fn_name n) = Some (tr_destination t) \<and> tr_mutates t = graph_mutates (vw_import v) n"
    if t: "gr_transfer r = Some t" for t
  proof -
    from assms(1) t obtain sem where "node_transfer v n ?h = Inr (Some t, sem)"
      by (auto simp: inventory_node_def Let_def res_simps)
    with h show ?thesis by (auto simp: node_transfer_def Let_def split: option.splits)
  qed
  ultimately show ?thesis by blast
qed

lemma inventory_loop_short:
  "inventory_loop v g ns hs = Inr rs \<Longrightarrow> short_histories hs \<Longrightarrow> r \<in> set rs \<Longrightarrow> gr_transfer r = Some t \<Longrightarrow>
     length (tr_layout_history t) \<le> 16"
proof (induction ns arbitrary: hs rs)
  case (Cons n ns)
  from Cons.prems(1) obtain x hs1 rs1 where x: "inventory_node v g n hs = Inr (x, hs1)"
    and rest: "inventory_loop v g ns hs1 = Inr rs1" and rs: "rs = x # rs1" by (auto simp: res_simps)
  note s = inventory_node_short [OF x Cons.prems(2)]
  show ?case
  proof (cases "r = x")
    case True
    with s Cons.prems(4) show ?thesis by blast
  next
    case False
    with Cons.IH [OF rest] s Cons.prems(3,4) rs show ?thesis by auto
  qed
qed simp

end
