(* ===== verification/Operator_Properties.thy ===== *)
theory Operator_Properties
  imports Operators Observation Worked_Call Import_Example
begin

text \<open>
  What the custom operators promise Torch, and what the two accounts of transfers, of dispatches and of graphs, hold.
\<close>

section \<open>Operators\<close>

text \<open>
  C37. A kernel keeps the promise of its fake.  Every operator does at most one piece of work; a tensor it returns has
  exactly the shape, dtype and device kind that the fake kernel announced, its strides wherever the extent is not one,
  starts at offset zero and shares no storage with the source; and a handle that is unknown or closed does nothing.
\<close>

theorem operator_matches_fake:
  assumes "operator_kernel h g c w = (r, w')" and "world_ok w"
  shows "world_ok w' \<and> (\<exists>es. wd_log w' = wd_log w @ es \<and> length es \<le> 1) \<and>
    (\<forall>t. r = Inr (Some t) \<longrightarrow> \<not> ho_alias h t (operator_source c) \<and> lv_shape t = cd_shape (operator_fake c) \<and>
      lv_dtype t = cd_dtype (operator_fake c) \<and> lv_offset t = 0 \<and> dv_type (lv_device t) = dv_type (concrete_descriptor.cd_device (operator_fake c)) \<and>
      (\<forall>(size, stride, promised) \<in> set (zip (lv_shape t) (zip (lv_strides t) (cd_strides (operator_fake c)))). size = 1 \<or> stride = promised)) \<and>
    ((\<exists>e. lookup_handle entry_closed (operator_handle c) g = Inl e) \<longrightarrow> w' = w \<and> (\<exists>e. r = Inl e))"
proof -
  note k = operator_kernel_cases [OF assms]
  have "verify_result (ho_alias h) (Some t) (operator_source c) (operator_fake c) = Inr (Some t)" if "r = Inr (Some t)" for t
    using operator_result assms that by blast
  then show ?thesis using k by (auto simp: verify_result_iff one_piece_def)
qed

definition vector_registry :: "entry registry" where
  "vector_registry = \<lparr>rg_next = 1, rg_entries = [(''reloc-1-0'', vector_entry)]\<rparr>"

definition vector_operator :: operator_call where
  "vector_operator = Layout_Operator host_vector ''reloc-1-0'' [128] [64, 2] [2, 1] gpu0"

lemma vector_operator_runs: "fst (operator_kernel vector_host vector_registry vector_operator quiet_world) = Inr (Some device_matrix)"
proof -
  have "lookup_handle entry_closed ''reloc-1-0'' vector_registry = Inr vector_entry"
    by (simp add: lookup_handle_def vector_registry_def vector_flags)
  moreover have "declared_output [64, 2] [2, 1] (lv_dtype host_vector) gpu0 = matrix_descriptor"
    by (simp add: declared_output_def matrix_descriptor_def host_vector_def)
  ultimately have "operator_kernel vector_host vector_registry vector_operator =
      execute_or_fallback vector_host None vector_entry host_vector (Some [128]) gpu0 False (Some matrix_descriptor) []"
    by (simp add: operator_kernel_def vector_operator_def execute_layout_operator_def)
  moreover have "symbols_differ vector_entry [(''s0'', PyInt 128)] [128] = Inr False" by code_simp
  then have "execute_or_fallback vector_host None vector_entry host_vector (Some [128]) gpu0 False (Some matrix_descriptor) [] quiet_world =
      adapter_branch vector_host vector_entry host_vector (Some [128]) [] [] [(''s0'', PyInt 128)] matrix_descriptor matrix_descriptor None quiet_world"
    by (simp add: execute_or_fallback_def vector_flags vector_admitted vector_frontend after_binding_def act_bind_def lift_res_def
        choose_placement_def quiet_world_def)
  moreover have "fst (adapter_branch vector_host vector_entry host_vector (Some [128]) [] [] [(''s0'', PyInt 128)] matrix_descriptor
      matrix_descriptor None quiet_world) = Inr (Some device_matrix)" by code_simp
  ultimately show ?thesis by simp
qed

theorem operator_matches_fake_witness:
  "\<exists>w'. operator_kernel vector_host vector_registry vector_operator quiet_world = (Inr (Some device_matrix), w') \<and> world_ok w' \<and>
     lv_shape device_matrix = cd_shape (operator_fake vector_operator)"
proof -
  obtain r w' where run: "operator_kernel vector_host vector_registry vector_operator quiet_world = (r, w')" by fastforce
  with vector_operator_runs have "r = Inr (Some device_matrix)" by simp
  with operator_matches_fake [OF run quiet_world_ok] run show ?thesis by blast
qed

section \<open>Accounts of transfers\<close>

lemma dispatch_events:
  "dispatch c (observe_events es new_observer) = (r, ob) \<Longrightarrow> observer_ok ob"
  using observe_events_ok [OF new_observer_ok] by (rule dispatch_ok)

text \<open>
  The observer forgets in time.  After any sequence of dispatches, phases and deaths of tensors and one more dispatch, no
  remembered or recorded history is longer than its limit; and where that dispatch wrote and returned, every tensor's
  history is empty, whichever address it has.
\<close>

theorem observed_histories:
  assumes "dispatch c (observe_events es new_observer) = (r, ob)"
  shows "observer_ok ob \<and> (\<forall>v t. r = Inr v \<longrightarrow> written_tensors c \<noteq> [] \<longrightarrow> history_of ob t = [])"
  using dispatch_events [OF assms] dispatch_cleared assms by blast

definition view_dispatch :: observed_call where
  "view_dispatch = \<lparr>dc_name = ''aten.view.default'', dc_bound = [(''self'', OTensor (1, 1), False)], dc_foreach_copy = False,
     dc_layout = True, dc_result = Inr (OTensor (2, 2)),
     dc_before = (\<lambda>_. metadata_of host_vector False), dc_after = (\<lambda>_. metadata_of host_vector False), dc_alias = (\<lambda>_ _. True)\<rparr>"

definition add_dispatch :: observed_call where
  "add_dispatch = view_dispatch\<lparr>dc_name := ''aten.add_.Tensor'', dc_bound := [(''self'', OTensor (1, 1), True)], dc_layout := False,
     dc_result := Inr (OTensor (1, 1))\<rparr>"

theorem observed_histories_witness:
  "\<exists>r ob. history_of (observe_events [Dispatched view_dispatch] new_observer) (2, 2) = [''aten.view.default''] \<and>
     dispatch add_dispatch (observe_events [Dispatched view_dispatch] new_observer) = (r, ob) \<and> history_of ob (2, 2) = []"
proof -
  obtain r ob where run: "dispatch add_dispatch (observe_events [Dispatched view_dispatch] new_observer) = (r, ob)" by fastforce
  then have "r = Inr (OTensor (1, 1))"
    by (auto simp: dispatch_def Let_def add_dispatch_def split: if_splits)
  moreover have "written_tensors add_dispatch \<noteq> []" by code_simp
  moreover have "history_of (observe_events [Dispatched view_dispatch] new_observer) (2, 2) = [''aten.view.default'']" by code_simp
  ultimately show ?thesis using observed_histories [OF run] run by blast
qed

text \<open>
  The inventory is a complete account.  When it succeeds, its records are the nodes of the graph, in order, and every
  transfer among them carries a history within the limit.
\<close>

theorem inventory_complete:
  assumes "graph_inventory v g = Inr rs"
  shows "map gr_node_name rs = map fn_name g \<and>
    (\<forall>r\<in>set rs. \<forall>t. gr_transfer r = Some t \<longrightarrow> length (tr_layout_history t) \<le> 16)"
proof -
  have "short_histories Map.empty" by (simp add: short_histories_def)
  with assms inventory_loop_names inventory_loop_short show ?thesis unfolding graph_inventory_def by blast
qed

definition readme_inventory :: inventory_world where
  "readme_inventory = \<lparr>vw_import = readme_world,
     vw_metadata = (\<lambda>m. if m = ''output'' then None
       else Some (metadata_of (if m = ''moved'' then device_matrix else host_vector) False)),
     vw_same_storage = (\<lambda>m k. m \<noteq> ''moved'' \<and> k \<noteq> ''moved'')\<rparr>"

theorem inventory_complete_witness:
  "\<exists>rs. graph_inventory readme_inventory readme_fx = Inr rs \<and>
     map gr_node_name rs = [''x'', ''rows'', ''cols'', ''moved'', ''output''] \<and>
     map_of (map (\<lambda>r. (gr_node_name r, gr_alias_semantics r)) rs) ''moved'' = Some ''distinct''"
proof -
  have some: "case graph_inventory readme_inventory readme_fx of Inr rs \<Rightarrow>
      map_of (map (\<lambda>r. (gr_node_name r, gr_alias_semantics r)) rs) ''moved'' = Some ''distinct'' | _ \<Rightarrow> False"
    by code_simp
  then obtain rs where run: "graph_inventory readme_inventory readme_fx = Inr rs" by (auto split: sum.splits)
  with inventory_complete [OF run] some show ?thesis by (simp add: readme_fx_def)
qed

end
