(* ===== verification/Normalisation.thy ===== *)
theory Normalisation
  imports Fx_Import Ordered_Dict
begin

text \<open>
  From a captured graph to the closed vocabulary: \<open>fx_canonical_call\<close>, \<open>fx_validate_scalar\<close> and \<open>fx_fake_call\<close> of
  \<open>reloc_torch/compat.py\<close> and \<open>normalize_graph\<close> of \<open>reloc_torch/fx_import.py\<close>.
\<close>

section \<open>Canonical calls\<close>

text \<open>
  Torch's share: the parser of the arguments of \<open>Tensor.to\<close>, \<open>torch.device\<close>, and an operator evaluated on metadata,
  \<open>nw_call\<close>, given what its node arguments stand for.  \<open>nw_fake\<close> says which nodes came with a fake tensor.
\<close>

type_synonym parsed_to = "device option \<times> string option \<times> bool \<times> string option"

record normal_world =
  nw_import :: import_world
  nw_parse_to :: "fx_arg list \<Rightarrow> (string \<times> fx_arg) list \<Rightarrow> parsed_to res"
  nw_device :: "fx_arg \<Rightarrow> device res"
  nw_call :: "(string \<Rightarrow> meta_value) \<Rightarrow> string \<Rightarrow> fx_arg list \<Rightarrow> (string \<times> fx_arg) list \<Rightarrow> meta_value res"
  nw_fake :: "string \<Rightarrow> bool"

type_synonym canonical = "string \<times> fx_arg list \<times> (string \<times> fx_arg) list"

definition unrecognized :: exn where "unrecognized = ValueErr ''unrecognized_fx_target''"

definition no_metadata :: exn where "no_metadata = ValueErr ''metadata_unavailable''"

text \<open>\<open>kwargs.pop\<close>, with and without a default.\<close>

definition pop_keyword :: "string \<Rightarrow> (string \<times> fx_arg) list \<Rightarrow> (fx_arg \<times> (string \<times> fx_arg) list) res" where
  "pop_keyword k kwargs = (case map_of kwargs k of None \<Rightarrow> Inl (KeyErr k) | Some v \<Rightarrow> Inr (v, od_del k kwargs))"

definition pop_default :: "string \<Rightarrow> fx_arg \<Rightarrow> (string \<times> fx_arg) list \<Rightarrow> fx_arg \<times> (string \<times> fx_arg) list" where
  "pop_default k v kwargs = (case map_of kwargs k of None \<Rightarrow> (v, kwargs) | Some u \<Rightarrow> (u, od_del k kwargs))"

text \<open>Python's truth of an argument.\<close>

definition arg_true :: "fx_arg \<Rightarrow> bool" where
  "arg_true a = (case a of VNone \<Rightarrow> False | VBool b \<Rightarrow> b | VInt i \<Rightarrow> i \<noteq> 0 | VStr s \<Rightarrow> s \<noteq> [] | VList as \<Rightarrow> as \<noteq> []
     | VFloat (Finite _ q) \<Rightarrow> q \<noteq> 0 | _ \<Rightarrow> True)"

definition keyword_or_none :: "string \<Rightarrow> (string \<times> fx_arg) list \<Rightarrow> fx_arg" where
  "keyword_or_none k kwargs = (case map_of kwargs k of None \<Rightarrow> VNone | Some v \<Rightarrow> v)"

text \<open>\<open>Tensor.t\<close>: a missing argument list is read from the keywords.\<close>

definition canonical_t :: "fx_node \<Rightarrow> canonical res" where
  "canonical_t n = (let kwargs = fn_kwargs n;
       args = (if fn_args n \<noteq> [] then fn_args n
         else [if arg_true (keyword_or_none ''self'' kwargs) then keyword_or_none ''self'' kwargs else keyword_or_none ''input'' kwargs])
     in if hd args = VNone then Inl unrecognized else Inr (''aten.transpose.int'', [hd args, VInt 0, VInt 1], []))"

text \<open>The receiver, from the keyword \<open>self\<close> or \<open>input\<close> when there are no positional arguments.\<close>

definition with_receiver :: "fx_node \<Rightarrow> (fx_arg list \<times> (string \<times> fx_arg) list) res" where
  "with_receiver n = (if fn_args n \<noteq> [] then Inr (fn_args n, fn_kwargs n)
     else let key = (if map_of (fn_kwargs n) ''self'' \<noteq> None then ''self'' else ''input'') in
       case map_of (fn_kwargs n) key of None \<Rightarrow> Inl unrecognized | Some v \<Rightarrow> Inr ([v], od_del key (fn_kwargs n)))"

definition canonical_view :: "import_world \<Rightarrow> fkind \<Rightarrow> fx_node \<Rightarrow> canonical res" where
  "canonical_view w kind n = res_bind (with_receiver n) (\<lambda>(args, kwargs).
     if node_schema w n \<noteq> None then Inr (fn_target n, args, kwargs)
     else if kind = K_Squeeze then
       (if length args = 1 \<and> map_of kwargs ''dim'' = None then Inr (''aten.squeeze.default'', args, kwargs)
        else res_bind (if 1 < length args then Inr (args ! 1) else case map_of kwargs ''dim'' of None \<Rightarrow> Inl (KeyErr ''dim'') | Some v \<Rightarrow> Inr v) (\<lambda>dim.
          case dim of VInt _ \<Rightarrow> Inr (''aten.squeeze.dim'', args, kwargs) | VList _ \<Rightarrow> Inr (''aten.squeeze.dims'', args, kwargs)
          | _ \<Rightarrow> Inl (ValueErr ''unsupported_view_dimension'')))
     else Inr (if kind = K_Unsqueeze then ''aten.unsqueeze.default'' else ''aten.flatten.using_ints'', args, kwargs))"

text \<open>The attributes of the receiver's value; a value that is no tensor has none.\<close>

definition value_tensor :: "meta_value \<Rightarrow> meta_tensor res" where
  "value_tensor v = (case v of Tensor_Meta t \<Rightarrow> Inr t | _ \<Rightarrow> Inl (OtherExn ''AttributeError''))"

definition given_or :: "'a option \<Rightarrow> 'a res \<Rightarrow> 'a res" where
  "given_or given other = (case given of Some x \<Rightarrow> Inr x | None \<Rightarrow> other)"

definition format_arg :: "string option \<Rightarrow> fx_arg" where
  "format_arg f = (case f of None \<Rightarrow> VNone | Some t \<Rightarrow> VFormat t)"

definition copy_position :: "fx_arg list \<Rightarrow> nat" where
  "copy_position as = (case as of VStr _ # _ \<Rightarrow> 3 | VDevice _ # _ \<Rightarrow> 3 | _ \<Rightarrow> 2)"

text \<open>\<open>Tensor.to\<close>: the positional \<open>copy\<close> stands last and is not what the parser sees.\<close>

definition canonical_to :: "normal_world \<Rightarrow> meta_value \<Rightarrow> fx_arg \<Rightarrow> fx_arg list \<Rightarrow> (string \<times> fx_arg) list \<Rightarrow> canonical res" where
  "canonical_to nw v source as kwargs =
     (let i = copy_position as in
      res_bind (if i < length as
          then if length as \<noteq> Suc i \<or> map_of kwargs ''copy'' \<noteq> None then Inl unrecognized else Inr (butlast as, last as)
          else Inr (as, case map_of kwargs ''copy'' of None \<Rightarrow> VBool False | Some c \<Rightarrow> c)) (\<lambda>(as, copy).
      case copy of VBool b \<Rightarrow> res_bind (nw_parse_to nw as (od_del ''copy'' kwargs)) (\<lambda>(device, dtype, non_blocking, form).
          res_bind (given_or device (res_bind (value_tensor v) (\<lambda>t. Inr (mt_device t)))) (\<lambda>device.
          res_bind (given_or dtype (res_bind (value_tensor v) (\<lambda>t. Inr (ts_dtype (mt_spec t))))) (\<lambda>dtype.
          Inr (''aten.to.device'', [source, VDevice device, VDtype dtype],
            [(''non_blocking'', VBool non_blocking), (''copy'', VBool b), (''memory_format'', format_arg form)]))))
      | _ \<Rightarrow> Inl unrecognized))"

definition set_position :: "fx_arg list \<Rightarrow> nat \<Rightarrow> string \<Rightarrow> (string \<times> fx_arg) list \<Rightarrow> (string \<times> fx_arg) list" where
  "set_position as i k kwargs = (if i < length as then od_set k (as ! i) kwargs else kwargs)"

definition canonical_transfer :: "normal_world \<Rightarrow> fx_node \<Rightarrow> meta_value \<Rightarrow> fx_arg list \<Rightarrow> (string \<times> fx_arg) list \<Rightarrow> canonical res" where
  "canonical_transfer nw n v as kwargs =
     (if v = No_Value then Inl no_metadata
      else if fn_target n = ''to'' then canonical_to nw v (hd as) (tl as) kwargs
      else if fn_target n = ''cpu'' then res_bind (value_tensor v) (\<lambda>t.
        Inr (''aten.to.device'', [hd as, VDevice \<lparr>dv_type = ''cpu'', dv_index = None\<rparr>, VDtype (ts_dtype (mt_spec t))],
          set_position as 1 ''memory_format'' kwargs))
      else let (device, kwargs) = (if 1 < length as then (as ! 1, kwargs) else pop_default ''device'' VNone kwargs) in
        res_bind (case device of VNone \<Rightarrow> Inr \<lparr>dv_type = ''cuda'', dv_index = None\<rparr>
            | VInt i \<Rightarrow> Inr \<lparr>dv_type = ''cuda'', dv_index = Some i\<rparr> | d \<Rightarrow> nw_device nw d) (\<lambda>device.
        res_bind (value_tensor v) (\<lambda>t.
        Inr (''aten.to.device'', [hd as, VDevice device, VDtype (ts_dtype (mt_spec t))],
          set_position as 3 ''memory_format'' (set_position as 2 ''non_blocking'' kwargs)))))"

text \<open>A shape given as several arguments, as one sequence or as a keyword.\<close>

definition canonical_shape :: "fkind \<Rightarrow> fx_node \<Rightarrow> fx_arg list \<Rightarrow> (string \<times> fx_arg) list \<Rightarrow> canonical res" where
  "canonical_shape kind n as kwargs =
     (let key = (if kind = K_Permute then ''dims'' else if fn_target n = ''view'' then ''size'' else ''shape'');
          target = (if kind = K_Permute then ''aten.permute.default''
            else if fn_target n = ''view'' then ''aten.view.default'' else ''aten.reshape.default'')
      in res_bind (case tl as of [] \<Rightarrow> pop_keyword key kwargs | [VList vs] \<Rightarrow> Inr (VList vs, kwargs) | vs \<Rightarrow> Inr (VList vs, kwargs))
        (\<lambda>(values, kwargs). Inr (target, [hd as, values], kwargs)))"

definition canonical_pad :: "fx_arg list \<Rightarrow> (string \<times> fx_arg) list \<Rightarrow> canonical res" where
  "canonical_pad as kwargs =
     res_bind (if 1 < length as then Inr (as ! 1, kwargs) else pop_keyword ''pad'' kwargs) (\<lambda>(pad, kwargs).
       let (mode, kwargs) = (if 2 < length as then (as ! 2, kwargs) else pop_default ''mode'' (VStr ''constant'') kwargs);
           (fill, kwargs) = (if 3 < length as then (as ! 3, kwargs) else pop_default ''value'' VNone kwargs)
       in if mode \<noteq> VStr ''constant'' then Inl (ValueErr ''unsupported_padding'')
          else Inr (''aten.constant_pad_nd.default'', [hd as, pad, if fill = VNone then VInt 0 else fill], kwargs))"

text \<open>The calls that are neither operators nor one of the views above, with their receiver in front.\<close>

definition canonical_rest :: "normal_world \<Rightarrow> fkind \<Rightarrow> fx_node \<Rightarrow> meta_value \<Rightarrow> canonical res" where
  "canonical_rest nw kind n v =
     (let (as, kwargs) = (if fn_args n = [] then case map_of (fn_kwargs n) ''input'' of
             None \<Rightarrow> ([], fn_kwargs n) | Some a \<Rightarrow> ([a], od_del ''input'' (fn_kwargs n))
           else (fn_args n, fn_kwargs n))
      in if as = [] then Inl unrecognized
         else if kind = K_Transfer then canonical_transfer nw n v as kwargs
         else if kind = K_Permute \<or> kind = K_Reshape then canonical_shape kind n as kwargs
         else if kind = K_Transpose then Inr (''aten.transpose.int'', as, kwargs)
         else if kind = K_Materialize then
           Inr (if fn_target n = ''contiguous'' then ''aten.contiguous.default'' else ''aten.clone.default'', [hd as],
             set_position as 1 ''memory_format'' kwargs)
         else if kind = K_Pad then canonical_pad as kwargs
         else if fn_op n = Op_Method \<and> fn_target n = ''size'' \<and> length as = 2 then Inr (''aten.sym_size.int'', as, kwargs)
         else if fn_op n = Op_Method then Inl unrecognized
         else Inr (fn_target n, as, kwargs))"

definition canonical_index :: "fx_node \<Rightarrow> canonical res" where
  "canonical_index n = (if map_of (fn_kwargs n) ''out'' \<noteq> None then Inl unrecognized
     else res_bind (with_receiver n) (\<lambda>(as, kwargs). Inr (''aten.index_select.default'', as, kwargs)))"

text \<open>\<open>fx_canonical_call\<close>.\<close>

definition canonical_call :: "normal_world \<Rightarrow> fx_node \<Rightarrow> meta_value \<Rightarrow> canonical res" where
  "canonical_call nw n v = (let w = nw_import nw in case node_kind w n of
     None \<Rightarrow> Inl unrecognized
   | Some kind \<Rightarrow>
       if fn_op n = Op_Function \<and> fn_target n \<in> {''aten.t.default'', ''torch.t''} \<or> fn_op n = Op_Method \<and> fn_target n = ''t''
       then canonical_t n
       else case quantized_overload w n of
         Some t \<Rightarrow> Inr (t, fn_args n, fn_kwargs n)
       | None \<Rightarrow>
           if kind = K_Index_Select then canonical_index n
           else if kind \<in> {K_Squeeze, K_Unsqueeze, K_Flatten} then canonical_view w kind n
           else if node_schema w n \<noteq> None then Inr (fn_target n, fn_args n, fn_kwargs n)
           else canonical_rest nw kind n v)"

section \<open>Values\<close>

text \<open>
  What a node stands for, and whether it is a fake tensor.  A resolved argument keeps the reference of a tensor and
  replaces a scalar by its value.
\<close>

type_synonym node_values = "string \<Rightarrow> meta_value \<times> bool"

fun resolve_arg :: "node_values \<Rightarrow> fx_arg \<Rightarrow> fx_arg res" where
  "resolve_arg env (VRef m) = (case fst (env m) of No_Value \<Rightarrow> Inl no_metadata | Scalar_Meta a \<Rightarrow> Inr a | Tensor_Meta _ \<Rightarrow> Inr (VRef m))"
| "resolve_arg env (VList as) = res_bind (mapR (resolve_arg env) as) (\<lambda>as. Inr (VList as))"
| "resolve_arg env a = Inr a"

definition resolve_keywords :: "node_values \<Rightarrow> (string \<times> fx_arg) list \<Rightarrow> (string \<times> fx_arg) list res" where
  "resolve_keywords env = mapR (\<lambda>(k, a). res_bind (resolve_arg env a) (\<lambda>a. Inr (k, a)))"

definition is_number :: "fx_arg \<Rightarrow> bool" where
  "is_number a = (case a of VInt _ \<Rightarrow> True | VSym _ _ \<Rightarrow> True | _ \<Rightarrow> False)"

definition fake_arg :: "node_values \<Rightarrow> fx_arg \<Rightarrow> bool" where
  "fake_arg env a = (case a of VRef m \<Rightarrow> snd (env m) | _ \<Rightarrow> False)"

text \<open>\<open>fx_validate_scalar\<close>; an index error is caught by its caller.\<close>

definition scalar_ok :: "node_values \<Rightarrow> string \<Rightarrow> fx_arg list \<Rightarrow> unit res" where
  "scalar_ok env target as =
     (if target = ''getattr'' then ensure (length as = 2 \<and> as ! 1 = VStr ''shape'' \<and> fake_arg env (as ! 0)) unrecognized
      else if target = ''operator.getitem'' then
        (if length as < 1 then Inl (OtherExn ''IndexError'')
         else case as ! 0 of VList _ \<Rightarrow> if length as < 2 then Inl (OtherExn ''IndexError'')
             else (case as ! 1 of VInt _ \<Rightarrow> Inr () | _ \<Rightarrow> Inl unrecognized)
           | _ \<Rightarrow> Inl unrecognized)
      else if target \<in> {''operator.add'', ''operator.sub'', ''operator.mul'', ''operator.floordiv'', ''operator.mod''}
      then ensure (list_all is_number as) unrecognized
      else Inr ())"

definition tensor_of :: "node_values \<Rightarrow> fx_arg \<Rightarrow> meta_tensor res" where
  "tensor_of env a = (case a of VRef m \<Rightarrow> value_tensor (fst (env m)) | _ \<Rightarrow> Inl (OtherExn ''AttributeError''))"

definition keyword_or :: "string \<Rightarrow> fx_arg \<Rightarrow> (string \<times> fx_arg) list \<Rightarrow> fx_arg" where
  "keyword_or k v opts = (case map_of opts k of None \<Rightarrow> v | Some u \<Rightarrow> u)"

text \<open>The transfers of \<open>fx_fake_call\<close>: a call that moves nothing is its source, any other a copy.\<close>

definition fake_transfer :: "normal_world \<Rightarrow> node_values \<Rightarrow> (string \<times> fx_arg) list \<Rightarrow> fx_arg \<Rightarrow> meta_value res" where
  "fake_transfer nw env opts source =
     res_bind (tensor_of env source) (\<lambda>t.
     let other = keyword_or_none ''other'' opts in
     res_bind (if other = VNone then Inr (keyword_or ''dtype'' (VDtype (ts_dtype (mt_spec t))) opts, keyword_or ''device'' (VDevice (mt_device t)) opts)
       else res_bind (tensor_of env other) (\<lambda>u. Inr (VDtype (ts_dtype (mt_spec u)), VDevice (mt_device u)))) (\<lambda>(dtype, device).
     if device = VDevice (mt_device t) \<and> dtype = VDtype (ts_dtype (mt_spec t)) \<and> \<not> arg_true (keyword_or ''copy'' (VBool False) opts) \<and>
        keyword_or_none ''memory_format'' opts \<in> {VNone, VFormat ''preserve_format''}
     then Inr (Tensor_Meta t)
     else nw_call nw (fst \<circ> env) ''aten._to_copy.default'' [source]
       [(''device'', device), (''dtype'', dtype), (''non_blocking'', keyword_or ''non_blocking'' (VBool False) opts),
        (''memory_format'', keyword_or_none ''memory_format'' opts)]))"

definition fake_call :: "normal_world \<Rightarrow> node_values \<Rightarrow> string \<Rightarrow> fx_arg list \<Rightarrow> (string \<times> fx_arg) list \<Rightarrow> meta_value res" where
  "fake_call nw env target as kwargs =
     res_bind (scalar_ok env target as) (\<lambda>_.
     if target \<in> {''aten.to.device'', ''aten.to.dtype'', ''aten.to.other''} then
       (case iw_schema (nw_import nw) target of
          None \<Rightarrow> Inl (OtherExn ''AttributeError'')
        | Some s \<Rightarrow> if as = [] then Inl (OtherExn ''IndexError'')
            else fake_transfer nw env (map (\<lambda>(k, v, _). (k, v)) (bind_schema (sc_arguments s) as kwargs)) (hd as))
     else nw_call nw (fst \<circ> env) target as kwargs)"

section \<open>Normalisation\<close>

text \<open>The exceptions that become a reason; others end the import.\<close>

definition normal_reason :: "exn \<Rightarrow> string option" where
  "normal_reason e = (case e of
     ValueErr r \<Rightarrow> Some (if r \<in> {''unrecognized_fx_target'', ''metadata_unavailable'', ''unsupported_padding'', ''unsupported_view_dimension''}
       then r else ''normalization_failed'')
   | TypeErr _ \<Rightarrow> Some ''normalization_failed''
   | RuntimeErr _ \<Rightarrow> Some ''normalization_failed''
   | OtherExn t \<Rightarrow> if t \<in> {''IndexError'', ''NotImplementedError''} then Some ''normalization_failed'' else None
   | _ \<Rightarrow> None)"

definition canonical_node :: "fx_node \<Rightarrow> canonical \<Rightarrow> fx_node" where
  "canonical_node n c = (case c of (target, as, kwargs) \<Rightarrow> n\<lparr>fn_op := Op_Function, fn_target := target, fn_args := as, fn_kwargs := kwargs\<rparr>)"

text \<open>The value of a canonical node; a value that came with the graph is kept.\<close>

definition evaluate_node :: "normal_world \<Rightarrow> node_values \<Rightarrow> fx_node \<Rightarrow> (meta_value \<times> bool) res" where
  "evaluate_node nw env n =
     res_bind (if node_kind (nw_import nw) n = Some K_Scalar
         then res_bind (mapR (resolve_arg env) (fn_args n)) (scalar_ok env (fn_target n)) else Inr ()) (\<lambda>_.
     if fn_value n \<noteq> No_Value then Inr (fn_value n, nw_fake nw (fn_name n))
     else res_bind (mapR (resolve_arg env) (fn_args n)) (\<lambda>as.
          res_bind (resolve_keywords env (fn_kwargs n)) (\<lambda>kwargs.
          res_bind (fake_call nw env (fn_target n) as kwargs) (\<lambda>v. Inr (v, True)))))"

definition refused :: "fx_node \<Rightarrow> exn \<Rightarrow> (fx_node \<times> meta_value \<times> bool) res" where
  "refused n e = (case normal_reason e of
     None \<Rightarrow> Inl e | Some reason \<Rightarrow> Inr (n\<lparr>fn_reason := Some reason\<rparr>, No_Value, False))"

definition normal_call :: "normal_world \<Rightarrow> node_values \<Rightarrow> fx_node \<Rightarrow> (fx_node \<times> meta_value \<times> bool) res" where
  "normal_call nw env n = (case canonical_call nw n (case tensor_input n of None \<Rightarrow> No_Value | Some m \<Rightarrow> fst (env m)) of
     Inl e \<Rightarrow> refused n e
   | Inr c \<Rightarrow> (case evaluate_node nw env (canonical_node n c) of
       Inl e \<Rightarrow> refused (canonical_node n c) e
     | Inr v \<Rightarrow> Inr (canonical_node n c, v)))"

text \<open>A placeholder without metadata takes the next example input; a real tensor is excluded or becomes fake.\<close>

definition normal_placeholder :: "normal_world \<Rightarrow> fx_node \<Rightarrow> meta_value option \<Rightarrow> fx_node \<times> meta_value \<times> bool" where
  "normal_placeholder nw n supplied =
     (let v = (if fn_value n \<noteq> No_Value then fn_value n else case supplied of None \<Rightarrow> No_Value | Some u \<Rightarrow> u) in
      case v of Tensor_Meta t \<Rightarrow>
          if nw_fake nw (fn_name n) then (n, v, True)
          else if mt_subclass t then (n\<lparr>fn_reason := Some ''tensor_subclass''\<rparr>, No_Value, False)
          else if \<not> mt_strided t \<or> mt_quantized t then (n\<lparr>fn_reason := Some ''unsupported_layout''\<rparr>, No_Value, False)
          else (n, v, True)
      | _ \<Rightarrow> (n, v, False))"

definition normal_node :: "normal_world \<Rightarrow> node_values \<Rightarrow> fx_node \<Rightarrow> meta_value list \<Rightarrow> ((fx_node \<times> meta_value \<times> bool) \<times> meta_value list) res" where
  "normal_node nw env n inputs = (case fn_op n of
     Op_Placeholder \<Rightarrow> Inr (normal_placeholder nw n (case inputs of [] \<Rightarrow> None | v # _ \<Rightarrow> Some v), tl inputs)
   | Op_Function \<Rightarrow> res_bind (normal_call nw env n) (\<lambda>r. Inr (r, inputs))
   | Op_Method \<Rightarrow> res_bind (normal_call nw env n) (\<lambda>r. Inr (r, inputs))
   | _ \<Rightarrow> Inr ((n, fn_value n, nw_fake nw (fn_name n)), inputs))"

fun normal_nodes :: "normal_world \<Rightarrow> node_values \<Rightarrow> fx_graph \<Rightarrow> meta_value list \<Rightarrow> fx_graph res" where
  "normal_nodes nw env [] inputs = Inr []"
| "normal_nodes nw env (n # ns) inputs = res_bind (normal_node nw env n inputs) (\<lambda>((n', v), inputs).
     res_bind (normal_nodes nw (env(fn_name n := v)) ns inputs) (\<lambda>ns'. Inr (n'\<lparr>fn_value := fst v\<rparr> # ns')))"

definition normalize_graph :: "normal_world \<Rightarrow> meta_value list \<Rightarrow> fx_graph \<Rightarrow> fx_graph res" where
  "normalize_graph nw inputs g = normal_nodes nw (\<lambda>_. (No_Value, False)) g inputs"

text \<open>\<open>import_graph\<close> from the captured graph on.\<close>

definition import_captured :: "normal_world \<Rightarrow> meta_value list \<Rightarrow> fx_graph \<Rightarrow> import_report res option" where
  "import_captured nw inputs orig = (case normalize_graph nw inputs orig of
     Inl e \<Rightarrow> Some (Inl e)
   | Inr g \<Rightarrow> import_graph (nw_import nw) orig g)"

end
