(* ===== verification/Normal_Properties.thy ===== *)
theory Normal_Properties
  imports Normalisation Import_Properties
begin

text \<open>
  What normalisation keeps of a captured graph, and the import of captures as a whole.
\<close>

section \<open>References\<close>

definition call_refs :: "fx_arg list \<Rightarrow> (string \<times> fx_arg) list \<Rightarrow> string set" where
  "call_refs as kwargs = \<Union> (set ` refs ` set as) \<union> \<Union> (set ` refs ` snd ` set kwargs)"

lemma all_input_refs: "set (all_input_nodes n) = call_refs (fn_args n) (fn_kwargs n)"
  by (auto simp: all_input_nodes_def call_refs_def)

lemma set_od_set: "set (od_set k v d) \<subseteq> insert (k, v) (set d)"
  by (induction d) (auto split: if_splits)

lemma call_refs_Cons: "call_refs (a # as) kwargs = set (refs a) \<union> call_refs as kwargs"
  by (auto simp: call_refs_def)

lemma call_refs_Nil: "call_refs [] [] = {}"
  by (simp add: call_refs_def)

lemma call_refs_keyword: "call_refs as ((k, v) # kwargs) = set (refs v) \<union> call_refs as kwargs"
  by (auto simp: call_refs_def)

lemma keyword_refs: "map_of kwargs k = Some v \<Longrightarrow> set (refs v) \<subseteq> call_refs as kwargs"
  by (force simp: call_refs_def dest: map_of_SomeD)

lemma argument_refs: "a \<in> set as \<Longrightarrow> set (refs a) \<subseteq> call_refs as kwargs"
  by (force simp: call_refs_def)

lemma call_refs_del: "call_refs as (od_del k kwargs) \<subseteq> call_refs as kwargs"
  by (auto simp: call_refs_def od_del_def)

lemma call_refs_set: "call_refs as (od_set k v kwargs) \<subseteq> set (refs v) \<union> call_refs as kwargs"
  using set_od_set [of k v kwargs] by (fastforce simp: call_refs_def)

lemma call_refs_keywords: "call_refs [] kwargs \<subseteq> call_refs as kwargs"
  by (auto simp: call_refs_def)

lemma call_refs_split: "call_refs as kwargs = call_refs as [] \<union> call_refs [] kwargs"
  by (auto simp: call_refs_def)

lemma call_refs_args: "call_refs as [] \<subseteq> X \<Longrightarrow> call_refs [] kwargs \<subseteq> X \<Longrightarrow> call_refs as kwargs \<subseteq> X"
  by (subst call_refs_split) simp

lemma set_position_refs: "call_refs [] (set_position as i k kwargs) \<subseteq> call_refs as kwargs"
proof (cases "i < length as")
  case True
  then show ?thesis using call_refs_set [of "[]" k "as ! i" kwargs] argument_refs [of "as ! i" as kwargs] call_refs_keywords [of kwargs as]
    by (auto simp: set_position_def)
next
  case False
  then show ?thesis using call_refs_keywords by (simp add: set_position_def)
qed

lemma pop_keyword_refs: "pop_keyword k kwargs = Inr (v, kwargs') \<Longrightarrow> set (refs v) \<union> call_refs as kwargs' \<subseteq> call_refs as kwargs"
  using keyword_refs [of kwargs k v as] call_refs_del [of as k kwargs] by (auto simp: pop_keyword_def split: option.splits)

lemma pop_default_refs: "pop_default k d kwargs = (v, kwargs') \<Longrightarrow> refs d = [] \<Longrightarrow> set (refs v) \<union> call_refs as kwargs' \<subseteq> call_refs as kwargs"
  using keyword_refs [of kwargs k v as] call_refs_del [of as k kwargs] by (auto simp: pop_default_def split: option.splits)

lemma with_receiver_refs: "with_receiver n = Inr (as, kwargs) \<Longrightarrow> call_refs as kwargs \<subseteq> set (all_input_nodes n)"
  using keyword_refs [of "fn_kwargs n" _ _ "[]"] call_refs_del [of "[]" _ "fn_kwargs n"]
  by (fastforce simp: with_receiver_def all_input_refs call_refs_Cons Let_def split: if_splits option.splits)

lemma keyword_or_none_refs: "set (refs (keyword_or_none k kwargs)) \<subseteq> call_refs as kwargs"
  using keyword_refs by (auto simp: keyword_or_none_def split: option.splits)

section \<open>Canonical calls refer to nothing new\<close>

lemma canonical_t_refs: "canonical_t n = Inr (t, as, ks) \<Longrightarrow> call_refs as ks \<subseteq> set (all_input_nodes n)"
  using keyword_or_none_refs [of "''self''" "fn_kwargs n" "fn_args n"] keyword_or_none_refs [of "''input''" "fn_kwargs n" "fn_args n"]
    argument_refs [of "hd (fn_args n)" "fn_args n" "fn_kwargs n"]
  by (auto simp: canonical_t_def Let_def all_input_refs call_refs_Cons call_refs_Nil split: if_splits)

lemma canonical_view_refs: "canonical_view w kind n = Inr (t, as, ks) \<Longrightarrow> call_refs as ks \<subseteq> set (all_input_nodes n)"
  using with_receiver_refs [of n] by (auto simp: canonical_view_def res_simps split: if_splits fx_arg.splits) (metis fx_arg.exhaust)+

lemma canonical_index_refs: "canonical_index n = Inr (t, as, ks) \<Longrightarrow> call_refs as ks \<subseteq> set (all_input_nodes n)"
  using with_receiver_refs by (auto simp: canonical_index_def res_simps split: if_splits)

lemma format_arg_refs: "refs (format_arg f) = []"
  by (simp add: format_arg_def split: option.split)

lemma canonical_to_refs: "canonical_to nw v source as kwargs = Inr (t, bs, ks) \<Longrightarrow> call_refs bs ks \<subseteq> set (refs source)"
proof -
  assume run: "canonical_to nw v source as kwargs = Inr (t, bs, ks)"
  obtain as' copy where "(case copy of VBool b \<Rightarrow> res_bind (nw_parse_to nw as' (od_del ''copy'' kwargs)) (\<lambda>(device, dtype, non_blocking, form).
          res_bind (given_or device (res_bind (value_tensor v) (\<lambda>t. Inr (mt_device t)))) (\<lambda>device.
          res_bind (given_or dtype (res_bind (value_tensor v) (\<lambda>t. Inr (ts_dtype (mt_spec t))))) (\<lambda>dtype.
          Inr (''aten.to.device'', [source, VDevice device, VDtype dtype],
            [(''non_blocking'', VBool non_blocking), (''copy'', VBool b), (''memory_format'', format_arg form)]))))
      | _ \<Rightarrow> Inl unrecognized) = Inr (t, bs, ks)"
    using run by (auto simp only: canonical_to_def Let_def res_bind_eq_Inr split_paired_Ex prod.case)
  then show ?thesis
    by (cases copy) (auto simp: res_simps call_refs_Cons call_refs_keyword call_refs_Nil format_arg_refs)
qed

lemma canonical_transfer_refs:
  assumes "canonical_transfer nw n v as kwargs = Inr (t, bs, ks)" and "as \<noteq> []"
  shows "call_refs bs ks \<subseteq> call_refs as kwargs"
proof -
  have hd: "set (refs (hd as)) \<subseteq> call_refs as kwargs" using argument_refs assms(2) by simp
  have two: "call_refs [] (set_position as i k (set_position as j l ks)) \<subseteq> call_refs as kwargs" if "call_refs as ks \<subseteq> call_refs as kwargs" for i j k l ks
    using set_position_refs [of as i k "set_position as j l ks"] set_position_refs [of as j l ks] that call_refs_split [of as ks]
      call_refs_split [of as "set_position as j l ks"] by blast
  have pop: "call_refs as ks \<subseteq> call_refs as kwargs" if "pop_default ''device'' VNone kwargs = (d, ks)" for d ks
    using pop_default_refs [OF that, of as] by simp
  from assms(1) consider
      "canonical_to nw v (hd as) (tl as) kwargs = Inr (t, bs, ks)"
    | d u where "bs = [hd as, VDevice d, VDtype u]" "ks = set_position as 1 ''memory_format'' kwargs"
    | d u ks' where "bs = [hd as, VDevice d, VDtype u]" "ks = set_position as 3 ''memory_format'' (set_position as 2 ''non_blocking'' ks')"
        "call_refs as ks' \<subseteq> call_refs as kwargs"
    using pop by (auto simp: canonical_transfer_def res_simps Let_def split: if_splits prod.splits)
  then show ?thesis
  proof cases
    case 1
    with canonical_to_refs [OF 1] hd show ?thesis by blast
  next
    case 2
    with hd set_position_refs [of as 1 "''memory_format''" kwargs] show ?thesis by (auto simp: call_refs_Cons)
  next
    case 3
    with hd two [OF 3(3)] show ?thesis by (auto simp: call_refs_Cons)
  qed
qed

lemma canonical_shape_refs:
  assumes "canonical_shape kind n as kwargs = Inr (t, bs, ks)" and "as \<noteq> []"
  shows "call_refs bs ks \<subseteq> call_refs as kwargs"
proof -
  obtain a bs' where split: "as = a # bs'" using assms(2) by (cases as) auto
  have tail: "call_refs [VList bs'] ks \<subseteq> call_refs as ks" for ks by (auto simp: split call_refs_def)
  from assms(1) obtain v where v: "bs = [hd as, v]"
    and "(\<exists>k. bs' = [] \<and> pop_keyword k kwargs = Inr (v, ks)) \<or> (ks = kwargs \<and> (v = VList bs' \<or> bs' = [v]))"
    by (auto simp: canonical_shape_def Let_def res_simps split split: list.splits fx_arg.splits)
  then show ?thesis
  proof (elim disjE conjE exE)
    fix k assume "bs' = []" "pop_keyword k kwargs = Inr (v, ks)"
    with v pop_keyword_refs [of k kwargs v ks as] show ?thesis by (simp add: split call_refs_Cons)
  next
    assume "ks = kwargs" "v = VList bs'"
    with v show ?thesis by (auto simp: split call_refs_def)
  next
    assume "ks = kwargs" "bs' = [v]"
    with v show ?thesis by (simp add: split)
  qed
qed

lemma canonical_pad_refs:
  assumes "canonical_pad as kwargs = Inr (t, bs, ks)" and "as \<noteq> []"
  shows "call_refs bs ks \<subseteq> call_refs as kwargs"
proof -
  obtain pad ks1 where pad: "(if 1 < length as then Inr (as ! 1, kwargs) else pop_keyword ''pad'' kwargs) = Inr (pad, ks1)"
    using assms(1) by (auto simp: canonical_pad_def res_simps split: if_splits)
  obtain mode ks2 where mode: "(if 2 < length as then (as ! 2, ks1) else pop_default ''mode'' (VStr ''constant'') ks1) = (mode, ks2)"
    by fastforce
  obtain fill ks3 where fill: "(if 3 < length as then (as ! 3, ks2) else pop_default ''value'' VNone ks2) = (fill, ks3)"
    by fastforce
  have bs: "bs = [hd as, pad, if fill = VNone then VInt 0 else fill]" "ks = ks3"
    using assms(1) pad mode fill by (auto simp: canonical_pad_def split: if_splits)
  have 1: "set (refs pad) \<union> call_refs as ks1 \<subseteq> call_refs as kwargs"
    using pad pop_keyword_refs [of "''pad''" kwargs pad ks1 as] argument_refs [of "as ! 1" as kwargs] by (auto split: if_splits)
  have 2: "call_refs as ks2 \<subseteq> call_refs as ks1"
    using mode pop_default_refs [of "''mode''" "VStr ''constant''" ks1 mode ks2 as] by (auto split: if_splits)
  have 3: "set (refs fill) \<union> call_refs as ks3 \<subseteq> call_refs as ks2"
    using fill pop_default_refs [of "''value''" VNone ks2 fill ks3 as] argument_refs [of "as ! 3" as ks2] by (auto split: if_splits)
  have 4: "set (refs (hd as)) \<subseteq> call_refs as kwargs" using argument_refs assms(2) by simp
  have "call_refs [] ks3 \<subseteq> call_refs as ks3" by (rule call_refs_keywords)
  with 1 2 3 4 show ?thesis by (simp add: bs call_refs_Cons) blast
qed

lemma canonical_rest_refs:
  assumes "canonical_rest nw kind n v = Inr (t, bs, ks)"
  shows "call_refs bs ks \<subseteq> set (all_input_nodes n)"
proof -
  obtain as kwargs where r: "(if fn_args n = [] then case map_of (fn_kwargs n) ''input'' of
      None \<Rightarrow> ([], fn_kwargs n) | Some a \<Rightarrow> ([a], od_del ''input'' (fn_kwargs n)) else (fn_args n, fn_kwargs n)) = (as, kwargs)"
    by fastforce
  have sub: "call_refs as kwargs \<subseteq> set (all_input_nodes n)"
    using r keyword_refs [of "fn_kwargs n" "''input''" _ "fn_args n"] call_refs_del [of "fn_args n" "''input''" "fn_kwargs n"]
    by (auto simp: all_input_refs call_refs_Cons split: if_splits option.splits)
  have ne: "as \<noteq> []" using assms r by (auto simp: canonical_rest_def Let_def)
  have "set (refs (hd as)) \<subseteq> call_refs as kwargs" using argument_refs ne by simp
  moreover have "call_refs [] (set_position as 1 ''memory_format'' kwargs) \<subseteq> call_refs as kwargs" by (rule set_position_refs)
  ultimately have "call_refs bs ks \<subseteq> call_refs as kwargs"
    using assms ne canonical_transfer_refs [of nw n v as kwargs t bs ks] canonical_shape_refs [of kind n as kwargs t bs ks]
      canonical_pad_refs [of as kwargs t bs ks]
    by (simp add: canonical_rest_def r) (auto simp: call_refs_Cons split: if_splits)
  with sub show ?thesis by blast
qed

lemma canonical_call_refs:
  assumes "canonical_call nw n v = Inr (t, as, ks)"
  shows "call_refs as ks \<subseteq> set (all_input_nodes n)"
  using assms canonical_t_refs [of n t as ks] canonical_index_refs [of n t as ks] canonical_view_refs [of _ _ n t as ks]
    canonical_rest_refs [of nw _ n v t as ks]
  by (auto simp: canonical_call_def Let_def all_input_refs split: option.splits if_splits)

section \<open>Nodes and graphs\<close>

lemma canonical_node_fields [simp]: "fn_name (canonical_node n c) = fn_name n" "fn_value (canonical_node n c) = fn_value n"
  by (auto simp: canonical_node_def split: prod.splits)

lemma canonical_node_refs: "canonical_call nw n v = Inr c \<Longrightarrow> set (all_input_nodes (canonical_node n c)) \<subseteq> set (all_input_nodes n)"
  using canonical_call_refs by (cases c) (auto simp: canonical_node_def all_input_refs)

lemma refused_node: "refused n e = Inr (n', v) \<Longrightarrow> n' = n\<lparr>fn_reason := fn_reason n'\<rparr> \<and> fst v = No_Value \<and> fn_reason n' \<noteq> None"
  by (auto simp: refused_def split: option.splits)

lemma all_input_reason [simp]: "all_input_nodes (n\<lparr>fn_reason := r\<rparr>) = all_input_nodes n" "all_input_nodes (n\<lparr>fn_value := x\<rparr>) = all_input_nodes n"
  by (simp_all add: all_input_nodes_def)

text \<open>What one node keeps; a new reason leaves it without a value, and an unknown call stays as it is.\<close>

definition kept_node :: "import_world \<Rightarrow> fx_node \<Rightarrow> fx_node \<Rightarrow> bool" where
  "kept_node w n n' \<longleftrightarrow> fn_name n' = fn_name n \<and> set (all_input_nodes n') \<subseteq> set (all_input_nodes n) \<and>
     (fn_reason n' \<noteq> fn_reason n \<longrightarrow> fn_value n' = No_Value) \<and>
     (fn_op n \<in> {Op_Function, Op_Method} \<and> node_kind w n = None \<longrightarrow>
       n' = n\<lparr>fn_reason := Some ''unrecognized_fx_target'', fn_value := No_Value\<rparr>) \<and>
     (fn_op n \<notin> {Op_Placeholder, Op_Function, Op_Method} \<longrightarrow> n' = n)"

lemma normal_call_kept:
  assumes "normal_call nw env n = Inr (n', v)" and "fn_op n \<in> {Op_Function, Op_Method}"
  shows "kept_node (nw_import nw) n (n'\<lparr>fn_value := fst v\<rparr>)"
proof (cases "canonical_call nw n (case tensor_input n of None \<Rightarrow> No_Value | Some m \<Rightarrow> fst (env m))")
  case (Inl e)
  with assms(1) have r: "refused n e = Inr (n', v)" by (simp add: normal_call_def)
  have "fn_reason n' = Some ''unrecognized_fx_target''" if "node_kind (nw_import nw) n = None"
    using that Inl r by (auto simp: canonical_call_def refused_def normal_reason_def unrecognized_def)
  moreover obtain q where q: "n' = n\<lparr>fn_reason := q\<rparr>" "fst v = No_Value" using refused_node [OF r] by blast
  ultimately have "q = Some ''unrecognized_fx_target''" if "node_kind (nw_import nw) n = None" using that by simp
  with q assms(2) show ?thesis by (auto simp: kept_node_def)
next
  case (Inr c)
  note refs = canonical_node_refs [OF Inr]
  have known: "node_kind (nw_import nw) n \<noteq> None"
    using Inr by (cases "node_kind (nw_import nw) n") (simp_all add: canonical_call_def unrecognized_def)
  show ?thesis
  proof (cases "evaluate_node nw env (canonical_node n c)")
    case (Inl e)
    with assms(1) Inr have "refused (canonical_node n c) e = Inr (n', v)" by (simp add: normal_call_def)
    from refused_node [OF this] obtain q where "n' = (canonical_node n c)\<lparr>fn_reason := q\<rparr>" "fst v = No_Value" by blast
    with known refs assms(2) show ?thesis by (auto simp: kept_node_def)
  next
    case v: (Inr u)
    with assms(1) Inr have "n' = canonical_node n c" by (simp add: normal_call_def)
    with known refs assms(2) show ?thesis by (auto simp: kept_node_def canonical_node_def split: prod.splits)
  qed
qed

lemma normal_node_kept:
  assumes "normal_node nw env n inputs = Inr ((n', v), rest)"
  shows "kept_node (nw_import nw) n (n'\<lparr>fn_value := fst v\<rparr>)"
proof (cases "fn_op n \<in> {Op_Function, Op_Method}")
  case True
  with assms have "normal_call nw env n = Inr (n', v)" by (auto simp: normal_node_def res_simps)
  then show ?thesis using True by (rule normal_call_kept)
next
  case False
  with assms show ?thesis
    by (cases "fn_op n") (auto simp: normal_node_def normal_placeholder_def Let_def kept_node_def split: meta_value.splits if_splits)
qed

lemma normal_nodes_kept: "normal_nodes nw env ns inputs = Inr ns' \<Longrightarrow> list_all2 (kept_node (nw_import nw)) ns ns'"
proof (induction ns arbitrary: env inputs ns')
  case (Cons n ns)
  from Cons.prems obtain n1 v rest ns1 where n: "normal_node nw env n inputs = Inr ((n1, v), rest)"
    and ns: "normal_nodes nw (env(fn_name n := v)) ns rest = Inr ns1" and ns': "ns' = n1\<lparr>fn_value := fst v\<rparr> # ns1"
    by (auto simp: res_simps)
  from normal_node_kept [OF n] Cons.IH [OF ns] show ?case by (simp add: ns')
qed simp

lemma kept_names: "list_all2 (kept_node w) g g' \<Longrightarrow> map fn_name g' = map fn_name g"
  by (induction rule: list_all2_induct) (auto simp: kept_node_def)

lemma kept_order:
  assumes "list_all2 (kept_node w) g g'" and "well_ordered g"
  shows "well_ordered g'"
proof -
  have names: "map fn_name g' = map fn_name g" and len: "length g' = length g" 
    using kept_names [OF assms(1)] assms(1) by (auto dest: list_all2_lengthD)
  have "set (all_input_nodes (g' ! i)) \<subseteq> fn_name ` set (take i g')" if i: "i < length g'" for i
  proof -
    have "set (all_input_nodes (g' ! i)) \<subseteq> set (all_input_nodes (g ! i))"
      using list_all2_nthD [OF assms(1)] i len by (simp add: kept_node_def)
    also have "\<dots> \<subseteq> fn_name ` set (take i g)" using assms(2) i len by (simp add: well_ordered_def)
    also have "\<dots> = fn_name ` set (take i g')" using names by (metis list.set_map take_map)
    finally show ?thesis .
  qed
  with assms(2) names show ?thesis by (simp add: well_ordered_def)
qed

lemma normalize_order: "normalize_graph nw inputs g = Inr g' \<Longrightarrow> well_ordered g \<Longrightarrow> well_ordered g'"
  using normal_nodes_kept kept_order unfolding normalize_graph_def by blast

section \<open>Captures\<close>

text \<open>
  C38. What normalisation keeps.  The normalised graph has the nodes of the capture, by name and in order.  A node refers
  to nothing it did not refer to before; where a reason is recorded it has no value; a call outside the vocabulary stays
  exactly as it is, with the reason and without a value; a node that is neither a placeholder nor a call is not touched.
\<close>

theorem normalisation_keeps:
  assumes "normalize_graph nw inputs g = Inr g'"
  shows "map fn_name g' = map fn_name g \<and> list_all2 (kept_node (nw_import nw)) g g'"
  using normal_nodes_kept [of nw _ g inputs g'] kept_names assms unfolding normalize_graph_def by blast

text \<open>
  C34. Importing a capture ends.  Whatever graph is captured in execution order, whatever Torch answers on the way, the
  import returns: its report or an exception.
\<close>

theorem captures_terminate:
  assumes "well_ordered orig"
  shows "\<exists>r. import_captured nw inputs orig = Some r"
proof (cases "normalize_graph nw inputs orig")
  case (Inl e)
  then show ?thesis by (simp add: import_captured_def)
next
  case (Inr g)
  from import_graph_discovered [OF normalize_order [OF Inr assms]] show ?thesis
    by (metis Inr import_captured_def sum.case(2))
qed

section \<open>An example\<close>

text \<open>The README's program as Dynamo records it, with method calls and example values.\<close>

definition readme_torch :: normal_world where
  "readme_torch = \<lparr>nw_import = readme_world\<lparr>iw_schema := torch_schemas(''aten.to.device'' \<mapsto>
       \<lparr>sc_arguments = [(''self'', False), (''device'', False), (''dtype'', False), (''non_blocking'', False), (''copy'', False),
         (''memory_format'', False)], sc_alias_returns = True\<rparr>)\<rparr>,
     nw_parse_to = (\<lambda>as kwargs. case as of [VDevice d] \<Rightarrow> Inr (Some d, None, False,
         case map_of kwargs ''memory_format'' of Some (VFormat f) \<Rightarrow> Some f | _ \<Rightarrow> None) | _ \<Rightarrow> Inl (TypeErr [])),
     nw_device = (\<lambda>_. Inl (TypeErr [])), nw_call = (\<lambda>_ _ _ _. Inl (OtherExn ''NotImplementedError'')), nw_fake = (\<lambda>_. True)\<rparr>"

definition method_node :: "fx_node \<Rightarrow> string \<Rightarrow> fx_arg list \<Rightarrow> (string \<times> fx_arg) list \<Rightarrow> fx_node" where
  "method_node n target as kwargs = n\<lparr>fn_op := Op_Method, fn_target := target, fn_args := as, fn_kwargs := kwargs\<rparr>"

definition readme_captured :: fx_graph where
  "readme_captured = [readme_fx ! 0, method_node (readme_fx ! 1) ''view'' [VRef ''x'', VInt (-1), VInt 64] [],
     method_node (readme_fx ! 2) ''t'' [VRef ''rows''] [],
     method_node (readme_fx ! 3) ''to'' [VRef ''cols'', VDevice gpu0] [(''memory_format'', VFormat ''contiguous_format'')],
     readme_fx ! 4]"

lemma readme_captured_ordered: "well_ordered readme_captured"
  by (auto simp: well_ordered_def readme_captured_def readme_fx_def method_node_def all_input_nodes_def less_Suc_eq_0_disj)

lemma readme_normalised:
  "case normalize_graph readme_torch [] readme_captured of
     Inr g \<Rightarrow> take 3 g = take 3 readme_fx \<and> fn_target (g ! 3) = ''aten.to.device'' \<and> list_all (\<lambda>n. fn_reason n = None) g
   | _ \<Rightarrow> False"
  by code_simp

lemma readme_captured_imported:
  "case import_captured readme_torch [] readme_captured of
     Some (Inr rep) \<Rightarrow> map region_of (ir_candidates rep) = [chain_region]
   | _ \<Rightarrow> False"
  by code_simp

theorem normalisation_keeps_witness:
  "\<exists>g. normalize_graph readme_torch [] readme_captured = Inr g \<and> map fn_name g = [''x'', ''rows'', ''cols'', ''moved'', ''output'']"
proof -
  obtain g where g: "normalize_graph readme_torch [] readme_captured = Inr g"
    using readme_normalised by (auto split: sum.splits)
  from normalisation_keeps [OF g] g show ?thesis by (simp add: readme_captured_def readme_fx_def method_node_def)
qed

theorem captures_terminate_witness:
  "\<exists>r. import_captured readme_torch [] readme_captured = Some r \<and> \<not> isl r"
proof -
  from captures_terminate [OF readme_captured_ordered] obtain r where "import_captured readme_torch [] readme_captured = Some r" by blast
  with readme_captured_imported show ?thesis by (auto split: sum.splits)
qed

end
