(* ===== verification/Spec2Isabelle.thy ===== *)
theory Spec2Isabelle
  imports Service_Properties Data_Properties Runtime_Properties Owner_Properties Capture_Properties Backend_Life
    Import_Properties Swap_Properties Session_Properties Operator_Properties Normal_Properties
begin

text \<open>
  Sym, the Python frontend of the relocation runtime: a verification development of
  \<open>src/libreloc/python/reloc_torch\<close>.

  The program.  A PyTorch program moves tensors between devices, often after a change of layout.  The
  frontend recognises such a chain in a captured graph, describes it by a \<^emph>\<open>recipe\<close> with symbolic extents,
  has a compiler turn the recipe into a \<^emph>\<open>plan\<close>, admits the compiler's answer as a \<^emph>\<open>compiled artifact\<close> only
  after checking it against the recipe, and replaces the chain by one operation.  When the operation runs it
  checks the live tensor, binds the symbols, and executes the plan natively or falls back to the original
  chain.  Around that path stand caches, a persistent store, resource owners, prepared weights, a transfer
  queue, a placement policy and an interceptor of eager copies.

  How the theories follow the code (file names are relative to \<open>reloc_torch\<close>):

  \<^item> Data.  \<open>Symbolic\<close>, \<open>Canonical\<close>, \<open>Shapes\<close> and \<open>Binding\<close> model \<open>symbolic.py\<close>: expressions with evaluation checked
    against 64 bits, the canonicalising constructors, dense strides and reshape inference, and \<open>bind_recipe\<close>
    with each of its guards.  \<open>Recipe\<close> is \<open>recipe.py\<close>, \<open>Emit\<close> is \<open>mlir_emit.py\<close> up to the text it produces.
  \<^item> Artifacts.  \<open>Base64\<close>, \<open>Json\<close>, \<open>Serialization\<close>, \<open>Normalize\<close>, \<open>Manifest\<close>, \<open>Typed_Sections\<close> and \<open>Artifact\<close> model
    \<open>artifact.py\<close> and \<open>indexed_artifact.py\<close>; \<open>Admission\<close> has what an admitted artifact guarantees.
  \<^item> Services.  \<open>Diagnostics\<close>, \<open>Artifact_Cache\<close> (\<open>cache.py\<close>), \<open>Templates\<close> (\<open>execution_templates.py\<close>), \<open>Store\<close>
    (\<open>artifact_store.py\<close>), \<open>Eligibility\<close> (\<open>records.py\<close>, \<open>eligibility.py\<close>), \<open>Ledger\<close> and \<open>Wire_Weights\<close>
    (\<open>wire_weights.py\<close>), \<open>Transfer_Queue\<close> (\<open>asynchronous.py\<close>).
  \<^item> Execution.  \<open>Runtime\<close> (\<open>runtime.py\<close>, the binding of \<open>index_select.py\<close>), \<open>Placement\<close>, \<open>Single_Use\<close> with
    \<open>Transport\<close>, \<open>Dispatch\<close>, \<open>Resources\<close>, \<open>Eager\<close>.
  \<^item> Owners.  \<open>Group\<close> and \<open>Contention\<close> (\<open>group.py\<close>), \<open>Replay\<close> and \<open>Weights\<close> (\<open>weights.py\<close>).
  \<^item> The compile backend.  \<open>Graph_Rewrite\<close> (insertion and replacement in one graph), \<open>Backend\<close> (the state of a
    \<open>RelocBackend\<close>), \<open>Capture\<close> (its invariant), \<open>Rewriting\<close> (a whole pass), all \<open>backend.py\<close>.
  \<^item> Graph import.  \<open>Provenance\<close> (\<open>SymbolicContext\<close> of \<open>compat.py\<close>: SymPy trees to expressions), \<open>Packing\<close> (padding values
    to bit patterns), \<open>Fx_Graph\<close> (nodes, schemas, the operator vocabulary of \<open>compat.py\<close>, the search for regions),
    \<open>Fx_Region\<close> (\<open>_safety\<close>), \<open>Fx_Recipe\<close> (\<open>_recipe\<close>, one definition per kind of stage) and \<open>Fx_Import\<close> (extraction,
    selections and \<open>import_graph\<close>) model \<open>fx_import.py\<close> from the normalised graph on, \<open>Normalisation\<close> the way there
    (\<open>fx_canonical_call\<close>, \<open>normalize_graph\<close>).  \<open>Fx_Candidates\<close> has what a
    discovered candidate satisfies, \<open>Fx_Typing\<close> that its recipe is typed, \<open>Fx_Sources\<close> its symbol sources and
    \<open>Fx_Extract\<close> its extracted callable.

  \<^item> Fast path.  \<open>Fast\<close> (owners, groups and completions), \<open>Fast_Window\<close> (the prefetching window), \<open>Fast_Programs\<close>
    (prepared programs, selections, pooled sums and their operators), \<open>Fast_Swap\<close> (eviction of caches) and
    \<open>Fast_Weights\<close> (groups of prepared weights) model \<open>fast.py\<close> and \<open>fast_ops.py\<close>.  \<open>Fast_Owner\<close> has the owner's
    invariant, \<open>Fast_Runs\<close> what calls and whole runs keep, \<open>Fast_Order\<close> the order of the window.
  \<^item> Around it.  \<open>Compiler_Client\<close> (\<open>compiler.py\<close>: the exporter, its digest and the store), \<open>Preparation\<close>
    (the rest of \<open>index_select.py\<close>, and \<open>preparation.py\<close>: sessions that compile once and serve), \<open>Operators\<close> (\<open>ops.py\<close>) and
    \<open>Observation\<close> (\<open>observer.py\<close>, \<open>graph_inventory.py\<close>).

  State.  An object with mutable fields is a record with one field per attribute: \<open>artifact_cache\<close>, \<open>templates\<close>,
  \<open>store\<close>, \<open>diagnostics\<close>, \<open>registry\<close>, \<open>budget\<close>, the queue, \<open>policy\<close>, \<open>prepared_transfer\<close>, \<open>prepared_weights\<close>,
  \<open>backend\<close> and so on.  An operation is a function from the state (and what the outside answers during the
  call) to its result and the new state.  A Python exception is the left injection of \<open>exn + 'a\<close>; changes made
  before it stay.  A dictionary whose order is observable is an association list (\<open>Ordered_Dict\<close>); objects that
  are compared by identity or shared, such as tensors, entries and groups, carry an identity.  Python's
  integers are \<open>int\<close>; where the code checks a width (64-bit evaluation, fill and parameter bits, wire fields) the
  check is part of the model.  An argument the code tests with \<open>type(x) is int\<close> is a \<open>pyint\<close>.  Threads appear where
  the code can interleave: the artifact cache and the lock walk of groups are step relations; a section held
  under one lock is one step.

  Abstract interfaces, as locales with an interpretation on the model's own operations: \<open>codec\<close> and
  \<open>exact_codec\<close> (\<open>Json\<close>; the serializers), \<open>bounded_store\<close> (\<open>Ordered_Dict\<close>; the caches), \<open>ledger\<close> (\<open>Ledger\<close>; the weight budget and the queue), \<open>single_use\<close> (\<open>Single_Use\<close>;
  layout, typed and grouped transfers).

  What the lemmas show.
  \<^item> Binding refines the meaning of recipes: \<open>bind_recipe_refines\<close>, \<open>artifact_binding_refines\<close> and, for replay by
    ordinary operations, \<open>replay_shape\<close>.
  \<^item> Admission: an admitted artifact is the one submitted, with constraints and descriptors that mean what the
    recipe means; serialization is lossless and loading admits again; binding fails only as a guard, indexed or not.
  \<^item> Execution: one piece of work per call, single use of requests and groups in any interleaving, reuse of
    checked metadata and templates is unobservable, errors never leave half a change.
  \<^item> Services: bounds, single flight, budgets and reservations as invariants; draining on close.
  \<^item> The backend: a pass over any number of candidates yields a graph that computes what the captured one does
    (\<open>captured_program_equivalent\<close>), raises only what the compiler raised, owns exactly the handles it reports
    (\<open>failed_inductor_releases\<close>), and a closed backend owns none (\<open>backend_life\<close>).
  \<^item> The importer: discovery ends, its regions are disjoint chains no write, unknown call or outside use disturbs
    (\<open>region_untouched\<close>), its recipes are typed and emitted (\<open>imported_recipes_typed\<close>), its expressions mean what
    Torch recorded (\<open>provenance_exact\<close>), and captured with its report a program computes the same
    (\<open>imported_program_equivalent\<close>).
  \<^item> The fast path: never more than eight groups in flight, each counted once (\<open>in_flight_bounded\<close>), every group given
    to a stream held until it ended (\<open>consumed_groups_end\<close>), a window in the order of its iterable that drains
    (\<open>prefetch_in_order\<close>, \<open>prefetch_drains\<close>), programs that mean their recipe, operators that are their programs,
    weights that are never stale, evicted caches that fill one block exactly (\<open>Swap_Properties\<close>).
  \<^item> Around it: the client and a session answer only with admitted artifacts and notice a compiler that changes,
    by digests of bytes read after the status they stand for (\<open>Client_Properties\<close>, \<open>Session_Properties\<close>), a session bounds its outputs and is idle once closed, an operator returns
    what its fake kernel announced, the accounts of transfers are complete and short (\<open>Operator_Properties\<close>), and
    normalisation keeps nodes, order and unknown calls, so that importing a capture ends (\<open>Normal_Properties\<close>).

  Parameters.  Code outside the package is an argument of the definitions that use it: the plan decoder, the
  layout, typed and indexed executors and \<open>sha256\<close> of the compiled extension, the exporter process, its file and the
  environment (\<open>exporter\<close>, numbered by a clock), the text layer of JSON, Torch's operations on shapes and its answers about tensors, CUDA events, clocks, process
  identities, random handle suffixes, the names Torch gives new graph nodes, operator schemas, the answers of the
  shape environment, operators on fake tensors and the parser of \<open>Tensor.to\<close> (\<open>normal_world\<close>), and the native dispatch, streams and allocator of the
  fast path (\<open>fast_native\<close>, \<open>program_native\<close>, numbered by a clock so that an answer may change).  A hypothesis about one of them
  states documented behaviour (\<open>torch_documented\<close>, \<open>standard_ops\<close>, \<open>fresh_namer\<close>, \<open>serves\<close>, \<open>allocates\<close>),
  and its property has a witness with a concrete instance.

  Bounds and fuel.  Every loop of the modelled code is structural or has a measure, and the loops over shared
  state terminate by the size of what is left.  The walks along the arguments of a graph are partial functions,
  shown to return on graphs in execution order (\<open>imports_terminate\<close>, \<open>captures_terminate\<close>).  Only \<open>visit\<close>, the recursion of \<open>_extract\<close>, has
  a depth: the number of nodes plus one, enough because arguments precede their users (\<open>extraction_closed\<close>).

  Not modelled.  Floating-point arithmetic of the placement model is rational arithmetic.  Weak references and
  finalizers are explicit release steps, so a moment at which the collector runs is a moment at which a
  release is performed.  Operating-system failures of file locking and I/O beyond the branches the code takes
  on them, hardware discovery, version checks, the registration of Torch operators, prefolded weight files, the
  installed tools with their diagnosis, examples and benchmarks are left out: they call other programs or inspect
  Torch's own objects, and decide nothing the modelled components rely on.
  \<open>FastWeights.prefetch\<close> is left out: its generator reads the store while the window runs.
  The C++ runtime and the MLIR passes are other languages; what the frontend reads of their results is
  modelled on the reading side.
\<close>

end
